(* ===== verification/Ncv_Prelude.thy ===== *)
theory Ncv_Prelude
  imports Main "HOL-Library.Word"
begin

text \<open>
  Shared vocabulary of the development: C bytes and NUL-terminated strings, the error
  monad used by every fallible routine, little-endian reads, and the generic lemmas on lists,
  characters and words that the component theories rely on.

  Conventions.
  \<^item> A C \<open>char\<close>/\<open>NCV_U8\<close> of a text file is an Isabelle \<^typ>\<open>char\<close> (a byte);
    its unsigned value is \<open>ord c\<close>. The bytes of a ROM are words of type \<^typ>\<open>8 word\<close>.
  \<^item> A \<open>const char *\<close> is represented by the bytes it points at. Reading at or behind the
    end of that list yields the terminator (\<open>c_at\<close>), so a plain Isabelle string stands for a
    NUL-terminated C string and a fixed array (which may lack a terminator) for its full contents.
  \<^item> \<open>NCV_SIZE\<close> and \<open>UINTN\<close> values that the code bounds before using them are natural
    numbers; where the code guards an addition against wrap-around the 64-bit limit is written out.
\<close>

unbundle bit_operations_syntax

named_theorems ncv_defs \<open>unfolding of small model constants\<close>
named_theorems text_simps \<open>effect of the bounded text builder\<close>
named_theorems line_simps \<open>effect of one configuration line on the parser state\<close>

type_synonym NCV_SIZE = nat
type_synonym NCV_U8 = "8 word"
type_synonym NCV_U16 = "16 word"
type_synonym NCV_U32 = "32 word"
type_synonym UINT64 = "64 word"

abbreviation ord :: "char \<Rightarrow> nat" where
  "ord c \<equiv> of_char c"

abbreviation NUL :: char where "NUL \<equiv> CHR 0x00"
abbreviation TAB :: char where "TAB \<equiv> CHR 0x09"
abbreviation LF :: char where "LF \<equiv> CHR 0x0A"
abbreviation CR :: char where "CR \<equiv> CHR 0x0D"
abbreviation QUOTE :: char where "QUOTE \<equiv> CHR 0x22"
abbreviation BACKSLASH :: char where "BACKSLASH \<equiv> CHR 0x5C"
abbreviation CRLF :: string where "CRLF \<equiv> [CR, LF]"

text \<open>The largest value of \<open>UINTN\<close>/\<open>NCV_SIZE\<close>.\<close>

definition MAX_UINTN :: nat where
  "MAX_UINTN = 2 ^ 64 - 1"

definition c_at :: "char list \<Rightarrow> nat \<Rightarrow> char" where
  "c_at s i = (if i < length s then s ! i else NUL)"

definition cstr :: "char list \<Rightarrow> string" where
  "cstr s = takeWhile (\<lambda>c. c \<noteq> NUL) s"

definition printable :: "char \<Rightarrow> bool" where
  "printable c \<longleftrightarrow> 0x20 \<le> ord c \<and> ord c \<le> 0x7e"

subsection \<open>The error monad\<close>

text \<open>
  A fallible routine returns \<open>'e + 'a\<close>: \<open>Inl\<close> is the early return with its status,
  \<open>Inr\<close> the normal result. \<open>ebind\<close> is the sequencing the C code writes as
  \<open>if (error) return error\<close>; \<open>efold\<close> is a loop that leaves at the first error.
\<close>

fun ebind :: "'e + 'a \<Rightarrow> ('a \<Rightarrow> 'e + 'b) \<Rightarrow> 'e + 'b" where
  "ebind (Inl e) f = Inl e"
| "ebind (Inr x) f = f x"

fun efold :: "('s \<Rightarrow> 'x \<Rightarrow> 'e + 's) \<Rightarrow> 's \<Rightarrow> 'x list \<Rightarrow> 'e + 's" where
  "efold f s [] = Inr s"
| "efold f s (x # xs) = ebind (f s x) (\<lambda>s'. efold f s' xs)"

definition guard_err :: "bool \<Rightarrow> 'e \<Rightarrow> 'e + unit" where
  "guard_err ok e = (if ok then Inr () else Inl e)"

subsection \<open>Lemmas on the error monad\<close>

lemma ebind_Inr_iff: "ebind m f = Inr y \<longleftrightarrow> (\<exists>x. m = Inr x \<and> f x = Inr y)"
  by (cases m) auto

lemma ebind_Inl_iff: "ebind m f = Inl e \<longleftrightarrow> m = Inl e \<or> (\<exists>x. m = Inr x \<and> f x = Inl e)"
  by (cases m) auto

lemma ebind_InrE:
  assumes "ebind m f = Inr y"
  obtains x where "m = Inr x" and "f x = Inr y"
  using assms by (auto simp: ebind_Inr_iff)

lemma guard_err_Inr_iff [simp]: "guard_err ok e = Inr u \<longleftrightarrow> ok"
  by (simp add: guard_err_def)

lemma guard_err_Inl_iff [simp]: "guard_err ok e = Inl e' \<longleftrightarrow> \<not> ok \<and> e' = e"
  by (auto simp: guard_err_def)

lemma efold_append: "efold f s (xs @ ys) = ebind (efold f s xs) (\<lambda>s'. efold f s' ys)"
proof (induction xs arbitrary: s)
  case Nil
  then show ?case by simp
next
  case (Cons x xs)
  then show ?case by (cases "f s x") simp_all
qed

text \<open>An invariant of the loop body is an invariant of the loop.\<close>

lemma efold_invariant:
  assumes step: "\<And>s x s'. I s \<Longrightarrow> f s x = Inr s' \<Longrightarrow> I s'"
    and start: "I s" and run: "efold f s xs = Inr t"
  shows "I t"
  using start run
proof (induction xs arbitrary: s)
  case Nil
  then show ?case by simp
next
  case (Cons x xs)
  then obtain s' where "f s x = Inr s'" and "efold f s' xs = Inr t"
    by (auto simp: ebind_Inr_iff)
  with Cons.prems(1) step Cons.IH show ?case by blast
qed

subsection \<open>Lemmas on characters and strings\<close>

lemma c_at_Nil [simp]: "c_at [] i = NUL"
  by (simp add: c_at_def)

lemma c_at_Cons_0 [simp]: "c_at (x # xs) 0 = x"
  by (simp add: c_at_def)

lemma c_at_Cons_Suc [simp]: "c_at (x # xs) (Suc i) = c_at xs i"
  by (simp add: c_at_def)

lemma c_at_length [simp]: "c_at s (length s) = NUL"
  by (simp add: c_at_def)

lemma c_at_less: "i < length s \<Longrightarrow> c_at s i = s ! i"
  by (simp add: c_at_def)

lemma c_at_append_length [simp]: "c_at (xs @ y # ys) (length xs) = y"
  by (simp add: c_at_def)

lemma c_at_0_NUL_iff: "NUL \<notin> set s \<Longrightarrow> c_at s 0 = NUL \<longleftrightarrow> s = []" "NUL \<notin> set s \<Longrightarrow> NUL = c_at s 0 \<longleftrightarrow> s = []"
  by (cases s; auto)+

lemma ord_less_256: "ord c < 256"
  by (metis One_nat_def less_numeral_extra(1) mod_less_divisor of_char_mod_256 zero_less_numeral)

lemma ord_inject [simp]: "(ord c :: nat) = ord d \<longleftrightarrow> c = d"
  by (rule of_char_eq_iff)

lemma printable_not_control:
  assumes "printable c"
  shows "c \<noteq> NUL" and "c \<noteq> TAB" and "c \<noteq> LF" and "c \<noteq> CR"
  using assms by (auto simp: printable_def)

lemma cstr_id: "NUL \<notin> set s \<Longrightarrow> cstr s = s"
  by (auto simp: cstr_def takeWhile_eq_all_conv)

lemma cstr_no_NUL: "NUL \<notin> set (cstr s)"
  by (auto simp: cstr_def dest: set_takeWhileD)

lemma length_cstr_le: "length (cstr s) \<le> length s"
  by (simp add: cstr_def length_takeWhile_le)

lemma cstr_terminated: "c_at s (length (cstr s)) = NUL"
proof (cases "length (cstr s) < length s")
  case True
  then have "s ! length (cstr s) = NUL"
    unfolding cstr_def using nth_length_takeWhile [of "\<lambda>c. c \<noteq> NUL" s] by simp
  with True show ?thesis by (simp add: c_at_def)
next
  case False
  then show ?thesis by (simp add: c_at_def)
qed

lemma c_at_cstr: "i < length (cstr s) \<Longrightarrow> c_at s i = cstr s ! i"
  by (metis c_at_def cstr_def length_cstr_le less_le_trans takeWhile_nth)

lemma takeWhile_take_commute: "takeWhile P (take n xs) = take n (takeWhile P xs)"
  by (induction xs arbitrary: n) (auto simp: take_Cons split: nat.splits)

lemma list_all_printable_set: "list_all printable s \<Longrightarrow> c \<in> set s \<Longrightarrow> printable c"
  by (simp add: list_all_iff)

lemma printable_no_NUL: "list_all printable s \<Longrightarrow> NUL \<notin> set s"
  by (auto simp: list_all_iff dest: printable_not_control)

subsection \<open>Lemmas on words\<close>

text \<open>Shifting left by a digit and or-ing the next digit in is multiply-and-add.\<close>

lemma push_bit_or_digit:
  fixes r :: "'a::len word"
  assumes "d < 2 ^ k"
  shows "push_bit k r OR word_of_nat d = r * 2 ^ k + word_of_nat d"
proof -
  have "push_bit k r AND word_of_nat d = 0"
  proof (rule bit_word_eqI)
    fix n
    have "n \<ge> k \<Longrightarrow> \<not> bit d n"
      using assms by (metis bit_take_bit_iff leD take_bit_nat_eq_self)
    then show "bit (push_bit k r AND word_of_nat d) n \<longleftrightarrow> bit (0 :: 'a word) n"
      by (auto simp: bit_simps)
  qed
  then have "push_bit k r OR word_of_nat d = push_bit k r + word_of_nat d"
    by (rule disjunctive_add_eq_or [symmetric])
  then show ?thesis by (simp add: push_bit_eq_mult)
qed

lemma unat_le_mask_byte: "unat (w :: 8 word) < 256"
  using unsigned_less [of w] by simp

lemma unat_less_u16: "unat (w :: 16 word) < 65536"
  using unsigned_less [of w] by simp

lemma unat_less_u64: "unat (w :: 64 word) < 2 ^ 64"
  using unsigned_less [of w] by simp

lemma unat_less_u32: "unat (w :: 32 word) < 4294967296"
  using unsigned_less [of w] by simp

end
