(* ===== verification/Candidate_Text.thy ===== *)
theory Candidate_Text
  imports Ncv_Prelude
begin

text \<open>
  The bounded text builder of \<open>CandidateIni.c\<close> (\<open>NCV_TEXT\<close> and its \<open>Put*\<close>
  routines), the ASCII copy helpers, and the codec of firmware disk descriptions
  (\<open>NcvIniValueIsExactlyRepresentable\<close>, \<open>NcvEncodeDiskDescription\<close>,
  \<open>CopyDiskDescription\<close>). The interface locale \<open>byte_sink\<close> states what a bounded
  output buffer promises; every \<open>Put*\<close> routine is shown to append one string through it.
\<close>

section \<open>Constants and the text record\<close>

definition NCV_CANDIDATE_STRING_BYTES :: nat where [ncv_defs]: "NCV_CANDIDATE_STRING_BYTES = 129"
definition NCV_CONFIG_TEXT_BYTES :: nat where [ncv_defs]: "NCV_CONFIG_TEXT_BYTES = 65"
definition NCV_ENCODED_DESCRIPTION_BYTES :: nat where
  [ncv_defs]: "NCV_ENCODED_DESCRIPTION_BYTES = 2 * (NCV_CONFIG_TEXT_BYTES - 1) + 3"

text \<open>
  \<open>NCV_TEXT\<close>: the bytes written before the terminator, the capacity of the caller's buffer,
  the write position and the sticky failure flag.
\<close>

record NCV_TEXT =
  t_Data :: string
  t_Capacity :: nat
  t_Used :: nat
  t_Failed :: bool

definition InitText :: "nat \<Rightarrow> NCV_TEXT" where
  "InitText capacity = \<lparr>t_Data = '''', t_Capacity = capacity, t_Used = 0, t_Failed = False\<rparr>"

text \<open>The PCI address structure; a one-constructor datatype so that it can be ordered.\<close>

datatype NCV_PCI_ADDRESS =
  PciAddress (Segment: NCV_U16) (Bus: NCV_U8) (Device: NCV_U8) (Function: NCV_U8)

section \<open>Operations\<close>

fun AsciiEqual :: "string \<Rightarrow> string \<Rightarrow> bool" where
  "AsciiEqual (l # ls) (r # rs) = (if l \<noteq> r then False else AsciiEqual ls rs)"
| "AsciiEqual ls rs = (ls = [] \<and> rs = [])"

text \<open>\<open>None\<close> is the return value 0; \<open>Some\<close> carries the destination string.\<close>

definition CopyAscii :: "nat \<Rightarrow> string \<Rightarrow> string option" where
  "CopyAscii destinationBytes source =
     (let len = length (takeWhile (\<lambda>c. c \<noteq> NUL) (take destinationBytes source))
      in if destinationBytes = 0 \<or> len = 0 \<or> len \<ge> destinationBytes then None
         else if list_all printable (cstr source) then Some (cstr source) else None)"

definition PutChar :: "NCV_TEXT \<Rightarrow> char \<Rightarrow> NCV_TEXT" where
  "PutChar t c =
     (if t_Used t + 1 \<ge> t_Capacity t then t\<lparr>t_Failed := True\<rparr>
      else t\<lparr>t_Data := take (t_Used t) (t_Data t) @ [c], t_Used := t_Used t + 1\<rparr>)"

fun PutText :: "NCV_TEXT \<Rightarrow> string \<Rightarrow> NCV_TEXT" where
  "PutText t [] = t"
| "PutText t (c # cs) = PutText (PutChar t c) cs"

fun PutCommentLoop :: "NCV_TEXT \<Rightarrow> char list \<Rightarrow> nat \<Rightarrow> NCV_TEXT" where
  "PutCommentLoop t source 0 = PutText t ''<unterminated>''"
| "PutCommentLoop t source (Suc n) =
     (let v = c_at source 0
      in if v = NUL then t
         else PutCommentLoop (PutChar t (if printable v then v else CHR ''.'')) (tl source) n)"

definition PutCommentText :: "NCV_TEXT \<Rightarrow> char list option \<Rightarrow> nat \<Rightarrow> NCV_TEXT" where
  "PutCommentText t source capacity =
     (case source of None \<Rightarrow> PutText t ''<unavailable>''
      | Some s \<Rightarrow> PutCommentLoop t s capacity)"

definition HexChars :: string where
  "HexChars = ''0123456789ABCDEF''"

text \<open>\<open>(Value >> ((Digits - Index - 1) * 4)) & 15\<close> of an unsigned value.\<close>

definition HexNibble :: "nat \<Rightarrow> nat \<Rightarrow> nat \<Rightarrow> nat" where
  "HexNibble v digits index = v div 16 ^ (digits - index - 1) mod 16"

definition PutHex :: "NCV_TEXT \<Rightarrow> nat \<Rightarrow> nat \<Rightarrow> NCV_TEXT" where
  "PutHex t v digits = foldl (\<lambda>t i. PutChar t (HexChars ! HexNibble v digits i)) t [0..<digits]"

text \<open>The digit buffer of \<open>PutDec\<close>: least significant digit first, at most \<open>n\<close> digits.\<close>

fun DecDigits :: "nat \<Rightarrow> nat \<Rightarrow> string" where
  "DecDigits 0 v = []"
| "DecDigits (Suc n) v = (if v = 0 then [] else char_of (48 + v mod 10) # DecDigits n (v div 10))"

definition PutDec :: "NCV_TEXT \<Rightarrow> NCV_SIZE \<Rightarrow> NCV_TEXT" where
  "PutDec t v = (if v = 0 then PutChar t (CHR ''0'') else PutText t (rev (DecDigits 24 v)))"

definition PutBdf :: "NCV_TEXT \<Rightarrow> NCV_PCI_ADDRESS \<Rightarrow> NCV_TEXT" where
  "PutBdf t a =
     (let t = PutHex t (unat (Segment a)) 4;
          t = PutChar t (CHR '':'');
          t = PutHex t (unat (Bus a)) 2;
          t = PutChar t (CHR '':'');
          t = PutHex t (unat (Device a)) 2;
          t = PutChar t (CHR ''.'')
      in PutHex t (unat (Function a)) 1)"

fun RepresentableLoop :: "char list \<Rightarrow> nat \<Rightarrow> bool \<Rightarrow> nat \<Rightarrow> bool" where
  "RepresentableLoop v index hasNonSpace 0 = False"
| "RepresentableLoop v index hasNonSpace (Suc n) =
     (let c = c_at v index
      in if c = NUL
         then (if index = 0 \<or> index \<ge> NCV_CONFIG_TEXT_BYTES then False else hasNonSpace)
         else if ord c < 0x20 \<or> ord c > 0x7e \<or> c = CHR ''='' then False
         else RepresentableLoop v (Suc index) (hasNonSpace \<or> c \<noteq> CHR '' '') n)"

definition NcvIniValueIsExactlyRepresentable :: "char list option \<Rightarrow> nat \<Rightarrow> bool" where
  "NcvIniValueIsExactlyRepresentable v capacity =
     (case v of None \<Rightarrow> False
      | Some s \<Rightarrow> if capacity = 0 then False else RepresentableLoop s 0 False capacity)"

text \<open>
  \<open>Inl\<close> is the negative return code, \<open>Inr\<close> the string left in \<open>Output\<close>.
\<close>

definition NcvEncodeDiskDescription :: "char list option \<Rightarrow> nat \<Rightarrow> int + string" where
  "NcvEncodeDiskDescription v capacity =
     (if capacity = 0 \<or> \<not> NcvIniValueIsExactlyRepresentable v NCV_CONFIG_TEXT_BYTES then Inl (-1)
      else let s = cstr (the v);
               quoted = (c_at s 0 = CHR '' '' \<or> c_at s 0 = QUOTE
                         \<or> c_at s (length s - 1) = CHR '' '');
               t = InitText capacity;
               t = (if quoted then PutChar t QUOTE else t);
               t = foldl (\<lambda>t c. PutChar (if quoted \<and> (c = QUOTE \<or> c = BACKSLASH)
                                          then PutChar t BACKSLASH else t) c) t s;
               t = (if quoted then PutChar t QUOTE else t)
           in if t_Failed t then Inl (-2) else Inr (t_Data t))"

fun UnquoteLoop :: "nat \<Rightarrow> string \<Rightarrow> string \<Rightarrow> string option" where
  "UnquoteLoop capacity written [] = None"
| "UnquoteLoop capacity written (c # cs) =
     (if c = QUOTE then
        (if c_at cs 0 \<noteq> NUL \<or> length written \<ge> capacity then None
         else if NcvIniValueIsExactlyRepresentable (Some written) capacity
              then Some written else None)
      else if c = BACKSLASH then
        (let d = c_at cs 0
         in if d \<noteq> BACKSLASH \<and> d \<noteq> QUOTE then None
            else if length written + 1 \<ge> capacity \<or> ord d < 0x20 \<or> ord d > 0x7e \<or> d = CHR ''=''
            then None else UnquoteLoop capacity (written @ [d]) (tl cs))
      else if length written + 1 \<ge> capacity \<or> ord c < 0x20 \<or> ord c > 0x7e \<or> c = CHR ''=''
      then None else UnquoteLoop capacity (written @ [c]) cs)"

definition CopyDiskDescription :: "nat \<Rightarrow> string \<Rightarrow> string option" where
  "CopyDiskDescription capacity v =
     (if c_at v 0 \<noteq> QUOTE then CopyAscii capacity v else UnquoteLoop capacity '''' (tl v))"

section \<open>The bounded sink interface\<close>

text \<open>
  What a client may rely on: a sink accepts one byte at a time; it either appends the byte or,
  once \<open>limit\<close> bytes are in, fails and stays failed. The client lemma is about writing whole
  strings: the write succeeds exactly when everything fits, and then nothing is lost or reordered.
\<close>

locale byte_sink =
  fixes put :: "'t \<Rightarrow> char \<Rightarrow> 't"
    and contents :: "'t \<Rightarrow> string"
    and failed :: "'t \<Rightarrow> bool"
    and limit :: "'t \<Rightarrow> nat"
    and invar :: "'t \<Rightarrow> bool"
  assumes put_invar: "invar t \<Longrightarrow> invar (put t c)"
    and put_limit: "limit (put t c) = limit t"
    and put_room: "invar t \<Longrightarrow> length (contents t) < limit t \<Longrightarrow>
                     contents (put t c) = contents t @ [c] \<and> failed (put t c) = failed t"
    and put_full: "invar t \<Longrightarrow> \<not> length (contents t) < limit t \<Longrightarrow>
                     contents (put t c) = contents t \<and> failed (put t c)"
    and invar_bound: "invar t \<Longrightarrow> length (contents t) \<le> limit t"
begin

lemma write_invar: "invar t \<Longrightarrow> invar (foldl put t s)"
  by (induction s arbitrary: t) (simp_all add: put_invar)

lemma write_limit: "limit (foldl put t s) = limit t"
  by (induction s arbitrary: t) (simp_all add: put_limit)

lemma write_failed_sticky: "invar t \<Longrightarrow> failed t \<Longrightarrow> failed (foldl put t s)"
proof (induction s arbitrary: t)
  case (Cons c s)
  then have "failed (put t c)"
    using put_room put_full by blast
  with Cons show ?case by (simp add: put_invar)
qed simp

lemma write_contents: "invar t \<Longrightarrow> contents (foldl put t s) = take (limit t) (contents t @ s)"
proof (induction s arbitrary: t)
  case Nil
  then show ?case using invar_bound by simp
next
  case (Cons c s)
  show ?case
  proof (cases "length (contents t) < limit t")
    case True
    with Cons show ?thesis by (simp add: put_invar put_limit put_room take_Cons')
  next
    case False
    with Cons.prems have "length (contents t) = limit t" using invar_bound by fastforce
    with False Cons show ?thesis by (simp add: put_invar put_limit put_full)
  qed
qed

lemma write_failed:
  assumes "invar t" and "\<not> failed t"
  shows "failed (foldl put t s) \<longleftrightarrow> limit t < length (contents t) + length s"
  using assms
proof (induction s arbitrary: t)
  case Nil
  then show ?case using invar_bound [of t] by simp
next
  case (Cons c s)
  show ?case
  proof (cases "length (contents t) < limit t")
    case True
    with Cons show ?thesis by (simp add: put_invar put_limit put_room)
  next
    case False
    with Cons.prems have "failed (foldl put (put t c) s)"
      by (simp add: write_failed_sticky put_invar put_full)
    with False show ?thesis by simp
  qed
qed

end

text \<open>\<open>NCV_TEXT\<close> implements the interface; its limit leaves room for the terminator.\<close>

definition text_wf :: "NCV_TEXT \<Rightarrow> bool" where
  "text_wf t \<longleftrightarrow> t_Used t = length (t_Data t) \<and> (t_Capacity t = 0 \<and> t_Used t = 0 \<or> t_Used t < t_Capacity t)"

definition text_limit :: "NCV_TEXT \<Rightarrow> nat" where
  "text_limit t = t_Capacity t - 1"

interpretation ncv_text: byte_sink PutChar t_Data t_Failed text_limit text_wf
  by unfold_locales (auto simp: PutChar_def text_wf_def text_limit_def)

lemma PutText_foldl: "PutText t s = foldl PutChar t s"
  by (induction s arbitrary: t) simp_all

lemma text_wf_InitText [simp]: "text_wf (InitText capacity)"
  by (auto simp: text_wf_def InitText_def)

lemma text_limit_InitText [simp]: "text_limit (InitText capacity) = capacity - 1"
  by (simp add: text_limit_def InitText_def)

lemma InitText_fields [simp]:
  "t_Data (InitText capacity) = ''''" "t_Failed (InitText capacity) = False"
  by (simp_all add: InitText_def)

text \<open>The four facts about a completed write, for any string.\<close>

lemma write_InitText_failed: "t_Failed (foldl PutChar (InitText capacity) s) \<longleftrightarrow> capacity - 1 < length s"
  using ncv_text.write_failed [of "InitText capacity" s] by simp

lemma write_InitText_data:
  "length s \<le> capacity - 1 \<Longrightarrow> t_Data (foldl PutChar (InitText capacity) s) = s"
  using ncv_text.write_contents [of "InitText capacity" s] by simp

lemma write_InitText_used:
  "length s \<le> capacity - 1 \<Longrightarrow> t_Used (foldl PutChar (InitText capacity) s) = length s"
  using ncv_text.write_invar [OF text_wf_InitText, of capacity s] write_InitText_data [of s capacity]
  by (simp add: text_wf_def)

section \<open>Every routine appends one string\<close>

definition comment_string :: "char list \<Rightarrow> nat \<Rightarrow> string" where
  "comment_string source n =
     map (\<lambda>c. if printable c then c else CHR ''.'') (takeWhile (\<lambda>c. c \<noteq> NUL) (take n source))
     @ (if length (takeWhile (\<lambda>c. c \<noteq> NUL) (take n source)) = n then ''<unterminated>'' else '''')"

definition hex_string :: "nat \<Rightarrow> nat \<Rightarrow> string" where
  "hex_string v digits = map (\<lambda>i. HexChars ! HexNibble v digits i) [0..<digits]"

definition dec_string :: "nat \<Rightarrow> string" where
  "dec_string v = (if v = 0 then ''0'' else rev (DecDigits 24 v))"

definition bdf_string :: "NCV_PCI_ADDRESS \<Rightarrow> string" where
  "bdf_string a = hex_string (unat (Segment a)) 4 @ '':'' @ hex_string (unat (Bus a)) 2 @ '':''
     @ hex_string (unat (Device a)) 2 @ ''.'' @ hex_string (unat (Function a)) 1"

lemma PutCommentLoop_foldl: "PutCommentLoop t source n = foldl PutChar t (comment_string source n)"
proof (induction n arbitrary: t source)
  case 0
  then show ?case by (simp add: comment_string_def PutText_foldl)
next
  case (Suc n)
  then show ?case by (cases source) (auto simp: comment_string_def Let_def)
qed

lemma PutText_string [text_simps]: "PutText t s = foldl PutChar t s"
  by (rule PutText_foldl)

lemma PutChar_string [text_simps]: "PutChar t c = foldl PutChar t [c]"
  by simp

lemma PutCommentText_string [text_simps]:
  "PutCommentText t (Some source) n = foldl PutChar t (comment_string source n)"
  by (simp add: PutCommentText_def PutCommentLoop_foldl)

lemma PutHex_string [text_simps]: "PutHex t v digits = foldl PutChar t (hex_string v digits)"
  by (simp add: PutHex_def hex_string_def foldl_map)

lemma PutDec_string [text_simps]: "PutDec t v = foldl PutChar t (dec_string v)"
  by (simp add: PutDec_def dec_string_def PutText_foldl)

lemma PutBdf_string [text_simps]: "PutBdf t a = foldl PutChar t (bdf_string a)"
  by (simp add: PutBdf_def bdf_string_def PutHex_string Let_def)

section \<open>The disk-description codec\<close>

definition representable_str :: "string \<Rightarrow> bool" where
  "representable_str s \<longleftrightarrow> s \<noteq> '''' \<and> length s < NCV_CONFIG_TEXT_BYTES \<and>
     list_all (\<lambda>c. printable c \<and> c \<noteq> CHR ''='') s \<and> list_ex (\<lambda>c. c \<noteq> CHR '' '') s"

definition needs_quotes :: "string \<Rightarrow> bool" where
  "needs_quotes s \<longleftrightarrow> hd s = CHR '' '' \<or> hd s = QUOTE \<or> last s = CHR '' ''"

definition escape_char :: "char \<Rightarrow> string" where
  "escape_char c = (if c = QUOTE \<or> c = BACKSLASH then [BACKSLASH, c] else [c])"

definition encoded_string :: "string \<Rightarrow> string" where
  "encoded_string s =
     (if needs_quotes s then [QUOTE] @ concat (map escape_char s) @ [QUOTE] else s)"

lemma RepresentableLoop_iff:
  "i \<le> length (cstr v) \<Longrightarrow>
   RepresentableLoop v i h n \<longleftrightarrow>
     length (cstr v) < i + n \<and> cstr v \<noteq> '''' \<and> length (cstr v) < NCV_CONFIG_TEXT_BYTES \<and>
     list_all (\<lambda>c. printable c \<and> c \<noteq> CHR ''='') (drop i (cstr v)) \<and>
     (h \<or> list_ex (\<lambda>c. c \<noteq> CHR '' '') (drop i (cstr v)))"
proof (induction n arbitrary: i h)
  case 0
  then show ?case by simp
next
  case (Suc n)
  show ?case
  proof (cases "i = length (cstr v)")
    case True
    then show ?thesis by (auto simp: cstr_terminated)
  next
    case False
    with Suc.prems have i: "i < length (cstr v)" by simp
    have nz: "cstr v ! i \<noteq> NUL"
      using cstr_no_NUL [of v] i by (metis nth_mem)
    have dr: "drop i (cstr v) = cstr v ! i # drop (Suc i) (cstr v)"
      using i by (rule Cons_nth_drop_Suc [symmetric])
    have bounds: "(ord c < 0x20 \<or> ord c > 0x7e \<or> c = CHR ''='') \<longleftrightarrow> \<not> (printable c \<and> c \<noteq> CHR ''='')"
      for c by (auto simp: printable_def)
    show ?thesis
      unfolding RepresentableLoop.simps Let_def c_at_cstr [OF i] bounds
      using Suc.IH [of "Suc i" "h \<or> cstr v ! i \<noteq> CHR '' ''"] i nz by (simp add: dr)
  qed
qed

lemma representable_iff [simp]:
  "NcvIniValueIsExactlyRepresentable (Some v) capacity \<longleftrightarrow>
     representable_str (cstr v) \<and> length (cstr v) < capacity"
  using RepresentableLoop_iff [of 0 v False capacity]
  by (auto simp: NcvIniValueIsExactlyRepresentable_def representable_str_def)

lemma representable_None [simp]: "\<not> NcvIniValueIsExactlyRepresentable None capacity"
  by (simp add: NcvIniValueIsExactlyRepresentable_def)

lemma representable_strD:
  assumes "representable_str s"
  shows "s \<noteq> ''''" and "length s \<le> 64" and "list_all printable s"
    and "CHR ''='' \<notin> set s" and "NUL \<notin> set s"
proof -
  show pr: "list_all printable s"
    using assms by (auto simp: representable_str_def list_all_iff)
  then show "NUL \<notin> set s" by (rule printable_no_NUL)
qed (use assms in \<open>auto simp: representable_str_def list_all_iff NCV_CONFIG_TEXT_BYTES_def\<close>)

lemma length_escape: "length (concat (map escape_char s)) \<le> 2 * length s"
  by (induction s) (auto simp: escape_char_def)

lemma length_encoded_string: "length (encoded_string s) \<le> 2 * length s + 2"
  using length_escape [of s] by (simp add: encoded_string_def)

lemma escape_loop:
  "foldl (\<lambda>t c. PutChar (if q \<and> (c = QUOTE \<or> c = BACKSLASH) then PutChar t BACKSLASH else t) c) t s
   = foldl PutChar t (if q then concat (map escape_char s) else s)"
  by (induction s arbitrary: t) (auto simp: escape_char_def)

lemma NcvEncodeDiskDescription_eq:
  assumes "representable_str (cstr v)" and "2 * length (cstr v) + 2 < capacity"
  shows "NcvEncodeDiskDescription (Some v) capacity = Inr (encoded_string (cstr v))"
proof -
  let ?s = "cstr v"
  have ne: "?s \<noteq> ''''" and len: "length ?s < NCV_CONFIG_TEXT_BYTES"
    using assms(1) by (simp_all add: representable_str_def)
  have ends: "c_at ?s 0 = hd ?s" "c_at ?s (length ?s - Suc 0) = last ?s"
    using ne by (simp_all add: c_at_def hd_conv_nth last_conv_nth)
  have fits: "length (encoded_string ?s) \<le> capacity - 1"
    using length_encoded_string [of ?s] assms(2) by simp
  have "NcvEncodeDiskDescription (Some v) capacity =
      (let t = foldl PutChar (InitText capacity) (encoded_string ?s)
       in if t_Failed t then Inl (-2) else Inr (t_Data t))"
    using assms len
    by (simp add: NcvEncodeDiskDescription_def ends escape_loop Let_def encoded_string_def
        needs_quotes_def)
  then show ?thesis
    using fits by (simp add: Let_def write_InitText_failed write_InitText_data)
qed

lemma UnquoteLoop_escape:
  assumes "list_all (\<lambda>c. printable c \<and> c \<noteq> CHR ''='') s" and "length w + length s < capacity"
  shows "UnquoteLoop capacity w (concat (map escape_char s) @ [QUOTE]) =
     (if NcvIniValueIsExactlyRepresentable (Some (w @ s)) capacity then Some (w @ s) else None)"
  using assms
proof (induction s arbitrary: w)
  case Nil
  then show ?case by simp
next
  case (Cons c s)
  then show ?case using Cons.IH [of "w @ [c]"]
    by (auto simp: escape_char_def printable_def simp del: representable_iff)
qed

lemma CopyAscii_eq:
  assumes "s \<noteq> ''''" and "length s < capacity" and "list_all printable s"
  shows "CopyAscii capacity s = Some s"
  using assms printable_no_NUL [OF assms(3)]
  by (simp add: CopyAscii_def takeWhile_take_commute cstr_def [symmetric] cstr_id)

lemma CopyAscii_SomeD:
  assumes "CopyAscii capacity s = Some d"
  shows "d = cstr s" and "d \<noteq> ''''" and "length d < capacity" and "list_all printable d"
proof -
  have "takeWhile (\<lambda>c. c \<noteq> NUL) (take capacity s) = take capacity (cstr s)"
    by (simp add: cstr_def takeWhile_take_commute)
  with assms show "d = cstr s" and "d \<noteq> ''''" and "length d < capacity" and "list_all printable d"
    by (auto simp: CopyAscii_def Let_def split: if_splits)
qed

lemma decode_encoded_string:
  assumes "representable_str s"
  shows "CopyDiskDescription NCV_CONFIG_TEXT_BYTES (encoded_string s) = Some s"
proof (cases "needs_quotes s")
  case True
  have "list_all (\<lambda>c. printable c \<and> c \<noteq> CHR ''='') s" and "length s < NCV_CONFIG_TEXT_BYTES"
    using assms by (simp_all add: representable_str_def)
  with True assms show ?thesis
    using UnquoteLoop_escape [of s "''''" NCV_CONFIG_TEXT_BYTES]
    by (simp add: CopyDiskDescription_def encoded_string_def representable_strD cstr_id)
next
  case False
  then have "c_at s 0 \<noteq> QUOTE"
    using representable_strD(1) [OF assms] by (simp add: needs_quotes_def c_at_def hd_conv_nth)
  with False assms show ?thesis
    by (simp add: CopyDiskDescription_def encoded_string_def CopyAscii_eq representable_strD
        representable_str_def)
qed

text \<open>Shape facts that let an encoded description pass through the line parser unchanged.\<close>

lemma encoded_string_shape:
  assumes "representable_str s"
  shows "encoded_string s \<noteq> ''''" and "hd (encoded_string s) \<noteq> CHR '' ''"
    and "last (encoded_string s) \<noteq> CHR '' ''" and "list_all printable (encoded_string s)"
    and "CHR ''='' \<notin> set (encoded_string s)"
proof -
  note D = representable_strD [OF assms]
  show "encoded_string s \<noteq> ''''" and "hd (encoded_string s) \<noteq> CHR '' ''"
    and "last (encoded_string s) \<noteq> CHR '' ''"
    using D(1) by (auto simp: encoded_string_def needs_quotes_def)
  have "printable QUOTE" "printable BACKSLASH" by (simp_all add: printable_def)
  then show "list_all printable (encoded_string s)"
    using D(3) by (auto simp: encoded_string_def escape_char_def list_all_iff split: if_splits)
  show "CHR ''='' \<notin> set (encoded_string s)"
    using D(4) by (auto simp: encoded_string_def escape_char_def split: if_splits)
qed

lemma AsciiEqual_iff [simp]: "AsciiEqual l r \<longleftrightarrow> l = r"
  by (induction l r rule: AsciiEqual.induct) auto

text \<open>
  C31. Disk descriptions survive the INI file. With the buffer size the code uses,
  \<open>NcvEncodeDiskDescription\<close> fails exactly on the descriptions that
  \<open>NcvIniValueIsExactlyRepresentable\<close> refuses; every other description, leading and trailing
  blanks, quotes and backslashes included, is encoded within the buffer and decoded by
  \<open>CopyDiskDescription\<close> to exactly the original string.
\<close>

theorem disk_description_roundtrip:
  "(case NcvEncodeDiskDescription (Some v) NCV_ENCODED_DESCRIPTION_BYTES of
      Inl e \<Rightarrow> e = -1 \<and> \<not> NcvIniValueIsExactlyRepresentable (Some v) NCV_CONFIG_TEXT_BYTES
    | Inr encoded \<Rightarrow> NcvIniValueIsExactlyRepresentable (Some v) NCV_CONFIG_TEXT_BYTES
        \<and> length encoded < NCV_ENCODED_DESCRIPTION_BYTES
        \<and> CopyDiskDescription NCV_CONFIG_TEXT_BYTES encoded = Some (cstr v))"
proof (cases "representable_str (cstr v)")
  case True
  have "length (cstr v) < NCV_CONFIG_TEXT_BYTES"
    using True by (simp add: representable_str_def)
  moreover from this have "2 * length (cstr v) + 2 < NCV_ENCODED_DESCRIPTION_BYTES"
    by (simp add: ncv_defs)
  ultimately show ?thesis
    using True length_encoded_string [of "cstr v"]
    by (simp add: NcvEncodeDiskDescription_eq decode_encoded_string)
next
  case False
  then show ?thesis by (simp add: NcvEncodeDiskDescription_def)
qed

end
