(* ===== verification/Candidate_Rank.thy ===== *)
theory Candidate_Rank
  imports Candidate_Text "HOL-Library.Product_Lexorder"
begin

text \<open>
  Candidate collection and ranking of \<open>CandidateIni.c\<close>: the bounded collections filled by
  discovery, \<open>NcvRankDisplays\<close>, \<open>NcvRankStorage\<close> and \<open>ValidateSelections\<close>. Two
  interfaces carry the proofs: \<open>bounded_collection\<close> (append up to a capacity, count
  everything, flag overflow) and \<open>best_scan\<close> (a left-to-right scan that keeps the first
  best eligible row). Both are interpreted twice, for displays and for storage.
\<close>

section \<open>Data\<close>

definition NCV_MAX_DISPLAY_CANDIDATES :: nat where [ncv_defs]: "NCV_MAX_DISPLAY_CANDIDATES = 32"
definition NCV_MAX_STORAGE_CANDIDATES :: nat where [ncv_defs]: "NCV_MAX_STORAGE_CANDIDATES = 64"

text \<open>The sentinel \<open>(NCV_SIZE)-1\<close>.\<close>

definition NCV_NO_SELECTION :: NCV_SIZE where "NCV_NO_SELECTION = 2 ^ 64 - 1"

record NCV_DISPLAY_CANDIDATE =
  d_Address :: NCV_PCI_ADDRESS
  d_RawSegment :: NCV_SIZE
  d_RawBus :: NCV_SIZE
  d_RawDevice :: NCV_SIZE
  d_RawFunction :: NCV_SIZE
  d_Vendor :: NCV_U16
  d_DeviceId :: NCV_U16
  d_SubsystemVendor :: NCV_U16
  d_SubsystemDevice :: NCV_U16
  d_AddressValid :: bool
  d_GopAssociated :: bool
  d_GopAssociationKnown :: bool
  d_ActiveLegacyVgaOwner :: bool
  d_ActiveLegacyVgaOwnerKnown :: bool
  d_OptionRomExposed :: bool
  d_AcceptedLegacyRom :: bool
  d_PathDiscovered :: bool
  d_PathValidated :: bool
  d_Eligible :: bool
  d_Selected :: bool

record NCV_DISPLAY_COLLECTION =
  dc_Items :: "NCV_DISPLAY_CANDIDATE list"
  dc_Count :: NCV_SIZE
  dc_ObservedCount :: NCV_SIZE
  dc_Overflow :: bool

record NCV_STORAGE_CANDIDATE =
  s_BbsIndex :: NCV_SIZE
  s_Address :: NCV_PCI_ADDRESS
  s_RawBus :: NCV_U32
  s_RawDevice :: NCV_U32
  s_RawFunction :: NCV_U32
  s_BaseClass :: NCV_U8
  s_SubClass :: NCV_U8
  s_Manufacturer :: "char list"
  s_Description :: "char list"
  s_AddressValid :: bool
  s_Usb :: bool
  s_FirmwareStatusKnown :: bool
  s_FirmwareStatus :: NCV_U16
  s_FirmwarePriority :: NCV_U16
  s_IdentityAmbiguous :: bool
  s_Eligible :: bool
  s_Selected :: bool

record NCV_STORAGE_COLLECTION =
  sc_Items :: "NCV_STORAGE_CANDIDATE list"
  sc_Count :: NCV_SIZE
  sc_ObservedCount :: NCV_SIZE
  sc_Overflow :: bool

section \<open>Operations\<close>

definition AddressLess :: "NCV_PCI_ADDRESS \<Rightarrow> NCV_PCI_ADDRESS \<Rightarrow> bool" where
  "AddressLess l r =
     (if Segment l \<noteq> Segment r then Segment l < Segment r
      else if Bus l \<noteq> Bus r then Bus l < Bus r
      else if Device l \<noteq> Device r then Device l < Device r
      else Function l < Function r)"

definition AddressEqual :: "NCV_PCI_ADDRESS \<Rightarrow> NCV_PCI_ADDRESS \<Rightarrow> bool" where
  "AddressEqual l r \<longleftrightarrow> Segment l = Segment r \<and> Bus l = Bus r \<and> Device l = Device r
     \<and> Function l = Function r"

definition GopRank :: "NCV_DISPLAY_CANDIDATE \<Rightarrow> nat" where
  "GopRank c = (if \<not> d_GopAssociationKnown c then 1 else if d_GopAssociated c then 1 else 0)"

definition ActiveVgaRank :: "NCV_DISPLAY_CANDIDATE \<Rightarrow> nat" where
  "ActiveVgaRank c = (if \<not> d_ActiveLegacyVgaOwnerKnown c then 1
     else if d_ActiveLegacyVgaOwner c then 1 else 0)"

text \<open>The integer is the C return value; a \<open>NULL\<close> argument leaves nothing to update.\<close>

definition NcvDisplayCollectionAppend ::
  "NCV_DISPLAY_COLLECTION option \<Rightarrow> NCV_DISPLAY_CANDIDATE option \<Rightarrow> int \<times> NCV_DISPLAY_COLLECTION option" where
  "NcvDisplayCollectionAppend collection candidate =
     (case (collection, candidate) of
        (Some col, Some cand) \<Rightarrow>
          (let col = col\<lparr>dc_ObservedCount := dc_ObservedCount col + 1\<rparr>
           in if dc_Count col \<ge> NCV_MAX_DISPLAY_CANDIDATES
              then (1, Some (col\<lparr>dc_Overflow := True\<rparr>))
              else (0, Some (col\<lparr>dc_Items := take (dc_Count col) (dc_Items col) @ [cand],
                                 dc_Count := dc_Count col + 1\<rparr>)))
      | _ \<Rightarrow> (-1, collection))"

definition NcvStorageCollectionAppend ::
  "NCV_STORAGE_COLLECTION option \<Rightarrow> NCV_STORAGE_CANDIDATE option \<Rightarrow> int \<times> NCV_STORAGE_COLLECTION option" where
  "NcvStorageCollectionAppend collection candidate =
     (case (collection, candidate) of
        (Some col, Some cand) \<Rightarrow>
          (let col = col\<lparr>sc_ObservedCount := sc_ObservedCount col + 1\<rparr>
           in if sc_Count col \<ge> NCV_MAX_STORAGE_CANDIDATES
              then (1, Some (col\<lparr>sc_Overflow := True\<rparr>))
              else (0, Some (col\<lparr>sc_Items := take (sc_Count col) (sc_Items col) @ [cand],
                                 sc_Count := sc_Count col + 1\<rparr>)))
      | _ \<Rightarrow> (-1, collection))"

definition DisplayEligible :: "NCV_DISPLAY_CANDIDATE \<Rightarrow> bool" where
  "DisplayEligible c \<longleftrightarrow> d_AddressValid c
     \<and> \<not> (d_ActiveLegacyVgaOwnerKnown c \<and> d_ActiveLegacyVgaOwner c)
     \<and> d_AcceptedLegacyRom c \<and> d_PathDiscovered c \<and> d_PathValidated c"

definition DisplayBetter :: "NCV_DISPLAY_CANDIDATE \<Rightarrow> NCV_DISPLAY_CANDIDATE \<Rightarrow> bool" where
  "DisplayBetter x b \<longleftrightarrow>
     ActiveVgaRank x < ActiveVgaRank b
     \<or> ActiveVgaRank x = ActiveVgaRank b \<and> GopRank x < GopRank b
     \<or> ActiveVgaRank x = ActiveVgaRank b \<and> GopRank x = GopRank b
       \<and> AddressLess (d_Address x) (d_Address b)"

text \<open>One iteration of the ranking loop: the rows so far and the index of the best one.\<close>

definition RankDisplayStep ::
  "NCV_DISPLAY_CANDIDATE list \<times> NCV_SIZE \<Rightarrow> nat \<Rightarrow> NCV_DISPLAY_CANDIDATE list \<times> NCV_SIZE" where
  "RankDisplayStep = (\<lambda>(items, best) i.
     let row = (items ! i)\<lparr>d_Selected := False, d_Eligible := DisplayEligible (items ! i)\<rparr>;
         items = items[i := row]
     in if \<not> d_Eligible row then (items, best)
        else if best = NCV_NO_SELECTION \<or> DisplayBetter row (items ! best) then (items, i)
        else (items, best))"

definition NcvRankDisplays ::
  "NCV_DISPLAY_CANDIDATE list option \<Rightarrow> int + NCV_DISPLAY_CANDIDATE list \<times> NCV_SIZE" where
  "NcvRankDisplays arg =
     (case arg of None \<Rightarrow> Inl (-1)
      | Some items \<Rightarrow>
          if length items > NCV_MAX_DISPLAY_CANDIDATES then Inl (-1)
          else let (items, best) = foldl RankDisplayStep (items, NCV_NO_SELECTION) [0..<length items]
               in Inr (if best \<noteq> NCV_NO_SELECTION
                       then items[best := (items ! best)\<lparr>d_Selected := True\<rparr>] else items, best))"

text \<open>\<open>if (Left >= 'A' && Left <= 'Z') Left += 'a' - 'A'\<close>.\<close>

definition ToLower :: "char \<Rightarrow> char" where
  "ToLower c = (if ord (CHR ''A'') \<le> ord c \<and> ord c \<le> ord (CHR ''Z'')
                then char_of (ord c + 32) else c)"

fun SameDescription :: "char list \<Rightarrow> char list \<Rightarrow> nat \<Rightarrow> nat \<Rightarrow> bool" where
  "SameDescription l r i 0 = False"
| "SameDescription l r i (Suc n) =
     (if ToLower (c_at l i) \<noteq> ToLower (c_at r i) then False
      else if ToLower (c_at l i) = NUL then True
      else SameDescription l r (Suc i) n)"

definition StorageCollides :: "NCV_STORAGE_CANDIDATE list \<Rightarrow> nat \<Rightarrow> nat \<Rightarrow> bool" where
  "StorageCollides items i j \<longleftrightarrow>
     \<not> (j = i \<or> \<not> s_AddressValid (items ! j)
        \<or> \<not> AddressEqual (s_Address (items ! i)) (s_Address (items ! j)))
     \<and> SameDescription (s_Description (items ! i)) (s_Description (items ! j)) 0
         NCV_CANDIDATE_STRING_BYTES"

definition AmbiguityStep :: "NCV_STORAGE_CANDIDATE list \<Rightarrow> nat \<Rightarrow> NCV_STORAGE_CANDIDATE list" where
  "AmbiguityStep items i =
     (let items = items[i := (items ! i)\<lparr>s_IdentityAmbiguous := False\<rparr>]
      in if \<not> s_AddressValid (items ! i) then items
         else let ambiguous = list_ex (StorageCollides items i) [0..<length items];
                  items = items[i := (items ! i)\<lparr>s_IdentityAmbiguous := ambiguous\<rparr>]
              in if ambiguous then items[i := (items ! i)\<lparr>s_Eligible := False\<rparr>] else items)"

definition RankStorageStep ::
  "NCV_STORAGE_CANDIDATE list \<times> NCV_SIZE \<Rightarrow> nat \<Rightarrow> NCV_STORAGE_CANDIDATE list \<times> NCV_SIZE" where
  "RankStorageStep = (\<lambda>(items, best) i.
     let items = items[i := (items ! i)\<lparr>s_Selected := False\<rparr>]
     in if \<not> s_Eligible (items ! i) then (items, best)
        else if best = NCV_NO_SELECTION
             \<or> s_Usb (items ! i) < s_Usb (items ! best)
             \<or> s_Usb (items ! i) = s_Usb (items ! best)
               \<and> s_BbsIndex (items ! i) < s_BbsIndex (items ! best) then (items, i)
        else (items, best))"

definition NcvRankStorage ::
  "NCV_STORAGE_CANDIDATE list option \<Rightarrow> int + NCV_STORAGE_CANDIDATE list \<times> NCV_SIZE" where
  "NcvRankStorage arg =
     (case arg of None \<Rightarrow> Inl (-1)
      | Some items \<Rightarrow>
          if length items > NCV_MAX_STORAGE_CANDIDATES then Inl (-1)
          else let items = foldl AmbiguityStep items [0..<length items];
                   (items, best) = foldl RankStorageStep (items, NCV_NO_SELECTION) [0..<length items]
               in Inr (if best \<noteq> NCV_NO_SELECTION
                       then items[best := (items ! best)\<lparr>s_Selected := True\<rparr>] else items, best))"

definition ValidateSelections ::
  "NCV_DISPLAY_CANDIDATE list option \<Rightarrow> NCV_SIZE \<Rightarrow> NCV_STORAGE_CANDIDATE list option \<Rightarrow> NCV_SIZE \<Rightarrow> bool" where
  "ValidateSelections displays selectedDisplay storage selectedStorage =
     (case (displays, storage) of
        (Some ds, Some ss) \<Rightarrow>
          if length ds > NCV_MAX_DISPLAY_CANDIDATES \<or> length ss > NCV_MAX_STORAGE_CANDIDATES
             \<or> selectedDisplay \<noteq> NCV_NO_SELECTION \<and> selectedDisplay \<ge> length ds
             \<or> selectedStorage \<noteq> NCV_NO_SELECTION \<and> selectedStorage \<ge> length ss
          then False
          else let displaySelections = length (filter d_Selected ds);
                   storageSelections = length (filter s_Selected ss)
               in (if selectedDisplay = NCV_NO_SELECTION then displaySelections = 0
                   else \<not> (displaySelections \<noteq> 1 \<or> \<not> d_Selected (ds ! selectedDisplay)
                           \<or> \<not> d_Eligible (ds ! selectedDisplay)
                           \<or> \<not> d_AddressValid (ds ! selectedDisplay)))
                  \<and> (if selectedStorage = NCV_NO_SELECTION then storageSelections = 0
                     else \<not> (storageSelections \<noteq> 1 \<or> \<not> s_Selected (ss ! selectedStorage)
                             \<or> \<not> s_Eligible (ss ! selectedStorage)
                             \<or> \<not> s_AddressValid (ss ! selectedStorage)
                             \<or> \<not> NcvIniValueIsExactlyRepresentable
                                   (Some (s_Description (ss ! selectedStorage)))
                                   NCV_CANDIDATE_STRING_BYTES))
      | _ \<Rightarrow> False)"

section \<open>PCI addresses are linearly ordered\<close>

definition address_key :: "NCV_PCI_ADDRESS \<Rightarrow> NCV_U16 \<times> NCV_U8 \<times> NCV_U8 \<times> NCV_U8" where
  "address_key a = (Segment a, Bus a, Device a, Function a)"

lemma AddressLess_key: "AddressLess l r \<longleftrightarrow> address_key l < address_key r"
  by (auto simp: AddressLess_def address_key_def less_prod_def')

lemma AddressEqual_iff [simp]: "AddressEqual l r \<longleftrightarrow> l = r"
  by (auto simp: AddressEqual_def intro: NCV_PCI_ADDRESS.expand)

lemma address_key_inject: "address_key l = address_key r \<longleftrightarrow> l = r"
  by (auto simp: address_key_def intro: NCV_PCI_ADDRESS.expand)

instantiation NCV_PCI_ADDRESS :: linorder
begin

definition less_NCV_PCI_ADDRESS :: "NCV_PCI_ADDRESS \<Rightarrow> NCV_PCI_ADDRESS \<Rightarrow> bool" where
  "less_NCV_PCI_ADDRESS l r = AddressLess l r"

definition less_eq_NCV_PCI_ADDRESS :: "NCV_PCI_ADDRESS \<Rightarrow> NCV_PCI_ADDRESS \<Rightarrow> bool" where
  "less_eq_NCV_PCI_ADDRESS l r \<longleftrightarrow> AddressLess l r \<or> AddressEqual l r"

instance
proof
  fix x y z :: NCV_PCI_ADDRESS
  show "(x < y) = (x \<le> y \<and> \<not> y \<le> x)"
    by (auto simp: less_NCV_PCI_ADDRESS_def less_eq_NCV_PCI_ADDRESS_def AddressLess_key)
  show "x \<le> x"
    by (simp add: less_eq_NCV_PCI_ADDRESS_def)
  show "x \<le> y \<Longrightarrow> y \<le> z \<Longrightarrow> x \<le> z"
    by (auto simp: less_eq_NCV_PCI_ADDRESS_def AddressLess_key)
  show "x \<le> y \<Longrightarrow> y \<le> x \<Longrightarrow> x = y"
    by (auto simp: less_eq_NCV_PCI_ADDRESS_def AddressLess_key)
  show "x \<le> y \<or> y \<le> x"
    by (auto simp: less_eq_NCV_PCI_ADDRESS_def AddressLess_key address_key_inject [symmetric])
qed

end

section \<open>Bounded collections\<close>

text \<open>
  What discovery relies on: rows are kept in arrival order up to the capacity, every arrival is
  counted, and overflow is flagged exactly when a row had to be dropped.
\<close>

locale bounded_collection =
  fixes append :: "'c \<Rightarrow> 'x \<Rightarrow> 'c"
    and items :: "'c \<Rightarrow> 'x list"
    and observed :: "'c \<Rightarrow> nat"
    and overflow :: "'c \<Rightarrow> bool"
    and invar :: "'c \<Rightarrow> bool"
    and capacity :: nat
  assumes append_invar: "invar c \<Longrightarrow> invar (append c x)"
    and append_items: "invar c \<Longrightarrow>
          items (append c x) = (if length (items c) < capacity then items c @ [x] else items c)"
    and append_observed: "observed (append c x) = Suc (observed c)"
    and append_overflow: "invar c \<Longrightarrow>
          overflow (append c x) \<longleftrightarrow> overflow c \<or> \<not> length (items c) < capacity"
    and invar_bound: "invar c \<Longrightarrow> length (items c) \<le> capacity"
begin

lemma collect_invar: "invar c \<Longrightarrow> invar (foldl append c xs)"
  by (induction xs arbitrary: c) (simp_all add: append_invar)

lemma collect_items: "invar c \<Longrightarrow> items (foldl append c xs) = take capacity (items c @ xs)"
proof (induction xs arbitrary: c)
  case Nil
  then show ?case using invar_bound by simp
next
  case (Cons x xs)
  show ?case
  proof (cases "length (items c) < capacity")
    case True
    with Cons show ?thesis by (simp add: append_invar append_items take_Cons')
  next
    case False
    with Cons.prems have "length (items c) = capacity" using invar_bound by fastforce
    with Cons show ?thesis by (simp add: append_invar append_items)
  qed
qed

lemma collect_observed: "observed (foldl append c xs) = observed c + length xs"
  by (induction xs arbitrary: c) (simp_all add: append_observed)

lemma collect_overflow:
  "invar c \<Longrightarrow> overflow (foldl append c xs) \<longleftrightarrow> overflow c \<or> capacity < length (items c) + length xs"
proof (induction xs arbitrary: c)
  case Nil
  then show ?case using invar_bound [of c] by auto
next
  case (Cons x xs)
  then show ?case using invar_bound [of c]
    by (auto simp: append_invar append_items append_overflow)
qed

end

text \<open>The non-\<open>NULL\<close> call, the empty collection and the invariant.\<close>

definition append_display :: "NCV_DISPLAY_COLLECTION \<Rightarrow> NCV_DISPLAY_CANDIDATE \<Rightarrow> NCV_DISPLAY_COLLECTION" where
  "append_display c x = the (snd (NcvDisplayCollectionAppend (Some c) (Some x)))"

definition append_storage :: "NCV_STORAGE_COLLECTION \<Rightarrow> NCV_STORAGE_CANDIDATE \<Rightarrow> NCV_STORAGE_COLLECTION" where
  "append_storage c x = the (snd (NcvStorageCollectionAppend (Some c) (Some x)))"

definition display_wf :: "NCV_DISPLAY_COLLECTION \<Rightarrow> bool" where
  "display_wf c \<longleftrightarrow> length (dc_Items c) = dc_Count c \<and> dc_Count c \<le> NCV_MAX_DISPLAY_CANDIDATES"

definition storage_wf :: "NCV_STORAGE_COLLECTION \<Rightarrow> bool" where
  "storage_wf c \<longleftrightarrow> length (sc_Items c) = sc_Count c \<and> sc_Count c \<le> NCV_MAX_STORAGE_CANDIDATES"

lemmas append_defs = append_display_def append_storage_def display_wf_def storage_wf_def
  NcvDisplayCollectionAppend_def NcvStorageCollectionAppend_def Let_def

interpretation displays: bounded_collection append_display dc_Items dc_ObservedCount dc_Overflow
  display_wf NCV_MAX_DISPLAY_CANDIDATES
  by unfold_locales (auto simp: append_defs)

interpretation storages: bounded_collection append_storage sc_Items sc_ObservedCount sc_Overflow
  storage_wf NCV_MAX_STORAGE_CANDIDATES
  by unfold_locales (auto simp: append_defs)

section \<open>Scanning for the best row\<close>

text \<open>
  \<open>first_best\<close> is the specification: the index of an eligible row with the least key, the
  first one among equals, and the sentinel when no row is eligible.
\<close>

definition first_best :: "('a \<Rightarrow> bool) \<Rightarrow> ('a \<Rightarrow> 'k::linorder) \<Rightarrow> nat \<Rightarrow> 'a list \<Rightarrow> nat \<Rightarrow> bool" where
  "first_best elig key none xs r \<longleftrightarrow>
     (if list_ex elig xs
      then r < length xs \<and> elig (xs ! r) \<and>
           (\<forall>i < length xs. elig (xs ! i) \<longrightarrow>
              key (xs ! r) \<le> key (xs ! i) \<and> (i < r \<longrightarrow> key (xs ! r) < key (xs ! i)))
      else r = none)"

lemma first_best_unique:
  assumes "first_best elig key none xs r" and "first_best elig key none xs q"
  shows "r = q"
proof (cases "list_ex elig xs")
  case True
  with assms have r: "r < length xs" "elig (xs ! r)" and q: "q < length xs" "elig (xs ! q)"
    and kr: "key (xs ! r) \<le> key (xs ! q)" "q < r \<longrightarrow> key (xs ! r) < key (xs ! q)"
    and kq: "key (xs ! q) \<le> key (xs ! r)" "r < q \<longrightarrow> key (xs ! q) < key (xs ! r)"
    by (auto simp: first_best_def)
  then show ?thesis by (metis leD linorder_neqE_nat)
next
  case False
  with assms show ?thesis by (simp add: first_best_def)
qed

lemma first_best_Nil [simp]: "first_best elig key none [] r \<longleftrightarrow> r = none"
  by (simp add: first_best_def)

lemma first_best_snoc:
  assumes "first_best elig key none xs b" and "length xs < none"
  shows "first_best elig key none (xs @ [x])
           (if elig x \<and> (b = none \<or> key x < key (xs ! b)) then length xs else b)"
proof (cases "list_ex elig xs")
  case True
  with assms have "b < length xs" "b \<noteq> none" by (auto simp: first_best_def)
  with True assms show ?thesis
    by (auto simp: first_best_def nth_append less_Suc_eq)
next
  case False
  with assms have "b = none" and "\<forall>i < length xs. \<not> elig (xs ! i)"
    by (auto simp: first_best_def list_ex_iff)
  with False show ?thesis
    by (auto simp: first_best_def nth_append less_Suc_eq)
qed

locale best_scan =
  fixes prep :: "'a \<Rightarrow> 'a"
    and elig :: "'a \<Rightarrow> bool"
    and key :: "'a \<Rightarrow> 'k::linorder"
    and step :: "'a list \<times> nat \<Rightarrow> nat \<Rightarrow> 'a list \<times> nat"
    and none :: nat
  assumes step_eq: "i < length items \<Longrightarrow> b = none \<or> b < i \<Longrightarrow>
    step (items, b) i =
      (items[i := prep (items ! i)],
       if elig (prep (items ! i)) \<and> (b = none \<or> key (prep (items ! i)) < key (items ! b))
       then i else b)"
begin

lemma scan_prefix:
  assumes "n \<le> length items" and "length items \<le> none"
  shows "\<exists>b. foldl step (items, none) [0..<n] = (map prep (take n items) @ drop n items, b)
           \<and> first_best elig key none (map prep (take n items)) b"
  using assms(1)
proof (induction n)
  case 0
  then show ?case by simp
next
  case (Suc n)
  let ?done = "map prep (take n items)"
  from Suc obtain b where run: "foldl step (items, none) [0..<n] = (?done @ drop n items, b)"
    and best: "first_best elig key none ?done b" by auto
  have n: "n < length items" "length ?done = n" using Suc.prems by auto
  have split: "drop n items = items ! n # drop (Suc n) items"
    using n(1) by (rule Cons_nth_drop_Suc [symmetric])
  have b: "b = none \<or> b < n"
    using best n(2) by (auto simp: first_best_def split: if_splits)
  have next_done: "map prep (take (Suc n) items) = ?done @ [prep (items ! n)]"
    using n(1) by (simp add: take_Suc_conv_app_nth)
  have lt: "b \<noteq> none \<Longrightarrow> (?done @ drop n items) ! b = ?done ! b"
    using b n(2) by (auto simp: nth_append)
  have "foldl step (items, none) [0..<Suc n] = step (?done @ drop n items, b) n"
    using run by simp
  also have "\<dots> = (?done @ prep (items ! n) # drop (Suc n) items,
      if elig (prep (items ! n)) \<and> (b = none \<or> key (prep (items ! n)) < key (?done ! b)) then n else b)"
    using n b lt by (subst step_eq) (auto simp: split nth_append list_update_append)
  finally show ?case
    using first_best_snoc [OF best, of "prep (items ! n)"] n assms(2)
    by (auto simp: next_done)
qed

lemma scan_all:
  assumes "length items \<le> none"
  obtains b where "foldl step (items, none) [0..<length items] = (map prep items, b)"
    and "first_best elig key none (map prep items) b"
  using scan_prefix [of "length items" items] assms by auto

end

definition prep_display :: "NCV_DISPLAY_CANDIDATE \<Rightarrow> NCV_DISPLAY_CANDIDATE" where
  "prep_display x = x\<lparr>d_Selected := False, d_Eligible := DisplayEligible x\<rparr>"

definition display_key :: "NCV_DISPLAY_CANDIDATE \<Rightarrow> nat \<times> nat \<times> NCV_PCI_ADDRESS" where
  "display_key x = (ActiveVgaRank x, GopRank x, d_Address x)"

definition storage_key :: "NCV_STORAGE_CANDIDATE \<Rightarrow> bool \<times> nat" where
  "storage_key x = (s_Usb x, s_BbsIndex x)"

lemma DisplayBetter_key: "DisplayBetter x b \<longleftrightarrow> display_key x < display_key b"
  by (auto simp: DisplayBetter_def display_key_def less_prod_def' less_NCV_PCI_ADDRESS_def)

interpretation rank_displays: best_scan prep_display d_Eligible display_key RankDisplayStep
  NCV_NO_SELECTION
  by unfold_locales (auto simp: RankDisplayStep_def prep_display_def DisplayBetter_key Let_def)

interpretation rank_storage: best_scan "\<lambda>x. x\<lparr>s_Selected := False\<rparr>" s_Eligible storage_key
  RankStorageStep NCV_NO_SELECTION
  by unfold_locales (auto simp: RankStorageStep_def storage_key_def less_prod_def' Let_def)

section \<open>Ambiguous storage identities\<close>

lemma ToLower_NUL_iff [simp]: "ToLower c = NUL \<longleftrightarrow> c = NUL"
proof
  assume low: "ToLower c = NUL"
  show "c = NUL"
  proof (rule ccontr)
    assume "c \<noteq> NUL"
    with low have up: "65 \<le> ord c" "ord c \<le> 90" and "char_of (ord c + 32) = NUL"
      by (auto simp: ToLower_def split: if_splits)
    then have "ord (char_of (ord c + 32) :: char) = (0 :: nat)" by simp
    then have "(ord c + 32) mod 256 = 0" by (simp only: of_char_of)
    with up show False by simp
  qed
qed (simp add: ToLower_def)

definition same_folded :: "char list \<Rightarrow> char list \<Rightarrow> bool" where
  "same_folded l r \<longleftrightarrow> map ToLower (cstr l) = map ToLower (cstr r)"

lemma SameDescription_iff_aux:
  assumes "i \<le> length (cstr l)" and "i \<le> length (cstr r)"
    and "map ToLower (take i (cstr l)) = map ToLower (take i (cstr r))"
  shows "SameDescription l r i n \<longleftrightarrow> same_folded l r \<and> length (cstr l) < i + n"
  using assms
proof (induction n arbitrary: i)
  case 0
  then show ?case by simp
next
  case (Suc n)
  consider (both) "i = length (cstr l)" "i = length (cstr r)"
    | (left) "i = length (cstr l)" "i < length (cstr r)"
    | (right) "i < length (cstr l)" "i = length (cstr r)"
    | (go) "i < length (cstr l)" "i < length (cstr r)"
    using Suc.prems by linarith
  then show ?case
  proof cases
    case both
    then have "c_at l i = NUL" and "c_at r i = NUL" by (metis cstr_terminated)+
    with both Suc.prems(3) show ?thesis by (simp add: same_folded_def)
  next
    case left
    then have "c_at r i \<noteq> NUL" using cstr_no_NUL [of r] by (metis c_at_cstr nth_mem)
    with left show ?thesis
      by (metis SameDescription.simps(2) ToLower_NUL_iff cstr_terminated length_map nat_less_le same_folded_def)
  next
    case right
    then have "c_at l i \<noteq> NUL" using cstr_no_NUL [of l] by (metis c_at_cstr nth_mem)
    with right show ?thesis
      by (metis SameDescription.simps(2) ToLower_NUL_iff cstr_terminated length_map nat_less_le same_folded_def)
  next
    case go
    have nz: "c_at l i \<noteq> NUL" "c_at r i \<noteq> NUL"
      using go cstr_no_NUL [of l] cstr_no_NUL [of r] by (metis c_at_cstr nth_mem)+
    show ?thesis
    proof (cases "ToLower (c_at l i) = ToLower (c_at r i)")
      case True
      with go Suc.prems have "map ToLower (take (Suc i) (cstr l)) = map ToLower (take (Suc i) (cstr r))"
        by (simp add: take_Suc_conv_app_nth c_at_cstr)
      with go True nz Suc.IH [of "Suc i"] show ?thesis by simp
    next
      case False
      then have "\<not> same_folded l r"
        unfolding same_folded_def using go by (metis c_at_cstr nth_map)
      with False show ?thesis by simp
    qed
  qed
qed

lemma SameDescription_iff:
  "SameDescription l r 0 n \<longleftrightarrow> same_folded l r \<and> length (cstr l) < n"
  using SameDescription_iff_aux [of 0 l r n] by simp

text \<open>The row another row is confused with, and the result of the ambiguity pass.\<close>

definition collides :: "NCV_STORAGE_CANDIDATE \<Rightarrow> NCV_STORAGE_CANDIDATE \<Rightarrow> bool" where
  "collides x y \<longleftrightarrow> s_AddressValid y \<and> s_Address x = s_Address y \<and>
     same_folded (s_Description x) (s_Description y) \<and>
     length (cstr (s_Description x)) < NCV_CANDIDATE_STRING_BYTES"

definition ambiguous_row :: "NCV_STORAGE_CANDIDATE list \<Rightarrow> nat \<Rightarrow> bool" where
  "ambiguous_row xs i \<longleftrightarrow> s_AddressValid (xs ! i) \<and>
     list_ex (\<lambda>j. j \<noteq> i \<and> collides (xs ! i) (xs ! j)) [0..<length xs]"

definition mark_row :: "NCV_STORAGE_CANDIDATE list \<Rightarrow> nat \<Rightarrow> NCV_STORAGE_CANDIDATE" where
  "mark_row xs i = (xs ! i)\<lparr>s_IdentityAmbiguous := ambiguous_row xs i,
     s_Eligible := s_Eligible (xs ! i) \<and> \<not> ambiguous_row xs i\<rparr>"

lemma StorageCollides_iff: "StorageCollides xs i j \<longleftrightarrow> j \<noteq> i \<and> collides (xs ! i) (xs ! j)"
  by (auto simp: StorageCollides_def collides_def SameDescription_iff)

lemma collides_frame [simp]:
  "collides (x\<lparr>s_IdentityAmbiguous := a\<rparr>) y = collides x y"
  "collides x (y\<lparr>s_IdentityAmbiguous := a\<rparr>) = collides x y"
  "collides (x\<lparr>s_Eligible := e\<rparr>) y = collides x y"
  "collides x (y\<lparr>s_Eligible := e\<rparr>) = collides x y"
  by (simp_all add: collides_def)

lemma ambiguous_row_frame:
  assumes "length ys = length xs" and "i < length xs"
    and "\<And>j. j < length xs \<Longrightarrow> s_AddressValid (ys ! j) = s_AddressValid (xs ! j)
           \<and> s_Address (ys ! j) = s_Address (xs ! j) \<and> s_Description (ys ! j) = s_Description (xs ! j)"
  shows "ambiguous_row ys i = ambiguous_row xs i"
  using assms by (auto simp: ambiguous_row_def list_ex_iff collides_def)

lemma AmbiguityStep_eq:
  assumes "i < length xs"
  shows "AmbiguityStep xs i = xs[i := mark_row xs i]"
proof -
  let ?ys = "xs[i := (xs ! i)\<lparr>s_IdentityAmbiguous := False\<rparr>]"
  have coll: "list_ex (StorageCollides ?ys i) [0..<length xs] \<longleftrightarrow>
      list_ex (\<lambda>j. j \<noteq> i \<and> collides (xs ! i) (xs ! j)) [0..<length xs]"
    using assms by (auto simp: list_ex_iff StorageCollides_iff)
  show ?thesis
    using assms by (simp add: AmbiguityStep_def Let_def coll mark_row_def ambiguous_row_def)
qed

lemma mark_row_fields:
  "s_AddressValid (mark_row xs i) = s_AddressValid (xs ! i)"
  "s_Address (mark_row xs i) = s_Address (xs ! i)"
  "s_Description (mark_row xs i) = s_Description (xs ! i)"
  "s_BbsIndex (mark_row xs i) = s_BbsIndex (xs ! i)"
  "s_Usb (mark_row xs i) = s_Usb (xs ! i)"
  by (simp_all add: mark_row_def)

lemma ambiguity_pass_prefix:
  "n \<le> length xs \<Longrightarrow> foldl AmbiguityStep xs [0..<n] = map (mark_row xs) [0..<n] @ drop n xs"
proof (induction n)
  case 0
  then show ?case by simp
next
  case (Suc n)
  let ?ys = "map (mark_row xs) [0..<n] @ drop n xs"
  have n: "n < length xs" using Suc.prems by simp
  have nth: "?ys ! j = (if j < n then mark_row xs j else xs ! j)" if "j < length xs" for j
    using that n by (auto simp: nth_append)
  have "mark_row ?ys n = mark_row xs n"
    using n nth ambiguous_row_frame [of ?ys xs n]
    by (simp add: mark_row_def [of ?ys] mark_row_def [of xs n] mark_row_fields)
  then have "AmbiguityStep ?ys n = ?ys[n := mark_row xs n]"
    using n by (simp add: AmbiguityStep_eq)
  also have "\<dots> = map (mark_row xs) [0..<Suc n] @ drop (Suc n) xs"
    using n by (simp add: list_update_append Cons_nth_drop_Suc [symmetric])
  finally show ?case using Suc by simp
qed

lemma ambiguity_pass: "foldl AmbiguityStep xs [0..<length xs] = map (mark_row xs) [0..<length xs]"
  by (simp add: ambiguity_pass_prefix)

section \<open>Results of the ranking routines\<close>

definition select_display :: "NCV_DISPLAY_CANDIDATE list \<Rightarrow> nat \<Rightarrow> NCV_DISPLAY_CANDIDATE list" where
  "select_display xs b = (if b \<noteq> NCV_NO_SELECTION
     then xs[b := (xs ! b)\<lparr>d_Selected := True\<rparr>] else xs)"

definition select_storage :: "NCV_STORAGE_CANDIDATE list \<Rightarrow> nat \<Rightarrow> NCV_STORAGE_CANDIDATE list" where
  "select_storage xs b = (if b \<noteq> NCV_NO_SELECTION
     then xs[b := (xs ! b)\<lparr>s_Selected := True\<rparr>] else xs)"

text \<open>The storage rows after the ambiguity pass, with every selection cleared.\<close>

definition marked_rows :: "NCV_STORAGE_CANDIDATE list \<Rightarrow> NCV_STORAGE_CANDIDATE list" where
  "marked_rows xs = map (\<lambda>i. (mark_row xs i)\<lparr>s_Selected := False\<rparr>) [0..<length xs]"

lemma small_no_selection: "n \<le> 64 \<Longrightarrow> n \<le> NCV_NO_SELECTION" "n \<le> 64 \<Longrightarrow> n \<noteq> NCV_NO_SELECTION"
  by (auto simp: NCV_NO_SELECTION_def)

lemma NcvRankDisplays_result:
  assumes "length xs \<le> NCV_MAX_DISPLAY_CANDIDATES"
  obtains b where "NcvRankDisplays (Some xs) = Inr (select_display (map prep_display xs) b, b)"
    and "first_best d_Eligible display_key NCV_NO_SELECTION (map prep_display xs) b"
proof -
  have "length xs \<le> NCV_NO_SELECTION"
    using assms by (intro small_no_selection) (simp add: NCV_MAX_DISPLAY_CANDIDATES_def)
  then obtain b where "foldl RankDisplayStep (xs, NCV_NO_SELECTION) [0..<length xs] = (map prep_display xs, b)"
    and "first_best d_Eligible display_key NCV_NO_SELECTION (map prep_display xs) b"
    by (rule rank_displays.scan_all)
  with assms that show ?thesis by (simp add: NcvRankDisplays_def select_display_def)
qed

lemma NcvRankStorage_result:
  assumes "length xs \<le> NCV_MAX_STORAGE_CANDIDATES"
  obtains b where "NcvRankStorage (Some xs) = Inr (select_storage (marked_rows xs) b, b)"
    and "first_best s_Eligible storage_key NCV_NO_SELECTION (marked_rows xs) b"
proof -
  let ?ys = "map (mark_row xs) [0..<length xs]"
  have "length ?ys \<le> NCV_NO_SELECTION"
    using assms by (intro small_no_selection) (simp add: NCV_MAX_STORAGE_CANDIDATES_def)
  then obtain b where "foldl RankStorageStep (?ys, NCV_NO_SELECTION) [0..<length ?ys] =
      (map (\<lambda>x. x\<lparr>s_Selected := False\<rparr>) ?ys, b)"
    and "first_best s_Eligible storage_key NCV_NO_SELECTION (map (\<lambda>x. x\<lparr>s_Selected := False\<rparr>) ?ys) b"
    by (rule rank_storage.scan_all)
  then show ?thesis
    using assms that
    by (simp add: NcvRankStorage_def ambiguity_pass select_storage_def marked_rows_def comp_def)
qed

lemma first_best_bound:
  assumes "first_best elig key none xs b" and "b \<noteq> none"
  shows "b < length xs" and "elig (xs ! b)"
  using assms by (auto simp: first_best_def split: if_splits)

lemma count_selected:
  assumes "\<And>x. x \<in> set xs \<Longrightarrow> \<not> P x" and "b < length xs" and "P y"
  shows "length (filter P (xs[b := y])) = 1"
proof -
  have "filter P (take b xs) = []" and "filter P (drop (Suc b) xs) = []"
    using assms(1) by (auto simp: filter_empty_conv dest: in_set_takeD in_set_dropD)
  with assms show ?thesis by (simp add: upd_conv_take_nth_drop)
qed

lemma prep_display_unselected: "x \<in> set (map prep_display xs) \<Longrightarrow> \<not> d_Selected x"
  by (auto simp: prep_display_def)

lemma marked_rows_unselected: "x \<in> set (marked_rows xs) \<Longrightarrow> \<not> s_Selected x"
  by (auto simp: marked_rows_def)

lemma marked_rows_nth:
  "i < length xs \<Longrightarrow> marked_rows xs ! i = (mark_row xs i)\<lparr>s_Selected := False\<rparr>"
  by (simp add: marked_rows_def)

lemma length_marked_rows [simp]: "length (marked_rows xs) = length xs"
  by (simp add: marked_rows_def)

section \<open>Properties\<close>

lemma display_key_prep [simp]: "display_key (prep_display x) = display_key x"
  by (simp add: display_key_def prep_display_def ActiveVgaRank_def GopRank_def)

lemma d_Eligible_prep [simp]: "d_Eligible (prep_display x) = DisplayEligible x"
  by (simp add: prep_display_def)

text \<open>
  C28. Display ranking. On at most 32 rows \<open>NcvRankDisplays\<close> always returns; it selects a row
  exactly when some row is eligible, the selected row is eligible, no eligible row ranks better
  (active VGA owner, then GOP association, then PCI address), every earlier eligible row ranks
  strictly worse, exactly the selected row is flagged \<open>Selected\<close> and every \<open>Eligible\<close> flag is
  recomputed from the row's own evidence.
\<close>

theorem NcvRankDisplays_selects_best:
  assumes "length xs \<le> NCV_MAX_DISPLAY_CANDIDATES"
  shows "\<exists>ys b. NcvRankDisplays (Some xs) = Inr (ys, b) \<and> length ys = length xs \<and>
     (b = NCV_NO_SELECTION \<longleftrightarrow> \<not> list_ex DisplayEligible xs) \<and>
     (b \<noteq> NCV_NO_SELECTION \<longrightarrow> b < length xs \<and> DisplayEligible (xs ! b) \<and>
        (\<forall>i < length xs. DisplayEligible (xs ! i) \<longrightarrow> \<not> DisplayBetter (xs ! i) (xs ! b)) \<and>
        (\<forall>i < b. DisplayEligible (xs ! i) \<longrightarrow> DisplayBetter (xs ! b) (xs ! i))) \<and>
     (\<forall>i < length xs. (d_Selected (ys ! i) \<longleftrightarrow> i = b) \<and> (d_Eligible (ys ! i) \<longleftrightarrow> DisplayEligible (xs ! i)))"
proof -
  obtain b where run: "NcvRankDisplays (Some xs) = Inr (select_display (map prep_display xs) b, b)"
    and best: "first_best d_Eligible display_key NCV_NO_SELECTION (map prep_display xs) b"
    using assms by (rule NcvRankDisplays_result)
  have small: "i \<noteq> NCV_NO_SELECTION" if "i < length xs" for i
    using that assms by (intro small_no_selection) (simp add: NCV_MAX_DISPLAY_CANDIDATES_def)
  have ex: "list_ex d_Eligible (map prep_display xs) \<longleftrightarrow> list_ex DisplayEligible xs"
    by (simp add: list_ex_iff)
  have none: "b = NCV_NO_SELECTION \<longleftrightarrow> \<not> list_ex DisplayEligible xs"
    using best small ex by (auto simp: first_best_def split: if_splits)
  have chosen: "b < length xs \<and> DisplayEligible (xs ! b) \<and>
      (\<forall>i < length xs. DisplayEligible (xs ! i) \<longrightarrow> \<not> DisplayBetter (xs ! i) (xs ! b)) \<and>
      (\<forall>i < b. DisplayEligible (xs ! i) \<longrightarrow> DisplayBetter (xs ! b) (xs ! i))"
    if "b \<noteq> NCV_NO_SELECTION"
    using best that ex none by (auto simp: first_best_def DisplayBetter_key not_less)
  have flags: "(d_Selected (select_display (map prep_display xs) b ! i) \<longleftrightarrow> i = b) \<and>
      (d_Eligible (select_display (map prep_display xs) b ! i) \<longleftrightarrow> DisplayEligible (xs ! i))"
    if "i < length xs" for i
    using that chosen small [OF that]
    by (cases "i = b") (auto simp: select_display_def prep_display_def)
  show ?thesis
    using run none chosen flags by (auto simp: select_display_def)
qed

definition sample_display :: "NCV_U8 \<Rightarrow> bool \<Rightarrow> NCV_DISPLAY_CANDIDATE" where
  "sample_display bus owner = \<lparr>d_Address = PciAddress 0 bus 0 0, d_RawSegment = 0, d_RawBus = unat bus,
     d_RawDevice = 0, d_RawFunction = 0, d_Vendor = 0x10DE, d_DeviceId = 0x1C82,
     d_SubsystemVendor = 0x1043, d_SubsystemDevice = 0x8613, d_AddressValid = True,
     d_GopAssociated = owner, d_GopAssociationKnown = True, d_ActiveLegacyVgaOwner = owner,
     d_ActiveLegacyVgaOwnerKnown = True, d_OptionRomExposed = True, d_AcceptedLegacyRom = True,
     d_PathDiscovered = True, d_PathValidated = True, d_Eligible = False, d_Selected = False\<rparr>"

theorem NcvRankDisplays_selects_best_witness:
  "length [sample_display 1 True, sample_display 2 False] \<le> NCV_MAX_DISPLAY_CANDIDATES \<and>
   (\<exists>ys b. NcvRankDisplays (Some [sample_display 1 True, sample_display 2 False]) = Inr (ys, b)
      \<and> b = 1)"
proof -
  let ?xs = "[sample_display 1 True, sample_display 2 False]"
  have h: "length ?xs \<le> NCV_MAX_DISPLAY_CANDIDATES" by (simp add: NCV_MAX_DISPLAY_CANDIDATES_def)
  have e: "\<not> DisplayEligible (sample_display 1 True)" "DisplayEligible (sample_display 2 False)"
    by (simp_all add: DisplayEligible_def sample_display_def)
  obtain ys b where run: "NcvRankDisplays (Some ?xs) = Inr (ys, b)"
    and "b = NCV_NO_SELECTION \<longleftrightarrow> \<not> list_ex DisplayEligible ?xs"
    and "b \<noteq> NCV_NO_SELECTION \<longrightarrow> b < length ?xs \<and> DisplayEligible (?xs ! b)"
    using NcvRankDisplays_selects_best [OF h] by blast
  with e have "b = 1" by (auto simp: less_Suc_eq)
  with h run show ?thesis by blast
qed

text \<open>
  C29. Storage ranking. On at most 64 rows \<open>NcvRankStorage\<close> always returns. A row is marked
  ambiguous exactly when its address is valid and another row with a valid address has the same
  controller and the same case-folded, terminated description; an ambiguous row is never eligible.
  The selected row is eligible and unambiguous, no eligible row is better (non-USB first, then
  lower BBS index) and every earlier eligible row is strictly worse, so it is the first of the best; nothing is selected only when
  no eligible row remains.
\<close>

theorem NcvRankStorage_selects_unambiguous_best:
  assumes "length xs \<le> NCV_MAX_STORAGE_CANDIDATES"
  shows "\<exists>ys b. NcvRankStorage (Some xs) = Inr (ys, b) \<and> length ys = length xs \<and>
     (\<forall>i < length xs. (s_IdentityAmbiguous (ys ! i) \<longleftrightarrow> ambiguous_row xs i) \<and>
        (s_Eligible (ys ! i) \<longleftrightarrow> s_Eligible (xs ! i) \<and> \<not> ambiguous_row xs i) \<and>
        (s_Selected (ys ! i) \<longleftrightarrow> i = b)) \<and>
     (b = NCV_NO_SELECTION \<longleftrightarrow> \<not> list_ex s_Eligible ys) \<and>
     (b \<noteq> NCV_NO_SELECTION \<longrightarrow> b < length xs \<and> s_Eligible (ys ! b) \<and>
        (\<forall>i < length xs. s_Eligible (ys ! i) \<longrightarrow> storage_key (ys ! b) \<le> storage_key (ys ! i)) \<and>
        (\<forall>i < b. s_Eligible (ys ! i) \<longrightarrow> storage_key (ys ! b) < storage_key (ys ! i)))"
proof -
  obtain b where run: "NcvRankStorage (Some xs) = Inr (select_storage (marked_rows xs) b, b)"
    and best: "first_best s_Eligible storage_key NCV_NO_SELECTION (marked_rows xs) b"
    using assms by (rule NcvRankStorage_result)
  let ?ys = "select_storage (marked_rows xs) b"
  have small: "i \<noteq> NCV_NO_SELECTION" if "i < length xs" for i
    using that assms by (intro small_no_selection) (simp add: NCV_MAX_STORAGE_CANDIDATES_def)
  have bound: "b \<noteq> NCV_NO_SELECTION \<Longrightarrow> b < length xs"
    using first_best_bound(1) [OF best] by simp
  have row: "?ys ! i = (mark_row xs i)\<lparr>s_Selected := (i = b)\<rparr>" if "i < length xs" for i
    using that bound small [OF that] by (cases "i = b") (auto simp: select_storage_def marked_rows_nth)
  have len: "length ?ys = length xs" by (simp add: select_storage_def)
  have ex: "list_ex s_Eligible ?ys \<longleftrightarrow> list_ex s_Eligible (marked_rows xs)"
    using len by (auto simp: list_ex_length row marked_rows_nth mark_row_def)
  have key: "storage_key (?ys ! i) = storage_key (marked_rows xs ! i)"
    and elig: "s_Eligible (?ys ! i) = s_Eligible (marked_rows xs ! i)" if "i < length xs" for i
    using that by (simp_all add: row marked_rows_nth storage_key_def)
  have none: "b = NCV_NO_SELECTION \<longleftrightarrow> \<not> list_ex s_Eligible ?ys"
    using best small by (auto simp: first_best_def ex split: if_splits)
  have chosen: "b \<noteq> NCV_NO_SELECTION \<longrightarrow> b < length xs \<and> s_Eligible (?ys ! b) \<and>
        (\<forall>i < length xs. s_Eligible (?ys ! i) \<longrightarrow> storage_key (?ys ! b) \<le> storage_key (?ys ! i)) \<and>
        (\<forall>i < b. s_Eligible (?ys ! i) \<longrightarrow> storage_key (?ys ! b) < storage_key (?ys ! i))"
    using best none bound by (auto simp: first_best_def ex key elig)
  have flags: "(s_IdentityAmbiguous (?ys ! i) \<longleftrightarrow> ambiguous_row xs i) \<and>
        (s_Eligible (?ys ! i) \<longleftrightarrow> s_Eligible (xs ! i) \<and> \<not> ambiguous_row xs i) \<and>
        (s_Selected (?ys ! i) \<longleftrightarrow> i = b)" if "i < length xs" for i
    using that by (simp add: row mark_row_def)
  show ?thesis
    using flags
    by (intro exI [of _ ?ys] exI [of _ b] conjI run len none chosen) blast
qed

definition sample_storage :: "nat \<Rightarrow> NCV_U8 \<Rightarrow> bool \<Rightarrow> string \<Rightarrow> NCV_STORAGE_CANDIDATE" where
  "sample_storage index bus usb name = \<lparr>s_BbsIndex = index, s_Address = PciAddress 0 bus 0x1F 2,
     s_RawBus = ucast bus, s_RawDevice = 0x1F, s_RawFunction = 2, s_BaseClass = 1, s_SubClass = 6,
     s_Manufacturer = ''Acme'', s_Description = name, s_AddressValid = True, s_Usb = usb,
     s_FirmwareStatusKnown = True, s_FirmwareStatus = 0, s_FirmwarePriority = 0,
     s_IdentityAmbiguous = False, s_Eligible = True, s_Selected = False\<rparr>"

theorem NcvRankStorage_selects_unambiguous_best_witness:
  "length [sample_storage 0 0 True ''Stick'', sample_storage 1 0 False ''SSD''] \<le> NCV_MAX_STORAGE_CANDIDATES
   \<and> (\<exists>ys b. NcvRankStorage (Some [sample_storage 0 0 True ''Stick'', sample_storage 1 0 False ''SSD''])
        = Inr (ys, b) \<and> length ys = 2)"
proof -
  let ?xs = "[sample_storage 0 0 True ''Stick'', sample_storage 1 0 False ''SSD'']"
  have h: "length ?xs \<le> NCV_MAX_STORAGE_CANDIDATES" by (simp add: NCV_MAX_STORAGE_CANDIDATES_def)
  have "\<exists>ys b. NcvRankStorage (Some ?xs) = Inr (ys, b) \<and> length ys = length ?xs"
    using NcvRankStorage_selects_unambiguous_best [OF h] by (elim exE conjE) (intro exI conjI)
  with h show ?thesis by (simp add: numeral_2_eq_2)
qed

text \<open>
  Ranking hands the formatter a consistent selection: when discovery marks a storage row
  eligible only if its address is valid and its description is exactly representable, the rows and
  indices produced by \<open>NcvRankDisplays\<close> and \<open>NcvRankStorage\<close> pass \<open>ValidateSelections\<close>.
\<close>

theorem ranked_selections_validate:
  assumes "NcvRankDisplays (Some ds) = Inr (ds', sd)" and "NcvRankStorage (Some ss) = Inr (ss', si)"
    and "\<And>x. x \<in> set ss \<Longrightarrow> s_Eligible x \<Longrightarrow> s_AddressValid x \<and>
           NcvIniValueIsExactlyRepresentable (Some (s_Description x)) NCV_CANDIDATE_STRING_BYTES"
  shows "ValidateSelections (Some ds') sd (Some ss') si"
proof -
  have lens: "length ds \<le> NCV_MAX_DISPLAY_CANDIDATES" "length ss \<le> NCV_MAX_STORAGE_CANDIDATES"
    using assms(1,2) by (auto simp: NcvRankDisplays_def NcvRankStorage_def split: if_splits)
  have d: "ds' = select_display (map prep_display ds) sd"
    and dbest: "first_best d_Eligible display_key NCV_NO_SELECTION (map prep_display ds) sd"
    using NcvRankDisplays_result [OF lens(1)] assms(1) by (metis Inr_inject Pair_inject)+
  have s: "ss' = select_storage (marked_rows ss) si"
    and sbest: "first_best s_Eligible storage_key NCV_NO_SELECTION (marked_rows ss) si"
    using NcvRankStorage_result [OF lens(2)] assms(2) by (metis Inr_inject Pair_inject)+
  have display: "if sd = NCV_NO_SELECTION then length (filter d_Selected ds') = 0
     else sd < length ds \<and> length (filter d_Selected ds') = 1 \<and> d_Selected (ds' ! sd) \<and> d_Eligible (ds' ! sd)
          \<and> d_AddressValid (ds' ! sd)"
  proof (cases "sd = NCV_NO_SELECTION")
    case True
    then show ?thesis by (simp add: d select_display_def filter_empty_conv prep_display_def)
  next
    case False
    note b = first_best_bound [OF dbest False]
    have "length (filter d_Selected ds') = 1"
      unfolding d select_display_def using False b prep_display_unselected
      by (simp del: filter_map length_map set_map add: count_selected)
    with False b show ?thesis
      by (simp add: d select_display_def DisplayEligible_def prep_display_def)
  qed
  have storage: "if si = NCV_NO_SELECTION then length (filter s_Selected ss') = 0
     else si < length ss \<and> length (filter s_Selected ss') = 1 \<and> s_Selected (ss' ! si) \<and> s_Eligible (ss' ! si)
          \<and> s_Eligible (ss ! si) \<and> s_AddressValid (ss' ! si) = s_AddressValid (ss ! si)
          \<and> s_Description (ss' ! si) = s_Description (ss ! si)"
  proof (cases "si = NCV_NO_SELECTION")
    case True
    then show ?thesis
      using marked_rows_unselected [of _ ss] by (simp add: s select_storage_def filter_empty_conv)
  next
    case False
    note b = first_best_bound [OF sbest False]
    have "length (filter s_Selected ss') = 1"
      unfolding s select_storage_def using False b marked_rows_unselected by (simp add: count_selected)
    with False b show ?thesis
      by (simp add: s select_storage_def marked_rows_nth mark_row_def)
  qed
  have "length ds' = length ds" "length ss' = length ss"
    by (simp_all add: d s select_display_def select_storage_def)
  with lens display storage assms(3) [of "ss ! si"] show ?thesis
    by (auto simp: ValidateSelections_def split: if_splits)
qed

theorem ranked_selections_validate_witness:
  "\<exists>ds' sd ss' si. NcvRankDisplays (Some [sample_display 1 False]) = Inr (ds', sd) \<and>
     NcvRankStorage (Some [sample_storage 0 0 False ''SSD'']) = Inr (ss', si) \<and>
     ValidateSelections (Some ds') sd (Some ss') si"
proof -
  have h: "length [sample_display 1 False] \<le> NCV_MAX_DISPLAY_CANDIDATES"
    "length [sample_storage 0 0 False ''SSD''] \<le> NCV_MAX_STORAGE_CANDIDATES"
    by (simp_all add: ncv_defs)
  obtain sd where d: "NcvRankDisplays (Some [sample_display 1 False]) =
      Inr (select_display (map prep_display [sample_display 1 False]) sd, sd)"
    by (rule NcvRankDisplays_result [OF h(1)])
  obtain si where s: "NcvRankStorage (Some [sample_storage 0 0 False ''SSD'']) =
      Inr (select_storage (marked_rows [sample_storage 0 0 False ''SSD'']) si, si)"
    by (rule NcvRankStorage_result [OF h(2)])
  have "s_AddressValid x \<and>
      NcvIniValueIsExactlyRepresentable (Some (s_Description x)) NCV_CANDIDATE_STRING_BYTES"
    if "x \<in> set [sample_storage 0 0 False ''SSD'']" for x
    using that by (simp add: sample_storage_def cstr_def representable_str_def printable_def ncv_defs)
  with d s ranked_selections_validate [OF d s] show ?thesis by blast
qed

section \<open>Collections\<close>

definition empty_displays :: NCV_DISPLAY_COLLECTION where
  "empty_displays = \<lparr>dc_Items = [], dc_Count = 0, dc_ObservedCount = 0, dc_Overflow = False\<rparr>"

definition empty_storages :: NCV_STORAGE_COLLECTION where
  "empty_storages = \<lparr>sc_Items = [], sc_Count = 0, sc_ObservedCount = 0, sc_Overflow = False\<rparr>"

text \<open>
  Discovery loses nothing silently: feeding any sequence of rows to
  \<open>NcvDisplayCollectionAppend\<close> or \<open>NcvStorageCollectionAppend\<close> keeps the first 32 (64) of
  them in arrival order, counts every one, and raises the overflow flag exactly when a row was dropped.
\<close>

theorem collections_keep_order:
  "dc_Items (foldl append_display empty_displays ds) = take NCV_MAX_DISPLAY_CANDIDATES ds \<and>
   dc_ObservedCount (foldl append_display empty_displays ds) = length ds \<and>
   (dc_Overflow (foldl append_display empty_displays ds) \<longleftrightarrow> NCV_MAX_DISPLAY_CANDIDATES < length ds) \<and>
   sc_Items (foldl append_storage empty_storages ss) = take NCV_MAX_STORAGE_CANDIDATES ss \<and>
   sc_ObservedCount (foldl append_storage empty_storages ss) = length ss \<and>
   (sc_Overflow (foldl append_storage empty_storages ss) \<longleftrightarrow> NCV_MAX_STORAGE_CANDIDATES < length ss)"
proof -
  have "display_wf empty_displays" "storage_wf empty_storages"
    by (simp_all add: display_wf_def storage_wf_def empty_displays_def empty_storages_def)
  then show ?thesis
    using displays.collect_items [of empty_displays ds] displays.collect_overflow [of empty_displays ds]
      displays.collect_observed [of empty_displays ds]
      storages.collect_items [of empty_storages ss] storages.collect_overflow [of empty_storages ss]
      storages.collect_observed [of empty_storages ss]
    by (simp add: empty_displays_def empty_storages_def)
qed


end
