(* ===== verification/Marker_Config.thy ===== *)
theory Marker_Config
  imports Candidate_Text
begin

text \<open>
  \<open>MarkerConfig.h\<close>: the optional \<open>[Marker]\<close> section. The model has the settings record,
  the number parser with its overflow guard on 64-bit words, the key/value setter and the final
  validity check; the lemmas show that the guard makes the parsed number exact, that accepted
  strings fit their buffers, and that an enabled marker names a partition extent that does not wrap.
\<close>

section \<open>Data\<close>

record NCV_MARKER_CONFIG =
  m_Seen :: NCV_U32
  m_Enabled :: NCV_U32
  m_Partition :: NCV_U32
  m_Signature :: NCV_U32
  m_Start :: UINT64
  m_Sectors :: UINT64
  m_Profile :: string
  m_Path :: string
  m_Header :: string

section \<open>Operations\<close>

fun MarkerStringEqual :: "string \<Rightarrow> string \<Rightarrow> bool" where
  "MarkerStringEqual (l # ls) (r # rs) = (if l = r then MarkerStringEqual ls rs else False)"
| "MarkerStringEqual ls rs = (c_at ls 0 = c_at rs 0)"

text \<open>The digit value of a character, \<open>None\<close> for the final \<open>else return 0\<close>.\<close>

definition MarkerDigit :: "char \<Rightarrow> UINT64 option" where
  "MarkerDigit c =
     (if ord (CHR ''0'') \<le> ord c \<and> ord c \<le> ord (CHR ''9'') then Some (word_of_nat (ord c - ord (CHR ''0'')))
      else if ord (CHR ''a'') \<le> ord c \<and> ord c \<le> ord (CHR ''f'') then Some (word_of_nat (ord c - ord (CHR ''a'') + 10))
      else if ord (CHR ''A'') \<le> ord c \<and> ord c \<le> ord (CHR ''F'') then Some (word_of_nat (ord c - ord (CHR ''A'') + 10))
      else None)"

fun MarkerNumberLoop :: "UINT64 \<Rightarrow> UINT64 \<Rightarrow> UINT64 \<Rightarrow> string \<Rightarrow> UINT64 option" where
  "MarkerNumberLoop base maximum number [] = Some number"
| "MarkerNumberLoop base maximum number (c # cs) =
     (case MarkerDigit c of None \<Rightarrow> None
      | Some digit \<Rightarrow>
          if digit \<ge> base \<or> digit > maximum \<or> number > (maximum - digit) div base then None
          else MarkerNumberLoop base maximum (number * base + digit) cs)"

definition MarkerParseNumber :: "string \<Rightarrow> UINT64 \<Rightarrow> UINT64 option" where
  "MarkerParseNumber str maximum =
     (if str = '''' then None
      else if c_at str 0 = CHR ''0'' \<and> (c_at str 1 = CHR ''x'' \<or> c_at str 1 = CHR ''X'') then
        (let str = drop 2 str
         in if str = '''' then None else MarkerNumberLoop 16 maximum 0 str)
      else MarkerNumberLoop 10 maximum 0 str)"

definition MarkerKeys :: "string list" where
  "MarkerKeys = [''Enabled'', ''PartitionNumber'', ''DiskSignature'', ''PartitionStart'',
     ''PartitionSectors'', ''Profile'', ''Path'', ''Header'']"

definition MarkerKeyIndex :: "string \<Rightarrow> nat" where
  "MarkerKeyIndex key = length (takeWhile (\<lambda>k. \<not> MarkerStringEqual key k) MarkerKeys)"

definition MarkerNumberValue :: "nat \<Rightarrow> string \<Rightarrow> UINT64 option" where
  "MarkerNumberValue index v =
     (if index = 0 then
        (if MarkerStringEqual v ''true'' then Some 1
         else if MarkerStringEqual v ''false'' then Some 0 else None)
      else MarkerParseNumber v (if index < 3 then 0xffffffff else NOT 0))"

definition MarkerStoreNumber :: "nat \<Rightarrow> UINT64 \<Rightarrow> NCV_MARKER_CONFIG \<Rightarrow> NCV_MARKER_CONFIG" where
  "MarkerStoreNumber index number config =
     (if index = 0 then config\<lparr>m_Enabled := ucast number\<rparr>
      else if index = 1 then config\<lparr>m_Partition := ucast number\<rparr>
      else if index = 2 then config\<lparr>m_Signature := ucast number\<rparr>
      else if index = 3 then config\<lparr>m_Start := number\<rparr>
      else config\<lparr>m_Sectors := number\<rparr>)"

definition MarkerProfileOk :: "string \<Rightarrow> bool" where
  "MarkerProfileOk v \<longleftrightarrow> \<not> (v = '''' \<or> length v > 32) \<and>
     list_all (\<lambda>ch. ord (CHR ''A'') \<le> ord ch \<and> ord ch \<le> ord (CHR ''Z'')
                  \<or> ord (CHR ''0'') \<le> ord ch \<and> ord ch \<le> ord (CHR ''9'') \<or> ch = CHR ''_'') v"

definition MarkerPathOk :: "string \<Rightarrow> bool" where
  "MarkerPathOk v \<longleftrightarrow> \<not> (c_at v 0 \<noteq> BACKSLASH \<or> length v < 2 \<or> length v > 127) \<and>
     list_all (\<lambda>i. \<not> (ord (c_at v i) < 33 \<or> ord (c_at v i) > 126 \<or> c_at v i = CHR ''/''
                    \<or> c_at v i = CHR '':'' \<or> c_at v i = CHR ''.'' \<and> c_at v (i + 1) = CHR ''.''))
       [0..<length v]"

definition MarkerHeaderOk :: "string \<Rightarrow> bool" where
  "MarkerHeaderOk v \<longleftrightarrow> \<not> (v = '''' \<or> length v > 64) \<and>
     list_all (\<lambda>ch. \<not> (ord ch < 32 \<or> ord ch > 126)) v"

text \<open>\<open>None\<close> is the return value 0, after which the caller discards the settings.\<close>

definition MarkerConfigSetValue ::
  "NCV_MARKER_CONFIG \<Rightarrow> string \<Rightarrow> string \<Rightarrow> NCV_MARKER_CONFIG option" where
  "MarkerConfigSetValue config key v =
     (let index = MarkerKeyIndex key
      in if index = 8 \<or> m_Seen config AND push_bit index 1 \<noteq> 0 then None
         else let config = config\<lparr>m_Seen := m_Seen config OR push_bit index 1\<rparr>
              in if index < 5 then
                   (case MarkerNumberValue index v of None \<Rightarrow> None
                    | Some number \<Rightarrow> Some (MarkerStoreNumber index number config))
                 else if index = 5 then
                   (if MarkerProfileOk v then Some (config\<lparr>m_Profile := v\<rparr>) else None)
                 else if index = 6 then
                   (if MarkerPathOk v then Some (config\<lparr>m_Path := v\<rparr>) else None)
                 else (if MarkerHeaderOk v then Some (config\<lparr>m_Header := v\<rparr>) else None))"

definition MarkerConfigIsValid :: "NCV_MARKER_CONFIG \<Rightarrow> bool" where
  "MarkerConfigIsValid config =
     (if m_Seen config = 0 then True
      else if m_Seen config AND 1 = 0 then False
      else if m_Enabled config = 0 then True
      else m_Seen config AND 127 = 127 \<and> m_Partition config \<noteq> 0 \<and> m_Signature config \<noteq> 0
           \<and> m_Start config \<noteq> 0 \<and> m_Sectors config \<noteq> 0
           \<and> m_Start config \<le> NOT 0 - m_Sectors config)"

section \<open>Numbers are parsed exactly\<close>

lemma MarkerStringEqual_iff:
  "NUL \<notin> set l \<Longrightarrow> NUL \<notin> set r \<Longrightarrow> MarkerStringEqual l r \<longleftrightarrow> l = r"
  by (induction l r rule: MarkerStringEqual.induct) (auto simp: c_at_0_NUL_iff)

text \<open>The value a digit string denotes, without any bound.\<close>

fun marker_value :: "nat \<Rightarrow> nat \<Rightarrow> string \<Rightarrow> nat option" where
  "marker_value base number [] = Some number"
| "marker_value base number (c # cs) =
     (case MarkerDigit c of None \<Rightarrow> None
      | Some digit \<Rightarrow> if unat digit < base then marker_value base (number * base + unat digit) cs else None)"

lemma marker_value_mono: "marker_value base n cs = Some v \<Longrightarrow> 0 < base \<Longrightarrow> n \<le> v"
proof (induction cs arbitrary: n)
  case (Cons c cs)
  then obtain d :: UINT64 where "marker_value base (n * base + unat d) cs = Some v"
    by (fastforce split: option.splits if_splits)
  with Cons have "n * base + unat d \<le> v" by blast
  moreover have "n \<le> n * base" using Cons.prems(2) by simp
  ultimately show ?case by linarith
qed simp

text \<open>The guard is exact: it passes precisely when the next value still fits the maximum.\<close>

lemma number_guard:
  fixes number digit maximum base :: UINT64
  assumes "0 < unat base" and "digit < base"
  shows "(digit > maximum \<or> number > (maximum - digit) div base) \<longleftrightarrow>
         unat maximum < unat number * unat base + unat digit"
proof (cases "digit > maximum")
  case True
  then show ?thesis by (simp add: word_less_nat_alt)
next
  case False
  then have sub: "unat (maximum - digit) = unat maximum - unat digit"
    by (simp add: unat_sub not_less)
  have "number > (maximum - digit) div base \<longleftrightarrow> (unat maximum - unat digit) div unat base < unat number"
    by (simp add: word_less_nat_alt unat_div sub)
  also have "\<dots> \<longleftrightarrow> unat maximum - unat digit < unat number * unat base"
    using assms(1) by (rule div_less_iff_less_mult)
  finally show ?thesis
    using False by (auto simp: word_less_nat_alt)
qed

lemma number_step:
  fixes number digit maximum base :: UINT64
  assumes "\<not> unat maximum < unat number * unat base + unat digit"
  shows "unat (number * base + digit) = unat number * unat base + unat digit"
proof -
  have sum: "unat number * unat base + unat digit < 2 ^ 64"
    using assms unat_less_u64 [of maximum] by linarith
  then have "unat number * unat base < 2 ^ 64" by linarith
  with sum show ?thesis by (simp add: unat_word_ariths)
qed

lemma MarkerNumberLoop_iff:
  fixes base :: UINT64
  assumes "0 < unat base" and "unat number \<le> unat maximum"
  shows "MarkerNumberLoop base maximum number cs = Some n \<longleftrightarrow>
     marker_value (unat base) (unat number) cs = Some (unat n) \<and> unat n \<le> unat maximum"
  using assms(2)
proof (induction cs arbitrary: number)
  case Nil
  then show ?case by (auto simp: unsigned_word_eqI)
next
  case (Cons c cs)
  show ?case
  proof (cases "MarkerDigit c")
    case None
    then show ?thesis by simp
  next
    case (Some d)
    show ?thesis
    proof (cases "d < base \<and> \<not> unat maximum < unat number * unat base + unat d")
      case True
      then have "unat (number * base + d) = unat number * unat base + unat d"
        and "\<not> (d > maximum \<or> number > (maximum - d) div base)"
        using number_step number_guard [OF assms(1)] by blast+
      with True Some Cons.IH [of "number * base + d"] show ?thesis
        by (auto simp: word_less_nat_alt word_le_nat_alt)
    next
      case False
      have no: "MarkerNumberLoop base maximum number (c # cs) = None"
        using False Some number_guard [OF assms(1), of d maximum number] by (auto simp: not_less not_le)
      have "\<not> (marker_value (unat base) (unat number) (c # cs) = Some (unat n) \<and> unat n \<le> unat maximum)"
        using False Some marker_value_mono [of "unat base" "unat number * unat base + unat d" cs "unat n"] assms(1)
        by (auto simp: word_less_nat_alt split: if_splits)
      with no show ?thesis by simp
    qed
  qed
qed

definition marker_number :: "string \<Rightarrow> nat option" where
  "marker_number str =
     (if str = '''' then None
      else if take 2 str = ''0x'' \<or> take 2 str = ''0X'' then
        (if drop 2 str = '''' then None else marker_value 16 0 (drop 2 str))
      else marker_value 10 0 str)"

lemma hex_prefix:
  "(c_at str 0 = CHR ''0'' \<and> (c_at str 1 = CHR ''x'' \<or> c_at str 1 = CHR ''X'')) \<longleftrightarrow>
     take 2 str = ''0x'' \<or> take 2 str = ''0X''"
proof (cases str)
  case (Cons a t)
  then show ?thesis by (cases t) auto
qed simp

text \<open>
  Marker numbers. \<open>MarkerParseNumber\<close> accepts a text exactly when it is a nonempty decimal
  numeral, or \<open>0x\<close> and a nonempty hexadecimal one, whose mathematical value is at most the given
  maximum, and then returns that value: the 64-bit accumulator never wraps.
\<close>

theorem MarkerParseNumber_exact:
  "MarkerParseNumber str maximum = Some n \<longleftrightarrow> marker_number str = Some (unat n) \<and> unat n \<le> unat maximum"
  using MarkerNumberLoop_iff [of 10 0 maximum str n] MarkerNumberLoop_iff [of 16 0 maximum "drop 2 str" n]
  by (simp only: MarkerParseNumber_def marker_number_def hex_prefix Let_def) auto

section \<open>Accepted settings are well-formed\<close>

text \<open>
  The buffers are \<open>Profile[33]\<close>, \<open>Path[128]\<close> and \<open>Header[65]\<close>; every string the
  settings can hold fits them with its terminator and uses the documented alphabet.
\<close>

definition marker_wf :: "NCV_MARKER_CONFIG \<Rightarrow> bool" where
  "marker_wf m \<longleftrightarrow>
     (m_Profile m = '''' \<or> MarkerProfileOk (m_Profile m)) \<and>
     (m_Path m = '''' \<or> MarkerPathOk (m_Path m)) \<and>
     (m_Header m = '''' \<or> MarkerHeaderOk (m_Header m))"

lemma MarkerStoreNumber_frame [simp]:
  "m_Seen (MarkerStoreNumber i n m) = m_Seen m" "m_Profile (MarkerStoreNumber i n m) = m_Profile m"
  "m_Path (MarkerStoreNumber i n m) = m_Path m" "m_Header (MarkerStoreNumber i n m) = m_Header m"
  by (simp_all add: MarkerStoreNumber_def)

lemma MarkerConfigSetValue_wf:
  "MarkerConfigSetValue m key v = Some m' \<Longrightarrow> marker_wf m \<Longrightarrow> marker_wf m'"
  by (auto simp: MarkerConfigSetValue_def marker_wf_def Let_def split: if_splits option.splits)

lemma MarkerKeyIndex_le: "MarkerKeyIndex key \<le> 8"
  using length_takeWhile_le [of "\<lambda>k. \<not> MarkerStringEqual key k" MarkerKeys]
  by (simp add: MarkerKeyIndex_def MarkerKeys_def)

lemma MarkerConfigSetValue_seen:
  assumes "MarkerConfigSetValue m key v = Some m'"
  shows "MarkerKeyIndex key < 8" and "\<not> bit (m_Seen m) (MarkerKeyIndex key)"
    and "m_Seen m' = set_bit (MarkerKeyIndex key) (m_Seen m)"
proof -
  let ?i = "MarkerKeyIndex key"
  have fresh: "?i \<noteq> 8" "m_Seen m AND push_bit ?i 1 = 0"
    using assms by (auto simp: MarkerConfigSetValue_def Let_def split: if_splits)
  show lt: "?i < 8" using fresh(1) MarkerKeyIndex_le [of key] by simp
  then show "\<not> bit (m_Seen m) ?i"
    using fresh(2) by (auto simp: and_exp_eq_0_iff_not_bit push_bit_eq_mult)
  show "m_Seen m' = set_bit ?i (m_Seen m)"
    using assms by (auto simp: MarkerConfigSetValue_def Let_def set_bit_eq_or split: if_splits option.splits)
qed

text \<open>
  Marker settings. A setting is accepted only for one of the eight known keys that has not
  been given before, it marks exactly that key as given, and it keeps every string inside its
  buffer and alphabet (a profile of at most 32 upper-case letters, digits or underscores; an
  absolute path of at most 127 visible characters without \<open>..\<close>, \<open>/\<close> or \<open>:\<close>; a
  printable header of at most 64).
\<close>

theorem MarkerConfigSetValue_sound:
  assumes "MarkerConfigSetValue m key v = Some m'"
  shows "MarkerKeyIndex key < 8 \<and> \<not> bit (m_Seen m) (MarkerKeyIndex key) \<and>
     (\<forall>i. bit (m_Seen m') i \<longleftrightarrow> i = MarkerKeyIndex key \<or> bit (m_Seen m) i) \<and>
     (marker_wf m \<longrightarrow> marker_wf m')"
  using MarkerConfigSetValue_seen [OF assms] MarkerConfigSetValue_wf [OF assms]
  by (auto simp: bit_set_bit_iff possible_bit_def)

definition empty_marker :: NCV_MARKER_CONFIG where
  "empty_marker = \<lparr>m_Seen = 0, m_Enabled = 0, m_Partition = 0, m_Signature = 0, m_Start = 0,
     m_Sectors = 0, m_Profile = '''', m_Path = '''', m_Header = ''''\<rparr>"

theorem MarkerConfigSetValue_sound_witness:
  "\<exists>m'. MarkerConfigSetValue empty_marker ''Profile'' ''SECONDARY'' = Some m' \<and>
     m_Profile m' = ''SECONDARY'' \<and> MarkerKeyIndex ''Profile'' < 8 \<and> marker_wf m'"
proof -
  let ?m = "empty_marker\<lparr>m_Seen := 32, m_Profile := ''SECONDARY''\<rparr>"
  have run: "MarkerConfigSetValue empty_marker ''Profile'' ''SECONDARY'' = Some ?m"
    by (simp add: MarkerConfigSetValue_def MarkerKeyIndex_def MarkerKeys_def empty_marker_def
        MarkerProfileOk_def Let_def)
  have "marker_wf empty_marker" by (simp add: marker_wf_def empty_marker_def)
  with run MarkerConfigSetValue_sound [OF run] show ?thesis by simp
qed

text \<open>
  An enabled, valid marker was fully specified (all seven mandatory keys), has nonzero
  partition number, disk signature, start and size, and the sector after the partition is still a
  64-bit number: the extent never wraps.
\<close>

theorem MarkerConfigIsValid_extent:
  assumes "MarkerConfigIsValid m" and "m_Seen m \<noteq> 0" and "m_Enabled m \<noteq> 0"
  shows "(\<forall>i < 7. bit (m_Seen m) i) \<and> m_Partition m \<noteq> 0 \<and> m_Signature m \<noteq> 0 \<and>
     0 < unat (m_Start m) \<and> 0 < unat (m_Sectors m) \<and> unat (m_Start m) + unat (m_Sectors m) < 2 ^ 64"
proof -
  have seen: "m_Seen m AND 127 = 127" and nz: "m_Partition m \<noteq> 0" "m_Signature m \<noteq> 0"
    "m_Start m \<noteq> 0" "m_Sectors m \<noteq> 0" and fits: "m_Start m \<le> NOT 0 - m_Sectors m"
    using assms by (simp_all add: MarkerConfigIsValid_def split: if_splits)
  have "bit (m_Seen m) i" if "i < 7" for i
  proof -
    have "bit (127 :: NCV_U32) i" using that by (auto simp: less_Suc_eq numeral_eq_Suc)
    then have "bit (m_Seen m AND 127) i" by (simp only: seen)
    then show ?thesis by (simp add: bit_and_iff)
  qed
  moreover have "unat (m_Start m) \<le> 2 ^ 64 - 1 - unat (m_Sectors m)"
  proof -
    have "m_Sectors m \<le> NOT 0" by simp
    then have "unat (NOT 0 - m_Sectors m) = unat (NOT 0 :: UINT64) - unat (m_Sectors m)"
      by (rule unat_sub)
    moreover have "unat (NOT 0 :: UINT64) = 2 ^ 64 - 1" by (simp add: unsigned_minus_1_eq_mask mask_eq_exp_minus_1)
    ultimately show ?thesis using fits by (simp add: word_le_nat_alt)
  qed
  moreover have "0 < unat (m_Start m)" "0 < unat (m_Sectors m)"
    using nz by (simp_all add: unat_gt_0)
  ultimately show ?thesis using nz unat_less_u64 [of "m_Sectors m"] by auto
qed

theorem MarkerConfigIsValid_extent_witness:
  "\<exists>m. MarkerConfigIsValid m \<and> m_Enabled m \<noteq> 0 \<and> unat (m_Start m) + unat (m_Sectors m) < 2 ^ 64"
proof -
  let ?m = "empty_marker\<lparr>m_Seen := 127, m_Enabled := 1, m_Partition := 1,
    m_Signature := 0x12345678, m_Start := 2048, m_Sectors := 131072\<rparr>"
  have h: "MarkerConfigIsValid ?m" "m_Seen ?m \<noteq> 0" "m_Enabled ?m \<noteq> 0"
    by (simp_all add: MarkerConfigIsValid_def empty_marker_def)
  with MarkerConfigIsValid_extent [OF h] show ?thesis by blast
qed

end
