(* ===== verification/Config_Parser.thy ===== *)
theory Config_Parser
  imports Candidate_Rank Marker_Config
begin

text \<open>
  The strict INI parser of \<open>CandidateIni.c\<close>: trimming, hexadecimal and PCI-address parsing,
  section headers, key/value assignment, \<open>NcvParseConfigStrict\<close>, and the boot-requirement checks
  built on its result. A failing parse returns only its status: both callers discard the structure.
\<close>

section \<open>Data\<close>

definition NCV_CONFIG_MAX_LINE_BYTES :: nat where [ncv_defs]: "NCV_CONFIG_MAX_LINE_BYTES = 256"

datatype NCV_CONFIG_SECTION =
    NcvSectionNone | NcvSectionProfile | NcvSectionVideo | NcvSectionEndpoint
  | NcvSectionBoot | NcvSectionBehavior | NcvSectionMarker

datatype NCV_ENDPOINT_POLICY = NcvEndpointIgnore | NcvEndpointOn | NcvEndpointOff

datatype NCV_CONFIG_RESULT =
    NcvConfigSuccess | NcvConfigInvalidParameter | NcvConfigUnsupported | NcvConfigCompromisedData

record NCV_CONFIG_CORE =
  c_Marker :: NCV_MARKER_CONFIG
  c_HasProbe :: bool
  c_Probe :: bool
  c_HasName :: bool
  c_HasTargetPci :: bool
  c_HasTargetControllerPci :: bool
  c_HasExpectedVendor :: bool
  c_HasExpectedDevice :: bool
  c_HasExpectedSubsystemVendor :: bool
  c_HasExpectedSubsystemDevice :: bool
  c_HasLegacyOptionDescription :: bool
  c_HasExcludeDescription :: bool
  c_HasTargetBbsDescription :: bool
  c_HasVerboseLog :: bool
  c_HasAutoBoot :: bool
  c_HasRequireReferenceSnapshotMatch :: bool
  c_HasIoDecoding :: bool
  c_HasMemoryDecoding :: bool
  c_HasBusMastering :: bool
  c_VerboseLog :: bool
  c_AutoBoot :: bool
  c_RequireReferenceSnapshotMatch :: bool
  c_IoDecoding :: NCV_ENDPOINT_POLICY
  c_MemoryDecoding :: NCV_ENDPOINT_POLICY
  c_BusMastering :: NCV_ENDPOINT_POLICY
  c_TargetPci :: NCV_PCI_ADDRESS
  c_TargetControllerPci :: NCV_PCI_ADDRESS
  c_ExpectedVendor :: NCV_U16
  c_ExpectedDevice :: NCV_U16
  c_ExpectedSubsystemVendor :: NCV_U16
  c_ExpectedSubsystemDevice :: NCV_U16
  c_Name :: string
  c_LegacyOptionDescription :: string
  c_ExcludeDescription :: string
  c_TargetBbsDescription :: string

record NCV_BOOT_REQUIREMENTS =
  r_Probe :: bool
  r_HasTargetPci :: bool
  r_HasTargetControllerPci :: bool
  r_HasIoDecoding :: bool
  r_HasMemoryDecoding :: bool
  r_HasBusMastering :: bool

datatype NCV_OUTPUT_KIND = NcvOutputActiveIni | NcvOutputProbeIni

type_synonym config_result = "NCV_CONFIG_RESULT + NCV_CONFIG_CORE"

section \<open>Scanning and number parsing\<close>

definition IsSpace :: "char \<Rightarrow> bool" where
  "IsSpace c \<longleftrightarrow> c = CHR '' '' \<or> c = TAB"

definition Trim :: "string \<Rightarrow> string" where
  "Trim s = rev (dropWhile IsSpace (rev (dropWhile IsSpace s)))"

definition HexDigit :: "char \<Rightarrow> int" where
  "HexDigit c =
     (if ord (CHR ''0'') \<le> ord c \<and> ord c \<le> ord (CHR ''9'') then int (ord c) - int (ord (CHR ''0''))
      else if ord (CHR ''a'') \<le> ord c \<and> ord c \<le> ord (CHR ''f'') then int (ord c) - int (ord (CHR ''a'')) + 10
      else if ord (CHR ''A'') \<le> ord c \<and> ord c \<le> ord (CHR ''F'') then int (ord c) - int (ord (CHR ''A'')) + 10
      else -1)"

text \<open>The digit loop \<open>Result = (Result << 4) | Digit\<close> over the given text positions.\<close>

fun HexAccumulate :: "string \<Rightarrow> nat list \<Rightarrow> NCV_U16 \<Rightarrow> NCV_U16 option" where
  "HexAccumulate s [] r = Some r"
| "HexAccumulate s (i # is) r =
     (let digit = HexDigit (c_at s i)
      in if digit < 0 then None
         else HexAccumulate s is (push_bit 4 r OR word_of_int digit))"

definition ParseHex16 :: "string \<Rightarrow> NCV_U16 option" where
  "ParseHex16 s =
     (if list_ex (\<lambda>i. c_at s i = NUL) [0..<4] then None
      else if c_at s 4 \<noteq> NUL then None
      else HexAccumulate s [0..<4] 0)"

definition ParsePciAddress :: "string \<Rightarrow> NCV_PCI_ADDRESS option" where
  "ParsePciAddress s =
     (if list_ex (\<lambda>i. c_at s i = NUL) [0..<12] then None
      else if c_at s 12 \<noteq> NUL \<or> c_at s 4 \<noteq> CHR '':'' \<or> c_at s 7 \<noteq> CHR '':'' \<or> c_at s 10 \<noteq> CHR ''.'' then None
      else case HexAccumulate s [0..<4] 0 of None \<Rightarrow> None | Some segment \<Rightarrow>
           case HexAccumulate s [5, 6] 0 of None \<Rightarrow> None | Some bus \<Rightarrow>
           case HexAccumulate s [8, 9] 0 of None \<Rightarrow> None | Some device \<Rightarrow>
             (let function = HexDigit (c_at s 11)
              in if function < 0 \<or> device > 31 \<or> function > 7 then None
                 else Some (PciAddress segment (ucast bus) (ucast device) (word_of_int function))))"

section \<open>Sections and keys\<close>

definition SetSection :: "string \<Rightarrow> NCV_CONFIG_RESULT + NCV_CONFIG_SECTION" where
  "SetSection s =
     (if AsciiEqual s ''[Profile]'' then Inr NcvSectionProfile
      else if AsciiEqual s ''[Video]'' then Inr NcvSectionVideo
      else if AsciiEqual s ''[Endpoint]'' then Inr NcvSectionEndpoint
      else if AsciiEqual s ''[Boot]'' then Inr NcvSectionBoot
      else if AsciiEqual s ''[Marker]'' then Inr NcvSectionMarker
      else if AsciiEqual s ''[Behavior]'' then Inr NcvSectionBehavior
      else Inl NcvConfigUnsupported)"

text \<open>
  The idiom \<open>if (Has || !Parse (...)) return NcvConfigCompromisedData; Has = 1; return
  NcvConfigSuccess\<close>: a repeated key and an unparsable value are both refused.
\<close>

definition SetOnce :: "bool \<Rightarrow> 'a option \<Rightarrow> ('a \<Rightarrow> NCV_CONFIG_CORE) \<Rightarrow> config_result" where
  "SetOnce has parsed store =
     (if has then Inl NcvConfigCompromisedData
      else case parsed of None \<Rightarrow> Inl NcvConfigCompromisedData | Some x \<Rightarrow> Inr (store x))"

definition SetProfileKey :: "NCV_CONFIG_CORE \<Rightarrow> string \<Rightarrow> string \<Rightarrow> config_result" where
  "SetProfileKey c key v =
     (if \<not> AsciiEqual key ''Name'' then Inl NcvConfigCompromisedData
      else SetOnce (c_HasName c) (CopyAscii NCV_CONFIG_TEXT_BYTES v)
             (\<lambda>x. c\<lparr>c_Name := x, c_HasName := True\<rparr>))"

definition SetVideoKey :: "NCV_CONFIG_CORE \<Rightarrow> string \<Rightarrow> string \<Rightarrow> config_result" where
  "SetVideoKey c key v =
     (if AsciiEqual key ''TargetPci'' then
        SetOnce (c_HasTargetPci c) (ParsePciAddress v)
          (\<lambda>x. c\<lparr>c_TargetPci := x, c_HasTargetPci := True\<rparr>)
      else if AsciiEqual key ''ExpectedVendor'' then
        SetOnce (c_HasExpectedVendor c) (ParseHex16 v)
          (\<lambda>x. c\<lparr>c_ExpectedVendor := x, c_HasExpectedVendor := True\<rparr>)
      else if AsciiEqual key ''ExpectedDevice'' then
        SetOnce (c_HasExpectedDevice c) (ParseHex16 v)
          (\<lambda>x. c\<lparr>c_ExpectedDevice := x, c_HasExpectedDevice := True\<rparr>)
      else if AsciiEqual key ''ExpectedSubsystemVendor'' then
        SetOnce (c_HasExpectedSubsystemVendor c) (ParseHex16 v)
          (\<lambda>x. c\<lparr>c_ExpectedSubsystemVendor := x, c_HasExpectedSubsystemVendor := True\<rparr>)
      else if AsciiEqual key ''ExpectedSubsystemDevice'' then
        SetOnce (c_HasExpectedSubsystemDevice c) (ParseHex16 v)
          (\<lambda>x. c\<lparr>c_ExpectedSubsystemDevice := x, c_HasExpectedSubsystemDevice := True\<rparr>)
      else Inl NcvConfigUnsupported)"

definition SetBootKey :: "NCV_CONFIG_CORE \<Rightarrow> string \<Rightarrow> string \<Rightarrow> config_result" where
  "SetBootKey c key v =
     (if AsciiEqual key ''TargetControllerPci'' then
        SetOnce (c_HasTargetControllerPci c) (ParsePciAddress v)
          (\<lambda>x. c\<lparr>c_TargetControllerPci := x, c_HasTargetControllerPci := True\<rparr>)
      else if AsciiEqual key ''LegacyOptionDescription'' then
        SetOnce (c_HasLegacyOptionDescription c) (CopyAscii NCV_CONFIG_TEXT_BYTES v)
          (\<lambda>x. c\<lparr>c_LegacyOptionDescription := x, c_HasLegacyOptionDescription := True\<rparr>)
      else if AsciiEqual key ''ExcludeDescription'' then
        SetOnce (c_HasExcludeDescription c) (CopyAscii NCV_CONFIG_TEXT_BYTES v)
          (\<lambda>x. c\<lparr>c_ExcludeDescription := x, c_HasExcludeDescription := True\<rparr>)
      else if AsciiEqual key ''TargetBbsDescription'' then
        SetOnce (c_HasTargetBbsDescription c) (CopyDiskDescription NCV_CONFIG_TEXT_BYTES v)
          (\<lambda>x. c\<lparr>c_TargetBbsDescription := x, c_HasTargetBbsDescription := True\<rparr>)
      else Inl NcvConfigUnsupported)"

definition ParsePolicy :: "string \<Rightarrow> NCV_ENDPOINT_POLICY option" where
  "ParsePolicy v =
     (if AsciiEqual v ''On'' then Some NcvEndpointOn
      else if AsciiEqual v ''Off'' then Some NcvEndpointOff
      else if AsciiEqual v ''Ignore'' then Some NcvEndpointIgnore
      else None)"

definition SetEndpointKey :: "NCV_CONFIG_CORE \<Rightarrow> string \<Rightarrow> string \<Rightarrow> config_result" where
  "SetEndpointKey c key v =
     (if AsciiEqual key ''IoDecoding'' then
        SetOnce (c_HasIoDecoding c) (ParsePolicy v)
          (\<lambda>x. c\<lparr>c_IoDecoding := x, c_HasIoDecoding := True\<rparr>)
      else if AsciiEqual key ''MemoryDecoding'' then
        SetOnce (c_HasMemoryDecoding c) (ParsePolicy v)
          (\<lambda>x. c\<lparr>c_MemoryDecoding := x, c_HasMemoryDecoding := True\<rparr>)
      else if AsciiEqual key ''BusMastering'' then
        SetOnce (c_HasBusMastering c) (ParsePolicy v)
          (\<lambda>x. c\<lparr>c_BusMastering := x, c_HasBusMastering := True\<rparr>)
      else Inl NcvConfigUnsupported)"

definition SetBehaviorKey :: "NCV_CONFIG_CORE \<Rightarrow> string \<Rightarrow> string \<Rightarrow> config_result" where
  "SetBehaviorKey c key v =
     (if \<not> AsciiEqual v ''true'' \<and> \<not> AsciiEqual v ''false'' then Inl NcvConfigCompromisedData
      else let b = AsciiEqual v ''true''
           in if AsciiEqual key ''Probe'' \<and> \<not> c_HasProbe c then
                Inr (c\<lparr>c_Probe := b, c_HasProbe := True\<rparr>)
              else if AsciiEqual key ''VerboseLog'' \<and> \<not> c_HasVerboseLog c then
                Inr (c\<lparr>c_VerboseLog := b, c_HasVerboseLog := True\<rparr>)
              else if AsciiEqual key ''AutoBoot'' \<and> \<not> c_HasAutoBoot c then
                Inr (c\<lparr>c_AutoBoot := b, c_HasAutoBoot := True\<rparr>)
              else Inl NcvConfigCompromisedData)"

fun SetKeyValue :: "NCV_CONFIG_CORE \<Rightarrow> NCV_CONFIG_SECTION \<Rightarrow> string \<Rightarrow> string \<Rightarrow> config_result" where
  "SetKeyValue c NcvSectionMarker key v =
     (case MarkerConfigSetValue (c_Marker c) key v of
        None \<Rightarrow> Inl NcvConfigCompromisedData | Some m \<Rightarrow> Inr (c\<lparr>c_Marker := m\<rparr>))"
| "SetKeyValue c NcvSectionProfile key v = SetProfileKey c key v"
| "SetKeyValue c NcvSectionVideo key v = SetVideoKey c key v"
| "SetKeyValue c NcvSectionBoot key v = SetBootKey c key v"
| "SetKeyValue c NcvSectionEndpoint key v = SetEndpointKey c key v"
| "SetKeyValue c NcvSectionBehavior key v = SetBehaviorKey c key v"
| "SetKeyValue c NcvSectionNone key v = Inl NcvConfigCompromisedData"

definition NcvConfigDefaults :: NCV_CONFIG_CORE where
  "NcvConfigDefaults = \<lparr>
     c_Marker = empty_marker\<lparr>m_Header := ''NATIVE CSM BOOT PROFILE 1''\<rparr>,
     c_HasProbe = False, c_Probe = True, c_HasName = False, c_HasTargetPci = False,
     c_HasTargetControllerPci = False, c_HasExpectedVendor = False, c_HasExpectedDevice = False,
     c_HasExpectedSubsystemVendor = False, c_HasExpectedSubsystemDevice = False,
     c_HasLegacyOptionDescription = False, c_HasExcludeDescription = False,
     c_HasTargetBbsDescription = False, c_HasVerboseLog = False, c_HasAutoBoot = False,
     c_HasRequireReferenceSnapshotMatch = False, c_HasIoDecoding = False,
     c_HasMemoryDecoding = False, c_HasBusMastering = False, c_VerboseLog = True,
     c_AutoBoot = True, c_RequireReferenceSnapshotMatch = False,
     c_IoDecoding = NcvEndpointIgnore, c_MemoryDecoding = NcvEndpointIgnore,
     c_BusMastering = NcvEndpointIgnore, c_TargetPci = PciAddress 0 0 0 0,
     c_TargetControllerPci = PciAddress 0 0 0 0, c_ExpectedVendor = 0, c_ExpectedDevice = 0,
     c_ExpectedSubsystemVendor = 0, c_ExpectedSubsystemDevice = 0, c_Name = '''',
     c_LegacyOptionDescription = the (CopyAscii NCV_CONFIG_TEXT_BYTES ''Hard Drive''),
     c_ExcludeDescription = the (CopyAscii NCV_CONFIG_TEXT_BYTES ''USB''),
     c_TargetBbsDescription = ''''\<rparr>"

section \<open>The parser\<close>

record parse_state =
  p_Line :: string
  p_Section :: NCV_CONFIG_SECTION
  p_SectionSeen :: "NCV_CONFIG_SECTION \<Rightarrow> bool"
  p_Config :: NCV_CONFIG_CORE

text \<open>The scan for exactly one \<open>=\<close>: its position, \<open>None\<close> for none or a second one.\<close>

fun ScanEquals :: "nat \<Rightarrow> nat option \<Rightarrow> string \<Rightarrow> nat option" where
  "ScanEquals i equals [] = equals"
| "ScanEquals i equals (c # cs) =
     (if c = CHR ''='' then
        (case equals of Some _ \<Rightarrow> None | None \<Rightarrow> ScanEquals (Suc i) (Some i) cs)
      else ScanEquals (Suc i) equals cs)"

text \<open>A completed, already trimmed line.\<close>

definition ParseLine :: "parse_state \<Rightarrow> string \<Rightarrow> NCV_CONFIG_RESULT + parse_state" where
  "ParseLine st line =
     (if c_at line 0 \<noteq> NUL \<and> c_at line 0 \<noteq> CHR ''#'' \<and> c_at line 0 \<noteq> CHR '';'' then
        (if c_at line 0 = CHR ''['' then
           ebind (SetSection line) (\<lambda>section.
             if p_SectionSeen st section then Inl NcvConfigCompromisedData
             else Inr (st\<lparr>p_Section := section,
                          p_SectionSeen := (p_SectionSeen st)(section := True)\<rparr>))
         else if p_Section st = NcvSectionNone then Inl NcvConfigCompromisedData
         else case ScanEquals 0 None line of
                None \<Rightarrow> Inl NcvConfigCompromisedData
              | Some equals \<Rightarrow>
                  (let key = Trim (take equals line); v = Trim (drop (equals + 1) line)
                   in if key = '''' \<or> v = '''' then Inl NcvConfigCompromisedData
                      else ebind (SetKeyValue (p_Config st) (p_Section st) key v)
                             (\<lambda>c. Inr (st\<lparr>p_Config := c\<rparr>))))
      else Inr st)"

definition ParseByte :: "parse_state \<Rightarrow> char \<Rightarrow> NCV_CONFIG_RESULT + parse_state" where
  "ParseByte st byte =
     (if byte = CR then Inr st
      else if byte \<noteq> LF then
        (if ord byte < 0x20 \<or> ord byte > 0x7e \<or> length (p_Line st) + 1 \<ge> NCV_CONFIG_MAX_LINE_BYTES
         then Inl NcvConfigCompromisedData
         else Inr (st\<lparr>p_Line := p_Line st @ [byte]\<rparr>))
      else ebind (ParseLine st (Trim (p_Line st))) (\<lambda>st. Inr (st\<lparr>p_Line := ''''\<rparr>)))"

definition InitParse :: "NCV_CONFIG_CORE \<Rightarrow> parse_state" where
  "InitParse c = \<lparr>p_Line = '''', p_Section = NcvSectionNone, p_SectionSeen = (\<lambda>_. False), p_Config = c\<rparr>"

definition NcvParseConfigStrict ::
  "char list option \<Rightarrow> NCV_CONFIG_CORE option \<Rightarrow> config_result" where
  "NcvParseConfigStrict bytes config =
     (case (bytes, config) of
        (Some bs, Some c) \<Rightarrow>
          if length bs = 0 then Inl NcvConfigInvalidParameter
          else ebind (efold ParseByte (InitParse c) (bs @ [LF])) (\<lambda>st.
                 let c = p_Config st
                 in if \<not> MarkerConfigIsValid (c_Marker c) then Inl NcvConfigCompromisedData
                    else if \<not> c_Probe c \<and> c_HasTargetPci c \<and> c_HasTargetControllerPci c
                            \<and> AddressEqual (c_TargetPci c) (c_TargetControllerPci c)
                    then Inl NcvConfigCompromisedData
                    else Inr c)
      | _ \<Rightarrow> Inl NcvConfigInvalidParameter)"

section \<open>Boot requirements\<close>

definition NcvConfigCoreGetBootRequirements :: "NCV_CONFIG_CORE option \<Rightarrow> NCV_BOOT_REQUIREMENTS" where
  "NcvConfigCoreGetBootRequirements config =
     (case config of
        None \<Rightarrow> \<lparr>r_Probe = False, r_HasTargetPci = False, r_HasTargetControllerPci = False,
                  r_HasIoDecoding = False, r_HasMemoryDecoding = False, r_HasBusMastering = False\<rparr>
      | Some c \<Rightarrow> \<lparr>r_Probe = c_Probe c, r_HasTargetPci = c_HasTargetPci c,
                  r_HasTargetControllerPci = c_HasTargetControllerPci c,
                  r_HasIoDecoding = c_HasIoDecoding c, r_HasMemoryDecoding = c_HasMemoryDecoding c,
                  r_HasBusMastering = c_HasBusMastering c\<rparr>)"

definition NCV_BOOT_INVALID_PROBE_MODE :: NCV_U8 where [ncv_defs]: "NCV_BOOT_INVALID_PROBE_MODE = 0x01"
definition NCV_BOOT_MISSING_TARGET_PCI :: NCV_U8 where [ncv_defs]: "NCV_BOOT_MISSING_TARGET_PCI = 0x02"
definition NCV_BOOT_MISSING_CONTROLLER_PCI :: NCV_U8 where [ncv_defs]: "NCV_BOOT_MISSING_CONTROLLER_PCI = 0x04"
definition NCV_BOOT_MISSING_IO_POLICY :: NCV_U8 where [ncv_defs]: "NCV_BOOT_MISSING_IO_POLICY = 0x08"
definition NCV_BOOT_MISSING_MEMORY_POLICY :: NCV_U8 where [ncv_defs]: "NCV_BOOT_MISSING_MEMORY_POLICY = 0x10"
definition NCV_BOOT_MISSING_BUS_MASTER_POLICY :: NCV_U8 where [ncv_defs]: "NCV_BOOT_MISSING_BUS_MASTER_POLICY = 0x20"

definition NcvBootRequirementsValidate :: "NCV_BOOT_REQUIREMENTS option \<Rightarrow> NCV_U8" where
  "NcvBootRequirementsValidate requirements =
     (case requirements of None \<Rightarrow> 0xff
      | Some r \<Rightarrow>
          (if r_Probe r then NCV_BOOT_INVALID_PROBE_MODE else 0)
          OR (if \<not> r_HasTargetPci r then NCV_BOOT_MISSING_TARGET_PCI else 0)
          OR (if \<not> r_HasTargetControllerPci r then NCV_BOOT_MISSING_CONTROLLER_PCI else 0)
          OR (if \<not> r_HasIoDecoding r then NCV_BOOT_MISSING_IO_POLICY else 0)
          OR (if \<not> r_HasMemoryDecoding r then NCV_BOOT_MISSING_MEMORY_POLICY else 0)
          OR (if \<not> r_HasBusMastering r then NCV_BOOT_MISSING_BUS_MASTER_POLICY else 0))"

definition NcvChooseOutputKind :: "bool \<Rightarrow> NCV_SIZE \<Rightarrow> NCV_SIZE \<Rightarrow> NCV_OUTPUT_KIND" where
  "NcvChooseOutputKind firstRun selectedDisplay selectedStorage =
     (if firstRun \<and> selectedDisplay \<noteq> NCV_NO_SELECTION \<and> selectedStorage \<noteq> NCV_NO_SELECTION
      then NcvOutputActiveIni else NcvOutputProbeIni)"

definition NcvOutputFileNameAscii :: "NCV_OUTPUT_KIND \<Rightarrow> string" where
  "NcvOutputFileNameAscii kind = (if kind = NcvOutputActiveIni then ''Config.ini'' else ''Probe.ini'')"

text \<open>The status together with the byte left in \<open>*Missing\<close>.\<close>

definition NcvValidateConfigMode :: "NCV_CONFIG_CORE option \<Rightarrow> NCV_CONFIG_RESULT \<times> NCV_U8" where
  "NcvValidateConfigMode config =
     (case config of None \<Rightarrow> (NcvConfigInvalidParameter, 0)
      | Some c \<Rightarrow>
          if \<not> c_HasProbe c then (NcvConfigCompromisedData, 0)
          else if c_Probe c then (NcvConfigSuccess, 0)
          else let missing = NcvBootRequirementsValidate
                               (Some (NcvConfigCoreGetBootRequirements (Some c)))
               in (if missing \<noteq> 0 then NcvConfigCompromisedData else NcvConfigSuccess, missing))"

section \<open>Trimming and splitting\<close>

lemma Trim_id:
  assumes "s \<noteq> ''''" and "\<not> IsSpace (hd s)" and "\<not> IsSpace (last s)"
  shows "Trim s = s"
proof -
  have "dropWhile IsSpace s = s" using assms by (cases s) auto
  moreover have "dropWhile IsSpace (rev s) = rev s"
    using assms by (cases s rule: rev_cases) auto
  ultimately show ?thesis by (simp add: Trim_def)
qed

lemma Trim_Nil [simp]: "Trim '''' = ''''"
  by (simp add: Trim_def)

lemma set_Trim: "set (Trim s) \<subseteq> set s"
  unfolding Trim_def by (metis set_dropWhileD set_rev subsetI)

lemma Trim_hd:
  assumes "s \<noteq> ''''" and "\<not> IsSpace (hd s)"
  shows "c_at (Trim s) 0 = hd s"
proof -
  have dw: "dropWhile IsSpace s = s" using assms by (cases s) auto
  have "rev s = takeWhile IsSpace (rev s) @ dropWhile IsSpace (rev s)" by simp
  then have "s = rev (dropWhile IsSpace (rev s)) @ rev (takeWhile IsSpace (rev s))"
    by (metis rev_append rev_rev_ident)
  moreover have "dropWhile IsSpace (rev s) \<noteq> []"
    using assms by (metis dropWhile_eq_Nil_conv hd_in_set set_rev)
  ultimately have "hd (rev (dropWhile IsSpace (rev s))) = hd s"
    by (metis hd_append2 rev_is_Nil_conv)
  then show ?thesis
    using \<open>dropWhile IsSpace (rev s) \<noteq> []\<close>
    by (simp add: Trim_def dw c_at_def hd_conv_nth)
qed

lemma ScanEquals_rest: "CHR ''='' \<notin> set v \<Longrightarrow> ScanEquals i (Some e) v = Some e"
  by (induction v arbitrary: i) auto

lemma ScanEquals_split:
  "CHR ''='' \<notin> set k \<Longrightarrow> CHR ''='' \<notin> set v \<Longrightarrow>
   ScanEquals i None (k @ CHR ''='' # v) = Some (i + length k)"
  by (induction k arbitrary: i) (auto simp: ScanEquals_rest)

section \<open>Numbers\<close>

lemma HexDigit_HexChars: "n < 16 \<Longrightarrow> HexDigit (HexChars ! n) = int n"
proof -
  have "\<forall>n \<in> set [0..<16]. HexDigit (HexChars ! n) = int n"
    by (simp add: upt_rec HexChars_def HexDigit_def)
  then show "n < 16 \<Longrightarrow> HexDigit (HexChars ! n) = int n" by simp
qed

lemma HexAccumulate_digits:
  assumes "\<And>i. i \<in> set is \<Longrightarrow> HexDigit (c_at s i) = int (d i) \<and> d i < 16"
  shows "HexAccumulate s is (word_of_nat n) = Some (word_of_nat (foldl (\<lambda>n i. n * 16 + d i) n is))"
  using assms
proof (induction "is" arbitrary: n)
  case Nil
  then show ?case by simp
next
  case (Cons i "is")
  have step: "push_bit 4 (word_of_nat n) OR word_of_nat (d i) = (word_of_nat (n * 16 + d i) :: NCV_U16)"
    using push_bit_or_digit [of "d i" 4 "word_of_nat n :: NCV_U16"] Cons.prems [of i] by simp
  have "HexDigit (c_at s i) = int (d i)" using Cons.prems by simp
  then have "HexAccumulate s (i # is) (word_of_nat n) = HexAccumulate s is (word_of_nat (n * 16 + d i))"
    by (simp add: Let_def step [symmetric] del: of_nat_add of_nat_mult)
  also have "\<dots> = Some (word_of_nat (foldl (\<lambda>n i. n * 16 + d i) (n * 16 + d i) is))"
    using Cons.prems by (intro Cons.IH) simp
  finally show ?case by simp
qed

lemma HexAccumulate_value:
  assumes "\<forall>i \<in> set is. HexDigit (c_at s i) = int (d i) \<and> d i < 16"
    and "foldl (\<lambda>n i. n * 16 + d i) 0 is = m"
  shows "HexAccumulate s is 0 = Some (word_of_nat m)"
  using HexAccumulate_digits [of "is" s d 0] assms by simp

lemma upto_four: "[0..<4] = [0, 1, 2, 3 :: nat]"
  by code_simp

lemma upto_twelve: "[0..<12] = [0, 1, 2, 3, 4, 5, 6, 7, 8, 9, 10, 11 :: nat]"
  by code_simp

lemma HexNibble_less [simp]: "HexNibble v digits i < 16"
  by (simp add: HexNibble_def)

lemma hex4_sum:
  assumes "(n::nat) < 65536"
  shows "((n div 4096 mod 16 * 16 + n div 256 mod 16) * 16 + n div 16 mod 16) * 16 + n mod 16 = n"
proof -
  have "n div 256 = n div 16 div 16" and "n div 4096 = n div 16 div 16 div 16"
    by (simp_all add: div_mult2_eq [symmetric])
  moreover have "n div 4096 < 16" using assms by (simp add: div_less_iff_less_mult)
  ultimately show ?thesis
    using div_mult_mod_eq [of n 16] div_mult_mod_eq [of "n div 16" 16] div_mult_mod_eq [of "n div 16 div 16" 16]
    by simp
qed

lemma hex2_sum:
  assumes "(n::nat) < 256"
  shows "n div 16 mod 16 * 16 + n mod 16 = n"
proof -
  have "n div 16 < 16" using assms by (simp add: div_less_iff_less_mult)
  then show ?thesis by simp
qed

lemma hex4_fold: "n < 65536 \<Longrightarrow> foldl (\<lambda>k i. k * 16 + HexNibble n 4 i) 0 [0..<4] = n"
  using hex4_sum [of n] by (simp add: upto_four HexNibble_def)

definition address_wf :: "NCV_PCI_ADDRESS \<Rightarrow> bool" where
  "address_wf a \<longleftrightarrow> Device a \<le> 31 \<and> Function a \<le> 7"

lemma hex_string_unfold:
  "hex_string v 4 = [HexChars ! HexNibble v 4 0, HexChars ! HexNibble v 4 1, HexChars ! HexNibble v 4 2, HexChars ! HexNibble v 4 3]"
  "hex_string v 2 = [HexChars ! HexNibble v 2 0, HexChars ! HexNibble v 2 1]"
  "hex_string v (Suc 0) = [HexChars ! HexNibble v (Suc 0) 0]"
  by (simp_all add: hex_string_def upt_rec numeral_2_eq_2 numeral_3_eq_3)

lemma HexChars_nth_props:
  assumes "n < 16"
  shows "HexChars ! n \<noteq> NUL" and "printable (HexChars ! n)" and "HexChars ! n \<noteq> CHR ''=''"
    and "\<not> IsSpace (HexChars ! n)"
proof -
  have "\<forall>n \<in> set [0..<16]. HexChars ! n \<noteq> NUL \<and> printable (HexChars ! n) \<and> HexChars ! n \<noteq> CHR ''=''
      \<and> \<not> IsSpace (HexChars ! n)"
    by (simp add: upt_rec HexChars_def printable_def IsSpace_def)
  with assms show "HexChars ! n \<noteq> NUL" and "printable (HexChars ! n)" and "HexChars ! n \<noteq> CHR ''=''"
    and "\<not> IsSpace (HexChars ! n)" by simp_all
qed

text \<open>Printing an address and parsing it back is the identity on well-formed addresses.\<close>

lemma ParsePciAddress_bdf:
  assumes "address_wf a"
  shows "ParsePciAddress (bdf_string a) = Some a"
proof -
  obtain sg b d f where a: "a = PciAddress sg b d f" by (cases a)
  let ?s = "bdf_string a"
  have s: "?s = hex_string (unat sg) 4 @ '':'' @ hex_string (unat b) 2 @ '':''
     @ hex_string (unat d) 2 @ ''.'' @ hex_string (unat f) 1"
    by (simp add: a bdf_string_def)
  have f: "f \<le> 7" and d: "d \<le> 31" using assms by (simp_all add: a address_wf_def)
  have pos: "c_at ?s 0 = HexChars ! HexNibble (unat sg) 4 0" "c_at ?s (Suc 0) = HexChars ! HexNibble (unat sg) 4 (Suc 0)"
    "c_at ?s 2 = HexChars ! HexNibble (unat sg) 4 2" "c_at ?s 3 = HexChars ! HexNibble (unat sg) 4 3"
    "c_at ?s 4 = CHR '':''" "c_at ?s 5 = HexChars ! HexNibble (unat b) 2 0"
    "c_at ?s 6 = HexChars ! HexNibble (unat b) 2 1" "c_at ?s 7 = CHR '':''"
    "c_at ?s 8 = HexChars ! HexNibble (unat d) 2 0" "c_at ?s 9 = HexChars ! HexNibble (unat d) 2 1"
    "c_at ?s 10 = CHR ''.''" "c_at ?s 11 = HexChars ! HexNibble (unat f) 1 0" "c_at ?s 12 = NUL"
    by (simp_all add: s hex_string_unfold c_at_def)
  have "HexAccumulate ?s [0..<4] 0 = Some (word_of_nat (unat sg))"
  proof (rule HexAccumulate_value [where d = "HexNibble (unat sg) 4"])
    show "\<forall>i \<in> set [0..<4]. HexDigit (c_at ?s i) = int (HexNibble (unat sg) 4 i) \<and> HexNibble (unat sg) 4 i < 16"
      by (simp add: upto_four pos HexDigit_HexChars)
    show "foldl (\<lambda>n i. n * 16 + HexNibble (unat sg) 4 i) 0 [0..<4] = unat sg"
      by (rule hex4_fold) (rule unat_less_u16)
  qed
  then have seg: "HexAccumulate ?s [0..<4] 0 = Some sg" by simp
  have bus: "HexAccumulate ?s [5, 6] 0 = Some (word_of_nat (unat b))"
    by (rule HexAccumulate_value [where d = "\<lambda>i. HexNibble (unat b) 2 (i - 5)"])
      (simp_all add: pos HexDigit_HexChars, simp add: HexNibble_def hex2_sum unat_le_mask_byte)
  have dev: "HexAccumulate ?s [8, 9] 0 = Some (word_of_nat (unat d))"
    by (rule HexAccumulate_value [where d = "\<lambda>i. HexNibble (unat d) 2 (i - 8)"])
      (simp_all add: pos HexDigit_HexChars, simp add: HexNibble_def hex2_sum unat_le_mask_byte)
  have fn: "HexDigit (c_at ?s 11) = int (unat f)"
    using f by (simp add: pos HexDigit_HexChars) (simp add: HexNibble_def word_le_nat_alt)
  have ud: "unat (word_of_nat (unat d) :: NCV_U16) = unat d"
    unfolding unat_of_nat using unat_le_mask_byte [of d] by simp
  have dle: "\<not> (31 :: NCV_U16) < word_of_nat (unat d)"
    unfolding word_less_nat_alt ud using d by (simp add: word_le_nat_alt)
  have fle: "\<not> (7 :: int) < int (unat f)" using f by (simp add: word_le_def)
  have nz: "\<not> list_ex (\<lambda>i. c_at ?s i = NUL) [0..<12]"
    by (simp add: upto_twelve pos HexChars_nth_props(1))
  have narrow: "ucast (word_of_nat (unat w) :: NCV_U16) = w" for w :: NCV_U8
    by (rule bit_word_eqI) (simp add: bit_simps)
  have "ParsePciAddress ?s = Some (PciAddress sg (ucast (word_of_nat (unat b) :: NCV_U16))
      (ucast (word_of_nat (unat d) :: NCV_U16)) (word_of_int (int (unat f))))"
    unfolding ParsePciAddress_def using nz dle fle
    by (simp only: pos(5,8,11,13) seg bus dev fn) simp
  then show ?thesis by (simp only: narrow) (simp add: a)
qed

subsection \<open>Accepted addresses are canonical up to hexadecimal case\<close>

definition hex_upper :: "char \<Rightarrow> char" where
  "hex_upper c = (if ord (CHR ''a'') \<le> ord c \<and> ord c \<le> ord (CHR ''f'') then char_of (ord c - 32) else c)"

lemma ord_HexChars: "n < 16 \<Longrightarrow> ord (HexChars ! n) = (if n < 10 then 48 + n else 55 + n)"
proof -
  have "\<forall>n \<in> set [0..<16]. ord (HexChars ! n) = (if n < 10 then 48 + n else 55 + n)"
    by (simp add: upt_rec HexChars_def)
  then show "n < 16 \<Longrightarrow> ord (HexChars ! n) = (if n < 10 then 48 + n else 55 + n)" by simp
qed

lemma ord_hex_upper: "ord (hex_upper c) = (if 97 \<le> ord c \<and> ord c \<le> 102 then ord c - 32 else ord c)"
  using ord_less_256 [of c] by (auto simp: hex_upper_def)

lemma char_eq_ord: "c = d \<longleftrightarrow> ord c = ord d"
  by simp

lemma HexDigit_ord:
  "HexDigit c = (if 48 \<le> ord c \<and> ord c \<le> 57 then int (ord c) - 48
     else if 97 \<le> ord c \<and> ord c \<le> 102 then int (ord c) - 87
     else if 65 \<le> ord c \<and> ord c \<le> 70 then int (ord c) - 55 else -1)"
  by (simp add: HexDigit_def)

lemma hex_upper_HexDigit [simp]: "HexDigit (hex_upper c) = HexDigit c"
  by (auto simp: HexDigit_ord ord_hex_upper)

lemma hex_upper_separators [simp]:
  "hex_upper c = CHR '':'' \<longleftrightarrow> c = CHR '':''" "hex_upper c = CHR ''.'' \<longleftrightarrow> c = CHR ''.''"
  "hex_upper c = NUL \<longleftrightarrow> c = NUL"
  by (simp_all only: char_eq_ord ord_hex_upper) auto

lemma hex_upper_digit:
  assumes "0 \<le> HexDigit c"
  shows "HexDigit c < 16" and "hex_upper c = HexChars ! nat (HexDigit c)"
proof -
  show "HexDigit c < 16" using assms by (auto simp: HexDigit_ord split: if_splits)
  then have "nat (HexDigit c) < 16" by simp
  then show "hex_upper c = HexChars ! nat (HexDigit c)"
    unfolding char_eq_ord using assms
    by (auto simp: ord_HexChars ord_hex_upper HexDigit_ord split: if_splits)
qed

lemma c_at_hex_upper: "c_at (map hex_upper s) i = hex_upper (c_at s i)"
  by (simp add: c_at_def hex_upper_def)

lemma HexAccumulate_upper: "HexAccumulate (map hex_upper s) is r = HexAccumulate s is r"
  by (induction "is" arbitrary: r) (simp_all add: c_at_hex_upper Let_def)

lemma ParsePciAddress_upper: "ParsePciAddress (map hex_upper s) = ParsePciAddress s"
  unfolding ParsePciAddress_def by (simp only: c_at_hex_upper HexAccumulate_upper hex_upper_separators hex_upper_HexDigit)

lemma HexAccumulate_SomeD:
  "HexAccumulate s is (word_of_nat n) = Some r \<Longrightarrow>
     (\<forall>i \<in> set is. 0 \<le> HexDigit (c_at s i)) \<and>
     r = word_of_nat (foldl (\<lambda>n i. n * 16 + nat (HexDigit (c_at s i))) n is)"
proof (induction "is" arbitrary: n)
  case Nil
  then show ?case by simp
next
  case (Cons i "is")
  let ?d = "nat (HexDigit (c_at s i))"
  have pos: "0 \<le> HexDigit (c_at s i)"
    using Cons.prems by (auto simp: Let_def split: if_splits)
  then have "?d < 2 ^ 4" using hex_upper_digit(1) [of "c_at s i"] by simp
  then have "push_bit 4 (word_of_nat n) OR word_of_nat ?d = (word_of_nat (n * 16 + ?d) :: NCV_U16)"
    by (simp add: push_bit_or_digit)
  moreover have "word_of_int (HexDigit (c_at s i)) = (word_of_nat ?d :: NCV_U16)"
    using pos by simp
  ultimately have "HexAccumulate s is (word_of_nat (n * 16 + ?d)) = Some r"
    using Cons.prems pos by (simp add: Let_def del: of_nat_add of_nat_mult of_nat_nat)
  from Cons.IH [OF this] pos show ?case by simp
qed

lemma digit_div_mod:
  assumes "y < (16::nat)"
  shows "(x * 16 + y) div 16 = x" and "(x * 16 + y) mod 16 = y"
  using assms by simp_all

lemma digits4_nibbles:
  assumes "b < 16" "c < 16" "d < (16::nat)" "a < 16" and n: "n = ((a * 16 + b) * 16 + c) * 16 + d"
  shows "HexNibble n 4 0 = a \<and> HexNibble n 4 (Suc 0) = b \<and> HexNibble n 4 2 = c \<and> HexNibble n 4 3 = d"
proof -
  have e: "n div 256 = n div 16 div 16" "n div 4096 = n div 16 div 16 div 16"
    by (simp_all add: div_mult2_eq [symmetric])
  have q: "n div 16 = (a * 16 + b) * 16 + c" "n mod 16 = d"
    unfolding n by (rule digit_div_mod [OF assms(3)])+
  have q2: "n div 16 div 16 = a * 16 + b" "n div 16 mod 16 = c"
    unfolding q by (rule digit_div_mod [OF assms(2)])+
  have q3: "n div 16 div 16 div 16 = a" "n div 16 div 16 mod 16 = b"
    unfolding q2 by (rule digit_div_mod [OF assms(1)])+
  have "HexNibble n 4 0 = n div 4096 mod 16" "HexNibble n 4 (Suc 0) = n div 256 mod 16"
    "HexNibble n 4 2 = n div 16 mod 16" "HexNibble n 4 3 = n mod 16"
    by (simp_all add: HexNibble_def)
  then show ?thesis
    using assms(4) by (simp only: e q(2) q2(2) q3) simp
qed

lemma digits2_nibbles:
  assumes "a < 16" "b < (16::nat)" and "n = a * 16 + b"
  shows "HexNibble n 2 0 = a \<and> HexNibble n 2 (Suc 0) = b"
  using assms by (simp add: HexNibble_def)

lemma string_twelve:
  assumes "length s = 12"
  shows "s = [c_at s 0, c_at s 1, c_at s 2, c_at s 3, c_at s 4, c_at s 5, c_at s 6, c_at s 7,
    c_at s 8, c_at s 9, c_at s 10, c_at s 11]"
proof -
  have "s = map (c_at s) [0..<length s]"
    by (rule nth_equalityI) (simp_all add: c_at_less)
  then show ?thesis unfolding assms upto_twelve by simp
qed

text \<open>
  C30. PCI addresses. \<open>ParsePciAddress\<close> accepts a string exactly when it is, up to the case of
  its hexadecimal digits, the canonical text \<open>ssss:bb:dd.f\<close> printed by \<open>PutBdf\<close> for an
  address whose device is at most 31 and whose function is at most 7, and returns that address.
\<close>

theorem ParsePciAddress_iff:
  assumes "NUL \<notin> set s"
  shows "ParsePciAddress s = Some a \<longleftrightarrow> address_wf a \<and> map hex_upper s = bdf_string a"
proof
  assume "address_wf a \<and> map hex_upper s = bdf_string a"
  then show "ParsePciAddress s = Some a"
    by (metis ParsePciAddress_bdf ParsePciAddress_upper)
next
  assume parsed: "ParsePciAddress s = Some a"
  let ?h = "\<lambda>i. nat (HexDigit (c_at s i))"
  obtain sg b d f where a: "a = PciAddress sg b d f" by (cases a)
  obtain bw dw where nz: "\<not> list_ex (\<lambda>i. c_at s i = NUL) [0..<12]" and
    sep: "c_at s 12 = NUL" "c_at s 4 = CHR '':''" "c_at s 7 = CHR '':''" "c_at s 10 = CHR ''.''" and
    seg: "HexAccumulate s [0..<4] (word_of_nat 0) = Some sg" and
    bus: "HexAccumulate s [5, 6] (word_of_nat 0) = Some bw" "b = ucast bw" and
    dev: "HexAccumulate s [8, 9] (word_of_nat 0) = Some dw" "d = ucast dw" "dw \<le> 31" and
    fn: "0 \<le> HexDigit (c_at s 11)" "HexDigit (c_at s 11) \<le> 7" "f = word_of_int (HexDigit (c_at s 11))"
    using parsed unfolding ParsePciAddress_def
    by (auto simp: a Let_def split: if_splits option.splits)
  note digits = HexAccumulate_SomeD [OF seg] HexAccumulate_SomeD [OF bus(1)] HexAccumulate_SomeD [OF dev(1)]
  have pos: "0 \<le> HexDigit (c_at s 0)" "0 \<le> HexDigit (c_at s 1)" "0 \<le> HexDigit (c_at s 2)"
    "0 \<le> HexDigit (c_at s 3)" "0 \<le> HexDigit (c_at s 5)" "0 \<le> HexDigit (c_at s 6)"
    "0 \<le> HexDigit (c_at s 8)" "0 \<le> HexDigit (c_at s 9)"
    using digits by (simp_all add: upto_four)
  note up = pos [THEN hex_upper_digit(2)] fn(1) [THEN hex_upper_digit(2)]
  have h: "?h 0 < 16" "?h 1 < 16" "?h 2 < 16" "?h 3 < 16" "?h 5 < 16" "?h 6 < 16" "?h 8 < 16" "?h 9 < 16"
    using pos [THEN hex_upper_digit(1)] by simp_all
  have u16: "unat (word_of_nat n :: NCV_U16) = n" if "n < 65536" for n
    using that by (simp add: unat_of_nat)
  have narrow: "unat (ucast (w :: NCV_U16) :: NCV_U8) = unat w" if "unat w < 256" for w
    using that by (simp add: unsigned_ucast_eq take_bit_nat_eq_self)
  have sg: "unat sg = ((?h 0 * 16 + ?h 1) * 16 + ?h 2) * 16 + ?h 3"
    using digits(1) h by (simp only: upto_four list.simps foldl.simps) (subst u16; simp)
  have bw: "unat bw = ?h 5 * 16 + ?h 6"
    using digits(2) h by (simp only: foldl.simps) (subst u16; simp)
  have dw: "unat dw = ?h 8 * 16 + ?h 9"
    using digits(3) h by (simp only: foldl.simps) (subst u16; simp)
  have b: "unat b = ?h 5 * 16 + ?h 6" using bw bus(2) narrow [of bw] h by simp
  have dle: "unat dw \<le> 31" using dev(3) by (simp add: word_le_nat_alt)
  then have d: "unat d = ?h 8 * 16 + ?h 9" using dw dev(2) narrow [of dw] by simp
  have f: "unat f = ?h 11"
    using fn by (simp add: unsigned_of_int take_bit_int_eq_self)
  have len: "length s = 12"
  proof (rule antisym)
    show "length s \<le> 12"
      using sep(1) assms by (metis c_at_less linorder_not_le nth_mem)
    have "c_at s 11 \<noteq> NUL" using nz by (simp add: upto_twelve)
    then show "12 \<le> length s" by (simp add: c_at_def split: if_splits)
  qed
  have wf: "address_wf a"
    using dle d dw f fn by (simp add: a address_wf_def word_le_nat_alt)
  have nib1: "HexNibble (unat f) (Suc 0) 0 = ?h 11"
    using f fn by (simp add: HexNibble_def)
  have "bdf_string a = [hex_upper (c_at s 0), hex_upper (c_at s 1), hex_upper (c_at s 2), hex_upper (c_at s 3),
      CHR '':'', hex_upper (c_at s 5), hex_upper (c_at s 6), CHR '':'', hex_upper (c_at s 8), hex_upper (c_at s 9),
      CHR ''.'', hex_upper (c_at s 11)]"
    using digits4_nibbles [OF h(2,3,4,1) sg] digits2_nibbles [OF h(5,6) b] digits2_nibbles [OF h(7,8) d]
    by (simp add: bdf_string_def a hex_string_unfold up nib1 up(2) [simplified])
  moreover have "hex_upper (CHR '':'') = CHR '':''" "hex_upper (CHR ''.'') = CHR ''.''"
    by (simp_all add: hex_upper_def)
  with arg_cong [OF string_twelve [OF len], of "map hex_upper"]
  have "map hex_upper s = [hex_upper (c_at s 0), hex_upper (c_at s 1), hex_upper (c_at s 2), hex_upper (c_at s 3),
      CHR '':'', hex_upper (c_at s 5), hex_upper (c_at s 6), CHR '':'', hex_upper (c_at s 8), hex_upper (c_at s 9),
      CHR ''.'', hex_upper (c_at s 11)]"
    by (simp only: sep list.map)
  ultimately show "address_wf a \<and> map hex_upper s = bdf_string a"
    using wf by simp
qed

lemma char_of_F: "char_of (70 :: nat) = CHR ''F''"
  by code_simp

theorem ParsePciAddress_iff_witness:
  "NUL \<notin> set ''00ff:1f:1f.7'' \<and> ParsePciAddress ''00ff:1f:1f.7'' = Some (PciAddress 0xff 0x1f 0x1f 7)"
  using ParsePciAddress_iff [of "''00ff:1f:1f.7''" "PciAddress 0xff 0x1f 0x1f 7"]
  by (simp add: address_wf_def hex_upper_def bdf_string_def hex_string_unfold HexNibble_def HexChars_def char_of_F)

end
