(* ===== verification/Config_Lines.thy ===== *)
theory Config_Lines
  imports Config_Parser
begin

text \<open>
  The strict parser line by line: the byte loop of \<open>NcvParseConfigStrict\<close> over a printable
  line of at most 255 bytes is one step of \<open>line_step\<close>, and the effect of the four kinds of
  lines (blank, comment, section header, assignment) on the parser state. On top of it, the
  invariant that every accepted configuration satisfies.
\<close>

section \<open>From bytes to lines\<close>

definition good_line :: "string \<Rightarrow> bool" where
  "good_line l \<longleftrightarrow> list_all printable l \<and> length l \<le> 255"

definition line_step :: "parse_state \<Rightarrow> string \<Rightarrow> NCV_CONFIG_RESULT + parse_state" where
  "line_step st l = ebind (ParseLine (st\<lparr>p_Line := l\<rparr>) (Trim l)) (\<lambda>st. Inr (st\<lparr>p_Line := ''''\<rparr>))"

definition join_lines :: "string list \<Rightarrow> string" where
  "join_lines ls = concat (map (\<lambda>l. l @ CRLF) ls)"

lemma join_lines_simps [simp]:
  "join_lines [] = ''''" "join_lines (l # ls) = l @ CRLF @ join_lines ls"
  "join_lines (ls @ ms) = join_lines ls @ join_lines ms"
  by (simp_all add: join_lines_def)

lemma ParseByte_printable_run:
  assumes "list_all printable l" and "length (p_Line st) + length l \<le> 255"
  shows "efold ParseByte st l = Inr (st\<lparr>p_Line := p_Line st @ l\<rparr>)"
  using assms
proof (induction l arbitrary: st)
  case Nil
  then show ?case by simp
next
  case (Cons c l)
  then have "ParseByte st c = Inr (st\<lparr>p_Line := p_Line st @ [c]\<rparr>)"
    by (auto simp: ParseByte_def printable_def NCV_CONFIG_MAX_LINE_BYTES_def)
  with Cons show ?case by simp
qed

lemma efold_line_CRLF:
  assumes "good_line l" and "p_Line st = ''''"
  shows "efold ParseByte st (l @ CRLF) = line_step st l"
proof -
  have "efold ParseByte st l = Inr (st\<lparr>p_Line := l\<rparr>)"
    using assms ParseByte_printable_run [of l st] by (simp add: good_line_def)
  then show ?thesis
    by (cases "line_step st l") (simp_all add: efold_append ParseByte_def line_step_def)
qed

lemma line_step_resets: "line_step st l = Inr st' \<Longrightarrow> p_Line st' = ''''"
  by (auto simp: line_step_def ebind_Inr_iff)

lemma efold_join_lines:
  assumes "list_all good_line ls" and "p_Line st = ''''"
  shows "efold ParseByte st (join_lines ls) = efold line_step st ls"
  using assms
proof (induction ls arbitrary: st)
  case Nil
  then show ?case by simp
next
  case (Cons l ls)
  have "efold ParseByte st (join_lines (l # ls)) =
      ebind (line_step st l) (\<lambda>st. efold ParseByte st (join_lines ls))"
    using efold_line_CRLF [of l st] Cons.prems efold_append [of ParseByte st "l @ CRLF" "join_lines ls"]
    by simp
  with Cons show ?case
    by (cases "line_step st l") (auto dest: line_step_resets)
qed

section \<open>The effect of one line\<close>

definition blank_or_comment :: "string \<Rightarrow> bool" where
  "blank_or_comment l \<longleftrightarrow> l = '''' \<or> hd l = CHR ''#'' \<or> hd l = CHR '';''"

lemma line_step_comment [line_simps]:
  assumes "blank_or_comment l" and "p_Line st = ''''"
  shows "line_step st l = Inr st"
proof (cases "l = ''''")
  case True
  with assms show ?thesis by (simp add: line_step_def ParseLine_def)
next
  case False
  with assms(1) have h: "hd l = CHR ''#'' \<or> hd l = CHR '';''" by (simp add: blank_or_comment_def)
  then have "c_at (Trim l) 0 = hd l" using False by (intro Trim_hd) (auto simp: IsSpace_def)
  with h assms(2) show ?thesis by (auto simp: line_step_def ParseLine_def)
qed

lemma efold_comments [line_simps]:
  assumes "list_all blank_or_comment ls" and "p_Line st = ''''"
  shows "efold line_step st ls = Inr st"
  using assms by (induction ls) (simp_all add: line_step_comment)

lemma line_step_section [line_simps]:
  assumes "SetSection l = Inr sec" and "\<not> p_SectionSeen st sec" and "p_Line st = ''''"
    and "l \<noteq> ''''" and "hd l = CHR ''[''" and "\<not> IsSpace (last l)"
  shows "line_step st l =
    Inr (st\<lparr>p_Section := sec, p_SectionSeen := (p_SectionSeen st)(sec := True)\<rparr>)"
proof -
  have "Trim l = l" using assms by (intro Trim_id) (auto simp: IsSpace_def)
  moreover have "c_at l 0 = CHR ''[''" using assms by (cases l) auto
  ultimately show ?thesis using assms by (simp add: line_step_def ParseLine_def)
qed

text \<open>A key or value that survives trimming unchanged and holds no \<open>=\<close>.\<close>

definition plain_field :: "string \<Rightarrow> bool" where
  "plain_field s \<longleftrightarrow> s \<noteq> '''' \<and> \<not> IsSpace (hd s) \<and> \<not> IsSpace (last s) \<and> CHR ''='' \<notin> set s \<and> NUL \<notin> set s"

lemma line_step_assign [line_simps]:
  assumes k: "plain_field k" "hd k \<notin> {CHR ''#'', CHR '';'', CHR ''[''}" and v: "plain_field v"
    and st: "p_Section st \<noteq> NcvSectionNone" "p_Line st = ''''"
  shows "line_step st (k @ CHR ''='' # v) =
    ebind (SetKeyValue (p_Config st) (p_Section st) k v) (\<lambda>c. Inr (st\<lparr>p_Config := c\<rparr>))"
proof -
  let ?l = "k @ CHR ''='' # v"
  have hd: "hd ?l = hd k" and la: "last ?l = last v"
    using k v by (simp_all add: plain_field_def)
  have "Trim ?l = ?l"
    using k v by (intro Trim_id) (simp_all only: hd la, simp_all add: plain_field_def)
  moreover have "c_at ?l 0 = hd k" using k by (cases k) (simp_all add: plain_field_def)
  moreover have "hd k \<noteq> NUL" using k by (metis hd_in_set plain_field_def)
  moreover have "ScanEquals 0 None ?l = Some (length k)"
    using ScanEquals_split [of k v 0] k v by (simp add: plain_field_def)
  moreover have "Trim k = k" "Trim v = v" "k \<noteq> ''''" "v \<noteq> ''''"
    using k v by (simp_all add: Trim_id plain_field_def)
  ultimately show ?thesis
    using k st
    by (cases "SetKeyValue (p_Config st) (p_Section st) k v") (simp_all add: line_step_def ParseLine_def Let_def)
qed

lemma NcvParseConfigStrict_lines:
  assumes "list_all good_line ls" and "ls \<noteq> []"
  shows "NcvParseConfigStrict (Some (join_lines ls)) (Some c) =
    ebind (efold line_step (InitParse c) ls) (\<lambda>st.
      if \<not> MarkerConfigIsValid (c_Marker (p_Config st)) then Inl NcvConfigCompromisedData
      else if \<not> c_Probe (p_Config st) \<and> c_HasTargetPci (p_Config st) \<and> c_HasTargetControllerPci (p_Config st)
              \<and> AddressEqual (c_TargetPci (p_Config st)) (c_TargetControllerPci (p_Config st))
      then Inl NcvConfigCompromisedData else Inr (p_Config st))"
proof -
  have ne: "length (join_lines ls) \<noteq> 0" using assms(2) by (cases ls) auto
  have init: "p_Line (InitParse c) = ''''" by (simp add: InitParse_def)
  have last: "ParseByte st LF = Inr st" if "p_Line st = ''''" for st
    using that by (simp add: ParseByte_def ParseLine_def)
  show ?thesis
  proof (cases "efold line_step (InitParse c) ls")
    case (Inl e)
    then show ?thesis
      using ne by (simp add: NcvParseConfigStrict_def efold_append efold_join_lines [OF assms(1) init])
  next
    case (Inr st)
    have "p_Line st = ''''"
      using efold_invariant [where I = "\<lambda>st. p_Line st = ''''", OF _ init Inr] line_step_resets by blast
    then show ?thesis
      using ne Inr last by (simp add: NcvParseConfigStrict_def efold_append efold_join_lines [OF assms(1) init] Let_def)
  qed
qed

section \<open>What an accepted configuration satisfies\<close>

definition text_ok :: "string \<Rightarrow> bool" where
  "text_ok s \<longleftrightarrow> list_all printable s \<and> length s < NCV_CONFIG_TEXT_BYTES"

definition config_wf :: "NCV_CONFIG_CORE \<Rightarrow> bool" where
  "config_wf c \<longleftrightarrow> address_wf (c_TargetPci c) \<and> address_wf (c_TargetControllerPci c) \<and>
     text_ok (c_Name c) \<and> text_ok (c_LegacyOptionDescription c) \<and> text_ok (c_ExcludeDescription c) \<and>
     text_ok (c_TargetBbsDescription c) \<and> marker_wf (c_Marker c)"

lemma SetOnce_Inr_iff: "SetOnce has parsed store = Inr c \<longleftrightarrow> \<not> has \<and> (\<exists>x. parsed = Some x \<and> c = store x)"
  by (auto simp: SetOnce_def split: option.splits)

lemma ParsePciAddress_wf: "ParsePciAddress s = Some a \<Longrightarrow> address_wf a"
proof -
  assume "ParsePciAddress s = Some a"
  then obtain sg bw dw :: NCV_U16 and f where a: "a = PciAddress sg (ucast bw) (ucast dw) (word_of_int f)"
    and d: "dw \<le> 31" and f: "0 \<le> f" "f \<le> 7"
    unfolding ParsePciAddress_def by (auto simp: Let_def split: if_splits option.splits)
  have "unat dw \<le> 31" using d by (simp add: word_le_nat_alt)
  then have "unat (ucast dw :: NCV_U8) \<le> 31" by (simp add: unsigned_ucast_eq take_bit_nat_eq_self)
  moreover have "unat (word_of_int f :: NCV_U8) \<le> 7"
    using f by (simp add: unsigned_of_int take_bit_int_eq_self)
  ultimately show "address_wf a" by (simp add: a address_wf_def word_le_nat_alt)
qed

lemma CopyAscii_text_ok: "CopyAscii NCV_CONFIG_TEXT_BYTES s = Some d \<Longrightarrow> text_ok d"
  by (auto simp: text_ok_def dest: CopyAscii_SomeD)

lemma UnquoteLoop_SomeD:
  "UnquoteLoop n w s = Some d \<Longrightarrow> list_all printable w \<Longrightarrow> list_all printable d \<and> length d < n"
  by (induction n w s rule: UnquoteLoop.induct) (auto simp: Let_def printable_def split: if_splits)

lemma CopyDiskDescription_text_ok: "CopyDiskDescription NCV_CONFIG_TEXT_BYTES s = Some d \<Longrightarrow> text_ok d"
  by (auto simp: CopyDiskDescription_def text_ok_def CopyAscii_text_ok [unfolded text_ok_def]
      dest: UnquoteLoop_SomeD split: if_splits)

lemma SetKeyValue_wf:
  assumes "SetKeyValue c s k v = Inr c'" and "config_wf c"
  shows "config_wf c'"
  using assms
  by (cases s)
    (auto simp: SetProfileKey_def SetVideoKey_def SetBootKey_def SetEndpointKey_def SetBehaviorKey_def
      SetOnce_Inr_iff config_wf_def Let_def ParsePciAddress_wf CopyAscii_text_ok CopyDiskDescription_text_ok
      MarkerConfigSetValue_wf split: if_splits option.splits)

text \<open>Whether a key of a section has already been assigned.\<close>

fun present :: "NCV_CONFIG_CORE \<Rightarrow> NCV_CONFIG_SECTION \<Rightarrow> string \<Rightarrow> bool" where
  "present c NcvSectionMarker k \<longleftrightarrow> MarkerKeyIndex k < 8 \<and> bit (m_Seen (c_Marker c)) (MarkerKeyIndex k)"
| "present c NcvSectionProfile k \<longleftrightarrow> k = ''Name'' \<and> c_HasName c"
| "present c NcvSectionVideo k \<longleftrightarrow> k = ''TargetPci'' \<and> c_HasTargetPci c
     \<or> k = ''ExpectedVendor'' \<and> c_HasExpectedVendor c \<or> k = ''ExpectedDevice'' \<and> c_HasExpectedDevice c
     \<or> k = ''ExpectedSubsystemVendor'' \<and> c_HasExpectedSubsystemVendor c
     \<or> k = ''ExpectedSubsystemDevice'' \<and> c_HasExpectedSubsystemDevice c"
| "present c NcvSectionBoot k \<longleftrightarrow> k = ''TargetControllerPci'' \<and> c_HasTargetControllerPci c
     \<or> k = ''LegacyOptionDescription'' \<and> c_HasLegacyOptionDescription c
     \<or> k = ''ExcludeDescription'' \<and> c_HasExcludeDescription c
     \<or> k = ''TargetBbsDescription'' \<and> c_HasTargetBbsDescription c"
| "present c NcvSectionEndpoint k \<longleftrightarrow> k = ''IoDecoding'' \<and> c_HasIoDecoding c
     \<or> k = ''MemoryDecoding'' \<and> c_HasMemoryDecoding c \<or> k = ''BusMastering'' \<and> c_HasBusMastering c"
| "present c NcvSectionBehavior k \<longleftrightarrow> k = ''Probe'' \<and> c_HasProbe c
     \<or> k = ''VerboseLog'' \<and> c_HasVerboseLog c \<or> k = ''AutoBoot'' \<and> c_HasAutoBoot c"
| "present c NcvSectionNone k \<longleftrightarrow> False"

lemma SetKeyValue_fresh: "SetKeyValue c s k v = Inr c' \<Longrightarrow> \<not> present c s k"
  by (cases s)
    (auto simp: SetProfileKey_def SetVideoKey_def SetBootKey_def SetEndpointKey_def SetBehaviorKey_def
      SetOnce_Inr_iff Let_def MarkerConfigSetValue_seen split: if_splits option.splits)

lemma SetKeyValue_marks: "SetKeyValue c s k v = Inr c' \<Longrightarrow> present c' s k"
proof (cases "s = NcvSectionMarker")
  case True
  assume "SetKeyValue c s k v = Inr c'"
  with True obtain m where m: "MarkerConfigSetValue (c_Marker c) k v = Some m" and "c' = c\<lparr>c_Marker := m\<rparr>"
    by (auto split: option.splits)
  with True MarkerConfigSetValue_seen [OF m] show ?thesis
    by (simp add: bit_set_bit_iff possible_bit_def)
next
  case False
  assume "SetKeyValue c s k v = Inr c'"
  with False show ?thesis
    by (cases s)
      (auto simp: SetProfileKey_def SetVideoKey_def SetBootKey_def SetEndpointKey_def SetBehaviorKey_def
        SetOnce_Inr_iff Let_def split: if_splits)
qed

text \<open>No assignment clears a flag.\<close>

definition flags :: "NCV_CONFIG_CORE \<Rightarrow> bool list" where
  "flags c = [c_HasProbe c, c_HasName c, c_HasTargetPci c, c_HasTargetControllerPci c, c_HasExpectedVendor c,
     c_HasExpectedDevice c, c_HasExpectedSubsystemVendor c, c_HasExpectedSubsystemDevice c,
     c_HasLegacyOptionDescription c, c_HasExcludeDescription c, c_HasTargetBbsDescription c, c_HasVerboseLog c,
     c_HasAutoBoot c, c_HasIoDecoding c, c_HasMemoryDecoding c, c_HasBusMastering c]"

lemma SetKeyValue_flags:
  assumes "SetKeyValue c s k v = Inr c'"
  shows "list_all2 (\<le>) (flags c) (flags c')"
  using assms
  by (cases s)
    (auto simp: SetProfileKey_def SetVideoKey_def SetBootKey_def SetEndpointKey_def SetBehaviorKey_def
      SetOnce_Inr_iff Let_def flags_def split: if_splits option.splits)

lemma SetKeyValue_seen:
  assumes "SetKeyValue c s k v = Inr c'" and "bit (m_Seen (c_Marker c)) i"
  shows "bit (m_Seen (c_Marker c')) i"
proof (cases "s = NcvSectionMarker")
  case True
  with assms obtain m where m: "MarkerConfigSetValue (c_Marker c) k v = Some m" and "c' = c\<lparr>c_Marker := m\<rparr>"
    by (auto split: option.splits)
  with assms(2) bit_imp_le_length [OF assms(2)] MarkerConfigSetValue_seen(3) [OF m] show ?thesis
    by (simp add: bit_set_bit_iff possible_bit_def)
next
  case False
  with assms show ?thesis
    by (cases s)
      (auto simp: SetProfileKey_def SetVideoKey_def SetBootKey_def SetEndpointKey_def SetBehaviorKey_def
        SetOnce_Inr_iff Let_def split: if_splits)
qed

lemma flags_imp:
  assumes "list_all2 (\<le>) (flags c) (flags c')"
  shows "c_HasProbe c \<Longrightarrow> c_HasProbe c'" "c_HasName c \<Longrightarrow> c_HasName c'" "c_HasTargetPci c \<Longrightarrow> c_HasTargetPci c'"
    "c_HasTargetControllerPci c \<Longrightarrow> c_HasTargetControllerPci c'" "c_HasExpectedVendor c \<Longrightarrow> c_HasExpectedVendor c'"
    "c_HasExpectedDevice c \<Longrightarrow> c_HasExpectedDevice c'"
    "c_HasExpectedSubsystemVendor c \<Longrightarrow> c_HasExpectedSubsystemVendor c'"
    "c_HasExpectedSubsystemDevice c \<Longrightarrow> c_HasExpectedSubsystemDevice c'"
    "c_HasLegacyOptionDescription c \<Longrightarrow> c_HasLegacyOptionDescription c'"
    "c_HasExcludeDescription c \<Longrightarrow> c_HasExcludeDescription c'"
    "c_HasTargetBbsDescription c \<Longrightarrow> c_HasTargetBbsDescription c'" "c_HasVerboseLog c \<Longrightarrow> c_HasVerboseLog c'"
    "c_HasAutoBoot c \<Longrightarrow> c_HasAutoBoot c'" "c_HasIoDecoding c \<Longrightarrow> c_HasIoDecoding c'"
    "c_HasMemoryDecoding c \<Longrightarrow> c_HasMemoryDecoding c'" "c_HasBusMastering c \<Longrightarrow> c_HasBusMastering c'"
  using assms by (simp_all add: flags_def)

lemma SetKeyValue_keeps:
  assumes "SetKeyValue c s k v = Inr c'" and "present c s' k'"
  shows "present c' s' k'"
proof -
  note imp = flags_imp [OF SetKeyValue_flags [OF assms(1)]] SetKeyValue_seen [OF assms(1)]
  from assms(2) show ?thesis
    by (cases s') (simp_all only: present.simps, (elim disjE conjE; simp only: imp simp_thms)+)
qed

fun assign :: "NCV_CONFIG_CORE \<Rightarrow> (NCV_CONFIG_SECTION \<times> string) \<times> string \<Rightarrow> config_result" where
  "assign c ((s, k), v) = SetKeyValue c s k v"

lemma assign_trace_fresh:
  "efold assign c kvs = Inr c' \<Longrightarrow>
     distinct (map fst kvs) \<and> (\<forall>(s, k) \<in> set (map fst kvs). \<not> present c s k)"
proof (induction kvs arbitrary: c)
  case Nil
  then show ?case by simp
next
  case (Cons kv kvs)
  obtain s k v where kv: "kv = ((s, k), v)" by (metis prod.exhaust)
  obtain d where d: "SetKeyValue c s k v = Inr d" and rest: "efold assign d kvs = Inr c'"
    using Cons.prems by (auto simp: kv ebind_Inr_iff)
  have "present d s' k'" if "present c s' k'" for s' k'
    using SetKeyValue_keeps [OF d] that .
  with Cons.IH [OF rest] SetKeyValue_marks [OF d] SetKeyValue_fresh [OF d] show ?case
    by (auto simp: kv)
qed

definition assigned_from :: "NCV_CONFIG_CORE \<Rightarrow> NCV_CONFIG_CORE \<Rightarrow> bool" where
  "assigned_from c c' \<longleftrightarrow> (\<exists>kvs. efold assign c kvs = Inr c')"

lemma assigned_from_step: "assigned_from c d \<Longrightarrow> SetKeyValue d s k v = Inr c' \<Longrightarrow> assigned_from c c'"
proof -
  assume "assigned_from c d" and step: "SetKeyValue d s k v = Inr c'"
  then obtain kvs where "efold assign c kvs = Inr d" by (auto simp: assigned_from_def)
  then have "efold assign c (kvs @ [((s, k), v)]) = Inr c'"
    using step by (simp add: efold_append)
  then show ?thesis unfolding assigned_from_def by blast
qed

lemma ParseLine_assigned:
  "ParseLine st l = Inr st' \<Longrightarrow> assigned_from c (p_Config st) \<Longrightarrow> assigned_from c (p_Config st')"
  by (auto simp: ParseLine_def ebind_Inr_iff Let_def intro: assigned_from_step split: if_splits option.splits)

lemma ParseByte_assigned:
  "ParseByte st b = Inr st' \<Longrightarrow> assigned_from c (p_Config st) \<Longrightarrow> assigned_from c (p_Config st')"
  by (auto simp: ParseByte_def ebind_Inr_iff intro: ParseLine_assigned split: if_splits)

lemma assigned_from_wf: "assigned_from c c' \<Longrightarrow> config_wf c \<Longrightarrow> config_wf c'"
  unfolding assigned_from_def
  by (elim exE, rule efold_invariant [where I = config_wf and f = assign]) (auto intro: SetKeyValue_wf)

lemma NcvParseConfigStrict_assigned:
  assumes "NcvParseConfigStrict (Some bs) (Some c) = Inr c'"
  shows "assigned_from c c'"
proof -
  obtain st where run: "efold ParseByte (InitParse c) (bs @ [LF]) = Inr st" and c': "c' = p_Config st"
    using assms by (auto simp: NcvParseConfigStrict_def ebind_Inr_iff Let_def split: if_splits)
  have "assigned_from c (p_Config (InitParse c))"
    by (auto simp: assigned_from_def InitParse_def intro: exI [of _ "[]"])
  with run show ?thesis
    using efold_invariant [where I = "\<lambda>st. assigned_from c (p_Config st)"] ParseByte_assigned c' by blast
qed

section \<open>The assignments of a text\<close>

text \<open>
  What a text says, read off its bytes without the parser: its lines (carriage returns do not count), the heading in force at
  each of them, and the key and the value around the equals sign of every line that is neither blank, nor a comment, nor a heading.
\<close>

fun text_lines :: "char list \<Rightarrow> string list" where
  "text_lines [] = [[]]"
| "text_lines (c # s) =
     (if c = LF then [] # text_lines s else if c = CR then text_lines s else (c # hd (text_lines s)) # tl (text_lines s))"

definition headings :: "(string \<times> NCV_CONFIG_SECTION) list" where
  "headings = [(''[Profile]'', NcvSectionProfile), (''[Video]'', NcvSectionVideo), (''[Endpoint]'', NcvSectionEndpoint),
     (''[Boot]'', NcvSectionBoot), (''[Marker]'', NcvSectionMarker), (''[Behavior]'', NcvSectionBehavior)]"

fun assignments :: "NCV_CONFIG_SECTION \<Rightarrow> string list \<Rightarrow> ((NCV_CONFIG_SECTION \<times> string) \<times> string) list" where
  "assignments sec [] = []"
| "assignments sec (l # ls) =
     (let body = Trim l
      in if blank_or_comment body then assignments sec ls
         else case map_of headings body of
                Some sec' \<Rightarrow> assignments sec' ls
              | None \<Rightarrow> ((sec, Trim (takeWhile (\<lambda>c. c \<noteq> CHR ''='') body)), Trim (tl (dropWhile (\<lambda>c. c \<noteq> CHR ''='') body))) # assignments sec ls)"

definition text_assignments :: "char list \<Rightarrow> ((NCV_CONFIG_SECTION \<times> string) \<times> string) list" where
  "text_assignments bytes = assignments NcvSectionNone (text_lines bytes)"

definition text_headings :: "char list \<Rightarrow> string list" where
  "text_headings bytes = filter (\<lambda>body. map_of headings body \<noteq> None) (map Trim (text_lines bytes))"

lemma text_lines_ne [simp]: "text_lines s \<noteq> []"
  by (induction s) auto

lemma line_step_of_state: "line_step (st\<lparr>p_Line := ''''\<rparr>) (p_Line st) = ebind (ParseLine st (Trim (p_Line st))) (\<lambda>st. Inr (st\<lparr>p_Line := ''''\<rparr>))"
  by (simp add: line_step_def)

lemma ParseByte_line:
  assumes "ParseByte st c = Inr st'" and "good_line (p_Line st)" and "c \<noteq> LF" and "c \<noteq> CR"
  shows "st' = st\<lparr>p_Line := p_Line st @ [c]\<rparr> \<and> good_line (p_Line st @ [c])"
  using assms by (auto simp: ParseByte_def good_line_def printable_def NCV_CONFIG_MAX_LINE_BYTES_def split: if_splits)

lemma bytes_to_lines:
  "efold ParseByte st (bytes @ [LF]) = Inr st' \<Longrightarrow> good_line (p_Line st) \<Longrightarrow>
     efold line_step (st\<lparr>p_Line := ''''\<rparr>) ((p_Line st @ hd (text_lines bytes)) # tl (text_lines bytes)) = Inr st' \<and>
     list_all good_line ((p_Line st @ hd (text_lines bytes)) # tl (text_lines bytes))"
proof (induction bytes arbitrary: st)
  case Nil
  then show ?case by (auto simp: ParseByte_def line_step_of_state ebind_Inr_iff)
next
  case (Cons c bytes)
  obtain st1 where st1: "ParseByte st c = Inr st1" and rest: "efold ParseByte st1 (bytes @ [LF]) = Inr st'"
    using Cons.prems(1) by (auto simp: ebind_Inr_iff)
  consider "c = LF" | "c = CR" | "c \<noteq> LF" "c \<noteq> CR" by blast
  then show ?case
  proof cases
    case 1
    then have l: "line_step (st\<lparr>p_Line := ''''\<rparr>) (p_Line st) = Inr st1" and e: "p_Line st1 = ''''"
      using st1 by (auto simp: ParseByte_def line_step_of_state ebind_Inr_iff)
    have "st1\<lparr>p_Line := ''''\<rparr> = st1" using e by (cases st1) simp
    with Cons.IH [OF rest] Cons.prems(2) 1 l e show ?thesis by (simp add: good_line_def)
  next
    case 2
    with st1 have "st1 = st" by (simp add: ParseByte_def)
    with Cons.IH [OF rest] Cons.prems(2) 2 show ?thesis by simp
  next
    case 3
    from ParseByte_line [OF st1 Cons.prems(2) 3] Cons.IH [OF rest] 3 show ?thesis by simp
  qed
qed

lemma ScanEquals_second: "ScanEquals i (Some k) s = Some e \<Longrightarrow> k = e"
  by (induction s arbitrary: i) (auto split: if_splits)

lemma ScanEquals_at: "ScanEquals i None s = Some e \<Longrightarrow> e = i + length (takeWhile (\<lambda>c. c \<noteq> CHR ''='') s)"
proof (induction s arbitrary: i)
  case (Cons c s)
  show ?case
  proof (cases "c = CHR ''=''")
    case True
    then show ?thesis using Cons.prems by (auto dest: ScanEquals_second)
  next
    case False
    then show ?thesis using Cons.IH [of "Suc i"] Cons.prems by simp
  qed
qed simp

lemma SetSection_headings: "SetSection s = (case map_of headings s of Some sec \<Rightarrow> Inr sec | None \<Rightarrow> Inl NcvConfigUnsupported)"
  by (simp add: SetSection_def headings_def)

lemma heading_hd: "map_of headings s = Some sec \<Longrightarrow> c_at s 0 = CHR ''['' \<and> \<not> blank_or_comment s"
  by (auto simp: headings_def blank_or_comment_def split: if_splits)

lemma good_body:
  assumes "good_line l"
  shows "c_at (Trim l) 0 \<noteq> NUL \<and> c_at (Trim l) 0 \<noteq> CHR ''#'' \<and> c_at (Trim l) 0 \<noteq> CHR '';'' \<longleftrightarrow> \<not> blank_or_comment (Trim l)"
proof (cases "Trim l")
  case (Cons c s)
  then have "printable c" using assms set_Trim [of l] by (auto simp: good_line_def list_all_iff)
  with Cons show ?thesis by (auto simp: blank_or_comment_def printable_def)
qed (simp add: blank_or_comment_def)

lemma p_Line_same: "p_Line st = [] \<Longrightarrow> st\<lparr>p_Line := []\<rparr> = st"
  by (cases st) simp

text \<open>One line: a comment, a heading that was not seen before, or an assignment.\<close>

lemma line_step_cases:
  assumes "line_step st l = Inr st'" and "good_line l" and "p_Line st = ''''"
  obtains (comment) "blank_or_comment (Trim l)" "st' = st"
  | (heading) sec where "map_of headings (Trim l) = Some sec" "\<not> p_SectionSeen st sec"
      "st' = st\<lparr>p_Section := sec, p_SectionSeen := (p_SectionSeen st)(sec := True)\<rparr>"
  | (assigns) c where "\<not> blank_or_comment (Trim l)" "map_of headings (Trim l) = None" "st' = st\<lparr>p_Config := c\<rparr>"
      "SetKeyValue (p_Config st) (p_Section st) (Trim (takeWhile (\<lambda>c. c \<noteq> CHR ''='') (Trim l)))
         (Trim (tl (dropWhile (\<lambda>c. c \<noteq> CHR ''='') (Trim l)))) = Inr c"
proof (cases "blank_or_comment (Trim l)")
  case True
  with assms good_body [OF assms(2)] have "st' = st\<lparr>p_Line := ''''\<rparr>" by (simp add: line_step_def ParseLine_def)
  with True assms(3) show thesis by (intro comment) (simp_all add: p_Line_same)
next
  case False
  then have g: "c_at (Trim l) 0 \<noteq> NUL" "c_at (Trim l) 0 \<noteq> CHR ''#''" "c_at (Trim l) 0 \<noteq> CHR '';''" using good_body [OF assms(2)] by simp_all
  show thesis
  proof (cases "c_at (Trim l) 0 = CHR ''[''")
    case True
    with g assms(1,3) obtain sec where "map_of headings (Trim l) = Some sec" "\<not> p_SectionSeen st sec"
      "st' = st\<lparr>p_Line := '''', p_Section := sec, p_SectionSeen := (p_SectionSeen st)(sec := True)\<rparr>"
      by (auto simp: line_step_def ParseLine_def ebind_Inr_iff SetSection_headings split: if_splits option.splits)
    with assms(3) show thesis by (intro heading) (simp_all add: p_Line_same)
  next
    case no: False
    then obtain e c where e: "ScanEquals 0 None (Trim l) = Some e" and st': "st' = st\<lparr>p_Config := c, p_Line := ''''\<rparr>"
      and c: "SetKeyValue (p_Config st) (p_Section st) (Trim (take e (Trim l))) (Trim (drop (e + 1) (Trim l))) = Inr c"
      using g assms(1,3) by (auto simp: line_step_def ParseLine_def ebind_Inr_iff Let_def split: if_splits option.splits)
    have n: "e = length (takeWhile (\<lambda>c. c \<noteq> CHR ''='') (Trim l))" using ScanEquals_at [OF e] by simp
    have "take e (Trim l) = takeWhile (\<lambda>c. c \<noteq> CHR ''='') (Trim l)" unfolding n by (rule takeWhile_eq_take [symmetric])
    moreover have "drop (e + 1) (Trim l) = tl (dropWhile (\<lambda>c. c \<noteq> CHR ''='') (Trim l))"
      unfolding n dropWhile_eq_drop by (simp add: drop_Suc tl_drop)
    moreover have "map_of headings (Trim l) = None" using no heading_hd by (cases "map_of headings (Trim l)") auto
    moreover have "st' = st\<lparr>p_Config := c\<rparr>" unfolding st' using assms(3) by (cases st) simp
    ultimately show thesis using False c by (intro assigns [of c]) simp_all
  qed
qed

lemma lines_to_assignments:
  "efold line_step st ls = Inr st' \<Longrightarrow> list_all good_line ls \<Longrightarrow> p_Line st = '''' \<Longrightarrow>
     efold assign (p_Config st) (assignments (p_Section st) ls) = Inr (p_Config st') \<and>
     distinct (filter (\<lambda>body. map_of headings body \<noteq> None) (map Trim ls)) \<and>
     (\<forall>l \<in> set ls. \<forall>sec. map_of headings (Trim l) = Some sec \<longrightarrow> \<not> p_SectionSeen st sec)"
proof (induction ls arbitrary: st)
  case (Cons l ls)
  obtain st1 where st1: "line_step st l = Inr st1" and rest: "efold line_step st1 ls = Inr st'"
    using Cons.prems(1) by (auto simp: ebind_Inr_iff)
  have l: "good_line l" and ls: "list_all good_line ls" using Cons.prems(2) by simp_all
  note IH = Cons.IH [OF rest ls line_step_resets [OF st1]]
  from st1 l Cons.prems(3) show ?case
  proof (cases rule: line_step_cases)
    case comment
    moreover have "map_of headings (Trim l) = None" using comment(1) heading_hd by (cases "map_of headings (Trim l)") auto
    ultimately show ?thesis using IH by simp
  next
    case (heading sec)
    have fresh: "Trim l \<notin> Trim ` set ls" using IH heading(1,3) by auto
    have seen: "\<not> p_SectionSeen st sec'" if "l' \<in> set ls" "map_of headings (Trim l') = Some sec'" for l' sec'
      using IH heading(3) that by (auto split: if_splits)
    show ?thesis using IH heading fresh seen heading_hd [OF heading(1)] by (auto simp: Let_def)
  next
    case (assigns c)
    then show ?thesis using IH by (simp add: Let_def)
  qed
qed simp

lemma NcvParseConfigStrict_text:
  assumes "NcvParseConfigStrict (Some bytes) (Some c) = Inr c'"
  shows "list_all good_line (text_lines bytes) \<and> distinct (text_headings bytes) \<and> efold assign c (text_assignments bytes) = Inr c'"
proof -
  obtain st where run: "efold ParseByte (InitParse c) (bytes @ [LF]) = Inr st" and c': "c' = p_Config st"
    using assms by (auto simp: NcvParseConfigStrict_def ebind_Inr_iff Let_def split: if_splits)
  have i: "p_Line (InitParse c) = ''''" "p_Section (InitParse c) = NcvSectionNone" "p_Config (InitParse c) = c" "(InitParse c)\<lparr>p_Line := ''''\<rparr> = InitParse c"
    by (simp_all add: InitParse_def)
  have "good_line (p_Line (InitParse c))" by (simp add: i good_line_def)
  from bytes_to_lines [OF run this] have l: "efold line_step (InitParse c) (text_lines bytes) = Inr st" "list_all good_line (text_lines bytes)"
    by (simp_all only: i append_Nil list.collapse [OF text_lines_ne])
  from lines_to_assignments [OF l i(1)] l(2) show ?thesis by (simp add: i c' text_assignments_def text_headings_def)
qed

text \<open>
  C2. An accepted configuration is what its text says. When \<open>NcvParseConfigStrict\<close> accepts the bytes, every line of them is printable
  and has at most 255 characters, no heading is repeated, and the configuration is the one that \<open>SetKeyValue\<close> makes of the assignments
  written in the text (the heading in force, the key and the value of each line, read off the bytes), among which no key of any section
  occurs twice. The result keeps the well-formedness of the structure it starts from (PCI addresses in range, every text
  field printable and terminated within its 65-byte array, marker fields valid); the marker block is valid as a whole; and in
  boot mode the display and the disk controller are different PCI functions.
\<close>

theorem NcvParseConfigStrict_sound:
  assumes "NcvParseConfigStrict (Some bytes) (Some c) = Inr c'"
  shows "list_all good_line (text_lines bytes) \<and> distinct (text_headings bytes) \<and>
    efold assign c (text_assignments bytes) = Inr c' \<and> distinct (map fst (text_assignments bytes)) \<and>
    (config_wf c \<longrightarrow> config_wf c') \<and> MarkerConfigIsValid (c_Marker c') \<and>
    (\<not> c_Probe c' \<and> c_HasTargetPci c' \<and> c_HasTargetControllerPci c' \<longrightarrow>
       c_TargetPci c' \<noteq> c_TargetControllerPci c')"
proof -
  note t = NcvParseConfigStrict_text [OF assms]
  then have "distinct (map fst (text_assignments bytes))" using assign_trace_fresh by blast
  moreover have "MarkerConfigIsValid (c_Marker c') \<and>
    (\<not> c_Probe c' \<and> c_HasTargetPci c' \<and> c_HasTargetControllerPci c' \<longrightarrow>
       c_TargetPci c' \<noteq> c_TargetControllerPci c')"
    using assms by (auto simp: NcvParseConfigStrict_def ebind_Inr_iff Let_def split: if_splits)
  ultimately show ?thesis using t assigned_from_wf [OF NcvParseConfigStrict_assigned [OF assms]] by blast
qed

lemma config_wf_NcvConfigDefaults: "config_wf NcvConfigDefaults"
proof -
  have "CopyAscii NCV_CONFIG_TEXT_BYTES ''Hard Drive'' = Some ''Hard Drive''"
    and "CopyAscii NCV_CONFIG_TEXT_BYTES ''USB'' = Some ''USB''"
    by (rule CopyAscii_eq; simp add: printable_def NCV_CONFIG_TEXT_BYTES_def)+
  moreover have "MarkerHeaderOk ''NATIVE CSM BOOT PROFILE 1''"
    by (simp add: MarkerHeaderOk_def)
  ultimately show ?thesis
    by (simp add: config_wf_def NcvConfigDefaults_def text_ok_def address_wf_def marker_wf_def
        empty_marker_def printable_def NCV_CONFIG_TEXT_BYTES_def)
qed

lemma sample_parse:
  "NcvParseConfigStrict (Some (join_lines [''[Behavior]'', ''Probe=false''])) (Some NcvConfigDefaults) =
     Inr (NcvConfigDefaults\<lparr>c_Probe := False, c_HasProbe := True\<rparr>)"
proof -
  let ?st = "(InitParse NcvConfigDefaults)\<lparr>p_Section := NcvSectionBehavior,
      p_SectionSeen := (\<lambda>_. False)(NcvSectionBehavior := True)\<rparr>"
  have "line_step (InitParse NcvConfigDefaults) ''[Behavior]'' = Inr ?st"
    by (subst line_step_section [where sec = NcvSectionBehavior])
      (simp_all add: SetSection_def InitParse_def IsSpace_def)
  moreover have "line_step ?st (''Probe'' @ CHR ''='' # ''false'') =
      Inr (?st\<lparr>p_Config := NcvConfigDefaults\<lparr>c_Probe := False, c_HasProbe := True\<rparr>\<rparr>)"
    by (subst line_step_assign)
      (simp_all add: plain_field_def IsSpace_def InitParse_def SetBehaviorKey_def NcvConfigDefaults_def)
  moreover have "list_all good_line [''[Behavior]'', ''Probe=false'']"
    by (simp add: good_line_def printable_def)
  ultimately show ?thesis
    by (subst NcvParseConfigStrict_lines)
      (simp_all add: InitParse_def NcvConfigDefaults_def MarkerConfigIsValid_def empty_marker_def)
qed

theorem NcvParseConfigStrict_sound_witness:
  "\<exists>c'. NcvParseConfigStrict (Some (join_lines [''[Behavior]'', ''Probe=false''])) (Some NcvConfigDefaults) = Inr c'
     \<and> config_wf c' \<and> \<not> c_Probe c'"
proof -
  let ?c = "NcvConfigDefaults\<lparr>c_Probe := False, c_HasProbe := True\<rparr>"
  have "config_wf ?c" using NcvParseConfigStrict_sound [OF sample_parse] config_wf_NcvConfigDefaults by (elim conjE) (rule mp)
  moreover have "\<not> c_Probe ?c" by simp
  ultimately show ?thesis using sample_parse by blast
qed

section \<open>Boot requirements\<close>

lemma NcvBootRequirementsValidate_zero_iff:
  "NcvBootRequirementsValidate (Some r) = 0 \<longleftrightarrow>
      \<not> r_Probe r \<and> r_HasTargetPci r \<and> r_HasTargetControllerPci r \<and> r_HasIoDecoding r \<and>
      r_HasMemoryDecoding r \<and> r_HasBusMastering r"
  by (auto simp: NcvBootRequirementsValidate_def ncv_defs)

text \<open>
  \<open>NcvBootRequirementsValidate\<close> reports each missing requirement in its own bit and nothing
  else: bit 0 for probe mode, bits 1 to 5 for the absent display target, controller target and the
  three endpoint policies; the reported byte is zero exactly for a complete boot configuration.
\<close>

theorem NcvBootRequirementsValidate_bits:
  "(\<forall>i. bit (NcvBootRequirementsValidate (Some r)) i \<longleftrightarrow>
      i < 6 \<and> [r_Probe r, \<not> r_HasTargetPci r, \<not> r_HasTargetControllerPci r, \<not> r_HasIoDecoding r,
               \<not> r_HasMemoryDecoding r, \<not> r_HasBusMastering r] ! i) \<and>
   (NcvBootRequirementsValidate (Some r) = 0 \<longleftrightarrow>
      \<not> r_Probe r \<and> r_HasTargetPci r \<and> r_HasTargetControllerPci r \<and> r_HasIoDecoding r \<and>
      r_HasMemoryDecoding r \<and> r_HasBusMastering r)"
proof -
  have b: "NCV_BOOT_INVALID_PROBE_MODE = push_bit 0 1" "NCV_BOOT_MISSING_TARGET_PCI = push_bit 1 1"
    "NCV_BOOT_MISSING_CONTROLLER_PCI = push_bit 2 1" "NCV_BOOT_MISSING_IO_POLICY = push_bit 3 1"
    "NCV_BOOT_MISSING_MEMORY_POLICY = push_bit 4 1" "NCV_BOOT_MISSING_BUS_MASTER_POLICY = push_bit 5 1"
    by (simp_all add: ncv_defs)
  have ifbit: "bit (if P then push_bit k 1 else (0 :: NCV_U8)) i \<longleftrightarrow> P \<and> i = k \<and> k < 8" for P k i
    by (auto simp: bit_simps)
  have bits: "bit (NcvBootRequirementsValidate (Some r)) i \<longleftrightarrow>
      i = 0 \<and> r_Probe r \<or> i = 1 \<and> \<not> r_HasTargetPci r \<or> i = 2 \<and> \<not> r_HasTargetControllerPci r \<or>
      i = 3 \<and> \<not> r_HasIoDecoding r \<or> i = 4 \<and> \<not> r_HasMemoryDecoding r \<or> i = 5 \<and> \<not> r_HasBusMastering r" for i
    unfolding NcvBootRequirementsValidate_def b by (simp only: option.simps bit_or_iff ifbit) auto
  have six: "i < 6 \<longleftrightarrow> i = 0 \<or> i = 1 \<or> i = 2 \<or> i = 3 \<or> i = 4 \<or> i = (5::nat)" for i by auto
  have "\<forall>i. bit (NcvBootRequirementsValidate (Some r)) i \<longleftrightarrow>
      i < 6 \<and> [r_Probe r, \<not> r_HasTargetPci r, \<not> r_HasTargetControllerPci r, \<not> r_HasIoDecoding r,
               \<not> r_HasMemoryDecoding r, \<not> r_HasBusMastering r] ! i"
    unfolding bits six by auto
  then show ?thesis using NcvBootRequirementsValidate_zero_iff [of r] by blast
qed

definition boot_ready :: "NCV_CONFIG_CORE \<Rightarrow> bool" where
  "boot_ready c \<longleftrightarrow> c_HasProbe c \<and> \<not> c_Probe c \<and> c_HasTargetPci c \<and> c_HasTargetControllerPci c \<and>
     c_HasIoDecoding c \<and> c_HasMemoryDecoding c \<and> c_HasBusMastering c"

lemma NcvValidateConfigMode_iff:
  "fst (NcvValidateConfigMode (Some c)) = NcvConfigSuccess \<longleftrightarrow> c_HasProbe c \<and> c_Probe c \<or> boot_ready c"
  by (auto simp: NcvValidateConfigMode_def boot_ready_def NcvConfigCoreGetBootRequirements_def
      NcvBootRequirementsValidate_zero_iff Let_def)

text \<open>
  Recovery accepts only an explicit diagnostic mode or a complete boot configuration:
  \<open>NcvValidateConfigMode\<close> succeeds exactly when \<open>Probe\<close> was given and is true, or was given
  as false together with both targets and all three endpoint policies. A configuration that has
  never been parsed (the defaults) is refused.
\<close>

theorem NcvValidateConfigMode_accepts:
  "(fst (NcvValidateConfigMode (Some c)) = NcvConfigSuccess \<longleftrightarrow> c_HasProbe c \<and> c_Probe c \<or> boot_ready c) \<and>
   fst (NcvValidateConfigMode (Some NcvConfigDefaults)) \<noteq> NcvConfigSuccess"
  by (simp add: NcvValidateConfigMode_iff) (simp add: NcvValidateConfigMode_def NcvConfigDefaults_def boot_ready_def)

end
