(* ===== verification/Candidate_Format.thy ===== *)
theory Candidate_Format
  imports Config_Lines
begin

text \<open>
  \<open>NcvFormatCandidateIni\<close> of \<open>CandidateIni.c\<close>: the generated \<open>Config.ini\<close> /
  \<open>Probe.ini\<close>. The routine is the sequence of \<open>Put*\<close> calls of the source; it is shown to
  write a list of lines, and those lines are shown to be read back by the strict parser as exactly
  the selected display, controller and disk.
\<close>

section \<open>The formatter\<close>

abbreviation YesNo :: "bool \<Rightarrow> string" where
  "YesNo b \<equiv> (if b then ''yes'' else ''no'')"

text \<open>The body of the display loop.\<close>

definition FormatDisplay :: "bool \<Rightarrow> NCV_SIZE \<Rightarrow> NCV_DISPLAY_CANDIDATE list \<Rightarrow> NCV_TEXT \<Rightarrow> nat \<Rightarrow> NCV_TEXT" where
  "FormatDisplay complete selected displays t i =
     (let d = displays ! i;
          t = PutText t ''# Display candidate '';
          t = PutDec t (i + 1);
          t = (if complete \<and> i = selected then PutText t '' - selected'' else t);
          t = PutText t (CRLF @ ''# PCI identity: '');
          t = PutHex t (unat (d_Vendor d)) 4;
          t = PutChar t (CHR '':'');
          t = PutHex t (unat (d_DeviceId d)) 4;
          t = PutText t '' subsystem '';
          t = PutHex t (unat (d_SubsystemVendor d)) 4;
          t = PutChar t (CHR '':'');
          t = PutHex t (unat (d_SubsystemDevice d)) 4;
          t = PutText t (CRLF @ ''# GOP association: '');
          t = (if \<not> d_GopAssociationKnown d then PutText t ''unknown (ranked conservatively)''
               else PutText t (YesNo (d_GopAssociated d)));
          t = PutText t (CRLF @ ''# Active legacy VGA owner: '');
          t = (if \<not> d_ActiveLegacyVgaOwnerKnown d then PutText t ''unknown (ranked conservatively as active)''
               else PutText t (YesNo (d_ActiveLegacyVgaOwner d)));
          t = PutText t (CRLF @ ''# Option ROM exposed: '');
          t = PutText t (YesNo (d_OptionRomExposed d));
          t = PutText t (CRLF @ ''# Valid legacy x86 ROM: '');
          t = PutText t (YesNo (d_AcceptedLegacyRom d));
          t = PutText t (CRLF @ ''# Upstream path discovered: '');
          t = PutText t (YesNo (d_PathDiscovered d));
          t = PutText t (CRLF @ ''# Upstream path validation: '');
          t = PutText t (if d_PathValidated d then ''passed'' else ''failed'');
          t = PutText t CRLF
      in if d_AddressValid d then
           (let t = (if \<not> complete \<or> i \<noteq> selected then PutText t ''# '' else t);
                t = PutText t ''TargetPci='';
                t = PutBdf t (d_Address d)
            in PutText t (CRLF @ CRLF))
         else
           (let t = PutText t ''# PCI location unavailable: segment=0x'';
                t = PutHex t (d_RawSegment d) 16;
                t = PutText t '' bus=0x'';
                t = PutHex t (d_RawBus d) 16;
                t = PutText t '' device=0x'';
                t = PutHex t (d_RawDevice d) 16;
                t = PutText t '' function=0x'';
                t = PutHex t (d_RawFunction d) 16
            in PutText t (''; no TargetPci emitted'' @ CRLF @ CRLF)))"

text \<open>The body of the storage loop.\<close>

definition FormatStorage :: "bool \<Rightarrow> NCV_SIZE \<Rightarrow> NCV_STORAGE_CANDIDATE list \<Rightarrow> NCV_TEXT \<Rightarrow> nat \<Rightarrow> NCV_TEXT" where
  "FormatStorage complete selected storage t i =
     (let s = storage ! i;
          t = PutText t ''# Storage candidate '';
          t = PutDec t (i + 1);
          t = (if complete \<and> i = selected then PutText t '' - selected'' else t);
          t = PutText t (CRLF @ ''# Manufacturer: '');
          t = PutCommentText t (Some (s_Manufacturer s)) NCV_CANDIDATE_STRING_BYTES;
          t = PutText t (CRLF @ ''# Model: '');
          t = PutCommentText t (Some (s_Description s)) NCV_CANDIDATE_STRING_BYTES;
          t = PutText t (CRLF @ ''# BBS index: '');
          t = PutDec t (s_BbsIndex s);
          t = PutText t (CRLF @ ''# Controller type: '');
          t = PutText t (if s_Usb s then ''USB'' else ''non-USB'');
          t = PutText t CRLF;
          t = (if s_AddressValid s then
                 (let t = (if \<not> complete \<or> i \<noteq> selected then PutText t ''# '' else t);
                      t = PutText t ''TargetControllerPci='';
                      t = PutBdf t (s_Address s)
                  in PutText t CRLF)
               else
                 (let t = PutText t ''# Invalid BBS PCI location: bus=0x'';
                      t = PutHex t (unat (s_RawBus s)) 8;
                      t = PutText t '' device=0x'';
                      t = PutHex t (unat (s_RawDevice s)) 8;
                      t = PutText t '' function=0x'';
                      t = PutHex t (unat (s_RawFunction s)) 8
                  in PutText t CRLF));
          t = (if \<not> complete \<or> i \<noteq> selected then PutText t ''# '' else t);
          t = PutText t ''TargetBbsDescription='';
          t = (case NcvEncodeDiskDescription (Some (s_Description s)) NCV_ENCODED_DESCRIPTION_BYTES of
                 Inr encoded \<Rightarrow> PutText t encoded
               | Inl _ \<Rightarrow> PutCommentText t (Some (s_Description s)) NCV_CANDIDATE_STRING_BYTES)
      in PutText t (CRLF @ CRLF))"

text \<open>
  \<open>Inl\<close> is the negative return code; \<open>Inr\<close> the bytes in \<open>Output\<close>, whose number is the
  value stored in \<open>*OutputSize\<close>.
\<close>

definition NcvFormatCandidateIni ::
  "NCV_DISPLAY_CANDIDATE list option \<Rightarrow> NCV_SIZE \<Rightarrow> NCV_STORAGE_CANDIDATE list option \<Rightarrow> NCV_SIZE \<Rightarrow>
   NCV_SIZE \<Rightarrow> int + string" where
  "NcvFormatCandidateIni displays selectedDisplay storage selectedStorage capacity =
     (if capacity = 0 \<or> \<not> ValidateSelections displays selectedDisplay storage selectedStorage then Inl (-1)
      else
        let t = InitText capacity;
            complete = (selectedDisplay \<noteq> NCV_NO_SELECTION \<and> selectedStorage \<noteq> NCV_NO_SELECTION);
            t = PutText t (''# Generated by Native CSM VGA Selector 1.2 read-only discovery.'' @ CRLF);
            t = (if complete then
                   PutText t (''# One display and one storage candidate are selected below.'' @ CRLF @
                              ''# To select another candidate, comment the active setting and'' @ CRLF @
                              ''# uncomment the desired setting.'' @ CRLF)
                 else
                   PutText t (''# This Probe-only result is not boot-ready because at least one'' @ CRLF @
                              ''# candidate category has no eligible automatic selection.'' @ CRLF));
            t = PutText t (CRLF @ ''[Marker]'' @ CRLF @ ''Enabled=false'' @ CRLF @ CRLF @ ''[Behavior]'' @ CRLF @
                           ''Probe=false'' @ CRLF @ CRLF @ ''[Video]'' @ CRLF);
            t = foldl (FormatDisplay complete selectedDisplay (the displays)) t [0..<length (the displays)];
            t = PutText t (''[Endpoint]'' @ CRLF @ ''IoDecoding=On'' @ CRLF @ ''MemoryDecoding=On'' @ CRLF @
                           ''BusMastering=Ignore'' @ CRLF @ CRLF @ ''[Boot]'' @ CRLF);
            t = foldl (FormatStorage complete selectedStorage (the storage)) t [0..<length (the storage)]
        in if t_Failed t then Inl (-2) else Inr (t_Data t))"

section \<open>The formatter writes lines\<close>

definition display_comments :: "bool \<Rightarrow> NCV_DISPLAY_CANDIDATE \<Rightarrow> nat \<Rightarrow> string list" where
  "display_comments chosen d i =
     [''# Display candidate '' @ dec_string (i + 1) @ (if chosen then '' - selected'' else ''''),
      ''# PCI identity: '' @ hex_string (unat (d_Vendor d)) 4 @ '':'' @ hex_string (unat (d_DeviceId d)) 4
        @ '' subsystem '' @ hex_string (unat (d_SubsystemVendor d)) 4 @ '':'' @ hex_string (unat (d_SubsystemDevice d)) 4,
      ''# GOP association: '' @ (if \<not> d_GopAssociationKnown d then ''unknown (ranked conservatively)''
                                 else YesNo (d_GopAssociated d)),
      ''# Active legacy VGA owner: '' @ (if \<not> d_ActiveLegacyVgaOwnerKnown d then ''unknown (ranked conservatively as active)''
                                 else YesNo (d_ActiveLegacyVgaOwner d)),
      ''# Option ROM exposed: '' @ YesNo (d_OptionRomExposed d),
      ''# Valid legacy x86 ROM: '' @ YesNo (d_AcceptedLegacyRom d),
      ''# Upstream path discovered: '' @ YesNo (d_PathDiscovered d),
      ''# Upstream path validation: '' @ (if d_PathValidated d then ''passed'' else ''failed'')]"

definition display_target :: "bool \<Rightarrow> NCV_DISPLAY_CANDIDATE \<Rightarrow> string" where
  "display_target chosen d =
     (if d_AddressValid d then (if chosen then '''' else ''# '') @ ''TargetPci='' @ bdf_string (d_Address d)
      else ''# PCI location unavailable: segment=0x'' @ hex_string (d_RawSegment d) 16 @ '' bus=0x''
        @ hex_string (d_RawBus d) 16 @ '' device=0x'' @ hex_string (d_RawDevice d) 16
        @ '' function=0x'' @ hex_string (d_RawFunction d) 16 @ ''; no TargetPci emitted'')"

definition display_lines :: "bool \<Rightarrow> NCV_DISPLAY_CANDIDATE \<Rightarrow> nat \<Rightarrow> string list" where
  "display_lines chosen d i = display_comments chosen d i @ [display_target chosen d, '''']"

text \<open>Merging consecutive writes into one string, without unfolding the literals.\<close>

lemma put_if:
  "(if b then foldl PutChar t x else foldl PutChar t y) = foldl PutChar t (if b then x else y)"
  "(if b then foldl PutChar t x else t) = foldl PutChar t (if b then x else '''')"
  "(if b then t else foldl PutChar t x) = foldl PutChar t (if b then '''' else x)"
  by simp_all

lemma not_imp_if: "(if \<not> b then x else y) = (if b then y else x)"
  by simp

lemmas put_merge = PutText_string PutChar_string PutHex_string PutDec_string PutBdf_string
  PutCommentText_string put_if foldl_append [symmetric] Let_def

lemma FormatDisplay_lines:
  "FormatDisplay complete selected ds t i =
     foldl PutChar t (join_lines (display_lines (complete \<and> i = selected) (ds ! i) i))"
proof -
  have c: "(\<not> complete \<or> i \<noteq> selected) \<longleftrightarrow> \<not> (complete \<and> i = selected)" by simp
  show ?thesis
    unfolding FormatDisplay_def display_lines_def display_comments_def display_target_def c not_imp_if
    by (cases "d_AddressValid (ds ! i)")
      (simp_all only: put_merge if_True if_False join_lines_simps append_assoc append_Cons append_Nil)
qed

definition storage_comments :: "bool \<Rightarrow> NCV_STORAGE_CANDIDATE \<Rightarrow> nat \<Rightarrow> string list" where
  "storage_comments chosen s i =
     [''# Storage candidate '' @ dec_string (i + 1) @ (if chosen then '' - selected'' else ''''),
      ''# Manufacturer: '' @ comment_string (s_Manufacturer s) NCV_CANDIDATE_STRING_BYTES,
      ''# Model: '' @ comment_string (s_Description s) NCV_CANDIDATE_STRING_BYTES,
      ''# BBS index: '' @ dec_string (s_BbsIndex s),
      ''# Controller type: '' @ (if s_Usb s then ''USB'' else ''non-USB'')]"

definition storage_target :: "bool \<Rightarrow> NCV_STORAGE_CANDIDATE \<Rightarrow> string" where
  "storage_target chosen s =
     (if s_AddressValid s then (if chosen then '''' else ''# '') @ ''TargetControllerPci='' @ bdf_string (s_Address s)
      else ''# Invalid BBS PCI location: bus=0x'' @ hex_string (unat (s_RawBus s)) 8 @ '' device=0x''
        @ hex_string (unat (s_RawDevice s)) 8 @ '' function=0x'' @ hex_string (unat (s_RawFunction s)) 8)"

definition disk_text :: "NCV_STORAGE_CANDIDATE \<Rightarrow> string" where
  "disk_text s =
     (case NcvEncodeDiskDescription (Some (s_Description s)) NCV_ENCODED_DESCRIPTION_BYTES of
        Inr encoded \<Rightarrow> encoded | Inl _ \<Rightarrow> comment_string (s_Description s) NCV_CANDIDATE_STRING_BYTES)"

definition storage_lines :: "bool \<Rightarrow> NCV_STORAGE_CANDIDATE \<Rightarrow> nat \<Rightarrow> string list" where
  "storage_lines chosen s i = storage_comments chosen s i @
     [storage_target chosen s, (if chosen then '''' else ''# '') @ ''TargetBbsDescription='' @ disk_text s, '''']"

lemma FormatStorage_lines:
  "FormatStorage complete selected ss t i =
     foldl PutChar t (join_lines (storage_lines (complete \<and> i = selected) (ss ! i) i))"
proof -
  have c: "(\<not> complete \<or> i \<noteq> selected) \<longleftrightarrow> \<not> (complete \<and> i = selected)" by simp
  show ?thesis
    unfolding FormatStorage_def storage_lines_def storage_comments_def storage_target_def disk_text_def
      c not_imp_if
    by (cases "s_AddressValid (ss ! i)";
        cases "NcvEncodeDiskDescription (Some (s_Description (ss ! i))) NCV_ENCODED_DESCRIPTION_BYTES")
      (simp_all only: put_merge if_True if_False sum.case join_lines_simps append_assoc append_Cons append_Nil)
qed

lemma foldl_lines:
  assumes "\<And>t i. f t i = foldl PutChar t (join_lines (g i))"
  shows "foldl f t is = foldl PutChar t (join_lines (concat (map g is)))"
  by (induction "is" arbitrary: t) (simp_all add: assms)

definition intro_lines :: "bool \<Rightarrow> string list" where
  "intro_lines complete =
     ''# Generated by Native CSM VGA Selector 1.2 read-only discovery.'' #
     (if complete then
        [''# One display and one storage candidate are selected below.'',
         ''# To select another candidate, comment the active setting and'',
         ''# uncomment the desired setting.'', '''']
      else
        [''# This Probe-only result is not boot-ready because at least one'',
         ''# candidate category has no eligible automatic selection.'', ''''])"

definition mode_lines :: "string list" where
  "mode_lines = [''[Marker]'', ''Enabled=false'', '''', ''[Behavior]'', ''Probe=false'', '''', ''[Video]'']"

definition endpoint_lines :: "string list" where
  "endpoint_lines = [''[Endpoint]'', ''IoDecoding=On'', ''MemoryDecoding=On'', ''BusMastering=Ignore'', '''', ''[Boot]'']"

definition ini_lines ::
  "NCV_DISPLAY_CANDIDATE list \<Rightarrow> NCV_SIZE \<Rightarrow> NCV_STORAGE_CANDIDATE list \<Rightarrow> NCV_SIZE \<Rightarrow> string list" where
  "ini_lines ds selectedDisplay ss selectedStorage =
     (let complete = (selectedDisplay \<noteq> NCV_NO_SELECTION \<and> selectedStorage \<noteq> NCV_NO_SELECTION)
      in intro_lines complete @ mode_lines
         @ concat (map (\<lambda>i. display_lines (complete \<and> i = selectedDisplay) (ds ! i) i) [0..<length ds])
         @ endpoint_lines
         @ concat (map (\<lambda>i. storage_lines (complete \<and> i = selectedStorage) (ss ! i) i) [0..<length ss]))"

lemma NcvFormatCandidateIni_lines:
  assumes "ValidateSelections (Some ds) sd (Some ss) sst" and "capacity \<noteq> 0"
  shows "NcvFormatCandidateIni (Some ds) sd (Some ss) sst capacity =
    (if length (join_lines (ini_lines ds sd ss sst)) < capacity
     then Inr (join_lines (ini_lines ds sd ss sst)) else Inl (-2))"
proof -
  let ?c = "sd \<noteq> NCV_NO_SELECTION \<and> sst \<noteq> NCV_NO_SELECTION"
  let ?text = "join_lines (ini_lines ds sd ss sst)"
  let ?t = "foldl PutChar (InitText capacity) ?text"
  have "NcvFormatCandidateIni (Some ds) sd (Some ss) sst capacity =
      (if t_Failed ?t then Inl (-2) else Inr (t_Data ?t))"
    unfolding NcvFormatCandidateIni_def ini_lines_def intro_lines_def mode_lines_def endpoint_lines_def
    using assms
    by (cases ?c)
      (simp_all only: simp_thms if_True if_False option.sel foldl_lines [OF FormatDisplay_lines] foldl_lines [OF FormatStorage_lines]
         put_merge join_lines_simps append_assoc append_Cons append_Nil)
  then show ?thesis
    using assms(2) by (auto simp: write_InitText_failed write_InitText_data)
qed

section \<open>Every line is acceptable to the parser\<close>

lemma printable_hex_string [simp]: "list_all printable (hex_string v n)"
  by (auto simp: hex_string_def list_all_iff HexChars_nth_props)

lemma length_hex_string [simp]: "length (hex_string v n) = n"
  by (simp add: hex_string_def)

lemma DecDigits_printable: "list_all printable (DecDigits n v)"
proof (induction n arbitrary: v)
  case (Suc n)
  have "ord (char_of (48 + v mod 10)) = 48 + v mod 10"
    by (simp add: of_char_of take_bit_nat_eq_self)
  with Suc show ?case by (simp add: printable_def) linarith?
qed simp

lemma length_DecDigits: "length (DecDigits n v) \<le> n"
  by (induction n arbitrary: v) simp_all

lemma printable_dec_string [simp]: "list_all printable (dec_string v)"
  using DecDigits_printable by (simp add: dec_string_def printable_def list_all_iff)

lemma length_dec_string: "length (dec_string v) \<le> 24"
  using length_DecDigits [of 24 v] by (simp add: dec_string_def)

lemma printable_comment_string [simp]: "list_all printable (comment_string s n)"
  by (auto simp: comment_string_def list_all_iff printable_def)

lemma length_comment_string: "length (comment_string s n) \<le> n + 14"
  using length_takeWhile_le [of "\<lambda>c. c \<noteq> NUL" "take n s"] by (simp add: comment_string_def)

lemma printable_bdf_string [simp]: "list_all printable (bdf_string a)"
  by (simp add: bdf_string_def) (simp add: printable_def)

lemma length_bdf_string [simp]: "length (bdf_string a) = 12"
  by (simp add: bdf_string_def)

lemma disk_text_cases:
  "disk_text s = (if representable_str (cstr (s_Description s)) then encoded_string (cstr (s_Description s))
     else comment_string (s_Description s) NCV_CANDIDATE_STRING_BYTES)"
proof (cases "representable_str (cstr (s_Description s))")
  case True
  then have "2 * length (cstr (s_Description s)) + 2 < NCV_ENCODED_DESCRIPTION_BYTES"
    using representable_strD(2) [OF True] by (simp add: ncv_defs)
  with True show ?thesis by (simp add: disk_text_def NcvEncodeDiskDescription_eq)
next
  case False
  then show ?thesis by (simp add: disk_text_def NcvEncodeDiskDescription_def)
qed

lemma disk_text_ok: "list_all printable (disk_text s)" "length (disk_text s) \<le> 143"
proof -
  show "list_all printable (disk_text s)"
    by (simp add: disk_text_cases encoded_string_shape)
  show "length (disk_text s) \<le> 143"
    using length_encoded_string [of "cstr (s_Description s)"] representable_strD(2) [of "cstr (s_Description s)"]
      length_comment_string [of "s_Description s" NCV_CANDIDATE_STRING_BYTES]
    by (auto simp: disk_text_cases ncv_defs)
qed

lemma good_display_lines: "list_all good_line (display_lines chosen d i)"
  using length_dec_string [of "i + 1"]
  unfolding display_lines_def display_comments_def display_target_def
  by (simp only: list_all_append list.pred_inject simp_thms, intro conjI; simp add: good_line_def; simp add: printable_def)

lemma good_storage_lines: "list_all good_line (storage_lines chosen s i)"
  using length_dec_string [of "i + 1"] length_dec_string [of "s_BbsIndex s"] disk_text_ok [of s]
    length_comment_string [of "s_Description s" NCV_CANDIDATE_STRING_BYTES]
    length_comment_string [of "s_Manufacturer s" NCV_CANDIDATE_STRING_BYTES]
  unfolding storage_lines_def storage_comments_def storage_target_def
  by (simp only: list_all_append list.pred_inject simp_thms, intro conjI; simp add: good_line_def; simp add: printable_def ncv_defs)

lemma good_fixed_lines:
  "list_all good_line (intro_lines complete)" "list_all good_line mode_lines" "list_all good_line endpoint_lines"
  by (simp_all add: intro_lines_def mode_lines_def endpoint_lines_def good_line_def printable_def)

lemma list_all_concat: "list_all P (concat xss) \<longleftrightarrow> list_all (list_all P) xss"
  by (induction xss) simp_all

lemma good_ini_lines: "list_all good_line (ini_lines ds sd ss sst)"
proof -
  have "list_all (list_all good_line) (map (\<lambda>i. display_lines (c \<and> i = sd) (ds ! i) i) is)" for c "is"
    by (simp add: list_all_iff) (use good_display_lines in \<open>auto simp: list_all_iff\<close>)
  moreover have "list_all (list_all good_line) (map (\<lambda>i. storage_lines (c \<and> i = sst) (ss ! i) i) is)" for c "is"
    by (simp add: list_all_iff) (use good_storage_lines in \<open>auto simp: list_all_iff\<close>)
  ultimately show ?thesis
    by (simp only: ini_lines_def Let_def list_all_append list_all_concat good_fixed_lines simp_thms)
qed

section \<open>Reading the generated lines back\<close>

definition mode_config :: NCV_CONFIG_CORE where
  "mode_config = NcvConfigDefaults\<lparr>c_Marker := (c_Marker NcvConfigDefaults)\<lparr>m_Seen := 1\<rparr>,
     c_Probe := False, c_HasProbe := True\<rparr>"

definition with_display :: "NCV_CONFIG_CORE \<Rightarrow> NCV_PCI_ADDRESS \<Rightarrow> NCV_CONFIG_CORE" where
  "with_display c a = c\<lparr>c_TargetPci := a, c_HasTargetPci := True\<rparr>"

definition with_policies :: "NCV_CONFIG_CORE \<Rightarrow> NCV_CONFIG_CORE" where
  "with_policies c = c\<lparr>c_IoDecoding := NcvEndpointOn, c_HasIoDecoding := True,
     c_MemoryDecoding := NcvEndpointOn, c_HasMemoryDecoding := True,
     c_BusMastering := NcvEndpointIgnore, c_HasBusMastering := True\<rparr>"

definition with_disk :: "NCV_CONFIG_CORE \<Rightarrow> NCV_PCI_ADDRESS \<Rightarrow> string \<Rightarrow> NCV_CONFIG_CORE" where
  "with_disk c a description = c\<lparr>c_TargetControllerPci := a, c_HasTargetControllerPci := True,
     c_TargetBbsDescription := description, c_HasTargetBbsDescription := True\<rparr>"

definition at_section :: "NCV_CONFIG_SECTION list \<Rightarrow> NCV_CONFIG_CORE \<Rightarrow> parse_state" where
  "at_section seen c = \<lparr>p_Line = '''', p_Section = (if seen = [] then NcvSectionNone else last seen),
     p_SectionSeen = (\<lambda>s. s \<in> set seen), p_Config = c\<rparr>"

lemma at_section_fields [simp]:
  "p_Line (at_section seen c) = ''''" "p_Config (at_section seen c) = c"
  "p_SectionSeen (at_section seen c) = (\<lambda>s. s \<in> set seen)"
  "p_Section (at_section (seen @ [s]) c) = s"
  "(at_section seen c)\<lparr>p_Config := c'\<rparr> = at_section seen c'"
  by (simp_all add: at_section_def)

lemma InitParse_at_section: "InitParse c = at_section [] c"
  by (simp add: InitParse_def at_section_def)

lemma enter_section:
  assumes "SetSection l = Inr sec" and "sec \<notin> set seen" and "hd l = CHR ''[''" and "last l = CHR '']''" and "l \<noteq> ''''"
  shows "line_step (at_section seen c) l = Inr (at_section (seen @ [sec]) c)"
  using assms line_step_section [of l sec "at_section seen c"]
  by (simp add: IsSpace_def at_section_def) (simp add: fun_eq_iff)

lemma set_key:
  assumes "SetKeyValue c sec k v = Inr c'" and "plain_field k" and "plain_field v"
    and "hd k \<notin> {CHR ''#'', CHR '';'', CHR ''[''}" and "sec \<noteq> NcvSectionNone"
  shows "line_step (at_section (seen @ [sec]) c) (k @ CHR ''='' # v) = Inr (at_section (seen @ [sec]) c')"
  using assms line_step_assign [of k v "at_section (seen @ [sec]) c"] by simp

abbreviation "sec_mode \<equiv> [NcvSectionMarker, NcvSectionBehavior]"
abbreviation "sec_video \<equiv> sec_mode @ [NcvSectionVideo]"
abbreviation "sec_boot \<equiv> (sec_video @ [NcvSectionEndpoint]) @ [NcvSectionBoot]"

lemma set_marker_disabled:
  "SetKeyValue NcvConfigDefaults NcvSectionMarker ''Enabled'' ''false'' =
     Inr (NcvConfigDefaults\<lparr>c_Marker := (c_Marker NcvConfigDefaults)\<lparr>m_Seen := 1\<rparr>\<rparr>)"
  by (simp add: MarkerConfigSetValue_def MarkerKeyIndex_def MarkerKeys_def NcvConfigDefaults_def
      empty_marker_def MarkerNumberValue_def MarkerStoreNumber_def Let_def)

lemma parse_mode_lines: "efold line_step (at_section [] NcvConfigDefaults) mode_lines = Inr (at_section sec_video mode_config)"
proof -
  let ?m = "NcvConfigDefaults\<lparr>c_Marker := (c_Marker NcvConfigDefaults)\<lparr>m_Seen := 1\<rparr>\<rparr>"
  have 1: "line_step (at_section [] NcvConfigDefaults) ''[Marker]'' = Inr (at_section [NcvSectionMarker] NcvConfigDefaults)"
    using enter_section [of "''[Marker]''" NcvSectionMarker "[]"] by (simp add: SetSection_def)
  have 2: "line_step (at_section [NcvSectionMarker] NcvConfigDefaults) ''Enabled=false'' = Inr (at_section [NcvSectionMarker] ?m)"
    using set_key [OF set_marker_disabled, of "[]"] by (simp add: plain_field_def IsSpace_def)
  have 3: "line_step (at_section [NcvSectionMarker] ?m) ''[Behavior]'' = Inr (at_section sec_mode ?m)"
    using enter_section [of "''[Behavior]''" NcvSectionBehavior "[NcvSectionMarker]"] by (simp add: SetSection_def)
  have k: "SetKeyValue ?m NcvSectionBehavior ''Probe'' ''false'' = Inr mode_config"
    by (simp add: SetBehaviorKey_def mode_config_def NcvConfigDefaults_def)
  have 4: "line_step (at_section sec_mode ?m) ''Probe=false'' = Inr (at_section sec_mode mode_config)"
    using set_key [OF k, of "[NcvSectionMarker]"] by (simp add: plain_field_def IsSpace_def)
  have 5: "line_step (at_section sec_mode mode_config) ''[Video]'' = Inr (at_section sec_video mode_config)"
    using enter_section [of "''[Video]''" NcvSectionVideo sec_mode] by (simp add: SetSection_def)
  have e: "line_step (at_section seen c) '''' = Inr (at_section seen c)" for seen c
    by (rule line_step_comment) (simp_all add: blank_or_comment_def)
  show ?thesis
    unfolding mode_lines_def by (simp only: efold.simps ebind.simps 1 2 3 4 5 e)
qed

lemma parse_endpoint_lines:
  assumes "\<not> c_HasIoDecoding c" "\<not> c_HasMemoryDecoding c" "\<not> c_HasBusMastering c"
  shows "efold line_step (at_section sec_video c) endpoint_lines = Inr (at_section sec_boot (with_policies c))"
proof -
  let ?a = "c\<lparr>c_IoDecoding := NcvEndpointOn, c_HasIoDecoding := True\<rparr>"
  let ?b = "?a\<lparr>c_MemoryDecoding := NcvEndpointOn, c_HasMemoryDecoding := True\<rparr>"
  let ?e = "sec_video @ [NcvSectionEndpoint]"
  have 1: "line_step (at_section sec_video c) ''[Endpoint]'' = Inr (at_section ?e c)"
    using enter_section [of "''[Endpoint]''" NcvSectionEndpoint sec_video] by (simp add: SetSection_def)
  have k2: "SetKeyValue c NcvSectionEndpoint ''IoDecoding'' ''On'' = Inr ?a"
    using assms by (simp add: SetEndpointKey_def SetOnce_def ParsePolicy_def)
  have k3: "SetKeyValue ?a NcvSectionEndpoint ''MemoryDecoding'' ''On'' = Inr ?b"
    using assms by (simp add: SetEndpointKey_def SetOnce_def ParsePolicy_def)
  have k4: "SetKeyValue ?b NcvSectionEndpoint ''BusMastering'' ''Ignore'' = Inr (with_policies c)"
    using assms by (simp add: SetEndpointKey_def SetOnce_def ParsePolicy_def with_policies_def)
  have 2: "line_step (at_section ?e c) ''IoDecoding=On'' = Inr (at_section ?e ?a)"
    using set_key [OF k2, of sec_video] by (simp add: plain_field_def IsSpace_def)
  have 3: "line_step (at_section ?e ?a) ''MemoryDecoding=On'' = Inr (at_section ?e ?b)"
    using set_key [OF k3, of sec_video] by (simp add: plain_field_def IsSpace_def)
  have 4: "line_step (at_section ?e ?b) ''BusMastering=Ignore'' = Inr (at_section ?e (with_policies c))"
    using set_key [OF k4, of sec_video] by (simp add: plain_field_def IsSpace_def)
  have 5: "line_step (at_section ?e (with_policies c)) ''[Boot]'' = Inr (at_section sec_boot (with_policies c))"
    using enter_section [of "''[Boot]''" NcvSectionBoot ?e] by (simp add: SetSection_def)
  have e: "line_step (at_section seen c) '''' = Inr (at_section seen c)" for seen c
    by (rule line_step_comment) (simp_all add: blank_or_comment_def)
  show ?thesis
    unfolding endpoint_lines_def by (simp only: efold.simps ebind.simps 1 2 3 4 5 e)
qed

text \<open>A block of lines per index: every block but the chosen one is a comment.\<close>

lemma parse_chosen_block:
  assumes comments: "\<And>i st. i \<noteq> sel \<Longrightarrow> p_Line st = '''' \<Longrightarrow> efold line_step st (g i) = Inr st"
    and chosen: "sel < n \<Longrightarrow> efold line_step st (g sel) = Inr st'" and st: "p_Line st = ''''" "p_Line st' = ''''"
  shows "efold line_step st (concat (map g [0..<n])) = Inr (if sel < n then st' else st)"
proof -
  have skip: "efold line_step s (concat (map g is)) = Inr s" if "sel \<notin> set is" and "p_Line s = ''''" for s "is"
    using that comments by (induction "is") (auto simp: efold_append)
  show ?thesis
  proof (cases "sel < n")
    case True
    then have "[0..<n] = [0..<sel] @ sel # [Suc sel..<n]"
      by (metis le_add_diff_inverse less_imp_le upt_add_eq_append upt_conv_Cons zero_le)
    with True show ?thesis
      using chosen st skip [of "[0..<sel]" st] skip [of "[Suc sel..<n]" st'] by (simp add: efold_append)
  next
    case False
    then show ?thesis using skip [of "[0..<n]" st] st by simp
  qed
qed

lemma display_lines_comments:
  "list_all blank_or_comment (display_comments chosen d i)"
  "list_all blank_or_comment (storage_comments chosen s i)"
  by (simp_all add: display_comments_def storage_comments_def blank_or_comment_def)

lemma display_lines_other: "p_Line st = '''' \<Longrightarrow> efold line_step st (display_lines False d i) = Inr st"
  by (rule efold_comments)
    (simp_all add: display_lines_def display_lines_comments display_target_def blank_or_comment_def)

lemma storage_lines_other: "p_Line st = '''' \<Longrightarrow> efold line_step st (storage_lines False s i) = Inr st"
  by (rule efold_comments)
    (simp_all add: storage_lines_def display_lines_comments storage_target_def blank_or_comment_def)

lemma plain_field_bdf: "plain_field (bdf_string a)"
proof -
  have "hd (bdf_string a) = HexChars ! HexNibble (unat (Segment a)) 4 0"
    and "last (bdf_string a) = HexChars ! HexNibble (unat (Function a)) 1 0"
    by (simp_all add: bdf_string_def hex_string_unfold)
  moreover have "CHR ''='' \<notin> set (bdf_string a)"
    using HexChars_nth_props(3) [OF HexNibble_less]
    by (auto simp: bdf_string_def hex_string_def image_iff; metis)
  moreover have "NUL \<notin> set (bdf_string a)" by (rule printable_no_NUL) simp
  moreover have "bdf_string a \<noteq> ''''" using length_bdf_string [of a] by fastforce
  ultimately show ?thesis by (simp add: plain_field_def HexChars_nth_props)
qed

lemma parse_display_chosen:
  assumes "d_AddressValid d" and "address_wf (d_Address d)" and "\<not> c_HasTargetPci c"
  shows "efold line_step (at_section sec_video c) (display_lines True d i) =
    Inr (at_section sec_video (with_display c (d_Address d)))"
proof -
  have "SetKeyValue c NcvSectionVideo ''TargetPci'' (bdf_string (d_Address d)) = Inr (with_display c (d_Address d))"
    using assms by (simp add: SetVideoKey_def SetOnce_def ParsePciAddress_bdf with_display_def)
  from set_key [OF this, of sec_mode] have
    "line_step (at_section sec_video c) (display_target True d) = Inr (at_section sec_video (with_display c (d_Address d)))"
    using assms(1) plain_field_bdf by (simp add: plain_field_def IsSpace_def display_target_def)
  then show ?thesis
    unfolding display_lines_def
    by (simp add: efold_append efold_comments display_lines_comments line_step_comment blank_or_comment_def)
qed

lemma plain_field_encoded: "representable_str s \<Longrightarrow> plain_field (encoded_string s)"
proof -
  assume r: "representable_str s"
  note shape = encoded_string_shape [OF r]
  have "TAB \<notin> set (encoded_string s)" "NUL \<notin> set (encoded_string s)"
    using shape(4) by (auto simp: list_all_iff dest: printable_not_control)
  then show ?thesis
    using shape by (auto simp: plain_field_def IsSpace_def dest: hd_in_set last_in_set)
qed

lemma parse_storage_chosen:
  assumes "s_AddressValid s" and "address_wf (s_Address s)" and r: "representable_str (cstr (s_Description s))"
    and "\<not> c_HasTargetControllerPci c" and "\<not> c_HasTargetBbsDescription c"
  shows "efold line_step (at_section sec_boot c) (storage_lines True s i) =
    Inr (at_section sec_boot (with_disk c (s_Address s) (cstr (s_Description s))))"
proof -
  let ?a = "c\<lparr>c_TargetControllerPci := s_Address s, c_HasTargetControllerPci := True\<rparr>"
  let ?w = "with_disk c (s_Address s) (cstr (s_Description s))"
  have k1: "SetKeyValue c NcvSectionBoot ''TargetControllerPci'' (bdf_string (s_Address s)) = Inr ?a"
    using assms by (simp add: SetBootKey_def SetOnce_def ParsePciAddress_bdf)
  have k2: "SetKeyValue ?a NcvSectionBoot ''TargetBbsDescription'' (encoded_string (cstr (s_Description s))) = Inr ?w"
    using assms by (simp add: SetBootKey_def SetOnce_def decode_encoded_string with_disk_def)
  have 1: "line_step (at_section sec_boot c) (storage_target True s) = Inr (at_section sec_boot ?a)"
    using set_key [OF k1, of "sec_video @ [NcvSectionEndpoint]"] assms(1) plain_field_bdf
    by (simp add: plain_field_def IsSpace_def storage_target_def)
  have 2: "line_step (at_section sec_boot ?a) (''TargetBbsDescription='' @ disk_text s) = Inr (at_section sec_boot ?w)"
    using set_key [OF k2, of "sec_video @ [NcvSectionEndpoint]"] plain_field_encoded [OF r] r
    by (simp add: plain_field_def IsSpace_def disk_text_cases)
  show ?thesis
    unfolding storage_lines_def using 1 2
    by (simp add: efold_append efold_comments display_lines_comments line_step_comment blank_or_comment_def)
qed

section \<open>The generated file means what was selected\<close>

lemma intro_lines_comments: "list_all blank_or_comment (intro_lines complete)"
  by (simp add: intro_lines_def blank_or_comment_def)

lemma mode_config_fields [simp]:
  "\<not> c_HasTargetPci mode_config" "\<not> c_HasTargetControllerPci mode_config" "\<not> c_HasTargetBbsDescription mode_config"
  "\<not> c_HasIoDecoding mode_config" "\<not> c_HasMemoryDecoding mode_config" "\<not> c_HasBusMastering mode_config"
  "MarkerConfigIsValid (c_Marker mode_config)" "\<not> c_Probe mode_config" "c_HasProbe mode_config"
  by (simp_all add: mode_config_def NcvConfigDefaults_def MarkerConfigIsValid_def empty_marker_def)

lemma ValidateSelectionsD:
  assumes "ValidateSelections (Some ds) sd (Some ss) sst"
  shows "sd \<noteq> NCV_NO_SELECTION \<Longrightarrow> sd < length ds \<and> d_AddressValid (ds ! sd)"
    and "sst \<noteq> NCV_NO_SELECTION \<Longrightarrow> sst < length ss \<and> s_AddressValid (ss ! sst) \<and>
           representable_str (cstr (s_Description (ss ! sst)))"
  using assms by (auto simp: ValidateSelections_def Let_def split: if_splits)

lemma parse_ini_lines_complete:
  assumes v: "ValidateSelections (Some ds) sd (Some ss) sst" and c: "sd \<noteq> NCV_NO_SELECTION" "sst \<noteq> NCV_NO_SELECTION"
    and wf: "address_wf (d_Address (ds ! sd))" "address_wf (s_Address (ss ! sst))"
  shows "efold line_step (InitParse NcvConfigDefaults) (ini_lines ds sd ss sst) =
    Inr (at_section sec_boot (with_disk (with_policies (with_display mode_config (d_Address (ds ! sd))))
      (s_Address (ss ! sst)) (cstr (s_Description (ss ! sst)))))"
proof -
  let ?c1 = "with_display mode_config (d_Address (ds ! sd))"
  let ?c2 = "with_disk (with_policies ?c1) (s_Address (ss ! sst)) (cstr (s_Description (ss ! sst)))"
  note d = ValidateSelectionsD(1) [OF v c(1)] and s = ValidateSelectionsD(2) [OF v c(2)]
  have displays: "efold line_step (at_section sec_video mode_config)
      (concat (map (\<lambda>i. display_lines (i = sd) (ds ! i) i) [0..<length ds])) = Inr (at_section sec_video ?c1)"
    using d parse_display_chosen [OF _ wf(1), of mode_config sd]
      parse_chosen_block [where g = "\<lambda>i. display_lines (i = sd) (ds ! i) i" and sel = sd and n = "length ds"
        and st = "at_section sec_video mode_config" and st' = "at_section sec_video ?c1"]
    by (simp add: display_lines_other)
  have unset: "\<not> c_HasTargetControllerPci (with_policies ?c1)" "\<not> c_HasTargetBbsDescription (with_policies ?c1)"
    by (simp_all add: with_display_def with_policies_def)
  have storage: "efold line_step (at_section sec_boot (with_policies ?c1))
      (concat (map (\<lambda>i. storage_lines (i = sst) (ss ! i) i) [0..<length ss])) = Inr (at_section sec_boot ?c2)"
    using s parse_storage_chosen [OF _ wf(2) _ unset, of sst]
      parse_chosen_block [where g = "\<lambda>i. storage_lines (i = sst) (ss ! i) i" and sel = sst and n = "length ss"
        and st = "at_section sec_boot (with_policies ?c1)" and st' = "at_section sec_boot ?c2"]
    by (simp add: storage_lines_other)
  have pol: "efold line_step (at_section sec_video ?c1) endpoint_lines = Inr (at_section sec_boot (with_policies ?c1))"
    by (rule parse_endpoint_lines) (simp_all add: with_display_def)
  have intro: "efold line_step (at_section [] NcvConfigDefaults) (intro_lines True) = Inr (at_section [] NcvConfigDefaults)"
    by (rule efold_comments) (simp_all add: intro_lines_comments)
  show ?thesis
    unfolding ini_lines_def using c
    by (simp only: Let_def simp_thms InitParse_at_section efold_append ebind.simps intro parse_mode_lines
        displays pol storage)
qed

lemma parse_ini_lines_incomplete:
  assumes "sd = NCV_NO_SELECTION \<or> sst = NCV_NO_SELECTION"
  shows "efold line_step (InitParse NcvConfigDefaults) (ini_lines ds sd ss sst) =
    Inr (at_section sec_boot (with_policies mode_config))"
proof -
  have n: "(sd \<noteq> NCV_NO_SELECTION \<and> sst \<noteq> NCV_NO_SELECTION) = False" using assms by blast
  have displays: "efold line_step st (concat (map (\<lambda>i. display_lines False (ds ! i) i) is)) = Inr st"
    if "p_Line st = ''''" for st "is"
    using that by (induction "is") (simp_all add: efold_append display_lines_other)
  have storage: "efold line_step st (concat (map (\<lambda>i. storage_lines False (ss ! i) i) is)) = Inr st"
    if "p_Line st = ''''" for st "is"
    using that by (induction "is") (simp_all add: efold_append storage_lines_other)
  have pol: "efold line_step (at_section sec_video mode_config) endpoint_lines =
      Inr (at_section sec_boot (with_policies mode_config))"
    by (rule parse_endpoint_lines) simp_all
  have intro: "efold line_step (at_section [] NcvConfigDefaults) (intro_lines False) = Inr (at_section [] NcvConfigDefaults)"
    by (rule efold_comments) (simp_all add: intro_lines_comments)
  show ?thesis
    unfolding ini_lines_def
    by (simp only: n Let_def simp_thms InitParse_at_section efold_append ebind.simps intro parse_mode_lines
        displays pol storage at_section_fields)
qed

lemma ini_lines_nonempty: "ini_lines ds sd ss sst \<noteq> []"
  by (simp add: ini_lines_def Let_def intro_lines_def)

text \<open>
  The configuration that the generated file denotes: boot mode, the selected display, controller
  and disk, and the fixed endpoint policies.
\<close>

definition selected_config ::
  "NCV_DISPLAY_CANDIDATE list \<Rightarrow> NCV_SIZE \<Rightarrow> NCV_STORAGE_CANDIDATE list \<Rightarrow> NCV_SIZE \<Rightarrow> NCV_CONFIG_CORE" where
  "selected_config ds sd ss sst =
     (if sd \<noteq> NCV_NO_SELECTION \<and> sst \<noteq> NCV_NO_SELECTION
      then with_disk (with_policies (with_display mode_config (d_Address (ds ! sd))))
             (s_Address (ss ! sst)) (cstr (s_Description (ss ! sst)))
      else with_policies mode_config)"

lemma generated_ini_parses:
  assumes v: "ValidateSelections (Some ds) sd (Some ss) sst"
    and wf: "sd \<noteq> NCV_NO_SELECTION \<Longrightarrow> sst \<noteq> NCV_NO_SELECTION \<Longrightarrow> address_wf (d_Address (ds ! sd)) \<and>
      address_wf (s_Address (ss ! sst)) \<and> d_Address (ds ! sd) \<noteq> s_Address (ss ! sst)"
  shows "NcvParseConfigStrict (Some (join_lines (ini_lines ds sd ss sst))) (Some NcvConfigDefaults) =
    Inr (selected_config ds sd ss sst)"
proof (cases "sd \<noteq> NCV_NO_SELECTION \<and> sst \<noteq> NCV_NO_SELECTION")
  case True
  have m: "MarkerConfigIsValid (c_Marker (selected_config ds sd ss sst))"
    using mode_config_fields(7) True by (simp add: selected_config_def with_disk_def with_policies_def with_display_def)
  show ?thesis
    using True wf m parse_ini_lines_complete [OF v]
    by (simp add: NcvParseConfigStrict_lines [OF good_ini_lines ini_lines_nonempty])
      (simp add: selected_config_def with_disk_def with_policies_def with_display_def)
next
  case False
  then show ?thesis
    using parse_ini_lines_incomplete [of sd sst ds ss] mode_config_fields(7)
    by (simp add: NcvParseConfigStrict_lines [OF good_ini_lines ini_lines_nonempty] del: mode_config_fields(7))
      (auto simp: selected_config_def with_policies_def)
qed

section \<open>The buffer is large enough\<close>

definition NCV_CANDIDATE_INI_BYTES :: nat where [ncv_defs]: "NCV_CANDIDATE_INI_BYTES = 65536"

lemma length_join_bound:
  "list_all2 (\<lambda>l n. length l \<le> n) ls ns \<Longrightarrow> length (join_lines ls) \<le> sum_list (map (\<lambda>n. n + 2) ns)"
  by (induction rule: list_all2_induct) auto

lemma length_display_lines: "length (join_lines (display_lines chosen d i)) \<le> 508"
proof -
  have "list_all2 (\<lambda>l n. length l \<le> n) (display_lines chosen d i) [55, 45, 50, 68, 25, 27, 31, 34, 153, 0]"
    using length_dec_string [of "i + 1"]
    unfolding display_lines_def display_comments_def display_target_def
    by (simp only: append_Cons append_Nil list_all2_Cons list.rel_inject simp_thms, intro conjI; simp)
  from length_join_bound [OF this] show ?thesis by simp
qed

lemma length_storage_lines: "length (join_lines (storage_lines chosen s i)) \<le> 691"
proof -
  have "list_all2 (\<lambda>l n. length l \<le> n) (storage_lines chosen s i) [55, 159, 152, 37, 26, 80, 166, 0]"
    using length_dec_string [of "i + 1"] length_dec_string [of "s_BbsIndex s"] disk_text_ok(2) [of s]
      length_comment_string [of "s_Description s" NCV_CANDIDATE_STRING_BYTES]
      length_comment_string [of "s_Manufacturer s" NCV_CANDIDATE_STRING_BYTES]
    unfolding storage_lines_def storage_comments_def storage_target_def
    by (simp only: append_Cons append_Nil list_all2_Cons list.rel_inject simp_thms, intro conjI; simp add: ncv_defs)
  from length_join_bound [OF this] show ?thesis by simp
qed

lemma length_join_concat:
  assumes "\<And>i. length (join_lines (g i)) \<le> k"
  shows "length (join_lines (concat (map g is))) \<le> k * length is"
proof (induction "is")
  case (Cons i "is")
  then show ?case using assms [of i] by simp
qed simp

lemma length_ini_lines:
  assumes "length ds \<le> NCV_MAX_DISPLAY_CANDIDATES" and "length ss \<le> NCV_MAX_STORAGE_CANDIDATES"
  shows "length (join_lines (ini_lines ds sd ss sst)) < NCV_CANDIDATE_INI_BYTES"
proof -
  let ?c = "sd \<noteq> NCV_NO_SELECTION \<and> sst \<noteq> NCV_NO_SELECTION"
  have "length (join_lines (concat (map (\<lambda>i. display_lines (?c \<and> i = sd) (ds ! i) i) [0..<length ds]))) \<le> 508 * 32"
    using length_join_concat [of "\<lambda>i. display_lines (?c \<and> i = sd) (ds ! i) i" 508 "[0..<length ds]"] assms(1)
    by (simp add: length_display_lines NCV_MAX_DISPLAY_CANDIDATES_def)
  moreover have "length (join_lines (concat (map (\<lambda>i. storage_lines (?c \<and> i = sst) (ss ! i) i) [0..<length ss]))) \<le> 691 * 64"
    using length_join_concat [of "\<lambda>i. storage_lines (?c \<and> i = sst) (ss ! i) i" 691 "[0..<length ss]"] assms(2)
    by (simp add: length_storage_lines NCV_MAX_STORAGE_CANDIDATES_def)
  moreover have "length (join_lines (intro_lines ?c @ mode_lines)) \<le> 400" "length (join_lines endpoint_lines) \<le> 200"
    by (auto simp: intro_lines_def mode_lines_def endpoint_lines_def)
  ultimately show ?thesis
    unfolding ini_lines_def Let_def join_lines_simps(3) length_append NCV_CANDIDATE_INI_BYTES_def by linarith
qed

text \<open>
  The 64 KiB output buffer always suffices: whatever the candidates (at most 32 displays and 64
  storage rows, arbitrary and possibly unterminated text in every row), \<open>NcvFormatCandidateIni\<close>
  succeeds exactly when the selection arguments are consistent, and then the whole file was written
  and is shorter than the buffer.
\<close>

theorem NcvFormatCandidateIni_total:
  "(case NcvFormatCandidateIni displays sd storage sst NCV_CANDIDATE_INI_BYTES of
      Inl e \<Rightarrow> e = -1 \<and> \<not> ValidateSelections displays sd storage sst
    | Inr bytes \<Rightarrow> ValidateSelections displays sd storage sst \<and>
        bytes = join_lines (ini_lines (the displays) sd (the storage) sst) \<and>
        length bytes < NCV_CANDIDATE_INI_BYTES)"
proof (cases "ValidateSelections displays sd storage sst")
  case False
  then show ?thesis by (simp add: NcvFormatCandidateIni_def)
next
  case True
  then obtain ds ss where d: "displays = Some ds" "storage = Some ss"
    by (auto simp: ValidateSelections_def split: option.splits)
  then have "length ds \<le> NCV_MAX_DISPLAY_CANDIDATES" "length ss \<le> NCV_MAX_STORAGE_CANDIDATES"
    using True by (auto simp: ValidateSelections_def split: if_splits)
  from length_ini_lines [OF this] have "length (join_lines (ini_lines ds sd ss sst)) < NCV_CANDIDATE_INI_BYTES" .
  then show ?thesis
    using NcvFormatCandidateIni_lines [of ds sd ss sst NCV_CANDIDATE_INI_BYTES] True
    by (simp add: d NCV_CANDIDATE_INI_BYTES_def)
qed

end
