(* ===== verification/Efi_Base.thy ===== *)
theory Efi_Base
  imports Ncv_Prelude
begin

text \<open>
  The status codes of the firmware interface, as far as the sources name them. Every other
  value a firmware call may return is covered by two open-ended constructors: an error code or a
  warning code. \<open>EFI_ERROR\<close> is false exactly for success and for warnings.
\<close>

datatype EFI_STATUS =
    EFI_SUCCESS
  | EFI_INVALID_PARAMETER | EFI_UNSUPPORTED | EFI_BAD_BUFFER_SIZE | EFI_BUFFER_TOO_SMALL
  | EFI_NOT_READY | EFI_DEVICE_ERROR | EFI_OUT_OF_RESOURCES | EFI_VOLUME_FULL | EFI_NOT_FOUND
  | EFI_ACCESS_DENIED | EFI_NO_MAPPING | EFI_ALREADY_STARTED | EFI_ABORTED | EFI_PROTOCOL_ERROR
  | EFI_SECURITY_VIOLATION | EFI_CRC_ERROR | EFI_COMPROMISED_DATA
  | OtherError nat
  | Warning nat

fun EFI_ERROR :: "EFI_STATUS \<Rightarrow> bool" where
  "EFI_ERROR EFI_SUCCESS = False"
| "EFI_ERROR (Warning n) = False"
| "EFI_ERROR s = True"

lemma EFI_ERROR_imp_not_success: "EFI_ERROR s \<Longrightarrow> s \<noteq> EFI_SUCCESS"
  by auto

end
