(* ===== verification/Probe_Config.thy ===== *)
theory Probe_Config
  imports Candidate_Format Efi_Base
begin

text \<open>
  The decision logic of \<open>ProbeConfig.c\<close>: status translation, the import of the parsed
  configuration into the run-time structure, and \<open>VerifyGeneratedBytes\<close>, the check every
  generated or edited file has to pass before it is published. The headline theorem says that the
  file generated for a consistent selection always passes it.
\<close>

section \<open>Operations\<close>

fun CoreStatusToEfi :: "NCV_CONFIG_RESULT \<Rightarrow> EFI_STATUS" where
  "CoreStatusToEfi NcvConfigSuccess = EFI_SUCCESS"
| "CoreStatusToEfi NcvConfigInvalidParameter = EFI_INVALID_PARAMETER"
| "CoreStatusToEfi NcvConfigUnsupported = EFI_UNSUPPORTED"
| "CoreStatusToEfi NcvConfigCompromisedData = EFI_COMPROMISED_DATA"

text \<open>The copy loop; a \<open>CHAR16\<close> string is a list of 16-bit words.\<close>

fun CopyAsciiLoop :: "nat \<Rightarrow> nat \<Rightarrow> string \<Rightarrow> 16 word list \<Rightarrow> EFI_STATUS + 16 word list" where
  "CopyAsciiLoop chars index [] acc = Inr acc"
| "CopyAsciiLoop chars index (c # cs) acc =
     (if c = NUL then Inr acc
      else if index + 1 \<ge> chars \<or> ord c < 0x20 \<or> ord c > 0x7e then Inl EFI_COMPROMISED_DATA
      else CopyAsciiLoop chars (index + 1) cs (acc @ [of_nat (ord c)]))"

definition CopyAsciiToUnicode :: "nat \<Rightarrow> string option \<Rightarrow> EFI_STATUS + 16 word list" where
  "CopyAsciiToUnicode destinationChars source =
     (case source of None \<Rightarrow> Inl EFI_INVALID_PARAMETER
      | Some s \<Rightarrow> if destinationChars = 0 then Inl EFI_INVALID_PARAMETER
                   else CopyAsciiLoop destinationChars 0 s [])"

definition PROBE_CONFIG_TEXT_CHARS :: nat where [ncv_defs]: "PROBE_CONFIG_TEXT_CHARS = 65"

record PROBE_CONFIG =
  g_Present :: bool
  g_FirstRun :: bool
  g_Probe :: bool
  g_DiscoveryMode :: bool
  g_HasTargetPci :: bool
  g_HasTargetControllerPci :: bool
  g_HasExpectedVendor :: bool
  g_HasExpectedDevice :: bool
  g_HasExpectedSubsystemVendor :: bool
  g_HasExpectedSubsystemDevice :: bool
  g_HasLegacyOptionDescription :: bool
  g_HasExcludeDescription :: bool
  g_HasTargetBbsDescription :: bool
  g_HasVerboseLog :: bool
  g_HasAutoBoot :: bool
  g_HasRequireReferenceSnapshotMatch :: bool
  g_HasIoDecoding :: bool
  g_HasMemoryDecoding :: bool
  g_HasBusMastering :: bool
  g_VerboseLog :: bool
  g_AutoBoot :: bool
  g_RequireReferenceSnapshotMatch :: bool
  g_IoDecoding :: NCV_ENDPOINT_POLICY
  g_MemoryDecoding :: NCV_ENDPOINT_POLICY
  g_BusMastering :: NCV_ENDPOINT_POLICY
  g_TargetPci :: NCV_PCI_ADDRESS
  g_TargetControllerPci :: NCV_PCI_ADDRESS
  g_ExpectedVendor :: NCV_U16
  g_ExpectedDevice :: NCV_U16
  g_ExpectedSubsystemVendor :: NCV_U16
  g_ExpectedSubsystemDevice :: NCV_U16
  g_Name :: "16 word list"
  g_LegacyOptionDescription :: "16 word list"
  g_ExcludeDescription :: "16 word list"
  g_TargetBbsDescription :: "16 word list"

text \<open>The assignments before the string copies; the strings start out zeroed.\<close>

definition ImportFields :: "NCV_CONFIG_CORE \<Rightarrow> PROBE_CONFIG" where
  "ImportFields c = \<lparr>
     g_Present = c_HasProbe c, g_FirstRun = False, g_Probe = c_Probe c, g_DiscoveryMode = c_Probe c,
     g_HasTargetPci = c_HasTargetPci c, g_HasTargetControllerPci = c_HasTargetControllerPci c,
     g_HasExpectedVendor = c_HasExpectedVendor c, g_HasExpectedDevice = c_HasExpectedDevice c,
     g_HasExpectedSubsystemVendor = c_HasExpectedSubsystemVendor c,
     g_HasExpectedSubsystemDevice = c_HasExpectedSubsystemDevice c,
     g_HasLegacyOptionDescription = c_HasLegacyOptionDescription c,
     g_HasExcludeDescription = c_HasExcludeDescription c,
     g_HasTargetBbsDescription = c_HasTargetBbsDescription c,
     g_HasVerboseLog = c_HasVerboseLog c, g_HasAutoBoot = c_HasAutoBoot c,
     g_HasRequireReferenceSnapshotMatch = c_HasRequireReferenceSnapshotMatch c,
     g_HasIoDecoding = c_HasIoDecoding c, g_HasMemoryDecoding = c_HasMemoryDecoding c,
     g_HasBusMastering = c_HasBusMastering c, g_VerboseLog = c_VerboseLog c, g_AutoBoot = c_AutoBoot c,
     g_RequireReferenceSnapshotMatch = c_RequireReferenceSnapshotMatch c,
     g_IoDecoding = c_IoDecoding c, g_MemoryDecoding = c_MemoryDecoding c, g_BusMastering = c_BusMastering c,
     g_TargetPci = c_TargetPci c, g_TargetControllerPci = c_TargetControllerPci c,
     g_ExpectedVendor = c_ExpectedVendor c, g_ExpectedDevice = c_ExpectedDevice c,
     g_ExpectedSubsystemVendor = c_ExpectedSubsystemVendor c,
     g_ExpectedSubsystemDevice = c_ExpectedSubsystemDevice c,
     g_Name = [], g_LegacyOptionDescription = [], g_ExcludeDescription = [], g_TargetBbsDescription = []\<rparr>"

definition ProbeConfigImportCore :: "NCV_CONFIG_CORE option \<Rightarrow> EFI_STATUS + PROBE_CONFIG" where
  "ProbeConfigImportCore core =
     (case core of None \<Rightarrow> Inl EFI_INVALID_PARAMETER
      | Some c \<Rightarrow>
          ebind (if c_at (c_Name c) 0 \<noteq> NUL then CopyAsciiToUnicode PROBE_CONFIG_TEXT_CHARS (Some (c_Name c))
                 else Inr []) (\<lambda>name.
          ebind (CopyAsciiToUnicode PROBE_CONFIG_TEXT_CHARS (Some (c_LegacyOptionDescription c))) (\<lambda>legacy.
          ebind (CopyAsciiToUnicode PROBE_CONFIG_TEXT_CHARS (Some (c_ExcludeDescription c))) (\<lambda>exclude.
          ebind (if c_at (c_TargetBbsDescription c) 0 \<noteq> NUL
                 then CopyAsciiToUnicode PROBE_CONFIG_TEXT_CHARS (Some (c_TargetBbsDescription c))
                 else Inr []) (\<lambda>bbs.
            Inr ((ImportFields c)\<lparr>g_Name := name, g_LegacyOptionDescription := legacy,
                   g_ExcludeDescription := exclude, g_TargetBbsDescription := bbs\<rparr>))))))"

definition ProbeConfigAddressEqual :: "NCV_PCI_ADDRESS option \<Rightarrow> NCV_PCI_ADDRESS option \<Rightarrow> bool" where
  "ProbeConfigAddressEqual left right =
     (case (left, right) of
        (Some l, Some r) \<Rightarrow> Segment l = Segment r \<and> Bus l = Bus r \<and> Device l = Device r \<and> Function l = Function r
      | _ \<Rightarrow> False)"

definition ProbeConfigGetBootRequirements :: "PROBE_CONFIG option \<Rightarrow> NCV_BOOT_REQUIREMENTS" where
  "ProbeConfigGetBootRequirements config =
     (case config of
        None \<Rightarrow> \<lparr>r_Probe = False, r_HasTargetPci = False, r_HasTargetControllerPci = False,
                  r_HasIoDecoding = False, r_HasMemoryDecoding = False, r_HasBusMastering = False\<rparr>
      | Some g \<Rightarrow> \<lparr>r_Probe = g_Probe g, r_HasTargetPci = g_HasTargetPci g,
                  r_HasTargetControllerPci = g_HasTargetControllerPci g,
                  r_HasIoDecoding = g_HasIoDecoding g, r_HasMemoryDecoding = g_HasMemoryDecoding g,
                  r_HasBusMastering = g_HasBusMastering g\<rparr>)"

definition CoreAddressMatchesCandidate :: "NCV_PCI_ADDRESS option \<Rightarrow> NCV_PCI_ADDRESS option \<Rightarrow> bool" where
  "CoreAddressMatchesCandidate address candidate =
     (case (address, candidate) of
        (Some a, Some b) \<Rightarrow> Segment a = Segment b \<and> Bus a = Bus b \<and> Device a = Device b \<and> Function a = Function b
      | _ \<Rightarrow> False)"

definition VerifyGeneratedBytes ::
  "char list option \<Rightarrow> bool \<Rightarrow> NCV_DISPLAY_CANDIDATE option \<Rightarrow> NCV_STORAGE_CANDIDATE option \<Rightarrow> EFI_STATUS" where
  "VerifyGeneratedBytes bytes complete selectedDisplay selectedStorage =
     (if bytes = None \<or> bytes = Some [] then EFI_INVALID_PARAMETER
      else case NcvParseConfigStrict bytes (Some NcvConfigDefaults) of
             Inl result \<Rightarrow> CoreStatusToEfi result
           | Inr core \<Rightarrow>
               (let requirements = NcvConfigCoreGetBootRequirements (Some core)
                in if complete then
                     (case (selectedDisplay, selectedStorage) of
                        (Some d, Some s) \<Rightarrow>
                          if NcvBootRequirementsValidate (Some requirements) \<noteq> 0
                             \<or> \<not> c_HasTargetBbsDescription core
                             \<or> \<not> CoreAddressMatchesCandidate (Some (c_TargetPci core)) (Some (d_Address d))
                             \<or> \<not> CoreAddressMatchesCandidate (Some (c_TargetControllerPci core)) (Some (s_Address s))
                             \<or> cstr (c_TargetBbsDescription core) \<noteq> cstr (s_Description s)
                          then EFI_COMPROMISED_DATA else EFI_SUCCESS
                      | _ \<Rightarrow> EFI_COMPROMISED_DATA)
                   else if c_HasTargetPci core \<or> c_HasTargetControllerPci core \<or> c_HasTargetBbsDescription core
                   then EFI_COMPROMISED_DATA else EFI_SUCCESS))"

section \<open>Import keeps everything\<close>

lemma CopyAsciiLoop_ok:
  assumes "list_all printable s" and "index + length s < chars"
  shows "CopyAsciiLoop chars index s acc = Inr (acc @ map (\<lambda>c. of_nat (ord c)) s)"
  using assms
proof (induction s arbitrary: index acc)
  case (Cons c s)
  then have "c \<noteq> NUL" by (auto dest: printable_not_control)
  with Cons show ?case by (auto simp: printable_def)
qed simp

lemma CopyAsciiToUnicode_ok:
  "text_ok s \<Longrightarrow> CopyAsciiToUnicode PROBE_CONFIG_TEXT_CHARS (Some s) = Inr (map (\<lambda>c. of_nat (ord c)) s)"
  by (simp add: CopyAsciiToUnicode_def CopyAsciiLoop_ok text_ok_def ncv_defs)

lemma text_ok_first: "text_ok s \<Longrightarrow> c_at s 0 = NUL \<longleftrightarrow> s = ''''"
  by (rule c_at_0_NUL_iff) (auto simp: text_ok_def dest: printable_no_NUL)

text \<open>
  Import never fails on a parsed configuration: whatever bytes \<open>NcvParseConfigStrict\<close>
  accepts, \<open>ProbeConfigImportCore\<close> succeeds, keeps the four text fields character by character
  and leaves the boot requirements unchanged.
\<close>

theorem ProbeConfigImportCore_total:
  assumes "NcvParseConfigStrict (Some bs) (Some NcvConfigDefaults) = Inr c"
  shows "\<exists>g. ProbeConfigImportCore (Some c) = Inr g \<and>
    map unat (g_Name g) = map ord (c_Name c) \<and>
    map unat (g_LegacyOptionDescription g) = map ord (c_LegacyOptionDescription c) \<and>
    map unat (g_ExcludeDescription g) = map ord (c_ExcludeDescription c) \<and>
    map unat (g_TargetBbsDescription g) = map ord (c_TargetBbsDescription c) \<and>
    ProbeConfigGetBootRequirements (Some g) = NcvConfigCoreGetBootRequirements (Some c)"
proof -
  have wf: "config_wf c"
    using assigned_from_wf [OF NcvParseConfigStrict_assigned [OF assms] config_wf_NcvConfigDefaults] .
  let ?u = "map (\<lambda>c. of_nat (ord c) :: 16 word)"
  let ?g = "(ImportFields c)\<lparr>g_Name := ?u (c_Name c), g_LegacyOptionDescription := ?u (c_LegacyOptionDescription c),
      g_ExcludeDescription := ?u (c_ExcludeDescription c), g_TargetBbsDescription := ?u (c_TargetBbsDescription c)\<rparr>"
  have t: "text_ok (c_Name c)" "text_ok (c_LegacyOptionDescription c)" "text_ok (c_ExcludeDescription c)"
    "text_ok (c_TargetBbsDescription c)" using wf by (simp_all add: config_wf_def)
  have run: "ProbeConfigImportCore (Some c) = Inr ?g"
    using t by (auto simp: ProbeConfigImportCore_def text_ok_first CopyAsciiToUnicode_ok ImportFields_def)
  have "unat (of_nat (ord ch) :: 16 word) = ord ch" for ch :: char
    by (simp add: unat_of_nat mod_less [OF less_trans [OF ord_less_256]])
  then have "map unat (?u s) = map ord s" for s by simp
  with run show ?thesis
    by (intro exI [of _ ?g]) (simp add: ProbeConfigGetBootRequirements_def NcvConfigCoreGetBootRequirements_def ImportFields_def)
qed

theorem ProbeConfigImportCore_total_witness:
  "\<exists>g. ProbeConfigImportCore (Some (NcvConfigDefaults\<lparr>c_Probe := False, c_HasProbe := True\<rparr>)) = Inr g"
  using ProbeConfigImportCore_total [OF sample_parse] by blast

section \<open>Generated files verify\<close>

lemma selected_config_fields:
  assumes "sd \<noteq> NCV_NO_SELECTION" and "sst \<noteq> NCV_NO_SELECTION"
  shows "boot_ready (selected_config ds sd ss sst)" "c_HasTargetBbsDescription (selected_config ds sd ss sst)"
    "c_TargetPci (selected_config ds sd ss sst) = d_Address (ds ! sd)"
    "c_TargetControllerPci (selected_config ds sd ss sst) = s_Address (ss ! sst)"
    "c_TargetBbsDescription (selected_config ds sd ss sst) = cstr (s_Description (ss ! sst))"
  using assms
  by (simp_all add: selected_config_def boot_ready_def with_disk_def with_policies_def with_display_def)

lemma cstr_cstr [simp]: "cstr (cstr s) = cstr s"
  by (rule cstr_id) (rule cstr_no_NUL)

lemma VerifyGeneratedBytes_selected:
  assumes "NcvParseConfigStrict (Some bs) (Some NcvConfigDefaults) = Inr (selected_config ds sd ss sst)"
    and c: "complete \<longleftrightarrow> sd \<noteq> NCV_NO_SELECTION \<and> sst \<noteq> NCV_NO_SELECTION" and "bs \<noteq> []"
  shows "VerifyGeneratedBytes (Some bs) complete
    (if complete then Some (ds ! sd) else None) (if complete then Some (ss ! sst) else None) = EFI_SUCCESS"
proof (cases complete)
  case True
  with c have n: "sd \<noteq> NCV_NO_SELECTION" "sst \<noteq> NCV_NO_SELECTION" by simp_all
  note f = selected_config_fields [OF n, of ds ss]
  have "NcvBootRequirementsValidate (Some (NcvConfigCoreGetBootRequirements (Some (selected_config ds sd ss sst)))) = 0"
    using f(1) by (simp add: NcvBootRequirementsValidate_zero_iff NcvConfigCoreGetBootRequirements_def boot_ready_def)
  with True assms(1,3) f(2-5) show ?thesis
    by (simp add: VerifyGeneratedBytes_def Let_def CoreAddressMatchesCandidate_def)
next
  case False
  with c have "selected_config ds sd ss sst = with_policies mode_config" by (auto simp: selected_config_def)
  with False assms(1,3) show ?thesis
    by (simp add: VerifyGeneratedBytes_def Let_def with_policies_def)
qed

text \<open>
  C1. Generated configurations mean what was selected. For every consistent selection over at most
  32 displays and 64 storage rows, the bytes written by \<open>NcvFormatCandidateIni\<close> into the 64 KiB
  buffer pass \<open>VerifyGeneratedBytes\<close>: they parse strictly, are boot-ready and name exactly the
  selected display, controller and disk when both selections were made, and name no target
  otherwise. The hypotheses are that the two selected rows carry well-formed, different PCI addresses.
\<close>

theorem generated_ini_verifies:
  assumes v: "ValidateSelections (Some ds) sd (Some ss) sst"
    and complete: "complete \<longleftrightarrow> sd \<noteq> NCV_NO_SELECTION \<and> sst \<noteq> NCV_NO_SELECTION"
    and wf: "complete \<Longrightarrow> address_wf (d_Address (ds ! sd)) \<and> address_wf (s_Address (ss ! sst)) \<and>
      d_Address (ds ! sd) \<noteq> s_Address (ss ! sst)"
  shows "\<exists>bytes. NcvFormatCandidateIni (Some ds) sd (Some ss) sst NCV_CANDIDATE_INI_BYTES = Inr bytes \<and>
    VerifyGeneratedBytes (Some bytes) complete
      (if complete then Some (ds ! sd) else None) (if complete then Some (ss ! sst) else None) = EFI_SUCCESS \<and>
    (\<exists>c. NcvParseConfigStrict (Some bytes) (Some NcvConfigDefaults) = Inr c \<and> (complete \<longrightarrow> boot_ready c))"
proof -
  let ?b = "join_lines (ini_lines ds sd ss sst)"
  have "length ds \<le> NCV_MAX_DISPLAY_CANDIDATES" "length ss \<le> NCV_MAX_STORAGE_CANDIDATES"
    using v by (auto simp: ValidateSelections_def split: if_splits)
  from length_ini_lines [OF this] have fmt:
    "NcvFormatCandidateIni (Some ds) sd (Some ss) sst NCV_CANDIDATE_INI_BYTES = Inr ?b"
    using NcvFormatCandidateIni_lines [OF v, of NCV_CANDIDATE_INI_BYTES] by (simp add: NCV_CANDIDATE_INI_BYTES_def)
  have ne: "?b \<noteq> []" using ini_lines_nonempty [of ds sd ss sst] by (cases "ini_lines ds sd ss sst") auto
  have parse: "NcvParseConfigStrict (Some ?b) (Some NcvConfigDefaults) = Inr (selected_config ds sd ss sst)"
    using wf complete by (intro generated_ini_parses [OF v]) simp
  have "complete \<longrightarrow> boot_ready (selected_config ds sd ss sst)"
    using selected_config_fields(1) complete by blast
  with fmt parse VerifyGeneratedBytes_selected [OF parse complete ne] show ?thesis by blast
qed

theorem generated_ini_verifies_witness:
  "\<exists>bytes c. NcvFormatCandidateIni (Some [(sample_display 2 False)\<lparr>d_Selected := True, d_Eligible := True\<rparr>]) 0
       (Some [(sample_storage 0 5 False ''DISK A'')\<lparr>s_Selected := True, s_Eligible := True\<rparr>]) 0 NCV_CANDIDATE_INI_BYTES = Inr bytes
     \<and> NcvParseConfigStrict (Some bytes) (Some NcvConfigDefaults) = Inr c \<and> boot_ready c"
proof -
  let ?d = "(sample_display 2 False)\<lparr>d_Selected := True, d_Eligible := True\<rparr>"
  let ?s = "(sample_storage 0 5 False ''DISK A'')\<lparr>s_Selected := True, s_Eligible := True\<rparr>"
  have r: "representable_str (cstr (s_Description ?s))"
    by (simp add: sample_storage_def representable_str_def cstr_def printable_def ncv_defs)
  have v: "ValidateSelections (Some [?d]) 0 (Some [?s]) 0"
    using r by (simp add: ValidateSelections_def ncv_defs NCV_NO_SELECTION_def)
      (simp add: sample_display_def sample_storage_def cstr_def)
  have wf: "address_wf (d_Address ([?d] ! 0)) \<and> address_wf (s_Address ([?s] ! 0)) \<and> d_Address ([?d] ! 0) \<noteq> s_Address ([?s] ! 0)"
    by (simp add: sample_display_def sample_storage_def address_wf_def)
  show ?thesis
    using generated_ini_verifies [OF v, of True] wf by (auto simp: NCV_NO_SELECTION_def)
qed

end
