(* ===== verification/Config_Edit.thy ===== *)
theory Config_Edit
  imports Candidate_Format "HOL-Library.Multiset"
begin

text \<open>
  \<open>ConfigEdit.c\<close>: the bounded rewrite of the three target settings of an existing
  \<open>Config.ini\<close>. The model keeps the line scanner of \<open>NcvEditTargets\<close> (its own trimming and
  case-insensitive matching), the capacity checks before every copy, and the insertion of a missing
  disk description. The bit mask \<open>Seen\<close> is the set of its bits.
\<close>

section \<open>Operations\<close>

abbreviation NCV_EDIT_CAPACITY :: int where "NCV_EDIT_CAPACITY \<equiv> -1"
abbreviation NCV_EDIT_INVALID :: int where "NCV_EDIT_INVALID \<equiv> -2"

definition EqualIgnoringCase :: "string \<Rightarrow> string \<Rightarrow> bool" where
  "EqualIgnoringCase s expected \<longleftrightarrow> length s = length expected \<and>
     list_all (\<lambda>i. ToLower (s ! i) = ToLower (expected ! i)) [0..<length s]"

record edit_state =
  e_Output :: string
  e_Section :: nat
  e_Seen :: "nat set"

definition AppendDescription :: "nat \<Rightarrow> string \<Rightarrow> string \<Rightarrow> int + string" where
  "AppendDescription capacity output description =
     (let key = ''TargetBbsDescription='';
          prefix = (if length output \<noteq> 0 \<and> last output \<noteq> LF then 2 else 0)
      in if prefix + length key + length description + 2 \<ge> capacity - length output then Inl NCV_EDIT_CAPACITY
         else Inr (output @ (if prefix \<noteq> 0 then CRLF else '''') @ key @ description @ CRLF))"

text \<open>The pieces of the input that the outer loop handles: up to and including the next line feed.\<close>

function (sequential) RawLines :: "char list \<Rightarrow> char list list" where
  "RawLines [] = []"
| "RawLines s = (let n = length (takeWhile (\<lambda>c. c \<noteq> LF) s)
                 in take (n + 1) s # RawLines (drop (n + 1) s))"
  by pat_completeness auto
termination
  by (relation "measure length") auto

definition EditTrim :: "char list \<Rightarrow> string" where
  "EditTrim raw = rev (dropWhile (\<lambda>c. c = CR \<or> c = CHR '' '' \<or> c = TAB)
     (rev (dropWhile (\<lambda>c. c = CHR '' '' \<or> c = TAB) (takeWhile (\<lambda>c. c \<noteq> LF) raw))))"

definition EditKeyText :: "string \<Rightarrow> string" where
  "EditKeyText body = rev (dropWhile (\<lambda>c. c = CHR '' '' \<or> c = TAB) (rev (takeWhile (\<lambda>c. c \<noteq> CHR ''='') body)))"

definition IsSectionLine :: "string \<Rightarrow> bool" where
  "IsSectionLine body \<longleftrightarrow> body \<noteq> '''' \<and> hd body = CHR ''['' \<and> last body = CHR '']''"

text \<open>The key, value and bit chosen for a line, if it is one of the three target settings.\<close>

definition EditTarget :: "nat \<Rightarrow> string \<Rightarrow> string \<Rightarrow> string \<Rightarrow> string \<Rightarrow> (string \<times> string \<times> nat) option" where
  "EditTarget section gpu controller encodedDisk body =
     (if body \<noteq> '''' \<and> hd body \<noteq> CHR ''#'' \<and> hd body \<noteq> CHR '';'' \<and> CHR ''='' \<in> set body then
        (if section = 2 \<and> EqualIgnoringCase (EditKeyText body) ''TargetBbsDescription''
         then Some (''TargetBbsDescription'', encodedDisk, 4)
         else if section = 2 \<and> EqualIgnoringCase (EditKeyText body) ''TargetControllerPci''
         then Some (''TargetControllerPci'', controller, 2)
         else if section = 1 \<and> EqualIgnoringCase (EditKeyText body) ''TargetPci''
         then Some (''TargetPci'', gpu, 1)
         else None)
      else None)"

text \<open>Leaving the \<open>[Boot]\<close> section without having seen a description inserts one.\<close>

definition FlushDescription :: "nat \<Rightarrow> string \<Rightarrow> edit_state \<Rightarrow> int + edit_state" where
  "FlushDescription capacity encodedDisk st =
     (if e_Section st = 2 \<and> 4 \<notin> e_Seen st then
        ebind (AppendDescription capacity (e_Output st) encodedDisk)
          (\<lambda>output. Inr (st\<lparr>e_Output := output, e_Seen := insert 4 (e_Seen st)\<rparr>))
      else Inr st)"

definition CopyRaw :: "nat \<Rightarrow> edit_state \<Rightarrow> char list \<Rightarrow> int + edit_state" where
  "CopyRaw capacity st raw =
     (if length raw \<ge> capacity - length (e_Output st) then Inl (-1)
      else Inr (st\<lparr>e_Output := e_Output st @ raw\<rparr>))"

definition EditLine ::
  "string \<Rightarrow> string \<Rightarrow> string \<Rightarrow> nat \<Rightarrow> edit_state \<Rightarrow> char list \<Rightarrow> int + edit_state" where
  "EditLine gpu controller encodedDisk capacity st raw =
     (let body = EditTrim raw
      in if IsSectionLine body then
           ebind (FlushDescription capacity encodedDisk st) (\<lambda>st.
             CopyRaw capacity
               (st\<lparr>e_Section := (if EqualIgnoringCase (butlast (tl body)) ''Video'' then 1
                                 else if EqualIgnoringCase (butlast (tl body)) ''Boot'' then 2 else 0)\<rparr>) raw)
         else case EditTarget (e_Section st) gpu controller encodedDisk body of
                Some (key, v, flag) \<Rightarrow>
                  if flag \<in> e_Seen st then Inl NCV_EDIT_INVALID
                  else if length key + length v + 3 \<ge> capacity - length (e_Output st) then Inl (-1)
                  else Inr (st\<lparr>e_Seen := insert flag (e_Seen st),
                               e_Output := e_Output st @ key @ ''='' @ v @ CRLF\<rparr>)
              | None \<Rightarrow> CopyRaw capacity st raw)"

definition NcvEditTargets ::
  "char list option \<Rightarrow> string option \<Rightarrow> string option \<Rightarrow> char list option \<Rightarrow> nat \<Rightarrow> int + string" where
  "NcvEditTargets input gpu controller disk capacity =
     (case (input, gpu, controller, disk) of
        (Some input, Some gpu, Some controller, Some disk) \<Rightarrow>
          if capacity = 0 then Inl NCV_EDIT_CAPACITY
          else case NcvEncodeDiskDescription (Some disk) NCV_ENCODED_DESCRIPTION_BYTES of
                 Inl _ \<Rightarrow> Inl NCV_EDIT_INVALID
               | Inr encodedDisk \<Rightarrow>
                   ebind (efold (EditLine gpu controller encodedDisk capacity)
                            \<lparr>e_Output = '''', e_Section = 0, e_Seen = {}\<rparr> (RawLines input)) (\<lambda>st.
                   ebind (FlushDescription capacity encodedDisk st) (\<lambda>st.
                     if e_Seen st \<noteq> {1, 2, 4} then Inl NCV_EDIT_INVALID else Inr (e_Output st)))
      | _ \<Rightarrow> Inl NCV_EDIT_INVALID)"

section \<open>What an edit changes\<close>

text \<open>
  An edit is described by a list of pieces: a line of the input that is kept, a target line that
  is replaced, or an inserted disk description.
\<close>

datatype edit_piece = Keep "char list" | Replace "char list" string string | Insert string

fun piece_in :: "edit_piece \<Rightarrow> char list" where
  "piece_in (Keep raw) = raw"
| "piece_in (Replace raw key v) = raw"
| "piece_in (Insert v) = []"

fun piece_out :: "edit_piece \<Rightarrow> char list \<Rightarrow> char list" where
  "piece_out (Keep raw) before = raw"
| "piece_out (Replace raw key v) before = key @ ''='' @ v @ CRLF"
| "piece_out (Insert v) before =
     (if before \<noteq> [] \<and> last before \<noteq> LF then CRLF else []) @ ''TargetBbsDescription='' @ v @ CRLF"

definition pieces_out :: "char list \<Rightarrow> edit_piece list \<Rightarrow> char list" where
  "pieces_out before ps = foldl (\<lambda>out p. out @ piece_out p out) before ps"

fun piece_keys :: "edit_piece \<Rightarrow> string list" where
  "piece_keys (Keep raw) = []"
| "piece_keys (Replace raw key v) = [key]"
| "piece_keys (Insert v) = [''TargetBbsDescription'']"

text \<open>The pieces that are lines of the input, and what it means for lines to be those of a text.\<close>

fun is_line :: "edit_piece \<Rightarrow> bool" where
  "is_line (Insert v) = False"
| "is_line _ = True"

definition lines_in :: "edit_piece list \<Rightarrow> char list list" where
  "lines_in ps = map piece_in (filter is_line ps)"

definition lines_of :: "char list \<Rightarrow> char list list \<Rightarrow> bool" where
  "lines_of input raws \<longleftrightarrow> concat raws = input \<and> (\<forall>raw \<in> set raws. raw \<noteq> [] \<and> LF \<notin> set (butlast raw)) \<and>
     (\<forall>raw \<in> set (butlast raws). last raw = LF)"

text \<open>
  The section in force behind a line: 1 for \<open>[Video]\<close>, 2 for \<open>[Boot]\<close>. A line assigns a target when it is neither a heading nor a comment
  and has the target's key in the target's section.
\<close>

definition section_after :: "nat \<Rightarrow> char list \<Rightarrow> nat" where
  "section_after sec raw =
     (let body = EditTrim raw
      in if IsSectionLine body
         then if EqualIgnoringCase (butlast (tl body)) ''Video'' then 1 else if EqualIgnoringCase (butlast (tl body)) ''Boot'' then 2 else 0
         else sec)"

definition target_settings :: "string \<Rightarrow> string \<Rightarrow> string \<Rightarrow> (nat \<times> string \<times> string) list" where
  "target_settings gpu controller disk =
     [(1, ''TargetPci'', gpu), (2, ''TargetControllerPci'', controller), (2, ''TargetBbsDescription'', disk)]"

definition assigns :: "nat \<Rightarrow> char list \<Rightarrow> nat \<times> string \<times> string \<Rightarrow> bool" where
  "assigns sec raw setting \<longleftrightarrow> (case setting of (section, key, v) \<Rightarrow>
     (let body = EditTrim raw
      in section = sec \<and> body \<noteq> [] \<and> \<not> IsSectionLine body \<and> hd body \<noteq> CHR ''#'' \<and> hd body \<noteq> CHR '';'' \<and> CHR ''='' \<in> set body \<and>
         EqualIgnoringCase (EditKeyText body) key))"

fun before_heading :: "edit_piece list \<Rightarrow> bool" where
  "before_heading [] = True"
| "before_heading (Keep raw # ps) = IsSectionLine (EditTrim raw)"
| "before_heading _ = False"

text \<open>
  The pieces are those of an edit: a line is kept exactly when it assigns no target in its section, and is replaced by the setting it
  assigns otherwise; a description is inserted only at the end of a \<open>[Boot]\<close> section.
\<close>

fun edits_ok :: "(nat \<times> string \<times> string) list \<Rightarrow> string \<Rightarrow> nat \<Rightarrow> edit_piece list \<Rightarrow> bool" where
  "edits_ok settings disk sec [] \<longleftrightarrow> True"
| "edits_ok settings disk sec (Keep raw # ps) \<longleftrightarrow>
     \<not> list_ex (assigns sec raw) settings \<and> edits_ok settings disk (section_after sec raw) ps"
| "edits_ok settings disk sec (Replace raw key v # ps) \<longleftrightarrow>
     (sec, key, v) \<in> set settings \<and> assigns sec raw (sec, key, v) \<and> edits_ok settings disk sec ps"
| "edits_ok settings disk sec (Insert v # ps) \<longleftrightarrow> sec = 2 \<and> v = disk \<and> before_heading ps \<and> edits_ok settings disk sec ps"

fun section_end :: "nat \<Rightarrow> edit_piece list \<Rightarrow> nat" where
  "section_end sec [] = sec"
| "section_end sec (Keep raw # ps) = section_end (section_after sec raw) ps"
| "section_end sec (p # ps) = section_end sec ps"

definition flag_of :: "string \<Rightarrow> nat" where
  "flag_of key = (if key = ''TargetPci'' then 1 else if key = ''TargetControllerPci'' then 2 else 4)"

lemma pieces_out_simps [simp]:
  "pieces_out before [] = before"
  "pieces_out before (p # ps) = pieces_out (before @ piece_out p before) ps"
  "pieces_out before (ps @ qs) = pieces_out (pieces_out before ps) qs"
  by (simp_all add: pieces_out_def)

definition keys_of :: "edit_piece list \<Rightarrow> string list" where
  "keys_of ps = concat (map piece_keys ps)"

lemma keys_of_simps [simp]: "keys_of [] = []" "keys_of (p # ps) = piece_keys p @ keys_of ps"
  "keys_of (ps @ qs) = keys_of ps @ keys_of qs"
  by (simp_all add: keys_of_def)

lemma section_end_append [simp]: "section_end sec (ps @ qs) = section_end (section_end sec ps) qs"
proof (induction ps arbitrary: sec)
  case (Cons p ps)
  then show ?case by (cases p) simp_all
qed simp

lemma edits_ok_append:
  "ps = [] \<or> is_line (last ps) \<Longrightarrow>
     edits_ok settings disk sec (ps @ qs) \<longleftrightarrow> edits_ok settings disk sec ps \<and> edits_ok settings disk (section_end sec ps) qs"
proof (induction ps arbitrary: sec)
  case (Cons p ps)
  show ?case
  proof (cases p)
    case (Insert v)
    with Cons.prems have "ps \<noteq> []" by auto
    then obtain r rs where ps: "ps = r # rs" by (cases ps) auto
    have "before_heading (ps @ qs) = before_heading ps" unfolding ps by (cases r) simp_all
    with Cons ps show ?thesis by (simp add: Insert del: edits_ok.simps(2,3) append_Cons) simp
  qed (use Cons in \<open>auto split: if_splits\<close>)
qed simp

text \<open>The relation between the edit state and the lines and pieces handled so far.\<close>

definition edited :: "string \<Rightarrow> string \<Rightarrow> string \<Rightarrow> nat \<Rightarrow> char list list \<Rightarrow> edit_piece list \<Rightarrow> edit_state \<Rightarrow> bool" where
  "edited gpu controller disk capacity raws ps st \<longleftrightarrow>
     lines_in ps = raws \<and> pieces_out [] ps = e_Output st \<and> length (e_Output st) < capacity \<and>
     edits_ok (target_settings gpu controller disk) disk 0 ps \<and> section_end 0 ps = e_Section st \<and>
     e_Seen st = flag_of ` set (keys_of ps) \<and> distinct (map flag_of (keys_of ps))"

abbreviation closed :: "edit_piece list \<Rightarrow> bool" where
  "closed ps \<equiv> ps = [] \<or> is_line (last ps)"

lemma flag_of_values [simp]:
  "flag_of ''TargetPci'' = 1" "flag_of ''TargetControllerPci'' = 2" "flag_of ''TargetBbsDescription'' = 4"
  by (simp_all add: flag_of_def)

lemma CopyRaw_edited:
  assumes e: "edited gpu controller disk capacity raws ps st" and c: "closed ps" and ok: "\<not> list_ex (assigns (e_Section st) raw) (target_settings gpu controller disk)"
    and run: "CopyRaw capacity (st\<lparr>e_Section := section_after (e_Section st) raw\<rparr>) raw = Inr st'"
  shows "edited gpu controller disk capacity (raws @ [raw]) (ps @ [Keep raw]) st'"
proof -
  have "edits_ok (target_settings gpu controller disk) disk 0 (ps @ [Keep raw])" using e ok by (simp add: edits_ok_append [OF c] edited_def)
  with e run show ?thesis by (auto simp: edited_def CopyRaw_def lines_in_def split: if_splits)
qed

lemma FlushDescription_same: "\<not> (e_Section st = 2 \<and> 4 \<notin> e_Seen st) \<Longrightarrow> FlushDescription capacity disk st = Inr st' \<Longrightarrow> st' = st"
  by (auto simp: FlushDescription_def)

lemma FlushDescription_inserts:
  assumes e: "edited gpu controller disk capacity raws ps st" and c: "closed ps" and new: "e_Section st = 2" "4 \<notin> e_Seen st"
    and run: "FlushDescription capacity disk st = Inr st'"
  shows "edited gpu controller disk capacity raws (ps @ [Insert disk]) st' \<and> e_Section st' = e_Section st"
proof -
  have "edits_ok (target_settings gpu controller disk) disk 0 (ps @ [Insert disk])" using e new by (simp add: edits_ok_append [OF c] edited_def)
  with e new run show ?thesis
    by (auto simp: edited_def FlushDescription_def AppendDescription_def ebind_Inr_iff Let_def lines_in_def split: if_splits)
qed

lemma EditTarget_SomeD:
  assumes "EditTarget sec gpu controller disk (EditTrim raw) = Some (key, v, flag)" and "\<not> IsSectionLine (EditTrim raw)"
  shows "(sec, key, v) \<in> set (target_settings gpu controller disk)" and "assigns sec raw (sec, key, v)" and "flag = flag_of key"
  using assms by (auto simp: EditTarget_def target_settings_def assigns_def Let_def split: if_splits)

lemma EditTarget_None: "EditTarget sec gpu controller disk (EditTrim raw) = None \<Longrightarrow> \<not> list_ex (assigns sec raw) (target_settings gpu controller disk)"
  by (auto simp: EditTarget_def target_settings_def assigns_def Let_def split: if_splits)

lemma heading_assigns: "IsSectionLine (EditTrim raw) \<Longrightarrow> \<not> list_ex (assigns sec raw) settings"
  by (auto simp: list_ex_iff assigns_def Let_def split: prod.splits)

lemma Heading_edited:
  assumes e: "edited gpu controller disk capacity raws ps st" and c: "closed ps" and head: "IsSectionLine (EditTrim raw)"
    and flush: "FlushDescription capacity disk st = Inr st1" and copy: "CopyRaw capacity (st1\<lparr>e_Section := section_after (e_Section st1) raw\<rparr>) raw = Inr st'"
  shows "\<exists>qs. edited gpu controller disk capacity (raws @ [raw]) (ps @ qs) st' \<and> closed (ps @ qs)"
proof (cases "e_Section st = 2 \<and> 4 \<notin> e_Seen st")
  case True
  then have f: "edited gpu controller disk capacity raws (ps @ [Insert disk]) st1" "e_Section st1 = e_Section st"
    using FlushDescription_inserts [OF e c _ _ flush] by blast+
  have "edits_ok (target_settings gpu controller disk) disk 0 (ps @ [Insert disk, Keep raw])"
    using e True head heading_assigns [OF head] by (simp add: edits_ok_append [OF c] edited_def)
  moreover have "section_end 0 (ps @ [Insert disk]) = e_Section st1" using f(1) by (simp add: edited_def)
  ultimately have "edited gpu controller disk capacity (raws @ [raw]) (ps @ [Insert disk, Keep raw]) st'"
    using f(1) copy by (auto simp: edited_def CopyRaw_def lines_in_def split: if_splits)
  then show ?thesis by (intro exI [of _ "[Insert disk, Keep raw]"]) simp
next
  case False
  then have "st1 = st" by (rule FlushDescription_same [OF _ flush])
  with CopyRaw_edited [OF e c heading_assigns [OF head]] copy show ?thesis by (intro exI [of _ "[Keep raw]"]) simp
qed

lemma EditLine_edited:
  assumes e: "edited gpu controller disk capacity raws ps st" and c: "closed ps"
    and run: "EditLine gpu controller disk capacity st raw = Inr st'"
  shows "\<exists>qs. edited gpu controller disk capacity (raws @ [raw]) (ps @ qs) st' \<and> closed (ps @ qs)"
proof (cases "IsSectionLine (EditTrim raw)")
  case True
  then obtain st1 where f: "FlushDescription capacity disk st = Inr st1"
    and k: "CopyRaw capacity (st1\<lparr>e_Section := section_after (e_Section st1) raw\<rparr>) raw = Inr st'"
    using run by (auto simp: EditLine_def Let_def ebind_Inr_iff section_after_def)
  show ?thesis by (rule Heading_edited [OF e c True f k])
next
  case False
  then have s: "section_after (e_Section st) raw = e_Section st" by (simp add: section_after_def)
  show ?thesis
  proof (cases "EditTarget (e_Section st) gpu controller disk (EditTrim raw)")
    case None
    then have "CopyRaw capacity (st\<lparr>e_Section := section_after (e_Section st) raw\<rparr>) raw = Inr st'"
      using False run by (simp add: EditLine_def s)
    from CopyRaw_edited [OF e c EditTarget_None [OF None] this] show ?thesis by (intro exI [of _ "[Keep raw]"]) simp
  next
    case (Some t)
    obtain key v flag where t: "t = (key, v, flag)" by (cases t)
    note d = EditTarget_SomeD [OF Some [unfolded t] False]
    have "edits_ok (target_settings gpu controller disk) disk 0 (ps @ [Replace raw key v])"
      using e d by (simp add: edits_ok_append [OF c] edited_def)
    then have "edited gpu controller disk capacity (raws @ [raw]) (ps @ [Replace raw key v]) st'"
      using e run False Some d(3) by (auto simp: t EditLine_def edited_def Let_def lines_in_def split: if_splits)
    then show ?thesis by (intro exI [of _ "[Replace raw key v]"]) simp
  qed
qed

lemma efold_edited:
  "edited gpu controller disk capacity done' ps st \<Longrightarrow> closed ps \<Longrightarrow>
   efold (EditLine gpu controller disk capacity) st raws = Inr st' \<Longrightarrow>
   \<exists>qs. edited gpu controller disk capacity (done' @ raws) (ps @ qs) st' \<and> closed (ps @ qs)"
proof (induction raws arbitrary: done' ps st)
  case Nil
  then show ?case by (auto intro: exI [of _ "[]"])
next
  case (Cons raw raws)
  then obtain st1 where "EditLine gpu controller disk capacity st raw = Inr st1"
    and rest: "efold (EditLine gpu controller disk capacity) st1 raws = Inr st'"
    by (auto simp: ebind_Inr_iff)
  then obtain qs where q: "edited gpu controller disk capacity (done' @ [raw]) (ps @ qs) st1" "closed (ps @ qs)"
    using EditLine_edited [OF Cons.prems(1,2)] by blast
  from Cons.IH [OF q rest] show ?case by auto
qed

lemma take_line: "take (Suc (length (takeWhile (\<lambda>c. c \<noteq> LF) s))) s = takeWhile (\<lambda>c. c \<noteq> LF) s @ (if LF \<in> set s then [LF] else [])"
  by (induction s) auto

lemma drop_line: "LF \<notin> set s \<Longrightarrow> drop (Suc (length (takeWhile (\<lambda>c. c \<noteq> LF) s))) s = []"
  by (induction s) auto

lemma RawLines_Cons:
  assumes "s \<noteq> []"
  obtains raw rest where "RawLines s = raw # RawLines rest" "raw @ rest = s" "length rest < length s"
    "raw \<noteq> [] \<and> LF \<notin> set (butlast raw)" "rest \<noteq> [] \<longrightarrow> last raw = LF"
proof -
  let ?n = "Suc (length (takeWhile (\<lambda>c. c \<noteq> LF) s))"
  have "LF \<notin> set (takeWhile (\<lambda>c. c \<noteq> LF) s)" by (auto dest: set_takeWhileD)
  then have "take ?n s \<noteq> [] \<and> LF \<notin> set (butlast (take ?n s))" unfolding take_line using assms
    by (auto simp: butlast_append dest: in_set_butlastD) (cases s, auto split: if_splits)
  moreover have "last (take ?n s) = LF" if "drop ?n s \<noteq> []" using drop_line [of s] that unfolding take_line by auto
  moreover have "RawLines s = take ?n s # RawLines (drop ?n s)" by (cases s) (use assms in simp, simp only: RawLines.simps Let_def Suc_eq_plus1)
  ultimately show thesis using assms by (intro that [of "take ?n s" "drop ?n s"]) simp_all
qed

lemma RawLines_Nil_iff: "RawLines s = [] \<longleftrightarrow> s = []"
  by (cases s) (simp_all add: Let_def)

lemma RawLines_lines: "lines_of s (RawLines s)"
proof (induction "length s" arbitrary: s rule: less_induct)
  case less
  show ?case
  proof (cases "s = []")
    case False
    then obtain raw rest where r: "RawLines s = raw # RawLines rest" "raw @ rest = s" "length rest < length s"
      "raw \<noteq> [] \<and> LF \<notin> set (butlast raw)" "rest \<noteq> [] \<longrightarrow> last raw = LF" by (rule RawLines_Cons)
    from less [OF r(3)] r show ?thesis by (auto simp: lines_of_def RawLines_Nil_iff)
  qed (simp add: lines_of_def)
qed

lemma edits_ok_keys:
  "edits_ok (target_settings gpu controller disk) disk sec ps \<Longrightarrow>
   set (keys_of ps) \<subseteq> {''TargetPci'', ''TargetControllerPci'', ''TargetBbsDescription''}"
proof (induction ps arbitrary: sec)
  case (Cons p ps)
  then show ?case by (cases p) (auto simp: target_settings_def)
qed simp

lemma flag_cover:
  assumes "K \<subseteq> {''TargetPci'', ''TargetControllerPci'', ''TargetBbsDescription''}" and "flag_of ` K = {1, 2, 4}"
  shows "K = {''TargetPci'', ''TargetControllerPci'', ''TargetBbsDescription''}"
proof -
  let ?A = "{''TargetPci'', ''TargetControllerPci'', ''TargetBbsDescription''}"
  have "inj_on flag_of ?A" unfolding inj_on_def by (simp only: ball_simps flag_of_values) simp
  moreover have "flag_of ` K = flag_of ` ?A" using assms(2) by (simp only: image_insert image_empty flag_of_values)
  ultimately show ?thesis using assms(1) by (metis inj_on_image_eq_iff order_refl)
qed

text \<open>
  C20. An edit changes the targets and nothing else. When \<open>NcvEditTargets\<close> succeeds, the output
  (with its terminator) fits the buffer and is made line by line from the input: a line is copied unchanged exactly when it assigns none
  of the three target keys in its section, a line that does is replaced by the new assignment of that key, and a disk description is
  inserted, if at all, at the end of a \<open>[Boot]\<close> section; each of the three keys is written exactly once.
\<close>

theorem NcvEditTargets_preserves:
  assumes "NcvEditTargets (Some input) (Some gpu) (Some controller) (Some disk) capacity = Inr out"
  shows "\<exists>ps encoded. NcvEncodeDiskDescription (Some disk) NCV_ENCODED_DESCRIPTION_BYTES = Inr encoded \<and>
    lines_of input (lines_in ps) \<and> edits_ok (target_settings gpu controller encoded) encoded 0 ps \<and>
    pieces_out [] ps = out \<and> length out < capacity \<and>
    mset (keys_of ps) = {#''TargetPci'', ''TargetControllerPci'', ''TargetBbsDescription''#}"
proof -
  let ?st0 = "\<lparr>e_Output = '''', e_Section = 0, e_Seen = {}\<rparr>"
  obtain encoded st1 st2 where c: "capacity \<noteq> 0"
    and enc: "NcvEncodeDiskDescription (Some disk) NCV_ENCODED_DESCRIPTION_BYTES = Inr encoded"
    and run: "efold (EditLine gpu controller encoded capacity) ?st0 (RawLines input) = Inr st1"
    and flush: "FlushDescription capacity encoded st1 = Inr st2" and seen: "e_Seen st2 = {1, 2, 4}" and out: "out = e_Output st2"
    using assms by (auto simp: NcvEditTargets_def ebind_Inr_iff split: if_splits sum.splits)
  have "edited gpu controller encoded capacity [] [] ?st0" using c by (simp add: edited_def lines_in_def)
  from efold_edited [OF this _ run] obtain ps where p: "edited gpu controller encoded capacity (RawLines input) ps st1" "closed ps" by auto
  obtain qs where e: "edited gpu controller encoded capacity (RawLines input) qs st2"
  proof (cases "e_Section st1 = 2 \<and> 4 \<notin> e_Seen st1")
    case True
    with FlushDescription_inserts [OF p _ _ flush] that show thesis by blast
  next
    case False
    from FlushDescription_same [OF this flush] p(1) that show thesis by blast
  qed
  let ?ks = "keys_of qs"
  have mem: "set ?ks \<subseteq> {''TargetPci'', ''TargetControllerPci'', ''TargetBbsDescription''}"
    using e edits_ok_keys unfolding edited_def by blast
  have "distinct ?ks" using e distinct_map by (auto simp: edited_def)
  moreover have "set ?ks = {''TargetPci'', ''TargetControllerPci'', ''TargetBbsDescription''}"
    using flag_cover [OF mem] e seen by (simp add: edited_def)
  ultimately have "mset ?ks = {#''TargetPci'', ''TargetControllerPci'', ''TargetBbsDescription''#}"
    using set_eq_iff_mset_eq_distinct [of ?ks "[''TargetPci'', ''TargetControllerPci'', ''TargetBbsDescription'']"] by simp
  with e enc out RawLines_lines [of input] show ?thesis
    by (intro exI [of _ qs] exI [of _ encoded] conjI) (simp_all only: edited_def)
qed

text \<open>A small file with all three settings; used to show that the hypotheses can hold.\<close>

definition sample_ini :: "char list" where
  "sample_ini = ''[Video]'' @ [LF] @ ''TargetPci=0'' @ [LF] @ ''[Boot]'' @ [LF] @ ''TargetControllerPci=0'' @ [LF]"

lemma sample_edit:
  "NcvEditTargets (Some sample_ini) (Some ''g'') (Some ''c'') (Some ''d'') 200 =
     Inr (''[Video]'' @ [LF] @ ''TargetPci=g'' @ CRLF @ ''[Boot]'' @ [LF] @ ''TargetControllerPci=c'' @ CRLF
       @ ''TargetBbsDescription=d'' @ CRLF)"
proof -
  have enc: "NcvEncodeDiskDescription (Some ''d'') NCV_ENCODED_DESCRIPTION_BYTES = Inr ''d''"
    by (subst NcvEncodeDiskDescription_eq)
      (simp_all add: representable_str_def cstr_def printable_def ncv_defs encoded_string_def needs_quotes_def)
  have raws: "RawLines sample_ini = [''[Video]'' @ [LF], ''TargetPci=0'' @ [LF], ''[Boot]'' @ [LF], ''TargetControllerPci=0'' @ [LF]]"
    by (simp add: sample_ini_def)
  show ?thesis
    unfolding NcvEditTargets_def using enc
    by (simp add: raws EditLine_def EditTrim_def IsSectionLine_def FlushDescription_def CopyRaw_def EqualIgnoringCase_def
        ToLower_def EditTarget_def EditKeyText_def AppendDescription_def upt_rec insert_commute)
qed

theorem NcvEditTargets_preserves_witness:
  "\<exists>out ps. NcvEditTargets (Some sample_ini) (Some ''g'') (Some ''c'') (Some ''d'') 200 = Inr out \<and>
     lines_of sample_ini (lines_in ps) \<and> pieces_out [] ps = out"
proof -
  from NcvEditTargets_preserves [OF sample_edit] obtain ps where
    "lines_of sample_ini (lines_in ps)" and "pieces_out [] ps = ''[Video]'' @ [LF] @ ''TargetPci=g'' @ CRLF @ ''[Boot]'' @ [LF]
       @ ''TargetControllerPci=c'' @ CRLF @ ''TargetBbsDescription=d'' @ CRLF"
    by (elim exE conjE)
  with sample_edit show ?thesis by (intro exI conjI)
qed

end
