(* ===== verification/Option_Rom.thy ===== *)
theory Option_Rom
  imports Efi_Base
begin

text \<open>
  \<open>OptionRom.c\<close>: the bounded walk over an exposed PCI option ROM. A ROM is the list of its
  bytes; \<open>UINTN\<close> offsets are natural numbers with the code's overflow guards against
  \<open>MAX_UINTN\<close> written out. The structures read from the ROM have the little-endian layout of the
  PCI Firmware Specification; their sizes and the position of \<open>PcirOffset\<close> are the ones the
  source asserts. Log output is not modelled.
\<close>

section \<open>Layout\<close>

definition OPTION_ROM_BLOCK_SIZE :: nat where [ncv_defs]: "OPTION_ROM_BLOCK_SIZE = 512"
definition OPTION_ROM_CONFIG_HEADER_SIZE :: nat where [ncv_defs]: "OPTION_ROM_CONFIG_HEADER_SIZE = 42"
definition OPTION_ROM_CONFIG_NAME_SIZE :: nat where [ncv_defs]: "OPTION_ROM_CONFIG_NAME_SIZE = 40"
definition PCI_EXPANSION_ROM_HEADER_SIGNATURE :: nat where [ncv_defs]: "PCI_EXPANSION_ROM_HEADER_SIGNATURE = 0xaa55"
definition PCI_DATA_STRUCTURE_SIGNATURE :: nat where [ncv_defs]: "PCI_DATA_STRUCTURE_SIGNATURE = 0x52494350"
definition PCI_CODE_TYPE_PCAT_IMAGE :: nat where [ncv_defs]: "PCI_CODE_TYPE_PCAT_IMAGE = 0"
definition PCI_CODE_TYPE_EFI_IMAGE :: nat where [ncv_defs]: "PCI_CODE_TYPE_EFI_IMAGE = 3"

type_synonym rom = "NCV_U8 list"

text \<open>Little-endian fields of a byte block that was read completely.\<close>

definition field8 :: "rom \<Rightarrow> nat \<Rightarrow> nat" where "field8 bs i = unat (bs ! i)"
definition field16 :: "rom \<Rightarrow> nat \<Rightarrow> nat" where "field16 bs i = unat (bs ! i) + 256 * unat (bs ! (i + 1))"
definition field32 :: "rom \<Rightarrow> nat \<Rightarrow> nat" where "field32 bs i = field16 bs i + 65536 * field16 bs (i + 2)"

record PCI_EXPANSION_ROM_HEADER =
  h_Signature :: nat
  h_PcirOffset :: nat

record PCI_DATA_STRUCTURE =
  p_Signature :: nat
  p_VendorId :: nat
  p_DeviceId :: nat
  p_Length :: nat
  p_Revision :: nat
  p_ImageLength :: nat
  p_CodeRevision :: nat
  p_CodeType :: nat
  p_Indicator :: nat

record PCI_3_0_DATA_STRUCTURE =
  q_DeviceId :: nat
  q_DeviceListOffset :: nat
  q_Length :: nat
  q_ImageLength :: nat
  q_MaxRuntimeImageLength :: nat
  q_ConfigUtilityCodeHeaderOffset :: nat
  q_DMTFCLPEntryPointOffset :: nat

definition decode_header :: "rom \<Rightarrow> PCI_EXPANSION_ROM_HEADER" where
  "decode_header bs = \<lparr>h_Signature = field16 bs 0, h_PcirOffset = field16 bs 0x18\<rparr>"

definition decode_pcir22 :: "rom \<Rightarrow> PCI_DATA_STRUCTURE" where
  "decode_pcir22 bs = \<lparr>p_Signature = field32 bs 0, p_VendorId = field16 bs 4, p_DeviceId = field16 bs 6,
     p_Length = field16 bs 0xA, p_Revision = field8 bs 0xC, p_ImageLength = field16 bs 0x10,
     p_CodeRevision = field16 bs 0x12, p_CodeType = field8 bs 0x14, p_Indicator = field8 bs 0x15\<rparr>"

definition decode_pcir30 :: "rom \<Rightarrow> PCI_3_0_DATA_STRUCTURE" where
  "decode_pcir30 bs = \<lparr>q_DeviceId = field16 bs 6, q_DeviceListOffset = field16 bs 8, q_Length = field16 bs 0xA,
     q_ImageLength = field16 bs 0x10, q_MaxRuntimeImageLength = field16 bs 0x16,
     q_ConfigUtilityCodeHeaderOffset = field16 bs 0x18, q_DMTFCLPEntryPointOffset = field16 bs 0x1A\<rparr>"

record OPTION_ROM_DEVICE_MATCH =
  DirectMatch :: bool
  ListMatch :: bool
  ListCount :: nat

record OPTION_ROM_VALIDATION =
  ImageCount :: nat
  MatchingLegacyCandidateCount :: nat
  MatchingLegacyImageOffset :: nat
  MatchingLegacyImageSize :: nat
  MatchingLegacyPcirOffset :: nat
  MatchingLegacyCodeRevision :: nat
  MatchingLegacyPcirRevision :: nat
  FinalIndicatorSeen :: bool
  MatchingLegacyImageFound :: bool
  MatchingUefiImageSeen :: bool

section \<open>Bounded access\<close>

definition RangeIsInside :: "nat \<Rightarrow> nat \<Rightarrow> nat \<Rightarrow> bool" where
  "RangeIsInside containerSize offset len \<longleftrightarrow> offset \<le> containerSize \<and> len \<le> containerSize - offset"

definition ReadRomBytes :: "rom \<Rightarrow> nat \<Rightarrow> nat \<Rightarrow> rom option" where
  "ReadRomBytes rom offset len =
     (if len = 0 \<or> \<not> RangeIsInside (length rom) offset len then None
      else Some (take len (drop offset rom)))"

definition ComputeChecksum :: "rom \<Rightarrow> nat \<Rightarrow> nat \<Rightarrow> NCV_U8 option" where
  "ComputeChecksum rom offset len =
     (if len = 0 \<or> \<not> RangeIsInside (length rom) offset len then None
      else Some (foldl (\<lambda>s i. s + rom ! (offset + i)) 0 [0..<len]))"

section \<open>PCI 3.0 structures\<close>

text \<open>The scan of the device list; the first argument counts the entries still allowed.\<close>

fun DeviceListLoop ::
  "nat \<Rightarrow> rom \<Rightarrow> nat \<Rightarrow> nat \<Rightarrow> nat \<Rightarrow> OPTION_ROM_DEVICE_MATCH \<Rightarrow> EFI_STATUS + OPTION_ROM_DEVICE_MATCH" where
  "DeviceListLoop 0 rom absoluteOffset expected index match = Inl EFI_COMPROMISED_DATA"
| "DeviceListLoop (Suc n) rom absoluteOffset expected index match =
     (if index > (MAX_UINTN - absoluteOffset) div 2 then Inl EFI_COMPROMISED_DATA
      else case ReadRomBytes rom (absoluteOffset + index * 2) 2 of
             None \<Rightarrow> Inl EFI_COMPROMISED_DATA
           | Some bs \<Rightarrow>
               (let deviceId = field16 bs 0
                in if deviceId = 0 then Inr match
                   else DeviceListLoop n rom absoluteOffset expected (index + 1)
                          (match\<lparr>ListCount := ListCount match + 1,
                                 ListMatch := ListMatch match \<or> deviceId = expected\<rparr>)))"

definition ParsePci30DeviceList ::
  "rom \<Rightarrow> nat \<Rightarrow> nat \<Rightarrow> nat \<Rightarrow> PCI_3_0_DATA_STRUCTURE \<Rightarrow> nat \<Rightarrow> EFI_STATUS + OPTION_ROM_DEVICE_MATCH" where
  "ParsePci30DeviceList rom imageOffset imageSize pcirOffset pcir expected =
     (let match = \<lparr>DirectMatch = (q_DeviceId pcir = expected), ListMatch = False, ListCount = 0\<rparr>
      in if q_DeviceListOffset pcir = 0 then Inr match
         else let relativeOffset = q_DeviceListOffset pcir
              in if relativeOffset mod 2 \<noteq> 0 \<or> relativeOffset < q_Length pcir
                    \<or> pcirOffset > MAX_UINTN - relativeOffset then Inl EFI_COMPROMISED_DATA
                 else let absoluteOffset = pcirOffset + relativeOffset
                      in if imageOffset > MAX_UINTN - imageSize \<or> absoluteOffset < imageOffset
                            \<or> \<not> RangeIsInside (length rom) absoluteOffset 2 then Inl EFI_COMPROMISED_DATA
                         else let imageEnd = imageOffset + imageSize
                              in if absoluteOffset > imageEnd \<or> 2 > imageEnd - absoluteOffset
                                 then Inl EFI_COMPROMISED_DATA
                                 else DeviceListLoop ((imageEnd - absoluteOffset) div 2) rom absoluteOffset
                                        expected 0 match)"

text \<open>The identifier scan: True when a terminator is reached before any non-printable byte.\<close>

fun ConfigNameLoop :: "nat \<Rightarrow> rom \<Rightarrow> nat \<Rightarrow> bool" where
  "ConfigNameLoop 0 header index = False"
| "ConfigNameLoop (Suc n) header index =
     (let character = field8 header (1 + index)
      in if character = 0 then True
         else if character < 0x20 \<or> character > 0x7E then False
         else ConfigNameLoop n header (index + 1))"

definition ValidatePci30Metadata ::
  "rom \<Rightarrow> nat \<Rightarrow> nat \<Rightarrow> PCI_3_0_DATA_STRUCTURE \<Rightarrow> EFI_STATUS + unit" where
  "ValidatePci30Metadata rom imageOffset imageSize pcir =
     ebind (guard_err (\<not> q_MaxRuntimeImageLength pcir > q_ImageLength pcir) EFI_COMPROMISED_DATA) (\<lambda>_.
     ebind (if q_ConfigUtilityCodeHeaderOffset pcir \<noteq> 0 then
              let configOffset = q_ConfigUtilityCodeHeaderOffset pcir
              in if \<not> RangeIsInside imageSize configOffset OPTION_ROM_CONFIG_HEADER_SIZE
                    \<or> imageOffset > MAX_UINTN - configOffset then Inl EFI_COMPROMISED_DATA
                 else case ReadRomBytes rom (imageOffset + configOffset) OPTION_ROM_CONFIG_HEADER_SIZE of
                        None \<Rightarrow> Inl EFI_COMPROMISED_DATA
                      | Some header \<Rightarrow>
                          (let configBlocks = field8 header 0; configRevision = field8 header 41
                           in if configBlocks = 0 then Inl EFI_COMPROMISED_DATA
                              else if configRevision \<noteq> 1 then Inl EFI_COMPROMISED_DATA
                              else if \<not> RangeIsInside imageSize configOffset (configBlocks * OPTION_ROM_BLOCK_SIZE)
                              then Inl EFI_COMPROMISED_DATA
                              else guard_err (ConfigNameLoop OPTION_ROM_CONFIG_NAME_SIZE header 0) EFI_COMPROMISED_DATA)
            else Inr ()) (\<lambda>_.
       guard_err (\<not> (q_DMTFCLPEntryPointOffset pcir \<noteq> 0
                     \<and> \<not> RangeIsInside imageSize (q_DMTFCLPEntryPointOffset pcir) 1)) EFI_COMPROMISED_DATA))"

section \<open>Legacy images\<close>

text \<open>The checksum verdict and the size of the legacy initialization region.\<close>

definition LogAndValidateLegacyHeader :: "rom \<Rightarrow> nat \<Rightarrow> nat \<Rightarrow> EFI_STATUS + bool \<times> nat" where
  "LogAndValidateLegacyHeader rom imageOffset imageSize =
     (if imageOffset > MAX_UINTN - 2 then Inl EFI_COMPROMISED_DATA
      else case ReadRomBytes rom (imageOffset + 2) 1 of
             None \<Rightarrow> Inl EFI_COMPROMISED_DATA
           | Some bs \<Rightarrow>
               (let size512 = field8 bs 0
                in if size512 = 0 then Inl EFI_COMPROMISED_DATA
                   else let legacySize = size512 * OPTION_ROM_BLOCK_SIZE
                        in if legacySize > imageSize \<or> \<not> RangeIsInside (length rom) imageOffset legacySize
                           then Inl EFI_COMPROMISED_DATA
                           else case ComputeChecksum rom imageOffset legacySize of
                                  None \<Rightarrow> Inl EFI_COMPROMISED_DATA
                                | Some c \<Rightarrow> Inr (c = 0, legacySize)))"

definition ValidatePcatLayout ::
  "nat \<Rightarrow> nat \<Rightarrow> nat \<Rightarrow> PCI_3_0_DATA_STRUCTURE option \<Rightarrow> EFI_STATUS + unit" where
  "ValidatePcatLayout relativePcirOffset pcirLength legacySize pcir30 =
     (if \<not> RangeIsInside legacySize relativePcirOffset pcirLength then Inl EFI_COMPROMISED_DATA
      else case pcir30 of
             None \<Rightarrow> Inr ()
           | Some q \<Rightarrow>
               (let maximumRuntimeSize = q_MaxRuntimeImageLength q * OPTION_ROM_BLOCK_SIZE
                in if maximumRuntimeSize > legacySize then Inl EFI_COMPROMISED_DATA
                   else if maximumRuntimeSize \<noteq> 0
                           \<and> \<not> RangeIsInside maximumRuntimeSize relativePcirOffset pcirLength
                   then Inl EFI_COMPROMISED_DATA else Inr ()))"

section \<open>The image walk\<close>

record rom_walk =
  w_Validation :: OPTION_ROM_VALIDATION
  w_ImageOffset :: nat
  w_SawMatchingLegacy :: bool
  w_SawMatchingLegacyChecksumFailure :: bool

text \<open>
  The checks of one iteration up to the PCIR length: the relative PCIR offset, the base PCIR and
  the image size.
\<close>

definition ReadImage :: "rom \<Rightarrow> nat \<Rightarrow> EFI_STATUS + nat \<times> PCI_DATA_STRUCTURE \<times> nat" where
  "ReadImage rom imageOffset =
     (case ReadRomBytes rom imageOffset 0x1A of None \<Rightarrow> Inl EFI_COMPROMISED_DATA
      | Some hb \<Rightarrow>
          (let header = decode_header hb; relative = h_PcirOffset header
           in if h_Signature header \<noteq> PCI_EXPANSION_ROM_HEADER_SIGNATURE then Inl EFI_COMPROMISED_DATA
              else if relative < 0x1A \<or> relative mod 4 \<noteq> 0 \<or> imageOffset > MAX_UINTN - relative
              then Inl EFI_COMPROMISED_DATA
              else case ReadRomBytes rom (imageOffset + relative) 0x18 of None \<Rightarrow> Inl EFI_COMPROMISED_DATA
                   | Some pb \<Rightarrow>
                       (let pcir = decode_pcir22 pb; imageSize = p_ImageLength pcir * OPTION_ROM_BLOCK_SIZE
                        in if p_Signature pcir \<noteq> PCI_DATA_STRUCTURE_SIGNATURE then Inl EFI_COMPROMISED_DATA
                           else if p_ImageLength pcir = 0 then Inl EFI_COMPROMISED_DATA
                           else if \<not> RangeIsInside (length rom) imageOffset imageSize then Inl EFI_COMPROMISED_DATA
                           else if p_Length pcir < 0x18 \<or> \<not> RangeIsInside imageSize relative (p_Length pcir)
                           then Inl EFI_COMPROMISED_DATA
                           else Inr (relative, pcir, imageSize))))"

text \<open>The PCI 3.x structure, if the revision announces one, and the device match.\<close>

definition ReadPci30 ::
  "rom \<Rightarrow> nat \<Rightarrow> nat \<Rightarrow> PCI_DATA_STRUCTURE \<Rightarrow> nat \<Rightarrow> nat \<Rightarrow>
   EFI_STATUS + PCI_3_0_DATA_STRUCTURE option \<times> OPTION_ROM_DEVICE_MATCH" where
  "ReadPci30 rom imageOffset relative pcir imageSize expectedDevice =
     (if p_Revision pcir \<ge> 3 then
        (if p_Length pcir < 0x1C then Inl EFI_COMPROMISED_DATA
         else case ReadRomBytes rom (imageOffset + relative) 0x1C of None \<Rightarrow> Inl EFI_COMPROMISED_DATA
              | Some qb \<Rightarrow>
                  (let q = decode_pcir30 qb
                   in ebind (ParsePci30DeviceList rom imageOffset imageSize (imageOffset + relative) q expectedDevice)
                        (\<lambda>match. ebind (ValidatePci30Metadata rom imageOffset imageSize q) (\<lambda>_. Inr (Some q, match)))))
      else Inr (None, \<lparr>DirectMatch = (p_DeviceId pcir = expectedDevice), ListMatch = False, ListCount = 0\<rparr>))"

definition ValidateLegacy ::
  "rom \<Rightarrow> nat \<Rightarrow> nat \<Rightarrow> PCI_DATA_STRUCTURE \<Rightarrow> PCI_3_0_DATA_STRUCTURE option \<Rightarrow> nat \<Rightarrow> EFI_STATUS + bool" where
  "ValidateLegacy rom imageOffset relative pcir pcir30 imageSize =
     (if p_CodeType pcir = PCI_CODE_TYPE_PCAT_IMAGE then
        ebind (LogAndValidateLegacyHeader rom imageOffset imageSize) (\<lambda>(valid, legacySize).
          ebind (ValidatePcatLayout relative (p_Length pcir) legacySize pcir30) (\<lambda>_. Inr valid))
      else Inr False)"

text \<open>Recording the verdict of one image.\<close>

definition RecordImage ::
  "nat \<Rightarrow> nat \<Rightarrow> PCI_DATA_STRUCTURE \<Rightarrow> nat \<Rightarrow> bool \<Rightarrow> bool \<Rightarrow> bool \<Rightarrow> rom_walk \<Rightarrow> rom_walk" where
  "RecordImage imageOffset relative pcir imageSize target imageValid legacyValid w =
     (let v = w_Validation w
      in if target \<and> p_CodeType pcir = PCI_CODE_TYPE_PCAT_IMAGE then
           (if imageValid \<and> legacyValid then
              (let v = v\<lparr>MatchingLegacyCandidateCount := MatchingLegacyCandidateCount v + 1\<rparr>;
                   v = (if \<not> MatchingLegacyImageFound v then
                          v\<lparr>MatchingLegacyImageFound := True, MatchingLegacyImageOffset := imageOffset,
                            MatchingLegacyImageSize := imageSize,
                            MatchingLegacyPcirOffset := imageOffset + relative,
                            MatchingLegacyCodeRevision := p_CodeRevision pcir,
                            MatchingLegacyPcirRevision := p_Revision pcir\<rparr>
                        else v)
               in w\<lparr>w_SawMatchingLegacy := True, w_Validation := v\<rparr>)
            else w\<lparr>w_SawMatchingLegacy := True, w_SawMatchingLegacyChecksumFailure := True\<rparr>)
         else if target \<and> p_CodeType pcir = PCI_CODE_TYPE_EFI_IMAGE then
           w\<lparr>w_Validation := v\<lparr>MatchingUefiImageSeen := True\<rparr>\<rparr>
         else w)"

text \<open>One iteration; the boolean says that the final image was reached.\<close>

definition ImageStep :: "rom \<Rightarrow> nat \<Rightarrow> nat \<Rightarrow> rom_walk \<Rightarrow> EFI_STATUS + bool \<times> rom_walk" where
  "ImageStep rom expectedVendor expectedDevice w =
     (let imageOffset = w_ImageOffset w
      in ebind (ReadImage rom imageOffset) (\<lambda>(relative, pcir, imageSize).
         ebind (ReadPci30 rom imageOffset relative pcir imageSize expectedDevice) (\<lambda>(pcir30, match).
         if p_Indicator pcir mod 0x80 \<noteq> 0 then Inl EFI_COMPROMISED_DATA
         else case ComputeChecksum rom imageOffset imageSize of None \<Rightarrow> Inl EFI_COMPROMISED_DATA
         | Some checksum \<Rightarrow>
         ebind (ValidateLegacy rom imageOffset relative pcir pcir30 imageSize) (\<lambda>legacyValid.
           let target = (p_VendorId pcir = expectedVendor \<and> (DirectMatch match \<or> ListMatch match));
               lastImage = (p_Indicator pcir \<ge> 0x80);
               v = w_Validation w;
               w = w\<lparr>w_Validation := v\<lparr>ImageCount := ImageCount v + 1\<rparr>\<rparr>;
               w = RecordImage imageOffset relative pcir imageSize target (checksum = 0) legacyValid w
           in if imageOffset > MAX_UINTN - imageSize then Inl EFI_COMPROMISED_DATA
              else let nextImageOffset = imageOffset + imageSize
                   in if nextImageOffset \<le> imageOffset then Inl EFI_COMPROMISED_DATA
                      else if lastImage then
                        (if nextImageOffset \<noteq> length rom then Inl EFI_COMPROMISED_DATA
                         else Inr (True, w\<lparr>w_Validation := (w_Validation w)\<lparr>FinalIndicatorSeen := True\<rparr>\<rparr>))
                      else if nextImageOffset \<ge> length rom then Inl EFI_COMPROMISED_DATA
                      else Inr (False, w\<lparr>w_ImageOffset := nextImageOffset\<rparr>)))))"

text \<open>
  The loop \<open>while (ImageCount < MaximumImages)\<close>. Every completed iteration counts one image, so
  the first argument, the number of images still allowed, is the loop's own bound.
\<close>

fun ImageLoop :: "nat \<Rightarrow> rom \<Rightarrow> nat \<Rightarrow> nat \<Rightarrow> rom_walk \<Rightarrow> EFI_STATUS + rom_walk" where
  "ImageLoop 0 rom vendor device w = Inr w"
| "ImageLoop (Suc n) rom vendor device w =
     ebind (ImageStep rom vendor device w) (\<lambda>(final, w).
       if final then Inr w else ImageLoop n rom vendor device w)"

definition empty_validation :: OPTION_ROM_VALIDATION where
  "empty_validation = \<lparr>ImageCount = 0, MatchingLegacyCandidateCount = 0, MatchingLegacyImageOffset = 0,
     MatchingLegacyImageSize = 0, MatchingLegacyPcirOffset = 0, MatchingLegacyCodeRevision = 0,
     MatchingLegacyPcirRevision = 0, FinalIndicatorSeen = False, MatchingLegacyImageFound = False,
     MatchingUefiImageSeen = False\<rparr>"

text \<open>The image argument is its address and its bytes.\<close>

definition OptionRomParseAndValidate ::
  "(nat \<times> rom) option \<Rightarrow> nat \<Rightarrow> NCV_U16 \<Rightarrow> NCV_U16 \<Rightarrow> EFI_STATUS + OPTION_ROM_VALIDATION" where
  "OptionRomParseAndValidate romImage expectedRomSize expectedVendorId expectedDeviceId =
     (case romImage of None \<Rightarrow> Inl EFI_INVALID_PARAMETER
      | Some (base, rom) \<Rightarrow>
          if expectedRomSize = 0 \<or> expectedVendorId = 0 \<or> expectedDeviceId = 0 then Inl EFI_INVALID_PARAMETER
          else if length rom \<noteq> expectedRomSize then Inl EFI_BAD_BUFFER_SIZE
          else if length rom < OPTION_ROM_BLOCK_SIZE \<or> length rom mod OPTION_ROM_BLOCK_SIZE \<noteq> 0
                  \<or> length rom > MAX_UINTN then Inl EFI_BAD_BUFFER_SIZE
          else if base > MAX_UINTN - (length rom - 1) then Inl EFI_BAD_BUFFER_SIZE
          else ebind (ImageLoop (length rom div OPTION_ROM_BLOCK_SIZE) rom (unat expectedVendorId) (unat expectedDeviceId)
                        \<lparr>w_Validation = empty_validation, w_ImageOffset = 0, w_SawMatchingLegacy = False,
                          w_SawMatchingLegacyChecksumFailure = False\<rparr>) (\<lambda>w.
                 if \<not> FinalIndicatorSeen (w_Validation w) then Inl EFI_COMPROMISED_DATA
                 else if \<not> MatchingLegacyImageFound (w_Validation w) then
                   (if w_SawMatchingLegacyChecksumFailure w \<or> w_SawMatchingLegacy w then Inl EFI_CRC_ERROR
                    else if MatchingUefiImageSeen (w_Validation w) then Inl EFI_UNSUPPORTED
                    else Inl EFI_NOT_FOUND)
                 else Inr (w_Validation w)))"

section \<open>What the bytes of an image say\<close>

text \<open>
  The specification reads the ROM directly: where the PCIR of the image at an offset is, how large
  the image and its legacy region are, which devices it is for, and whether its bytes sum to zero.
\<close>

definition pcir_pos :: "rom \<Rightarrow> nat \<Rightarrow> nat" where
  "pcir_pos rom off = off + field16 rom (off + 0x18)"

definition image_size :: "rom \<Rightarrow> nat \<Rightarrow> nat" where
  "image_size rom off = field16 rom (pcir_pos rom off + 0x10) * 512"

definition image_last :: "rom \<Rightarrow> nat \<Rightarrow> bool" where
  "image_last rom off \<longleftrightarrow> field8 rom (pcir_pos rom off + 0x15) = 0x80"

definition image_pcat :: "rom \<Rightarrow> nat \<Rightarrow> bool" where
  "image_pcat rom off \<longleftrightarrow> field8 rom (pcir_pos rom off + 0x14) = 0"

definition legacy_size :: "rom \<Rightarrow> nat \<Rightarrow> nat" where
  "legacy_size rom off = field8 rom (off + 2) * 512"

text \<open>Revision 3 and later declare how much of the image stays resident; zero means unspecified.\<close>

definition runtime_size :: "rom \<Rightarrow> nat \<Rightarrow> nat" where
  "runtime_size rom off = field16 rom (pcir_pos rom off + 0x16) * 512"

definition image_wf :: "rom \<Rightarrow> nat \<Rightarrow> bool" where
  "image_wf rom off \<longleftrightarrow>
     field16 rom off = 0xAA55 \<and> field32 rom (pcir_pos rom off) = 0x52494350 \<and>
     off + 0x1A \<le> pcir_pos rom off \<and> 4 dvd (pcir_pos rom off - off) \<and>
     0 < image_size rom off \<and> off + image_size rom off \<le> length rom \<and>
     0x18 \<le> field16 rom (pcir_pos rom off + 0xA) \<and>
     pcir_pos rom off + field16 rom (pcir_pos rom off + 0xA) \<le> off + image_size rom off \<and>
     field8 rom (pcir_pos rom off + 0x15) \<in> {0, 0x80} \<and>
     (image_pcat rom off \<longrightarrow> 0 < legacy_size rom off \<and> legacy_size rom off \<le> image_size rom off \<and>
        pcir_pos rom off + field16 rom (pcir_pos rom off + 0xA) \<le> off + legacy_size rom off) \<and>
     (3 \<le> field8 rom (pcir_pos rom off + 0xC) \<longrightarrow> 0x1C \<le> field16 rom (pcir_pos rom off + 0xA) \<and>
        (image_pcat rom off \<longrightarrow> runtime_size rom off \<le> legacy_size rom off \<and> (runtime_size rom off = 0 \<or>
           pcir_pos rom off + field16 rom (pcir_pos rom off + 0xA) \<le> off + runtime_size rom off)))"

definition device_ids :: "rom \<Rightarrow> nat \<Rightarrow> nat list" where
  "device_ids rom off =
     (let p = pcir_pos rom off; l = field16 rom (p + 8)
      in if field8 rom (p + 0xC) < 3 \<or> l = 0 then []
         else takeWhile (\<lambda>d. d \<noteq> 0)
                (map (\<lambda>i. field16 rom (p + l + i * 2)) [0..<(off + image_size rom off - (p + l)) div 2]))"

definition image_target :: "rom \<Rightarrow> nat \<Rightarrow> nat \<Rightarrow> nat \<Rightarrow> bool" where
  "image_target rom vendor device off \<longleftrightarrow> field16 rom (pcir_pos rom off + 4) = vendor \<and>
     (field16 rom (pcir_pos rom off + 6) = device \<or> device \<in> set (device_ids rom off))"

definition byte_sum :: "rom \<Rightarrow> nat \<Rightarrow> nat \<Rightarrow> nat" where
  "byte_sum rom off n = sum_list (map unat (take n (drop off rom)))"

definition image_sound :: "rom \<Rightarrow> nat \<Rightarrow> bool" where
  "image_sound rom off \<longleftrightarrow> 256 dvd byte_sum rom off (image_size rom off) \<and> 256 dvd byte_sum rom off (legacy_size rom off)"

text \<open>Offsets of consecutive images that cover the ROM exactly, the last one marked as last.\<close>

inductive rom_chain :: "rom \<Rightarrow> nat \<Rightarrow> nat list \<Rightarrow> bool" for rom where
  final: "image_wf rom off \<Longrightarrow> image_last rom off \<Longrightarrow> off + image_size rom off = length rom \<Longrightarrow> rom_chain rom off [off]"
| step: "image_wf rom off \<Longrightarrow> \<not> image_last rom off \<Longrightarrow> off + image_size rom off < length rom \<Longrightarrow>
         rom_chain rom (off + image_size rom off) offs \<Longrightarrow> rom_chain rom off (off # offs)"

inductive_cases rom_chain_ConsE: "rom_chain rom off (x # offs)"

section \<open>Bounded access is exact\<close>

lemma RangeIsInside_iff: "RangeIsInside n off len \<longleftrightarrow> off + len \<le> n"
  by (auto simp: RangeIsInside_def)

lemma ReadRomBytes_SomeD:
  assumes "ReadRomBytes rom off n = Some bs"
  shows "off + n \<le> length rom" and "i < n \<Longrightarrow> bs ! i = rom ! (off + i)"
  using assms by (auto simp: ReadRomBytes_def RangeIsInside_iff split: if_splits)

lemma ReadRomBytes_fields:
  assumes "ReadRomBytes rom off n = Some bs"
  shows "i < n \<Longrightarrow> field8 bs i = field8 rom (off + i)"
    and "i + 1 < n \<Longrightarrow> field16 bs i = field16 rom (off + i)"
    and "i + 3 < n \<Longrightarrow> field32 bs i = field32 rom (off + i)"
  using ReadRomBytes_SomeD(2) [OF assms] by (simp_all add: field8_def field16_def field32_def ac_simps)

lemma field8_less: "field8 bs i < 256"
  by (simp add: field8_def unat_le_mask_byte)

lemma checksum_fold: "foldl (\<lambda>s i. s + xs ! i) (s :: NCV_U8) [0..<length xs] = s + of_nat (sum_list (map unat xs))"
proof (induction xs rule: rev_induct)
  case (snoc x xs)
  have "foldl (\<lambda>s i. s + (xs @ [x]) ! i) s [0..<length xs] = foldl (\<lambda>s i. s + xs ! i) s [0..<length xs]"
    by (rule foldl_cong) (simp_all add: nth_append)
  with snoc show ?case by simp
qed simp

lemma ComputeChecksum_eq:
  "ComputeChecksum rom off n = (if n = 0 \<or> length rom < off + n then None else Some (of_nat (byte_sum rom off n)))"
proof -
  have "foldl (\<lambda>s i. s + rom ! (off + i)) (0 :: NCV_U8) [0..<n] = of_nat (byte_sum rom off n)" if "off + n \<le> length rom"
  proof -
    have "foldl (\<lambda>s i. s + rom ! (off + i)) (0 :: NCV_U8) [0..<n] =
        foldl (\<lambda>s i. s + take n (drop off rom) ! i) 0 [0..<length (take n (drop off rom))]"
      using that by (intro foldl_cong) simp_all
    then show ?thesis using checksum_fold [of "take n (drop off rom)" 0] by (simp add: byte_sum_def)
  qed
  then show ?thesis by (auto simp: ComputeChecksum_def RangeIsInside_iff)
qed

lemma checksum_zero_iff: "(of_nat n :: NCV_U8) = 0 \<longleftrightarrow> 256 dvd n"
  using word_of_nat_eq_0_iff [where 'a = 8] by simp

section \<open>One iteration\<close>

lemma ReadImage_InrD:
  assumes "ReadImage rom off = Inr (relative, pcir, isize)"
  shows "off + relative = pcir_pos rom off" and "isize = image_size rom off"
    and "field16 rom off = 0xAA55" and "field32 rom (pcir_pos rom off) = 0x52494350"
    and "0x1A \<le> relative" and "relative mod 4 = 0" and "0 < isize" and "off + isize \<le> length rom"
    and "0x18 \<le> p_Length pcir" and "relative + p_Length pcir \<le> isize"
    and "p_VendorId pcir = field16 rom (pcir_pos rom off + 4)" and "p_DeviceId pcir = field16 rom (pcir_pos rom off + 6)"
    and "p_Length pcir = field16 rom (pcir_pos rom off + 0xA)" and "p_Revision pcir = field8 rom (pcir_pos rom off + 0xC)"
    and "p_CodeRevision pcir = field16 rom (pcir_pos rom off + 0x12)"
    and "p_CodeType pcir = field8 rom (pcir_pos rom off + 0x14)" and "p_Indicator pcir = field8 rom (pcir_pos rom off + 0x15)"
proof -
  obtain hb pb where hb: "ReadRomBytes rom off 0x1A = Some hb"
    and pb: "ReadRomBytes rom (off + h_PcirOffset (decode_header hb)) 0x18 = Some pb"
    and rel: "relative = h_PcirOffset (decode_header hb)" and pcir: "pcir = decode_pcir22 pb"
    and isize: "isize = p_ImageLength (decode_pcir22 pb) * OPTION_ROM_BLOCK_SIZE"
    and c: "h_Signature (decode_header hb) = PCI_EXPANSION_ROM_HEADER_SIGNATURE"
      "0x1A \<le> relative" "relative mod 4 = 0" "p_Signature pcir = PCI_DATA_STRUCTURE_SIGNATURE"
      "p_ImageLength pcir \<noteq> 0" "RangeIsInside (length rom) off isize" "0x18 \<le> p_Length pcir"
      "RangeIsInside isize relative (p_Length pcir)"
    using assms by (auto simp: ReadImage_def Let_def split: if_splits option.splits)
  note h = ReadRomBytes_fields [OF hb] and p = ReadRomBytes_fields [OF pb]
  have r: "relative = field16 rom (off + 0x18)" using h(2) [of "0x18"] by (simp add: rel decode_header_def)
  show pos: "off + relative = pcir_pos rom off" by (simp add: pcir_pos_def r)
  note p' = p [unfolded rel [symmetric] pos]
  show "isize = image_size rom off" using p'(2) [of "0x10"] by (simp add: isize image_size_def decode_pcir22_def ncv_defs)
  show "field16 rom off = 0xAA55" using c(1) h(2) [of 0] by (simp add: decode_header_def ncv_defs)
  show "field32 rom (pcir_pos rom off) = 0x52494350" using c(4) p'(3) [of 0] by (simp add: pcir decode_pcir22_def ncv_defs)
  show "0 < isize" using c(5) by (simp add: isize pcir ncv_defs)
  show "off + isize \<le> length rom" "relative + p_Length pcir \<le> isize" using c(6,8) by (simp_all add: RangeIsInside_iff)
  show "p_VendorId pcir = field16 rom (pcir_pos rom off + 4)" "p_DeviceId pcir = field16 rom (pcir_pos rom off + 6)"
    "p_Length pcir = field16 rom (pcir_pos rom off + 0xA)" "p_Revision pcir = field8 rom (pcir_pos rom off + 0xC)"
    "p_CodeRevision pcir = field16 rom (pcir_pos rom off + 0x12)"
    "p_CodeType pcir = field8 rom (pcir_pos rom off + 0x14)" "p_Indicator pcir = field8 rom (pcir_pos rom off + 0x15)"
    using p'(1) [of "0xC"] p'(1) [of "0x14"] p'(1) [of "0x15"] p'(2) [of 4] p'(2) [of 6] p'(2) [of "0xA"] p'(2) [of "0x12"]
    by (simp_all add: pcir decode_pcir22_def)
qed (use assms in \<open>auto simp: ReadImage_def Let_def split: if_splits option.splits\<close>)

lemma DeviceListLoop_InrD:
  assumes "DeviceListLoop n rom pos expected i match = Inr m"
  shows "DirectMatch m = DirectMatch match \<and>
    (ListMatch m \<longleftrightarrow> ListMatch match \<or>
      expected \<in> set (takeWhile (\<lambda>d. d \<noteq> 0) (map (\<lambda>k. field16 rom (pos + k * 2)) [i..<i + n])))"
  using assms
proof (induction n arbitrary: i match)
  case (Suc n)
  obtain bs where bs: "ReadRomBytes rom (pos + i * 2) 2 = Some bs"
    using Suc.prems by (auto split: if_splits option.splits)
  have f: "field16 bs 0 = field16 rom (pos + i * 2)" using ReadRomBytes_fields(2) [OF bs, of 0] by simp
  have u: "[i..<i + Suc n] = i # [Suc i..<Suc i + n]" by (simp add: upt_rec)
  show ?case
  proof (cases "field16 bs 0 = 0")
    case True
    with Suc.prems bs f show ?thesis unfolding u by (simp split: if_splits)
  next
    case False
    with Suc.prems bs have "DeviceListLoop n rom pos expected (Suc i)
        (match\<lparr>ListCount := ListCount match + 1, ListMatch := ListMatch match \<or> field16 bs 0 = expected\<rparr>) = Inr m"
      by (simp add: Let_def split: if_splits)
    from Suc.IH [OF this] False f show ?thesis unfolding u by auto
  qed
qed simp

lemma ParsePci30DeviceList_InrD:
  assumes "ParsePci30DeviceList rom off isize pos q expected = Inr m"
  shows "DirectMatch m \<longleftrightarrow> q_DeviceId q = expected"
    and "ListMatch m \<longleftrightarrow> q_DeviceListOffset q \<noteq> 0 \<and>
      expected \<in> set (takeWhile (\<lambda>d. d \<noteq> 0) (map (\<lambda>k. field16 rom (pos + q_DeviceListOffset q + k * 2))
        [0..<(off + isize - (pos + q_DeviceListOffset q)) div 2]))"
  using assms
  by (auto simp: ParsePci30DeviceList_def Let_def dest!: DeviceListLoop_InrD split: if_splits)

lemma ReadPci30_match:
  assumes img: "ReadImage rom off = Inr (relative, pcir, isize)"
    and run: "ReadPci30 rom off relative pcir isize expected = Inr (pcir30, m)"
  shows "DirectMatch m \<or> ListMatch m \<longleftrightarrow>
    field16 rom (pcir_pos rom off + 6) = expected \<or> expected \<in> set (device_ids rom off)"
proof (cases "p_Revision pcir \<ge> 3")
  case False
  then show ?thesis
    using run ReadImage_InrD(12,14) [OF img] by (auto simp: ReadPci30_def device_ids_def Let_def)
next
  case True
  obtain qb where qb: "ReadRomBytes rom (off + relative) 0x1C = Some qb"
    and d: "ParsePci30DeviceList rom off isize (off + relative) (decode_pcir30 qb) expected = Inr m"
    using True run by (auto simp: ReadPci30_def Let_def ebind_Inr_iff split: if_splits option.splits)
  note f = ReadRomBytes_fields(2) [OF qb, unfolded ReadImage_InrD(1) [OF img]]
  have "q_DeviceId (decode_pcir30 qb) = field16 rom (pcir_pos rom off + 6)"
    "q_DeviceListOffset (decode_pcir30 qb) = field16 rom (pcir_pos rom off + 8)"
    using f [of 6] f [of 8] by (simp_all add: decode_pcir30_def)
  with ParsePci30DeviceList_InrD [OF d] True show ?thesis
    using ReadImage_InrD(1,2,14) [OF img] by (auto simp: device_ids_def Let_def)
qed

lemma ValidateLegacy_InrD:
  assumes img: "ReadImage rom off = Inr (relative, pcir, isize)"
    and run: "ValidateLegacy rom off relative pcir pcir30 isize = Inr valid" and pcat: "image_pcat rom off"
  shows "0 < legacy_size rom off" and "legacy_size rom off \<le> isize"
    and "pcir_pos rom off + field16 rom (pcir_pos rom off + 0xA) \<le> off + legacy_size rom off"
    and "valid \<longleftrightarrow> 256 dvd byte_sum rom off (legacy_size rom off)"
proof -
  note I = ReadImage_InrD [OF img]
  have "p_CodeType pcir = PCI_CODE_TYPE_PCAT_IMAGE" using pcat I(16) by (simp add: image_pcat_def ncv_defs)
  then obtain ls where l: "LogAndValidateLegacyHeader rom off isize = Inr (valid, ls)"
    and lay: "ValidatePcatLayout relative (p_Length pcir) ls pcir30 = Inr ()"
    using run by (auto simp: ValidateLegacy_def ebind_Inr_iff)
  obtain bs c where bs: "ReadRomBytes rom (off + 2) 1 = Some bs" and "field8 bs 0 \<noteq> 0"
    and ls: "ls = field8 bs 0 * 512" "ls \<le> isize" and sum: "ComputeChecksum rom off ls = Some c" and v: "valid \<longleftrightarrow> c = 0"
    using l by (auto simp: LogAndValidateLegacyHeader_def Let_def ncv_defs split: if_splits option.splits)
  have eq: "ls = legacy_size rom off" using ls(1) ReadRomBytes_fields(1) [OF bs, of 0] by (simp add: legacy_size_def)
  show "0 < legacy_size rom off" "legacy_size rom off \<le> isize"
    using \<open>field8 bs 0 \<noteq> 0\<close> ls eq by auto
  have "relative + p_Length pcir \<le> ls"
    using lay by (auto simp: ValidatePcatLayout_def RangeIsInside_iff split: if_splits option.splits)
  then show "pcir_pos rom off + field16 rom (pcir_pos rom off + 0xA) \<le> off + legacy_size rom off"
    using I(1,13) eq by simp
  show "valid \<longleftrightarrow> 256 dvd byte_sum rom off (legacy_size rom off)"
    using v sum by (auto simp: ComputeChecksum_eq eq checksum_zero_iff split: if_splits)
qed

lemma revision3_InrD:
  assumes img: "ReadImage rom off = Inr (relative, pcir, isize)"
    and q: "ReadPci30 rom off relative pcir isize expected = Inr (pcir30, m)"
    and l: "ValidateLegacy rom off relative pcir pcir30 isize = Inr valid"
    and rev: "3 \<le> field8 rom (pcir_pos rom off + 0xC)"
  shows "0x1C \<le> field16 rom (pcir_pos rom off + 0xA)"
    and "image_pcat rom off \<Longrightarrow> runtime_size rom off \<le> legacy_size rom off \<and> (runtime_size rom off = 0 \<or>
           pcir_pos rom off + field16 rom (pcir_pos rom off + 0xA) \<le> off + runtime_size rom off)"
proof -
  note I = ReadImage_InrD [OF img]
  have rev': "3 \<le> p_Revision pcir" using rev I(14) by simp
  then obtain qb where qb: "ReadRomBytes rom (off + relative) 0x1C = Some qb" and p30: "pcir30 = Some (decode_pcir30 qb)"
    and len: "0x1C \<le> p_Length pcir"
    using q by (auto simp: ReadPci30_def Let_def ebind_Inr_iff split: if_splits option.splits)
  show "0x1C \<le> field16 rom (pcir_pos rom off + 0xA)" using len I(13) by simp
  have rt: "q_MaxRuntimeImageLength (decode_pcir30 qb) * OPTION_ROM_BLOCK_SIZE = runtime_size rom off"
    using ReadRomBytes_fields(2) [OF qb, of "0x16"] I(1) by (simp add: decode_pcir30_def runtime_size_def ncv_defs)
  assume pcat: "image_pcat rom off"
  have "p_CodeType pcir = PCI_CODE_TYPE_PCAT_IMAGE" using pcat I(16) by (simp add: image_pcat_def ncv_defs)
  then obtain ls where h: "LogAndValidateLegacyHeader rom off isize = Inr (valid, ls)"
    and lay: "ValidatePcatLayout relative (p_Length pcir) ls pcir30 = Inr ()"
    using l by (auto simp: ValidateLegacy_def ebind_Inr_iff)
  obtain bs where bs: "ReadRomBytes rom (off + 2) 1 = Some bs" and ls: "ls = field8 bs 0 * 512"
    using h by (auto simp: LogAndValidateLegacyHeader_def Let_def ncv_defs split: if_splits option.splits)
  have "ls = legacy_size rom off" using ls ReadRomBytes_fields(1) [OF bs, of 0] by (simp add: legacy_size_def)
  then show "runtime_size rom off \<le> legacy_size rom off \<and> (runtime_size rom off = 0 \<or>
      pcir_pos rom off + field16 rom (pcir_pos rom off + 0xA) \<le> off + runtime_size rom off)"
    using lay I(1,13) by (auto simp: ValidatePcatLayout_def p30 rt Let_def RangeIsInside_iff split: if_splits)
qed

text \<open>What the walk has recorded after the images at the given offsets.\<close>

definition candidate :: "rom \<Rightarrow> nat \<Rightarrow> nat \<Rightarrow> nat \<Rightarrow> bool" where
  "candidate rom vendor device off \<longleftrightarrow> image_target rom vendor device off \<and> image_pcat rom off \<and> image_sound rom off"

definition recorded :: "rom \<Rightarrow> nat \<Rightarrow> nat \<Rightarrow> nat list \<Rightarrow> rom_walk \<Rightarrow> bool" where
  "recorded rom vendor device offs w \<longleftrightarrow>
     (let v = w_Validation w; cs = filter (candidate rom vendor device) offs
      in ImageCount v = length offs \<and> MatchingLegacyCandidateCount v = length cs \<and>
         (MatchingLegacyImageFound v \<longleftrightarrow> cs \<noteq> []) \<and>
         (cs \<noteq> [] \<longrightarrow> MatchingLegacyImageOffset v = hd cs \<and> MatchingLegacyImageSize v = image_size rom (hd cs) \<and>
            MatchingLegacyPcirOffset v = pcir_pos rom (hd cs) \<and>
            MatchingLegacyCodeRevision v = field16 rom (pcir_pos rom (hd cs) + 0x12) \<and>
            MatchingLegacyPcirRevision v = field8 rom (pcir_pos rom (hd cs) + 0xC)) \<and>
         (MatchingUefiImageSeen v \<longleftrightarrow> (\<exists>x \<in> set offs. image_target rom vendor device x \<and>
            field8 rom (pcir_pos rom x + 0x14) = 3)) \<and>
         (w_SawMatchingLegacy w \<longleftrightarrow> (\<exists>x \<in> set offs. image_target rom vendor device x \<and> image_pcat rom x)) \<and>
         (w_SawMatchingLegacyChecksumFailure w \<longrightarrow> w_SawMatchingLegacy w))"

lemma RecordImage_recorded:
  assumes rec: "recorded rom vendor device offs w"
    and img: "ReadImage rom off = Inr (relative, pcir, isize)"
    and target: "target \<longleftrightarrow> image_target rom vendor device off"
    and sound: "image_pcat rom off \<Longrightarrow> (imageValid \<and> legacyValid \<longleftrightarrow> image_sound rom off)"
  shows "recorded rom vendor device (offs @ [off])
    (RecordImage off relative pcir isize target imageValid legacyValid
      (w\<lparr>w_Validation := (w_Validation w)\<lparr>ImageCount := ImageCount (w_Validation w) + 1\<rparr>\<rparr>))"
proof -
  note I = ReadImage_InrD [OF img]
  have pcat: "p_CodeType pcir = PCI_CODE_TYPE_PCAT_IMAGE \<longleftrightarrow> image_pcat rom off"
    and uefi: "p_CodeType pcir = PCI_CODE_TYPE_EFI_IMAGE \<longleftrightarrow> field8 rom (pcir_pos rom off + 0x14) = 3"
    using I(16) by (simp_all add: image_pcat_def ncv_defs)
  have excl: "image_pcat rom off \<Longrightarrow> field8 rom (pcir_pos rom off + 0x14) \<noteq> 3" by (simp add: image_pcat_def)
  show ?thesis
  proof (cases "target \<and> image_pcat rom off")
    case True
    show ?thesis
    proof (cases "imageValid \<and> legacyValid")
      case valid: True
      with True sound target have "candidate rom vendor device off" by (simp add: candidate_def)
      with True valid target rec I(1,2,14,15) excl show ?thesis
        by (auto simp: recorded_def RecordImage_def Let_def pcat hd_append)
    next
      case False
      with True sound target have "\<not> candidate rom vendor device off" by (simp add: candidate_def)
      with True False target rec excl show ?thesis
        by (auto simp: recorded_def RecordImage_def Let_def pcat)
    qed
  next
    case False
    then have nc: "\<not> candidate rom vendor device off" using target by (auto simp: candidate_def)
    show ?thesis
    proof (cases "target \<and> field8 rom (pcir_pos rom off + 0x14) = 3")
      case True
      with False nc target rec show ?thesis
        by (simp add: recorded_def RecordImage_def Let_def pcat uefi) blast
    next
      case nu: False
      with False nc target rec show ?thesis
        by (simp add: recorded_def RecordImage_def Let_def pcat uefi) blast
    qed
  qed
qed

lemma ImageStep_InrD:
  assumes run: "ImageStep rom vendor device w = Inr (final, w')" and rec: "recorded rom vendor device offs w"
  defines "off \<equiv> w_ImageOffset w"
  shows "image_wf rom off" and "final \<longleftrightarrow> image_last rom off"
    and "recorded rom vendor device (offs @ [off]) w'"
    and "final \<Longrightarrow> off + image_size rom off = length rom \<and> FinalIndicatorSeen (w_Validation w')"
    and "\<not> final \<Longrightarrow> off + image_size rom off < length rom \<and> w_ImageOffset w' = off + image_size rom off \<and>
      FinalIndicatorSeen (w_Validation w') = FinalIndicatorSeen (w_Validation w)"
proof -
  obtain relative pcir isize where img: "ReadImage rom off = Inr (relative, pcir, isize)"
    using run by (auto simp: ImageStep_def Let_def ebind_Inr_iff off_def)
  obtain pcir30 m where q: "ReadPci30 rom off relative pcir isize device = Inr (pcir30, m)"
    using run img by (auto simp: ImageStep_def Let_def ebind_Inr_iff off_def)
  obtain c where ind: "p_Indicator pcir mod 0x80 = 0" and c: "ComputeChecksum rom off isize = Some c"
    using run img q by (auto simp: ImageStep_def Let_def ebind_Inr_iff off_def split: if_splits option.splits)
  obtain valid where l: "ValidateLegacy rom off relative pcir pcir30 isize = Inr valid"
    using run img q ind c by (auto simp: ImageStep_def Let_def ebind_Inr_iff off_def)
  note I = ReadImage_InrD [OF img]
  let ?target = "p_VendorId pcir = vendor \<and> (DirectMatch m \<or> ListMatch m)"
  let ?w = "RecordImage off relative pcir isize ?target (c = 0) valid
      (w\<lparr>w_Validation := (w_Validation w)\<lparr>ImageCount := ImageCount (w_Validation w) + 1\<rparr>\<rparr>)"
  have frame: "FinalIndicatorSeen (w_Validation ?w) = FinalIndicatorSeen (w_Validation w)"
    by (simp add: RecordImage_def Let_def)
  have res: "(final, w') = (if p_Indicator pcir \<ge> 0x80
        then (True, ?w\<lparr>w_Validation := (w_Validation ?w)\<lparr>FinalIndicatorSeen := True\<rparr>\<rparr>)
        else (False, ?w\<lparr>w_ImageOffset := off + isize\<rparr>))"
    and fin: "p_Indicator pcir \<ge> 0x80 \<Longrightarrow> off + isize = length rom"
    and nfin: "\<not> p_Indicator pcir \<ge> 0x80 \<Longrightarrow> off + isize < length rom"
    using run img q ind c l unfolding ImageStep_def Let_def off_def [symmetric]
    by (auto split: if_splits)
  have isz: "isize = image_size rom off" by (rule I(2))
  have "p_Indicator pcir < 256" using I(17) field8_less by simp
  then have ind2: "p_Indicator pcir \<in> {0, 0x80}" using ind by (auto simp: mod_eq_0_iff_dvd elim!: dvdE)
  then have last: "p_Indicator pcir \<ge> 0x80 \<longleftrightarrow> image_last rom off" using I(17) by (auto simp: image_last_def)
  show "final \<longleftrightarrow> image_last rom off" using res last by (simp split: if_splits)
  have leg: "image_pcat rom off \<longrightarrow> 0 < legacy_size rom off \<and> legacy_size rom off \<le> image_size rom off \<and>
        pcir_pos rom off + field16 rom (pcir_pos rom off + 0xA) \<le> off + legacy_size rom off"
    using ValidateLegacy_InrD(1-3) [OF img l] isz by simp
  have "4 dvd (pcir_pos rom off - off)" using I(1,6) by (metis add_diff_cancel_left' mod_eq_0_iff_dvd)
  moreover have "off + 0x1A \<le> pcir_pos rom off" using I(1,5) by simp
  moreover have "pcir_pos rom off + field16 rom (pcir_pos rom off + 0xA) \<le> off + image_size rom off"
    using I(1,10,13) isz by simp
  ultimately show "image_wf rom off"
    using I(3,4,7,8,9,13,17) isz ind2 leg revision3_InrD [OF img q l] by (simp add: image_wf_def)
  have tgt: "?target \<longleftrightarrow> image_target rom vendor device off"
    using ReadPci30_match [OF img q] I(11) by (auto simp: image_target_def)
  have snd: "image_pcat rom off \<Longrightarrow> (c = 0 \<and> valid \<longleftrightarrow> image_sound rom off)"
    using ValidateLegacy_InrD(4) [OF img l] c isz
    by (auto simp: image_sound_def ComputeChecksum_eq checksum_zero_iff split: if_splits)
  have R: "recorded rom vendor device (offs @ [off]) ?w"
    by (rule RecordImage_recorded [OF rec img tgt snd])
  then show "recorded rom vendor device (offs @ [off]) w'"
    using res by (auto simp: recorded_def Let_def split: if_splits)
  show "final \<Longrightarrow> off + image_size rom off = length rom \<and> FinalIndicatorSeen (w_Validation w')"
    using res fin isz by (auto split: if_splits)
  show "\<not> final \<Longrightarrow> off + image_size rom off < length rom \<and> w_ImageOffset w' = off + image_size rom off \<and>
      FinalIndicatorSeen (w_Validation w') = FinalIndicatorSeen (w_Validation w)"
    using res nfin isz frame by (auto split: if_splits)
qed

section \<open>The whole walk\<close>

lemma ImageLoop_chain:
  assumes "ImageLoop n rom vendor device w = Inr w'" and "recorded rom vendor device offs w"
    and "\<not> FinalIndicatorSeen (w_Validation w)" and "FinalIndicatorSeen (w_Validation w')"
  shows "\<exists>rest. rom_chain rom (w_ImageOffset w) rest \<and> recorded rom vendor device (offs @ rest) w'"
  using assms
proof (induction n arbitrary: w offs)
  case 0
  then show ?case by simp
next
  case (Suc n)
  obtain final w1 where step: "ImageStep rom vendor device w = Inr (final, w1)"
    and rest: "(if final then Inr w1 else ImageLoop n rom vendor device w1) = Inr w'"
    using Suc.prems(1) by (auto simp: ebind_Inr_iff)
  note S = ImageStep_InrD [OF step Suc.prems(2)]
  show ?case
  proof (cases final)
    case True
    then have "rom_chain rom (w_ImageOffset w) [w_ImageOffset w]" using S by (intro rom_chain.final) simp_all
    with True S(3) rest show ?thesis by auto
  next
    case False
    then obtain offs' where "rom_chain rom (w_ImageOffset w1) offs'" "recorded rom vendor device ((offs @ [w_ImageOffset w]) @ offs') w'"
      using Suc.IH [OF _ S(3)] rest S(5) Suc.prems(3,4) by auto
    moreover from this have "rom_chain rom (w_ImageOffset w) (w_ImageOffset w # offs')"
      using False S by (intro rom_chain.step) simp_all
    ultimately show ?thesis by (intro exI [of _ "w_ImageOffset w # offs'"]) simp
  qed
qed

definition start_walk :: rom_walk where
  "start_walk = \<lparr>w_Validation = empty_validation, w_ImageOffset = 0, w_SawMatchingLegacy = False,
     w_SawMatchingLegacyChecksumFailure = False\<rparr>"

lemma recorded_start: "recorded rom vendor device [] start_walk" "\<not> FinalIndicatorSeen (w_Validation start_walk)"
  by (simp_all add: recorded_def start_walk_def empty_validation_def)

lemma rom_chain_wf: "rom_chain rom off offs \<Longrightarrow> x \<in> set offs \<Longrightarrow> image_wf rom x"
  by (induction rule: rom_chain.induct) auto

lemma accepted_rom:
  assumes "OptionRomParseAndValidate (Some (base, rom)) expectedSize vendor device = Inr v"
  obtains offs w where "rom_chain rom 0 offs" and "recorded rom (unat vendor) (unat device) offs w"
    and "v = w_Validation w" and "filter (candidate rom (unat vendor) (unat device)) offs \<noteq> []"
    and "length rom = expectedSize"
proof -
  obtain w where run: "ImageLoop (length rom div OPTION_ROM_BLOCK_SIZE) rom (unat vendor) (unat device) start_walk = Inr w"
    and seen: "FinalIndicatorSeen (w_Validation w)" and found: "MatchingLegacyImageFound (w_Validation w)"
    and v: "v = w_Validation w" and len: "length rom = expectedSize"
    using assms by (auto simp: OptionRomParseAndValidate_def start_walk_def ebind_Inr_iff split: if_splits)
  obtain offs where chain: "rom_chain rom 0 offs" and rec: "recorded rom (unat vendor) (unat device) offs w"
    using ImageLoop_chain [OF run recorded_start(1) recorded_start(2) seen] by (auto simp: start_walk_def)
  have "filter (candidate rom (unat vendor) (unat device)) offs \<noteq> []" using rec found by (simp add: recorded_def Let_def)
  with chain rec v len show ?thesis using that by blast
qed

lemma hd_candidate:
  assumes "rom_chain rom off offs" and "filter (candidate rom vendor device) offs \<noteq> []"
  shows "image_wf rom (hd (filter (candidate rom vendor device) offs))"
    and "candidate rom vendor device (hd (filter (candidate rom vendor device) offs))"
  using hd_in_set [OF assms(2)] rom_chain_wf [OF assms(1)] by auto

lemma accepted_size:
  assumes "OptionRomParseAndValidate (Some (base, rom)) expectedSize vendor device = Inr v"
  shows "MatchingLegacyImageOffset v + MatchingLegacyImageSize v \<le> expectedSize"
proof -
  obtain offs w where chain: "rom_chain rom 0 offs" and rec: "recorded rom (unat vendor) (unat device) offs w"
    and v: "v = w_Validation w" and ne: "filter (candidate rom (unat vendor) (unat device)) offs \<noteq> []"
    and len: "length rom = expectedSize"
    by (rule accepted_rom [OF assms])
  with hd_candidate(1) [OF chain ne] show ?thesis by (simp add: recorded_def Let_def image_wf_def)
qed

text \<open>
  C10. An accepted ROM is completely understood. When \<open>OptionRomParseAndValidate\<close> succeeds, the
  ROM is covered without gap or overlap by a chain of well-formed images, exactly the last of which
  is marked as last; the reported image is the first one in the chain that is a PCAT image for the
  requested device whose PCIR-sized and legacy-sized byte sums are both zero modulo 256; its extent
  lies inside the ROM, and the counts are the true ones.
\<close>

theorem OptionRomParseAndValidate_sound:
  assumes "OptionRomParseAndValidate (Some (base, rom)) expectedSize vendor device = Inr v"
  shows "\<exists>offs. rom_chain rom 0 offs \<and> ImageCount v = length offs \<and>
    (let cs = filter (candidate rom (unat vendor) (unat device)) offs
     in cs \<noteq> [] \<and> MatchingLegacyCandidateCount v = length cs \<and> MatchingLegacyImageOffset v = hd cs \<and>
        MatchingLegacyImageSize v = image_size rom (hd cs) \<and> MatchingLegacyPcirOffset v = pcir_pos rom (hd cs) \<and>
        MatchingLegacyCodeRevision v = field16 rom (pcir_pos rom (hd cs) + 0x12) \<and>
        MatchingLegacyPcirRevision v = field8 rom (pcir_pos rom (hd cs) + 0xC) \<and>
        MatchingLegacyImageOffset v + MatchingLegacyImageSize v \<le> length rom) \<and>
    length rom = expectedSize"
proof -
  obtain offs w where chain: "rom_chain rom 0 offs" and rec: "recorded rom (unat vendor) (unat device) offs w"
    and v: "v = w_Validation w" and ne: "filter (candidate rom (unat vendor) (unat device)) offs \<noteq> []"
    and len: "length rom = expectedSize"
    by (rule accepted_rom [OF assms])
  with accepted_size [OF assms] show ?thesis
    by (intro exI [of _ offs]) (simp add: recorded_def Let_def)
qed

text \<open>Every failure inside the walk has the same status.\<close>

lemma DeviceListLoop_Inl: "DeviceListLoop n rom pos expected i match = Inl e \<Longrightarrow> e = EFI_COMPROMISED_DATA"
  by (induction n arbitrary: i match) (auto simp: Let_def split: if_splits option.splits)

lemma ReadPci30_Inl: "ReadPci30 rom off relative pcir isize expected = Inl e \<Longrightarrow> e = EFI_COMPROMISED_DATA"
  by (auto simp: ReadPci30_def ParsePci30DeviceList_def ValidatePci30Metadata_def ebind_Inl_iff Let_def
      dest: DeviceListLoop_Inl split: if_splits option.splits)

lemma ValidateLegacy_Inl: "ValidateLegacy rom off relative pcir pcir30 isize = Inl e \<Longrightarrow> e = EFI_COMPROMISED_DATA"
  by (auto simp: ValidateLegacy_def LogAndValidateLegacyHeader_def ValidatePcatLayout_def ebind_Inl_iff Let_def
      split: if_splits option.splits)

lemma ImageStep_Inl: "ImageStep rom vendor device w = Inl e \<Longrightarrow> e = EFI_COMPROMISED_DATA"
  by (auto simp: ImageStep_def ReadImage_def ebind_Inl_iff Let_def dest: ReadPci30_Inl ValidateLegacy_Inl
      split: if_splits option.splits)

lemma ImageLoop_Inl: "ImageLoop n rom vendor device w = Inl e \<Longrightarrow> e = EFI_COMPROMISED_DATA"
  by (induction n arbitrary: w) (auto simp: ebind_Inl_iff dest: ImageStep_Inl split: if_splits)

text \<open>
  The final verdicts are exact. After a complete walk, \<open>EFI_CRC_ERROR\<close> is returned only if
  some PCAT image is for the requested device and none of those is checksum-valid;
  \<open>EFI_UNSUPPORTED\<close> only if the device has an UEFI image but no PCAT image; \<open>EFI_NOT_FOUND\<close>
  only if it has neither. In all three cases the ROM is a complete chain of well-formed images.
\<close>

theorem OptionRomParseAndValidate_verdicts:
  assumes "OptionRomParseAndValidate (Some (base, rom)) expectedSize vendor device = Inl e"
    and "e \<in> {EFI_CRC_ERROR, EFI_UNSUPPORTED, EFI_NOT_FOUND}"
  shows "\<exists>offs. rom_chain rom 0 offs \<and>
    (\<forall>x \<in> set offs. \<not> candidate rom (unat vendor) (unat device) x) \<and>
    (e = EFI_CRC_ERROR \<longleftrightarrow> (\<exists>x \<in> set offs. image_target rom (unat vendor) (unat device) x \<and> image_pcat rom x)) \<and>
    (e = EFI_UNSUPPORTED \<longrightarrow> (\<exists>x \<in> set offs. image_target rom (unat vendor) (unat device) x \<and>
        field8 rom (pcir_pos rom x + 0x14) = 3)) \<and>
    (e = EFI_NOT_FOUND \<longrightarrow> (\<forall>x \<in> set offs. \<not> (image_target rom (unat vendor) (unat device) x \<and>
        field8 rom (pcir_pos rom x + 0x14) \<in> {0, 3})))"
proof -
  obtain w where run: "ImageLoop (length rom div OPTION_ROM_BLOCK_SIZE) rom (unat vendor) (unat device) start_walk = Inr w"
    and seen: "FinalIndicatorSeen (w_Validation w)" and found: "\<not> MatchingLegacyImageFound (w_Validation w)"
    and e: "e = (if w_SawMatchingLegacyChecksumFailure w \<or> w_SawMatchingLegacy w then EFI_CRC_ERROR
      else if MatchingUefiImageSeen (w_Validation w) then EFI_UNSUPPORTED else EFI_NOT_FOUND)"
    using assms by (auto simp: OptionRomParseAndValidate_def start_walk_def ebind_Inl_iff dest!: ImageLoop_Inl split: if_splits)
  obtain offs where chain: "rom_chain rom 0 offs" and rec: "recorded rom (unat vendor) (unat device) offs w"
    using ImageLoop_chain [OF run recorded_start(1) recorded_start(2) seen] by (auto simp: start_walk_def)
  have none: "\<forall>x \<in> set offs. \<not> candidate rom (unat vendor) (unat device) x"
    using rec found by (simp add: recorded_def Let_def filter_empty_conv)
  have saw: "w_SawMatchingLegacyChecksumFailure w \<or> w_SawMatchingLegacy w \<longleftrightarrow>
      (\<exists>x \<in> set offs. image_target rom (unat vendor) (unat device) x \<and> image_pcat rom x)"
    and uefi: "MatchingUefiImageSeen (w_Validation w) \<longleftrightarrow>
      (\<exists>x \<in> set offs. image_target rom (unat vendor) (unat device) x \<and> field8 rom (pcir_pos rom x + 0x14) = 3)"
    using rec by (auto simp: recorded_def Let_def)
  show ?thesis
    using e saw uefi by (intro exI [of _ offs] conjI chain none) (auto simp: image_pcat_def split: if_splits)
qed

text \<open>A minimal ROM: one PCAT image of one block for device 10DE:1C82.\<close>

definition sample_head :: rom where
  "sample_head = [0x55, 0xAA, 1, 0, 0, 0, 0, 0, 0, 0, 0, 0, 0, 0, 0, 0, 0, 0, 0, 0, 0, 0, 0, 0, 0x1C, 0, 0, 0,
     0x50, 0x43, 0x49, 0x52, 0xDE, 0x10, 0x82, 0x1C, 0, 0, 0x18, 0, 0, 0, 0, 3, 1, 0, 0, 0, 0, 0x80, 0, 0]"

definition sample_rom :: rom where
  "sample_rom = sample_head @ replicate 459 0 @ [142]"

lemma length_sample_rom [simp]: "length sample_rom = 512"
  by (simp add: sample_rom_def sample_head_def)

lemma sample_checksum: "ComputeChecksum sample_rom 0 512 = Some 0"
  by (simp add: ComputeChecksum_eq byte_sum_def) (simp add: sample_rom_def sample_head_def sum_list_replicate)

lemma sample_reads:
  "ReadRomBytes sample_rom 0 26 = Some (take 26 sample_head)"
  "ReadRomBytes sample_rom 28 24 = Some (drop 28 sample_head)"
  "ReadRomBytes sample_rom 2 1 = Some [1]"
  by (simp_all add: ReadRomBytes_def RangeIsInside_iff) (simp_all add: sample_rom_def sample_head_def)

lemma sample_ReadImage:
  "ReadImage sample_rom 0 = Inr (28, decode_pcir22 (drop 28 sample_head), 512)"
  by (simp add: ReadImage_def sample_reads)
    (simp add: sample_head_def decode_header_def decode_pcir22_def field8_def field16_def field32_def ncv_defs
      MAX_UINTN_def sample_reads(2) [unfolded sample_head_def, simplified] RangeIsInside_iff)

lemma sample_fields:
  "p_Revision (decode_pcir22 (drop 28 sample_head)) = 0" "p_CodeType (decode_pcir22 (drop 28 sample_head)) = 0"
  "p_Indicator (decode_pcir22 (drop 28 sample_head)) = 0x80" "p_Length (decode_pcir22 (drop 28 sample_head)) = 0x18"
  "p_VendorId (decode_pcir22 (drop 28 sample_head)) = 0x10DE" "p_DeviceId (decode_pcir22 (drop 28 sample_head)) = 0x1C82"
  by (simp_all add: decode_pcir22_def sample_head_def field8_def field16_def)

lemma sample_step:
  assumes "device = 0x1C82 \<or> device = 7"
  shows "\<exists>w. ImageStep sample_rom 0x10DE device start_walk = Inr (True, w) \<and> FinalIndicatorSeen (w_Validation w) \<and>
    MatchingLegacyImageFound (w_Validation w) = (device = 0x1C82) \<and> \<not> MatchingUefiImageSeen (w_Validation w) \<and>
    w_SawMatchingLegacy w = (device = 0x1C82) \<and> \<not> w_SawMatchingLegacyChecksumFailure w"
proof -
  have legacy: "ValidateLegacy sample_rom 0 28 (decode_pcir22 (drop 28 sample_head)) None 512 = Inr True"
    by (simp add: ValidateLegacy_def LogAndValidateLegacyHeader_def sample_fields sample_reads(3) [unfolded numeral_2_eq_2 One_nat_def] sample_checksum
        ValidatePcatLayout_def RangeIsInside_iff ncv_defs field8_def MAX_UINTN_def)
  show ?thesis
    using assms
    by (auto simp: ImageStep_def start_walk_def sample_ReadImage ReadPci30_def sample_fields sample_checksum legacy
        RecordImage_def empty_validation_def ncv_defs MAX_UINTN_def Let_def)
qed

lemma sample_accepted: "\<exists>v. OptionRomParseAndValidate (Some (0xC0000, sample_rom)) 512 0x10DE 0x1C82 = Inr v"
proof -
  obtain w where "ImageStep sample_rom 0x10DE 0x1C82 start_walk = Inr (True, w)" "FinalIndicatorSeen (w_Validation w)"
    "MatchingLegacyImageFound (w_Validation w)" using sample_step [of "0x1C82"] by auto
  then have "OptionRomParseAndValidate (Some (0xC0000, sample_rom)) 512 0x10DE 0x1C82 = Inr (w_Validation w)"
    by (simp add: OptionRomParseAndValidate_def start_walk_def [symmetric] ncv_defs MAX_UINTN_def)
  then show ?thesis by blast
qed

theorem OptionRomParseAndValidate_sound_witness:
  "\<exists>v offs. OptionRomParseAndValidate (Some (0xC0000, sample_rom)) 512 0x10DE 0x1C82 = Inr v \<and>
     rom_chain sample_rom 0 offs \<and> ImageCount v = length offs"
  using OptionRomParseAndValidate_sound sample_accepted by blast

theorem OptionRomParseAndValidate_verdicts_witness:
  "OptionRomParseAndValidate (Some (0xC0000, sample_rom)) 512 0x10DE 7 = Inl EFI_NOT_FOUND \<and> (\<exists>offs. rom_chain sample_rom 0 offs)"
proof -
  obtain w where "ImageStep sample_rom 0x10DE 7 start_walk = Inr (True, w)" "FinalIndicatorSeen (w_Validation w)"
    "\<not> MatchingLegacyImageFound (w_Validation w)" "\<not> MatchingUefiImageSeen (w_Validation w)"
    "\<not> w_SawMatchingLegacy w" "\<not> w_SawMatchingLegacyChecksumFailure w" using sample_step [of 7] by auto
  then have "OptionRomParseAndValidate (Some (0xC0000, sample_rom)) 512 0x10DE 7 = Inl EFI_NOT_FOUND"
    by (simp add: OptionRomParseAndValidate_def start_walk_def [symmetric] ncv_defs MAX_UINTN_def)
  from OptionRomParseAndValidate_verdicts [OF this] this show ?thesis by blast
qed

end
