(* ===== verification/Rom_View.thy ===== *)
theory Rom_View
  imports Option_Rom
begin

text \<open>
  What the ROM checks of \<open>LegacyRomGuard.c\<close>, \<open>LegacyStorageRom.c\<close>, \<open>LegacyFirmwareDisk.c\<close> and
  \<open>RomPlacement.c\<close> share: byte arrays seen through a pointer, little-endian 16-bit reads, blocks of
  512 bytes that were readable when the array was filled, and the copied PCI identities of
  \<open>LegacyPciIdentity.h\<close>.

  A pointer to bytes is a function from offsets to bytes; that no routine depends on a byte it was
  not allowed to read is a theorem of the routine, not a property of the type.
\<close>

type_synonym bytes = "nat \<Rightarrow> NCV_U8"

definition Le16 :: "bytes \<Rightarrow> nat \<Rightarrow> NCV_U16" where
  "Le16 P i = ucast (P i) OR push_bit 8 (ucast (P (i + 1)))"

text \<open>\<open>CompareMem (A + a, B + b, n) == 0\<close>.\<close>

definition bytes_eq :: "bytes \<Rightarrow> nat \<Rightarrow> bytes \<Rightarrow> nat \<Rightarrow> nat \<Rightarrow> bool" where
  "bytes_eq A a B b n \<longleftrightarrow> list_all (\<lambda>i. A (a + i) = B (b + i)) [0..<n]"

definition bytes_of :: "NCV_U8 list \<Rightarrow> bytes" where
  "bytes_of xs i = (if i < length xs then xs ! i else 0)"

definition PCIR :: bytes where "PCIR = bytes_of [0x50, 0x43, 0x49, 0x52]"
definition PnP :: bytes where "PnP = bytes_of [0x24, 0x50, 0x6E, 0x50]"

lemma bytes_eq_iff: "bytes_eq A a B b n \<longleftrightarrow> (\<forall>i<n. A (a + i) = B (b + i))"
  by (auto simp: bytes_eq_def list_all_iff)

lemma Le16_cong: "A i = B j \<Longrightarrow> A (i + 1) = B (j + 1) \<Longrightarrow> Le16 A i = Le16 B j"
  by (simp add: Le16_def)

lemma unat_Le16: "unat (Le16 P i) = unat (P i) + 256 * unat (P (i + 1))"
proof -
  have "Le16 P i = ucast (P i) + push_bit 8 (ucast (P (i + 1)))"
    unfolding Le16_def
    by (rule disjunctive_add_eq_or [symmetric]) (auto simp: bit_eq_iff bit_simps dest: bit_imp_le_length)
  moreover have "unat (P i) < 256" "unat (P (i + 1)) < 256" by (rule unat_le_mask_byte)+
  moreover have "unat (ucast x :: NCV_U16) = unat x" for x :: NCV_U8
    using unat_le_mask_byte [of x] by (simp add: unsigned_ucast_eq take_bit_nat_eq_self)
  ultimately show ?thesis
    by (simp add: push_bit_eq_mult unat_word_ariths)
qed

lemma digit_eq: "a < n \<Longrightarrow> c < n \<Longrightarrow> a + n * b = c + n * d \<longleftrightarrow> a = c \<and> b = d" for a b c d n :: nat
  by (metis add.commute add_left_imp_eq div_mult_self4 div_less less_nat_zero_code mod_less mod_mult_self4 mult.commute
      add_0 mult_cancel1 neq0_conv)

section \<open>Blocks that were readable\<close>

text \<open>The loop over the blocks from the one of \<open>Offset\<close> to the one of the last byte.\<close>

definition BlocksValid :: "bytes \<Rightarrow> nat \<Rightarrow> nat \<Rightarrow> bool" where
  "BlocksValid valid offset n = list_all (\<lambda>b. valid b = 1) [offset div 512..<Suc ((offset + n - 1) div 512)]"

lemma BlocksValid_iff:
  assumes "0 < n"
  shows "BlocksValid valid offset n \<longleftrightarrow> (\<forall>i<n. valid ((offset + i) div 512) = 1)"
proof
  assume L: "BlocksValid valid offset n"
  show "\<forall>i<n. valid ((offset + i) div 512) = 1"
  proof (intro allI impI)
    fix i assume "i < n"
    then have "offset div 512 \<le> (offset + i) div 512" "(offset + i) div 512 \<le> (offset + n - 1) div 512"
      by (auto intro!: div_le_mono)
    then have "(offset + i) div 512 \<in> set [offset div 512..<Suc ((offset + n - 1) div 512)]"
      by (simp only: set_upt atLeastLessThan_iff less_Suc_eq_le conj_assoc)
    with L show "valid ((offset + i) div 512) = 1" unfolding BlocksValid_def list_all_iff by blast
  qed
next
  assume R: "\<forall>i<n. valid ((offset + i) div 512) = 1"
  have "valid b = 1" if b: "offset div 512 \<le> b" "b \<le> (offset + n - 1) div 512" for b
  proof (cases "b = offset div 512")
    case True
    with R assms show ?thesis by force
  next
    case False
    then have "offset div 512 < b" using b by simp
    then have "offset < b * 512" by (simp add: div_less_iff_less_mult)
    moreover have "b * 512 \<le> offset + n - 1" using b(2) by (simp add: less_eq_div_iff_mult_less_eq)
    ultimately have "valid ((offset + (b * 512 - offset)) div 512) = 1"
      using R [rule_format, of "b * 512 - offset"] assms by linarith
    with \<open>offset < b * 512\<close> show ?thesis by simp
  qed
  then show "BlocksValid valid offset n" by (auto simp: BlocksValid_def list_all_iff)
qed

text \<open>
  The contract of a bounds check: a range is granted exactly when it is nonempty, lies inside the
  array and every byte of it is good. Clients only use that granted ranges are closed under
  subranges and that views agreeing on good bytes agree on a granted range.
\<close>

locale range_check =
  fixes granted :: "nat \<Rightarrow> nat \<Rightarrow> bool" and limit :: nat and good :: "nat \<Rightarrow> bool"
  assumes granted_iff: "granted off n \<longleftrightarrow> 0 < n \<and> off + n \<le> limit \<and> (\<forall>i<n. good (off + i))"
begin

lemma granted_byte:
  assumes "granted off n" and "off \<le> x" and "x < off + n"
  shows "good x" and "x < limit"
  using assms granted_iff [of off n] spec [of "\<lambda>i. i < n \<longrightarrow> good (off + i)" "x - off"] by auto

lemma granted_sub:
  assumes "granted off n" and "off \<le> off'" and "0 < n'" and "off' + n' \<le> off + n"
  shows "granted off' n'"
  using assms granted_byte(1) [OF assms(1)] by (auto simp: granted_iff [of off n] granted_iff [of off' n'])

lemma granted_append:
  assumes "granted off n" and "granted (off + n) m"
  shows "granted off (n + m)"
proof -
  have "good (off + i)" if "i < n + m" for i
    using that granted_byte(1) [OF assms(1), of "off + i"] granted_byte(1) [OF assms(2), of "off + i"] by (cases "i < n") auto
  with assms show ?thesis by (auto simp: granted_iff)
qed

end

end
