(* ===== verification/Rom_Placement.thy ===== *)
theory Rom_Placement
  imports Rom_View
begin

text \<open>
  \<open>RomPlacement.c\<close>: the independent reader of the placement contract of one copied x86 ROM image,
  and its agreement with the full option-ROM validator.
\<close>

record NCV_ROM_PLACEMENT_FACTS =
  f_Valid :: nat
  f_Revision :: nat
  f_ImageBytes :: nat
  f_MaxRuntimeBytes :: nat

datatype NCV_ROM_PLACEMENT_RESULT =
    NcvPlacementInvalidRom
  | NcvPlacementInPlaceRom
  | NcvPlacementUnknownRuntime
  | NcvPlacementRuntimeOverlap
  | NcvPlacementNeedsFirmwareAndBackend

definition no_facts :: NCV_ROM_PLACEMENT_FACTS where
  "no_facts = \<lparr>f_Valid = 0, f_Revision = 0, f_ImageBytes = 0, f_MaxRuntimeBytes = 0\<rparr>"

text \<open>\<open>Sum = (Sum + Rom[Index]) & 255\<close> over the first bytes.\<close>

definition SumBytes :: "bytes \<Rightarrow> nat \<Rightarrow> nat" where
  "SumBytes rom n = foldl (\<lambda>sum i. (sum + unat (rom i)) mod 256) 0 [0..<n]"

definition NcvRomPlacementReadFacts :: "bytes option \<Rightarrow> nat \<Rightarrow> NCV_ROM_PLACEMENT_FACTS" where
  "NcvRomPlacementReadFacts romPointer n =
     (case romPointer of None \<Rightarrow> no_facts
      | Some rom \<Rightarrow>
          if n < 512 \<or> n > 65536 \<or> n mod 512 \<noteq> 0 \<or> rom 0 \<noteq> 0x55 \<or> rom 1 \<noteq> 0xaa then no_facts
          else let initBytes = unat (rom 2) * 512; pcir = unat (Le16 rom 0x18)
               in if initBytes = 0 \<or> initBytes > n \<or> pcir < 0x1c \<or> pcir > initBytes \<or> 0x18 > initBytes - pcir then no_facts
                  else if rom pcir \<noteq> 0x50 \<or> rom (pcir + 1) \<noteq> 0x43 \<or> rom (pcir + 2) \<noteq> 0x49 \<or> rom (pcir + 3) \<noteq> 0x52
                          \<or> rom (pcir + 0x14) \<noteq> 0 \<or> unat (Le16 rom (pcir + 0x10)) * 512 \<noteq> n then no_facts
                  else let len = unat (Le16 rom (pcir + 0x0a))
                       in if len < 0x18 \<or> len > initBytes - pcir \<or> unat (rom (pcir + 0x0c)) \<ge> 3 \<and> len < 0x1c then no_facts
                          else if SumBytes rom n \<noteq> 0 then no_facts
                          else if SumBytes rom initBytes \<noteq> 0 then no_facts
                          else let facts = no_facts\<lparr>f_Revision := unat (rom (pcir + 0x0c)), f_ImageBytes := n\<rparr>
                               in if f_Revision facts \<ge> 3 then
                                    (let runtime = unat (Le16 rom (pcir + 0x16)) * 512;
                                         facts = facts\<lparr>f_MaxRuntimeBytes := runtime\<rparr>
                                     in if runtime > initBytes \<or> runtime \<noteq> 0 \<and> runtime < pcir + len then facts\<lparr>f_Valid := 0\<rparr>
                                        else facts\<lparr>f_Valid := 1\<rparr>)
                                  else facts\<lparr>f_Valid := 1\<rparr>)"

definition NcvRomPlacementAssess :: "NCV_ROM_PLACEMENT_FACTS option \<Rightarrow> nat \<Rightarrow> NCV_ROM_PLACEMENT_RESULT" where
  "NcvRomPlacementAssess facts runtimeLimit =
     (case facts of None \<Rightarrow> NcvPlacementInvalidRom
      | Some f \<Rightarrow>
          if f_Valid f \<noteq> 1 \<or> f_ImageBytes f = 0 \<or> f_ImageBytes f > 65536 \<or> runtimeLimit = 0 \<or> runtimeLimit > 65536
          then NcvPlacementInvalidRom
          else if f_Revision f < 3 then NcvPlacementInPlaceRom
          else if f_MaxRuntimeBytes f = 0 then NcvPlacementUnknownRuntime
          else if f_MaxRuntimeBytes f > f_ImageBytes f then NcvPlacementInvalidRom
          else if f_MaxRuntimeBytes f > runtimeLimit then NcvPlacementRuntimeOverlap
          else NcvPlacementNeedsFirmwareAndBackend)"

section \<open>Agreement with the option-ROM validator\<close>

text \<open>The image at an offset of a ROM, seen through a pointer to its first byte.\<close>

definition image_view :: "rom \<Rightarrow> nat \<Rightarrow> bytes" where
  "image_view rom off i = rom ! (off + i)"

lemma SumBytes_mod: "SumBytes b n = sum_list (map (\<lambda>i. unat (b i)) [0..<n]) mod 256"
  by (induction n) (simp_all add: SumBytes_def mod_add_left_eq)

lemma SumBytes_image:
  assumes "off + n \<le> length rom"
  shows "SumBytes (image_view rom off) n = 0 \<longleftrightarrow> 256 dvd byte_sum rom off n"
proof -
  have "map (\<lambda>i. unat (rom ! (off + i))) [0..<n] = map unat (take n (drop off rom))"
    using assms by (intro nth_equalityI) simp_all
  then show ?thesis by (simp add: SumBytes_mod byte_sum_def image_view_def mod_eq_0_iff_dvd)
qed

lemma image_view_fields:
  "unat (image_view rom off i) = field8 rom (off + i)"
  "unat (Le16 (image_view rom off) i) = field16 rom (off + i)"
  by (simp_all add: image_view_def field8_def field16_def unat_Le16)

lemma image_view_eq_iff: "unat b = k \<Longrightarrow> image_view rom off i = b \<longleftrightarrow> field8 rom (off + i) = k"
  by (auto simp: image_view_def field8_def simp flip: word_unat_eq_iff)

lemma field_bytes:
  "field16 rom i = 0xAA55 \<longleftrightarrow> field8 rom i = 0x55 \<and> field8 rom (i + 1) = 0xaa"
  "field32 rom i = 0x52494350 \<longleftrightarrow> field8 rom i = 0x50 \<and> field8 rom (i + 1) = 0x43 \<and> field8 rom (i + 2) = 0x49 \<and> field8 rom (i + 3) = 0x52"
proof -
  have f: "field16 rom j = field8 rom j + 256 * field8 rom (j + 1)" for j by (simp add: field16_def field8_def)
  have w: "field16 rom j < 65536" for j
    using f [of j] field8_less [of rom j] field8_less [of rom "j + 1"] by linarith
  have e16: "field16 rom j = a + 256 * b \<longleftrightarrow> field8 rom j = a \<and> field8 rom (j + 1) = b" if "a < 256" for a b j
    unfolding f by (rule digit_eq [OF field8_less that])
  show "field16 rom i = 0xAA55 \<longleftrightarrow> field8 rom i = 0x55 \<and> field8 rom (i + 1) = 0xaa"
    using e16 [of "0x55" i "0xaa"] by simp
  have "field32 rom i = 0x52494350 \<longleftrightarrow> field16 rom i = 0x50 + 256 * 0x43 \<and> field16 rom (i + 2) = 0x49 + 256 * 0x52"
    using digit_eq [of "field16 rom i" 65536 "0x4350" "field16 rom (i + 2)" "0x5249"] w [of i] by (simp add: field32_def)
  also have "\<dots> \<longleftrightarrow> field8 rom i = 0x50 \<and> field8 rom (i + 1) = 0x43 \<and> field8 rom (i + 2) = 0x49 \<and> field8 rom (i + 3) = 0x52"
    by (subst (1 2) e16) (simp_all add: numeral_3_eq_3)
  finally show "field32 rom i = 0x52494350 \<longleftrightarrow>
      field8 rom i = 0x50 \<and> field8 rom (i + 1) = 0x43 \<and> field8 rom (i + 2) = 0x49 \<and> field8 rom (i + 3) = 0x52" .
qed


text \<open>An image that fits a window of 64 KiB.\<close>

lemma fitting_image_has_facts:
  assumes "OptionRomParseAndValidate (Some (base, rom)) expectedSize vendor device = Inr v"
    and "MatchingLegacyImageSize v \<le> 65536"
  defines "off \<equiv> MatchingLegacyImageOffset v"
  shows "NcvRomPlacementReadFacts (Some (image_view rom off)) (MatchingLegacyImageSize v) =
    \<lparr>f_Valid = 1, f_Revision = MatchingLegacyPcirRevision v, f_ImageBytes = MatchingLegacyImageSize v,
     f_MaxRuntimeBytes = (if MatchingLegacyPcirRevision v \<ge> 3 then runtime_size rom off else 0)\<rparr>"
proof -
  obtain offs w where chain: "rom_chain rom 0 offs" and rec: "recorded rom (unat vendor) (unat device) offs w"
    and v: "v = w_Validation w" and ne: "filter (candidate rom (unat vendor) (unat device)) offs \<noteq> []"
    by (rule accepted_rom [OF assms(1)])
  have size: "MatchingLegacyImageSize v = image_size rom off" and rev: "MatchingLegacyPcirRevision v = field8 rom (pcir_pos rom off + 0xC)"
    and off: "off = hd (filter (candidate rom (unat vendor) (unat device)) offs)"
    using rec ne by (auto simp: recorded_def Let_def v off_def)
  have wf: "image_wf rom off" and cand: "candidate rom (unat vendor) (unat device) off"
    unfolding off by (rule hd_candidate [OF chain ne])+
  then have pcat: "image_pcat rom off" and sums: "256 dvd byte_sum rom off (image_size rom off)" "256 dvd byte_sum rom off (legacy_size rom off)"
    by (simp_all add: candidate_def image_sound_def)
  define p where "p = field16 rom (off + 0x18)"
  have pos: "pcir_pos rom off = off + p" by (simp add: pcir_pos_def p_def)
  have "4 dvd p" "0x1A \<le> p" using wf by (auto simp: image_wf_def pos)
  then have p28: "0x1c \<le> p" by (auto elim!: dvdE)
  have lens: "legacy_size rom off \<le> image_size rom off" "off + image_size rom off \<le> length rom" "0 < legacy_size rom off"
    "0x18 \<le> field16 rom (off + p + 0xA)" "p + field16 rom (off + p + 0xA) \<le> legacy_size rom off"
    using wf pcat by (auto simp: image_wf_def pos)
  have sum0: "SumBytes (image_view rom off) (image_size rom off) = 0" "SumBytes (image_view rom off) (legacy_size rom off) = 0"
    using sums lens by (simp_all add: SumBytes_image)
  have sig: "image_view rom off 0 = 0x55" "image_view rom off 1 = 0xaa" "image_view rom off p = 0x50" "image_view rom off (p + 1) = 0x43"
    "image_view rom off (p + 2) = 0x49" "image_view rom off (p + 3) = 0x52" "image_view rom off (p + 0x14) = 0"
    using wf pcat by (simp_all add: image_wf_def pos image_view_eq_iff field_bytes image_pcat_def add.assoc)
  have ini: "unat (image_view rom off 2) * 512 = legacy_size rom off" by (simp add: image_view_fields legacy_size_def)
  have "512 dvd image_size rom off" "512 \<le> image_size rom off"
    using wf by (auto simp: image_wf_def image_size_def)
  moreover have "field8 rom (off + p + 0xC) \<ge> 3 \<Longrightarrow> 0x1C \<le> field16 rom (off + p + 0xA) \<and> runtime_size rom off \<le> legacy_size rom off \<and>
      (runtime_size rom off = 0 \<or> p + field16 rom (off + p + 0xA) \<le> runtime_size rom off)"
    using wf pcat by (auto simp: image_wf_def pos)
  moreover have g: "unat (Le16 (image_view rom off) 0x18) = p" "unat (Le16 (image_view rom off) (p + 0x10)) * 512 = image_size rom off"
    "unat (Le16 (image_view rom off) (p + 0x16)) * 512 = runtime_size rom off"
    "unat (Le16 (image_view rom off) (p + 0x0a)) = field16 rom (off + p + 0xA)"
    "unat (image_view rom off (p + 0x0c)) = field8 rom (off + p + 0xC)"
    by (simp_all add: image_view_fields p_def image_size_def runtime_size_def pcir_pos_def add.assoc)
  ultimately show ?thesis
    using assms(2) p28 lens
    by (cases "field8 rom (off + p + 0xC) \<ge> 3")
      (simp_all add: NcvRomPlacementReadFacts_def Let_def ini size rev pos no_facts_def sig sum0 mod_eq_0_iff_dvd
        del: One_nat_def add_Suc_right add_2_eq_Suc', auto)
qed

text \<open>
  C36. The two independent readers agree. For every ROM the full validator accepts, the placement reader, applied to the reported
  legacy image, reads off the same revision and size, together with the resident size the image declares, which is at most the
  initialization size, when the image fits its window of 64 KiB; a larger image, which the validator does not exclude, gets no facts.
\<close>

theorem validated_rom_has_placement_facts:
  assumes "OptionRomParseAndValidate (Some (base, rom)) expectedSize vendor device = Inr v"
  shows "NcvRomPlacementReadFacts (Some (image_view rom (MatchingLegacyImageOffset v))) (MatchingLegacyImageSize v) =
    (if MatchingLegacyImageSize v \<le> 65536
     then \<lparr>f_Valid = 1, f_Revision = MatchingLegacyPcirRevision v, f_ImageBytes = MatchingLegacyImageSize v,
       f_MaxRuntimeBytes = (if MatchingLegacyPcirRevision v \<ge> 3 then runtime_size rom (MatchingLegacyImageOffset v) else 0)\<rparr>
     else no_facts)"
proof (cases "MatchingLegacyImageSize v \<le> 65536")
  case True
  with fitting_image_has_facts [OF assms True] show ?thesis by simp
next
  case False
  then show ?thesis by (simp add: NcvRomPlacementReadFacts_def)
qed

theorem validated_rom_has_placement_facts_witness:
  "\<exists>v. OptionRomParseAndValidate (Some (0xC0000, sample_rom)) 512 0x10DE 0x1C82 = Inr v \<and>
     f_Valid (NcvRomPlacementReadFacts (Some (image_view sample_rom (MatchingLegacyImageOffset v))) (MatchingLegacyImageSize v)) = 1"
proof -
  obtain v where v: "OptionRomParseAndValidate (Some (0xC0000, sample_rom)) 512 0x10DE 0x1C82 = Inr v"
    using sample_accepted by blast
  then have "MatchingLegacyImageSize v \<le> 65536" using accepted_size [OF v] by simp
  with validated_rom_has_placement_facts [OF v] v show ?thesis by auto
qed

end
