(* ===== verification/Memory_Map.thy ===== *)
theory Memory_Map
  imports Efi_Base
begin

text \<open>
  \<open>MemoryMap.c\<close>: capturing the firmware memory map and deciding whether a range of addresses
  may be read or written. The firmware services (\<open>GetMemoryMap\<close>, pool allocation) are parameters
  over an arbitrary world. The outer loop of \<open>MemoryMapRangeAccessible\<close> has no explicit bound;
  its termination is proved from the strictly increasing cursor. Addresses are natural numbers up to
  \<open>MAX_UINT64\<close>, with the overflow tests of the source.
\<close>

section \<open>Data\<close>

datatype EFI_MEMORY_TYPE =
    EfiReservedMemoryType | EfiLoaderCode | EfiLoaderData | EfiBootServicesCode | EfiBootServicesData
  | EfiRuntimeServicesCode | EfiRuntimeServicesData | EfiConventionalMemory | EfiACPIReclaimMemory
  | EfiACPIMemoryNVS | EfiPersistentMemory | OtherMemoryType nat

text \<open>The three attribute bits that the source tests are kept as booleans.\<close>

record EFI_MEMORY_DESCRIPTOR =
  md_Type :: EFI_MEMORY_TYPE
  md_PhysicalStart :: nat
  md_NumberOfPages :: nat
  md_RP :: bool
  md_RO :: bool
  md_WP :: bool

record MEMORY_MAP_SNAPSHOT =
  ms_Map :: "EFI_MEMORY_DESCRIPTOR list option"
  ms_MapSize :: nat
  ms_DescriptorSize :: nat
  ms_DescriptorVersion :: nat

abbreviation MAX_UINT64 :: nat where "MAX_UINT64 \<equiv> MAX_UINTN"
definition EFI_PAGE_SIZE :: nat where [ncv_defs]: "EFI_PAGE_SIZE = 4096"
definition MEMORY_MAP_CAPTURE_ATTEMPTS :: nat where [ncv_defs]: "MEMORY_MAP_CAPTURE_ATTEMPTS = 4"
definition MEMORY_MAP_SLACK_ENTRIES :: nat where [ncv_defs]: "MEMORY_MAP_SLACK_ENTRIES = 8"
definition sizeof_descriptor :: nat where [ncv_defs]: "sizeof_descriptor = 40"

section \<open>Operations\<close>

fun MemoryTypeMayBeRead :: "EFI_MEMORY_TYPE \<Rightarrow> bool" where
  "MemoryTypeMayBeRead (OtherMemoryType n) = False"
| "MemoryTypeMayBeRead t = True"

text \<open>
  \<open>GetMemoryMap\<close>: given the buffer size, it returns a status, the map size, the descriptor size
  and version, and the descriptors it stored.
\<close>

record 'w memory_services =
  GetMemoryMap :: "'w \<Rightarrow> nat \<Rightarrow> (EFI_STATUS \<times> nat \<times> nat \<times> nat \<times> EFI_MEMORY_DESCRIPTOR list) \<times> 'w"
  AllocatePool :: "'w \<Rightarrow> nat \<Rightarrow> bool \<times> 'w"

fun CaptureLoop ::
  "nat \<Rightarrow> 'w memory_services \<Rightarrow> 'w \<Rightarrow> nat \<Rightarrow> (EFI_STATUS + MEMORY_MAP_SNAPSHOT) \<times> 'w" where
  "CaptureLoop 0 bs w requiredSize = (Inl EFI_BUFFER_TOO_SMALL, w)"
| "CaptureLoop (Suc n) bs w requiredSize =
     (let (ok, w) = AllocatePool bs w requiredSize
      in if \<not> ok then (Inl EFI_OUT_OF_RESOURCES, w)
         else let ((status, mapSize, descriptorSize, version, ds), w) = GetMemoryMap bs w requiredSize
              in if status = EFI_SUCCESS then
                   (if mapSize = 0 \<or> mapSize > requiredSize \<or> descriptorSize < sizeof_descriptor
                       \<or> mapSize mod descriptorSize \<noteq> 0 then (Inl EFI_BAD_BUFFER_SIZE, w)
                    else (Inr \<lparr>ms_Map = Some ds, ms_MapSize = mapSize, ms_DescriptorSize = descriptorSize,
                               ms_DescriptorVersion = version\<rparr>, w))
                 else if \<not> EFI_ERROR status then (Inl EFI_PROTOCOL_ERROR, w)
                 else if status \<noteq> EFI_BUFFER_TOO_SMALL then (Inl status, w)
                 else if descriptorSize < sizeof_descriptor \<or> descriptorSize > MAX_UINTN div MEMORY_MAP_SLACK_ENTRIES
                         \<or> mapSize > MAX_UINTN - descriptorSize * MEMORY_MAP_SLACK_ENTRIES
                 then (Inl EFI_BAD_BUFFER_SIZE, w)
                 else CaptureLoop n bs w (mapSize + descriptorSize * MEMORY_MAP_SLACK_ENTRIES))"

definition MemoryMapCapture :: "'w memory_services \<Rightarrow> 'w \<Rightarrow> (EFI_STATUS + MEMORY_MAP_SNAPSHOT) \<times> 'w" where
  "MemoryMapCapture bs w =
     (let ((status, requiredSize, descriptorSize, version, ds), w) = GetMemoryMap bs w 0
      in if status \<noteq> EFI_BUFFER_TOO_SMALL then (Inl (if EFI_ERROR status then status else EFI_PROTOCOL_ERROR), w)
         else if descriptorSize < sizeof_descriptor \<or> descriptorSize > MAX_UINTN div MEMORY_MAP_SLACK_ENTRIES
                 \<or> requiredSize > MAX_UINTN - descriptorSize * MEMORY_MAP_SLACK_ENTRIES
         then (Inl EFI_BAD_BUFFER_SIZE, w)
         else CaptureLoop MEMORY_MAP_CAPTURE_ATTEMPTS bs w (requiredSize + descriptorSize * MEMORY_MAP_SLACK_ENTRIES))"

definition MemoryMapRelease :: "MEMORY_MAP_SNAPSHOT option \<Rightarrow> MEMORY_MAP_SNAPSHOT option" where
  "MemoryMapRelease snapshot =
     (case snapshot of None \<Rightarrow> None
      | Some s \<Rightarrow> Some \<lparr>ms_Map = None, ms_MapSize = 0, ms_DescriptorSize = 0, ms_DescriptorVersion = 0\<rparr>)"

text \<open>The inner scan over all descriptors for one cursor position.\<close>

record map_scan =
  sc_Covering :: "EFI_MEMORY_DESCRIPTOR option"
  sc_Overlap :: bool
  sc_CoveredLast :: nat
  sc_NextStart :: nat

definition ScanStep :: "nat \<Rightarrow> map_scan \<Rightarrow> EFI_MEMORY_DESCRIPTOR \<Rightarrow> unit + map_scan" where
  "ScanStep cursor s d =
     (if md_NumberOfPages d > MAX_UINT64 div EFI_PAGE_SIZE then Inl ()
      else let bytes = md_NumberOfPages d * EFI_PAGE_SIZE
           in if bytes = 0 then Inr s
              else if md_PhysicalStart d > MAX_UINT64 - (bytes - 1) then Inl ()
              else let descriptorLast = md_PhysicalStart d + bytes - 1
                   in if cursor \<ge> md_PhysicalStart d \<and> cursor \<le> descriptorLast then
                        Inr (s\<lparr>sc_Overlap := sc_Overlap s \<or> sc_Covering s \<noteq> None,
                               sc_Covering := Some d, sc_CoveredLast := descriptorLast\<rparr>)
                      else if md_PhysicalStart d > cursor \<and> md_PhysicalStart d < sc_NextStart s then
                        Inr (s\<lparr>sc_NextStart := md_PhysicalStart d\<rparr>)
                      else Inr s)"

definition ScanMap :: "nat \<Rightarrow> EFI_MEMORY_DESCRIPTOR list \<Rightarrow> unit + map_scan" where
  "ScanMap cursor ds = efold (ScanStep cursor)
     \<lparr>sc_Covering = None, sc_Overlap = False, sc_CoveredLast = 0, sc_NextStart = MAX_UINT64\<rparr> ds"

definition MayAccess :: "bool \<Rightarrow> EFI_MEMORY_DESCRIPTOR \<Rightarrow> bool" where
  "MayAccess writable d \<longleftrightarrow> \<not> (\<not> MemoryTypeMayBeRead (md_Type d) \<or> md_RP d
     \<or> writable \<and> (md_RO d \<or> md_WP d \<or> md_Type d = EfiLoaderCode \<or> md_Type d = EfiBootServicesCode
                  \<or> md_Type d = EfiRuntimeServicesCode \<or> md_Type d = EfiPersistentMemory))"

text \<open>The last address known to be covered by exactly the scanned descriptor.\<close>

definition ScanLast :: "map_scan \<Rightarrow> nat" where
  "ScanLast s =
     (let last = (if sc_NextStart s \<noteq> MAX_UINT64 \<and> sc_NextStart s \<le> sc_CoveredLast s
                  then sc_NextStart s - 1 else sc_CoveredLast s)
      in if last > MAX_UINTN then MAX_UINTN else last)"

subsection \<open>Scans make progress\<close>

lemma ScanStep_progress:
  assumes "ScanStep cursor s d = Inr s'"
    and "(sc_Covering s \<noteq> None \<longrightarrow> cursor \<le> sc_CoveredLast s) \<and> (sc_NextStart s = MAX_UINT64 \<or> cursor < sc_NextStart s)"
  shows "(sc_Covering s' \<noteq> None \<longrightarrow> cursor \<le> sc_CoveredLast s') \<and> (sc_NextStart s' = MAX_UINT64 \<or> cursor < sc_NextStart s')"
  using assms by (auto simp: ScanStep_def Let_def split: if_splits)

lemma ScanMap_progress:
  assumes "ScanMap cursor ds = Inr s" and "sc_Covering s = Some d"
  shows "cursor \<le> MAX_UINTN \<or> ScanLast s \<noteq> MAX_UINTN \<Longrightarrow> cursor \<le> ScanLast s" and "ScanLast s \<le> MAX_UINTN"
proof -
  let ?P = "\<lambda>s. (sc_Covering s \<noteq> None \<longrightarrow> cursor \<le> sc_CoveredLast s) \<and> (sc_NextStart s = MAX_UINT64 \<or> cursor < sc_NextStart s)"
  have "?P s"
    by (rule efold_invariant [where I = ?P and f = "ScanStep cursor", OF ScanStep_progress _ assms(1) [unfolded ScanMap_def]]) simp_all
  then show "cursor \<le> MAX_UINTN \<or> ScanLast s \<noteq> MAX_UINTN \<Longrightarrow> cursor \<le> ScanLast s" "ScanLast s \<le> MAX_UINTN"
    using assms(2) by (auto simp: ScanLast_def Let_def split: if_splits)
qed

section \<open>Accessible ranges\<close>

text \<open>\<open>None\<close> is the immediate \<open>return FALSE\<close> on a malformed descriptor.\<close>

function AccessLoop ::
  "EFI_MEMORY_DESCRIPTOR list \<Rightarrow> nat \<Rightarrow> nat \<Rightarrow> bool \<Rightarrow> bool \<Rightarrow> nat \<Rightarrow> nat \<Rightarrow> nat option" where
  "AccessLoop ds address len wantBytes writable cursor available =
     (case ScanMap cursor ds of
        Inl _ \<Rightarrow> None
      | Inr s \<Rightarrow>
          (case sc_Covering s of
             None \<Rightarrow> Some available
           | Some d \<Rightarrow>
               if sc_Overlap s \<or> \<not> MayAccess writable d then Some available
               else let available = (if ScanLast s - address \<ge> MAX_UINTN then MAX_UINTN else ScanLast s - address + 1)
                    in if \<not> wantBytes \<and> available \<ge> len \<or> ScanLast s = MAX_UINTN then Some available
                       else AccessLoop ds address len wantBytes writable (ScanLast s + 1) available))"
  by pat_completeness auto
termination
proof (relation "measure (\<lambda>(ds, address, len, wantBytes, writable, cursor, available). Suc MAX_UINTN - cursor)", goal_cases)
  case 1
  then show ?case by simp
next
  case (2 ds address len wantBytes writable cursor available s d x)
  with ScanMap_progress [of cursor ds s d] show ?case by auto
qed

declare AccessLoop.simps [simp del]

text \<open>The result together with the value stored in \<open>*ReadableBytes\<close>.\<close>

definition MemoryMapRangeAccessible ::
  "MEMORY_MAP_SNAPSHOT option \<Rightarrow> nat \<Rightarrow> nat \<Rightarrow> bool \<Rightarrow> bool \<Rightarrow> bool \<times> nat" where
  "MemoryMapRangeAccessible snapshot address len wantBytes writable =
     (case snapshot of None \<Rightarrow> (False, 0)
      | Some s \<Rightarrow>
          (case ms_Map s of None \<Rightarrow> (False, 0)
           | Some ds \<Rightarrow>
               if ms_DescriptorSize s < sizeof_descriptor \<or> ms_MapSize s = 0
                  \<or> ms_MapSize s mod ms_DescriptorSize s \<noteq> 0 \<or> len = 0 \<or> address > MAX_UINTN - (len - 1)
               then (False, 0)
               else case AccessLoop (take (ms_MapSize s div ms_DescriptorSize s) ds) address len wantBytes writable address 0 of
                      None \<Rightarrow> (False, 0)
                    | Some available \<Rightarrow> (available \<ge> len, available)))"

definition MemoryMapRangeIsReadable :: "MEMORY_MAP_SNAPSHOT option \<Rightarrow> nat \<Rightarrow> nat \<Rightarrow> bool \<Rightarrow> bool \<times> nat" where
  "MemoryMapRangeIsReadable snapshot address len wantBytes = MemoryMapRangeAccessible snapshot address len wantBytes False"

definition MemoryMapRangeIsWritable :: "MEMORY_MAP_SNAPSHOT option \<Rightarrow> nat \<Rightarrow> nat \<Rightarrow> bool" where
  "MemoryMapRangeIsWritable snapshot address len = fst (MemoryMapRangeAccessible snapshot address len False True)"

text \<open>A released snapshot grants nothing.\<close>

lemma MemoryMapRelease_denies:
  "MemoryMapRangeAccessible (MemoryMapRelease snapshot) address len wantBytes writable = (False, 0)"
  by (simp add: MemoryMapRelease_def MemoryMapRangeAccessible_def split: option.split)

definition MemoryMapValidateBootRanges :: "'w memory_services \<Rightarrow> 'w \<Rightarrow> EFI_STATUS \<times> 'w" where
  "MemoryMapValidateBootRanges bs w =
     (case MemoryMapCapture bs w of
        (Inl status, w) \<Rightarrow> (status, w)
      | (Inr snapshot, w) \<Rightarrow>
          (if \<not> fst (MemoryMapRangeIsReadable (Some snapshot) 0 0x500 False)
              \<or> \<not> fst (MemoryMapRangeIsReadable (Some snapshot) 0xc0000 0x10000 False)
              \<or> \<not> fst (MemoryMapRangeIsReadable (Some snapshot) 0xe0000 0x20000 False)
           then EFI_SECURITY_VIOLATION else EFI_SUCCESS, w))"

section \<open>What an accessible range means\<close>

definition desc_bytes :: "EFI_MEMORY_DESCRIPTOR \<Rightarrow> nat" where
  "desc_bytes d = md_NumberOfPages d * EFI_PAGE_SIZE"

definition desc_wf :: "EFI_MEMORY_DESCRIPTOR \<Rightarrow> bool" where
  "desc_wf d \<longleftrightarrow> md_NumberOfPages d \<le> MAX_UINT64 div EFI_PAGE_SIZE \<and>
     (desc_bytes d = 0 \<or> md_PhysicalStart d + desc_bytes d \<le> Suc MAX_UINT64)"

definition covers :: "nat \<Rightarrow> EFI_MEMORY_DESCRIPTOR \<Rightarrow> bool" where
  "covers x d \<longleftrightarrow> md_PhysicalStart d \<le> x \<and> x < md_PhysicalStart d + desc_bytes d"

text \<open>A byte is accessible when exactly one descriptor covers it and that one permits the access.\<close>

definition byte_ok :: "bool \<Rightarrow> EFI_MEMORY_DESCRIPTOR list \<Rightarrow> nat \<Rightarrow> bool" where
  "byte_ok writable ds x \<longleftrightarrow> (\<exists>d. filter (covers x) ds = [d] \<and> MayAccess writable d)"

lemma ScanStep_cases:
  "ScanStep cursor s d =
     (if \<not> desc_wf d then Inl ()
      else if covers cursor d then
        Inr (s\<lparr>sc_Overlap := sc_Overlap s \<or> sc_Covering s \<noteq> None, sc_Covering := Some d,
               sc_CoveredLast := md_PhysicalStart d + desc_bytes d - 1\<rparr>)
      else if desc_bytes d \<noteq> 0 \<and> md_PhysicalStart d > cursor \<and> md_PhysicalStart d < sc_NextStart s
      then Inr (s\<lparr>sc_NextStart := md_PhysicalStart d\<rparr>)
      else Inr s)"
proof (cases "md_NumberOfPages d > MAX_UINT64 div EFI_PAGE_SIZE")
  case True
  then show ?thesis by (simp add: ScanStep_def desc_wf_def)
next
  case False
  then have "desc_bytes d \<le> MAX_UINT64"
    unfolding desc_bytes_def by (metis div_times_less_eq_dividend le_trans linorder_not_le mult_le_mono1)
  then have guard: "md_PhysicalStart d > MAX_UINT64 - (desc_bytes d - 1) \<longleftrightarrow> md_PhysicalStart d + desc_bytes d > Suc MAX_UINT64"
    if "desc_bytes d \<noteq> 0" using that by auto
  show ?thesis
  proof (cases "desc_bytes d = 0")
    case True
    with False show ?thesis by (auto simp: ScanStep_def desc_bytes_def [symmetric] covers_def desc_wf_def)
  next
    case pos: False
    have "cursor \<le> md_PhysicalStart d + desc_bytes d - 1 \<longleftrightarrow> cursor < md_PhysicalStart d + desc_bytes d"
      using pos by auto
    with False pos guard show ?thesis
      unfolding ScanStep_def covers_def desc_wf_def Let_def desc_bytes_def [symmetric] by auto
  qed
qed

text \<open>The state of the scan after a prefix of the descriptors.\<close>

definition scanned :: "nat \<Rightarrow> EFI_MEMORY_DESCRIPTOR list \<Rightarrow> map_scan \<Rightarrow> bool" where
  "scanned cursor ds s \<longleftrightarrow>
     (case filter (covers cursor) ds of [] \<Rightarrow> sc_Covering s = None \<and> \<not> sc_Overlap s
      | cs \<Rightarrow> sc_Covering s = Some (last cs) \<and> sc_CoveredLast s = md_PhysicalStart (last cs) + desc_bytes (last cs) - 1
               \<and> (sc_Overlap s \<longleftrightarrow> length cs > 1)) \<and>
     (\<forall>d \<in> set ds. desc_bytes d \<noteq> 0 \<and> cursor < md_PhysicalStart d \<longrightarrow> sc_NextStart s \<le> md_PhysicalStart d) \<and>
     (sc_NextStart s = MAX_UINT64 \<or> (\<exists>d \<in> set ds. desc_bytes d \<noteq> 0 \<and> cursor < md_PhysicalStart d \<and> sc_NextStart s = md_PhysicalStart d)) \<and>
     sc_NextStart s \<le> MAX_UINT64 \<and> list_all desc_wf ds"

lemma ScanStep_scanned:
  assumes "scanned cursor ds s" and "ScanStep cursor s d = Inr s'"
  shows "scanned cursor (ds @ [d]) s'"
proof -
  have wf: "desc_wf d" and s': "s' = (if covers cursor d then
        s\<lparr>sc_Overlap := sc_Overlap s \<or> sc_Covering s \<noteq> None, sc_Covering := Some d,
               sc_CoveredLast := md_PhysicalStart d + desc_bytes d - 1\<rparr>
      else if desc_bytes d \<noteq> 0 \<and> md_PhysicalStart d > cursor \<and> md_PhysicalStart d < sc_NextStart s
      then s\<lparr>sc_NextStart := md_PhysicalStart d\<rparr> else s)"
    using assms(2) by (auto simp: ScanStep_cases split: if_splits)
  show ?thesis
  proof (cases "covers cursor d")
    case True
    then have "\<not> cursor < md_PhysicalStart d" by (simp add: covers_def)
    with True wf s' assms(1) show ?thesis
      by (cases "filter (covers cursor) ds") (auto simp: scanned_def)
  next
    case False
    with wf s' assms(1) show ?thesis
      by (cases "filter (covers cursor) ds") (auto simp: scanned_def)
  qed
qed

lemma efold_scanned:
  "scanned cursor ds s \<Longrightarrow> efold (ScanStep cursor) s es = Inr s' \<Longrightarrow> scanned cursor (ds @ es) s'"
proof (induction es arbitrary: ds s)
  case (Cons e es)
  then obtain s1 where "ScanStep cursor s e = Inr s1" "efold (ScanStep cursor) s1 es = Inr s'"
    by (auto simp: ebind_Inr_iff)
  from Cons.IH [OF ScanStep_scanned [OF Cons.prems(1) this(1)] this(2)] show ?case by simp
qed simp

lemma ScanMap_scanned: "ScanMap cursor ds = Inr s \<Longrightarrow> scanned cursor ds s"
  unfolding ScanMap_def by (drule efold_scanned [of cursor "[]", rotated]) (simp_all add: scanned_def)

lemma ScanMap_Inr_iff: "(\<exists>s. ScanMap cursor ds = Inr s) \<longleftrightarrow> list_all desc_wf ds"
proof
  assume "list_all desc_wf ds"
  then have "\<exists>s'. efold (ScanStep cursor) s ds = Inr s'" for s
    by (induction ds arbitrary: s) (auto simp: ScanStep_cases)
  then show "\<exists>s. ScanMap cursor ds = Inr s" by (simp add: ScanMap_def)
qed (auto dest: ScanMap_scanned simp: scanned_def)

text \<open>One scan decides all bytes up to \<open>ScanLast\<close> at once.\<close>

lemma scan_block:
  assumes scan: "ScanMap cursor ds = Inr s" and cov: "sc_Covering s = Some d" and "\<not> sc_Overlap s"
    and x: "cursor \<le> x" "x \<le> ScanLast s"
  shows "filter (covers x) ds = [d]"
proof -
  note S = ScanMap_scanned [OF scan]
  have one: "filter (covers cursor) ds = [d]"
    using S cov assms(3) by (cases "filter (covers cursor) ds") (auto simp: scanned_def)
  then have last: "sc_CoveredLast s = md_PhysicalStart d + desc_bytes d - 1" and d: "covers cursor d" "d \<in> set ds"
    using S by (auto simp: scanned_def dest: filter_eq_ConsD)
  have "covers x e \<longleftrightarrow> covers cursor e" if "e \<in> set ds" for e
  proof
    assume "covers cursor e"
    then have "e \<in> set (filter (covers cursor) ds)" using that by simp
    then have "e = d" unfolding one by simp
    moreover have "x \<le> sc_CoveredLast s" using x(2) by (auto simp: ScanLast_def Let_def split: if_splits)
    ultimately show "covers x e" using d(1) x(1) last by (auto simp: covers_def)
  next
    assume e: "covers x e"
    show "covers cursor e"
    proof (rule ccontr)
      assume "\<not> covers cursor e"
      then have gt: "cursor < md_PhysicalStart e" "desc_bytes e \<noteq> 0" using e x(1) by (auto simp: covers_def)
      then have next_le: "sc_NextStart s \<le> md_PhysicalStart e" using S that by (auto simp: scanned_def)
      have "md_PhysicalStart e + desc_bytes e \<le> Suc MAX_UINT64" "4096 \<le> desc_bytes e"
        using S that gt(2) by (auto simp: scanned_def list_all_iff desc_wf_def desc_bytes_def EFI_PAGE_SIZE_def)
      then have "sc_NextStart s \<noteq> MAX_UINT64" using next_le by auto
      moreover have "md_PhysicalStart e \<le> x" using e by (simp add: covers_def)
      ultimately show False
        using next_le x(2) gt(1) by (auto simp: ScanLast_def Let_def split: if_splits)
    qed
  qed
  then have "filter (covers x) ds = filter (covers cursor) ds" by (intro filter_cong) auto
  with one show ?thesis by simp
qed

lemma scan_stop:
  assumes scan: "ScanMap cursor ds = Inr s"
    and stop: "sc_Covering s = None \<or> sc_Overlap s \<or> (\<exists>d. sc_Covering s = Some d \<and> \<not> MayAccess writable d)"
  shows "\<not> byte_ok writable ds cursor"
  using ScanMap_scanned [OF scan] stop
  by (cases "filter (covers cursor) ds") (auto simp: scanned_def byte_ok_def)

lemma AccessLoop_spec:
  assumes "AccessLoop ds address len wantBytes writable cursor available = Some a"
    and "address \<le> cursor \<and> cursor \<le> MAX_UINTN" and "available = cursor - address" and "\<forall>x. address \<le> x \<and> x < cursor \<longrightarrow> byte_ok writable ds x"
    and "address + len \<le> Suc MAX_UINTN" and "len \<le> MAX_UINTN"
  shows "len \<le> a \<longleftrightarrow> (\<forall>x. address \<le> x \<and> x < address + len \<longrightarrow> byte_ok writable ds x)"
  using assms
proof (induction ds address len wantBytes writable cursor available rule: AccessLoop.induct)
  case (1 ds address len wantBytes writable cursor available)
  obtain s where scan: "ScanMap cursor ds = Inr s"
    using "1.prems"(1) by (subst (asm) AccessLoop.simps) (auto split: sum.splits)
  show ?case
  proof (cases "sc_Covering s = None \<or> sc_Overlap s \<or> (\<exists>d. sc_Covering s = Some d \<and> \<not> MayAccess writable d)")
    case True
    then have "a = available"
      using "1.prems"(1) scan by (subst (asm) AccessLoop.simps) (auto split: option.splits)
    moreover have "\<not> byte_ok writable ds cursor" using scan_stop [OF scan True] .
    ultimately show ?thesis using "1.prems"(2-4) by (auto simp: not_le)
  next
    case False
    then obtain d where d: "sc_Covering s = Some d" "\<not> sc_Overlap s" "MayAccess writable d" by auto
    let ?a = "if ScanLast s - address \<ge> MAX_UINTN then MAX_UINTN else ScanLast s - address + 1"
    have block: "byte_ok writable ds x" if "cursor \<le> x" "x \<le> ScanLast s" for x
      using scan_block [OF scan d(1,2) that] d(3) by (auto simp: byte_ok_def)
    then have ok: "byte_ok writable ds x" if "address \<le> x" "x \<le> ScanLast s" for x
      using "1.prems"(4) that by (cases "x < cursor") auto
    have lt: "cursor \<le> ScanLast s" "ScanLast s \<le> MAX_UINTN" using ScanMap_progress [OF scan d(1)] "1.prems"(2) by auto
    show ?thesis
    proof (cases "\<not> wantBytes \<and> ?a \<ge> len \<or> ScanLast s = MAX_UINTN")
      case True
      then have "a = ?a"
        using "1.prems"(1) scan d by (subst (asm) AccessLoop.simps) (auto simp: Let_def split: if_splits)
      with True have "len \<le> a" and "address + len \<le> Suc (ScanLast s)"
        using "1.prems"(2,5,6) lt by (auto split: if_splits)
      then show ?thesis using ok by auto
    next
      case cont: False
      have run: "AccessLoop ds address len wantBytes writable (ScanLast s + 1) ?a = Some a"
        using "1.prems"(1) scan d cont by (subst (asm) AccessLoop.simps) (auto simp: Let_def split: if_splits)
      have "?a = ScanLast s + 1 - address" using lt "1.prems"(2) cont by auto
      with run cont lt "1.prems" ok d scan show ?thesis
        by (intro "1.IH" [OF scan d(1) _ refl _ run]) auto
    qed
  qed
qed

lemma AccessLoop_None_iff:
  "AccessLoop ds address len wantBytes writable cursor available = None \<longleftrightarrow> \<not> list_all desc_wf ds"
proof (induction ds address len wantBytes writable cursor available rule: AccessLoop.induct)
  case (1 ds address len wantBytes writable cursor available)
  show ?case
  proof (cases "ScanMap cursor ds")
    case (Inl u)
    then have "\<not> list_all desc_wf ds" using ScanMap_Inr_iff [of cursor ds] by auto
    with Inl show ?thesis by (subst AccessLoop.simps) simp
  next
    case (Inr s)
    then have "list_all desc_wf ds" using ScanMap_Inr_iff [of cursor ds] by auto
    moreover have "\<exists>a. AccessLoop ds address len wantBytes writable cursor available = Some a"
    proof (cases "sc_Covering s")
      case None
      with Inr show ?thesis by (subst AccessLoop.simps) simp
    next
      case (Some d)
      let ?a = "if ScanLast s - address \<ge> MAX_UINTN then MAX_UINTN else ScanLast s - address + 1"
      show ?thesis
      proof (cases "(sc_Overlap s \<or> \<not> MayAccess writable d) \<or> \<not> wantBytes \<and> ?a \<ge> len \<or> ScanLast s = MAX_UINTN")
        case True
        with Inr Some show ?thesis by (subst AccessLoop.simps) (auto simp: Let_def)
      next
        case False
        then have "\<exists>a. AccessLoop ds address len wantBytes writable (ScanLast s + 1) ?a = Some a"
          using 1 [OF Inr Some _ refl] \<open>list_all desc_wf ds\<close> by blast
        with False Inr Some show ?thesis by (subst AccessLoop.simps) (simp add: Let_def)
      qed
    qed
    ultimately show ?thesis by auto
  qed
qed

definition snapshot_descriptors :: "MEMORY_MAP_SNAPSHOT \<Rightarrow> EFI_MEMORY_DESCRIPTOR list" where
  "snapshot_descriptors s = take (ms_MapSize s div ms_DescriptorSize s) (the (ms_Map s))"

definition snapshot_wf :: "MEMORY_MAP_SNAPSHOT \<Rightarrow> bool" where
  "snapshot_wf s \<longleftrightarrow> ms_Map s \<noteq> None \<and> sizeof_descriptor \<le> ms_DescriptorSize s \<and> ms_MapSize s \<noteq> 0 \<and>
     ms_MapSize s mod ms_DescriptorSize s = 0"

lemma range_accessible_iff:
  assumes "len \<le> MAX_UINTN"
  shows "fst (MemoryMapRangeAccessible (Some s) address len wantBytes writable) \<longleftrightarrow>
    snapshot_wf s \<and> len \<noteq> 0 \<and> address + len \<le> Suc MAX_UINTN \<and> list_all desc_wf (snapshot_descriptors s) \<and>
    (\<forall>x. address \<le> x \<and> x < address + len \<longrightarrow> byte_ok writable (snapshot_descriptors s) x)"
proof (cases "snapshot_wf s \<and> len \<noteq> 0 \<and> address + len \<le> Suc MAX_UINTN")
  case False
  then show ?thesis
    using assms by (auto simp: MemoryMapRangeAccessible_def snapshot_wf_def not_less split: option.splits)
next
  case True
  let ?ds = "snapshot_descriptors s"
  have run: "fst (MemoryMapRangeAccessible (Some s) address len wantBytes writable) \<longleftrightarrow>
      (case AccessLoop ?ds address len wantBytes writable address 0 of None \<Rightarrow> False | Some a \<Rightarrow> len \<le> a)"
    using True assms
    by (auto simp: MemoryMapRangeAccessible_def snapshot_wf_def snapshot_descriptors_def not_less split: option.splits)
  show ?thesis
  proof (cases "AccessLoop ?ds address len wantBytes writable address 0")
    case None
    then have "\<not> list_all desc_wf ?ds" using AccessLoop_None_iff by simp
    with None run show ?thesis by simp
  next
    case (Some a)
    then have wf: "list_all desc_wf ?ds" using AccessLoop_None_iff [of ?ds address len wantBytes writable address 0] by auto
    have "len \<le> a \<longleftrightarrow> (\<forall>x. address \<le> x \<and> x < address + len \<longrightarrow> byte_ok writable ?ds x)"
      using True assms by (intro AccessLoop_spec [OF Some]) auto
    with run Some wf True show ?thesis by simp
  qed
qed

text \<open>The reported count: from the address on, that many bytes are accessible and no more.\<close>

definition exact_run :: "bool \<Rightarrow> EFI_MEMORY_DESCRIPTOR list \<Rightarrow> nat \<Rightarrow> nat \<Rightarrow> bool" where
  "exact_run writable ds address n \<longleftrightarrow> n \<le> MAX_UINTN \<and> (\<forall>x. address \<le> x \<and> x < address + n \<longrightarrow> byte_ok writable ds x) \<and>
     (n < MAX_UINTN \<and> address + n \<le> MAX_UINTN \<longrightarrow> \<not> byte_ok writable ds (address + n))"

lemma AccessLoop_count:
  assumes "AccessLoop ds address len wantBytes writable cursor available = Some a" and "wantBytes"
    and "address \<le> cursor \<and> cursor \<le> MAX_UINTN" and "available = cursor - address" and "\<forall>x. address \<le> x \<and> x < cursor \<longrightarrow> byte_ok writable ds x"
  shows "exact_run writable ds address a"
  using assms
proof (induction ds address len wantBytes writable cursor available rule: AccessLoop.induct)
  case (1 ds address len wantBytes writable cursor available)
  obtain s where scan: "ScanMap cursor ds = Inr s"
    using "1.prems"(1) by (subst (asm) AccessLoop.simps) (auto split: sum.splits)
  show ?case
  proof (cases "sc_Covering s = None \<or> sc_Overlap s \<or> (\<exists>d. sc_Covering s = Some d \<and> \<not> MayAccess writable d)")
    case True
    then have "a = available"
      using "1.prems"(1) scan by (subst (asm) AccessLoop.simps) (auto split: option.splits)
    then show ?thesis using scan_stop [OF scan True] "1.prems"(3-5) unfolding exact_run_def by (intro conjI) (simp, linarith, simp_all)
  next
    case False
    then obtain d where d: "sc_Covering s = Some d" "\<not> sc_Overlap s" "MayAccess writable d" by auto
    let ?a = "if ScanLast s - address \<ge> MAX_UINTN then MAX_UINTN else ScanLast s - address + 1"
    have block: "byte_ok writable ds x" if "cursor \<le> x" "x \<le> ScanLast s" for x
      using scan_block [OF scan d(1,2) that] d(3) by (auto simp: byte_ok_def)
    then have ok: "byte_ok writable ds x" if "address \<le> x" "x \<le> ScanLast s" for x
      using "1.prems"(5) that by (cases "x < cursor") auto
    have lt: "cursor \<le> ScanLast s" "ScanLast s \<le> MAX_UINTN" using ScanMap_progress [OF scan d(1)] "1.prems"(3) by auto
    show ?thesis
    proof (cases "ScanLast s = MAX_UINTN")
      case True
      then have "a = ?a"
        using "1.prems"(1) scan d by (subst (asm) AccessLoop.simps) (auto simp: Let_def split: if_splits)
      then have n: "a = MAX_UINTN \<and> address = 0 \<or> a \<le> MAX_UINTN \<and> address + a = Suc MAX_UINTN" using True lt "1.prems"(3) by (auto split: if_splits)
      have "byte_ok writable ds x" if "address \<le> x" "x < address + a" for x using ok that True n by auto
      with n show ?thesis unfolding exact_run_def by auto
    next
      case cont: False
      have run: "AccessLoop ds address len wantBytes writable (ScanLast s + 1) ?a = Some a"
        using "1.prems"(1,2) scan d cont by (subst (asm) AccessLoop.simps) (auto simp: Let_def split: if_splits)
      have "?a = ScanLast s + 1 - address" using lt "1.prems"(3) cont by auto
      with run cont lt "1.prems" ok d scan show ?thesis
        by (intro "1.IH" [OF scan d(1) _ refl _ run]) auto
    qed
  qed
qed

lemma range_count:
  assumes "len \<le> MAX_UINTN"
  shows "if snapshot_wf s \<and> len \<noteq> 0 \<and> address + len \<le> Suc MAX_UINTN \<and> list_all desc_wf (snapshot_descriptors s)
    then exact_run writable (snapshot_descriptors s) address (snd (MemoryMapRangeAccessible (Some s) address len True writable))
    else snd (MemoryMapRangeAccessible (Some s) address len True writable) = 0"
proof (cases "snapshot_wf s \<and> len \<noteq> 0 \<and> address + len \<le> Suc MAX_UINTN")
  case False
  then show ?thesis
    using assms by (auto simp: MemoryMapRangeAccessible_def snapshot_wf_def not_less split: option.splits)
next
  case True
  let ?ds = "snapshot_descriptors s"
  have run: "snd (MemoryMapRangeAccessible (Some s) address len True writable) =
      (case AccessLoop ?ds address len True writable address 0 of None \<Rightarrow> 0 | Some a \<Rightarrow> a)"
    using True assms
    by (auto simp: MemoryMapRangeAccessible_def snapshot_wf_def snapshot_descriptors_def not_less split: option.splits)
  show ?thesis
  proof (cases "AccessLoop ?ds address len True writable address 0")
    case None
    then have "\<not> list_all desc_wf ?ds" using AccessLoop_None_iff by simp
    with None run show ?thesis by simp
  next
    case (Some a)
    then have wf: "list_all desc_wf ?ds" using AccessLoop_None_iff [of ?ds address len True writable address 0] by auto
    have "exact_run writable ?ds address a"
      using True assms by (intro AccessLoop_count [OF Some]) auto
    with run Some wf True show ?thesis by simp
  qed
qed

text \<open>
  C11. Range checks are exact. Given a \<open>UINTN\<close> length, \<open>MemoryMapRangeAccessible\<close> answers true
  exactly when the snapshot is well formed, no descriptor's extent wraps, the range is non-empty and
  does not wrap, and \<^emph>\<open>every\<close> byte of the range is covered by exactly one descriptor, whose
  type and attributes permit the access: overlapping or conflicting ownership of a single byte
  refuses the range, adjacent descriptors in any order are joined. The byte count reported to a caller that asks for it is
  exact too: that many bytes from the address on are accessible and the next one is not (it saturates at \<open>MAX_UINTN\<close>), and it is
  zero for an invalid map or range. The loop terminates for every map.
\<close>

theorem MemoryMapRangeAccessible_iff:
  assumes "len \<le> MAX_UINTN"
  shows "(fst (MemoryMapRangeAccessible (Some s) address len wantBytes writable) \<longleftrightarrow>
    snapshot_wf s \<and> len \<noteq> 0 \<and> address + len \<le> Suc MAX_UINTN \<and> list_all desc_wf (snapshot_descriptors s) \<and>
    (\<forall>x. address \<le> x \<and> x < address + len \<longrightarrow> byte_ok writable (snapshot_descriptors s) x)) \<and>
    (if snapshot_wf s \<and> len \<noteq> 0 \<and> address + len \<le> Suc MAX_UINTN \<and> list_all desc_wf (snapshot_descriptors s)
     then exact_run writable (snapshot_descriptors s) address (snd (MemoryMapRangeAccessible (Some s) address len True writable))
     else snd (MemoryMapRangeAccessible (Some s) address len True writable) = 0)"
  using range_accessible_iff [OF assms] range_count [OF assms] by blast

text \<open>A map with two adjacent descriptors, listed out of order.\<close>

definition sample_map :: MEMORY_MAP_SNAPSHOT where
  "sample_map = \<lparr>ms_Map = Some
     [\<lparr>md_Type = EfiLoaderData, md_PhysicalStart = 0x1000, md_NumberOfPages = 1, md_RP = False, md_RO = False, md_WP = False\<rparr>,
      \<lparr>md_Type = EfiConventionalMemory, md_PhysicalStart = 0, md_NumberOfPages = 1, md_RP = False, md_RO = False, md_WP = False\<rparr>],
     ms_MapSize = 80, ms_DescriptorSize = 40, ms_DescriptorVersion = 1\<rparr>"

theorem MemoryMapRangeAccessible_iff_witness:
  "(0x1000 :: nat) \<le> MAX_UINTN \<and> fst (MemoryMapRangeAccessible (Some sample_map) 0x800 0x1000 False False)"
proof -
  have ds: "snapshot_descriptors sample_map = the (ms_Map sample_map)"
    by (simp add: snapshot_descriptors_def sample_map_def)
  have "byte_ok False (snapshot_descriptors sample_map) x" if "0x800 \<le> x" "x < 0x800 + (0x1000 :: nat)" for x
    using that unfolding ds
    by (cases "x < 0x1000") (auto simp: byte_ok_def sample_map_def covers_def desc_bytes_def EFI_PAGE_SIZE_def MayAccess_def)
  moreover have "list_all desc_wf (snapshot_descriptors sample_map)"
    unfolding ds by (simp add: sample_map_def desc_wf_def desc_bytes_def EFI_PAGE_SIZE_def MAX_UINTN_def)
  moreover have "snapshot_wf sample_map" by (simp add: snapshot_wf_def sample_map_def ncv_defs)
  ultimately show ?thesis
    using MemoryMapRangeAccessible_iff [of "0x1000" sample_map "0x800" False False, THEN conjunct1] by (simp add: MAX_UINTN_def)
qed

section \<open>Capture\<close>

lemma CaptureLoop_result:
  "CaptureLoop n bs w r = (res, w') \<Longrightarrow> (case res of Inl e \<Rightarrow> EFI_ERROR e | Inr s \<Rightarrow> snapshot_wf s)"
proof (induction n arbitrary: w r)
  case (Suc n)
  obtain ok w1 where al: "AllocatePool bs w r = (ok, w1)" by (cases "AllocatePool bs w r")
  obtain status mapSize descriptorSize version ds w2 where
    gm: "GetMemoryMap bs w1 r = ((status, mapSize, descriptorSize, version, ds), w2)"
    by (metis prod.exhaust)
  show ?case
    using Suc by (auto simp: al gm snapshot_wf_def split: if_splits)
qed auto

lemma MemoryMapCapture_result:
  assumes "MemoryMapCapture bs w = (res, w')"
  shows "case res of Inl e \<Rightarrow> EFI_ERROR e | Inr s \<Rightarrow> snapshot_wf s"
proof -
  obtain status mapSize descriptorSize version ds w2 where
    "GetMemoryMap bs w 0 = ((status, mapSize, descriptorSize, version, ds), w2)" by (metis prod.exhaust)
  with assms show ?thesis
    by (auto simp: MemoryMapCapture_def split: if_splits dest: CaptureLoop_result)
qed

text \<open>
  C32. Whatever the firmware answers, \<open>MemoryMapValidateBootRanges\<close> succeeds only if the captured
  map is well formed and grants read access, byte for byte and without conflicting ownership, to the
  interrupt vectors and BIOS data area, the C segment and the E and F segments.
\<close>

theorem MemoryMapValidateBootRanges_sound:
  assumes "fst (MemoryMapValidateBootRanges bs w) = EFI_SUCCESS"
  shows "\<exists>s w'. MemoryMapCapture bs w = (Inr s, w') \<and> snapshot_wf s \<and>
    (\<forall>x. x < 0x500 \<or> 0xc0000 \<le> x \<and> x < 0xd0000 \<or> 0xe0000 \<le> x \<and> x < 0x100000 \<longrightarrow>
       byte_ok False (snapshot_descriptors s) x)"
proof -
  obtain res w' where cap: "MemoryMapCapture bs w = (res, w')" by (cases "MemoryMapCapture bs w")
  obtain s where s: "res = Inr s"
    using assms cap MemoryMapCapture_result [OF cap]
    by (cases res) (auto simp: MemoryMapValidateBootRanges_def)
  have "fst (MemoryMapRangeAccessible (Some s) 0 0x500 False False)"
    "fst (MemoryMapRangeAccessible (Some s) 0xc0000 0x10000 False False)"
    "fst (MemoryMapRangeAccessible (Some s) 0xe0000 0x20000 False False)"
    using assms cap s by (auto simp: MemoryMapValidateBootRanges_def MemoryMapRangeIsReadable_def split: if_splits)
  then show ?thesis
    using cap s MemoryMapCapture_result [OF cap]
    by (intro exI [of _ s] exI [of _ w'])
      (auto simp: range_accessible_iff MAX_UINTN_def)
qed

definition flat_descriptor :: EFI_MEMORY_DESCRIPTOR where
  "flat_descriptor = \<lparr>md_Type = EfiConventionalMemory, md_PhysicalStart = 0, md_NumberOfPages = 256,
     md_RP = False, md_RO = False, md_WP = False\<rparr>"

definition flat_services :: "unit memory_services" where
  "flat_services = \<lparr>GetMemoryMap = (\<lambda>w size. if size = 0 then ((EFI_BUFFER_TOO_SMALL, 40, 40, 1, []), w)
       else ((EFI_SUCCESS, 40, 40, 1, [flat_descriptor]), w)), AllocatePool = (\<lambda>w size. (True, w))\<rparr>"

definition flat_map :: MEMORY_MAP_SNAPSHOT where
  "flat_map = \<lparr>ms_Map = Some [flat_descriptor], ms_MapSize = 40, ms_DescriptorSize = 40, ms_DescriptorVersion = 1\<rparr>"

lemma flat_captured: "MemoryMapCapture flat_services () = (Inr flat_map, ())"
proof -
  have loop: "CaptureLoop (Suc n) flat_services () 360 = (Inr flat_map, ())" for n
    by (simp add: flat_services_def sizeof_descriptor_def flat_map_def)
  have get: "GetMemoryMap flat_services () 0 = ((EFI_BUFFER_TOO_SMALL, 40, 40, 1, []), ())"
    by (simp add: flat_services_def)
  show ?thesis
    using loop [of 3] by (simp add: MemoryMapCapture_def get MEMORY_MAP_CAPTURE_ATTEMPTS_def
      MEMORY_MAP_SLACK_ENTRIES_def sizeof_descriptor_def MAX_UINTN_def del: CaptureLoop.simps)
qed

lemma flat_alloc: "AllocatePool flat_services w n = (True, w)"
  by (simp add: flat_services_def)

lemma flat_readable:
  assumes "n \<noteq> 0" and "a + n \<le> 0x100000"
  shows "fst (MemoryMapRangeIsReadable (Some flat_map) a n False)"
proof -
  have "byte_ok False [flat_descriptor] x" if "x < 0x100000" for x
    using that by (simp add: byte_ok_def covers_def flat_descriptor_def desc_bytes_def EFI_PAGE_SIZE_def MayAccess_def)
  moreover have "snapshot_wf flat_map" "desc_wf flat_descriptor"
    by (simp_all add: snapshot_wf_def flat_map_def ncv_defs desc_wf_def flat_descriptor_def desc_bytes_def MAX_UINTN_def)
  ultimately show ?thesis
    using assms unfolding MemoryMapRangeIsReadable_def
    by (subst range_accessible_iff) (auto simp: flat_map_def snapshot_descriptors_def MAX_UINTN_def)
qed

theorem MemoryMapValidateBootRanges_sound_witness:
  "fst (MemoryMapValidateBootRanges flat_services ()) = EFI_SUCCESS \<and>
   (\<exists>s w'. MemoryMapCapture flat_services () = (Inr s, w') \<and> snapshot_wf s)"
proof -
  have "fst (MemoryMapValidateBootRanges flat_services ()) = EFI_SUCCESS"
    by (simp add: MemoryMapValidateBootRanges_def flat_captured flat_readable)
  from MemoryMapValidateBootRanges_sound [OF this] this show ?thesis by blast
qed

end
