(* ===== verification/Pci_Identity.thy ===== *)
theory Pci_Identity
  imports Rom_View Memory_Map
begin

text \<open>
  \<open>LegacyPciIdentity.h\<close>, the copied PCI identities that both storage checks compare a BBS entry
  with, and the BBS table entry itself. A handle or a protocol interface is a number, a pointer that may
  be \<open>NULL\<close> an option. Structure sizes are those of the 64-bit build.
\<close>

record PCI_DEVICE_RECORD =
  pd_Handle :: nat
  pd_PciIo :: "nat option"
  pd_DevicePath :: "bytes option"
  pd_DevicePathSize :: nat
  pd_DevicePathStatus :: EFI_STATUS
  pd_Segment :: nat
  pd_Bus :: nat
  pd_Device :: nat
  pd_Function :: nat
  pd_LocationStatus :: EFI_STATUS
  pd_ConfigStatus :: EFI_STATUS
  pd_Config :: bytes
  pd_SupportedAttributes :: "64 word"
  pd_CurrentAttributes :: "64 word"
  pd_SupportedAttributesStatus :: EFI_STATUS
  pd_CurrentAttributesStatus :: EFI_STATUS
  pd_RootBridgeHandle :: "nat option"
  pd_RootBridgeIo :: "nat option"
  pd_RootBridgePrefixSize :: nat
  pd_RootBridgeStatus :: EFI_STATUS
  pd_RootSupportedAttributes :: "64 word"
  pd_RootCurrentAttributes :: "64 word"
  pd_RootAttributesStatus :: EFI_STATUS

record PCI_INVENTORY =
  inv_Devices :: "PCI_DEVICE_RECORD list option"
  inv_Count :: nat

record LEGACY_PCI_IDENTITY =
  li_LocationStatus :: EFI_STATUS
  li_ConfigStatus :: EFI_STATUS
  li_Segment :: nat
  li_Bus :: nat
  li_Device :: nat
  li_Function :: nat
  li_Config :: bytes

record BBS_TABLE =
  b_BootPriority :: NCV_U16
  b_Bus :: NCV_U32
  b_Device :: NCV_U32
  b_Function :: NCV_U32
  b_Class :: NCV_U8
  b_SubClass :: NCV_U8
  b_MfgStringOffset :: NCV_U16
  b_MfgStringSegment :: NCV_U16
  b_DeviceType :: NCV_U16
  b_StatusFlags :: NCV_U16
  b_BootHandlerOffset :: NCV_U16
  b_BootHandlerSegment :: NCV_U16
  b_DescStringOffset :: NCV_U16
  b_DescStringSegment :: NCV_U16
  b_InitPerReserved :: NCV_U32
  b_AdditionalIrq13Handler :: NCV_U32
  b_AdditionalIrq18Handler :: NCV_U32
  b_AdditionalIrq19Handler :: NCV_U32
  b_AdditionalIrq40Handler :: NCV_U32
  b_AssignedDriveNumber :: NCV_U8
  b_AdditionalIrq41Handler :: NCV_U32
  b_AdditionalIrq46Handler :: NCV_U32
  b_IBV1 :: NCV_U32
  b_IBV2 :: NCV_U32

definition BBS_HARDDISK :: NCV_U16 where [ncv_defs]: "BBS_HARDDISK = 2"
definition sizeof_device_record :: nat where [ncv_defs]: "sizeof_device_record = 240"
definition sizeof_identity :: nat where [ncv_defs]: "sizeof_identity = 64"

definition CopyIdentity :: "PCI_DEVICE_RECORD \<Rightarrow> LEGACY_PCI_IDENTITY" where
  "CopyIdentity s = \<lparr>li_LocationStatus = pd_LocationStatus s, li_ConfigStatus = pd_ConfigStatus s,
     li_Segment = pd_Segment s, li_Bus = pd_Bus s, li_Device = pd_Device s, li_Function = pd_Function s,
     li_Config = (\<lambda>i. if i < 12 then pd_Config s i else 0)\<rparr>"

definition CopyLegacyPciIdentities ::
  "'w memory_services \<Rightarrow> 'w \<Rightarrow> PCI_INVENTORY \<Rightarrow> LEGACY_PCI_IDENTITY list option \<times> 'w" where
  "CopyLegacyPciIdentities bs w inventory =
     (case inv_Devices inventory of
        None \<Rightarrow> (None, w)
      | Some ds \<Rightarrow>
          if inv_Count inventory = 0 \<or> inv_Count inventory > MAX_UINTN div sizeof_identity then (None, w)
          else let (ok, w) = AllocatePool bs w (inv_Count inventory * sizeof_identity)
               in if \<not> ok then (None, w)
                  else (Some (map (\<lambda>i. CopyIdentity (ds ! i)) [0..<inv_Count inventory]), w))"

text \<open>The guard that both \<open>LegacyStorageRomPrepare\<close> and \<open>AllocateFirmwareState\<close> apply to the inventory.\<close>

definition InventoryUsable :: "PCI_INVENTORY option \<Rightarrow> bool" where
  "InventoryUsable inventory =
     (case inventory of None \<Rightarrow> False
      | Some i \<Rightarrow> inv_Count i \<le> MAX_UINTN div sizeof_device_record \<and> (inv_Count i \<noteq> 0 \<longrightarrow> inv_Devices i \<noteq> None))"

definition identities :: "PCI_INVENTORY \<Rightarrow> LEGACY_PCI_IDENTITY list" where
  "identities i = map (\<lambda>k. CopyIdentity (the (inv_Devices i) ! k)) [0..<inv_Count i]"

lemma CopyLegacyPciIdentities_SomeD:
  "CopyLegacyPciIdentities bs w i = (Some ds, w') \<Longrightarrow> ds = identities i"
  by (auto simp: CopyLegacyPciIdentities_def identities_def split: option.splits if_splits prod.splits)

section \<open>The controller of a BBS entry\<close>

definition AtEntry :: "BBS_TABLE \<Rightarrow> LEGACY_PCI_IDENTITY \<Rightarrow> bool" where
  "AtEntry e d \<longleftrightarrow> \<not> EFI_ERROR (li_LocationStatus d) \<and> li_Bus d = unat (b_Bus e) \<and>
     li_Device d = unat (b_Device e) \<and> li_Function d = unat (b_Function e)"

text \<open>The loop that counts the devices at the entry's address and remembers the last one.\<close>

definition ControllerStep ::
  "BBS_TABLE \<Rightarrow> nat \<times> LEGACY_PCI_IDENTITY option \<Rightarrow> LEGACY_PCI_IDENTITY \<Rightarrow> nat \<times> LEGACY_PCI_IDENTITY option" where
  "ControllerStep e s d = (if AtEntry e d then (fst s + 1, Some d) else s)"

definition FindController :: "BBS_TABLE \<Rightarrow> LEGACY_PCI_IDENTITY list \<Rightarrow> nat \<times> LEGACY_PCI_IDENTITY option" where
  "FindController e ds = foldl (ControllerStep e) (0, None) ds"

lemma ControllerStep_fold:
  "foldl (ControllerStep e) (n, o') ds =
     (n + length (filter (AtEntry e) ds), if filter (AtEntry e) ds = [] then o' else Some (last (filter (AtEntry e) ds)))"
  by (induction ds arbitrary: n o') (simp_all add: ControllerStep_def)

lemma FindController_unique:
  "FindController e ds = (n, Some d) \<and> n = 1 \<longleftrightarrow> n = 1 \<and> filter (AtEntry e) ds = [d]"
  by (cases "filter (AtEntry e) ds") (auto simp: FindController_def ControllerStep_fold)

lemma FindController_None: "FindController e ds = (n, None) \<Longrightarrow> n = 0"
  by (auto simp: FindController_def ControllerStep_fold split: if_splits)

end
