(* ===== verification/Legacy_Rom_Guard.thy ===== *)
theory Legacy_Rom_Guard
  imports Pci_Identity
begin

text \<open>
  \<open>LegacyRomGuardInspect\<close> of \<open>LegacyRomGuard.c\<close>: the read-only scan of the copied C and D segments
  that decides whether copying the selected GPU ROM would overwrite another resident ROM or the
  legacy disk interrupt handler.
\<close>

definition NCV_ROM_SHADOW_BASE :: nat where [ncv_defs]: "NCV_ROM_SHADOW_BASE = 0xC0000"
definition NCV_ROM_SHADOW_SIZE :: nat where [ncv_defs]: "NCV_ROM_SHADOW_SIZE = 0x20000"
definition NCV_ROM_BLOCK_SIZE :: nat where [ncv_defs]: "NCV_ROM_BLOCK_SIZE = 512"
definition NCV_ROM_BLOCK_COUNT :: nat where [ncv_defs]: "NCV_ROM_BLOCK_COUNT = NCV_ROM_SHADOW_SIZE div NCV_ROM_BLOCK_SIZE"

datatype LEGACY_ROM_GUARD_REASON =
  RomGuardClear | RomGuardOverlap | RomGuardDiskHandlerOverlap | RomGuardUnreadable | RomGuardUnknownLayout

record LEGACY_ROM_GUARD_RESULT =
  g_Reason :: LEGACY_ROM_GUARD_REASON
  g_ActiveBytes :: nat
  g_Address :: nat
  g_Bytes :: nat
  g_Vendor :: NCV_U16
  g_Device :: NCV_U16

section \<open>Bounded reads\<close>

definition Readable :: "bytes \<Rightarrow> nat \<Rightarrow> nat \<Rightarrow> bool" where
  "Readable valid offset n =
     (if n = 0 \<or> offset \<ge> NCV_ROM_SHADOW_SIZE \<or> n > NCV_ROM_SHADOW_SIZE - offset then False
      else BlocksValid valid offset n)"

text \<open>\<open>Extent\<close> returns its verdict and the value it stores in \<open>*Bytes\<close>, if it stores one.\<close>

definition Extent :: "bytes \<Rightarrow> bytes \<Rightarrow> nat \<Rightarrow> bool \<times> nat option" where
  "Extent shadow valid offset =
     (if \<not> Readable valid offset 3 \<or> shadow offset \<noteq> 0x55 \<or> shadow (offset + 1) \<noteq> 0xaa then (False, None)
      else let n = unat (shadow (offset + 2)) * NCV_ROM_BLOCK_SIZE
           in (n \<noteq> 0 \<and> n \<le> NCV_ROM_SHADOW_SIZE - offset, Some n))"

text \<open>\<open>Identity\<close> returns its verdict and the vendor and device it stored, if it stored them.\<close>

definition Identity :: "bytes \<Rightarrow> bytes \<Rightarrow> nat \<Rightarrow> nat \<Rightarrow> bool \<times> (NCV_U16 \<times> NCV_U16) option" where
  "Identity shadow valid offset n =
     (if n < 0x1c \<or> \<not> Readable valid offset 0x1c then (False, None)
      else let pcir = unat (Le16 shadow (offset + 0x18))
           in if pcir < 0x1c \<or> pcir > n \<or> 0x18 > n - pcir \<or> \<not> Readable valid (offset + pcir) 0x18 then (False, None)
              else if \<not> bytes_eq shadow (offset + pcir) PCIR 0 4 then (False, None)
              else let len = unat (Le16 shadow (offset + pcir + 0x0a))
                   in if len < 0x18 \<or> len > n - pcir \<or> \<not> Readable valid (offset + pcir) len
                         \<or> shadow (offset + pcir + 0x14) \<noteq> 0
                      then (False, None)
                      else let vendor = Le16 shadow (offset + pcir + 4); device = Le16 shadow (offset + pcir + 6)
                           in (vendor \<noteq> 0 \<and> vendor \<noteq> 0xffff, Some (vendor, device)))"

section \<open>The scan\<close>

text \<open>
  One iteration of the loop over the blocks of the planned copy: \<open>Some\<close> the result is an early
  return. \<open>Result->Reason\<close> still is \<open>RomGuardUnknownLayout\<close> and \<open>Result->Bytes\<close> is zero during
  the loop.
\<close>

definition InspectBlock ::
  "bytes \<Rightarrow> bytes \<Rightarrow> NCV_U16 \<Rightarrow> NCV_U16 \<Rightarrow> LEGACY_ROM_GUARD_RESULT \<Rightarrow> nat \<Rightarrow> LEGACY_ROM_GUARD_RESULT option" where
  "InspectBlock shadow valid activeVendor activeDevice result offset =
     (if shadow offset \<noteq> 0x55 \<or> shadow (offset + 1) \<noteq> 0xaa then None
      else case Extent shadow valid offset of
             (False, _) \<Rightarrow>
               (if offset < g_ActiveBytes result then None
                else Some (result\<lparr>g_Address := NCV_ROM_SHADOW_BASE + offset\<rparr>))
           | (True, stored) \<Rightarrow>
               (let n = the stored;
                    (identified, ids) = Identity shadow valid offset n;
                    (vendor, device) = (case ids of None \<Rightarrow> (0, 0) | Some vd \<Rightarrow> vd)
                in if offset < g_ActiveBytes result
                      \<and> (\<not> identified \<or> vendor = activeVendor \<and> device = activeDevice) then None
                   else Some (result\<lparr>g_Reason := RomGuardOverlap, g_Address := NCV_ROM_SHADOW_BASE + offset,
                                     g_Bytes := n, g_Vendor := vendor, g_Device := device\<rparr>)))"

fun InspectLoop ::
  "bytes \<Rightarrow> bytes \<Rightarrow> NCV_U16 \<Rightarrow> NCV_U16 \<Rightarrow> LEGACY_ROM_GUARD_RESULT \<Rightarrow> nat list \<Rightarrow> LEGACY_ROM_GUARD_RESULT option" where
  "InspectLoop shadow valid activeVendor activeDevice result [] = None"
| "InspectLoop shadow valid activeVendor activeDevice result (offset # offsets) =
     (case InspectBlock shadow valid activeVendor activeDevice result offset of
        Some r \<Rightarrow> Some r
      | None \<Rightarrow> InspectLoop shadow valid activeVendor activeDevice result offsets)"

text \<open>The values of \<open>Offset\<close>: every block boundary behind the first one, below \<open>CopyBytes\<close>.\<close>

definition block_offsets :: "nat \<Rightarrow> nat list" where
  "block_offsets copyBytes = map (\<lambda>k. k * NCV_ROM_BLOCK_SIZE) [1..<copyBytes div NCV_ROM_BLOCK_SIZE]"

definition LegacyRomGuardInspect ::
  "bytes option \<Rightarrow> bytes option \<Rightarrow> nat \<Rightarrow> NCV_U16 \<Rightarrow> NCV_U16 \<Rightarrow> nat \<Rightarrow> LEGACY_ROM_GUARD_RESULT" where
  "LegacyRomGuardInspect shadow validBlocks copyBytes activeVendor activeDevice diskHandler =
     (let result = \<lparr>g_Reason = RomGuardUnknownLayout, g_ActiveBytes = 0, g_Address = NCV_ROM_SHADOW_BASE,
                    g_Bytes = 0, g_Vendor = 0, g_Device = 0\<rparr>
      in case (shadow, validBlocks) of
           (Some s, Some v) \<Rightarrow>
             (if copyBytes = 0 \<or> copyBytes > NCV_ROM_SHADOW_SIZE \<or> copyBytes mod NCV_ROM_BLOCK_SIZE \<noteq> 0
                 \<or> activeVendor = 0 \<or> activeVendor = 0xffff then result
              else if \<not> Readable v 0 copyBytes then result\<lparr>g_Reason := RomGuardUnreadable\<rparr>
              else let (extent, stored) = Extent s v 0;
                       result = (case stored of None \<Rightarrow> result | Some n \<Rightarrow> result\<lparr>g_ActiveBytes := n\<rparr>)
                   in if \<not> extent then result
                      else case Identity s v 0 (g_ActiveBytes result) of
                             (False, _) \<Rightarrow> result
                           | (True, ids) \<Rightarrow>
                               (if the ids \<noteq> (activeVendor, activeDevice) then result
                                else case InspectLoop s v activeVendor activeDevice result (block_offsets copyBytes) of
                                       Some r \<Rightarrow> r
                                     | None \<Rightarrow>
                                         if diskHandler \<ge> NCV_ROM_SHADOW_BASE \<and> diskHandler < NCV_ROM_SHADOW_BASE + copyBytes
                                         then result\<lparr>g_Reason := RomGuardDiskHandlerOverlap, g_Address := diskHandler, g_Bytes := 1\<rparr>
                                         else result\<lparr>g_Reason := RomGuardClear, g_Address := 0, g_Bytes := 0\<rparr>))
         | _ \<Rightarrow> result)"

section \<open>What the checks mean\<close>

interpretation shadow: range_check "Readable v" NCV_ROM_SHADOW_SIZE "\<lambda>x. v (x div 512) = 1" for v
proof
  show "Readable v off n \<longleftrightarrow> 0 < n \<and> off + n \<le> NCV_ROM_SHADOW_SIZE \<and> (\<forall>i<n. v ((off + i) div 512) = 1)" for off n
    by (cases "n = 0") (auto simp: Readable_def BlocksValid_iff)
qed

definition rom_header :: "bytes \<Rightarrow> nat \<Rightarrow> bool" where
  "rom_header s off \<longleftrightarrow> s off = 0x55 \<and> s (off + 1) = 0xaa"

text \<open>The length byte of a ROM header, in bytes.\<close>

definition rom_extent :: "bytes \<Rightarrow> nat \<Rightarrow> nat" where
  "rom_extent s off = unat (s (off + 2)) * 512"

definition extent_fits :: "bytes \<Rightarrow> nat \<Rightarrow> bool" where
  "extent_fits s off \<longleftrightarrow> 0 < rom_extent s off \<and> off + rom_extent s off \<le> NCV_ROM_SHADOW_SIZE"

text \<open>
  A ROM of a given extent identifies itself as a PCI device: a readable \<open>PCIR\<close> structure of the
  x86 code type inside the extent, with a usable vendor.
\<close>

definition owned_by :: "bytes \<Rightarrow> bytes \<Rightarrow> nat \<Rightarrow> nat \<Rightarrow> NCV_U16 \<Rightarrow> NCV_U16 \<Rightarrow> bool" where
  "owned_by s v off n vendor device \<longleftrightarrow>
     (let p = unat (Le16 s (off + 0x18)); len = unat (Le16 s (off + p + 0x0a))
      in Readable v off 0x1c \<and> Readable v (off + p) len \<and> 0x1c \<le> p \<and> 0x18 \<le> len \<and> p + len \<le> n \<and>
         bytes_eq s (off + p) PCIR 0 4 \<and> s (off + p + 0x14) = 0 \<and>
         vendor = Le16 s (off + p + 4) \<and> device = Le16 s (off + p + 6) \<and> vendor \<noteq> 0 \<and> vendor \<noteq> 0xffff)"

lemma Extent_iff:
  assumes "Readable v off 3"
  shows "fst (Extent s v off) \<longleftrightarrow> rom_header s off \<and> extent_fits s off"
    and "rom_header s off \<Longrightarrow> snd (Extent s v off) = Some (rom_extent s off)"
proof -
  have "off < NCV_ROM_SHADOW_SIZE" using assms by (simp add: shadow.granted_iff)
  then show "fst (Extent s v off) \<longleftrightarrow> rom_header s off \<and> extent_fits s off"
    "rom_header s off \<Longrightarrow> snd (Extent s v off) = Some (rom_extent s off)"
    using assms by (auto simp: Extent_def rom_header_def extent_fits_def rom_extent_def Let_def NCV_ROM_BLOCK_SIZE_def)
qed

lemma Identity_iff:
  "Identity s v off n = (True, Some (vendor, device)) \<longleftrightarrow> owned_by s v off n vendor device"
proof -
  have "Readable v (off + p) 0x18" if "Readable v (off + p) len" "0x18 \<le> len" for p len
    using shadow.granted_sub [OF that(1), of "off + p" "0x18"] that(2) by simp
  then show ?thesis
    by (auto simp: Identity_def owned_by_def Let_def)
qed

lemma Identity_True: "fst (Identity s v off n) \<longleftrightarrow> (\<exists>vendor device. owned_by s v off n vendor device)"
proof -
  have "fst (Identity s v off n) \<longleftrightarrow> (\<exists>vendor device. Identity s v off n = (True, Some (vendor, device)))"
    by (auto simp: Identity_def Let_def split: if_splits)
  then show ?thesis by (simp add: Identity_iff)
qed

text \<open>
  A block of the planned copy conflicts when it starts a ROM that is not the active display's: behind
  the active ROM any header, inside it only a header that identifies another PCI device.
\<close>

definition foreign :: "bytes \<Rightarrow> bytes \<Rightarrow> nat \<Rightarrow> NCV_U16 \<Rightarrow> NCV_U16 \<Rightarrow> bool" where
  "foreign s v off av ad \<longleftrightarrow> extent_fits s off \<and>
     (\<exists>vendor device. owned_by s v off (rom_extent s off) vendor device \<and> (vendor, device) \<noteq> (av, ad))"

definition conflict :: "bytes \<Rightarrow> bytes \<Rightarrow> NCV_U16 \<Rightarrow> NCV_U16 \<Rightarrow> nat \<Rightarrow> bool" where
  "conflict s v av ad off \<longleftrightarrow> rom_header s off \<and> (rom_extent s 0 \<le> off \<or> foreign s v off av ad)"

lemma owned_by_unique:
  "owned_by s v off n vendor device \<Longrightarrow> owned_by s v off n vendor' device' \<Longrightarrow> vendor' = vendor \<and> device' = device"
  by (simp add: owned_by_def Let_def)

lemma InspectBlock_None_iff:
  assumes "Readable v off 3" and "g_ActiveBytes r = rom_extent s 0"
  shows "InspectBlock s v av ad r off = None \<longleftrightarrow> \<not> conflict s v av ad off"
proof (cases "rom_header s off \<and> extent_fits s off")
  case True
  obtain idf ids where id: "Identity s v off (rom_extent s off) = (idf, ids)"
    by (cases "Identity s v off (rom_extent s off)")
  have ex: "Extent s v off = (True, Some (rom_extent s off))"
    using Extent_iff [OF assms(1), of s] True by (metis prod.collapse)
  show ?thesis
  proof (cases idf)
    case idf: True
    then obtain vd dv where o': "owned_by s v off (rom_extent s off) vd dv"
      using Identity_True [of s v off "rom_extent s off"] id by auto
    then have "ids = Some (vd, dv)" using id Identity_iff [of s v off "rom_extent s off" vd dv] by simp
    moreover have "foreign s v off av ad \<longleftrightarrow> (vd, dv) \<noteq> (av, ad)"
      using True o' owned_by_unique [OF o'] unfolding foreign_def by metis
    ultimately show ?thesis using True idf id ex assms(2)
      by (simp add: InspectBlock_def conflict_def rom_header_def not_less)
  next
    case idf: False
    then have "\<not> owned_by s v off (rom_extent s off) vd dv" for vd dv
      using Identity_iff [of s v off "rom_extent s off" vd dv] id by simp
    then have "\<not> foreign s v off av ad" by (simp add: foreign_def)
    then show ?thesis using True idf id ex assms(2)
      by (simp add: InspectBlock_def conflict_def rom_header_def not_less split: option.split)
  qed
next
  case False
  then have "fst (Extent s v off) = False" using Extent_iff(1) [OF assms(1), of s] by simp
  then show ?thesis using False assms(2)
    by (cases "Extent s v off") (auto simp: InspectBlock_def conflict_def foreign_def rom_header_def split: prod.splits)
qed


lemma InspectLoop_None_iff:
  "InspectLoop s v av ad r offs = None \<longleftrightarrow> (\<forall>off \<in> set offs. InspectBlock s v av ad r off = None)"
  by (induction offs) (auto split: option.splits)

lemma InspectLoop_SomeD:
  assumes "InspectLoop s v av ad r offs = Some r'"
  shows "\<exists>pre off post. offs = pre @ off # post \<and> (\<forall>x \<in> set pre. InspectBlock s v av ad r x = None) \<and>
    InspectBlock s v av ad r off = Some r'"
  using assms
proof (induction offs)
  case (Cons off offs)
  show ?case
  proof (cases "InspectBlock s v av ad r off")
    case None
    with Cons obtain pre x post where "offs = pre @ x # post" "\<forall>y \<in> set pre. InspectBlock s v av ad r y = None"
      "InspectBlock s v av ad r x = Some r'" by auto
    with None show ?thesis by (intro exI [of _ "off # pre"]) auto
  next
    case (Some q)
    with Cons.prems show ?thesis by (intro exI [of _ "[]"]) simp
  qed
qed simp

lemma in_block_offsets: "n mod 512 = 0 \<Longrightarrow> off \<in> set (block_offsets n) \<longleftrightarrow> 512 dvd off \<and> 0 < off \<and> off < n"
  by (auto simp: block_offsets_def ncv_defs image_iff dvd_def less_mult_imp_div_less div_less_iff_less_mult mult.commute
      elim!: dvdE)

lemma block_offsets_readable:
  assumes "Readable v 0 n" and "n mod 512 = 0" and "off \<in> set (block_offsets n)"
  shows "Readable v off 3"
proof -
  obtain k where "off = 512 * k" "off < n" using assms(2,3) by (auto simp: in_block_offsets elim: dvdE)
  moreover obtain m where "n = 512 * m" using assms(2) by (auto elim: dvdE)
  ultimately show ?thesis using shadow.granted_sub [OF assms(1), of off 3] by simp
qed

text \<open>The requests that are examined at all.\<close>

definition request_ok :: "bytes \<Rightarrow> bytes \<Rightarrow> nat \<Rightarrow> NCV_U16 \<Rightarrow> NCV_U16 \<Rightarrow> bool" where
  "request_ok s v n av ad \<longleftrightarrow> 0 < n \<and> n \<le> NCV_ROM_SHADOW_SIZE \<and> 512 dvd n \<and> av \<noteq> 0 \<and> av \<noteq> 0xffff \<and>
     (\<forall>x<n. v (x div 512) = 1) \<and> rom_header s 0 \<and> extent_fits s 0 \<and> owned_by s v 0 (rom_extent s 0) av ad"

lemma Inspect_cases:
  "LegacyRomGuardInspect (Some s) (Some v) n av ad h =
     (let r = \<lparr>g_Reason = RomGuardUnknownLayout, g_ActiveBytes = 0, g_Address = NCV_ROM_SHADOW_BASE,
               g_Bytes = 0, g_Vendor = 0, g_Device = 0\<rparr>;
          r' = r\<lparr>g_ActiveBytes := rom_extent s 0\<rparr>
      in if request_ok s v n av ad then
           (case InspectLoop s v av ad r' (block_offsets n) of
              Some q \<Rightarrow> q
            | None \<Rightarrow> if NCV_ROM_SHADOW_BASE \<le> h \<and> h < NCV_ROM_SHADOW_BASE + n
                      then r'\<lparr>g_Reason := RomGuardDiskHandlerOverlap, g_Address := h, g_Bytes := 1\<rparr>
                      else r'\<lparr>g_Reason := RomGuardClear, g_Address := 0, g_Bytes := 0\<rparr>)
         else if n \<noteq> 0 \<and> n \<le> NCV_ROM_SHADOW_SIZE \<and> 512 dvd n \<and> av \<noteq> 0 \<and> av \<noteq> 0xffff \<and> \<not> (\<forall>x<n. v (x div 512) = 1)
         then r\<lparr>g_Reason := RomGuardUnreadable\<rparr>
         else (if n \<noteq> 0 \<and> n \<le> NCV_ROM_SHADOW_SIZE \<and> 512 dvd n \<and> av \<noteq> 0 \<and> av \<noteq> 0xffff \<and> rom_header s 0 then r' else r))"
proof (cases "n \<noteq> 0 \<and> n \<le> NCV_ROM_SHADOW_SIZE \<and> 512 dvd n \<and> av \<noteq> 0 \<and> av \<noteq> 0xffff")
  case False
  then have "LegacyRomGuardInspect (Some s) (Some v) n av ad h =
      \<lparr>g_Reason = RomGuardUnknownLayout, g_ActiveBytes = 0, g_Address = NCV_ROM_SHADOW_BASE, g_Bytes = 0, g_Vendor = 0, g_Device = 0\<rparr>"
    by (auto simp: LegacyRomGuardInspect_def NCV_ROM_BLOCK_SIZE_def mod_eq_0_iff_dvd)
  with False show ?thesis by (auto simp: request_ok_def)
next
  case guards: True
  show ?thesis
  proof (cases "\<forall>x<n. v (x div 512) = 1")
    case False
    then have "\<not> Readable v 0 n" by (simp add: shadow.granted_iff)
    with False guards show ?thesis
      by (auto simp: LegacyRomGuardInspect_def NCV_ROM_BLOCK_SIZE_def mod_eq_0_iff_dvd request_ok_def Let_def)
  next
    case True
    then have rd: "Readable v 0 n" using guards by (simp add: shadow.granted_iff)
    then have rd3: "Readable v 0 3" using shadow.granted_sub [OF rd, of 0 3] guards by (auto elim: dvdE)
    note ex = Extent_iff [OF rd3, of s]
    obtain eb st where e: "Extent s v 0 = (eb, st)" by (cases "Extent s v 0")
    obtain ib ids where i: "Identity s v 0 (rom_extent s 0) = (ib, ids)" by (cases "Identity s v 0 (rom_extent s 0)")
    have own: "ib \<and> the ids = (av, ad) \<longleftrightarrow> owned_by s v 0 (rom_extent s 0) av ad"
    proof (cases ib)
      case True
      then obtain vd dv where o': "owned_by s v 0 (rom_extent s 0) vd dv"
        using Identity_True [of s v 0 "rom_extent s 0"] i by auto
      then have "ids = Some (vd, dv)" using i Identity_iff [of s v 0 "rom_extent s 0" vd dv] by simp
      with True o' owned_by_unique [OF o', of av ad] show ?thesis by auto
    qed (use Identity_iff [of s v 0 "rom_extent s 0" av ad] i in simp)
    have nohead: "st = None" if "\<not> rom_header s 0" using that e by (auto simp: Extent_def rom_header_def)
    show ?thesis
      using guards True rd e i own ex nohead
      by (cases "rom_header s 0"; cases eb; cases ib)
        (auto simp: LegacyRomGuardInspect_def NCV_ROM_BLOCK_SIZE_def mod_eq_0_iff_dvd request_ok_def)
  qed
qed


lemma InspectBlock_reason:
  "InspectBlock s v av ad r off = Some q \<Longrightarrow> g_Reason r = RomGuardUnknownLayout \<Longrightarrow>
   g_Address q = NCV_ROM_SHADOW_BASE + off \<and> g_ActiveBytes q = g_ActiveBytes r \<and>
   (g_Reason q = RomGuardOverlap \<and> fst (Extent s v off) \<or> g_Reason q = RomGuardUnknownLayout \<and> \<not> fst (Extent s v off))"
  by (auto simp: InspectBlock_def Let_def split: if_splits prod.splits bool.splits)

text \<open>All blocks of an examined request are free of conflicts exactly when the loop runs to its end.\<close>

lemma InspectLoop_request:
  assumes "request_ok s v n av ad" and "g_ActiveBytes r = rom_extent s 0"
  shows "InspectLoop s v av ad r (block_offsets n) = None \<longleftrightarrow>
    (\<forall>off. 512 dvd off \<and> 0 < off \<and> off < n \<longrightarrow> \<not> conflict s v av ad off)"
proof -
  have n: "n mod 512 = 0" and rd: "Readable v 0 n"
    using assms(1) by (auto simp: request_ok_def shadow.granted_iff)
  have "InspectBlock s v av ad r off = None \<longleftrightarrow> \<not> conflict s v av ad off" if "off \<in> set (block_offsets n)" for off
    by (rule InspectBlock_None_iff [OF block_offsets_readable [OF rd n that] assms(2)])
  then show ?thesis unfolding InspectLoop_None_iff using in_block_offsets [OF n] by blast
qed

lemma guard_clear_iff:
  "g_Reason (LegacyRomGuardInspect (Some s) (Some v) n av ad h) = RomGuardClear \<longleftrightarrow>
     request_ok s v n av ad \<and>
     (\<forall>off. 512 dvd off \<and> 0 < off \<and> off < n \<and> rom_header s off \<longrightarrow>
        off < rom_extent s 0 \<and> \<not> foreign s v off av ad) \<and>
     \<not> (0xC0000 \<le> h \<and> h < 0xC0000 + n)"
proof (cases "request_ok s v n av ad")
  case False
  then show ?thesis by (simp add: Inspect_cases Let_def)
next
  case True
  let ?r = "\<lparr>g_Reason = RomGuardUnknownLayout, g_ActiveBytes = rom_extent s 0, g_Address = NCV_ROM_SHADOW_BASE,
    g_Bytes = 0, g_Vendor = 0, g_Device = 0\<rparr>"
  have blocks: "InspectLoop s v av ad ?r (block_offsets n) = None \<longleftrightarrow>
      (\<forall>off. 512 dvd off \<and> 0 < off \<and> off < n \<and> rom_header s off \<longrightarrow> off < rom_extent s 0 \<and> \<not> foreign s v off av ad)"
    using InspectLoop_request [OF True, of ?r] by (auto simp: conflict_def not_le)
  show ?thesis
  proof (cases "InspectLoop s v av ad ?r (block_offsets n)")
    case None
    with True blocks show ?thesis by (simp add: Inspect_cases Let_def NCV_ROM_SHADOW_BASE_def)
  next
    case (Some q)
    then have "g_Reason q \<noteq> RomGuardClear"
      by (auto dest!: InspectLoop_SomeD InspectBlock_reason)
    moreover have "LegacyRomGuardInspect (Some s) (Some v) n av ad h = q"
      using True Some by (simp add: Inspect_cases)
    ultimately show ?thesis using Some blocks by auto
  qed
qed

text \<open>
  C33. The guard reports \<open>RomGuardClear\<close> exactly when the request is well formed, every byte of the
  planned copy was readable, the active display's ROM with its PCI identity is at the start of the
  shadow area, no block of the planned copy behind it starts any ROM, no block inside it starts a
  ROM of another PCI device, and the legacy disk interrupt handler lies outside the planned copy.
\<close>

theorem LegacyRomGuardInspect_clear_iff:
  "g_Reason (LegacyRomGuardInspect (Some s) (Some v) n av ad h) = RomGuardClear \<longleftrightarrow>
     request_ok s v n av ad \<and>
     (\<forall>off. 512 dvd off \<and> 0 < off \<and> off < n \<and> rom_header s off \<longrightarrow>
        off < rom_extent s 0 \<and> \<not> foreign s v off av ad) \<and>
     \<not> (0xC0000 \<le> h \<and> h < 0xC0000 + n)"
  by (rule guard_clear_iff)

text \<open>
  When the guard reports an overlap, the reported address is the lowest conflicting block of
  the planned copy, and the reported extent is the one its header declares, inside the shadow area.
\<close>

theorem LegacyRomGuardInspect_overlap:
  assumes "LegacyRomGuardInspect (Some s) (Some v) n av ad h = q" and "g_Reason q = RomGuardOverlap"
  shows "\<exists>off. g_Address q = 0xC0000 + off \<and> g_Bytes q = rom_extent s off \<and> extent_fits s off \<and>
    512 dvd off \<and> 0 < off \<and> off < n \<and> conflict s v av ad off \<and>
    (\<forall>x. 512 dvd x \<and> 0 < x \<and> x < off \<longrightarrow> \<not> conflict s v av ad x)"
proof -
  let ?r = "\<lparr>g_Reason = RomGuardUnknownLayout, g_ActiveBytes = rom_extent s 0, g_Address = NCV_ROM_SHADOW_BASE,
    g_Bytes = 0, g_Vendor = 0, g_Device = 0\<rparr>"
  have req: "request_ok s v n av ad" and loop: "InspectLoop s v av ad ?r (block_offsets n) = Some q"
    using assms by (auto simp: Inspect_cases Let_def split: if_splits option.splits)
  have n: "n mod 512 = 0" and rd: "Readable v 0 n"
    using req by (auto simp: request_ok_def shadow.granted_iff)
  obtain pre off post where offs: "block_offsets n = pre @ off # post"
    and none: "\<forall>x \<in> set pre. InspectBlock s v av ad ?r x = None" and some: "InspectBlock s v av ad ?r off = Some q"
    using InspectLoop_SomeD [OF loop] by blast
  have off: "off \<in> set (block_offsets n)" using offs by simp
  have rd3: "Readable v x 3" if "x \<in> set (block_offsets n)" for x by (rule block_offsets_readable [OF rd n that])
  have ext: "rom_header s off" "extent_fits s off"
    using InspectBlock_reason [OF some] assms(2) Extent_iff(1) [OF rd3 [OF off], of s] by auto
  have "g_Bytes q = rom_extent s off"
    using some Extent_iff [OF rd3 [OF off], of s] ext
    by (cases "Extent s v off") (auto simp: InspectBlock_def Let_def split: if_splits prod.splits bool.splits)
  moreover have "\<not> conflict s v av ad x" if x: "512 dvd x" "0 < x" "x < off" for x
  proof -
    have "x \<in> set (block_offsets n)" using x off by (auto simp: in_block_offsets [OF n])
    moreover have "sorted (block_offsets n)" "distinct (block_offsets n)"
      by (auto simp: block_offsets_def NCV_ROM_BLOCK_SIZE_def sorted_iff_nth_mono distinct_conv_nth)
    ultimately have "x \<in> set pre" using x(3) unfolding offs by (auto simp: sorted_append)
    with none InspectBlock_None_iff [OF rd3, of x ?r s av ad] offs show ?thesis by auto
  qed
  moreover have "conflict s v av ad off"
    using some InspectBlock_None_iff [OF rd3 [OF off], of ?r s av ad] by auto
  ultimately show ?thesis
    using InspectBlock_reason [OF some] off ext by (auto simp: NCV_ROM_SHADOW_BASE_def in_block_offsets [OF n])
qed


text \<open>A block of the planned copy that starts a ROM of its own, behind the active one or of another device.\<close>

definition occupied :: "bytes \<Rightarrow> bytes \<Rightarrow> nat \<Rightarrow> NCV_U16 \<Rightarrow> NCV_U16 \<Rightarrow> nat \<Rightarrow> bool" where
  "occupied s v n av ad off \<longleftrightarrow> 512 dvd off \<and> 0 < off \<and> off < n \<and> rom_header s off \<and> extent_fits s off \<and>
     (rom_extent s 0 \<le> off \<or> foreign s v off av ad)"

lemma guard_conflict:
  assumes "LegacyRomGuardInspect (Some s) (Some v) n av ad h = q"
    and "g_Reason q = RomGuardOverlap \<or> g_Reason q = RomGuardDiskHandlerOverlap"
  shows "request_ok s v n av ad \<and> g_ActiveBytes q = rom_extent s 0 \<and>
    (if g_Reason q = RomGuardOverlap then \<exists>off. g_Address q = 0xC0000 + off \<and> occupied s v n av ad off
     else g_Address q = h \<and> 0xC0000 \<le> h \<and> h < 0xC0000 + n)"
proof -
  let ?r = "\<lparr>g_Reason = RomGuardUnknownLayout, g_ActiveBytes = rom_extent s 0, g_Address = NCV_ROM_SHADOW_BASE,
    g_Bytes = 0, g_Vendor = 0, g_Device = 0\<rparr>"
  have req: "request_ok s v n av ad" using assms by (auto simp: Inspect_cases Let_def split: if_splits)
  then have n: "n mod 512 = 0" and rd: "Readable v 0 n" by (auto simp: request_ok_def shadow.granted_iff)
  show ?thesis
  proof (cases "InspectLoop s v av ad ?r (block_offsets n)")
    case None
    then show ?thesis using assms req by (auto simp: Inspect_cases Let_def NCV_ROM_SHADOW_BASE_def split: if_splits)
  next
    case (Some q')
    then have q: "q' = q" using assms(1) req by (simp add: Inspect_cases)
    obtain pre off post where at: "block_offsets n = pre @ off # post" and some: "InspectBlock s v av ad ?r off = Some q"
      using InspectLoop_SomeD [OF Some] unfolding q by blast
    then have off: "off \<in> set (block_offsets n)" "InspectBlock s v av ad ?r off = Some q" by simp_all
    note r3 = block_offsets_readable [OF rd n off(1)]
    have c: "conflict s v av ad off" using InspectBlock_None_iff [OF r3, of ?r s av ad] off(2) by simp
    have a: "g_Address q = 0xC0000 + off" "g_ActiveBytes q = rom_extent s 0" "g_Reason q = RomGuardOverlap \<and> fst (Extent s v off)"
      using InspectBlock_reason [OF off(2)] assms(2) by (auto simp: NCV_ROM_SHADOW_BASE_def)
    with c off(1) Extent_iff(1) [OF r3, of s] have "occupied s v n av ad off"
      by (simp add: occupied_def conflict_def in_block_offsets [OF n])
    with a req show ?thesis by auto
  qed
qed

section \<open>Only readable bytes matter\<close>

definition agree_on_valid :: "bytes \<Rightarrow> bytes \<Rightarrow> bytes \<Rightarrow> bool" where
  "agree_on_valid v s s' \<longleftrightarrow> (\<forall>x<NCV_ROM_SHADOW_SIZE. v (x div 512) = 1 \<longrightarrow> s x = s' x)"

lemma agree_granted:
  "agree_on_valid v s s' \<Longrightarrow> Readable v off n \<Longrightarrow> off \<le> x \<Longrightarrow> x < off + n \<Longrightarrow> s x = s' x"
  using shadow.granted_byte [of v off n x] by (simp add: agree_on_valid_def)

lemma Extent_agree: "agree_on_valid v s s' \<Longrightarrow> Extent s v off = Extent s' v off"
  using agree_granted [of v s s' off 3] by (cases "Readable v off 3") (simp_all add: Extent_def)

lemma Identity_agree:
  assumes "agree_on_valid v s s'"
  shows "Identity s v off n = Identity s' v off n"
proof (cases "Readable v off 0x1c")
  case True
  have p: "Le16 s (off + 0x18) = Le16 s' (off + 0x18)"
    by (rule Le16_cong; rule agree_granted [OF assms True]) simp_all
  let ?p = "unat (Le16 s' (off + 0x18))"
  show ?thesis
  proof (cases "Readable v (off + ?p) 0x18")
    case inner: True
    have b: "s (off + ?p + i) = s' (off + ?p + i)" if "i < 0x18" for i
      using that by (intro agree_granted [OF assms inner]) simp_all
    have w: "Le16 s (off + ?p + i) = Le16 s' (off + ?p + i)" if "Suc i < 0x18" for i
      using that b [of i] b [of "Suc i"] by (intro Le16_cong) simp_all
    have "Le16 s (off + ?p + 0x0a) = Le16 s' (off + ?p + 0x0a)" "Le16 s (off + ?p + 4) = Le16 s' (off + ?p + 4)"
      "Le16 s (off + ?p + 6) = Le16 s' (off + ?p + 6)"
      by (rule w; simp)+
    moreover have "bytes_eq s (off + ?p) PCIR 0 4 = bytes_eq s' (off + ?p) PCIR 0 4"
      using b by (auto simp: bytes_eq_iff)
    moreover have "s (off + ?p + 0x14) = s' (off + ?p + 0x14)" by (rule b) simp
    ultimately show ?thesis unfolding Identity_def p Let_def by presburger
  qed (simp add: Identity_def p Let_def)
qed (simp add: Identity_def)

lemma guard_reads_valid:
  assumes "agree_on_valid v s s'"
  shows "LegacyRomGuardInspect (Some s) (Some v) n av ad h = LegacyRomGuardInspect (Some s') (Some v) n av ad h"
proof (cases "n mod 512 = 0 \<and> Readable v 0 n")
  case True
  have "s off = s' off \<and> s (off + 1) = s' (off + 1)" if "off \<in> set (block_offsets n)" for off
    using agree_granted [OF assms block_offsets_readable [of v n off]] True that by auto
  then have "InspectBlock s v av ad r off = InspectBlock s' v av ad r off" if "off \<in> set (block_offsets n)" for r off
    using that unfolding InspectBlock_def Extent_agree [OF assms] Identity_agree [OF assms] by metis
  then have "InspectLoop s v av ad r offs = InspectLoop s' v av ad r offs" if "set offs \<subseteq> set (block_offsets n)" for r offs
    using that by (induction offs) (auto split: option.splits)
  then have "InspectLoop s v av ad r (block_offsets n) = InspectLoop s' v av ad r (block_offsets n)" for r
    by blast
  then show ?thesis
    unfolding LegacyRomGuardInspect_def prod.case option.case Let_def
    unfolding Extent_agree [OF assms] Identity_agree [OF assms] by (simp only:)
next
  case False
  then show ?thesis by (auto simp: LegacyRomGuardInspect_def NCV_ROM_BLOCK_SIZE_def Let_def)
qed

text \<open>
  The guard reads only bytes of blocks marked readable, inside the shadow area: two snapshots
  that agree on those bytes get the same result, whatever the others hold.
\<close>

theorem LegacyRomGuardInspect_reads_valid:
  assumes "agree_on_valid v s s'"
  shows "LegacyRomGuardInspect (Some s) (Some v) n av ad h = LegacyRomGuardInspect (Some s') (Some v) n av ad h"
  by (rule guard_reads_valid [OF assms])

section \<open>Witnesses\<close>

text \<open>
  An active display ROM of one block with the identity 10DE:1C82 and, in the second snapshot, a
  network ROM in the next block.
\<close>

definition vga_block :: "NCV_U8 list" where
  "vga_block = [0x55, 0xaa, 1] @ replicate 21 0 @ [0x1c, 0, 0, 0] @
     [0x50, 0x43, 0x49, 0x52, 0xde, 0x10, 0x82, 0x1c, 0, 0, 0x18, 0] @ replicate 12 0"

definition clear_shadow :: bytes where "clear_shadow = bytes_of vga_block"

definition crowded_shadow :: bytes where
  "crowded_shadow i = (if i < 512 then bytes_of vga_block i else bytes_of [0x55, 0xaa, 4] (i - 512))"

lemmas shadow_eval = clear_shadow_def crowded_shadow_def bytes_of_def vga_block_def Le16_def nth_append

lemma vga_request:
  assumes "\<And>i. i < 512 \<Longrightarrow> s i = clear_shadow i" and "\<And>b. b < 256 \<Longrightarrow> v b = 1"
  shows "request_ok s v 2048 0x10de 0x1c82" and "rom_extent s 0 = 512"
proof -
  have v: "v (x div 512) = 1" if "x < 0x20000" for x :: nat using that by (intro assms(2)) (simp add: div_less_iff_less_mult)
  have e: "Le16 s i = Le16 clear_shadow i" if "i < 511" for i using assms(1) that by (intro Le16_cong) simp_all
  have "Le16 clear_shadow 0x18 = 0x1c" "Le16 clear_shadow 0x26 = 0x18" "Le16 clear_shadow 0x20 = 0x10de"
    "Le16 clear_shadow 0x22 = 0x1c82" by (simp_all add: shadow_eval)
  moreover have "bytes_eq s 0x1c PCIR 0 4" by (simp add: bytes_eq_def upt_rec assms(1) PCIR_def shadow_eval)
  ultimately show "request_ok s v 2048 0x10de 0x1c82"
    by (simp add: request_ok_def owned_by_def Let_def e assms(1) v shadow.granted_iff rom_header_def extent_fits_def
        rom_extent_def NCV_ROM_SHADOW_SIZE_def) (simp add: shadow_eval v [of 0, simplified])
  show "rom_extent s 0 = 512" by (simp add: rom_extent_def assms(1) shadow_eval)
qed

theorem LegacyRomGuardInspect_clear_iff_witness:
  "g_Reason (LegacyRomGuardInspect (Some clear_shadow) (Some (\<lambda>_. 1)) 2048 0x10de 0x1c82 0xF0000) = RomGuardClear"
proof -
  have "\<not> rom_header clear_shadow off" if "512 dvd off" "0 < off" for off
    using dvd_imp_le [OF that] by (simp add: rom_header_def shadow_eval)
  then show ?thesis by (subst LegacyRomGuardInspect_clear_iff) (auto intro: vga_request)
qed

lemma crowded_inspect:
  assumes "\<And>b. b < 256 \<Longrightarrow> v b = 1"
  shows "LegacyRomGuardInspect (Some crowded_shadow) (Some v) 2048 0x10de 0x1c82 h =
     \<lparr>g_Reason = RomGuardOverlap, g_ActiveBytes = 512, g_Address = 0xC0200, g_Bytes = 2048, g_Vendor = 0, g_Device = 0\<rparr>"
proof -
  have "v ((512 + i) div 512) = 1" if "i < 0x1c" for i :: nat using that by (intro assms) (simp add: div_less_iff_less_mult)
  then have rd: "Readable v 512 3" "Readable v 512 0x1c" by (simp_all add: shadow.granted_iff NCV_ROM_SHADOW_SIZE_def)
  have "Le16 crowded_shadow 536 = 0" by (simp add: shadow_eval)
  then have "Identity crowded_shadow v 512 2048 = (False, None)" using rd by (simp add: Identity_def)
  moreover have "Extent crowded_shadow v 512 = (True, Some 2048)"
    using rd by (simp add: Extent_def ncv_defs) (simp add: shadow_eval)
  moreover have "crowded_shadow 512 = 0x55" "crowded_shadow 513 = 0xaa" by (simp_all add: shadow_eval)
  moreover have "block_offsets 2048 = [512, 1024, 1536]" by (simp add: block_offsets_def NCV_ROM_BLOCK_SIZE_def upt_rec)
  moreover have "crowded_shadow i = clear_shadow i" if "i < 512" for i using that by (simp add: crowded_shadow_def clear_shadow_def)
  ultimately show ?thesis
    using vga_request [of crowded_shadow v] assms
    by (simp add: Inspect_cases InspectBlock_def NCV_ROM_SHADOW_BASE_def)
qed

lemma clear_inspect:
  assumes "\<And>b. b < 256 \<Longrightarrow> v b = 1"
  shows "g_Reason (LegacyRomGuardInspect (Some clear_shadow) (Some v) 2048 0x10de 0x1c82 0) = RomGuardClear"
proof -
  have "\<not> rom_header clear_shadow off" if "512 dvd off" "0 < off" for off
    using dvd_imp_le [OF that] by (simp add: rom_header_def shadow_eval)
  then show ?thesis unfolding guard_clear_iff by (auto intro: vga_request assms)
qed

theorem LegacyRomGuardInspect_overlap_witness:
  "\<exists>off. 0xC0200 = 0xC0000 + off \<and> conflict crowded_shadow (\<lambda>_. 1) 0x10de 0x1c82 off"
  using LegacyRomGuardInspect_overlap [OF crowded_inspect [of "\<lambda>_. 1"]] by auto

theorem LegacyRomGuardInspect_reads_valid_witness:
  "LegacyRomGuardInspect (Some clear_shadow) (Some (\<lambda>b. if b < 2 then 1 else 0)) 1024 0x10de 0x1c82 0xF0000 =
   LegacyRomGuardInspect (Some (\<lambda>i. if i < 1024 then clear_shadow i else 0xaa)) (Some (\<lambda>b. if b < 2 then 1 else 0))
     1024 0x10de 0x1c82 0xF0000"
  by (rule LegacyRomGuardInspect_reads_valid)
    (auto simp: agree_on_valid_def split: if_splits dest: div_less_iff_less_mult [THEN iffD1, rotated])

end
