(* ===== verification/Legacy_Storage_Rom.thy ===== *)
theory Legacy_Storage_Rom
  imports Pci_Identity
begin

text \<open>
  \<open>LegacyStorageRom.c\<close>: corroboration of a BBS disk entry by the resident storage ROM that owns
  it. The module state is the snapshot taken before the GPU hand-off; the live view is the memory
  content at the time of the call and therefore an argument.
\<close>

definition SHADOW_BASE :: nat where [ncv_defs]: "SHADOW_BASE = 0xc0000"
definition SHADOW_BYTES :: nat where [ncv_defs]: "SHADOW_BYTES = 0x20000"
definition BLOCK_BYTES :: nat where [ncv_defs]: "BLOCK_BYTES = 512"
definition MAX_PNP_HEADERS :: nat where [ncv_defs]: "MAX_PNP_HEADERS = 32"

text \<open>\<open>Count\<close> is the length of the device list; \<open>Live\<close> is the argument of the operations.\<close>

record STORAGE_ROM_STATE =
  st_Snapshot :: bytes
  st_Valid :: bytes
  st_Devices :: "LEGACY_PCI_IDENTITY list"

definition sizeof_storage_state :: nat where [ncv_defs]: "sizeof_storage_state = 0x20000 + 0x100 + 24"

section \<open>Operations\<close>

definition StorageReadable :: "STORAGE_ROM_STATE option \<Rightarrow> nat \<Rightarrow> nat \<Rightarrow> bool" where
  "StorageReadable mState offset n =
     (case mState of None \<Rightarrow> False
      | Some st \<Rightarrow>
          if n = 0 \<or> offset \<ge> SHADOW_BYTES \<or> n > SHADOW_BYTES - offset then False
          else BlocksValid (st_Valid st) offset n)"

text \<open>\<open>Rom\<close> returns the values of \<open>*Bytes\<close> and \<open>*Pcir\<close> when it succeeds.\<close>

definition Rom :: "STORAGE_ROM_STATE \<Rightarrow> nat \<Rightarrow> (nat \<times> nat) option" where
  "Rom st a =
     (let R = (\<lambda>i. st_Snapshot st (a + i))
      in if \<not> StorageReadable (Some st) a 0x1c \<or> R 0 \<noteq> 0x55 \<or> R 1 \<noteq> 0xaa then None
         else let n = unat (R 2) * BLOCK_BYTES
              in if \<not> StorageReadable (Some st) a n then None
                 else let pcir = unat (Le16 R 0x18)
                      in if pcir < 0x1c \<or> pcir > n \<or> 0x18 > n - pcir then None
                         else let len = unat (Le16 R (pcir + 0x0a))
                              in if bytes_eq R pcir PCIR 0 4 \<and> len \<ge> 0x18 \<and> len \<le> n - pcir \<and> R (pcir + 0x14) = 0
                                    \<and> Le16 R (pcir + 4) \<noteq> 0 \<and> Le16 R (pcir + 4) \<noteq> 0xffff
                                 then Some (n, pcir) else None)"

text \<open>The scan of a string of at most 127 printable bytes; the first argument counts what is left of the 128.\<close>

fun StringLoop :: "nat \<Rightarrow> bytes \<Rightarrow> nat \<Rightarrow> nat \<Rightarrow> nat \<Rightarrow> bool" where
  "StringLoop 0 R n offset index = False"
| "StringLoop (Suc k) R n offset index =
     (if \<not> index < n then False
      else if R index = 0 then index > offset
      else if R index < 0x20 \<or> R index > 0x7e then False
      else StringLoop k R n offset (index + 1))"

definition StorageString :: "bytes \<Rightarrow> nat \<Rightarrow> NCV_U16 \<Rightarrow> bool \<Rightarrow> bool" where
  "StorageString R n offset optional =
     (if offset = 0 then optional
      else if unat offset \<ge> n then False
      else StringLoop 128 R n (unat offset) (unat offset))"

definition LegacyStorageRomReset :: "STORAGE_ROM_STATE option" where
  "LegacyStorageRomReset = None"

definition LegacyStorageRomPrepare ::
  "'w memory_services \<Rightarrow> 'w \<Rightarrow> bytes option \<Rightarrow> bytes option \<Rightarrow> bytes option \<Rightarrow> PCI_INVENTORY option \<Rightarrow>
   (EFI_STATUS \<times> STORAGE_ROM_STATE option) \<times> 'w" where
  "LegacyStorageRomPrepare bs w snapshot validBlocks liveView inventory =
     (case (snapshot, validBlocks, liveView, inventory) of
        (Some snap, Some valid, Some live, Some ivt) \<Rightarrow>
          (if \<not> InventoryUsable inventory then ((EFI_INVALID_PARAMETER, LegacyStorageRomReset), w)
           else let (ok, w) = AllocatePool bs w sizeof_storage_state
                in if \<not> ok then ((EFI_OUT_OF_RESOURCES, LegacyStorageRomReset), w)
                   else if inv_Count ivt = 0 then
                     ((EFI_SUCCESS, Some \<lparr>st_Snapshot = snap, st_Valid = valid, st_Devices = []\<rparr>), w)
                   else case CopyLegacyPciIdentities bs w ivt of
                          (None, w) \<Rightarrow> ((EFI_OUT_OF_RESOURCES, LegacyStorageRomReset), w)
                        | (Some ds, w) \<Rightarrow>
                            ((EFI_SUCCESS, Some \<lparr>st_Snapshot = snap, st_Valid = valid, st_Devices = ds\<rparr>), w))
      | _ \<Rightarrow> ((EFI_INVALID_PARAMETER, LegacyStorageRomReset), w))"

text \<open>One \<open>$PnP\<close> header of the expansion chain: does it describe the BBS entry?\<close>

definition PnpMatches :: "bytes \<Rightarrow> nat \<Rightarrow> BBS_TABLE \<Rightarrow> nat \<Rightarrow> bool" where
  "PnpMatches R n e pnp \<longleftrightarrow>
     b_Class e = R (pnp + 18) \<and> b_SubClass e = R (pnp + 19) \<and>
     b_DescStringOffset e = Le16 R (pnp + 16) \<and> b_MfgStringOffset e = Le16 R (pnp + 14) \<and>
     (b_BootHandlerOffset e = Le16 R (pnp + 22) \<or> b_BootHandlerOffset e = Le16 R (pnp + 26)) \<and>
     StorageString R n (Le16 R (pnp + 16)) False \<and> StorageString R n (Le16 R (pnp + 14)) True"

definition PnpHeaderOk :: "bytes \<Rightarrow> nat \<Rightarrow> nat \<Rightarrow> bool" where
  "PnpHeaderOk R n pnp \<longleftrightarrow>
     (let len = unat (R (pnp + 5)) * 16
      in bytes_eq R pnp PnP 0 4 \<and> R (pnp + 4) = 1 \<and> 32 \<le> len \<and> len \<le> n - pnp \<and>
         foldl (\<lambda>sum i. sum + R (pnp + i)) 0 [0..<len] = 0)"

text \<open>
  The walk over the headers; the first argument is the number of headers still allowed, \<open>seen\<close>
  holds the offsets visited. \<open>None\<close> is \<open>return FALSE\<close>, otherwise the number of matches and
  \<open>MissingMfg\<close>.
\<close>

fun PnpLoop :: "nat \<Rightarrow> bytes \<Rightarrow> nat \<Rightarrow> BBS_TABLE \<Rightarrow> nat \<Rightarrow> nat list \<Rightarrow> nat \<times> bool \<Rightarrow> (nat \<times> bool) option" where
  "PnpLoop k R n e pnp seen (matches, missing) =
     (if pnp = 0 then Some (matches, missing)
      else case k of 0 \<Rightarrow> None
           | Suc k' \<Rightarrow>
               (if pnp < 0x1c \<or> pnp > n \<or> 32 > n - pnp then None
                else if pnp \<in> set seen then None
                else if \<not> PnpHeaderOk R n pnp then None
                else PnpLoop k' R n e (unat (Le16 R (pnp + 6))) (seen @ [pnp])
                       (if PnpMatches R n e pnp then (matches + 1, Le16 R (pnp + 14) = 0) else (matches, missing))))"

text \<open>The result and the value stored in \<open>*NoManufacturer\<close>.\<close>

definition LegacyStorageRomMatch ::
  "STORAGE_ROM_STATE option \<Rightarrow> bytes \<Rightarrow> BBS_TABLE option \<Rightarrow> bool \<times> bool" where
  "LegacyStorageRomMatch mState live entry =
     (case (mState, entry) of
        (Some st, Some e) \<Rightarrow>
          (if b_DeviceType e \<noteq> BBS_HARDDISK \<or> b_Class e \<noteq> 1 \<or> unat (b_Bus e) > 255 \<or> unat (b_Device e) > 31
              \<or> unat (b_Function e) > 7 then (False, False)
           else let address = unat (b_BootHandlerSegment e) * 16
                in if address < SHADOW_BASE \<or> address \<ge> SHADOW_BASE + SHADOW_BYTES \<or> address mod BLOCK_BYTES \<noteq> 0
                   then (False, False)
                   else let a = address - SHADOW_BASE; R = (\<lambda>i. st_Snapshot st (a + i))
                        in case Rom st a of
                             None \<Rightarrow> (False, False)
                           | Some (n, pcir) \<Rightarrow>
                               if \<not> bytes_eq R 0 live a n then (False, False)
                               else if b_DescStringSegment e \<noteq> b_BootHandlerSegment e
                                       \<or> b_MfgStringSegment e \<noteq> b_BootHandlerSegment e
                                         \<and> \<not> (b_MfgStringSegment e = 0 \<and> b_MfgStringOffset e = 0)
                                       \<or> b_BootHandlerOffset e = 0 \<or> unat (b_BootHandlerOffset e) \<ge> n then (False, False)
                               else case FindController e (st_Devices st) of
                                      (_, None) \<Rightarrow> (False, False)
                                    | (controllers, Some d) \<Rightarrow>
                                        if controllers \<noteq> 1 \<or> li_Segment d \<noteq> 0 \<or> EFI_ERROR (li_ConfigStatus d)
                                           \<or> Le16 (li_Config d) 0 \<noteq> Le16 R (pcir + 4) \<or> Le16 (li_Config d) 2 \<noteq> Le16 R (pcir + 6)
                                           \<or> li_Config d 0x0b \<noteq> b_Class e \<or> li_Config d 0x0a \<noteq> b_SubClass e then (False, False)
                                        else case PnpLoop MAX_PNP_HEADERS R n e (unat (Le16 R 0x1a)) [] (0, False) of
                                               None \<Rightarrow> (False, False)
                                             | Some (matches, missing) \<Rightarrow>
                                                 if matches \<noteq> 1 then (False, False) else (True, missing))
      | _ \<Rightarrow> (False, False))"

text \<open>Does some copied device of the storage class have the identity of this ROM?\<close>

definition IsStorageRom :: "STORAGE_ROM_STATE \<Rightarrow> nat \<Rightarrow> nat \<Rightarrow> bool" where
  "IsStorageRom st a pcir = list_ex (\<lambda>d. \<not> EFI_ERROR (li_ConfigStatus d) \<and> li_Config d 0x0b = 1 \<and>
     Le16 (li_Config d) 0 = Le16 (st_Snapshot st) (a + pcir + 4) \<and>
     Le16 (li_Config d) 2 = Le16 (st_Snapshot st) (a + pcir + 6)) (st_Devices st)"

section \<open>The snapshot\<close>

interpretation snapshot: range_check "StorageReadable (Some st)" SHADOW_BYTES "\<lambda>x. st_Valid st (x div 512) = 1" for st
proof
  show "StorageReadable (Some st) off n \<longleftrightarrow>
      0 < n \<and> off + n \<le> SHADOW_BYTES \<and> (\<forall>i<n. st_Valid st ((off + i) div 512) = 1)" for off n
    by (cases "n = 0") (auto simp: StorageReadable_def BlocksValid_iff)
qed

text \<open>A resident ROM that identifies a PCI device, completely readable when the snapshot was taken.\<close>

definition resident_rom :: "STORAGE_ROM_STATE \<Rightarrow> nat \<Rightarrow> nat \<Rightarrow> nat \<Rightarrow> bool" where
  "resident_rom st a n pcir \<longleftrightarrow>
     (let R = (\<lambda>i. st_Snapshot st (a + i)); len = unat (Le16 R (pcir + 0x0a))
      in StorageReadable (Some st) a n \<and> R 0 = 0x55 \<and> R 1 = 0xaa \<and> n = unat (R 2) * 512 \<and>
         pcir = unat (Le16 R 0x18) \<and> 0x1c \<le> pcir \<and> 0x18 \<le> len \<and> pcir + len \<le> n \<and> bytes_eq R pcir PCIR 0 4 \<and>
         R (pcir + 0x14) = 0 \<and> Le16 R (pcir + 4) \<noteq> 0 \<and> Le16 R (pcir + 4) \<noteq> 0xffff)"

lemma Rom_iff: "Rom st a = Some (n, pcir) \<longleftrightarrow> resident_rom st a n pcir"
proof -
  have "StorageReadable (Some st) a 0x1c" if "StorageReadable (Some st) a n" "0x1c \<le> n" for n
    using snapshot.granted_sub [OF that(1), of a "0x1c"] that(2) by simp
  then show ?thesis
    by (auto simp: Rom_def resident_rom_def Let_def BLOCK_BYTES_def)
qed

lemma resident_rom_size: "resident_rom st a n pcir \<Longrightarrow> 0 < n"
  by (simp add: resident_rom_def Let_def snapshot.granted_iff)

section \<open>Verification before the boot\<close>

text \<open>
  The loop \<open>for (At = 0; At < SHADOW_BYTES; At += BLOCK_BYTES)\<close>; a verified storage ROM is skipped
  by its own size.
\<close>

function VerifyLoop :: "STORAGE_ROM_STATE \<Rightarrow> bytes \<Rightarrow> nat \<Rightarrow> EFI_STATUS" where
  "VerifyLoop st live a =
     (if \<not> a < SHADOW_BYTES then EFI_SUCCESS
      else case Rom st a of
             None \<Rightarrow> VerifyLoop st live (a + BLOCK_BYTES)
           | Some (n, pcir) \<Rightarrow>
               if \<not> IsStorageRom st a pcir then VerifyLoop st live (a + BLOCK_BYTES)
               else if \<not> bytes_eq (st_Snapshot st) a live a n then EFI_CRC_ERROR
               else VerifyLoop st live (a + (n - BLOCK_BYTES) + BLOCK_BYTES))"
  by pat_completeness auto
termination
  by (relation "measure (\<lambda>(st, live, a). SHADOW_BYTES - a)") (auto simp: BLOCK_BYTES_def)

declare VerifyLoop.simps [simp del]

definition LegacyStorageRomVerify :: "STORAGE_ROM_STATE option \<Rightarrow> bytes \<Rightarrow> EFI_STATUS" where
  "LegacyStorageRomVerify mState live = (case mState of None \<Rightarrow> EFI_SUCCESS | Some st \<Rightarrow> VerifyLoop st live 0)"

definition storage_rom :: "STORAGE_ROM_STATE \<Rightarrow> nat \<Rightarrow> nat \<Rightarrow> bool" where
  "storage_rom st a n \<longleftrightarrow> (\<exists>pcir. resident_rom st a n pcir \<and> IsStorageRom st a pcir)"

definition unchanged :: "STORAGE_ROM_STATE \<Rightarrow> bytes \<Rightarrow> nat \<Rightarrow> nat \<Rightarrow> bool" where
  "unchanged st live a n \<longleftrightarrow> (\<forall>x. a \<le> x \<and> x < a + n \<longrightarrow> live x = st_Snapshot st x)"

lemma bytes_eq_unchanged: "bytes_eq (st_Snapshot st) a live a n \<longleftrightarrow> unchanged st live a n"
  unfolding bytes_eq_iff unchanged_def
  by (metis le_add1 le_add_diff_inverse nat_add_left_cancel_less)

lemma storage_rom_block: "storage_rom st a n \<Longrightarrow> 512 \<le> n \<and> 512 dvd n"
  by (auto simp: storage_rom_def resident_rom_def Let_def snapshot.granted_iff)

text \<open>The three ways one iteration of the verification can go.\<close>

lemma VerifyLoop_end: "\<not> a < SHADOW_BYTES \<Longrightarrow> VerifyLoop st live a = EFI_SUCCESS"
  by (simp add: VerifyLoop.simps)

lemma VerifyLoop_storage:
  assumes "storage_rom st a n"
  shows "VerifyLoop st live a = (if unchanged st live a n then VerifyLoop st live (a + n) else EFI_CRC_ERROR)"
proof -
  obtain pcir where rom: "Rom st a = Some (n, pcir)" "IsStorageRom st a pcir"
    using assms by (auto simp: storage_rom_def Rom_iff)
  moreover have "a < SHADOW_BYTES"
    using assms by (auto simp: storage_rom_def resident_rom_def Let_def snapshot.granted_iff)
  moreover have "a + (n - BLOCK_BYTES) + BLOCK_BYTES = a + n"
    using storage_rom_block [OF assms] by (simp add: BLOCK_BYTES_def)
  ultimately show ?thesis by (subst VerifyLoop.simps) (simp add: bytes_eq_unchanged)
qed

lemma VerifyLoop_other:
  assumes "\<And>n. \<not> storage_rom st a n" and "a < SHADOW_BYTES"
  shows "VerifyLoop st live a = VerifyLoop st live (a + 512)"
proof -
  have "\<not> IsStorageRom st a pcir" if "Rom st a = Some (n, pcir)" for n pcir
    using assms(1) [of n] that by (auto simp: storage_rom_def Rom_iff)
  with assms(2) show ?thesis by (subst VerifyLoop.simps) (auto simp: BLOCK_BYTES_def split: option.splits)
qed

text \<open>Induction over the positions the loop visits.\<close>

lemma verify_induct [case_names stop storage other]:
  assumes "\<And>a. \<not> a < SHADOW_BYTES \<Longrightarrow> P a"
    and "\<And>a n. storage_rom st a n \<Longrightarrow> P (a + n) \<Longrightarrow> P a"
    and "\<And>a. a < SHADOW_BYTES \<Longrightarrow> (\<And>n. \<not> storage_rom st a n) \<Longrightarrow> P (a + 512) \<Longrightarrow> P a"
  shows "P a"
proof (induction "SHADOW_BYTES - a" arbitrary: a rule: less_induct)
  case less
  show ?case
  proof (cases "a < SHADOW_BYTES")
    case True
    show ?thesis
    proof (cases "\<exists>n. storage_rom st a n")
      case storage: True
      then obtain n where n: "storage_rom st a n" by blast
      have "P (a + n)" using True storage_rom_block [OF n] by (intro less) linarith
      then show ?thesis by (rule assms(2) [OF n])
    next
      case False
      have "P (a + 512)" using True by (intro less) linarith
      with False show ?thesis by (intro assms(3) [OF True]) simp_all
    qed
  qed (rule assms(1))
qed

text \<open>
  Verification succeeds only if every resident ROM of a storage controller is byte for byte the
  one of the preflight snapshot: each such ROM at a block boundary is unchanged, or it starts inside
  a larger storage ROM that is unchanged.
\<close>

theorem LegacyStorageRomVerify_unchanged:
  assumes "LegacyStorageRomVerify (Some st) live = EFI_SUCCESS" and "storage_rom st a n" and "512 dvd a"
  shows "unchanged st live a n \<or> (\<exists>b m. storage_rom st b m \<and> unchanged st live b m \<and> b < a \<and> a < b + m)"
proof -
  have "VerifyLoop st live p = EFI_SUCCESS \<Longrightarrow> p \<le> a \<Longrightarrow> 512 dvd p \<Longrightarrow> ?thesis" for p
  proof (induction p rule: verify_induct [of _ st])
    case (stop p)
    then show ?case using assms(2) by (auto simp: storage_rom_def resident_rom_def Let_def snapshot.granted_iff)
  next
    case (storage p m)
    then have ok: "unchanged st live p m" "VerifyLoop st live (p + m) = EFI_SUCCESS"
      by (auto simp: VerifyLoop_storage split: if_splits)
    show ?case
    proof (cases "a < p + m")
      case True
      show ?thesis
      proof (cases "a = p")
        case same: True
        have "n = m" using storage.hyps(1) assms(2) same by (auto simp: storage_rom_def simp flip: Rom_iff)
        with ok(1) same show ?thesis by simp
      next
        case False
        with True storage.prems(2) storage.hyps(1) ok(1) show ?thesis by (metis le_neq_implies_less)
      qed
    next
      case False
      with storage ok storage_rom_block [OF storage.hyps(1)] show ?thesis by (intro storage.IH) auto
    qed
  next
    case (other p)
    then have "p \<noteq> a" using assms(2) by blast
    then have "p + 512 \<le> a" using other.prems(2,3) assms(3) by (auto elim!: dvdE)
    with other show ?case by (simp add: VerifyLoop_other)
  qed
  from this [of 0] assms(1) show ?thesis by (simp add: LegacyStorageRomVerify_def)
qed


section \<open>Corroborating a disk entry\<close>

definition rom_string :: "bytes \<Rightarrow> nat \<Rightarrow> nat \<Rightarrow> bool" where
  "rom_string R n off \<longleftrightarrow> (\<exists>m. 0 < m \<and> m < 128 \<and> off + m < n \<and> R (off + m) = 0 \<and>
     (\<forall>i<m. 0x20 \<le> R (off + i) \<and> R (off + i) \<le> 0x7e))"

lemma StringLoop_iff:
  assumes "off \<le> i"
  shows "StringLoop k R n off i \<longleftrightarrow>
    (\<exists>m<k. off < i + m \<and> i + m < n \<and> R (i + m) = 0 \<and> (\<forall>j<m. 0x20 \<le> R (i + j) \<and> R (i + j) \<le> 0x7e))"
  using assms
proof (induction k arbitrary: i)
  case (Suc k)
  show ?case
  proof (cases "i < n \<and> R i \<noteq> 0 \<and> 0x20 \<le> R i \<and> R i \<le> 0x7e")
    case True
    then have "StringLoop (Suc k) R n off i \<longleftrightarrow> StringLoop k R n off (Suc i)" by (auto dest: leD)
    also have "\<dots> \<longleftrightarrow> (\<exists>m<k. off < Suc i + m \<and> Suc i + m < n \<and> R (Suc i + m) = 0 \<and>
        (\<forall>j<m. 0x20 \<le> R (Suc i + j) \<and> R (Suc i + j) \<le> 0x7e))"
      using Suc.prems by (intro Suc.IH) simp
    also have "\<dots> \<longleftrightarrow> (\<exists>m<Suc k. off < i + m \<and> i + m < n \<and> R (i + m) = 0 \<and>
        (\<forall>j<m. 0x20 \<le> R (i + j) \<and> R (i + j) \<le> 0x7e))"
      using True by (simp add: Ex_less_Suc2 All_less_Suc2)
    finally show ?thesis .
  next
    case False
    then show ?thesis by (simp add: Ex_less_Suc2 All_less_Suc2 not_less) (auto simp: not_le)
  qed
qed simp

lemma StorageString_iff: "StorageString R n off optional \<longleftrightarrow> (if off = 0 then optional else rom_string R n (unat off))"
proof -
  have "(\<exists>m<128. p < p + m \<and> Q m) \<longleftrightarrow> (\<exists>m. 0 < m \<and> m < 128 \<and> Q m)" for p :: nat and Q by auto
  then show ?thesis
    by (auto simp: StorageString_def StringLoop_iff rom_string_def)
qed

text \<open>The expansion headers of a ROM, linked from \<open>0x1a\<close>.\<close>

inductive pnp_chain :: "bytes \<Rightarrow> nat \<Rightarrow> nat \<Rightarrow> nat list \<Rightarrow> bool" for R n where
  stop: "pnp_chain R n 0 []"
| header: "0x1c \<le> p \<Longrightarrow> p + 32 \<le> n \<Longrightarrow> PnpHeaderOk R n p \<Longrightarrow> pnp_chain R n (unat (Le16 R (p + 6))) ps \<Longrightarrow>
           pnp_chain R n p (p # ps)"

inductive_simps pnp_chain_0: "pnp_chain R n 0 ps"
inductive_cases pnp_chainE: "pnp_chain R n p ps"

lemma PnpLoop_iff:
  "PnpLoop k R n e p seen (m, missing) = Some (m', missing') \<longleftrightarrow>
     (\<exists>ps. pnp_chain R n p ps \<and> length ps \<le> k \<and> distinct ps \<and> set ps \<inter> set seen = {} \<and>
        m' = m + length (filter (PnpMatches R n e) ps) \<and>
        missing' = (if filter (PnpMatches R n e) ps = [] then missing else Le16 R (last (filter (PnpMatches R n e) ps) + 14) = 0))"
proof (induction k arbitrary: p seen m missing)
  case 0
  then show ?case by (auto simp: pnp_chain_0 elim: pnp_chainE)
next
  case (Suc k)
  show ?case
  proof (cases "p = 0")
    case True
    then show ?thesis by (auto simp: pnp_chain_0)
  next
    case False
    let ?ok = "0x1c \<le> p \<and> p + 32 \<le> n \<and> PnpHeaderOk R n p"
    have unfold: "pnp_chain R n p ps \<longleftrightarrow> ?ok \<and> (\<exists>qs. ps = p # qs \<and> pnp_chain R n (unat (Le16 R (p + 6))) qs)" for ps
      using False by (auto elim: pnp_chainE intro: pnp_chain.header)
    show ?thesis
    proof (cases "?ok \<and> p \<notin> set seen")
      case True
      then have "PnpLoop (Suc k) R n e p seen (m, missing) =
          PnpLoop k R n e (unat (Le16 R (p + 6))) (seen @ [p])
            (if PnpMatches R n e p then (m + 1, Le16 R (p + 14) = 0) else (m, missing))"
        using False by auto
      moreover have "(\<exists>ps. pnp_chain R n p ps \<and> Q ps) \<longleftrightarrow> (\<exists>qs. pnp_chain R n (unat (Le16 R (p + 6))) qs \<and> Q (p # qs))" for Q
        using True unfolding unfold by blast
      moreover have "set qs \<inter> set (seen @ [p]) = {} \<longleftrightarrow> p \<notin> set qs \<and> set qs \<inter> set seen = {}"
        "set (p # qs) \<inter> set seen = {} \<longleftrightarrow> set qs \<inter> set seen = {}" for qs
        using True by auto
      ultimately show ?thesis
        by (cases "PnpMatches R n e p"; simp only: if_True if_False Suc.IH; intro arg_cong [where f = Ex] ext; simp; blast?)
    next
      case nok: False
      then have "PnpLoop (Suc k) R n e p seen (m, missing) = None" using False by auto
      with nok show ?thesis unfolding unfold by auto
    qed
  qed
qed


declare PnpLoop.simps [simp del]

text \<open>What corroborates a BBS entry, spelled out over the snapshot, the live bytes and the copied devices.\<close>

definition disk_entry :: "BBS_TABLE \<Rightarrow> nat \<Rightarrow> bool" where
  "disk_entry e a \<longleftrightarrow> b_DeviceType e = BBS_HARDDISK \<and> b_Class e = 1 \<and>
     unat (b_Bus e) \<le> 255 \<and> unat (b_Device e) \<le> 31 \<and> unat (b_Function e) \<le> 7 \<and>
     unat (b_BootHandlerSegment e) * 16 = 0xc0000 + a \<and> a < SHADOW_BYTES \<and> 512 dvd a"

definition entry_in_rom :: "BBS_TABLE \<Rightarrow> nat \<Rightarrow> bool" where
  "entry_in_rom e n \<longleftrightarrow> b_DescStringSegment e = b_BootHandlerSegment e \<and>
     (b_MfgStringSegment e = b_BootHandlerSegment e \<or> b_MfgStringSegment e = 0 \<and> b_MfgStringOffset e = 0) \<and>
     b_BootHandlerOffset e \<noteq> 0 \<and> unat (b_BootHandlerOffset e) < n"

definition sole_controller :: "STORAGE_ROM_STATE \<Rightarrow> BBS_TABLE \<Rightarrow> bytes \<Rightarrow> nat \<Rightarrow> bool" where
  "sole_controller st e R pcir \<longleftrightarrow> (\<exists>d. filter (AtEntry e) (st_Devices st) = [d] \<and> li_Segment d = 0 \<and>
     \<not> EFI_ERROR (li_ConfigStatus d) \<and> Le16 (li_Config d) 0 = Le16 R (pcir + 4) \<and> Le16 (li_Config d) 2 = Le16 R (pcir + 6) \<and>
     li_Config d 0x0b = b_Class e \<and> li_Config d 0x0a = b_SubClass e)"

definition sole_header :: "bytes \<Rightarrow> nat \<Rightarrow> BBS_TABLE \<Rightarrow> nat \<Rightarrow> bool" where
  "sole_header R n e h \<longleftrightarrow> (\<exists>ps. pnp_chain R n (unat (Le16 R 0x1a)) ps \<and> length ps \<le> 32 \<and> distinct ps \<and>
     filter (PnpMatches R n e) ps = [h])"

lemma PnpLoop_one:
  "PnpLoop MAX_PNP_HEADERS R n e (unat (Le16 R 0x1a)) [] (0, False) = Some (1, missing) \<longleftrightarrow>
     (\<exists>h. sole_header R n e h \<and> missing = (Le16 R (h + 14) = 0))"
proof -
  have "(1 = 0 + length qs \<and> missing = (if qs = [] then False else Le16 R (last qs + 14) = 0)) \<longleftrightarrow>
      (\<exists>h. qs = [h] \<and> missing = (Le16 R (h + 14) = 0))" for qs :: "nat list"
    by (cases qs) auto
  then show ?thesis unfolding PnpLoop_iff sole_header_def MAX_PNP_HEADERS_def by (simp only: list.set Int_empty_right) blast
qed

lemma live_unchanged: "bytes_eq (\<lambda>i. st_Snapshot st (a + i)) 0 live a n \<longleftrightarrow> unchanged st live a n"
  using bytes_eq_unchanged [of st a live n] by (simp add: bytes_eq_iff)

text \<open>The segment check in front of the ROM lookup.\<close>

lemma disk_entry_guard:
  fixes e
  defines "y \<equiv> unat (b_BootHandlerSegment e) * 16"
  shows "disk_entry e a \<longleftrightarrow> a = y - SHADOW_BASE \<and> \<not> (b_DeviceType e \<noteq> BBS_HARDDISK \<or> b_Class e \<noteq> 1 \<or>
      unat (b_Bus e) > 255 \<or> unat (b_Device e) > 31 \<or> unat (b_Function e) > 7) \<and>
      \<not> (y < SHADOW_BASE \<or> y \<ge> SHADOW_BASE + SHADOW_BYTES \<or> y mod BLOCK_BYTES \<noteq> 0)"
proof -
  have "512 dvd (y - 0xc0000) \<longleftrightarrow> y mod 512 = 0" if "0xc0000 \<le> y"
    using that dvd_diff_nat [of 512 y "0xc0000"] dvd_add [of 512 "y - 0xc0000" "0xc0000"] by (auto simp: mod_eq_0_iff_dvd)
  then show ?thesis unfolding disk_entry_def y_def [symmetric] by (auto simp: ncv_defs not_less not_le)
qed

lemma controller_case:
  "(case FindController e ds of (_, None) \<Rightarrow> (False, False)
    | (k, Some d) \<Rightarrow> if k \<noteq> 1 \<or> bad d then (False, False) else r) = (True, m) \<longleftrightarrow>
   (\<exists>d. filter (AtEntry e) ds = [d] \<and> \<not> bad d) \<and> r = (True, m)"
proof (cases "filter (AtEntry e) ds")
  case Nil
  then show ?thesis by (simp add: FindController_def ControllerStep_fold)
next
  case (Cons d qs)
  then show ?thesis by (cases qs) (auto simp: FindController_def ControllerStep_fold)
qed

text \<open>
  C34. A zero-status disk entry is corroborated exactly when its boot handler segment is the base of
  a readable resident ROM that is still byte for byte the snapshot, handler and strings lie in that
  ROM, exactly one copied PCI device is at the entry's address and has the identity the ROM's PCIR
  names and the class of the entry, and exactly one header of the ROM's loop-free, checksummed
  \<open>$PnP\<close> chain of at most 32 headers matches the entry; the manufacturer is reported missing exactly
  when that header has none.
\<close>

theorem LegacyStorageRomMatch_iff:
  "LegacyStorageRomMatch (Some st) live (Some e) = (True, missing) \<longleftrightarrow>
     (\<exists>a n pcir h. disk_entry e a \<and> resident_rom st a n pcir \<and> unchanged st live a n \<and> entry_in_rom e n \<and>
        sole_controller st e (\<lambda>i. st_Snapshot st (a + i)) pcir \<and> sole_header (\<lambda>i. st_Snapshot st (a + i)) n e h \<and>
        missing = (Le16 (\<lambda>i. st_Snapshot st (a + i)) (h + 14) = 0))"
proof -
  define a where "a = unat (b_BootHandlerSegment e) * 16 - SHADOW_BASE"
  define R where "R = (\<lambda>i. st_Snapshot st (a + i))"
  have entry: "disk_entry e x \<longleftrightarrow> x = a \<and> disk_entry e a" for x by (auto simp: disk_entry_guard a_def)
  have ctrl: "sole_controller st e R pcir \<longleftrightarrow> (\<exists>d. filter (AtEntry e) (st_Devices st) = [d] \<and>
      \<not> (li_Segment d \<noteq> 0 \<or> EFI_ERROR (li_ConfigStatus d)
         \<or> Le16 (li_Config d) 0 \<noteq> Le16 R (pcir + 4) \<or> Le16 (li_Config d) 2 \<noteq> Le16 R (pcir + 6)
         \<or> li_Config d 0x0b \<noteq> b_Class e \<or> li_Config d 0x0a \<noteq> b_SubClass e))" for pcir
    unfolding sole_controller_def by (intro arg_cong [where f = Ex] ext) auto
  have ent: "(b_DescStringSegment e \<noteq> b_BootHandlerSegment e \<or> b_MfgStringSegment e \<noteq> b_BootHandlerSegment e \<and>
      \<not> (b_MfgStringSegment e = 0 \<and> b_MfgStringOffset e = 0) \<or> b_BootHandlerOffset e = 0 \<or> n \<le> unat (b_BootHandlerOffset e)) \<longleftrightarrow>
      \<not> entry_in_rom e n" for n
    by (auto simp: entry_in_rom_def)
  have pnp: "(case PnpLoop k R n e p ps q of None \<Rightarrow> (False, False)
      | Some (matches, m) \<Rightarrow> if matches \<noteq> 1 then (False, False) else (True, m)) = (True, missing) \<longleftrightarrow>
      PnpLoop k R n e p ps q = Some (1, missing)" for k n p ps q
    by (auto split: option.split)
  have "LegacyStorageRomMatch (Some st) live (Some e) = (True, missing) \<longleftrightarrow> disk_entry e a \<and>
     (\<exists>n pcir. Rom st a = Some (n, pcir) \<and> bytes_eq R 0 live a n \<and> entry_in_rom e n \<and> sole_controller st e R pcir \<and>
       PnpLoop MAX_PNP_HEADERS R n e (unat (Le16 R 0x1a)) [] (0, False) = Some (1, missing))"
  proof (cases "disk_entry e a")
    case False
    then show ?thesis by (auto simp: LegacyStorageRomMatch_def Let_def disk_entry_guard a_def)
  next
    case True
    then have eq: "LegacyStorageRomMatch (Some st) live (Some e) = (case Rom st a of None \<Rightarrow> (False, False)
      | Some (n, pcir) \<Rightarrow> if \<not> bytes_eq R 0 live a n then (False, False)
          else if \<not> entry_in_rom e n then (False, False)
          else case FindController e (st_Devices st) of (_, None) \<Rightarrow> (False, False)
            | (k, Some d) \<Rightarrow> if k \<noteq> 1 \<or> (li_Segment d \<noteq> 0 \<or> EFI_ERROR (li_ConfigStatus d)
                  \<or> Le16 (li_Config d) 0 \<noteq> Le16 R (pcir + 4) \<or> Le16 (li_Config d) 2 \<noteq> Le16 R (pcir + 6)
                  \<or> li_Config d 0x0b \<noteq> b_Class e \<or> li_Config d 0x0a \<noteq> b_SubClass e) then (False, False)
                else case PnpLoop MAX_PNP_HEADERS R n e (unat (Le16 R 0x1a)) [] (0, False) of None \<Rightarrow> (False, False)
                  | Some (matches, m) \<Rightarrow> if matches \<noteq> 1 then (False, False) else (True, m))"
      unfolding LegacyStorageRomMatch_def Let_def prod.case option.case disk_entry_guard a_def [symmetric] R_def [symmetric] ent
      by (simp only: if_False)
    then have step: "LegacyStorageRomMatch (Some st) live (Some e) = (True, missing) \<longleftrightarrow>
        bytes_eq R 0 live a n \<and> entry_in_rom e n \<and> sole_controller st e R pcir \<and>
        PnpLoop MAX_PNP_HEADERS R n e (unat (Le16 R 0x1a)) [] (0, False) = Some (1, missing)"
      if "Rom st a = Some (n, pcir)" for n pcir
      unfolding that option.case prod.case ctrl
      by (cases "bytes_eq R 0 live a n \<and> entry_in_rom e n")
        (simp_all only: controller_case pnp if_True if_False simp_thms prod.inject, auto)
    show ?thesis
    proof (cases "Rom st a")
      case None
      with eq show ?thesis by simp
    next
      case (Some np)
      with step True show ?thesis by (cases np) simp
    qed
  qed
  then show ?thesis
    unfolding PnpLoop_one Rom_iff R_def live_unchanged by (subst entry) blast
qed


section \<open>Preparation\<close>

text \<open>The module holds a snapshot exactly after a successful preparation, and then the one it was given.\<close>

lemma LegacyStorageRomPrepare_state:
  assumes "LegacyStorageRomPrepare bs w snap valid live ivt = ((status, state), w')"
  shows "status = EFI_SUCCESS \<longleftrightarrow> state \<noteq> None"
    and "state = Some st \<Longrightarrow> snap = Some (st_Snapshot st) \<and> valid = Some (st_Valid st) \<and> (\<exists>i. ivt = Some i \<and> st_Devices st = identities i)"
  using assms
  by (auto simp: LegacyStorageRomPrepare_def LegacyStorageRomReset_def Let_def identities_def
      dest!: CopyLegacyPciIdentities_SomeD split: option.splits if_splits prod.splits)

lemma LegacyStorageRomPrepare_status:
  "LegacyStorageRomPrepare bs w snap valid live ivt = ((status, state), w') \<Longrightarrow> status = EFI_SUCCESS \<or> EFI_ERROR status"
  by (auto simp: LegacyStorageRomPrepare_def Let_def split: option.splits if_splits prod.splits)

definition empty_rom_state :: "bytes \<Rightarrow> STORAGE_ROM_STATE" where
  "empty_rom_state snap = \<lparr>st_Snapshot = snap, st_Valid = (\<lambda>_. 1),
     st_Devices = [\<lparr>li_LocationStatus = EFI_SUCCESS, li_ConfigStatus = EFI_SUCCESS, li_Segment = 0, li_Bus = 0,
       li_Device = 31, li_Function = 2, li_Config = bytes_of [0x86, 0x80, 2, 0x1c, 0, 0, 0, 0, 0, 4, 6, 1]\<rparr>]\<rparr>"

text \<open>A one-block AHCI ROM at the start of the shadow area.\<close>

definition ahci_rom :: bytes where
  "ahci_rom = bytes_of ([0x55, 0xaa, 1] @ replicate 21 0 @ [0x1c, 0, 0, 0] @
     [0x50, 0x43, 0x49, 0x52, 0x86, 0x80, 2, 0x1c, 0, 0, 0x18, 0] @ replicate 12 0)"

lemma ahci_storage_rom: "storage_rom (empty_rom_state ahci_rom) 0 512"
proof -
  have "Le16 ahci_rom 0x18 = 0x1c" "Le16 ahci_rom 0x26 = 0x18" "Le16 ahci_rom 0x20 = 0x8086" "Le16 ahci_rom 0x22 = 0x1c02"
    "Le16 (bytes_of [0x86, 0x80, 2, 0x1c, 0, 0, 0, 0, 0, 4, 6, 1]) 0 = 0x8086"
    "Le16 (bytes_of [0x86, 0x80, 2, 0x1c, 0, 0, 0, 0, 0, 4, 6, 1]) 2 = 0x1c02"
    by (simp_all add: ahci_rom_def Le16_def bytes_of_def nth_append)
  moreover have "bytes_eq ahci_rom 0x1c PCIR 0 4"
    by (simp add: bytes_eq_def upt_rec ahci_rom_def bytes_of_def PCIR_def nth_append)
  moreover have "ahci_rom 0 = 0x55" "ahci_rom (Suc 0) = 0xaa" "ahci_rom 2 = 1" "ahci_rom 0x30 = 0"
    by (simp_all add: ahci_rom_def bytes_of_def nth_append)
  ultimately have "resident_rom (empty_rom_state ahci_rom) 0 512 0x1c \<and> IsStorageRom (empty_rom_state ahci_rom) 0 0x1c"
    by (simp add: resident_rom_def Let_def snapshot.granted_iff IsStorageRom_def empty_rom_state_def SHADOW_BYTES_def bytes_of_def)
  then show ?thesis unfolding storage_rom_def by blast
qed

lemma VerifyLoop_same: "VerifyLoop st (st_Snapshot st) a = EFI_SUCCESS"
proof (induction a rule: verify_induct [of _ st])
  case (storage a n)
  then show ?case by (simp add: VerifyLoop_storage unchanged_def)
qed (simp_all add: VerifyLoop_end VerifyLoop_other)

theorem LegacyStorageRomVerify_unchanged_witness:
  "LegacyStorageRomVerify (Some (empty_rom_state ahci_rom)) ahci_rom = EFI_SUCCESS \<and>
   storage_rom (empty_rom_state ahci_rom) 0 512 \<and> unchanged (empty_rom_state ahci_rom) ahci_rom 0 512"
proof -
  have ok: "LegacyStorageRomVerify (Some (empty_rom_state ahci_rom)) ahci_rom = EFI_SUCCESS"
    using VerifyLoop_same [of "empty_rom_state ahci_rom" 0] by (simp add: LegacyStorageRomVerify_def empty_rom_state_def)
  with LegacyStorageRomVerify_unchanged [OF ok ahci_storage_rom] ahci_storage_rom show ?thesis by auto
qed

end
