(* ===== verification/Legacy_Firmware_Disk.thy ===== *)
theory Legacy_Firmware_Disk
  imports Pci_Identity
begin

text \<open>
  \<open>LegacyFirmwareDisk.c\<close>: corroboration of a BBS disk entry whose handler lives in the system BIOS
  (E and F segments) instead of an option ROM. The live view is the memory content at the time of
  the call.
\<close>

definition NCV_DISK_FIRMWARE_BASE :: nat where [ncv_defs]: "NCV_DISK_FIRMWARE_BASE = 0xE0000"
definition NCV_DISK_FIRMWARE_BYTES :: nat where [ncv_defs]: "NCV_DISK_FIRMWARE_BYTES = 0x20000"
definition NCV_DISK_FIRMWARE_BLOCK :: nat where [ncv_defs]: "NCV_DISK_FIRMWARE_BLOCK = 512"
definition NCV_DISK_FIRMWARE_BLOCKS :: nat where [ncv_defs]: "NCV_DISK_FIRMWARE_BLOCKS = NCV_DISK_FIRMWARE_BYTES div NCV_DISK_FIRMWARE_BLOCK"

record FIRMWARE_DISK_STATE =
  fd_Snapshot :: bytes
  fd_Valid :: bytes
  fd_Devices :: "LEGACY_PCI_IDENTITY list"

definition sizeof_firmware_state :: nat where [ncv_defs]: "sizeof_firmware_state = 0x20000 + 0x100 + 24"

section \<open>Operations\<close>

definition LegacyFirmwareDiskReset :: "FIRMWARE_DISK_STATE option" where
  "LegacyFirmwareDiskReset = None"

text \<open>A fresh state has a zeroed snapshot; the result is the status and \<open>mFirmware\<close>.\<close>

definition AllocateFirmwareState ::
  "'w memory_services \<Rightarrow> 'w \<Rightarrow> PCI_INVENTORY option \<Rightarrow> bool \<Rightarrow> (EFI_STATUS \<times> FIRMWARE_DISK_STATE option) \<times> 'w" where
  "AllocateFirmwareState bs w inventory live =
     (if \<not> live \<or> \<not> InventoryUsable inventory then ((EFI_INVALID_PARAMETER, LegacyFirmwareDiskReset), w)
      else let (ok, w) = AllocatePool bs w sizeof_firmware_state
           in if \<not> ok then ((EFI_OUT_OF_RESOURCES, LegacyFirmwareDiskReset), w)
              else let zero = \<lparr>fd_Snapshot = (\<lambda>_. 0), fd_Valid = (\<lambda>_. 0), fd_Devices = []\<rparr>
                   in if inv_Count (the inventory) = 0 then ((EFI_SUCCESS, Some zero), w)
                      else case CopyLegacyPciIdentities bs w (the inventory) of
                             (None, w) \<Rightarrow> ((EFI_OUT_OF_RESOURCES, LegacyFirmwareDiskReset), w)
                           | (Some ds, w) \<Rightarrow> ((EFI_SUCCESS, Some (zero\<lparr>fd_Devices := ds\<rparr>)), w))"

definition LegacyFirmwareDiskPrepare ::
  "'w memory_services \<Rightarrow> 'w \<Rightarrow> bytes option \<Rightarrow> bytes option \<Rightarrow> bool \<Rightarrow> PCI_INVENTORY option \<Rightarrow>
   (EFI_STATUS \<times> FIRMWARE_DISK_STATE option) \<times> 'w" where
  "LegacyFirmwareDiskPrepare bs w snapshot valid live inventory =
     (case (snapshot, valid) of
        (Some snap, Some v) \<Rightarrow>
          (case AllocateFirmwareState bs w inventory live of
             ((status, state), w) \<Rightarrow>
               if EFI_ERROR status then ((status, state), w)
               else ((EFI_SUCCESS, map_option (\<lambda>st. st\<lparr>fd_Snapshot := snap, fd_Valid := v\<rparr>) state), w))
      | _ \<Rightarrow> ((EFI_INVALID_PARAMETER, LegacyFirmwareDiskReset), w))"

text \<open>The copy loop of one block.\<close>

definition CaptureBlock :: "MEMORY_MAP_SNAPSHOT \<Rightarrow> bytes \<Rightarrow> FIRMWARE_DISK_STATE \<Rightarrow> nat \<Rightarrow> FIRMWARE_DISK_STATE" where
  "CaptureBlock m mem st block =
     (if fst (MemoryMapRangeIsReadable (Some m) (NCV_DISK_FIRMWARE_BASE + block * NCV_DISK_FIRMWARE_BLOCK) NCV_DISK_FIRMWARE_BLOCK False)
      then st\<lparr>fd_Snapshot := (\<lambda>i. if block * NCV_DISK_FIRMWARE_BLOCK \<le> i \<and> i < (block + 1) * NCV_DISK_FIRMWARE_BLOCK
                                 then mem (NCV_DISK_FIRMWARE_BASE + i) else fd_Snapshot st i),
               fd_Valid := (fd_Valid st)(block := 1)\<rparr>
      else st)"

definition LegacyFirmwareDiskCapture ::
  "'w memory_services \<Rightarrow> 'w \<Rightarrow> bytes \<Rightarrow> PCI_INVENTORY option \<Rightarrow> (EFI_STATUS \<times> FIRMWARE_DISK_STATE option) \<times> 'w" where
  "LegacyFirmwareDiskCapture bs w mem inventory =
     (case AllocateFirmwareState bs w inventory True of
        ((status, state), w) \<Rightarrow>
          if EFI_ERROR status then ((status, state), w)
          else case MemoryMapCapture bs w of
                 (Inl status, w) \<Rightarrow> ((status, LegacyFirmwareDiskReset), w)
               | (Inr m, w) \<Rightarrow>
                   ((EFI_SUCCESS, map_option (\<lambda>st. foldl (CaptureBlock m mem) st [0..<NCV_DISK_FIRMWARE_BLOCKS]) state), w))"

definition StableRange :: "FIRMWARE_DISK_STATE option \<Rightarrow> bytes \<Rightarrow> nat \<Rightarrow> nat \<Rightarrow> bool" where
  "StableRange mFirmware live address n =
     (case mFirmware of None \<Rightarrow> False
      | Some st \<Rightarrow>
          if n = 0 \<or> address < NCV_DISK_FIRMWARE_BASE then False
          else let a = address - NCV_DISK_FIRMWARE_BASE
               in if a \<ge> NCV_DISK_FIRMWARE_BYTES \<or> n > NCV_DISK_FIRMWARE_BYTES - a then False
                  else if \<not> BlocksValid (fd_Valid st) a n then False
                  else bytes_eq (fd_Snapshot st) a live a n)"

text \<open>The scan for a terminated printable string; the first argument counts what is left of the 128 bytes.\<close>

fun FirmwareStringLoop :: "nat \<Rightarrow> FIRMWARE_DISK_STATE \<Rightarrow> bytes \<Rightarrow> nat \<Rightarrow> nat \<Rightarrow> bool" where
  "FirmwareStringLoop 0 st live address index = False"
| "FirmwareStringLoop (Suc k) st live address index =
     (if \<not> StableRange (Some st) live (address + index) 1 then False
      else let value = fd_Snapshot st (address + index - NCV_DISK_FIRMWARE_BASE)
           in if value = 0 then index \<noteq> 0
              else if value < 0x20 \<or> value > 0x7e then False
              else FirmwareStringLoop k st live address (index + 1))"

definition FirmwareString :: "FIRMWARE_DISK_STATE \<Rightarrow> bytes \<Rightarrow> NCV_U16 \<Rightarrow> NCV_U16 \<Rightarrow> bool \<Rightarrow> bool" where
  "FirmwareString st live segment offset optional =
     (if segment = 0 \<and> offset = 0 then optional
      else FirmwareStringLoop 128 st live (unat segment * 16 + unat offset) 0)"

definition LegacyFirmwareDiskMatch :: "FIRMWARE_DISK_STATE option \<Rightarrow> bytes \<Rightarrow> BBS_TABLE option \<Rightarrow> bool" where
  "LegacyFirmwareDiskMatch mFirmware live entry =
     (case (mFirmware, entry) of
        (Some st, Some e) \<Rightarrow>
          (if b_DeviceType e \<noteq> BBS_HARDDISK \<or> b_Class e \<noteq> 1 \<or> b_SubClass e \<noteq> 6 \<or> unat (b_Bus e) > 255
              \<or> unat (b_Device e) > 31 \<or> unat (b_Function e) > 7 \<or> b_BootHandlerSegment e = 0 then False
           else case FindController e (fd_Devices st) of
                  (_, None) \<Rightarrow> False
                | (matches, Some d) \<Rightarrow>
                    if matches \<noteq> 1 \<or> (li_Segment d \<noteq> 0 \<or> EFI_ERROR (li_ConfigStatus d)
                       \<or> li_Config d 0 = 0 \<and> li_Config d 1 = 0 \<or> li_Config d 0 = 0xff \<and> li_Config d 1 = 0xff
                       \<or> li_Config d 2 = 0xff \<and> li_Config d 3 = 0xff
                       \<or> li_Config d 0x0b \<noteq> 1 \<or> li_Config d 0x0a \<noteq> 6 \<or> li_Config d 9 \<noteq> 1) then False
                    else let handler = unat (b_BootHandlerSegment e) * 16 + unat (b_BootHandlerOffset e)
                         in if \<not> StableRange (Some st) live handler 64
                               \<or> \<not> FirmwareString st live (b_DescStringSegment e) (b_DescStringOffset e) False
                               \<or> \<not> FirmwareString st live (b_MfgStringSegment e) (b_MfgStringOffset e) True then False
                            else list_ex (\<lambda>i. let value = fd_Snapshot st (handler - NCV_DISK_FIRMWARE_BASE + i)
                                              in value \<noteq> 0 \<and> value \<noteq> 0xff) [0..<64])
      | _ \<Rightarrow> False)"

section \<open>Stable bytes\<close>

text \<open>A physical byte is stable when it was readable at capture time and still holds the captured value.\<close>

definition stable_byte :: "FIRMWARE_DISK_STATE \<Rightarrow> bytes \<Rightarrow> nat \<Rightarrow> bool" where
  "stable_byte st live x \<longleftrightarrow> NCV_DISK_FIRMWARE_BASE \<le> x \<and> fd_Valid st ((x - NCV_DISK_FIRMWARE_BASE) div 512) = 1 \<and>
     live (x - NCV_DISK_FIRMWARE_BASE) = fd_Snapshot st (x - NCV_DISK_FIRMWARE_BASE)"

interpretation stable: range_check "StableRange (Some st) live" "NCV_DISK_FIRMWARE_BASE + NCV_DISK_FIRMWARE_BYTES" "stable_byte st live"
  for st live
proof
  fix off n
  show "StableRange (Some st) live off n \<longleftrightarrow> 0 < n \<and> off + n \<le> NCV_DISK_FIRMWARE_BASE + NCV_DISK_FIRMWARE_BYTES \<and>
    (\<forall>i<n. stable_byte st live (off + i))"
  proof (cases "n = 0 \<or> off < NCV_DISK_FIRMWARE_BASE")
    case True
    then show ?thesis by (auto simp: StableRange_def stable_byte_def intro!: exI [of _ 0])
  next
    case False
    then obtain a where a: "off = NCV_DISK_FIRMWARE_BASE + a" by (metis le_iff_add linorder_not_less)
    with False show ?thesis
      by (auto simp: StableRange_def stable_byte_def BlocksValid_iff bytes_eq_iff)
  qed
qed

definition firmware_string :: "FIRMWARE_DISK_STATE \<Rightarrow> bytes \<Rightarrow> nat \<Rightarrow> bool" where
  "firmware_string st live x \<longleftrightarrow> (\<exists>m. 0 < m \<and> m < 128 \<and> StableRange (Some st) live x (m + 1) \<and>
     fd_Snapshot st (x + m - NCV_DISK_FIRMWARE_BASE) = 0 \<and>
     (\<forall>i<m. 0x20 \<le> fd_Snapshot st (x + i - NCV_DISK_FIRMWARE_BASE) \<and> fd_Snapshot st (x + i - NCV_DISK_FIRMWARE_BASE) \<le> 0x7e))"

lemma FirmwareStringLoop_iff:
  "FirmwareStringLoop k st live x i \<longleftrightarrow>
    (\<exists>m<k. 0 < i + m \<and> (\<forall>j\<le>m. StableRange (Some st) live (x + i + j) 1) \<and> fd_Snapshot st (x + i + m - NCV_DISK_FIRMWARE_BASE) = 0 \<and>
       (\<forall>j<m. 0x20 \<le> fd_Snapshot st (x + i + j - NCV_DISK_FIRMWARE_BASE) \<and> fd_Snapshot st (x + i + j - NCV_DISK_FIRMWARE_BASE) \<le> 0x7e))"
proof (induction k arbitrary: i)
  case (Suc k)
  let ?v = "fd_Snapshot st (x + i - NCV_DISK_FIRMWARE_BASE)"
  have all: "(\<forall>j\<le>Suc m. P j) \<longleftrightarrow> P 0 \<and> (\<forall>j\<le>m. P (Suc j))" for m and P :: "nat \<Rightarrow> bool"
    using All_less_Suc2 [of "Suc m" P] by (simp add: less_Suc_eq_le)
  show ?case
  proof (cases "StableRange (Some st) live (x + i) 1 \<and> ?v \<noteq> 0 \<and> 0x20 \<le> ?v \<and> ?v \<le> 0x7e")
    case True
    then have "FirmwareStringLoop (Suc k) st live x i \<longleftrightarrow> FirmwareStringLoop k st live x (Suc i)" by (auto simp: Let_def dest: leD)
    with True show ?thesis by (simp add: Suc.IH Ex_less_Suc2 All_less_Suc2 all)
  next
    case False
    then show ?thesis by (simp add: Ex_less_Suc2 All_less_Suc2 all Let_def) (auto simp: not_le)
  qed
qed simp

lemma FirmwareString_iff:
  "FirmwareString st live seg off optional \<longleftrightarrow>
     (if seg = 0 \<and> off = 0 then optional else firmware_string st live (unat seg * 16 + unat off))"
proof -
  have "(\<forall>j\<le>m. StableRange (Some st) live (x + j) 1) \<longleftrightarrow> StableRange (Some st) live x (m + 1)" for x m
  proof
    assume L: "\<forall>j\<le>m. StableRange (Some st) live (x + j) 1"
    have "stable_byte st live (x + j) \<and> x + j < NCV_DISK_FIRMWARE_BASE + NCV_DISK_FIRMWARE_BYTES" if "j \<le> m" for j
      using L [rule_format, OF that] by (auto simp: stable.granted_iff)
    moreover from this [of m] have "x + m < NCV_DISK_FIRMWARE_BASE + NCV_DISK_FIRMWARE_BYTES" by blast
    ultimately show "StableRange (Some st) live x (m + 1)" by (auto simp: stable.granted_iff)
  qed (auto intro: stable.granted_sub)
  then show ?thesis by (auto simp: FirmwareString_def FirmwareStringLoop_iff firmware_string_def)
qed


section \<open>Corroborating a firmware disk\<close>

definition ahci_controller :: "LEGACY_PCI_IDENTITY \<Rightarrow> bool" where
  "ahci_controller d \<longleftrightarrow> li_Segment d = 0 \<and> \<not> EFI_ERROR (li_ConfigStatus d) \<and> Le16 (li_Config d) 0 \<notin> {0, 0xffff} \<and>
     Le16 (li_Config d) 2 \<noteq> 0xffff \<and> li_Config d 0x0b = 1 \<and> li_Config d 0x0a = 6 \<and> li_Config d 9 = 1"

lemma Le16_extremes:
  "Le16 P i = 0 \<longleftrightarrow> P i = 0 \<and> P (i + 1) = 0" "Le16 P i = 0xffff \<longleftrightarrow> P i = 0xff \<and> P (i + 1) = 0xff"
proof -
  have e: "Le16 P i = w \<longleftrightarrow> unat (P i) + 256 * unat (P (i + 1)) = unat w" for w
    using unat_Le16 [of P i] by (metis word_unat_eq_iff)
  have b: "b = c \<longleftrightarrow> unat b = unat c" for b c :: NCV_U8 by (rule word_unat_eq_iff)
  show "Le16 P i = 0 \<longleftrightarrow> P i = 0 \<and> P (i + 1) = 0" unfolding e by (simp add: b)
  show "Le16 P i = 0xffff \<longleftrightarrow> P i = 0xff \<and> P (i + 1) = 0xff"
    unfolding e b using digit_eq [OF unat_le_mask_byte [of "P i"], of 255 "unat (P (i + 1))" 255] by simp
qed

text \<open>
  C35. A firmware-resident disk entry is corroborated exactly when it is an AHCI hard disk with a
  plausible address, exactly one copied PCI device is there and is an AHCI controller in segment
  zero, the 64 bytes at the boot handler and every byte of the description (and of the manufacturer
  string, if there is one) are still the captured firmware bytes, both strings are terminated,
  nonempty and printable, and the handler is not mere padding.
\<close>

theorem LegacyFirmwareDiskMatch_iff:
  "LegacyFirmwareDiskMatch (Some st) live (Some e) \<longleftrightarrow>
     b_DeviceType e = BBS_HARDDISK \<and> b_Class e = 1 \<and> b_SubClass e = 6 \<and> unat (b_Bus e) \<le> 255 \<and> unat (b_Device e) \<le> 31 \<and>
     unat (b_Function e) \<le> 7 \<and> b_BootHandlerSegment e \<noteq> 0 \<and>
     (\<exists>d. filter (AtEntry e) (fd_Devices st) = [d] \<and> ahci_controller d) \<and>
     (let handler = unat (b_BootHandlerSegment e) * 16 + unat (b_BootHandlerOffset e)
      in StableRange (Some st) live handler 64 \<and>
         (\<exists>i<64. fd_Snapshot st (handler - NCV_DISK_FIRMWARE_BASE + i) \<notin> {0, 0xff})) \<and>
     \<not> (b_DescStringSegment e = 0 \<and> b_DescStringOffset e = 0) \<and>
     firmware_string st live (unat (b_DescStringSegment e) * 16 + unat (b_DescStringOffset e)) \<and>
     (b_MfgStringSegment e = 0 \<and> b_MfgStringOffset e = 0 \<or>
      firmware_string st live (unat (b_MfgStringSegment e) * 16 + unat (b_MfgStringOffset e)))"
proof -
  let ?h = "unat (b_BootHandlerSegment e) * 16 + unat (b_BootHandlerOffset e)"
  have ctrl: "(case FindController e ds of (_, None) \<Rightarrow> False | (k, Some d) \<Rightarrow> if k \<noteq> 1 \<or> bad d then False else r) \<longleftrightarrow>
      (\<exists>d. filter (AtEntry e) ds = [d] \<and> \<not> bad d) \<and> r" for ds bad r
  proof (cases "filter (AtEntry e) ds")
    case Nil
    then show ?thesis by (simp add: FindController_def ControllerStep_fold)
  next
    case (Cons d qs)
    then show ?thesis by (cases qs) (auto simp: FindController_def ControllerStep_fold)
  qed
  have ahci: "ahci_controller d \<longleftrightarrow> \<not> (li_Segment d \<noteq> 0 \<or> EFI_ERROR (li_ConfigStatus d)
      \<or> li_Config d 0 = 0 \<and> li_Config d 1 = 0 \<or> li_Config d 0 = 0xff \<and> li_Config d 1 = 0xff
      \<or> li_Config d 2 = 0xff \<and> li_Config d 3 = 0xff
      \<or> li_Config d 0x0b \<noteq> 1 \<or> li_Config d 0x0a \<noteq> 6 \<or> li_Config d 9 \<noteq> 1)" for d
    using Le16_extremes [of "li_Config d" 0] Le16_extremes(2) [of "li_Config d" 2]
    unfolding ahci_controller_def by (simp only: add_0 insert_iff empty_iff) auto
  have pad: "list_ex (\<lambda>i. let value = fd_Snapshot st (?h - NCV_DISK_FIRMWARE_BASE + i) in value \<noteq> 0 \<and> value \<noteq> 0xff) [0..<64] \<longleftrightarrow>
      (\<exists>i<64. fd_Snapshot st (?h - NCV_DISK_FIRMWARE_BASE + i) \<notin> {0, 0xff})"
    by (auto simp: list_ex_iff Let_def)
  show ?thesis
    unfolding LegacyFirmwareDiskMatch_def prod.case option.case ctrl ahci [symmetric] FirmwareString_iff
    unfolding Let_def pad [unfolded Let_def] by (auto simp: not_less)
qed


section \<open>Capture\<close>

lemma CaptureBlock_fold:
  fixes m mem
  defines "readable b \<equiv> fst (MemoryMapRangeIsReadable (Some m) (0xE0000 + b * 512) 512 False)"
  shows "foldl (CaptureBlock m mem) st [0..<k] =
    st\<lparr>fd_Snapshot := (\<lambda>i. if i div 512 < k \<and> readable (i div 512) then mem (0xE0000 + i) else fd_Snapshot st i),
       fd_Valid := (\<lambda>b. if b < k \<and> readable b then 1 else fd_Valid st b)\<rparr>"
proof (induction k)
  case (Suc k)
  have "k * 512 \<le> i \<and> i < (k + 1) * 512 \<longleftrightarrow> i div 512 = k" for i
    using div_mult_mod_eq [of i 512] mod_less_divisor [of 512 i] by (auto intro!: div_nat_eqI)
  then have snap: "(\<lambda>i. if k * 512 \<le> i \<and> i < (k + 1) * 512 then mem (0xE0000 + i)
        else if i div 512 < k \<and> readable (i div 512) then mem (0xE0000 + i) else fd_Snapshot st i) =
      (\<lambda>i. if i div 512 < Suc k \<and> readable (i div 512) then mem (0xE0000 + i) else fd_Snapshot st i)"
    and valid: "(\<lambda>b. if b < k \<and> readable b then 1 else fd_Valid st b)(k := 1) =
      (\<lambda>b. if b < Suc k \<and> readable b then 1 else fd_Valid st b)" if "readable k"
    using that by (auto simp: fun_eq_iff less_Suc_eq)
  have skip: "i < Suc k \<and> readable i \<longleftrightarrow> i < k \<and> readable i" if "\<not> readable k" for i
    using that by (auto simp: less_Suc_eq)
  have "foldl (CaptureBlock m mem) st [0..<Suc k] = CaptureBlock m mem (foldl (CaptureBlock m mem) st [0..<k]) k" by simp
  also have "\<dots> = (if readable k then st\<lparr>fd_Snapshot := (\<lambda>i. if k * 512 \<le> i \<and> i < (k + 1) * 512 then mem (0xE0000 + i)
        else if i div 512 < k \<and> readable (i div 512) then mem (0xE0000 + i) else fd_Snapshot st i),
      fd_Valid := (\<lambda>b. if b < k \<and> readable b then 1 else fd_Valid st b)(k := 1)\<rparr>
    else foldl (CaptureBlock m mem) st [0..<k])"
    unfolding Suc.IH by (simp add: CaptureBlock_def readable_def NCV_DISK_FIRMWARE_BASE_def NCV_DISK_FIRMWARE_BLOCK_def cong: if_cong)
  finally show ?case by (cases "readable k") (simp_all only: if_True if_False snap valid skip Suc.IH simp_thms)
qed simp

text \<open>
  A successful capture records the firmware area faithfully: exactly the blocks the memory map
  grants are marked valid, a range is stable against the memory it was captured from exactly when
  every block it touches was readable, and the device list is the copied inventory.
\<close>

theorem LegacyFirmwareDiskCapture_faithful:
  assumes "LegacyFirmwareDiskCapture bs w mem ivt = ((EFI_SUCCESS, state), w')"
  shows "\<exists>st m w1 w2. state = Some st \<and> MemoryMapCapture bs w1 = (Inr m, w2) \<and> fd_Devices st = identities (the ivt) \<and>
    (\<forall>x n. StableRange (Some st) (\<lambda>i. mem (0xE0000 + i)) x n \<longleftrightarrow> 0 < n \<and> 0xE0000 \<le> x \<and> x + n \<le> 0x100000 \<and>
       (\<forall>y. x \<le> y \<and> y < x + n \<longrightarrow> fst (MemoryMapRangeIsReadable (Some m) (y - y mod 512) 512 False)))"
proof -
  obtain status st0 w1 where a: "AllocateFirmwareState bs w ivt True = ((status, st0), w1)" by (metis prod.exhaust)
  obtain r w2 where c: "MemoryMapCapture bs w1 = (r, w2)" by (metis prod.exhaust)
  have ok: "\<not> EFI_ERROR status" using assms a by (auto simp: LegacyFirmwareDiskCapture_def)
  obtain m where m: "r = Inr m"
    using assms a ok c MemoryMapCapture_result [OF c]
    by (cases r) (auto simp: LegacyFirmwareDiskCapture_def)
  define z where "z = \<lparr>fd_Snapshot = (\<lambda>_. 0), fd_Valid = (\<lambda>_. 0), fd_Devices = identities (the ivt)\<rparr>"
  then have z: "st0 = Some z" "fd_Snapshot z = (\<lambda>_. 0)" "fd_Valid z = (\<lambda>_. 0)" "fd_Devices z = identities (the ivt)"
    using a ok by (auto simp: AllocateFirmwareState_def LegacyFirmwareDiskReset_def identities_def Let_def
        dest!: CopyLegacyPciIdentities_SomeD split: if_splits option.splits prod.splits)
  let ?st = "foldl (CaptureBlock m mem) z [0..<NCV_DISK_FIRMWARE_BLOCKS]"
  have st: "state = Some ?st" using assms a ok c m z(1) by (simp add: LegacyFirmwareDiskCapture_def)
  have blk: "(0xE0000 + (y - 0xE0000) div 512 * 512 :: nat) = y - y mod 512" "(y - 0xE0000) div 512 < 256"
    if "0xE0000 \<le> y" "y < 0x100000" for y :: nat
  proof -
    define z where "z = y - 0xE0000"
    then have "y = 0xE0000 + z" "z < 0x20000" using that by simp_all
    moreover have "(0xE0000 + z) mod 512 = z mod 512" using mod_mult_self3 [of 1792 512 z] by simp
    ultimately show "(0xE0000 + (y - 0xE0000) div 512 * 512 :: nat) = y - y mod 512" "(y - 0xE0000) div 512 < 256"
      by (simp_all add: minus_mod_eq_div_mult [symmetric] div_less_iff_less_mult)
  qed
  have good: "stable_byte ?st (\<lambda>i. mem (0xE0000 + i)) y \<longleftrightarrow> fst (MemoryMapRangeIsReadable (Some m) (y - y mod 512) 512 False)"
    if y: "0xE0000 \<le> y" "y < 0x100000" for y
    using y blk [OF y] by (simp add: stable_byte_def CaptureBlock_fold z ncv_defs)
  have lo: "0xE0000 \<le> y" if "stable_byte ?st (\<lambda>i. mem (0xE0000 + i)) y" for y
    using that by (simp add: stable_byte_def ncv_defs)
  have "StableRange (Some ?st) (\<lambda>i. mem (0xE0000 + i)) x n \<longleftrightarrow> 0 < n \<and> 0xE0000 \<le> x \<and> x + n \<le> 0x100000 \<and>
       (\<forall>y. x \<le> y \<and> y < x + n \<longrightarrow> fst (MemoryMapRangeIsReadable (Some m) (y - y mod 512) 512 False))" for x n
  proof -
    have "(\<forall>i<n. stable_byte ?st (\<lambda>i. mem (0xE0000 + i)) (x + i)) \<longleftrightarrow> (\<forall>y. x \<le> y \<and> y < x + n \<longrightarrow> stable_byte ?st (\<lambda>i. mem (0xE0000 + i)) y)"
      by (metis le_add1 le_add_diff_inverse nat_add_left_cancel_less)
    then show ?thesis
      unfolding stable.granted_iff using good lo [of x]
      by (auto simp: NCV_DISK_FIRMWARE_BASE_def NCV_DISK_FIRMWARE_BYTES_def)
  qed
  moreover have "fd_Devices ?st = identities (the ivt)" by (simp add: CaptureBlock_fold z)
  ultimately show ?thesis using st c m by blast
qed


theorem LegacyFirmwareDiskCapture_faithful_witness:
  "\<exists>state. LegacyFirmwareDiskCapture flat_services () (\<lambda>_. 0x90) (Some \<lparr>inv_Devices = None, inv_Count = 0\<rparr>) = ((EFI_SUCCESS, state), ()) \<and>
     StableRange state (\<lambda>_. 0x90) 0xF0000 64"
proof -
  obtain state where run: "LegacyFirmwareDiskCapture flat_services () (\<lambda>_. 0x90) (Some \<lparr>inv_Devices = None, inv_Count = 0\<rparr>) =
      ((EFI_SUCCESS, state), ())"
    by (simp add: LegacyFirmwareDiskCapture_def AllocateFirmwareState_def InventoryUsable_def flat_captured flat_alloc Let_def)
  from LegacyFirmwareDiskCapture_faithful [OF run] obtain st m w1 w2
    where st: "state = Some st" and m: "MemoryMapCapture flat_services w1 = (Inr m, w2)"
    and r: "\<forall>x n. StableRange (Some st) (\<lambda>i. 0x90) x n \<longleftrightarrow> 0 < n \<and> 0xE0000 \<le> x \<and> x + n \<le> 0x100000 \<and>
       (\<forall>y. x \<le> y \<and> y < x + n \<longrightarrow> fst (MemoryMapRangeIsReadable (Some m) (y - y mod 512) 512 False))"
    by (elim exE conjE)
  have "m = flat_map" using m by (simp add: flat_captured)
  then have "StableRange state (\<lambda>_. 0x90) 0xF0000 64"
    unfolding st r [THEN spec, THEN spec, of "0xF0000" 64] by (auto intro!: flat_readable)
  with run show ?thesis by blast
qed

end
