(* ===== verification/Rom_Preflight.thy ===== *)
theory Rom_Preflight
  imports Legacy_Rom_Guard Legacy_Storage_Rom Legacy_Firmware_Disk Rom_Placement
begin

text \<open>
  \<open>LegacyRomGuardCheck\<close> and its companions in \<open>LegacyRomGuard.c\<close>, with the module states it owns,
  and the recovery record of \<open>RomRecovery.c\<close>. Physical memory is a function from addresses to
  bytes; allocation and the memory map are firmware services. Of the runtime plan the model keeps
  the fields these routines read.
\<close>

record NATIVE_CSM_VGA_RUNTIME_PLAN =
  pl_Inventory :: PCI_INVENTORY
  pl_ActiveVendor :: NCV_U16
  pl_ActiveDeviceId :: NCV_U16
  pl_SelectedRom :: "bytes option"
  pl_SelectedRomSize :: nat
  pl_RomValidation :: OPTION_ROM_VALIDATION
  pl_EndpointWriteAttempted :: bool
  pl_EndpointWriteApplied :: bool
  pl_RouteDirty :: bool

record ROM_RECOVERY =
  rr_Pending :: bool
  rr_ConflictAddress :: nat
  rr_ConflictBytes :: nat
  rr_RuntimeLimit :: nat
  rr_Facts :: NCV_ROM_PLACEMENT_FACTS

text \<open>The static variables of the modules the preflight touches.\<close>

record guard_state =
  mPreflightPlan :: "NATIVE_CSM_VGA_RUNTIME_PLAN option"
  mStorage :: "STORAGE_ROM_STATE option"
  mFirmware :: "FIRMWARE_DISK_STATE option"
  mRecovery :: ROM_RECOVERY

section \<open>Recovery record\<close>

definition RomRecoveryReset :: ROM_RECOVERY where
  "RomRecoveryReset = \<lparr>rr_Pending = False, rr_ConflictAddress = 0, rr_ConflictBytes = 0, rr_RuntimeLimit = 0, rr_Facts = no_facts\<rparr>"

definition RomRecoveryRecord ::
  "NATIVE_CSM_VGA_RUNTIME_PLAN option \<Rightarrow> LEGACY_ROM_GUARD_RESULT option \<Rightarrow> ROM_RECOVERY" where
  "RomRecoveryRecord plan found =
     (case (plan, found) of
        (Some p, Some c) \<Rightarrow>
          (if pl_RouteDirty p \<or> pl_EndpointWriteAttempted p \<or> pl_EndpointWriteApplied p
              \<or> g_Reason c \<noteq> RomGuardOverlap \<and> g_Reason c \<noteq> RomGuardDiskHandlerOverlap
              \<or> g_Address c < NCV_ROM_SHADOW_BASE \<or> g_Address c \<ge> NCV_ROM_SHADOW_BASE + 0x10000
              \<or> g_ActiveBytes c = 0 \<or> g_ActiveBytes c > NCV_ROM_SHADOW_SIZE then RomRecoveryReset
           else RomRecoveryReset\<lparr>rr_Pending := True, rr_ConflictAddress := g_Address c, rr_ConflictBytes := g_Bytes c,
                  rr_RuntimeLimit := min (g_ActiveBytes c) (g_Address c - NCV_ROM_SHADOW_BASE) mod 2 ^ 32,
                  rr_Facts := (if MatchingLegacyImageFound (pl_RomValidation p)
                                  \<and> MatchingLegacyCandidateCount (pl_RomValidation p) = 1
                                  \<and> pl_SelectedRomSize p = MatchingLegacyImageSize (pl_RomValidation p)
                               then NcvRomPlacementReadFacts (pl_SelectedRom p) (pl_SelectedRomSize p) else no_facts)\<rparr>)
      | _ \<Rightarrow> RomRecoveryReset)"

definition RomRecoveryAvailable :: "ROM_RECOVERY \<Rightarrow> EFI_STATUS \<Rightarrow> EFI_STATUS \<Rightarrow> bool" where
  "RomRecoveryAvailable r bootStatus cleanupStatus \<longleftrightarrow>
     rr_Pending r \<and> bootStatus = EFI_UNSUPPORTED \<and> \<not> EFI_ERROR cleanupStatus"

section \<open>The preflight check\<close>

definition LegacyRomGuardReset :: "guard_state \<Rightarrow> guard_state" where
  "LegacyRomGuardReset g = g\<lparr>mPreflightPlan := None, mStorage := LegacyStorageRomReset, mFirmware := LegacyFirmwareDiskReset\<rparr>"

text \<open>The copy of the readable blocks of the shadow area.\<close>

definition SnapshotBlock :: "MEMORY_MAP_SNAPSHOT \<Rightarrow> bytes \<Rightarrow> bytes \<times> bytes \<Rightarrow> nat \<Rightarrow> bytes \<times> bytes" where
  "SnapshotBlock m mem sv block =
     (case sv of (shadow, valid) \<Rightarrow>
        if fst (MemoryMapRangeIsReadable (Some m) (NCV_ROM_SHADOW_BASE + block * NCV_ROM_BLOCK_SIZE) NCV_ROM_BLOCK_SIZE False)
        then ((\<lambda>i. if block * NCV_ROM_BLOCK_SIZE \<le> i \<and> i < (block + 1) * NCV_ROM_BLOCK_SIZE
                   then mem (NCV_ROM_SHADOW_BASE + i) else shadow i), valid(block := 1))
        else (shadow, valid))"

definition SnapshotShadow :: "MEMORY_MAP_SNAPSHOT \<Rightarrow> bytes \<Rightarrow> bytes \<times> bytes" where
  "SnapshotShadow m mem = foldl (SnapshotBlock m mem) (\<lambda>_. 0, \<lambda>_. 0) [0..<NCV_ROM_BLOCK_COUNT]"

text \<open>The far pointer of interrupt 0x13.\<close>

definition DiskVector :: "bytes \<Rightarrow> nat" where
  "DiskVector mem = unat (Le16 mem (0x13 * 4 + 2)) * 16 + unat (Le16 mem (0x13 * 4))"

definition LegacyRomGuardCheck ::
  "'w memory_services \<Rightarrow> 'w \<Rightarrow> bytes \<Rightarrow> NATIVE_CSM_VGA_RUNTIME_PLAN option \<Rightarrow> guard_state \<Rightarrow> (EFI_STATUS \<times> guard_state) \<times> 'w" where
  "LegacyRomGuardCheck bs w mem plan g =
     (case plan of None \<Rightarrow> ((EFI_INVALID_PARAMETER, g), w)
      | Some p \<Rightarrow>
          (let g = LegacyRomGuardReset (g\<lparr>mRecovery := RomRecoveryReset\<rparr>);
               (ok, w) = AllocatePool bs w NCV_ROM_SHADOW_SIZE
           in if \<not> ok then ((EFI_OUT_OF_RESOURCES, g), w)
              else case MemoryMapCapture bs w of
                     (Inl status, w) \<Rightarrow> ((status, g), w)
                   | (Inr m, w) \<Rightarrow>
                       (let (shadow, valid) = SnapshotShadow m mem
                        in if \<not> fst (MemoryMapRangeIsReadable (Some m) (0x13 * 4) 4 False) then ((EFI_UNSUPPORTED, g), w)
                           else let result = LegacyRomGuardInspect (Some shadow) (Some valid) (pl_SelectedRomSize p)
                                               (pl_ActiveVendor p) (pl_ActiveDeviceId p) (DiskVector mem)
                                in if g_Reason result = RomGuardClear then
                                     (case LegacyStorageRomPrepare bs w (Some shadow) (Some valid)
                                             (Some (\<lambda>i. mem (NCV_ROM_SHADOW_BASE + i))) (Some (pl_Inventory p)) of
                                        ((status, storage), w) \<Rightarrow>
                                          (let g = g\<lparr>mStorage := storage\<rparr>
                                           in if EFI_ERROR status then ((status, g), w)
                                              else case LegacyFirmwareDiskCapture bs w mem (Some (pl_Inventory p)) of
                                                     ((_, firmware), w) \<Rightarrow>
                                                       ((EFI_SUCCESS, g\<lparr>mFirmware := firmware, mPreflightPlan := Some p\<rparr>), w)))
                                   else if g_Reason result = RomGuardOverlap \<or> g_Reason result = RomGuardDiskHandlerOverlap then
                                     ((EFI_UNSUPPORTED, g\<lparr>mRecovery := RomRecoveryRecord (Some p) (Some result)\<rparr>), w)
                                   else ((EFI_COMPROMISED_DATA, g), w))))"

definition LegacyRomGuardRecheckAfterBbs ::
  "'w memory_services \<Rightarrow> 'w \<Rightarrow> bytes \<Rightarrow> guard_state \<Rightarrow> (EFI_STATUS \<times> guard_state) \<times> 'w" where
  "LegacyRomGuardRecheckAfterBbs bs w mem g =
     (case mPreflightPlan g of None \<Rightarrow> ((EFI_SUCCESS, g), w)
      | Some p \<Rightarrow> LegacyRomGuardCheck bs w mem (Some p) g)"

section \<open>The snapshot of the shadow area\<close>

definition shadow_readable :: "MEMORY_MAP_SNAPSHOT \<Rightarrow> nat \<Rightarrow> bool" where
  "shadow_readable m b = fst (MemoryMapRangeIsReadable (Some m) (0xC0000 + b * 512) 512 False)"

lemma block_span: "k * 512 \<le> i \<and> i < (k + 1) * 512 \<longleftrightarrow> i div 512 = k" for i k :: nat
  using div_mult_mod_eq [of i 512] mod_less_divisor [of 512 i] by (auto intro!: div_nat_eqI)

lemma SnapshotBlock_fold:
  "foldl (SnapshotBlock m mem) (\<lambda>_. 0, \<lambda>_. 0) [0..<k] =
     (\<lambda>i. if i div 512 < k \<and> shadow_readable m (i div 512) then mem (0xC0000 + i) else 0,
      \<lambda>b. if b < k \<and> shadow_readable m b then 1 else 0)"
proof (induction k)
  case (Suc k)
  show ?case
  proof (cases "shadow_readable m k")
    case True
    have "SnapshotBlock m mem (f, v) k = (\<lambda>i. if i div 512 = k then mem (0xC0000 + i) else f i, v(k := 1))" for f v
      using True unfolding SnapshotBlock_def shadow_readable_def NCV_ROM_SHADOW_BASE_def NCV_ROM_BLOCK_SIZE_def block_span by simp
    with Suc.IH True show ?thesis by (auto simp: fun_eq_iff less_Suc_eq)
  next
    case False
    then have "SnapshotBlock m mem fv k = fv" for fv
      by (cases fv) (simp add: SnapshotBlock_def shadow_readable_def ncv_defs)
    with Suc.IH False show ?thesis by (auto simp: fun_eq_iff less_Suc_eq)
  qed
qed simp

lemma SnapshotShadow_eq:
  "SnapshotShadow m mem =
     (\<lambda>i. if i div 512 < 256 \<and> shadow_readable m (i div 512) then mem (0xC0000 + i) else 0,
      \<lambda>b. if b < 256 \<and> shadow_readable m b then 1 else 0)"
  by (simp add: SnapshotShadow_def SnapshotBlock_fold ncv_defs)


text \<open>
  What a clear preflight says about physical memory itself, without the snapshot: the bytes of the
  shadow area that the map grants are seen through their physical addresses.
\<close>

lemma shadow_agrees:
  "agree_on_valid (snd (SnapshotShadow m mem)) (fst (SnapshotShadow m mem)) (\<lambda>i. mem (0xC0000 + i))"
  by (auto simp: agree_on_valid_def SnapshotShadow_eq split: if_splits)

lemma inspect_memory:
  "LegacyRomGuardInspect (Some (fst (SnapshotShadow m mem))) (Some (snd (SnapshotShadow m mem))) n av ad h =
   LegacyRomGuardInspect (Some (\<lambda>i. mem (0xC0000 + i))) (Some (\<lambda>b. if b < 256 \<and> shadow_readable m b then 1 else 0)) n av ad h"
  using guard_reads_valid [OF shadow_agrees] by (simp add: SnapshotShadow_eq)

section \<open>Outcomes of the check\<close>

text \<open>The modules hold nothing of an earlier attempt.\<close>

definition released :: "guard_state \<Rightarrow> bool" where
  "released g \<longleftrightarrow> mPreflightPlan g = None \<and> mStorage g = None \<and> mFirmware g = None"

text \<open>The modules hold the provenance of one memory content.\<close>

definition provenance :: "bytes \<Rightarrow> NATIVE_CSM_VGA_RUNTIME_PLAN \<Rightarrow> MEMORY_MAP_SNAPSHOT \<Rightarrow> guard_state \<Rightarrow> bool" where
  "provenance mem p m g \<longleftrightarrow> mPreflightPlan g = Some p \<and>
     (\<exists>st. mStorage g = Some st \<and> st_Devices st = identities (pl_Inventory p) \<and>
        (\<forall>off n. StorageReadable (Some st) off n \<longleftrightarrow> 0 < n \<and> off + n \<le> 0x20000 \<and> (\<forall>i<n. shadow_readable m ((off + i) div 512))) \<and>
        (\<forall>x. st_Valid st (x div 512) = 1 \<longrightarrow> st_Snapshot st x = mem (0xC0000 + x)))"

lemma prepared_provenance:
  assumes "LegacyStorageRomPrepare bs w (Some (fst (SnapshotShadow m mem))) (Some (snd (SnapshotShadow m mem))) live (Some (pl_Inventory p)) =
      ((status, storage), w')" and "\<not> EFI_ERROR status" and "mStorage g = storage" and "mPreflightPlan g = Some p"
  shows "provenance mem p m g"
proof -
  have "status = EFI_SUCCESS" using assms(1,2) LegacyStorageRomPrepare_status [OF assms(1)] by auto
  then obtain st where st: "storage = Some st" using LegacyStorageRomPrepare_state(1) [OF assms(1)] by auto
  note S = LegacyStorageRomPrepare_state(2) [OF assms(1) st]
  have valid: "st_Valid st = (\<lambda>b. if b < 256 \<and> shadow_readable m b then 1 else 0)"
    and snap: "st_Snapshot st = (\<lambda>i. if i div 512 < 256 \<and> shadow_readable m (i div 512) then mem (0xC0000 + i) else 0)"
    using S by (simp_all add: SnapshotShadow_eq)
  have "StorageReadable (Some st) off n \<longleftrightarrow> 0 < n \<and> off + n \<le> 0x20000 \<and> (\<forall>i<n. shadow_readable m ((off + i) div 512))" for off n
  proof -
    have "x div 512 < 256" if "x < 0x20000" for x :: nat using that by (simp add: div_less_iff_less_mult)
    then show ?thesis unfolding snapshot.granted_iff valid
      by (auto simp: SHADOW_BYTES_def split: if_splits)
  qed
  moreover have "st_Valid st (x div 512) = 1 \<longrightarrow> st_Snapshot st x = mem (0xC0000 + x)" for x
    by (simp add: valid snap)
  ultimately show ?thesis using S assms(3,4) st unfolding provenance_def by blast
qed

lemma LegacyRomGuardCheck_cases:
  assumes "LegacyRomGuardCheck bs w mem (Some p) g = ((status, g'), w')"
  obtains (clear) m where "status = EFI_SUCCESS" "provenance mem p m g'" "mRecovery g' = RomRecoveryReset"
      "fst (MemoryMapRangeIsReadable (Some m) 0x4C 4 False)"
      "g_Reason (LegacyRomGuardInspect (Some (\<lambda>i. mem (0xC0000 + i))) (Some (\<lambda>b. if b < 256 \<and> shadow_readable m b then 1 else 0))
        (pl_SelectedRomSize p) (pl_ActiveVendor p) (pl_ActiveDeviceId p) (DiskVector mem)) = RomGuardClear"
    | (blocked) c m where "status = EFI_UNSUPPORTED" "released g'" "mRecovery g' = RomRecoveryRecord (Some p) (Some c)"
      "c = LegacyRomGuardInspect (Some (\<lambda>i. mem (0xC0000 + i))) (Some (\<lambda>b. if b < 256 \<and> shadow_readable m b then 1 else 0))
        (pl_SelectedRomSize p) (pl_ActiveVendor p) (pl_ActiveDeviceId p) (DiskVector mem)"
      "g_Reason c = RomGuardOverlap \<or> g_Reason c = RomGuardDiskHandlerOverlap"
    | (failed) "EFI_ERROR status" "released g'" "mRecovery g' = RomRecoveryReset"
proof -
  define g0 where "g0 = LegacyRomGuardReset (g\<lparr>mRecovery := RomRecoveryReset\<rparr>)"
  have rel: "released g0" "mRecovery g0 = RomRecoveryReset"
    by (simp_all add: g0_def released_def LegacyRomGuardReset_def LegacyStorageRomReset_def LegacyFirmwareDiskReset_def)
  note run = assms [unfolded LegacyRomGuardCheck_def option.case Let_def g0_def [symmetric]]
  obtain ok w1 where al: "AllocatePool bs w NCV_ROM_SHADOW_SIZE = (ok, w1)" by (metis prod.exhaust)
  obtain r w2 where mm: "MemoryMapCapture bs w1 = (r, w2)" by (metis prod.exhaust)
  show ?thesis
  proof (cases "ok \<and> (\<exists>m. r = Inr m \<and> fst (MemoryMapRangeIsReadable (Some m) 0x4C 4 False))")
    case False
    then have "EFI_ERROR status \<and> g' = g0"
      using run al mm MemoryMapCapture_result [OF mm]
      by (cases r) (auto split: prod.splits if_splits)
    with rel show ?thesis by (intro failed) simp_all
  next
    case True
    then obtain m where m: "ok" "r = Inr m" "fst (MemoryMapRangeIsReadable (Some m) 0x4C 4 False)" by blast
    obtain sh va where sv: "SnapshotShadow m mem = (sh, va)" by (metis prod.exhaust)
    define c where "c = LegacyRomGuardInspect (Some sh) (Some va) (pl_SelectedRomSize p) (pl_ActiveVendor p) (pl_ActiveDeviceId p) (DiskVector mem)"
    have c: "c = LegacyRomGuardInspect (Some (\<lambda>i. mem (0xC0000 + i))) (Some (\<lambda>b. if b < 256 \<and> shadow_readable m b then 1 else 0))
        (pl_SelectedRomSize p) (pl_ActiveVendor p) (pl_ActiveDeviceId p) (DiskVector mem)"
      using inspect_memory [of m mem] sv by (simp add: c_def)
    obtain st storage w3 where pr: "LegacyStorageRomPrepare bs w2 (Some sh) (Some va) (Some (\<lambda>i. mem (NCV_ROM_SHADOW_BASE + i)))
        (Some (pl_Inventory p)) = ((st, storage), w3)" by (metis prod.exhaust)
    obtain st4 fw w4 where fd: "LegacyFirmwareDiskCapture bs w3 mem (Some (pl_Inventory p)) = ((st4, fw), w4)" by (metis prod.exhaust)
    have res: "(status, g') = (if g_Reason c = RomGuardClear then
          (if EFI_ERROR st then (st, g0\<lparr>mStorage := storage\<rparr>) else (EFI_SUCCESS, g0\<lparr>mStorage := storage, mFirmware := fw, mPreflightPlan := Some p\<rparr>))
        else if g_Reason c = RomGuardOverlap \<or> g_Reason c = RomGuardDiskHandlerOverlap
          then (EFI_UNSUPPORTED, g0\<lparr>mRecovery := RomRecoveryRecord (Some p) (Some c)\<rparr>) else (EFI_COMPROMISED_DATA, g0))"
      using run al mm m sv pr fd by (simp add: c_def [symmetric] split: if_splits)
    consider (ok) "g_Reason c = RomGuardClear" "\<not> EFI_ERROR st" | (noprep) "g_Reason c = RomGuardClear" "EFI_ERROR st"
      | (conflict) "g_Reason c = RomGuardOverlap \<or> g_Reason c = RomGuardDiskHandlerOverlap"
      | (other) "g_Reason c \<noteq> RomGuardClear" "\<not> (g_Reason c = RomGuardOverlap \<or> g_Reason c = RomGuardDiskHandlerOverlap)" by blast
    then show ?thesis
    proof cases
      case ok
      then have g': "status = EFI_SUCCESS" "g' = g0\<lparr>mStorage := storage, mFirmware := fw, mPreflightPlan := Some p\<rparr>" using res by simp_all
      have "provenance mem p m g'"
        using pr ok(2) sv by (intro prepared_provenance [where g = g' and status = st]) (simp_all add: g')
      with g' rel(2) m(3) ok(1) c show ?thesis by (intro clear [of m]) simp_all
    next
      case noprep
      then have "storage = None" using LegacyStorageRomPrepare_state(1) [OF pr] by (cases st; cases storage) auto
      with noprep res rel show ?thesis by (intro failed) (simp_all add: released_def)
    next
      case conflict
      with res rel c show ?thesis by (intro blocked [of c m]) (auto simp: released_def)
    next
      case other
      with res rel show ?thesis by (intro failed) simp_all
    qed
  qed
qed


text \<open>
  C37. The preflight either succeeds, and then physical memory itself satisfies the guard (the active
  display ROM is identified at C0000, no block of the planned copy starts another ROM, the INT 13h
  handler lies outside it) and the modules hold the provenance of exactly that memory content; or it
  fails with an error status and every module state of an earlier attempt has been released, so that
  nothing later can rely on a stale plan or snapshot.
\<close>

theorem LegacyRomGuardCheck_outcome:
  assumes "LegacyRomGuardCheck bs w mem (Some p) g = ((status, g'), w')"
  shows "if status = EFI_SUCCESS
    then \<exists>m. provenance mem p m g' \<and>
      (let s = (\<lambda>i. mem (0xC0000 + i)); v = (\<lambda>b. if b < 256 \<and> shadow_readable m b then 1 else 0); n = pl_SelectedRomSize p
       in request_ok s v n (pl_ActiveVendor p) (pl_ActiveDeviceId p) \<and>
          (\<forall>off. 512 dvd off \<and> 0 < off \<and> off < n \<and> rom_header s off \<longrightarrow>
             off < rom_extent s 0 \<and> \<not> foreign s v off (pl_ActiveVendor p) (pl_ActiveDeviceId p)) \<and>
          \<not> (0xC0000 \<le> DiskVector mem \<and> DiskVector mem < 0xC0000 + n))
    else EFI_ERROR status \<and> released g'"
  using assms
proof (cases rule: LegacyRomGuardCheck_cases)
  case (clear m)
  then show ?thesis unfolding guard_clear_iff Let_def by auto
qed (auto simp: Let_def)

text \<open>
  C38. The recovery menu is offered only for a real overlap found before any hardware write: when the
  record left by a preflight is available, the preflight was refused, no write to the GPU route was
  attempted, and the recorded address lies in the first 64 KiB of the shadow area and is a conflict of the planned copy with physical
  memory: a block that starts a well-formed ROM behind the active one or one that identifies itself as another device (not a header
  embedded in the active ROM), or the INT 13h handler. The recorded limit for a relocated runtime is bounded by the active ROM
  and by the distance to the conflict.
\<close>

theorem RomRecovery_available_sound:
  assumes "LegacyRomGuardCheck bs w mem (Some p) g = ((status, g'), w')"
    and "RomRecoveryAvailable (mRecovery g') bootStatus cleanupStatus"
  shows "status = EFI_UNSUPPORTED \<and> released g' \<and> bootStatus = EFI_UNSUPPORTED \<and> \<not> EFI_ERROR cleanupStatus \<and>
    \<not> pl_EndpointWriteAttempted p \<and> \<not> pl_EndpointWriteApplied p \<and> \<not> pl_RouteDirty p \<and>
    (\<exists>x m. rr_ConflictAddress (mRecovery g') = 0xC0000 + x \<and> x < 0x10000 \<and> rr_RuntimeLimit (mRecovery g') \<le> x \<and>
       rr_RuntimeLimit (mRecovery g') \<le> rom_extent (\<lambda>i. mem (0xC0000 + i)) 0 \<and>
       (let s = (\<lambda>i. mem (0xC0000 + i)); v = (\<lambda>b. if b < 256 \<and> shadow_readable m b then 1 else 0); n = pl_SelectedRomSize p
        in request_ok s v n (pl_ActiveVendor p) (pl_ActiveDeviceId p) \<and>
           (occupied s v n (pl_ActiveVendor p) (pl_ActiveDeviceId p) x \<or> DiskVector mem = 0xC0000 + x \<and> x < n)))"
  using assms(1)
proof (cases rule: LegacyRomGuardCheck_cases)
  case (blocked c m)
  let ?s = "\<lambda>i. mem (0xC0000 + i)" and ?v = "\<lambda>b. if b < 256 \<and> shadow_readable m b then 1 else 0"
  have pend: "rr_Pending (RomRecoveryRecord (Some p) (Some c))"
    using assms(2) blocked by (simp add: RomRecoveryAvailable_def)
  then have rec: "\<not> pl_EndpointWriteAttempted p" "\<not> pl_EndpointWriteApplied p" "\<not> pl_RouteDirty p"
    "0xC0000 \<le> g_Address c" "g_Address c < 0xC0000 + 0x10000" "rr_ConflictAddress (mRecovery g') = g_Address c"
    "rr_RuntimeLimit (mRecovery g') \<le> min (g_ActiveBytes c) (g_Address c - 0xC0000)"
    using blocked(3) by (auto simp: RomRecoveryRecord_def RomRecoveryReset_def ncv_defs split: if_splits)
  note act = guard_conflict [OF blocked(4) [symmetric] blocked(5)]
  obtain x where x: "g_Address c = 0xC0000 + x" using rec(4) by (metis le_iff_add)
  have real: "occupied ?s ?v (pl_SelectedRomSize p) (pl_ActiveVendor p) (pl_ActiveDeviceId p) x \<or> DiskVector mem = 0xC0000 + x \<and> x < pl_SelectedRomSize p"
    using act x by (cases "g_Reason c = RomGuardOverlap") auto
  have "status = EFI_UNSUPPORTED \<and> released g' \<and> bootStatus = EFI_UNSUPPORTED \<and> \<not> EFI_ERROR cleanupStatus"
    using assms(2) blocked(1,2) by (simp add: RomRecoveryAvailable_def)
  moreover have "rr_ConflictAddress (mRecovery g') = 0xC0000 + x \<and> x < 0x10000 \<and> rr_RuntimeLimit (mRecovery g') \<le> x \<and>
      rr_RuntimeLimit (mRecovery g') \<le> rom_extent ?s 0" using rec act x by simp
  ultimately show ?thesis using rec(1-3) act real unfolding Let_def by (intro conjI exI [of _ x] exI [of _ m]) simp_all
qed (use assms(2) in \<open>auto simp: RomRecoveryAvailable_def RomRecoveryReset_def\<close>)

section \<open>Witnesses\<close>


text \<open>A flat memory map, one block of display ROM at C0000 and, in the second memory, another ROM behind it.\<close>

definition clear_memory :: bytes where
  "clear_memory x = (if 0xC0000 \<le> x then clear_shadow (x - 0xC0000) else 0)"

definition crowded_memory :: bytes where
  "crowded_memory x = (if 0xC0000 \<le> x then crowded_shadow (x - 0xC0000) else 0)"

definition sample_plan :: NATIVE_CSM_VGA_RUNTIME_PLAN where
  "sample_plan = \<lparr>pl_Inventory = \<lparr>inv_Devices = None, inv_Count = 0\<rparr>, pl_ActiveVendor = 0x10de, pl_ActiveDeviceId = 0x1c82,
     pl_SelectedRom = None, pl_SelectedRomSize = 2048, pl_RomValidation = empty_validation,
     pl_EndpointWriteAttempted = False, pl_EndpointWriteApplied = False, pl_RouteDirty = False\<rparr>"

definition idle_guard :: guard_state where
  "idle_guard = \<lparr>mPreflightPlan = None, mStorage = None, mFirmware = None, mRecovery = RomRecoveryReset\<rparr>"

lemma flat_shadow_valid: "(\<lambda>b. if b < 256 \<and> shadow_readable flat_map b then 1 else 0) = (\<lambda>b. if b < 256 then (1 :: NCV_U8) else 0)"
proof
  fix b :: nat
  have "b < 256 \<Longrightarrow> shadow_readable flat_map b" unfolding shadow_readable_def by (rule flat_readable) simp_all
  then show "(if b < 256 \<and> shadow_readable flat_map b then 1 else 0) = (if b < 256 then (1 :: NCV_U8) else 0)" by simp
qed

lemma sample_inspect:
  "LegacyRomGuardInspect (Some (fst (SnapshotShadow flat_map mem))) (Some (snd (SnapshotShadow flat_map mem))) n av ad h =
   LegacyRomGuardInspect (Some (\<lambda>i. mem (0xC0000 + i))) (Some (\<lambda>b. if b < 256 then 1 else 0)) n av ad h"
  unfolding inspect_memory flat_shadow_valid ..

lemma sample_clear:
  "\<exists>g. LegacyRomGuardCheck flat_services () clear_memory (Some sample_plan) idle_guard = ((EFI_SUCCESS, g), ())"
proof -
  let ?s = "fst (SnapshotShadow flat_map clear_memory)" and ?v = "snd (SnapshotShadow flat_map clear_memory)"
  have "DiskVector clear_memory = 0" by (simp add: DiskVector_def Le16_def clear_memory_def)
  moreover have "g_Reason (LegacyRomGuardInspect (Some ?s) (Some ?v) 2048 0x10de 0x1c82 0) = RomGuardClear"
    unfolding sample_inspect using clear_inspect [of "\<lambda>b. if b < 256 then 1 else 0"] by (simp add: clear_memory_def)
  moreover have "fst (MemoryMapRangeIsReadable (Some flat_map) 76 4 False)" by (rule flat_readable) simp_all
  moreover have "LegacyStorageRomPrepare flat_services () (Some s) (Some v) (Some l) (Some \<lparr>inv_Devices = None, inv_Count = 0\<rparr>) =
      ((EFI_SUCCESS, Some \<lparr>st_Snapshot = s, st_Valid = v, st_Devices = []\<rparr>), ())" for s v l
    by (simp add: LegacyStorageRomPrepare_def InventoryUsable_def flat_alloc)
  ultimately show ?thesis
    by (cases "SnapshotShadow flat_map clear_memory")
      (auto simp: LegacyRomGuardCheck_def Let_def flat_alloc flat_captured sample_plan_def split: prod.splits)
qed

lemma sample_crowded:
  "\<exists>g. LegacyRomGuardCheck flat_services () crowded_memory (Some sample_plan) idle_guard = ((EFI_UNSUPPORTED, g), ()) \<and>
     rr_Pending (mRecovery g)"
proof -
  let ?s = "fst (SnapshotShadow flat_map crowded_memory)" and ?v = "snd (SnapshotShadow flat_map crowded_memory)"
  have "LegacyRomGuardInspect (Some ?s) (Some ?v) 2048 0x10de 0x1c82 h =
     \<lparr>g_Reason = RomGuardOverlap, g_ActiveBytes = 512, g_Address = 0xC0200, g_Bytes = 2048, g_Vendor = 0, g_Device = 0\<rparr>" for h
    unfolding sample_inspect using crowded_inspect [of "\<lambda>b. if b < 256 then 1 else 0" h] by (simp add: crowded_memory_def)
  moreover have "fst (MemoryMapRangeIsReadable (Some flat_map) 76 4 False)" by (rule flat_readable) simp_all
  ultimately show ?thesis
    by (cases "SnapshotShadow flat_map crowded_memory")
      (simp add: LegacyRomGuardCheck_def Let_def flat_alloc flat_captured sample_plan_def RomRecoveryRecord_def ncv_defs)
qed

theorem LegacyRomGuardCheck_outcome_witness:
  "\<exists>g m. LegacyRomGuardCheck flat_services () clear_memory (Some sample_plan) idle_guard = ((EFI_SUCCESS, g), ()) \<and>
     provenance clear_memory sample_plan m g"
proof -
  obtain g where g: "LegacyRomGuardCheck flat_services () clear_memory (Some sample_plan) idle_guard = ((EFI_SUCCESS, g), ())"
    using sample_clear by blast
  with LegacyRomGuardCheck_outcome [OF g] show ?thesis by (auto simp: Let_def)
qed

theorem RomRecovery_available_sound_witness:
  "\<exists>g. LegacyRomGuardCheck flat_services () crowded_memory (Some sample_plan) idle_guard = ((EFI_UNSUPPORTED, g), ()) \<and>
     RomRecoveryAvailable (mRecovery g) EFI_UNSUPPORTED EFI_SUCCESS \<and>
     rr_RuntimeLimit (mRecovery g) \<le> rom_extent (\<lambda>i. crowded_memory (0xC0000 + i)) 0"
proof -
  obtain g where g: "LegacyRomGuardCheck flat_services () crowded_memory (Some sample_plan) idle_guard = ((EFI_UNSUPPORTED, g), ())"
    "rr_Pending (mRecovery g)"
    using sample_crowded by blast
  have "RomRecoveryAvailable (mRecovery g) EFI_UNSUPPORTED EFI_SUCCESS" using g(2) by (simp add: RomRecoveryAvailable_def)
  with g(1) RomRecovery_available_sound [OF g(1) this] show ?thesis by blast
qed

end
