(* ===== verification/Firmware_Monad.thy ===== *)
theory Firmware_Monad
  imports Efi_Base "HOL-Library.State_Monad"
begin

text \<open>
  Routines that call the firmware many times are written in the state monad of the library over an
  arbitrary world. This theory holds the weakest precondition of such a program with its calculus,
  UCS-2 strings, and the file protocol as a record of operations: the firmware's file driver is not
  part of the repository, so its operations are arguments of everything that uses them.
\<close>

section \<open>Weakest preconditions\<close>

text \<open>
  A program is a total function of the world, so \<open>wp m Q s\<close> says that \<open>m\<close> started in \<open>s\<close>
  returns and its result and final world satisfy \<open>Q\<close>.
\<close>

definition wp :: "('s, 'a) state \<Rightarrow> ('a \<Rightarrow> 's \<Rightarrow> bool) \<Rightarrow> 's \<Rightarrow> bool" where
  "wp m Q s = (case run_state m s of (r, t) \<Rightarrow> Q r t)"

lemma wp_run: "wp m Q s \<Longrightarrow> run_state m s = (r, t) \<Longrightarrow> Q r t"
  by (simp add: wp_def)

lemma wp_return [simp]: "wp (State_Monad.return x) Q s = Q x s"
  by (simp add: wp_def)

lemma wp_bind [simp]: "wp (State_Monad.bind m f) Q s = wp m (\<lambda>r. wp (f r) Q) s"
  by (simp add: wp_def split: prod.split)

lemma wp_if [simp]: "wp (if b then m else n) Q s = (if b then wp m Q s else wp n Q s)"
  by simp

lemma wp_Let [simp]: "wp (let x = e in f x) Q s = (let x = e in wp (f x) Q s)"
  by (simp add: Let_def)

lemma wp_mono: "wp m R s \<Longrightarrow> (\<And>r t. R r t \<Longrightarrow> Q r t) \<Longrightarrow> wp m Q s"
  by (auto simp: wp_def)

lemma wp_conj: "wp m Q s \<Longrightarrow> wp m R s \<Longrightarrow> wp m (\<lambda>r t. Q r t \<and> R r t) s"
  by (auto simp: wp_def)

lemma wp_True [simp]: "wp m (\<lambda>_ _. True) s"
  by (simp add: wp_def)

text \<open>The same laws as introduction rules, for proofs that follow the program step by step.\<close>

lemma wp_any: "(\<And>r t. Q r t) \<Longrightarrow> wp m Q s"
  by (simp add: wp_def split: prod.split)

lemma wp_returnI: "Q x s \<Longrightarrow> wp (State_Monad.return x) Q s"
  by simp

lemma wp_bindI: "wp m R s \<Longrightarrow> (\<And>r t. R r t \<Longrightarrow> wp (f r) Q t) \<Longrightarrow> wp (State_Monad.bind m f) Q s"
  unfolding wp_bind by (rule wp_mono)

lemma wp_callI: "(\<And>r t. wp (f r) Q t) \<Longrightarrow> wp (State_Monad.bind m f) Q s"
  unfolding wp_bind by (rule wp_any)

lemma wp_ifI: "(b \<Longrightarrow> wp m Q s) \<Longrightarrow> (\<not> b \<Longrightarrow> wp n Q s) \<Longrightarrow> wp (if b then m else n) Q s"
  by simp

lemma wp_sumI:
  "(\<And>e. x = Inl e \<Longrightarrow> wp (f e) Q s) \<Longrightarrow> (\<And>v. x = Inr v \<Longrightarrow> wp (g v) Q s) \<Longrightarrow>
   wp (case x of Inl e \<Rightarrow> f e | Inr v \<Rightarrow> g v) Q s"
  by (simp split: sum.split)

lemma wp_optionI:
  "(x = None \<Longrightarrow> wp m Q s) \<Longrightarrow> (\<And>v. x = Some v \<Longrightarrow> wp (g v) Q s) \<Longrightarrow>
   wp (case x of None \<Rightarrow> m | Some v \<Rightarrow> g v) Q s"
  by (simp split: option.split)

lemma wp_prodI: "(\<And>a b. x = (a, b) \<Longrightarrow> wp (f a b) Q s) \<Longrightarrow> wp (case x of (a, b) \<Rightarrow> f a b) Q s"
  by (simp split: prod.split)

section \<open>Characters of the firmware\<close>

type_synonym CHAR16 = "16 word"

text \<open>A wide literal \<open>L"..."\<close>.\<close>

definition L :: "string \<Rightarrow> CHAR16 list" where
  "L s = map (\<lambda>c. of_nat (ord c)) s"

lemma L_inject: "L s = L t \<longleftrightarrow> s = t"
proof -
  have "a = b" if "(of_nat (ord a) :: 16 word) = of_nat (ord b)" for a b
  proof -
    have "ord c < 2 ^ 16" for c by (rule order_less_trans [OF nat_of_char_less_256]) simp
    then have "(ord a :: nat) = ord b" using arg_cong [OF that, of unat]
      by (simp add: unat_of_nat take_bit_nat_eq_self)
    then show ?thesis by simp
  qed
  then have "inj (\<lambda>c. of_nat (ord c) :: 16 word)" by (rule injI)
  then show ?thesis unfolding L_def by (rule inj_map_eq_map)
qed

section \<open>The file protocol\<close>

text \<open>
  A handle stands for an \<open>EFI_FILE_PROTOCOL *\<close>. Of \<open>EFI_FILE_INFO\<close> the model keeps the fields the
  sources use; \<open>fi_Other\<close> are the times and attributes, which are only copied.
\<close>

type_synonym handle = nat

record EFI_FILE_INFO =
  fi_Size :: nat
  fi_FileSize :: nat
  fi_Other :: nat
  fi_FileName :: "CHAR16 list"

definition SIZE_OF_EFI_FILE_INFO :: nat where [ncv_defs]: "SIZE_OF_EFI_FILE_INFO = 80"

text \<open>
  \<open>FileRead\<close> returns the bytes it put into the buffer, so the updated \<open>BufferSize\<close> is their number;
  \<open>FileWrite\<close> returns the updated \<open>BufferSize\<close>. \<open>FileGetInfo\<close> takes the size of the buffer and
  returns the updated size and the contents.
\<close>

record 'w file_services =
  FileOpen :: "handle \<Rightarrow> CHAR16 list \<Rightarrow> UINT64 \<Rightarrow> UINT64 \<Rightarrow> ('w, EFI_STATUS \<times> handle) state"
  FileClose :: "handle \<Rightarrow> ('w, EFI_STATUS) state"
  FileDelete :: "handle \<Rightarrow> ('w, EFI_STATUS) state"
  FileRead :: "handle \<Rightarrow> nat \<Rightarrow> ('w, EFI_STATUS \<times> char list) state"
  FileWrite :: "handle \<Rightarrow> char list \<Rightarrow> ('w, EFI_STATUS \<times> nat) state"
  FileFlush :: "handle \<Rightarrow> ('w, EFI_STATUS) state"
  FileSetPosition :: "handle \<Rightarrow> UINT64 \<Rightarrow> ('w, EFI_STATUS) state"
  FileGetPosition :: "handle \<Rightarrow> ('w, EFI_STATUS \<times> UINT64) state"
  FileGetInfo :: "handle \<Rightarrow> nat \<Rightarrow> ('w, EFI_STATUS \<times> nat \<times> EFI_FILE_INFO) state"
  FileSetInfo :: "handle \<Rightarrow> EFI_FILE_INFO \<Rightarrow> ('w, EFI_STATUS) state"
  AllocateZeroPool :: "nat \<Rightarrow> ('w, bool) state"

definition EFI_FILE_MODE_READ :: UINT64 where [ncv_defs]: "EFI_FILE_MODE_READ = 1"
definition EFI_FILE_MODE_WRITE :: UINT64 where [ncv_defs]: "EFI_FILE_MODE_WRITE = 2"
definition EFI_FILE_MODE_CREATE :: UINT64 where [ncv_defs]: "EFI_FILE_MODE_CREATE = 0x8000000000000000"

end
