(* ===== verification/App_File.thy ===== *)
theory App_File
  imports Firmware_Monad Rom_View
begin

text \<open>
  \<open>AppFile.c\<close>: the directory of the running executable, derived from its device path, and files opened
  beside it by a validated base name.
\<close>

definition APP_FILE_MAX_DEVICE_PATH_BYTES :: nat where [ncv_defs]: "APP_FILE_MAX_DEVICE_PATH_BYTES = 64 * 1024"
definition APP_FILE_MAX_BASE_NAME_CHARS :: nat where [ncv_defs]: "APP_FILE_MAX_BASE_NAME_CHARS = 255"

abbreviation WBACKSLASH :: CHAR16 where "WBACKSLASH \<equiv> 0x5c"
abbreviation WSLASH :: CHAR16 where "WSLASH \<equiv> 0x2f"

definition is_separator :: "CHAR16 \<Rightarrow> bool" where
  "is_separator c \<longleftrightarrow> c = WBACKSLASH \<or> c = WSLASH"

section \<open>Device paths\<close>

text \<open>
  A device path is a sequence of packed nodes: type, subtype, a little-endian length that includes
  this four-byte header, and data. The validity check and the total size come from the firmware
  library; the loop checks every node itself.
\<close>

record device_path_lib =
  IsDevicePathValid :: "bytes \<Rightarrow> nat \<Rightarrow> bool"
  GetDevicePathSize :: "bytes \<Rightarrow> nat"

definition sizeof_node :: nat where [ncv_defs]: "sizeof_node = 4"

definition DevicePathNodeLength :: "bytes \<Rightarrow> nat \<Rightarrow> nat" where
  "DevicePathNodeLength p off = unat (Le16 p (off + 2))"

definition IsDevicePathEnd :: "bytes \<Rightarrow> nat \<Rightarrow> bool" where
  "IsDevicePathEnd p off \<longleftrightarrow> p off = 0x7f \<and> p (off + 1) = 0xff"

text \<open>\<open>MEDIA_DEVICE_PATH\<close> with subtype \<open>MEDIA_FILEPATH_DP\<close>.\<close>

definition IsFilePathNode :: "bytes \<Rightarrow> nat \<Rightarrow> bool" where
  "IsFilePathNode p off \<longleftrightarrow> p off = 4 \<and> p (off + 1) = 4"

definition FragmentCapacity :: "bytes \<Rightarrow> nat \<Rightarrow> nat" where
  "FragmentCapacity p off = (DevicePathNodeLength p off - sizeof_node) div 2"

definition PathName :: "bytes \<Rightarrow> nat \<Rightarrow> nat \<Rightarrow> CHAR16" where
  "PathName p off i = Le16 p (off + sizeof_node + 2 * i)"

text \<open>The characters before the terminator, or all of them when there is none.\<close>

definition Fragment :: "bytes \<Rightarrow> nat \<Rightarrow> CHAR16 list" where
  "Fragment p off = takeWhile (\<lambda>c. c \<noteq> 0) (map (PathName p off) [0..<FragmentCapacity p off])"

text \<open>The first loop: checks every node and counts characters and fragments.\<close>

function FragmentPass :: "bytes \<Rightarrow> nat \<Rightarrow> nat \<Rightarrow> nat \<Rightarrow> nat \<Rightarrow> EFI_STATUS + nat \<times> nat \<times> nat" where
  "FragmentPass p pathSize off totalChars count =
     (if off + sizeof_node \<le> pathSize then
        let n = DevicePathNodeLength p off
        in if n < sizeof_node \<or> n > pathSize - off then Inl EFI_COMPROMISED_DATA
           else case (if IsFilePathNode p off then
                        (if n - sizeof_node < 2 \<or> odd (n - sizeof_node) then Inl EFI_COMPROMISED_DATA
                         else let chars = length (Fragment p off)
                              in if chars = FragmentCapacity p off then Inl EFI_COMPROMISED_DATA
                                 else if chars > MAX_UINTN - totalChars then Inl EFI_OUT_OF_RESOURCES
                                 else Inr (totalChars + chars, count + 1))
                      else Inr (totalChars, count)) of
                  Inl status \<Rightarrow> Inl status
                | Inr (totalChars, count) \<Rightarrow>
                    if IsDevicePathEnd p off then Inr (off + n, totalChars, count)
                    else FragmentPass p pathSize (off + n) totalChars count
      else Inr (off, totalChars, count))"
  by pat_completeness auto
termination
  by (relation "measure (\<lambda>(p, pathSize, off, totalChars, count). pathSize - off)") (auto simp: sizeof_node_def)

declare FragmentPass.simps [simp del]

text \<open>
  The second loop: joins the fragments. It visits the nodes the first loop has accepted, so their
  length is at least that of the header; the recursion also ends at a shorter one.
\<close>

definition AppendFragment :: "bytes \<Rightarrow> nat \<Rightarrow> CHAR16 list \<Rightarrow> CHAR16 list" where
  "AppendFragment p off result =
     (let result = (if result \<noteq> [] \<and> PathName p off 0 \<noteq> 0 \<and> \<not> is_separator (last result) \<and> \<not> is_separator (PathName p off 0)
                    then result @ [WBACKSLASH] else result)
      in result @ map (\<lambda>c. if c = WSLASH then WBACKSLASH else c) (Fragment p off))"

function CopyPass :: "bytes \<Rightarrow> nat \<Rightarrow> nat \<Rightarrow> CHAR16 list \<Rightarrow> CHAR16 list" where
  "CopyPass p pathSize off result =
     (if off + sizeof_node \<le> pathSize then
        let n = DevicePathNodeLength p off;
            result = (if IsFilePathNode p off then AppendFragment p off result else result)
        in if IsDevicePathEnd p off \<or> n < sizeof_node then result
           else CopyPass p pathSize (off + n) result
      else result)"
  by pat_completeness auto
termination
  by (relation "measure (\<lambda>(p, pathSize, off, result). pathSize - off)") (auto simp: sizeof_node_def)

declare CopyPass.simps [simp del]

definition AppendFilePathFragments ::
  "device_path_lib \<Rightarrow> 'w file_services \<Rightarrow> bytes option \<Rightarrow> ('w, EFI_STATUS + CHAR16 list) state" where
  "AppendFilePathFragments lib fs filePath =
     (case filePath of None \<Rightarrow> State_Monad.return (Inl EFI_INVALID_PARAMETER)
      | Some p \<Rightarrow>
          if \<not> IsDevicePathValid lib p APP_FILE_MAX_DEVICE_PATH_BYTES then State_Monad.return (Inl EFI_COMPROMISED_DATA)
          else let pathSize = GetDevicePathSize lib p
               in if pathSize < sizeof_node \<or> pathSize > APP_FILE_MAX_DEVICE_PATH_BYTES
                  then State_Monad.return (Inl EFI_COMPROMISED_DATA)
                  else case FragmentPass p pathSize 0 0 0 of
                         Inl status \<Rightarrow> State_Monad.return (Inl status)
                       | Inr (off, totalChars, count) \<Rightarrow>
                           if off > pathSize \<or> totalChars = 0 \<or> count > MAX_UINTN - totalChars
                              \<or> totalChars + count \<ge> APP_FILE_MAX_DEVICE_PATH_BYTES div 2
                           then State_Monad.return (Inl EFI_NOT_FOUND)
                           else do {
                             ok \<leftarrow> AllocateZeroPool fs ((totalChars + count + 1) * 2);
                             if \<not> ok then State_Monad.return (Inl EFI_OUT_OF_RESOURCES)
                             else State_Monad.return (Inr (CopyPass p pathSize 0 []))
                           })"

section \<open>The image directory\<close>

text \<open>The index of the last separator; \<open>None\<close> is the initial \<open>MAX_UINTN\<close>.\<close>

definition LastSeparator :: "CHAR16 list \<Rightarrow> nat option" where
  "LastSeparator path = fold (\<lambda>i found. if path ! i = WBACKSLASH then Some i else found) [0..<length path] None"

definition DirectoryStart :: "CHAR16 list \<Rightarrow> nat" where
  "DirectoryStart path = length (takeWhile (\<lambda>c. c = WBACKSLASH) path)"

definition GetImageDirectoryPath ::
  "device_path_lib \<Rightarrow> 'w file_services \<Rightarrow> bytes option \<Rightarrow> ('w, EFI_STATUS + CHAR16 list) state" where
  "GetImageDirectoryPath lib fs filePath = do {
     r \<leftarrow> AppendFilePathFragments lib fs filePath;
     case r of Inl status \<Rightarrow> State_Monad.return (Inl status)
     | Inr path \<Rightarrow>
         if path = [] \<or> LastSeparator path = Some (length path - 1) then State_Monad.return (Inl EFI_COMPROMISED_DATA)
         else let start = DirectoryStart path;
                  chars = (case LastSeparator path of None \<Rightarrow> 0 | Some k \<Rightarrow> if k \<le> start then 0 else k - start)
              in do {
                ok \<leftarrow> AllocateZeroPool fs ((chars + 1) * 2);
                if \<not> ok then State_Monad.return (Inl EFI_OUT_OF_RESOURCES)
                else State_Monad.return (Inr (take chars (drop start path)))
              }
   }"

section \<open>The context\<close>

text \<open>
  The loaded image and the file system interface are only used while the context is built; the
  other fields are those of \<open>APP_FILE_CONTEXT\<close>.
\<close>

record APP_FILE_CONTEXT =
  af_ImageHandle :: "nat option"
  af_FileSystemDeviceHandle :: "nat option"
  af_Root :: "handle option"
  af_ImageDirectory :: "handle option"
  af_ImageDirectoryPath :: "CHAR16 list option"
  af_ImageDirectoryAliasesRoot :: bool
  af_LoadedImageOpened :: bool
  af_FileSystemOpened :: bool

definition empty_context :: APP_FILE_CONTEXT where
  "empty_context = \<lparr>af_ImageHandle = None, af_FileSystemDeviceHandle = None, af_Root = None, af_ImageDirectory = None,
     af_ImageDirectoryPath = None, af_ImageDirectoryAliasesRoot = False, af_LoadedImageOpened = False, af_FileSystemOpened = False\<rparr>"

text \<open>
  The boot services the context uses: opening the loaded-image protocol (its device handle and file
  path), the file-system protocol of a device, its root, and closing either protocol.
\<close>

record 'w image_services =
  OpenLoadedImage :: "nat \<Rightarrow> ('w, EFI_STATUS \<times> nat option \<times> bytes option) state"
  OpenFileSystem :: "nat \<Rightarrow> nat \<Rightarrow> ('w, EFI_STATUS \<times> nat) state"
  OpenVolume :: "nat \<Rightarrow> ('w, EFI_STATUS \<times> handle) state"
  CloseLoadedImage :: "nat \<Rightarrow> ('w, EFI_STATUS) state"
  CloseFileSystem :: "nat \<Rightarrow> nat \<Rightarrow> ('w, EFI_STATUS) state"

definition first_error :: "EFI_STATUS \<Rightarrow> EFI_STATUS \<Rightarrow> EFI_STATUS" where
  "first_error status closeStatus = (if \<not> EFI_ERROR status \<and> EFI_ERROR closeStatus then closeStatus else status)"

definition AppFileClose ::
  "'w image_services \<Rightarrow> 'w file_services \<Rightarrow> APP_FILE_CONTEXT option \<Rightarrow> ('w, EFI_STATUS \<times> APP_FILE_CONTEXT option) state" where
  "AppFileClose bs fs context =
     (case context of None \<Rightarrow> State_Monad.return (EFI_INVALID_PARAMETER, None)
      | Some c \<Rightarrow> do {
          status \<leftarrow> (case af_ImageDirectory c of
              Some d \<Rightarrow> if af_ImageDirectoryAliasesRoot c then State_Monad.return EFI_SUCCESS
                        else do { close \<leftarrow> FileClose fs d; State_Monad.return (if EFI_ERROR close then close else EFI_SUCCESS) }
            | None \<Rightarrow> State_Monad.return EFI_SUCCESS);
          status \<leftarrow> (case af_Root c of
              Some r \<Rightarrow> do { close \<leftarrow> FileClose fs r; State_Monad.return (first_error status close) }
            | None \<Rightarrow> State_Monad.return status);
          status \<leftarrow> (if af_FileSystemOpened c then do {
              close \<leftarrow> CloseFileSystem bs (the (af_FileSystemDeviceHandle c)) (the (af_ImageHandle c));
              State_Monad.return (first_error status close) } else State_Monad.return status);
          status \<leftarrow> (if af_LoadedImageOpened c then do {
              close \<leftarrow> CloseLoadedImage bs (the (af_ImageHandle c));
              State_Monad.return (first_error status close) } else State_Monad.return status);
          State_Monad.return (status, Some empty_context)
        })"

text \<open>The \<open>Error\<close> label of the initialisation: close what was opened, report the first error.\<close>

definition InitializeError ::
  "'w image_services \<Rightarrow> 'w file_services \<Rightarrow> APP_FILE_CONTEXT \<Rightarrow> EFI_STATUS \<Rightarrow> ('w, EFI_STATUS \<times> APP_FILE_CONTEXT) state" where
  "InitializeError bs fs c status = do {
     (close, c) \<leftarrow> AppFileClose bs fs (Some c);
     State_Monad.return (first_error status close, the c)
   }"

definition AppFileInitialize ::
  "device_path_lib \<Rightarrow> 'w image_services \<Rightarrow> 'w file_services \<Rightarrow> nat option \<Rightarrow> APP_FILE_CONTEXT \<Rightarrow> ('w, EFI_STATUS \<times> APP_FILE_CONTEXT) state" where
  "AppFileInitialize lib bs fs imageHandle context =
     (case imageHandle of None \<Rightarrow> State_Monad.return (EFI_INVALID_PARAMETER, context)
      | Some img \<Rightarrow>
          let c = empty_context\<lparr>af_ImageHandle := Some img\<rparr>
          in do {
            (status, device, filePath) \<leftarrow> OpenLoadedImage bs img;
            if EFI_ERROR status then InitializeError bs fs c status
            else let c = c\<lparr>af_LoadedImageOpened := True\<rparr>
                 in if device = None \<or> filePath = None then InitializeError bs fs c EFI_NOT_FOUND
                    else let c = c\<lparr>af_FileSystemDeviceHandle := device\<rparr>
                         in do {
                           (status, volume) \<leftarrow> OpenFileSystem bs (the device) img;
                           if EFI_ERROR status then InitializeError bs fs c status
                           else let c = c\<lparr>af_FileSystemOpened := True\<rparr>
                                in do {
                                  (status, root) \<leftarrow> OpenVolume bs volume;
                                  if EFI_ERROR status then InitializeError bs fs c status
                                  else let c = c\<lparr>af_Root := Some root\<rparr>
                                       in do {
                                         r \<leftarrow> GetImageDirectoryPath lib fs filePath;
                                         case r of Inl status \<Rightarrow> InitializeError bs fs c status
                                         | Inr path \<Rightarrow>
                                             let c = c\<lparr>af_ImageDirectoryPath := Some path\<rparr>
                                             in if path = []
                                                then State_Monad.return (EFI_SUCCESS, c\<lparr>af_ImageDirectory := Some root, af_ImageDirectoryAliasesRoot := True\<rparr>)
                                                else do {
                                                  (status, dir) \<leftarrow> FileOpen fs root path EFI_FILE_MODE_READ 0;
                                                  if EFI_ERROR status then InitializeError bs fs c status
                                                  else State_Monad.return (EFI_SUCCESS, c\<lparr>af_ImageDirectory := Some dir\<rparr>)
                                                }
                                       }
                                }
                         }
          })"

section \<open>Base names\<close>

definition ForbiddenCharacter :: "CHAR16 \<Rightarrow> bool" where
  "ForbiddenCharacter c \<longleftrightarrow> c < 0x20 \<or> c = 0x7f \<or> c = WBACKSLASH \<or> c = WSLASH \<or> c = 0x3a \<or> c = 0x22 \<or> c = 0x2a
     \<or> c = 0x3f \<or> c = 0x3c \<or> c = 0x3e \<or> c = 0x7c"

text \<open>Returns the normalized name on success.\<close>

definition AppFileValidateBaseName :: "CHAR16 list option \<Rightarrow> EFI_STATUS + CHAR16 list" where
  "AppFileValidateBaseName name =
     (case name of None \<Rightarrow> Inl EFI_INVALID_PARAMETER
      | Some n \<Rightarrow>
          let baseName = (if n \<noteq> [] \<and> (n ! 0 = WBACKSLASH \<or> n ! 0 = WSLASH) then drop 1 n else n)
          in if length baseName = 0 \<or> length baseName > APP_FILE_MAX_BASE_NAME_CHARS then Inl EFI_INVALID_PARAMETER
             else if baseName = [0x2e] \<or> baseName = [0x2e, 0x2e] \<or> last baseName = 0x2e \<or> last baseName = 0x20
             then Inl EFI_INVALID_PARAMETER
             else if list_ex ForbiddenCharacter baseName then Inl EFI_INVALID_PARAMETER
             else Inr baseName)"

definition AppFileOpenAdjacent ::
  "'w file_services \<Rightarrow> APP_FILE_CONTEXT option \<Rightarrow> CHAR16 list option \<Rightarrow> UINT64 \<Rightarrow> UINT64 \<Rightarrow> ('w, EFI_STATUS \<times> handle) state" where
  "AppFileOpenAdjacent fs context baseName mode attributes =
     (case context of None \<Rightarrow> State_Monad.return (EFI_INVALID_PARAMETER, 0)
      | Some c \<Rightarrow>
          (case af_ImageDirectory c of None \<Rightarrow> State_Monad.return (EFI_INVALID_PARAMETER, 0)
           | Some dir \<Rightarrow>
               (case AppFileValidateBaseName baseName of
                  Inl status \<Rightarrow> State_Monad.return (status, 0)
                | Inr name \<Rightarrow> FileOpen fs dir name mode attributes)))"

section \<open>The combined path\<close>

lemma AppendFragment_spec:
  "length (AppendFragment p off r) \<le> length r + length (Fragment p off) + 1"
  "set r \<inter> {0, WSLASH} = {} \<Longrightarrow> set (AppendFragment p off r) \<inter> {0, WSLASH} = {}"
  "r \<noteq> [] \<Longrightarrow> AppendFragment p off r \<noteq> []"
proof -
  have "c \<noteq> 0" if "c \<in> set (Fragment p off)" for c
    using that by (auto simp: Fragment_def dest: set_takeWhileD)
  then have frag: "set (map (\<lambda>c. if c = WSLASH then WBACKSLASH else c) (Fragment p off)) \<inter> {0, WSLASH} = {}" by auto
  show "length (AppendFragment p off r) \<le> length r + length (Fragment p off) + 1"
    by (simp add: AppendFragment_def Let_def)
  show "set r \<inter> {0, WSLASH} = {} \<Longrightarrow> set (AppendFragment p off r) \<inter> {0, WSLASH} = {}"
    using frag by (auto simp: AppendFragment_def Let_def)
  show "r \<noteq> [] \<Longrightarrow> AppendFragment p off r \<noteq> []" by (simp add: AppendFragment_def Let_def)
qed

text \<open>What both loops see of one node.\<close>

lemma FragmentPass_step:
  assumes "FragmentPass p n off t c = Inr (off', t', c')" and "off + 4 \<le> n"
  shows "4 \<le> DevicePathNodeLength p off \<and> DevicePathNodeLength p off \<le> n - off"
    and "\<exists>t1 c1. t1 = t + (if IsFilePathNode p off then length (Fragment p off) else 0) \<and>
      c1 = c + (if IsFilePathNode p off then 1 else 0) \<and>
      (if IsDevicePathEnd p off then (off', t', c') = (off + DevicePathNodeLength p off, t1, c1)
       else FragmentPass p n (off + DevicePathNodeLength p off) t1 c1 = Inr (off', t', c'))"
proof -
  note run = assms(1) [unfolded FragmentPass.simps [of p n off] sizeof_node_def]
  show "4 \<le> DevicePathNodeLength p off \<and> DevicePathNodeLength p off \<le> n - off"
    using run assms(2) by (auto simp: Let_def split: if_splits)
  show "\<exists>t1 c1. t1 = t + (if IsFilePathNode p off then length (Fragment p off) else 0) \<and>
      c1 = c + (if IsFilePathNode p off then 1 else 0) \<and>
      (if IsDevicePathEnd p off then (off', t', c') = (off + DevicePathNodeLength p off, t1, c1)
       else FragmentPass p n (off + DevicePathNodeLength p off) t1 c1 = Inr (off', t', c'))"
    using run assms(2) by (cases "IsFilePathNode p off") (auto simp: Let_def split: if_splits)
qed

lemma CopyPass_spec:
  "FragmentPass p n off t c = Inr (off', t', c') \<Longrightarrow> off \<le> n \<Longrightarrow>
   t \<le> t' \<and> c \<le> c' \<and> off' \<le> n \<and> length (CopyPass p n off r) \<le> length r + (t' - t) + (c' - c) \<and>
   (set r \<inter> {0, WSLASH} = {} \<longrightarrow> set (CopyPass p n off r) \<inter> {0, WSLASH} = {})"
proof (induction "n - off" arbitrary: off t c r rule: less_induct)
  case (less off t c r)
  show ?case
  proof (cases "off + 4 \<le> n")
    case False
    then have "CopyPass p n off r = r" by (simp add: CopyPass.simps [of p n off] sizeof_node_def)
    with False less.prems show ?thesis by (simp add: FragmentPass.simps [of p n off] sizeof_node_def)
  next
    case True
    let ?l = "DevicePathNodeLength p off" and ?file = "IsFilePathNode p off"
    let ?r = "if ?file then AppendFragment p off r else r"
    let ?t = "t + (if ?file then length (Fragment p off) else 0)" and ?c = "c + (if ?file then 1 else 0)"
    have l: "4 \<le> ?l" "?l \<le> n - off" using FragmentPass_step(1) [OF less.prems(1) True] by auto
    have node: "length ?r \<le> length r + (?t - t) + (?c - c)" "set r \<inter> {0, WSLASH} = {} \<longrightarrow> set ?r \<inter> {0, WSLASH} = {}"
      using AppendFragment_spec(1) [of p off r] AppendFragment_spec(2) [of r p off] by simp_all
    show ?thesis
    proof (cases "IsDevicePathEnd p off")
      case end_node: True
      then have "(off', t', c') = (off + ?l, ?t, ?c)" using FragmentPass_step(2) [OF less.prems(1) True] by auto
      with end_node node l True show ?thesis
        by (auto simp: CopyPass.simps [of p n off] sizeof_node_def)
    next
      case False
      have rest: "FragmentPass p n (off + ?l) ?t ?c = Inr (off', t', c')"
        using FragmentPass_step(2) [OF less.prems(1) True] False by auto
      have copy: "CopyPass p n off r = CopyPass p n (off + ?l) ?r"
        using True False l by (simp add: CopyPass.simps [of p n off] sizeof_node_def)
      have "?t \<le> t' \<and> ?c \<le> c' \<and> off' \<le> n \<and> length (CopyPass p n (off + ?l) ?r) \<le> length ?r + (t' - ?t) + (c' - ?c) \<and>
        (set ?r \<inter> {0, WSLASH} = {} \<longrightarrow> set (CopyPass p n (off + ?l) ?r) \<inter> {0, WSLASH} = {})"
        using l True by (intro less.hyps rest) simp_all
      with node show ?thesis unfolding copy by linarith
    qed
  qed
qed

lemma AppendFilePathFragments_accepts:
  assumes "run_state (AppendFilePathFragments lib fs filePath) w = (Inr path, w')"
  shows "\<exists>p off t c. filePath = Some p \<and> FragmentPass p (GetDevicePathSize lib p) 0 0 0 = Inr (off, t, c) \<and>
    off \<le> GetDevicePathSize lib p \<and> t + c < 32768 \<and> length path \<le> t + c \<and> set path \<inter> {0, WSLASH} = {}"
proof -
  obtain p where p: "filePath = Some p" using assms by (cases filePath) (simp_all add: AppendFilePathFragments_def)
  obtain off t c where f: "FragmentPass p (GetDevicePathSize lib p) 0 0 0 = Inr (off, t, c)"
    using assms p by (cases "FragmentPass p (GetDevicePathSize lib p) 0 0 0") (auto simp: AppendFilePathFragments_def Let_def split: if_splits)
  have "path = CopyPass p (GetDevicePathSize lib p) 0 []" "t + c < 32768"
    using assms p f by (auto simp: AppendFilePathFragments_def APP_FILE_MAX_DEVICE_PATH_BYTES_def Let_def split: if_splits prod.splits)
  with p f CopyPass_spec [OF f, of "[]"] show ?thesis by simp
qed

section \<open>The directory part\<close>

lemma LastSeparator_spec:
  "case LastSeparator path of
     None \<Rightarrow> WBACKSLASH \<notin> set path
   | Some k \<Rightarrow> k < length path \<and> path ! k = WBACKSLASH \<and> WBACKSLASH \<notin> set (drop (Suc k) path)"
proof -
  define scan where "scan n = fold (\<lambda>i found. if path ! i = WBACKSLASH then Some i else found) [0..<n] None" for n
  have "case scan n of None \<Rightarrow> (\<forall>i<n. path ! i \<noteq> WBACKSLASH)
      | Some k \<Rightarrow> k < n \<and> path ! k = WBACKSLASH \<and> (\<forall>i. k < i \<and> i < n \<longrightarrow> path ! i \<noteq> WBACKSLASH)" for n
    by (induction n) (auto simp: scan_def less_Suc_eq split: option.splits)
  from this [of "length path"] show ?thesis
    by (auto simp: LastSeparator_def scan_def in_set_conv_nth split: option.splits)
qed

lemma DirectoryStart_spec:
  "take (DirectoryStart path) path = replicate (DirectoryStart path) WBACKSLASH"
  "DirectoryStart path \<le> length path"
  "DirectoryStart path < length path \<Longrightarrow> path ! DirectoryStart path \<noteq> WBACKSLASH"
proof -
  let ?t = "takeWhile (\<lambda>c. c = WBACKSLASH) path"
  have "replicate (length ?t) WBACKSLASH = ?t" by (rule replicate_length_same) (blast dest: set_takeWhileD)
  then show "take (DirectoryStart path) path = replicate (DirectoryStart path) WBACKSLASH"
    by (metis DirectoryStart_def takeWhile_eq_take)
  show "DirectoryStart path \<le> length path" by (simp add: DirectoryStart_def length_takeWhile_le)
  show "DirectoryStart path < length path \<Longrightarrow> path ! DirectoryStart path \<noteq> WBACKSLASH"
    unfolding DirectoryStart_def using nth_length_takeWhile [of "\<lambda>c. c = WBACKSLASH" path] by simp
qed

text \<open>
  The directory of the executable. When the path is built, the joined file-path fragments fit the
  buffer that was allocated from the first pass' counts, contain no terminator and no forward slash,
  and split exactly into leading separators, the returned directory and a last component that is not
  empty and has no separator; a directory that is not empty does not start with a separator.
\<close>

theorem GetImageDirectoryPath_split:
  assumes "run_state (GetImageDirectoryPath lib fs filePath) w = (Inr dir, w')"
  shows "\<exists>p off t c path k leaf. filePath = Some p \<and> FragmentPass p (GetDevicePathSize lib p) 0 0 0 = Inr (off, t, c) \<and>
    fst (run_state (AppendFilePathFragments lib fs filePath) w) = Inr path \<and> length path \<le> t + c \<and> set path \<inter> {0, WSLASH} = {} \<and>
    path = replicate k WBACKSLASH @ (if dir = [] then [] else dir @ [WBACKSLASH]) @ leaf \<and>
    leaf \<noteq> [] \<and> WBACKSLASH \<notin> set leaf \<and> (dir \<noteq> [] \<longrightarrow> hd dir \<noteq> WBACKSLASH)"
proof -
  obtain path w1 where run: "run_state (AppendFilePathFragments lib fs filePath) w = (Inr path, w1)"
    using assms by (cases "run_state (AppendFilePathFragments lib fs filePath) w") (auto simp: GetImageDirectoryPath_def split: sum.splits)
  let ?s = "DirectoryStart path" and ?l = "LastSeparator path"
  have guards: "path \<noteq> []" "?l \<noteq> Some (length path - 1)"
    and dir: "dir = take (case ?l of None \<Rightarrow> 0 | Some k \<Rightarrow> if k \<le> ?s then 0 else k - ?s) (drop ?s path)"
    using assms run by (auto simp: GetImageDirectoryPath_def Let_def split: if_splits prod.splits)
  note start = DirectoryStart_spec [of path]
  have split: "path = replicate ?s WBACKSLASH @ drop ?s path" using start(1) by (metis append_take_drop_id)
  obtain leaf where leaf: "path = replicate ?s WBACKSLASH @ (if dir = [] then [] else dir @ [WBACKSLASH]) @ leaf"
    "leaf \<noteq> []" "WBACKSLASH \<notin> set leaf" "dir \<noteq> [] \<longrightarrow> hd dir \<noteq> WBACKSLASH"
  proof (cases "\<exists>k. ?l = Some k \<and> ?s < k")
    case True
    then obtain k where k: "?l = Some k" "?s < k" by blast
    note sep = LastSeparator_spec [of path, unfolded k option.case]
    have d: "dir = take (k - ?s) (drop ?s path)" using dir k by simp
    then have ne: "dir \<noteq> []" and hd: "hd dir \<noteq> WBACKSLASH"
      using k sep start(3) by (auto simp: hd_conv_nth)
    have "drop ?s path = dir @ path ! k # drop (Suc k) path"
      using k sep d by (metis add.commute add_diff_inverse_nat append_take_drop_id drop_drop id_take_nth_drop less_imp_not_less Cons_nth_drop_Suc)
    then have "path = replicate ?s WBACKSLASH @ dir @ WBACKSLASH # drop (Suc k) path"
      using split sep by simp
    moreover have "drop (Suc k) path \<noteq> []" using sep guards k by (cases "Suc k = length path") auto
    ultimately show ?thesis using ne hd sep by (intro that [of "drop (Suc k) path"]) simp_all
  next
    case False
    then have d: "dir = []" using dir by (auto split: option.splits)
    have "WBACKSLASH \<notin> set (drop ?s path)"
    proof (cases ?l)
      case (Some k)
      then have "set (drop ?s path) \<subseteq> set (drop (Suc k) path) \<or> k = ?s" using False
        by (cases "k = ?s") (simp_all add: set_drop_subset_set_drop not_less)
      then show ?thesis using LastSeparator_spec [of path] Some start(3) by auto
    qed (use LastSeparator_spec [of path] in \<open>auto dest: in_set_dropD\<close>)
    moreover have "drop ?s path \<noteq> []"
    proof
      assume "drop ?s path = []"
      then have "path = replicate (length path) WBACKSLASH" using split start(2) by simp
      then have "last path = WBACKSLASH" using guards(1) by (metis last_replicate length_0_conv)
      then obtain k where k: "?l = Some k" using LastSeparator_spec [of path] last_in_set [OF guards(1)] by (cases ?l) auto
      note sep = LastSeparator_spec [of path, unfolded k option.case]
      have "Suc k < length path" using sep guards(2) k by (cases "Suc k = length path") auto
      then have "last path \<in> set (drop (Suc k) path)" by (metis drop_eq_Nil last_drop last_in_set not_le)
      with sep \<open>last path = WBACKSLASH\<close> show False by simp
    qed
    ultimately show ?thesis using split d by (intro that [of "drop ?s path"]) simp_all
  qed
  obtain p off t c where p: "filePath = Some p" "FragmentPass p (GetDevicePathSize lib p) 0 0 0 = Inr (off, t, c)"
    "length path \<le> t + c" "set path \<inter> {0, WSLASH} = {}"
    using AppendFilePathFragments_accepts [OF run] by (elim exE conjE) (rule that)
  have got: "fst (run_state (AppendFilePathFragments lib fs filePath) w) = Inr path" by (simp only: run fst_conv)
  show ?thesis
    by (rule exI [of _ p], rule exI [of _ off], rule exI [of _ t], rule exI [of _ c], rule exI [of _ path], rule exI [of _ ?s],
      rule exI [of _ leaf], intro conjI) (fact p got leaf)+
qed

section \<open>Opening beside the executable\<close>

text \<open>A name that denotes an entry of the directory itself.\<close>

definition safe_name :: "CHAR16 list \<Rightarrow> bool" where
  "safe_name n \<longleftrightarrow> n \<noteq> [] \<and> length n \<le> 255 \<and> n \<noteq> [0x2e] \<and> n \<noteq> [0x2e, 0x2e] \<and> last n \<noteq> 0x2e \<and> last n \<noteq> 0x20 \<and>
     \<not> list_ex ForbiddenCharacter n"

lemma AppFileValidateBaseName_iff:
  "AppFileValidateBaseName name = Inr n \<longleftrightarrow>
     safe_name n \<and> (\<exists>s. name = Some s \<and> (s = n \<or> (\<exists>c. is_separator c \<and> s = c # n)))"
proof (cases name)
  case (Some s)
  define b where "b = (if s \<noteq> [] \<and> is_separator (s ! 0) then drop 1 s else s)"
  have "\<not> is_separator (n ! 0)" if "safe_name n"
    using that by (cases n) (auto simp: safe_name_def ForbiddenCharacter_def is_separator_def)
  then have "b = n \<longleftrightarrow> s = n \<or> (\<exists>c. is_separator c \<and> s = c # n)" if "safe_name n"
    using that by (cases s) (auto simp: b_def safe_name_def)
  moreover have "AppFileValidateBaseName (Some s) = (if safe_name b then Inr b else Inl EFI_INVALID_PARAMETER)"
    unfolding b_def is_separator_def by (simp add: AppFileValidateBaseName_def safe_name_def Let_def APP_FILE_MAX_BASE_NAME_CHARS_def)
  ultimately show ?thesis using Some by auto
qed (simp add: AppFileValidateBaseName_def)

lemma AppFileValidateBaseName_error: "AppFileValidateBaseName name = Inl e \<Longrightarrow> e = EFI_INVALID_PARAMETER"
  by (auto simp: AppFileValidateBaseName_def Let_def split: option.splits if_splits)

lemma AppFileValidateBaseName_safe: "safe_name n \<Longrightarrow> AppFileValidateBaseName (Some n) = Inr n"
  by (simp add: AppFileValidateBaseName_iff)

text \<open>
  Files are opened only beside the executable: \<open>AppFileOpenAdjacent\<close> either refuses the request
  without any firmware call, or is exactly one \<open>Open\<close> on the image directory with a safe name, which
  is the given one without at most one leading separator.
\<close>

theorem AppFileOpenAdjacent_confined:
  "(\<exists>c dir n s. ctx = Some c \<and> af_ImageDirectory c = Some dir \<and> safe_name n \<and>
      baseName = Some s \<and> (s = n \<or> (\<exists>d. is_separator d \<and> s = d # n)) \<and>
      AppFileOpenAdjacent fs ctx baseName mode attributes = FileOpen fs dir n mode attributes)
   \<or> AppFileOpenAdjacent fs ctx baseName mode attributes = State_Monad.return (EFI_INVALID_PARAMETER, 0)"
proof (cases "AppFileValidateBaseName baseName")
  case (Inl e)
  then show ?thesis using AppFileValidateBaseName_error [OF Inl]
    by (auto simp: AppFileOpenAdjacent_def split: option.split)
next
  case (Inr n)
  then obtain s where "safe_name n" "baseName = Some s" "s = n \<or> (\<exists>d. is_separator d \<and> s = d # n)"
    using AppFileValidateBaseName_iff [of baseName n] by blast
  with Inr show ?thesis by (cases ctx; cases "af_ImageDirectory (the ctx)") (auto simp: AppFileOpenAdjacent_def)
qed

section \<open>Witness\<close>

text \<open>One file-path node \<open>D/F\<close> and the end node.\<close>

definition sample_path :: bytes where
  "sample_path = bytes_of [4, 4, 12, 0, 0x44, 0, 0x2f, 0, 0x46, 0, 0, 0, 0x7f, 0xff, 4, 0]"

definition sample_lib :: device_path_lib where
  "sample_lib = \<lparr>IsDevicePathValid = (\<lambda>_ _. True), GetDevicePathSize = (\<lambda>_. 16)\<rparr>"

definition idle_files :: "unit file_services" where
  "idle_files = \<lparr>FileOpen = (\<lambda>_ _ _ _. State_Monad.return (EFI_NOT_FOUND, 0)), FileClose = (\<lambda>_. State_Monad.return EFI_SUCCESS),
     FileDelete = (\<lambda>_. State_Monad.return EFI_SUCCESS), FileRead = (\<lambda>_ _. State_Monad.return (EFI_SUCCESS, [])),
     FileWrite = (\<lambda>_ xs. State_Monad.return (EFI_SUCCESS, length xs)), FileFlush = (\<lambda>_. State_Monad.return EFI_SUCCESS),
     FileSetPosition = (\<lambda>_ _. State_Monad.return EFI_SUCCESS), FileGetPosition = (\<lambda>_. State_Monad.return (EFI_SUCCESS, 0)),
     FileGetInfo = (\<lambda>_ _. State_Monad.return (EFI_UNSUPPORTED, 0, \<lparr>fi_Size = 0, fi_FileSize = 0, fi_Other = 0, fi_FileName = []\<rparr>)),
     FileSetInfo = (\<lambda>_ _. State_Monad.return EFI_UNSUPPORTED), AllocateZeroPool = (\<lambda>_. State_Monad.return True)\<rparr>"

lemma sample_nodes:
  "DevicePathNodeLength sample_path 0 = 12" "IsFilePathNode sample_path 0" "\<not> IsDevicePathEnd sample_path 0"
  "Fragment sample_path 0 = [0x44, WSLASH, 0x46]" "FragmentCapacity sample_path 0 = 4" "PathName sample_path 0 0 = 0x44"
  "DevicePathNodeLength sample_path 12 = 4" "\<not> IsFilePathNode sample_path 12" "IsDevicePathEnd sample_path 12"
proof -
  show n: "DevicePathNodeLength sample_path 0 = 12"
    by (simp add: DevicePathNodeLength_def Le16_def sample_path_def bytes_of_def)
  show cap: "FragmentCapacity sample_path 0 = 4" by (simp add: FragmentCapacity_def n sizeof_node_def)
  show "Fragment sample_path 0 = [0x44, WSLASH, 0x46]"
    unfolding Fragment_def cap
    by (simp add: PathName_def sizeof_node_def upt_rec Le16_def sample_path_def bytes_of_def)
qed (simp_all add: DevicePathNodeLength_def IsFilePathNode_def IsDevicePathEnd_def PathName_def sizeof_node_def Le16_def sample_path_def bytes_of_def)

lemma sample_directory:
  "run_state (GetImageDirectoryPath sample_lib idle_files (Some sample_path)) () = (Inr [0x44], ())"
proof -
  have "FragmentPass sample_path 16 0 0 0 = Inr (16, 3, 1)"
    by (simp add: FragmentPass.simps [of sample_path 16 0] FragmentPass.simps [of sample_path 16 12] sample_nodes sizeof_node_def MAX_UINTN_def)
  moreover have "CopyPass sample_path 16 0 [] = [0x44, WBACKSLASH, 0x46]"
    by (simp add: CopyPass.simps [of sample_path 16 0] CopyPass.simps [of sample_path 16 12] sample_nodes sizeof_node_def AppendFragment_def)
  ultimately have "run_state (AppendFilePathFragments sample_lib idle_files (Some sample_path)) () = (Inr [0x44, WBACKSLASH, 0x46], ())"
    by (simp add: AppendFilePathFragments_def sample_lib_def idle_files_def ncv_defs MAX_UINTN_def)
  then show ?thesis
    by (simp add: GetImageDirectoryPath_def LastSeparator_def DirectoryStart_def idle_files_def upt_rec)
qed

theorem GetImageDirectoryPath_split_witness:
  "\<exists>path k leaf. fst (run_state (AppendFilePathFragments sample_lib idle_files (Some sample_path)) ()) = Inr path \<and>
     path = replicate k WBACKSLASH @ ([0x44] @ [WBACKSLASH]) @ leaf \<and> leaf \<noteq> []"
  using GetImageDirectoryPath_split [OF sample_directory] by auto

end
