(* ===== verification/File_Laws.thy ===== *)
theory File_Laws
  imports App_File
begin

text \<open>
  The documented behaviour of \<open>EFI_FILE_PROTOCOL\<close> that the file operations rely on, as one predicate over
  the operations and a view of the world: which files a directory holds, and which file and position
  every open handle refers to. Files are found under a key of their name, so that a volume may treat
  different spellings as the same file. Every operation may fail; a failing write may leave any
  contents in its own file. The facts of each law are restated as rules of the weakest precondition.
\<close>

record ('w, 'k) fs_view =
  fv_dir :: handle
  fv_key :: "CHAR16 list \<Rightarrow> 'k"
  fv_files :: "'w \<Rightarrow> 'k \<rightharpoonup> char list"
  fv_open :: "'w \<Rightarrow> handle \<rightharpoonup> 'k \<times> nat"

text \<open>The world looks the same.\<close>

definition same_view :: "('w, 'k) fs_view \<Rightarrow> 'w \<Rightarrow> 'w \<Rightarrow> bool" where
  "same_view v w w' \<longleftrightarrow> fv_files v w' = fv_files v w \<and> fv_open v w' = fv_open v w"

text \<open>A handle became open on a file, at its start.\<close>

definition opened_on :: "('w, 'k) fs_view \<Rightarrow> 'w \<Rightarrow> 'w \<Rightarrow> handle \<Rightarrow> 'k \<Rightarrow> bool" where
  "opened_on v w w' h k \<longleftrightarrow> h \<notin> dom (fv_open v w) \<and> fv_open v w' = (fv_open v w)(h \<mapsto> (k, 0))"

definition law_open :: "'w file_services \<Rightarrow> ('w, 'k) fs_view \<Rightarrow> bool" where
  "law_open fs v \<longleftrightarrow> (\<forall>w name mode. mode = EFI_FILE_MODE_READ \<or> mode = EFI_FILE_MODE_READ OR EFI_FILE_MODE_WRITE \<longrightarrow>
     wp (FileOpen fs (fv_dir v) name mode 0)
       (\<lambda>(status, h) w'. fv_files v w' = fv_files v w \<and>
          (if EFI_ERROR status
           then fv_open v w' = fv_open v w \<and> (status = EFI_NOT_FOUND \<longrightarrow> fv_files v w (fv_key v name) = None)
           else fv_files v w (fv_key v name) \<noteq> None \<and> opened_on v w w' h (fv_key v name))) w)"

definition law_create :: "'w file_services \<Rightarrow> ('w, 'k) fs_view \<Rightarrow> bool" where
  "law_create fs v \<longleftrightarrow> (\<forall>w name.
     wp (FileOpen fs (fv_dir v) name (EFI_FILE_MODE_READ OR EFI_FILE_MODE_WRITE OR EFI_FILE_MODE_CREATE) 0)
       (\<lambda>(status, h) w'.
          (fv_files v w' = fv_files v w \<or>
           fv_files v w (fv_key v name) = None \<and> fv_files v w' = (fv_files v w)(fv_key v name \<mapsto> [])) \<and>
          (if EFI_ERROR status then fv_open v w' = fv_open v w
           else fv_files v w' (fv_key v name) \<noteq> None \<and> opened_on v w w' h (fv_key v name))) w)"

definition law_close :: "'w file_services \<Rightarrow> ('w, 'k) fs_view \<Rightarrow> bool" where
  "law_close fs v \<longleftrightarrow> (\<forall>w h. wp (FileClose fs h)
     (\<lambda>status w'. fv_files v w' = fv_files v w \<and> fv_open v w' = (fv_open v w)(h := None)) w)"

definition law_delete :: "'w file_services \<Rightarrow> ('w, 'k) fs_view \<Rightarrow> bool" where
  "law_delete fs v \<longleftrightarrow> (\<forall>w h k p. fv_open v w h = Some (k, p) \<longrightarrow> wp (FileDelete fs h)
     (\<lambda>status w'. fv_files v w' = (if status = EFI_SUCCESS then (fv_files v w)(k := None) else fv_files v w) \<and>
        fv_open v w' = (fv_open v w)(h := None)) w)"

definition law_read :: "'w file_services \<Rightarrow> ('w, 'k) fs_view \<Rightarrow> bool" where
  "law_read fs v \<longleftrightarrow> (\<forall>w h k p c n. fv_open v w h = Some (k, p) \<and> fv_files v w k = Some c \<longrightarrow> wp (FileRead fs h n)
     (\<lambda>(status, data) w'. fv_files v w' = fv_files v w \<and> (\<exists>p'. fv_open v w' = (fv_open v w)(h \<mapsto> (k, p'))) \<and>
        (\<not> EFI_ERROR status \<longrightarrow> data = take n (drop p c))) w)"

text \<open>Writing inside or at the end of the file.\<close>

definition overwrite :: "char list \<Rightarrow> nat \<Rightarrow> char list \<Rightarrow> char list" where
  "overwrite c p data = take p c @ data @ drop (p + length data) c"

definition law_write :: "'w file_services \<Rightarrow> ('w, 'k) fs_view \<Rightarrow> bool" where
  "law_write fs v \<longleftrightarrow> (\<forall>w h k p c data. fv_open v w h = Some (k, p) \<and> fv_files v w k = Some c \<and> p \<le> length c \<longrightarrow>
     wp (FileWrite fs h data)
     (\<lambda>(status, n) w'. \<exists>c' p'. fv_files v w' = (fv_files v w)(k \<mapsto> c') \<and> fv_open v w' = (fv_open v w)(h \<mapsto> (k, p')) \<and>
        (\<not> EFI_ERROR status \<longrightarrow> n \<le> length data \<and> c' = overwrite c p (take n data))) w)"

definition law_flush :: "'w file_services \<Rightarrow> ('w, 'k) fs_view \<Rightarrow> bool" where
  "law_flush fs v \<longleftrightarrow> (\<forall>w h. wp (FileFlush fs h) (\<lambda>_. same_view v w) w)"

definition law_position :: "'w file_services \<Rightarrow> ('w, 'k) fs_view \<Rightarrow> bool" where
  "law_position fs v \<longleftrightarrow> (\<forall>w h k p. fv_open v w h = Some (k, p) \<longrightarrow> wp (FileSetPosition fs h 0)
     (\<lambda>status w'. fv_files v w' = fv_files v w \<and> fv_open v w' = (fv_open v w)(h \<mapsto> (k, if EFI_ERROR status then p else 0))) w)"

definition law_info :: "'w file_services \<Rightarrow> ('w, 'k) fs_view \<Rightarrow> bool" where
  "law_info fs v \<longleftrightarrow> (\<forall>w h n. wp (FileGetInfo fs h n)
     (\<lambda>(status, _, info) w'. same_view v w w' \<and>
        (\<forall>k p c. \<not> EFI_ERROR status \<and> fv_open v w h = Some (k, p) \<and> fv_files v w k = Some c \<longrightarrow> fi_FileSize info = length c)) w)"

text \<open>Setting the information of a file with its own size renames it, and never onto another file.\<close>

definition law_rename :: "'w file_services \<Rightarrow> ('w, 'k) fs_view \<Rightarrow> bool" where
  "law_rename fs v \<longleftrightarrow> (\<forall>w h k p c info.
     fv_open v w h = Some (k, p) \<and> fv_files v w k = Some c \<and> fi_FileSize info = length c \<longrightarrow> wp (FileSetInfo fs h info)
     (\<lambda>status w'. if EFI_ERROR status then same_view v w w'
        else let k' = fv_key v (fi_FileName info)
             in (k' = k \<or> fv_files v w k' = None) \<and> fv_files v w' = (fv_files v w)(k := None, k' \<mapsto> c) \<and>
                fv_open v w' = (fv_open v w)(h \<mapsto> (k', p))) w)"

definition law_pool :: "'w file_services \<Rightarrow> ('w, 'k) fs_view \<Rightarrow> bool" where
  "law_pool fs v \<longleftrightarrow> (\<forall>w n. wp (AllocateZeroPool fs n) (\<lambda>_. same_view v w) w)"

definition file_laws :: "'w file_services \<Rightarrow> ('w, 'k) fs_view \<Rightarrow> bool" where
  "file_laws fs v \<longleftrightarrow> law_open fs v \<and> law_create fs v \<and> law_close fs v \<and> law_delete fs v \<and> law_read fs v \<and> law_write fs v \<and>
     law_flush fs v \<and> law_position fs v \<and> law_info fs v \<and> law_rename fs v \<and> law_pool fs v"

section \<open>Rules of the weakest precondition\<close>

lemma same_view_refl [simp]: "same_view v w w"
  by (simp add: same_view_def)

lemma same_view_trans: "same_view v w w1 \<Longrightarrow> same_view v w1 w2 \<Longrightarrow> same_view v w w2"
  by (simp add: same_view_def)

lemma opened_on_closed: "opened_on v w w' h k \<Longrightarrow> (fv_open v w')(h := None) = fv_open v w"
  by (cases "fv_open v w h") (auto simp: opened_on_def fun_eq_iff)

text \<open>Rules for one call, each with the facts its continuation may use.\<close>

lemma law_openD:
  assumes "file_laws fs v" and "mode = EFI_FILE_MODE_READ \<or> mode = EFI_FILE_MODE_READ OR EFI_FILE_MODE_WRITE"
    and "\<And>status h w'. EFI_ERROR status \<Longrightarrow> same_view v w w' \<Longrightarrow>
      (status = EFI_NOT_FOUND \<Longrightarrow> fv_files v w (fv_key v name) = None) \<Longrightarrow> Q (status, h) w'"
    and "\<And>status h w' c. \<not> EFI_ERROR status \<Longrightarrow> fv_files v w' = fv_files v w \<Longrightarrow> fv_files v w (fv_key v name) = Some c \<Longrightarrow>
      opened_on v w w' h (fv_key v name) \<Longrightarrow> Q (status, h) w'"
  shows "wp (FileOpen fs (fv_dir v) name mode 0) Q w"
proof -
  have "wp (FileOpen fs (fv_dir v) name mode 0)
       (\<lambda>(status, h) w'. fv_files v w' = fv_files v w \<and>
          (if EFI_ERROR status
           then fv_open v w' = fv_open v w \<and> (status = EFI_NOT_FOUND \<longrightarrow> fv_files v w (fv_key v name) = None)
           else fv_files v w (fv_key v name) \<noteq> None \<and> opened_on v w w' h (fv_key v name))) w"
    using assms(1,2) unfolding file_laws_def law_open_def by blast
  then show ?thesis
  proof (rule wp_mono, goal_cases)
    case (1 r w')
    obtain status h where r: "r = (status, h)" by (cases r)
    show ?case
    proof (cases "EFI_ERROR status")
      case True
      with 1 r assms(3) [of status w' h] show ?thesis by (auto simp: same_view_def)
    next
      case False
      with 1 r obtain c where "fv_files v w (fv_key v name) = Some c" by auto
      with False 1 r assms(4) [of status w' c h] show ?thesis by auto
    qed
  qed
qed

lemma law_createD:
  assumes "file_laws fs v"
    and "\<And>status h w'. EFI_ERROR status \<Longrightarrow> fv_open v w' = fv_open v w \<Longrightarrow>
      fv_files v w' = fv_files v w \<or> fv_files v w (fv_key v name) = None \<and> fv_files v w' = (fv_files v w)(fv_key v name \<mapsto> []) \<Longrightarrow>
      Q (status, h) w'"
    and "\<And>status h w' c. \<not> EFI_ERROR status \<Longrightarrow> fv_files v w' = (fv_files v w)(fv_key v name \<mapsto> c) \<Longrightarrow>
      c = (case fv_files v w (fv_key v name) of None \<Rightarrow> [] | Some c \<Rightarrow> c) \<Longrightarrow> opened_on v w w' h (fv_key v name) \<Longrightarrow> Q (status, h) w'"
  shows "wp (FileOpen fs (fv_dir v) name (EFI_FILE_MODE_READ OR EFI_FILE_MODE_WRITE OR EFI_FILE_MODE_CREATE) 0) Q w"
proof -
  let ?k = "fv_key v name"
  have "wp (FileOpen fs (fv_dir v) name (EFI_FILE_MODE_READ OR EFI_FILE_MODE_WRITE OR EFI_FILE_MODE_CREATE) 0)
       (\<lambda>(status, h) w'. (fv_files v w' = fv_files v w \<or> fv_files v w ?k = None \<and> fv_files v w' = (fv_files v w)(?k \<mapsto> [])) \<and>
          (if EFI_ERROR status then fv_open v w' = fv_open v w else fv_files v w' ?k \<noteq> None \<and> opened_on v w w' h ?k)) w"
    using assms(1) unfolding file_laws_def law_create_def by blast
  then show ?thesis
  proof (rule wp_mono, goal_cases)
    case (1 r w')
    obtain status h where r: "r = (status, h)" by (cases r)
    show ?case
    proof (cases "EFI_ERROR status")
      case True
      with 1 r assms(2) show ?thesis by auto
    next
      case False
      with 1 r obtain c where c: "fv_files v w' ?k = Some c" by auto
      then have "fv_files v w' = (fv_files v w)(?k \<mapsto> c)" "c = (case fv_files v w ?k of None \<Rightarrow> [] | Some c \<Rightarrow> c)"
        using 1 r by (auto simp: fun_eq_iff)
      with False 1 r assms(3) show ?thesis by auto
    qed
  qed
qed

lemma law_closeD:
  assumes "file_laws fs v"
    and "\<And>status w'. fv_files v w' = fv_files v w \<Longrightarrow> fv_open v w' = (fv_open v w)(h := None) \<Longrightarrow> Q status w'"
  shows "wp (FileClose fs h) Q w"
  using assms(1) unfolding file_laws_def law_close_def by (blast intro: wp_mono assms(2))

lemma law_deleteD:
  assumes "file_laws fs v" and "fv_open v w h = Some (k, p)"
    and "\<And>status w'. fv_files v w' = (if status = EFI_SUCCESS then (fv_files v w)(k := None) else fv_files v w) \<Longrightarrow>
      fv_open v w' = (fv_open v w)(h := None) \<Longrightarrow> Q status w'"
  shows "wp (FileDelete fs h) Q w"
  using assms(1,2) unfolding file_laws_def law_delete_def by (blast intro: wp_mono assms(3))

lemma law_delete_at:
  assumes "file_laws fs v" and "map_option fst (fv_open v w h) = Some k"
    and "\<And>status w'. fv_files v w' = (if status = EFI_SUCCESS then (fv_files v w)(k := None) else fv_files v w) \<Longrightarrow>
      fv_open v w' = (fv_open v w)(h := None) \<Longrightarrow> Q status w'"
  shows "wp (FileDelete fs h) Q w"
proof -
  obtain p where "fv_open v w h = Some (k, p)" using assms(2) by auto
  from law_deleteD [OF assms(1) this] assms(3) show ?thesis by blast
qed

lemma law_readD:
  assumes "file_laws fs v" and "fv_open v w h = Some (k, p)" and "fv_files v w k = Some c"
    and "\<And>status data w' p'. fv_files v w' = fv_files v w \<Longrightarrow> fv_open v w' = (fv_open v w)(h \<mapsto> (k, p')) \<Longrightarrow>
      (\<not> EFI_ERROR status \<Longrightarrow> data = take n (drop p c)) \<Longrightarrow> Q (status, data) w'"
  shows "wp (FileRead fs h n) Q w"
proof -
  have "wp (FileRead fs h n) (\<lambda>(status, data) w'. fv_files v w' = fv_files v w \<and> (\<exists>p'. fv_open v w' = (fv_open v w)(h \<mapsto> (k, p'))) \<and>
        (\<not> EFI_ERROR status \<longrightarrow> data = take n (drop p c))) w"
    using assms(1-3) unfolding file_laws_def law_read_def by blast
  then show ?thesis by (rule wp_mono) (auto intro: assms(4))
qed

lemma law_writeD:
  assumes "file_laws fs v" and "fv_open v w h = Some (k, p)" and "fv_files v w k = Some c" and "p \<le> length c"
    and "\<And>status n w' c' p'. fv_files v w' = (fv_files v w)(k \<mapsto> c') \<Longrightarrow> fv_open v w' = (fv_open v w)(h \<mapsto> (k, p')) \<Longrightarrow>
      (\<not> EFI_ERROR status \<Longrightarrow> n \<le> length data \<and> c' = overwrite c p (take n data)) \<Longrightarrow> Q (status, n) w'"
  shows "wp (FileWrite fs h data) Q w"
proof -
  have "wp (FileWrite fs h data) (\<lambda>(status, n) w'. \<exists>c' p'. fv_files v w' = (fv_files v w)(k \<mapsto> c') \<and>
      fv_open v w' = (fv_open v w)(h \<mapsto> (k, p')) \<and> (\<not> EFI_ERROR status \<longrightarrow> n \<le> length data \<and> c' = overwrite c p (take n data))) w"
    using assms(1-4) unfolding file_laws_def law_write_def by blast
  then show ?thesis by (rule wp_mono) (auto intro: assms(5))
qed

lemma law_flushD:
  assumes "file_laws fs v" and "\<And>status w'. same_view v w w' \<Longrightarrow> Q status w'"
  shows "wp (FileFlush fs h) Q w"
  using assms(1) unfolding file_laws_def law_flush_def by (blast intro: wp_mono assms(2))

lemma law_positionD:
  assumes "file_laws fs v" and "fv_open v w h = Some (k, p)"
    and "\<And>status w'. fv_files v w' = fv_files v w \<Longrightarrow>
      fv_open v w' = (fv_open v w)(h \<mapsto> (k, if EFI_ERROR status then p else 0)) \<Longrightarrow> Q status w'"
  shows "wp (FileSetPosition fs h 0) Q w"
  using assms(1,2) unfolding file_laws_def law_position_def by (blast intro: wp_mono assms(3))

lemma law_infoD:
  assumes "file_laws fs v"
    and "\<And>status n' info w'. same_view v w w' \<Longrightarrow>
      (\<And>k p c. \<not> EFI_ERROR status \<Longrightarrow> fv_open v w h = Some (k, p) \<Longrightarrow> fv_files v w k = Some c \<Longrightarrow> fi_FileSize info = length c) \<Longrightarrow>
      Q (status, n', info) w'"
  shows "wp (FileGetInfo fs h n) Q w"
proof -
  have "wp (FileGetInfo fs h n) (\<lambda>(status, _, info) w'. same_view v w w' \<and>
        (\<forall>k p c. \<not> EFI_ERROR status \<and> fv_open v w h = Some (k, p) \<and> fv_files v w k = Some c \<longrightarrow> fi_FileSize info = length c)) w"
    using assms(1) unfolding file_laws_def law_info_def by blast
  then show ?thesis by (rule wp_mono) (auto intro: assms(2))
qed

lemma law_renameD:
  assumes "file_laws fs v" and "fv_open v w h = Some (k, p)" and "fv_files v w k = Some c" and "fi_FileSize info = length c"
    and "\<And>status w'. EFI_ERROR status \<Longrightarrow> same_view v w w' \<Longrightarrow> Q status w'"
    and "\<And>status w' k'. \<not> EFI_ERROR status \<Longrightarrow> k' = fv_key v (fi_FileName info) \<Longrightarrow> k' = k \<or> fv_files v w k' = None \<Longrightarrow>
      fv_files v w' = (fv_files v w)(k := None, k' \<mapsto> c) \<Longrightarrow> fv_open v w' = (fv_open v w)(h \<mapsto> (k', p)) \<Longrightarrow> Q status w'"
  shows "wp (FileSetInfo fs h info) Q w"
proof -
  let ?k = "fv_key v (fi_FileName info)"
  have "wp (FileSetInfo fs h info) (\<lambda>status w'. if EFI_ERROR status then same_view v w w'
        else (?k = k \<or> fv_files v w ?k = None) \<and> fv_files v w' = (fv_files v w)(k := None, ?k \<mapsto> c) \<and>
             fv_open v w' = (fv_open v w)(h \<mapsto> (?k, p))) w"
    using assms(1-4) unfolding file_laws_def law_rename_def Let_def by blast
  then show ?thesis by (rule wp_mono) (auto split: if_splits intro: assms(5,6))
qed

lemma law_poolD:
  assumes "file_laws fs v" and "\<And>ok w'. same_view v w w' \<Longrightarrow> Q ok w'"
  shows "wp (AllocateZeroPool fs n) Q w"
  using assms(1) unfolding file_laws_def law_pool_def by (blast intro: wp_mono assms(2))

end
