(* ===== verification/Ram_Disk.thy ===== *)
theory Ram_Disk
  imports File_Laws
begin

text \<open>
  A directory in memory whose operations satisfy the laws of the file protocol: the concrete
  instance at which the witnesses of the file properties run the model. A handle is an index into a
  table that only grows, so a new handle is never in use.
\<close>

record ram_disk =
  rd_files :: "CHAR16 list \<rightharpoonup> char list"
  rd_handles :: "(CHAR16 list \<times> nat) option list"

definition rd_at :: "ram_disk \<Rightarrow> handle \<Rightarrow> (CHAR16 list \<times> nat) option" where
  "rd_at w h = (if h < length (rd_handles w) then rd_handles w ! h else None)"

definition rd_set :: "handle \<Rightarrow> (CHAR16 list \<times> nat) option \<Rightarrow> ram_disk \<Rightarrow> ram_disk" where
  "rd_set h x w = w\<lparr>rd_handles := (rd_handles w)[h := x]\<rparr>"

definition rd_create :: "UINT64 \<Rightarrow> bool" where
  "rd_create mode \<longleftrightarrow> mode = EFI_FILE_MODE_READ OR EFI_FILE_MODE_WRITE OR EFI_FILE_MODE_CREATE"

definition rd_info :: "ram_disk \<Rightarrow> CHAR16 list \<Rightarrow> EFI_FILE_INFO" where
  "rd_info w k = \<lparr>fi_Size = SIZE_OF_EFI_FILE_INFO + 2 * (length k + 1),
     fi_FileSize = (case rd_files w k of None \<Rightarrow> 0 | Some c \<Rightarrow> length c), fi_Other = 0, fi_FileName = k\<rparr>"

definition ram_services :: "ram_disk file_services" where
  "ram_services = \<lparr>
     FileOpen = (\<lambda>dir name mode attributes. State (\<lambda>w.
       if rd_files w name = None \<and> \<not> rd_create mode then ((EFI_NOT_FOUND, 0), w)
       else ((EFI_SUCCESS, length (rd_handles w)),
             w\<lparr>rd_files := (if rd_files w name = None then (rd_files w)(name \<mapsto> []) else rd_files w),
               rd_handles := rd_handles w @ [Some (name, 0)]\<rparr>))),
     FileClose = (\<lambda>h. State (\<lambda>w. (EFI_SUCCESS, rd_set h None w))),
     FileDelete = (\<lambda>h. State (\<lambda>w. case rd_at w h of
         None \<Rightarrow> (EFI_INVALID_PARAMETER, w)
       | Some (k, p) \<Rightarrow> (EFI_SUCCESS, rd_set h None (w\<lparr>rd_files := (rd_files w)(k := None)\<rparr>)))),
     FileRead = (\<lambda>h n. State (\<lambda>w. case rd_at w h of
         None \<Rightarrow> ((EFI_INVALID_PARAMETER, []), w)
       | Some (k, p) \<Rightarrow> (case rd_files w k of None \<Rightarrow> ((EFI_DEVICE_ERROR, []), w)
           | Some c \<Rightarrow> ((EFI_SUCCESS, take n (drop p c)), rd_set h (Some (k, p + n)) w)))),
     FileWrite = (\<lambda>h data. State (\<lambda>w. case rd_at w h of
         None \<Rightarrow> ((EFI_INVALID_PARAMETER, 0), w)
       | Some (k, p) \<Rightarrow> (case rd_files w k of None \<Rightarrow> ((EFI_DEVICE_ERROR, 0), w)
           | Some c \<Rightarrow> ((EFI_SUCCESS, length data),
               rd_set h (Some (k, p + length data)) (w\<lparr>rd_files := (rd_files w)(k \<mapsto> overwrite c p data)\<rparr>))))),
     FileFlush = (\<lambda>h. State (\<lambda>w. (EFI_SUCCESS, w))),
     FileSetPosition = (\<lambda>h p. State (\<lambda>w. case rd_at w h of
         None \<Rightarrow> (EFI_INVALID_PARAMETER, w)
       | Some (k, q) \<Rightarrow> (EFI_SUCCESS, rd_set h (Some (k, unat p)) w))),
     FileGetPosition = (\<lambda>h. State (\<lambda>w. case rd_at w h of
         None \<Rightarrow> ((EFI_INVALID_PARAMETER, 0), w)
       | Some (k, q) \<Rightarrow> ((EFI_SUCCESS, of_nat q), w))),
     FileGetInfo = (\<lambda>h n. State (\<lambda>w. case rd_at w h of
         None \<Rightarrow> ((EFI_INVALID_PARAMETER, 0, rd_info w []), w)
       | Some (k, q) \<Rightarrow> ((if n < fi_Size (rd_info w k) then EFI_BUFFER_TOO_SMALL else EFI_SUCCESS, fi_Size (rd_info w k), rd_info w k), w))),
     FileSetInfo = (\<lambda>h info. State (\<lambda>w. case rd_at w h of
         None \<Rightarrow> (EFI_INVALID_PARAMETER, w)
       | Some (k, q) \<Rightarrow>
           if fi_FileName info \<noteq> k \<and> rd_files w (fi_FileName info) \<noteq> None then (EFI_ACCESS_DENIED, w)
           else (EFI_SUCCESS, rd_set h (Some (fi_FileName info, q))
                   (w\<lparr>rd_files := (rd_files w)(k := None, fi_FileName info := rd_files w k)\<rparr>)))),
     AllocateZeroPool = (\<lambda>n. State (\<lambda>w. (True, w)))\<rparr>"

definition ram_view :: "(ram_disk, CHAR16 list) fs_view" where
  "ram_view = \<lparr>fv_dir = 0, fv_key = (\<lambda>n. n), fv_files = rd_files, fv_open = rd_at\<rparr>"

lemma rd_at_set: "rd_at (rd_set h x w) = (if h < length (rd_handles w) then (rd_at w)(h := x) else rd_at w)"
  by (auto simp: rd_at_def rd_set_def fun_eq_iff nth_list_update)

lemma rd_at_Some: "rd_at w h = Some x \<Longrightarrow> h < length (rd_handles w)"
  by (simp add: rd_at_def split: if_splits)

lemma rd_at_files [simp]: "rd_at (w\<lparr>rd_files := F\<rparr>) = rd_at w"
  by (simp add: rd_at_def fun_eq_iff)

lemma rd_files_set [simp]: "rd_files (rd_set h x w) = rd_files w"
  by (simp add: rd_set_def)

lemma rd_handles_files [simp]: "rd_handles (w\<lparr>rd_files := F\<rparr>) = rd_handles w"
  by simp

lemma rd_at_append: "rd_at (w\<lparr>rd_files := F, rd_handles := rd_handles w @ [x]\<rparr>) = (rd_at w)(length (rd_handles w) := x)"
  by (auto simp: rd_at_def fun_eq_iff nth_append)

lemma rd_close_None: "\<not> h < length (rd_handles w) \<Longrightarrow> (rd_at w)(h := None) = rd_at w"
  by (auto simp: rd_at_def fun_eq_iff)

lemma rd_fresh: "rd_at w (length (rd_handles w)) = None"
  by (simp add: rd_at_def)

lemmas ram_defs = ram_services_def ram_view_def wp_def same_view_def opened_on_def

lemma ram_laws: "file_laws ram_services ram_view"
proof -
  have modes: "EFI_FILE_MODE_READ \<noteq> (EFI_FILE_MODE_READ OR EFI_FILE_MODE_WRITE OR EFI_FILE_MODE_CREATE)"
    "EFI_FILE_MODE_READ OR EFI_FILE_MODE_WRITE \<noteq> (EFI_FILE_MODE_READ OR EFI_FILE_MODE_WRITE OR EFI_FILE_MODE_CREATE)"
    by (simp_all add: ncv_defs)
  have "law_open ram_services ram_view"
    unfolding law_open_def by (auto simp: ram_defs modes rd_create_def rd_at_append rd_fresh domIff)
  moreover have "law_create ram_services ram_view"
    unfolding law_create_def by (auto simp: ram_defs modes rd_create_def rd_at_append rd_fresh domIff)
  moreover have "law_close ram_services ram_view"
    unfolding law_close_def by (simp add: ram_defs rd_at_set rd_close_None)
  moreover have "law_delete ram_services ram_view"
    unfolding law_delete_def by (auto simp: ram_defs rd_at_set dest: rd_at_Some)
  moreover have "law_read ram_services ram_view"
    unfolding law_read_def by (auto simp: ram_defs rd_at_set dest: rd_at_Some)
  moreover have "law_write ram_services ram_view"
    unfolding law_write_def by (auto simp: ram_defs rd_at_set dest: rd_at_Some)
  moreover have "law_flush ram_services ram_view"
    unfolding law_flush_def by (simp add: ram_defs)
  moreover have "law_position ram_services ram_view"
    unfolding law_position_def by (auto simp: ram_defs rd_at_set dest: rd_at_Some)
  moreover have "law_info ram_services ram_view"
    unfolding law_info_def by (auto simp: ram_defs rd_info_def split: option.splits)
  moreover have "law_rename ram_services ram_view"
    unfolding law_rename_def by (auto simp: ram_defs rd_at_set dest: rd_at_Some)
  moreover have "law_pool ram_services ram_view"
    unfolding law_pool_def by (simp add: ram_defs)
  ultimately show ?thesis unfolding file_laws_def by blast
qed

definition ram_context :: "APP_FILE_CONTEXT option" where
  "ram_context = Some (empty_context\<lparr>af_ImageDirectory := Some 0\<rparr>)"

definition ram_with :: "(string \<times> string) list \<Rightarrow> ram_disk" where
  "ram_with entries = \<lparr>rd_files = map_of (map (\<lambda>(n, c). (L n, c)) entries), rd_handles = []\<rparr>"

end
