(* ===== verification/Config_File.thy ===== *)
theory Config_File
  imports Ram_Disk
begin

text \<open>
  \<open>ConfigFile.c\<close>: bounded reads, verified copies and the replacement of a file through a temporary
  one, over the file protocol of the firmware. The statement of what they keep of the files needs the
  documented behaviour of that protocol, which is the predicate \<open>file_laws\<close> below.
\<close>

definition PROBE_CONFIG_MAX_BYTES :: nat where [ncv_defs]: "PROBE_CONFIG_MAX_BYTES = 65536"

section \<open>The operations\<close>

definition CloseAnd :: "'w file_services \<Rightarrow> handle \<Rightarrow> 'a \<Rightarrow> ('w, 'a) state" where
  "CloseAnd fs h r = do { _ \<leftarrow> FileClose fs h; State_Monad.return r }"

definition DeleteAnd :: "'w file_services \<Rightarrow> handle \<Rightarrow> EFI_STATUS \<Rightarrow> ('w, EFI_STATUS) state" where
  "DeleteAnd fs h status = do { cleanup \<leftarrow> FileDelete fs h; State_Monad.return (if EFI_ERROR cleanup then cleanup else status) }"

definition ReadConfigBytesNamed ::
  "'w file_services \<Rightarrow> APP_FILE_CONTEXT option \<Rightarrow> CHAR16 list option \<Rightarrow> ('w, EFI_STATUS + char list) state" where
  "ReadConfigBytesNamed fs files fileName =
     (if files = None \<or> fileName = None then State_Monad.return (Inl EFI_INVALID_PARAMETER)
      else do {
        (status, h) \<leftarrow> AppFileOpenAdjacent fs files fileName EFI_FILE_MODE_READ 0;
        if EFI_ERROR status then State_Monad.return (Inl status)
        else do {
          (status, infoSize, _) \<leftarrow> FileGetInfo fs h 0;
          if status \<noteq> EFI_BUFFER_TOO_SMALL \<or> infoSize < SIZE_OF_EFI_FILE_INFO then CloseAnd fs h (Inl EFI_COMPROMISED_DATA)
          else do {
            ok \<leftarrow> AllocateZeroPool fs infoSize;
            if \<not> ok then CloseAnd fs h (Inl EFI_OUT_OF_RESOURCES)
            else do {
              (status, _, info) \<leftarrow> FileGetInfo fs h infoSize;
              if EFI_ERROR status \<or> fi_FileSize info > PROBE_CONFIG_MAX_BYTES
              then CloseAnd fs h (Inl (if EFI_ERROR status then status else EFI_BAD_BUFFER_SIZE))
              else do {
                ok \<leftarrow> AllocateZeroPool fs (fi_FileSize info + 1);
                if \<not> ok then CloseAnd fs h (Inl EFI_OUT_OF_RESOURCES)
                else do {
                  (status, data) \<leftarrow> (if fi_FileSize info = 0 then State_Monad.return (EFI_SUCCESS, [])
                                      else FileRead fs h (fi_FileSize info));
                  closeStatus \<leftarrow> FileClose fs h;
                  (let status = (if \<not> EFI_ERROR status then closeStatus else status)
                   in if EFI_ERROR status \<or> length data \<noteq> fi_FileSize info
                      then State_Monad.return (Inl (if EFI_ERROR status then status else EFI_COMPROMISED_DATA))
                      else State_Monad.return (Inr data))
                }
              }
            }
          }
        }
      })"

definition AdjacentFileExists ::
  "'w file_services \<Rightarrow> APP_FILE_CONTEXT option \<Rightarrow> CHAR16 list option \<Rightarrow> ('w, EFI_STATUS \<times> bool) state" where
  "AdjacentFileExists fs files fileName =
     (if files = None \<or> fileName = None then State_Monad.return (EFI_INVALID_PARAMETER, False)
      else do {
        (status, h) \<leftarrow> AppFileOpenAdjacent fs files fileName EFI_FILE_MODE_READ 0;
        if status = EFI_NOT_FOUND then State_Monad.return (EFI_SUCCESS, False)
        else if EFI_ERROR status then State_Monad.return (status, False)
        else do { status \<leftarrow> FileClose fs h; State_Monad.return (status, True) }
      })"

definition DeleteAdjacentIfPresent ::
  "'w file_services \<Rightarrow> APP_FILE_CONTEXT option \<Rightarrow> CHAR16 list option \<Rightarrow> ('w, EFI_STATUS) state" where
  "DeleteAdjacentIfPresent fs files fileName = do {
     (status, h) \<leftarrow> AppFileOpenAdjacent fs files fileName (EFI_FILE_MODE_READ OR EFI_FILE_MODE_WRITE) 0;
     if status = EFI_NOT_FOUND then State_Monad.return EFI_SUCCESS
     else if EFI_ERROR status then State_Monad.return status
     else do {
       status \<leftarrow> FileDelete fs h;
       if status \<noteq> EFI_SUCCESS then State_Monad.return (if EFI_ERROR status then status else EFI_DEVICE_ERROR)
       else do {
         (status, exists) \<leftarrow> AdjacentFileExists fs files fileName;
         State_Monad.return (if EFI_ERROR status then status else if exists then EFI_DEVICE_ERROR else EFI_SUCCESS)
       }
     }
   }"

definition WriteAll :: "'w file_services \<Rightarrow> handle \<Rightarrow> char list \<Rightarrow> ('w, EFI_STATUS) state" where
  "WriteAll fs h txt =
     (if length txt = 0 then State_Monad.return EFI_INVALID_PARAMETER
      else do {
        (status, n) \<leftarrow> FileWrite fs h txt;
        if EFI_ERROR status \<or> n \<noteq> length txt then State_Monad.return (if EFI_ERROR status then status else EFI_DEVICE_ERROR)
        else FileFlush fs h
      })"

definition VerifyOpenFileBytes :: "'w file_services \<Rightarrow> handle \<Rightarrow> char list \<Rightarrow> ('w, EFI_STATUS) state" where
  "VerifyOpenFileBytes fs h expected =
     (if length expected = 0 then State_Monad.return EFI_INVALID_PARAMETER
      else do {
        ok \<leftarrow> AllocateZeroPool fs (length expected);
        if \<not> ok then State_Monad.return EFI_OUT_OF_RESOURCES
        else do {
          status \<leftarrow> FileSetPosition fs h 0;
          if EFI_ERROR status then State_Monad.return status
          else do {
            (status, data) \<leftarrow> FileRead fs h (length expected);
            State_Monad.return (if \<not> EFI_ERROR status \<and> data \<noteq> expected then EFI_COMPROMISED_DATA else status)
          }
        }
      })"

definition RenameOpenAdjacent :: "'w file_services \<Rightarrow> handle \<Rightarrow> CHAR16 list option \<Rightarrow> ('w, EFI_STATUS) state" where
  "RenameOpenAdjacent fs h newName =
     (if newName = None then State_Monad.return EFI_INVALID_PARAMETER
      else case AppFileValidateBaseName newName of
        Inl status \<Rightarrow> State_Monad.return status
      | Inr name \<Rightarrow> do {
          (status, oldSize, _) \<leftarrow> FileGetInfo fs h 0;
          if status \<noteq> EFI_BUFFER_TOO_SMALL \<or> oldSize < SIZE_OF_EFI_FILE_INFO then State_Monad.return EFI_COMPROMISED_DATA
          else do {
            ok \<leftarrow> AllocateZeroPool fs oldSize;
            if \<not> ok then State_Monad.return EFI_OUT_OF_RESOURCES
            else do {
              (status, _, oldInfo) \<leftarrow> FileGetInfo fs h oldSize;
              if EFI_ERROR status then State_Monad.return status
              else let newSize = SIZE_OF_EFI_FILE_INFO + (length name + 1) * 2
                   in do {
                     ok \<leftarrow> AllocateZeroPool fs newSize;
                     if \<not> ok then State_Monad.return EFI_OUT_OF_RESOURCES
                     else do {
                       status \<leftarrow> FileSetInfo fs h (oldInfo\<lparr>fi_Size := newSize, fi_FileName := name\<rparr>);
                       if EFI_ERROR status then State_Monad.return status else FileFlush fs h
                     }
                   }
            }
          }
        })"

text \<open>The part shared by the copies: fill a new file, verify it through the same handle.\<close>

definition FillAndVerify :: "'w file_services \<Rightarrow> handle \<Rightarrow> char list \<Rightarrow> ('w, EFI_STATUS) state" where
  "FillAndVerify fs h original = do {
     status \<leftarrow> (if length original = 0 then FileFlush fs h else WriteAll fs h original);
     if \<not> EFI_ERROR status \<and> length original \<noteq> 0 then VerifyOpenFileBytes fs h original
     else State_Monad.return status
   }"

text \<open>And the second verification, through a fresh handle.\<close>

definition ReadBack :: "'w file_services \<Rightarrow> APP_FILE_CONTEXT option \<Rightarrow> CHAR16 list option \<Rightarrow> char list \<Rightarrow> ('w, EFI_STATUS) state" where
  "ReadBack fs files name original = do {
     r \<leftarrow> ReadConfigBytesNamed fs files name;
     State_Monad.return (case r of Inl status \<Rightarrow> status
       | Inr data \<Rightarrow> if data \<noteq> original then EFI_COMPROMISED_DATA else EFI_SUCCESS)
   }"

definition CREATE_MODE :: UINT64 where
  "CREATE_MODE = EFI_FILE_MODE_READ OR EFI_FILE_MODE_WRITE OR EFI_FILE_MODE_CREATE"

definition WriteRollback ::
  "'w file_services \<Rightarrow> APP_FILE_CONTEXT option \<Rightarrow> CHAR16 list option \<Rightarrow> char list \<Rightarrow> ('w, EFI_STATUS) state" where
  "WriteRollback fs files rollbackName original = do {
     (status, h) \<leftarrow> AppFileOpenAdjacent fs files rollbackName CREATE_MODE 0;
     if EFI_ERROR status then State_Monad.return status
     else do {
       status \<leftarrow> FillAndVerify fs h original;
       if EFI_ERROR status then DeleteAnd fs h status
       else do {
         status \<leftarrow> FileClose fs h;
         if EFI_ERROR status then State_Monad.return status
         else do {
           status \<leftarrow> ReadBack fs files rollbackName original;
           if EFI_ERROR status then do {
             cleanup \<leftarrow> DeleteAdjacentIfPresent fs files rollbackName;
             State_Monad.return (if EFI_ERROR cleanup then cleanup else status)
           } else State_Monad.return EFI_SUCCESS
         }
       }
     }
   }"

definition CreateVerifiedRollbackCopy ::
  "'w file_services \<Rightarrow> APP_FILE_CONTEXT option \<Rightarrow> CHAR16 list option \<Rightarrow> CHAR16 list option \<Rightarrow> ('w, EFI_STATUS) state" where
  "CreateVerifiedRollbackCopy fs files targetName rollbackName =
     (if files = None \<or> targetName = None \<or> rollbackName = None \<or> targetName = rollbackName
      then State_Monad.return EFI_INVALID_PARAMETER
      else do {
        (status, exists) \<leftarrow> AdjacentFileExists fs files rollbackName;
        if EFI_ERROR status then State_Monad.return status
        else if exists then State_Monad.return EFI_ACCESS_DENIED
        else do {
          r \<leftarrow> ReadConfigBytesNamed fs files targetName;
          case r of Inl status \<Rightarrow> State_Monad.return status
          | Inr original \<Rightarrow> WriteRollback fs files rollbackName original
        }
      })"

definition WriteRestored ::
  "'w file_services \<Rightarrow> APP_FILE_CONTEXT option \<Rightarrow> CHAR16 list option \<Rightarrow> char list \<Rightarrow> ('w, EFI_STATUS) state" where
  "WriteRestored fs files targetName original = do {
     (status, h) \<leftarrow> AppFileOpenAdjacent fs files targetName CREATE_MODE 0;
     if EFI_ERROR status then State_Monad.return status
     else do {
       status \<leftarrow> FillAndVerify fs h original;
       if EFI_ERROR status then CloseAnd fs h status
       else do {
         status \<leftarrow> FileClose fs h;
         if EFI_ERROR status then State_Monad.return status
         else ReadBack fs files targetName original
       }
     }
   }"

definition RestoreAdjacentRollback ::
  "'w file_services \<Rightarrow> APP_FILE_CONTEXT option \<Rightarrow> CHAR16 list option \<Rightarrow> CHAR16 list option \<Rightarrow> ('w, EFI_STATUS) state" where
  "RestoreAdjacentRollback fs files targetName rollbackName =
     (if files = None \<or> targetName = None \<or> rollbackName = None \<or> targetName = rollbackName
      then State_Monad.return EFI_INVALID_PARAMETER
      else do {
        r \<leftarrow> ReadConfigBytesNamed fs files rollbackName;
        case r of Inl status \<Rightarrow> State_Monad.return status
        | Inr original \<Rightarrow> do {
            status \<leftarrow> DeleteAdjacentIfPresent fs files targetName;
            if EFI_ERROR status then State_Monad.return status
            else WriteRestored fs files targetName original
          }
      })"

text \<open>The last steps of the replacement: the temporary file takes the target's name.\<close>

definition RenameTemp ::
  "'w file_services \<Rightarrow> APP_FILE_CONTEXT option \<Rightarrow> handle \<Rightarrow> CHAR16 list option \<Rightarrow> bool \<Rightarrow> ('w, EFI_STATUS \<times> bool) state" where
  "RenameTemp fs files h targetName rollbackCreated = do {
     status \<leftarrow> RenameOpenAdjacent fs h targetName;
     if EFI_ERROR status then do { status \<leftarrow> DeleteAnd fs h status; State_Monad.return (status, rollbackCreated) }
     else do {
       status \<leftarrow> FileClose fs h;
       if EFI_ERROR status then State_Monad.return (status, rollbackCreated)
       else do {
         (status, exists) \<leftarrow> AdjacentFileExists fs files targetName;
         State_Monad.return (if EFI_ERROR status then status else if \<not> exists then EFI_DEVICE_ERROR else EFI_SUCCESS, rollbackCreated)
       }
     }
   }"

text \<open>
  The replacement once the temporary file is open and verified. \<open>exists\<close> is what was found out about
  the target before.
\<close>

definition ReplaceTarget ::
  "'w file_services \<Rightarrow> APP_FILE_CONTEXT option \<Rightarrow> handle \<Rightarrow> CHAR16 list option \<Rightarrow> CHAR16 list option \<Rightarrow> bool \<Rightarrow> bool \<Rightarrow>
   ('w, EFI_STATUS \<times> bool) state" where
  "ReplaceTarget fs files h targetName rollbackName targetMustNotExist exists =
     (if targetMustNotExist then do {
        (status, exists) \<leftarrow> AdjacentFileExists fs files targetName;
        if EFI_ERROR status \<or> exists then do {
          cleanup \<leftarrow> FileDelete fs h;
          State_Monad.return (if EFI_ERROR status then status
            else if cleanup \<noteq> EFI_SUCCESS then (if EFI_ERROR cleanup then cleanup else EFI_DEVICE_ERROR)
            else EFI_ACCESS_DENIED, False)
        } else RenameTemp fs files h targetName False
      } else if exists then do {
        status \<leftarrow> CreateVerifiedRollbackCopy fs files targetName rollbackName;
        if EFI_ERROR status then do { status \<leftarrow> DeleteAnd fs h status; State_Monad.return (status, False) }
        else do {
          status \<leftarrow> DeleteAdjacentIfPresent fs files targetName;
          if EFI_ERROR status then do { _ \<leftarrow> FileDelete fs h; State_Monad.return (status, True) }
          else RenameTemp fs files h targetName True
        }
      } else RenameTemp fs files h targetName False)"

text \<open>Writing and verifying the temporary file, then the replacement.\<close>

definition FillTemp ::
  "'w file_services \<Rightarrow> APP_FILE_CONTEXT option \<Rightarrow> CHAR16 list option \<Rightarrow> CHAR16 list option \<Rightarrow> CHAR16 list option \<Rightarrow>
   char list \<Rightarrow> bool \<Rightarrow> bool \<Rightarrow> ('w, EFI_STATUS \<times> bool) state" where
  "FillTemp fs files targetName tempName rollbackName txt targetMustNotExist exists = do {
     (status, h) \<leftarrow> AppFileOpenAdjacent fs files tempName CREATE_MODE 0;
     if EFI_ERROR status then State_Monad.return (status, False)
     else do {
       status \<leftarrow> WriteAll fs h txt;
       if EFI_ERROR status then do { status \<leftarrow> DeleteAnd fs h status; State_Monad.return (status, False) }
       else do {
         status \<leftarrow> VerifyOpenFileBytes fs h txt;
         if EFI_ERROR status then do { status \<leftarrow> DeleteAnd fs h status; State_Monad.return (status, False) }
         else ReplaceTarget fs files h targetName rollbackName targetMustNotExist exists
       }
     }
   }"

text \<open>
  The result is the status and the value of \<open>*RollbackPreserved\<close>, which keeps its old value when the
  parameters are refused.
\<close>

definition WriteAdjacentViaTemp ::
  "'w file_services \<Rightarrow> APP_FILE_CONTEXT option \<Rightarrow> CHAR16 list option \<Rightarrow> CHAR16 list option \<Rightarrow> CHAR16 list option \<Rightarrow>
   char list option \<Rightarrow> bool \<Rightarrow> bool \<Rightarrow> ('w, EFI_STATUS \<times> bool) state" where
  "WriteAdjacentViaTemp fs files targetName tempName rollbackName txt targetMustNotExist rollbackPreserved =
     (if files = None \<or> targetName = None \<or> tempName = None \<or> txt = None \<or> length (the txt) = 0 \<or> targetName = tempName
         \<or> \<not> targetMustNotExist \<and> (rollbackName = None \<or> targetName = rollbackName \<or> tempName = rollbackName)
      then State_Monad.return (EFI_INVALID_PARAMETER, rollbackPreserved)
      else do {
        (status, exists) \<leftarrow> AdjacentFileExists fs files targetName;
        if EFI_ERROR status then State_Monad.return (status, False)
        else if targetMustNotExist \<and> exists then State_Monad.return (EFI_ACCESS_DENIED, False)
        else do {
          (status, rollbackExists) \<leftarrow> (if \<not> targetMustNotExist then AdjacentFileExists fs files rollbackName
                                        else State_Monad.return (EFI_SUCCESS, False));
          if EFI_ERROR status then State_Monad.return (status, False)
          else if rollbackExists then State_Monad.return (EFI_ACCESS_DENIED, False)
          else do {
            status \<leftarrow> DeleteAdjacentIfPresent fs files tempName;
            if EFI_ERROR status then State_Monad.return (status, False)
            else FillTemp fs files targetName tempName rollbackName (the txt) targetMustNotExist exists
          }
        }
      })"

section \<open>What each operation does to the files\<close>

definition in_dir :: "('w, 'k) fs_view \<Rightarrow> APP_FILE_CONTEXT option \<Rightarrow> bool" where
  "in_dir v files \<longleftrightarrow> (\<exists>c. files = Some c \<and> af_ImageDirectory c = Some (fv_dir v))"

lemma open_adjacent [simp]:
  "in_dir v files \<Longrightarrow> safe_name n \<Longrightarrow> AppFileOpenAdjacent fs files (Some n) mode a = FileOpen fs (fv_dir v) n mode a"
  by (auto simp: in_dir_def AppFileOpenAdjacent_def AppFileValidateBaseName_safe)

lemma in_dir_Some [simp]: "in_dir v files \<Longrightarrow> files \<noteq> None"
  by (auto simp: in_dir_def)

lemma exists_wp:
  assumes "file_laws fs v" "in_dir v files" "safe_name n"
    and "\<And>st ex w'. same_view v w w' \<Longrightarrow> (\<not> EFI_ERROR st \<Longrightarrow> ex \<longleftrightarrow> fv_files v w (fv_key v n) \<noteq> None) \<Longrightarrow> Q (st, ex) w'"
  shows "wp (AdjacentFileExists fs files (Some n)) Q w"
  unfolding AdjacentFileExists_def using assms(2,3)
  by (auto intro!: law_openD [OF assms(1)] law_closeD [OF assms(1)] assms(4) simp: same_view_def opened_on_closed)

lemma delete_wp:
  assumes "file_laws fs v" "in_dir v files" "safe_name n"
    and "\<And>st w'. fv_open v w' = fv_open v w \<Longrightarrow>
      fv_files v w' = fv_files v w \<and> (\<not> EFI_ERROR st \<longrightarrow> fv_files v w (fv_key v n) = None) \<or> fv_files v w' = (fv_files v w)(fv_key v n := None) \<Longrightarrow>
      Q st w'"
  shows "wp (DeleteAdjacentIfPresent fs files (Some n)) Q w"
  unfolding DeleteAdjacentIfPresent_def wp_bind open_adjacent [OF assms(2,3)]
proof (rule law_openD [OF assms(1)], goal_cases)
  case (2 st h w')
  then show ?case by (auto intro!: assms(4) simp: same_view_def)
next
  case (3 st h w' c)
  have o: "fv_open v w' h = Some (fv_key v n, 0)" using 3 by (simp add: opened_on_def)
  have closed: "(fv_open v w')(h := None) = fv_open v w" using 3 by (simp add: opened_on_closed)
  have "wp (FileDelete fs h) (\<lambda>st. wp (if st \<noteq> EFI_SUCCESS then State_Monad.return (if EFI_ERROR st then st else EFI_DEVICE_ERROR)
      else do { (st, ex) \<leftarrow> AdjacentFileExists fs files (Some n);
        State_Monad.return (if EFI_ERROR st then st else if ex then EFI_DEVICE_ERROR else EFI_SUCCESS) }) Q) w'"
  proof (rule law_deleteD [OF assms(1) o], goal_cases)
    case (1 st2 w2)
    have "fv_open v w2 = fv_open v w" using 1 closed by simp
    with 1 3 show ?case
      by (cases "st2 = EFI_SUCCESS") (auto intro!: exists_wp [OF assms(1-3)] assms(4) simp: same_view_def)
  qed
  with 3(1) show ?case by auto
qed simp

lemma read_wp:
  assumes "file_laws fs v" "in_dir v files" "safe_name n"
    and "\<And>r w'. same_view v w w' \<Longrightarrow> (case r of Inl st \<Rightarrow> EFI_ERROR st | Inr data \<Rightarrow> fv_files v w (fv_key v n) = Some data) \<Longrightarrow> Q r w'"
  shows "wp (ReadConfigBytesNamed fs files (Some n)) Q w"
  unfolding ReadConfigBytesNamed_def
proof (simp add: open_adjacent [OF assms(2,3)] in_dir_Some [OF assms(2)], rule law_openD [OF assms(1)], goal_cases)
  case (2 st h w1)
  then show ?case by (auto intro!: assms(4) simp: same_view_def)
next
  case (3 st h w1 c)
  let ?k = "fv_key v n"
  have h: "fv_open v w1 = (fv_open v w)(h \<mapsto> (?k, 0))" "fv_open v w h = None"
    using 3(4) by (auto simp: opened_on_def)
  then have fresh: "(fv_open v w)(h := None) = fv_open v w" by (simp add: fun_upd_idem)
  note rd = law_readD [OF assms(1), where k = ?k and p = 0 and c = c]
  from 3(1-3) h show ?case
    by (auto intro!: law_infoD [OF assms(1)] law_poolD [OF assms(1)] rd law_closeD [OF assms(1)] assms(4)
        simp: same_view_def CloseAnd_def fresh split: if_splits)
qed simp

text \<open>Operations through one open handle change only the file of that handle.\<close>

lemma WriteAll_wp:
  assumes "file_laws fs v" "fv_open v w h = Some (k, 0)" "fv_files v w k = Some []"
    and "\<And>st w' c' p'. fv_files v w' = (fv_files v w)(k \<mapsto> c') \<Longrightarrow> fv_open v w' = (fv_open v w)(h \<mapsto> (k, p')) \<Longrightarrow>
      (\<not> EFI_ERROR st \<Longrightarrow> c' = txt) \<Longrightarrow> Q st w'"
  shows "wp (WriteAll fs h txt) Q w"
proof -
  have refl: "fv_files v w = (fv_files v w)(k \<mapsto> [])" "fv_open v w = (fv_open v w)(h \<mapsto> (k, 0))"
    using assms(2,3) by (simp_all add: fun_upd_idem)
  show ?thesis
    unfolding WriteAll_def using assms(2,3)
    by (auto intro!: law_writeD [OF assms(1), where k = k and p = 0 and c = "[]"] law_flushD [OF assms(1)]
        assms(4) assms(4) [OF refl] simp: same_view_def overwrite_def split: if_splits)
qed

text \<open>The handle is still open on its file, at some position; no other handle changed.\<close>

definition at_file :: "('w, 'k) fs_view \<Rightarrow> 'w \<Rightarrow> 'w \<Rightarrow> handle \<Rightarrow> 'k \<Rightarrow> bool" where
  "at_file v w w' h k \<longleftrightarrow> (\<forall>x. x \<noteq> h \<longrightarrow> fv_open v w' x = fv_open v w x) \<and> map_option fst (fv_open v w' h) = Some k"

lemma at_fileD: "at_file v w w' h k \<Longrightarrow> \<exists>p. fv_open v w' = (fv_open v w)(h \<mapsto> (k, p))"
  by (fastforce simp: at_file_def fun_eq_iff)

lemma Verify_wp:
  assumes "file_laws fs v" "fv_open v w h = Some (k, p)" "fv_files v w k = Some c"
    and "\<And>st w' p'. fv_files v w' = fv_files v w \<Longrightarrow> fv_open v w' = (fv_open v w)(h \<mapsto> (k, p')) \<Longrightarrow>
      (\<not> EFI_ERROR st \<Longrightarrow> take (length expected) c = expected) \<Longrightarrow> Q st w'"
  shows "wp (VerifyOpenFileBytes fs h expected) Q w"
proof -
  have "wp (VerifyOpenFileBytes fs h expected) (\<lambda>st w'. fv_files v w' = fv_files v w \<and>
      at_file v w w' h k \<and> (\<not> EFI_ERROR st \<longrightarrow> take (length expected) c = expected)) w"
    unfolding VerifyOpenFileBytes_def using assms(2,3)
    by (auto intro!: law_poolD [OF assms(1)] law_positionD [OF assms(1), where k = k and p = p]
        law_readD [OF assms(1), where k = k and p = 0 and c = c] simp: at_file_def same_view_def split: if_splits)
  then show ?thesis by (rule wp_mono) (auto dest!: at_fileD intro: assms(4))
qed

lemma Fill_wp:
  assumes "file_laws fs v" "fv_open v w h = Some (k, 0)" "fv_files v w k = Some []"
    and "\<And>st w' c' p'. fv_files v w' = (fv_files v w)(k \<mapsto> c') \<Longrightarrow> fv_open v w' = (fv_open v w)(h \<mapsto> (k, p')) \<Longrightarrow>
      (\<not> EFI_ERROR st \<Longrightarrow> c' = original) \<Longrightarrow> Q st w'"
  shows "wp (FillAndVerify fs h original) Q w"
proof (cases "original = []")
  case True
  have refl: "fv_files v w = (fv_files v w)(k \<mapsto> [])" "fv_open v w = (fv_open v w)(h \<mapsto> (k, 0))"
    using assms(2,3) by (simp_all add: fun_upd_idem)
  show ?thesis unfolding FillAndVerify_def using True refl
    by (auto intro!: law_flushD [OF assms(1)] intro: assms(4) simp: same_view_def)
next
  case False
  show ?thesis unfolding FillAndVerify_def
  proof (simp add: False, rule WriteAll_wp [OF assms(1-3)], goal_cases)
    case (1 st w1 c1 p1)
    show ?case
    proof (cases "EFI_ERROR st")
      case True
      then have "Q st w1" by (intro assms(4) [OF 1(1,2)]) simp
      with True show ?thesis by simp
    next
      case no: False
      have "wp (VerifyOpenFileBytes fs h original) Q w1"
      proof (rule Verify_wp [OF assms(1), where k = k and p = p1 and c = c1], goal_cases)
        case (3 st2 w2 p2)
        with 1 no show ?case by (intro assms(4) [of w2 c1 p2]) simp_all
      qed (use 1 in simp_all)
      with no False show ?thesis by simp
    qed
  qed
qed

lemma Rename_wp:
  assumes "file_laws fs v" "fv_open v w h = Some (k, p)" "fv_files v w k = Some c" "safe_name n"
    and "\<And>st w'. EFI_ERROR st \<Longrightarrow> same_view v w w' \<Longrightarrow> Q st w'"
    and "\<And>st w'. fv_key v n = k \<or> fv_files v w (fv_key v n) = None \<Longrightarrow>
      fv_files v w' = (fv_files v w)(k := None, fv_key v n \<mapsto> c) \<Longrightarrow> fv_open v w' = (fv_open v w)(h \<mapsto> (fv_key v n, p)) \<Longrightarrow> Q st w'"
  shows "wp (RenameOpenAdjacent fs h (Some n)) Q w"
proof -
  have "wp (RenameOpenAdjacent fs h (Some n)) (\<lambda>st w'. EFI_ERROR st \<and> same_view v w w' \<or>
      (fv_key v n = k \<or> fv_files v w (fv_key v n) = None) \<and> fv_files v w' = (fv_files v w)(k := None, fv_key v n \<mapsto> c) \<and>
      fv_open v w' = (fv_open v w)(h \<mapsto> (fv_key v n, p))) w"
    unfolding RenameOpenAdjacent_def using assms(2,3,4)
    by (auto intro!: law_infoD [OF assms(1)] law_poolD [OF assms(1)] law_flushD [OF assms(1)]
        law_renameD [OF assms(1), where k = k and p = p and c = c]
        simp: AppFileValidateBaseName_safe same_view_def split: if_splits)
  then show ?thesis by (rule wp_mono) (auto intro: assms(5,6))
qed

lemma ReadBack_wp:
  assumes "file_laws fs v" "in_dir v files" "safe_name n"
    and "\<And>st w'. same_view v w w' \<Longrightarrow> (\<not> EFI_ERROR st \<Longrightarrow> fv_files v w (fv_key v n) = Some original) \<Longrightarrow> Q st w'"
  shows "wp (ReadBack fs files (Some n) original) Q w"
  unfolding ReadBack_def
  by (auto intro!: read_wp [OF assms(1-3)] assms(4) split: sum.splits if_splits)

text \<open>A copy changes only the rollback file, and only one that did not exist.\<close>

lemma WriteRollback_wp:
  assumes "file_laws fs v" "in_dir v files" "safe_name r" "fv_files v w (fv_key v r) = None"
  shows "wp (WriteRollback fs files (Some r) original) (\<lambda>st w'. fv_open v w' = fv_open v w \<and>
      (\<forall>k. k \<noteq> fv_key v r \<longrightarrow> fv_files v w' k = fv_files v w k) \<and>
      (\<not> EFI_ERROR st \<longrightarrow> fv_files v w' = (fv_files v w)(fv_key v r \<mapsto> original))) w"
proof -
  let ?r = "fv_key v r"
  show ?thesis
    unfolding WriteRollback_def CREATE_MODE_def wp_bind open_adjacent [OF assms(2,3)]
  proof (rule law_createD [OF assms(1)], goal_cases)
    case (1 st h w1)
    then show ?case by auto
  next
    case (2 st h w1 c)
    have o: "fv_open v w1 h = Some (?r, 0)" "fv_files v w1 ?r = Some []" using 2 assms(4) by (simp_all add: opened_on_def)
    have fresh: "fv_open v w1 = (fv_open v w)(h \<mapsto> (?r, 0))" "(fv_open v w)(h := None) = fv_open v w"
      using 2(4) by (auto simp: opened_on_def fun_upd_idem)
    note del = law_delete_at [OF assms(1), where k = ?r]
    from 2 o fresh show ?case
      by (auto intro!: Fill_wp [OF assms(1) o] del law_closeD [OF assms(1)] ReadBack_wp [OF assms(1-3)] delete_wp [OF assms(1-3)]
          simp: DeleteAnd_def same_view_def split: if_splits)
  qed
qed

lemma Copy_wp:
  assumes "file_laws fs v" "in_dir v files" "safe_name t" "safe_name r" "fv_key v t \<noteq> fv_key v r"
  shows "wp (CreateVerifiedRollbackCopy fs files (Some t) (Some r)) (\<lambda>st w'. fv_open v w' = fv_open v w \<and>
      (\<forall>k. k \<noteq> fv_key v r \<longrightarrow> fv_files v w' k = fv_files v w k) \<and>
      (fv_files v w (fv_key v r) \<noteq> None \<longrightarrow> fv_files v w' = fv_files v w) \<and>
      (\<not> EFI_ERROR st \<longrightarrow> (\<exists>orig. fv_files v w (fv_key v t) = Some orig \<and> fv_files v w (fv_key v r) = None \<and>
         fv_files v w' = (fv_files v w)(fv_key v r \<mapsto> orig)))) w"
proof -
  have tr: "t \<noteq> r" using assms(5) by auto
  note wr = wp_mono [OF WriteRollback_wp [OF assms(1,2,4)]]
  show ?thesis
    unfolding CreateVerifiedRollbackCopy_def using tr
    by (auto intro!: exists_wp [OF assms(1,2,4)] read_wp [OF assms(1-3)] wr simp: in_dir_Some [OF assms(2)] same_view_def split: sum.splits if_splits)
qed

text \<open>A restore changes only the target, and never the file it reads.\<close>

lemma WriteRestored_wp:
  assumes "file_laws fs v" "in_dir v files" "safe_name t" "fv_files v w (fv_key v t) = None"
  shows "wp (WriteRestored fs files (Some t) original) (\<lambda>st w'. fv_open v w' = fv_open v w \<and>
      (\<forall>k. k \<noteq> fv_key v t \<longrightarrow> fv_files v w' k = fv_files v w k) \<and>
      (\<not> EFI_ERROR st \<longrightarrow> fv_files v w' = (fv_files v w)(fv_key v t \<mapsto> original))) w"
proof -
  let ?t = "fv_key v t"
  show ?thesis
    unfolding WriteRestored_def CREATE_MODE_def wp_bind open_adjacent [OF assms(2,3)]
  proof (rule law_createD [OF assms(1)], goal_cases)
    case (1 st h w1)
    then show ?case by auto
  next
    case (2 st h w1 c)
    have o: "fv_open v w1 h = Some (?t, 0)" "fv_files v w1 ?t = Some []" using 2 assms(4) by (simp_all add: opened_on_def)
    have fresh: "fv_open v w1 = (fv_open v w)(h \<mapsto> (?t, 0))" "(fv_open v w)(h := None) = fv_open v w"
      using 2(4) by (auto simp: opened_on_def fun_upd_idem)
    from 2 o fresh show ?case
      by (auto intro!: Fill_wp [OF assms(1) o] law_closeD [OF assms(1)] ReadBack_wp [OF assms(1-3)]
          simp: CloseAnd_def same_view_def split: if_splits)
  qed
qed

lemma Restore_wp:
  assumes "file_laws fs v" "in_dir v files" "safe_name t" "safe_name r" "fv_key v t \<noteq> fv_key v r"
  shows "wp (RestoreAdjacentRollback fs files (Some t) (Some r)) (\<lambda>st w'. fv_open v w' = fv_open v w \<and>
      (\<forall>k. k \<noteq> fv_key v t \<longrightarrow> fv_files v w' k = fv_files v w k) \<and>
      (\<not> EFI_ERROR st \<longrightarrow> (\<exists>orig. fv_files v w (fv_key v r) = Some orig \<and> fv_files v w' = (fv_files v w)(fv_key v t \<mapsto> orig)))) w"
proof -
  have tr: "t \<noteq> r" using assms(5) by auto
  note wr = wp_mono [OF WriteRestored_wp [OF assms(1-3)]]
  show ?thesis
    unfolding RestoreAdjacentRollback_def using tr assms(5)
    by (auto intro!: read_wp [OF assms(1,2,4)] delete_wp [OF assms(1-3)] wr simp: in_dir_Some [OF assms(2)] same_view_def fun_upd_idem split: sum.splits if_splits)
qed


text \<open>Giving the temporary file its final name touches these two names only.\<close>

lemma RenameTemp_wp:
  assumes "file_laws fs v" "in_dir v files" "safe_name t" "fv_key v t \<noteq> km"
    and "fv_open v w h = Some (km, p)" "fv_files v w km = Some new"
  shows "wp (RenameTemp fs files h (Some t) created) (\<lambda>(st, b) w'. b = created \<and> fv_open v w' = (fv_open v w)(h := None) \<and>
      (\<forall>k. k \<noteq> km \<and> k \<noteq> fv_key v t \<longrightarrow> fv_files v w' k = fv_files v w k) \<and>
      (fv_files v w (fv_key v t) \<noteq> None \<longrightarrow> fv_files v w' (fv_key v t) = fv_files v w (fv_key v t)) \<and>
      (\<not> EFI_ERROR st \<longrightarrow> fv_files v w (fv_key v t) = None \<and> fv_files v w' = (fv_files v w)(km := None, fv_key v t \<mapsto> new))) w"
proof -
  note del = law_delete_at [OF assms(1), where k = km] law_delete_at [OF assms(1), where k = "fv_key v t"]
  show ?thesis
    unfolding RenameTemp_def wp_bind
  proof (rule Rename_wp [OF assms(1,5,6,3)], goal_cases)
    case (1 st w1)
    then show ?case using assms(4,5) by (auto intro!: del(1) simp: DeleteAnd_def same_view_def split: if_splits)
  next
    case (2 st w1)
    then show ?case using assms(4)
      by (auto intro!: del(2) law_closeD [OF assms(1)] exists_wp [OF assms(1-3)] simp: DeleteAnd_def same_view_def split: if_splits)
  qed
qed

text \<open>
  What a replacement guarantees of the files before and after it: \<open>kt\<close>, \<open>km\<close> and \<open>kr\<close> are the keys of
  the target, the temporary and the rollback file.
\<close>

definition replaced ::
  "'k \<Rightarrow> 'k \<Rightarrow> 'k \<Rightarrow> char list \<Rightarrow> bool \<Rightarrow> ('k \<rightharpoonup> char list) \<Rightarrow> EFI_STATUS \<times> bool \<Rightarrow> ('k \<rightharpoonup> char list) \<Rightarrow> bool" where
  "replaced kt km kr txt mustNotExist F result F' \<longleftrightarrow>
     (\<forall>k. k \<noteq> kt \<and> k \<noteq> km \<and> k \<noteq> kr \<longrightarrow> F' k = F k) \<and>
     (F kt \<noteq> None \<longrightarrow> F' kt = F kt \<or> \<not> mustNotExist \<and> F' kr = F kt) \<and>
     (F kr \<noteq> None \<longrightarrow> F' kr = F kr) \<and>
     (snd result \<longrightarrow> F kt \<noteq> None \<and> F' kr = F kt) \<and>
     (\<not> EFI_ERROR (fst result) \<longrightarrow>
        F' kt = Some txt \<and> F' km = None \<and> F' kr = (if mustNotExist then F kr else F kt) \<and> snd result = (F kt \<noteq> None) \<and>
        (mustNotExist \<longrightarrow> F kt = None))"

lemma ReplaceTarget_wp:
  assumes "file_laws fs v" "in_dir v files" "safe_name t" "safe_name r"
    and dist: "fv_key v t \<noteq> km" "fv_key v t \<noteq> fv_key v r" "km \<noteq> fv_key v r"
    and h: "fv_open v w h = Some (km, p)" "fv_files v w km = Some txt"
    and ex: "ex \<longleftrightarrow> fv_files v w (fv_key v t) \<noteq> None" "ex \<Longrightarrow> \<not> must" "\<not> must \<Longrightarrow> fv_files v w (fv_key v r) = None"
  shows "wp (ReplaceTarget fs files h (Some t) (Some r) must ex)
    (\<lambda>res w'. replaced (fv_key v t) km (fv_key v r) txt must (fv_files v w) res (fv_files v w')) w"
proof -
  let ?t = "fv_key v t" and ?r = "fv_key v r"
  note rename = RenameTemp_wp [OF assms(1-3) dist(1), where p = p and new = "txt"]
  note rn = rename [THEN wp_mono]
  note del = law_delete_at [OF assms(1), where k = km]
  show ?thesis
  proof (cases "ex")
    case False
    then have "wp (RenameTemp fs files h (Some t) False)
        (\<lambda>res w'. replaced ?t km ?r txt must (fv_files v w) res (fv_files v w')) w1" if "same_view v w w1" for w1
      using that h dist ex by (intro rn) (auto simp: same_view_def replaced_def split: if_splits)
    with False ex h dist show ?thesis
      unfolding ReplaceTarget_def
      by (auto intro!: exists_wp [OF assms(1-3)] del simp: same_view_def replaced_def split: if_splits)
  next
    case True
    then obtain orig where orig: "fv_files v w ?t = Some orig" and nm: "\<not> must" and none: "fv_files v w ?r = None" using ex by auto
    show ?thesis
      unfolding ReplaceTarget_def using True nm
    proof (simp, intro wp_mono [OF Copy_wp [OF assms(1-4) dist(2)]], goal_cases)
      case (1 st w1)
      show ?case
      proof (cases "EFI_ERROR st")
        case True
        with 1 h dist orig none show ?thesis
          by (auto intro!: del simp: DeleteAnd_def replaced_def split: if_splits)
      next
        case no: False
        then have w1: "fv_files v w1 = (fv_files v w)(?r \<mapsto> orig)" "fv_open v w1 = fv_open v w" using 1 orig by auto
        have "wp (DeleteAdjacentIfPresent fs files (Some t)) (\<lambda>st. wp (if EFI_ERROR st
            then FileDelete fs h \<bind> (\<lambda>_. State_Monad.return (st, True)) else RenameTemp fs files h (Some t) True)
            (\<lambda>res w'. replaced ?t km ?r txt must (fv_files v w) res (fv_files v w'))) w1"
        proof (rule delete_wp [OF assms(1-3)], goal_cases)
          case (1 st2 w2)
          show ?case
          proof (cases "EFI_ERROR st2")
            case True
            with 1 w1 h dist orig none nm show ?thesis
              by (auto intro!: del simp: replaced_def split: if_splits)
          next
            case False
            then have "fv_files v w2 = (fv_files v w)(?r \<mapsto> orig, ?t := None)" using 1 w1 orig dist by auto
            with False 1 w1 h dist orig none nm show ?thesis
              by (auto intro!: rn simp: replaced_def split: if_splits)
          qed
        qed
        with no nm show ?thesis by simp
      qed
    qed
  qed
qed


lemma FillTemp_wp:
  assumes "file_laws fs v" "in_dir v files" "safe_name t" "safe_name m" "safe_name r"
    and dist: "fv_key v t \<noteq> fv_key v m" "fv_key v t \<noteq> fv_key v r" "fv_key v m \<noteq> fv_key v r"
    and none: "fv_files v w (fv_key v m) = None"
    and ex: "ex \<longleftrightarrow> fv_files v w (fv_key v t) \<noteq> None" "ex \<Longrightarrow> \<not> must" "\<not> must \<Longrightarrow> fv_files v w (fv_key v r) = None"
  shows "wp (FillTemp fs files (Some t) (Some m) (Some r) txt must ex)
    (\<lambda>res w'. replaced (fv_key v t) (fv_key v m) (fv_key v r) txt must (fv_files v w) res (fv_files v w')) w"
proof -
  let ?t = "fv_key v t" and ?m = "fv_key v m" and ?r = "fv_key v r"
  note del = law_delete_at [OF assms(1), where k = ?m]
  have frame: "replaced ?t ?m ?r txt must F res F'"
    if "replaced ?t ?m ?r txt must F1 res F'" "\<forall>k. k \<noteq> ?m \<longrightarrow> F1 k = F k" for F F1 res F'
  proof -
    have "F1 ?t = F ?t" "F1 ?r = F ?r" "\<And>k. k \<noteq> ?t \<and> k \<noteq> ?m \<and> k \<noteq> ?r \<Longrightarrow> F1 k = F k" using that(2) dist by simp_all
    with that(1) show ?thesis unfolding replaced_def by simp
  qed
  have fail: "replaced ?t ?m ?r txt must F (st, False) F'" if "EFI_ERROR st" "\<forall>k. k \<noteq> ?m \<longrightarrow> F' k = F k" for st F F'
    using that dist unfolding replaced_def by simp
  show ?thesis
    unfolding FillTemp_def CREATE_MODE_def wp_bind open_adjacent [OF assms(2,4)]
  proof (rule law_createD [OF assms(1)], goal_cases)
    case (1 st h w1)
    then show ?case using none by (auto intro!: fail)
  next
    case (2 st h w1 c)
    have o: "fv_open v w1 h = Some (?m, 0)" "fv_files v w1 ?m = Some []" using 2 none by (simp_all add: opened_on_def)
    have "wp (WriteAll fs h txt) (\<lambda>st. wp (if EFI_ERROR st
          then DeleteAnd fs h st \<bind> (\<lambda>st. State_Monad.return (st, False))
          else VerifyOpenFileBytes fs h txt \<bind> (\<lambda>st. if EFI_ERROR st
            then DeleteAnd fs h st \<bind> (\<lambda>st. State_Monad.return (st, False))
            else ReplaceTarget fs files h (Some t) (Some r) must ex))
        (\<lambda>res w'. replaced ?t ?m ?r txt must (fv_files v w) res (fv_files v w'))) w1"
    proof (rule WriteAll_wp [OF assms(1) o], goal_cases)
      case (1 st2 w2 c2 p2)
      have w2: "\<forall>k. k \<noteq> ?m \<longrightarrow> fv_files v w2 k = fv_files v w k" using 1 2 by simp
      show ?case
      proof (cases "EFI_ERROR st2")
        case True
        with 1 w2 show ?thesis by (auto intro!: del fail simp: DeleteAnd_def split: if_splits)
      next
        case False
        have "wp (VerifyOpenFileBytes fs h txt) (\<lambda>st. wp (if EFI_ERROR st
            then DeleteAnd fs h st \<bind> (\<lambda>st. State_Monad.return (st, False))
            else ReplaceTarget fs files h (Some t) (Some r) must ex)
          (\<lambda>res w'. replaced ?t ?m ?r txt must (fv_files v w) res (fv_files v w'))) w2"
        proof (rule Verify_wp [OF assms(1), where k = ?m and p = p2 and c = c2], goal_cases)
          case (3 st3 w3 p3)
          have w3: "\<forall>k. k \<noteq> ?m \<longrightarrow> fv_files v w3 k = fv_files v w k" "fv_open v w3 h = Some (?m, p3)" "fv_files v w3 ?m = Some txt"
            using 1 3 w2 False by simp_all
          show ?case
          proof (cases "EFI_ERROR st3")
            case True
            with w3 show ?thesis by (auto intro!: del fail simp: DeleteAnd_def split: if_splits)
          next
            case no: False
            have "wp (ReplaceTarget fs files h (Some t) (Some r) must ex)
              (\<lambda>res w'. replaced ?t ?m ?r txt must (fv_files v w3) res (fv_files v w')) w3"
              using w3 dist ex by (intro ReplaceTarget_wp [OF assms(1-3,5) dist]) auto
            with no w3 show ?thesis by (auto intro: wp_mono frame)
          qed
        qed (use 1 in simp_all)
        with False show ?thesis by simp
      qed
    qed
    with 2 show ?case by simp
  qed
qed


lemma WriteAdjacent_wp:
  assumes "file_laws fs v" "in_dir v files" "safe_name t" "safe_name m" "safe_name r" "txt \<noteq> []"
    and dist: "fv_key v t \<noteq> fv_key v m" "fv_key v t \<noteq> fv_key v r" "fv_key v m \<noteq> fv_key v r"
  shows "wp (WriteAdjacentViaTemp fs files (Some t) (Some m) (Some r) (Some txt) must preserved)
    (\<lambda>res w'. replaced (fv_key v t) (fv_key v m) (fv_key v r) txt must (fv_files v w) res (fv_files v w')) w"
proof -
  let ?t = "fv_key v t" and ?m = "fv_key v m" and ?r = "fv_key v r"
  have names: "t \<noteq> m" "t \<noteq> r" "m \<noteq> r" using dist by auto
  have fail: "replaced ?t ?m ?r txt b F (st, False) F'" if "EFI_ERROR st" "F' = F \<or> F' = F(?m := None)" for st F F' b
    using that dist unfolding replaced_def by auto
  have frame: "replaced ?t ?m ?r txt b F res F'"
    if "replaced ?t ?m ?r txt b F1 res F'" "F1 = F \<or> F1 = F(?m := None)" for F F1 res F' b
    using that dist unfolding replaced_def by (auto split: if_splits)
  have rest: "wp (DeleteAdjacentIfPresent fs files (Some m)) (\<lambda>st. wp (if EFI_ERROR st then State_Monad.return (st, False)
        else FillTemp fs files (Some t) (Some m) (Some r) txt b ex)
        (\<lambda>res w'. replaced ?t ?m ?r txt b (fv_files v w) res (fv_files v w'))) w2"
    if w2: "fv_files v w2 = fv_files v w" and ex: "ex \<longleftrightarrow> fv_files v w ?t \<noteq> None" "ex \<Longrightarrow> \<not> b" "\<not> b \<Longrightarrow> fv_files v w ?r = None" for ex w2 b
  proof (rule delete_wp [OF assms(1,2,4)], goal_cases)
    case (1 st w3)
    show ?case
    proof (cases "EFI_ERROR st")
      case True
      with 1 w2 show ?thesis by (auto intro!: fail)
    next
      case False
      then have w3: "fv_files v w3 = fv_files v w \<or> fv_files v w3 = (fv_files v w)(?m := None)" "fv_files v w3 ?m = None"
        using 1 w2 by auto
      have "wp (FillTemp fs files (Some t) (Some m) (Some r) txt b ex)
          (\<lambda>res w'. replaced ?t ?m ?r txt b (fv_files v w3) res (fv_files v w')) w3"
        using w3 ex dist by (intro FillTemp_wp [OF assms(1-5) dist]) auto
      then show ?thesis using False w3(1) by (auto intro: wp_mono frame)
    qed
  qed
  show ?thesis
    unfolding WriteAdjacentViaTemp_def option.sel using names assms(6)
    by (cases must rule: bool.exhaust; hypsubst) (auto intro!: exists_wp [OF assms(1-3)] exists_wp [OF assms(1,2,5)] rest fail
        simp: in_dir_Some [OF assms(2)] same_view_def split: if_splits)
qed


section \<open>Properties\<close>

text \<open>
  C12. Replacing a file never loses its contents. Whatever the firmware answers, as far as it follows
  the documented file protocol, after \<open>WriteAdjacentViaTemp\<close>: no file but the target, the temporary
  and the rollback file has changed; the bytes of an existing target are still in the target or, when
  it may be replaced, in the rollback file; an existing rollback file is untouched; \<open>RollbackPreserved\<close> is
  only reported when the rollback file holds the old bytes; and success means that the target holds
  exactly the new text, the temporary file is gone, the old target, if any, is the rollback file, and a
  target that must not exist did not.
\<close>

theorem WriteAdjacentViaTemp_preserves:
  assumes "file_laws fs v" and "in_dir v files" and "safe_name t" and "safe_name m" and "safe_name r" and "txt \<noteq> []"
    and "fv_key v t \<noteq> fv_key v m" and "fv_key v t \<noteq> fv_key v r" and "fv_key v m \<noteq> fv_key v r"
    and "run_state (WriteAdjacentViaTemp fs files (Some t) (Some m) (Some r) (Some txt) must preserved) w = (res, w')"
  shows "replaced (fv_key v t) (fv_key v m) (fv_key v r) txt must (fv_files v w) res (fv_files v w')"
  using wp_run [OF WriteAdjacent_wp [OF assms(1-9)] assms(10)] .

text \<open>
  C39. A replacement can be undone: when \<open>RestoreAdjacentRollback\<close> succeeds in any later state that still
  has the rollback file of a replacement, the target holds its original bytes again; and whatever its
  outcome, it changes no file but the target, so the rollback file still holds them.
\<close>

theorem replace_restore_roundtrip:
  assumes "file_laws fs v" and "in_dir v files" and "safe_name t" and "safe_name m" and "safe_name r" and "txt \<noteq> []"
    and "fv_key v t \<noteq> fv_key v m" and "fv_key v t \<noteq> fv_key v r" and "fv_key v m \<noteq> fv_key v r"
    and "run_state (WriteAdjacentViaTemp fs files (Some t) (Some m) (Some r) (Some txt) False preserved) w = ((status, True), w1)"
    and "fv_files v w2 (fv_key v r) = fv_files v w1 (fv_key v r)"
    and "run_state (RestoreAdjacentRollback fs files (Some t) (Some r)) w2 = (status2, w3)"
  shows "fv_files v w3 (fv_key v r) = fv_files v w (fv_key v t) \<and>
    (\<forall>k. k \<noteq> fv_key v t \<longrightarrow> fv_files v w3 k = fv_files v w2 k) \<and>
    (\<not> EFI_ERROR status2 \<longrightarrow> fv_files v w3 (fv_key v t) = fv_files v w (fv_key v t))"
proof -
  have "fv_files v w1 (fv_key v r) = fv_files v w (fv_key v t)"
    using wp_run [OF WriteAdjacent_wp [OF assms(1-9)] assms(10)] by (simp add: replaced_def)
  moreover note wp_run [OF Restore_wp [OF assms(1,2,3,5,8)] assms(12)]
  ultimately show ?thesis using assms(8,11) by auto
qed

section \<open>Witnesses\<close>

lemma config_names_safe:
  "safe_name (L ''Config.ini'')" "safe_name (L ''Config.ini.tmp'')" "safe_name (L ''Config.ini.previous'')"
  by (simp_all add: safe_name_def L_def ForbiddenCharacter_def)

lemma ram_context_Some [simp]: "ram_context \<noteq> None"
  by (simp add: ram_context_def)

lemma ram_in_dir [simp]: "in_dir ram_view ram_context"
  by (simp add: in_dir_def ram_context_def ram_view_def)

text \<open>One call on a directory in memory, for every table of handles.\<close>

abbreviation ram :: "(CHAR16 list \<rightharpoonup> char list) \<Rightarrow> (CHAR16 list \<times> nat) option list \<Rightarrow> ram_disk" where
  "ram F H \<equiv> \<lparr>rd_files = F, rd_handles = H\<rparr>"

lemma ram_open:
  "safe_name n \<Longrightarrow> run_state (AppFileOpenAdjacent ram_services ram_context (Some n) mode a) (ram F H) =
     (if F n = None \<and> \<not> rd_create mode then ((EFI_NOT_FOUND, 0), ram F H)
      else ((EFI_SUCCESS, length H), ram (if F n = None then F(n \<mapsto> []) else F) (H @ [Some (n, 0)])))"
  by (simp add: AppFileOpenAdjacent_def ram_context_def AppFileValidateBaseName_safe) (simp add: ram_services_def)

lemma ram_close: "run_state (FileClose ram_services h) (ram F H) = (EFI_SUCCESS, ram F (H[h := None]))"
  by (simp add: ram_services_def rd_set_def)

lemma ram_modes [simp]: "\<not> rd_create EFI_FILE_MODE_READ" "\<not> rd_create (EFI_FILE_MODE_READ OR EFI_FILE_MODE_WRITE)" "rd_create CREATE_MODE"
  by (simp_all add: rd_create_def CREATE_MODE_def ncv_defs)

lemma ram_exists:
  "safe_name n \<Longrightarrow> run_state (AdjacentFileExists ram_services ram_context (Some n)) (ram F H) =
     (if F n = None then ((EFI_SUCCESS, False), ram F H) else ((EFI_SUCCESS, True), ram F (H @ [None])))"
  by (simp add: AdjacentFileExists_def ram_open ram_close)

lemma ram_file_delete:
  "h < length H \<Longrightarrow> H ! h = Some (k, p) \<Longrightarrow> run_state (FileDelete ram_services h) (ram F H) = (EFI_SUCCESS, ram (F(k := None)) (H[h := None]))"
  by (simp add: ram_services_def rd_at_def rd_set_def)

lemma ram_delete:
  "safe_name n \<Longrightarrow> run_state (DeleteAdjacentIfPresent ram_services ram_context (Some n)) (ram F H) =
     (if F n = None then (EFI_SUCCESS, ram F H) else (EFI_SUCCESS, ram (F(n := None)) (H @ [None])))"
  by (simp add: DeleteAdjacentIfPresent_def ram_open ram_exists ram_file_delete)

lemma ram_read:
  "safe_name n \<Longrightarrow> F n = Some c \<Longrightarrow> length c \<le> 65536 \<Longrightarrow>
   run_state (ReadConfigBytesNamed ram_services ram_context (Some n)) (ram F H) = (Inr c, ram F (H @ [None]))"
  by (simp add: ReadConfigBytesNamed_def ram_open ram_close)
    (simp add: ram_services_def rd_at_def rd_set_def rd_info_def ncv_defs ram_context_def)

lemma ram_writeall:
  "H ! h = Some (n, 0) \<Longrightarrow> h < length H \<Longrightarrow> F n = Some [] \<Longrightarrow> txt \<noteq> [] \<Longrightarrow>
   run_state (WriteAll ram_services h txt) (ram F H) = (EFI_SUCCESS, ram (F(n \<mapsto> txt)) (H[h := Some (n, length txt)]))"
  by (simp add: WriteAll_def ram_services_def rd_at_def rd_set_def overwrite_def)

lemma ram_verify:
  "H ! h = Some (n, p) \<Longrightarrow> h < length H \<Longrightarrow> F n = Some txt \<Longrightarrow> txt \<noteq> [] \<Longrightarrow>
   run_state (VerifyOpenFileBytes ram_services h txt) (ram F H) = (EFI_SUCCESS, ram F (H[h := Some (n, length txt)]))"
  by (simp add: VerifyOpenFileBytes_def ram_services_def rd_at_def rd_set_def)

lemma ram_rename:
  "H ! h = Some (n, p) \<Longrightarrow> h < length H \<Longrightarrow> F n = Some c \<Longrightarrow> F n' = None \<Longrightarrow> safe_name n' \<Longrightarrow>
   run_state (RenameOpenAdjacent ram_services h (Some n')) (ram F H) =
     (EFI_SUCCESS, ram (F(n := None, n' \<mapsto> c)) (H[h := Some (n', p)]))"
  by (simp add: RenameOpenAdjacent_def AppFileValidateBaseName_safe)
    (simp add: ram_services_def rd_at_def rd_set_def rd_info_def ncv_defs)

lemma ram_rollback:
  "safe_name r \<Longrightarrow> F r = None \<Longrightarrow> c \<noteq> [] \<Longrightarrow> length c \<le> 65536 \<Longrightarrow>
   run_state (WriteRollback ram_services ram_context (Some r) c) (ram F H) = (EFI_SUCCESS, ram (F(r \<mapsto> c)) (H @ [None, None]))"
  by (simp add: WriteRollback_def FillAndVerify_def ReadBack_def ram_open ram_writeall ram_verify ram_close ram_read list_update_append)

lemma ram_restored:
  "safe_name t \<Longrightarrow> F t = None \<Longrightarrow> c \<noteq> [] \<Longrightarrow> length c \<le> 65536 \<Longrightarrow>
   run_state (WriteRestored ram_services ram_context (Some t) c) (ram F H) = (EFI_SUCCESS, ram (F(t \<mapsto> c)) (H @ [None, None]))"
  by (simp add: WriteRestored_def FillAndVerify_def ReadBack_def ram_open ram_writeall ram_verify ram_close ram_read list_update_append)

text \<open>Replacing \<open>Config.ini\<close> on such a directory, and restoring it.\<close>

lemma ram_replace:
  assumes "safe_name t" "safe_name m" "safe_name r" "t \<noteq> m" "t \<noteq> r" "m \<noteq> r" "F t = Some old" "F m = None" "F r = None"
    and "old \<noteq> []" "length old \<le> 65536" "txt \<noteq> []"
  shows "\<exists>H'. run_state (WriteAdjacentViaTemp ram_services ram_context (Some t) (Some m) (Some r) (Some txt) False preserved) (ram F H) =
    ((EFI_SUCCESS, True), ram (F(r \<mapsto> old, t \<mapsto> txt)) H')"
proof -
  have "F(m := None) = F" using assms(8) by (simp add: fun_upd_idem)
  then have "F(m \<mapsto> txt, r \<mapsto> old, t := None, m := None, t \<mapsto> txt) = F(r \<mapsto> old, t \<mapsto> txt)"
    using assms(4-6) by (simp add: fun_upd_twist)
  then show ?thesis
    using assms by (simp add: WriteAdjacentViaTemp_def FillTemp_def ReplaceTarget_def RenameTemp_def CreateVerifiedRollbackCopy_def
        ram_exists ram_delete ram_open ram_writeall ram_verify ram_read ram_rollback ram_rename ram_close list_update_append nth_append)
qed

lemma ram_restore:
  assumes "safe_name t" "safe_name r" "t \<noteq> r" "F t \<noteq> None" "F r = Some c" "c \<noteq> []" "length c \<le> 65536"
  shows "\<exists>H'. run_state (RestoreAdjacentRollback ram_services ram_context (Some t) (Some r)) (ram F H) = (EFI_SUCCESS, ram (F(t \<mapsto> c)) H')"
proof -
  show ?thesis
    using assms by (simp add: RestoreAdjacentRollback_def ram_read ram_delete ram_restored)
qed


abbreviation "config \<equiv> L ''Config.ini''"
abbreviation "config_tmp \<equiv> L ''Config.ini.tmp''"
abbreviation "config_previous \<equiv> L ''Config.ini.previous''"

lemma config_names_distinct [simp]: "config \<noteq> config_tmp" "config \<noteq> config_previous" "config_tmp \<noteq> config_previous"
  by (simp_all add: L_inject)

lemma sample_replace:
  "\<exists>H. run_state (WriteAdjacentViaTemp ram_services ram_context (Some config) (Some config_tmp) (Some config_previous)
     (Some ''new'') False False) (ram [config \<mapsto> ''old''] []) =
   ((EFI_SUCCESS, True), ram [config \<mapsto> ''old'', config_previous \<mapsto> ''old'', config \<mapsto> ''new''] H)"
  using ram_replace [OF config_names_safe config_names_distinct, where F = "[config \<mapsto> ''old'']" and old = "''old''" and H = "[]"]
  by (simp add: L_inject)

lemma ram_keys: "fv_key ram_view n = n" "fv_files ram_view w = rd_files w"
  by (simp_all add: ram_view_def)

theorem WriteAdjacentViaTemp_preserves_witness:
  "\<exists>w'. run_state (WriteAdjacentViaTemp ram_services ram_context (Some config) (Some config_tmp) (Some config_previous)
     (Some ''new'') False False) (ram [config \<mapsto> ''old''] []) = ((EFI_SUCCESS, True), w') \<and>
   rd_files w' config = Some ''new'' \<and> rd_files w' config_tmp = None \<and> rd_files w' config_previous = Some ''old''"
proof -
  obtain w' where run: "run_state (WriteAdjacentViaTemp ram_services ram_context (Some config) (Some config_tmp) (Some config_previous)
     (Some ''new'') False False) (ram [config \<mapsto> ''old''] []) = ((EFI_SUCCESS, True), w')"
    using sample_replace by blast
  have "replaced config config_tmp config_previous ''new'' False [config \<mapsto> ''old''] (EFI_SUCCESS, True) (rd_files w')"
    using WriteAdjacentViaTemp_preserves [OF ram_laws ram_in_dir config_names_safe _ _ _ _ run] by (simp add: ram_keys)
  with run show ?thesis by (simp add: replaced_def)
qed

theorem replace_restore_roundtrip_witness:
  "\<exists>w1 w3. run_state (WriteAdjacentViaTemp ram_services ram_context (Some config) (Some config_tmp) (Some config_previous)
     (Some ''new'') False False) (ram [config \<mapsto> ''old''] []) = ((EFI_SUCCESS, True), w1) \<and>
   run_state (RestoreAdjacentRollback ram_services ram_context (Some config) (Some config_previous)) w1 = (EFI_SUCCESS, w3) \<and>
   rd_files w3 config = Some ''old''"
proof -
  let ?w = "ram [config \<mapsto> ''old''] []"
  obtain H where run: "run_state (WriteAdjacentViaTemp ram_services ram_context (Some config) (Some config_tmp) (Some config_previous)
     (Some ''new'') False False) ?w = ((EFI_SUCCESS, True), ram [config \<mapsto> ''old'', config_previous \<mapsto> ''old'', config \<mapsto> ''new''] H)"
    using sample_replace by blast
  obtain w3 where undo: "run_state (RestoreAdjacentRollback ram_services ram_context (Some config) (Some config_previous))
     (ram [config \<mapsto> ''old'', config_previous \<mapsto> ''old'', config \<mapsto> ''new''] H) = (EFI_SUCCESS, w3)"
    using ram_restore [OF config_names_safe(1,3), where F = "[config \<mapsto> ''old'', config_previous \<mapsto> ''old'', config \<mapsto> ''new'']"
        and H = H and c = "''old''"] by (auto simp: L_inject)
  have "rd_files w3 config = rd_files ?w config"
    using replace_restore_roundtrip [OF ram_laws ram_in_dir config_names_safe _ _ _ _ run refl undo] by (simp add: ram_keys)
  with run undo show ?thesis by auto
qed

end
