(* ===== verification/Console_Input.thy ===== *)
theory Console_Input
  imports Firmware_Monad
begin

text \<open>
  The keyboard and the timer of the firmware, as operations over the world. \<open>KeyWaitable\<close> and
  \<open>KeyReadable\<close> are the NULL tests of \<open>gST->ConIn\<close> and of the member that is about to be called;
  they are evaluated at every use because the firmware owns these pointers. Loops that may wait for
  ever take a number of polls and return \<open>None\<close> when it is used up.
\<close>

record EFI_INPUT_KEY =
  ScanCode :: NCV_U16
  UnicodeChar :: CHAR16

definition SCAN_F2 :: NCV_U16 where [ncv_defs]: "SCAN_F2 = 0x0C"
definition SCAN_ESC :: NCV_U16 where [ncv_defs]: "SCAN_ESC = 0x17"

record 'w console_services =
  KeyWaitable :: "('w, bool) state"
  KeyReadable :: "('w, bool) state"
  WaitForKey :: "('w, EFI_STATUS) state"
  ReadKeyStroke :: "('w, EFI_STATUS \<times> EFI_INPUT_KEY) state"
  Stall :: "nat \<Rightarrow> ('w, EFI_STATUS) state"

definition no_key :: EFI_INPUT_KEY where
  "no_key = \<lparr>ScanCode = 0, UnicodeChar = 0\<rparr>"

definition is_char :: "EFI_INPUT_KEY \<Rightarrow> char \<Rightarrow> bool" where
  "is_char key c \<longleftrightarrow> UnicodeChar key = of_nat (ord c)"

definition is_escape :: "EFI_INPUT_KEY \<Rightarrow> bool" where
  "is_escape key \<longleftrightarrow> ScanCode key = SCAN_ESC \<or> UnicodeChar key = 0x1b"

text \<open>Waiting for one key (\<open>ReadKey\<close> of \<open>ConfigRecovery.c\<close>).\<close>

fun ReadKeyLoop :: "nat \<Rightarrow> 'w console_services \<Rightarrow> ('w, (EFI_STATUS \<times> EFI_INPUT_KEY) option) state" where
  "ReadKeyLoop 0 cs = State_Monad.return None"
| "ReadKeyLoop (Suc polls) cs = do {
     status \<leftarrow> WaitForKey cs;
     if EFI_ERROR status then State_Monad.return (Some (status, no_key))
     else do {
       (status, key) \<leftarrow> ReadKeyStroke cs;
       if status = EFI_NOT_READY then ReadKeyLoop polls cs else State_Monad.return (Some (status, key))
     }
   }"

definition ReadKey :: "nat \<Rightarrow> 'w console_services \<Rightarrow> ('w, (EFI_STATUS \<times> EFI_INPUT_KEY) option) state" where
  "ReadKey polls cs = do {
     ok \<leftarrow> KeyWaitable cs;
     if \<not> ok then State_Monad.return (Some (EFI_UNSUPPORTED, no_key)) else ReadKeyLoop polls cs
   }"

end
