(* ===== verification/Config_Recovery.thy ===== *)
theory Config_Recovery
  imports Config_File Console_Input Config_Lines
begin

text \<open>
  \<open>ConfigRecovery.c\<close>: which of the three configuration files can be used, the recovery of a validated
  backup after an explicit key, and the preservation of failed files before a fresh setup. Console
  output is not modelled.
\<close>

definition ConfigNames :: "CHAR16 list list" where
  "ConfigNames = [L ''Config.ini'', L ''Config.ini.previous'', L ''Config.ini.tmp'']"

section \<open>Operations\<close>

definition ConfigReadUsable ::
  "'w file_services \<Rightarrow> APP_FILE_CONTEXT option \<Rightarrow> CHAR16 list \<Rightarrow> ('w, EFI_STATUS + char list) state" where
  "ConfigReadUsable fs files name = do {
     r \<leftarrow> ReadConfigBytesNamed fs files (Some name);
     case r of Inl status \<Rightarrow> State_Monad.return (Inl status)
     | Inr bytes \<Rightarrow>
         case NcvParseConfigStrict (Some bytes) (Some NcvConfigDefaults) of
           Inl _ \<Rightarrow> State_Monad.return (Inl EFI_COMPROMISED_DATA)
         | Inr core \<Rightarrow>
             if length bytes = 0 then State_Monad.return (Inl EFI_COMPROMISED_DATA)
             else if \<not> c_HasProbe core then State_Monad.return (Inl EFI_COMPROMISED_DATA)
             else if fst (NcvValidateConfigMode (Some core)) \<noteq> NcvConfigSuccess then State_Monad.return (Inl EFI_COMPROMISED_DATA)
             else State_Monad.return (Inr bytes)
   }"

text \<open>The loop that waits for the decision: \<open>EFI_SUCCESS\<close> is the key that confirms the recovery.\<close>

fun RecoverChoice :: "nat \<Rightarrow> nat \<Rightarrow> 'w console_services \<Rightarrow> ('w, EFI_STATUS option) state" where
  "RecoverChoice 0 polls cs = State_Monad.return None"
| "RecoverChoice (Suc keys) polls cs = do {
     r \<leftarrow> ReadKey polls cs;
     case r of None \<Rightarrow> State_Monad.return None
     | Some (status, key) \<Rightarrow>
         if EFI_ERROR status then State_Monad.return (Some status)
         else if is_escape key then State_Monad.return (Some EFI_ABORTED)
         else if is_char key CHR ''r'' \<or> is_char key CHR ''R'' then State_Monad.return (Some EFI_SUCCESS)
         else RecoverChoice keys polls cs
   }"

text \<open>The loop over the backups; \<open>status\<close> is the failure reported so far.\<close>

fun RecoverLoop ::
  "nat \<Rightarrow> 'w console_services \<Rightarrow> 'w file_services \<Rightarrow> APP_FILE_CONTEXT option \<Rightarrow> CHAR16 list list \<Rightarrow> EFI_STATUS \<Rightarrow>
   ('w, (EFI_STATUS + char list) option) state" where
  "RecoverLoop fuel cs fs files [] status = State_Monad.return (Some (Inl status))"
| "RecoverLoop fuel cs fs files (name # names) status = do {
     r \<leftarrow> ConfigReadUsable fs files name;
     case r of
       Inr _ \<Rightarrow> do {
         choice \<leftarrow> RecoverChoice fuel fuel cs;
         case choice of None \<Rightarrow> State_Monad.return None
         | Some decision \<Rightarrow>
             if decision \<noteq> EFI_SUCCESS then State_Monad.return (Some (Inl decision))
             else do {
               restored \<leftarrow> RestoreAdjacentRollback fs files (Some (ConfigNames ! 0)) (Some name);
               if EFI_ERROR restored then State_Monad.return (Some (Inl restored))
               else do { r \<leftarrow> ConfigReadUsable fs files (ConfigNames ! 0); State_Monad.return (Some r) }
             }
       }
     | Inl backup \<Rightarrow>
         RecoverLoop fuel cs fs files names
           (if backup \<noteq> EFI_NOT_FOUND \<and> status = EFI_NOT_FOUND then EFI_COMPROMISED_DATA else status)
   }"

definition ConfigLoadRecoverable ::
  "nat \<Rightarrow> 'w console_services \<Rightarrow> 'w file_services \<Rightarrow> APP_FILE_CONTEXT option \<Rightarrow> ('w, (EFI_STATUS + char list) option) state" where
  "ConfigLoadRecoverable fuel cs fs files = do {
     r \<leftarrow> ConfigReadUsable fs files (ConfigNames ! 0);
     case r of Inr bytes \<Rightarrow> State_Monad.return (Some (Inr bytes))
     | Inl status \<Rightarrow> RecoverLoop fuel cs fs files (drop 1 ConfigNames) status
   }"

text \<open>\<open>UnicodeSPrint (SavedName, ..., L"%s.invalid-%02u", Name, Number)\<close> for a number below 100.\<close>

definition SavedName :: "CHAR16 list \<Rightarrow> nat \<Rightarrow> CHAR16 list" where
  "SavedName name number = name @ L ''.invalid-'' @ [of_nat (0x30 + number div 10), of_nat (0x30 + number mod 10)]"

text \<open>The search for a free number; \<open>Inr None\<close> when all are taken.\<close>

fun FindSavedName ::
  "'w file_services \<Rightarrow> APP_FILE_CONTEXT option \<Rightarrow> CHAR16 list \<Rightarrow> nat list \<Rightarrow> ('w, EFI_STATUS + nat option) state" where
  "FindSavedName fs files name [] = State_Monad.return (Inr None)"
| "FindSavedName fs files name (number # numbers) = do {
     (status, exists) \<leftarrow> AdjacentFileExists fs files (Some (SavedName name number));
     if EFI_ERROR status then State_Monad.return (Inl status)
     else if \<not> exists then State_Monad.return (Inr (Some number))
     else FindSavedName fs files name numbers
   }"

text \<open>One iteration of the first loop; returns whether the file was present.\<close>

definition PreserveOne ::
  "'w file_services \<Rightarrow> APP_FILE_CONTEXT option \<Rightarrow> CHAR16 list \<Rightarrow> ('w, EFI_STATUS + bool) state" where
  "PreserveOne fs files name = do {
     (status, wasPresent) \<leftarrow> AdjacentFileExists fs files (Some name);
     if EFI_ERROR status then State_Monad.return (Inl status)
     else if \<not> wasPresent then State_Monad.return (Inr False)
     else do {
       r \<leftarrow> FindSavedName fs files name [1..<100];
       case r of Inl status \<Rightarrow> State_Monad.return (Inl status)
       | Inr None \<Rightarrow> State_Monad.return (Inl EFI_VOLUME_FULL)
       | Inr (Some number) \<Rightarrow> do {
           status \<leftarrow> CreateVerifiedRollbackCopy fs files (Some name) (Some (SavedName name number));
           State_Monad.return (if EFI_ERROR status then Inl status else Inr True)
         }
     }
   }"

fun PreserveLoop ::
  "'w file_services \<Rightarrow> APP_FILE_CONTEXT option \<Rightarrow> CHAR16 list list \<Rightarrow> ('w, EFI_STATUS + bool list) state" where
  "PreserveLoop fs files [] = State_Monad.return (Inr [])"
| "PreserveLoop fs files (name # names) = do {
     r \<leftarrow> PreserveOne fs files name;
     case r of Inl status \<Rightarrow> State_Monad.return (Inl status)
     | Inr wasPresent \<Rightarrow> do {
         rest \<leftarrow> PreserveLoop fs files names;
         State_Monad.return (case rest of Inl status \<Rightarrow> Inl status | Inr ps \<Rightarrow> Inr (wasPresent # ps))
       }
   }"

fun DeleteLoop ::
  "'w file_services \<Rightarrow> APP_FILE_CONTEXT option \<Rightarrow> (CHAR16 list \<times> bool) list \<Rightarrow> ('w, EFI_STATUS) state" where
  "DeleteLoop fs files [] = State_Monad.return EFI_SUCCESS"
| "DeleteLoop fs files ((name, wasPresent) # rest) =
     (if wasPresent then do {
        status \<leftarrow> DeleteAdjacentIfPresent fs files (Some name);
        if EFI_ERROR status then State_Monad.return status else DeleteLoop fs files rest
      } else DeleteLoop fs files rest)"

definition PreserveFailedConfigs :: "'w file_services \<Rightarrow> APP_FILE_CONTEXT option \<Rightarrow> ('w, EFI_STATUS) state" where
  "PreserveFailedConfigs fs files = do {
     r \<leftarrow> PreserveLoop fs files ConfigNames;
     case r of Inl status \<Rightarrow> State_Monad.return status
     | Inr wasPresent \<Rightarrow> DeleteLoop fs files (zip ConfigNames wasPresent)
   }"

definition ConfigWaitForReturn :: "nat \<Rightarrow> 'w console_services \<Rightarrow> ('w, unit option) state" where
  "ConfigWaitForReturn polls cs = do { r \<leftarrow> ReadKey polls cs; State_Monad.return (map_option (\<lambda>_. ()) r) }"

text \<open>The first loop of the fresh setup: \<open>EFI_SUCCESS\<close> is F2.\<close>

fun FreshChoice :: "nat \<Rightarrow> nat \<Rightarrow> 'w console_services \<Rightarrow> ('w, EFI_STATUS option) state" where
  "FreshChoice 0 polls cs = State_Monad.return None"
| "FreshChoice (Suc keys) polls cs = do {
     r \<leftarrow> ReadKey polls cs;
     case r of None \<Rightarrow> State_Monad.return None
     | Some (status, key) \<Rightarrow>
         if EFI_ERROR status then State_Monad.return (Some status)
         else if is_escape key then State_Monad.return (Some EFI_ABORTED)
         else if ScanCode key = SCAN_F2 then State_Monad.return (Some EFI_SUCCESS)
         else FreshChoice keys polls cs
   }"

definition ConfigOfferFreshSetup ::
  "nat \<Rightarrow> 'w console_services \<Rightarrow> 'w file_services \<Rightarrow> APP_FILE_CONTEXT option \<Rightarrow> ('w, EFI_STATUS option) state" where
  "ConfigOfferFreshSetup fuel cs fs files = do {
     choice \<leftarrow> FreshChoice fuel fuel cs;
     case choice of None \<Rightarrow> State_Monad.return None
     | Some status \<Rightarrow>
         if status \<noteq> EFI_SUCCESS then State_Monad.return (Some status)
         else do {
           r \<leftarrow> ReadKey fuel cs;
           case r of None \<Rightarrow> State_Monad.return None
           | Some (status, key) \<Rightarrow>
               if EFI_ERROR status then State_Monad.return (Some status)
               else if \<not> is_char key CHR ''y'' \<and> \<not> is_char key CHR ''Y'' then State_Monad.return (Some EFI_ABORTED)
               else do {
                 status \<leftarrow> PreserveFailedConfigs fs files;
                 if EFI_ERROR status then do {
                   waited \<leftarrow> ConfigWaitForReturn fuel cs;
                   State_Monad.return (case waited of None \<Rightarrow> None | Some _ \<Rightarrow> Some status)
                 } else State_Monad.return (Some status)
               }
         }
   }"

section \<open>Loading\<close>

text \<open>The keyboard does not change the files.\<close>

definition console_quiet :: "'w console_services \<Rightarrow> ('w, 'k) fs_view \<Rightarrow> bool" where
  "console_quiet cs v \<longleftrightarrow> (\<forall>w. wp (KeyWaitable cs) (\<lambda>_. same_view v w) w \<and> wp (KeyReadable cs) (\<lambda>_. same_view v w) w \<and>
     wp (WaitForKey cs) (\<lambda>_. same_view v w) w \<and> wp (ReadKeyStroke cs) (\<lambda>_. same_view v w) w \<and>
     (\<forall>n. wp (Stall cs n) (\<lambda>_. same_view v w) w))"

lemma quiet_seq: "wp m (\<lambda>_. same_view v w) w \<Longrightarrow> (\<And>r w'. wp (f r) (\<lambda>_. same_view v w') w') \<Longrightarrow> wp (State_Monad.bind m f) (\<lambda>_. same_view v w) w"
  by (fastforce simp: wp_def split: prod.splits dest: same_view_trans)

lemma ReadKey_quiet:
  assumes "console_quiet cs v"
  shows "wp (ReadKey polls cs) (\<lambda>_. same_view v w) w"
proof -
  have q: "wp (KeyWaitable cs) (\<lambda>_. same_view v w) w" "wp (WaitForKey cs) (\<lambda>_. same_view v w) w"
    "wp (ReadKeyStroke cs) (\<lambda>_. same_view v w) w" for w
    using assms by (simp_all add: console_quiet_def)
  have "wp (ReadKeyLoop n cs) (\<lambda>_. same_view v w) w" for n w
  proof (induction n arbitrary: w)
    case (Suc n)
    have "wp (if EFI_ERROR st then State_Monad.return (Some (st, no_key))
        else ReadKeyStroke cs \<bind> (\<lambda>(st, key). if st = EFI_NOT_READY then ReadKeyLoop n cs else State_Monad.return (Some (st, key))))
        (\<lambda>_. same_view v w) w" for st w
      by (cases "EFI_ERROR st") (auto intro!: quiet_seq [OF q(3)] Suc.IH simp del: wp_bind)
    then show ?case unfolding ReadKeyLoop.simps by (rule quiet_seq [OF q(2)])
  qed simp
  then show ?thesis unfolding ReadKey_def by (intro quiet_seq [OF q(1)]) simp
qed

lemma RecoverChoice_quiet: "console_quiet cs v \<Longrightarrow> wp (RecoverChoice keys polls cs) (\<lambda>_. same_view v w) w"
proof (induction keys arbitrary: w)
  case (Suc keys)
  then show ?case unfolding RecoverChoice.simps
    by (intro quiet_seq [OF ReadKey_quiet]) (auto split: option.split prod.split)
qed simp

lemma RecoverChoice_decision:
  "wp (RecoverChoice keys polls cs) (\<lambda>r _. \<forall>d. r = Some d \<longrightarrow> d = EFI_SUCCESS \<or> EFI_ERROR d) w"
proof (induction keys arbitrary: w)
  case (Suc keys)
  show ?case unfolding RecoverChoice.simps wp_bind
    by (rule wp_mono [OF wp_True]) (auto simp: Suc.IH split: option.split prod.split)
qed simp

definition usable :: "char list \<Rightarrow> bool" where
  "usable bytes \<longleftrightarrow> (\<exists>c. NcvParseConfigStrict (Some bytes) (Some NcvConfigDefaults) = Inr c \<and> (c_HasProbe c \<and> c_Probe c \<or> boot_ready c))"

lemma usable_wp:
  assumes "file_laws fs v" "in_dir v files" "safe_name n"
    and "\<And>r w'. same_view v w w' \<Longrightarrow>
      (case r of Inl st \<Rightarrow> EFI_ERROR st | Inr data \<Rightarrow> fv_files v w (fv_key v n) = Some data \<and> usable data) \<Longrightarrow> Q r w'"
  shows "wp (ConfigReadUsable fs files n) Q w"
  unfolding ConfigReadUsable_def
  by (auto intro!: read_wp [OF assms(1-3)] assms(4) simp: usable_def NcvValidateConfigMode_iff split: sum.splits if_splits)


lemma ConfigNames_0: "ConfigNames ! 0 = config" "ConfigNames = [config, config_previous, config_tmp]"
  by (simp_all add: ConfigNames_def)

text \<open>What a completed load tells of the files before and after it.\<close>

definition loaded :: "'k \<Rightarrow> 'k set \<Rightarrow> ('k \<rightharpoonup> char list) \<Rightarrow> EFI_STATUS + char list \<Rightarrow> ('k \<rightharpoonup> char list) \<Rightarrow> bool" where
  "loaded kc backups F r F' \<longleftrightarrow> (\<forall>k. k \<noteq> kc \<longrightarrow> F' k = F k) \<and>
     (case r of Inl status \<Rightarrow> EFI_ERROR status
      | Inr bytes \<Rightarrow> usable bytes \<and> F' kc = Some bytes \<and> (F' = F \<or> (\<exists>k \<in> backups. F k = Some bytes)))"

lemma RecoverLoop_wp:
  assumes "file_laws fs v" "in_dir v files" "console_quiet cs v"
    and "\<forall>n \<in> set names. safe_name n \<and> fv_key v n \<noteq> fv_key v config \<and> fv_key v n \<in> backups"
    and "EFI_ERROR status" and "fv_files v w = F"
  shows "wp (RecoverLoop fuel cs fs files names status)
    (\<lambda>r w'. case r of None \<Rightarrow> fv_files v w' = F | Some r \<Rightarrow> loaded (fv_key v config) backups F r (fv_files v w')) w"
  using assms(4-6)
proof (induction names arbitrary: status w)
  case Nil
  then show ?case by (simp add: loaded_def)
next
  case (Cons n names)
  then have n: "safe_name n" "fv_key v n \<noteq> fv_key v config" "fv_key v n \<in> backups" by auto
  note restore = Restore_wp [OF assms(1,2) config_names_safe(1) n(1) n(2) [symmetric], THEN wp_mono]
  note choice = wp_conj [OF RecoverChoice_quiet [OF assms(3)] RecoverChoice_decision, THEN wp_mono]
  show ?case unfolding RecoverLoop.simps wp_bind ConfigNames_0
  proof (rule usable_wp [OF assms(1,2) n(1)], goal_cases)
    case (1 r w1)
    show ?case
    proof (cases r)
      case (Inl st)
      have F1: "fv_files v w1 = F" using 1(1) Cons.prems(3) by (simp add: same_view_def)
      have "wp (RecoverLoop fuel cs fs files names s')
          (\<lambda>r w'. case r of None \<Rightarrow> fv_files v w' = F | Some r \<Rightarrow> loaded (fv_key v config) backups F r (fv_files v w')) w1"
        if "EFI_ERROR s'" for s' by (rule Cons.IH [OF _ that F1]) (use Cons.prems(1) in auto)
      with Inl Cons.prems(2) show ?thesis by simp
    next
      case (Inr data)
      show ?thesis unfolding Inr sum.case wp_bind
      proof (rule choice, goal_cases)
        case (1 c w2)
        then have F: "fv_files v w2 = F" using \<open>same_view v w w1\<close> Cons.prems by (simp add: same_view_def)
        show ?case
        proof (cases c)
          case None
          with F show ?thesis by simp
        next
          case (Some d)
          show ?thesis
          proof (cases "d = EFI_SUCCESS")
            case False
            then have "EFI_ERROR d" using 1 Some by auto
            with False F Some show ?thesis by (simp add: loaded_def)
          next
            case True
            show ?thesis unfolding Some True
              by (auto intro!: restore usable_wp [OF assms(1,2) config_names_safe(1)] simp: F loaded_def same_view_def n split: sum.splits)
          qed
        qed
      qed
    qed
  qed
qed


lemma Load_wp:
  assumes "file_laws fs v" and "in_dir v files" and "console_quiet cs v"
    and "fv_key v config_previous \<noteq> fv_key v config" and "fv_key v config_tmp \<noteq> fv_key v config"
  shows "wp (ConfigLoadRecoverable fuel cs fs files) (\<lambda>r w'. case r of None \<Rightarrow> fv_files v w' = fv_files v w
    | Some r \<Rightarrow> loaded (fv_key v config) {fv_key v config_previous, fv_key v config_tmp} (fv_files v w) r (fv_files v w')) w"
  unfolding ConfigLoadRecoverable_def wp_bind ConfigNames_0(1)
proof (rule usable_wp [OF assms(1,2) config_names_safe(1)], goal_cases)
  case (1 r w1)
  note loop = RecoverLoop_wp [OF assms(1-3), where F = "fv_files v w" and backups = "{fv_key v config_previous, fv_key v config_tmp}"]
  from 1 have "fv_files v w1 = fv_files v w" by (simp add: same_view_def)
  with 1 assms(4,5) show ?case
    by (cases r) (auto intro!: loop simp: loaded_def config_names_safe ConfigNames_0(2) simp del: RecoverLoop.simps)
qed

section \<open>Confirmation\<close>

text \<open>A keyboard that never delivers the key that confirms a recovery.\<close>

definition confirms :: "EFI_STATUS \<Rightarrow> EFI_INPUT_KEY \<Rightarrow> bool" where
  "confirms status key \<longleftrightarrow> \<not> EFI_ERROR status \<and> \<not> is_escape key \<and> (UnicodeChar key = 0x72 \<or> UnicodeChar key = 0x52)"

definition never_confirms :: "'w console_services \<Rightarrow> bool" where
  "never_confirms cs \<longleftrightarrow> (\<forall>w. wp (ReadKeyStroke cs) (\<lambda>(status, key) _. \<not> confirms status key) w)"

lemma ReadKey_denied:
  assumes "never_confirms cs"
  shows "wp (ReadKey polls cs) (\<lambda>r _. \<forall>status key. r = Some (status, key) \<longrightarrow> \<not> confirms status key) w"
proof -
  have stroke: "wp (ReadKeyStroke cs) (\<lambda>(status, key) _. \<not> confirms status key) w" for w
    using assms by (simp add: never_confirms_def)
  have "wp (ReadKeyLoop n cs) (\<lambda>r _. \<forall>status key. r = Some (status, key) \<longrightarrow> \<not> confirms status key) w" for n w
  proof (induction n arbitrary: w)
    case (Suc n)
    show ?case unfolding ReadKeyLoop.simps
      by (rule wp_callI, rule wp_ifI, rule wp_returnI, simp add: confirms_def, rule wp_bindI [OF stroke], rule wp_prodI, rule wp_ifI, rule Suc.IH, rule wp_returnI) simp
  qed simp
  then show ?thesis unfolding ReadKey_def by (intro wp_callI wp_ifI wp_returnI) (simp_all add: confirms_def)
qed

lemma RecoverChoice_denied:
  assumes "never_confirms cs"
  shows "wp (RecoverChoice keys polls cs) (\<lambda>r _. r \<noteq> Some EFI_SUCCESS) w"
proof (induction keys arbitrary: w)
  case (Suc keys)
  show ?case unfolding RecoverChoice.simps
  proof (rule wp_bindI [OF ReadKey_denied [OF assms]], rule wp_optionI, rule wp_returnI, simp, rule wp_prodI, rule wp_ifI, rule wp_returnI, force, rule wp_ifI, rule wp_returnI, force,
      rule wp_ifI, rule wp_returnI, goal_cases)
    case (1 r t v status key)
    then show ?case by (auto simp: confirms_def is_char_def)
  qed (rule Suc.IH)
qed simp

lemma RecoverLoop_denied:
  assumes "file_laws fs v" "in_dir v files" "console_quiet cs v" and deny: "never_confirms cs" and "\<forall>n \<in> set names. safe_name n"
  shows "wp (RecoverLoop fuel cs fs files names status) (\<lambda>_ w'. fv_files v w' = fv_files v w) w"
  using assms(5)
proof (induction names arbitrary: status w)
  case (Cons n names)
  show ?case unfolding RecoverLoop.simps
  proof (rule wp_bindI [OF usable_wp [OF assms(1,2), where Q = "\<lambda>_. same_view v w"]], use Cons.prems in simp, assumption, rule wp_sumI, goal_cases)
    case (1 r t e)
    show ?case by (rule wp_mono [OF Cons.IH]) (use 1 Cons.prems in \<open>auto simp: same_view_def\<close>)
  next
    case (2 r t u)
    have c: "wp (RecoverChoice fuel fuel cs) (\<lambda>r x. same_view v t x \<and> r \<noteq> Some EFI_SUCCESS) t"
      by (rule wp_conj [OF RecoverChoice_quiet [OF assms(3)] RecoverChoice_denied [OF deny]])
    show ?case
      by (rule wp_bindI [OF c], rule wp_optionI, rule wp_returnI, use 2 in \<open>simp add: same_view_def\<close>, rule wp_ifI, rule wp_returnI)
        (use 2 in \<open>simp_all add: same_view_def\<close>)
  qed
qed simp

lemma Load_denied:
  assumes "file_laws fs v" "in_dir v files" "console_quiet cs v" "never_confirms cs"
  shows "wp (ConfigLoadRecoverable fuel cs fs files) (\<lambda>_ w'. fv_files v w' = fv_files v w) w"
  unfolding ConfigLoadRecoverable_def ConfigNames_0(1)
proof (rule wp_bindI [OF usable_wp [OF assms(1,2) config_names_safe(1), where Q = "\<lambda>_. same_view v w"]], assumption, rule wp_sumI, goal_cases)
  case (1 r t e)
  show ?case
    by (rule wp_mono [OF RecoverLoop_denied [OF assms]]) (use 1 in \<open>auto simp: same_view_def ConfigNames_0(2) config_names_safe\<close>)
qed (simp add: same_view_def)

text \<open>
  C15. Only a usable configuration is ever returned. When \<open>ConfigLoadRecoverable\<close> returns bytes, they are
  the contents of \<open>Config.ini\<close> at that moment, they parse strictly and are an explicit probe or a complete
  boot configuration, and they were there before or are the verified copy of a backup that held exactly
  these bytes. Whatever it returns, it changes no other file, and a file changes only after confirmation: with a keyboard that never
  delivers R (or only together with Escape) no file is changed.
\<close>

theorem ConfigLoadRecoverable_usable:
  assumes "file_laws fs v" and "in_dir v files" and "console_quiet cs v"
    and "fv_key v config_previous \<noteq> fv_key v config" and "fv_key v config_tmp \<noteq> fv_key v config"
    and "run_state (ConfigLoadRecoverable fuel cs fs files) w = (r, w')"
  shows "(case r of None \<Rightarrow> fv_files v w' = fv_files v w
    | Some r \<Rightarrow> loaded (fv_key v config) {fv_key v config_previous, fv_key v config_tmp} (fv_files v w) r (fv_files v w')) \<and>
    (never_confirms cs \<longrightarrow> fv_files v w' = fv_files v w)"
  using wp_run [OF Load_wp [OF assms(1-5)] assms(6)] wp_run [OF Load_denied [OF assms(1-3)] assms(6)] by blast

section \<open>Preserving failed files\<close>

lemma SavedName_safe:
  assumes "safe_name n" and "length n \<le> 200" and "number < 100"
  shows "safe_name (SavedName n number)"
proof -
  have "\<not> ForbiddenCharacter (of_nat (0x30 + d)) \<and> of_nat (0x30 + d) \<noteq> (0x2e :: CHAR16) \<and> of_nat (0x30 + d) \<noteq> (0x20 :: CHAR16)" if "d < 10" for d
  proof -
    have "d \<in> set [0..<10]" using that by simp
    then show ?thesis by (auto simp: upt_rec ForbiddenCharacter_def)
  qed
  from this [of "number div 10"] this [of "number mod 10"] show ?thesis
    using assms by (simp add: safe_name_def SavedName_def L_def ForbiddenCharacter_def div_less_iff_less_mult)
qed

text \<open>The names the preservation may use.\<close>

definition saved_names :: "CHAR16 list set" where
  "saved_names = {SavedName n i | n i. n \<in> set ConfigNames \<and> i \<in> {1..<100}}"

lemma FindSavedName_wp:
  assumes "file_laws fs v" "in_dir v files" "\<forall>i \<in> set numbers. safe_name (SavedName n i)"
    and "\<And>r w'. same_view v w w' \<Longrightarrow> (case r of Inl st \<Rightarrow> EFI_ERROR st | Inr None \<Rightarrow> True
      | Inr (Some i) \<Rightarrow> i \<in> set numbers \<and> fv_files v w (fv_key v (SavedName n i)) = None) \<Longrightarrow> Q r w'"
  shows "wp (FindSavedName fs files n numbers) Q w"
  using assms(3,4)
proof (induction numbers arbitrary: w)
  case (Cons i numbers)
  show ?case unfolding FindSavedName.simps wp_bind
  proof (rule exists_wp [OF assms(1,2)], goal_cases)
    case (2 st ex w1)
    have "wp (FindSavedName fs files n numbers) Q w1"
      using 2(1) Cons.prems by (intro Cons.IH) (auto simp: same_view_def split: sum.splits option.splits)
    with 2 show ?case by (auto intro!: Cons.prems(2) split: if_splits)
  qed (use Cons.prems in simp)
qed simp


text \<open>Files were only added, under reserved keys.\<close>

definition grown :: "'k set \<Rightarrow> ('k \<rightharpoonup> char list) \<Rightarrow> ('k \<rightharpoonup> char list) \<Rightarrow> bool" where
  "grown K F F' \<longleftrightarrow> (\<forall>k. F' k = F k \<or> F k = None \<and> k \<in> K)"

lemma grown_refl [simp]: "grown K F F"
  by (simp add: grown_def)

lemma grown_trans: "grown K F F1 \<Longrightarrow> grown K F1 F2 \<Longrightarrow> grown K F F2"
  unfolding grown_def by metis

text \<open>The contents of a file are kept under one of its reserved names.\<close>

definition saved_as :: "('w, 'k) fs_view \<Rightarrow> CHAR16 list \<Rightarrow> ('k \<rightharpoonup> char list) \<Rightarrow> ('k \<rightharpoonup> char list) \<Rightarrow> bool" where
  "saved_as v n F F' \<longleftrightarrow> (\<exists>i \<in> {1..<100}. F (fv_key v (SavedName n i)) = None \<and> F' (fv_key v (SavedName n i)) = F (fv_key v n))"

lemma ConfigNames_length: "n \<in> set ConfigNames \<Longrightarrow> safe_name n \<and> length n \<le> 200"
  using config_names_safe by (auto simp: ConfigNames_def L_def)

lemma PreserveOne_wp:
  assumes "file_laws fs v" "in_dir v files" "n \<in> set ConfigNames"
    and keys: "\<And>i. i \<in> {1..<100} \<Longrightarrow> fv_key v n \<noteq> fv_key v (SavedName n i)"
    and "\<And>r w'. grown (fv_key v ` saved_names) (fv_files v w) (fv_files v w') \<Longrightarrow>
      (case r of Inl st \<Rightarrow> EFI_ERROR st | Inr p \<Rightarrow> (p \<longleftrightarrow> fv_files v w (fv_key v n) \<noteq> None) \<and> (p \<longrightarrow> saved_as v n (fv_files v w) (fv_files v w'))) \<Longrightarrow>
      Q r w'"
  shows "wp (PreserveOne fs files n) Q w"
  unfolding PreserveOne_def wp_bind
proof (rule exists_wp [OF assms(1,2)], goal_cases)
  case 1
  show ?case using ConfigNames_length [OF assms(3)] by simp
next
  case (2 st ex w1)
  have F1: "fv_files v w1 = fv_files v w" using 2 by (simp add: same_view_def)
  have safe: "safe_name (SavedName n i)" if "i < 100" for i
    using SavedName_safe ConfigNames_length [OF assms(3)] that by blast
  show ?case
  proof (cases "EFI_ERROR st \<or> \<not> ex")
    case True
    with 2 F1 show ?thesis by (auto intro!: assms(5))
  next
    case False
    have "wp (FindSavedName fs files n [1..<100]) (\<lambda>r. wp (case r of Inl status \<Rightarrow> State_Monad.return (Inl status)
       | Inr None \<Rightarrow> State_Monad.return (Inl EFI_VOLUME_FULL)
       | Inr (Some number) \<Rightarrow> do {
           status \<leftarrow> CreateVerifiedRollbackCopy fs files (Some n) (Some (SavedName n number));
           State_Monad.return (if EFI_ERROR status then Inl status else Inr True) }) Q) w1"
    proof (rule FindSavedName_wp [OF assms(1,2)], goal_cases)
      case (2 r w2)
      have F2: "fv_files v w2 = fv_files v w" using 2 F1 by (simp add: same_view_def)
      show ?case
      proof (cases r)
        case (Inr oi)
        show ?thesis
        proof (cases oi)
          case (Some i)
          then have i: "i \<in> {1..<100}" and none: "fv_files v w (fv_key v (SavedName n i)) = None" using 2 Inr F1 by auto
          let ?r = "fv_key v (SavedName n i)"
          have res: "?r \<in> fv_key v ` saved_names" using i assms(3) by (auto simp: saved_names_def)
          show ?thesis unfolding Inr Some sum.case option.case wp_bind
          proof (rule wp_mono [OF Copy_wp [OF assms(1,2)]], goal_cases)
            case (4 st3 w3)
            have "grown (fv_key v ` saved_names) (fv_files v w) (fv_files v w3)"
              using 4 F2 none res unfolding grown_def by metis
            moreover have "\<not> EFI_ERROR st3 \<longrightarrow> saved_as v n (fv_files v w) (fv_files v w3)"
              using 4 F2 none i unfolding saved_as_def by auto
            ultimately show ?case using False \<open>\<not> EFI_ERROR st \<Longrightarrow> ex = (fv_files v w (fv_key v n) \<noteq> None)\<close>
              by (auto intro!: assms(5))
          qed (use keys i safe ConfigNames_length [OF assms(3)] in auto)
        qed (use Inr F2 in \<open>auto intro!: assms(5)\<close>)
      qed (use 2 F2 in \<open>auto intro!: assms(5)\<close>)
    qed (use safe in auto)
    with False show ?thesis by simp
  qed
qed


lemma PreserveLoop_wp:
  assumes "file_laws fs v" "in_dir v files"
    and keys: "\<And>n. n \<in> set ConfigNames \<Longrightarrow> fv_key v n \<notin> fv_key v ` saved_names"
    and "set names \<subseteq> set ConfigNames" and "grown (fv_key v ` saved_names) F (fv_files v w)"
  shows "wp (PreserveLoop fs files names) (\<lambda>r w'. grown (fv_key v ` saved_names) (fv_files v w) (fv_files v w') \<and>
    (case r of Inl st \<Rightarrow> EFI_ERROR st
     | Inr ps \<Rightarrow> ps = map (\<lambda>n. F (fv_key v n) \<noteq> None) names \<and>
         (\<forall>n \<in> set names. F (fv_key v n) \<noteq> None \<longrightarrow> saved_as v n F (fv_files v w')))) w"
  using assms(4,5)
proof (induction names arbitrary: w)
  case (Cons n names)
  let ?K = "fv_key v ` saved_names"
  have n: "n \<in> set ConfigNames" "set names \<subseteq> set ConfigNames" using Cons.prems by auto
  have kn: "fv_key v n \<noteq> fv_key v (SavedName n i)" if "i \<in> {1..<100}" for i
    using keys [OF n(1)] n(1) that by (auto simp: saved_names_def)
  have same: "F1 (fv_key v n) = F (fv_key v n)" if "grown ?K F F1" for F1 using that keys [OF n(1)] unfolding grown_def by metis
  have later: "saved_as v n F F2" if "saved_as v n (fv_files v w) F1" "grown ?K F1 F2" "fv_files v w (fv_key v n) \<noteq> None" for F1 F2
  proof -
    obtain i where i: "i \<in> {1..<100}" "fv_files v w (fv_key v (SavedName n i)) = None"
      "F1 (fv_key v (SavedName n i)) = fv_files v w (fv_key v n)" using \<open>saved_as v n (fv_files v w) F1\<close> by (auto simp: saved_as_def)
    moreover have "F (fv_key v (SavedName n i)) = None" using Cons.prems(2) i(2) unfolding grown_def by metis
    moreover have "F2 (fv_key v (SavedName n i)) = F1 (fv_key v (SavedName n i))"
      using that(2,3) i(3) unfolding grown_def by metis
    ultimately show ?thesis using same [OF Cons.prems(2)] unfolding saved_as_def by auto
  qed
  show ?case unfolding PreserveLoop.simps wp_bind
  proof (rule PreserveOne_wp [OF assms(1,2) n(1) kn], assumption, goal_cases)
    case (1 r w1)
    then have g: "grown ?K F (fv_files v w1)" using grown_trans [OF Cons.prems(2)] by blast
    show ?case
    proof (cases r)
      case (Inr p)
      have p: "p \<longleftrightarrow> F (fv_key v n) \<noteq> None" "p \<longrightarrow> saved_as v n (fv_files v w) (fv_files v w1)"
        using 1 Inr same [OF Cons.prems(2)] by simp_all
      show ?thesis unfolding Inr sum.case wp_bind
      proof (rule wp_mono [OF Cons.IH [OF n(2) g]], goal_cases)
        case (1 r2 w2)
        have "grown ?K (fv_files v w) (fv_files v w2)"
          using \<open>grown ?K (fv_files v w) (fv_files v w1)\<close> 1 grown_trans by blast
        moreover have "F (fv_key v n) \<noteq> None \<longrightarrow> saved_as v n F (fv_files v w2)"
          using p later 1 same [OF Cons.prems(2)] by auto
        ultimately show ?case using 1 p(1) by (auto split: sum.splits)
      qed
    qed (use 1 in simp)
  qed
qed simp

lemma DeleteLoop_wp:
  assumes "file_laws fs v" "in_dir v files" and "\<forall>(n, p) \<in> set nps. safe_name n"
  shows "wp (DeleteLoop fs files nps) (\<lambda>st w'.
    (\<forall>k. fv_files v w' k = fv_files v w k \<or> fv_files v w' k = None \<and> (\<exists>n. (n, True) \<in> set nps \<and> k = fv_key v n)) \<and>
    (\<not> EFI_ERROR st \<longrightarrow> (\<forall>n. (n, True) \<in> set nps \<longrightarrow> fv_files v w' (fv_key v n) = None))) w"
  using assms(3)
proof (induction nps arbitrary: w)
  case (Cons np nps)
  obtain n p where np: "np = (n, p)" by (cases np)
  show ?case
  proof (cases p)
    case True
    have n: "safe_name n" using Cons.prems np by simp
    show ?thesis unfolding np DeleteLoop.simps using True
    proof (simp, intro delete_wp [OF assms(1,2) n], goal_cases)
      case (1 st w1)
      have w1: "\<forall>k. fv_files v w1 k = fv_files v w k \<or> fv_files v w1 k = None \<and> k = fv_key v n" using 1 by (auto split: if_splits)
      show ?case
      proof (cases "EFI_ERROR st")
        case True
        with w1 show ?thesis by auto
      next
        case False
        have none: "fv_files v w1 (fv_key v n) = None" using 1 False by auto
        have "wp (DeleteLoop fs files nps) (\<lambda>st w'.
          (\<forall>k. fv_files v w' k = fv_files v w k \<or> fv_files v w' k = None \<and> (\<exists>m. (m = n \<or> (m, True) \<in> set nps) \<and> k = fv_key v m)) \<and>
          (\<not> EFI_ERROR st \<longrightarrow> (\<forall>m. m = n \<or> (m, True) \<in> set nps \<longrightarrow> fv_files v w' (fv_key v m) = None))) w1"
        proof (rule wp_mono [OF Cons.IH], goal_cases)
          case (2 st2 w2)
          then show ?case using w1 none by metis
        qed (use Cons.prems in auto)
        with False show ?thesis by simp
      qed
    qed
  next
    case False
    with Cons np show ?thesis by simp
  qed
qed simp


text \<open>
  C40. A fresh setup destroys no evidence. After \<open>PreserveFailedConfigs\<close>, whatever its outcome, the contents
  of each configuration file are still in that file or in a new file of its reserved
  \<open>.invalid-NN\<close> names, and no other existing file has changed: earlier evidence is never overwritten.
  Success means that all three configuration files are gone, so the next load is a first run.
  The hypothesis on the keys says that the volume keeps these names apart.
\<close>

theorem PreserveFailedConfigs_keeps:
  assumes "file_laws fs v" and "in_dir v files"
    and "inj_on (fv_key v) (set ConfigNames \<union> saved_names)"
    and "run_state (PreserveFailedConfigs fs files) w = (status, w')"
  shows "(\<forall>n \<in> set ConfigNames. fv_files v w (fv_key v n) \<noteq> None \<longrightarrow>
      fv_files v w' (fv_key v n) = fv_files v w (fv_key v n) \<or> saved_as v n (fv_files v w) (fv_files v w')) \<and>
    (\<forall>k. fv_files v w k \<noteq> None \<and> k \<notin> fv_key v ` set ConfigNames \<longrightarrow> fv_files v w' k = fv_files v w k) \<and>
    (\<not> EFI_ERROR status \<longrightarrow> (\<forall>n \<in> set ConfigNames. fv_files v w' (fv_key v n) = None))"
proof -
  let ?K = "fv_key v ` saved_names" and ?F = "fv_files v w"
  have disj: "n \<notin> saved_names" if "n \<in> set ConfigNames" for n
    using that by (auto simp: saved_names_def ConfigNames_def SavedName_def L_def dest: arg_cong [of _ _ length])
  have keys: "fv_key v n \<notin> ?K" if "n \<in> set ConfigNames" for n
    using that disj [OF that] assms(3) unfolding inj_on_def by auto
  have "wp (PreserveFailedConfigs fs files) (\<lambda>status w'.
      (\<forall>n \<in> set ConfigNames. ?F (fv_key v n) \<noteq> None \<longrightarrow>
        fv_files v w' (fv_key v n) = ?F (fv_key v n) \<or> saved_as v n ?F (fv_files v w')) \<and>
      (\<forall>k. ?F k \<noteq> None \<and> k \<notin> fv_key v ` set ConfigNames \<longrightarrow> fv_files v w' k = ?F k) \<and>
      (\<not> EFI_ERROR status \<longrightarrow> (\<forall>n \<in> set ConfigNames. fv_files v w' (fv_key v n) = None))) w"
    unfolding PreserveFailedConfigs_def wp_bind
  proof (rule wp_mono [OF PreserveLoop_wp [OF assms(1,2) keys, where F = ?F]], assumption, goal_cases)
    case (3 r w1)
    have g: "grown ?K ?F (fv_files v w1)" using 3 by simp
    have conf: "fv_files v w1 (fv_key v n) = ?F (fv_key v n)" if "n \<in> set ConfigNames" for n
      using g keys [OF that] unfolding grown_def by metis
    show ?case
    proof (cases r)
      case (Inl st)
      with 3 g conf show ?thesis by (auto simp: grown_def)
    next
      case (Inr ps)
      let ?nps = "zip ConfigNames ps"
      have ps: "ps = map (\<lambda>n. ?F (fv_key v n) \<noteq> None) ConfigNames"
        and saved: "\<And>n. n \<in> set ConfigNames \<Longrightarrow> ?F (fv_key v n) \<noteq> None \<Longrightarrow> saved_as v n ?F (fv_files v w1)"
        using 3 Inr by auto
      have nps: "(n, True) \<in> set ?nps \<longleftrightarrow> n \<in> set ConfigNames \<and> ?F (fv_key v n) \<noteq> None" for n
        unfolding ps by (auto simp: set_zip in_set_conv_nth)
      have safe: "\<forall>(n, p) \<in> set ?nps. safe_name n" using ConfigNames_length by (auto dest: set_zip_leftD)
      show ?thesis unfolding Inr sum.case
      proof (rule wp_mono [OF DeleteLoop_wp [OF assms(1,2) safe]], goal_cases)
        case (1 st w2)
        have kept: "fv_files v w2 k = fv_files v w1 k" if "k \<notin> fv_key v ` set ConfigNames" for k
          using 1 that nps by blast
        have "saved_as v n ?F (fv_files v w2)" if n: "n \<in> set ConfigNames" "?F (fv_key v n) \<noteq> None" for n
        proof -
          obtain i where i: "i \<in> {1..<100}" "?F (fv_key v (SavedName n i)) = None"
            "fv_files v w1 (fv_key v (SavedName n i)) = ?F (fv_key v n)" using saved [OF n] by (auto simp: saved_as_def)
          have "fv_key v (SavedName n i) \<in> ?K" using i(1) n(1) by (auto simp: saved_names_def)
          then have "fv_key v (SavedName n i) \<notin> fv_key v ` set ConfigNames" by (metis keys imageE)
          then have "fv_files v w2 (fv_key v (SavedName n i)) = ?F (fv_key v n)" using kept i(3) by metis
          with i(2) show ?thesis unfolding saved_as_def by (intro bexI [OF _ i(1)] conjI)
        qed
        moreover have "fv_files v w2 k = ?F k" if "?F k \<noteq> None" "k \<notin> fv_key v ` set ConfigNames" for k
          using kept [OF that(2)] g that(1) unfolding grown_def by metis
        moreover have "fv_files v w2 (fv_key v n) = None" if "\<not> EFI_ERROR st" "n \<in> set ConfigNames" for n
          using 1 that nps [of n] conf [OF that(2)] by (cases "?F (fv_key v n)") (simp_all, metis)
        ultimately show ?case by blast
      qed
    qed
  qed simp_all
  from wp_run [OF this assms(4)] show ?thesis .
qed


section \<open>Witnesses\<close>

definition probe_bytes :: string where
  "probe_bytes = join_lines [''[Behavior]'', ''Probe=true'']"

lemma probe_parse:
  "NcvParseConfigStrict (Some probe_bytes) (Some NcvConfigDefaults) = Inr (NcvConfigDefaults\<lparr>c_Probe := True, c_HasProbe := True\<rparr>)"
proof -
  let ?st = "(InitParse NcvConfigDefaults)\<lparr>p_Section := NcvSectionBehavior,
      p_SectionSeen := (\<lambda>_. False)(NcvSectionBehavior := True)\<rparr>"
  have "line_step (InitParse NcvConfigDefaults) ''[Behavior]'' = Inr ?st"
    by (subst line_step_section [where sec = NcvSectionBehavior])
      (simp_all add: SetSection_def InitParse_def IsSpace_def)
  moreover have "line_step ?st (''Probe'' @ CHR ''='' # ''true'') =
      Inr (?st\<lparr>p_Config := NcvConfigDefaults\<lparr>c_Probe := True, c_HasProbe := True\<rparr>\<rparr>)"
    by (subst line_step_assign)
      (simp_all add: plain_field_def IsSpace_def InitParse_def SetBehaviorKey_def NcvConfigDefaults_def)
  moreover have "list_all good_line [''[Behavior]'', ''Probe=true'']"
    by (simp add: good_line_def printable_def)
  ultimately show ?thesis unfolding probe_bytes_def
    by (subst NcvParseConfigStrict_lines)
      (simp_all add: InitParse_def NcvConfigDefaults_def MarkerConfigIsValid_def empty_marker_def)
qed

text \<open>A keyboard on which R is pressed.\<close>

definition r_console :: "ram_disk console_services" where
  "r_console = \<lparr>KeyWaitable = State_Monad.return True, KeyReadable = State_Monad.return True, WaitForKey = State_Monad.return EFI_SUCCESS,
     ReadKeyStroke = State_Monad.return (EFI_SUCCESS, \<lparr>ScanCode = 0, UnicodeChar = 0x72\<rparr>), Stall = (\<lambda>_. State_Monad.return EFI_SUCCESS)\<rparr>"

lemma r_console_quiet: "console_quiet r_console ram_view"
  by (simp add: console_quiet_def r_console_def)

lemma ram_read_None:
  "safe_name n \<Longrightarrow> F n = None \<Longrightarrow> run_state (ReadConfigBytesNamed ram_services ram_context (Some n)) (ram F H) = (Inl EFI_NOT_FOUND, ram F H)"
  by (simp add: ReadConfigBytesNamed_def ram_open)

lemma probe_bytes_size: "probe_bytes \<noteq> []" "length probe_bytes \<le> 65536"
  by (simp_all add: probe_bytes_def)

lemma r_console_recovers:
  "\<exists>w'. run_state (ConfigLoadRecoverable 2 r_console ram_services ram_context) (ram [config_previous \<mapsto> probe_bytes] []) =
     (Some (Inr probe_bytes), w')"
proof -
  have r: "\<not> is_escape \<lparr>ScanCode = 0, UnicodeChar = 0x72\<rparr>" "is_char \<lparr>ScanCode = 0, UnicodeChar = 0x72\<rparr> CHR ''r''"
    by (simp_all add: is_escape_def is_char_def SCAN_ESC_def)
  have key: "run_state (RecoverChoice 2 2 r_console) w = (Some EFI_SUCCESS, w)" for w
    using r by (simp add: numeral_2_eq_2 r_console_def ReadKey_def)
  have read: "run_state (ConfigReadUsable ram_services ram_context n) (ram F H) = (Inr probe_bytes, ram F (H @ [None]))"
    if "safe_name n" "F n = Some probe_bytes" for n F H
    using that probe_bytes_size by (simp add: ConfigReadUsable_def ram_read probe_parse NcvValidateConfigMode_def)
  have none: "run_state (ConfigReadUsable ram_services ram_context n) (ram F H) = (Inl EFI_NOT_FOUND, ram F H)"
    if "safe_name n" "F n = None" for n F H
    using that by (simp add: ConfigReadUsable_def ram_read_None)
  have "run_state (RestoreAdjacentRollback ram_services ram_context (Some config) (Some config_previous)) (ram [config_previous \<mapsto> probe_bytes] [None]) =
      (EFI_SUCCESS, ram [config_previous \<mapsto> probe_bytes, config \<mapsto> probe_bytes] ([None] @ [None] @ [None, None]))"
    using probe_bytes_size config_names_safe by (simp add: RestoreAdjacentRollback_def ram_read ram_delete ram_restored L_inject)
  then show ?thesis
    using config_names_safe by (simp add: ConfigLoadRecoverable_def ConfigNames_0 read none key L_inject)
qed

theorem ConfigLoadRecoverable_usable_witness:
  "\<exists>w'. run_state (ConfigLoadRecoverable 2 r_console ram_services ram_context) (ram [config_previous \<mapsto> probe_bytes] []) =
     (Some (Inr probe_bytes), w') \<and> usable probe_bytes \<and> rd_files w' config = Some probe_bytes"
proof -
  obtain w' where run: "run_state (ConfigLoadRecoverable 2 r_console ram_services ram_context) (ram [config_previous \<mapsto> probe_bytes] []) =
      (Some (Inr probe_bytes), w')" using r_console_recovers by blast
  from ConfigLoadRecoverable_usable [OF ram_laws ram_in_dir r_console_quiet _ _ run] run show ?thesis
    by (simp add: ram_keys loaded_def L_inject)
qed

theorem PreserveFailedConfigs_keeps_witness:
  "\<exists>status w'. run_state (PreserveFailedConfigs ram_services ram_context) (ram [config \<mapsto> ''bad''] []) = (status, w') \<and>
     (rd_files w' config = Some ''bad'' \<or> saved_as ram_view config [config \<mapsto> ''bad''] (rd_files w'))"
proof -
  obtain status w' where run: "run_state (PreserveFailedConfigs ram_services ram_context) (ram [config \<mapsto> ''bad''] []) = (status, w')"
    by (metis prod.exhaust)
  have "inj_on (fv_key ram_view) (set ConfigNames \<union> saved_names)" by (simp add: inj_on_def ram_keys)
  from PreserveFailedConfigs_keeps [OF ram_laws ram_in_dir this run] run show ?thesis
    by (simp add: ram_keys ConfigNames_0)
qed

end
