(* ===== verification/Config_Save.thy ===== *)
theory Config_Save
  imports Config_Recovery Config_Edit Probe_Config
begin

text \<open>
  The routines of \<open>ProbeConfig.c\<close> that load, edit and publish configuration files, composed from the
  parser, the formatter, the editor and the verified file operations. Log output is not modelled;
  none of these routines uses the status of a log call.
\<close>

text \<open>
  The static variables of \<open>ProbeConfig.c\<close> and the marker configuration that \<open>MarkerConfigure\<close> hands to
  \<open>Marker.c\<close>.
\<close>

record probe_state =
  ps_Editing :: bool
  ps_ReviewSettings :: NCV_CONFIG_CORE
  ps_Marker :: NCV_MARKER_CONFIG

definition ProbeConfigBeginEdit :: "probe_state \<Rightarrow> probe_state" where
  "ProbeConfigBeginEdit s = s\<lparr>ps_Editing := True\<rparr>"

definition ProbeConfigEndEdit :: "probe_state \<Rightarrow> probe_state" where
  "ProbeConfigEndEdit s = s\<lparr>ps_Editing := False\<rparr>"

definition ProbeConfigLoad ::
  "nat \<Rightarrow> 'w console_services \<Rightarrow> 'w file_services \<Rightarrow> APP_FILE_CONTEXT option \<Rightarrow> probe_state \<Rightarrow>
   ('w, ((EFI_STATUS + PROBE_CONFIG) \<times> probe_state) option) state" where
  "ProbeConfigLoad fuel cs fs files s =
     (if files = None then State_Monad.return (Some (Inl EFI_INVALID_PARAMETER, s))
      else let s = s\<lparr>ps_Marker := c_Marker NcvConfigDefaults\<rparr>
           in do {
             r \<leftarrow> ConfigLoadRecoverable fuel cs fs files;
             State_Monad.return (case r of None \<Rightarrow> None
               | Some (Inl status) \<Rightarrow>
                   Some (if status = EFI_NOT_FOUND then
                           (case ProbeConfigImportCore (Some NcvConfigDefaults) of
                              Inl e \<Rightarrow> Inl e | Inr g \<Rightarrow> Inr (g\<lparr>g_FirstRun := True\<rparr>), s)
                         else (Inl status, s))
               | Some (Inr bytes) \<Rightarrow>
                   Some (case NcvParseConfigStrict (Some bytes) (Some NcvConfigDefaults) of
                           Inl result \<Rightarrow> (Inl (CoreStatusToEfi result), s)
                         | Inr core \<Rightarrow>
                             (case ProbeConfigImportCore (Some core) of
                                Inl e \<Rightarrow> (Inl e, s)
                              | Inr g \<Rightarrow> (Inr g, s\<lparr>ps_Marker := c_Marker core, ps_ReviewSettings := core\<rparr>))))
           })"

text \<open>
  \<open>SaveEditedTargets\<close>. \<open>bdf\<close> is the rendering of an address by the print library, which is not part
  of the repository.
\<close>

definition SaveEditedTargets ::
  "(NCV_PCI_ADDRESS \<Rightarrow> string) \<Rightarrow> 'w file_services \<Rightarrow> APP_FILE_CONTEXT option \<Rightarrow> NCV_DISPLAY_CANDIDATE \<Rightarrow> NCV_STORAGE_CANDIDATE \<Rightarrow>
   ('w, EFI_STATUS) state" where
  "SaveEditedTargets bdf fs files display storage = do {
     r \<leftarrow> ConfigReadUsable fs files (L ''Config.ini'');
     case r of Inl status \<Rightarrow> State_Monad.return status
     | Inr original \<Rightarrow> do {
         ok \<leftarrow> AllocateZeroPool fs PROBE_CONFIG_MAX_BYTES;
         if \<not> ok then State_Monad.return EFI_OUT_OF_RESOURCES
         else case NcvEditTargets (Some original) (Some (bdf (d_Address display))) (Some (bdf (s_Address storage)))
                     (Some (s_Description storage)) PROBE_CONFIG_MAX_BYTES of
           Inl e \<Rightarrow> State_Monad.return (if e = NCV_EDIT_CAPACITY then EFI_BAD_BUFFER_SIZE else EFI_COMPROMISED_DATA)
         | Inr new \<Rightarrow>
             let status = VerifyGeneratedBytes (Some new) True (Some display) (Some storage)
             in if EFI_ERROR status then State_Monad.return status
                else do {
                  status \<leftarrow> DeleteAdjacentIfPresent fs files (Some (L ''Config.ini.previous''));
                  if EFI_ERROR status then State_Monad.return status
                  else do {
                    (status, _) \<leftarrow> WriteAdjacentViaTemp fs files (Some (L ''Config.ini'')) (Some (L ''Config.ini.tmp''))
                                     (Some (L ''Config.ini.previous'')) (Some new) False False;
                    if EFI_ERROR status then State_Monad.return status
                    else do {
                      r \<leftarrow> ConfigReadUsable fs files (L ''Config.ini'');
                      State_Monad.return (case r of Inl status \<Rightarrow> status
                        | Inr readback \<Rightarrow> if readback \<noteq> new then EFI_COMPROMISED_DATA else EFI_SUCCESS)
                    }
                  }
                }
       }
   }"

text \<open>\<open>ProbeConfigWriteCandidateIni\<close> after the text has been published, up to the end.\<close>

definition FinishCandidateIni ::
  "nat \<Rightarrow> 'w console_services \<Rightarrow> 'w file_services \<Rightarrow> APP_FILE_CONTEXT option \<Rightarrow> NCV_OUTPUT_KIND \<Rightarrow> probe_state \<Rightarrow>
   ('w, (EFI_STATUS \<times> probe_state) option) state" where
  "FinishCandidateIni fuel cs fs files kind s =
     (if kind = NcvOutputActiveIni then do {
        loaded \<leftarrow> ProbeConfigLoad fuel cs fs files s;
        case loaded of None \<Rightarrow> State_Monad.return None
        | Some (r, s) \<Rightarrow>
            (case r of
               Inr g \<Rightarrow>
                 if NcvBootRequirementsValidate (Some (ProbeConfigGetBootRequirements (Some g))) \<noteq> 0 \<or> \<not> g_HasTargetBbsDescription g
                 then do {
                   cleanup \<leftarrow> DeleteAdjacentIfPresent fs files (Some (L ''Config.ini''));
                   State_Monad.return (Some (if EFI_ERROR cleanup then cleanup else EFI_COMPROMISED_DATA, s))
                 } else do {
                   status \<leftarrow> CreateVerifiedRollbackCopy fs files (Some (L ''Config.ini'')) (Some (L ''Config.ini.previous''));
                   State_Monad.return (Some (if EFI_ERROR status then status else EFI_SUCCESS, s))
                 }
             | Inl status \<Rightarrow> do {
                 cleanup \<leftarrow> DeleteAdjacentIfPresent fs files (Some (L ''Config.ini''));
                 State_Monad.return (Some (if EFI_ERROR cleanup then cleanup else status, s))
               })
      } else State_Monad.return (Some (EFI_SUCCESS, s)))"

text \<open>The write, the read-back and their recoveries.\<close>

definition PublishCandidateIni ::
  "nat \<Rightarrow> 'w console_services \<Rightarrow> 'w file_services \<Rightarrow> APP_FILE_CONTEXT option \<Rightarrow> NCV_OUTPUT_KIND \<Rightarrow> string \<Rightarrow>
   bool \<Rightarrow> NCV_DISPLAY_CANDIDATE option \<Rightarrow> NCV_STORAGE_CANDIDATE option \<Rightarrow> probe_state \<Rightarrow> ('w, (EFI_STATUS \<times> probe_state) option) state" where
  "PublishCandidateIni fuel cs fs files kind new complete selectedDisplay selectedStorage s =
     (let fileName = Some (if kind = NcvOutputActiveIni then L ''Config.ini'' else L ''Probe.ini'');
          tempName = Some (if kind = NcvOutputActiveIni then L ''Config.ini.tmp'' else L ''Probe.ini.tmp'');
          rollbackName = (if kind = NcvOutputActiveIni then None else Some (L ''Probe.ini.previous''));
          recover = do {
            status \<leftarrow> RestoreAdjacentRollback fs files fileName rollbackName;
            if EFI_ERROR status then State_Monad.return status else DeleteAdjacentIfPresent fs files rollbackName
          }
      in do {
        (status, preserved) \<leftarrow> WriteAdjacentViaTemp fs files fileName tempName rollbackName (Some new) (kind = NcvOutputActiveIni) False;
        if EFI_ERROR status then
          (if preserved then do {
             recovery \<leftarrow> recover;
             State_Monad.return (Some (if EFI_ERROR recovery then recovery else status, s))
           } else State_Monad.return (Some (status, s)))
        else do {
          r \<leftarrow> ReadConfigBytesNamed fs files fileName;
          (let status = (case r of Inl status \<Rightarrow> status
                 | Inr readback \<Rightarrow> if readback \<noteq> new then EFI_COMPROMISED_DATA
                     else VerifyGeneratedBytes (Some readback) complete selectedDisplay selectedStorage)
           in if EFI_ERROR status then do {
                cleanup \<leftarrow> (if preserved then recover else DeleteAdjacentIfPresent fs files fileName);
                State_Monad.return (Some (if EFI_ERROR cleanup then cleanup else status, s))
              } else do {
                status \<leftarrow> (if preserved then DeleteAdjacentIfPresent fs files rollbackName else State_Monad.return EFI_SUCCESS);
                if EFI_ERROR status then State_Monad.return (Some (status, s))
                else FinishCandidateIni fuel cs fs files kind s
              })
        }
      })"

definition ProbeConfigWriteCandidateIni ::
  "(NCV_PCI_ADDRESS \<Rightarrow> string) \<Rightarrow> nat \<Rightarrow> 'w console_services \<Rightarrow> 'w file_services \<Rightarrow> APP_FILE_CONTEXT option \<Rightarrow>
   NCV_DISPLAY_CANDIDATE list option \<Rightarrow> nat \<Rightarrow> NCV_STORAGE_CANDIDATE list option \<Rightarrow> nat \<Rightarrow> bool \<Rightarrow> probe_state \<Rightarrow>
   ('w, (EFI_STATUS \<times> probe_state) option) state" where
  "ProbeConfigWriteCandidateIni bdf fuel cs fs files displays selectedDisplay storage selectedStorage firstRun s =
     (if files = None \<or> displays = None \<or> storage = None \<or> length (the displays) > NCV_MAX_DISPLAY_CANDIDATES
         \<or> length (the storage) > NCV_MAX_STORAGE_CANDIDATES
         \<or> selectedDisplay \<noteq> NCV_NO_SELECTION \<and> selectedDisplay \<ge> length (the displays)
         \<or> selectedStorage \<noteq> NCV_NO_SELECTION \<and> selectedStorage \<ge> length (the storage)
      then State_Monad.return (Some (EFI_INVALID_PARAMETER, s))
      else let complete = (selectedDisplay \<noteq> NCV_NO_SELECTION \<and> selectedStorage \<noteq> NCV_NO_SELECTION);
               kind = NcvChooseOutputKind firstRun selectedDisplay selectedStorage;
               d = (if complete then Some (the displays ! selectedDisplay) else None);
               t = (if complete then Some (the storage ! selectedStorage) else None)
           in if ps_Editing s then
                (if \<not> complete then State_Monad.return (Some (EFI_NOT_FOUND, s))
                 else do { status \<leftarrow> SaveEditedTargets bdf fs files (the d) (the t); State_Monad.return (Some (status, s)) })
              else do {
                ok \<leftarrow> AllocateZeroPool fs NCV_CANDIDATE_INI_BYTES;
                if \<not> ok then State_Monad.return (Some (EFI_OUT_OF_RESOURCES, s))
                else case NcvFormatCandidateIni displays selectedDisplay storage selectedStorage NCV_CANDIDATE_INI_BYTES of
                  Inl _ \<Rightarrow> State_Monad.return (Some (EFI_BAD_BUFFER_SIZE, s))
                | Inr new \<Rightarrow>
                    let status = VerifyGeneratedBytes (Some new) complete d t
                    in if EFI_ERROR status then State_Monad.return (Some (status, s))
                       else PublishCandidateIni fuel cs fs files kind new complete d t s
              })"

section \<open>Saving an edited selection\<close>

text \<open>The effect of \<open>SaveEditedTargets\<close> on the files, whatever the firmware answers.\<close>

definition edit_saved ::
  "(char list \<Rightarrow> char list \<Rightarrow> bool) \<Rightarrow> 'k \<Rightarrow> 'k \<Rightarrow> 'k \<Rightarrow> ('k \<rightharpoonup> char list) \<Rightarrow> EFI_STATUS \<Rightarrow> ('k \<rightharpoonup> char list) \<Rightarrow> bool" where
  "edit_saved edit kc km kp F status F' \<longleftrightarrow>
     (\<forall>k. k \<noteq> kc \<and> k \<noteq> km \<and> k \<noteq> kp \<longrightarrow> F' k = F k) \<and>
     (F kc \<noteq> None \<longrightarrow> F' kc = F kc \<or> F' kp = F kc) \<and>
     (F' = F \<or> (\<exists>original new. F kc = Some original \<and> usable original \<and> edit original new)) \<and>
     (\<not> EFI_ERROR status \<longrightarrow> (\<exists>original new. F kc = Some original \<and> edit original new \<and> usable new \<and>
        F' kc = Some new \<and> F' kp = Some original \<and> F' km = None))"

definition target_edit ::
  "(NCV_PCI_ADDRESS \<Rightarrow> string) \<Rightarrow> NCV_DISPLAY_CANDIDATE \<Rightarrow> NCV_STORAGE_CANDIDATE \<Rightarrow> char list \<Rightarrow> char list \<Rightarrow> bool" where
  "target_edit bdf display storage original new \<longleftrightarrow>
     NcvEditTargets (Some original) (Some (bdf (d_Address display))) (Some (bdf (s_Address storage)))
       (Some (s_Description storage)) PROBE_CONFIG_MAX_BYTES = Inr new \<and>
     VerifyGeneratedBytes (Some new) True (Some display) (Some storage) = EFI_SUCCESS"

lemma VerifyGeneratedBytes_status:
  "\<not> EFI_ERROR (VerifyGeneratedBytes b c d s) \<Longrightarrow> VerifyGeneratedBytes b c d s = EFI_SUCCESS \<and> b \<noteq> Some []"
proof -
  have core: "CoreStatusToEfi r = EFI_SUCCESS \<or> EFI_ERROR (CoreStatusToEfi r)" for r by (cases r) simp_all
  assume "\<not> EFI_ERROR (VerifyGeneratedBytes b c d s)"
  then show ?thesis using core
    by (auto simp: VerifyGeneratedBytes_def Let_def split: sum.splits if_splits option.splits prod.splits)
qed

lemma SaveEditedTargets_wp:
  assumes laws: "file_laws fs v" "in_dir v files"
    and dist: "fv_key v config \<noteq> fv_key v config_tmp" "fv_key v config \<noteq> fv_key v config_previous" "fv_key v config_tmp \<noteq> fv_key v config_previous"
  shows "wp (SaveEditedTargets bdf fs files d s)
    (\<lambda>st w'. edit_saved (target_edit bdf d s) (fv_key v config) (fv_key v config_tmp) (fv_key v config_previous) (fv_files v w) st (fv_files v w')) w"
    (is "wp _ (\<lambda>st w'. edit_saved ?E ?c ?m ?p ?F st _) w")
proof -
  have same: "edit_saved ?E ?c ?m ?p ?F st F'" if "EFI_ERROR st" "F' = ?F" for st F'
    using that unfolding edit_saved_def by simp
  note wr = WriteAdjacent_wp [OF laws config_names_safe _ dist, THEN wp_mono]
  define publish where "publish new = do { (st, _) \<leftarrow> WriteAdjacentViaTemp fs files (Some config) (Some config_tmp) (Some config_previous) (Some new) False False;
       if EFI_ERROR st then State_Monad.return st
       else do { r \<leftarrow> ConfigReadUsable fs files config;
         State_Monad.return (case r of Inl st \<Rightarrow> st | Inr readback \<Rightarrow> if readback \<noteq> new then EFI_COMPROMISED_DATA else EFI_SUCCESS) } }" for new
  have publish: "wp (publish new) (\<lambda>st w'. edit_saved ?E ?c ?m ?p ?F st (fv_files v w')) w2"
    if orig: "?F ?c = Some original" "usable original" and new: "?E original new" "new \<noteq> []"
      and w2: "fv_files v w2 = ?F \<or> fv_files v w2 = ?F(?p := None)" for original new w2
    unfolding publish_def wp_bind
  proof (rule wr [OF new(2)], goal_cases)
    case (1 res w3)
    obtain st b where res: "res = (st, b)" by (cases res)
    have w2': "fv_files v w2 k = ?F k" if "k \<noteq> ?p" for k using w2 that by auto
    have "\<forall>k. k \<noteq> ?c \<and> k \<noteq> ?m \<and> k \<noteq> ?p \<longrightarrow> fv_files v w3 k = fv_files v w2 k" using 1 by (simp add: replaced_def)
    then have frame: "\<forall>k. k \<noteq> ?c \<and> k \<noteq> ?m \<and> k \<noteq> ?p \<longrightarrow> fv_files v w3 k = ?F k" using w2' by simp
    have kept: "fv_files v w3 ?c = ?F ?c \<or> fv_files v w3 ?p = ?F ?c"
      using 1 w2' [OF dist(2)] orig(1) by (simp add: replaced_def)
    show ?case
    proof (cases "EFI_ERROR st")
      case True
      with frame kept orig new(1) show ?thesis unfolding res by (auto simp: edit_saved_def)
    next
      case False
      have w3: "fv_files v w3 ?c = Some new" "fv_files v w3 ?m = None" "fv_files v w3 ?p = Some original"
        using 1 False w2' [OF dist(2)] orig(1) by (simp_all add: replaced_def res)
      have "\<exists>x. ?E original x" using new(1) by blast
      then show ?thesis unfolding res using False new(1)
        by (auto intro!: usable_wp [OF laws config_names_safe(1)] simp: edit_saved_def same_view_def w3 frame orig
            split: sum.splits if_splits)
    qed
  qed
  note del = delete_wp [OF laws config_names_safe(3)]
  show ?thesis unfolding SaveEditedTargets_def wp_bind
  proof (rule usable_wp [OF laws config_names_safe(1)], goal_cases)
    case (1 r w1)
    show ?case
    proof (cases r)
      case (Inl st)
      with 1 same show ?thesis by (simp add: same_view_def)
    next
      case (Inr original)
      then have orig: "?F ?c = Some original" "usable original" using 1 by simp_all
      show ?thesis unfolding Inr sum.case wp_bind
      proof (rule law_poolD [OF laws(1)], goal_cases)
        case (1 ok w2)
        then have F: "fv_files v w2 = ?F" using \<open>same_view v w w1\<close> by (simp add: same_view_def)
        have edit: "?E original new \<and> new \<noteq> []" if
          "NcvEditTargets (Some original) (Some (bdf (d_Address d))) (Some (bdf (s_Address s))) (Some (s_Description s)) PROBE_CONFIG_MAX_BYTES = Inr new"
          "\<not> EFI_ERROR (VerifyGeneratedBytes (Some new) True (Some d) (Some s))" for new
          using that VerifyGeneratedBytes_status [OF that(2)] by (simp add: target_edit_def)
        have failed: "edit_saved ?E ?c ?m ?p ?F st F'"
          if "EFI_ERROR st" "F' = ?F \<or> F' = ?F(?p := None)" "?E original new" for st F' new
          using that orig dist by (auto simp: edit_saved_def)
        let ?edit = "NcvEditTargets (Some original) (Some (bdf (d_Address d))) (Some (bdf (s_Address s))) (Some (s_Description s)) PROBE_CONFIG_MAX_BYTES"
        consider "\<not> ok" | e where "ok" "?edit = Inl e"
          | new where "ok" "?edit = Inr new" "EFI_ERROR (VerifyGeneratedBytes (Some new) True (Some d) (Some s))"
          | new where "ok" "?edit = Inr new" "\<not> EFI_ERROR (VerifyGeneratedBytes (Some new) True (Some d) (Some s))"
          by (cases ?edit) auto
        then show ?case
        proof cases
          case (4 new)
          note new = edit [OF 4(2,3)]
          have "wp (do { st \<leftarrow> DeleteAdjacentIfPresent fs files (Some config_previous);
              if EFI_ERROR st then State_Monad.return st else publish new })
            (\<lambda>st w'. edit_saved ?E ?c ?m ?p ?F st (fv_files v w')) w2"
            unfolding wp_bind
          proof (rule del, goal_cases)
            case (1 st w3)
            then have F3: "fv_files v w3 = ?F \<or> fv_files v w3 = ?F(?p := None)" using F by auto
            with new show ?case by (cases "EFI_ERROR st") (auto intro: failed publish [OF orig])
          qed
          from this [unfolded publish_def wp_bind] 4 show ?thesis by (simp add: Let_def)
        qed (simp_all add: same F Let_def)
      qed
    qed
  qed
qed

text \<open>
  C13. Saving an edited selection cannot lose the configuration. Whatever the firmware answers within the
  file protocol, \<open>SaveEditedTargets\<close> changes no file but \<open>Config.ini\<close>, its temporary and its previous
  file, keeps the original bytes in \<open>Config.ini\<close> or \<open>Config.ini.previous\<close>, and changes nothing at all unless the
  original is usable and its edit has passed \<open>VerifyGeneratedBytes\<close> for exactly the chosen display and disk.
  Success means that \<open>Config.ini\<close> holds that edit, that it is usable, and that the original is the
  previous file.
\<close>

theorem SaveEditedTargets_safe:
  assumes "file_laws fs v" and "in_dir v files"
    and "fv_key v config \<noteq> fv_key v config_tmp" and "fv_key v config \<noteq> fv_key v config_previous"
    and "fv_key v config_tmp \<noteq> fv_key v config_previous"
    and "run_state (SaveEditedTargets bdf fs files display storage) w = (status, w')"
  shows "edit_saved (target_edit bdf display storage) (fv_key v config) (fv_key v config_tmp) (fv_key v config_previous)
    (fv_files v w) status (fv_files v w')"
  using wp_run [OF SaveEditedTargets_wp [OF assms(1-5)] assms(6)] .

section \<open>Publishing generated candidates\<close>

abbreviation "probe_ini \<equiv> L ''Probe.ini''"
abbreviation "probe_tmp \<equiv> L ''Probe.ini.tmp''"
abbreviation "probe_previous \<equiv> L ''Probe.ini.previous''"

lemma probe_names_safe: "safe_name probe_ini" "safe_name probe_tmp" "safe_name probe_previous"
  by (simp_all add: safe_name_def L_def ForbiddenCharacter_def)

text \<open>The rollback name plays no part when the target must not exist.\<close>

lemma WriteAdjacent_must:
  "WriteAdjacentViaTemp fs files t m None txt True p = WriteAdjacentViaTemp fs files t m r txt True p"
  unfolding WriteAdjacentViaTemp_def FillTemp_def ReplaceTarget_def simp_thms if_True if_False ..

lemma first_run_import: "ProbeConfigImportCore (Some NcvConfigDefaults) = Inr g \<Longrightarrow> g_HasTargetBbsDescription g = False"
  by (auto simp: ProbeConfigImportCore_def ebind_Inr_iff ImportFields_def NcvConfigDefaults_def split: if_splits)

lemma import_error: "ProbeConfigImportCore (Some c) = Inl e \<Longrightarrow> EFI_ERROR e"
proof -
  have loop: "CopyAsciiLoop n i t acc = Inl e \<Longrightarrow> EFI_ERROR e" for n i t acc
    by (induction n i t acc rule: CopyAsciiLoop.induct) (auto split: if_splits)
  have copy: "CopyAsciiToUnicode n t = Inl e \<Longrightarrow> EFI_ERROR e" for n t
    by (auto simp: CopyAsciiToUnicode_def dest: loop split: option.splits if_splits)
  show "ProbeConfigImportCore (Some c) = Inl e \<Longrightarrow> EFI_ERROR e"
    by (auto simp: ProbeConfigImportCore_def ebind_Inl_iff dest: copy split: sum.splits if_splits)
qed

lemma ProbeConfigLoad_wp:
  assumes "file_laws fs v" "in_dir v files" "console_quiet cs v"
    and "fv_key v config_previous \<noteq> fv_key v config" "fv_key v config_tmp \<noteq> fv_key v config"
  shows "wp (ProbeConfigLoad fuel cs fs files s) (\<lambda>r w'. (\<forall>k. k \<noteq> fv_key v config \<longrightarrow> fv_files v w' k = fv_files v w k) \<and>
     (case r of Some (Inr g, s') \<Rightarrow> g_HasTargetBbsDescription g \<longrightarrow> (\<exists>bytes. fv_files v w' (fv_key v config) = Some bytes \<and> usable bytes \<and>
        (fv_files v w' = fv_files v w \<or> (\<exists>k \<in> {fv_key v config_previous, fv_key v config_tmp}. fv_files v w k = Some bytes)))
      | Some (Inl st, s') \<Rightarrow> EFI_ERROR st | None \<Rightarrow> True)) w"
  unfolding ProbeConfigLoad_def Let_def using in_dir_Some [OF assms(2)]
proof (simp, intro wp_mono [OF Load_wp [OF assms]], goal_cases)
  case (1 r w1)
  show ?case
  proof (cases r)
    case None
    with 1 show ?thesis by simp
  next
    case (Some x)
    with 1 show ?thesis
      by (cases x) (auto simp: loaded_def usable_def split: sum.splits if_splits dest: first_run_import import_error)
  qed
qed

lemma Finish_wp:
  assumes "file_laws fs v" "in_dir v files" "console_quiet cs v"
    and dist: "fv_key v config_previous \<noteq> fv_key v config" "fv_key v config_tmp \<noteq> fv_key v config" "fv_key v config_tmp \<noteq> fv_key v config_previous"
  shows "wp (FinishCandidateIni fuel cs fs files NcvOutputActiveIni s) (\<lambda>r w'.
     (\<forall>k. k \<noteq> fv_key v config \<and> k \<noteq> fv_key v config_previous \<longrightarrow> fv_files v w' k = fv_files v w k) \<and>
     (fv_files v w (fv_key v config_previous) \<noteq> None \<longrightarrow> fv_files v w' (fv_key v config_previous) = fv_files v w (fv_key v config_previous)) \<and>
     (case r of None \<Rightarrow> True | Some (st, s') \<Rightarrow> \<not> EFI_ERROR st \<and> fv_files v w (fv_key v config_tmp) = None \<longrightarrow>
        fv_files v w' = (fv_files v w)(fv_key v config_previous := fv_files v w (fv_key v config)))) w"
  unfolding FinishCandidateIni_def simp_thms if_True wp_bind
proof (rule wp_mono [OF ProbeConfigLoad_wp [OF assms(1-5)]], goal_cases)
  case (1 r w1)
  note del = delete_wp [OF assms(1,2) config_names_safe(1)]
  note cp = wp_mono [OF Copy_wp [OF assms(1,2) config_names_safe(1,3) dist(1) [symmetric]]]
  consider "r = None" | st s' where "r = Some (Inl st, s')" | g s' where "r = Some (Inr g, s')" by (cases r) (auto, metis sum.exhaust)
  then show ?case
  proof cases
    case (2 st s')
    with 1 dist show ?thesis by (auto intro!: del)
  next
    case (3 g s')
    let ?bad = "NcvBootRequirementsValidate (Some (ProbeConfigGetBootRequirements (Some g))) \<noteq> 0 \<or> \<not> g_HasTargetBbsDescription g"
    show ?thesis
    proof (cases ?bad)
      case True
      with 1 3 dist show ?thesis by (auto intro!: del)
    next
      case False
      then obtain bytes where b: "fv_files v w1 (fv_key v config) = Some bytes"
        "fv_files v w1 = fv_files v w \<or> fv_files v w (fv_key v config_previous) = Some bytes \<or> fv_files v w (fv_key v config_tmp) = Some bytes"
        using 1 3 by auto
      have w1: "fv_files v w1 k = fv_files v w k" if "k \<noteq> fv_key v config" for k using 1 that by blast
      show ?thesis using False 3 w1 b dist(1,2) by (auto intro!: cp)
    qed
  qed (use 1 dist in simp)
qed

lemma Publish_active_wp:
  assumes laws: "file_laws fs v" "in_dir v files" "console_quiet cs v" and "new \<noteq> []"
    and dist: "fv_key v config \<noteq> fv_key v config_tmp" "fv_key v config \<noteq> fv_key v config_previous" "fv_key v config_tmp \<noteq> fv_key v config_previous"
  shows "wp (PublishCandidateIni fuel cs fs files NcvOutputActiveIni new complete d t s) (\<lambda>r w'.
     (\<forall>k. k \<notin> {fv_key v config, fv_key v config_tmp, fv_key v config_previous} \<longrightarrow> fv_files v w' k = fv_files v w k) \<and>
     (\<forall>k \<in> {fv_key v config, fv_key v config_previous}. fv_files v w k \<noteq> None \<longrightarrow> fv_files v w' k = fv_files v w k) \<and>
     (case r of None \<Rightarrow> True | Some (st, s') \<Rightarrow> \<not> EFI_ERROR st \<longrightarrow>
        fv_files v w (fv_key v config) = None \<and> fv_files v w' (fv_key v config) = Some new \<and> fv_files v w' (fv_key v config_previous) = Some new)) w"
    (is "wp _ ?Q w")
proof -
  let ?c = "fv_key v config" and ?m = "fv_key v config_tmp" and ?p = "fv_key v config_previous" and ?F = "fv_files v w"
  note wr = WriteAdjacent_wp [OF laws(1,2) config_names_safe assms(4) dist, where must = True and preserved = False, THEN wp_mono]
  have none: "RestoreAdjacentRollback fs files (Some config) None = State_Monad.return EFI_INVALID_PARAMETER"
    by (simp add: RestoreAdjacentRollback_def)
  note del = delete_wp [OF laws(1,2) config_names_safe(1)]
  note fin = Finish_wp [OF laws dist(2) [symmetric] dist(1) [symmetric] dist(3)]
  show ?thesis unfolding PublishCandidateIni_def Let_def simp_thms if_True wp_bind WriteAdjacent_must [where r = "Some config_previous"]
  proof (rule wr, goal_cases)
    case (1 res w1)
    obtain st b where res: "res = (st, b)" by (cases res)
    have frame: "\<forall>k. k \<notin> {?c, ?m, ?p} \<longrightarrow> fv_files v w1 k = ?F k"
      and kept: "\<forall>k \<in> {?c, ?p}. ?F k \<noteq> None \<longrightarrow> fv_files v w1 k = ?F k"
      using 1 by (simp_all add: replaced_def)
    show ?case
    proof (cases "EFI_ERROR st")
      case True
      with frame kept show ?thesis unfolding res by (simp add: none)
    next
      case False
      then have ok: "b = False" "?F ?c = None" "fv_files v w1 ?c = Some new" "fv_files v w1 ?m = None" "fv_files v w1 ?p = ?F ?p"
        using 1 by (auto simp: replaced_def res)
      show ?thesis unfolding res using False ok(1)
      proof (simp, intro read_wp [OF laws(1,2) config_names_safe(1)], goal_cases)
        case (1 r w2)
        then have w2: "fv_files v w2 = fv_files v w1" by (simp add: same_view_def)
        let ?st = "case r of Inl status \<Rightarrow> status | Inr readback \<Rightarrow> if readback \<noteq> new then EFI_COMPROMISED_DATA
            else VerifyGeneratedBytes (Some readback) complete d t"
        have "wp (if EFI_ERROR ?st then do { c \<leftarrow> DeleteAdjacentIfPresent fs files (Some config);
              State_Monad.return (Some (if EFI_ERROR c then c else ?st, s)) }
            else FinishCandidateIni fuel cs fs files NcvOutputActiveIni s) ?Q w2"
        proof (cases "EFI_ERROR ?st")
          case True
          with frame kept ok dist w2 show ?thesis by (auto intro!: del)
        next
          case False
          have Q: "?Q r w3" if "(\<forall>k. k \<noteq> ?c \<and> k \<noteq> ?p \<longrightarrow> fv_files v w3 k = fv_files v w2 k) \<and>
             (fv_files v w2 ?p \<noteq> None \<longrightarrow> fv_files v w3 ?p = fv_files v w2 ?p) \<and>
             (case r of None \<Rightarrow> True | Some (st, s') \<Rightarrow> \<not> EFI_ERROR st \<and> fv_files v w2 ?m = None \<longrightarrow>
               fv_files v w3 = (fv_files v w2)(?p := fv_files v w2 ?c))" for r w3
          proof (intro conjI)
            show "\<forall>k. k \<notin> {?c, ?m, ?p} \<longrightarrow> fv_files v w3 k = ?F k" using that frame w2 by simp
            show "\<forall>k \<in> {?c, ?p}. ?F k \<noteq> None \<longrightarrow> fv_files v w3 k = ?F k" using that ok(2,5) w2 by simp
            show "case r of None \<Rightarrow> True | Some (st, s') \<Rightarrow> \<not> EFI_ERROR st \<longrightarrow> ?F ?c = None \<and> fv_files v w3 ?c = Some new \<and> fv_files v w3 ?p = Some new"
              using that ok(2-4) dist(2) w2 by (cases r) (simp_all split: prod.splits)
          qed
          show ?thesis unfolding if_not_P [OF False] by (rule wp_mono [OF fin Q])
        qed
        then show ?case by (simp cong: if_cong)
      qed
    qed
  qed
qed


lemma Publish_probe_wp:
  assumes laws: "file_laws fs v" "in_dir v files" and "new \<noteq> []"
    and dist: "fv_key v probe_ini \<noteq> fv_key v probe_tmp" "fv_key v probe_ini \<noteq> fv_key v probe_previous" "fv_key v probe_tmp \<noteq> fv_key v probe_previous"
  shows "wp (PublishCandidateIni fuel cs fs files NcvOutputProbeIni new complete d t s) (\<lambda>r w'.
     (\<forall>k. k \<notin> {fv_key v probe_ini, fv_key v probe_tmp, fv_key v probe_previous} \<longrightarrow> fv_files v w' k = fv_files v w k) \<and>
     (case r of None \<Rightarrow> True | Some (st, s') \<Rightarrow> \<not> EFI_ERROR st \<longrightarrow>
        fv_files v w' (fv_key v probe_ini) = Some new \<and> fv_files v w' (fv_key v probe_previous) = None)) w"
    (is "wp _ ?Q w")
proof -
  let ?c = "fv_key v probe_ini" and ?m = "fv_key v probe_tmp" and ?p = "fv_key v probe_previous" and ?F = "fv_files v w"
  let ?frame = "\<lambda>w'. \<forall>k. k \<notin> {?c, ?m, ?p} \<longrightarrow> fv_files v w' k = ?F k"
  note wr = WriteAdjacent_wp [OF laws(1,2) probe_names_safe assms(3) dist, where must = False and preserved = False, THEN wp_mono]
  have keep: "?frame w2" if "?frame w1" "\<forall>k. k \<notin> {?c, ?p} \<longrightarrow> fv_files v w2 k = fv_files v w1 k" for w1 w2 using that by simp
  have del_c: "wp (DeleteAdjacentIfPresent fs files (Some probe_ini)) (\<lambda>_. ?frame) w1" if "?frame w1" for w1
    by (rule delete_wp [OF laws probe_names_safe(1)], rule keep [OF that]) auto
  have del_p: "wp (DeleteAdjacentIfPresent fs files (Some probe_previous)) (\<lambda>st w'. ?frame w' \<and>
      (\<not> EFI_ERROR st \<longrightarrow> fv_files v w' = (fv_files v w1)(?p := None))) w1" if "?frame w1" for w1
    by (rule delete_wp [OF laws probe_names_safe(3)], rule conjI, rule keep [OF that]) (auto simp: fun_upd_idem)
  define recover where "recover = do {
      st \<leftarrow> RestoreAdjacentRollback fs files (Some probe_ini) (Some probe_previous);
      if EFI_ERROR st then State_Monad.return st else DeleteAdjacentIfPresent fs files (Some probe_previous) }"
  have recover: "wp recover (\<lambda>_. ?frame) w1" if "?frame w1" for w1
    unfolding recover_def wp_bind
  proof (rule wp_mono [OF Restore_wp [OF laws probe_names_safe(1,3) dist(2)]], goal_cases)
    case (1 st w2)
    then have "?frame w2" by (intro keep [OF that]) simp
    then show ?case by (auto intro: wp_mono [OF del_p])
  qed
  have probe: "(NcvOutputProbeIni = NcvOutputActiveIni) = False" by simp
  show ?thesis unfolding PublishCandidateIni_def Let_def probe if_False wp_bind recover_def [symmetric]
  proof (rule wr, goal_cases)
    case (1 res w1)
    obtain st b where res: "res = (st, b)" by (cases res)
    have frame: "?frame w1" using 1 by (simp add: replaced_def)
    show ?case
    proof (cases "EFI_ERROR st")
      case True
      with frame show ?thesis unfolding res by (auto intro!: wp_mono [OF recover [OF frame]])
    next
      case False
      then have ok: "b = (?F ?c \<noteq> None)" "fv_files v w1 ?c = Some new" "fv_files v w1 ?p = ?F ?c"
        using 1 by (auto simp: replaced_def res)
      show ?thesis unfolding res prod.case if_not_P [OF False] wp_bind [of "ReadConfigBytesNamed fs files (Some probe_ini)"]
      proof (rule read_wp [OF laws(1,2) probe_names_safe(1)], goal_cases)
        case (1 r w2)
        then have w2: "fv_files v w2 = fv_files v w1" by (simp add: same_view_def)
        then have frame2: "?frame w2" using frame by simp
        let ?st = "case r of Inl status \<Rightarrow> status | Inr readback \<Rightarrow> if readback \<noteq> new then EFI_COMPROMISED_DATA
            else VerifyGeneratedBytes (Some readback) complete d t"
        show ?case
        proof (cases "EFI_ERROR ?st")
          case True
          then show ?thesis unfolding if_P [OF True] wp_bind
            by (cases b) (auto intro!: wp_mono [OF recover [OF frame2]] wp_mono [OF del_c [OF frame2]])
        next
          case False
          show ?thesis unfolding if_not_P [OF False] wp_bind
            using frame2 ok w2 dist(2)
            by (cases b) (auto intro!: wp_mono [OF del_p [OF frame2]] simp: FinishCandidateIni_def)
        qed
      qed
    qed
  qed
qed

text \<open>
  C14. A generated file never replaces a configuration. Outside an edit, \<open>ProbeConfigWriteCandidateIni\<close>
  changes neither an existing \<open>Config.ini\<close> nor an existing \<open>Config.ini.previous\<close>, whatever the firmware or the
  operator answers, and no file but its own six. Success means that the formatted text was published:
  as a new \<open>Config.ini\<close> with an identical \<open>Config.ini.previous\<close> on a complete first run, and as \<open>Probe.ini\<close>
  with no leftover rollback file otherwise.
\<close>

theorem ProbeConfigWriteCandidateIni_publishes:
  assumes "file_laws fs v" and "in_dir v files" and "console_quiet cs v"
    and "inj_on (fv_key v) {config, config_tmp, config_previous, probe_ini, probe_tmp, probe_previous}"
    and "\<not> ps_Editing s"
    and "run_state (ProbeConfigWriteCandidateIni bdf fuel cs fs files displays sd storage ss firstRun s) w = (r, w')"
  shows "(\<forall>k \<in> {fv_key v config, fv_key v config_previous}. fv_files v w k \<noteq> None \<longrightarrow> fv_files v w' k = fv_files v w k) \<and>
    (\<forall>k. k \<notin> fv_key v ` {config, config_tmp, config_previous, probe_ini, probe_tmp, probe_previous} \<longrightarrow> fv_files v w' k = fv_files v w k) \<and>
    (\<forall>status s'. r = Some (status, s') \<and> \<not> EFI_ERROR status \<longrightarrow>
      (\<exists>new. NcvFormatCandidateIni displays sd storage ss NCV_CANDIDATE_INI_BYTES = Inr new \<and>
        (if NcvChooseOutputKind firstRun sd ss = NcvOutputActiveIni
         then fv_files v w (fv_key v config) = None \<and> fv_files v w' (fv_key v config) = Some new \<and>
              fv_files v w' (fv_key v config_previous) = Some new
         else fv_files v w' (fv_key v probe_ini) = Some new \<and> fv_files v w' (fv_key v probe_previous) = None)))"
    (is "?P r w'")
proof -
  let ?kind = "NcvChooseOutputKind firstRun sd ss"
  define P where "P = ?P"
  have dist: "fv_key v a \<noteq> fv_key v b" if "a \<noteq> b" "{a, b} \<subseteq> {config, config_tmp, config_previous, probe_ini, probe_tmp, probe_previous}" for a b
    using assms(4) that unfolding inj_on_def by blast
  have refused: "P (Some (st, s)) w1" if "EFI_ERROR st" "fv_files v w1 = fv_files v w" for st w1 using that unfolding P_def by simp
  have publish: "wp (PublishCandidateIni fuel cs fs files ?kind new complete d t s) P w1"
    if "new \<noteq> []" "NcvFormatCandidateIni displays sd storage ss NCV_CANDIDATE_INI_BYTES = Inr new" "fv_files v w1 = fv_files v w" for new complete d t w1
  proof (cases ?kind)
    case NcvOutputActiveIni
    have "wp (PublishCandidateIni fuel cs fs files NcvOutputActiveIni new complete d t s) P w1"
      unfolding P_def by (rule wp_mono [OF Publish_active_wp [OF assms(1-3) that(1)]])
        (auto simp: dist L_inject that NcvOutputActiveIni)
    then show ?thesis using NcvOutputActiveIni by simp
  next
    case NcvOutputProbeIni
    have "wp (PublishCandidateIni fuel cs fs files NcvOutputProbeIni new complete d t s) P w1"
      unfolding P_def by (rule wp_mono [OF Publish_probe_wp [OF assms(1,2) that(1)]])
        (auto simp: dist L_inject that NcvOutputProbeIni)
    then show ?thesis using NcvOutputProbeIni by simp
  qed
  have format: "wp (case NcvFormatCandidateIni displays sd storage ss NCV_CANDIDATE_INI_BYTES of
        Inl _ \<Rightarrow> State_Monad.return (Some (EFI_BAD_BUFFER_SIZE, s))
      | Inr new \<Rightarrow> let status = VerifyGeneratedBytes (Some new) complete d t
          in if EFI_ERROR status then State_Monad.return (Some (status, s))
             else PublishCandidateIni fuel cs fs files ?kind new complete d t s) P w1"
    if w1: "fv_files v w1 = fv_files v w" for complete d t w1
  proof (cases "NcvFormatCandidateIni displays sd storage ss NCV_CANDIDATE_INI_BYTES")
    case (Inl e)
    show ?thesis unfolding Inl sum.case wp_return by (rule refused) (simp_all add: w1)
  next
    case (Inr new)
    show ?thesis
    proof (cases "EFI_ERROR (VerifyGeneratedBytes (Some new) complete d t)")
      case True
      then show ?thesis unfolding Inr sum.case Let_def if_P [OF True] wp_return by (rule refused) (simp add: w1)
    next
      case False
      then have "new \<noteq> []" using VerifyGeneratedBytes_status by blast
      then show ?thesis unfolding Inr sum.case Let_def if_not_P [OF False] by (rule publish) (simp_all add: Inr w1)
    qed
  qed
  have "wp (do { ok \<leftarrow> AllocateZeroPool fs NCV_CANDIDATE_INI_BYTES;
      if \<not> ok then State_Monad.return (Some (EFI_OUT_OF_RESOURCES, s)) else M }) P w"
    if M: "\<And>w1. fv_files v w1 = fv_files v w \<Longrightarrow> wp M P w1" for M
    unfolding wp_bind
  proof (rule law_poolD [OF assms(1)], goal_cases)
    case (1 ok w1)
    then have w1: "fv_files v w1 = fv_files v w" by (simp add: same_view_def)
    show ?case
    proof (cases ok)
      case True
      with M [OF w1] show ?thesis by simp
    next
      case False
      then show ?thesis using refused [OF _ w1] by simp
    qed
  qed
  note run = this [OF format]
  have "wp (ProbeConfigWriteCandidateIni bdf fuel cs fs files displays sd storage ss firstRun s) P w"
    unfolding ProbeConfigWriteCandidateIni_def Let_def if_not_P [OF assms(5)] wp_if wp_return
    by (rule if_split [THEN iffD2], intro conjI impI, rule refused, simp, rule refl, rule run [unfolded Let_def], assumption)
  from wp_run [OF this assms(6)] show ?thesis unfolding P_def .
qed


section \<open>Witnesses\<close>

theorem SaveEditedTargets_safe_witness:
  "\<exists>status w'. run_state (SaveEditedTargets (\<lambda>_. ''0000:00:1f.2'') ram_services ram_context (sample_display 2 False) (sample_storage 0 5 False ''DISK A''))
       (ram [config \<mapsto> probe_bytes] []) = (status, w') \<and>
     (rd_files w' config = Some probe_bytes \<or> rd_files w' config_previous = Some probe_bytes)"
proof -
  obtain status w' where run: "run_state (SaveEditedTargets (\<lambda>_. ''0000:00:1f.2'') ram_services ram_context
      (sample_display 2 False) (sample_storage 0 5 False ''DISK A'')) (ram [config \<mapsto> probe_bytes] []) = (status, w')"
    by (metis prod.exhaust)
  from SaveEditedTargets_safe [OF ram_laws ram_in_dir _ _ _ run] run show ?thesis
    by (simp add: ram_keys edit_saved_def)
qed

theorem ProbeConfigWriteCandidateIni_publishes_witness:
  "\<exists>r w'. run_state (ProbeConfigWriteCandidateIni (\<lambda>_. '''') 2 r_console ram_services ram_context (Some []) NCV_NO_SELECTION (Some [])
       NCV_NO_SELECTION True \<lparr>ps_Editing = False, ps_ReviewSettings = NcvConfigDefaults, ps_Marker = c_Marker NcvConfigDefaults\<rparr>)
       (ram [config \<mapsto> ''old''] []) = (r, w') \<and> rd_files w' config = Some ''old''"
proof -
  let ?s = "\<lparr>ps_Editing = False, ps_ReviewSettings = NcvConfigDefaults, ps_Marker = c_Marker NcvConfigDefaults\<rparr>"
  obtain r w' where run: "run_state (ProbeConfigWriteCandidateIni (\<lambda>_. '''') 2 r_console ram_services ram_context (Some []) NCV_NO_SELECTION
      (Some []) NCV_NO_SELECTION True ?s) (ram [config \<mapsto> ''old''] []) = (r, w')"
    by (metis prod.exhaust)
  have keys: "inj_on (fv_key ram_view) {config, config_tmp, config_previous, probe_ini, probe_tmp, probe_previous}"
    by (simp add: inj_on_def ram_keys)
  from ProbeConfigWriteCandidateIni_publishes [OF ram_laws ram_in_dir r_console_quiet keys _ run] run show ?thesis
    by (simp add: ram_keys)
qed

end
