(* ===== verification/Bbs_Table.thy ===== *)
theory Bbs_Table
  imports Pci_Identity
begin

text \<open>
  The little-endian and CRC-32 routines of \<open>LegacyBootTarget.c\<close> and the packed byte image of a BBS table
  entry they are applied to. The theorem states which changes of a buffer the CRC cannot miss.
\<close>

section \<open>Byte images\<close>

definition LegacyBootWriteLe16 :: "NCV_U16 \<Rightarrow> NCV_U8 list" where
  "LegacyBootWriteLe16 v = [ucast (v AND 0xFF), ucast (drop_bit 8 v)]"

definition Le32Bytes :: "NCV_U32 \<Rightarrow> NCV_U8 list" where
  "Le32Bytes v = map (\<lambda>i. ucast (drop_bit (8 * i) v)) [0..<4]"

text \<open>The packed structure of 69 bytes, \<open>BootPriority\<close> first.\<close>

definition IdentityBytes :: "BBS_TABLE \<Rightarrow> NCV_U8 list" where
  "IdentityBytes e =
     Le32Bytes (b_Bus e) @ Le32Bytes (b_Device e) @ Le32Bytes (b_Function e) @ [b_Class e, b_SubClass e] @
     LegacyBootWriteLe16 (b_MfgStringOffset e) @ LegacyBootWriteLe16 (b_MfgStringSegment e) @
     LegacyBootWriteLe16 (b_DeviceType e) @ LegacyBootWriteLe16 (b_StatusFlags e) @
     LegacyBootWriteLe16 (b_BootHandlerOffset e) @ LegacyBootWriteLe16 (b_BootHandlerSegment e) @
     LegacyBootWriteLe16 (b_DescStringOffset e) @ LegacyBootWriteLe16 (b_DescStringSegment e) @
     Le32Bytes (b_InitPerReserved e) @ Le32Bytes (b_AdditionalIrq13Handler e) @ Le32Bytes (b_AdditionalIrq18Handler e) @
     Le32Bytes (b_AdditionalIrq19Handler e) @ Le32Bytes (b_AdditionalIrq40Handler e) @ [b_AssignedDriveNumber e] @
     Le32Bytes (b_AdditionalIrq41Handler e) @ Le32Bytes (b_AdditionalIrq46Handler e) @ Le32Bytes (b_IBV1 e) @ Le32Bytes (b_IBV2 e)"

definition EntryBytes :: "BBS_TABLE \<Rightarrow> NCV_U8 list" where
  "EntryBytes e = LegacyBootWriteLe16 (b_BootPriority e) @ IdentityBytes e"

definition sizeof_BBS_TABLE :: nat where [ncv_defs]: "sizeof_BBS_TABLE = 69"

lemma length_EntryBytes: "length (EntryBytes e) = sizeof_BBS_TABLE"
  by (simp add: EntryBytes_def IdentityBytes_def LegacyBootWriteLe16_def Le32Bytes_def sizeof_BBS_TABLE_def)

text \<open>\<open>CompareMem\<close> of everything behind \<open>BootPriority\<close>.\<close>

definition SameIdentity :: "BBS_TABLE \<Rightarrow> BBS_TABLE \<Rightarrow> bool" where
  "SameIdentity a b \<longleftrightarrow> IdentityBytes a = IdentityBytes b"

section \<open>CRC-32\<close>

definition CrcBit :: "NCV_U32 \<Rightarrow> NCV_U32" where
  "CrcBit c = drop_bit 1 c XOR (0xEDB88320 AND (0 - (c AND 1)))"

definition CrcByte :: "NCV_U32 \<Rightarrow> NCV_U8 \<Rightarrow> NCV_U32" where
  "CrcByte c b = (CrcBit ^^ 8) (c XOR ucast b)"

definition LegacyBootCrc32Update :: "NCV_U32 \<Rightarrow> NCV_U8 list \<Rightarrow> NCV_U32" where
  "LegacyBootCrc32Update c bs = foldl CrcByte c bs"

definition MAX_UINT32 :: NCV_U32 where "MAX_UINT32 = 0xFFFFFFFF"

definition LegacyBootCrc32 :: "NCV_U8 list option \<Rightarrow> NCV_U32" where
  "LegacyBootCrc32 buf = NOT (case buf of None \<Rightarrow> MAX_UINT32
     | Some bs \<Rightarrow> if length bs \<noteq> 0 then LegacyBootCrc32Update MAX_UINT32 bs else MAX_UINT32)"

definition LegacyBootBbsIdentityCrc32 :: "BBS_TABLE list \<Rightarrow> NCV_U32" where
  "LegacyBootBbsIdentityCrc32 es = NOT (foldl (\<lambda>c e. LegacyBootCrc32Update c (IdentityBytes e)) MAX_UINT32 es)"

definition LegacyBootBbsPriorityCrc32FromTable :: "BBS_TABLE list \<Rightarrow> NCV_U32" where
  "LegacyBootBbsPriorityCrc32FromTable es =
     NOT (foldl (\<lambda>c e. LegacyBootCrc32Update c (LegacyBootWriteLe16 (b_BootPriority e))) MAX_UINT32 es)"

definition LegacyBootBbsPriorityCrc32FromVector :: "NCV_U16 list \<Rightarrow> NCV_U32" where
  "LegacyBootBbsPriorityCrc32FromVector ps =
     NOT (foldl (\<lambda>c p. LegacyBootCrc32Update c (LegacyBootWriteLe16 p)) MAX_UINT32 ps)"

section \<open>What the CRC detects\<close>

lemma LegacyBootCrc32_eq: "LegacyBootCrc32 (Some bs) = NOT (LegacyBootCrc32Update MAX_UINT32 bs)"
  by (simp add: LegacyBootCrc32_def LegacyBootCrc32Update_def)

lemma odd_mask: "0 - (c AND 1) = (if bit c 0 then - 1 else 0)" for c :: NCV_U32
  by (simp add: and_one_eq bit_0 odd_iff_mod_2_eq_one)

lemma CrcBit_alt: "CrcBit c = drop_bit 1 c XOR (if bit c 0 then 0xEDB88320 else 0)"
  unfolding CrcBit_def odd_mask by simp

lemma CrcBit_xor: "CrcBit (x XOR y) = CrcBit x XOR CrcBit y"
  unfolding CrcBit_alt by (rule bit_eqI) (auto simp: bit_simps)

lemma CrcBit_inj: "CrcBit x = CrcBit y \<longleftrightarrow> x = y"
proof -
  have "z = 0" if z: "CrcBit z = 0" for z
  proof -
    have "bit (CrcBit z) 31 = bit z 0" unfolding CrcBit_alt by (auto simp: bit_simps dest: bit_imp_le_length)
    with z have no: "\<not> bit z 0" by simp
    show "z = 0"
    proof (rule bit_eqI)
      fix n show "bit z n = bit 0 n"
      proof (cases n)
        case 0
        with no show ?thesis by simp
      next
        case (Suc k)
        have "bit (CrcBit z) k = bit z (Suc k)" unfolding CrcBit_alt using no by (simp add: bit_simps)
        with z Suc show ?thesis by simp
      qed
    qed
  qed
  moreover have "CrcBit (x XOR y) = CrcBit x XOR CrcBit y" by (rule CrcBit_xor)
  moreover have "a XOR b = 0 \<longleftrightarrow> a = b" for a b :: NCV_U32 by (metis xor.assoc xor_self_eq xor.right_neutral)
  ultimately show ?thesis by metis
qed


text \<open>Several bits at a time: the register is linear and injective in its start value.\<close>

lemma CrcBits_xor: "(CrcBit ^^ n) (x XOR y) = (CrcBit ^^ n) x XOR (CrcBit ^^ n) y"
  by (induction n) (simp_all add: CrcBit_xor)

lemma CrcBits_inj: "(CrcBit ^^ n) x = (CrcBit ^^ n) y \<longleftrightarrow> x = y"
  by (induction n) (simp_all add: CrcBit_inj)

lemma xor_cancel: "a XOR b = c XOR b \<longleftrightarrow> a = c" "b XOR a = b XOR c \<longleftrightarrow> a = c" for a b c :: NCV_U32
  by (auto simp: bit_eq_iff bit_xor_iff)

lemma CrcBits_shift: "n + m \<le> 32 \<Longrightarrow> (CrcBit ^^ n) (push_bit n (take_bit m x)) = take_bit m x"
proof (induction n arbitrary: x)
  case (Suc n)
  have "CrcBit (push_bit (Suc n) (take_bit m x)) = push_bit n (take_bit m x)"
    unfolding CrcBit_alt by (rule bit_eqI) (use Suc.prems in \<open>auto simp: bit_simps simp del: push_bit_Suc\<close>)
  with Suc show ?case by (simp add: funpow_swap1)
qed simp

lemma CrcUpdate_append: "LegacyBootCrc32Update c (as @ bs) = LegacyBootCrc32Update (LegacyBootCrc32Update c as) bs"
  by (simp add: LegacyBootCrc32Update_def)

lemma CrcUpdate_inj: "LegacyBootCrc32Update c bs = LegacyBootCrc32Update d bs \<longleftrightarrow> c = d"
proof (induction bs arbitrary: c d)
  case (Cons b bs)
  have "CrcByte c b = CrcByte d b \<longleftrightarrow> c = d"
    unfolding CrcByte_def CrcBits_inj xor_cancel ..
  with Cons show ?case by (simp add: LegacyBootCrc32Update_def)
qed (simp add: LegacyBootCrc32Update_def)

text \<open>A few bytes as one little-endian word.\<close>

definition le_word :: "NCV_U8 list \<Rightarrow> NCV_U32" where
  "le_word bs = foldr (\<lambda>b w. ucast b XOR push_bit 8 w) bs 0"

lemma le_word_snoc: "le_word (bs @ [b]) = le_word bs XOR push_bit (8 * length bs) (ucast b)"
proof (induction bs)
  case (Cons a bs)
  have "push_bit 8 (le_word bs XOR push_bit (8 * length bs) (ucast b)) = push_bit 8 (le_word bs) XOR push_bit (8 * Suc (length bs)) (ucast b)"
    by (simp add: push_bit_xor add.commute)
  with Cons show ?case by (simp add: le_word_def xor.assoc)
qed (simp add: le_word_def)

lemma CrcUpdate_word:
  "length bs \<le> 4 \<Longrightarrow> LegacyBootCrc32Update c bs = (CrcBit ^^ (8 * length bs)) (c XOR le_word bs)"
proof (induction bs rule: rev_induct)
  case (snoc b bs)
  let ?n = "8 * length bs"
  have "(ucast b :: NCV_U32) = take_bit 8 (ucast b)" by (rule bit_eqI) (auto simp: bit_simps dest: bit_imp_le_length)
  moreover have "(CrcBit ^^ ?n) (push_bit ?n (take_bit 8 (ucast b))) = take_bit 8 (ucast b)"
    using snoc.prems by (intro CrcBits_shift) simp
  ultimately have b: "(CrcBit ^^ ?n) (push_bit ?n (ucast b)) = ucast b" by simp
  have "LegacyBootCrc32Update c (bs @ [b]) = (CrcBit ^^ 8) ((CrcBit ^^ ?n) (c XOR le_word bs) XOR ucast b)"
    using snoc by (simp add: LegacyBootCrc32Update_def CrcByte_def)
  also have "\<dots> = (CrcBit ^^ 8) ((CrcBit ^^ ?n) (c XOR le_word (bs @ [b])))"
    unfolding le_word_snoc by (simp only: CrcBits_xor b xor.assoc)
  also have "\<dots> = (CrcBit ^^ (8 * length (bs @ [b]))) (c XOR le_word (bs @ [b]))"
    by (simp add: funpow_add)
  finally show ?case .
qed (simp add: LegacyBootCrc32Update_def le_word_def)

lemma bit_le_word: "j < 32 \<Longrightarrow> bit (le_word bs) j \<longleftrightarrow> j div 8 < length bs \<and> bit (bs ! (j div 8)) (j mod 8)"
proof (induction bs arbitrary: j)
  case (Cons a bs)
  show ?case
  proof (cases "j < 8")
    case True
    then show ?thesis by (auto simp: le_word_def bit_simps)
  next
    case False
    then have j: "j div 8 = Suc ((j - 8) div 8)" "(j - 8) mod 8 = j mod 8"
      by (simp_all add: le_div_geq le_mod_geq)
    have "\<not> bit a j" using False by (auto dest: bit_imp_le_length)
    with False Cons.prems Cons.IH [of "j - 8"] show ?thesis
      by (simp add: le_word_def bit_simps j)
  qed
qed (simp add: le_word_def)

lemma le_word_inj:
  assumes "length as = length bs" and "length as \<le> 4" and "le_word as = le_word bs"
  shows "as = bs"
proof (rule nth_equalityI [OF assms(1)])
  fix i assume i: "i < length as"
  show "as ! i = bs ! i"
  proof (rule bit_eqI)
    fix k assume "possible_bit TYPE(NCV_U8) k"
    then have k: "k < 8" by (simp add: possible_bit_word)
    have "8 * i + k < 32" using i k assms(2) by linarith
    moreover have "(8 * i + k) div 8 = i" "(8 * i + k) mod 8 = k" using k by simp_all
    ultimately show "bit (as ! i) k = bit (bs ! i) k"
      using bit_le_word [of "8 * i + k" as] bit_le_word [of "8 * i + k" bs] i assms by simp
  qed
qed

text \<open>
  C26. No short change escapes the CRC: two buffers of the same length whose differences lie within four
  adjacent bytes have the same \<open>LegacyBootCrc32\<close> only if they are equal. In particular a changed priority
  or any other changed field of at most 32 bits changes the recorded CRC of its table.
\<close>

theorem LegacyBootCrc32_detects:
  assumes "length u = length v" and "length u \<le> 4"
    and "LegacyBootCrc32 (Some (before @ u @ after)) = LegacyBootCrc32 (Some (before @ v @ after))"
  shows "u = v"
proof -
  let ?c = "LegacyBootCrc32Update MAX_UINT32 before"
  have "LegacyBootCrc32Update ?c u = LegacyBootCrc32Update ?c v"
    using assms(3) by (simp add: LegacyBootCrc32_eq CrcUpdate_append CrcUpdate_inj)
  then have "?c XOR le_word u = ?c XOR le_word v"
    using assms(1,2) by (simp add: CrcUpdate_word CrcBits_inj)
  then have "le_word u = le_word v" unfolding xor_cancel .
  then show ?thesis by (rule le_word_inj [OF assms(1,2)])
qed

text \<open>The digest of the text \<open>123456789\<close>, the usual check value of this CRC.\<close>

lemma CrcBit_8: "(CrcBit ^^ 8) x = CrcBit (CrcBit (CrcBit (CrcBit (CrcBit (CrcBit (CrcBit (CrcBit x)))))))"
  by (simp add: numeral_eq_Suc)

lemma LegacyBootCrc32_check: "LegacyBootCrc32 (Some [0x31, 0x32, 0x33, 0x34, 0x35, 0x36, 0x37, 0x38, 0x39]) = 0xCBF43926"
  by (simp add: LegacyBootCrc32_eq LegacyBootCrc32Update_def MAX_UINT32_def CrcByte_def CrcBit_8 CrcBit_def)

theorem LegacyBootCrc32_detects_witness:
  "LegacyBootCrc32 (Some [0x31, 0x32]) \<noteq> LegacyBootCrc32 (Some [0x31, 0x33])"
  using LegacyBootCrc32_detects [of "[0x32]" "[0x33]" "[0x31]" "[]"] by auto

section \<open>The table CRCs\<close>

lemma CrcUpdate_concat: "foldl (\<lambda>c x. LegacyBootCrc32Update c (f x)) c xs = LegacyBootCrc32Update c (concat (map f xs))"
  by (induction xs arbitrary: c) (simp_all add: CrcUpdate_append, simp add: LegacyBootCrc32Update_def)

lemma IdentityCrc_eq: "LegacyBootBbsIdentityCrc32 es = LegacyBootCrc32 (Some (concat (map IdentityBytes es)))"
  by (simp add: LegacyBootBbsIdentityCrc32_def CrcUpdate_concat LegacyBootCrc32_eq)

lemma PriorityCrc_table: "LegacyBootBbsPriorityCrc32FromTable es = LegacyBootBbsPriorityCrc32FromVector (map b_BootPriority es)"
  by (simp add: LegacyBootBbsPriorityCrc32FromTable_def LegacyBootBbsPriorityCrc32FromVector_def CrcUpdate_concat comp_def)

end
