(* ===== verification/Boot_Policy.thy ===== *)
theory Boot_Policy
  imports Bbs_Table Legacy_Storage_Rom Legacy_Firmware_Disk Firmware_Monad
begin

text \<open>
  The context of \<open>LegacyBootTarget.h\<close> and \<open>LegacyBootPolicy.inc\<close>, the policy that decides which rows of the
  BBS table a priority transaction may touch. The two corroborations by resident code read live memory;
  their module states and that memory are one argument.
\<close>

record LEGACY_BOOT_BBS_PRIORITY_WRITE =
  wr_Index :: nat
  wr_OldPriority :: NCV_U16
  wr_RequestedPriority :: NCV_U16

datatype LEGACY_BOOT_FAR_STRING_RESULT =
    LegacyBootFarStringPresent | LegacyBootFarStringAbsent | LegacyBootFarStringUnsafe | LegacyBootFarStringTruncated

text \<open>A text buffer is the list of its bytes before the terminator; the rest of the buffer is zero.\<close>

record LEGACY_BOOT_BBS_STRING_SNAPSHOT =
  ss_ManufacturerReadResult :: LEGACY_BOOT_FAR_STRING_RESULT
  ss_DescriptionReadResult :: LEGACY_BOOT_FAR_STRING_RESULT
  ss_Manufacturer :: "NCV_U8 list"
  ss_Description :: "NCV_U8 list"

text \<open>
  The context. A \<open>NULL\<close> array is \<open>None\<close>; the number of recorded writes is the length of the list. Of
  the scratch copy the context has only whether it is allocated; its contents are local to the routine that fills it.
\<close>

record LEGACY_BOOT_BOOT_TARGET_CONTEXT =
  bt_Signature :: NCV_U32
  bt_GetBbsInfoCalled :: bool
  bt_GetBbsInfoStatus :: EFI_STATUS
  bt_DiscoveryComplete :: bool
  bt_HddCount :: nat
  bt_BbsCount :: nat
  bt_FirmwareBbsTable :: nat
  bt_BbsDiscoverySnapshot :: "BBS_TABLE list option"
  bt_BbsDiscoveryStrings :: "LEGACY_BOOT_BBS_STRING_SNAPSHOT list option"
  bt_BbsDiscoveryCrc32 :: NCV_U32
  bt_BbsDiscoveryIdentityCrc32 :: NCV_U32
  bt_BbsDiscoveryStringsCrc32 :: NCV_U32
  bt_LegacyDevOrderPresent :: bool
  bt_LegacyDevOrderUsable :: bool
  bt_LegacyDevOrderAttributes :: NCV_U32
  bt_LegacyDevOrderData :: "NCV_U8 list option"
  bt_LegacyDevOrderCrc32 :: NCV_U32
  bt_LegacyDevOrderRanks :: "NCV_U16 list option"
  bt_LegacyDevOrderDisabled :: "bool list option"
  bt_BbsJournal :: "BBS_TABLE list option"
  bt_BbsJournalStrings :: "LEGACY_BOOT_BBS_STRING_SNAPSHOT list option"
  bt_PlannedPriorities :: "NCV_U16 list option"
  bt_ExpectedPriorities :: "NCV_U16 list option"
  bt_VerificationScratch :: bool
  bt_BbsTableBytes :: nat
  bt_BbsJournalCrc32 :: NCV_U32
  bt_BbsIdentityCrc32 :: NCV_U32
  bt_BbsPriorityCrc32 :: NCV_U32
  bt_BbsJournalStringsCrc32 :: NCV_U32
  bt_PlannedPriorityCrc32 :: NCV_U32
  bt_JournalAttempted :: bool
  bt_JournalComplete :: bool
  bt_LiveBbsIndex :: nat
  bt_LiveBbsEntry :: BBS_TABLE
  bt_LiveManufacturer :: "NCV_U8 list"
  bt_LiveDescription :: "NCV_U8 list"
  bt_BootOptionNumber :: NCV_U16
  bt_BootOptionAttributes :: NCV_U32
  bt_BootOptionDescription :: "CHAR16 list option"
  bt_BootOptionDescriptionCrc32 :: NCV_U32
  bt_BbsDevicePath :: "NCV_U8 list option"
  bt_BbsDevicePathCrc32 :: NCV_U32
  bt_BbsDeviceType :: NCV_U16
  bt_BbsStatusFlag :: NCV_U16
  bt_BbsDescription :: "NCV_U8 list"
  bt_LoadOptions :: "NCV_U8 list option"
  bt_OriginalLoadOptionsCrc32 :: NCV_U32
  bt_LoadOptionsCrc32 :: NCV_U32
  bt_PriorityTransactionAttempted :: bool
  bt_PriorityTransactionDirty :: bool
  bt_PrioritiesApplied :: bool
  bt_PriorityWrites :: "LEGACY_BOOT_BBS_PRIORITY_WRITE list"

text \<open>The row and the context that \<open>ZeroMem\<close> leaves.\<close>

definition zero_row :: BBS_TABLE where
  "zero_row = \<lparr>b_BootPriority = 0, b_Bus = 0, b_Device = 0, b_Function = 0, b_Class = 0, b_SubClass = 0,
     b_MfgStringOffset = 0, b_MfgStringSegment = 0, b_DeviceType = 0, b_StatusFlags = 0, b_BootHandlerOffset = 0,
     b_BootHandlerSegment = 0, b_DescStringOffset = 0, b_DescStringSegment = 0, b_InitPerReserved = 0, b_AdditionalIrq13Handler = 0,
     b_AdditionalIrq18Handler = 0, b_AdditionalIrq19Handler = 0, b_AdditionalIrq40Handler = 0, b_AssignedDriveNumber = 0,
     b_AdditionalIrq41Handler = 0, b_AdditionalIrq46Handler = 0, b_IBV1 = 0, b_IBV2 = 0\<rparr>"

definition zero_context :: LEGACY_BOOT_BOOT_TARGET_CONTEXT where
  "zero_context = \<lparr>bt_Signature = 0, bt_GetBbsInfoCalled = False, bt_GetBbsInfoStatus = EFI_SUCCESS,
     bt_DiscoveryComplete = False, bt_HddCount = 0, bt_BbsCount = 0, bt_FirmwareBbsTable = 0,
     bt_BbsDiscoverySnapshot = None, bt_BbsDiscoveryStrings = None, bt_BbsDiscoveryCrc32 = 0,
     bt_BbsDiscoveryIdentityCrc32 = 0, bt_BbsDiscoveryStringsCrc32 = 0, bt_LegacyDevOrderPresent = False,
     bt_LegacyDevOrderUsable = False, bt_LegacyDevOrderAttributes = 0, bt_LegacyDevOrderData = None,
     bt_LegacyDevOrderCrc32 = 0, bt_LegacyDevOrderRanks = None, bt_LegacyDevOrderDisabled = None,
     bt_BbsJournal = None, bt_BbsJournalStrings = None, bt_PlannedPriorities = None,
     bt_ExpectedPriorities = None, bt_VerificationScratch = False, bt_BbsTableBytes = 0,
     bt_BbsJournalCrc32 = 0, bt_BbsIdentityCrc32 = 0, bt_BbsPriorityCrc32 = 0, bt_BbsJournalStringsCrc32 = 0,
     bt_PlannedPriorityCrc32 = 0, bt_JournalAttempted = False, bt_JournalComplete = False, bt_LiveBbsIndex = 0,
     bt_LiveBbsEntry = zero_row, bt_LiveManufacturer = [], bt_LiveDescription = [], bt_BootOptionNumber = 0,
     bt_BootOptionAttributes = 0, bt_BootOptionDescription = None, bt_BootOptionDescriptionCrc32 = 0,
     bt_BbsDevicePath = None, bt_BbsDevicePathCrc32 = 0, bt_BbsDeviceType = 0, bt_BbsStatusFlag = 0,
     bt_BbsDescription = [], bt_LoadOptions = None, bt_OriginalLoadOptionsCrc32 = 0, bt_LoadOptionsCrc32 = 0,
     bt_PriorityTransactionAttempted = False, bt_PriorityTransactionDirty = False,
     bt_PrioritiesApplied = False, bt_PriorityWrites = []\<rparr>"

definition LEGACY_BOOT_BOOT_TARGET_MAX_BBS_ENTRIES :: nat where [ncv_defs]: "LEGACY_BOOT_BOOT_TARGET_MAX_BBS_ENTRIES = 256"
definition LEGACY_BOOT_BOOT_TARGET_MAX_STRING_BYTES :: nat where [ncv_defs]: "LEGACY_BOOT_BOOT_TARGET_MAX_STRING_BYTES = 128"
definition LEGACY_BOOT_BOOT_TARGET_MAX_PRIORITY_WRITES :: nat where [ncv_defs]: "LEGACY_BOOT_BOOT_TARGET_MAX_PRIORITY_WRITES = 512"
definition LEGACY_BOOT_BOOT_TARGET_SIGNATURE :: NCV_U32 where "LEGACY_BOOT_BOOT_TARGET_SIGNATURE = 0x54423453"

definition BBS_DO_NOT_BOOT_FROM :: NCV_U16 where "BBS_DO_NOT_BOOT_FROM = 0xFFFC"
definition BBS_LOWEST_PRIORITY :: NCV_U16 where "BBS_LOWEST_PRIORITY = 0xFFFD"
definition BBS_UNPRIORITIZED_ENTRY :: NCV_U16 where "BBS_UNPRIORITIZED_ENTRY = 0xFFFE"
definition BBS_IGNORE_ENTRY :: NCV_U16 where "BBS_IGNORE_ENTRY = 0xFFFF"

text \<open>What the corroborations read: the module states and the memory at the time of the call.\<close>

record rom_evidence =
  ev_Storage :: "STORAGE_ROM_STATE option"
  ev_StorageLive :: bytes
  ev_Firmware :: "FIRMWARE_DISK_STATE option"
  ev_FirmwareLive :: bytes

definition StorageRomMatches :: "rom_evidence \<Rightarrow> BBS_TABLE \<Rightarrow> bool" where
  "StorageRomMatches ev e = fst (LegacyStorageRomMatch (ev_Storage ev) (ev_StorageLive ev) (Some e))"

definition FirmwareDiskMatches :: "rom_evidence \<Rightarrow> BBS_TABLE \<Rightarrow> bool" where
  "FirmwareDiskMatches ev e = LegacyFirmwareDiskMatch (ev_Firmware ev) (ev_FirmwareLive ev) (Some e)"

section \<open>LegacyBootPolicy.inc\<close>

definition LegacyBootBbsPriorityIsValid :: "NCV_U16 \<Rightarrow> bool" where
  "LegacyBootBbsPriorityIsValid priority \<longleftrightarrow>
     priority \<noteq> BBS_IGNORE_ENTRY \<and> priority \<noteq> BBS_DO_NOT_BOOT_FROM \<and> priority \<noteq> BBS_LOWEST_PRIORITY"

definition LegacyBootBbsStatusFlagsRaw :: "BBS_TABLE \<Rightarrow> NCV_U16" where
  "LegacyBootBbsStatusFlagsRaw e = b_StatusFlags e"

definition MediaPresent :: "NCV_U16 \<Rightarrow> NCV_U16" where
  "MediaPresent statusFlags = drop_bit 10 statusFlags AND 3"

definition LegacyBootBbsEntryIsTransactionEligible :: "rom_evidence \<Rightarrow> BBS_TABLE option \<Rightarrow> bool" where
  "LegacyBootBbsEntryIsTransactionEligible ev entry =
     (case entry of None \<Rightarrow> False
      | Some e \<Rightarrow>
          if \<not> LegacyBootBbsPriorityIsValid (b_BootPriority e) then False
          else let statusFlags = LegacyBootBbsStatusFlagsRaw e; mediaPresent = MediaPresent statusFlags
               in if statusFlags = 0 \<and> (StorageRomMatches ev e \<or> FirmwareDiskMatches ev e) then True
                  else bit statusFlags 8 \<and> \<not> bit statusFlags 9 \<and> (mediaPresent = 1 \<or> mediaPresent = 2))"

definition LegacyBootSelectedDiskCanAttempt :: "rom_evidence \<Rightarrow> BBS_TABLE option \<Rightarrow> bool" where
  "LegacyBootSelectedDiskCanAttempt ev entry =
     (case entry of None \<Rightarrow> False
      | Some e \<Rightarrow> b_DeviceType e = BBS_HARDDISK \<and>
          (LegacyBootBbsStatusFlagsRaw e \<noteq> 0 \<or> StorageRomMatches ev e \<or> FirmwareDiskMatches ev e))"

definition LegacyBootBbsIndexIsTransactionEligible ::
  "rom_evidence \<Rightarrow> LEGACY_BOOT_BOOT_TARGET_CONTEXT option \<Rightarrow> nat \<Rightarrow> bool" where
  "LegacyBootBbsIndexIsTransactionEligible ev context' index =
     (case context' of None \<Rightarrow> False
      | Some c \<Rightarrow>
          (case bt_BbsJournal c of None \<Rightarrow> False
           | Some journal \<Rightarrow>
               if index \<ge> bt_BbsCount c then False
               else if index = bt_LiveBbsIndex c then LegacyBootSelectedDiskCanAttempt ev (Some (journal ! index))
               else if \<not> LegacyBootBbsEntryIsTransactionEligible ev (Some (journal ! index)) then False
               else if LegacyBootBbsStatusFlagsRaw (journal ! index) = 0 \<and> index \<noteq> bt_LiveBbsIndex c then False
               else \<not> bt_LegacyDevOrderUsable c \<or>
                    (case bt_LegacyDevOrderDisabled c of None \<Rightarrow> False | Some disabled \<Rightarrow> \<not> disabled ! index)))"

definition LegacyBootBbsEligibilityReason :: "rom_evidence \<Rightarrow> BBS_TABLE option \<Rightarrow> string" where
  "LegacyBootBbsEligibilityReason ev entry =
     (case entry of None \<Rightarrow> ''null-entry''
      | Some e \<Rightarrow>
          if b_BootPriority e = BBS_IGNORE_ENTRY then ''BBS_IGNORE_ENTRY''
          else if b_BootPriority e = BBS_DO_NOT_BOOT_FROM then ''BBS_DO_NOT_BOOT_FROM''
          else if b_BootPriority e = BBS_LOWEST_PRIORITY then ''BBS_LOWEST_PRIORITY''
          else let statusFlags = LegacyBootBbsStatusFlagsRaw e; mediaPresent = MediaPresent statusFlags
               in if statusFlags = 0 \<and> StorageRomMatches ev e then ''eligible-verified-resident-ROM-zero-status''
                  else if statusFlags = 0 then
                    (if FirmwareDiskMatches ev e then ''eligible-corroborated-firmware-AHCI-zero-status''
                     else ''zero-status-without-supported-ROM-or-firmware-handler'')
                  else if \<not> bit statusFlags 8 then ''StatusFlags.Enabled=0''
                  else if bit statusFlags 9 then ''StatusFlags.Failed=1''
                  else if mediaPresent = 0 then ''StatusFlags.MediaPresent=no-media''
                  else if mediaPresent = 3 then ''StatusFlags.MediaPresent=reserved''
                  else ''eligible'')"

definition LegacyBootBbsIndexEligibilityReason ::
  "rom_evidence \<Rightarrow> LEGACY_BOOT_BOOT_TARGET_CONTEXT option \<Rightarrow> nat \<Rightarrow> string" where
  "LegacyBootBbsIndexEligibilityReason ev context' index =
     (case context' of None \<Rightarrow> ''invalid-index''
      | Some c \<Rightarrow>
          (case bt_BbsJournal c of None \<Rightarrow> ''invalid-index''
           | Some journal \<Rightarrow>
               if index \<ge> bt_BbsCount c then ''invalid-index''
               else if bt_LegacyDevOrderUsable c \<and>
                       (case bt_LegacyDevOrderDisabled c of None \<Rightarrow> False | Some disabled \<Rightarrow> disabled ! index)
               then ''LegacyDevOrder-disabled-high-byte-0xFF''
               else if LegacyBootBbsStatusFlagsRaw (journal ! index) = 0 \<and> index \<noteq> bt_LiveBbsIndex c
               then ''unselected-zero-status-preserved''
               else LegacyBootBbsEligibilityReason ev (Some (journal ! index))))"

section \<open>The reasons agree with the policy\<close>

definition eligible_reasons :: "string set" where
  "eligible_reasons = {''eligible'', ''eligible-verified-resident-ROM-zero-status'', ''eligible-corroborated-firmware-AHCI-zero-status''}"

lemma MediaPresent_cases: "MediaPresent f \<noteq> 0 \<and> MediaPresent f \<noteq> 3 \<longleftrightarrow> MediaPresent f = 1 \<or> MediaPresent f = 2"
proof -
  have "unat (MediaPresent f) < 4"
    unfolding MediaPresent_def
    by (rule le_less_trans [OF word_le_nat_alt [THEN iffD1, OF word_and_le1]]) simp
  then have "unat (MediaPresent f) \<in> {0, 1, 2, 3}" by auto
  then have "MediaPresent f = 0 \<or> MediaPresent f = 1 \<or> MediaPresent f = 2 \<or> MediaPresent f = 3"
    by (auto simp: word_unat_eq_iff)
  then show ?thesis by auto
qed

lemma EligibilityReason_iff:
  "LegacyBootBbsEligibilityReason ev entry \<in> eligible_reasons \<longleftrightarrow> LegacyBootBbsEntryIsTransactionEligible ev entry"
  using MediaPresent_cases
  by (auto simp: LegacyBootBbsEligibilityReason_def LegacyBootBbsEntryIsTransactionEligible_def eligible_reasons_def
      LegacyBootBbsPriorityIsValid_def Let_def MediaPresent_def split: option.splits)

text \<open>
  The logged reason is the decision: for every row but the selected one, the text that
  \<open>LegacyBootBbsIndexEligibilityReason\<close> gives for the journal starts with \<open>eligible\<close> exactly when
  \<open>LegacyBootBbsIndexIsTransactionEligible\<close> allows the transaction to write the row; and no row that the
  device order disables, that has a reserved priority, or that has no status flags is ever written
  unless the user selected it.
\<close>

theorem IndexEligibilityReason_iff:
  assumes "bt_LegacyDevOrderUsable c \<longrightarrow> bt_LegacyDevOrderDisabled c \<noteq> None" and "index \<noteq> bt_LiveBbsIndex c"
  shows "(LegacyBootBbsIndexIsTransactionEligible ev (Some c) index \<longleftrightarrow>
      LegacyBootBbsIndexEligibilityReason ev (Some c) index \<in> eligible_reasons) \<and>
    (LegacyBootBbsIndexIsTransactionEligible ev (Some c) index \<longrightarrow>
      (\<exists>journal. bt_BbsJournal c = Some journal \<and> index < bt_BbsCount c \<and>
        LegacyBootBbsPriorityIsValid (b_BootPriority (journal ! index)) \<and> bit (b_StatusFlags (journal ! index)) 8 \<and>
        (bt_LegacyDevOrderUsable c \<longrightarrow> \<not> the (bt_LegacyDevOrderDisabled c) ! index)))"
proof
  show "LegacyBootBbsIndexIsTransactionEligible ev (Some c) index \<longleftrightarrow>
      LegacyBootBbsIndexEligibilityReason ev (Some c) index \<in> eligible_reasons"
    using assms
    by (auto simp: LegacyBootBbsIndexIsTransactionEligible_def LegacyBootBbsIndexEligibilityReason_def EligibilityReason_iff
        split: option.splits) (simp_all add: eligible_reasons_def)
  show "LegacyBootBbsIndexIsTransactionEligible ev (Some c) index \<longrightarrow>
      (\<exists>journal. bt_BbsJournal c = Some journal \<and> index < bt_BbsCount c \<and>
        LegacyBootBbsPriorityIsValid (b_BootPriority (journal ! index)) \<and> bit (b_StatusFlags (journal ! index)) 8 \<and>
        (bt_LegacyDevOrderUsable c \<longrightarrow> \<not> the (bt_LegacyDevOrderDisabled c) ! index))"
    using assms
    by (auto simp: LegacyBootBbsIndexIsTransactionEligible_def LegacyBootBbsEntryIsTransactionEligible_def
        LegacyBootBbsStatusFlagsRaw_def Let_def split: option.splits if_splits)
qed

text \<open>A table for the witnesses: an unbootable network row, a working disk and the selected disk.\<close>

definition sample_row :: "NCV_U16 \<Rightarrow> NCV_U16 \<Rightarrow> NCV_U16 \<Rightarrow> BBS_TABLE" where
  "sample_row priority deviceType flags = zero_row\<lparr>b_BootPriority := priority, b_DeviceType := deviceType, b_StatusFlags := flags\<rparr>"

definition sample_table :: "BBS_TABLE list" where
  "sample_table = [sample_row 0xFFFC 0x80 0, sample_row 1 2 0x500, sample_row 0xFFFE 2 0x500]"

definition no_evidence :: rom_evidence where
  "no_evidence = \<lparr>ev_Storage = None, ev_StorageLive = (\<lambda>_. 0), ev_Firmware = None, ev_FirmwareLive = (\<lambda>_. 0)\<rparr>"

definition sample_context :: LEGACY_BOOT_BOOT_TARGET_CONTEXT where
  "sample_context = zero_context\<lparr>bt_BbsCount := 3, bt_LiveBbsIndex := 2, bt_BbsJournal := Some sample_table,
     bt_PlannedPriorities := Some [0, 0, 0], bt_ExpectedPriorities := Some [0, 0, 0]\<rparr>"

lemma sample_eligible:
  "LegacyBootBbsIndexIsTransactionEligible no_evidence (Some sample_context) 0 = False"
  "LegacyBootBbsIndexIsTransactionEligible no_evidence (Some sample_context) 1 = True"
  "LegacyBootBbsIndexIsTransactionEligible no_evidence (Some sample_context) 2 = True"
  by (simp_all add: LegacyBootBbsIndexIsTransactionEligible_def LegacyBootBbsEntryIsTransactionEligible_def LegacyBootSelectedDiskCanAttempt_def
      LegacyBootBbsStatusFlagsRaw_def LegacyBootBbsPriorityIsValid_def BBS_IGNORE_ENTRY_def BBS_DO_NOT_BOOT_FROM_def BBS_LOWEST_PRIORITY_def
      MediaPresent_def BBS_HARDDISK_def sample_context_def zero_context_def sample_table_def sample_row_def zero_row_def)

theorem IndexEligibilityReason_iff_witness:
  "LegacyBootBbsIndexEligibilityReason no_evidence (Some sample_context) 1 \<in> eligible_reasons"
  using IndexEligibilityReason_iff [of sample_context 1 no_evidence] sample_eligible(2)
  by (simp add: sample_context_def zero_context_def)

end
