(* ===== verification/Boot_Services.thy ===== *)
theory Boot_Services
  imports Boot_Policy
begin

text \<open>
  What the boot-target module calls: variable services, the memory map and pool, the log, and the live BBS
  table. All are operations over an arbitrary world, so a log call or a variable read may change what
  the next read of the table returns; a log call is told apart by the first words of its text. The two routines
  here are the bounded variable read and the range check of \<open>LegacyBootTarget.c\<close>.
\<close>

record 'w boot_services =
  bs_Memory :: "'w memory_services"
  bs_GetVariable :: "string \<Rightarrow> nat \<Rightarrow> ('w, EFI_STATUS \<times> NCV_U32 \<times> nat \<times> NCV_U8 list) state"
  bs_LogPrint :: "string \<Rightarrow> ('w, EFI_STATUS) state"
  bs_LogFlush :: "('w, EFI_STATUS) state"
  bs_ReadEntry :: "nat \<Rightarrow> ('w, BBS_TABLE) state"
  bs_PokePriority :: "nat \<Rightarrow> NCV_U16 \<Rightarrow> ('w, unit) state"
  bs_ReadMemory :: "nat \<Rightarrow> nat \<Rightarrow> ('w, NCV_U8 list) state"
  bs_Evidence :: "('w, rom_evidence) state"

definition Pool :: "'w boot_services \<Rightarrow> nat \<Rightarrow> ('w, bool) state" where
  "Pool sv n = State (\<lambda>w. AllocatePool (bs_Memory sv) w n)"

definition CaptureMap :: "'w boot_services \<Rightarrow> ('w, EFI_STATUS + MEMORY_MAP_SNAPSHOT) state" where
  "CaptureMap sv = State (MemoryMapCapture (bs_Memory sv))"

definition LEGACY_BOOT_VARIABLE_READ_ATTEMPTS :: nat where [ncv_defs]: "LEGACY_BOOT_VARIABLE_READ_ATTEMPTS = 3"

text \<open>
  The read loop with the number of attempts left. The buffer is zeroed before the call, so bytes the
  firmware does not write are zero.
\<close>

fun ReadVariableLoop ::
  "nat \<Rightarrow> 'w boot_services \<Rightarrow> string \<Rightarrow> nat \<Rightarrow> nat \<Rightarrow> ('w, EFI_STATUS + NCV_U32 \<times> NCV_U8 list) state" where
  "ReadVariableLoop 0 sv name maximumSize requiredSize = State_Monad.return (Inl EFI_BUFFER_TOO_SMALL)"
| "ReadVariableLoop (Suc n) sv name maximumSize requiredSize =
     (if requiredSize = 0 \<or> requiredSize > maximumSize then State_Monad.return (Inl EFI_BAD_BUFFER_SIZE)
      else do {
        ok \<leftarrow> Pool sv requiredSize;
        if \<not> ok then State_Monad.return (Inl EFI_OUT_OF_RESOURCES)
        else do {
          (status, attributes, bufferSize, buffer) \<leftarrow> bs_GetVariable sv name requiredSize;
          if status = EFI_SUCCESS then
            State_Monad.return (if bufferSize = 0 \<or> bufferSize > requiredSize then Inl EFI_COMPROMISED_DATA
              else Inr (attributes, take bufferSize (buffer @ replicate requiredSize 0)))
          else if status \<noteq> EFI_BUFFER_TOO_SMALL \<or> bufferSize = 0 \<or> bufferSize > maximumSize
          then State_Monad.return (Inl status)
          else ReadVariableLoop n sv name maximumSize bufferSize
        }
      })"

text \<open>
  A name, a vendor GUID and the result pointers are always given. A status of the last kind above may be
  a warning; the callers then find neither a buffer nor attributes.
\<close>

definition LegacyBootReadVariableBounded ::
  "'w boot_services \<Rightarrow> string \<Rightarrow> nat \<Rightarrow> ('w, EFI_STATUS + NCV_U32 \<times> NCV_U8 list) state" where
  "LegacyBootReadVariableBounded sv name maximumSize =
     (if maximumSize = 0 then State_Monad.return (Inl EFI_INVALID_PARAMETER)
      else do {
        (status, _, requiredSize, _) \<leftarrow> bs_GetVariable sv name 0;
        if status \<noteq> EFI_BUFFER_TOO_SMALL then State_Monad.return (Inl (if EFI_ERROR status then status else EFI_COMPROMISED_DATA))
        else ReadVariableLoop LEGACY_BOOT_VARIABLE_READ_ATTEMPTS sv name maximumSize requiredSize
      })"

definition LegacyBootValidateFirmwareBbsRange ::
  "'w boot_services \<Rightarrow> LEGACY_BOOT_BOOT_TARGET_CONTEXT option \<Rightarrow> bool \<Rightarrow> ('w, EFI_STATUS) state" where
  "LegacyBootValidateFirmwareBbsRange sv context' requireWritable =
     (case context' of None \<Rightarrow> State_Monad.return EFI_INVALID_PARAMETER
      | Some c \<Rightarrow>
          if bt_FirmwareBbsTable c = 0 \<or> bt_BbsTableBytes c = 0 then State_Monad.return EFI_INVALID_PARAMETER
          else do {
            r \<leftarrow> CaptureMap sv;
            State_Monad.return (case r of Inl status \<Rightarrow> status
              | Inr m \<Rightarrow>
                  if (if requireWritable then MemoryMapRangeIsWritable (Some m) (bt_FirmwareBbsTable c) (bt_BbsTableBytes c)
                      else fst (MemoryMapRangeIsReadable (Some m) (bt_FirmwareBbsTable c) (bt_BbsTableBytes c) False))
                  then EFI_SUCCESS else EFI_SECURITY_VIOLATION)
          })"

lemma ReadVariableLoop_size:
  "wp (ReadVariableLoop n sv name maximumSize requiredSize)
     (\<lambda>r _. case r of Inl _ \<Rightarrow> True | Inr (_, bytes) \<Rightarrow> 0 < length bytes \<and> length bytes \<le> maximumSize) w"
proof (induction n arbitrary: requiredSize w)
  case (Suc n)
  have ok: "wp (bs_GetVariable sv name requiredSize) (\<lambda>(status, attributes, bufferSize, buffer).
      wp (if status = EFI_SUCCESS then
            State_Monad.return (if bufferSize = 0 \<or> bufferSize > requiredSize then Inl EFI_COMPROMISED_DATA
              else Inr (attributes, take bufferSize (buffer @ replicate requiredSize 0)))
          else if status \<noteq> EFI_BUFFER_TOO_SMALL \<or> bufferSize = 0 \<or> bufferSize > maximumSize
          then State_Monad.return (Inl status)
          else ReadVariableLoop n sv name maximumSize bufferSize)
        (\<lambda>r _. case r of Inl _ \<Rightarrow> True | Inr (_, bytes) \<Rightarrow> 0 < length bytes \<and> length bytes \<le> maximumSize)) w1"
    if "requiredSize \<le> maximumSize" for w1
    by (rule wp_mono [OF wp_True]) (use that Suc.IH in \<open>auto split: prod.splits\<close>)
  show ?case
  proof (cases "requiredSize = 0 \<or> requiredSize > maximumSize")
    case False
    show ?thesis unfolding ReadVariableLoop.simps if_not_P [OF False] wp_bind
      by (rule wp_mono [OF wp_True]) (use False in \<open>auto intro: wp_mono [OF ok] split: prod.splits\<close>)
  qed auto
qed simp

end
