(* ===== verification/Dev_Order.thy ===== *)
theory Dev_Order
  imports Boot_Services
begin

text \<open>
  \<open>LegacyBootOrder.inc\<close>: the strict reading of the \<open>LegacyDevOrder\<close> variable. A group of the variable is a BBS
  type, a length and 16-bit words that each name a row of the table, with the high byte \<open>0xFF\<close> for a
  disabled one.
\<close>

record order_state =
  os_SeenType :: "NCV_U8 \<Rightarrow> bool"
  os_SeenIndex :: "nat \<Rightarrow> bool"
  os_Ranks :: "NCV_U16 list"
  os_Disabled :: "bool list"
  os_GlobalRank :: NCV_U16

definition LegacyBootReadLe16 :: "NCV_U8 list \<Rightarrow> nat \<Rightarrow> NCV_U16" where
  "LegacyBootReadLe16 bs i = ucast (bs ! i) OR push_bit 8 (ucast (bs ! (i + 1)))"

section \<open>Operations\<close>

text \<open>The checks of one group header: its type, its length and the state with the type marked.\<close>

definition OrderHeader :: "NCV_U8 list \<Rightarrow> nat \<Rightarrow> order_state \<Rightarrow> EFI_STATUS + NCV_U8 \<times> nat \<times> order_state" where
  "OrderHeader variable offset st =
     (if length variable - offset < 3 then Inl EFI_COMPROMISED_DATA
      else let bbsType = variable ! offset; len = unat (LegacyBootReadLe16 variable (offset + 1))
           in if len < 2 \<or> odd len \<or> len > length variable - offset - 1 then Inl EFI_COMPROMISED_DATA
              else if os_SeenType st bbsType then Inl EFI_COMPROMISED_DATA
              else Inr (bbsType, len, st\<lparr>os_SeenType := (os_SeenType st)(bbsType := True)\<rparr>))"

text \<open>One data word of a group.\<close>

definition OrderDatum :: "BBS_TABLE list \<Rightarrow> nat \<Rightarrow> NCV_U8 \<Rightarrow> order_state \<Rightarrow> NCV_U16 \<Rightarrow> EFI_STATUS + order_state" where
  "OrderDatum journal bbsCount bbsType st encodedIndex =
     (let liveIndex = unat (encodedIndex AND 0x00FF); highByte = encodedIndex AND 0xFF00
      in if highByte \<noteq> 0 \<and> highByte \<noteq> 0xFF00 then Inl EFI_COMPROMISED_DATA
         else if liveIndex \<ge> bbsCount \<or> os_SeenIndex st liveIndex then Inl EFI_COMPROMISED_DATA
         else if b_DeviceType (journal ! liveIndex) \<noteq> ucast bbsType
                 \<or> \<not> LegacyBootBbsPriorityIsValid (b_BootPriority (journal ! liveIndex)) then Inl EFI_COMPROMISED_DATA
         else Inr (st\<lparr>os_SeenIndex := (os_SeenIndex st)(liveIndex := True),
                      os_Ranks := (os_Ranks st)[liveIndex := os_GlobalRank st],
                      os_GlobalRank := os_GlobalRank st + 1,
                      os_Disabled := (os_Disabled st)[liveIndex := (highByte = 0xFF00)]\<rparr>))"

text \<open>The loop over the data words; a failed log call stops it.\<close>

fun DataLoop ::
  "'w boot_services \<Rightarrow> BBS_TABLE list \<Rightarrow> nat \<Rightarrow> NCV_U8 \<Rightarrow> NCV_U16 list \<Rightarrow> order_state \<Rightarrow> ('w, EFI_STATUS + order_state) state" where
  "DataLoop sv journal bbsCount bbsType [] st = State_Monad.return (Inr st)"
| "DataLoop sv journal bbsCount bbsType (encodedIndex # rest) st =
     (case OrderDatum journal bbsCount bbsType st encodedIndex of
        Inl e \<Rightarrow> do { _ \<leftarrow> bs_LogPrint sv ''LegacyDevOrder data''; State_Monad.return (Inl e) }
      | Inr st \<Rightarrow> do {
          status \<leftarrow> bs_LogPrint sv ''data'';
          if EFI_ERROR status then State_Monad.return (Inl status)
          else DataLoop sv journal bbsCount bbsType rest st
        })"

definition GroupData :: "NCV_U8 list \<Rightarrow> nat \<Rightarrow> nat \<Rightarrow> NCV_U16 list" where
  "GroupData variable offset len = map (\<lambda>i. LegacyBootReadLe16 variable (offset + 3 + i * 2)) [0..<(len - 2) div 2]"

function OrderLoop ::
  "'w boot_services \<Rightarrow> BBS_TABLE list \<Rightarrow> nat \<Rightarrow> NCV_U8 list \<Rightarrow> nat \<Rightarrow> order_state \<Rightarrow> ('w, EFI_STATUS + order_state) state" where
  "OrderLoop sv journal bbsCount variable offset st =
     (if offset < length variable then
        (case OrderHeader variable offset st of
           Inl e \<Rightarrow> do { _ \<leftarrow> bs_LogPrint sv ''LegacyDevOrder''; State_Monad.return (Inl e) }
         | Inr (bbsType, len, st) \<Rightarrow> do {
             status \<leftarrow> bs_LogPrint sv ''LegacyDevOrder entry'';
             if EFI_ERROR status then State_Monad.return (Inl status)
             else do {
               r \<leftarrow> DataLoop sv journal bbsCount bbsType (GroupData variable offset len) st;
               case r of Inl e \<Rightarrow> State_Monad.return (Inl e)
               | Inr st \<Rightarrow> OrderLoop sv journal bbsCount variable (offset + (1 + len)) st
             }
           })
      else State_Monad.return (Inr st))"
  by pat_completeness auto
termination by (relation "measure (\<lambda>(sv, j, c, variable, offset, st). length variable - offset)") auto

declare OrderLoop.simps [simp del]

definition InitOrder :: "nat \<Rightarrow> order_state" where
  "InitOrder bbsCount = \<lparr>os_SeenType = (\<lambda>_. False), os_SeenIndex = (\<lambda>_. False),
     os_Ranks = replicate bbsCount 0xFFFF, os_Disabled = replicate bbsCount False, os_GlobalRank = 0\<rparr>"

text \<open>Does the variable name exactly the rows with a valid priority?\<close>

definition CompleteCoverage :: "BBS_TABLE list \<Rightarrow> nat \<Rightarrow> order_state \<Rightarrow> bool" where
  "CompleteCoverage journal bbsCount st =
     list_all (\<lambda>i. LegacyBootBbsPriorityIsValid (b_BootPriority (journal ! i)) = os_SeenIndex st i) [0..<bbsCount]"

definition LegacyBootLogLegacyDevOrderFallback :: "'w boot_services \<Rightarrow> ('w, EFI_STATUS) state" where
  "LegacyBootLogLegacyDevOrderFallback sv = do {
     status \<leftarrow> bs_LogPrint sv ''LegacyDevOrder'';
     if EFI_ERROR status then State_Monad.return status else bs_LogFlush sv
   }"

definition unusable_order :: "LEGACY_BOOT_BOOT_TARGET_CONTEXT \<Rightarrow> LEGACY_BOOT_BOOT_TARGET_CONTEXT" where
  "unusable_order c = c\<lparr>bt_LegacyDevOrderPresent := False, bt_LegacyDevOrderUsable := False\<rparr>"

definition FallBack ::
  "'w boot_services \<Rightarrow> LEGACY_BOOT_BOOT_TARGET_CONTEXT \<Rightarrow> ('w, EFI_STATUS \<times> LEGACY_BOOT_BOOT_TARGET_CONTEXT) state" where
  "FallBack sv c = do { status \<leftarrow> LegacyBootLogLegacyDevOrderFallback sv; State_Monad.return (status, unusable_order c) }"

definition LEGACY_BOOT_LEGACY_DEV_ORDER_MAX_BYTES :: nat where [ncv_defs]: "LEGACY_BOOT_LEGACY_DEV_ORDER_MAX_BYTES = 4096"
definition EFI_VARIABLE_BOOTSERVICE_ACCESS :: NCV_U32 where "EFI_VARIABLE_BOOTSERVICE_ACCESS = 2"

text \<open>What \<open>LegacyBootCaptureLegacyDevOrder\<close> does once the variable and the two arrays are there.\<close>

definition ParseOrder ::
  "'w boot_services \<Rightarrow> LEGACY_BOOT_BOOT_TARGET_CONTEXT \<Rightarrow> BBS_TABLE list \<Rightarrow> NCV_U32 \<Rightarrow> NCV_U8 list \<Rightarrow>
   ('w, EFI_STATUS \<times> LEGACY_BOOT_BOOT_TARGET_CONTEXT) state" where
  "ParseOrder sv c journal attributes variable = do {
     status \<leftarrow> bs_LogPrint sv ''Read-only pinned LegacyDevOrder validation'';
     if EFI_ERROR status then FallBack sv c
     else do {
       r \<leftarrow> OrderLoop sv journal (bt_BbsCount c) variable 0 (InitOrder (bt_BbsCount c));
       case r of Inl _ \<Rightarrow> FallBack sv c
       | Inr st \<Rightarrow>
           if \<not> CompleteCoverage journal (bt_BbsCount c) st
           then do { _ \<leftarrow> bs_LogPrint sv ''LegacyDevOrder complete-coverage failure''; FallBack sv c }
           else do {
             status \<leftarrow> (if os_Disabled st ! bt_LiveBbsIndex c then bs_LogPrint sv ''NCV_DISK_FIRMWARE_WARNING_ORDER''
                          else State_Monad.return EFI_SUCCESS);
             if EFI_ERROR status then FallBack sv c
             else let c = c\<lparr>bt_LegacyDevOrderPresent := True, bt_LegacyDevOrderUsable := True,
                            bt_LegacyDevOrderAttributes := attributes, bt_LegacyDevOrderData := Some variable,
                            bt_LegacyDevOrderCrc32 := LegacyBootCrc32 (Some variable),
                            bt_LegacyDevOrderRanks := Some (os_Ranks st), bt_LegacyDevOrderDisabled := Some (os_Disabled st)\<rparr>
                  in do {
                    status \<leftarrow> bs_LogPrint sv ''LegacyDevOrder strict validation passed'';
                    if EFI_ERROR status then State_Monad.return (status, c)
                    else do { status \<leftarrow> bs_LogFlush sv; State_Monad.return (status, c) }
                  }
           }
     }
   }"

definition LegacyBootCaptureLegacyDevOrder ::
  "'w boot_services \<Rightarrow> LEGACY_BOOT_BOOT_TARGET_CONTEXT \<Rightarrow> ('w, EFI_STATUS \<times> LEGACY_BOOT_BOOT_TARGET_CONTEXT) state" where
  "LegacyBootCaptureLegacyDevOrder sv c =
     (case bt_BbsJournal c of
        None \<Rightarrow> State_Monad.return (EFI_INVALID_PARAMETER, c)
      | Some journal \<Rightarrow>
          if bt_BbsCount c = 0 \<or> bt_BbsCount c > LEGACY_BOOT_BOOT_TARGET_MAX_BBS_ENTRIES
             \<or> bt_LegacyDevOrderData c \<noteq> None \<or> bt_LegacyDevOrderRanks c \<noteq> None \<or> bt_LegacyDevOrderDisabled c \<noteq> None
          then State_Monad.return (EFI_INVALID_PARAMETER, c)
          else do {
            r \<leftarrow> LegacyBootReadVariableBounded sv ''LegacyDevOrder'' LEGACY_BOOT_LEGACY_DEV_ORDER_MAX_BYTES;
            case r of Inl _ \<Rightarrow> FallBack sv c
            | Inr (attributes, variable) \<Rightarrow>
                if attributes AND EFI_VARIABLE_BOOTSERVICE_ACCESS = 0 then FallBack sv c
                else do {
                  ranks \<leftarrow> Pool sv (bt_BbsCount c * 2);
                  disabled \<leftarrow> Pool sv (bt_BbsCount c);
                  if \<not> ranks \<or> \<not> disabled then State_Monad.return (EFI_OUT_OF_RESOURCES, c)
                  else ParseOrder sv c journal attributes variable
                }
          })"

text \<open>The later re-reads, which have to find the captured variable again.\<close>

definition LegacyBootVerifyLegacyDevOrderSnapshot ::
  "'w boot_services \<Rightarrow> LEGACY_BOOT_BOOT_TARGET_CONTEXT option \<Rightarrow> string \<Rightarrow> bool \<Rightarrow> ('w, EFI_STATUS) state" where
  "LegacyBootVerifyLegacyDevOrderSnapshot sv context' label flushResult =
     (case context' of None \<Rightarrow> State_Monad.return EFI_INVALID_PARAMETER
      | Some c \<Rightarrow> do {
          r \<leftarrow> LegacyBootReadVariableBounded sv ''LegacyDevOrder'' LEGACY_BOOT_LEGACY_DEV_ORDER_MAX_BYTES;
          if \<not> bt_LegacyDevOrderUsable c then do {
            status \<leftarrow> bs_LogPrint sv label;
            if EFI_ERROR status then State_Monad.return status
            else if flushResult then bs_LogFlush sv else State_Monad.return EFI_SUCCESS
          } else if (case r of Inl _ \<Rightarrow> False
                | Inr (attributes, variable) \<Rightarrow>
                    attributes = bt_LegacyDevOrderAttributes c \<and> LegacyBootCrc32 (Some variable) = bt_LegacyDevOrderCrc32 c \<and>
                    Some variable = bt_LegacyDevOrderData c)
          then do {
            status \<leftarrow> bs_LogPrint sv label;
            if EFI_ERROR status then State_Monad.return status
            else if flushResult then bs_LogFlush sv else State_Monad.return EFI_SUCCESS
          } else do {
            _ \<leftarrow> bs_LogPrint sv label;
            _ \<leftarrow> (if flushResult then bs_LogFlush sv else State_Monad.return EFI_SUCCESS);
            State_Monad.return EFI_ABORTED
          }
        })"


section \<open>The format of the variable\<close>

definition le16 :: "NCV_U16 \<Rightarrow> NCV_U8 list" where
  "le16 w = [ucast w, ucast (drop_bit 8 w)]"

text \<open>A group is its type and its words; the length counts itself and the words.\<close>

definition encode_group :: "NCV_U8 \<times> NCV_U16 list \<Rightarrow> NCV_U8 list" where
  "encode_group g = fst g # le16 (of_nat (2 + 2 * length (snd g))) @ concat (map le16 (snd g))"

definition order_items :: "(NCV_U8 \<times> NCV_U16 list) list \<Rightarrow> (NCV_U8 \<times> NCV_U16) list" where
  "order_items gs = concat (map (\<lambda>(t, ws). map (Pair t) ws) gs)"

definition named_row :: "NCV_U8 \<times> NCV_U16 \<Rightarrow> nat" where
  "named_row item = unat (snd item AND 0x00FF)"

definition row_disabled :: "NCV_U8 \<times> NCV_U16 \<Rightarrow> bool" where
  "row_disabled item = (snd item AND 0xFF00 = 0xFF00)"

text \<open>Every word names a row of its group's type that has a valid priority, and no row is named twice.\<close>

definition items_ok :: "BBS_TABLE list \<Rightarrow> nat \<Rightarrow> (NCV_U8 \<times> NCV_U16) list \<Rightarrow> bool" where
  "items_ok journal n items \<longleftrightarrow> distinct (map named_row items) \<and>
     (\<forall>item\<in>set items. named_row item < n \<and> (snd item AND 0xFF00 = 0 \<or> row_disabled item) \<and>
       b_DeviceType (journal ! named_row item) = ucast (fst item) \<and>
       LegacyBootBbsPriorityIsValid (b_BootPriority (journal ! named_row item)))"

text \<open>The ranks number the named rows in the order of the variable; the other rows keep \<open>0xFFFF\<close>.\<close>

definition ranks_of :: "nat \<Rightarrow> (NCV_U8 \<times> NCV_U16) list \<Rightarrow> NCV_U16 list \<Rightarrow> bool list \<Rightarrow> bool" where
  "ranks_of n items ranks disabled \<longleftrightarrow> length ranks = n \<and> length disabled = n \<and>
     (\<forall>k<length items. ranks ! named_row (items ! k) = of_nat k \<and> disabled ! named_row (items ! k) = row_disabled (items ! k)) \<and>
     (\<forall>i<n. i \<notin> named_row ` set items \<longrightarrow> ranks ! i = 0xFFFF \<and> \<not> disabled ! i)"

definition order_inv :: "BBS_TABLE list \<Rightarrow> nat \<Rightarrow> (NCV_U8 \<times> NCV_U16) list \<Rightarrow> order_state \<Rightarrow> bool" where
  "order_inv journal n items st \<longleftrightarrow> items_ok journal n items \<and> ranks_of n items (os_Ranks st) (os_Disabled st) \<and>
     os_GlobalRank st = of_nat (length items) \<and> (\<forall>i. os_SeenIndex st i = (i \<in> named_row ` set items))"

lemma OrderDatum_inv:
  assumes inv: "order_inv journal n items st" and ok: "OrderDatum journal n t st w = Inr st'"
  shows "order_inv journal n (items @ [(t, w)]) st' \<and> os_SeenType st' = os_SeenType st"
proof -
  let ?i = "unat (w AND 0x00FF)"
  have facts: "w AND 0xFF00 = 0 \<or> w AND 0xFF00 = 0xFF00" "?i < n" "\<not> os_SeenIndex st ?i"
      "b_DeviceType (journal ! ?i) = ucast t" "LegacyBootBbsPriorityIsValid (b_BootPriority (journal ! ?i))"
    and st': "st' = st\<lparr>os_SeenIndex := (os_SeenIndex st)(?i := True),
                      os_Ranks := (os_Ranks st)[?i := os_GlobalRank st],
                      os_GlobalRank := os_GlobalRank st + 1,
                      os_Disabled := (os_Disabled st)[?i := (w AND 0xFF00 = 0xFF00)]\<rparr>"
    using ok by (auto simp: OrderDatum_def Let_def split: if_splits)
  have new: "?i \<notin> named_row ` set items" using facts(3) inv by (simp add: order_inv_def)
  then have ne: "named_row (items ! k) \<noteq> ?i" if "k < length items" for k using that by (metis image_eqI nth_mem)
  have row: "named_row (t, w) = ?i" by (simp add: named_row_def)
  have "items_ok journal n (items @ [(t, w)])"
    using inv facts(1,2,4,5) new by (auto simp: order_inv_def items_ok_def row row_disabled_def)
  moreover have "ranks_of n (items @ [(t, w)]) (os_Ranks st') (os_Disabled st')"
    using inv facts(2) ne
    by (auto simp: order_inv_def ranks_of_def st' row row_disabled_def nth_append nth_list_update less_Suc_eq) blast+
  ultimately show ?thesis using inv by (auto simp: order_inv_def st' row)
qed

lemma DataLoop_inv:
  "order_inv journal n items st \<Longrightarrow>
   wp (DataLoop sv journal n t ws st)
     (\<lambda>r _. \<forall>st'. r = Inr st' \<longrightarrow> order_inv journal n (items @ map (Pair t) ws) st' \<and> os_SeenType st' = os_SeenType st) w"
proof (induction ws arbitrary: items st w)
  case (Cons a ws)
  show ?case
  proof (cases "OrderDatum journal n t st a")
    case (Inl e)
    then show ?thesis by (auto intro: wp_mono [OF wp_True])
  next
    case (Inr st1)
    note step = OrderDatum_inv [OF Cons.prems Inr]
    have go: "wp (DataLoop sv journal n t ws st1)
        (\<lambda>r _. \<forall>st'. r = Inr st' \<longrightarrow> order_inv journal n (items @ map (Pair t) (a # ws)) st' \<and> os_SeenType st' = os_SeenType st) w1" for w1
    proof (rule wp_mono [OF Cons.IH [of "items @ [(t, a)]" st1 w1]])
      show "order_inv journal n (items @ [(t, a)]) st1" using step ..
    qed (insert step, intro allI impI, drule spec, drule mp, assumption, simp)
    show ?thesis
      unfolding DataLoop.simps Inr sum.case wp_bind wp_if
      by (rule wp_mono [OF wp_True], split if_split, intro conjI impI) (simp, rule go)
  qed
qed simp

subsection \<open>Reading a group\<close>

lemma LegacyBootReadLe16_bytes:
  assumes "i + 1 < length bs"
  shows "le16 (LegacyBootReadLe16 bs i) = [bs ! i, bs ! (i + 1)]"
proof -
  have "(ucast (ucast a OR push_bit 8 (ucast b) :: NCV_U16) :: NCV_U8) = a"
    "(ucast (drop_bit 8 (ucast a OR push_bit 8 (ucast b) :: NCV_U16)) :: NCV_U8) = b" for a b :: NCV_U8
    by (rule bit_word_eqI; auto simp: bit_simps dest: bit_imp_le_length)+
  then show ?thesis by (simp add: le16_def LegacyBootReadLe16_def)
qed

lemma take_two_more:
  assumes "m + 2 * n + 2 \<le> length bs"
  shows "take (2 + 2 * n) (drop m bs) = take (2 * n) (drop m bs) @ [bs ! (m + n * 2), bs ! (m + n * 2 + 1)]"
proof -
  have "take (Suc (Suc (2 * n))) (drop m bs) = take (2 * n) (drop m bs) @ [drop m bs ! (2 * n), drop m bs ! Suc (2 * n)]"
    using assms by (simp only: take_Suc_conv_app_nth length_drop) simp
  then show ?thesis using assms by (simp add: mult.commute add.assoc)
qed

lemma GroupData_bytes:
  assumes "offset + 3 + 2 * n \<le> length bs"
  shows "concat (map le16 (map (\<lambda>i. LegacyBootReadLe16 bs (offset + 3 + i * 2)) [0..<n])) = take (2 * n) (drop (offset + 3) bs)"
  using assms
proof (induction n)
  case (Suc n)
  have "take (2 + 2 * n) (drop (offset + 3) bs) =
      take (2 * n) (drop (offset + 3) bs) @ [bs ! (offset + 3 + n * 2), bs ! (offset + 3 + n * 2 + 1)]"
    by (rule take_two_more) (use Suc.prems in simp)
  then show ?case using Suc.prems Suc.IH by (simp add: LegacyBootReadLe16_bytes)
qed simp


lemma OrderHeader_bytes:
  assumes ok: "OrderHeader variable offset st = Inr (t, len, st1)" and "offset < length variable"
  shows "take (offset + (1 + len)) variable = take offset variable @ encode_group (t, GroupData variable offset len) \<and>
    offset + (1 + len) \<le> length variable \<and> \<not> os_SeenType st t \<and> st1 = st\<lparr>os_SeenType := (os_SeenType st)(t := True)\<rparr>"
proof -
  have facts: "t = variable ! offset" "len = unat (LegacyBootReadLe16 variable (offset + 1))" "2 \<le> len" "even len"
      "len \<le> length variable - offset - 1" "\<not> os_SeenType st t" "st1 = st\<lparr>os_SeenType := (os_SeenType st)(t := True)\<rparr>"
    using ok by (auto simp: OrderHeader_def Let_def split: if_splits)
  let ?v = "drop offset variable"
  let ?ws = "GroupData variable offset len"
  have room: "offset + 1 + len \<le> length variable" "3 \<le> length variable - offset" using facts(3,5) assms(2) by auto
  have "len = 2 + 2 * ((len - 2) div 2)" using facts(3,4) by presburger
  then obtain n where n: "len = 2 + 2 * n" ..
  have words: "length ?ws = n" by (simp add: GroupData_def n)
  have word: "of_nat (2 + 2 * length ?ws) = LegacyBootReadLe16 variable (offset + 1)"
    unfolding words by (simp only: flip: n) (simp add: facts(2))
  have "encode_group (t, ?ws) = [variable ! offset, variable ! (offset + 1), variable ! (offset + 2)] @ take (2 * n) (drop (offset + 3) variable)"
    unfolding encode_group_def fst_conv snd_conv word
    using GroupData_bytes [of offset n variable] room by (simp add: GroupData_def n LegacyBootReadLe16_bytes facts(1))
  also have "\<dots> = take (1 + len) ?v"
  proof (rule nth_equalityI)
    fix i
    assume "i < length ([variable ! offset, variable ! (offset + 1), variable ! (offset + 2)] @ take (2 * n) (drop (offset + 3) variable))"
    then have "i < 3 + 2 * n" by simp
    then consider "i = 0" | "i = 1" | "i = 2" | j where "i = 3 + j" "j < 2 * n"
      by (metis One_nat_def add_2_eq_Suc' add_less_cancel_left le_Suc_ex less_2_cases not_less less_antisym numeral_3_eq_3 numeral_2_eq_2)
    then show "([variable ! offset, variable ! (offset + 1), variable ! (offset + 2)] @ take (2 * n) (drop (offset + 3) variable)) ! i =
        take (1 + len) ?v ! i"
      by cases (use room n in \<open>simp_all add: nth_append ac_simps\<close>)
  qed (use room n in simp)
  finally show ?thesis using facts(6,7) room by (simp only: take_add) simp
qed

definition groups_inv ::
  "BBS_TABLE list \<Rightarrow> nat \<Rightarrow> NCV_U8 list \<Rightarrow> nat \<Rightarrow> (NCV_U8 \<times> NCV_U16 list) list \<Rightarrow> order_state \<Rightarrow> bool" where
  "groups_inv journal n variable offset gs st \<longleftrightarrow>
     offset \<le> length variable \<and> take offset variable = concat (map encode_group gs) \<and> distinct (map fst gs) \<and>
     (\<forall>t. os_SeenType st t = (t \<in> fst ` set gs)) \<and> order_inv journal n (order_items gs) st"

lemma order_items_snoc: "order_items (gs @ [(t, ws)]) = order_items gs @ map (Pair t) ws"
  by (simp add: order_items_def)

lemma groups_inv_step:
  assumes "groups_inv journal n variable offset gs st" and "offset < length variable"
    and hd: "OrderHeader variable offset st = Inr (t, len, st1)"
  shows "order_inv journal n (order_items gs) st1"
    and "order_inv journal n (order_items gs @ map (Pair t) (GroupData variable offset len)) st2 \<Longrightarrow>
      os_SeenType st2 = os_SeenType st1 \<Longrightarrow>
      groups_inv journal n variable (offset + (1 + len)) (gs @ [(t, GroupData variable offset len)]) st2"
proof -
  note h = OrderHeader_bytes [OF hd assms(2)]
  show "order_inv journal n (order_items gs) st1"
    using assms(1) h by (simp add: groups_inv_def order_inv_def)
  assume "order_inv journal n (order_items gs @ map (Pair t) (GroupData variable offset len)) st2" "os_SeenType st2 = os_SeenType st1"
  then show "groups_inv journal n variable (offset + (1 + len)) (gs @ [(t, GroupData variable offset len)]) st2"
    using assms(1) h by (auto simp: groups_inv_def order_items_snoc)
qed

lemma OrderLoop_inv:
  "groups_inv journal n variable offset gs st \<Longrightarrow>
   wp (OrderLoop sv journal n variable offset st)
     (\<lambda>r _. \<forall>st'. r = Inr st' \<longrightarrow> (\<exists>gs. groups_inv journal n variable (length variable) gs st')) w"
proof (induction "length variable - offset" arbitrary: offset gs st w rule: less_induct)
  case less
  show ?case
  proof (cases "offset < length variable")
    case False
    then have "offset = length variable" using less.prems by (simp add: groups_inv_def)
    then show ?thesis using less.prems by (subst OrderLoop.simps) auto
  next
    case True
    show ?thesis
    proof (cases "OrderHeader variable offset st")
      case (Inl e)
      then show ?thesis using True by (subst OrderLoop.simps) (auto intro: wp_mono [OF wp_True])
    next
      case (Inr p)
      obtain t len st1 where p: "p = (t, len, st1)" by (cases p)
      note step = groups_inv_step [OF less.prems True Inr [unfolded p]]
      let ?Q = "\<lambda>r _. \<forall>st'. r = Inr st' \<longrightarrow> (\<exists>gs. groups_inv journal n variable (length variable) gs st')"
      have go: "wp (case r of Inl e \<Rightarrow> State_Monad.return (Inl e)
          | Inr st \<Rightarrow> OrderLoop sv journal n variable (offset + (1 + len)) st) ?Q w2"
        if "\<forall>st'. r = Inr st' \<longrightarrow> order_inv journal n (order_items gs @ map (Pair t) (GroupData variable offset len)) st' \<and>
          os_SeenType st' = os_SeenType st1" for r w2
      proof (cases r)
        case (Inr st2)
        then have "groups_inv journal n variable (offset + (1 + len)) (gs @ [(t, GroupData variable offset len)]) st2"
          using step(2) that by blast
        moreover have "length variable - (offset + (1 + len)) < length variable - offset" using True by simp
        ultimately show ?thesis using less.hyps by (simp add: Inr del: One_nat_def)
      qed simp
      have "wp (do {
               r \<leftarrow> DataLoop sv journal n t (GroupData variable offset len) st1;
               case r of Inl e \<Rightarrow> State_Monad.return (Inl e)
               | Inr st \<Rightarrow> OrderLoop sv journal n variable (offset + (1 + len)) st}) ?Q w1" for w1
        unfolding wp_bind by (rule wp_mono [OF DataLoop_inv [OF step(1)]]) (rule go)
      then show ?thesis
        unfolding OrderLoop.simps [of sv journal n variable offset] if_P [OF True] Inr p sum.case prod.case wp_bind wp_if
        by (intro wp_mono [OF wp_True]) (split if_split, simp)
    qed
  qed
qed


section \<open>What a usable order says\<close>

text \<open>
  The variable is a sequence of groups of different types whose words name exactly the rows with a
  valid priority, each once and under its own type, and the ranks are the rows' places in it.
\<close>

definition order_captured :: "LEGACY_BOOT_BOOT_TARGET_CONTEXT \<Rightarrow> bool" where
  "order_captured c \<longleftrightarrow> (\<exists>gs journal ranks disabled.
     bt_BbsJournal c = Some journal \<and> bt_LegacyDevOrderData c = Some (concat (map encode_group gs)) \<and>
     bt_LegacyDevOrderRanks c = Some ranks \<and> bt_LegacyDevOrderDisabled c = Some disabled \<and>
     distinct (map fst gs) \<and> items_ok journal (bt_BbsCount c) (order_items gs) \<and>
     named_row ` set (order_items gs) =
       {i. i < bt_BbsCount c \<and> LegacyBootBbsPriorityIsValid (b_BootPriority (journal ! i))} \<and>
     ranks_of (bt_BbsCount c) (order_items gs) ranks disabled)"

lemma InitOrder_inv: "groups_inv journal n variable 0 [] (InitOrder n)"
  by (simp add: groups_inv_def InitOrder_def order_items_def order_inv_def items_ok_def ranks_of_def)

lemma CompleteCoverage_rows:
  assumes "order_inv journal n items st" and "CompleteCoverage journal n st"
  shows "named_row ` set items = {i. i < n \<and> LegacyBootBbsPriorityIsValid (b_BootPriority (journal ! i))}"
  using assms by (force simp: order_inv_def CompleteCoverage_def list_all_iff items_ok_def)

lemma order_captured_intro:
  assumes inv: "groups_inv journal (bt_BbsCount c) variable (length variable) gs st" and "CompleteCoverage journal (bt_BbsCount c) st"
    and "bt_BbsJournal c = Some journal"
  shows "order_captured (c\<lparr>bt_LegacyDevOrderPresent := True, bt_LegacyDevOrderUsable := True,
      bt_LegacyDevOrderAttributes := attributes, bt_LegacyDevOrderData := Some variable,
      bt_LegacyDevOrderCrc32 := LegacyBootCrc32 (Some variable),
      bt_LegacyDevOrderRanks := Some (os_Ranks st), bt_LegacyDevOrderDisabled := Some (os_Disabled st)\<rparr>)"
proof -
  have o: "order_inv journal (bt_BbsCount c) (order_items gs) st" using inv by (simp add: groups_inv_def)
  note rows = CompleteCoverage_rows [OF o assms(2)]
  show ?thesis unfolding order_captured_def
    by (rule exI [of _ gs]) (use inv rows assms(3) in \<open>simp add: groups_inv_def order_inv_def\<close>)
qed

definition capture_result :: "LEGACY_BOOT_BOOT_TARGET_CONTEXT \<Rightarrow> EFI_STATUS \<times> LEGACY_BOOT_BOOT_TARGET_CONTEXT \<Rightarrow> bool" where
  "capture_result c r \<longleftrightarrow> (bt_LegacyDevOrderUsable (snd r) \<longrightarrow> snd r = c \<or> order_captured (snd r))"

lemma FallBack_result: "wp (FallBack sv c) (\<lambda>r _. capture_result c0 r) w"
  by (auto simp: FallBack_def capture_result_def unusable_order_def intro: wp_mono [OF wp_True])

lemma ParseOrder_result:
  assumes "bt_BbsJournal c = Some journal"
  shows "wp (ParseOrder sv c journal attributes variable) (\<lambda>r _. capture_result c r) w"
proof -
  let ?c = "\<lambda>st. c\<lparr>bt_LegacyDevOrderPresent := True, bt_LegacyDevOrderUsable := True,
      bt_LegacyDevOrderAttributes := attributes, bt_LegacyDevOrderData := Some variable,
      bt_LegacyDevOrderCrc32 := LegacyBootCrc32 (Some variable),
      bt_LegacyDevOrderRanks := Some (os_Ranks st), bt_LegacyDevOrderDisabled := Some (os_Disabled st)\<rparr>"
  let ?tail = "\<lambda>st. do {
      status \<leftarrow> (if os_Disabled st ! bt_LiveBbsIndex c then bs_LogPrint sv ''NCV_DISK_FIRMWARE_WARNING_ORDER''
                   else State_Monad.return EFI_SUCCESS);
      if EFI_ERROR status then FallBack sv c
      else let c = ?c st in do {
             status \<leftarrow> bs_LogPrint sv ''LegacyDevOrder strict validation passed'';
             if EFI_ERROR status then State_Monad.return (status, c)
             else do { status \<leftarrow> bs_LogFlush sv; State_Monad.return (status, c) } } }"
  have tail: "wp (?tail st) (\<lambda>r _. capture_result c r) w"
    if "groups_inv journal (bt_BbsCount c) variable (length variable) gs st" "CompleteCoverage journal (bt_BbsCount c) st" for gs st w
  proof -
    have "capture_result c (status, ?c st)" for status
      unfolding capture_result_def snd_conv by (intro impI disjI2 order_captured_intro [OF that assms])
    then have ends: "wp (do {
        status \<leftarrow> bs_LogPrint sv ''LegacyDevOrder strict validation passed'';
        if EFI_ERROR status then State_Monad.return (status, ?c st)
        else do { status \<leftarrow> bs_LogFlush sv; State_Monad.return (status, ?c st) } }) (\<lambda>r _. capture_result c r) w" for w
      unfolding wp_bind wp_if wp_return by (intro wp_mono [OF wp_True]) (split if_split, intro conjI impI wp_mono [OF wp_True])
    show ?thesis unfolding Let_def wp_bind [of _ "\<lambda>status. if EFI_ERROR status then FallBack sv c else _ status"]
      by (rule wp_mono [OF wp_True], unfold wp_if, split if_split) (intro conjI impI FallBack_result ends)
  qed
  have go: "wp (case r of Inl _ \<Rightarrow> FallBack sv c
       | Inr (st :: order_state) \<Rightarrow>
           if \<not> CompleteCoverage journal (bt_BbsCount c) st
           then do { _ \<leftarrow> bs_LogPrint sv ''LegacyDevOrder complete-coverage failure''; FallBack sv c }
           else ?tail st) (\<lambda>r _. capture_result c r) w"
    if "\<forall>st'. r = Inr st' \<longrightarrow> (\<exists>gs. groups_inv journal (bt_BbsCount c) variable (length variable) gs st')" for r w
  proof (cases r)
    case (Inr st)
    with that obtain gs where gs: "groups_inv journal (bt_BbsCount c) variable (length variable) gs st" by blast
    show ?thesis
    proof (cases "CompleteCoverage journal (bt_BbsCount c) st")
      case True
      show ?thesis using tail [OF gs True] True by (simp only: Inr sum.case not_True_eq_False if_False)
    qed (simp add: Inr FallBack_result wp_mono [OF wp_True])
  qed (simp add: FallBack_result)
  show ?thesis
    unfolding ParseOrder_def wp_bind wp_if
  proof (rule wp_mono [OF wp_True])
    fix status w1
    show "if EFI_ERROR status then wp (FallBack sv c) (\<lambda>r _. capture_result c r) w1
      else wp (OrderLoop sv journal (bt_BbsCount c) variable 0 (InitOrder (bt_BbsCount c))) (\<lambda>r.
        wp (case r of Inl _ \<Rightarrow> FallBack sv c
         | Inr st \<Rightarrow>
             if \<not> CompleteCoverage journal (bt_BbsCount c) st
             then do { _ \<leftarrow> bs_LogPrint sv ''LegacyDevOrder complete-coverage failure''; FallBack sv c }
             else ?tail st) (\<lambda>r _. capture_result c r)) w1"
      by (split if_split, intro conjI impI FallBack_result, rule wp_mono [OF OrderLoop_inv [OF InitOrder_inv]], rule go)
  qed
qed


lemma Capture_result: "wp (LegacyBootCaptureLegacyDevOrder sv c) (\<lambda>r _. capture_result c r) w"
proof (cases "bt_BbsJournal c")
  case None
  then show ?thesis by (simp add: LegacyBootCaptureLegacyDevOrder_def capture_result_def)
next
  case (Some journal)
  have same: "capture_result c (s, c)" for s by (simp add: capture_result_def)
  have go: "wp (case r of Inl _ \<Rightarrow> FallBack sv c
      | Inr (attributes, variable) \<Rightarrow>
          if attributes AND EFI_VARIABLE_BOOTSERVICE_ACCESS = 0 then FallBack sv c
          else do {
            ranks \<leftarrow> Pool sv (bt_BbsCount c * 2);
            disabled \<leftarrow> Pool sv (bt_BbsCount c);
            if \<not> ranks \<or> \<not> disabled then State_Monad.return (EFI_OUT_OF_RESOURCES, c)
            else ParseOrder sv c journal attributes variable
          }) (\<lambda>r _. capture_result c r) w" for r w
  proof (cases r)
    case (Inr p)
    have parse: "if \<not> b \<or> \<not> d then capture_result c (EFI_OUT_OF_RESOURCES, c)
        else wp (ParseOrder sv c journal (fst p) (snd p)) (\<lambda>r _. capture_result c r) t" for b d t
      by (split if_split) (intro conjI impI same ParseOrder_result [OF Some])
    show ?thesis unfolding Inr sum.case split_def wp_if wp_bind wp_return
      by (split if_split, intro impI conjI FallBack_result wp_mono [OF wp_True]) (rule parse)
  qed (simp add: FallBack_result)
  show ?thesis
    unfolding LegacyBootCaptureLegacyDevOrder_def Some option.case wp_if wp_return wp_bind
    by (split if_split, intro conjI impI same) (rule wp_mono [OF wp_True], rule go)
qed

text \<open>
  C21. The strict reading of the device order is sound: whatever the firmware answers, when
  \<open>LegacyBootCaptureLegacyDevOrder\<close> leaves a context marked usable that was not usable before, then the
  variable is a sequence of well-formed groups of different types, its words name exactly the rows with a valid
  priority, each once and under its own device type, and the ranks and disabled marks of the context are the place
  and the high byte of the row's word.
\<close>

theorem CaptureLegacyDevOrder_sound:
  assumes "\<not> bt_LegacyDevOrderUsable c"
    and "run_state (LegacyBootCaptureLegacyDevOrder sv c) w = ((status, c'), w')" and "bt_LegacyDevOrderUsable c'"
  shows "order_captured c'"
  using wp_run [OF Capture_result assms(2)] assms(1,3) by (auto simp: capture_result_def)

end
