(* ===== verification/Bbs_Strings.thy ===== *)
theory Bbs_Strings
  imports Boot_Services "HOL-Library.Sublist"
begin

text \<open>
  The string routines of \<open>LegacyBootTarget.c\<close>: comparison without regard to ASCII case, and the bounded copy of a
  real-mode far string. A text is the list of its characters before the terminator.
\<close>

section \<open>Case-insensitive comparison\<close>

definition LegacyBootAsciiUpper :: "NCV_U8 \<Rightarrow> NCV_U8" where
  "LegacyBootAsciiUpper c = (if c \<ge> 0x61 \<and> c \<le> 0x7A then c - 0x20 else c)"

definition LegacyBootUnicodeUpperAscii :: "CHAR16 \<Rightarrow> CHAR16" where
  "LegacyBootUnicodeUpperAscii c = (if c \<ge> 0x61 \<and> c \<le> 0x7A then c - 0x20 else c)"

text \<open>The inner loop: is the needle at the start of the text?\<close>

fun NeedleHere :: "CHAR16 list \<Rightarrow> CHAR16 list \<Rightarrow> bool" where
  "NeedleHere text [] = True"
| "NeedleHere [] (n # needle) = False"
| "NeedleHere (c # rest) (n # needle) =
     (if LegacyBootUnicodeUpperAscii c \<noteq> LegacyBootUnicodeUpperAscii n then False else NeedleHere rest needle)"

fun ContainsLoop :: "CHAR16 list \<Rightarrow> CHAR16 list \<Rightarrow> bool" where
  "ContainsLoop [] needle = False"
| "ContainsLoop (c # rest) needle = (if NeedleHere (c # rest) needle then True else ContainsLoop rest needle)"

definition LegacyBootUnicodeContainsInsensitive :: "CHAR16 list option \<Rightarrow> CHAR16 list option \<Rightarrow> bool" where
  "LegacyBootUnicodeContainsInsensitive text' needle' =
     (case (text', needle') of
        (Some t, Some n) \<Rightarrow> if n = [] then False else ContainsLoop t n
      | _ \<Rightarrow> False)"

fun EqualsLoop :: "CHAR16 list \<Rightarrow> CHAR16 list \<Rightarrow> bool" where
  "EqualsLoop [] [] = True"
| "EqualsLoop [] (r # right) = (if 0 \<noteq> LegacyBootUnicodeUpperAscii r then False else True)"
| "EqualsLoop (l # left) [] = (if LegacyBootUnicodeUpperAscii l \<noteq> 0 then False else EqualsLoop left [])"
| "EqualsLoop (l # left) (r # right) =
     (if LegacyBootUnicodeUpperAscii l \<noteq> LegacyBootUnicodeUpperAscii r then False else EqualsLoop left right)"

definition LegacyBootUnicodeEqualsInsensitive :: "CHAR16 list option \<Rightarrow> CHAR16 list option \<Rightarrow> bool" where
  "LegacyBootUnicodeEqualsInsensitive left' right' =
     (case (left', right') of (Some l, Some r) \<Rightarrow> EqualsLoop l r | _ \<Rightarrow> False)"

fun AsciiEqualsLoop :: "NCV_U8 list \<Rightarrow> CHAR16 list \<Rightarrow> bool" where
  "AsciiEqualsLoop [] [] = True"
| "AsciiEqualsLoop [] (n # needle) = (if n > 0x7F \<or> 0 \<noteq> (ucast (LegacyBootUnicodeUpperAscii n) :: NCV_U8) then False else True)"
| "AsciiEqualsLoop (c # rest) [] = (if LegacyBootAsciiUpper c \<noteq> 0 then False else True)"
| "AsciiEqualsLoop (c # rest) (n # needle) =
     (if n > 0x7F \<or> LegacyBootAsciiUpper c \<noteq> ucast (LegacyBootUnicodeUpperAscii n) then False else AsciiEqualsLoop rest needle)"

definition LegacyBootAsciiEqualsUnicodeInsensitive :: "NCV_U8 list option \<Rightarrow> CHAR16 list option \<Rightarrow> bool" where
  "LegacyBootAsciiEqualsUnicodeInsensitive text' needle' =
     (case (text', needle') of (Some t, Some n) \<Rightarrow> AsciiEqualsLoop t n | _ \<Rightarrow> False)"

section \<open>Far strings\<close>

definition LEGACY_BOOT_REAL_MODE_MAX_ADDRESS :: nat where [ncv_defs]: "LEGACY_BOOT_REAL_MODE_MAX_ADDRESS = 0x10FFEF"

text \<open>
  The buffer has 129 bytes and is zero before the call. The bytes are read up to the first
  terminator within the limit.
\<close>

definition LegacyBootCopyFarAsciiString ::
  "'w boot_services \<Rightarrow> MEMORY_MAP_SNAPSHOT \<Rightarrow> NCV_U16 \<Rightarrow> NCV_U16 \<Rightarrow> ('w, LEGACY_BOOT_FAR_STRING_RESULT \<times> NCV_U8 list) state" where
  "LegacyBootCopyFarAsciiString sv m segment offset =
     (if segment = 0 \<and> offset = 0 then State_Monad.return (LegacyBootFarStringAbsent, [])
      else let address = unat segment * 16 + unat offset;
               (readable, readableBytes) = MemoryMapRangeIsReadable (Some m) address 1 True
           in if address < EFI_PAGE_SIZE \<or> address > LEGACY_BOOT_REAL_MODE_MAX_ADDRESS \<or> \<not> readable
              then State_Monad.return (LegacyBootFarStringUnsafe, [])
              else let limit = min (min (min readableBytes LEGACY_BOOT_BOOT_TARGET_MAX_STRING_BYTES)
                                 (LEGACY_BOOT_REAL_MODE_MAX_ADDRESS - address + 1)) (LEGACY_BOOT_BOOT_TARGET_MAX_STRING_BYTES + 1 - 1)
                   in do {
                     source \<leftarrow> bs_ReadMemory sv address limit;
                     let source = take limit source;
                     State_Monad.return (if 0 \<in> set source
                       then (LegacyBootFarStringPresent, takeWhile (\<lambda>b. b \<noteq> 0) source)
                       else (LegacyBootFarStringTruncated, source))
                   })"

definition LegacyBootCopyManufacturer ::
  "'w boot_services \<Rightarrow> MEMORY_MAP_SNAPSHOT \<Rightarrow> BBS_TABLE \<Rightarrow> ('w, LEGACY_BOOT_FAR_STRING_RESULT \<times> NCV_U8 list) state" where
  "LegacyBootCopyManufacturer sv m entry = do {
     ev \<leftarrow> bs_Evidence sv;
     let (matches, missing) = LegacyStorageRomMatch (ev_Storage ev) (ev_StorageLive ev) (Some entry);
     if matches \<and> missing then State_Monad.return (LegacyBootFarStringAbsent, [])
     else LegacyBootCopyFarAsciiString sv m (b_MfgStringSegment entry) (b_MfgStringOffset entry)
   }"

definition LegacyBootSanitizeAsciiForLog :: "NCV_U8 list \<Rightarrow> nat \<Rightarrow> NCV_U8 list" where
  "LegacyBootSanitizeAsciiForLog input outputBytes =
     map (\<lambda>b. if b \<ge> 0x20 \<and> b \<le> 0x7E then b else 0x2E) (take (outputBytes - 1) (takeWhile (\<lambda>b. b \<noteq> 0) input))"

text \<open>The bytes of a string snapshot, for its CRC.\<close>

fun ReadResultByte :: "LEGACY_BOOT_FAR_STRING_RESULT \<Rightarrow> NCV_U8" where
  "ReadResultByte LegacyBootFarStringPresent = 0"
| "ReadResultByte LegacyBootFarStringAbsent = 1"
| "ReadResultByte LegacyBootFarStringUnsafe = 2"
| "ReadResultByte LegacyBootFarStringTruncated = 3"

definition TextBuffer :: "NCV_U8 list \<Rightarrow> NCV_U8 list" where
  "TextBuffer s = take 129 (s @ replicate 129 0)"

definition SnapshotBytes :: "LEGACY_BOOT_BBS_STRING_SNAPSHOT \<Rightarrow> NCV_U8 list" where
  "SnapshotBytes s = ReadResultByte (ss_ManufacturerReadResult s) # ReadResultByte (ss_DescriptionReadResult s) #
     TextBuffer (ss_Manufacturer s) @ TextBuffer (ss_Description s)"

definition StringsCrc32 :: "LEGACY_BOOT_BBS_STRING_SNAPSHOT list \<Rightarrow> NCV_U32" where
  "StringsCrc32 ss = LegacyBootCrc32 (Some (concat (map SnapshotBytes ss)))"

text \<open>Both strings of a row, read in the order of the sources.\<close>

definition ReadStrings ::
  "'w boot_services \<Rightarrow> MEMORY_MAP_SNAPSHOT \<Rightarrow> BBS_TABLE \<Rightarrow> ('w, LEGACY_BOOT_BBS_STRING_SNAPSHOT) state" where
  "ReadStrings sv m entry = do {
     (manufacturerResult, manufacturer) \<leftarrow> LegacyBootCopyManufacturer sv m entry;
     (descriptionResult, description) \<leftarrow> LegacyBootCopyFarAsciiString sv m (b_DescStringSegment entry) (b_DescStringOffset entry);
     State_Monad.return \<lparr>ss_ManufacturerReadResult = manufacturerResult, ss_DescriptionReadResult = descriptionResult,
       ss_Manufacturer = manufacturer, ss_Description = description\<rparr>
   }"

section \<open>The comparisons fold case\<close>

lemma NeedleHere_prefix:
  "NeedleHere t n \<longleftrightarrow> prefix (map LegacyBootUnicodeUpperAscii n) (map LegacyBootUnicodeUpperAscii t)"
  by (induction t n rule: NeedleHere.induct) auto

lemma ContainsLoop_sublist:
  "n \<noteq> [] \<Longrightarrow> ContainsLoop t n \<longleftrightarrow> sublist (map LegacyBootUnicodeUpperAscii n) (map LegacyBootUnicodeUpperAscii t)"
  by (induction t n rule: ContainsLoop.induct) (auto simp: NeedleHere_prefix sublist_Cons_right)

lemma Upper_zero: "LegacyBootUnicodeUpperAscii c = 0 \<longleftrightarrow> c = 0"
proof -
  have "c - 0x20 \<noteq> 0" if "c \<ge> 0x61" for c :: CHAR16 using that by (auto simp: eq_iff_diff_eq_0 [symmetric])
  then show ?thesis by (auto simp: LegacyBootUnicodeUpperAscii_def)
qed

lemma EqualsLoop_map:
  "0 \<notin> set l \<Longrightarrow> 0 \<notin> set r \<Longrightarrow> EqualsLoop l r \<longleftrightarrow> map LegacyBootUnicodeUpperAscii l = map LegacyBootUnicodeUpperAscii r"
  by (induction l r rule: EqualsLoop.induct) (auto simp: Upper_zero)

text \<open>
  The boot option selector compares without regard to case: for texts without inner terminators
  \<open>LegacyBootUnicodeEqualsInsensitive\<close> holds exactly when the upper-cased texts are equal, and
  \<open>LegacyBootUnicodeContainsInsensitive\<close> exactly when the upper-cased needle is not empty and occurs in the upper-cased text.
\<close>

theorem UnicodeInsensitive_spec:
  assumes "0 \<notin> set l" and "0 \<notin> set r"
  shows "(LegacyBootUnicodeEqualsInsensitive (Some l) (Some r) \<longleftrightarrow>
      map LegacyBootUnicodeUpperAscii l = map LegacyBootUnicodeUpperAscii r) \<and>
    (LegacyBootUnicodeContainsInsensitive (Some l) (Some r) \<longleftrightarrow>
      r \<noteq> [] \<and> sublist (map LegacyBootUnicodeUpperAscii r) (map LegacyBootUnicodeUpperAscii l))"
  using EqualsLoop_map [OF assms] ContainsLoop_sublist [of r l]
  by (simp add: LegacyBootUnicodeEqualsInsensitive_def LegacyBootUnicodeContainsInsensitive_def)

theorem UnicodeInsensitive_spec_witness:
  "LegacyBootUnicodeEqualsInsensitive (Some [0x41, 0x62]) (Some [0x61, 0x42])"
  using UnicodeInsensitive_spec [of "[0x41, 0x62]" "[0x61, 0x42]"] by (simp add: LegacyBootUnicodeUpperAscii_def)

section \<open>Bounds\<close>

text \<open>
  A far string is never longer than 128 bytes and never contains a terminator.
\<close>

lemma CopyFarAsciiString_bound:
  "wp (LegacyBootCopyFarAsciiString sv m segment offset)
     (\<lambda>r _. length (snd r) \<le> LEGACY_BOOT_BOOT_TARGET_MAX_STRING_BYTES \<and> 0 \<notin> set (snd r)) w"
proof -
  have fin: "length (snd (if 0 \<in> set s then (LegacyBootFarStringPresent, takeWhile (\<lambda>b. b \<noteq> 0) s) else (LegacyBootFarStringTruncated, s))) \<le>
      LEGACY_BOOT_BOOT_TARGET_MAX_STRING_BYTES \<and>
      0 \<notin> set (snd (if 0 \<in> set s then (LegacyBootFarStringPresent, takeWhile (\<lambda>b. b \<noteq> 0) s) else (LegacyBootFarStringTruncated, s)))"
    if "length s \<le> LEGACY_BOOT_BOOT_TARGET_MAX_STRING_BYTES" for s :: "NCV_U8 list"
    using that le_trans [OF length_takeWhile_le that] by (auto dest: set_takeWhileD)
  show ?thesis
    unfolding LegacyBootCopyFarAsciiString_def Let_def split_def
    by (intro wp_ifI wp_returnI wp_callI fin) simp_all
qed

end
