(* ===== verification/Boot_Option.thy ===== *)
theory Boot_Option
  imports Dev_Order Bbs_Strings
begin

text \<open>
  The read-only \<open>BootOrder\<close>/\<open>Boot####\<close> part of \<open>LegacyBootTarget.c\<close>: device-path lists, the strict parser of an
  \<open>EFI_LOAD_OPTION\<close> with a BBS path, and the search for the one configured boot option.
\<close>

definition LEGACY_BOOT_BOOT_ORDER_MAX_BYTES :: nat where [ncv_defs]: "LEGACY_BOOT_BOOT_ORDER_MAX_BYTES = 4096"
definition LEGACY_BOOT_BOOT_OPTION_MAX_BYTES :: nat where [ncv_defs]: "LEGACY_BOOT_BOOT_OPTION_MAX_BYTES = 65536"
definition LEGACY_BOOT_LOAD_OPTION_FIXED_BYTES :: nat where [ncv_defs]: "LEGACY_BOOT_LOAD_OPTION_FIXED_BYTES = 6"
definition LEGACY_BOOT_BBS_NODE_FIXED_BYTES :: nat where [ncv_defs]: "LEGACY_BOOT_BBS_NODE_FIXED_BYTES = 8"
definition LEGACY_BOOT_DEVICE_PATH_END_BYTES :: nat where [ncv_defs]: "LEGACY_BOOT_DEVICE_PATH_END_BYTES = 4"
definition END_DEVICE_PATH_TYPE :: NCV_U8 where "END_DEVICE_PATH_TYPE = 0x7F"
definition END_ENTIRE_DEVICE_PATH_SUBTYPE :: NCV_U8 where "END_ENTIRE_DEVICE_PATH_SUBTYPE = 0xFF"
definition END_INSTANCE_DEVICE_PATH_SUBTYPE :: NCV_U8 where "END_INSTANCE_DEVICE_PATH_SUBTYPE = 1"
definition BBS_DEVICE_PATH :: NCV_U8 where "BBS_DEVICE_PATH = 5"
definition BBS_BBS_DP :: NCV_U8 where "BBS_BBS_DP = 1"
definition BBS_TYPE_HARDDRIVE :: NCV_U16 where "BBS_TYPE_HARDDRIVE = 2"
definition BBS_TYPE_USB :: NCV_U16 where "BBS_TYPE_USB = 5"
definition LOAD_OPTION_ACTIVE :: NCV_U32 where "LOAD_OPTION_ACTIVE = 1"

text \<open>The size fields of the structure are the lengths of its buffers; the description has its terminator.\<close>

record LEGACY_BOOT_BOOT_CANDIDATE =
  ca_IsLegacy :: bool
  ca_IsActive :: bool
  ca_Number :: NCV_U16
  ca_Attributes :: NCV_U32
  ca_Description :: "CHAR16 list option"
  ca_DevicePath :: "NCV_U8 list option"
  ca_DevicePathCrc32 :: NCV_U32
  ca_BbsDeviceType :: NCV_U16
  ca_BbsStatusFlag :: NCV_U16
  ca_BbsDescription :: "NCV_U8 list"
  ca_OptionalData :: "NCV_U8 list option"
  ca_OptionalDataCrc32 :: NCV_U32

definition zero_candidate :: LEGACY_BOOT_BOOT_CANDIDATE where
  "zero_candidate = \<lparr>ca_IsLegacy = False, ca_IsActive = False, ca_Number = 0, ca_Attributes = 0, ca_Description = None,
     ca_DevicePath = None, ca_DevicePathCrc32 = 0, ca_BbsDeviceType = 0, ca_BbsStatusFlag = 0, ca_BbsDescription = [],
     ca_OptionalData = None, ca_OptionalDataCrc32 = 0\<rparr>"

definition LegacyBootReadLe32 :: "NCV_U8 list \<Rightarrow> nat \<Rightarrow> NCV_U32" where
  "LegacyBootReadLe32 bs i = ucast (bs ! i) OR push_bit 8 (ucast (bs ! (i + 1))) OR
     push_bit 16 (ucast (bs ! (i + 2))) OR push_bit 24 (ucast (bs ! (i + 3)))"

text \<open>Every pool buffer is freed; in the model releasing is zeroing.\<close>

definition LegacyBootReleaseCandidate :: "LEGACY_BOOT_BOOT_CANDIDATE option \<Rightarrow> LEGACY_BOOT_BOOT_CANDIDATE option" where
  "LegacyBootReleaseCandidate cand = (case cand of None \<Rightarrow> None | Some _ \<Rightarrow> Some zero_candidate)"

section \<open>Device paths\<close>

function PathLoop :: "NCV_U8 list \<Rightarrow> nat \<Rightarrow> bool \<Rightarrow> EFI_STATUS" where
  "PathLoop path offset sawEndEntire =
     (if offset < length path then
        if length path - offset < 4 then EFI_COMPROMISED_DATA
        else let type = path ! offset; subType = path ! (offset + 1); nodeLength = unat (LegacyBootReadLe16 path (offset + 2))
             in if nodeLength < 4 \<or> nodeLength > length path - offset then EFI_COMPROMISED_DATA
                else if type = END_DEVICE_PATH_TYPE then
                  (if nodeLength \<noteq> LEGACY_BOOT_DEVICE_PATH_END_BYTES \<or>
                      subType \<noteq> END_INSTANCE_DEVICE_PATH_SUBTYPE \<and> subType \<noteq> END_ENTIRE_DEVICE_PATH_SUBTYPE
                   then EFI_COMPROMISED_DATA
                   else if subType = END_ENTIRE_DEVICE_PATH_SUBTYPE then
                     (if offset + nodeLength \<noteq> length path then EFI_COMPROMISED_DATA
                      else PathLoop path (offset + nodeLength) True)
                   else PathLoop path (offset + nodeLength) sawEndEntire)
                else PathLoop path (offset + nodeLength) sawEndEntire
      else if sawEndEntire then EFI_SUCCESS else EFI_COMPROMISED_DATA)"
  by pat_completeness auto
termination by (relation "measure (\<lambda>(path, offset, s). length path - offset)") auto

declare PathLoop.simps [simp del]

definition LegacyBootValidateDevicePathList :: "NCV_U8 list option \<Rightarrow> EFI_STATUS" where
  "LegacyBootValidateDevicePathList path' =
     (case path' of None \<Rightarrow> EFI_COMPROMISED_DATA
      | Some path \<Rightarrow> if length path < LEGACY_BOOT_DEVICE_PATH_END_BYTES then EFI_COMPROMISED_DATA else PathLoop path 0 False)"

text \<open>The result is the device type, the status flag and the description without its terminator.\<close>

definition LegacyBootValidateExactBbsDevicePath ::
  "NCV_U8 list option \<Rightarrow> nat \<Rightarrow> EFI_STATUS + NCV_U16 \<times> NCV_U16 \<times> NCV_U8 list" where
  "LegacyBootValidateExactBbsDevicePath path' descriptionBytes =
     (case path' of None \<Rightarrow> Inl EFI_INVALID_PARAMETER
      | Some path \<Rightarrow>
          if descriptionBytes = 0 then Inl EFI_INVALID_PARAMETER
          else let status = LegacyBootValidateDevicePathList (Some path)
               in if EFI_ERROR status then Inl status
                  else if path ! 0 \<noteq> BBS_DEVICE_PATH \<or> path ! 1 \<noteq> BBS_BBS_DP then Inl EFI_UNSUPPORTED
                  else if length path < 9 + LEGACY_BOOT_DEVICE_PATH_END_BYTES then Inl EFI_COMPROMISED_DATA
                  else let nodeLength = unat (LegacyBootReadLe16 path 2)
                       in if nodeLength < 9 \<or> nodeLength + LEGACY_BOOT_DEVICE_PATH_END_BYTES \<noteq> length path \<or>
                             path ! nodeLength \<noteq> END_DEVICE_PATH_TYPE \<or>
                             path ! (nodeLength + 1) \<noteq> END_ENTIRE_DEVICE_PATH_SUBTYPE \<or>
                             unat (LegacyBootReadLe16 path (nodeLength + 2)) \<noteq> LEGACY_BOOT_DEVICE_PATH_END_BYTES
                          then Inl EFI_COMPROMISED_DATA
                          else let stringBytes = nodeLength - LEGACY_BOOT_BBS_NODE_FIXED_BYTES;
                                   text = take stringBytes (drop LEGACY_BOOT_BBS_NODE_FIXED_BYTES path)
                               in if stringBytes = 0 \<or> text ! (stringBytes - 1) \<noteq> 0 then Inl EFI_COMPROMISED_DATA
                                  else if 0 \<in> set (butlast text) then Inl EFI_COMPROMISED_DATA
                                  else if stringBytes > descriptionBytes then Inl EFI_BAD_BUFFER_SIZE
                                  else Inr (LegacyBootReadLe16 path 4, LegacyBootReadLe16 path 6, butlast text))"

section \<open>Boot options\<close>

text \<open>The number of characters before the terminator, if the terminator is there.\<close>

function DescriptionLoop :: "NCV_U8 list \<Rightarrow> nat \<Rightarrow> nat option" where
  "DescriptionLoop variable characters =
     (if LEGACY_BOOT_LOAD_OPTION_FIXED_BYTES + (characters + 1) * 2 \<le> length variable then
        if LegacyBootReadLe16 variable (LEGACY_BOOT_LOAD_OPTION_FIXED_BYTES + characters * 2) = 0 then Some characters
        else DescriptionLoop variable (characters + 1)
      else None)"
  by pat_completeness auto
termination by (relation "measure (\<lambda>(variable, n). length variable - n)") (auto simp: LEGACY_BOOT_LOAD_OPTION_FIXED_BYTES_def)

declare DescriptionLoop.simps [simp del]

text \<open>The copies of the three parts and what is computed from them.\<close>

definition OptionCandidate ::
  "NCV_U16 \<Rightarrow> NCV_U8 list \<Rightarrow> nat \<Rightarrow> NCV_U8 list \<Rightarrow> NCV_U8 list \<Rightarrow> EFI_STATUS + LEGACY_BOOT_BOOT_CANDIDATE" where
  "OptionCandidate number variable characters path optional =
     (case LegacyBootValidateExactBbsDevicePath (Some path) (LEGACY_BOOT_BOOT_TARGET_MAX_STRING_BYTES + 1) of
        Inl status \<Rightarrow> Inl status
      | Inr (deviceType, statusFlag, description) \<Rightarrow>
          let attributes = LegacyBootReadLe32 variable 0;
              optionalData = (if length optional \<noteq> 0 then Some optional else None)
          in Inr \<lparr>ca_IsLegacy = True, ca_IsActive = (attributes AND LOAD_OPTION_ACTIVE \<noteq> 0), ca_Number = number,
               ca_Attributes = attributes,
               ca_Description = Some (map (\<lambda>i. LegacyBootReadLe16 variable (LEGACY_BOOT_LOAD_OPTION_FIXED_BYTES + i * 2)) [0..<characters + 1]),
               ca_DevicePath = Some path, ca_DevicePathCrc32 = LegacyBootCrc32 (Some path),
               ca_BbsDeviceType = deviceType, ca_BbsStatusFlag = statusFlag, ca_BbsDescription = description,
               ca_OptionalData = optionalData, ca_OptionalDataCrc32 = LegacyBootCrc32 optionalData\<rparr>)"

definition LegacyBootParseLegacyBootOption ::
  "'w boot_services \<Rightarrow> NCV_U16 \<Rightarrow> NCV_U8 list \<Rightarrow> ('w, EFI_STATUS + LEGACY_BOOT_BOOT_CANDIDATE) state" where
  "LegacyBootParseLegacyBootOption sv number variable =
     (if length variable < LEGACY_BOOT_LOAD_OPTION_FIXED_BYTES + 2 then State_Monad.return (Inl EFI_COMPROMISED_DATA)
      else let filePathSize = unat (LegacyBootReadLe16 variable 4)
           in case DescriptionLoop variable 0 of None \<Rightarrow> State_Monad.return (Inl EFI_COMPROMISED_DATA)
              | Some characters \<Rightarrow>
                  if characters > MAX_UINTN div 2 - 1 then State_Monad.return (Inl EFI_COMPROMISED_DATA)
                  else let descriptionBytes = (characters + 1) * 2
                       in if LEGACY_BOOT_LOAD_OPTION_FIXED_BYTES > MAX_UINTN - descriptionBytes
                          then State_Monad.return (Inl EFI_BAD_BUFFER_SIZE)
                          else let filePathOffset = LEGACY_BOOT_LOAD_OPTION_FIXED_BYTES + descriptionBytes
                               in if filePathSize = 0 \<or> filePathOffset > length variable \<or> filePathSize > length variable - filePathOffset
                                  then State_Monad.return (Inl EFI_COMPROMISED_DATA)
                                  else let optionalOffset = filePathOffset + filePathSize;
                                           path = take filePathSize (drop filePathOffset variable);
                                           status = LegacyBootValidateDevicePathList (Some path)
                                       in if EFI_ERROR status then State_Monad.return (Inl status)
                                          else if variable ! filePathOffset \<noteq> BBS_DEVICE_PATH \<or> variable ! (filePathOffset + 1) \<noteq> BBS_BBS_DP
                                          then State_Monad.return (Inl EFI_UNSUPPORTED)
                                          else do {
                                            d \<leftarrow> Pool sv descriptionBytes;
                                            p \<leftarrow> Pool sv filePathSize;
                                            let optional = drop optionalOffset variable;
                                            o' \<leftarrow> (if length optional \<noteq> 0 then Pool sv (length optional) else State_Monad.return True);
                                            if \<not> d \<or> \<not> p \<or> \<not> o' then State_Monad.return (Inl EFI_OUT_OF_RESOURCES)
                                            else State_Monad.return (OptionCandidate number variable characters path optional)
                                          })"


section \<open>The log of a boot option\<close>

fun hex_digits :: "nat \<Rightarrow> nat" where
  "hex_digits n = (if n < 16 then 1 else Suc (hex_digits (n div 16)))"

declare hex_digits.simps [simp del]

text \<open>
  One line per sixteen bytes. \<open>Used\<close> starts behind \<open>label[offset]:\<close> and grows by three
  characters per byte; the line buffer has 96.
\<close>

function HexLines :: "'w boot_services \<Rightarrow> string \<Rightarrow> nat \<Rightarrow> nat \<Rightarrow> EFI_STATUS \<Rightarrow> ('w, EFI_STATUS) state" where
  "HexLines sv label byteCount offset status =
     (if offset < byteCount then
        let chunk = min (byteCount - offset) 16;
            used = 6 + length label + 1 + max 4 (hex_digits offset) + 2
        in if used + (chunk - 1) * 3 \<ge> 96 - 4 then State_Monad.return EFI_BAD_BUFFER_SIZE
           else do {
             status \<leftarrow> bs_LogPrint sv label;
             if EFI_ERROR status then State_Monad.return status
             else HexLines sv label byteCount (offset + chunk) status
           }
      else State_Monad.return status)"
  by pat_completeness auto
termination by (relation "measure (\<lambda>(sv, label, n, offset, s). n - offset)") auto

declare HexLines.simps [simp del]

definition LegacyBootLogHexBytes :: "'w boot_services \<Rightarrow> string \<Rightarrow> NCV_U8 list option \<Rightarrow> ('w, EFI_STATUS) state" where
  "LegacyBootLogHexBytes sv label bytes' =
     (case bytes' of None \<Rightarrow> bs_LogPrint sv label
      | Some bs \<Rightarrow> if length bs = 0 then bs_LogPrint sv label else HexLines sv label (length bs) 0 EFI_SUCCESS)"

text \<open>A sequence of log calls that stops at the first error.\<close>

fun LogAll :: "'w boot_services \<Rightarrow> string list \<Rightarrow> ('w, EFI_STATUS) state" where
  "LogAll sv [] = State_Monad.return EFI_SUCCESS"
| "LogAll sv (t # ts) = do {
     status \<leftarrow> bs_LogPrint sv t;
     if EFI_ERROR status then State_Monad.return status else LogAll sv ts
   }"

definition LegacyBootLogBootCandidate :: "'w boot_services \<Rightarrow> LEGACY_BOOT_BOOT_CANDIDATE option \<Rightarrow> ('w, EFI_STATUS) state" where
  "LegacyBootLogBootCandidate sv cand =
     (case cand of None \<Rightarrow> State_Monad.return EFI_INVALID_PARAMETER
      | Some c \<Rightarrow>
          if \<not> ca_IsLegacy c then State_Monad.return EFI_INVALID_PARAMETER
          else do {
            status \<leftarrow> LogAll sv [''Boot'', ''complete device path'', ''BBS type'', ''OptionalData''];
            if EFI_ERROR status then State_Monad.return status
            else LegacyBootLogHexBytes sv ''BBS-path'' (ca_DevicePath c)
          })"

section \<open>The search\<close>

fun LegacyBootBootOptionStatusIsSkippable :: "EFI_STATUS \<Rightarrow> bool" where
  "LegacyBootBootOptionStatusIsSkippable EFI_NOT_FOUND = True"
| "LegacyBootBootOptionStatusIsSkippable EFI_UNSUPPORTED = True"
| "LegacyBootBootOptionStatusIsSkippable EFI_COMPROMISED_DATA = True"
| "LegacyBootBootOptionStatusIsSkippable EFI_BAD_BUFFER_SIZE = True"
| "LegacyBootBootOptionStatusIsSkippable EFI_BUFFER_TOO_SMALL = True"
| "LegacyBootBootOptionStatusIsSkippable _ = False"

text \<open>The name of a boot option; \<open>%04x\<close> of the EDK II print library writes its hexadecimal digits in upper case.\<close>

definition hex_digit :: "nat \<Rightarrow> char" where
  "hex_digit n = ''0123456789ABCDEF'' ! n"

definition OptionName :: "NCV_U16 \<Rightarrow> string" where
  "OptionName n = ''Boot'' @ map (\<lambda>k. hex_digit (unat (drop_bit k n AND 0xF))) [12, 8, 4, 0]"

text \<open>The text in a description buffer.\<close>

definition WideText :: "CHAR16 list option \<Rightarrow> CHAR16 list option" where
  "WideText = map_option (takeWhile (\<lambda>c. c \<noteq> 0))"

definition GenericDisk :: "LEGACY_BOOT_BOOT_CANDIDATE \<Rightarrow> bool" where
  "GenericDisk c \<longleftrightarrow> ca_IsActive c \<and> (ca_BbsDeviceType c = BBS_TYPE_HARDDRIVE \<or> ca_BbsDeviceType c = BBS_TYPE_USB)"

definition SelectedDescription :: "CHAR16 list \<Rightarrow> CHAR16 list \<Rightarrow> LEGACY_BOOT_BOOT_CANDIDATE \<Rightarrow> bool" where
  "SelectedDescription requested excluded c \<longleftrightarrow> GenericDisk c \<and>
     LegacyBootUnicodeEqualsInsensitive (WideText (ca_Description c)) (Some requested) \<and>
     \<not> LegacyBootUnicodeContainsInsensitive (WideText (ca_Description c)) (Some excluded)"

text \<open>
  The loop over the boot order, with the numbers seen so far, the match count and the first match. An
  \<open>Inl\<close> result is the status with which the code leaves the loop.
\<close>

fun OptionLoop ::
  "'w boot_services \<Rightarrow> CHAR16 list \<Rightarrow> CHAR16 list \<Rightarrow> NCV_U16 list \<Rightarrow> NCV_U16 list \<Rightarrow> nat \<Rightarrow> LEGACY_BOOT_BOOT_CANDIDATE option \<Rightarrow>
   ('w, EFI_STATUS + nat \<times> LEGACY_BOOT_BOOT_CANDIDATE option) state" where
  "OptionLoop sv requested excluded previous [] matchCount selected = State_Monad.return (Inr (matchCount, selected))"
| "OptionLoop sv requested excluded previous (number # rest) matchCount selected =
     (if number \<in> set previous then do {
        _ \<leftarrow> bs_LogPrint sv ''BootOrder contains duplicate'';
        State_Monad.return (Inl EFI_COMPROMISED_DATA)
      } else do {
        r \<leftarrow> LegacyBootReadVariableBounded sv (OptionName number) LEGACY_BOOT_BOOT_OPTION_MAX_BYTES;
        entry \<leftarrow> (case r of Inl status \<Rightarrow> State_Monad.return (Inl (if EFI_ERROR status then status else EFI_INVALID_PARAMETER))
                 | Inr (attributes, variable) \<Rightarrow> LegacyBootParseLegacyBootOption sv number variable);
        case entry of
          Inl entryStatus \<Rightarrow> do {
            logStatus \<leftarrow> bs_LogPrint sv ''SKIPPED'';
            if EFI_ERROR logStatus then State_Monad.return (Inl logStatus)
            else if LegacyBootBootOptionStatusIsSkippable entryStatus
            then OptionLoop sv requested excluded (previous @ [number]) rest matchCount selected
            else State_Monad.return (Inl entryStatus)
          }
        | Inr c \<Rightarrow> do {
            logStatus \<leftarrow> LegacyBootLogBootCandidate sv (Some c);
            if EFI_ERROR logStatus then State_Monad.return (Inl logStatus)
            else do {
              logStatus \<leftarrow> (if GenericDisk c then bs_LogPrint sv ''Configured Boot#### selector'' else State_Monad.return EFI_SUCCESS);
              if EFI_ERROR logStatus then State_Monad.return (Inl logStatus)
              else if SelectedDescription requested excluded c
              then OptionLoop sv requested excluded (previous @ [number]) rest (matchCount + 1)
                     (if matchCount + 1 = 1 then Some c else selected)
              else OptionLoop sv requested excluded (previous @ [number]) rest matchCount selected
            }
          }
      })"

text \<open>
  The status with which a read returns may be a warning; the code then goes on without a buffer and with
  size 0, which the next test refuses.
\<close>

definition LegacyBootDiscoverBootCandidate ::
  "'w boot_services \<Rightarrow> CHAR16 list option \<Rightarrow> CHAR16 list option \<Rightarrow> ('w, EFI_STATUS + LEGACY_BOOT_BOOT_CANDIDATE) state" where
  "LegacyBootDiscoverBootCandidate sv requested' excluded' =
     (case (requested', excluded') of
        (Some requested, Some excluded) \<Rightarrow>
          if requested = [] \<or> excluded = [] then State_Monad.return (Inl EFI_INVALID_PARAMETER)
          else do {
            _ \<leftarrow> bs_LogPrint sv ''BootOrder/Boot#### discovery'';
            r \<leftarrow> LegacyBootReadVariableBounded sv ''BootOrder'' LEGACY_BOOT_BOOT_ORDER_MAX_BYTES;
            _ \<leftarrow> bs_LogPrint sv ''BootOrder GetVariable result'';
            case (case r of Inl status \<Rightarrow> if EFI_ERROR status then Inl status else Inr [] | Inr (attributes, bootOrder) \<Rightarrow> Inr bootOrder) of
              Inl status \<Rightarrow> do { _ \<leftarrow> bs_LogFlush sv; State_Monad.return (Inl status) }
            | Inr bootOrder \<Rightarrow>
                if length bootOrder mod 2 \<noteq> 0 \<or> length bootOrder = 0 then do {
                  _ \<leftarrow> bs_LogPrint sv ''BootOrder has a malformed packed UINT16 size'';
                  _ \<leftarrow> bs_LogFlush sv;
                  State_Monad.return (Inl EFI_COMPROMISED_DATA)
                } else do {
                  r \<leftarrow> OptionLoop sv requested excluded [] (map (\<lambda>i. LegacyBootReadLe16 bootOrder (i * 2)) [0..<length bootOrder div 2]) 0 None;
                  r \<leftarrow> (case r of
                      Inl status \<Rightarrow> State_Monad.return (Inl status)
                    | Inr (matchCount, selected) \<Rightarrow>
                        if matchCount \<noteq> 1 then do {
                          _ \<leftarrow> bs_LogPrint sv ''exactly one is required'';
                          State_Monad.return (Inl (if matchCount = 0 then EFI_NOT_FOUND else EFI_ABORTED))
                        } else State_Monad.return (Inr (the selected)));
                  logStatus \<leftarrow> bs_LogFlush sv;
                  State_Monad.return (case r of Inl status \<Rightarrow> Inl status
                    | Inr c \<Rightarrow> if EFI_ERROR logStatus then Inl logStatus else Inr c)
                }
          }
      | _ \<Rightarrow> State_Monad.return (Inl EFI_INVALID_PARAMETER))"


section \<open>The parser loses nothing\<close>

definition encode_option :: "LEGACY_BOOT_BOOT_CANDIDATE \<Rightarrow> NCV_U8 list" where
  "encode_option c = Le32Bytes (ca_Attributes c) @ le16 (of_nat (length (the (ca_DevicePath c)))) @
     concat (map le16 (the (ca_Description c))) @ the (ca_DevicePath c) @ (case ca_OptionalData c of None \<Rightarrow> [] | Some d \<Rightarrow> d)"

lemma LegacyBootReadLe32_bytes:
  assumes "i + 3 < length bs"
  shows "Le32Bytes (LegacyBootReadLe32 bs i) = [bs ! i, bs ! (i + 1), bs ! (i + 2), bs ! (i + 3)]"
proof -
  have "ucast (drop_bit 0 (ucast a OR push_bit 8 (ucast b) OR push_bit 16 (ucast c) OR push_bit 24 (ucast d) :: NCV_U32)) = a"
    "ucast (drop_bit 8 (ucast a OR push_bit 8 (ucast b) OR push_bit 16 (ucast c) OR push_bit 24 (ucast d) :: NCV_U32)) = b"
    "ucast (drop_bit 16 (ucast a OR push_bit 8 (ucast b) OR push_bit 16 (ucast c) OR push_bit 24 (ucast d) :: NCV_U32)) = c"
    "ucast (drop_bit 24 (ucast a OR push_bit 8 (ucast b) OR push_bit 16 (ucast c) OR push_bit 24 (ucast d) :: NCV_U32)) = d"
    for a b c d :: NCV_U8
    by (rule bit_word_eqI; auto simp: bit_simps dest: bit_imp_le_length)+
  then show ?thesis by (simp add: Le32Bytes_def LegacyBootReadLe32_def upt_rec [of 0] upt_rec [of "Suc _"])
qed

lemma DescriptionLoop_found:
  "DescriptionLoop variable n = Some k \<Longrightarrow> n \<le> k \<and> 6 + (k + 1) * 2 \<le> length variable \<and>
     LegacyBootReadLe16 variable (6 + k * 2) = 0 \<and> (\<forall>i. n \<le> i \<and> i < k \<longrightarrow> LegacyBootReadLe16 variable (6 + i * 2) \<noteq> 0)"
proof (induction variable n rule: DescriptionLoop.induct)
  case (1 variable n)
  show ?case
  proof (cases "LegacyBootReadLe16 variable (6 + n * 2) = 0")
    case True
    then show ?thesis using "1.prems" by (subst (asm) DescriptionLoop.simps) (auto simp: LEGACY_BOOT_LOAD_OPTION_FIXED_BYTES_def split: if_splits)
  next
    case False
    then have go: "DescriptionLoop variable (n + 1) = Some k" "6 + (n + 1) * 2 \<le> length variable"
      using "1.prems" by (subst (asm) DescriptionLoop.simps; auto simp: LEGACY_BOOT_LOAD_OPTION_FIXED_BYTES_def split: if_splits)+
    have "n + 1 \<le> k \<and> 6 + (k + 1) * 2 \<le> length variable \<and> LegacyBootReadLe16 variable (6 + k * 2) = 0 \<and>
        (\<forall>i. n + 1 \<le> i \<and> i < k \<longrightarrow> LegacyBootReadLe16 variable (6 + i * 2) \<noteq> 0)"
      by (rule "1.IH") (use go False in \<open>auto simp: LEGACY_BOOT_LOAD_OPTION_FIXED_BYTES_def\<close>)
    note ih = this
    have "LegacyBootReadLe16 variable (6 + i * 2) \<noteq> 0" if "n \<le> i" "i < k" for i
      using that False ih by (cases "i = n") auto
    then show ?thesis using ih by simp
  qed
qed

text \<open>What the variable holds, cut at the boundaries the parser computes.\<close>

lemma option_bytes:
  assumes k: "6 + (k + 1) * 2 \<le> length variable" and n: "n = unat (LegacyBootReadLe16 variable 4)"
    and fits: "n \<le> length variable - (6 + (k + 1) * 2)"
  shows "variable = Le32Bytes (LegacyBootReadLe32 variable 0) @ le16 (of_nat n) @
    concat (map le16 (map (\<lambda>i. LegacyBootReadLe16 variable (6 + i * 2)) [0..<k + 1])) @
    take n (drop (6 + (k + 1) * 2) variable) @ drop (6 + (k + 1) * 2 + n) variable"
proof -
  have head: "take 6 variable = Le32Bytes (LegacyBootReadLe32 variable 0) @ le16 (of_nat n)"
  proof -
    have "Le32Bytes (LegacyBootReadLe32 variable 0) @ le16 (of_nat n) =
        [variable ! 0, variable ! 1, variable ! 2, variable ! 3, variable ! 4, variable ! 5]"
      using k by (simp add: LegacyBootReadLe32_bytes n LegacyBootReadLe16_bytes) (simp only: numeral_2_eq_2)
    also have "\<dots> = take 6 variable"
    proof (rule nth_equalityI)
      fix i assume "i < length [variable ! 0, variable ! 1, variable ! 2, variable ! 3, variable ! 4, variable ! 5]"
      then consider "i = 0" | "i = 1" | "i = 2" | "i = 3" | "i = 4" | "i = 5" by (auto simp: less_Suc_eq numeral_eq_Suc)
      then show "[variable ! 0, variable ! 1, variable ! 2, variable ! 3, variable ! 4, variable ! 5] ! i = take 6 variable ! i"
        by cases simp_all
    qed (use k in simp)
    finally show ?thesis by simp
  qed
  have desc: "concat (map le16 (map (\<lambda>i. LegacyBootReadLe16 variable (6 + i * 2)) [0..<k + 1])) = take ((k + 1) * 2) (drop 6 variable)"
    using GroupData_bytes [of 3 "k + 1" variable] k by (simp add: mult.commute)
  have "variable = take 6 variable @ take ((k + 1) * 2) (drop 6 variable) @ take n (drop ((k + 1) * 2) (drop 6 variable)) @
      drop n (drop ((k + 1) * 2) (drop 6 variable))"
    by (simp only: append_take_drop_id)
  then show ?thesis unfolding desc by (simp only: head append_assoc drop_drop add.commute add.left_commute add.assoc)
qed

definition candidate_of :: "NCV_U16 \<Rightarrow> NCV_U8 list \<Rightarrow> LEGACY_BOOT_BOOT_CANDIDATE \<Rightarrow> bool" where
  "candidate_of number variable c \<longleftrightarrow> (\<exists>text path.
     ca_Description c = Some (text @ [0]) \<and> 0 \<notin> set text \<and> ca_DevicePath c = Some path \<and> path \<noteq> [] \<and>
     variable = encode_option c \<and> ca_Number c = number \<and> ca_IsLegacy c \<and>
     ca_IsActive c = (ca_Attributes c AND LOAD_OPTION_ACTIVE \<noteq> 0) \<and>
     LegacyBootValidateExactBbsDevicePath (Some path) (LEGACY_BOOT_BOOT_TARGET_MAX_STRING_BYTES + 1) =
       Inr (ca_BbsDeviceType c, ca_BbsStatusFlag c, ca_BbsDescription c) \<and>
     ca_DevicePathCrc32 c = LegacyBootCrc32 (ca_DevicePath c) \<and> ca_OptionalDataCrc32 c = LegacyBootCrc32 (ca_OptionalData c))"

lemma OptionCandidate_result:
  assumes k: "DescriptionLoop variable 0 = Some k" and n: "n = unat (LegacyBootReadLe16 variable 4)" "n \<noteq> 0"
    and fits: "n \<le> length variable - (6 + (k + 1) * 2)"
    and c: "OptionCandidate number variable k (take n (drop (6 + (k + 1) * 2) variable)) (drop (6 + (k + 1) * 2 + n) variable) = Inr c"
  shows "candidate_of number variable c"
proof -
  note d = DescriptionLoop_found [OF k]
  let ?word = "\<lambda>i. LegacyBootReadLe16 variable (6 + i * 2)"
  have wt: "map ?word [0..<k + 1] = map ?word [0..<k] @ [0]" "0 \<notin> set (map ?word [0..<k])" using d by auto
  have len: "length (take n (drop (6 + (k + 1) * 2) variable)) = n" using fits by simp
  have bytes: "variable = Le32Bytes (LegacyBootReadLe32 variable 0) @ le16 (of_nat n) @ concat (map le16 (map ?word [0..<k + 1])) @
      take n (drop (6 + (k + 1) * 2) variable) @ drop (6 + (k + 1) * 2 + n) variable"
    by (rule option_bytes) (use d n fits in simp_all)
  show ?thesis unfolding candidate_of_def
  proof (intro exI conjI)
    show "variable = encode_option c"
      using c bytes len by (auto simp: OptionCandidate_def encode_option_def LEGACY_BOOT_LOAD_OPTION_FIXED_BYTES_def Let_def split: sum.splits)
    show "ca_Description c = Some (map ?word [0..<k] @ [0])"
      using c wt by (auto simp: OptionCandidate_def LEGACY_BOOT_LOAD_OPTION_FIXED_BYTES_def Let_def split: sum.splits)
  qed (use c wt(2) len n(2) in \<open>auto simp: OptionCandidate_def Let_def split: sum.splits\<close>)
qed

lemma ParseLegacyBootOption_result:
  "wp (LegacyBootParseLegacyBootOption sv number variable) (\<lambda>r _. \<forall>c. r = Inr c \<longrightarrow> candidate_of number variable c) w"
  unfolding LegacyBootParseLegacyBootOption_def Let_def
  by (intro wp_ifI wp_optionI wp_callI wp_returnI; (simp; fail)?)
    (auto simp: LEGACY_BOOT_LOAD_OPTION_FIXED_BYTES_def intro: OptionCandidate_result)

text \<open>
  C23. Parsing a boot option loses nothing: a variable that \<open>LegacyBootParseLegacyBootOption\<close> accepts is exactly the
  little-endian attributes, the length of the path, the description with its only terminator at the end, the path and
  the opaque optional data that the candidate holds, and the path is an exact BBS path from which the
  candidate's device type, status flag and description come.
\<close>

theorem ParseLegacyBootOption_exact:
  assumes "run_state (LegacyBootParseLegacyBootOption sv number variable) w = (Inr c, w')"
  shows "candidate_of number variable c"
  using wp_run [OF ParseLegacyBootOption_result assms] by simp

end
