(* ===== verification/Ram_Boot.thy ===== *)
theory Ram_Boot
  imports Boot_Option
begin

text \<open>
  A machine in memory whose boot services satisfy the documented behaviour: the concrete instance at which the
  witnesses of the boot-target properties run the model. The first megabyte is conventional memory, the log always
  succeeds and the variables are constant.
\<close>

record ram_boot =
  rb_Table :: "BBS_TABLE list"
  rb_Variables :: "string \<rightharpoonup> NCV_U32 \<times> NCV_U8 list"
  rb_Bytes :: "nat \<Rightarrow> NCV_U8"

definition ram_memory :: "'w memory_services" where
  "ram_memory = \<lparr>GetMemoryMap = (\<lambda>w n. if n = 0 then ((EFI_BUFFER_TOO_SMALL, 40, 40, 1, []), w)
       else ((EFI_SUCCESS, 40, 40, 1, [flat_descriptor]), w)), AllocatePool = (\<lambda>w n. (True, w))\<rparr>"

definition ram_boot_services :: "ram_boot boot_services" where
  "ram_boot_services = \<lparr>bs_Memory = ram_memory,
     bs_GetVariable = (\<lambda>name n. State (\<lambda>w. (case rb_Variables w name of
         None \<Rightarrow> (EFI_NOT_FOUND, 0, 0, [])
       | Some (attributes, content) \<Rightarrow> if n < length content then (EFI_BUFFER_TOO_SMALL, attributes, length content, [])
           else (EFI_SUCCESS, attributes, length content, content), w))),
     bs_LogPrint = (\<lambda>text. State_Monad.return EFI_SUCCESS),
     bs_LogFlush = State_Monad.return EFI_SUCCESS,
     bs_ReadEntry = (\<lambda>i. State (\<lambda>w. (rb_Table w ! i, w))),
     bs_PokePriority = (\<lambda>i p. State (\<lambda>w. ((), w\<lparr>rb_Table := (rb_Table w)[i := (rb_Table w ! i)\<lparr>b_BootPriority := p\<rparr>]\<rparr>))),
     bs_ReadMemory = (\<lambda>a n. State (\<lambda>w. (map (\<lambda>i. rb_Bytes w (a + i)) [0..<n], w))),
     bs_Evidence = State_Monad.return no_evidence\<rparr>"

lemma ram_captured: "MemoryMapCapture ram_memory w = (Inr flat_map, w)"
proof -
  have loop: "CaptureLoop (Suc n) ram_memory w 360 = (Inr flat_map, w)" for n
    by (simp add: ram_memory_def sizeof_descriptor_def flat_map_def)
  have get: "GetMemoryMap ram_memory w 0 = ((EFI_BUFFER_TOO_SMALL, 40, 40, 1, []), w)"
    by (simp add: ram_memory_def)
  show ?thesis
    using loop [of 3] by (simp add: MemoryMapCapture_def get MEMORY_MAP_CAPTURE_ATTEMPTS_def
      MEMORY_MAP_SLACK_ENTRIES_def sizeof_descriptor_def MAX_UINTN_def del: CaptureLoop.simps)
qed

lemma ram_pool [simp]: "run_state (Pool ram_boot_services n) w = (True, w)"
  by (simp add: Pool_def ram_boot_services_def ram_memory_def)

lemma ram_log [simp]:
  "bs_LogPrint ram_boot_services s = State_Monad.return EFI_SUCCESS"
  "bs_LogFlush ram_boot_services = State_Monad.return EFI_SUCCESS"
  "bs_Evidence ram_boot_services = State_Monad.return no_evidence"
  by (simp_all add: ram_boot_services_def)

lemma ram_variable:
  assumes "rb_Variables w name = Some (attributes, content)" and "content \<noteq> []" and "length content \<le> m"
  shows "run_state (LegacyBootReadVariableBounded ram_boot_services name m) w = (Inr (attributes, content), w)"
proof -
  have get: "run_state (bs_GetVariable ram_boot_services name n) w =
      (if n < length content then (EFI_BUFFER_TOO_SMALL, attributes, length content, []) else (EFI_SUCCESS, attributes, length content, content), w)" for n
    using assms(1) by (simp add: ram_boot_services_def)
  have "run_state (ReadVariableLoop (Suc n) ram_boot_services name m (length content)) w = (Inr (attributes, content), w)" for n
    using assms(2,3) by (simp add: run_state_bind get)
  moreover have "m \<noteq> 0" using assms(2,3) by (cases content) auto
  ultimately show ?thesis
    using assms(2,3) by (simp add: LegacyBootReadVariableBounded_def run_state_bind get LEGACY_BOOT_VARIABLE_READ_ATTEMPTS_def numeral_3_eq_3)
qed

section \<open>A boot option\<close>

definition sample_boot_path :: "NCV_U8 list" where
  "sample_boot_path = [5, 1, 10, 0, 2, 0, 0, 0, 0x41, 0, 0x7F, 0xFF, 4, 0]"

definition sample_option :: "NCV_U8 list" where
  "sample_option = [1, 0, 0, 0, 14, 0, 0x44, 0, 0, 0] @ sample_boot_path @ [7]"

lemma sample_bytes:
  "length sample_boot_path = 14" "sample_boot_path ! 0 = 5" "sample_boot_path ! 1 = 1" "sample_boot_path ! Suc 0 = 1" "sample_boot_path ! 10 = 0x7F"
  "sample_boot_path ! 11 = 0xFF" "LegacyBootReadLe16 sample_boot_path 2 = 10" "LegacyBootReadLe16 sample_boot_path (Suc (Suc 0)) = 10"
  "LegacyBootReadLe16 sample_boot_path 12 = 4" "LegacyBootReadLe16 sample_boot_path 4 = 2" "LegacyBootReadLe16 sample_boot_path 6 = 0"
  "take 2 (drop 8 sample_boot_path) = [0x41, 0]"
  by (simp_all add: LegacyBootReadLe16_def sample_boot_path_def)

lemmas path_consts = BBS_DEVICE_PATH_def BBS_BBS_DP_def END_DEVICE_PATH_TYPE_def END_ENTIRE_DEVICE_PATH_SUBTYPE_def
  LEGACY_BOOT_DEVICE_PATH_END_BYTES_def LEGACY_BOOT_BBS_NODE_FIXED_BYTES_def LEGACY_BOOT_LOAD_OPTION_FIXED_BYTES_def

lemma sample_path_list: "LegacyBootValidateDevicePathList (Some sample_boot_path) = EFI_SUCCESS"
proof -
  have "PathLoop sample_boot_path 14 True = EFI_SUCCESS" by (subst PathLoop.simps) (simp add: sample_bytes)
  moreover have "PathLoop sample_boot_path 10 False = PathLoop sample_boot_path 14 True"
    by (subst PathLoop.simps) (simp add: sample_bytes path_consts Let_def)
  moreover have "PathLoop sample_boot_path 0 False = PathLoop sample_boot_path 10 False"
    by (subst PathLoop.simps) (simp add: sample_bytes path_consts Let_def)
  ultimately show ?thesis by (simp add: LegacyBootValidateDevicePathList_def sample_bytes path_consts)
qed

lemma sample_path_exact: "LegacyBootValidateExactBbsDevicePath (Some sample_boot_path) 129 = Inr (2, 0, [0x41])"
  using sample_path_list by (simp add: LegacyBootValidateExactBbsDevicePath_def path_consts sample_bytes Let_def)

lemma sample_option_parse: "\<exists>c. run_state (LegacyBootParseLegacyBootOption ram_boot_services 0x80 sample_option) w = (Inr c, w)"
proof -
  have d: "DescriptionLoop sample_option 0 = Some 1"
    by (subst DescriptionLoop.simps, subst DescriptionLoop.simps)
      (simp add: LEGACY_BOOT_LOAD_OPTION_FIXED_BYTES_def LegacyBootReadLe16_def sample_option_def sample_boot_path_def)
  have p: "take 14 (drop 10 sample_option) = sample_boot_path" "drop 24 sample_option = [7]" "unat (LegacyBootReadLe16 sample_option 4) = 14"
    "length sample_option = 25" "sample_option ! 10 = 5" "sample_option ! 11 = 1"
    by (simp_all add: sample_option_def sample_boot_path_def LegacyBootReadLe16_def)
  show ?thesis
    by (simp add: LegacyBootParseLegacyBootOption_def d p Let_def LEGACY_BOOT_LOAD_OPTION_FIXED_BYTES_def MAX_UINTN_def sample_path_list
        BBS_DEVICE_PATH_def BBS_BBS_DP_def OptionCandidate_def LEGACY_BOOT_BOOT_TARGET_MAX_STRING_BYTES_def sample_path_exact)
qed

theorem ParseLegacyBootOption_exact_witness: "\<exists>c. candidate_of 0x80 sample_option c"
proof -
  obtain c w where "run_state (LegacyBootParseLegacyBootOption ram_boot_services 0x80 sample_option) w = (Inr c, w)"
    using sample_option_parse by blast
  from ParseLegacyBootOption_exact [OF this] show ?thesis by blast
qed


section \<open>A device order\<close>

definition order_context :: LEGACY_BOOT_BOOT_TARGET_CONTEXT where
  "order_context = zero_context\<lparr>bt_BbsCount := 2, bt_LiveBbsIndex := 1,
     bt_BbsJournal := Some [sample_row 0xFFFC 0x80 0, sample_row 1 2 0x500]\<rparr>"

definition order_variable :: "NCV_U8 list" where
  "order_variable = [2, 4, 0, 1, 0]"

definition order_world :: ram_boot where
  "order_world = \<lparr>rb_Table = [], rb_Variables = [''LegacyDevOrder'' \<mapsto> (7, order_variable)], rb_Bytes = (\<lambda>_. 0)\<rparr>"

definition order_rows :: "BBS_TABLE list" where
  "order_rows = [sample_row 0xFFFC 0x80 0, sample_row 1 2 0x500]"

lemma order_loop:
  "run_state (OrderLoop ram_boot_services order_rows 2 order_variable 0 (InitOrder 2)) w =
     (Inr \<lparr>os_SeenType = (\<lambda>_. False)(2 := True), os_SeenIndex = (\<lambda>_. False)(1 := True), os_Ranks = [0xFFFF, 0],
       os_Disabled = [False, False], os_GlobalRank = 1\<rparr>, w)"
proof -
  have b: "length order_variable = 5" "order_variable ! 0 = 2" "LegacyBootReadLe16 order_variable 1 = 4"
    "LegacyBootReadLe16 order_variable (Suc 0) = 4" "LegacyBootReadLe16 order_variable 3 = 1"
    by (simp_all add: order_variable_def LegacyBootReadLe16_def)
  have two: "replicate 2 x = [x, x]" for x :: 'a by (simp add: numeral_2_eq_2)
  have g: "GroupData order_variable 0 4 = [1]" by (simp add: GroupData_def b)
  have h: "OrderHeader order_variable 0 (InitOrder 2) = Inr (2, 4, (InitOrder 2)\<lparr>os_SeenType := (\<lambda>_. False)(2 := True)\<rparr>)"
    by (simp add: OrderHeader_def b InitOrder_def Let_def)
  have d: "OrderDatum order_rows 2 2 ((InitOrder 2)\<lparr>os_SeenType := (\<lambda>_. False)(2 := True)\<rparr>) 1 =
      Inr \<lparr>os_SeenType = (\<lambda>_. False)(2 := True), os_SeenIndex = (\<lambda>_. False)(1 := True), os_Ranks = [0xFFFF, 0],
        os_Disabled = [False, False], os_GlobalRank = 1\<rparr>"
    by (simp add: OrderDatum_def InitOrder_def order_rows_def sample_row_def zero_row_def LegacyBootBbsPriorityIsValid_def BBS_IGNORE_ENTRY_def
        BBS_DO_NOT_BOOT_FROM_def BBS_LOWEST_PRIORITY_def two Let_def)
  have "OrderLoop ram_boot_services order_rows 2 order_variable 5 st = State_Monad.return (Inr st)" for st
    by (subst OrderLoop.simps) (simp add: b)
  then show ?thesis by (subst OrderLoop.simps) (simp add: b h g d)
qed

lemma order_capture:
  "\<exists>c'. run_state (LegacyBootCaptureLegacyDevOrder ram_boot_services order_context) order_world = ((EFI_SUCCESS, c'), order_world) \<and>
     bt_LegacyDevOrderUsable c'"
proof -
  have r: "run_state (LegacyBootReadVariableBounded ram_boot_services ''LegacyDevOrder'' LEGACY_BOOT_LEGACY_DEV_ORDER_MAX_BYTES) order_world =
      (Inr (7, order_variable), order_world)"
    by (rule ram_variable) (simp_all add: order_world_def order_variable_def LEGACY_BOOT_LEGACY_DEV_ORDER_MAX_BYTES_def)
  have n: "bt_BbsCount order_context = 2" "bt_BbsJournal order_context = Some order_rows" "bt_LiveBbsIndex order_context = 1"
    "bt_LegacyDevOrderData order_context = None" "bt_LegacyDevOrderRanks order_context = None" "bt_LegacyDevOrderDisabled order_context = None"
    by (simp_all add: order_context_def order_rows_def zero_context_def)
  have upt: "[0..<2] = [0, 1]" by (simp add: upt_rec)
  have cover: "CompleteCoverage order_rows 2 \<lparr>os_SeenType = a, os_SeenIndex = (\<lambda>_. False)(1 := True), os_Ranks = x, os_Disabled = y, os_GlobalRank = z\<rparr>" for a x y z
    by (simp add: CompleteCoverage_def order_rows_def sample_row_def zero_row_def LegacyBootBbsPriorityIsValid_def BBS_IGNORE_ENTRY_def
        BBS_DO_NOT_BOOT_FROM_def BBS_LOWEST_PRIORITY_def upt)
  show ?thesis
    by (simp add: LegacyBootCaptureLegacyDevOrder_def n r EFI_VARIABLE_BOOTSERVICE_ACCESS_def ParseOrder_def order_loop cover [simplified]
        LEGACY_BOOT_BOOT_TARGET_MAX_BBS_ENTRIES_def Let_def)
qed

theorem CaptureLegacyDevOrder_sound_witness: "\<exists>c. order_captured c \<and> bt_LegacyDevOrderUsable c"
proof -
  obtain c' where c': "run_state (LegacyBootCaptureLegacyDevOrder ram_boot_services order_context) order_world = ((EFI_SUCCESS, c'), order_world)"
    "bt_LegacyDevOrderUsable c'" using order_capture by blast
  have "order_captured c'"
    by (rule CaptureLegacyDevOrder_sound [OF _ c']) (simp add: order_context_def zero_context_def)
  with c'(2) show ?thesis by blast
qed

end
