(* ===== verification/Priority_Plan.thy ===== *)
theory Priority_Plan
  imports Dev_Order "HOL-Library.Multiset"
begin

text \<open>
  \<open>LegacyBootBuildPriorityPlan\<close> of \<open>LegacyBootTarget.c\<close>: the selected disk gets priority 0, then the other eligible
  hard disks and then the remaining eligible rows are numbered by repeated selection of the best row. The
  second half shows that this is a stable sort.
\<close>

section \<open>Operations\<close>

text \<open>The rows that the selection of one pass looks at.\<close>

definition InPass :: "rom_evidence \<Rightarrow> LEGACY_BOOT_BOOT_TARGET_CONTEXT \<Rightarrow> BBS_TABLE list \<Rightarrow> nat \<Rightarrow> nat \<Rightarrow> bool" where
  "InPass ev c journal pass index \<longleftrightarrow> LegacyBootBbsIndexIsTransactionEligible ev (Some c) index \<and>
     ((pass = 0) = (b_DeviceType (journal ! index) = BBS_HARDDISK))"

definition CandidateOrderRank :: "LEGACY_BOOT_BOOT_TARGET_CONTEXT \<Rightarrow> nat \<Rightarrow> NCV_U16" where
  "CandidateOrderRank c index = (if bt_LegacyDevOrderUsable c then the (bt_LegacyDevOrderRanks c) ! index else 0xFFFF)"

text \<open>
  The search for the best row of a pass. The result is what \<open>Found\<close>, \<open>BestIndex\<close>, \<open>BestOriginalPriority\<close> and
  \<open>BestOrderRank\<close> hold after the scan.
\<close>

definition BetterRow ::
  "LEGACY_BOOT_BOOT_TARGET_CONTEXT \<Rightarrow> BBS_TABLE list \<Rightarrow> nat \<Rightarrow> (nat \<times> NCV_U16 \<times> NCV_U16) option \<Rightarrow> nat \<Rightarrow> bool" where
  "BetterRow c journal pass best index =
     (case best of None \<Rightarrow> True
      | Some (bestIndex, bestOriginalPriority, bestOrderRank) \<Rightarrow>
          (let usable = bt_LegacyDevOrderUsable c; rank = CandidateOrderRank c index; priority = b_BootPriority (journal ! index)
           in usable \<and> (rank < bestOrderRank \<or> rank = bestOrderRank \<and> index < bestIndex) \<or>
              \<not> usable \<and> pass = 0 \<and> index < bestIndex \<or>
              \<not> usable \<and> pass \<noteq> 0 \<and>
                (priority < bestOriginalPriority \<or> priority = bestOriginalPriority \<and> index < bestIndex)))"

fun ScanRows ::
  "rom_evidence \<Rightarrow> LEGACY_BOOT_BOOT_TARGET_CONTEXT \<Rightarrow> BBS_TABLE list \<Rightarrow> nat \<Rightarrow> (nat \<Rightarrow> bool) \<Rightarrow> nat list \<Rightarrow>
   (nat \<times> NCV_U16 \<times> NCV_U16) option \<Rightarrow> EFI_STATUS + (nat \<times> NCV_U16 \<times> NCV_U16) option" where
  "ScanRows ev c journal pass ranked [] best = Inr best"
| "ScanRows ev c journal pass ranked (index # rest) best =
     (if ranked index \<or> \<not> InPass ev c journal pass index then ScanRows ev c journal pass ranked rest best
      else if bt_LegacyDevOrderUsable c \<and> CandidateOrderRank c index = 0xFFFF then Inl EFI_COMPROMISED_DATA
      else ScanRows ev c journal pass ranked rest
             (if BetterRow c journal pass best index
              then Some (index, b_BootPriority (journal ! index), CandidateOrderRank c index) else best))"

record plan_state =
  pl_Planned :: "NCV_U16 list"
  pl_Ranked :: "nat \<Rightarrow> bool"
  pl_Next :: NCV_U16

lemma ScanRows_found:
  "ScanRows ev c journal pass ranked xs best = Inr (Some (i, p, r)) \<Longrightarrow> best = Some (i, p, r) \<or> i \<in> set xs \<and> \<not> ranked i"
  by (induction xs arbitrary: best) (auto split: if_splits)

text \<open>One pass: pick the best row until none is left.\<close>

function RankLoop ::
  "rom_evidence \<Rightarrow> LEGACY_BOOT_BOOT_TARGET_CONTEXT \<Rightarrow> BBS_TABLE list \<Rightarrow> nat \<Rightarrow> plan_state \<Rightarrow> EFI_STATUS \<times> plan_state" where
  "RankLoop ev c journal pass st =
     (case ScanRows ev c journal pass (pl_Ranked st) [0..<bt_BbsCount c] None of
        Inl e \<Rightarrow> (e, st)
      | Inr None \<Rightarrow> (EFI_SUCCESS, st)
      | Inr (Some (bestIndex, _, _)) \<Rightarrow>
          if pl_Next st \<ge> BBS_DO_NOT_BOOT_FROM then (EFI_OUT_OF_RESOURCES, st)
          else RankLoop ev c journal pass (st\<lparr>pl_Planned := (pl_Planned st)[bestIndex := pl_Next st],
                 pl_Ranked := (pl_Ranked st)(bestIndex := True), pl_Next := pl_Next st + 1\<rparr>))"
  by pat_completeness auto
termination
proof (relation "measure (\<lambda>(ev, c, journal, pass, st). card {i. i < bt_BbsCount c \<and> \<not> pl_Ranked st i})")
  fix ev c journal pass st p and t :: "nat \<times> NCV_U16 \<times> NCV_U16" and i q and r :: NCV_U16
  assume "ScanRows ev c journal pass (pl_Ranked st) [0..<bt_BbsCount c] None = Inr p" "p = Some t" "(i, q) = t"
  then have "i < bt_BbsCount c" "\<not> pl_Ranked st i" using ScanRows_found by (cases q; force)+
  then have "{j. j < bt_BbsCount c \<and> \<not> ((pl_Ranked st)(i := True)) j} \<subset> {j. j < bt_BbsCount c \<and> \<not> pl_Ranked st j}" by auto
  then show "((ev, c, journal, pass, st\<lparr>pl_Planned := (pl_Planned st)[i := pl_Next st],
      pl_Ranked := (pl_Ranked st)(i := True), pl_Next := pl_Next st + 1\<rparr>), (ev, c, journal, pass, st))
    \<in> measure (\<lambda>(ev, c, journal, pass, st). card {i. i < bt_BbsCount c \<and> \<not> pl_Ranked st i})"
    using psubset_card_mono by (simp add: psubset_card_mono)
qed simp

declare RankLoop.simps [simp del]

text \<open>
  The whole routine. The two vectors are written in full before the first test, so a failing run leaves what it
  has written.
\<close>

definition LegacyBootBuildPriorityPlan ::
  "rom_evidence \<Rightarrow> LEGACY_BOOT_BOOT_TARGET_CONTEXT option \<Rightarrow> EFI_STATUS \<times> LEGACY_BOOT_BOOT_TARGET_CONTEXT option" where
  "LegacyBootBuildPriorityPlan ev context' =
     (case context' of None \<Rightarrow> (EFI_INVALID_PARAMETER, None)
      | Some c \<Rightarrow>
          (case bt_BbsJournal c of None \<Rightarrow> (EFI_INVALID_PARAMETER, Some c)
           | Some journal \<Rightarrow>
               if bt_PlannedPriorities c = None \<or> bt_ExpectedPriorities c = None \<or> bt_LiveBbsIndex c \<ge> bt_BbsCount c \<or>
                  bt_LegacyDevOrderUsable c \<and> (bt_LegacyDevOrderRanks c = None \<or> bt_LegacyDevOrderDisabled c = None)
               then (EFI_INVALID_PARAMETER, Some c)
               else let eligible = LegacyBootBbsIndexIsTransactionEligible ev (Some c);
                        expected = map (\<lambda>i. b_BootPriority (journal ! i)) [0..<bt_BbsCount c];
                        planned = map (\<lambda>i. if eligible i then BBS_UNPRIORITIZED_ENTRY else b_BootPriority (journal ! i)) [0..<bt_BbsCount c];
                        written = (\<lambda>v. Some (c\<lparr>bt_ExpectedPriorities := Some expected, bt_PlannedPriorities := Some v\<rparr>))
                    in if \<not> eligible (bt_LiveBbsIndex c) then (EFI_NOT_FOUND, written planned)
                       else let (status, st) = RankLoop ev c journal 0
                                  \<lparr>pl_Planned = planned[bt_LiveBbsIndex c := 0],
                                   pl_Ranked = (\<lambda>i. \<not> eligible i)(bt_LiveBbsIndex c := True), pl_Next = 1\<rparr>
                            in if status \<noteq> EFI_SUCCESS then (status, written (pl_Planned st))
                               else let (status, st) = RankLoop ev c journal 1 st
                                    in if status \<noteq> EFI_SUCCESS then (status, written (pl_Planned st))
                                       else if \<not> list_all (\<lambda>i. \<not> (i \<noteq> bt_LiveBbsIndex c \<and> pl_Planned st ! i = 0)) [0..<bt_BbsCount c]
                                       then (EFI_ACCESS_DENIED, written (pl_Planned st))
                                       else (EFI_SUCCESS, map_option (\<lambda>c. c\<lparr>bt_PlannedPriorityCrc32 :=
                                              LegacyBootBbsPriorityCrc32FromVector (pl_Planned st)\<rparr>)
                                              (written (pl_Planned st)))))"


section \<open>Selection is a stable sort\<close>

lemma least_first:
  assumes "sorted xs" "distinct xs" "b \<in> set xs" "\<forall>x\<in>set xs. b \<le> (x :: nat)"
  shows "xs = b # filter (\<lambda>x. x \<noteq> b) xs"
  using assms
proof (cases xs)
  case (Cons y ys)
  then have "y = b" using assms by auto
  then show ?thesis using assms(2) Cons by (auto intro: filter_True [symmetric])
qed simp

text \<open>Sorting stably is to take the first row with the least key and to sort what is left.\<close>

lemma sort_key_select:
  fixes key :: "nat \<Rightarrow> 'k :: linorder"
  assumes asc: "sorted xs" "distinct xs" and b: "b \<in> set xs"
    and least: "\<forall>x\<in>set xs. key b < key x \<or> key b = key x \<and> b \<le> x"
  shows "sort_key key xs = b # sort_key key (filter (\<lambda>x. x \<noteq> b) xs)"
proof (rule properties_for_sort_key)
  show "mset (b # sort_key key (filter (\<lambda>x. x \<noteq> b) xs)) = mset xs"
  proof -
    have "mset xs = mset (filter (\<lambda>x. x = b) xs) + mset (filter (\<lambda>x. x \<noteq> b) xs)" by (simp add: multiset_partition [of "mset xs"])
    moreover have "filter (\<lambda>x. x = b) xs = [b]"
      using asc b least_first [of "filter (\<lambda>x. x = b) xs" b] by (auto simp: sorted_wrt_filter filter_empty_conv)
    ultimately show ?thesis by simp
  qed
  have "key b \<le> key x" if "x \<in> set xs" for x using least that by (force intro: less_imp_le)
  then show "sorted (map key (b # sort_key key (filter (\<lambda>x. x \<noteq> b) xs)))" by auto
  fix k
  let ?P = "\<lambda>x. key k = key x"
  have "filter ?P (sort_key key (filter (\<lambda>x. x \<noteq> b) xs)) = filter (\<lambda>x. x \<noteq> b) (filter ?P xs)"
    using sort_key_stable [of key "key k" "filter (\<lambda>x. x \<noteq> b) xs"] by (simp add: eq_commute [of "key k"] conj_commute)
  moreover have "filter ?P xs = b # filter (\<lambda>x. x \<noteq> b) (filter ?P xs)" if "?P b"
    using asc b least that by (intro least_first) (auto simp: sorted_wrt_filter)
  moreover have "filter (\<lambda>x. x \<noteq> b) (filter ?P xs) = filter ?P xs" if "\<not> ?P b"
    using that by (auto intro!: filter_cong)
  ultimately show "filter ?P (b # sort_key key (filter (\<lambda>x. x \<noteq> b) xs)) = filter ?P xs" by auto
qed

text \<open>The key of a row in a pass.\<close>

definition row_key :: "LEGACY_BOOT_BOOT_TARGET_CONTEXT \<Rightarrow> BBS_TABLE list \<Rightarrow> nat \<Rightarrow> nat \<Rightarrow> nat" where
  "row_key c journal pass i =
     (if bt_LegacyDevOrderUsable c then unat (CandidateOrderRank c i)
      else if pass = 0 then i else unat (b_BootPriority (journal ! i)))"

definition best_is :: "LEGACY_BOOT_BOOT_TARGET_CONTEXT \<Rightarrow> BBS_TABLE list \<Rightarrow> nat \<Rightarrow> nat set \<Rightarrow> (nat \<times> NCV_U16 \<times> NCV_U16) option \<Rightarrow> bool" where
  "best_is c journal pass seen best =
     (case best of None \<Rightarrow> seen = {}
      | Some (b, p, r) \<Rightarrow> b \<in> seen \<and> p = b_BootPriority (journal ! b) \<and> r = CandidateOrderRank c b \<and>
          (\<forall>x\<in>seen. row_key c journal pass b < row_key c journal pass x \<or> row_key c journal pass b = row_key c journal pass x \<and> b \<le> x))"

lemma best_is_step:
  assumes "best_is c journal pass seen best" and "\<forall>x\<in>seen. x < i"
  shows "best_is c journal pass (insert i seen)
     (if BetterRow c journal pass best i then Some (i, b_BootPriority (journal ! i), CandidateOrderRank c i) else best)"
proof (cases best)
  case (Some t)
  obtain b p r where t: "t = (b, p, r)" by (cases t)
  have b: "b \<in> seen" "p = b_BootPriority (journal ! b)" "r = CandidateOrderRank c b" "b < i"
    and least: "\<forall>x\<in>seen. row_key c journal pass b < row_key c journal pass x \<or> row_key c journal pass b = row_key c journal pass x \<and> b \<le> x"
    using assms by (auto simp: best_is_def Some t)
  have better: "BetterRow c journal pass best i \<longleftrightarrow> row_key c journal pass i < row_key c journal pass b"
    using b by (auto simp: BetterRow_def Some t row_key_def Let_def word_less_nat_alt)
  show ?thesis
  proof (cases "row_key c journal pass i < row_key c journal pass b")
    case True
    then show ?thesis using better least by (force simp: best_is_def)
  next
    case False
    then show ?thesis using better least b by (force simp: best_is_def Some t)
  qed
qed (use assms in \<open>auto simp: best_is_def BetterRow_def\<close>)

definition left_rows ::
  "rom_evidence \<Rightarrow> LEGACY_BOOT_BOOT_TARGET_CONTEXT \<Rightarrow> BBS_TABLE list \<Rightarrow> nat \<Rightarrow> (nat \<Rightarrow> bool) \<Rightarrow> nat list" where
  "left_rows ev c journal pass ranked = filter (\<lambda>i. \<not> ranked i \<and> InPass ev c journal pass i) [0..<bt_BbsCount c]"

definition unranked_row :: "LEGACY_BOOT_BOOT_TARGET_CONTEXT \<Rightarrow> nat \<Rightarrow> bool" where
  "unranked_row c i \<longleftrightarrow> bt_LegacyDevOrderUsable c \<and> CandidateOrderRank c i = 0xFFFF"

lemma ScanRows_best:
  assumes "best_is c journal pass seen best" and "sorted xs" and "distinct xs" and "\<forall>x\<in>seen. \<forall>y\<in>set xs. x < y"
  shows "let cand = filter (\<lambda>i. \<not> ranked i \<and> InPass ev c journal pass i) xs
    in if \<exists>i\<in>set cand. unranked_row c i then ScanRows ev c journal pass ranked xs best = Inl EFI_COMPROMISED_DATA
       else \<exists>best'. ScanRows ev c journal pass ranked xs best = Inr best' \<and> best_is c journal pass (seen \<union> set cand) best'"
  using assms
proof (induction xs arbitrary: seen best)
  case (Cons i xs)
  show ?case
  proof (cases "\<not> ranked i \<and> InPass ev c journal pass i \<and> \<not> unranked_row c i")
    case True
    have above: "\<forall>x\<in>insert i seen. \<forall>y\<in>set xs. x < y"
      using Cons.prems by (auto simp: le_less)
    have "best_is c journal pass (insert i seen)
       (if BetterRow c journal pass best i then Some (i, b_BootPriority (journal ! i), CandidateOrderRank c i) else best)"
      by (rule best_is_step [OF Cons.prems(1)]) (use Cons.prems(4) in auto)
    note best = this
    have scan: "ScanRows ev c journal pass ranked (i # xs) best = ScanRows ev c journal pass ranked xs
       (if BetterRow c journal pass best i then Some (i, b_BootPriority (journal ! i), CandidateOrderRank c i) else best)"
      using True by (auto simp: unranked_row_def)
    have ih: "let cand = filter (\<lambda>i. \<not> ranked i \<and> InPass ev c journal pass i) xs
      in if \<exists>i\<in>set cand. unranked_row c i
         then ScanRows ev c journal pass ranked (i # xs) best = Inl EFI_COMPROMISED_DATA
         else \<exists>best'. ScanRows ev c journal pass ranked (i # xs) best = Inr best' \<and> best_is c journal pass (insert i seen \<union> set cand) best'"
      unfolding scan by (rule Cons.IH [OF best _ _ above]) (use Cons.prems(2,3) in simp_all)
    have cand: "filter (\<lambda>i. \<not> ranked i \<and> InPass ev c journal pass i) (i # xs) = i # filter (\<lambda>i. \<not> ranked i \<and> InPass ev c journal pass i) xs"
      using True by simp
    show ?thesis
      using ih True unfolding Let_def cand by (simp only: list.set Un_insert_right Un_insert_left bex_simps simp_thms)
  next
    case False
    show ?thesis
    proof (cases "ranked i \<or> \<not> InPass ev c journal pass i")
      case True
      have "sorted xs" "distinct xs" "\<forall>x\<in>seen. \<forall>y\<in>set xs. x < y" using Cons.prems by simp_all
      note ih = Cons.IH [OF Cons.prems(1) this]
      have "ScanRows ev c journal pass ranked (i # xs) best = ScanRows ev c journal pass ranked xs best" using True by simp
      moreover have "filter (\<lambda>i. \<not> ranked i \<and> InPass ev c journal pass i) (i # xs) = filter (\<lambda>i. \<not> ranked i \<and> InPass ev c journal pass i) xs"
        using True by simp
      ultimately show ?thesis using ih by (simp only:)
    next
      case go: False
      then have "ScanRows ev c journal pass ranked (i # xs) best = Inl EFI_COMPROMISED_DATA" using False by (simp add: unranked_row_def)
      then show ?thesis using go False by (simp add: Let_def)
    qed
  qed
qed (auto simp: Let_def)


section \<open>One pass assigns in sorted order\<close>

definition assign_ranks :: "NCV_U16 \<Rightarrow> nat list \<Rightarrow> NCV_U16 list \<Rightarrow> NCV_U16 list" where
  "assign_ranks start xs v = foldl (\<lambda>v (k, i). v[i := start + of_nat k]) v (enumerate 0 xs)"

lemma assign_simps [simp]:
  "assign_ranks start [] v = v"
  "assign_ranks start (i # xs) v = assign_ranks (start + 1) xs (v[i := start])"
proof -
  have "foldl (\<lambda>v (k, i). v[i := start + of_nat k]) v (enumerate (Suc n) xs) =
      foldl (\<lambda>v (k, i). v[i := (start + 1) + of_nat k]) v (enumerate n xs)" for n v
    by (induction xs arbitrary: n v) (simp_all add: ac_simps)
  then show "assign_ranks start (i # xs) v = assign_ranks (start + 1) xs (v[i := start])" by (simp add: assign_ranks_def)
qed (simp add: assign_ranks_def)

lemma assign_append: "assign_ranks start (xs @ ys) v = assign_ranks (start + of_nat (length xs)) ys (assign_ranks start xs v)"
  by (induction xs arbitrary: start v) (simp_all add: ac_simps)

lemma length_assign [simp]: "length (assign_ranks start xs v) = length v"
  by (induction xs arbitrary: start v) simp_all

lemma assign_other: "i \<notin> set xs \<Longrightarrow> assign_ranks start xs v ! i = v ! i"
  by (induction xs arbitrary: start v) auto

lemma assign_nth:
  "distinct xs \<Longrightarrow> set xs \<subseteq> {..<length v} \<Longrightarrow> k < length xs \<Longrightarrow> assign_ranks start xs v ! (xs ! k) = start + of_nat k"
proof (induction xs arbitrary: start v k)
  case (Cons i xs)
  show ?case
  proof (cases k)
    case 0
    then show ?thesis using Cons.prems by (simp add: assign_other)
  next
    case (Suc j)
    then show ?thesis using Cons.IH [of "v[i := start]" j "start + 1"] Cons.prems by (simp add: ac_simps)
  qed
qed simp

definition pass_order ::
  "rom_evidence \<Rightarrow> LEGACY_BOOT_BOOT_TARGET_CONTEXT \<Rightarrow> BBS_TABLE list \<Rightarrow> nat \<Rightarrow> (nat \<Rightarrow> bool) \<Rightarrow> nat list" where
  "pass_order ev c journal pass ranked = sort_key (row_key c journal pass) (left_rows ev c journal pass ranked)"

lemma left_rows_asc: "sorted (left_rows ev c journal pass ranked)" "distinct (left_rows ev c journal pass ranked)"
  by (simp_all add: left_rows_def sorted_wrt_filter)

lemma RankLoop_sort:
  assumes "unat (pl_Next st) + length (left_rows ev c journal pass (pl_Ranked st)) \<le> unat BBS_DO_NOT_BOOT_FROM"
  shows "RankLoop ev c journal pass st =
    (if \<exists>i\<in>set (left_rows ev c journal pass (pl_Ranked st)). unranked_row c i then (EFI_COMPROMISED_DATA, st)
     else (EFI_SUCCESS, st\<lparr>pl_Planned := assign_ranks (pl_Next st) (pass_order ev c journal pass (pl_Ranked st)) (pl_Planned st),
       pl_Ranked := (\<lambda>i. pl_Ranked st i \<or> i \<in> set (left_rows ev c journal pass (pl_Ranked st))),
       pl_Next := pl_Next st + of_nat (length (left_rows ev c journal pass (pl_Ranked st)))\<rparr>))"
  using assms
proof (induction "length (left_rows ev c journal pass (pl_Ranked st))" arbitrary: st)
  case 0
  then have none: "left_rows ev c journal pass (pl_Ranked st) = []" by simp
  have "ScanRows ev c journal pass (pl_Ranked st) [0..<bt_BbsCount c] None = Inr None"
    using ScanRows_best [of c journal pass "{}" None "[0..<bt_BbsCount c]" "pl_Ranked st" ev, folded left_rows_def] none
    by (auto simp: best_is_def Let_def split: option.splits) (metis surj_pair option.exhaust)
  then show ?case by (subst RankLoop.simps) (simp add: none pass_order_def)
next
  case (Suc n)
  let ?left = "left_rows ev c journal pass (pl_Ranked st)"
  let ?key = "row_key c journal pass"
  note scan = ScanRows_best [of c journal pass "{}" None "[0..<bt_BbsCount c]" "pl_Ranked st" ev, folded left_rows_def, unfolded Let_def]
  show ?case
  proof (cases "\<exists>i\<in>set ?left. unranked_row c i")
    case True
    then show ?thesis using scan by (subst RankLoop.simps) (simp add: best_is_def)
  next
    case False
    then obtain best where best: "ScanRows ev c journal pass (pl_Ranked st) [0..<bt_BbsCount c] None = Inr best"
        "best_is c journal pass (set ?left) best"
      using scan by (auto simp: best_is_def)
    obtain b p r where b: "best = Some (b, p, r)" "b \<in> set ?left"
        "\<forall>x\<in>set ?left. ?key b < ?key x \<or> ?key b = ?key x \<and> b \<le> x"
      using best(2) Suc.hyps(2) by (auto simp: best_is_def split: option.splits)
    have rest: "left_rows ev c journal pass ((pl_Ranked st)(b := True)) = filter (\<lambda>x. x \<noteq> b) ?left"
      by (auto simp: left_rows_def intro!: filter_cong)
    have sort: "pass_order ev c journal pass (pl_Ranked st) = b # pass_order ev c journal pass ((pl_Ranked st)(b := True))"
      unfolding pass_order_def rest by (rule sort_key_select [OF left_rows_asc b(2,3)])
    have len: "length ?left = Suc (length (left_rows ev c journal pass ((pl_Ranked st)(b := True))))"
      using arg_cong [OF sort, of length] by (simp add: pass_order_def)
    have bound: "unat (pl_Next st) < unat BBS_DO_NOT_BOOT_FROM" using Suc.prems len by simp
    then have next_small: "\<not> pl_Next st \<ge> BBS_DO_NOT_BOOT_FROM" by (simp add: word_le_nat_alt)
    have up: "unat (pl_Next st + 1) = unat (pl_Next st) + 1"
      using bound by (intro unat_add_lem [THEN iffD1, THEN trans]) (simp_all add: BBS_DO_NOT_BOOT_FROM_def)
    let ?st = "st\<lparr>pl_Planned := (pl_Planned st)[b := pl_Next st], pl_Ranked := (pl_Ranked st)(b := True), pl_Next := pl_Next st + 1\<rparr>"
    have "RankLoop ev c journal pass st = RankLoop ev c journal pass ?st"
      using best(1) b(1) next_small by (subst RankLoop.simps) simp
    also have "\<dots> = (EFI_SUCCESS, ?st\<lparr>pl_Planned := assign_ranks (pl_Next st + 1) (pass_order ev c journal pass ((pl_Ranked st)(b := True))) ((pl_Planned st)[b := pl_Next st]),
       pl_Ranked := (\<lambda>i. ((pl_Ranked st)(b := True)) i \<or> i \<in> set (left_rows ev c journal pass ((pl_Ranked st)(b := True)))),
       pl_Next := pl_Next st + 1 + of_nat (length (left_rows ev c journal pass ((pl_Ranked st)(b := True))))\<rparr>)"
      using Suc.hyps(1) [of ?st] Suc.hyps(2) Suc.prems len up False rest by simp
    finally show ?thesis using False b(2) len by (simp add: sort rest fun_eq_iff ac_simps)
  qed
qed


section \<open>The plan\<close>

definition plan_ready :: "LEGACY_BOOT_BOOT_TARGET_CONTEXT \<Rightarrow> BBS_TABLE list \<Rightarrow> bool" where
  "plan_ready c journal \<longleftrightarrow> bt_BbsJournal c = Some journal \<and> bt_PlannedPriorities c \<noteq> None \<and> bt_ExpectedPriorities c \<noteq> None \<and>
     bt_LiveBbsIndex c < bt_BbsCount c \<and> bt_BbsCount c \<le> LEGACY_BOOT_BOOT_TARGET_MAX_BBS_ENTRIES \<and>
     (bt_LegacyDevOrderUsable c \<longrightarrow> bt_LegacyDevOrderRanks c \<noteq> None \<and> bt_LegacyDevOrderDisabled c \<noteq> None)"

text \<open>The rows of a pass without the selected one, and the boot order that the plan stands for.\<close>

definition pass_rows :: "rom_evidence \<Rightarrow> LEGACY_BOOT_BOOT_TARGET_CONTEXT \<Rightarrow> BBS_TABLE list \<Rightarrow> nat \<Rightarrow> nat list" where
  "pass_rows ev c journal pass = filter (\<lambda>i. i \<noteq> bt_LiveBbsIndex c \<and> InPass ev c journal pass i) [0..<bt_BbsCount c]"

definition boot_order :: "rom_evidence \<Rightarrow> LEGACY_BOOT_BOOT_TARGET_CONTEXT \<Rightarrow> BBS_TABLE list \<Rightarrow> nat list" where
  "boot_order ev c journal = bt_LiveBbsIndex c #
     sort_key (row_key c journal 0) (pass_rows ev c journal 0) @ sort_key (row_key c journal 1) (pass_rows ev c journal 1)"

definition initial_plan :: "rom_evidence \<Rightarrow> LEGACY_BOOT_BOOT_TARGET_CONTEXT \<Rightarrow> BBS_TABLE list \<Rightarrow> NCV_U16 list" where
  "initial_plan ev c journal = map (\<lambda>i. if LegacyBootBbsIndexIsTransactionEligible ev (Some c) i then BBS_UNPRIORITIZED_ENTRY
     else b_BootPriority (journal ! i)) [0..<bt_BbsCount c]"

lemma set_boot_order:
  assumes "bt_LiveBbsIndex c < bt_BbsCount c" and "LegacyBootBbsIndexIsTransactionEligible ev (Some c) (bt_LiveBbsIndex c)"
  shows "set (boot_order ev c journal) = {i. i < bt_BbsCount c \<and> LegacyBootBbsIndexIsTransactionEligible ev (Some c) i}"
  using assms by (auto simp: boot_order_def pass_rows_def InPass_def)

lemma distinct_boot_order: "distinct (boot_order ev c journal)"
  by (auto simp: boot_order_def pass_rows_def InPass_def)

lemma length_pass_rows: "length (pass_rows ev c journal 0) + length (pass_rows ev c journal 1) \<le> bt_BbsCount c"
proof -
  have "set (pass_rows ev c journal 0 @ pass_rows ev c journal 1) \<subseteq> {..<bt_BbsCount c}" by (auto simp: pass_rows_def)
  moreover have "distinct (pass_rows ev c journal 0 @ pass_rows ev c journal 1)" by (auto simp: pass_rows_def InPass_def)
  ultimately have "length (pass_rows ev c journal 0 @ pass_rows ev c journal 1) \<le> bt_BbsCount c"
    by (metis card_lessThan card_mono distinct_card finite_lessThan)
  then show ?thesis by simp
qed

text \<open>Both passes in one step.\<close>

lemma RankLoop_passes:
  assumes ready: "plan_ready c journal"
    and st: "st = \<lparr>pl_Planned = v, pl_Ranked = (\<lambda>i. \<not> LegacyBootBbsIndexIsTransactionEligible ev (Some c) i)(bt_LiveBbsIndex c := True), pl_Next = 1\<rparr>"
  shows "let (s0, st0) = RankLoop ev c journal 0 st; (s1, st1) = RankLoop ev c journal 1 st0 in
    (s0 = (if \<exists>i\<in>set (pass_rows ev c journal 0). unranked_row c i then EFI_COMPROMISED_DATA else EFI_SUCCESS)) \<and>
    (s0 = EFI_SUCCESS \<longrightarrow> s1 = (if \<exists>i\<in>set (pass_rows ev c journal 1). unranked_row c i then EFI_COMPROMISED_DATA else EFI_SUCCESS) \<and>
      (s1 = EFI_SUCCESS \<longrightarrow> pl_Planned st1 = assign_ranks 1 (tl (boot_order ev c journal)) v))"
proof -
  have small: "bt_BbsCount c \<le> 256" using ready by (simp add: plan_ready_def ncv_defs)
  have l0: "left_rows ev c journal 0 (pl_Ranked st) = pass_rows ev c journal 0"
    by (auto simp: left_rows_def pass_rows_def st InPass_def intro!: filter_cong)
  note lens = length_pass_rows [of ev c journal]
  have b0: "unat (pl_Next st) + length (left_rows ev c journal 0 (pl_Ranked st)) \<le> unat BBS_DO_NOT_BOOT_FROM"
    unfolding l0 using lens small by (simp add: st BBS_DO_NOT_BOOT_FROM_def)
  note loop0 = RankLoop_sort [OF b0, unfolded l0]
  let ?st0 = "st\<lparr>pl_Planned := assign_ranks (pl_Next st) (pass_order ev c journal 0 (pl_Ranked st)) (pl_Planned st),
       pl_Ranked := (\<lambda>i. pl_Ranked st i \<or> i \<in> set (pass_rows ev c journal 0)), pl_Next := pl_Next st + of_nat (length (pass_rows ev c journal 0))\<rparr>"
  have l1: "left_rows ev c journal 1 (pl_Ranked ?st0) = pass_rows ev c journal 1"
    by (auto simp: left_rows_def pass_rows_def st InPass_def intro!: filter_cong)
  have n0: "unat (1 + of_nat (length (pass_rows ev c journal 0)) :: NCV_U16) = 1 + length (pass_rows ev c journal 0)"
    using lens small by (subst of_nat_Suc [symmetric]) (simp add: unat_of_nat take_bit_nat_eq_self del: of_nat_Suc)
  have b1: "unat (pl_Next ?st0) + length (left_rows ev c journal 1 (pl_Ranked ?st0)) \<le> unat BBS_DO_NOT_BOOT_FROM"
    unfolding l1 using lens small by (simp add: st n0 BBS_DO_NOT_BOOT_FROM_def)
  note loop1 = RankLoop_sort [OF b1, unfolded l1]
  have order: "assign_ranks 1 (tl (boot_order ev c journal)) v =
      assign_ranks (1 + of_nat (length (pass_rows ev c journal 0))) (pass_order ev c journal 1 (pl_Ranked ?st0))
        (assign_ranks 1 (pass_order ev c journal 0 (pl_Ranked st)) v)"
    by (simp add: boot_order_def assign_append pass_order_def l0 l1 [simplified])
  have fields: "pl_Next st = 1" "pl_Planned st = v" by (simp_all add: st)
  show ?thesis
  proof (cases "\<exists>i\<in>set (pass_rows ev c journal 0). unranked_row c i")
    case True
    show ?thesis unfolding loop0 if_P [OF True] Let_def split_def by simp
  next
    case go: False
    show ?thesis
    proof (cases "\<exists>i\<in>set (pass_rows ev c journal 1). unranked_row c i")
      case True
      show ?thesis unfolding loop0 if_not_P [OF go] Let_def split_def fst_conv snd_conv loop1 if_P [OF True] by simp
    next
      case False
      show ?thesis
        unfolding loop0 if_not_P [OF go] Let_def split_def fst_conv snd_conv loop1 if_not_P [OF False] order
        by (simp add: fields)
    qed
  qed
qed


text \<open>What the routine returns, over the reference order.\<close>

definition plan_status :: "rom_evidence \<Rightarrow> LEGACY_BOOT_BOOT_TARGET_CONTEXT \<Rightarrow> BBS_TABLE list \<Rightarrow> EFI_STATUS" where
  "plan_status ev c journal =
     (if \<not> LegacyBootBbsIndexIsTransactionEligible ev (Some c) (bt_LiveBbsIndex c) then EFI_NOT_FOUND
      else if \<exists>i\<in>set (tl (boot_order ev c journal)). unranked_row c i then EFI_COMPROMISED_DATA
      else if \<exists>i<bt_BbsCount c. i \<notin> set (boot_order ev c journal) \<and> b_BootPriority (journal ! i) = 0 then EFI_ACCESS_DENIED
      else EFI_SUCCESS)"

lemma tl_boot_order: "set (tl (boot_order ev c journal)) = set (pass_rows ev c journal 0) \<union> set (pass_rows ev c journal 1)"
  by (simp add: boot_order_def)

lemma assign_head: "assign_ranks 0 (boot_order ev c journal) v = assign_ranks 1 (tl (boot_order ev c journal)) (v[bt_LiveBbsIndex c := 0])"
  by (simp add: boot_order_def)

definition planned_vector :: "rom_evidence \<Rightarrow> LEGACY_BOOT_BOOT_TARGET_CONTEXT \<Rightarrow> BBS_TABLE list \<Rightarrow> NCV_U16 list" where
  "planned_vector ev c journal = assign_ranks 0 (boot_order ev c journal) (initial_plan ev c journal)"

lemma planned_vector_nth:
  assumes ready: "plan_ready c journal" and live: "LegacyBootBbsIndexIsTransactionEligible ev (Some c) (bt_LiveBbsIndex c)"
  shows "k < length (boot_order ev c journal) \<Longrightarrow> planned_vector ev c journal ! (boot_order ev c journal ! k) = of_nat k"
    and "i < bt_BbsCount c \<Longrightarrow> i \<notin> set (boot_order ev c journal) \<Longrightarrow> planned_vector ev c journal ! i = b_BootPriority (journal ! i)"
    and "length (planned_vector ev c journal) = bt_BbsCount c"
proof -
  have rows: "set (boot_order ev c journal) = {i. i < bt_BbsCount c \<and> LegacyBootBbsIndexIsTransactionEligible ev (Some c) i}"
    by (rule set_boot_order) (use ready live in \<open>simp_all add: plan_ready_def\<close>)
  show len: "length (planned_vector ev c journal) = bt_BbsCount c" by (simp add: planned_vector_def initial_plan_def)
  show "planned_vector ev c journal ! (boot_order ev c journal ! k) = of_nat k" if "k < length (boot_order ev c journal)"
    unfolding planned_vector_def
    by (subst assign_nth) (use that rows in \<open>auto simp: distinct_boot_order initial_plan_def\<close>)
  show "planned_vector ev c journal ! i = b_BootPriority (journal ! i)" if "i < bt_BbsCount c" "i \<notin> set (boot_order ev c journal)"
    using that rows by (auto simp: planned_vector_def assign_other initial_plan_def)
qed

lemma length_boot_order:
  assumes "plan_ready c journal"
  shows "length (boot_order ev c journal) \<le> 257"
  using length_pass_rows [of ev c journal] assms by (simp add: boot_order_def plan_ready_def ncv_defs)

lemma planned_zero:
  assumes ready: "plan_ready c journal" and live: "LegacyBootBbsIndexIsTransactionEligible ev (Some c) (bt_LiveBbsIndex c)"
    and i: "i < bt_BbsCount c"
  shows "planned_vector ev c journal ! i = 0 \<longleftrightarrow>
    i = bt_LiveBbsIndex c \<or> i \<notin> set (boot_order ev c journal) \<and> b_BootPriority (journal ! i) = 0"
proof (cases "i \<in> set (boot_order ev c journal)")
  case True
  then obtain k where k: "k < length (boot_order ev c journal)" "i = boot_order ev c journal ! k" by (metis in_set_conv_nth)
  have "k < 2 ^ LENGTH(16)" using k(1) length_boot_order [OF ready, of ev] by simp
  then have "planned_vector ev c journal ! i = 0 \<longleftrightarrow> k = 0"
    using planned_vector_nth(1) [OF ready live k(1)] by (auto simp: k(2) word_unat_eq_iff unat_of_nat take_bit_nat_eq_self)
  moreover have "i = bt_LiveBbsIndex c \<longleftrightarrow> k = 0"
    using nth_eq_iff_index_eq [OF distinct_boot_order [of ev c journal] k(1), of 0] k
    by (simp add: boot_order_def)
  ultimately show ?thesis using True by simp
next
  case False
  moreover have "bt_LiveBbsIndex c \<in> set (boot_order ev c journal)" by (simp add: boot_order_def)
  ultimately show ?thesis using planned_vector_nth(2) [OF ready live i False] by auto
qed

lemma BuildPriorityPlan_result:
  assumes ready: "plan_ready c journal"
  shows "fst (LegacyBootBuildPriorityPlan ev (Some c)) = plan_status ev c journal \<and>
    (plan_status ev c journal = EFI_SUCCESS \<longrightarrow> snd (LegacyBootBuildPriorityPlan ev (Some c)) =
       Some (c\<lparr>bt_ExpectedPriorities := Some (map (\<lambda>i. b_BootPriority (journal ! i)) [0..<bt_BbsCount c]),
         bt_PlannedPriorities := Some (planned_vector ev c journal),
         bt_PlannedPriorityCrc32 := LegacyBootBbsPriorityCrc32FromVector (planned_vector ev c journal)\<rparr>))"
proof (cases "LegacyBootBbsIndexIsTransactionEligible ev (Some c) (bt_LiveBbsIndex c)")
  case False
  then show ?thesis using ready
    by (auto simp: LegacyBootBuildPriorityPlan_def plan_status_def plan_ready_def Let_def)
next
  case live: True
  let ?el = "LegacyBootBbsIndexIsTransactionEligible ev (Some c)"
  let ?st = "\<lparr>pl_Planned = (initial_plan ev c journal)[bt_LiveBbsIndex c := 0], pl_Ranked = (\<lambda>i. \<not> ?el i)(bt_LiveBbsIndex c := True), pl_Next = 1\<rparr>"
  obtain s0 st0 where r0: "RankLoop ev c journal 0 ?st = (s0, st0)" by fastforce
  obtain s1 st1 where r1: "RankLoop ev c journal 1 st0 = (s1, st1)" by fastforce
  note passes = RankLoop_passes [OF ready refl, of ev "(initial_plan ev c journal)[bt_LiveBbsIndex c := 0]", unfolded r0 Let_def prod.case r1, folded assign_head planned_vector_def]
  have args: "\<not> (bt_PlannedPriorities c = None \<or> bt_ExpectedPriorities c = None \<or> bt_LiveBbsIndex c \<ge> bt_BbsCount c \<or>
      bt_LegacyDevOrderUsable c \<and> (bt_LegacyDevOrderRanks c = None \<or> bt_LegacyDevOrderDisabled c = None))"
    and j: "bt_BbsJournal c = Some journal"
    using ready by (auto simp: plan_ready_def)
  have denied: "list_all (\<lambda>i. \<not> (i \<noteq> bt_LiveBbsIndex c \<and> planned_vector ev c journal ! i = 0)) [0..<bt_BbsCount c] \<longleftrightarrow>
      \<not> (\<exists>i<bt_BbsCount c. i \<notin> set (boot_order ev c journal) \<and> b_BootPriority (journal ! i) = 0)"
    using planned_zero [OF ready live] by (auto simp: list_all_iff boot_order_def)
  show ?thesis
  proof (cases "\<exists>i\<in>set (tl (boot_order ev c journal)). unranked_row c i")
    case True
    then have s: "s0 = EFI_COMPROMISED_DATA \<or> s0 = EFI_SUCCESS \<and> s1 = EFI_COMPROMISED_DATA"
      using passes unfolding tl_boot_order by (auto split: if_splits)
    then show ?thesis using True live
      unfolding LegacyBootBuildPriorityPlan_def plan_status_def option.case j if_not_P [OF args] Let_def initial_plan_def [symmetric]
      by (auto simp: r0 r1 [simplified])
  next
    case False
    then have s: "s0 = EFI_SUCCESS" "s1 = EFI_SUCCESS" "pl_Planned st1 = planned_vector ev c journal"
      using passes unfolding tl_boot_order by (auto split: if_splits)
    show ?thesis using False live
      unfolding LegacyBootBuildPriorityPlan_def plan_status_def option.case j if_not_P [OF args] Let_def initial_plan_def [symmetric]
      by (simp add: r0 r1 [simplified] s denied [simplified])
  qed
qed


text \<open>
  C5. The plan is a stable sort: when \<open>LegacyBootBuildPriorityPlan\<close> succeeds on a table of at most 256 rows, the
  planned priorities number the boot order densely from 0, where that order is the selected row, then the
  other eligible hard disks sorted stably by their device-order rank (by their index without a usable order),
  then the remaining eligible rows sorted stably by rank (by their original priority); every
  other row keeps its priority, the selected row is the only one planned at priority 0, and the expected vector
  is what the journal holds.
\<close>

theorem BuildPriorityPlan_stable_sort:
  assumes "plan_ready c journal" and "LegacyBootBuildPriorityPlan ev (Some c) = (EFI_SUCCESS, Some c')"
  shows "\<exists>v. bt_PlannedPriorities c' = Some v \<and> length v = bt_BbsCount c \<and>
    (\<forall>k<length (boot_order ev c journal). v ! (boot_order ev c journal ! k) = of_nat k) \<and>
    (\<forall>i<bt_BbsCount c. i \<notin> set (boot_order ev c journal) \<longrightarrow> v ! i = b_BootPriority (journal ! i)) \<and>
    (\<forall>i<bt_BbsCount c. v ! i = 0 \<longleftrightarrow> i = bt_LiveBbsIndex c) \<and>
    bt_ExpectedPriorities c' = Some (map (\<lambda>i. b_BootPriority (journal ! i)) [0..<bt_BbsCount c])"
proof -
  note r = BuildPriorityPlan_result [OF assms(1), of ev]
  have st: "plan_status ev c journal = EFI_SUCCESS" using r assms(2) by simp
  then have live: "LegacyBootBbsIndexIsTransactionEligible ev (Some c) (bt_LiveBbsIndex c)"
    and clear: "\<not> (\<exists>i<bt_BbsCount c. i \<notin> set (boot_order ev c journal) \<and> b_BootPriority (journal ! i) = 0)"
    by (auto simp: plan_status_def split: if_splits)
  note nth = planned_vector_nth [OF assms(1) live]
  show ?thesis
    by (rule exI [of _ "planned_vector ev c journal"])
      (use r st assms(2) nth planned_zero [OF assms(1) live] clear in auto)
qed

lemma sample_ready: "plan_ready sample_context sample_table"
  by (simp add: plan_ready_def sample_context_def zero_context_def ncv_defs)

lemma sample_order: "boot_order no_evidence sample_context sample_table = [2, 1]"
  using sample_eligible
  by (simp add: boot_order_def pass_rows_def InPass_def upt_rec [of 0 3] upt_rec [of 1 3] upt_rec [of 2 3] numeral_2_eq_2)
    (simp add: sample_context_def zero_context_def sample_table_def sample_row_def zero_row_def BBS_HARDDISK_def eval_nat_numeral)?

lemma sample_plan: "plan_status no_evidence sample_context sample_table = EFI_SUCCESS"
proof -
  have "b_BootPriority (sample_table ! i) \<noteq> 0" if i: "i < 3" for i
  proof -
    consider "i = 0" | "i = 1" | "i = 2" using i by linarith
    then show ?thesis by cases (simp_all add: sample_table_def sample_row_def zero_row_def)
  qed
  moreover have "LegacyBootBbsIndexIsTransactionEligible no_evidence (Some sample_context) (bt_LiveBbsIndex sample_context)"
    using sample_eligible(3) by (simp add: sample_context_def)
  moreover have "bt_BbsCount sample_context = 3" "\<not> bt_LegacyDevOrderUsable sample_context"
    by (simp_all add: sample_context_def zero_context_def)
  ultimately show ?thesis by (auto simp: plan_status_def unranked_row_def)
qed

theorem BuildPriorityPlan_stable_sort_witness:
  "\<exists>c' v. LegacyBootBuildPriorityPlan no_evidence (Some sample_context) = (EFI_SUCCESS, Some c') \<and>
     bt_PlannedPriorities c' = Some v \<and> v ! 2 = 0 \<and> v ! 1 = 1"
proof -
  obtain c' where run: "LegacyBootBuildPriorityPlan no_evidence (Some sample_context) = (EFI_SUCCESS, Some c')"
    using BuildPriorityPlan_result [OF sample_ready, of no_evidence] sample_plan by (metis prod.collapse)
  from BuildPriorityPlan_stable_sort [OF sample_ready run] run show ?thesis
    unfolding sample_order by (auto simp: less_Suc_eq numeral_2_eq_2)
qed

text \<open>
  C25. The planner fails exactly when it must: \<open>EFI_NOT_FOUND\<close> when the selected row may not be written,
  \<open>EFI_COMPROMISED_DATA\<close> when the device order is usable but does not rank an eligible row,
  \<open>EFI_ACCESS_DENIED\<close> when a protected row already has priority 0, and success otherwise; it never runs out of
  priorities.
\<close>

theorem BuildPriorityPlan_status:
  assumes "plan_ready c journal"
  shows "fst (LegacyBootBuildPriorityPlan ev (Some c)) = plan_status ev c journal"
  using BuildPriorityPlan_result [OF assms] by blast

theorem BuildPriorityPlan_status_witness:
  "fst (LegacyBootBuildPriorityPlan no_evidence (Some sample_context)) = EFI_SUCCESS"
  unfolding BuildPriorityPlan_status [OF sample_ready] by (rule sample_plan)

end
