(* ===== verification/Bbs_Journal.thy ===== *)
theory Bbs_Journal
  imports Priority_Plan Boot_Option
begin

text \<open>
  The verification and journal routines of \<open>LegacyBootTarget.c\<close>: the owned copies, the strings and rows of the live table,
  the reservation, the preflight and the durable journal, and the release of the context.
\<close>

section \<open>Reading the live table\<close>

text \<open>\<open>CopyMem\<close> of rows of the firmware's table.\<close>

fun ReadRows :: "'w boot_services \<Rightarrow> nat list \<Rightarrow> ('w, BBS_TABLE list) state" where
  "ReadRows sv [] = State_Monad.return []"
| "ReadRows sv (i # is) = do { e \<leftarrow> bs_ReadEntry sv i; es \<leftarrow> ReadRows sv is; State_Monad.return (e # es) }"

definition ReadTable :: "'w boot_services \<Rightarrow> nat \<Rightarrow> ('w, BBS_TABLE list) state" where
  "ReadTable sv n = ReadRows sv [0..<n]"

definition SameEntry :: "BBS_TABLE \<Rightarrow> BBS_TABLE \<Rightarrow> bool" where
  "SameEntry a b \<longleftrightarrow> EntryBytes a = EntryBytes b"

definition SameTable :: "BBS_TABLE list \<Rightarrow> BBS_TABLE list \<Rightarrow> bool" where
  "SameTable as bs \<longleftrightarrow> concat (map EntryBytes as) = concat (map EntryBytes bs)"

definition TableCrc32 :: "BBS_TABLE list \<Rightarrow> NCV_U32" where
  "TableCrc32 es = LegacyBootCrc32 (Some (concat (map EntryBytes es)))"

definition SameStrings :: "LEGACY_BOOT_BBS_STRING_SNAPSHOT \<Rightarrow> LEGACY_BOOT_BBS_STRING_SNAPSHOT \<Rightarrow> bool" where
  "SameStrings a b \<longleftrightarrow> SnapshotBytes a = SnapshotBytes b"

text \<open>A failing routine that logs and, when asked to, flushes.\<close>

definition LogFailure :: "'w boot_services \<Rightarrow> string \<Rightarrow> bool \<Rightarrow> EFI_STATUS \<Rightarrow> ('w, EFI_STATUS) state" where
  "LogFailure sv label flush status = do {
     _ \<leftarrow> bs_LogPrint sv label;
     _ \<leftarrow> (if flush then bs_LogFlush sv else State_Monad.return EFI_SUCCESS);
     State_Monad.return status
   }"

definition FlushResult :: "'w boot_services \<Rightarrow> bool \<Rightarrow> ('w, EFI_STATUS) state" where
  "FlushResult sv flush = (if flush then bs_LogFlush sv else State_Monad.return EFI_SUCCESS)"

text \<open>A log call whose error is the result, and a flush as the last step.\<close>

definition LogPassed :: "'w boot_services \<Rightarrow> string \<Rightarrow> bool \<Rightarrow> ('w, EFI_STATUS) state" where
  "LogPassed sv label flush = do {
     status \<leftarrow> bs_LogPrint sv label;
     if EFI_ERROR status then State_Monad.return status else FlushResult sv flush
   }"

section \<open>The owned copies\<close>

definition wide_bytes :: "CHAR16 list \<Rightarrow> NCV_U8 list" where
  "wide_bytes s = concat (map LegacyBootWriteLe16 s)"

definition OwnedCopiesReady :: "LEGACY_BOOT_BOOT_TARGET_CONTEXT \<Rightarrow> bool" where
  "OwnedCopiesReady c \<longleftrightarrow> \<not> (bt_Signature c \<noteq> LEGACY_BOOT_BOOT_TARGET_SIGNATURE \<or> \<not> bt_DiscoveryComplete c \<or>
     (case bt_BootOptionDescription c of None \<Rightarrow> True | Some d \<Rightarrow> d = []) \<or>
     (case bt_BbsDevicePath c of None \<Rightarrow> True | Some p \<Rightarrow> p = []) \<or>
     (case bt_LoadOptions c of None \<Rightarrow> False | Some d \<Rightarrow> length d > 0xFFFFFFFF) \<or>
     bt_BbsDiscoverySnapshot c = None \<or> bt_BbsDiscoveryStrings c = None \<or> bt_LiveBbsIndex c \<ge> bt_BbsCount c)"

definition OwnedCopiesCrcWrong :: "LEGACY_BOOT_BOOT_TARGET_CONTEXT \<Rightarrow> bool" where
  "OwnedCopiesCrcWrong c \<longleftrightarrow>
     LegacyBootCrc32 (map_option wide_bytes (bt_BootOptionDescription c)) \<noteq> bt_BootOptionDescriptionCrc32 c \<or>
     LegacyBootCrc32 (bt_BbsDevicePath c) \<noteq> bt_BbsDevicePathCrc32 c \<or>
     LegacyBootCrc32 (bt_LoadOptions c) \<noteq> bt_LoadOptionsCrc32 c \<or>
     bt_LoadOptionsCrc32 c \<noteq> bt_OriginalLoadOptionsCrc32 c \<or>
     TableCrc32 (the (bt_BbsDiscoverySnapshot c)) \<noteq> bt_BbsDiscoveryCrc32 c \<or>
     LegacyBootBbsIdentityCrc32 (the (bt_BbsDiscoverySnapshot c)) \<noteq> bt_BbsDiscoveryIdentityCrc32 c \<or>
     StringsCrc32 (the (bt_BbsDiscoveryStrings c)) \<noteq> bt_BbsDiscoveryStringsCrc32 c"

definition OwnedCopiesMatch :: "LEGACY_BOOT_BOOT_TARGET_CONTEXT \<Rightarrow> NCV_U16 \<Rightarrow> NCV_U16 \<Rightarrow> NCV_U8 list \<Rightarrow> bool" where
  "OwnedCopiesMatch c deviceType statusFlag description \<longleftrightarrow>
     deviceType = bt_BbsDeviceType c \<and> statusFlag = bt_BbsStatusFlag c \<and> description = bt_BbsDescription c \<and>
     bt_BootOptionAttributes c AND LOAD_OPTION_ACTIVE \<noteq> 0 \<and>
     SameEntry (bt_LiveBbsEntry c) (the (bt_BbsDiscoverySnapshot c) ! bt_LiveBbsIndex c) \<and>
     TextBuffer (bt_LiveManufacturer c) = TextBuffer (ss_Manufacturer (the (bt_BbsDiscoveryStrings c) ! bt_LiveBbsIndex c)) \<and>
     TextBuffer (bt_LiveDescription c) = TextBuffer (ss_Description (the (bt_BbsDiscoveryStrings c) ! bt_LiveBbsIndex c))"

definition LegacyBootBootTargetValidateOwnedCopies ::
  "'w boot_services \<Rightarrow> LEGACY_BOOT_BOOT_TARGET_CONTEXT option \<Rightarrow> ('w, EFI_STATUS) state" where
  "LegacyBootBootTargetValidateOwnedCopies sv context' =
     (case context' of None \<Rightarrow> State_Monad.return EFI_INVALID_PARAMETER
      | Some c \<Rightarrow>
          if \<not> OwnedCopiesReady c then State_Monad.return EFI_INVALID_PARAMETER
          else do {
            ev \<leftarrow> bs_Evidence sv;
            let status = LegacyStorageRomVerify (ev_Storage ev) (ev_StorageLive ev);
            if EFI_ERROR status then State_Monad.return status
            else if last (the (bt_BootOptionDescription c)) \<noteq> 0 then State_Monad.return EFI_COMPROMISED_DATA
            else if OwnedCopiesCrcWrong c then LogFailure sv ''owned-copy CRC validation failed'' True EFI_CRC_ERROR
            else (case LegacyBootValidateExactBbsDevicePath (bt_BbsDevicePath c) (LEGACY_BOOT_BOOT_TARGET_MAX_STRING_BYTES + 1) of
                Inl status \<Rightarrow> LogFailure sv ''structural validation failed'' True status
              | Inr (deviceType, statusFlag, description) \<Rightarrow>
                  if \<not> OwnedCopiesMatch c deviceType statusFlag description
                  then LogFailure sv ''structural validation failed'' True EFI_COMPROMISED_DATA
                  else LogPassed sv ''boot arguments verified'' True)
          })"

section \<open>The strings of the live table\<close>

text \<open>The loop over the rows: \<open>None\<close> when all strings are as journaled, else the row that differs.\<close>

fun LiveStringLoop ::
  "'w boot_services \<Rightarrow> MEMORY_MAP_SNAPSHOT \<Rightarrow> LEGACY_BOOT_BBS_STRING_SNAPSHOT list \<Rightarrow> nat list \<Rightarrow> NCV_U32 \<Rightarrow> ('w, nat + NCV_U32) state" where
  "LiveStringLoop sv m strings [] crc = State_Monad.return (Inr crc)"
| "LiveStringLoop sv m strings (i # is) crc = do {
     e \<leftarrow> bs_ReadEntry sv i;
     current \<leftarrow> ReadStrings sv m e;
     let crc = LegacyBootCrc32Update crc (SnapshotBytes current);
     if \<not> SameStrings current (strings ! i) then State_Monad.return (Inl i)
     else LiveStringLoop sv m strings is crc
   }"

definition LegacyBootVerifyLiveBbsStrings ::
  "'w boot_services \<Rightarrow> LEGACY_BOOT_BOOT_TARGET_CONTEXT option \<Rightarrow> string \<Rightarrow> bool \<Rightarrow> ('w, EFI_STATUS) state" where
  "LegacyBootVerifyLiveBbsStrings sv context' label flush =
     (case context' of None \<Rightarrow> State_Monad.return EFI_INVALID_PARAMETER
      | Some c \<Rightarrow>
          (case bt_BbsJournalStrings c of None \<Rightarrow> State_Monad.return EFI_INVALID_PARAMETER
           | Some strings \<Rightarrow>
               if StringsCrc32 strings \<noteq> bt_BbsJournalStringsCrc32 c then LogFailure sv label flush EFI_CRC_ERROR
               else do {
                 r \<leftarrow> CaptureMap sv;
                 case r of Inl status \<Rightarrow> State_Monad.return status
                 | Inr m \<Rightarrow>
                     if \<not> fst (MemoryMapRangeIsReadable (Some m) (bt_FirmwareBbsTable c) (bt_BbsTableBytes c) False)
                     then State_Monad.return EFI_SECURITY_VIOLATION
                     else do {
                       r \<leftarrow> LiveStringLoop sv m strings [0..<bt_BbsCount c] MAX_UINT32;
                       case r of Inl i \<Rightarrow> LogFailure sv label flush EFI_COMPROMISED_DATA
                       | Inr running \<Rightarrow> do {
                           let currentCrc = NOT running;
                           status \<leftarrow> bs_LogPrint sv label;
                           if EFI_ERROR status then State_Monad.return status
                           else if currentCrc \<noteq> bt_BbsJournalStringsCrc32 c then do {
                             _ \<leftarrow> FlushResult sv flush;
                             State_Monad.return EFI_CRC_ERROR
                           } else FlushResult sv flush
                         }
                     }
               }))"

section \<open>The live table against a vector of priorities\<close>

definition RowsAsExpected :: "BBS_TABLE list \<Rightarrow> NCV_U16 list \<Rightarrow> BBS_TABLE list \<Rightarrow> nat \<Rightarrow> bool" where
  "RowsAsExpected journal expected scratch n =
     list_all (\<lambda>i. SameIdentity (scratch ! i) (journal ! i) \<and> b_BootPriority (scratch ! i) = expected ! i) [0..<n]"

text \<open>The rows read one by one against the scratch copy.\<close>

fun RereadLoop :: "'w boot_services \<Rightarrow> BBS_TABLE list \<Rightarrow> nat list \<Rightarrow> ('w, bool) state" where
  "RereadLoop sv scratch [] = State_Monad.return True"
| "RereadLoop sv scratch (i # is) = do {
     e \<leftarrow> bs_ReadEntry sv i;
     if \<not> SameEntry e (scratch ! i) then State_Monad.return False else RereadLoop sv scratch is
   }"

definition LegacyBootVerifyLiveAgainstPriorities ::
  "'w boot_services \<Rightarrow> LEGACY_BOOT_BOOT_TARGET_CONTEXT option \<Rightarrow> NCV_U16 list option \<Rightarrow> string \<Rightarrow> bool \<Rightarrow> bool \<Rightarrow> ('w, EFI_STATUS) state" where
  "LegacyBootVerifyLiveAgainstPriorities sv context' expected' label requireWritable flush =
     (case (context', expected') of
        (Some c, Some expected) \<Rightarrow>
          (case bt_BbsJournal c of None \<Rightarrow> State_Monad.return EFI_INVALID_PARAMETER
           | Some journal \<Rightarrow>
               if \<not> bt_VerificationScratch c then State_Monad.return EFI_INVALID_PARAMETER
               else do {
                 status \<leftarrow> LegacyBootValidateFirmwareBbsRange sv (Some c) requireWritable;
                 if EFI_ERROR status then LogFailure sv label flush status
                 else do {
                   scratch \<leftarrow> ReadTable sv (bt_BbsCount c);
                   if \<not> RowsAsExpected journal expected scratch (bt_BbsCount c) then LogFailure sv label flush EFI_COMPROMISED_DATA
                   else do {
                     status \<leftarrow> LegacyBootVerifyLiveBbsStrings sv (Some c) label False;
                     if EFI_ERROR status then do {
                       _ \<leftarrow> FlushResult sv flush;
                       State_Monad.return status
                     } else do {
                       same \<leftarrow> RereadLoop sv scratch [0..<bt_BbsCount c];
                       if \<not> same then LogFailure sv label flush EFI_ABORTED
                       else LogPassed sv label flush
                     }
                   }
                 }
               })
      | _ \<Rightarrow> State_Monad.return EFI_INVALID_PARAMETER)"


section \<open>Reserving and preparing the journal\<close>

text \<open>A step whose error status ends the routine with the context as it is.\<close>

definition OnSuccess ::
  "('w, EFI_STATUS) state \<Rightarrow> 'c \<Rightarrow> ('w, EFI_STATUS \<times> 'c) state \<Rightarrow> ('w, EFI_STATUS \<times> 'c) state" where
  "OnSuccess m c k = do { status \<leftarrow> m; if EFI_ERROR status then State_Monad.return (status, c) else k }"

text \<open>A step that also changes the context.\<close>

definition OnSuccessWith ::
  "('w, EFI_STATUS \<times> 'c) state \<Rightarrow> ('c \<Rightarrow> ('w, EFI_STATUS \<times> 'c) state) \<Rightarrow> ('w, EFI_STATUS \<times> 'c) state" where
  "OnSuccessWith m k = do { (status, c) \<leftarrow> m; if EFI_ERROR status then State_Monad.return (status, c) else k c }"

definition sizeof_STRING_SNAPSHOT :: nat where [ncv_defs]: "sizeof_STRING_SNAPSHOT = 260"

definition zero_strings :: LEGACY_BOOT_BBS_STRING_SNAPSHOT where
  "zero_strings = \<lparr>ss_ManufacturerReadResult = LegacyBootFarStringPresent, ss_DescriptionReadResult = LegacyBootFarStringPresent,
     ss_Manufacturer = [], ss_Description = []\<rparr>"

definition zeroed :: "bool \<Rightarrow> nat \<Rightarrow> 'a \<Rightarrow> 'a list option" where
  "zeroed ok n x = (if ok then Some (replicate n x) else None)"

definition LegacyBootReserveJournal ::
  "'w boot_services \<Rightarrow> LEGACY_BOOT_BOOT_TARGET_CONTEXT \<Rightarrow> ('w, EFI_STATUS \<times> LEGACY_BOOT_BOOT_TARGET_CONTEXT) state" where
  "LegacyBootReserveJournal sv c =
     (if bt_BbsJournal c \<noteq> None \<and> bt_BbsJournalStrings c \<noteq> None \<and> bt_PlannedPriorities c \<noteq> None \<and>
         bt_ExpectedPriorities c \<noteq> None \<and> bt_VerificationScratch c
      then State_Monad.return (EFI_SUCCESS, c)
      else if bt_BbsJournal c \<noteq> None \<or> bt_BbsJournalStrings c \<noteq> None \<or> bt_PlannedPriorities c \<noteq> None \<or>
         bt_ExpectedPriorities c \<noteq> None \<or> bt_VerificationScratch c
      then State_Monad.return (EFI_OUT_OF_RESOURCES, c)
      else do {
        j \<leftarrow> Pool sv (bt_BbsTableBytes c);
        s \<leftarrow> Pool sv (bt_BbsCount c * sizeof_STRING_SNAPSHOT);
        p \<leftarrow> Pool sv (bt_BbsCount c * 2);
        e \<leftarrow> Pool sv (bt_BbsCount c * 2);
        v \<leftarrow> Pool sv (bt_BbsTableBytes c);
        State_Monad.return (if j \<and> s \<and> p \<and> e \<and> v then EFI_SUCCESS else EFI_OUT_OF_RESOURCES,
          c\<lparr>bt_BbsJournal := zeroed j (bt_BbsCount c) zero_row, bt_BbsJournalStrings := zeroed s (bt_BbsCount c) zero_strings,
            bt_PlannedPriorities := zeroed p (bt_BbsCount c) 0, bt_ExpectedPriorities := zeroed e (bt_BbsCount c) 0,
            bt_VerificationScratch := v\<rparr>)
      })"

text \<open>The planner with the evidence at the time of the call.\<close>

definition BuildPlanStep ::
  "'w boot_services \<Rightarrow> LEGACY_BOOT_BOOT_TARGET_CONTEXT \<Rightarrow> ('w, EFI_STATUS \<times> LEGACY_BOOT_BOOT_TARGET_CONTEXT) state" where
  "BuildPlanStep sv c = do {
     ev \<leftarrow> bs_Evidence sv;
     let (status, c') = LegacyBootBuildPriorityPlan ev (Some c);
     State_Monad.return (status, the c')
   }"

text \<open>A completed discovery has a snapshot, so the copy into the journal is never of a \<open>NULL\<close> array.\<close>

definition LegacyBootBootTargetPrepare ::
  "'w boot_services \<Rightarrow> LEGACY_BOOT_BOOT_TARGET_CONTEXT option \<Rightarrow> ('w, EFI_STATUS \<times> LEGACY_BOOT_BOOT_TARGET_CONTEXT option) state" where
  "LegacyBootBootTargetPrepare sv context' =
     (case context' of None \<Rightarrow> State_Monad.return (EFI_INVALID_PARAMETER, None)
      | Some c \<Rightarrow>
          if \<not> bt_DiscoveryComplete c \<or> bt_JournalAttempted c then State_Monad.return (EFI_INVALID_PARAMETER, Some c)
          else do {
            (status, c) \<leftarrow> OnSuccess (LegacyBootValidateFirmwareBbsRange sv (Some c) True) c (
              OnSuccessWith (LegacyBootReserveJournal sv c) (\<lambda>c.
              OnSuccessWith (LegacyBootCaptureLegacyDevOrder sv (c\<lparr>bt_BbsJournal := bt_BbsDiscoverySnapshot c\<rparr>)) (\<lambda>c.
              OnSuccessWith (BuildPlanStep sv c) (\<lambda>c. do {
                status \<leftarrow> bs_LogPrint sv ''NCV_BBS_PREFLIGHT_READY'';
                State_Monad.return (status, c)
              }))));
            State_Monad.return (status, Some c)
          })"

section \<open>The durable journal\<close>

definition LegacyStorageRomReportVga :: "'w boot_services \<Rightarrow> ('w, EFI_STATUS) state" where
  "LegacyStorageRomReportVga sv = do {
     ev \<leftarrow> bs_Evidence sv;
     if ev_Storage ev = None then State_Monad.return EFI_SUCCESS
     else if \<not> StorageReadable (ev_Storage ev) 0 3 then State_Monad.return EFI_NOT_READY
     else let n = unat (ev_StorageLive ev 2) * 512
          in if ev_StorageLive ev 0 \<noteq> 0x55 \<or> ev_StorageLive ev 1 \<noteq> 0xAA \<or> n = 0
             then bs_LogPrint sv ''NCV_POST_DISPATCH_VGA_FOOTPRINT_UNAVAILABLE''
             else bs_LogPrint sv ''NCV_POST_DISPATCH_VGA_FOOTPRINT''
   }"

text \<open>The log of one row; the result is the status and the strings that were read for it.\<close>

definition LegacyBootLogBbsEntry ::
  "'w boot_services \<Rightarrow> MEMORY_MAP_SNAPSHOT \<Rightarrow> BBS_TABLE \<Rightarrow> ('w, EFI_STATUS \<times> LEGACY_BOOT_BBS_STRING_SNAPSHOT) state" where
  "LegacyBootLogBbsEntry sv m e = do {
     strings \<leftarrow> ReadStrings sv m e;
     ev \<leftarrow> bs_Evidence sv;
     status \<leftarrow> LogAll sv ([''BBS''] @
       (if b_StatusFlags e = 0 \<and> StorageRomMatches ev e then [''NCV_BBS_RESIDENT_ROM_VERIFIED''] else []) @
       (if b_StatusFlags e = 0 \<and> FirmwareDiskMatches ev e then [''NCV_BBS_FIRMWARE_AHCI_VERIFIED''] else []) @
       [''manufacturer'']);
     State_Monad.return (status, strings)
   }"

text \<open>The loop that logs every journaled row and collects its strings.\<close>

fun JournalLoop ::
  "'w boot_services \<Rightarrow> MEMORY_MAP_SNAPSHOT \<Rightarrow> BBS_TABLE list \<Rightarrow> nat list \<Rightarrow> LEGACY_BOOT_BBS_STRING_SNAPSHOT list \<Rightarrow>
   ('w, EFI_STATUS \<times> LEGACY_BOOT_BBS_STRING_SNAPSHOT list) state" where
  "JournalLoop sv m journal [] strings = State_Monad.return (EFI_SUCCESS, strings)"
| "JournalLoop sv m journal (i # is) strings = do {
     (status, s) \<leftarrow> LegacyBootLogBbsEntry sv m (journal ! i);
     if EFI_ERROR status then State_Monad.return (status, strings)
     else do {
       let strings = strings[i := s];
       status \<leftarrow> bs_LogPrint sv ''journal entry'';
       if EFI_ERROR status then State_Monad.return (status, strings) else JournalLoop sv m journal is strings
     }
   }"

text \<open>From the captured map to the flushed journal.\<close>

definition JournalStrings ::
  "'w boot_services \<Rightarrow> LEGACY_BOOT_BOOT_TARGET_CONTEXT \<Rightarrow> ('w, EFI_STATUS \<times> LEGACY_BOOT_BOOT_TARGET_CONTEXT) state" where
  "JournalStrings sv c = do {
     r \<leftarrow> CaptureMap sv;
     case r of Inl status \<Rightarrow> State_Monad.return (status, c)
     | Inr m \<Rightarrow>
         if \<not> fst (MemoryMapRangeIsReadable (Some m) (bt_FirmwareBbsTable c) (bt_BbsTableBytes c) False)
         then State_Monad.return (EFI_SECURITY_VIOLATION, c)
         else do {
           _ \<leftarrow> bs_LogPrint sv ''durable BBS mutation journal'';
           _ \<leftarrow> bs_LogPrint sv ''BBS table'';
           OnSuccess (bs_LogPrint sv ''Definitive selected target'') c (do {
             (status, strings) \<leftarrow> JournalLoop sv m (the (bt_BbsJournal c)) [0..<bt_BbsCount c] (the (bt_BbsJournalStrings c));
             let c = c\<lparr>bt_BbsJournalStrings := Some strings\<rparr>;
             if EFI_ERROR status then State_Monad.return (status, c)
             else let c = c\<lparr>bt_BbsJournalStringsCrc32 := StringsCrc32 strings\<rparr>
                  in OnSuccess (bs_LogPrint sv ''Bounded journal CRC32'') c (
                       if concat (map SnapshotBytes strings) \<noteq> concat (map SnapshotBytes (the (bt_BbsDiscoveryStrings c)))
                       then do { status \<leftarrow> LogFailure sv ''strings changed'' True EFI_ABORTED; State_Monad.return (status, c) }
                       else do { status \<leftarrow> bs_LogFlush sv; State_Monad.return (status, c) })
           })
         }
   }"

text \<open>The rereads behind the flushed journal.\<close>

definition JournalFinish ::
  "'w boot_services \<Rightarrow> LEGACY_BOOT_BOOT_TARGET_CONTEXT \<Rightarrow> ('w, EFI_STATUS \<times> LEGACY_BOOT_BOOT_TARGET_CONTEXT) state" where
  "JournalFinish sv c =
     OnSuccess (LegacyBootVerifyLegacyDevOrderSnapshot sv (Some c) ''Final flushed LegacyDevOrder journal reread'' True) c (do {
       scratch \<leftarrow> ReadTable sv (bt_BbsCount c);
       if \<not> SameTable scratch (the (bt_BbsJournal c)) then do {
         status \<leftarrow> LogFailure sv ''Final live BBS reread differs'' True EFI_ABORTED;
         State_Monad.return (status, c)
       } else OnSuccess (LegacyBootVerifyLiveBbsStrings sv (Some c) ''Final flushed BBS string-journal reread'' True) c (do {
         let c = c\<lparr>bt_JournalComplete := True\<rparr>;
         status \<leftarrow> LegacyBootVerifyLiveAgainstPriorities sv (Some c) (bt_ExpectedPriorities c) ''Final original BBS journal reread'' True True;
         State_Monad.return (if EFI_ERROR status then (status, c\<lparr>bt_JournalComplete := False\<rparr>) else (EFI_SUCCESS, c))
       })
     })"

text \<open>The device order is read again when the preflight could use it, else it is captured now.\<close>

definition JournalOrder ::
  "'w boot_services \<Rightarrow> LEGACY_BOOT_BOOT_TARGET_CONTEXT \<Rightarrow> ('w, EFI_STATUS \<times> LEGACY_BOOT_BOOT_TARGET_CONTEXT) state" where
  "JournalOrder sv c =
     (if bt_LegacyDevOrderUsable c
      then do {
        status \<leftarrow> LegacyBootVerifyLegacyDevOrderSnapshot sv (Some c) ''Post-ROM ordering revalidation'' True;
        State_Monad.return (status, c) }
      else LegacyBootCaptureLegacyDevOrder sv c)"

text \<open>The copy of the table and what is computed from it.\<close>

definition JournalRows ::
  "'w boot_services \<Rightarrow> LEGACY_BOOT_BOOT_TARGET_CONTEXT \<Rightarrow> ('w, EFI_STATUS \<times> LEGACY_BOOT_BOOT_TARGET_CONTEXT) state" where
  "JournalRows sv c = do {
     journal \<leftarrow> ReadTable sv (bt_BbsCount c);
     let c = c\<lparr>bt_BbsJournal := Some journal, bt_BbsJournalCrc32 := TableCrc32 journal,
       bt_BbsIdentityCrc32 := LegacyBootBbsIdentityCrc32 journal,
       bt_BbsPriorityCrc32 := LegacyBootBbsPriorityCrc32FromTable journal\<rparr>;
     OnSuccessWith (JournalOrder sv c) (\<lambda>c.
     OnSuccessWith (BuildPlanStep sv c) (\<lambda>c.
     OnSuccessWith (JournalStrings sv c) (JournalFinish sv)))
   }"

definition LegacyBootBootTargetJournalAndValidate ::
  "'w boot_services \<Rightarrow> LEGACY_BOOT_BOOT_TARGET_CONTEXT option \<Rightarrow> ('w, EFI_STATUS \<times> LEGACY_BOOT_BOOT_TARGET_CONTEXT option) state" where
  "LegacyBootBootTargetJournalAndValidate sv context' =
     (case context' of None \<Rightarrow> State_Monad.return (EFI_INVALID_PARAMETER, None)
      | Some c \<Rightarrow>
          if bt_Signature c \<noteq> LEGACY_BOOT_BOOT_TARGET_SIGNATURE \<or> \<not> bt_DiscoveryComplete c
          then State_Monad.return (EFI_INVALID_PARAMETER, Some c)
          else if bt_JournalAttempted c \<or> bt_JournalComplete c \<or> bt_PriorityTransactionAttempted c
          then State_Monad.return (EFI_ALREADY_STARTED, Some c)
          else do {
            let c = c\<lparr>bt_JournalAttempted := True\<rparr>;
            (status, c) \<leftarrow> OnSuccess (LegacyBootBootTargetValidateOwnedCopies sv (Some c)) c (
              OnSuccess (LegacyStorageRomReportVga sv) c (do {
              status \<leftarrow> LegacyBootValidateFirmwareBbsRange sv (Some c) True;
              if EFI_ERROR status then do {
                status \<leftarrow> LogFailure sv ''Definitive BBS journal refused'' True status;
                State_Monad.return (status, c)
              } else do {
                live \<leftarrow> ReadTable sv (bt_BbsCount c);
                if \<not> SameTable (the (bt_BbsDiscoverySnapshot c)) live then do {
                  status \<leftarrow> LogFailure sv ''Live BBS table differs'' True EFI_ABORTED;
                  State_Monad.return (status, c)
                } else OnSuccessWith (LegacyBootReserveJournal sv c) (JournalRows sv)
              }
            }));
            State_Monad.return (status, Some c)
          })"

section \<open>Validation and hand-over\<close>

definition LegacyBootBootTargetValidateOriginal ::
  "'w boot_services \<Rightarrow> LEGACY_BOOT_BOOT_TARGET_CONTEXT option \<Rightarrow> ('w, EFI_STATUS) state" where
  "LegacyBootBootTargetValidateOriginal sv context' =
     (case context' of None \<Rightarrow> State_Monad.return EFI_NOT_READY
      | Some c \<Rightarrow>
          if \<not> bt_JournalComplete c \<or> bt_PrioritiesApplied c \<or> bt_PriorityTransactionDirty c then State_Monad.return EFI_NOT_READY
          else do {
            status \<leftarrow> LegacyBootBootTargetValidateOwnedCopies sv (Some c);
            if EFI_ERROR status then State_Monad.return status
            else do {
              status \<leftarrow> LegacyBootVerifyLegacyDevOrderSnapshot sv (Some c) ''original LegacyDevOrder validation'' True;
              if EFI_ERROR status then State_Monad.return status
              else LegacyBootVerifyLiveAgainstPriorities sv (Some c) (bt_ExpectedPriorities c) ''original BBS state validation'' True True
            }
          })"

text \<open>The scan for a second priority 0: the number of zeros, unless one is at another row.\<close>

fun ZeroScan :: "NCV_U16 list \<Rightarrow> nat \<Rightarrow> nat list \<Rightarrow> nat \<Rightarrow> nat option" where
  "ZeroScan planned live [] zeros = Some zeros"
| "ZeroScan planned live (i # is) zeros =
     (if planned ! i = 0 then (if i \<noteq> live then None else ZeroScan planned live is (zeros + 1))
      else ZeroScan planned live is zeros)"

definition LegacyBootBootTargetValidateApplied ::
  "'w boot_services \<Rightarrow> LEGACY_BOOT_BOOT_TARGET_CONTEXT option \<Rightarrow> ('w, EFI_STATUS) state" where
  "LegacyBootBootTargetValidateApplied sv context' =
     (case context' of None \<Rightarrow> State_Monad.return EFI_NOT_READY
      | Some c \<Rightarrow>
          if \<not> bt_JournalComplete c \<or> \<not> bt_PrioritiesApplied c \<or> \<not> bt_PriorityTransactionDirty c
          then State_Monad.return EFI_NOT_READY
          else do {
            status \<leftarrow> LegacyBootBootTargetValidateOwnedCopies sv (Some c);
            if EFI_ERROR status then State_Monad.return status
            else do {
              status \<leftarrow> LegacyBootVerifyLegacyDevOrderSnapshot sv (Some c) ''applied LegacyDevOrder validation'' True;
              if EFI_ERROR status then State_Monad.return status
              else do {
                status \<leftarrow> LegacyBootVerifyLiveAgainstPriorities sv (Some c) (bt_PlannedPriorities c) ''applied BBS state validation'' True True;
                if EFI_ERROR status then State_Monad.return status
                else let planned = the (bt_PlannedPriorities c)
                     in (case ZeroScan planned (bt_LiveBbsIndex c) [0..<bt_BbsCount c] 0 of
                           None \<Rightarrow> LogFailure sv ''Applied BBS uniqueness failed'' True EFI_COMPROMISED_DATA
                         | Some zeros \<Rightarrow>
                             if zeros \<noteq> 1 \<or> planned ! bt_LiveBbsIndex c \<noteq> 0
                             then LogFailure sv ''Applied BBS uniqueness failed'' True EFI_COMPROMISED_DATA
                             else LogPassed sv ''Applied BBS uniqueness passed'' True)
              }
            }
          })"

text \<open>The arguments of the \<open>LegacyBoot\<close> call: the BBS path and the load options with their size.\<close>

definition LegacyBootBootTargetGetLegacyBootArguments ::
  "LEGACY_BOOT_BOOT_TARGET_CONTEXT option \<Rightarrow> EFI_STATUS + NCV_U8 list \<times> nat \<times> NCV_U8 list option" where
  "LegacyBootBootTargetGetLegacyBootArguments context' =
     (case context' of None \<Rightarrow> Inl EFI_INVALID_PARAMETER
      | Some c \<Rightarrow>
          (case bt_BbsDevicePath c of None \<Rightarrow> Inl EFI_INVALID_PARAMETER
           | Some path \<Rightarrow>
               let n = (case bt_LoadOptions c of None \<Rightarrow> 0 | Some d \<Rightarrow> length d)
               in if bt_Signature c \<noteq> LEGACY_BOOT_BOOT_TARGET_SIGNATURE \<or> \<not> bt_DiscoveryComplete c \<or> \<not> bt_JournalComplete c \<or>
                     \<not> bt_PrioritiesApplied c \<or> \<not> bt_PriorityTransactionDirty c \<or> n > 0xFFFFFFFF
                  then Inl EFI_INVALID_PARAMETER
                  else Inr (path, n, bt_LoadOptions c)))"

definition LegacyBootBootTargetGetOwnedCopyInfo ::
  "LEGACY_BOOT_BOOT_TARGET_CONTEXT option \<Rightarrow> EFI_STATUS + NCV_U8 list option \<times> NCV_U32 \<times> NCV_U8 list option \<times> NCV_U32" where
  "LegacyBootBootTargetGetOwnedCopyInfo context' =
     (case context' of None \<Rightarrow> Inl EFI_INVALID_PARAMETER
      | Some c \<Rightarrow>
          if bt_Signature c \<noteq> LEGACY_BOOT_BOOT_TARGET_SIGNATURE \<or> \<not> bt_DiscoveryComplete c then Inl EFI_INVALID_PARAMETER
          else Inr (bt_BbsDevicePath c, bt_BbsDevicePathCrc32 c, bt_LoadOptions c, bt_LoadOptionsCrc32 c))"

text \<open>
  The release frees every buffer and zeroes the context. It also resets the ROM guard, which is
  \<open>LegacyRomGuardReset\<close> of the preflight; the Boolean says whether that call was made.
\<close>

definition LegacyBootBootTargetRelease ::
  "LEGACY_BOOT_BOOT_TARGET_CONTEXT option \<Rightarrow> EFI_STATUS \<times> LEGACY_BOOT_BOOT_TARGET_CONTEXT option \<times> bool" where
  "LegacyBootBootTargetRelease context' =
     (case context' of None \<Rightarrow> (EFI_INVALID_PARAMETER, None, False)
      | Some c \<Rightarrow>
          if bt_Signature c = LEGACY_BOOT_BOOT_TARGET_SIGNATURE \<and> (bt_PriorityTransactionDirty c \<or> bt_PriorityWrites c \<noteq> [])
          then (EFI_ACCESS_DENIED, Some c, False)
          else (EFI_SUCCESS, Some zero_context, True))"

end
