(* ===== verification/Bbs_Transaction.thy ===== *)
theory Bbs_Transaction
  imports Bbs_Journal
begin

text \<open>
  The priority transaction of \<open>LegacyBootTarget.c\<close>: one verified write of a \<open>BootPriority\<close> field, the reverse rollback
  over the recorded writes, and the two entry points that apply the plan and undo it.
\<close>

section \<open>One write\<close>

text \<open>The second half of \<open>LegacyBootWritePriority\<close>, behind the flushed intent.\<close>

definition WriteAndVerify ::
  "'w boot_services \<Rightarrow> LEGACY_BOOT_BOOT_TARGET_CONTEXT \<Rightarrow> nat \<Rightarrow> NCV_U16 \<Rightarrow> BBS_TABLE \<Rightarrow> string \<Rightarrow>
   ('w, EFI_STATUS \<times> LEGACY_BOOT_BOOT_TARGET_CONTEXT) state" where
  "WriteAndVerify sv c index requestedPriority before phase = do {
     preWrite \<leftarrow> bs_ReadEntry sv index;
     if b_BootPriority preWrite \<noteq> b_BootPriority before \<or> \<not> SameEntry preWrite before then do {
       status \<leftarrow> LogFailure sv ''changed after the flushed write intent'' True EFI_ABORTED;
       State_Monad.return (status, c)
     } else do {
       let c = c\<lparr>bt_PriorityWrites := bt_PriorityWrites c @
             [\<lparr>wr_Index = index, wr_OldPriority = b_BootPriority before, wr_RequestedPriority = requestedPriority\<rparr>],
           bt_PriorityTransactionDirty := True\<rparr>;
       _ \<leftarrow> bs_PokePriority sv index requestedPriority;
       after \<leftarrow> bs_ReadEntry sv index;
       if b_BootPriority after \<noteq> requestedPriority \<or> \<not> SameIdentity after before then do {
         status \<leftarrow> LogFailure sv ''BBS_PRIORITY_WRITE_VERIFY_FAILED'' True EFI_DEVICE_ERROR;
         State_Monad.return (status, c)
       } else do {
         let c = c\<lparr>bt_ExpectedPriorities := map_option (\<lambda>v. v[index := requestedPriority]) (bt_ExpectedPriorities c)\<rparr>;
         status \<leftarrow> LegacyBootVerifyLiveAgainstPriorities sv (Some c) (bt_ExpectedPriorities c) ''Per-write complete BBS verification'' True False;
         if EFI_ERROR status then do { _ \<leftarrow> bs_LogFlush sv; State_Monad.return (status, c) }
         else do { status \<leftarrow> LogPassed sv phase True; State_Monad.return (status, c) }
       }
     }
   }"

definition LegacyBootWritePriority ::
  "'w boot_services \<Rightarrow> LEGACY_BOOT_BOOT_TARGET_CONTEXT \<Rightarrow> nat \<Rightarrow> NCV_U16 \<Rightarrow> string \<Rightarrow>
   ('w, EFI_STATUS \<times> LEGACY_BOOT_BOOT_TARGET_CONTEXT) state" where
  "LegacyBootWritePriority sv c index requestedPriority phase =
     (case (bt_ExpectedPriorities c, bt_BbsJournal c) of
        (Some expected, Some journal) \<Rightarrow>
          if \<not> bt_JournalComplete c \<or> index \<ge> bt_BbsCount c then State_Monad.return (EFI_INVALID_PARAMETER, c)
          else do {
            before \<leftarrow> bs_ReadEntry sv index;
            if \<not> SameIdentity before (journal ! index) \<or> b_BootPriority before \<noteq> expected ! index then do {
              status \<leftarrow> LogFailure sv ''precondition failed'' True EFI_COMPROMISED_DATA;
              State_Monad.return (status, c)
            } else if b_BootPriority before = requestedPriority then State_Monad.return (EFI_SUCCESS, c)
            else if length (bt_PriorityWrites c) \<ge> LEGACY_BOOT_BOOT_TARGET_MAX_PRIORITY_WRITES
            then State_Monad.return (EFI_OUT_OF_RESOURCES, c)
            else OnSuccess (bs_LogPrint sv ''BBS_PRIORITY_WRITE_INTENT'') c (
                 OnSuccess (bs_LogFlush sv) c (WriteAndVerify sv c index requestedPriority before phase))
          }
      | _ \<Rightarrow> State_Monad.return (EFI_INVALID_PARAMETER, c))"

section \<open>Rollback\<close>

text \<open>The first error of a run is kept.\<close>

definition KeepError :: "EFI_STATUS \<Rightarrow> EFI_STATUS \<Rightarrow> EFI_STATUS" where
  "KeepError overall status = (if EFI_ERROR status \<and> \<not> EFI_ERROR overall then status else overall)"

text \<open>One step of the reverse loop; a row whose identity changed is left alone.\<close>

definition RollbackRecord ::
  "'w boot_services \<Rightarrow> LEGACY_BOOT_BBS_PRIORITY_WRITE \<Rightarrow> EFI_STATUS \<times> LEGACY_BOOT_BOOT_TARGET_CONTEXT \<Rightarrow>
   ('w, EFI_STATUS \<times> LEGACY_BOOT_BOOT_TARGET_CONTEXT) state" where
  "RollbackRecord sv r oc = (case oc of (overall, c) \<Rightarrow> do {
     before \<leftarrow> bs_ReadEntry sv (wr_Index r);
     let journaled = the (bt_BbsJournal c) ! wr_Index r;
     if \<not> SameIdentity before journaled then do {
       overall \<leftarrow> LogFailure sv ''rollback refused'' True EFI_COMPROMISED_DATA;
       State_Monad.return (overall, c)
     } else do {
       status \<leftarrow> bs_LogPrint sv ''BBS_PRIORITY_ROLLBACK_INTENT'';
       let overall = KeepError overall status;
       status \<leftarrow> bs_LogFlush sv;
       let overall = KeepError overall status;
       after \<leftarrow> bs_ReadEntry sv (wr_Index r);
       if \<not> SameIdentity after journaled then do {
         overall \<leftarrow> LogFailure sv ''rollback refused after the log flush'' True EFI_COMPROMISED_DATA;
         State_Monad.return (overall, c)
       } else do {
         _ \<leftarrow> bs_PokePriority sv (wr_Index r) (wr_OldPriority r);
         after \<leftarrow> bs_ReadEntry sv (wr_Index r);
         if b_BootPriority after \<noteq> wr_OldPriority r \<or> \<not> SameIdentity after before then do {
           overall \<leftarrow> LogFailure sv ''BBS_PRIORITY_ROLLBACK_VERIFY_FAILED'' True EFI_DEVICE_ERROR;
           State_Monad.return (overall, c)
         } else do {
           let c = c\<lparr>bt_ExpectedPriorities := map_option (\<lambda>v. v[wr_Index r := wr_OldPriority r]) (bt_ExpectedPriorities c)\<rparr>;
           status \<leftarrow> LegacyBootVerifyLiveAgainstPriorities sv (Some c) (bt_ExpectedPriorities c) ''Per-rollback-write complete BBS verification'' True False;
           let overall = KeepError overall status;
           status \<leftarrow> bs_LogPrint sv ''BBS_PRIORITY_ROLLBACK_VERIFIED'';
           let overall = KeepError overall status;
           status \<leftarrow> bs_LogFlush sv;
           State_Monad.return (KeepError overall status, c)
         }
       }
     }
   })"

fun RollbackLoop ::
  "'w boot_services \<Rightarrow> LEGACY_BOOT_BBS_PRIORITY_WRITE list \<Rightarrow> EFI_STATUS \<times> LEGACY_BOOT_BOOT_TARGET_CONTEXT \<Rightarrow>
   ('w, EFI_STATUS \<times> LEGACY_BOOT_BOOT_TARGET_CONTEXT) state" where
  "RollbackLoop sv [] oc = State_Monad.return oc"
| "RollbackLoop sv (r # rs) oc = do { oc \<leftarrow> RollbackRecord sv r oc; RollbackLoop sv rs oc }"

text \<open>
  The table is compared with the journal byte by byte and by its CRC at the end; only a run without any error
  clears the dirty flag and the history.
\<close>

definition LegacyBootRollbackInternal ::
  "'w boot_services \<Rightarrow> LEGACY_BOOT_BOOT_TARGET_CONTEXT \<Rightarrow> ('w, EFI_STATUS \<times> LEGACY_BOOT_BOOT_TARGET_CONTEXT) state" where
  "LegacyBootRollbackInternal sv c =
     (if \<not> bt_JournalComplete c then State_Monad.return (EFI_INVALID_PARAMETER, c)
      else do {
        overall \<leftarrow> LegacyBootValidateFirmwareBbsRange sv (Some c) True;
        if EFI_ERROR overall then do {
          status \<leftarrow> LogFailure sv ''rollback cannot validate the firmware table range'' True overall;
          State_Monad.return (status, c)
        } else do {
          status \<leftarrow> bs_LogPrint sv ''Beginning exact reverse BBS BootPriority rollback'';
          let overall = (if EFI_ERROR status then status else overall);
          status \<leftarrow> bs_LogFlush sv;
          let overall = KeepError overall status;
          (overall, c) \<leftarrow> RollbackLoop sv (rev (bt_PriorityWrites c)) (overall, c);
          status \<leftarrow> LegacyBootVerifyLiveAgainstPriorities sv (Some c) (bt_ExpectedPriorities c) ''Post-rollback complete BBS verification'' True True;
          let overall = KeepError overall status;
          live \<leftarrow> ReadTable sv (bt_BbsCount c);
          overall \<leftarrow> (if \<not> SameTable live (the (bt_BbsJournal c)) then LogFailure sv ''Exact BBS journal restoration failed'' True EFI_DEVICE_ERROR
                     else do {
                       live \<leftarrow> ReadTable sv (bt_BbsCount c);
                       if TableCrc32 live \<noteq> bt_BbsJournalCrc32 c then LogFailure sv ''Exact BBS journal restoration failed'' True EFI_DEVICE_ERROR
                       else State_Monad.return overall
                     });
          if \<not> EFI_ERROR overall then do {
            let c = c\<lparr>bt_PriorityTransactionDirty := False, bt_PrioritiesApplied := False, bt_PriorityWrites := []\<rparr>;
            _ \<leftarrow> bs_LogPrint sv ''Exact reverse BBS BootPriority restoration passed'';
            status \<leftarrow> bs_LogFlush sv;
            State_Monad.return (status, c)
          } else State_Monad.return (overall, c)
        }
      })"

section \<open>Applying the plan\<close>

definition EligibleNow :: "'w boot_services \<Rightarrow> LEGACY_BOOT_BOOT_TARGET_CONTEXT \<Rightarrow> nat \<Rightarrow> ('w, bool) state" where
  "EligibleNow sv c i = do { ev \<leftarrow> bs_Evidence sv; State_Monad.return (LegacyBootBbsIndexIsTransactionEligible ev (Some c) i) }"

text \<open>The first phase: every eligible row becomes unprioritized.\<close>

fun UnprioritizeLoop ::
  "'w boot_services \<Rightarrow> nat list \<Rightarrow> LEGACY_BOOT_BOOT_TARGET_CONTEXT \<Rightarrow> ('w, EFI_STATUS \<times> LEGACY_BOOT_BOOT_TARGET_CONTEXT) state" where
  "UnprioritizeLoop sv [] c = State_Monad.return (EFI_SUCCESS, c)"
| "UnprioritizeLoop sv (i # is) c = do {
     eligible \<leftarrow> EligibleNow sv c i;
     if \<not> eligible then UnprioritizeLoop sv is c
     else OnSuccessWith (LegacyBootWritePriority sv c i BBS_UNPRIORITIZED_ENTRY ''unprioritize-valid-entry'') (UnprioritizeLoop sv is)
   }"

fun CountEligible :: "'w boot_services \<Rightarrow> LEGACY_BOOT_BOOT_TARGET_CONTEXT \<Rightarrow> nat list \<Rightarrow> nat \<Rightarrow> ('w, nat) state" where
  "CountEligible sv c [] n = State_Monad.return n"
| "CountEligible sv c (i # is) n = do { eligible \<leftarrow> EligibleNow sv c i; CountEligible sv c is (if eligible then n + 1 else n) }"

text \<open>The row that the plan gives a priority.\<close>

fun FindPlanned :: "'w boot_services \<Rightarrow> LEGACY_BOOT_BOOT_TARGET_CONTEXT \<Rightarrow> nat \<Rightarrow> nat list \<Rightarrow> ('w, nat option) state" where
  "FindPlanned sv c priority [] = State_Monad.return None"
| "FindPlanned sv c priority (i # is) = do {
     eligible \<leftarrow> EligibleNow sv c i;
     if eligible \<and> unat (the (bt_PlannedPriorities c) ! i) = priority then State_Monad.return (Some i)
     else FindPlanned sv c priority is
   }"

text \<open>The second phase: the priorities of the plan in ascending order.\<close>

fun AssignLoop ::
  "'w boot_services \<Rightarrow> nat list \<Rightarrow> LEGACY_BOOT_BOOT_TARGET_CONTEXT \<Rightarrow> ('w, EFI_STATUS \<times> LEGACY_BOOT_BOOT_TARGET_CONTEXT) state" where
  "AssignLoop sv [] c = State_Monad.return (EFI_SUCCESS, c)"
| "AssignLoop sv (priority # ps) c = do {
     r \<leftarrow> FindPlanned sv c priority [0..<bt_BbsCount c];
     case r of None \<Rightarrow> State_Monad.return (EFI_COMPROMISED_DATA, c)
     | Some i \<Rightarrow> OnSuccessWith (LegacyBootWritePriority sv c i (of_nat priority)
         (if priority = 0 then ''select-unique-selected disk'' else ''rank-remaining-entry'')) (AssignLoop sv ps)
   }"

text \<open>Both phases and the validation of what they leave.\<close>

definition ApplyPlan ::
  "'w boot_services \<Rightarrow> LEGACY_BOOT_BOOT_TARGET_CONTEXT \<Rightarrow> ('w, EFI_STATUS \<times> LEGACY_BOOT_BOOT_TARGET_CONTEXT) state" where
  "ApplyPlan sv c =
     OnSuccessWith (UnprioritizeLoop sv [0..<bt_BbsCount c] c) (\<lambda>c. do {
       validCount \<leftarrow> CountEligible sv c [0..<bt_BbsCount c] 0;
       OnSuccessWith (AssignLoop sv [0..<validCount] c) (\<lambda>c.
         let c = c\<lparr>bt_PrioritiesApplied := True\<rparr>
         in OnSuccess (LegacyBootBootTargetValidateApplied sv (Some c)) c (do {
              _ \<leftarrow> bs_LogPrint sv ''BBS priority transaction passed'';
              OnSuccess (bs_LogFlush sv) c (State_Monad.return (EFI_SUCCESS, c))
            }))
     })"

text \<open>The error path of the transaction.\<close>

definition ApplyFailed ::
  "'w boot_services \<Rightarrow> EFI_STATUS \<Rightarrow> LEGACY_BOOT_BOOT_TARGET_CONTEXT \<Rightarrow> ('w, EFI_STATUS \<times> LEGACY_BOOT_BOOT_TARGET_CONTEXT) state" where
  "ApplyFailed sv status c = do {
     _ \<leftarrow> LogFailure sv ''BBS priority transaction failed'' True status;
     if bt_PriorityTransactionDirty c \<or> bt_PriorityWrites c \<noteq> [] then do {
       (rollbackStatus, c) \<leftarrow> LegacyBootRollbackInternal sv c;
       if EFI_ERROR rollbackStatus then do {
         status \<leftarrow> LogFailure sv ''Emergency BBS rollback also failed'' True rollbackStatus;
         State_Monad.return (status, c)
       } else State_Monad.return (status, c)
     } else State_Monad.return (status, c)
   }"

definition LegacyBootBootPriorityApply ::
  "'w boot_services \<Rightarrow> LEGACY_BOOT_BOOT_TARGET_CONTEXT \<Rightarrow> ('w, EFI_STATUS \<times> LEGACY_BOOT_BOOT_TARGET_CONTEXT) state" where
  "LegacyBootBootPriorityApply sv c =
     (if bt_Signature c \<noteq> LEGACY_BOOT_BOOT_TARGET_SIGNATURE \<or> \<not> bt_DiscoveryComplete c \<or> \<not> bt_JournalComplete c
      then State_Monad.return (EFI_INVALID_PARAMETER, c)
      else if bt_PriorityTransactionAttempted c then State_Monad.return (EFI_ALREADY_STARTED, c)
      else let c = c\<lparr>bt_PriorityTransactionAttempted := True\<rparr>
           in OnSuccess (LegacyBootBootTargetValidateOriginal sv (Some c)) c (do {
                _ \<leftarrow> bs_LogPrint sv ''Reversible BBS BootPriority transaction'';
                OnSuccess (bs_LogFlush sv) c (
                OnSuccess (LegacyBootVerifyLegacyDevOrderSnapshot sv (Some c) ''Immediate pre-BBS-write LegacyDevOrder reread'' False) c (do {
                  (status, c) \<leftarrow> ApplyPlan sv c;
                  if EFI_ERROR status then ApplyFailed sv status c else State_Monad.return (status, c)
                }))
              }))"

definition LegacyBootBootPriorityRollback ::
  "'w boot_services \<Rightarrow> LEGACY_BOOT_BOOT_TARGET_CONTEXT \<Rightarrow> ('w, EFI_STATUS \<times> LEGACY_BOOT_BOOT_TARGET_CONTEXT) state" where
  "LegacyBootBootPriorityRollback sv c =
     (if bt_Signature c \<noteq> LEGACY_BOOT_BOOT_TARGET_SIGNATURE \<or> \<not> bt_JournalComplete c
      then State_Monad.return (EFI_INVALID_PARAMETER, c)
      else if \<not> bt_PriorityTransactionDirty c \<and> bt_PriorityWrites c = []
      then do { status \<leftarrow> LegacyBootBootTargetValidateOriginal sv (Some c); State_Monad.return (status, c) }
      else LegacyBootRollbackInternal sv c)"

end
