(* ===== verification/Bbs_Restore.thy ===== *)
theory Bbs_Restore
  imports Bbs_Transaction
begin

text \<open>
  What the transaction guarantees on a machine whose live table behaves like memory: the documented behaviour
  of the services is the predicate \<open>table_laws\<close>; \<open>txn\<close> is the invariant that ties the live table, the expected vector and
  the recorded writes together.
\<close>

section \<open>Services that leave the table alone\<close>

definition keeps :: "('w \<Rightarrow> 't) \<Rightarrow> ('w, 'a) state \<Rightarrow> bool" where
  "keeps tab m \<longleftrightarrow> (\<forall>w. tab (snd (run_state m w)) = tab w)"

text \<open>
  The services that read keep whatever \<open>tab\<close> observes of a world. When \<open>tab\<close> reads the live table, only a write of a
  priority changes it, and only in the field that is written; a read returns the row.
\<close>

definition quiet :: "'w boot_services \<Rightarrow> ('w \<Rightarrow> 't) \<Rightarrow> bool" where
  "quiet sv tab \<longleftrightarrow>
     (\<forall>w n. tab (snd (GetMemoryMap (bs_Memory sv) w n)) = tab w) \<and> (\<forall>w n. tab (snd (AllocatePool (bs_Memory sv) w n)) = tab w) \<and>
     (\<forall>name n. keeps tab (bs_GetVariable sv name n)) \<and> (\<forall>s. keeps tab (bs_LogPrint sv s)) \<and> keeps tab (bs_LogFlush sv) \<and>
     (\<forall>a n. keeps tab (bs_ReadMemory sv a n)) \<and> keeps tab (bs_Evidence sv) \<and> (\<forall>i. keeps tab (bs_ReadEntry sv i))"

definition table_laws :: "'w boot_services \<Rightarrow> ('w \<Rightarrow> BBS_TABLE list) \<Rightarrow> bool" where
  "table_laws sv tab \<longleftrightarrow> quiet sv tab \<and>
     (\<forall>w i. i < length (tab w) \<longrightarrow> fst (run_state (bs_ReadEntry sv i) w) = tab w ! i) \<and>
     (\<forall>w i p. i < length (tab w) \<longrightarrow>
       tab (snd (run_state (bs_PokePriority sv i p) w)) = (tab w)[i := (tab w ! i)\<lparr>b_BootPriority := p\<rparr>])"

lemma table_quiet: "table_laws sv tab \<Longrightarrow> quiet sv tab"
  by (simp add: table_laws_def)

lemma wp_keeps: "keeps tab m \<Longrightarrow> (\<And>r t. tab t = tab w \<Longrightarrow> Q r t) \<Longrightarrow> wp m Q w"
  by (auto simp: wp_def keeps_def split: prod.split) (metis snd_conv)

lemma keeps_bindI: "keeps tab m \<Longrightarrow> (\<And>r t. tab t = tab w \<Longrightarrow> wp (f r) Q t) \<Longrightarrow> wp (State_Monad.bind m f) Q w"
  unfolding wp_bind by (rule wp_keeps)

named_theorems keeps_rules

lemma keeps_return [keeps_rules]: "keeps tab (State_Monad.return x)"
  by (simp add: keeps_def)

lemma keeps_bind [keeps_rules]: "keeps tab m \<Longrightarrow> (\<And>r. keeps tab (f r)) \<Longrightarrow> keeps tab (State_Monad.bind m f)"
  by (auto simp: keeps_def split: prod.split) (metis snd_conv)

lemma keeps_if [keeps_rules]: "keeps tab m \<Longrightarrow> keeps tab n \<Longrightarrow> keeps tab (if b then m else n)"
  by simp

lemma keeps_sum [keeps_rules]: "(\<And>e. keeps tab (f e)) \<Longrightarrow> (\<And>v. keeps tab (g v)) \<Longrightarrow> keeps tab (case x of Inl e \<Rightarrow> f e | Inr v \<Rightarrow> g v)"
  by (simp split: sum.split)

lemma keeps_option [keeps_rules]: "keeps tab m \<Longrightarrow> (\<And>v. keeps tab (g v)) \<Longrightarrow> keeps tab (case x of None \<Rightarrow> m | Some v \<Rightarrow> g v)"
  by (simp split: option.split)

lemma keeps_prod [keeps_rules]: "(\<And>a b. keeps tab (f a b)) \<Longrightarrow> keeps tab (case x of (a, b) \<Rightarrow> f a b)"
  by (simp split: prod.split)

lemma keeps_Let [keeps_rules]: "(\<And>x. keeps tab (f x)) \<Longrightarrow> keeps tab (let x = e in f x)"
  by simp

lemma CaptureLoop_tab:
  assumes "quiet sv tab"
  shows "tab (snd (CaptureLoop n (bs_Memory sv) w k)) = tab w"
proof (induction n arbitrary: w k)
  case (Suc n)
  have a: "tab (snd (AllocatePool (bs_Memory sv) w k)) = tab w" for w using assms by (simp add: quiet_def)
  have g: "tab (snd (GetMemoryMap (bs_Memory sv) w k)) = tab w" for w using assms by (simp add: quiet_def)
  obtain ok w1 where r1: "AllocatePool (bs_Memory sv) w k = (ok, w1)" by fastforce
  obtain st ms ds ver es w2 where r2: "GetMemoryMap (bs_Memory sv) w1 k = ((st, ms, ds, ver, es), w2)" by (metis prod.exhaust_sel)
  have "tab w1 = tab w" "tab w2 = tab w1" using a [of w] g [of w1] by (simp_all add: r1 r2)
  then show ?case by (simp add: r1 r2 Suc.IH)
qed simp

lemma keeps_services:
  assumes "quiet sv tab"
  shows "keeps tab (bs_GetVariable sv name n)" "keeps tab (bs_LogPrint sv s)" "keeps tab (bs_LogFlush sv)"
    "keeps tab (bs_ReadMemory sv a n)" "keeps tab (bs_Evidence sv)" "keeps tab (bs_ReadEntry sv i)" "keeps tab (Pool sv k)"
    "keeps tab (CaptureMap sv)"
proof -
  show "keeps tab (CaptureMap sv)"
  proof -
    have "tab (snd (MemoryMapCapture (bs_Memory sv) w)) = tab w" for w
    proof -
      obtain st ms ds ver es w2 where r2: "GetMemoryMap (bs_Memory sv) w 0 = ((st, ms, ds, ver, es), w2)" by (metis prod.exhaust_sel)
      have "tab (snd (GetMemoryMap (bs_Memory sv) w 0)) = tab w" using assms by (simp add: quiet_def)
      then have "tab w2 = tab w" by (simp add: r2)
      then show ?thesis using CaptureLoop_tab [OF assms] by (simp add: MemoryMapCapture_def r2 Let_def)
    qed
    then show ?thesis by (simp add: keeps_def CaptureMap_def)
  qed
qed (use assms in \<open>simp_all add: quiet_def keeps_def Pool_def\<close>)

lemma keeps_ReadRows: "quiet sv tab \<Longrightarrow> keeps tab (ReadRows sv is)"
  by (induction "is") (auto intro!: keeps_rules keeps_services)

lemma keeps_ReadTable: "quiet sv tab \<Longrightarrow> keeps tab (ReadTable sv n)"
  by (simp add: ReadTable_def keeps_ReadRows)

lemma keeps_ReadVariableLoop: "quiet sv tab \<Longrightarrow> keeps tab (ReadVariableLoop n sv name m k)"
  by (induction n arbitrary: k) (auto intro!: keeps_rules keeps_services)

lemma keeps_log:
  assumes "quiet sv tab"
  shows "keeps tab (LogFailure sv label flush status)" "keeps tab (LogPassed sv label flush)" "keeps tab (FlushResult sv flush)"
  using assms by (auto simp: LogFailure_def LogPassed_def FlushResult_def intro!: keeps_rules keeps_services)

lemma keeps_ReadVariable: "quiet sv tab \<Longrightarrow> keeps tab (LegacyBootReadVariableBounded sv name m)"
  unfolding LegacyBootReadVariableBounded_def by (intro keeps_rules keeps_services keeps_ReadVariableLoop) assumption+

lemma keeps_OrderSnapshot: "quiet sv tab \<Longrightarrow> keeps tab (LegacyBootVerifyLegacyDevOrderSnapshot sv c label flush)"
  unfolding LegacyBootVerifyLegacyDevOrderSnapshot_def by (intro keeps_rules keeps_services keeps_ReadVariable) assumption+

lemma keeps_Range: "quiet sv tab \<Longrightarrow> keeps tab (LegacyBootValidateFirmwareBbsRange sv c wr)"
  unfolding LegacyBootValidateFirmwareBbsRange_def by (intro keeps_rules keeps_services) assumption+

lemma keeps_ReadStrings: "quiet sv tab \<Longrightarrow> keeps tab (ReadStrings sv m e)"
  unfolding ReadStrings_def LegacyBootCopyManufacturer_def LegacyBootCopyFarAsciiString_def
  by (intro keeps_rules keeps_services) assumption+

lemma keeps_LiveStringLoop: "quiet sv tab \<Longrightarrow> keeps tab (LiveStringLoop sv m strings is crc)"
  by (induction "is" arbitrary: crc) (auto simp: Let_def intro!: keeps_rules keeps_services keeps_ReadStrings)

lemma keeps_VerifyStrings: "quiet sv tab \<Longrightarrow> keeps tab (LegacyBootVerifyLiveBbsStrings sv c label flush)"
  unfolding LegacyBootVerifyLiveBbsStrings_def
  by (intro keeps_rules keeps_services keeps_log keeps_LiveStringLoop) assumption+

lemma keeps_RereadLoop: "quiet sv tab \<Longrightarrow> keeps tab (RereadLoop sv scratch is)"
  by (induction "is") (auto intro!: keeps_rules keeps_services)

lemma keeps_Verify: "quiet sv tab \<Longrightarrow> keeps tab (LegacyBootVerifyLiveAgainstPriorities sv c v label wr flush)"
  unfolding LegacyBootVerifyLiveAgainstPriorities_def
  by (intro keeps_rules keeps_services keeps_log keeps_Range keeps_ReadTable keeps_VerifyStrings keeps_RereadLoop) assumption+

lemma keeps_OwnedCopies: "quiet sv tab \<Longrightarrow> keeps tab (LegacyBootBootTargetValidateOwnedCopies sv c)"
  unfolding LegacyBootBootTargetValidateOwnedCopies_def by (intro keeps_rules keeps_services keeps_log) assumption+

lemma keeps_Original: "quiet sv tab \<Longrightarrow> keeps tab (LegacyBootBootTargetValidateOriginal sv c)"
  unfolding LegacyBootBootTargetValidateOriginal_def
  by (intro keeps_rules keeps_OwnedCopies keeps_OrderSnapshot keeps_Verify) assumption+

lemma keeps_Applied: "quiet sv tab \<Longrightarrow> keeps tab (LegacyBootBootTargetValidateApplied sv c)"
  unfolding LegacyBootBootTargetValidateApplied_def
  by (intro keeps_rules keeps_OwnedCopies keeps_OrderSnapshot keeps_Verify keeps_log) assumption+

lemma keeps_Eligible: "quiet sv tab \<Longrightarrow> keeps tab (EligibleNow sv c i)"
  unfolding EligibleNow_def by (intro keeps_rules keeps_services) assumption+

lemma keeps_CountEligible: "quiet sv tab \<Longrightarrow> keeps tab (CountEligible sv c is n)"
  by (induction "is" arbitrary: n) (auto intro!: keeps_rules keeps_Eligible)


section \<open>Identity bytes determine the row\<close>

lemma Le32Bytes_inject: "Le32Bytes a = Le32Bytes b \<longleftrightarrow> a = b"
proof
  assume eq: "Le32Bytes a = Le32Bytes b"
  have byte: "(ucast (drop_bit (8 * k) a) :: NCV_U8) = ucast (drop_bit (8 * k) b)" if "k < 4" for k
    using that arg_cong [OF eq, of "\<lambda>xs. xs ! k"] by (simp add: Le32Bytes_def)
  show "a = b"
  proof (rule bit_word_eqI)
    fix n assume "n < LENGTH(32)"
    then have n: "n div 8 < 4" "n mod 8 < 8" "8 * (n div 8) + n mod 8 = n" by auto
    have "bit (ucast (drop_bit (8 * (n div 8)) a) :: NCV_U8) (n mod 8) = bit (ucast (drop_bit (8 * (n div 8)) b) :: NCV_U8) (n mod 8)"
      using byte [OF n(1)] by simp
    then show "bit a n = bit b n" using n(2) unfolding bit_ucast_iff bit_drop_bit_eq comp_def n(3) by simp
  qed
qed simp

lemma LegacyBootWriteLe16_inject: "LegacyBootWriteLe16 a = LegacyBootWriteLe16 b \<longleftrightarrow> a = b"
proof
  assume eq: "LegacyBootWriteLe16 a = LegacyBootWriteLe16 b"
  then have lo: "(ucast (a AND 0xFF) :: NCV_U8) = ucast (b AND 0xFF)" and hi: "(ucast (drop_bit 8 a) :: NCV_U8) = ucast (drop_bit 8 b)"
    by (simp_all add: LegacyBootWriteLe16_def)
  show "a = b"
  proof (rule bit_word_eqI)
    fix n assume n: "n < LENGTH(16)"
    show "bit a n = bit b n"
    proof (cases "n < 8")
      case True
      have m: "(0xFF :: 16 word) = mask 8" by (simp add: mask_eq_exp_minus_1)
      have "bit (ucast (a AND 0xFF) :: NCV_U8) n = bit (ucast (b AND 0xFF) :: NCV_U8) n" using lo by simp
      then show ?thesis using True by (simp add: bit_ucast_iff bit_and_iff m bit_mask_iff)
    next
      case False
      have "bit (ucast (drop_bit 8 a) :: NCV_U8) (n - 8) = bit (ucast (drop_bit 8 b) :: NCV_U8) (n - 8)" using hi by simp
      moreover have "n - 8 < 8" using False n by simp
      ultimately show ?thesis using False by (simp add: bit_ucast_iff bit_drop_bit_eq)
    qed
  qed
qed simp

lemma Bytes_lengths: "length (Le32Bytes v) = 4" "length (LegacyBootWriteLe16 u) = 2"
  by (simp_all add: Le32Bytes_def LegacyBootWriteLe16_def)

lemma SameIdentity_iff: "SameIdentity a b \<longleftrightarrow> a\<lparr>b_BootPriority := 0\<rparr> = b\<lparr>b_BootPriority := 0\<rparr>"
  by (cases a; cases b) (auto simp: SameIdentity_def IdentityBytes_def append_eq_append_conv Bytes_lengths Le32Bytes_inject LegacyBootWriteLe16_inject)

lemma SameIdentity_eq: "SameIdentity a b \<Longrightarrow> b_BootPriority a = b_BootPriority b \<Longrightarrow> a = b"
  unfolding SameIdentity_iff by (cases a; cases b) simp

lemma SameIdentity_update: "SameIdentity (e\<lparr>b_BootPriority := p\<rparr>) e" "SameIdentity e (e\<lparr>b_BootPriority := p\<rparr>)"
  by (simp_all add: SameIdentity_def IdentityBytes_def)

lemma SameIdentity_refl [simp]: "SameIdentity e e"
  by (simp add: SameIdentity_def)

lemma SameTable_iff: "length as = length bs \<Longrightarrow> SameTable as bs \<longleftrightarrow> as = bs"
proof (induction as bs rule: list_induct2)
  case (Cons a as b bs)
  have "EntryBytes a @ concat (map EntryBytes as) = EntryBytes b @ concat (map EntryBytes bs) \<longleftrightarrow>
      EntryBytes a = EntryBytes b \<and> concat (map EntryBytes as) = concat (map EntryBytes bs)"
    by (simp add: append_eq_append_conv length_EntryBytes)
  moreover have "EntryBytes a = EntryBytes b \<longleftrightarrow> a = b"
    using SameIdentity_eq [of a b]
    by (auto simp: EntryBytes_def append_eq_append_conv Bytes_lengths LegacyBootWriteLe16_inject SameIdentity_def)
  ultimately show ?case using Cons.IH by (simp add: SameTable_def)
qed (simp add: SameTable_def)

section \<open>The invariant\<close>

definition with_priorities :: "BBS_TABLE list \<Rightarrow> NCV_U16 list \<Rightarrow> BBS_TABLE list" where
  "with_priorities journal v = map (\<lambda>i. (journal ! i)\<lparr>b_BootPriority := v ! i\<rparr>) [0..<length journal]"

text \<open>The oldest recorded priority of a row, or what the row has when no write is recorded for it.\<close>

definition oldest :: "LEGACY_BOOT_BBS_PRIORITY_WRITE list \<Rightarrow> nat \<Rightarrow> NCV_U16 \<Rightarrow> NCV_U16" where
  "oldest ws i p = (case find (\<lambda>r. wr_Index r = i) ws of None \<Rightarrow> p | Some r \<Rightarrow> wr_OldPriority r)"

definition may_write :: "LEGACY_BOOT_BOOT_TARGET_CONTEXT \<Rightarrow> nat \<Rightarrow> bool" where
  "may_write c i \<longleftrightarrow> (\<exists>ev. LegacyBootBbsIndexIsTransactionEligible ev (Some c) i)"

text \<open>
  The live table is the journal with the expected priorities; undoing the history leads back to the journal; only
  rows the policy allows are in it; and the dirty flag says whether it is empty.
\<close>

definition txn :: "('w \<Rightarrow> BBS_TABLE list) \<Rightarrow> BBS_TABLE list \<Rightarrow> LEGACY_BOOT_BOOT_TARGET_CONTEXT \<Rightarrow> 'w \<Rightarrow> bool" where
  "txn tab journal c w \<longleftrightarrow> bt_BbsJournal c = Some journal \<and> bt_BbsCount c = length journal \<and>
     (\<exists>v. bt_ExpectedPriorities c = Some v \<and> length v = length journal \<and> tab w = with_priorities journal v \<and>
       (\<forall>i<length journal. oldest (bt_PriorityWrites c) i (v ! i) = b_BootPriority (journal ! i))) \<and>
     (\<forall>r\<in>set (bt_PriorityWrites c). wr_Index r < length journal \<and> may_write c (wr_Index r)) \<and>
     (bt_PriorityTransactionDirty c \<longleftrightarrow> bt_PriorityWrites c \<noteq> [])"

lemma txn_tab: "tab t = tab w \<Longrightarrow> txn tab journal c t = txn tab journal c w"
  by (simp add: txn_def)

lemma with_priorities_nth [simp]:
  "length (with_priorities journal v) = length journal"
  "i < length journal \<Longrightarrow> with_priorities journal v ! i = (journal ! i)\<lparr>b_BootPriority := v ! i\<rparr>"
  by (simp_all add: with_priorities_def)

lemma with_priorities_same:
  assumes "\<forall>i<length journal. v ! i = b_BootPriority (journal ! i)"
  shows "with_priorities journal v = journal"
  by (rule nth_equalityI) (use assms in simp_all)

lemma with_priorities_update:
  assumes "length v = length journal" and "i < length journal"
  shows "(with_priorities journal v)[i := (with_priorities journal v ! i)\<lparr>b_BootPriority := p\<rparr>] = with_priorities journal (v[i := p])"
  by (rule nth_equalityI) (use assms in \<open>auto simp: nth_list_update\<close>)

lemma oldest_snoc:
  "oldest (ws @ [r]) i p = (if wr_Index r = i \<and> i \<notin> wr_Index ` set ws then wr_OldPriority r else oldest ws i p)"
  by (induction ws) (auto simp: oldest_def)

lemma oldest_notin: "i \<notin> wr_Index ` set ws \<Longrightarrow> oldest ws i p = p"
  by (induction ws) (auto simp: oldest_def)

lemma oldest_in: "i \<in> wr_Index ` set ws \<Longrightarrow> oldest ws i p = oldest ws i q"
  by (induction ws) (auto simp: oldest_def)

text \<open>A clean context has the original table.\<close>

lemma txn_clean:
  assumes "txn tab journal c w" and "\<not> bt_PriorityTransactionDirty c"
  shows "tab w = journal"
proof -
  obtain v where v: "tab w = with_priorities journal v" "\<forall>i<length journal. oldest (bt_PriorityWrites c) i (v ! i) = b_BootPriority (journal ! i)"
    using assms(1) by (auto simp: txn_def)
  have "bt_PriorityWrites c = []" using assms by (simp add: txn_def)
  then have "\<forall>i<length journal. v ! i = b_BootPriority (journal ! i)" using v(2) by (simp add: oldest_def)
  then show ?thesis using v(1) with_priorities_same by simp
qed

text \<open>Rows the policy protects are never touched.\<close>

lemma txn_protected:
  assumes "txn tab journal c w" and "i < length journal" and "\<not> may_write c i"
  shows "tab w ! i = journal ! i"
proof -
  obtain v where v: "tab w = with_priorities journal v" "\<forall>i<length journal. oldest (bt_PriorityWrites c) i (v ! i) = b_BootPriority (journal ! i)"
    using assms(1) by (auto simp: txn_def)
  have "i \<notin> wr_Index ` set (bt_PriorityWrites c)" using assms by (auto simp: txn_def)
  from oldest_notin [OF this, of "v ! i"] have "v ! i = b_BootPriority (journal ! i)" using v(2) assms(2) by metis
  then show ?thesis using v(1) assms(2) by simp
qed


section \<open>What the transaction changes of the context\<close>

text \<open>The part of the context that no step of the transaction touches.\<close>

definition static :: "LEGACY_BOOT_BOOT_TARGET_CONTEXT \<Rightarrow> LEGACY_BOOT_BOOT_TARGET_CONTEXT" where
  "static c = c\<lparr>bt_ExpectedPriorities := None, bt_PriorityTransactionAttempted := False, bt_PriorityTransactionDirty := False,
     bt_PrioritiesApplied := False, bt_PriorityWrites := []\<rparr>"

lemma static_updates [simp]:
  "static (c\<lparr>bt_ExpectedPriorities := a\<rparr>) = static c" "static (c\<lparr>bt_PriorityTransactionAttempted := b\<rparr>) = static c"
  "static (c\<lparr>bt_PriorityTransactionDirty := b\<rparr>) = static c" "static (c\<lparr>bt_PrioritiesApplied := b\<rparr>) = static c"
  "static (c\<lparr>bt_PriorityWrites := ws\<rparr>) = static c"
  by (simp_all add: static_def)

lemma static_fields:
  assumes "static c = static c'"
  shows "bt_BbsJournal c = bt_BbsJournal c'" "bt_BbsCount c = bt_BbsCount c'" "bt_LiveBbsIndex c = bt_LiveBbsIndex c'"
    "bt_PlannedPriorities c = bt_PlannedPriorities c'" "bt_LegacyDevOrderUsable c = bt_LegacyDevOrderUsable c'"
    "bt_LegacyDevOrderDisabled c = bt_LegacyDevOrderDisabled c'" "bt_JournalComplete c = bt_JournalComplete c'"
    "bt_FirmwareBbsTable c = bt_FirmwareBbsTable c'" "bt_BbsTableBytes c = bt_BbsTableBytes c'"
  using arg_cong [OF assms, of bt_BbsJournal] arg_cong [OF assms, of bt_BbsCount] arg_cong [OF assms, of bt_LiveBbsIndex]
    arg_cong [OF assms, of bt_PlannedPriorities] arg_cong [OF assms, of bt_LegacyDevOrderUsable]
    arg_cong [OF assms, of bt_LegacyDevOrderDisabled] arg_cong [OF assms, of bt_JournalComplete]
    arg_cong [OF assms, of bt_FirmwareBbsTable] arg_cong [OF assms, of bt_BbsTableBytes]
  by (simp_all add: static_def)

lemma may_write_static:
  assumes "static c = static c'"
  shows "may_write c i = may_write c' i"
  unfolding may_write_def LegacyBootBbsIndexIsTransactionEligible_def option.case static_fields [OF assms] ..

section \<open>One write\<close>

definition stays :: "('w \<Rightarrow> BBS_TABLE list) \<Rightarrow> BBS_TABLE list \<Rightarrow> LEGACY_BOOT_BOOT_TARGET_CONTEXT \<Rightarrow>
    EFI_STATUS \<times> LEGACY_BOOT_BOOT_TARGET_CONTEXT \<Rightarrow> 'w \<Rightarrow> bool" where
  "stays tab journal c r t \<longleftrightarrow> txn tab journal (snd r) t \<and> static (snd r) = static c"

lemma stays_refl: "txn tab journal c w \<Longrightarrow> tab t = tab w \<Longrightarrow> stays tab journal c (status, c) t"
  using txn_tab [of tab t w journal c] by (simp add: stays_def)

lemma stays_trans: "static c' = static c \<Longrightarrow> stays tab journal c' r t \<Longrightarrow> stays tab journal c r t"
  by (simp add: stays_def)

text \<open>The bookkeeping of a write: record, poke and expected vector together keep the invariant.\<close>

lemma txn_write:
  assumes inv: "txn tab journal c w" and exp: "bt_ExpectedPriorities c = Some v" and i: "i < length journal" "may_write c i"
    and t: "tab t = (tab w)[i := (tab w ! i)\<lparr>b_BootPriority := p\<rparr>]"
  shows "txn tab journal (c\<lparr>bt_PriorityWrites := bt_PriorityWrites c @ [\<lparr>wr_Index = i, wr_OldPriority = v ! i, wr_RequestedPriority = q\<rparr>],
      bt_PriorityTransactionDirty := True, bt_ExpectedPriorities := Some (v[i := p])\<rparr>) t"
proof -
  let ?c = "c\<lparr>bt_PriorityWrites := bt_PriorityWrites c @ [\<lparr>wr_Index = i, wr_OldPriority = v ! i, wr_RequestedPriority = q\<rparr>],
      bt_PriorityTransactionDirty := True, bt_ExpectedPriorities := Some (v[i := p])\<rparr>"
  have old: "length v = length journal" "tab w = with_priorities journal v"
      "\<forall>i<length journal. oldest (bt_PriorityWrites c) i (v ! i) = b_BootPriority (journal ! i)"
      "bt_BbsJournal c = Some journal" "bt_BbsCount c = length journal"
      "\<forall>r\<in>set (bt_PriorityWrites c). wr_Index r < length journal \<and> may_write c (wr_Index r)"
    using inv exp by (auto simp: txn_def)
  have mw: "may_write ?c = may_write c" by (rule ext, rule may_write_static) simp
  have "oldest (bt_PriorityWrites ?c) j (v[i := p] ! j) = b_BootPriority (journal ! j)" if "j < length journal" for j
  proof (cases "j \<in> wr_Index ` set (bt_PriorityWrites c)")
    case True
    then show ?thesis using old(3) that oldest_in [OF True, of "v[i := p] ! j" "v ! j"] by (simp add: oldest_snoc)
  next
    case False
    then have "v ! j = b_BootPriority (journal ! j)" using old(3) that oldest_notin [OF False, of "v ! j"] by metis
    then show ?thesis using False that old(1) i by (auto simp: oldest_snoc oldest_notin nth_list_update)
  qed
  moreover have "tab t = with_priorities journal (v[i := p])"
    unfolding t old(2) by (rule with_priorities_update [OF old(1) i(1)])
  ultimately show ?thesis using old i by (auto simp: txn_def mw)
qed

lemma wp_read:
  assumes "table_laws sv tab" and "i < length (tab w)" and "\<And>t. tab t = tab w \<Longrightarrow> Q (tab w ! i) t"
  shows "wp (bs_ReadEntry sv i) Q w"
proof -
  have "fst (run_state (bs_ReadEntry sv i) w) = tab w ! i"
    using assms(1,2) unfolding table_laws_def by blast
  moreover have "tab (snd (run_state (bs_ReadEntry sv i) w)) = tab w"
    using keeps_services(6) [OF table_quiet [OF assms(1)]] unfolding keeps_def by blast
  ultimately show ?thesis using assms(3) by (simp add: wp_def split_def)
qed

lemma wp_poke:
  assumes "table_laws sv tab" and "i < length (tab w)"
    and "\<And>t. tab t = (tab w)[i := (tab w ! i)\<lparr>b_BootPriority := p\<rparr>] \<Longrightarrow> Q () t"
  shows "wp (bs_PokePriority sv i p) Q w"
proof -
  have "tab (snd (run_state (bs_PokePriority sv i p) w)) = (tab w)[i := (tab w ! i)\<lparr>b_BootPriority := p\<rparr>]"
    using assms(1,2) unfolding table_laws_def by blast
  then show ?thesis using assms(3) by (simp add: wp_def split_def)
qed

lemma WriteAndVerify_stays:
  assumes laws: "table_laws sv tab" and inv: "txn tab journal c w" and i: "i < length journal" "may_write c i"
    and before: "before = tab w ! i"
  shows "wp (WriteAndVerify sv c i p before phase) (stays tab journal c) w"
proof -
  obtain v where v: "bt_ExpectedPriorities c = Some v" "length v = length journal" "tab w = with_priorities journal v"
    using inv by (auto simp: txn_def)
  have rows: "i < length (tab w)" "b_BootPriority before = v ! i" using v(3) i(1) before by simp_all
  show ?thesis
    unfolding WriteAndVerify_def Let_def wp_bind [of "bs_ReadEntry sv i"]
  proof (rule wp_read [OF laws rows(1)])
    fix t assume t: "tab t = tab w"
    have same: "\<not> (b_BootPriority (tab w ! i) \<noteq> b_BootPriority before \<or> \<not> SameEntry (tab w ! i) before)"
      by (simp add: before SameEntry_def)
    have rows': "i < length (tab t)" using rows t by simp
    let ?c = "c\<lparr>bt_PriorityWrites := bt_PriorityWrites c @ [\<lparr>wr_Index = i, wr_OldPriority = b_BootPriority before, wr_RequestedPriority = p\<rparr>],
        bt_PriorityTransactionDirty := True\<rparr>"
    let ?d = "?c\<lparr>bt_ExpectedPriorities := map_option (\<lambda>v. v[i := p]) (bt_ExpectedPriorities ?c)\<rparr>"
    show "wp (if b_BootPriority (tab w ! i) \<noteq> b_BootPriority before \<or> \<not> SameEntry (tab w ! i) before
        then do { status \<leftarrow> LogFailure sv ''changed after the flushed write intent'' True EFI_ABORTED; State_Monad.return (status, c) }
        else do {
          _ \<leftarrow> bs_PokePriority sv i p;
          after \<leftarrow> bs_ReadEntry sv i;
          if b_BootPriority after \<noteq> p \<or> \<not> SameIdentity after before
          then do { status \<leftarrow> LogFailure sv ''BBS_PRIORITY_WRITE_VERIFY_FAILED'' True EFI_DEVICE_ERROR; State_Monad.return (status, ?c) }
          else do {
            status \<leftarrow> LegacyBootVerifyLiveAgainstPriorities sv (Some ?d) (bt_ExpectedPriorities ?d) ''Per-write complete BBS verification'' True False;
            if EFI_ERROR status then do { _ \<leftarrow> bs_LogFlush sv; State_Monad.return (status, ?d) }
            else do { status \<leftarrow> LogPassed sv phase True; State_Monad.return (status, ?d) }
          }
        }) (stays tab journal c) t"
      unfolding if_not_P [OF same] wp_bind [of "bs_PokePriority sv i p"]
    proof (rule wp_poke [OF laws rows'])
      fix u assume u: "tab u = (tab t)[i := (tab t ! i)\<lparr>b_BootPriority := p\<rparr>]"
      have rows'': "i < length (tab u)" using u rows' by simp
      have row: "tab u ! i = before\<lparr>b_BootPriority := p\<rparr>" using u rows' t before by simp
      have inv': "txn tab journal ?d u"
        using txn_write [OF inv v(1) i, of u p p] u t rows(2) v(1) by simp
      have fin: "stays tab journal c (status, ?d) x" if "tab x = tab u" for status x
        using txn_tab [of tab x u journal ?d] that inv' by (simp add: stays_def)
      show "wp (do {
          after \<leftarrow> bs_ReadEntry sv i;
          if b_BootPriority after \<noteq> p \<or> \<not> SameIdentity after before
          then do { status \<leftarrow> LogFailure sv ''BBS_PRIORITY_WRITE_VERIFY_FAILED'' True EFI_DEVICE_ERROR; State_Monad.return (status, ?c) }
          else do {
            status \<leftarrow> LegacyBootVerifyLiveAgainstPriorities sv (Some ?d) (bt_ExpectedPriorities ?d) ''Per-write complete BBS verification'' True False;
            if EFI_ERROR status then do { _ \<leftarrow> bs_LogFlush sv; State_Monad.return (status, ?d) }
            else do { status \<leftarrow> LogPassed sv phase True; State_Monad.return (status, ?d) }
          }}) (stays tab journal c) u"
        unfolding wp_bind [of "bs_ReadEntry sv i"]
      proof (rule wp_read [OF laws rows''])
        fix x assume x: "tab x = tab u"
        have ok: "\<not> (b_BootPriority (tab u ! i) \<noteq> p \<or> \<not> SameIdentity (tab u ! i) before)"
          by (simp add: row SameIdentity_update)
        show "wp (if b_BootPriority (tab u ! i) \<noteq> p \<or> \<not> SameIdentity (tab u ! i) before
          then do { status \<leftarrow> LogFailure sv ''BBS_PRIORITY_WRITE_VERIFY_FAILED'' True EFI_DEVICE_ERROR; State_Monad.return (status, ?c) }
          else do {
            status \<leftarrow> LegacyBootVerifyLiveAgainstPriorities sv (Some ?d) (bt_ExpectedPriorities ?d) ''Per-write complete BBS verification'' True False;
            if EFI_ERROR status then do { _ \<leftarrow> bs_LogFlush sv; State_Monad.return (status, ?d) }
            else do { status \<leftarrow> LogPassed sv phase True; State_Monad.return (status, ?d) }
          }) (stays tab journal c) x"
          unfolding if_not_P [OF ok]
          by (intro keeps_bindI [OF keeps_Verify [OF table_quiet [OF laws]]] wp_ifI keeps_bindI [OF keeps_log(2) [OF table_quiet [OF laws]]]
              keeps_bindI [OF keeps_services(3) [OF table_quiet [OF laws]]] wp_returnI fin) (simp_all add: x)
      qed
    qed
  qed
qed


lemma LogFailure_stays:
  assumes "table_laws sv tab" and "txn tab journal c w"
  shows "wp (do { status \<leftarrow> LogFailure sv label flush st; State_Monad.return (status, c) }) (stays tab journal c) w"
  by (intro keeps_bindI [OF keeps_log(1) [OF table_quiet [OF assms(1)]]] wp_returnI stays_refl [OF assms(2)])

lemma wp_LogFailure:
  assumes laws: "table_laws sv tab" and "\<And>t. tab t = tab w \<Longrightarrow> Q st t"
  shows "wp (LogFailure sv label flush st) Q w"
  unfolding LogFailure_def
  by (intro keeps_bindI [OF keeps_services(2) [OF table_quiet [OF laws]]] keeps_bindI [OF keeps_log(3) [OF table_quiet [OF laws], unfolded FlushResult_def]]
      wp_returnI assms(2)) simp

lemma OnSuccess_stays:
  assumes "keeps tab m" and "txn tab journal c w" and "\<And>t. tab t = tab w \<Longrightarrow> txn tab journal c t \<Longrightarrow> wp k (stays tab journal c) t"
  shows "wp (OnSuccess m c k) (stays tab journal c) w"
  unfolding OnSuccess_def
proof (intro keeps_bindI [OF assms(1)] wp_ifI wp_returnI stays_refl [OF assms(2)] assms(3))
  fix t assume "tab t = tab w"
  then show "txn tab journal c t" using txn_tab [of tab t w journal c] assms(2) by simp
qed

lemma OnSuccessWith_stays:
  assumes "wp m (stays tab journal c) w"
    and "\<And>c' t. txn tab journal c' t \<Longrightarrow> static c' = static c \<Longrightarrow> wp (k c') (stays tab journal c) t"
  shows "wp (OnSuccessWith m k) (stays tab journal c) w"
  unfolding OnSuccessWith_def
proof (rule wp_bindI [OF assms(1)])
  fix r t assume r: "stays tab journal c r t"
  obtain status c' where p: "r = (status, c')" by (cases r)
  show "wp (case r of (status, c) \<Rightarrow> if EFI_ERROR status then State_Monad.return (status, c) else k c) (stays tab journal c) t"
    unfolding p prod.case by (intro wp_ifI wp_returnI assms(2)) (use r p in \<open>simp_all add: stays_def\<close>)
qed

lemma WritePriority_stays:
  assumes laws: "table_laws sv tab" and inv: "txn tab journal c w" and mw: "may_write c i"
  shows "wp (LegacyBootWritePriority sv c i p phase) (stays tab journal c) w"
proof -
  obtain v where v: "bt_ExpectedPriorities c = Some v" "length v = length journal" "tab w = with_priorities journal v"
      "bt_BbsJournal c = Some journal" "bt_BbsCount c = length journal"
    using inv by (auto simp: txn_def)
  show ?thesis
    unfolding LegacyBootWritePriority_def v(1,4) prod.case option.case v(5)
  proof (rule wp_ifI)
    show "wp (State_Monad.return (EFI_INVALID_PARAMETER, c)) (stays tab journal c) w" by (simp add: stays_refl [OF inv])
  next
    assume "\<not> (\<not> bt_JournalComplete c \<or> length journal \<le> i)"
    then have i: "i < length journal" by simp
    have rows: "i < length (tab w)" using i v(3) by simp
    show "wp (do {
        before \<leftarrow> bs_ReadEntry sv i;
        if \<not> SameIdentity before (journal ! i) \<or> b_BootPriority before \<noteq> v ! i then do {
          status \<leftarrow> LogFailure sv ''precondition failed'' True EFI_COMPROMISED_DATA;
          State_Monad.return (status, c)
        } else if b_BootPriority before = p then State_Monad.return (EFI_SUCCESS, c)
        else if length (bt_PriorityWrites c) \<ge> LEGACY_BOOT_BOOT_TARGET_MAX_PRIORITY_WRITES
        then State_Monad.return (EFI_OUT_OF_RESOURCES, c)
        else OnSuccess (bs_LogPrint sv ''BBS_PRIORITY_WRITE_INTENT'') c (
             OnSuccess (bs_LogFlush sv) c (WriteAndVerify sv c i p before phase))
      }) (stays tab journal c) w"
      unfolding wp_bind [of "bs_ReadEntry sv i"]
    proof (rule wp_read [OF laws rows], intro wp_ifI)
      fix t assume t: "tab t = tab w"
      have inv': "txn tab journal c t" using txn_tab [of tab t w journal c] t inv by simp
      show "wp (do { status \<leftarrow> LogFailure sv ''precondition failed'' True EFI_COMPROMISED_DATA; State_Monad.return (status, c) }) (stays tab journal c) t"
        by (rule LogFailure_stays [OF laws inv'])
      show "wp (State_Monad.return (EFI_SUCCESS, c)) (stays tab journal c) t" "wp (State_Monad.return (EFI_OUT_OF_RESOURCES, c)) (stays tab journal c) t"
        by (simp_all add: stays_refl [OF inv'])
      show "wp (OnSuccess (bs_LogPrint sv ''BBS_PRIORITY_WRITE_INTENT'') c (
             OnSuccess (bs_LogFlush sv) c (WriteAndVerify sv c i p (tab w ! i) phase))) (stays tab journal c) t"
        by (intro OnSuccess_stays keeps_services(2,3) [OF table_quiet [OF laws]] inv' WriteAndVerify_stays [OF laws _ i mw]) (simp_all add: t)
    qed
  qed
qed

section \<open>Rollback\<close>

text \<open>After the loop the expected vector is the original one, and the table follows it.\<close>

definition undone :: "('w \<Rightarrow> BBS_TABLE list) \<Rightarrow> BBS_TABLE list \<Rightarrow> LEGACY_BOOT_BOOT_TARGET_CONTEXT \<Rightarrow> NCV_U16 list \<Rightarrow>
    EFI_STATUS \<times> LEGACY_BOOT_BOOT_TARGET_CONTEXT \<Rightarrow> 'w \<Rightarrow> bool" where
  "undone tab journal c v r t \<longleftrightarrow> snd r = c\<lparr>bt_ExpectedPriorities := Some v\<rparr> \<and> tab t = with_priorities journal v"

lemma RollbackRecord_undone:
  assumes laws: "table_laws sv tab" and t: "tab w = with_priorities journal v" "length v = length journal"
    and c: "bt_BbsJournal c = Some journal" "bt_ExpectedPriorities c = Some v" and i: "wr_Index r < length journal"
  shows "wp (RollbackRecord sv r (overall, c)) (undone tab journal c (v[wr_Index r := wr_OldPriority r])) w"
proof -
  let ?i = "wr_Index r" and ?p = "wr_OldPriority r"
  let ?c = "c\<lparr>bt_ExpectedPriorities := map_option (\<lambda>v. v[?i := ?p]) (bt_ExpectedPriorities c)\<rparr>"
  have rows: "?i < length (tab w)" using t(1) i by simp
  have same: "\<not> \<not> SameIdentity (tab w ! ?i) (journal ! ?i)" using t(1) i by (simp add: SameIdentity_update)
  have exp: "bt_ExpectedPriorities ?c = Some (v[?i := ?p])" by (simp add: c(2))
  have fin: "undone tab journal c (v[?i := ?p]) (st, ?c) x" if "tab x = with_priorities journal (v[?i := ?p])" for st x
    using that by (simp add: undone_def c(2))
  have poked: "(tab w)[?i := (tab w ! ?i)\<lparr>b_BootPriority := ?p\<rparr>] = with_priorities journal (v[?i := ?p])"
    unfolding t(1) by (rule with_priorities_update [OF t(2) i])
  show ?thesis
    unfolding RollbackRecord_def prod.case Let_def c(1) option.sel wp_bind [of "bs_ReadEntry sv ?i"]
  proof (rule wp_read [OF laws rows], unfold if_not_P [OF same], intro keeps_bindI [OF keeps_services(2) [OF table_quiet [OF laws]]] keeps_bindI [OF keeps_services(3) [OF table_quiet [OF laws]]])
    fix t1 s1 t2 s2 t3
    assume "tab t1 = tab w" "tab t2 = tab t1" "tab t3 = tab t2"
    then have t3: "tab t3 = tab w" by simp
    let ?verify = "\<lambda>overall. do {
         status \<leftarrow> LegacyBootVerifyLiveAgainstPriorities sv (Some ?c) (bt_ExpectedPriorities ?c) ''Per-rollback-write complete BBS verification'' True False;
         status' \<leftarrow> bs_LogPrint sv ''BBS_PRIORITY_ROLLBACK_VERIFIED'';
         status'' \<leftarrow> bs_LogFlush sv;
         State_Monad.return (KeepError (KeepError (KeepError overall status) status') status'', ?c)
       }"
    let ?poke = "\<lambda>overall. do {
       _ \<leftarrow> bs_PokePriority sv ?i ?p;
       after \<leftarrow> bs_ReadEntry sv ?i;
       if b_BootPriority after \<noteq> ?p \<or> \<not> SameIdentity after (tab w ! ?i) then do {
         overall \<leftarrow> LogFailure sv ''BBS_PRIORITY_ROLLBACK_VERIFY_FAILED'' True EFI_DEVICE_ERROR;
         State_Monad.return (overall, c)
       } else ?verify overall }"
    have verify: "wp (?verify overall) (undone tab journal c (v[?i := ?p])) x" if "tab x = with_priorities journal (v[?i := ?p])" for overall x
      by (intro keeps_bindI [OF keeps_Verify [OF table_quiet [OF laws]]] keeps_bindI [OF keeps_services(2) [OF table_quiet [OF laws]]]
          keeps_bindI [OF keeps_services(3) [OF table_quiet [OF laws]]] wp_returnI fin) (simp add: that)
    have poke: "wp (?poke overall) (undone tab journal c (v[?i := ?p])) y" if y: "tab y = tab w" for overall y
    proof -
      have rows': "?i < length (tab y)" using rows y by simp
      show ?thesis unfolding wp_bind [of "bs_PokePriority sv ?i ?p"]
      proof (rule wp_poke [OF laws rows'])
        fix u assume "tab u = (tab y)[?i := (tab y ! ?i)\<lparr>b_BootPriority := ?p\<rparr>]"
        then have u: "tab u = with_priorities journal (v[?i := ?p])" using y poked by simp
        have rows'': "?i < length (tab u)" using u i by simp
        have row: "tab u ! ?i = (journal ! ?i)\<lparr>b_BootPriority := ?p\<rparr>" using u i t(2) by simp
        have old: "tab w ! ?i = (journal ! ?i)\<lparr>b_BootPriority := v ! ?i\<rparr>" using t(1) i by simp
        have ok: "\<not> (b_BootPriority (tab u ! ?i) \<noteq> ?p \<or> \<not> SameIdentity (tab u ! ?i) (tab w ! ?i))"
          unfolding row old by (simp add: SameIdentity_iff)
        show "wp (do {
            after \<leftarrow> bs_ReadEntry sv ?i;
            if b_BootPriority after \<noteq> ?p \<or> \<not> SameIdentity after (tab w ! ?i) then do {
              overall \<leftarrow> LogFailure sv ''BBS_PRIORITY_ROLLBACK_VERIFY_FAILED'' True EFI_DEVICE_ERROR;
              State_Monad.return (overall, c)
            } else ?verify overall }) (undone tab journal c (v[?i := ?p])) u"
          unfolding wp_bind [of "bs_ReadEntry sv ?i"]
          by (rule wp_read [OF laws rows''], unfold if_not_P [OF ok], rule verify) (simp add: u)
      qed
    qed
    have rows3: "?i < length (tab t3)" using rows t3 by simp
    show "wp (do {
        after \<leftarrow> bs_ReadEntry sv ?i;
        if \<not> SameIdentity after (journal ! ?i) then do {
          overall \<leftarrow> LogFailure sv ''rollback refused after the log flush'' True EFI_COMPROMISED_DATA;
          State_Monad.return (overall, c)
        } else ?poke (KeepError (KeepError overall s1) s2) }) (undone tab journal c (v[?i := ?p])) t3"
      unfolding wp_bind [of "bs_ReadEntry sv ?i"]
    proof (rule wp_read [OF laws rows3])
      fix y assume y: "tab y = tab t3"
      have same3: "\<not> \<not> SameIdentity (tab t3 ! ?i) (journal ! ?i)" using same t3 by simp
      show "wp (if \<not> SameIdentity (tab t3 ! ?i) (journal ! ?i) then do {
          overall \<leftarrow> LogFailure sv ''rollback refused after the log flush'' True EFI_COMPROMISED_DATA;
          State_Monad.return (overall, c)
        } else ?poke (KeepError (KeepError overall s1) s2)) (undone tab journal c (v[?i := ?p])) y"
        unfolding if_not_P [OF same3] by (rule poke) (simp add: y t3)
    qed
  qed
qed


definition undo :: "LEGACY_BOOT_BBS_PRIORITY_WRITE list \<Rightarrow> NCV_U16 list \<Rightarrow> NCV_U16 list" where
  "undo rs v = foldl (\<lambda>v r. v[wr_Index r := wr_OldPriority r]) v rs"

lemma length_undo [simp]: "length (undo rs v) = length v"
  unfolding undo_def by (induction rs arbitrary: v) simp_all

lemma undo_nth: "i < length v \<Longrightarrow> undo (rev ws) v ! i = oldest ws i (v ! i)"
proof (induction ws)
  case (Cons r ws)
  have "undo (rev (r # ws)) v = (undo (rev ws) v)[wr_Index r := wr_OldPriority r]" by (simp add: undo_def)
  then show ?case using Cons length_undo [of "rev ws" v] by (auto simp: nth_list_update oldest_def)
qed (simp add: undo_def oldest_def)

lemma RollbackLoop_undone:
  assumes laws: "table_laws sv tab" and t: "tab w = with_priorities journal v" "length v = length journal"
    and c: "bt_BbsJournal c = Some journal" "bt_ExpectedPriorities c = Some v" and i: "\<forall>r\<in>set rs. wr_Index r < length journal"
  shows "wp (RollbackLoop sv rs (overall, c)) (undone tab journal c (undo rs v)) w"
  using t c i
proof (induction rs arbitrary: v c overall w)
  case Nil
  then show ?case by (simp add: undone_def undo_def)
next
  case (Cons r rs)
  have i: "wr_Index r < length journal" using Cons.prems(5) by simp
  let ?v = "v[wr_Index r := wr_OldPriority r]"
  show ?case unfolding RollbackLoop.simps
  proof (rule wp_bindI [OF RollbackRecord_undone [OF laws Cons.prems(1-4) i]])
    fix oc t assume oc: "undone tab journal c ?v oc t"
    obtain st where p: "oc = (st, c\<lparr>bt_ExpectedPriorities := Some ?v\<rparr>)" using oc by (cases oc) (simp add: undone_def)
    have "wp (RollbackLoop sv rs (st, c\<lparr>bt_ExpectedPriorities := Some ?v\<rparr>)) (undone tab journal (c\<lparr>bt_ExpectedPriorities := Some ?v\<rparr>) (undo rs ?v)) t"
      by (rule Cons.IH) (use oc Cons.prems in \<open>simp_all add: undone_def\<close>)
    then show "wp (RollbackLoop sv rs oc) (undone tab journal c (undo (r # rs) v)) t"
      unfolding p by (rule wp_mono) (simp add: undone_def undo_def)
  qed
qed

text \<open>
  The outcome of a rollback: the invariant holds; without an error the context is clean; and if the firmware's
  memory map lets the range be validated, then the table is the journal again, whatever the log did.
\<close>

definition range_valid :: "'w boot_services \<Rightarrow> LEGACY_BOOT_BOOT_TARGET_CONTEXT \<Rightarrow> bool" where
  "range_valid sv c \<longleftrightarrow> (\<forall>w. wp (LegacyBootValidateFirmwareBbsRange sv (Some c) True) (\<lambda>status _. \<not> EFI_ERROR status) w)"

definition rolled_back :: "bool \<Rightarrow> ('w \<Rightarrow> BBS_TABLE list) \<Rightarrow> BBS_TABLE list \<Rightarrow> LEGACY_BOOT_BOOT_TARGET_CONTEXT \<Rightarrow>
    EFI_STATUS \<times> LEGACY_BOOT_BOOT_TARGET_CONTEXT \<Rightarrow> 'w \<Rightarrow> bool" where
  "rolled_back ok tab journal c r t \<longleftrightarrow> stays tab journal c r t \<and>
     (\<not> EFI_ERROR (fst r) \<longrightarrow> \<not> bt_PriorityTransactionDirty (snd r)) \<and> (ok \<longrightarrow> tab t = journal)"

lemma txn_undone:
  assumes inv: "txn tab journal c w" and v: "bt_ExpectedPriorities c = Some v"
    and orig: "orig = undo (rev (bt_PriorityWrites c)) v" and t: "tab t = with_priorities journal orig"
  shows "txn tab journal (c\<lparr>bt_ExpectedPriorities := Some orig\<rparr>) t"
    and "txn tab journal (c\<lparr>bt_ExpectedPriorities := Some orig, bt_PriorityTransactionDirty := False, bt_PrioritiesApplied := False,
      bt_PriorityWrites := []\<rparr>) t"
    and "tab t = journal"
proof -
  have old: "length v = length journal" "bt_BbsJournal c = Some journal" "bt_BbsCount c = length journal"
      "\<forall>i<length journal. oldest (bt_PriorityWrites c) i (v ! i) = b_BootPriority (journal ! i)"
      "\<forall>r\<in>set (bt_PriorityWrites c). wr_Index r < length journal \<and> may_write c (wr_Index r)"
      "bt_PriorityTransactionDirty c \<longleftrightarrow> bt_PriorityWrites c \<noteq> []"
    using inv v by (auto simp: txn_def)
  have o': "orig ! i = b_BootPriority (journal ! i)" if "i < length journal" for i
    using that old(1,4) unfolding orig by (simp add: undo_nth)
  have "oldest (bt_PriorityWrites c) i (orig ! i) = b_BootPriority (journal ! i)" if "i < length journal" for i
    using that old(4) o' oldest_in [of i "bt_PriorityWrites c" "orig ! i" "v ! i"] oldest_notin [of i "bt_PriorityWrites c" "orig ! i"] by metis
  moreover have "may_write (c\<lparr>bt_ExpectedPriorities := Some orig\<rparr>) = may_write c" by (rule ext, rule may_write_static) simp
  moreover have "length orig = length journal" using old(1) by (simp add: orig)
  ultimately show "txn tab journal (c\<lparr>bt_ExpectedPriorities := Some orig\<rparr>) t"
    "txn tab journal (c\<lparr>bt_ExpectedPriorities := Some orig, bt_PriorityTransactionDirty := False, bt_PrioritiesApplied := False,
      bt_PriorityWrites := []\<rparr>) t"
    "tab t = journal"
    using old(2,3,5,6) t o' with_priorities_same [of journal orig] by (auto simp: txn_def oldest_notin)
qed

lemma Rollback_finish:
  assumes laws: "table_laws sv tab" and dirty: "txn tab journal d w"
    and clean: "txn tab journal (d\<lparr>bt_PriorityTransactionDirty := False, bt_PrioritiesApplied := False, bt_PriorityWrites := []\<rparr>) w"
    and st: "static d = static c" and t: "tab w = journal"
  shows "wp (if \<not> EFI_ERROR overall then do {
            let c = d\<lparr>bt_PriorityTransactionDirty := False, bt_PrioritiesApplied := False, bt_PriorityWrites := []\<rparr>;
            _ \<leftarrow> bs_LogPrint sv ''Exact reverse BBS BootPriority restoration passed'';
            status \<leftarrow> bs_LogFlush sv;
            State_Monad.return (status, c)
          } else State_Monad.return (overall, d)) (rolled_back ok tab journal c) w"
  unfolding Let_def
proof (intro wp_ifI keeps_bindI [OF keeps_services(2) [OF table_quiet [OF laws]]] keeps_bindI [OF keeps_services(3) [OF table_quiet [OF laws]]] wp_returnI)
  fix t1 status t2 assume "tab t1 = tab w" "tab t2 = tab t1"
  then have t2: "tab t2 = tab w" by simp
  show "rolled_back ok tab journal c (status, d\<lparr>bt_PriorityTransactionDirty := False, bt_PrioritiesApplied := False, bt_PriorityWrites := []\<rparr>) t2"
    using clean st txn_tab [of tab t2 w journal, OF t2] t t2 by (simp add: rolled_back_def stays_def)
qed (use dirty st t in \<open>simp add: rolled_back_def stays_def\<close>)

lemma RollbackInternal_restores:
  assumes laws: "table_laws sv tab" and inv: "txn tab journal c w" and jc: "bt_JournalComplete c"
    and ok: "ok \<Longrightarrow> range_valid sv c"
  shows "wp (LegacyBootRollbackInternal sv c) (rolled_back ok tab journal c) w"
proof -
  obtain v where v: "bt_ExpectedPriorities c = Some v" "tab w = with_priorities journal v" "length v = length journal"
    and c: "bt_BbsJournal c = Some journal" and rs: "\<forall>r\<in>set (rev (bt_PriorityWrites c)). wr_Index r < length journal"
    using inv by (auto simp: txn_def)
  have range: "wp (LegacyBootValidateFirmwareBbsRange sv (Some c) True) (\<lambda>status _. ok \<longrightarrow> \<not> EFI_ERROR status) w"
  proof (cases ok)
    case True
    with ok show ?thesis by (simp add: range_valid_def)
  qed simp
  have complete: "\<not> \<not> bt_JournalComplete c" using jc by simp
  let ?orig = "undo (rev (bt_PriorityWrites c)) v"
  let ?d = "c\<lparr>bt_ExpectedPriorities := Some ?orig\<rparr>"
  let ?tail = "\<lambda>overall c. do {
          status \<leftarrow> LegacyBootVerifyLiveAgainstPriorities sv (Some c) (bt_ExpectedPriorities c) ''Post-rollback complete BBS verification'' True True;
          let overall = KeepError overall status;
          live \<leftarrow> ReadTable sv (bt_BbsCount c);
          overall \<leftarrow> (if \<not> SameTable live (the (bt_BbsJournal c)) then LogFailure sv ''Exact BBS journal restoration failed'' True EFI_DEVICE_ERROR
                     else do {
                       live \<leftarrow> ReadTable sv (bt_BbsCount c);
                       if TableCrc32 live \<noteq> bt_BbsJournalCrc32 c then LogFailure sv ''Exact BBS journal restoration failed'' True EFI_DEVICE_ERROR
                       else State_Monad.return overall
                     });
          if \<not> EFI_ERROR overall then do {
            let c = c\<lparr>bt_PriorityTransactionDirty := False, bt_PrioritiesApplied := False, bt_PriorityWrites := []\<rparr>;
            _ \<leftarrow> bs_LogPrint sv ''Exact reverse BBS BootPriority restoration passed'';
            status \<leftarrow> bs_LogFlush sv;
            State_Monad.return (status, c)
          } else State_Monad.return (overall, c)
        }"
  have tail: "wp (?tail overall ?d) (rolled_back ok tab journal c) x" if x: "tab x = with_priorities journal ?orig" for overall x
    unfolding Let_def [of "KeepError _ _"]
  proof (rule keeps_bindI [OF keeps_Verify [OF table_quiet [OF laws]]], rule keeps_bindI [OF keeps_ReadTable [OF table_quiet [OF laws]]], rule keeps_bindI)
    fix status :: EFI_STATUS and live :: "BBS_TABLE list" and overall :: EFI_STATUS
    show "keeps tab (if \<not> SameTable live (the (bt_BbsJournal ?d)) then LogFailure sv ''Exact BBS journal restoration failed'' True EFI_DEVICE_ERROR
       else do {
         live \<leftarrow> ReadTable sv (bt_BbsCount ?d);
         if TableCrc32 live \<noteq> bt_BbsJournalCrc32 ?d then LogFailure sv ''Exact BBS journal restoration failed'' True EFI_DEVICE_ERROR
         else State_Monad.return overall
       })" for overall
      by (intro keeps_rules keeps_log keeps_ReadTable table_quiet [OF laws])
    fix t1 t2 t3 r assume "tab t1 = tab x" "tab t2 = tab t1" "tab t3 = tab t2"
    then have t3: "tab t3 = with_priorities journal ?orig" using x by simp
    note both = txn_undone [OF inv v(1) refl t3]
    show "wp (if \<not> EFI_ERROR r then do {
            let c = ?d\<lparr>bt_PriorityTransactionDirty := False, bt_PrioritiesApplied := False, bt_PriorityWrites := []\<rparr>;
            _ \<leftarrow> bs_LogPrint sv ''Exact reverse BBS BootPriority restoration passed'';
            status \<leftarrow> bs_LogFlush sv;
            State_Monad.return (status, c)
          } else State_Monad.return (r, ?d)) (rolled_back ok tab journal c) t3"
      by (rule Rollback_finish [OF laws both(1,2) _ both(3)]) simp
  qed
  have loop: "wp (do { (overall, c) \<leftarrow> RollbackLoop sv (rev (bt_PriorityWrites c)) (overall, c); ?tail overall c }) (rolled_back ok tab journal c) x"
    if x: "tab x = tab w" for overall x
  proof (rule wp_bindI [OF RollbackLoop_undone [OF laws _ v(3) c v(1) rs]])
    show "tab x = with_priorities journal v" using x v(2) by simp
    fix oc t assume oc: "undone tab journal c ?orig oc t"
    then have p: "oc = (fst oc, ?d)" and t: "tab t = with_priorities journal ?orig" by (simp_all add: undone_def prod_eq_iff)
    show "wp (case oc of (overall, c) \<Rightarrow> ?tail overall c) (rolled_back ok tab journal c) t"
      by (subst p) (use tail [OF t] in \<open>simp only: prod.case\<close>)
  qed
  show ?thesis
    unfolding LegacyBootRollbackInternal_def if_not_P [OF complete]
  proof (rule wp_bindI [OF wp_conj [OF wp_keeps [OF keeps_Range [OF table_quiet [OF laws]], of _ "\<lambda>_ t. tab t = tab w"]]], assumption, rule range, elim conjE, rule wp_ifI)
    fix overall t assume t: "tab t = tab w" and "ok \<longrightarrow> \<not> EFI_ERROR overall" and err: "EFI_ERROR overall"
    then have bad: "\<not> ok" by simp
    have fin: "rolled_back ok tab journal c (overall, c) x" if "tab x = tab t" for x
      using stays_refl [OF inv, of x overall] that t err bad by (simp add: rolled_back_def)
    show "wp (do { status \<leftarrow> LogFailure sv ''rollback cannot validate the firmware table range'' True overall; State_Monad.return (status, c) })
        (rolled_back ok tab journal c) t"
      unfolding wp_bind by (rule wp_LogFailure [OF laws], rule wp_returnI, rule fin)
  next
    fix overall t assume t: "tab t = tab w"
    show "wp (do {
          status \<leftarrow> bs_LogPrint sv ''Beginning exact reverse BBS BootPriority rollback'';
          let overall = (if EFI_ERROR status then status else overall);
          status \<leftarrow> bs_LogFlush sv;
          let overall = KeepError overall status;
          (overall, c) \<leftarrow> RollbackLoop sv (rev (bt_PriorityWrites c)) (overall, c);
          ?tail overall c }) (rolled_back ok tab journal c) t"
      unfolding Let_def [of "if _ then _ else _"] Let_def [of "KeepError _ _" "\<lambda>x. State_Monad.bind (RollbackLoop _ _ (x, _)) _"]
      by (intro keeps_bindI [OF keeps_services(2) [OF table_quiet [OF laws]]] keeps_bindI [OF keeps_services(3) [OF table_quiet [OF laws]]] loop) (simp add: t)
  qed
qed


section \<open>What a passed verification says\<close>

lemma ReadRows_tab:
  assumes laws: "table_laws sv tab"
  shows "\<forall>i\<in>set is. i < length (tab w) \<Longrightarrow> wp (ReadRows sv is) (\<lambda>es t. es = map ((!) (tab w)) is \<and> tab t = tab w) w"
proof (induction "is" arbitrary: w)
  case (Cons i "is")
  show ?case unfolding ReadRows.simps wp_bind [of "bs_ReadEntry sv i"]
  proof (rule wp_read [OF laws])
    show "i < length (tab w)" using Cons.prems by simp
    fix t assume t: "tab t = tab w"
    then have "\<forall>j\<in>set is. j < length (tab t)" using Cons.prems by simp
    from Cons.IH [OF this] show "wp (State_Monad.bind (ReadRows sv is) (\<lambda>es. State_Monad.return (tab w ! i # es)))
        (\<lambda>es t. es = map ((!) (tab w)) (i # is) \<and> tab t = tab w) t"
      unfolding wp_bind wp_return by (rule wp_mono) (simp add: t)
  qed
qed simp

lemma RowsAsExpected_iff:
  assumes "length live = length journal"
  shows "RowsAsExpected journal v (map ((!) live) [0..<length journal]) (length journal) \<longleftrightarrow> live = with_priorities journal v"
proof
  assume r: "RowsAsExpected journal v (map ((!) live) [0..<length journal]) (length journal)"
  show "live = with_priorities journal v"
  proof (rule nth_equalityI)
    fix i assume "i < length live"
    then have i: "i < length journal" using assms by simp
    then have "SameIdentity (live ! i) (journal ! i)" "b_BootPriority (live ! i) = v ! i"
      using r by (auto simp: RowsAsExpected_def list_all_iff)
    moreover have "SameIdentity ((journal ! i)\<lparr>b_BootPriority := v ! i\<rparr>) (journal ! i)" by (rule SameIdentity_update)
    ultimately show "live ! i = with_priorities journal v ! i"
      using i SameIdentity_eq [of "live ! i" "(journal ! i)\<lparr>b_BootPriority := v ! i\<rparr>"] by (simp add: SameIdentity_iff)
  qed (use assms in simp)
next
  assume "live = with_priorities journal v"
  then show "RowsAsExpected journal v (map ((!) live) [0..<length journal]) (length journal)"
    by (simp add: RowsAsExpected_def list_all_iff SameIdentity_update)
qed

lemma Verify_passed:
  assumes laws: "table_laws sv tab" and c: "bt_BbsJournal c = Some journal" "bt_BbsCount c = length journal" and n: "length (tab w) = length journal"
  shows "wp (LegacyBootVerifyLiveAgainstPriorities sv (Some c) (Some v) label wr flush)
    (\<lambda>status t. tab t = tab w \<and> (\<not> EFI_ERROR status \<longrightarrow> tab w = with_priorities journal v)) w"
proof -
  let ?Q = "\<lambda>status t. \<not> EFI_ERROR status \<longrightarrow> tab w = with_priorities journal v"
  have bad: "?Q st t" if "EFI_ERROR st" for st t using that by simp
  have "wp (LegacyBootVerifyLiveAgainstPriorities sv (Some c) (Some v) label wr flush) ?Q w"
    unfolding LegacyBootVerifyLiveAgainstPriorities_def prod.case option.case c
  proof (rule wp_ifI, simp, rule keeps_bindI [OF keeps_Range [OF table_quiet [OF laws]]], rule wp_ifI)
    fix status t assume "EFI_ERROR status"
    then show "wp (LogFailure sv label flush status) ?Q t" by (intro wp_LogFailure [OF laws] bad)
  next
    fix status t assume t: "tab t = tab w"
    have rows: "\<forall>i\<in>set [0..<length journal]. i < length (tab t)" using n t by simp
    show "wp (do {
        scratch \<leftarrow> ReadTable sv (length journal);
        if \<not> RowsAsExpected journal v scratch (length journal) then LogFailure sv label flush EFI_COMPROMISED_DATA
        else do {
          status \<leftarrow> LegacyBootVerifyLiveBbsStrings sv (Some c) label False;
          if EFI_ERROR status then do { _ \<leftarrow> FlushResult sv flush; State_Monad.return status }
          else do {
            same \<leftarrow> RereadLoop sv scratch [0..<length journal];
            if \<not> same then LogFailure sv label flush EFI_ABORTED else LogPassed sv label flush
          }
        } }) ?Q t"
      unfolding ReadTable_def
    proof (rule wp_bindI [OF ReadRows_tab [OF laws rows]], rule wp_ifI)
      fix scratch u show "wp (LogFailure sv label flush EFI_COMPROMISED_DATA) ?Q u" by (intro wp_LogFailure [OF laws] bad) simp
    next
      fix scratch u
      assume "scratch = map ((!) (tab t)) [0..<length journal] \<and> tab u = tab t" "\<not> \<not> RowsAsExpected journal v scratch (length journal)"
      then have "tab w = with_priorities journal v" using RowsAsExpected_iff [OF n] t by simp
      then have all: "?Q st x" for st x by simp
      show "wp (do {
          status \<leftarrow> LegacyBootVerifyLiveBbsStrings sv (Some c) label False;
          if EFI_ERROR status then do { _ \<leftarrow> FlushResult sv flush; State_Monad.return status }
          else do {
            same \<leftarrow> RereadLoop sv scratch [0..<length journal];
            if \<not> same then LogFailure sv label flush EFI_ABORTED else LogPassed sv label flush
          } }) ?Q u"
        by (rule wp_any, rule all)
    qed
  qed
  then show ?thesis by (rule wp_conj [OF wp_keeps [OF keeps_Verify [OF table_quiet [OF laws]]], rotated]) simp
qed

lemma ZeroScan_some:
  "ZeroScan p live is k = Some m \<Longrightarrow> (\<forall>i\<in>set is. p ! i = 0 \<longrightarrow> i = live) \<and> m = k + length (filter (\<lambda>i. p ! i = 0) is)"
proof (induction "is" arbitrary: k)
  case (Cons i "is")
  then show ?case using Cons.IH [of "Suc k"] Cons.IH [of k] by (auto split: if_splits)
qed simp

text \<open>The table has the planned priorities, and only the selected row has priority 0.\<close>

definition plan_in_force :: "LEGACY_BOOT_BOOT_TARGET_CONTEXT \<Rightarrow> BBS_TABLE list \<Rightarrow> BBS_TABLE list \<Rightarrow> bool" where
  "plan_in_force c journal live \<longleftrightarrow> (\<exists>p. bt_PlannedPriorities c = Some p \<and> live = with_priorities journal p \<and>
     (\<forall>i<length journal. p ! i = 0 \<longleftrightarrow> i = bt_LiveBbsIndex c))"

lemma ValidateApplied_passed:
  assumes laws: "table_laws sv tab" and c: "bt_BbsJournal c = Some journal" "bt_BbsCount c = length journal" and n: "length (tab w) = length journal"
  shows "wp (LegacyBootBootTargetValidateApplied sv (Some c)) (\<lambda>status t. tab t = tab w \<and> (\<not> EFI_ERROR status \<longrightarrow> plan_in_force c journal (tab w))) w"
proof -
  let ?Q = "\<lambda>status t. \<not> EFI_ERROR status \<longrightarrow> plan_in_force c journal (tab w)"
  have bad: "?Q st t" if "EFI_ERROR st" for st t using that by simp
  let ?after = "\<lambda>planned. case ZeroScan planned (bt_LiveBbsIndex c) [0..<length journal] 0 of
      None \<Rightarrow> LogFailure sv ''Applied BBS uniqueness failed'' True EFI_COMPROMISED_DATA
    | Some zeros \<Rightarrow>
        if zeros \<noteq> 1 \<or> planned ! bt_LiveBbsIndex c \<noteq> 0
        then LogFailure sv ''Applied BBS uniqueness failed'' True EFI_COMPROMISED_DATA
        else LogPassed sv ''Applied BBS uniqueness passed'' True"
  have after: "wp (?after p) ?Q t" if p: "bt_PlannedPriorities c = Some p" "tab w = with_priorities journal p" for p t
  proof (intro wp_optionI wp_ifI)
    fix z assume z: "ZeroScan p (bt_LiveBbsIndex c) [0..<length journal] 0 = Some z" "\<not> (z \<noteq> 1 \<or> p ! bt_LiveBbsIndex c \<noteq> 0)"
    have "\<forall>i<length journal. p ! i = 0 \<longleftrightarrow> i = bt_LiveBbsIndex c"
      using ZeroScan_some [OF z(1)] z(2) by auto
    then have "plan_in_force c journal (tab w)" using p by (auto simp: plan_in_force_def)
    then show "wp (LogPassed sv ''Applied BBS uniqueness passed'' True) ?Q t" by (intro wp_any) simp
  qed (intro wp_LogFailure [OF laws] bad, simp)+
  have "wp (LegacyBootBootTargetValidateApplied sv (Some c)) ?Q w"
    unfolding LegacyBootBootTargetValidateApplied_def option.case Let_def
  proof (rule wp_ifI, simp, rule keeps_bindI [OF keeps_OwnedCopies [OF table_quiet [OF laws]]], rule wp_ifI, simp, rule keeps_bindI [OF keeps_OrderSnapshot [OF table_quiet [OF laws]]], rule wp_ifI, simp)
    fix s1 t1 s2 t assume "tab t1 = tab w" "tab t = tab t1"
    then have t: "tab t = tab w" by simp
    show "wp (do {
        status \<leftarrow> LegacyBootVerifyLiveAgainstPriorities sv (Some c) (bt_PlannedPriorities c) ''applied BBS state validation'' True True;
        if EFI_ERROR status then State_Monad.return status
        else case ZeroScan (the (bt_PlannedPriorities c)) (bt_LiveBbsIndex c) [0..<bt_BbsCount c] 0 of
          None \<Rightarrow> LogFailure sv ''Applied BBS uniqueness failed'' True EFI_COMPROMISED_DATA
        | Some zeros \<Rightarrow>
            if zeros \<noteq> 1 \<or> the (bt_PlannedPriorities c) ! bt_LiveBbsIndex c \<noteq> 0
            then LogFailure sv ''Applied BBS uniqueness failed'' True EFI_COMPROMISED_DATA
            else LogPassed sv ''Applied BBS uniqueness passed'' True }) ?Q t"
    proof (cases "bt_PlannedPriorities c")
      case None
      then show ?thesis by (simp add: LegacyBootVerifyLiveAgainstPriorities_def)
    next
      case (Some p)
      have n': "length (tab t) = length journal" using n t by simp
      show ?thesis unfolding Some option.sel c(2)
      proof (rule wp_bindI [OF Verify_passed [OF laws c n']], rule wp_ifI)
        fix s x assume "tab x = tab t \<and> (\<not> EFI_ERROR s \<longrightarrow> tab t = with_priorities journal p)" "\<not> EFI_ERROR s"
        then have "tab w = with_priorities journal p" using t by simp
        from after [OF Some this] show "wp (?after p) ?Q x" .
      qed simp
    qed
  qed
  then show ?thesis by (rule wp_conj [OF wp_keeps [OF keeps_Applied [OF table_quiet [OF laws]]], rotated]) simp
qed


section \<open>Applying the plan\<close>

lemma EligibleNow_allowed:
  assumes "table_laws sv tab"
  shows "wp (EligibleNow sv c i) (\<lambda>b t. tab t = tab w \<and> (b \<longrightarrow> may_write c i)) w"
  unfolding EligibleNow_def by (intro keeps_bindI [OF keeps_services(5) [OF table_quiet [OF assms]]] wp_returnI) (auto simp: may_write_def)

lemma stays_other:
  assumes "static c' = static c"
  shows "stays tab journal c' = stays tab journal c"
  using assms by (intro ext) (simp add: stays_def)

lemma UnprioritizeLoop_stays:
  assumes laws: "table_laws sv tab"
  shows "txn tab journal c w \<Longrightarrow> wp (UnprioritizeLoop sv is c) (stays tab journal c) w"
proof (induction "is" arbitrary: c w)
  case Nil
  then show ?case by (simp add: stays_refl)
next
  case (Cons i "is")
  show ?case unfolding UnprioritizeLoop.simps
  proof (rule wp_bindI [OF EligibleNow_allowed [OF laws]], rule wp_ifI)
    fix b t assume b: "tab t = tab w \<and> (b \<longrightarrow> may_write c i)"
    then have inv: "txn tab journal c t" using txn_tab [of tab t w journal c] Cons.prems by simp
    then show "wp (UnprioritizeLoop sv is c) (stays tab journal c) t" by (rule Cons.IH)
    assume "\<not> \<not> b"
    then have mw: "may_write c i" using b by simp
    show "wp (OnSuccessWith (LegacyBootWritePriority sv c i BBS_UNPRIORITIZED_ENTRY ''unprioritize-valid-entry'') (UnprioritizeLoop sv is))
        (stays tab journal c) t"
    proof (rule OnSuccessWith_stays [OF WritePriority_stays [OF laws inv mw]])
      fix c' u assume "txn tab journal c' u" and st: "static c' = static c"
      from Cons.IH [OF this(1)] show "wp (UnprioritizeLoop sv is c') (stays tab journal c) u" by (simp add: stays_other [OF st])
    qed
  qed
qed

lemma FindPlanned_allowed:
  assumes laws: "table_laws sv tab"
  shows "wp (FindPlanned sv c p is) (\<lambda>r t. tab t = tab w \<and> (\<forall>i. r = Some i \<longrightarrow> may_write c i)) w"
proof (induction "is" arbitrary: w)
  case (Cons i "is")
  show ?case unfolding FindPlanned.simps
  proof (rule wp_bindI [OF EligibleNow_allowed [OF laws]], intro wp_ifI wp_returnI)
    fix b t assume b: "tab t = tab w \<and> (b \<longrightarrow> may_write c i)"
    show "wp (FindPlanned sv c p is) (\<lambda>r t. tab t = tab w \<and> (\<forall>i. r = Some i \<longrightarrow> may_write c i)) t"
      using Cons.IH [of t] b by simp
  qed auto
qed simp

lemma AssignLoop_stays:
  assumes laws: "table_laws sv tab"
  shows "txn tab journal c w \<Longrightarrow> wp (AssignLoop sv ps c) (stays tab journal c) w"
proof (induction ps arbitrary: c w)
  case Nil
  then show ?case by (simp add: stays_refl)
next
  case (Cons p ps)
  show ?case unfolding AssignLoop.simps
  proof (rule wp_bindI [OF FindPlanned_allowed [OF laws]], rule wp_optionI)
    fix r t assume r: "tab t = tab w \<and> (\<forall>i. r = Some i \<longrightarrow> may_write c i)"
    then have inv: "txn tab journal c t" using txn_tab [of tab t w journal c] Cons.prems by simp
    then show "wp (State_Monad.return (EFI_COMPROMISED_DATA, c)) (stays tab journal c) t" by (simp add: stays_refl)
    fix i assume "r = Some i"
    then have mw: "may_write c i" using r by simp
    show "wp (OnSuccessWith (LegacyBootWritePriority sv c i (of_nat p) (if p = 0 then ''select-unique-selected disk'' else ''rank-remaining-entry''))
        (AssignLoop sv ps)) (stays tab journal c) t"
    proof (rule OnSuccessWith_stays [OF WritePriority_stays [OF laws inv mw]])
      fix c' u assume "txn tab journal c' u" and st: "static c' = static c"
      from Cons.IH [OF this(1)] show "wp (AssignLoop sv ps c') (stays tab journal c) u" by (simp add: stays_other [OF st])
    qed
  qed
qed

text \<open>A run of the plan that reports success leaves the plan in force.\<close>

definition applied :: "('w \<Rightarrow> BBS_TABLE list) \<Rightarrow> BBS_TABLE list \<Rightarrow> LEGACY_BOOT_BOOT_TARGET_CONTEXT \<Rightarrow>
    EFI_STATUS \<times> LEGACY_BOOT_BOOT_TARGET_CONTEXT \<Rightarrow> 'w \<Rightarrow> bool" where
  "applied tab journal c r t \<longleftrightarrow> stays tab journal c r t \<and> (\<not> EFI_ERROR (fst r) \<longrightarrow> plan_in_force c journal (tab t))"

lemma applied_error: "stays tab journal c r t \<Longrightarrow> EFI_ERROR (fst r) \<Longrightarrow> applied tab journal c r t"
  by (simp add: applied_def)

lemma applied_mono:
  "stays tab journal c' r t \<Longrightarrow> static c' = static c \<Longrightarrow> (\<not> EFI_ERROR (fst r) \<Longrightarrow> plan_in_force c journal (tab t)) \<Longrightarrow> applied tab journal c r t"
  by (simp add: applied_def stays_def)

lemma OnSuccessWith_applied:
  assumes "wp m (stays tab journal c) w"
    and "\<And>c' t. txn tab journal c' t \<Longrightarrow> static c' = static c \<Longrightarrow> wp (k c') (applied tab journal c) t"
  shows "wp (OnSuccessWith m k) (applied tab journal c) w"
  unfolding OnSuccessWith_def
proof (rule wp_bindI [OF assms(1)])
  fix r t assume r: "stays tab journal c r t"
  obtain status c' where p: "r = (status, c')" by (cases r)
  show "wp (case r of (status, c) \<Rightarrow> if EFI_ERROR status then State_Monad.return (status, c) else k c) (applied tab journal c) t"
    unfolding p prod.case by (intro wp_ifI wp_returnI assms(2)) (use r p in \<open>simp_all add: stays_def applied_def\<close>)
qed

lemma plan_in_force_static:
  assumes "static c' = static c"
  shows "plan_in_force c' journal live = plan_in_force c journal live"
  unfolding plan_in_force_def static_fields [OF assms] ..

lemma ApplyPlan_applied:
  assumes laws: "table_laws sv tab" and inv: "txn tab journal c w"
  shows "wp (ApplyPlan sv c) (applied tab journal c) w"
  unfolding ApplyPlan_def
proof (rule OnSuccessWith_applied [OF UnprioritizeLoop_stays [OF laws inv]], rule keeps_bindI [OF keeps_CountEligible [OF table_quiet [OF laws]]])
  fix c1 t1 n t2 assume inv1: "txn tab journal c1 t1" and st1: "static c1 = static c" and "tab t2 = tab t1"
  then have inv2: "txn tab journal c1 t2" using txn_tab [of tab t2 t1 journal c1] by simp
  have as: "wp (AssignLoop sv [0..<n] c1) (stays tab journal c) t2" using AssignLoop_stays [OF laws inv2] by (simp add: stays_other [OF st1])
  show "wp (OnSuccessWith (AssignLoop sv [0..<n] c1) (\<lambda>c.
         let c = c\<lparr>bt_PrioritiesApplied := True\<rparr>
         in OnSuccess (LegacyBootBootTargetValidateApplied sv (Some c)) c (do {
              _ \<leftarrow> bs_LogPrint sv ''BBS priority transaction passed'';
              OnSuccess (bs_LogFlush sv) c (State_Monad.return (EFI_SUCCESS, c))
            }))) (applied tab journal c) t2"
    unfolding Let_def
  proof (rule OnSuccessWith_applied [OF as])
    fix c2 t assume inv3: "txn tab journal c2 t" and st2: "static c2 = static c"
    let ?c = "c2\<lparr>bt_PrioritiesApplied := True\<rparr>"
    have st: "static ?c = static c" using st2 by simp
    have inv': "txn tab journal ?c t"
      using inv3 may_write_static [of ?c c2] by (simp add: txn_def)
    have c': "bt_BbsJournal ?c = Some journal" "bt_BbsCount ?c = length journal" and len: "length (tab t) = length journal"
      using inv' by (auto simp: txn_def)
    have same: "stays tab journal c (s, ?c) u" if "tab u = tab t" for s u
      using stays_refl [OF inv' that, of s] by (simp add: stays_other [OF st])
    show "wp (OnSuccess (LegacyBootBootTargetValidateApplied sv (Some ?c)) ?c (do {
              _ \<leftarrow> bs_LogPrint sv ''BBS priority transaction passed'';
              OnSuccess (bs_LogFlush sv) ?c (State_Monad.return (EFI_SUCCESS, ?c))
            })) (applied tab journal c) t"
      unfolding OnSuccess_def
    proof (rule wp_bindI [OF ValidateApplied_passed [OF laws c' len]], rule wp_ifI)
      fix s u assume "tab u = tab t \<and> (\<not> EFI_ERROR s \<longrightarrow> plan_in_force ?c journal (tab t))" "EFI_ERROR s"
      then show "wp (State_Monad.return (s, ?c)) (applied tab journal c) u" by (intro wp_returnI applied_error same) simp_all
    next
      fix s u assume "tab u = tab t \<and> (\<not> EFI_ERROR s \<longrightarrow> plan_in_force ?c journal (tab t))" "\<not> EFI_ERROR s"
      then have u: "tab u = tab t" "plan_in_force c journal (tab t)" by (simp_all add: plan_in_force_static [OF st])
      show "wp (do {
              _ \<leftarrow> bs_LogPrint sv ''BBS priority transaction passed'';
              status \<leftarrow> bs_LogFlush sv;
              if EFI_ERROR status then State_Monad.return (status, ?c) else State_Monad.return (EFI_SUCCESS, ?c)
            }) (applied tab journal c) u"
        by (intro keeps_bindI [OF keeps_services(2) [OF table_quiet [OF laws]]] keeps_bindI [OF keeps_services(3) [OF table_quiet [OF laws]]] wp_ifI wp_returnI)
          (use u same in \<open>simp_all add: applied_def\<close>)
    qed
  qed
qed

text \<open>The error path ends in a rollback whenever something was written.\<close>

definition apply_outcome :: "bool \<Rightarrow> ('w \<Rightarrow> BBS_TABLE list) \<Rightarrow> BBS_TABLE list \<Rightarrow> LEGACY_BOOT_BOOT_TARGET_CONTEXT \<Rightarrow>
    EFI_STATUS \<times> LEGACY_BOOT_BOOT_TARGET_CONTEXT \<Rightarrow> 'w \<Rightarrow> bool" where
  "apply_outcome ok tab journal c r t \<longleftrightarrow> stays tab journal c r t \<and>
     (if EFI_ERROR (fst r) then ok \<longrightarrow> tab t = journal else plan_in_force c journal (tab t))"

lemma ApplyFailed_outcome:
  assumes laws: "table_laws sv tab" and inv: "txn tab journal d w" and st: "static d = static c" and err: "EFI_ERROR status"
    and jc: "bt_JournalComplete d" and ok: "ok \<Longrightarrow> range_valid sv d"
  shows "wp (ApplyFailed sv status d) (apply_outcome ok tab journal c) w"
  unfolding ApplyFailed_def
proof (rule keeps_bindI [OF keeps_log(1) [OF table_quiet [OF laws]]], rule wp_ifI)
  fix s t assume t: "tab t = tab w"
  have inv': "txn tab journal d t" using txn_tab [of tab t w journal d] t inv by simp
  have rollback: "wp (LegacyBootRollbackInternal sv d) (rolled_back ok tab journal d) t"
    by (rule RollbackInternal_restores [OF laws inv' jc ok])
  {
    assume "\<not> (bt_PriorityTransactionDirty d \<or> bt_PriorityWrites d \<noteq> [])"
    then have "tab t = journal" using txn_clean [OF inv'] by simp
    then show "wp (State_Monad.return (status, d)) (apply_outcome ok tab journal c) t"
      using err inv' st by (simp add: apply_outcome_def stays_def)
  }
  show "wp (do {
       (rollbackStatus, c) \<leftarrow> LegacyBootRollbackInternal sv d;
       if EFI_ERROR rollbackStatus then do {
         status \<leftarrow> LogFailure sv ''Emergency BBS rollback also failed'' True rollbackStatus;
         State_Monad.return (status, c)
       } else State_Monad.return (status, c) }) (apply_outcome ok tab journal c) t"
  proof (rule wp_bindI [OF rollback], rule wp_prodI, rule wp_ifI)
    fix r u rs c' assume r: "rolled_back ok tab journal d r u" "r = (rs, c')" and e: "EFI_ERROR rs"
    have fin: "apply_outcome ok tab journal c (rs, c') x" if "tab x = tab u" for x
      using r e st that txn_tab [of tab x u journal c'] by (simp add: apply_outcome_def rolled_back_def stays_def)
    show "wp (do { status \<leftarrow> LogFailure sv ''Emergency BBS rollback also failed'' True rs; State_Monad.return (status, c') })
        (apply_outcome ok tab journal c) u"
      unfolding wp_bind by (intro wp_LogFailure [OF laws] wp_returnI fin)
  next
    fix r u rs c' assume "rolled_back ok tab journal d r u" "r = (rs, c')"
    then show "wp (State_Monad.return (status, c')) (apply_outcome ok tab journal c) u"
      using err st by (simp add: apply_outcome_def rolled_back_def stays_def)
  qed
qed


lemma range_valid_static:
  assumes "static c' = static c"
  shows "range_valid sv c' = range_valid sv c"
  unfolding range_valid_def LegacyBootValidateFirmwareBbsRange_def option.case static_fields [OF assms] ..

lemma PriorityApply_outcome:
  assumes laws: "table_laws sv tab" and inv: "txn tab journal c w" and clean: "\<not> bt_PriorityTransactionDirty c"
    and ok: "ok \<Longrightarrow> range_valid sv c"
  shows "wp (LegacyBootBootPriorityApply sv c) (apply_outcome ok tab journal c) w"
proof -
  have start: "tab w = journal" by (rule txn_clean [OF inv clean])
  have same: "apply_outcome ok tab journal c (s, d) t" if "EFI_ERROR s" "tab t = tab w" "txn tab journal d t" "static d = static c" for s t d
    using that start by (simp add: apply_outcome_def stays_def)
  let ?c = "c\<lparr>bt_PriorityTransactionAttempted := True\<rparr>"
  have inv1: "txn tab journal ?c t" if "tab t = tab w" for t
    using inv may_write_static [of ?c c] that by (simp add: txn_def)
  have keepc: "txn tab journal c t" if "tab t = tab w" for t using txn_tab [of tab t w journal c] that inv by simp
  have run: "wp (do {
       (status, c) \<leftarrow> ApplyPlan sv ?c;
       if EFI_ERROR status then ApplyFailed sv status c else State_Monad.return (status, c) }) (apply_outcome ok tab journal c) t"
    if t: "tab t = tab w" and jc: "bt_JournalComplete c" for t
  proof (rule wp_bindI [OF ApplyPlan_applied [OF laws inv1 [OF t]]], rule wp_prodI, rule wp_ifI)
    fix r u status d assume r: "applied tab journal ?c r u" "r = (status, d)"
    then have d: "txn tab journal d u" "static d = static c" by (simp_all add: applied_def stays_def)
    {
      assume "EFI_ERROR status"
      then show "wp (ApplyFailed sv status d) (apply_outcome ok tab journal c) u"
        by (rule ApplyFailed_outcome [OF laws d])
          (use jc ok static_fields(7) [OF d(2)] range_valid_static [OF d(2), of sv] in simp_all)
    }
    assume "\<not> EFI_ERROR status"
    then show "wp (State_Monad.return (status, d)) (apply_outcome ok tab journal c) u"
      using r d plan_in_force_static [of ?c c] by (simp add: apply_outcome_def applied_def stays_def)
  qed
  show ?thesis
    unfolding LegacyBootBootPriorityApply_def Let_def OnSuccess_def
  proof (intro wp_ifI keeps_bindI [OF keeps_Original [OF table_quiet [OF laws]]] keeps_bindI [OF keeps_services(2) [OF table_quiet [OF laws]]]
      keeps_bindI [OF keeps_services(3) [OF table_quiet [OF laws]]] keeps_bindI [OF keeps_OrderSnapshot [OF table_quiet [OF laws]]] run wp_returnI)
    show "apply_outcome ok tab journal c (EFI_INVALID_PARAMETER, c) w" "apply_outcome ok tab journal c (EFI_ALREADY_STARTED, c) w"
      using inv by (simp_all add: same)
  qed (auto intro!: same inv1)
qed

text \<open>
  C3. The priority transaction is all or nothing: on a machine whose table behaves like memory, started with a journaled
  table and nothing written, \<open>LegacyBootBootPriorityApply\<close> either succeeds and the live table is then
  the journal with exactly the planned priorities, the selected row being the only one at priority 0; or it fails
  and, if the memory map lets the range be validated, the live table is byte for byte the journal again, even when
  the log fails during the rollback. In both cases the invariant of the transaction holds, so no protected
  row and no field but \<open>BootPriority\<close> has changed and every write is recorded for a later rollback.
\<close>

theorem PriorityApply_all_or_nothing:
  assumes "table_laws sv tab" and "txn tab journal c w" and "\<not> bt_PriorityTransactionDirty c" and "range_valid sv c"
    and "run_state (LegacyBootBootPriorityApply sv c) w = ((status, c'), w')"
  shows "txn tab journal c' w' \<and> (if EFI_ERROR status then tab w' = journal else plan_in_force c journal (tab w'))"
  using wp_run [OF PriorityApply_outcome [OF assms(1-4)] assms(5)] by (simp add: apply_outcome_def stays_def)

text \<open>
  C4. A rollback that reports success restored everything: from any state in which the transaction's invariant holds,
  when \<open>LegacyBootBootPriorityRollback\<close> returns without an error then every byte of the live table is
  the journaled one, the context is clean, and \<open>LegacyBootBootTargetRelease\<close> is allowed again.
\<close>

theorem PriorityRollback_restores:
  assumes "table_laws sv tab" and "txn tab journal c w"
    and "run_state (LegacyBootBootPriorityRollback sv c) w = ((status, c'), w')" and "\<not> EFI_ERROR status"
  shows "tab w' = journal \<and> \<not> bt_PriorityTransactionDirty c' \<and> bt_PriorityWrites c' = [] \<and>
    fst (LegacyBootBootTargetRelease (Some c')) = EFI_SUCCESS"
proof -
  have inv: "txn tab journal c' w' \<and> \<not> bt_PriorityTransactionDirty c'"
  proof (cases "bt_Signature c \<noteq> LEGACY_BOOT_BOOT_TARGET_SIGNATURE \<or> \<not> bt_JournalComplete c")
    case True
    then show ?thesis using assms(3,4) by (auto simp: LegacyBootBootPriorityRollback_def)
  next
    case go: False
    show ?thesis
    proof (cases "\<not> bt_PriorityTransactionDirty c \<and> bt_PriorityWrites c = []")
      case True
      have "tab (snd (run_state (LegacyBootBootTargetValidateOriginal sv (Some c)) w)) = tab w"
        using keeps_Original [OF table_quiet [OF assms(1)]] unfolding keeps_def by blast
      then have "c' = c" "tab w' = tab w"
        using assms(3) unfolding LegacyBootBootPriorityRollback_def if_not_P [OF go] if_P [OF True] by (auto split: prod.splits)
      then show ?thesis using True assms(2) txn_tab [of tab w' w journal c] by simp
    next
      case False
      have r: "run_state (LegacyBootRollbackInternal sv c) w = ((status, c'), w')"
        using assms(3) unfolding LegacyBootBootPriorityRollback_def if_not_P [OF go] if_not_P [OF False] .
      have "bt_JournalComplete c" using go by simp
      then have "wp (LegacyBootRollbackInternal sv c) (rolled_back False tab journal c) w"
        by (intro RollbackInternal_restores assms(1,2)) simp_all
      then have "rolled_back False tab journal c (status, c') w'" using r by (rule wp_run)
      then show ?thesis using assms(4) by (simp add: rolled_back_def stays_def)
    qed
  qed
  then have inv': "txn tab journal c' w'" and clean: "\<not> bt_PriorityTransactionDirty c'" by blast+
  have "bt_PriorityWrites c' = []" using inv' clean unfolding txn_def by blast
  then show ?thesis using txn_clean [OF inv' clean] clean by (simp add: LegacyBootBootTargetRelease_def)
qed

text \<open>
  The rollback needs no log: with a validated range, \<open>LegacyBootRollbackInternal\<close> leaves the live table equal to the journal
  whatever status the log calls and the verifications return.
\<close>

theorem RollbackInternal_without_log:
  assumes "table_laws sv tab" and "txn tab journal c w" and "bt_JournalComplete c" and "range_valid sv c"
    and "run_state (LegacyBootRollbackInternal sv c) w = ((status, c'), w')"
  shows "tab w' = journal \<and> txn tab journal c' w'"
  using wp_run [OF RollbackInternal_restores [OF assms(1-4)] assms(5)] by (simp add: rolled_back_def stays_def)

text \<open>
  C24. One write at a time: \<open>LegacyBootWritePriority\<close> on a row the policy allows keeps the invariant of the transaction on every
  path, so between any two writes the table differs from the journal only in priorities of allowed rows, and the
  recorded history undoes it.
\<close>

theorem WritePriority_invariant:
  assumes "table_laws sv tab" and "txn tab journal c w" and "may_write c i"
    and "run_state (LegacyBootWritePriority sv c i p phase) w = ((status, c'), w')"
  shows "txn tab journal c' w' \<and> static c' = static c \<and>
    (\<forall>k<length journal. \<not> may_write c k \<longrightarrow> tab w' ! k = journal ! k)"
proof -
  have r: "stays tab journal c (status, c') w'" by (rule wp_run [OF WritePriority_stays [OF assms(1-3)] assms(4)])
  then have inv: "txn tab journal c' w'" and st: "static c' = static c" by (simp_all add: stays_def)
  show ?thesis using inv st txn_protected [OF inv] may_write_static [OF st] by simp
qed

end
