(* ===== verification/Boot_Run.thy ===== *)
theory Boot_Run
  imports Ram_Boot Bbs_Restore
begin

text \<open>
  The machine in memory satisfies the laws of the live table, and the witnesses of the transaction's properties run on it: a
  table of one row whose priority has been changed from 5 to 0.
\<close>

lemma machine_laws: "table_laws ram_boot_services rb_Table"
  by (auto simp: table_laws_def quiet_def keeps_def ram_boot_services_def ram_memory_def split: option.splits)

lemma flat_writable:
  assumes "n \<noteq> 0" and "a + n \<le> 0x100000"
  shows "MemoryMapRangeIsWritable (Some flat_map) a n"
proof -
  have "byte_ok True [flat_descriptor] x" if "x < 0x100000" for x
    using that by (simp add: byte_ok_def covers_def flat_descriptor_def desc_bytes_def EFI_PAGE_SIZE_def MayAccess_def)
  moreover have "snapshot_wf flat_map" "desc_wf flat_descriptor"
    by (simp_all add: snapshot_wf_def flat_map_def ncv_defs desc_wf_def flat_descriptor_def desc_bytes_def MAX_UINTN_def)
  ultimately show ?thesis
    using assms unfolding MemoryMapRangeIsWritable_def
    by (subst range_accessible_iff) (auto simp: flat_map_def snapshot_descriptors_def MAX_UINTN_def)
qed

lemma ram_map [simp]: "run_state (CaptureMap ram_boot_services) w = (Inr flat_map, w)"
  using ram_captured by (simp add: CaptureMap_def ram_boot_services_def)

lemma ram_range:
  assumes "0 < bt_FirmwareBbsTable c" "0 < bt_BbsTableBytes c" "bt_FirmwareBbsTable c + bt_BbsTableBytes c \<le> 0x100000"
  shows "run_state (LegacyBootValidateFirmwareBbsRange ram_boot_services (Some c) True) w = (EFI_SUCCESS, w)"
  using assms by (simp add: LegacyBootValidateFirmwareBbsRange_def flat_writable)

section \<open>One changed row\<close>

definition run_row :: BBS_TABLE where
  "run_row = sample_row 5 2 0x500"

definition absent_strings :: LEGACY_BOOT_BBS_STRING_SNAPSHOT where
  "absent_strings = \<lparr>ss_ManufacturerReadResult = LegacyBootFarStringAbsent, ss_DescriptionReadResult = LegacyBootFarStringAbsent,
     ss_Manufacturer = [], ss_Description = []\<rparr>"

definition journal_context :: LEGACY_BOOT_BOOT_TARGET_CONTEXT where
  "journal_context = zero_context\<lparr>bt_Signature := LEGACY_BOOT_BOOT_TARGET_SIGNATURE, bt_DiscoveryComplete := True, bt_JournalComplete := True,
     bt_BbsCount := 1, bt_FirmwareBbsTable := 0x80000, bt_BbsTableBytes := 69, bt_BbsJournal := Some [run_row],
     bt_BbsJournalStrings := Some [absent_strings], bt_BbsJournalStringsCrc32 := StringsCrc32 [absent_strings],
     bt_BbsJournalCrc32 := TableCrc32 [run_row], bt_PlannedPriorities := Some [0], bt_ExpectedPriorities := Some [5],
     bt_VerificationScratch := True\<rparr>"

definition dirty_context :: LEGACY_BOOT_BOOT_TARGET_CONTEXT where
  "dirty_context = journal_context\<lparr>bt_ExpectedPriorities := Some [0], bt_PriorityTransactionDirty := True,
     bt_PriorityWrites := [\<lparr>wr_Index = 0, wr_OldPriority = 5, wr_RequestedPriority = 0\<rparr>]\<rparr>"

definition run_world :: "NCV_U16 \<Rightarrow> ram_boot" where
  "run_world p = \<lparr>rb_Table = [run_row\<lparr>b_BootPriority := p\<rparr>], rb_Variables = Map.empty, rb_Bytes = (\<lambda>_. 0)\<rparr>"

lemma run_eligible: "LegacyBootBbsIndexIsTransactionEligible ev (Some dirty_context) 0" "LegacyBootBbsIndexIsTransactionEligible ev (Some journal_context) 0"
  by (simp_all add: LegacyBootBbsIndexIsTransactionEligible_def dirty_context_def journal_context_def zero_context_def run_row_def sample_row_def
      LegacyBootSelectedDiskCanAttempt_def BBS_HARDDISK_def LegacyBootBbsStatusFlagsRaw_def)

lemma journal_txn: "txn rb_Table [run_row] journal_context (run_world 5)"
  by (simp add: txn_def journal_context_def zero_context_def run_world_def with_priorities_def oldest_def run_row_def sample_row_def)

lemma dirty_txn: "txn rb_Table [run_row] dirty_context (run_world 0)"
proof -
  have "may_write dirty_context 0" using run_eligible by (auto simp: may_write_def)
  moreover have "txn rb_Table [run_row] dirty_context (run_world 0) \<longleftrightarrow> may_write dirty_context 0"
    by (simp add: txn_def) (simp add: dirty_context_def journal_context_def run_world_def with_priorities_def oldest_def run_row_def sample_row_def)
  ultimately show ?thesis by simp
qed

lemma run_range:
  "range_valid ram_boot_services journal_context" "range_valid ram_boot_services dirty_context"
  by (simp_all add: range_valid_def wp_def ram_range journal_context_def dirty_context_def)

theorem PriorityApply_all_or_nothing_witness:
  "\<exists>status c' w'. run_state (LegacyBootBootPriorityApply ram_boot_services journal_context) (run_world 5) = ((status, c'), w') \<and>
     (if EFI_ERROR status then rb_Table w' = [run_row] else plan_in_force journal_context [run_row] (rb_Table w'))"
proof -
  obtain status c' w' where r: "run_state (LegacyBootBootPriorityApply ram_boot_services journal_context) (run_world 5) = ((status, c'), w')"
    by (metis prod.exhaust)
  have "\<not> bt_PriorityTransactionDirty journal_context" by (simp add: journal_context_def zero_context_def)
  from PriorityApply_all_or_nothing [OF machine_laws journal_txn this run_range(1) r] r show ?thesis by blast
qed

theorem RollbackInternal_without_log_witness:
  "rb_Table (snd (run_state (LegacyBootRollbackInternal ram_boot_services dirty_context) (run_world 0))) = [run_row]"
proof -
  obtain status c' w' where r: "run_state (LegacyBootRollbackInternal ram_boot_services dirty_context) (run_world 0) = ((status, c'), w')"
    by (metis prod.exhaust)
  have "bt_JournalComplete dirty_context" by (simp add: dirty_context_def journal_context_def)
  from RollbackInternal_without_log [OF machine_laws dirty_txn this run_range(2) r] r show ?thesis by simp
qed

theorem WritePriority_invariant_witness:
  "\<exists>status c' w'. run_state (LegacyBootWritePriority ram_boot_services journal_context 0 0 ''phase'') (run_world 5) = ((status, c'), w') \<and>
     txn rb_Table [run_row] c' w'"
proof -
  obtain status c' w' where r: "run_state (LegacyBootWritePriority ram_boot_services journal_context 0 0 ''phase'') (run_world 5) = ((status, c'), w')"
    by (metis prod.exhaust)
  have "may_write journal_context 0" using run_eligible by (auto simp: may_write_def)
  from WritePriority_invariant [OF machine_laws journal_txn this r] r show ?thesis by blast
qed

section \<open>A complete rollback\<close>

lemma machine_read [simp]: "run_state (bs_ReadEntry ram_boot_services i) w = (rb_Table w ! i, w)"
  by (simp add: ram_boot_services_def)

lemma ram_poke [simp]:
  "run_state (bs_PokePriority ram_boot_services i p) w = ((), w\<lparr>rb_Table := (rb_Table w)[i := (rb_Table w ! i)\<lparr>b_BootPriority := p\<rparr>]\<rparr>)"
  by (simp add: ram_boot_services_def)

lemma run_strings:
  assumes "b_MfgStringSegment e = 0" "b_MfgStringOffset e = 0" "b_DescStringSegment e = 0" "b_DescStringOffset e = 0"
  shows "ReadStrings ram_boot_services m e = State_Monad.return absent_strings"
  using assms by (intro state.expand ext)
    (simp add: ReadStrings_def LegacyBootCopyManufacturer_def no_evidence_def LegacyStorageRomMatch_def
      LegacyBootCopyFarAsciiString_def absent_strings_def)

lemma run_verify_strings:
  assumes "bt_BbsJournalStrings c = Some [absent_strings]" "bt_BbsJournalStringsCrc32 c = StringsCrc32 [absent_strings]" "bt_BbsCount c = 1"
    "bt_FirmwareBbsTable c = 0x80000" "bt_BbsTableBytes c = 69"
    and "b_MfgStringSegment (rb_Table w ! 0) = 0" "b_MfgStringOffset (rb_Table w ! 0) = 0" "b_DescStringSegment (rb_Table w ! 0) = 0"
    "b_DescStringOffset (rb_Table w ! 0) = 0"
  shows "run_state (LegacyBootVerifyLiveBbsStrings ram_boot_services (Some c) label flush) w = (EFI_SUCCESS, w)"
proof -
  have crc: "NOT (LegacyBootCrc32Update MAX_UINT32 (SnapshotBytes absent_strings)) = StringsCrc32 [absent_strings]"
    by (simp add: StringsCrc32_def LegacyBootCrc32_eq)
  show ?thesis
    using assms by (simp add: LegacyBootVerifyLiveBbsStrings_def flat_readable run_strings SameStrings_def crc FlushResult_def Let_def)
qed

lemma run_verify:
  assumes "bt_BbsJournal c = Some [run_row]" "bt_BbsJournalStrings c = Some [absent_strings]"
    "bt_BbsJournalStringsCrc32 c = StringsCrc32 [absent_strings]" "bt_BbsCount c = 1"
    "bt_FirmwareBbsTable c = 0x80000" "bt_BbsTableBytes c = 69" "bt_VerificationScratch c"
    and "rb_Table w = [run_row\<lparr>b_BootPriority := p\<rparr>]"
  shows "run_state (LegacyBootVerifyLiveAgainstPriorities ram_boot_services (Some c) (Some [p]) label True flush) w = (EFI_SUCCESS, w)"
proof -
  have s: "run_state (LegacyBootVerifyLiveBbsStrings ram_boot_services (Some c) label False) w = (EFI_SUCCESS, w)"
    by (rule run_verify_strings) (use assms in \<open>simp_all add: run_row_def sample_row_def zero_row_def\<close>)
  have r: "run_state (LegacyBootValidateFirmwareBbsRange ram_boot_services (Some c) True) w = (EFI_SUCCESS, w)"
    by (rule ram_range) (use assms in simp_all)
  show ?thesis
    using assms by (simp add: LegacyBootVerifyLiveAgainstPriorities_def s r ReadTable_def RowsAsExpected_def SameIdentity_update SameEntry_def
        LogPassed_def FlushResult_def)
qed

theorem PriorityRollback_restores_witness:
  "\<exists>c' w'. run_state (LegacyBootBootPriorityRollback ram_boot_services dirty_context) (run_world 0) = ((EFI_SUCCESS, c'), w') \<and>
     rb_Table w' = [run_row] \<and> fst (LegacyBootBootTargetRelease (Some c')) = EFI_SUCCESS"
proof -
  let ?c = "dirty_context\<lparr>bt_ExpectedPriorities := Some [5]\<rparr>" and ?w = "run_world 5"
  have fields: "bt_BbsJournal ?c = Some [run_row]" "bt_BbsJournalStrings ?c = Some [absent_strings]"
    "bt_BbsJournalStringsCrc32 ?c = StringsCrc32 [absent_strings]" "bt_BbsCount ?c = 1"
    "bt_FirmwareBbsTable ?c = 0x80000" "bt_BbsTableBytes ?c = 69" "bt_VerificationScratch ?c"
    by (simp_all add: dirty_context_def journal_context_def)
  have v: "run_state (LegacyBootVerifyLiveAgainstPriorities ram_boot_services (Some ?c) (Some [5]) label True flush) ?w = (EFI_SUCCESS, ?w)" for label flush
    by (rule run_verify [OF fields]) (simp add: run_world_def)
  have rec: "run_state (RollbackRecord ram_boot_services \<lparr>wr_Index = 0, wr_OldPriority = 5, wr_RequestedPriority = 0\<rparr> (EFI_SUCCESS, dirty_context)) (run_world 0) =
      ((EFI_SUCCESS, ?c), ?w)"
  proof -
    have w: "(run_world 0)\<lparr>rb_Table := [run_row\<lparr>b_BootPriority := 5\<rparr>]\<rparr> = ?w" by (simp add: run_world_def)
    have j: "bt_BbsJournal dirty_context = Some [run_row]" "bt_ExpectedPriorities dirty_context = Some [0]" "rb_Table (run_world p) = [run_row\<lparr>b_BootPriority := p\<rparr>]" for p
      by (simp_all add: dirty_context_def journal_context_def run_world_def)
    show ?thesis by (simp add: RollbackRecord_def j SameIdentity_update SameIdentity_iff w v KeepError_def Let_def)
  qed
  have row: "run_row\<lparr>b_BootPriority := 5\<rparr> = run_row" by (simp add: run_row_def sample_row_def)
  have d: "bt_JournalComplete dirty_context" "bt_PriorityWrites dirty_context = [\<lparr>wr_Index = 0, wr_OldPriority = 5, wr_RequestedPriority = 0\<rparr>]"
    "bt_BbsJournal dirty_context = Some [run_row]" "bt_BbsJournalCrc32 dirty_context = TableCrc32 [run_row]" "bt_BbsCount dirty_context = 1"
    "rb_Table ?w = [run_row]" "bt_Signature dirty_context = LEGACY_BOOT_BOOT_TARGET_SIGNATURE"
    by (simp_all add: dirty_context_def journal_context_def run_world_def row)
  have range: "run_state (LegacyBootValidateFirmwareBbsRange ram_boot_services (Some dirty_context) True) w = (EFI_SUCCESS, w)" for w
    by (rule ram_range) (simp_all add: dirty_context_def journal_context_def)
  have "\<exists>c'. run_state (LegacyBootBootPriorityRollback ram_boot_services dirty_context) (run_world 0) = ((EFI_SUCCESS, c'), ?w)"
    by (simp add: LegacyBootBootPriorityRollback_def LegacyBootRollbackInternal_def d range rec v KeepError_def ReadTable_def SameTable_def Let_def)
  then obtain c' where r: "run_state (LegacyBootBootPriorityRollback ram_boot_services dirty_context) (run_world 0) = ((EFI_SUCCESS, c'), ?w)" ..
  from PriorityRollback_restores [OF machine_laws dirty_txn r] r show ?thesis by auto
qed

end
