(* ===== verification/Bbs_Ready.thy ===== *)
theory Bbs_Ready
  imports Bbs_Restore
begin

text \<open>
  A durable journal makes a transaction possible: what \<open>LegacyBootBootTargetJournalAndValidate\<close> leaves on success is the starting
  state that the properties of the transaction assume.
\<close>

section \<open>What the steps of the journal leave alone\<close>

text \<open>The fields that the transaction starts from.\<close>

definition txn_fields :: "LEGACY_BOOT_BOOT_TARGET_CONTEXT \<Rightarrow>
    BBS_TABLE list option \<times> nat \<times> NCV_U16 list option \<times> LEGACY_BOOT_BBS_PRIORITY_WRITE list \<times> bool" where
  "txn_fields c = (bt_BbsJournal c, bt_BbsCount c, bt_ExpectedPriorities c, bt_PriorityWrites c, bt_PriorityTransactionDirty c)"

lemma keeps_DataLoop: "quiet sv tab \<Longrightarrow> keeps tab (DataLoop sv journal n t ws st)"
  by (induction ws arbitrary: st) (auto intro!: keeps_rules keeps_services)

lemma keeps_OrderLoop:
  assumes laws: "quiet sv tab"
  shows "keeps tab (OrderLoop sv journal n variable offset st)"
proof (induction "length variable - offset" arbitrary: offset st rule: less_induct)
  case less
  show ?case
  proof (cases "offset < length variable")
    case True
    then have "keeps tab (OrderLoop sv journal n variable (offset + (1 + len)) st)" for len st
      by (intro less) simp
    then show ?thesis
      by (subst OrderLoop.simps) (intro keeps_rules keeps_services [OF laws] keeps_DataLoop [OF laws])
  next
    case False
    then show ?thesis by (subst OrderLoop.simps) (simp add: keeps_rules)
  qed
qed

lemma keeps_FallBack: "quiet sv tab \<Longrightarrow> keeps tab (FallBack sv c)"
  unfolding FallBack_def LegacyBootLogLegacyDevOrderFallback_def by (intro keeps_rules keeps_services) assumption+

lemma keeps_Capture: "quiet sv tab \<Longrightarrow> keeps tab (LegacyBootCaptureLegacyDevOrder sv c)"
  unfolding LegacyBootCaptureLegacyDevOrder_def ParseOrder_def
  by (intro keeps_rules keeps_services keeps_FallBack keeps_OrderLoop keeps_ReadVariable) assumption+

lemma FallBack_fields: "wp (FallBack sv c) (\<lambda>r _. txn_fields (snd r) = txn_fields c) w"
  unfolding FallBack_def by (intro wp_callI wp_returnI) (simp add: txn_fields_def unusable_order_def)

lemma Capture_fields: "wp (LegacyBootCaptureLegacyDevOrder sv c) (\<lambda>r _. txn_fields (snd r) = txn_fields c) w"
  unfolding LegacyBootCaptureLegacyDevOrder_def ParseOrder_def Let_def
  by (intro wp_optionI wp_ifI wp_returnI wp_sumI wp_prodI wp_callI FallBack_fields) (simp_all add: txn_fields_def)

lemma keeps_LogAll: "quiet sv tab \<Longrightarrow> keeps tab (LogAll sv ts)"
  by (induction ts) (auto intro!: keeps_rules keeps_services)

lemma keeps_JournalLoop: "quiet sv tab \<Longrightarrow> keeps tab (JournalLoop sv m journal is strings)"
  by (induction "is" arbitrary: strings)
    (auto simp: LegacyBootLogBbsEntry_def Let_def intro!: keeps_rules keeps_services keeps_ReadStrings keeps_LogAll)

lemma keeps_JournalStrings: "quiet sv tab \<Longrightarrow> keeps tab (JournalStrings sv c)"
  unfolding JournalStrings_def OnSuccess_def
  by (intro keeps_rules keeps_services keeps_log keeps_JournalLoop) assumption+

lemma JournalStrings_fields: "wp (JournalStrings sv c) (\<lambda>r _. txn_fields (snd r) = txn_fields c) w"
  unfolding JournalStrings_def OnSuccess_def Let_def
  by (intro wp_ifI wp_returnI wp_sumI wp_prodI wp_callI) (simp_all add: txn_fields_def)

lemma keeps_ReportVga: "quiet sv tab \<Longrightarrow> keeps tab (LegacyStorageRomReportVga sv)"
  unfolding LegacyStorageRomReportVga_def by (intro keeps_rules keeps_services) assumption+

lemma keeps_Reserve: "quiet sv tab \<Longrightarrow> keeps tab (LegacyBootReserveJournal sv c)"
  unfolding LegacyBootReserveJournal_def by (intro keeps_rules keeps_services) assumption+

lemma Reserve_fields:
  "wp (LegacyBootReserveJournal sv c) (\<lambda>r _. bt_BbsCount (snd r) = bt_BbsCount c \<and> bt_PriorityWrites (snd r) = bt_PriorityWrites c \<and>
     bt_PriorityTransactionDirty (snd r) = bt_PriorityTransactionDirty c) w"
  unfolding LegacyBootReserveJournal_def by (intro wp_ifI wp_returnI wp_callI) simp_all

text \<open>A successful plan sets the expected vector to the priorities of the journal.\<close>

lemma BuildPriorityPlan_success:
  assumes "LegacyBootBuildPriorityPlan ev (Some c) = (status, r)" and "\<not> EFI_ERROR status"
  shows "\<exists>c' journal. r = Some c' \<and> bt_BbsJournal c = Some journal \<and>
    txn_fields c' = (Some journal, bt_BbsCount c, Some (map (\<lambda>i. b_BootPriority (journal ! i)) [0..<bt_BbsCount c]), bt_PriorityWrites c,
      bt_PriorityTransactionDirty c)"
  using assms by (auto simp: LegacyBootBuildPriorityPlan_def Let_def txn_fields_def split: option.splits if_splits prod.splits)

lemma BuildPlanStep_success:
  assumes laws: "table_laws sv tab"
  shows "wp (BuildPlanStep sv c) (\<lambda>r t. tab t = tab w \<and> (\<not> EFI_ERROR (fst r) \<longrightarrow> (\<exists>journal. bt_BbsJournal c = Some journal \<and>
    txn_fields (snd r) = (Some journal, bt_BbsCount c, Some (map (\<lambda>i. b_BootPriority (journal ! i)) [0..<bt_BbsCount c]),
      bt_PriorityWrites c, bt_PriorityTransactionDirty c)))) w"
  unfolding BuildPlanStep_def Let_def
proof (rule keeps_bindI [OF keeps_services(5) [OF table_quiet [OF laws]]], rule wp_prodI, rule wp_returnI)
  fix ev t status r assume t: "tab t = tab w" and r: "LegacyBootBuildPriorityPlan ev (Some c) = (status, r)"
  show "tab t = tab w \<and> (\<not> EFI_ERROR (fst (status, the r)) \<longrightarrow> (\<exists>journal. bt_BbsJournal c = Some journal \<and>
    txn_fields (snd (status, the r)) = (Some journal, bt_BbsCount c, Some (map (\<lambda>i. b_BootPriority (journal ! i)) [0..<bt_BbsCount c]),
      bt_PriorityWrites c, bt_PriorityTransactionDirty c)))"
    using t BuildPriorityPlan_success [OF r] by fastforce
qed


section \<open>The journal establishes the invariant\<close>

lemma OnSuccess_rule:
  assumes "keeps tab m" and "\<And>status t. EFI_ERROR status \<Longrightarrow> tab t = tab w \<Longrightarrow> Q (status, c) t" and "\<And>t. tab t = tab w \<Longrightarrow> wp k Q t"
  shows "wp (OnSuccess m c k) Q w"
  unfolding OnSuccess_def by (intro keeps_bindI [OF assms(1)] wp_ifI wp_returnI assms(2,3))

lemma OnSuccessWith_rule:
  assumes "wp m R w" and "\<And>status c t. EFI_ERROR status \<Longrightarrow> Q (status, c) t"
    and "\<And>status c t. R (status, c) t \<Longrightarrow> \<not> EFI_ERROR status \<Longrightarrow> wp (k c) Q t"
  shows "wp (OnSuccessWith m k) Q w"
  unfolding OnSuccessWith_def
  by (rule wp_bindI [OF assms(1)], rule wp_prodI) (intro wp_ifI wp_returnI assms(2,3); simp)

definition fresh_fields :: "BBS_TABLE list \<Rightarrow> LEGACY_BOOT_BOOT_TARGET_CONTEXT \<Rightarrow> bool" where
  "fresh_fields journal c \<longleftrightarrow> txn_fields c = (Some journal, length journal, Some (map b_BootPriority journal), [], False)"

definition journaled :: "('w \<Rightarrow> BBS_TABLE list) \<Rightarrow> BBS_TABLE list \<Rightarrow> EFI_STATUS \<times> LEGACY_BOOT_BOOT_TARGET_CONTEXT \<Rightarrow> 'w \<Rightarrow> bool" where
  "journaled tab journal r t \<longleftrightarrow> (\<not> EFI_ERROR (fst r) \<longrightarrow> fresh_fields journal (snd r) \<and> bt_JournalComplete (snd r) \<and> tab t = journal)"

lemma journaled_error: "EFI_ERROR (fst r) \<Longrightarrow> journaled tab journal r t"
  by (simp add: journaled_def)

lemma fresh_txn:
  assumes "fresh_fields journal c" and "tab t = journal"
  shows "txn tab journal c t"
  using assms with_priorities_same [of journal "map b_BootPriority journal"]
  by (auto simp: fresh_fields_def txn_fields_def txn_def oldest_def)

lemma map_nth_priorities: "map (\<lambda>i. b_BootPriority (journal ! i)) [0..<length journal] = map b_BootPriority journal"
  by (rule nth_equalityI) simp_all

lemma LogFailure_journaled:
  assumes laws: "table_laws sv tab" and "EFI_ERROR st"
  shows "wp (do { status \<leftarrow> LogFailure sv label flush st; State_Monad.return (status, c) }) (journaled tab journal) w"
  unfolding wp_bind by (rule wp_LogFailure [OF laws]) (simp add: journaled_def assms(2))

text \<open>The end of the routine: the rereads and the final verification.\<close>

lemma JournalFinish_journaled:
  assumes laws: "table_laws sv tab" and c: "fresh_fields journal c" and t: "tab w = journal"
  shows "wp (JournalFinish sv c) (journaled tab journal) w"
  unfolding JournalFinish_def
proof (intro OnSuccess_rule [OF keeps_OrderSnapshot [OF table_quiet [OF laws]]] OnSuccess_rule [OF keeps_VerifyStrings [OF table_quiet [OF laws]]]
    keeps_bindI [OF keeps_ReadTable [OF table_quiet [OF laws]]] wp_ifI LogFailure_journaled [OF laws] journaled_error; (simp; fail)?)
  fix t1 scratch t2 t3 assume "tab t1 = tab w" "tab t2 = tab t1" "tab t3 = tab t2"
  then have t3: "tab t3 = journal" using t by simp
  show "wp (do {
          let c = c\<lparr>bt_JournalComplete := True\<rparr>;
          status \<leftarrow> LegacyBootVerifyLiveAgainstPriorities sv (Some c) (bt_ExpectedPriorities c) ''Final original BBS journal reread'' True True;
          State_Monad.return (if EFI_ERROR status then (status, c\<lparr>bt_JournalComplete := False\<rparr>) else (EFI_SUCCESS, c))
        }) (journaled tab journal) t3"
    unfolding Let_def
    by (intro keeps_bindI [OF keeps_Verify [OF table_quiet [OF laws]]] wp_returnI)
      (use c t3 in \<open>simp add: journaled_def fresh_fields_def txn_fields_def\<close>)
qed

lemma keeps_and:
  assumes "keeps tab m" and "\<And>w. wp m Q w"
  shows "wp m (\<lambda>r t. Q r t \<and> tab t = tab w) w"
  by (rule wp_conj [OF assms(2) wp_keeps [OF assms(1)]])

lemma JournalOrder_fields:
  assumes laws: "table_laws sv tab"
  shows "wp (JournalOrder sv c) (\<lambda>r t. txn_fields (snd r) = txn_fields c \<and> tab t = tab w) w"
  unfolding JournalOrder_def
  by (intro wp_ifI keeps_bindI [OF keeps_OrderSnapshot [OF table_quiet [OF laws]]] wp_returnI keeps_and [OF keeps_Capture [OF table_quiet [OF laws]] Capture_fields]) simp

lemma JournalRows_journaled:
  assumes laws: "table_laws sv tab" and c: "bt_BbsCount c = length (tab w)" "bt_PriorityWrites c = []" "\<not> bt_PriorityTransactionDirty c"
  shows "wp (JournalRows sv c) (journaled tab (tab w)) w"
  unfolding JournalRows_def ReadTable_def Let_def
proof (rule wp_bindI [OF ReadRows_tab [OF laws]])
  show "\<forall>i\<in>set [0..<bt_BbsCount c]. i < length (tab w)" by (simp add: c(1))
  fix journal t assume "journal = map ((!) (tab w)) [0..<bt_BbsCount c] \<and> tab t = tab w"
  then have j: "journal = tab w" and t: "tab t = tab w" by (simp_all add: c(1) map_nth)
  let ?c = "c\<lparr>bt_BbsJournal := Some journal, bt_BbsJournalCrc32 := TableCrc32 journal,
       bt_BbsIdentityCrc32 := LegacyBootBbsIdentityCrc32 journal, bt_BbsPriorityCrc32 := LegacyBootBbsPriorityCrc32FromTable journal\<rparr>"
  have finish: "wp (OnSuccessWith (JournalStrings sv d) (JournalFinish sv)) (journaled tab (tab w)) u"
    if d: "fresh_fields (tab w) d" "tab u = tab w" for d u
  proof (rule OnSuccessWith_rule [OF keeps_and [OF keeps_JournalStrings [OF table_quiet [OF laws]] JournalStrings_fields]])
    fix s e x assume "txn_fields (snd (s, e)) = txn_fields d \<and> tab x = tab u"
    then show "wp (JournalFinish sv e) (journaled tab (tab w)) x"
      by (intro JournalFinish_journaled laws) (use d in \<open>simp_all add: fresh_fields_def\<close>)
  qed (simp add: journaled_error)
  show "wp (OnSuccessWith (JournalOrder sv ?c) (\<lambda>c. OnSuccessWith (BuildPlanStep sv c) (\<lambda>c.
     OnSuccessWith (JournalStrings sv c) (JournalFinish sv)))) (journaled tab (tab w)) t"
  proof (rule OnSuccessWith_rule [OF JournalOrder_fields [OF laws]])
    fix s and d :: LEGACY_BOOT_BOOT_TARGET_CONTEXT and u assume d: "txn_fields (snd (s, d)) = txn_fields ?c \<and> tab u = tab t"
    show "wp (OnSuccessWith (BuildPlanStep sv d) (\<lambda>c. OnSuccessWith (JournalStrings sv c) (JournalFinish sv))) (journaled tab (tab w)) u"
    proof (rule OnSuccessWith_rule [OF BuildPlanStep_success [OF laws]])
      fix s' e x assume e: "tab x = tab u \<and> (\<not> EFI_ERROR (fst (s', e)) \<longrightarrow> (\<exists>journal. bt_BbsJournal d = Some journal \<and>
        txn_fields (snd (s', e)) = (Some journal, bt_BbsCount d, Some (map (\<lambda>i. b_BootPriority (journal ! i)) [0..<bt_BbsCount d]),
          bt_PriorityWrites d, bt_PriorityTransactionDirty d)))" "\<not> EFI_ERROR s'"
      show "wp (OnSuccessWith (JournalStrings sv e) (JournalFinish sv)) (journaled tab (tab w)) x"
        by (rule finish) (use d e j t c in \<open>auto simp: fresh_fields_def txn_fields_def map_nth_priorities\<close>)
    qed (simp add: journaled_error)
  qed (simp add: journaled_error)
qed

lemma JournalAndValidate_journaled:
  assumes laws: "table_laws sv tab" and n: "length (tab w) = bt_BbsCount c"
    and clean: "bt_PriorityWrites c = []" "\<not> bt_PriorityTransactionDirty c"
  shows "wp (LegacyBootBootTargetJournalAndValidate sv (Some c))
    (\<lambda>r t. \<not> EFI_ERROR (fst r) \<longrightarrow> (\<exists>c'. snd r = Some c' \<and> fresh_fields (tab w) c' \<and> bt_JournalComplete c' \<and> tab t = tab w)) w"
  unfolding LegacyBootBootTargetJournalAndValidate_def option.case Let_def
proof (intro wp_ifI; (simp; fail)?)
  let ?c = "c\<lparr>bt_JournalAttempted := True\<rparr>"
  let ?body = "OnSuccess (LegacyBootBootTargetValidateOwnedCopies sv (Some ?c)) ?c (
      OnSuccess (LegacyStorageRomReportVga sv) ?c (do {
      status \<leftarrow> LegacyBootValidateFirmwareBbsRange sv (Some ?c) True;
      if EFI_ERROR status then do {
        status \<leftarrow> LogFailure sv ''Definitive BBS journal refused'' True status;
        State_Monad.return (status, ?c)
      } else do {
        live \<leftarrow> ReadTable sv (bt_BbsCount ?c);
        if \<not> SameTable (the (bt_BbsDiscoverySnapshot ?c)) live then do {
          status \<leftarrow> LogFailure sv ''Live BBS table differs'' True EFI_ABORTED;
          State_Monad.return (status, ?c)
        } else OnSuccessWith (LegacyBootReserveJournal sv ?c) (JournalRows sv)
      }}))"
  have "wp ?body (journaled tab (tab w)) w"
  proof (intro OnSuccess_rule [OF keeps_OwnedCopies [OF table_quiet [OF laws]]] OnSuccess_rule [OF keeps_ReportVga [OF table_quiet [OF laws]]] keeps_bindI [OF keeps_Range [OF table_quiet [OF laws]]] wp_ifI
      LogFailure_journaled [OF laws] keeps_bindI [OF keeps_ReadTable [OF table_quiet [OF laws]]] journaled_error; (simp; fail)?)
    fix t1 t2 t3 t s live assume "tab t1 = tab w" "tab t2 = tab t1" "tab t3 = tab t2" "tab t = tab t3"
    then have t: "tab t = tab w" by simp
    show "wp (OnSuccessWith (LegacyBootReserveJournal sv ?c) (JournalRows sv)) (journaled tab (tab w)) t"
    proof (rule OnSuccessWith_rule [OF keeps_and [OF keeps_Reserve [OF table_quiet [OF laws]] Reserve_fields]])
      fix s and d :: LEGACY_BOOT_BOOT_TARGET_CONTEXT and u assume d: "(bt_BbsCount (snd (s, d)) = bt_BbsCount ?c \<and> bt_PriorityWrites (snd (s, d)) = bt_PriorityWrites ?c \<and>
        bt_PriorityTransactionDirty (snd (s, d)) = bt_PriorityTransactionDirty ?c) \<and> tab u = tab t"
      then have u: "tab u = tab w" using t by simp
      have "wp (JournalRows sv d) (journaled tab (tab u)) u"
        by (rule JournalRows_journaled [OF laws]) (use d u n clean in simp_all)
      then show "wp (JournalRows sv d) (journaled tab (tab w)) u" by (simp add: u)
    qed (simp add: journaled_error)
  qed
  then show "wp (do { (status, c) \<leftarrow> ?body; State_Monad.return (status, Some c) })
      (\<lambda>r t. \<not> EFI_ERROR (fst r) \<longrightarrow> (\<exists>c'. snd r = Some c' \<and> fresh_fields (tab w) c' \<and> bt_JournalComplete c' \<and> tab t = tab w)) w"
    by (rule wp_bindI) (intro wp_prodI wp_returnI, simp add: journaled_def)
qed

text \<open>
  C6. A durable journal makes the transaction possible: when \<open>LegacyBootBootTargetJournalAndValidate\<close> returns without an error on
  a context that has written nothing, then the journal is the live table at that moment, the expected vector holds its
  priorities, the journal is marked complete, nothing has been written, and the invariant of the
  transaction holds for the journal.
\<close>

theorem JournalAndValidate_starts_transaction:
  assumes "table_laws sv tab" and "length (tab w) = bt_BbsCount c" and "bt_PriorityWrites c = []" and "\<not> bt_PriorityTransactionDirty c"
    and "run_state (LegacyBootBootTargetJournalAndValidate sv (Some c)) w = ((status, Some c'), w')" and "\<not> EFI_ERROR status"
  shows "bt_BbsJournal c' = Some (tab w') \<and> bt_ExpectedPriorities c' = Some (map b_BootPriority (tab w')) \<and> tab w' = tab w \<and>
    bt_JournalComplete c' \<and> \<not> bt_PriorityTransactionDirty c' \<and> txn tab (tab w') c' w'"
proof -
  have "fresh_fields (tab w) c' \<and> bt_JournalComplete c' \<and> tab w' = tab w"
    using wp_run [OF JournalAndValidate_journaled [OF assms(1-4)] assms(5)] assms(6) by simp
  moreover from this have "txn tab (tab w') c' w'" using fresh_txn by fastforce
  ultimately show ?thesis by (simp add: fresh_fields_def txn_fields_def)
qed

end
