(* ===== verification/Bbs_Discovery.thy ===== *)
theory Bbs_Discovery
  imports Bbs_Ready
begin

text \<open>
  The discovery of the boot target: the one \<open>GetBbsInfo\<close> call, the correlation of its rows with the configured
  controller and disk, the pairing with the boot option, and the first validation of the owned copies.
\<close>

section \<open>Services\<close>

text \<open>
  The CSM's query, whether a writable log file is open, and the recheck of the ROM guard, whose own state is part
  of the world. The query returns a status, the two counts and the two addresses; its pointer may be
  \<open>NULL\<close>. Rows are read from the table whose address the query returned.
\<close>

record 'w discovery_services =
  ds_Boot :: "'w boot_services"
  ds_GetBbsInfo :: "('w, EFI_STATUS \<times> nat \<times> nat \<times> nat \<times> nat) state option"
  ds_LogFileOpen :: "('w, bool) state"
  ds_RecheckAfterBbs :: "('w, EFI_STATUS) state"

definition MAX_IDE_CONTROLLER :: nat where [ncv_defs]: "MAX_IDE_CONTROLLER = 8"

text \<open>The packed \<open>HDD_INFO\<close>: 21 bytes of controller data and two identify blocks of 512 bytes.\<close>

definition sizeof_HDD_INFO :: nat where [ncv_defs]: "sizeof_HDD_INFO = 1045"

section \<open>Correlation with the live rows\<close>

definition IdentityMatch :: "nat \<Rightarrow> nat \<Rightarrow> nat \<Rightarrow> CHAR16 list option \<Rightarrow> BBS_TABLE \<Rightarrow> NCV_U8 list \<Rightarrow> bool" where
  "IdentityMatch bus device function' target e description \<longleftrightarrow>
     unat (b_Bus e) = bus \<and> unat (b_Device e) = device \<and> unat (b_Function e) = function' \<and>
     b_DeviceType e = BBS_HARDDISK \<and>
     (target = None \<or> target = Some [] \<or> LegacyBootAsciiEqualsUnicodeInsensitive (Some description) target)"

text \<open>
  One row, and the loop over the rows: the match count, the number of identity matches and the context, which
  receives the strings of every row and the data of the last match.
\<close>

definition CorrelateRow ::
  "(BBS_TABLE \<Rightarrow> NCV_U8 list \<Rightarrow> bool) \<Rightarrow> rom_evidence \<Rightarrow> nat \<Rightarrow> BBS_TABLE \<Rightarrow> LEGACY_BOOT_BBS_STRING_SNAPSHOT \<Rightarrow>
   nat \<times> nat \<times> LEGACY_BOOT_BOOT_TARGET_CONTEXT \<Rightarrow> nat \<times> nat \<times> LEGACY_BOOT_BOOT_TARGET_CONTEXT" where
  "CorrelateRow identity ev i e strings = (\<lambda>(matchCount, identityMatches, c).
     let c = c\<lparr>bt_BbsDiscoveryStrings := map_option (\<lambda>ss. ss[i := strings]) (bt_BbsDiscoveryStrings c)\<rparr>;
         matches = identity e (ss_Description strings);
         valid = LegacyBootSelectedDiskCanAttempt ev (Some e)
     in (if matches \<and> valid then matchCount + 1 else matchCount,
         if matches then identityMatches + 1 else identityMatches,
         if matches \<and> valid
         then c\<lparr>bt_LiveBbsIndex := i, bt_LiveBbsEntry := e, bt_LiveManufacturer := ss_Manufacturer strings, bt_LiveDescription := ss_Description strings\<rparr>
         else c))"

fun CorrelateLoop ::
  "'w boot_services \<Rightarrow> MEMORY_MAP_SNAPSHOT \<Rightarrow> (BBS_TABLE \<Rightarrow> NCV_U8 list \<Rightarrow> bool) \<Rightarrow> nat list \<Rightarrow> nat \<times> nat \<times> LEGACY_BOOT_BOOT_TARGET_CONTEXT \<Rightarrow>
   ('w, EFI_STATUS \<times> nat \<times> nat \<times> LEGACY_BOOT_BOOT_TARGET_CONTEXT) state" where
  "CorrelateLoop sv m identity [] acc = State_Monad.return (EFI_SUCCESS, acc)"
| "CorrelateLoop sv m identity (i # is) acc = do {
     e \<leftarrow> bs_ReadEntry sv i;
     (status, strings) \<leftarrow> LegacyBootLogBbsEntry sv m e;
     if EFI_ERROR status then State_Monad.return (status, acc)
     else do {
       ev \<leftarrow> bs_Evidence sv;
       _ \<leftarrow> (if identity e (ss_Description strings) \<and> \<not> LegacyBootSelectedDiskCanAttempt ev (Some e)
            then bs_LogPrint sv ''Matching disk rejected'' else State_Monad.return EFI_SUCCESS);
       status \<leftarrow> bs_LogPrint sv ''target predicates'';
       let acc = CorrelateRow identity ev i e strings acc;
       if EFI_ERROR status then State_Monad.return (status, acc) else CorrelateLoop sv m identity is acc
     }
   }"

definition LegacyBootLogAndCorrelateLiveBbs ::
  "'w boot_services \<Rightarrow> MEMORY_MAP_SNAPSHOT \<Rightarrow> nat \<Rightarrow> nat \<Rightarrow> nat \<Rightarrow> CHAR16 list option \<Rightarrow> LEGACY_BOOT_BOOT_TARGET_CONTEXT \<Rightarrow>
   ('w, EFI_STATUS \<times> LEGACY_BOOT_BOOT_TARGET_CONTEXT) state" where
  "LegacyBootLogAndCorrelateLiveBbs sv m bus device function' target c =
     (if bt_BbsDiscoverySnapshot c = None \<or> bt_BbsDiscoveryStrings c = None then State_Monad.return (EFI_INVALID_PARAMETER, c)
      else do {
        (status, matchCount, identityMatches, c) \<leftarrow>
          CorrelateLoop sv m (IdentityMatch bus device function' target) [0..<bt_BbsCount c] (0, 0, c);
        if EFI_ERROR status then State_Monad.return (status, c)
        else do {
          _ \<leftarrow> bs_LogPrint sv ''Live BBS target match count'';
          if identityMatches > 1 then do {
            _ \<leftarrow> bs_LogPrint sv ''Multiple live disk identities'';
            State_Monad.return (EFI_ABORTED, c)
          } else if matchCount = 0 then
            (if identityMatches = 1 then do {
               _ \<leftarrow> bs_LogPrint sv ''NCV_BLOCKED_BBS_ELIGIBILITY'';
               State_Monad.return (EFI_ACCESS_DENIED, c)
             } else State_Monad.return (EFI_NOT_FOUND, c))
          else if matchCount \<noteq> 1 then State_Monad.return (EFI_ABORTED, c)
          else do {
            ev \<leftarrow> bs_Evidence sv;
            if \<not> LegacyBootBbsEntryIsTransactionEligible ev (Some (bt_LiveBbsEntry c))
            then OnSuccess (bs_LogPrint sv ''NCV_DISK_FIRMWARE_WARNING_BBS'') c (State_Monad.return (EFI_SUCCESS, c))
            else State_Monad.return (EFI_SUCCESS, c)
          }
        }
      })"

section \<open>Pairing with the boot option\<close>

definition PathPairs :: "LEGACY_BOOT_BOOT_CANDIDATE \<Rightarrow> BBS_TABLE \<Rightarrow> bool" where
  "PathPairs cand e \<longleftrightarrow> b_DeviceType e = BBS_HARDDISK \<and>
     (ca_BbsDeviceType cand = BBS_TYPE_HARDDRIVE \<or> ca_BbsDeviceType cand = BBS_TYPE_USB \<and> b_Class e = 0x0C \<and> b_SubClass e = 3)"

definition LegacyBootMoveCandidateToContext ::
  "'w boot_services \<Rightarrow> LEGACY_BOOT_BOOT_CANDIDATE \<Rightarrow> LEGACY_BOOT_BOOT_TARGET_CONTEXT \<Rightarrow>
   ('w, EFI_STATUS \<times> LEGACY_BOOT_BOOT_TARGET_CONTEXT) state" where
  "LegacyBootMoveCandidateToContext sv cand c =
     (if \<not> ca_IsLegacy cand \<or> \<not> ca_IsActive cand then State_Monad.return (EFI_INVALID_PARAMETER, c)
      else do {
        ev \<leftarrow> bs_Evidence sv;
        if \<not> PathPairs cand (bt_LiveBbsEntry c) \<or> \<not> LegacyBootSelectedDiskCanAttempt ev (Some (bt_LiveBbsEntry c)) then do {
          _ \<leftarrow> bs_LogPrint sv ''generic disk path cannot be paired'';
          State_Monad.return (EFI_COMPROMISED_DATA, c)
        } else do {
          let c = c\<lparr>bt_BootOptionNumber := ca_Number cand, bt_BootOptionAttributes := ca_Attributes cand,
            bt_BootOptionDescription := ca_Description cand,
            bt_BootOptionDescriptionCrc32 := LegacyBootCrc32 (map_option wide_bytes (ca_Description cand)),
            bt_BbsDevicePath := ca_DevicePath cand, bt_BbsDevicePathCrc32 := ca_DevicePathCrc32 cand,
            bt_BbsDeviceType := ca_BbsDeviceType cand, bt_BbsStatusFlag := ca_BbsStatusFlag cand,
            bt_BbsDescription := ca_BbsDescription cand, bt_LoadOptions := ca_OptionalData cand,
            bt_OriginalLoadOptionsCrc32 := ca_OptionalDataCrc32 cand, bt_LoadOptionsCrc32 := ca_OptionalDataCrc32 cand\<rparr>;
          _ \<leftarrow> (if bt_BbsStatusFlag c \<noteq> LegacyBootBbsStatusFlagsRaw (bt_LiveBbsEntry c)
               then bs_LogPrint sv ''Diagnostic'' else State_Monad.return EFI_SUCCESS);
          status \<leftarrow> LogAll sv [''Selected generic hard-drive'', ''Owned copies''];
          State_Monad.return (status, c)
        }
      })"

section \<open>Discovery\<close>

text \<open>Behind the query: the ranges, the two copies, the correlation and the pairing.\<close>

definition DiscoverRows ::
  "'w boot_services \<Rightarrow> nat \<Rightarrow> nat \<Rightarrow> nat \<Rightarrow> CHAR16 list option \<Rightarrow> LEGACY_BOOT_BOOT_CANDIDATE \<Rightarrow> nat \<Rightarrow> LEGACY_BOOT_BOOT_TARGET_CONTEXT \<Rightarrow>
   ('w, EFI_STATUS \<times> LEGACY_BOOT_BOOT_TARGET_CONTEXT) state" where
  "DiscoverRows sv bus device function' target cand hddInfo c = do {
     r \<leftarrow> CaptureMap sv;
     case r of Inl status \<Rightarrow> State_Monad.return (status, c)
     | Inr m \<Rightarrow>
         if bt_HddCount c \<noteq> 0 \<and> \<not> fst (MemoryMapRangeIsReadable (Some m) hddInfo (bt_HddCount c * sizeof_HDD_INFO) False) \<or>
            \<not> fst (MemoryMapRangeIsReadable (Some m) (bt_FirmwareBbsTable c) (bt_BbsTableBytes c) False)
         then do { status \<leftarrow> LogFailure sv ''not safely readable'' True EFI_SECURITY_VIOLATION; State_Monad.return (status, c) }
         else do {
           a \<leftarrow> Pool sv (bt_BbsTableBytes c);
           snapshot \<leftarrow> (if a then ReadTable sv (bt_BbsCount c) else State_Monad.return []);
           b \<leftarrow> Pool sv (bt_BbsCount c * sizeof_STRING_SNAPSHOT);
           let c = c\<lparr>bt_BbsDiscoverySnapshot := (if a then Some snapshot else None),
                 bt_BbsDiscoveryStrings := zeroed b (bt_BbsCount c) zero_strings\<rparr>;
           if \<not> a \<or> \<not> b then State_Monad.return (EFI_OUT_OF_RESOURCES, c)
           else do {
             let c = c\<lparr>bt_BbsDiscoveryCrc32 := TableCrc32 snapshot, bt_BbsDiscoveryIdentityCrc32 := LegacyBootBbsIdentityCrc32 snapshot\<rparr>;
             _ \<leftarrow> bs_LogPrint sv ''Complete read-only BBS discovery snapshot'';
             (status, c) \<leftarrow> OnSuccessWith (LegacyBootLogAndCorrelateLiveBbs sv m bus device function' target c) (\<lambda>c. do {
               let c = c\<lparr>bt_BbsDiscoveryStringsCrc32 := StringsCrc32 (the (bt_BbsDiscoveryStrings c))\<rparr>;
               _ \<leftarrow> bs_LogPrint sv ''Bounded discovery manufacturer/description snapshot'';
               live \<leftarrow> ReadTable sv (bt_BbsCount c);
               if \<not> SameTable (the (bt_BbsDiscoverySnapshot c)) live then do {
                 _ \<leftarrow> bs_LogPrint sv ''Live BBS table changed while it was being enumerated'';
                 State_Monad.return (EFI_ABORTED, c)
               } else LegacyBootMoveCandidateToContext sv cand c
             });
             if EFI_ERROR status then do { _ \<leftarrow> bs_LogFlush sv; State_Monad.return (status, c) }
             else do {
               let c = c\<lparr>bt_DiscoveryComplete := True\<rparr>;
               status \<leftarrow> LegacyBootBootTargetValidateOwnedCopies sv (Some c);
               if EFI_ERROR status then State_Monad.return (status, c\<lparr>bt_DiscoveryComplete := False\<rparr>)
               else do {
                 _ \<leftarrow> bs_LogPrint sv ''target discovery passed'';
                 status \<leftarrow> bs_LogFlush sv;
                 State_Monad.return (status, if EFI_ERROR status then c\<lparr>bt_DiscoveryComplete := False\<rparr> else c)
               }
             }
           }
         }
   }"

definition LegacyBootBootTargetDiscover ::
  "'w discovery_services \<Rightarrow> nat \<Rightarrow> nat \<Rightarrow> nat \<Rightarrow> CHAR16 list option \<Rightarrow> CHAR16 list option \<Rightarrow> CHAR16 list option \<Rightarrow>
   LEGACY_BOOT_BOOT_TARGET_CONTEXT \<Rightarrow> ('w, EFI_STATUS \<times> LEGACY_BOOT_BOOT_TARGET_CONTEXT) state" where
  "LegacyBootBootTargetDiscover ds bus device function' target option' exclude c =
     (let sv = ds_Boot ds
      in if option' = None \<or> option' = Some [] \<or> exclude = None \<or> exclude = Some []
         then State_Monad.return (EFI_INVALID_PARAMETER, c)
         else if bt_Signature c = LEGACY_BOOT_BOOT_TARGET_SIGNATURE then State_Monad.return (EFI_ALREADY_STARTED, c)
         else do {
           let c = zero_context\<lparr>bt_Signature := LEGACY_BOOT_BOOT_TARGET_SIGNATURE, bt_GetBbsInfoStatus := EFI_NOT_READY\<rparr>;
           r \<leftarrow> LegacyBootDiscoverBootCandidate sv option' exclude;
           case r of Inl status \<Rightarrow> State_Monad.return (status, c)
           | Inr cand \<Rightarrow> do {
               fileOpen \<leftarrow> ds_LogFileOpen ds;
               if \<not> fileOpen then do {
                 _ \<leftarrow> bs_LogPrint sv ''no writable file log is open'';
                 State_Monad.return (EFI_NOT_READY, c)
               } else case ds_GetBbsInfo ds of
                 None \<Rightarrow> do { _ \<leftarrow> bs_LogPrint sv ''GetBbsInfo function pointer is NULL''; State_Monad.return (EFI_UNSUPPORTED, c) }
               | Some getBbsInfo \<Rightarrow> do {
                   _ \<leftarrow> bs_LogPrint sv ''one-shot native BBS discovery'';
                   OnSuccess (bs_LogFlush sv) c (do {
                     (status, hddCount, hddInfo, bbsCount, bbsTable) \<leftarrow> getBbsInfo;
                     let c = c\<lparr>bt_GetBbsInfoCalled := True, bt_GetBbsInfoStatus := status\<rparr>;
                     _ \<leftarrow> bs_LogPrint sv ''GetBbsInfo one-shot result'';
                     OnSuccess (bs_LogFlush sv) c (
                       if EFI_ERROR status then State_Monad.return (status, c)
                       else if hddCount > MAX_IDE_CONTROLLER \<or> hddCount \<noteq> 0 \<and> hddInfo = 0 \<or> bbsCount = 0 \<or>
                               bbsCount > LEGACY_BOOT_BOOT_TARGET_MAX_BBS_ENTRIES \<or> bbsTable = 0
                       then do { status \<leftarrow> LogFailure sv ''Malformed bounded GetBbsInfo result'' True EFI_COMPROMISED_DATA; State_Monad.return (status, c) }
                       else OnSuccess (ds_RecheckAfterBbs ds) c (
                         DiscoverRows sv bus device function' target cand hddInfo
                           (c\<lparr>bt_HddCount := hddCount, bt_BbsCount := bbsCount, bt_FirmwareBbsTable := bbsTable,
                              bt_BbsTableBytes := bbsCount * sizeof_BBS_TABLE\<rparr>)))
                   })
                 }
             }
         })"


section \<open>The selected row is the only match\<close>

definition named_by :: "(BBS_TABLE \<Rightarrow> NCV_U8 list \<Rightarrow> bool) \<Rightarrow> BBS_TABLE list \<Rightarrow> LEGACY_BOOT_BBS_STRING_SNAPSHOT list \<Rightarrow> nat \<Rightarrow> bool" where
  "named_by identity rows ss i \<longleftrightarrow> identity (rows ! i) (ss_Description (ss ! i))"

text \<open>What holds after the first \<open>k\<close> rows.\<close>

definition correlated ::
  "(BBS_TABLE \<Rightarrow> NCV_U8 list \<Rightarrow> bool) \<Rightarrow> BBS_TABLE list \<Rightarrow> nat \<Rightarrow> nat \<times> nat \<times> LEGACY_BOOT_BOOT_TARGET_CONTEXT \<Rightarrow> bool" where
  "correlated identity rows k acc \<longleftrightarrow>
     (let (matchCount, identityMatches, c) = acc in
      \<exists>ss. bt_BbsDiscoveryStrings c = Some ss \<and> length ss = length rows \<and>
        identityMatches = card {i. i < k \<and> named_by identity rows ss i} \<and> matchCount \<le> identityMatches \<and>
        (0 < matchCount \<longrightarrow> bt_LiveBbsIndex c < k \<and> named_by identity rows ss (bt_LiveBbsIndex c) \<and>
           bt_LiveBbsEntry c = rows ! bt_LiveBbsIndex c \<and>
           bt_LiveManufacturer c = ss_Manufacturer (ss ! bt_LiveBbsIndex c) \<and>
           bt_LiveDescription c = ss_Description (ss ! bt_LiveBbsIndex c) \<and>
           (\<exists>ev. LegacyBootSelectedDiskCanAttempt ev (Some (bt_LiveBbsEntry c)))))"

lemma card_Suc_if: "card {i. i < Suc k \<and> P i} = card {i. i < k \<and> P i} + (if P k then 1 else 0)"
proof -
  have "{i. i < Suc k \<and> P i} = (if P k then insert k {i. i < k \<and> P i} else {i. i < k \<and> P i})"
    by (auto simp: less_Suc_eq)
  then show ?thesis by simp
qed

lemma correlated_step:
  assumes c: "correlated identity rows k acc" and k: "k < length rows"
  shows "correlated identity rows (Suc k) (CorrelateRow identity ev k (rows ! k) s acc)"
proof -
  obtain matchCount identityMatches c ss where acc: "acc = (matchCount, identityMatches, c)" and
    ss: "bt_BbsDiscoveryStrings c = Some ss" "length ss = length rows" "identityMatches = card {i. i < k \<and> named_by identity rows ss i}"
    "matchCount \<le> identityMatches" and live: "0 < matchCount \<longrightarrow> bt_LiveBbsIndex c < k \<and> named_by identity rows ss (bt_LiveBbsIndex c) \<and>
           bt_LiveBbsEntry c = rows ! bt_LiveBbsIndex c \<and>
           bt_LiveManufacturer c = ss_Manufacturer (ss ! bt_LiveBbsIndex c) \<and>
           bt_LiveDescription c = ss_Description (ss ! bt_LiveBbsIndex c) \<and>
           (\<exists>ev. LegacyBootSelectedDiskCanAttempt ev (Some (bt_LiveBbsEntry c)))"
    using c unfolding correlated_def by (cases acc) auto
  have old: "named_by identity rows (ss[k := s]) i = named_by identity rows ss i" if "i < k" for i
    using that by (simp add: named_by_def)
  then have "card {i. i < k \<and> named_by identity rows (ss[k := s]) i} = identityMatches"
    unfolding ss(3) by (intro arg_cong [of _ _ card]) auto
  moreover have "named_by identity rows (ss[k := s]) k = identity (rows ! k) (ss_Description s)"
    using k ss(2) by (simp add: named_by_def)
  ultimately show ?thesis
    using ss(1,2,4) live old k unfolding correlated_def acc CorrelateRow_def
    by (auto simp: card_Suc_if Let_def)
qed

lemma keeps_LogBbsEntry: "quiet sv tab \<Longrightarrow> keeps tab (LegacyBootLogBbsEntry sv m e)"
  unfolding LegacyBootLogBbsEntry_def by (intro keeps_rules keeps_services keeps_ReadStrings keeps_LogAll) assumption+

lemma CorrelateLoop_correlated:
  assumes laws: "table_laws sv tab"
  shows "tab w = rows \<Longrightarrow> correlated identity rows k acc \<Longrightarrow> k \<le> length rows \<Longrightarrow>
    wp (CorrelateLoop sv m identity [k..<length rows] acc)
      (\<lambda>(status, r) t. \<not> EFI_ERROR status \<longrightarrow> correlated identity rows (length rows) r \<and> tab t = rows) w"
proof (induction "length rows - k" arbitrary: k acc w)
  case 0
  then show ?case by simp
next
  case (Suc j)
  then have k: "k < length rows" by simp
  then have upt: "[k..<length rows] = k # [Suc k..<length rows]" by (simp add: upt_conv_Cons)
  have more: "wp (CorrelateLoop sv m identity [Suc k..<length rows] (CorrelateRow identity ev k (rows ! k) s acc))
      (\<lambda>(status, r) t. \<not> EFI_ERROR status \<longrightarrow> correlated identity rows (length rows) r \<and> tab t = rows) u" if "tab u = rows" for u ev s
    by (rule Suc.hyps(1)) (use Suc.hyps(2) k that correlated_step [OF Suc.prems(2) k] in simp_all)
  show ?case unfolding upt CorrelateLoop.simps Let_def wp_bind [of "bs_ReadEntry sv k"]
  proof (rule wp_read [OF laws])
    show "k < length (tab w)" using k Suc.prems(1) by simp
    fix t assume "tab t = tab w"
    then have t: "tab t = rows" using Suc.prems(1) by simp
    show "wp (do {
     (status, strings) \<leftarrow> LegacyBootLogBbsEntry sv m (tab w ! k);
     if EFI_ERROR status then State_Monad.return (status, acc)
     else do {
       ev \<leftarrow> bs_Evidence sv;
       _ \<leftarrow> (if identity (tab w ! k) (ss_Description strings) \<and> \<not> LegacyBootSelectedDiskCanAttempt ev (Some (tab w ! k))
            then bs_LogPrint sv ''Matching disk rejected'' else State_Monad.return EFI_SUCCESS);
       status \<leftarrow> bs_LogPrint sv ''target predicates'';
       if EFI_ERROR status then State_Monad.return (status, CorrelateRow identity ev k (tab w ! k) strings acc)
       else CorrelateLoop sv m identity [Suc k..<length rows] (CorrelateRow identity ev k (tab w ! k) strings acc)
     }}) (\<lambda>(status, r) t. \<not> EFI_ERROR status \<longrightarrow> correlated identity rows (length rows) r \<and> tab t = rows) t"
      unfolding Suc.prems(1)
      by (intro keeps_bindI [OF keeps_LogBbsEntry [OF table_quiet [OF laws]]] wp_prodI wp_ifI wp_returnI keeps_bindI [OF keeps_services(5) [OF table_quiet [OF laws]]]
          keeps_bindI [OF keeps_if [OF keeps_services(2) [OF table_quiet [OF laws]] keeps_return]] keeps_bindI [OF keeps_services(2) [OF table_quiet [OF laws]]] more)
        (use t in simp_all)
  qed
qed

text \<open>A successful correlation has exactly one identity match, and the context describes it.\<close>

definition only_match :: "(BBS_TABLE \<Rightarrow> NCV_U8 list \<Rightarrow> bool) \<Rightarrow> BBS_TABLE list \<Rightarrow> LEGACY_BOOT_BOOT_TARGET_CONTEXT \<Rightarrow> bool" where
  "only_match identity rows c \<longleftrightarrow> (\<exists>ss. bt_BbsDiscoveryStrings c = Some ss \<and> length ss = length rows \<and>
     {i. i < length rows \<and> named_by identity rows ss i} = {bt_LiveBbsIndex c} \<and>
     bt_LiveBbsEntry c = rows ! bt_LiveBbsIndex c \<and> bt_LiveManufacturer c = ss_Manufacturer (ss ! bt_LiveBbsIndex c) \<and>
     bt_LiveDescription c = ss_Description (ss ! bt_LiveBbsIndex c) \<and>
     (\<exists>ev. LegacyBootSelectedDiskCanAttempt ev (Some (bt_LiveBbsEntry c))))"

lemma correlated_only_match:
  assumes c: "correlated identity rows (length rows) (1, im, c)" and "im \<le> 1"
  shows "only_match identity rows c"
proof -
  from c obtain ss where ss: "bt_BbsDiscoveryStrings c = Some ss" "length ss = length rows"
    "im = card {i. i < length rows \<and> named_by identity rows ss i}" "1 \<le> im"
    and live: "bt_LiveBbsIndex c < length rows" "named_by identity rows ss (bt_LiveBbsIndex c)"
      "bt_LiveBbsEntry c = rows ! bt_LiveBbsIndex c" "bt_LiveManufacturer c = ss_Manufacturer (ss ! bt_LiveBbsIndex c)"
      "bt_LiveDescription c = ss_Description (ss ! bt_LiveBbsIndex c)" "\<exists>ev. LegacyBootSelectedDiskCanAttempt ev (Some (bt_LiveBbsEntry c))"
    unfolding correlated_def prod.case Let_def by (elim exE conjE impE) (simp, blast)
  have "card {i. i < length rows \<and> named_by identity rows ss i} = 1" using ss(3,4) assms(2) by simp
  then obtain j where j: "{i. i < length rows \<and> named_by identity rows ss i} = {j}" by (rule card_1_singletonE)
  moreover have "bt_LiveBbsIndex c \<in> {i. i < length rows \<and> named_by identity rows ss i}" using live(1,2) by simp
  ultimately have "{i. i < length rows \<and> named_by identity rows ss i} = {bt_LiveBbsIndex c}" by simp
  then show ?thesis unfolding only_match_def using ss(1,2) live(3-6) by (intro exI [of _ ss] conjI)
qed

text \<open>
  C22. The target is unique: when \<open>LegacyBootLogAndCorrelateLiveBbs\<close> succeeds, exactly one row of the live table matches the configured
  controller and disk, the context holds that row with its strings, and the policy lets the disk be tried.
\<close>

theorem LogAndCorrelateLiveBbs_unique:
  assumes "table_laws sv tab" and "bt_BbsCount c = length (tab w)" and "bt_BbsDiscoveryStrings c = Some ss" and "length ss = length (tab w)"
    and "run_state (LegacyBootLogAndCorrelateLiveBbs sv m bus device function' target c) w = ((status, c'), w')" and "\<not> EFI_ERROR status"
  shows "only_match (IdentityMatch bus device function' target) (tab w) c' \<and> tab w' = tab w"
proof -
  let ?id = "IdentityMatch bus device function' target" and ?rows = "tab w"
  note laws = assms(1)
  have start: "correlated ?id ?rows 0 (0, 0, c)" using assms(3,4) by (simp add: correlated_def)
  have "wp (LegacyBootLogAndCorrelateLiveBbs sv m bus device function' target c)
      (\<lambda>r t. \<not> EFI_ERROR (fst r) \<longrightarrow> only_match ?id ?rows (snd r) \<and> tab t = ?rows) w"
    unfolding LegacyBootLogAndCorrelateLiveBbs_def
  proof (intro wp_ifI wp_returnI)
    show "wp (do {
        (status, matchCount, identityMatches, c) \<leftarrow> CorrelateLoop sv m ?id [0..<bt_BbsCount c] (0, 0, c);
        if EFI_ERROR status then State_Monad.return (status, c)
        else do {
          _ \<leftarrow> bs_LogPrint sv ''Live BBS target match count'';
          if identityMatches > 1 then do {
            _ \<leftarrow> bs_LogPrint sv ''Multiple live disk identities'';
            State_Monad.return (EFI_ABORTED, c)
          } else if matchCount = 0 then
            (if identityMatches = 1 then do {
               _ \<leftarrow> bs_LogPrint sv ''NCV_BLOCKED_BBS_ELIGIBILITY'';
               State_Monad.return (EFI_ACCESS_DENIED, c)
             } else State_Monad.return (EFI_NOT_FOUND, c))
          else if matchCount \<noteq> 1 then State_Monad.return (EFI_ABORTED, c)
          else do {
            ev \<leftarrow> bs_Evidence sv;
            if \<not> LegacyBootBbsEntryIsTransactionEligible ev (Some (bt_LiveBbsEntry c))
            then OnSuccess (bs_LogPrint sv ''NCV_DISK_FIRMWARE_WARNING_BBS'') c (State_Monad.return (EFI_SUCCESS, c))
            else State_Monad.return (EFI_SUCCESS, c)
          }
        }}) (\<lambda>r t. \<not> EFI_ERROR (fst r) \<longrightarrow> only_match ?id ?rows (snd r) \<and> tab t = ?rows) w"
      unfolding assms(2) OnSuccess_def
      by (rule wp_bindI [OF CorrelateLoop_correlated [OF laws refl start le0]],
          intro wp_prodI wp_ifI wp_returnI keeps_bindI [OF keeps_services(2) [OF table_quiet [OF laws]]] keeps_bindI [OF keeps_services(5) [OF table_quiet [OF laws]]])
        (auto intro: correlated_only_match)
  qed (simp_all add: assms)
  from wp_run [OF this assms(5)] assms(6) show ?thesis by simp
qed

end
