(* ===== verification/Journal_Run.thy ===== *)
theory Journal_Run
  imports Boot_Run Bbs_Discovery
begin

text \<open>
  A complete run of the journal on the machine in memory: a discovered target with one row and no
  \<open>LegacyDevOrder\<close> variable.
\<close>

definition found_text :: "CHAR16 list" where
  "found_text = [0x44, 0]"

definition found_context :: LEGACY_BOOT_BOOT_TARGET_CONTEXT where
  "found_context = zero_context\<lparr>bt_Signature := LEGACY_BOOT_BOOT_TARGET_SIGNATURE, bt_DiscoveryComplete := True,
     bt_BootOptionAttributes := 1, bt_BootOptionDescription := Some found_text,
     bt_BootOptionDescriptionCrc32 := LegacyBootCrc32 (Some (wide_bytes found_text)),
     bt_BbsDevicePath := Some sample_boot_path, bt_BbsDevicePathCrc32 := LegacyBootCrc32 (Some sample_boot_path),
     bt_BbsDeviceType := 2, bt_BbsStatusFlag := 0, bt_BbsDescription := [0x41],
     bt_LoadOptions := Some [7], bt_LoadOptionsCrc32 := LegacyBootCrc32 (Some [7]), bt_OriginalLoadOptionsCrc32 := LegacyBootCrc32 (Some [7]),
     bt_BbsCount := 1, bt_FirmwareBbsTable := 0x80000, bt_BbsTableBytes := 69, bt_LiveBbsIndex := 0, bt_LiveBbsEntry := run_row,
     bt_BbsDiscoverySnapshot := Some [run_row], bt_BbsDiscoveryCrc32 := TableCrc32 [run_row],
     bt_BbsDiscoveryIdentityCrc32 := LegacyBootBbsIdentityCrc32 [run_row],
     bt_BbsDiscoveryStrings := Some [absent_strings], bt_BbsDiscoveryStringsCrc32 := StringsCrc32 [absent_strings]\<rparr>"

lemmas found_defs = found_context_def zero_context_def

definition attempted_context :: LEGACY_BOOT_BOOT_TARGET_CONTEXT where
  "attempted_context = found_context\<lparr>bt_JournalAttempted := True\<rparr>"

lemma found_owned: "run_state (LegacyBootBootTargetValidateOwnedCopies ram_boot_services (Some attempted_context)) w = (EFI_SUCCESS, w)"
proof -
  have "OwnedCopiesReady attempted_context"
    by (simp add: OwnedCopiesReady_def attempted_context_def found_defs found_text_def sample_bytes sample_boot_path_def)
  moreover have "\<not> OwnedCopiesCrcWrong attempted_context"
    by (simp add: OwnedCopiesCrcWrong_def attempted_context_def found_defs)
  moreover have "OwnedCopiesMatch attempted_context 2 0 [0x41]"
    by (simp add: OwnedCopiesMatch_def attempted_context_def found_defs LOAD_OPTION_ACTIVE_def SameEntry_def absent_strings_def)
  moreover have "LegacyBootValidateExactBbsDevicePath (bt_BbsDevicePath attempted_context) (LEGACY_BOOT_BOOT_TARGET_MAX_STRING_BYTES + 1) = Inr (2, 0, [0x41])"
    using sample_path_exact by (simp add: attempted_context_def found_defs LEGACY_BOOT_BOOT_TARGET_MAX_STRING_BYTES_def)
  moreover have "last (the (bt_BootOptionDescription attempted_context)) = 0"
    by (simp add: attempted_context_def found_defs found_text_def)
  ultimately show ?thesis
    by (simp add: LegacyBootBootTargetValidateOwnedCopies_def no_evidence_def LegacyStorageRomVerify_def LogPassed_def FlushResult_def Let_def)
qed

lemma run_no_order: "run_state (LegacyBootReadVariableBounded ram_boot_services name 4096) (run_world p) = (Inl EFI_NOT_FOUND, run_world p)"
  by (simp add: LegacyBootReadVariableBounded_def ram_boot_services_def run_world_def)

lemma run_rows: "run_state (ReadTable ram_boot_services 1) (run_world 5) = ([run_row], run_world 5)"
proof -
  have "run_row\<lparr>b_BootPriority := 5\<rparr> = run_row" by (simp add: run_row_def sample_row_def)
  then show ?thesis by (simp add: ReadTable_def run_world_def)
qed

definition reserved_context :: LEGACY_BOOT_BOOT_TARGET_CONTEXT where
  "reserved_context = attempted_context\<lparr>bt_BbsJournal := Some [zero_row], bt_BbsJournalStrings := Some [zero_strings],
     bt_PlannedPriorities := Some [0], bt_ExpectedPriorities := Some [0], bt_VerificationScratch := True\<rparr>"

lemma found_reserved: "run_state (LegacyBootReserveJournal ram_boot_services attempted_context) w = ((EFI_SUCCESS, reserved_context), w)"
  by (simp add: LegacyBootReserveJournal_def attempted_context_def found_defs reserved_context_def zeroed_def)

definition copied_context :: LEGACY_BOOT_BOOT_TARGET_CONTEXT where
  "copied_context = reserved_context\<lparr>bt_BbsJournal := Some [run_row], bt_BbsJournalCrc32 := TableCrc32 [run_row],
       bt_BbsIdentityCrc32 := LegacyBootBbsIdentityCrc32 [run_row],
       bt_BbsPriorityCrc32 := LegacyBootBbsPriorityCrc32FromTable [run_row]\<rparr>"

lemma found_order: "run_state (JournalOrder ram_boot_services copied_context) (run_world 5) = ((EFI_SUCCESS, unusable_order copied_context), run_world 5)"
  by (simp add: JournalOrder_def copied_context_def reserved_context_def attempted_context_def found_defs LegacyBootCaptureLegacyDevOrder_def
      LEGACY_BOOT_BOOT_TARGET_MAX_BBS_ENTRIES_def LEGACY_BOOT_LEGACY_DEV_ORDER_MAX_BYTES_def run_no_order FallBack_def
      LegacyBootLogLegacyDevOrderFallback_def)


lemma found_eligible: "LegacyBootBbsIndexIsTransactionEligible ev (Some (unusable_order copied_context)) 0"
  by (simp add: LegacyBootBbsIndexIsTransactionEligible_def unusable_order_def copied_context_def reserved_context_def attempted_context_def
      found_defs run_row_def sample_row_def LegacyBootSelectedDiskCanAttempt_def BBS_HARDDISK_def LegacyBootBbsStatusFlagsRaw_def)

definition planned_context :: LEGACY_BOOT_BOOT_TARGET_CONTEXT where
  "planned_context = (unusable_order copied_context)\<lparr>bt_ExpectedPriorities := Some [5], bt_PlannedPriorities := Some [0],
     bt_PlannedPriorityCrc32 := LegacyBootBbsPriorityCrc32FromVector [0]\<rparr>"

lemma RankLoop_one: "pl_Ranked st 0 \<Longrightarrow> bt_BbsCount c = 1 \<Longrightarrow> RankLoop ev c journal pass st = (EFI_SUCCESS, st)"
  by (subst RankLoop.simps) simp

lemma found_plan: "run_state (BuildPlanStep ram_boot_services (unusable_order copied_context)) w = ((EFI_SUCCESS, planned_context), w)"
proof -
  have f: "bt_BbsJournal (unusable_order copied_context) = Some [run_row]" "bt_PlannedPriorities (unusable_order copied_context) = Some [0]"
    "bt_ExpectedPriorities (unusable_order copied_context) = Some [0]" "bt_LiveBbsIndex (unusable_order copied_context) = 0"
    "bt_BbsCount (unusable_order copied_context) = 1" "\<not> bt_LegacyDevOrderUsable (unusable_order copied_context)"
    by (simp_all add: unusable_order_def copied_context_def reserved_context_def attempted_context_def found_defs)
  have p: "b_BootPriority run_row = 5" by (simp add: run_row_def sample_row_def)
  show ?thesis
    by (simp add: BuildPlanStep_def LegacyBootBuildPriorityPlan_def f found_eligible RankLoop_one p planned_context_def Let_def)
qed

definition logged_context :: LEGACY_BOOT_BOOT_TARGET_CONTEXT where
  "logged_context = planned_context\<lparr>bt_BbsJournalStrings := Some [absent_strings], bt_BbsJournalStringsCrc32 := StringsCrc32 [absent_strings]\<rparr>"

lemmas stage_defs = logged_context_def planned_context_def unusable_order_def copied_context_def reserved_context_def attempted_context_def found_defs

lemma planned_fields:
  "bt_FirmwareBbsTable planned_context = 0x80000" "bt_BbsTableBytes planned_context = 69" "bt_BbsCount planned_context = 1"
  "bt_BbsJournal planned_context = Some [run_row]" "bt_BbsJournalStrings planned_context = Some [zero_strings]"
  "bt_BbsDiscoveryStrings planned_context = Some [absent_strings]"
  by (simp_all add: stage_defs)

lemma logged_fields:
  "bt_BbsJournal logged_context = Some [run_row]" "bt_BbsJournalStrings logged_context = Some [absent_strings]"
  "bt_BbsJournalStringsCrc32 logged_context = StringsCrc32 [absent_strings]" "bt_BbsCount logged_context = 1"
  "bt_FirmwareBbsTable logged_context = 0x80000" "bt_BbsTableBytes logged_context = 69" "bt_VerificationScratch logged_context"
  "bt_ExpectedPriorities logged_context = Some [5]" "\<not> bt_LegacyDevOrderUsable logged_context"
  by (simp_all add: stage_defs)

lemma run_logged: "run_state (LegacyBootLogBbsEntry ram_boot_services m run_row) w = ((EFI_SUCCESS, absent_strings), w)"
proof -
  have s: "ReadStrings ram_boot_services m run_row = State_Monad.return absent_strings"
    by (rule run_strings) (simp_all add: run_row_def sample_row_def zero_row_def)
  have l: "run_state (LogAll ram_boot_services ts) u = (EFI_SUCCESS, u)" for ts u
    by (induction ts) simp_all
  show ?thesis by (simp add: LegacyBootLogBbsEntry_def s l)
qed

lemma found_strings: "run_state (JournalStrings ram_boot_services planned_context) w = ((EFI_SUCCESS, logged_context), w)"
  by (simp add: JournalStrings_def planned_fields flat_readable run_logged OnSuccess_def logged_context_def Let_def)

lemma found_finish:
  "run_state (JournalFinish ram_boot_services logged_context) (run_world 5) = ((EFI_SUCCESS, logged_context\<lparr>bt_JournalComplete := True\<rparr>), run_world 5)"
proof -
  have o: "run_state (LegacyBootVerifyLegacyDevOrderSnapshot ram_boot_services (Some logged_context) label True) (run_world 5) = (EFI_SUCCESS, run_world 5)" for label
    by (simp add: LegacyBootVerifyLegacyDevOrderSnapshot_def LEGACY_BOOT_LEGACY_DEV_ORDER_MAX_BYTES_def run_no_order logged_fields)
  have s: "run_state (LegacyBootVerifyLiveBbsStrings ram_boot_services (Some logged_context) label True) (run_world 5) = (EFI_SUCCESS, run_world 5)" for label
    by (rule run_verify_strings) (simp_all add: logged_fields run_world_def run_row_def sample_row_def zero_row_def)
  have v: "run_state (LegacyBootVerifyLiveAgainstPriorities ram_boot_services (Some (logged_context\<lparr>bt_JournalComplete := True\<rparr>)) (Some [5]) label True True)
      (run_world 5) = (EFI_SUCCESS, run_world 5)" for label
    by (rule run_verify) (simp_all add: logged_fields run_world_def)
  show ?thesis
    by (simp add: JournalFinish_def OnSuccess_def o s v run_rows [simplified] logged_fields SameTable_def Let_def)
qed

lemma found_journal:
  "run_state (LegacyBootBootTargetJournalAndValidate ram_boot_services (Some found_context)) (run_world 5) =
     ((EFI_SUCCESS, Some (logged_context\<lparr>bt_JournalComplete := True\<rparr>)), run_world 5)"
proof -
  have f: "bt_Signature found_context = LEGACY_BOOT_BOOT_TARGET_SIGNATURE" "bt_DiscoveryComplete found_context" "\<not> bt_JournalAttempted found_context"
    "\<not> bt_JournalComplete found_context" "\<not> bt_PriorityTransactionAttempted found_context" "bt_BbsCount attempted_context = 1"
    "bt_BbsDiscoverySnapshot attempted_context = Some [run_row]" "bt_BbsCount reserved_context = 1"
    by (simp_all add: stage_defs)
  have range: "run_state (LegacyBootValidateFirmwareBbsRange ram_boot_services (Some attempted_context) True) w = (EFI_SUCCESS, w)" for w
    by (rule ram_range) (simp_all add: stage_defs)
  have rows: "run_state (JournalRows ram_boot_services reserved_context) (run_world 5) = ((EFI_SUCCESS, logged_context\<lparr>bt_JournalComplete := True\<rparr>), run_world 5)"
    by (simp add: JournalRows_def f run_rows [simplified] OnSuccessWith_def copied_context_def [symmetric] found_order found_plan found_strings found_finish Let_def)
  show ?thesis
    by (simp add: LegacyBootBootTargetJournalAndValidate_def f attempted_context_def [symmetric] OnSuccess_def found_owned LegacyStorageRomReportVga_def
        no_evidence_def range run_rows [simplified] SameTable_def OnSuccessWith_def found_reserved rows Let_def)
qed

theorem JournalAndValidate_starts_transaction_witness:
  "\<exists>c'. bt_JournalComplete c' \<and> bt_BbsJournal c' = Some [run_row] \<and> txn rb_Table [run_row] c' (run_world 5)"
proof -
  have w: "rb_Table (run_world 5) = [run_row]" by (simp add: run_world_def) (simp add: run_row_def sample_row_def)
  have "length (rb_Table (run_world 5)) = bt_BbsCount found_context" "bt_PriorityWrites found_context = []" "\<not> bt_PriorityTransactionDirty found_context"
    by (simp_all add: w found_defs)
  from JournalAndValidate_starts_transaction [OF machine_laws this found_journal] show ?thesis
    by (intro exI [of _ "logged_context\<lparr>bt_JournalComplete := True\<rparr>"]) (simp add: w)
qed

section \<open>A correlation\<close>

definition empty_discovery :: LEGACY_BOOT_BOOT_TARGET_CONTEXT where
  "empty_discovery = zero_context\<lparr>bt_BbsCount := 1, bt_BbsDiscoverySnapshot := Some [run_row], bt_BbsDiscoveryStrings := Some [zero_strings]\<rparr>"

lemma run_correlated:
  "\<exists>c'. run_state (LegacyBootLogAndCorrelateLiveBbs ram_boot_services m 0 0 0 None empty_discovery) (run_world 5) = ((EFI_SUCCESS, c'), run_world 5)"
proof -
  have f: "bt_BbsCount empty_discovery = 1" "bt_BbsDiscoverySnapshot empty_discovery = Some [run_row]" "bt_BbsDiscoveryStrings empty_discovery = Some [zero_strings]"
    by (simp_all add: empty_discovery_def)
  have r: "rb_Table (run_world 5) ! 0 = run_row" by (simp add: run_world_def) (simp add: run_row_def sample_row_def)
  have i: "IdentityMatch 0 0 0 None run_row s" "LegacyBootSelectedDiskCanAttempt ev (Some run_row)" for s ev
    by (simp_all add: IdentityMatch_def LegacyBootSelectedDiskCanAttempt_def run_row_def sample_row_def zero_row_def BBS_HARDDISK_def
        LegacyBootBbsStatusFlagsRaw_def)
  show ?thesis
    by (simp add: LegacyBootLogAndCorrelateLiveBbs_def f r run_logged i CorrelateRow_def OnSuccess_def Let_def)
qed

theorem LogAndCorrelateLiveBbs_unique_witness:
  "\<exists>c'. only_match (IdentityMatch 0 0 0 None) [run_row] c'"
proof -
  obtain c' where c': "run_state (LegacyBootLogAndCorrelateLiveBbs ram_boot_services flat_map 0 0 0 None empty_discovery) (run_world 5) =
      ((EFI_SUCCESS, c'), run_world 5)"
    using run_correlated by blast
  have w: "rb_Table (run_world 5) = [run_row]" by (simp add: run_world_def) (simp add: run_row_def sample_row_def)
  from LogAndCorrelateLiveBbs_unique [OF machine_laws _ _ _ c'] show ?thesis
    by (auto simp: w empty_discovery_def)
qed

end
