(* ===== verification/Sha256.thy ===== *)
theory Sha256
  imports Ncv_Prelude
begin

text \<open>
  The digest of \<open>NativeCsmVgaBoot.c\<close> that compares the firmware area before and after each step: the block function, the
  padding of \<open>HashRange\<close>, and the agreement of both with the standard's definition of SHA-256.
\<close>

unbundle bit_operations_syntax

section \<open>The routines\<close>

definition RotateRight32 :: "NCV_U32 \<Rightarrow> nat \<Rightarrow> NCV_U32" where
  "RotateRight32 v n = drop_bit n v OR push_bit (32 - n) v"

definition Sha256Constants :: "NCV_U32 list" where
  "Sha256Constants = concat [
    [0x428a2f98, 0x71374491, 0xb5c0fbcf, 0xe9b5dba5, 0x3956c25b, 0x59f111f1, 0x923f82a4, 0xab1c5ed5],
    [0xd807aa98, 0x12835b01, 0x243185be, 0x550c7dc3, 0x72be5d74, 0x80deb1fe, 0x9bdc06a7, 0xc19bf174],
    [0xe49b69c1, 0xefbe4786, 0x0fc19dc6, 0x240ca1cc, 0x2de92c6f, 0x4a7484aa, 0x5cb0a9dc, 0x76f988da],
    [0x983e5152, 0xa831c66d, 0xb00327c8, 0xbf597fc7, 0xc6e00bf3, 0xd5a79147, 0x06ca6351, 0x14292967],
    [0x27b70a85, 0x2e1b2138, 0x4d2c6dfc, 0x53380d13, 0x650a7354, 0x766a0abb, 0x81c2c92e, 0x92722c85],
    [0xa2bfe8a1, 0xa81a664b, 0xc24b8b70, 0xc76c51a3, 0xd192e819, 0xd6990624, 0xf40e3585, 0x106aa070],
    [0x19a4c116, 0x1e376c08, 0x2748774c, 0x34b0bcb5, 0x391c0cb3, 0x4ed8aa4a, 0x5b9cca4f, 0x682e6ff3],
    [0x748f82ee, 0x78a5636f, 0x84c87814, 0x8cc70208, 0x90befffa, 0xa4506ceb, 0xbef9a3f7, 0xc67178f2]]"

definition BigEndianWord :: "NCV_U8 list \<Rightarrow> nat \<Rightarrow> NCV_U32" where
  "BigEndianWord block i = push_bit 24 (ucast (block ! (i * 4))) OR push_bit 16 (ucast (block ! (i * 4 + 1))) OR
     push_bit 8 (ucast (block ! (i * 4 + 2))) OR ucast (block ! (i * 4 + 3))"

text \<open>The array \<open>Words\<close>, filled in the order of the two loops.\<close>

definition NextWord :: "NCV_U32 list \<Rightarrow> nat \<Rightarrow> NCV_U32" where
  "NextWord ws i =
     (RotateRight32 (ws ! (i - 2)) 17 XOR RotateRight32 (ws ! (i - 2)) 19 XOR drop_bit 10 (ws ! (i - 2))) + ws ! (i - 7) +
     (RotateRight32 (ws ! (i - 15)) 7 XOR RotateRight32 (ws ! (i - 15)) 18 XOR drop_bit 3 (ws ! (i - 15))) + ws ! (i - 16)"

definition Sha256Words :: "NCV_U8 list \<Rightarrow> NCV_U32 list" where
  "Sha256Words block = fold (\<lambda>i ws. ws @ [NextWord ws i]) [16..<64] (map (BigEndianWord block) [0..<16])"

type_synonym sha_state = "NCV_U32 \<times> NCV_U32 \<times> NCV_U32 \<times> NCV_U32 \<times> NCV_U32 \<times> NCV_U32 \<times> NCV_U32 \<times> NCV_U32"

definition Sha256Round :: "NCV_U32 list \<Rightarrow> nat \<Rightarrow> sha_state \<Rightarrow> sha_state" where
  "Sha256Round ws i = (\<lambda>(a, b, c, d, e, f, g, h).
     let t1 = h + (RotateRight32 e 6 XOR RotateRight32 e 11 XOR RotateRight32 e 25) + ((e AND f) XOR (NOT e AND g)) +
           Sha256Constants ! i + ws ! i;
         t2 = (RotateRight32 a 2 XOR RotateRight32 a 13 XOR RotateRight32 a 22) + ((a AND b) XOR (a AND c) XOR (b AND c))
     in (t1 + t2, a, b, c, d + t1, e, f, g))"

definition AddState :: "sha_state \<Rightarrow> sha_state \<Rightarrow> sha_state" where
  "AddState = (\<lambda>(a, b, c, d, e, f, g, h) (a', b', c', d', e', f', g', h').
     (a + a', b + b', c + c', d + d', e + e', f + f', g + g', h + h'))"

definition Sha256Block :: "sha_state \<Rightarrow> NCV_U8 list \<Rightarrow> sha_state" where
  "Sha256Block state block = AddState state (fold (Sha256Round (Sha256Words block)) [0..<64] state)"

definition Sha256Initial :: sha_state where
  "Sha256Initial = (0x6a09e667, 0xbb67ae85, 0x3c6ef372, 0xa54ff53a, 0x510e527f, 0x9b05688c, 0x1f83d9ab, 0x5be0cd19)"

text \<open>The loop over whole blocks: the state and the bytes that remain.\<close>

function WholeBlocks :: "sha_state \<Rightarrow> NCV_U8 list \<Rightarrow> sha_state \<times> NCV_U8 list" where
  "WholeBlocks state walker =
     (if length walker \<ge> 64 then WholeBlocks (Sha256Block state (take 64 walker)) (drop 64 walker) else (state, walker))"
  by pat_completeness auto
termination by (relation "measure (\<lambda>(_, walker). length walker)") auto

declare WholeBlocks.simps [simp del]

definition BigEndian64 :: "64 word \<Rightarrow> NCV_U8 list" where
  "BigEndian64 n = map (\<lambda>k. ucast (drop_bit k n)) [56, 48, 40, 32, 24, 16, 8, 0]"

definition BigEndian32 :: "NCV_U32 \<Rightarrow> NCV_U8 list" where
  "BigEndian32 n = map (\<lambda>k. ucast (drop_bit k n)) [24, 16, 8, 0]"

definition StateBytes :: "sha_state \<Rightarrow> NCV_U8 list" where
  "StateBytes = (\<lambda>(a, b, c, d, e, f, g, h). concat (map BigEndian32 [a, b, c, d, e, f, g, h]))"

text \<open>The last one or two blocks: the buffer \<open>Tail\<close> up to \<open>TailBytes\<close>.\<close>

definition TailBuffer :: "NCV_U8 list \<Rightarrow> 64 word \<Rightarrow> NCV_U8 list" where
  "TailBuffer rest bitCount =
     (let tailBytes = (if length rest < 56 then 64 else 128)
      in rest @ [0x80] @ replicate (tailBytes - 8 - (length rest + 1)) 0 @ BigEndian64 bitCount)"

text \<open>The digest buffer is always given, so the result is the digest.\<close>

definition HashRange :: "NCV_U8 list \<Rightarrow> NCV_U8 list" where
  "HashRange content =
     (let (state, rest) = WholeBlocks Sha256Initial content;
          tail' = TailBuffer rest (of_nat (length content) * 8);
          state = Sha256Block state (take 64 tail');
          state = (if length tail' = 128 then Sha256Block state (drop 64 tail') else state)
      in StateBytes state)"


section \<open>The standard\<close>

text \<open>
  FIPS 180-4: the message is padded with one bit, zeros and its length to a multiple of 512 bits; the schedule and the
  round function are given by the standard's functions.
\<close>

definition small_sigma0 :: "NCV_U32 \<Rightarrow> NCV_U32" where
  "small_sigma0 x = word_rotr 7 x XOR word_rotr 18 x XOR drop_bit 3 x"

definition small_sigma1 :: "NCV_U32 \<Rightarrow> NCV_U32" where
  "small_sigma1 x = word_rotr 17 x XOR word_rotr 19 x XOR drop_bit 10 x"

definition big_sigma0 :: "NCV_U32 \<Rightarrow> NCV_U32" where
  "big_sigma0 x = word_rotr 2 x XOR word_rotr 13 x XOR word_rotr 22 x"

definition big_sigma1 :: "NCV_U32 \<Rightarrow> NCV_U32" where
  "big_sigma1 x = word_rotr 6 x XOR word_rotr 11 x XOR word_rotr 25 x"

definition choose_word :: "NCV_U32 \<Rightarrow> NCV_U32 \<Rightarrow> NCV_U32 \<Rightarrow> NCV_U32" where
  "choose_word x y z = (x AND y) XOR (NOT x AND z)"

definition majority :: "NCV_U32 \<Rightarrow> NCV_U32 \<Rightarrow> NCV_U32 \<Rightarrow> NCV_U32" where
  "majority x y z = (x AND y) XOR (x AND z) XOR (y AND z)"

text \<open>The constants of the standard: the first bits of the fractional parts of roots of the first primes.\<close>

definition first_primes :: "nat list" where
  "first_primes = filter (\<lambda>p. \<forall>d \<in> set [2..<18]. d < p \<longrightarrow> p mod d \<noteq> 0) [2..<312]"

definition root_fraction :: "nat \<Rightarrow> nat \<Rightarrow> NCV_U32" where
  "root_fraction k p = of_nat (GREATEST x. x ^ k \<le> p * 2 ^ (32 * k))"

definition round_constant :: "nat \<Rightarrow> NCV_U32" where
  "round_constant t = root_fraction 3 (first_primes ! t)"

definition initial_digest :: sha_state where
  "initial_digest = (case map (root_fraction 2) (take 8 first_primes) of
     [a, b, c, d, e, f, g, h] \<Rightarrow> (a, b, c, d, e, f, g, h) | _ \<Rightarrow> (0, 0, 0, 0, 0, 0, 0, 0))"

fun schedule :: "NCV_U8 list \<Rightarrow> nat \<Rightarrow> NCV_U32" where
  "schedule block t =
     (if t < 16 then word_rcat (take 4 (drop (4 * t) block))
      else small_sigma1 (schedule block (t - 2)) + schedule block (t - 7) + small_sigma0 (schedule block (t - 15)) + schedule block (t - 16))"

declare schedule.simps [simp del]

fun rounds :: "NCV_U8 list \<Rightarrow> nat \<Rightarrow> sha_state \<Rightarrow> sha_state" where
  "rounds block 0 state = state"
| "rounds block (Suc t) state =
     (let (a, b, c, d, e, f, g, h) = rounds block t state;
          t1 = h + big_sigma1 e + choose_word e f g + round_constant t + schedule block t;
          t2 = big_sigma0 a + majority a b c
      in (t1 + t2, a, b, c, d + t1, e, f, g))"

definition compress_block :: "sha_state \<Rightarrow> NCV_U8 list \<Rightarrow> sha_state" where
  "compress_block state block = AddState state (rounds block 64 state)"

definition padded :: "NCV_U8 list \<Rightarrow> NCV_U8 list" where
  "padded m = m @ [0x80] @ replicate (nat ((55 - int (length m)) mod 64)) 0 @ BigEndian64 (of_nat (8 * length m))"

definition blocks_of :: "NCV_U8 list \<Rightarrow> NCV_U8 list list" where
  "blocks_of m = map (\<lambda>i. take 64 (drop (64 * i) m)) [0..<length m div 64]"

definition sha256 :: "NCV_U8 list \<Rightarrow> NCV_U8 list" where
  "sha256 m = StateBytes (foldl compress_block initial_digest (blocks_of (padded m)))"


section \<open>Agreement\<close>

definition root_between :: "nat \<Rightarrow> nat \<Rightarrow> nat \<Rightarrow> NCV_U32 \<Rightarrow> bool" where
  "root_between k c p w \<longleftrightarrow> (c * 2 ^ 32 + unat w) ^ k \<le> p * 2 ^ (32 * k) \<and> p * 2 ^ (32 * k) < Suc (c * 2 ^ 32 + unat w) ^ k"

lemma root_fraction_between:
  assumes "root_between k c p w"
  shows "root_fraction k p = w"
proof -
  let ?x = "c * 2 ^ 32 + unat w"
  have x: "?x ^ k \<le> p * 2 ^ (32 * k)" "p * 2 ^ (32 * k) < Suc ?x ^ k" using assms by (simp_all add: root_between_def)
  have "(GREATEST x. x ^ k \<le> p * 2 ^ (32 * k)) = ?x"
  proof (rule Greatest_equality)
    show "?x ^ k \<le> p * 2 ^ (32 * k)" by (rule x)
    fix y assume "y ^ k \<le> p * 2 ^ (32 * k)"
    then have "y ^ k < Suc ?x ^ k" using x(2) by (rule le_less_trans)
    then show "y \<le> ?x" using power_less_imp_less_base [of y k "Suc ?x"] by simp
  qed
  moreover have "(of_nat ?x :: NCV_U32) = w"
  proof -
    have "(of_nat (2 ^ 32) :: NCV_U32) = 0" by simp
    then show ?thesis by (simp del: of_nat_power of_nat_numeral)
  qed
  ultimately show ?thesis by (simp add: root_fraction_def)
qed

lemma first_primes_list: "first_primes = concat [[2, 3, 5, 7, 11, 13, 17, 19], [23, 29, 31, 37, 41, 43, 47, 53], [59, 61, 67, 71, 73, 79, 83, 89], [97, 101, 103, 107, 109, 113, 127, 131], [137, 139, 149, 151, 157, 163, 167, 173], [179, 181, 191, 193, 197, 199, 211, 223], [227, 229, 233, 239, 241, 251, 257, 263], [269, 271, 277, 281, 283, 293, 307, 311]]"
  by (simp add: first_primes_def upt_rec)

lemma root_fraction_list:
  "list_all2 (\<lambda>c (p, w). root_between k c p w) cs (zip ps ws) \<Longrightarrow> length ps = length ws \<Longrightarrow> map (root_fraction k) ps = ws"
proof (induction cs arbitrary: ps ws)
  case Nil then show ?case by (cases ps; cases ws; simp)
next
  case (Cons c cs)
  then show ?case by (cases ps; cases ws) (auto simp: root_fraction_between)
qed

lemma Sha256Constants_roots: "map (root_fraction 3) first_primes = Sha256Constants"
  by (rule root_fraction_list [where cs = "concat [[1, 1, 1, 1, 2, 2, 2, 2], [2, 3, 3, 3, 3, 3, 3, 3], [3, 3, 4, 4, 4, 4, 4, 4], [4, 4, 4, 4, 4, 4, 5, 5], [5, 5, 5, 5, 5, 5, 5, 5], [5, 5, 5, 5, 5, 5, 5, 6], [6, 6, 6, 6, 6, 6, 6, 6], [6, 6, 6, 6, 6, 6, 6, 6]]"])
     (simp_all add: first_primes_list Sha256Constants_def root_between_def)
lemma initial_roots: "map (root_fraction 2) (take 8 first_primes) = [0x6a09e667, 0xbb67ae85, 0x3c6ef372, 0xa54ff53a, 0x510e527f, 0x9b05688c, 0x1f83d9ab, 0x5be0cd19]"
  by (rule root_fraction_list [where cs = "[1, 1, 2, 2, 3, 3, 4, 4]"])
     (simp_all add: first_primes_list root_between_def)
lemma round_constant_nth: "t < 64 \<Longrightarrow> round_constant t = Sha256Constants ! t"
  unfolding Sha256Constants_roots [symmetric] round_constant_def
  by (subst nth_map) (simp_all add: first_primes_list)

lemma initial_digest_Initial: "initial_digest = Sha256Initial"
  by (simp add: initial_digest_def initial_roots Sha256Initial_def)

lemma RotateRight32_rotr:
  assumes "0 < n" and "n < 32"
  shows "RotateRight32 v n = word_rotr n v"
proof (rule bit_word_eqI)
  fix i assume i: "i < LENGTH(32)"
  show "bit (RotateRight32 v n) i = bit (word_rotr n v) i"
  proof (cases "i + n < 32")
    case True
    then show ?thesis using i assms
      by (auto simp: RotateRight32_def bit_or_iff bit_drop_bit_eq bit_push_bit_iff bit_word_rotr_iff ac_simps)
  next
    case False
    then have "(i + n) mod 32 = i - (32 - n)" using i assms by (simp add: mod_if)
    moreover have "\<not> bit v (n + i)" using False by (simp add: bit_word.rep_eq ac_simps)
    ultimately show ?thesis using i assms False
      by (auto simp: RotateRight32_def bit_or_iff bit_drop_bit_eq bit_push_bit_iff bit_word_rotr_iff ac_simps)
  qed
qed


lemma bit_rcat: "bit (word_rcat ws :: 32 word) n \<longleftrightarrow> n < 32 \<and> n div 8 < length ws \<and> bit (rev ws ! (n div 8)) (n mod 8)" for ws :: "8 word list"
  using bit_horner_sum_uint_exp_iff [of "rev ws" n] by (simp add: word_rcat_def bit_word_of_int_iff)

lemma rcat_bytes:
  fixes a b c d :: "8 word"
  shows "push_bit 24 (ucast a) OR push_bit 16 (ucast b) OR push_bit 8 (ucast c) OR ucast d = (word_rcat [a, b, c, d] :: 32 word)"
proof (rule bit_word_eqI)
  fix n assume n: "n < LENGTH(32)"
  have high: "bit v k \<Longrightarrow> k < 8" for v :: "8 word" and k by (auto dest: bit_imp_le_length)
  consider "n < 8" "n div 8 = 0" "n mod 8 = n" | k where "n = 8 + k" "k < 8" "n div 8 = 1" "n mod 8 = k" 
    | k where "n = 16 + k" "k < 8" "n div 8 = 2" "n mod 8 = k" | k where "n = 24 + k" "k < 8" "n div 8 = 3" "n mod 8 = k"
  proof -
    have arith: "(8 + k) div 8 = 1 \<and> (8 + k) mod 8 = k" "(16 + k) div 8 = 2 \<and> (16 + k) mod 8 = k"
      "(24 + k) div 8 = 3 \<and> (24 + k) mod 8 = k" if "k < 8" for k :: nat
      using that by presburger+
    from \<open>n < LENGTH(32)\<close> consider "n < 8" | "8 \<le> n \<and> n < 16" | "16 \<le> n \<and> n < 24" | "24 \<le> n \<and> n < 32" by (auto; linarith)
    then show thesis
    proof cases
      case 1 then show ?thesis using that(1) by simp
    next case 2
      then obtain k where "n = 8 + k" using le_Suc_ex by blast
      then show ?thesis using 2 that(2) [of k] arith [of k] by simp
    next case 3
      then obtain k where "n = 16 + k" using le_Suc_ex by blast
      then show ?thesis using 3 that(3) [of k] arith [of k] by simp
    next case 4
      then obtain k where "n = 24 + k" using le_Suc_ex by blast
      then show ?thesis using 4 that(4) [of k] arith [of k] by simp
    qed
  qed
  then show "bit (push_bit 24 (ucast a) OR push_bit 16 (ucast b) OR push_bit 8 (ucast c) OR ucast d :: 32 word) n = bit (word_rcat [a, b, c, d] :: 32 word) n"
  proof cases
    case 1
    then show ?thesis by (simp add: bit_rcat bit_or_iff bit_push_bit_iff bit_ucast_iff)
  next
    case (2 k)
    then show ?thesis using high [of d "8+k"] by (auto simp add: bit_rcat bit_or_iff bit_push_bit_iff bit_ucast_iff)
  next
    case (3 k)
    then show ?thesis using high [of d "16+k"] high [of c "8+k"] by (auto simp add: bit_rcat bit_or_iff bit_push_bit_iff bit_ucast_iff)
  next
    case (4 k)
    then show ?thesis using high [of d "24+k"] high [of c "16+k"] high [of b "8+k"]  by (auto simp add: bit_rcat bit_or_iff bit_push_bit_iff bit_ucast_iff)
  qed
qed
lemma BigEndianWord_rcat:
  assumes "length block = 64" and "t < 16"
  shows "BigEndianWord block t = word_rcat (take 4 (drop (4 * t) block))"
proof -
  have "take 4 (drop (4 * t) block) = map (\<lambda>k. block ! (t * 4 + k)) [0..<4]"
    using assms by (intro nth_equalityI) (simp_all add: mult.commute)
  also have "\<dots> = [block ! (t * 4), block ! (t * 4 + 1), block ! (t * 4 + 2), block ! (t * 4 + 3)]"
    by (simp add: upt_rec eval_nat_numeral)
  finally show ?thesis by (simp only: BigEndianWord_def rcat_bytes)
qed

lemma Sha256Words_prefix:
  assumes block: "length block = 64" and "16 \<le> n"
  shows "fold (\<lambda>i ws. ws @ [NextWord ws i]) [16..<n] (map (BigEndianWord block) [0..<16]) = map (schedule block) [0..<n]"
  using assms(2)
proof (induction n rule: dec_induct)
  case base
  show ?case by (auto simp: BigEndianWord_rcat [OF block] schedule.simps)
next
  case (step n)
  have "NextWord (map (schedule block) [0..<n]) n = schedule block n"
    using step(1) by (subst schedule.simps) (simp add: NextWord_def RotateRight32_rotr small_sigma0_def small_sigma1_def)
  then show ?case using step by simp
qed

lemma Sha256Words_schedule: "length block = 64 \<Longrightarrow> Sha256Words block = map (schedule block) [0..<64]"
  unfolding Sha256Words_def by (rule Sha256Words_prefix) simp_all

lemma Sha256Round_rounds:
  assumes "length block = 64" and "n \<le> 64"
  shows "fold (Sha256Round (Sha256Words block)) [0..<n] state = rounds block n state"
  using assms(2)
proof (induction n)
  case (Suc n)
  obtain a b c d e f g h where r: "rounds block n state = (a, b, c, d, e, f, g, h)" by (metis prod.exhaust)
  then show ?case
    using Suc by (simp add: round_constant_nth Sha256Words_schedule [OF assms(1)] Sha256Round_def RotateRight32_rotr big_sigma0_def big_sigma1_def
        choose_word_def majority_def Let_def)
qed simp

lemma Sha256Block_compress: "length block = 64 \<Longrightarrow> Sha256Block state block = compress_block state block"
  by (simp add: Sha256Block_def compress_block_def Sha256Round_rounds)

lemma blocks_of_step: "64 \<le> length m \<Longrightarrow> blocks_of m = take 64 m # blocks_of (drop 64 m)"
proof -
  assume m: "64 \<le> length m"
  then obtain k where k: "length m div 64 = Suc k" by (metis Suc_pred' div_greater_zero_iff zero_less_numeral)
  moreover have "length (drop 64 m) div 64 = k" using m k by (simp add: le_div_geq)
  moreover have "map (\<lambda>i. take 64 (drop (64 * i) m)) [0..<Suc k] = take 64 m # map (\<lambda>i. take 64 (drop (64 * Suc i) m)) [0..<k]"
    by (simp add: upt_rec [of 0] map_Suc_upt [symmetric] del: upt_Suc)
  ultimately show ?thesis by (simp add: blocks_of_def add.commute)
qed

lemma blocks_of_short: "length m < 64 \<Longrightarrow> blocks_of m = []"
  by (simp add: blocks_of_def)

lemma WholeBlocks_fold:
  "\<exists>rest. WholeBlocks state m = (fst (WholeBlocks state m), rest) \<and> length rest < 64 \<and> length rest = length m mod 64 \<and>
     (\<forall>suffix. foldl compress_block state (blocks_of (m @ suffix)) = foldl compress_block (fst (WholeBlocks state m)) (blocks_of (rest @ suffix)))"
proof (induction state m rule: WholeBlocks.induct)
  case (1 state m)
  show ?case
  proof (cases "64 \<le> length m")
    case True
    have w: "WholeBlocks state m = WholeBlocks (Sha256Block state (take 64 m)) (drop 64 m)" by (subst WholeBlocks.simps) (simp add: True)
    have "blocks_of (m @ suffix) = take 64 m # blocks_of (drop 64 m @ suffix)" for suffix
      using True by (subst blocks_of_step) simp_all
    moreover have "length (drop 64 m) mod 64 = length m mod 64" using True by (simp add: mod_if [of "length m"])
    ultimately show ?thesis using "1.IH" [OF True] True by (simp add: w Sha256Block_compress)
  next
    case False
    then have "WholeBlocks state m = (state, m)" by (subst WholeBlocks.simps) simp
    then show ?thesis using False by simp
  qed
qed

lemma padding_length:
  assumes "r < 64" and "r = n mod 64"
  shows "nat ((55 - int n) mod 64) = (if r < 56 then 64 else 128) - 8 - (r + 1)"
proof -
  have "(55 - int n) mod 64 = (55 - int r) mod 64"
    unfolding assms(2) zmod_int by (simp add: mod_diff_right_eq)
  also have "\<dots> = (if r < 56 then 55 - int r else 119 - int r)"
  proof (cases "r < 56")
    case True
    then show ?thesis by (simp add: mod_pos_pos_trivial)
  next
    case False
    have "(55 - int r) mod 64 = ((55 - int r) + 64) mod 64" by (rule mod_add_self2 [symmetric])
    also have "(55 - int r) + 64 = 119 - int r" by simp
    also have "(119 - int r) mod 64 = 119 - int r" using False assms(1) by (intro mod_pos_pos_trivial) simp_all
    finally show ?thesis using False by simp
  qed
  finally show ?thesis using assms(1) by (cases "r < 56") (simp_all add: nat_diff_distrib)
qed

text \<open>
  C27. The firmware digest is SHA-256: for every buffer, \<open>HashRange\<close> computes the digest that the standard defines, with
  its padding, schedule and rounds.
\<close>

theorem HashRange_is_SHA256: "HashRange content = sha256 content"
proof -
  obtain state rest where w: "WholeBlocks Sha256Initial content = (state, rest)" and rest: "length rest < 64" "length rest = length content mod 64"
    and blocks: "\<And>suffix. foldl compress_block Sha256Initial (blocks_of (content @ suffix)) = foldl compress_block state (blocks_of (rest @ suffix))"
    using WholeBlocks_fold [of Sha256Initial content] by (metis fst_conv)
  let ?zeros = "nat ((55 - int (length content)) mod 64)"
  note zeros = padding_length [OF rest]
  define tail where "tail = TailBuffer rest (of_nat (length content) * 8)"
  have bits: "(of_nat (8 * length content) :: 64 word) = of_nat (length content) * 8" by simp
  have t: "rest @ [0x80] @ replicate ?zeros 0 @ BigEndian64 (of_nat (8 * length content)) = tail"
    unfolding tail_def TailBuffer_def Let_def zeros bits ..
  have n: "length tail = (if length rest < 56 then 64 else 128)"
    using rest(1) by (simp add: tail_def TailBuffer_def BigEndian64_def Let_def)
  then have tail_blocks: "blocks_of tail = take 64 tail # (if length tail = 128 then [drop 64 tail] else [])"
    by (cases "length rest < 56") (simp_all add: blocks_of_step blocks_of_short del: take_append drop_append)
  have last: "length tail = 128 \<Longrightarrow> length (drop 64 tail) = 64" "length (take 64 tail) = 64" using n by (simp_all split: if_splits)
  have "HashRange content = StateBytes (foldl compress_block state (blocks_of tail))"
    unfolding HashRange_def w prod.case tail_def [symmetric] Let_def tail_blocks
    using last by (cases "length tail = 128") (simp_all only: if_True if_False foldl.simps Sha256Block_compress refl simp_thms)
  also have "foldl compress_block state (blocks_of tail) = foldl compress_block Sha256Initial (blocks_of (padded content))"
    unfolding padded_def blocks [symmetric] t [symmetric] append_assoc ..
  finally show ?thesis by (simp only: sha256_def initial_digest_Initial)
qed

end
