(* ===== verification/Plan_State.thy ===== *)
theory Plan_State
  imports Bbs_Discovery Rom_Preflight Probe_Config
begin

text \<open>
  The runtime plan of \<open>RuntimePlan.h\<close> and the PCI services its builder and the boot driver call. A protocol
  interface is a number and a pointer that may be \<open>NULL\<close> an option; an array with its count is a list. The
  configuration space is reached through \<open>PciIo\<close> interfaces: reads and writes of 16-bit registers over an arbitrary
  world, so a log call may change what the next read returns unless a law excludes it.
\<close>

section \<open>The plan\<close>

text \<open>\<open>InventoryRecord\<close> points into the array of the inventory: it is an index.\<close>

record NATIVE_CSM_VGA_PLAN_ENDPOINT =
  ep_InventoryRecord :: "nat option"
  ep_Handle :: nat
  ep_PciIo :: "nat option"
  ep_Segment :: NCV_U16
  ep_Bus :: NCV_U8
  ep_Device :: NCV_U8
  ep_Function :: NCV_U8
  ep_Vendor :: NCV_U16
  ep_DeviceId :: NCV_U16
  ep_SubsystemVendor :: NCV_U16
  ep_SubsystemDevice :: NCV_U16
  ep_RootBridgeHandle :: "nat option"
  ep_RootBridgeIo :: "nat option"
  ep_ParentHostHandle :: "nat option"
  ep_OriginalCommand :: NCV_U16
  ep_OriginalAttributes :: "64 word"
  ep_OriginalAttributesStatus :: EFI_STATUS

record NATIVE_CSM_VGA_PLAN_BRIDGE =
  br_Record :: PCI_DEVICE_RECORD
  br_OriginalBridgeControl :: NCV_U16
  br_WriteAttempted :: bool
  br_WriteApplied :: bool

record NATIVE_CSM_VGA_PLAN_COMPATIBILITY16 =
  ct_Table :: "nat option"
  ct_Address :: nat
  ct_TableLength :: NCV_U8
  ct_StoredChecksum :: NCV_U8
  ct_CalculatedChecksum :: NCV_U8
  ct_CallSegment :: NCV_U16
  ct_CallOffset :: NCV_U16
  ct_CallAddress :: nat
  ct_PnpSegment :: NCV_U16
  ct_PnpOffset :: NCV_U16
  ct_ChecksumValid :: bool
  ct_StructuralCorroboration :: bool
  ct_StaleChecksumAccepted :: bool

text \<open>The exposed and the selected ROM are their bytes; the selected one is a part of the exposed one.\<close>

record RUNTIME_PLAN =
  rp_Config :: PROBE_CONFIG
  rp_Inventory :: PCI_INVENTORY
  rp_LegacyBios :: "nat option"
  rp_LegacyRegion2 :: "nat option"
  rp_Target :: NATIVE_CSM_VGA_PLAN_ENDPOINT
  rp_Active :: NATIVE_CSM_VGA_PLAN_ENDPOINT
  rp_StorageController :: NATIVE_CSM_VGA_PLAN_ENDPOINT
  rp_ExposedRom :: "NCV_U8 list option"
  rp_SelectedRom :: "NCV_U8 list option"
  rp_SelectedRomOffset :: nat
  rp_SelectedRomSize :: nat
  rp_SelectedRomVendor :: NCV_U16
  rp_SelectedRomDevice :: NCV_U16
  rp_RomValidation :: OPTION_ROM_VALIDATION
  rp_ActivePath :: "NATIVE_CSM_VGA_PLAN_BRIDGE list"
  rp_TargetPath :: "NATIVE_CSM_VGA_PLAN_BRIDGE list"
  rp_SharedPath :: "NATIVE_CSM_VGA_PLAN_BRIDGE list"
  rp_ActiveExclusivePath :: "NATIVE_CSM_VGA_PLAN_BRIDGE list"
  rp_TargetExclusivePath :: "NATIVE_CSM_VGA_PLAN_BRIDGE list"
  rp_Compatibility16 :: NATIVE_CSM_VGA_PLAN_COMPATIBILITY16
  rp_StorageControllerAddress :: NCV_PCI_ADDRESS
  rp_BootTarget :: LEGACY_BOOT_BOOT_TARGET_CONTEXT
  rp_UniqueBbsIndex :: nat
  rp_UniqueBbsEntry :: BBS_TABLE
  rp_BootOption :: "NCV_U8 list option"
  rp_OpaqueLoadOptions :: "NCV_U8 list option"
  rp_InitialInt10Offset :: NCV_U16
  rp_InitialInt10Segment :: NCV_U16
  rp_EndpointWriteAttempted :: bool
  rp_EndpointWriteApplied :: bool
  rp_RouteDirty :: bool
  rp_ValidationCompleted :: bool
  rp_ValidationPassed :: bool
  rp_Complete :: bool

text \<open>The fields that the ROM preflight reads.\<close>

definition guard_plan :: "RUNTIME_PLAN \<Rightarrow> NATIVE_CSM_VGA_RUNTIME_PLAN" where
  "guard_plan p = \<lparr>pl_Inventory = rp_Inventory p, pl_ActiveVendor = ep_Vendor (rp_Active p), pl_ActiveDeviceId = ep_DeviceId (rp_Active p),
     pl_SelectedRom = map_option bytes_of (rp_SelectedRom p), pl_SelectedRomSize = rp_SelectedRomSize p,
     pl_RomValidation = rp_RomValidation p, pl_EndpointWriteAttempted = rp_EndpointWriteAttempted p,
     pl_EndpointWriteApplied = rp_EndpointWriteApplied p, pl_RouteDirty = rp_RouteDirty p\<rparr>"

text \<open>What \<open>ZeroMem\<close> leaves.\<close>

definition zero_endpoint :: NATIVE_CSM_VGA_PLAN_ENDPOINT where
  "zero_endpoint = \<lparr>ep_InventoryRecord = None, ep_Handle = 0, ep_PciIo = None, ep_Segment = 0, ep_Bus = 0, ep_Device = 0,
     ep_Function = 0, ep_Vendor = 0, ep_DeviceId = 0, ep_SubsystemVendor = 0, ep_SubsystemDevice = 0, ep_RootBridgeHandle = None,
     ep_RootBridgeIo = None, ep_ParentHostHandle = None, ep_OriginalCommand = 0, ep_OriginalAttributes = 0,
     ep_OriginalAttributesStatus = EFI_SUCCESS\<rparr>"

definition zero_compatibility16 :: NATIVE_CSM_VGA_PLAN_COMPATIBILITY16 where
  "zero_compatibility16 = \<lparr>ct_Table = None, ct_Address = 0, ct_TableLength = 0, ct_StoredChecksum = 0, ct_CalculatedChecksum = 0,
     ct_CallSegment = 0, ct_CallOffset = 0, ct_CallAddress = 0, ct_PnpSegment = 0, ct_PnpOffset = 0, ct_ChecksumValid = False,
     ct_StructuralCorroboration = False, ct_StaleChecksumAccepted = False\<rparr>"

definition zero_config :: PROBE_CONFIG where
  "zero_config = \<lparr>
     g_Present = False, g_FirstRun = False, g_Probe = False, g_DiscoveryMode = False, g_HasTargetPci = False,
     g_HasTargetControllerPci = False, g_HasExpectedVendor = False, g_HasExpectedDevice = False,
     g_HasExpectedSubsystemVendor = False, g_HasExpectedSubsystemDevice = False,
     g_HasLegacyOptionDescription = False, g_HasExcludeDescription = False, g_HasTargetBbsDescription = False,
     g_HasVerboseLog = False, g_HasAutoBoot = False, g_HasRequireReferenceSnapshotMatch = False,
     g_HasIoDecoding = False, g_HasMemoryDecoding = False, g_HasBusMastering = False, g_VerboseLog = False,
     g_AutoBoot = False, g_RequireReferenceSnapshotMatch = False, g_IoDecoding = NcvEndpointIgnore,
     g_MemoryDecoding = NcvEndpointIgnore, g_BusMastering = NcvEndpointIgnore, g_TargetPci = PciAddress 0 0 0 0,
     g_TargetControllerPci = PciAddress 0 0 0 0, g_ExpectedVendor = 0, g_ExpectedDevice = 0,
     g_ExpectedSubsystemVendor = 0, g_ExpectedSubsystemDevice = 0, g_Name = [], g_LegacyOptionDescription = [],
     g_ExcludeDescription = [], g_TargetBbsDescription = []\<rparr>"

definition zero_plan :: RUNTIME_PLAN where
  "zero_plan = \<lparr>
     rp_Config = zero_config, rp_Inventory = \<lparr>inv_Devices = None, inv_Count = 0\<rparr>, rp_LegacyBios = None,
     rp_LegacyRegion2 = None, rp_Target = zero_endpoint, rp_Active = zero_endpoint,
     rp_StorageController = zero_endpoint, rp_ExposedRom = None, rp_SelectedRom = None, rp_SelectedRomOffset = 0,
     rp_SelectedRomSize = 0, rp_SelectedRomVendor = 0, rp_SelectedRomDevice = 0, rp_RomValidation = empty_validation,
     rp_ActivePath = [], rp_TargetPath = [], rp_SharedPath = [], rp_ActiveExclusivePath = [],
     rp_TargetExclusivePath = [], rp_Compatibility16 = zero_compatibility16,
     rp_StorageControllerAddress = PciAddress 0 0 0 0, rp_BootTarget = zero_context, rp_UniqueBbsIndex = 0,
     rp_UniqueBbsEntry = zero_row, rp_BootOption = None, rp_OpaqueLoadOptions = None, rp_InitialInt10Offset = 0,
     rp_InitialInt10Segment = 0, rp_EndpointWriteAttempted = False, rp_EndpointWriteApplied = False,
     rp_RouteDirty = False, rp_ValidationCompleted = False, rp_ValidationPassed = False, rp_Complete = False\<rparr>"

section \<open>PCI services\<close>

text \<open>
  \<open>PciRead16\<close> returns the status and the content of the caller's variable after the call, \<open>PciRomImage\<close> the address and the
  bytes of the exposed ROM unless its pointer is \<open>NULL\<close>. The \<open>NULL\<close> tests
  of the members of an interface are the predicates.
\<close>

record 'w pci_services =
  PciHasRead :: "nat \<Rightarrow> bool"
  PciHasWrite :: "nat \<Rightarrow> bool"
  PciHasAttributes :: "nat \<Rightarrow> bool"
  PciRead16 :: "nat \<Rightarrow> nat \<Rightarrow> ('w, EFI_STATUS \<times> NCV_U16) state"
  PciWrite16 :: "nat \<Rightarrow> nat \<Rightarrow> NCV_U16 \<Rightarrow> ('w, EFI_STATUS) state"
  PciAttributes :: "nat \<Rightarrow> ('w, EFI_STATUS \<times> 64 word) state"
  PciRomImage :: "nat \<Rightarrow> ('w, (nat \<times> NCV_U8 list) option) state"
  PciLogPrint :: "string \<Rightarrow> ('w, EFI_STATUS) state"
  PciLogCommit :: "('w, EFI_STATUS) state"

definition PCI_COMMAND_OFFSET :: nat where [ncv_defs]: "PCI_COMMAND_OFFSET = 4"
definition PCI_BRIDGE_CONTROL_OFFSET :: nat where [ncv_defs]: "PCI_BRIDGE_CONTROL_OFFSET = 0x3E"
definition PCI_BRIDGE_VGA_ENABLE :: NCV_U16 where [ncv_defs]: "PCI_BRIDGE_VGA_ENABLE = 8"
definition PCI_COMMAND_IO :: NCV_U16 where [ncv_defs]: "PCI_COMMAND_IO = 1"
definition PCI_COMMAND_MEMORY :: NCV_U16 where [ncv_defs]: "PCI_COMMAND_MEMORY = 2"
definition PCI_COMMAND_BUS_MASTER :: NCV_U16 where [ncv_defs]: "PCI_COMMAND_BUS_MASTER = 4"

text \<open>
  The documented behaviour of PCI configuration space: \<open>cfg w io offset\<close> is the register of a function. A
  successful read returns it, reads and log calls change none, and a write changes at most the register it
  addresses. Nothing says that a write takes effect.
\<close>

definition pci_laws :: "('w \<Rightarrow> nat \<Rightarrow> nat \<Rightarrow> NCV_U16) \<Rightarrow> 'w pci_services \<Rightarrow> bool" where
  "pci_laws cfg sv \<longleftrightarrow>
     (\<forall>io off w. wp (PciRead16 sv io off) (\<lambda>(status, v) w'. cfg w' = cfg w \<and> (\<not> EFI_ERROR status \<longrightarrow> v = cfg w io off)) w) \<and>
     (\<forall>io off v w. wp (PciWrite16 sv io off v)
        (\<lambda>_ w'. \<forall>io' off'. (io', off') \<noteq> (io, off) \<longrightarrow> cfg w' io' off' = cfg w io' off') w) \<and>
     (\<forall>io. keeps cfg (PciAttributes sv io)) \<and> (\<forall>io. keeps cfg (PciRomImage sv io)) \<and>
     (\<forall>s. keeps cfg (PciLogPrint sv s)) \<and> keeps cfg (PciLogCommit sv)"

end
