(* ===== verification/Compat16.thy ===== *)
theory Compat16
  imports Plan_State
begin

text \<open>
  The search for the Compatibility16 table in \<open>RuntimePlan.c\<close>. Physical memory is a function from addresses to bytes,
  \<open>systemTable\<close> the low half of the address of the system table. The log calls of the routine decide nothing and are left
  out; the structure is packed, so its fields are read at their byte offsets.
\<close>

definition COMPAT_SCAN_START :: nat where [ncv_defs]: "COMPAT_SCAN_START = 0xE0000"
definition COMPAT_SCAN_END :: nat where [ncv_defs]: "COMPAT_SCAN_END = 0x100000"
definition COMPAT_SCAN_ALIGNMENT :: nat where [ncv_defs]: "COMPAT_SCAN_ALIGNMENT = 16"
definition COMPAT_CALL_SAMPLE_BYTES :: nat where [ncv_defs]: "COMPAT_CALL_SAMPLE_BYTES = 32"
definition COMPAT_REQUIRED_LENGTH :: nat where [ncv_defs]: "COMPAT_REQUIRED_LENGTH = 24"
definition COMPAT_PCIE_OFFSET :: nat where [ncv_defs]: "COMPAT_PCIE_OFFSET = 78"
definition COMPAT_PCIE_END :: nat where [ncv_defs]: "COMPAT_PCIE_END = 82"
definition COMPAT_LAST_BUS_END :: nat where [ncv_defs]: "COMPAT_LAST_BUS_END = 83"
definition sizeof_compat_table :: nat where [ncv_defs]: "sizeof_compat_table = 99"

definition FarAddress :: "NCV_U16 \<Rightarrow> NCV_U16 \<Rightarrow> nat" where
  "FarAddress segment offset = unat segment * 16 + unat offset"

definition ExecutableLooking :: "bytes \<Rightarrow> nat \<Rightarrow> nat \<Rightarrow> bool" where
  "ExecutableLooking mem address byteCount \<longleftrightarrow>
     byteCount \<noteq> 0 \<and>
     4 \<le> foldl (\<lambda>codeBytes i. if mem (address + i) \<noteq> 0 \<and> mem (address + i) \<noteq> 0xFF then codeBytes + 1 else codeBytes) (0 :: nat) [0..<byteCount]"

definition Le32 :: "bytes \<Rightarrow> nat \<Rightarrow> NCV_U32" where
  "Le32 P i = ucast (Le16 P i) OR push_bit 16 (ucast (Le16 P (i + 2)))"

definition TableChecksum :: "bytes \<Rightarrow> nat \<Rightarrow> nat \<Rightarrow> NCV_U8" where
  "TableChecksum mem address n = foldl (\<lambda>c i. c + mem (address + i)) 0 [0..<n]"

abbreviation readable :: "MEMORY_MAP_SNAPSHOT \<Rightarrow> nat \<Rightarrow> nat \<Rightarrow> bool" where
  "readable m address n \<equiv> fst (MemoryMapRangeIsReadable (Some m) address n False)"

text \<open>The copy of the table: what it does not declare is zero.\<close>

definition CandidateCopy :: "bytes \<Rightarrow> nat \<Rightarrow> nat \<Rightarrow> bytes" where
  "CandidateCopy mem address tableLength i = (if i < min tableLength sizeof_compat_table then mem (address + i) else 0)"

text \<open>The body of the scan for one address: the record that \<open>Selected\<close> gets when the candidate is accepted.\<close>

definition CompatCandidate :: "MEMORY_MAP_SNAPSHOT \<Rightarrow> bytes \<Rightarrow> NCV_U32 \<Rightarrow> nat \<Rightarrow> NATIVE_CSM_VGA_PLAN_COMPATIBILITY16 option" where
  "CompatCandidate m mem systemTable address =
     (if \<not> readable m address 6 then None
      else if mem address \<noteq> 0x49 \<or> mem (address + 1) \<noteq> 0x46 \<or> mem (address + 2) \<noteq> 0x45 \<or> mem (address + 3) \<noteq> 0x24 then None
      else
        let tableLength = unat (mem (address + 5))
        in if tableLength < COMPAT_REQUIRED_LENGTH \<or> tableLength > COMPAT_SCAN_END - address \<or> \<not> readable m address tableLength then None
           else
             let candidate = CandidateCopy mem address tableLength;
                 callSegment = Le16 candidate 12; callOffset = Le16 candidate 14;
                 pnpSegment = Le16 candidate 16; pnpOffset = Le16 candidate 18;
                 callAddress = FarAddress callSegment callOffset; pnpAddress = FarAddress pnpSegment pnpOffset;
                 efiSystemTable = Le32 candidate 20; pciExpressBase = Le32 candidate 78; lastPciBus = candidate 82;
                 revisionSane = (candidate 8 \<noteq> 0xFF \<and> candidate 9 \<noteq> 0xFF);
                 systemTableRelationship = (efiSystemTable = 0 \<or> efiSystemTable = systemTable);
                 exactSystemTableRelationship = (efiSystemTable = systemTable);
                 pciExpressSane = (tableLength \<le> COMPAT_PCIE_OFFSET \<or> tableLength \<ge> COMPAT_PCIE_END \<and> pciExpressBase AND 0xFFF = 0);
                 lastBusSane = (tableLength \<ge> COMPAT_LAST_BUS_END \<and> tableLength \<le> sizeof_compat_table \<and> pciExpressBase \<noteq> 0 \<and> lastPciBus \<noteq> 0);
                 callLooksExecutable = (callAddress \<ge> COMPAT_SCAN_START \<and> callAddress \<le> COMPAT_SCAN_END - COMPAT_CALL_SAMPLE_BYTES \<and>
                   readable m callAddress COMPAT_CALL_SAMPLE_BYTES \<and> ExecutableLooking mem callAddress COMPAT_CALL_SAMPLE_BYTES);
                 pnpSignatureValid = (pnpAddress \<ge> COMPAT_SCAN_START \<and> pnpAddress \<le> COMPAT_SCAN_END - 4 \<and>
                   readable m pnpAddress 4 \<and> bytes_eq mem pnpAddress PnP 0 4);
                 checksum = TableChecksum mem address tableLength;
                 checksumValid = (checksum = 0);
                 structural = (revisionSane \<and> exactSystemTableRelationship \<and> pciExpressSane \<and> lastBusSane \<and> callLooksExecutable \<and> pnpSignatureValid);
                 accepted = (revisionSane \<and> systemTableRelationship \<and> pciExpressSane \<and> callLooksExecutable \<and> pnpSignatureValid \<and>
                   (checksumValid \<or> structural))
             in if \<not> accepted then None
                else Some \<lparr>ct_Table = Some address, ct_Address = address, ct_TableLength = mem (address + 5), ct_StoredChecksum = candidate 4,
                       ct_CalculatedChecksum = checksum, ct_CallSegment = callSegment, ct_CallOffset = callOffset, ct_CallAddress = callAddress,
                       ct_PnpSegment = pnpSegment, ct_PnpOffset = pnpOffset, ct_ChecksumValid = checksumValid,
                       ct_StructuralCorroboration = structural, ct_StaleChecksumAccepted = (\<not> checksumValid \<and> structural)\<rparr>)"

text \<open>The scan, with \<open>AcceptedCount\<close> and \<open>Selected\<close>.\<close>

function CompatLoop :: "MEMORY_MAP_SNAPSHOT \<Rightarrow> bytes \<Rightarrow> NCV_U32 \<Rightarrow> nat \<Rightarrow>
    nat \<times> NATIVE_CSM_VGA_PLAN_COMPATIBILITY16 \<Rightarrow> nat \<times> NATIVE_CSM_VGA_PLAN_COMPATIBILITY16" where
  "CompatLoop m mem systemTable address acc =
     (if address + 6 \<le> COMPAT_SCAN_END then
        CompatLoop m mem systemTable (address + COMPAT_SCAN_ALIGNMENT)
          (case CompatCandidate m mem systemTable address of None \<Rightarrow> acc | Some c \<Rightarrow> (fst acc + 1, c))
      else acc)"
  by pat_completeness auto
termination by (relation "measure (\<lambda>(_, _, _, address, _). COMPAT_SCAN_END - address)") (auto simp: ncv_defs)

declare CompatLoop.simps [simp del]

definition SelectCompatibility16 :: "'w memory_services \<Rightarrow> 'w \<Rightarrow> bytes \<Rightarrow> NCV_U32 \<Rightarrow>
    (EFI_STATUS \<times> NATIVE_CSM_VGA_PLAN_COMPATIBILITY16) \<times> 'w" where
  "SelectCompatibility16 bs w mem systemTable =
     (case MemoryMapCapture bs w of
        (Inl status, w) \<Rightarrow> ((status, zero_compatibility16), w)
      | (Inr m, w) \<Rightarrow>
          (let (acceptedCount, selected) = CompatLoop m mem systemTable COMPAT_SCAN_START (0, zero_compatibility16)
           in if acceptedCount \<noteq> 1 \<or> ct_Table selected = None
              then ((if acceptedCount = 0 then EFI_NOT_FOUND else EFI_NO_MAPPING, zero_compatibility16), w)
              else ((EFI_SUCCESS, selected), w)))"

section \<open>What a table is\<close>

text \<open>
  A table without reference to the copy, the counters and the flags of the scan: a readable record with the signature, sane
  revision and PCIe field, an entry point with at least four plausible code bytes, the PnP signature, and either a zero byte sum and a
  matching or absent system table, or the exact system table with all optional fields present.
\<close>

definition code_at :: "MEMORY_MAP_SNAPSHOT \<Rightarrow> bytes \<Rightarrow> nat \<Rightarrow> bool" where
  "code_at m mem call \<longleftrightarrow> 0xE0000 \<le> call \<and> call + 32 \<le> 0x100000 \<and> readable m call 32 \<and>
     4 \<le> card {i. i < 32 \<and> mem (call + i) \<noteq> 0 \<and> mem (call + i) \<noteq> 0xFF}"

definition pnp_at :: "MEMORY_MAP_SNAPSHOT \<Rightarrow> bytes \<Rightarrow> nat \<Rightarrow> bool" where
  "pnp_at m mem pnp \<longleftrightarrow> 0xE0000 \<le> pnp \<and> pnp + 4 \<le> 0x100000 \<and> readable m pnp 4 \<and> map mem [pnp..<pnp + 4] = [0x24, 0x50, 0x6E, 0x50]"

definition compat_table :: "MEMORY_MAP_SNAPSHOT \<Rightarrow> bytes \<Rightarrow> NCV_U32 \<Rightarrow> nat \<Rightarrow> bool" where
  "compat_table m mem systemTable a \<longleftrightarrow>
     (let n = unat (mem (a + 5))
      in readable m a 6 \<and> map mem [a..<a + 4] = [0x49, 0x46, 0x45, 0x24] \<and> 24 \<le> n \<and> a + n \<le> 0x100000 \<and> readable m a n \<and>
         mem (a + 8) \<noteq> 0xFF \<and> mem (a + 9) \<noteq> 0xFF \<and> (n \<le> 78 \<or> 82 \<le> n \<and> Le32 mem (a + 78) AND 0xFFF = 0) \<and>
         code_at m mem (FarAddress (Le16 mem (a + 12)) (Le16 mem (a + 14))) \<and>
         pnp_at m mem (FarAddress (Le16 mem (a + 16)) (Le16 mem (a + 18))) \<and>
         ((\<Sum>i<n. unat (mem (a + i))) mod 256 = 0 \<and> Le32 mem (a + 20) \<in> {0, systemTable} \<or>
          Le32 mem (a + 20) = systemTable \<and> 83 \<le> n \<and> n \<le> 99 \<and> Le32 mem (a + 78) \<noteq> 0 \<and> mem (a + 82) \<noteq> 0))"

lemma ExecutableLooking_iff:
  "ExecutableLooking mem a n \<longleftrightarrow> n \<noteq> 0 \<and> 4 \<le> card {i. i < n \<and> mem (a + i) \<noteq> 0 \<and> mem (a + i) \<noteq> 0xFF}"
proof -
  let ?P = "\<lambda>i. mem (a + i) \<noteq> 0 \<and> mem (a + i) \<noteq> 0xFF"
  have "foldl (\<lambda>k i. if ?P i then k + 1 else k) (c :: nat) xs = c + length (filter ?P xs)" for xs c
    by (induction xs arbitrary: c) auto
  moreover have "length (filter ?P [0..<n]) = card {i. i < n \<and> ?P i}"
    by (subst distinct_card [symmetric]) (auto intro!: arg_cong [where f = card])
  ultimately show ?thesis by (simp add: ExecutableLooking_def)
qed

lemma TableChecksum_zero: "TableChecksum mem a n = 0 \<longleftrightarrow> (\<Sum>i<n. unat (mem (a + i))) mod 256 = 0"
proof -
  have "TableChecksum mem a n = of_nat (\<Sum>i<n. unat (mem (a + i)))"
    by (induction n) (simp_all add: TableChecksum_def)
  then show ?thesis using of_nat_eq_0_iff [of "\<Sum>i<n. unat (mem (a + i))"]
    by (simp only: word_of_nat_eq_0_iff) (simp add: dvd_eq_mod_eq_0)
qed

lemma four_bytes: "map mem [a..<a + 4] = [b0, b1, b2, b3] \<longleftrightarrow> mem a = b0 \<and> mem (a + 1) = b1 \<and> mem (a + 2) = b2 \<and> mem (a + 3) = b3"
  by (simp add: upt_rec numeral_eq_Suc)

lemma if_None: "(if b then None else x) \<noteq> None \<longleftrightarrow> \<not> b \<and> x \<noteq> None"
  by simp

lemma CompatCandidate_iff:
  assumes "a \<le> 0x100000"
  shows "CompatCandidate m mem systemTable a \<noteq> None \<longleftrightarrow> compat_table m mem systemTable a"
proof -
  define n where "n = unat (mem (a + 5))"
  define cand where "cand = CandidateCopy mem a n"
  have low: "Le16 cand 12 = Le16 mem (a + 12)" "Le16 cand 14 = Le16 mem (a + 14)" "Le16 cand 16 = Le16 mem (a + 16)" "Le16 cand 18 = Le16 mem (a + 18)"
    "Le32 cand 20 = Le32 mem (a + 20)" "cand 8 = mem (a + 8)" "cand 9 = mem (a + 9)" if "24 \<le> n"
    using that by (simp_all add: cand_def CandidateCopy_def Le16_def Le32_def ncv_defs add.commute)
  have high: "Le32 cand 78 = Le32 mem (a + 78)" if "82 \<le> n"
    using that by (simp add: cand_def CandidateCopy_def Le16_def Le32_def ncv_defs add.commute)
  have bus: "cand 82 = mem (a + 82)" if "83 \<le> n" using that by (simp add: cand_def CandidateCopy_def ncv_defs)
  have pnp: "bytes_eq mem x PnP 0 4 \<longleftrightarrow> map mem [x..<x + 4] = [0x24, 0x50, 0x6E, 0x50]" for x
    by (simp add: bytes_eq_iff PnP_def bytes_of_def four_bytes All_less_Suc numeral_eq_Suc conj_ac)
  have code: "call \<ge> COMPAT_SCAN_START \<and> call \<le> COMPAT_SCAN_END - COMPAT_CALL_SAMPLE_BYTES \<and> readable m call COMPAT_CALL_SAMPLE_BYTES \<and>
      ExecutableLooking mem call COMPAT_CALL_SAMPLE_BYTES \<longleftrightarrow> code_at m mem call" for call
    by (auto simp: code_at_def ExecutableLooking_iff ncv_defs)
  have sign: "x \<ge> COMPAT_SCAN_START \<and> x \<le> COMPAT_SCAN_END - 4 \<and> readable m x 4 \<and> bytes_eq mem x PnP 0 4 \<longleftrightarrow> pnp_at m mem x" for x
    by (auto simp: pnp_at_def pnp ncv_defs)
  have range: "n > COMPAT_SCAN_END - a \<longleftrightarrow> \<not> a + n \<le> 0x100000" using assms by (auto simp: ncv_defs)
  show ?thesis
  proof (cases "24 \<le> n")
    case False
    then show ?thesis by (simp add: CompatCandidate_def compat_table_def Let_def COMPAT_REQUIRED_LENGTH_def flip: n_def)
  next
    case True
    then have n24: "\<not> n < COMPAT_REQUIRED_LENGTH" by (simp add: ncv_defs)
    have pcie: "n \<le> COMPAT_PCIE_OFFSET \<or> n \<ge> COMPAT_PCIE_END \<and> Le32 cand 78 AND 0xFFF = 0 \<longleftrightarrow>
        n \<le> 78 \<or> 82 \<le> n \<and> Le32 mem (a + 78) AND 0xFFF = 0"
      using high by (auto simp: ncv_defs)
    have tail: "n \<ge> COMPAT_LAST_BUS_END \<and> n \<le> sizeof_compat_table \<and> Le32 cand 78 \<noteq> 0 \<and> cand 82 \<noteq> 0 \<longleftrightarrow>
        83 \<le> n \<and> n \<le> 99 \<and> Le32 mem (a + 78) \<noteq> 0 \<and> mem (a + 82) \<noteq> 0"
      using high bus by (auto simp: ncv_defs)
    show ?thesis
      unfolding CompatCandidate_def compat_table_def Let_def n_def [symmetric] cand_def [symmetric] low [OF True] code sign four_bytes range
        TableChecksum_zero pcie tail if_None insert_iff empty_iff
      using n24 True by (simp only: option.distinct simp_thms) blast
  qed
qed

section \<open>The scan\<close>

abbreviation compat_address :: "nat \<Rightarrow> nat" where
  "compat_address k \<equiv> 0xE0000 + 16 * k"

definition compat_scan :: "MEMORY_MAP_SNAPSHOT \<Rightarrow> bytes \<Rightarrow> NCV_U32 \<Rightarrow> nat list" where
  "compat_scan m mem systemTable = filter (\<lambda>a. CompatCandidate m mem systemTable a \<noteq> None) (map compat_address [0..<8192])"

abbreviation compat_step where
  "compat_step m mem systemTable acc a \<equiv> (case CompatCandidate m mem systemTable a of None \<Rightarrow> acc | Some c \<Rightarrow> (fst acc + 1, c))"

lemma CompatLoop_fold:
  assumes "j \<le> 8192"
  shows "CompatLoop m mem st (compat_address j) acc = foldl (compat_step m mem st) acc (map compat_address [j..<8192])"
  using assms
proof (induction "8192 - j" arbitrary: j acc)
  case 0
  then show ?case by (subst CompatLoop.simps) (simp add: ncv_defs)
next
  case (Suc d)
  then have j: "j < 8192" by simp
  have step: "compat_address j + COMPAT_SCAN_ALIGNMENT = compat_address (Suc j)" by (simp add: ncv_defs)
  show ?case
    using j Suc(2) Suc(1) [of "Suc j"]
    by (subst CompatLoop.simps) (simp add: step upt_conv_Cons COMPAT_SCAN_END_def del: upt_Suc)
qed

lemma CompatLoop_result:
  "foldl (compat_step m mem st) (n, s) as =
     (let hits = filter (\<lambda>a. CompatCandidate m mem st a \<noteq> None) as
      in (n + length hits, if hits = [] then s else the (CompatCandidate m mem st (last hits))))"
proof (induction as arbitrary: n s)
  case (Cons a as)
  then show ?case by (cases "CompatCandidate m mem st a") (auto simp: Let_def)
qed simp

lemma if_NoneD: "(if b then None else x) = Some c \<Longrightarrow> x = Some c"
  by (simp split: if_splits)

lemma CompatCandidate_Table: "CompatCandidate m mem st a = Some c \<Longrightarrow> ct_Table c = Some a \<and> ct_Address c = a"
  unfolding CompatCandidate_def Let_def by (drule if_NoneD)+ (simp only: option.inject, erule subst, simp)

lemma compat_scan_set: "set (compat_scan m mem st) = {a. a mod 16 = 0 \<and> 0xE0000 \<le> a \<and> a < 0x100000 \<and> compat_table m mem st a}"
proof -
  have addr: "a \<in> set (map compat_address [0..<8192]) \<longleftrightarrow> a mod 16 = 0 \<and> 0xE0000 \<le> a \<and> a < 0x100000" for a
  proof
    assume a: "a mod 16 = 0 \<and> 0xE0000 \<le> a \<and> a < 0x100000"
    then obtain q where q: "a = 16 * q" by (metis mod_0_imp_dvd dvdE)
    then have "a = compat_address (q - 0xE000)" "q - 0xE000 \<in> {0..<8192}" using a by auto
    then show "a \<in> set (map compat_address [0..<8192])" unfolding set_map set_upt by (rule image_eqI)
  next
    assume "a \<in> set (map compat_address [0..<8192])"
    then obtain k where "k \<in> {0..<8192}" "a = compat_address k" unfolding set_map set_upt by (rule imageE)
    then show "a mod 16 = 0 \<and> 0xE0000 \<le> a \<and> a < 0x100000" by simp
  qed
  show ?thesis unfolding compat_scan_def set_filter addr by (rule Collect_cong) (metis CompatCandidate_iff order_less_imp_le)
qed

lemma distinct_compat_scan: "distinct (compat_scan m mem st)"
  unfolding compat_scan_def by (intro distinct_filter) (simp add: distinct_map inj_on_def)

lemma singleton_list: "distinct xs \<Longrightarrow> length xs = 1 \<longleftrightarrow> (\<exists>a. set xs = {a})"
  by (metis One_nat_def card_1_singleton_iff distinct_card)

text \<open>
  C18. The CSM entry point is used only when it is unambiguous: the search succeeds exactly when a memory map can be captured
  and exactly one paragraph of the BIOS area holds a table, and it returns that table.
\<close>

theorem SelectCompatibility16_unique:
  "SelectCompatibility16 bs w mem systemTable = ((EFI_SUCCESS, c), w') \<longleftrightarrow>
     (\<exists>m a. MemoryMapCapture bs w = (Inr m, w') \<and> CompatCandidate m mem systemTable a = Some c \<and>
        {a. a mod 16 = 0 \<and> 0xE0000 \<le> a \<and> a < 0x100000 \<and> compat_table m mem systemTable a} = {a})"
proof (cases "MemoryMapCapture bs w")
  case (Pair r w1)
  show ?thesis
  proof (cases r)
    case (Inl status)
    have "status \<noteq> EFI_SUCCESS" using MemoryMapCapture_result [OF Pair] Inl by auto
    then show ?thesis using Pair Inl by (auto simp: SelectCompatibility16_def)
  next
    case (Inr m)
    let ?hits = "compat_scan m mem systemTable"
    have loop: "CompatLoop m mem systemTable COMPAT_SCAN_START (0, zero_compatibility16) =
        (length ?hits, if ?hits = [] then zero_compatibility16 else the (CompatCandidate m mem systemTable (last ?hits)))"
      using CompatLoop_fold [of 0 m mem systemTable] CompatLoop_result [of m mem systemTable 0 zero_compatibility16 "map compat_address [0..<8192]"]
      by (simp add: COMPAT_SCAN_START_def compat_scan_def Let_def)
    have some: "CompatCandidate m mem systemTable a \<noteq> None" if "a \<in> set ?hits" for a using that by (simp add: compat_scan_def)
    show ?thesis
    proof (cases "\<exists>a. ?hits = [a]")
      case True
      then obtain a where a: "?hits = [a]" by blast
      then obtain c' where c': "CompatCandidate m mem systemTable a = Some c'" using some [of a] by auto
      have "SelectCompatibility16 bs w mem systemTable = ((EFI_SUCCESS, c'), w1)"
        using Pair Inr a c' CompatCandidate_Table [OF c'] by (simp add: SelectCompatibility16_def loop)
      moreover have "set ?hits = {b} \<longleftrightarrow> b = a" for b using a by auto
      ultimately show ?thesis using Pair Inr c' by (auto simp flip: compat_scan_set)
    next
      case False
      then have "length ?hits \<noteq> 1" by (auto simp: length_Suc_conv)
      moreover from this have "set ?hits \<noteq> {a}" for a using singleton_list [OF distinct_compat_scan] by blast
      ultimately show ?thesis using Pair Inr by (auto simp: SelectCompatibility16_def loop simp flip: compat_scan_set)
    qed
  qed
qed

end
