(* ===== verification/Pci_Path.thy ===== *)
theory Pci_Path
  imports Plan_State "HOL-Library.Multiset"
begin

text \<open>
  The bridge paths of \<open>PciEnumerate.c\<close>: which records of the inventory are the ancestors of a display controller by
  device path, their order from the root bridge down, and the cross-check of that path against the bus registers. Records
  of the inventory are named by their indices, as in the source.
\<close>

unbundle bit_operations_syntax

section \<open>Records\<close>

definition PCI_PRIMARY_BUS_OFFSET :: nat where [ncv_defs]: "PCI_PRIMARY_BUS_OFFSET = 0x18"
definition PCI_SECONDARY_BUS_OFFSET :: nat where [ncv_defs]: "PCI_SECONDARY_BUS_OFFSET = 0x19"
definition PCI_SUBORDINATE_BUS_OFFSET :: nat where [ncv_defs]: "PCI_SUBORDINATE_BUS_OFFSET = 0x1A"
definition END_DEVICE_PATH_LENGTH :: nat where [ncv_defs]: "END_DEVICE_PATH_LENGTH = 4"

definition RecordLocationIsValid :: "PCI_DEVICE_RECORD \<Rightarrow> bool" where
  "RecordLocationIsValid r \<longleftrightarrow> \<not> EFI_ERROR (pd_LocationStatus r) \<and> pd_Segment r \<le> 0xFFFF \<and> pd_Bus r \<le> 0xFF \<and>
     pd_Device r \<le> 31 \<and> pd_Function r \<le> 7"

definition RecordIsDisplay :: "PCI_DEVICE_RECORD \<Rightarrow> bool" where
  "RecordIsDisplay r \<longleftrightarrow> \<not> EFI_ERROR (pd_ConfigStatus r) \<and> pd_Config r 0x0B = 3"

definition RecordIsP2pBridge :: "PCI_DEVICE_RECORD \<Rightarrow> bool" where
  "RecordIsP2pBridge r \<longleftrightarrow> \<not> EFI_ERROR (pd_ConfigStatus r) \<and> pd_Config r 0x0E AND 0x7F = 1 \<and> pd_Config r 0x0B = 6 \<and> pd_Config r 0x0A = 4"

text \<open>Walking the nodes of a device path; every node has a header of four bytes with its length.\<close>

function BoundaryLoop :: "bytes \<Rightarrow> nat \<Rightarrow> nat \<Rightarrow> nat \<Rightarrow> bool" where
  "BoundaryLoop path pathSize target offset =
     (if offset \<le> pathSize - END_DEVICE_PATH_LENGTH then
        if offset = target then True
        else let nodeSize = unat (Le16 path (offset + 2))
             in if nodeSize < 4 \<or> nodeSize > pathSize - offset then False else BoundaryLoop path pathSize target (offset + nodeSize)
      else False)"
  by pat_completeness auto
termination by (relation "measure (\<lambda>(_, pathSize, _, offset). Suc pathSize - offset)") (auto simp: ncv_defs)

definition DevicePathOffsetIsNodeBoundary :: "PCI_DEVICE_RECORD \<Rightarrow> nat \<Rightarrow> bool" where
  "DevicePathOffsetIsNodeBoundary r targetOffset =
     (case pd_DevicePath r of None \<Rightarrow> False
      | Some path \<Rightarrow>
          if pd_DevicePathSize r < END_DEVICE_PATH_LENGTH \<or> targetOffset > pd_DevicePathSize r - END_DEVICE_PATH_LENGTH then False
          else BoundaryLoop path (pd_DevicePathSize r) targetOffset 0)"

text \<open>The records of an inventory.\<close>

definition devices :: "PCI_INVENTORY \<Rightarrow> PCI_DEVICE_RECORD list" where
  "devices i = take (inv_Count i) (the (inv_Devices i))"

definition AtAddress :: "nat \<Rightarrow> nat \<Rightarrow> nat \<Rightarrow> nat \<Rightarrow> PCI_DEVICE_RECORD \<Rightarrow> bool" where
  "AtAddress segment bus device function' r \<longleftrightarrow>
     RecordLocationIsValid r \<and> pd_Segment r = segment \<and> pd_Bus r = bus \<and> pd_Device r = device \<and> pd_Function r = function'"

definition FindDevice :: "PCI_INVENTORY \<Rightarrow> nat \<Rightarrow> nat \<Rightarrow> nat \<Rightarrow> nat \<Rightarrow> nat option" where
  "FindDevice i segment bus device function' =
     (if inv_Devices i = None then None
      else List.find (\<lambda>k. AtAddress segment bus device function' (devices i ! k)) [0..<length (devices i)])"

section \<open>The path by ancestry\<close>

definition IsStrictDevicePathPrefix :: "PCI_DEVICE_RECORD \<Rightarrow> PCI_DEVICE_RECORD \<Rightarrow> bool" where
  "IsStrictDevicePathPrefix cand selected =
     (case (pd_DevicePath cand, pd_DevicePath selected) of
        (Some c, Some s) \<Rightarrow>
          if pd_DevicePathSize cand \<le> END_DEVICE_PATH_LENGTH \<or> pd_DevicePathSize selected \<le> pd_DevicePathSize cand then False
          else bytes_eq c 0 s 0 (pd_DevicePathSize cand - END_DEVICE_PATH_LENGTH)
      | _ \<Rightarrow> False)"

text \<open>
  The insertion sort: the inner loop moves the value left past every longer path. The sorted part is kept reversed, so its head
  is the entry left of the value.
\<close>

fun ShiftIn :: "('a \<Rightarrow> nat) \<Rightarrow> 'a \<Rightarrow> 'a list \<Rightarrow> 'a list" where
  "ShiftIn key v [] = [v]"
| "ShiftIn key v (x # xs) = (if key x > key v then x # ShiftIn key v xs else v # x # xs)"

definition SortPathByDevicePathSize :: "('a \<Rightarrow> nat) \<Rightarrow> 'a list \<Rightarrow> 'a list" where
  "SortPathByDevicePathSize key indices = rev (foldl (\<lambda>done v. ShiftIn key v done) [] indices)"

definition IsAncestor :: "PCI_DEVICE_RECORD \<Rightarrow> PCI_DEVICE_RECORD \<Rightarrow> bool" where
  "IsAncestor selected cand \<longleftrightarrow> RecordLocationIsValid cand \<and> RecordIsP2pBridge cand \<and>
     pd_Segment cand = pd_Segment selected \<and> IsStrictDevicePathPrefix cand selected"

text \<open>The number of PCI nodes, or \<open>None\<close> when a node is malformed.\<close>

function PciNodeLoop :: "bytes \<Rightarrow> nat \<Rightarrow> nat \<Rightarrow> nat \<Rightarrow> nat option" where
  "PciNodeLoop path pathSize offset pciNodeCount =
     (if offset + 4 \<le> pathSize then
        let nodeSize = unat (Le16 path (offset + 2))
        in if nodeSize < 4 \<or> nodeSize > pathSize - offset then None
           else let pciNodeCount = (if path offset = 1 \<and> path (offset + 1) = 1 then pciNodeCount + 1 else pciNodeCount)
                in if path offset = 0x7F \<and> path (offset + 1) = 0xFF then Some pciNodeCount
                   else PciNodeLoop path pathSize (offset + nodeSize) pciNodeCount
      else Some pciNodeCount)"
  by pat_completeness auto
termination by (relation "measure (\<lambda>(_, pathSize, offset, _). pathSize - offset)") auto

declare BoundaryLoop.simps [simp del] PciNodeLoop.simps [simp del]

definition BuildDevicePathBridgePath :: "PCI_INVENTORY \<Rightarrow> PCI_DEVICE_RECORD \<Rightarrow> EFI_STATUS \<times> nat list" where
  "BuildDevicePathBridgePath i selected =
     (case pd_DevicePath selected of None \<Rightarrow> (EFI_NOT_FOUND, [])
      | Some selectedPath \<Rightarrow>
          let found = filter (\<lambda>k. IsAncestor selected (devices i ! k)) [0..<length (devices i)];
              path = SortPathByDevicePathSize (\<lambda>k. pd_DevicePathSize (devices i ! k)) found
          in case PciNodeLoop selectedPath (pd_DevicePathSize selected) 0 0 of
               None \<Rightarrow> (EFI_COMPROMISED_DATA, path)
             | Some pciNodeCount \<Rightarrow>
                 (if pciNodeCount = 0 \<or> length path + 1 \<noteq> pciNodeCount then EFI_NOT_FOUND else EFI_SUCCESS, path))"

fun CrossCheckLoop :: "PCI_INVENTORY \<Rightarrow> PCI_DEVICE_RECORD \<Rightarrow> nat list \<Rightarrow> EFI_STATUS" where
  "CrossCheckLoop i selected [] = EFI_SUCCESS"
| "CrossCheckLoop i selected (k # rest) =
     (let bridge = devices i ! k;
          childBus = (case rest of [] \<Rightarrow> pd_Bus selected | j # _ \<Rightarrow> pd_Bus (devices i ! j))
      in if unat (pd_Config bridge PCI_PRIMARY_BUS_OFFSET) \<noteq> pd_Bus bridge \<or>
            unat (pd_Config bridge PCI_SECONDARY_BUS_OFFSET) \<noteq> childBus \<or>
            childBus > unat (pd_Config bridge PCI_SUBORDINATE_BUS_OFFSET)
         then EFI_NO_MAPPING else CrossCheckLoop i selected rest)"

definition CrossCheckBridgePath :: "PCI_INVENTORY \<Rightarrow> PCI_DEVICE_RECORD \<Rightarrow> nat list \<Rightarrow> EFI_STATUS" where
  "CrossCheckBridgePath i selected path = CrossCheckLoop i selected path"

text \<open>
  \<open>parentHandle\<close> is the member \<open>ParentHandle\<close> of a root bridge interface. The arguments are the inventory and the selected
  record, which the callers take from it; \<open>allocated\<close> tells whether the index array could be allocated, which the routine
  asks for only when the request is accepted.
\<close>

definition RootAssociated :: "(nat \<Rightarrow> nat option) \<Rightarrow> PCI_DEVICE_RECORD \<Rightarrow> bool" where
  "RootAssociated parentHandle r \<longleftrightarrow> \<not> EFI_ERROR (pd_RootBridgeStatus r) \<and> pd_RootBridgeHandle r \<noteq> None \<and>
     (case pd_RootBridgeIo r of None \<Rightarrow> False | Some io \<Rightarrow> parentHandle io \<noteq> None)"

definition PathRequestAccepted :: "(nat \<Rightarrow> nat option) \<Rightarrow> PCI_INVENTORY \<Rightarrow> PCI_DEVICE_RECORD option \<Rightarrow> bool" where
  "PathRequestAccepted parentHandle i selected \<longleftrightarrow> inv_Devices i \<noteq> None \<and> inv_Count i \<le> MAX_UINTN div 8 \<and>
     (case selected of None \<Rightarrow> False | Some s \<Rightarrow> RecordLocationIsValid s \<and> RecordIsDisplay s \<and> RootAssociated parentHandle s)"

definition PciBuildValidatedDevicePathBridgePath ::
  "(nat \<Rightarrow> nat option) \<Rightarrow> bool \<Rightarrow> PCI_INVENTORY \<Rightarrow> PCI_DEVICE_RECORD option \<Rightarrow> nat \<Rightarrow> EFI_STATUS + PCI_DEVICE_RECORD list" where
  "PciBuildValidatedDevicePathBridgePath parentHandle allocated i selected bridgeCapacity =
     (case (inv_Devices i, selected) of
        (Some _, Some s) \<Rightarrow>
          (if \<not> RecordLocationIsValid s \<or> \<not> RecordIsDisplay s then Inl EFI_INVALID_PARAMETER
           else if \<not> RootAssociated parentHandle s then Inl EFI_NO_MAPPING
           else if inv_Count i > MAX_UINTN div 8 then Inl EFI_OUT_OF_RESOURCES
           else if \<not> allocated then Inl EFI_OUT_OF_RESOURCES
           else let (status, path) = BuildDevicePathBridgePath i s;
                    status = (if \<not> EFI_ERROR status then CrossCheckBridgePath i s path else status);
                    status = (if \<not> EFI_ERROR status \<and> length path > bridgeCapacity then EFI_BAD_BUFFER_SIZE else status)
                in if \<not> EFI_ERROR status then Inr (map (\<lambda>k. devices i ! k) path) else Inl status)
      | _ \<Rightarrow> Inl EFI_INVALID_PARAMETER)"

text \<open>The read-only report: whether a path was discovered and whether it was validated.\<close>

definition PciProbeDevicePathBridgePathStatus ::
  "(nat \<Rightarrow> nat option) \<Rightarrow> bool \<Rightarrow> PCI_INVENTORY \<Rightarrow> PCI_DEVICE_RECORD option \<Rightarrow> EFI_STATUS \<times> bool \<times> bool" where
  "PciProbeDevicePathBridgePathStatus parentHandle allocated i selected =
     (case (inv_Devices i, selected) of
        (Some _, Some s) \<Rightarrow>
          (if \<not> RecordLocationIsValid s \<or> \<not> RecordIsDisplay s then (EFI_INVALID_PARAMETER, False, False)
           else if \<not> RootAssociated parentHandle s then (EFI_NO_MAPPING, False, False)
           else if inv_Count i > MAX_UINTN div 8 then (EFI_OUT_OF_RESOURCES, False, False)
           else if \<not> allocated then (EFI_OUT_OF_RESOURCES, False, False)
           else let (status, path) = BuildDevicePathBridgePath i s
                in if \<not> EFI_ERROR status then
                     (let status = CrossCheckBridgePath i s path in (status, True, \<not> EFI_ERROR status))
                   else (status, False, False))
      | _ \<Rightarrow> (EFI_INVALID_PARAMETER, False, False))"

section \<open>The path by bus numbers\<close>

definition LeadsTo :: "PCI_DEVICE_RECORD \<Rightarrow> nat \<Rightarrow> PCI_DEVICE_RECORD \<Rightarrow> bool" where
  "LeadsTo selected currentBus bridge \<longleftrightarrow> RecordLocationIsValid bridge \<and> RecordIsP2pBridge bridge \<and> pd_Segment bridge = pd_Segment selected \<and>
     unat (pd_Config bridge PCI_SECONDARY_BUS_OFFSET) = currentBus \<and> unat (pd_Config bridge PCI_PRIMARY_BUS_OFFSET) = pd_Bus bridge"

text \<open>The path found so far is in the order of discovery; the final loop reverses it.\<close>

function BusLoop :: "PCI_INVENTORY \<Rightarrow> PCI_DEVICE_RECORD \<Rightarrow> nat \<Rightarrow> nat list \<Rightarrow> EFI_STATUS + nat list" where
  "BusLoop i selected currentBus path =
     (if currentBus \<noteq> 0 \<and> length path < inv_Count i then
        let candidates = filter (\<lambda>k. LeadsTo selected currentBus (devices i ! k)) [0..<length (devices i)]
        in if candidates = [] then Inl EFI_NOT_FOUND
           else if length candidates \<noteq> 1 then Inl EFI_NO_MAPPING
           else let candidateIndex = last candidates
                in if pd_Bus (devices i ! candidateIndex) = currentBus then Inl EFI_COMPROMISED_DATA
                   else if candidateIndex \<in> set path then Inl EFI_COMPROMISED_DATA
                   else BusLoop i selected (pd_Bus (devices i ! candidateIndex)) (path @ [candidateIndex])
      else Inr path)"
  by pat_completeness auto
termination by (relation "measure (\<lambda>(i, _, _, path). inv_Count i - length path)") auto

declare BusLoop.simps [simp del]

definition BuildBusBridgePath :: "PCI_INVENTORY \<Rightarrow> PCI_DEVICE_RECORD \<Rightarrow> EFI_STATUS + nat list" where
  "BuildBusBridgePath i selected =
     (case BusLoop i selected (pd_Bus selected) [] of
        Inl status \<Rightarrow> Inl status
      | Inr path \<Rightarrow> if path = [] then Inl EFI_NOT_FOUND else Inr (rev path))"


section \<open>The sort\<close>

lemma ShiftIn_mset [simp]: "mset (ShiftIn key v xs) = add_mset v (mset xs)"
  by (induction xs) auto

lemma ShiftIn_set [simp]: "set (ShiftIn key v xs) = insert v (set xs)"
  by (metis ShiftIn_mset set_mset_add_mset_insert set_mset_mset)

lemma ShiftIn_filter: "filter (\<lambda>x. c = key x) (ShiftIn key v xs) = filter (\<lambda>x. c = key x) (v # xs)"
  by (induction xs) auto

lemma ShiftIn_sorted: "sorted_wrt (\<lambda>a b. key b \<le> key a) xs \<Longrightarrow> sorted_wrt (\<lambda>a b. key b \<le> key a) (ShiftIn key v xs)"
  by (induction xs) auto

lemma ShiftIn_fold:
  "sorted_wrt (\<lambda>a b. key b \<le> key a) done \<Longrightarrow>
   (let r = foldl (\<lambda>d v. ShiftIn key v d) done xs
    in mset r = mset done + mset xs \<and> sorted_wrt (\<lambda>a b. key b \<le> key a) r \<and>
       (\<forall>c. filter (\<lambda>x. c = key x) r = rev (filter (\<lambda>x. c = key x) xs) @ filter (\<lambda>x. c = key x) done))"
proof (induction xs arbitrary: "done")
  case (Cons v xs)
  from Cons.IH [OF ShiftIn_sorted [OF Cons.prems, of v]] show ?case by (simp add: Let_def ShiftIn_filter)
qed (simp add: Let_def)

lemma SortPath_sort_key: "SortPathByDevicePathSize key xs = sort_key key xs"
proof -
  note f = ShiftIn_fold [of key "[]" xs, simplified Let_def, simplified]
  show ?thesis unfolding SortPathByDevicePathSize_def
  proof (rule properties_for_sort_key [symmetric])
    show "sorted (map key (rev (foldl (\<lambda>d v. ShiftIn key v d) [] xs)))"
      using f by (simp add: sorted_wrt_map rev_map [symmetric] sorted_wrt_rev)
  qed (use f in \<open>simp_all flip: rev_filter\<close>)
qed

section \<open>Validated paths\<close>

text \<open>The bus numbers along a path from the root: each bridge sits on its primary bus and leads to the next one.\<close>

fun bus_chain :: "PCI_DEVICE_RECORD list \<Rightarrow> PCI_DEVICE_RECORD \<Rightarrow> bool" where
  "bus_chain [] selected \<longleftrightarrow> True"
| "bus_chain (b # bs) selected \<longleftrightarrow>
     (let child = (case bs of [] \<Rightarrow> pd_Bus selected | c # _ \<Rightarrow> pd_Bus c)
      in unat (pd_Config b 0x18) = pd_Bus b \<and> unat (pd_Config b 0x19) = child \<and> child \<le> unat (pd_Config b 0x1A)) \<and> bus_chain bs selected"

lemma CrossCheckLoop_chain:
  "\<not> EFI_ERROR (CrossCheckLoop i s path) \<longleftrightarrow> bus_chain (map (\<lambda>k. devices i ! k) path) s"
proof (induction path)
  case (Cons k rest)
  have c: "(case map (\<lambda>k. devices i ! k) rest of [] \<Rightarrow> pd_Bus s | d # _ \<Rightarrow> pd_Bus d) = (case rest of [] \<Rightarrow> pd_Bus s | j # _ \<Rightarrow> pd_Bus (devices i ! j))"
    by (cases rest) simp_all
  have e: "\<not> EFI_ERROR (if b then EFI_NO_MAPPING else x) \<longleftrightarrow> \<not> b \<and> \<not> EFI_ERROR x" for b x by simp
  show ?case
    unfolding CrossCheckLoop.simps list.map bus_chain.simps Let_def c e Cons.IH PCI_PRIMARY_BUS_OFFSET_def PCI_SECONDARY_BUS_OFFSET_def
      PCI_SUBORDINATE_BUS_OFFSET_def not_less de_Morgan_disj not_not ..
qed simp

lemma map_sort_key_filter:
  "map (\<lambda>k. xs ! k) (sort_key (\<lambda>k. key (xs ! k)) (filter (\<lambda>k. P (xs ! k)) [0..<length xs])) = sort_key key (filter P xs)"
proof (rule properties_for_sort_key [symmetric])
  let ?ks = "filter (\<lambda>k. P (xs ! k)) [0..<length xs]"
  have f: "map (\<lambda>k. xs ! k) (filter (\<lambda>k. Q (xs ! k)) [0..<length xs]) = filter Q xs" for Q
  proof -
    have "map (\<lambda>k. xs ! k) (filter (Q \<circ> (\<lambda>k. xs ! k)) [0..<length xs]) = filter Q (map (\<lambda>k. xs ! k) [0..<length xs])"
      by (rule filter_map [symmetric])
    then show ?thesis by (simp only: map_nth comp_def)
  qed
  show "mset (map ((!) xs) (sort_key (\<lambda>k. key (xs ! k)) ?ks)) = mset (filter P xs)"
    unfolding f [of P, symmetric] mset_map mset_sort ..
  show "sorted (map key (map ((!) xs) (sort_key (\<lambda>k. key (xs ! k)) ?ks)))"
    using sorted_sort_key [of "\<lambda>k. key (xs ! k)" ?ks] by (simp add: comp_def)
  fix c
  have "filter (\<lambda>x. key c = key x) (map ((!) xs) (sort_key (\<lambda>k. key (xs ! k)) ?ks)) =
      map ((!) xs) (filter (\<lambda>k. key c = key (xs ! k)) (sort_key (\<lambda>k. key (xs ! k)) ?ks))"
    by (simp add: filter_map comp_def)
  also have "filter (\<lambda>k. key c = key (xs ! k)) (sort_key (\<lambda>k. key (xs ! k)) ?ks) = filter (\<lambda>k. key c = key (xs ! k)) ?ks"
    unfolding eq_commute [of "key c"] by (rule sort_key_stable)
  also have "map ((!) xs) \<dots> = filter (\<lambda>x. key c = key x) (filter P xs)"
    using f [of "\<lambda>x. P x \<and> key c = key x"] by (simp add: conj_commute)
  finally show "filter (\<lambda>x. key c = key x) (map ((!) xs) (sort_key (\<lambda>k. key (xs ! k)) ?ks)) = filter (\<lambda>x. key c = key x) (filter P xs)" .
qed

lemma BuildDevicePathBridgePath_eq:
  "BuildDevicePathBridgePath i s = (EFI_SUCCESS, path) \<longleftrightarrow>
     (\<exists>sp. pd_DevicePath s = Some sp \<and>
        path = sort_key (\<lambda>k. pd_DevicePathSize (devices i ! k)) (filter (\<lambda>k. IsAncestor s (devices i ! k)) [0..<length (devices i)]) \<and>
        PciNodeLoop sp (pd_DevicePathSize s) 0 0 = Some (Suc (length path)))"
  by (auto simp: BuildDevicePathBridgePath_def Let_def SortPath_sort_key split: option.splits)

lemma BuildDevicePathBridgePath_status: "BuildDevicePathBridgePath i s = (status, path) \<Longrightarrow> EFI_ERROR status \<or> status = EFI_SUCCESS"
  by (auto simp: BuildDevicePathBridgePath_def Let_def split: option.splits if_splits)

text \<open>
  C17. An operating path is exactly the ancestry: the builder succeeds exactly when the selected display is associated with a root
  bridge, the records whose device path is a strict prefix of its own, sorted from the root down, are one for each PCI node above
  it and fit the capacity, and the bus registers form an unbroken chain to the bus of the display; it returns those records.
\<close>

theorem BuildValidatedPath_iff:
  "PciBuildValidatedDevicePathBridgePath parentHandle allocated i selected capacity = Inr bridges \<longleftrightarrow>
     (\<exists>s path. selected = Some s \<and> inv_Devices i \<noteq> None \<and> RecordLocationIsValid s \<and> RecordIsDisplay s \<and> RootAssociated parentHandle s \<and>
        inv_Count i \<le> MAX_UINTN div 8 \<and> allocated \<and> pd_DevicePath s = Some path \<and>
        bridges = sort_key pd_DevicePathSize (filter (IsAncestor s) (devices i)) \<and>
        PciNodeLoop path (pd_DevicePathSize s) 0 0 = Some (Suc (length bridges)) \<and>
        length bridges \<le> capacity \<and> bus_chain bridges s)"
proof (cases "\<exists>s. selected = Some s \<and> inv_Devices i \<noteq> None \<and> RecordLocationIsValid s \<and> RecordIsDisplay s \<and> RootAssociated parentHandle s \<and>
    inv_Count i \<le> MAX_UINTN div 8 \<and> allocated")
  case False
  then show ?thesis by (auto simp: PciBuildValidatedDevicePathBridgePath_def split: option.splits)
next
  case True
  then obtain s where s: "selected = Some s" "inv_Devices i \<noteq> None" "RecordLocationIsValid s" "RecordIsDisplay s"
    "RootAssociated parentHandle s" "inv_Count i \<le> MAX_UINTN div 8" "allocated" by blast
  obtain status path where b: "BuildDevicePathBridgePath i s = (status, path)" by force
  let ?bs = "map (\<lambda>k. devices i ! k) path"
  have cross: "\<not> EFI_ERROR (CrossCheckBridgePath i s path) \<longleftrightarrow> bus_chain ?bs s"
    by (simp add: CrossCheckBridgePath_def CrossCheckLoop_chain)
  have "PciBuildValidatedDevicePathBridgePath parentHandle allocated i selected capacity = Inr bridges \<longleftrightarrow>
      status = EFI_SUCCESS \<and> bus_chain ?bs s \<and> length path \<le> capacity \<and> bridges = ?bs"
    using s b cross BuildDevicePathBridgePath_status [OF b]
    by (cases "capacity < length path"; cases "bus_chain ?bs s") (auto simp: PciBuildValidatedDevicePathBridgePath_def Let_def)
  also have "\<dots> \<longleftrightarrow> (\<exists>sp. pd_DevicePath s = Some sp \<and> bridges = sort_key pd_DevicePathSize (filter (IsAncestor s) (devices i)) \<and>
      PciNodeLoop sp (pd_DevicePathSize s) 0 0 = Some (Suc (length bridges)) \<and> length bridges \<le> capacity \<and> bus_chain bridges s)"
  proof -
    let ?p = "sort_key (\<lambda>k. pd_DevicePathSize (devices i ! k)) (filter (\<lambda>k. IsAncestor s (devices i ! k)) [0..<length (devices i)])"
    have m: "map (\<lambda>k. devices i ! k) ?p = sort_key pd_DevicePathSize (filter (IsAncestor s) (devices i))" by (rule map_sort_key_filter)
    have len: "length (sort_key pd_DevicePathSize (filter (IsAncestor s) (devices i))) = length ?p" unfolding m [symmetric] by simp
    have "status = EFI_SUCCESS \<longleftrightarrow> (\<exists>sp. pd_DevicePath s = Some sp \<and> path = ?p \<and> PciNodeLoop sp (pd_DevicePathSize s) 0 0 = Some (Suc (length path)))"
      using BuildDevicePathBridgePath_eq [of i s path] b by simp
    moreover have "path = ?p" if "pd_DevicePath s = Some sp" for sp
      using b that by (auto simp: BuildDevicePathBridgePath_def Let_def SortPath_sort_key split: option.splits)
    ultimately show ?thesis using m len by auto
  qed
  finally show ?thesis using s by auto
qed

end
