(* ===== verification/Legacy_Dispatch.thy ===== *)
theory Legacy_Dispatch
  imports Plan_State
begin

text \<open>
  \<open>LegacyDispatch.c\<close>: the page below one megabyte that holds the dispatch table, and the table itself. The two static
  variables are a record that the routines take and return; the page allocator is a firmware service.
\<close>

record dispatch_state =
  dp_Reserved :: nat
  dp_Owned :: bool

record 'w page_services =
  AllocateMaxAddress :: "nat \<Rightarrow> ('w, EFI_STATUS \<times> nat) state"
  FreePage :: "nat \<Rightarrow> ('w, EFI_STATUS) state"

definition LegacyDispatchRelease :: "'w page_services \<Rightarrow> dispatch_state \<Rightarrow> ('w, EFI_STATUS \<times> dispatch_state) state" where
  "LegacyDispatchRelease pg d =
     (if \<not> dp_Owned d then State_Monad.return (EFI_SUCCESS, d)
      else do {
        status \<leftarrow> FreePage pg (dp_Reserved d);
        State_Monad.return (status, if \<not> EFI_ERROR status then \<lparr>dp_Reserved = 0, dp_Owned = False\<rparr> else d)
      })"

definition LegacyDispatchReserve :: "'w page_services \<Rightarrow> dispatch_state \<Rightarrow> ('w, EFI_STATUS \<times> dispatch_state) state" where
  "LegacyDispatchReserve pg d =
     (if dp_Owned d then State_Monad.return (EFI_ALREADY_STARTED, d)
      else do {
        (status, address) \<leftarrow> AllocateMaxAddress pg 0x9F000;
        if EFI_ERROR status then State_Monad.return (status, d)
        else do {
          let d = \<lparr>dp_Reserved = address, dp_Owned = True\<rparr>;
          if address < 0x500 \<or> address \<ge> 0xA0000 then do {
            (status, d) \<leftarrow> LegacyDispatchRelease pg d;
            State_Monad.return (if EFI_ERROR status then status else EFI_UNSUPPORTED, d)
          }
          else State_Monad.return (EFI_SUCCESS, d)
        }
      })"

definition LegacyDispatchAddress :: "dispatch_state \<Rightarrow> nat" where
  "LegacyDispatchAddress d = dp_Reserved d"

text \<open>The table; the fields that are not listed stay zero.\<close>

record EFI_DISPATCH_OPROM_TABLE =
  do_PnPInstallationCheckSegment :: NCV_U16
  do_PnPInstallationCheckOffset :: NCV_U16
  do_OpromSegment :: NCV_U16
  do_PciBus :: NCV_U8
  do_PciDeviceFunction :: NCV_U8
  do_NumberBbsEntries :: NCV_U8
  do_BbsTablePointer :: NCV_U32
  do_RuntimeSegment :: NCV_U16

definition LegacyDispatchPrepare :: "RUNTIME_PLAN \<Rightarrow> EFI_DISPATCH_OPROM_TABLE" where
  "LegacyDispatchPrepare p = \<lparr>do_PnPInstallationCheckSegment = ct_PnpSegment (rp_Compatibility16 p),
     do_PnPInstallationCheckOffset = ct_PnpOffset (rp_Compatibility16 p), do_OpromSegment = 0xC000, do_PciBus = ep_Bus (rp_Target p),
     do_PciDeviceFunction = push_bit 3 (ep_Device (rp_Target p)) OR ep_Function (rp_Target p),
     do_NumberBbsEntries = of_nat (bt_BbsCount (rp_BootTarget p)), do_BbsTablePointer = of_nat (bt_FirmwareBbsTable (rp_BootTarget p)),
     do_RuntimeSegment = 0\<rparr>"

section \<open>Ownership\<close>

text \<open>The page is owned exactly while its address is held, and an address that is handed out is usable.\<close>

definition dispatch_wf :: "dispatch_state \<Rightarrow> bool" where
  "dispatch_wf d \<longleftrightarrow> \<not> dp_Owned d \<longrightarrow> dp_Reserved d = 0"

lemma wp_LegacyDispatchRelease:
  "wp (LegacyDispatchRelease pg d) (\<lambda>(status, d') _. dispatch_wf d \<longrightarrow> dispatch_wf d' \<and> (\<not> EFI_ERROR status \<longrightarrow> d' = \<lparr>dp_Reserved = 0, dp_Owned = False\<rparr>) \<and>
     (EFI_ERROR status \<longrightarrow> d' = d)) w"
  unfolding LegacyDispatchRelease_def by (intro wp_ifI wp_returnI wp_callI) (auto simp: dispatch_wf_def)

lemma wp_LegacyDispatchReserve:
  "wp (LegacyDispatchReserve pg d) (\<lambda>(status, d') _. dispatch_wf d \<longrightarrow> dispatch_wf d' \<and>
     (\<not> EFI_ERROR status \<longrightarrow> dp_Owned d' \<and> 0x500 \<le> dp_Reserved d' \<and> dp_Reserved d' < 0xA0000)) w"
proof (cases "dp_Owned d")
  case True
  then show ?thesis by (simp add: LegacyDispatchReserve_def)
next
  case False
  show ?thesis unfolding LegacyDispatchReserve_def Let_def if_not_P [OF False]
  proof (rule wp_callI, rule wp_prodI, rule wp_ifI, rule wp_returnI, goal_cases)
    case (2 r t status address)
    show ?case
    proof (cases "address < 0x500 \<or> address \<ge> 0xA0000")
      case True
      show ?thesis unfolding if_P [OF True] wp_bind
        by (rule wp_mono [OF wp_LegacyDispatchRelease], rule wp_prodI, rule wp_returnI) (auto simp: dispatch_wf_def)
    qed (simp add: dispatch_wf_def)
  qed simp
qed

text \<open>The table designates the target and the BBS table of a plan that passed the builder's representability checks.\<close>

lemma devfn_split:
  assumes "unat device \<le> 31" and "unat function' \<le> 7"
  shows "unat (push_bit 3 device OR function' :: NCV_U8) = 8 * unat device + unat function'"
proof -
  have f: "take_bit 3 (unat function') = unat function'" using assms(2) by (simp add: take_bit_nat_eq_self)
  have "push_bit 3 (unat device) AND take_bit 3 (unat function') = 0" by (rule bit_eqI) (auto simp: bit_simps)
  then have "push_bit 3 (unat device) OR unat function' = push_bit 3 (unat device) + unat function'"
    unfolding f by (simp add: disjunctive_add_eq_or)
  moreover have "take_bit 8 (push_bit 3 (unat device)) = push_bit 3 (unat device)"
    using assms(1) by (intro take_bit_nat_eq_self) (simp add: push_bit_eq_mult)
  moreover have "unat (push_bit 3 device OR function') = take_bit 8 (push_bit 3 (unat device)) OR unat function'"
    by (simp only: unsigned_or_eq unsigned_push_bit_eq) simp
  ultimately show ?thesis by (simp add: push_bit_eq_mult)
qed

lemma dispatch_table_designates:
  assumes "unat (ep_Device (rp_Target p)) \<le> 31" and "unat (ep_Function (rp_Target p)) \<le> 7"
    and "bt_BbsCount (rp_BootTarget p) \<le> 0xFF" and "bt_FirmwareBbsTable (rp_BootTarget p) \<le> 0xFFFFFFFF"
  defines "t \<equiv> LegacyDispatchPrepare p"
  shows "do_PciBus t = ep_Bus (rp_Target p) \<and> unat (do_PciDeviceFunction t) div 8 = unat (ep_Device (rp_Target p)) \<and>
    unat (do_PciDeviceFunction t) mod 8 = unat (ep_Function (rp_Target p)) \<and> unat (do_NumberBbsEntries t) = bt_BbsCount (rp_BootTarget p) \<and>
    unat (do_BbsTablePointer t) = bt_FirmwareBbsTable (rp_BootTarget p) \<and> do_OpromSegment t = 0xC000"
proof -
  have "unat (of_nat n :: NCV_U8) = n" if "n \<le> 0xFF" for n using that by (simp add: unat_of_nat take_bit_nat_eq_self)
  moreover have "unat (of_nat n :: NCV_U32) = n" if "n \<le> 0xFFFFFFFF" for n using that by (simp add: unat_of_nat take_bit_nat_eq_self)
  ultimately show ?thesis using assms(1-4) by (simp add: t_def LegacyDispatchPrepare_def devfn_split)
qed

end
