(* ===== verification/Runtime_Plan.thy ===== *)
theory Runtime_Plan
  imports Compat16 Pci_Path Legacy_Dispatch
begin

text \<open>
  \<open>RuntimePlan.c\<close>: the selection of the endpoints and of the storage controller, the classification of the bridge paths, the
  journals of the bridges and of the target, the choice of the ROM, and the builder that runs them in order. The world holds the
  module states of the ROM guard and physical memory; their accessors are part of the services. Log lines of the selection routines decide
  nothing and are left out.
\<close>

unbundle bit_operations_syntax

record 'w plan_services =
  ps_Discovery :: "'w discovery_services"
  ps_Pci :: "'w pci_services"
  ps_PhysicalMemory :: "'w \<Rightarrow> bytes"
  ps_Guard :: "'w \<Rightarrow> guard_state"
  ps_SetGuard :: "guard_state \<Rightarrow> 'w \<Rightarrow> 'w"
  ps_LocateLegacyBios :: "('w, EFI_STATUS \<times> nat option) state"
  ps_LegacyBiosUsable :: "nat \<Rightarrow> bool"
  ps_LocateLegacyRegion2 :: "('w, EFI_STATUS \<times> nat option) state"
  ps_LegacyRegion2Usable :: "nat \<Rightarrow> bool"
  ps_Inventory :: "('w, EFI_STATUS \<times> PCI_INVENTORY) state"
  ps_ParentHandle :: "nat \<Rightarrow> nat option"
  ps_SystemTable :: NCV_U32

abbreviation ps_Boot :: "'w plan_services \<Rightarrow> 'w boot_services" where
  "ps_Boot ps \<equiv> ds_Boot (ps_Discovery ps)"

section \<open>Endpoints\<close>

definition AddressEqualRecord :: "PCI_DEVICE_RECORD \<Rightarrow> NCV_PCI_ADDRESS \<Rightarrow> bool" where
  "AddressEqualRecord r a \<longleftrightarrow> \<not> EFI_ERROR (pd_LocationStatus r) \<and> pd_Segment r = unat (Segment a) \<and> pd_Bus r = unat (Bus a) \<and>
     pd_Device r = unat (Device a) \<and> pd_Function r = unat (Function a)"

definition RecordIsUsbController :: "PCI_DEVICE_RECORD \<Rightarrow> bool" where
  "RecordIsUsbController r \<longleftrightarrow> \<not> EFI_ERROR (pd_ConfigStatus r) \<and> pd_Config r 0x0B = 0x0C \<and> pd_Config r 0x0A = 3"

definition RecordIsBootController :: "PCI_DEVICE_RECORD \<Rightarrow> bool" where
  "RecordIsBootController r \<longleftrightarrow> \<not> EFI_ERROR (pd_ConfigStatus r) \<and> (pd_Config r 0x0B = 1 \<or> RecordIsUsbController r)"

definition CopyEndpoint :: "(nat \<Rightarrow> nat option) \<Rightarrow> PCI_DEVICE_RECORD list \<Rightarrow> nat \<Rightarrow> EFI_STATUS + NATIVE_CSM_VGA_PLAN_ENDPOINT" where
  "CopyEndpoint parentHandle ds k =
     (let r = ds ! k
      in if EFI_ERROR (pd_LocationStatus r) \<or> EFI_ERROR (pd_ConfigStatus r) \<or> pd_PciIo r = None \<or> pd_Segment r > 0xFFFF \<or> pd_Bus r > 0xFF \<or>
            pd_Device r > 31 \<or> pd_Function r > 7
         then Inl EFI_INVALID_PARAMETER
         else Inr \<lparr>ep_InventoryRecord = Some k, ep_Handle = pd_Handle r, ep_PciIo = pd_PciIo r, ep_Segment = of_nat (pd_Segment r),
                ep_Bus = of_nat (pd_Bus r), ep_Device = of_nat (pd_Device r), ep_Function = of_nat (pd_Function r),
                ep_Vendor = Le16 (pd_Config r) 0, ep_DeviceId = Le16 (pd_Config r) 2, ep_SubsystemVendor = Le16 (pd_Config r) 0x2C,
                ep_SubsystemDevice = Le16 (pd_Config r) 0x2E, ep_RootBridgeHandle = pd_RootBridgeHandle r, ep_RootBridgeIo = pd_RootBridgeIo r,
                ep_ParentHostHandle = (case pd_RootBridgeIo r of None \<Rightarrow> None | Some io \<Rightarrow> parentHandle io),
                ep_OriginalCommand = Le16 (pd_Config r) PCI_COMMAND_OFFSET, ep_OriginalAttributes = pd_CurrentAttributes r,
                ep_OriginalAttributesStatus = pd_CurrentAttributesStatus r\<rparr>)"

text \<open>VGA memory, VGA I/O and 16-bit VGA I/O.\<close>

definition VGA_OWNER_ATTRIBUTES :: "64 word" where [ncv_defs]: "VGA_OWNER_ATTRIBUTES = 0x40018"

definition OwnsLegacyVga :: "PCI_DEVICE_RECORD \<Rightarrow> bool" where
  "OwnsLegacyVga r \<longleftrightarrow> \<not> EFI_ERROR (pd_CurrentAttributesStatus r) \<and> pd_CurrentAttributes r AND VGA_OWNER_ATTRIBUTES \<noteq> 0"

text \<open>A scan keeps the last match and the number of matches.\<close>

definition ScanFor :: "(PCI_DEVICE_RECORD \<Rightarrow> bool) \<Rightarrow> PCI_DEVICE_RECORD list \<Rightarrow> nat option \<times> nat" where
  "ScanFor P ds = foldl (\<lambda>(found, count) k. if P (ds ! k) then (Some k, count + 1) else (found, count)) (None, 0) [0..<length ds]"

definition IdentityRejected :: "PROBE_CONFIG \<Rightarrow> NATIVE_CSM_VGA_PLAN_ENDPOINT \<Rightarrow> bool" where
  "IdentityRejected c t \<longleftrightarrow> g_HasExpectedVendor c \<and> ep_Vendor t \<noteq> g_ExpectedVendor c \<or>
     g_HasExpectedDevice c \<and> ep_DeviceId t \<noteq> g_ExpectedDevice c \<or>
     g_HasExpectedSubsystemVendor c \<and> ep_SubsystemVendor t \<noteq> g_ExpectedSubsystemVendor c \<or>
     g_HasExpectedSubsystemDevice c \<and> ep_SubsystemDevice t \<noteq> g_ExpectedSubsystemDevice c"

definition TopologyRejected :: "PCI_DEVICE_RECORD \<Rightarrow> PCI_DEVICE_RECORD \<Rightarrow> NATIVE_CSM_VGA_PLAN_ENDPOINT \<Rightarrow> NATIVE_CSM_VGA_PLAN_ENDPOINT \<Rightarrow> bool" where
  "TopologyRejected target active t a \<longleftrightarrow> EFI_ERROR (pd_RootBridgeStatus target) \<or> EFI_ERROR (pd_RootBridgeStatus active) \<or>
     ep_RootBridgeHandle t = None \<or> ep_RootBridgeHandle a = None \<or> ep_RootBridgeIo t = None \<or> ep_RootBridgeIo a = None \<or>
     ep_ParentHostHandle t = None \<or> ep_ParentHostHandle a = None \<or> ep_RootBridgeHandle t \<noteq> ep_RootBridgeHandle a \<or>
     ep_ParentHostHandle t \<noteq> ep_ParentHostHandle a"

definition FindVideoEndpoints :: "(nat \<Rightarrow> nat option) \<Rightarrow> RUNTIME_PLAN \<Rightarrow> EFI_STATUS \<times> RUNTIME_PLAN" where
  "FindVideoEndpoints parentHandle p =
     (let ds = devices (rp_Inventory p);
          (target, targetCount) = ScanFor (\<lambda>r. RecordIsDisplay r \<and> AddressEqualRecord r (g_TargetPci (rp_Config p))) ds;
          (active, activeCount) = ScanFor (\<lambda>r. RecordIsDisplay r \<and> OwnsLegacyVga r) ds
      in case target of
           None \<Rightarrow> (EFI_NOT_FOUND, p)
         | Some ti \<Rightarrow>
             if targetCount \<noteq> 1 then (EFI_NOT_FOUND, p)
             else (case active of
               None \<Rightarrow> (EFI_NO_MAPPING, p)
             | Some ai \<Rightarrow>
                 if activeCount \<noteq> 1 then (EFI_NO_MAPPING, p)
                 else if ti = ai then (EFI_ALREADY_STARTED, p)
                 else (case CopyEndpoint parentHandle ds ti of
                   Inl status \<Rightarrow> (status, p)
                 | Inr t \<Rightarrow>
                     let p = p\<lparr>rp_Target := t\<rparr>
                     in (case CopyEndpoint parentHandle ds ai of
                       Inl status \<Rightarrow> (status, p)
                     | Inr a \<Rightarrow>
                         let p = p\<lparr>rp_Active := a\<rparr>
                         in if ep_Segment t \<noteq> 0 then (EFI_UNSUPPORTED, p)
                            else if IdentityRejected (rp_Config p) t then (EFI_SECURITY_VIOLATION, p)
                            else if TopologyRejected (ds ! ti) (ds ! ai) t a then (EFI_NO_MAPPING, p)
                            else (EFI_SUCCESS, p)))))"

section \<open>The storage controller\<close>

definition SegmentlessMatch :: "NCV_PCI_ADDRESS \<Rightarrow> PCI_DEVICE_RECORD \<Rightarrow> bool" where
  "SegmentlessMatch a r \<longleftrightarrow> RecordIsBootController r \<and> \<not> EFI_ERROR (pd_LocationStatus r) \<and> pd_Bus r = unat (Bus a) \<and>
     pd_Device r = unat (Device a) \<and> pd_Function r = unat (Function a)"

definition FindStorageController :: "(nat \<Rightarrow> nat option) \<Rightarrow> RUNTIME_PLAN \<Rightarrow> EFI_STATUS \<times> RUNTIME_PLAN" where
  "FindStorageController parentHandle p =
     (let ds = devices (rp_Inventory p); c = rp_Config p; address = g_TargetControllerPci c;
          (_, segmentlessCount) = ScanFor (SegmentlessMatch address) ds;
          (selected, exactCount) = ScanFor (\<lambda>r. SegmentlessMatch address r \<and> AddressEqualRecord r address) ds
      in case selected of
           None \<Rightarrow> (EFI_NO_MAPPING, p)
         | Some si \<Rightarrow>
             if exactCount \<noteq> 1 \<or> segmentlessCount \<noteq> 1 then (EFI_NO_MAPPING, p)
             else (case CopyEndpoint parentHandle ds si of
               Inl status \<Rightarrow> (status, p)
             | Inr e \<Rightarrow>
                 let p = p\<lparr>rp_StorageController := e\<rparr>; usb = RecordIsUsbController (ds ! si)
                 in if usb \<and> (\<not> g_HasTargetBbsDescription c \<or> g_TargetBbsDescription c = []) then (EFI_INVALID_PARAMETER, p)
                    else let c = (if \<not> g_HasLegacyOptionDescription c
                                  then c\<lparr>g_LegacyOptionDescription := (if usb then L ''USB'' else L ''Hard Drive'')\<rparr> else c);
                             c = (if \<not> g_HasExcludeDescription c
                                  then c\<lparr>g_ExcludeDescription := (if usb then L ''Hard Drive'' else L ''USB'')\<rparr> else c)
                         in (EFI_SUCCESS, p\<lparr>rp_Config := c, rp_StorageControllerAddress := address\<rparr>)))"

section \<open>Bridge paths\<close>

definition BridgeIdentityEqual :: "NATIVE_CSM_VGA_PLAN_BRIDGE \<Rightarrow> NATIVE_CSM_VGA_PLAN_BRIDGE \<Rightarrow> bool" where
  "BridgeIdentityEqual l r \<longleftrightarrow> pd_Handle (br_Record l) = pd_Handle (br_Record r) \<and> pd_PciIo (br_Record l) = pd_PciIo (br_Record r) \<and>
     pd_Segment (br_Record l) = pd_Segment (br_Record r) \<and> pd_Bus (br_Record l) = pd_Bus (br_Record r) \<and>
     pd_Device (br_Record l) = pd_Device (br_Record r) \<and> pd_Function (br_Record l) = pd_Function (br_Record r)"

text \<open>The entries are zero before they are filled, so their marks are off.\<close>

fun CopyAndJournalPath :: "'w pci_services \<Rightarrow> PCI_DEVICE_RECORD list \<Rightarrow> ('w, EFI_STATUS + NATIVE_CSM_VGA_PLAN_BRIDGE list) state" where
  "CopyAndJournalPath sv [] = State_Monad.return (Inr [])"
| "CopyAndJournalPath sv (r # rs) =
     (if pd_PciIo r = None \<or> \<not> PciHasRead sv (the (pd_PciIo r)) \<or> EFI_ERROR (pd_ConfigStatus r)
      then State_Monad.return (Inl EFI_UNSUPPORTED)
      else do {
        (status, liveControl) \<leftarrow> PciRead16 sv (the (pd_PciIo r)) PCI_BRIDGE_CONTROL_OFFSET;
        if EFI_ERROR status then State_Monad.return (Inl status)
        else if liveControl \<noteq> Le16 (pd_Config r) PCI_BRIDGE_CONTROL_OFFSET then do {
          _ \<leftarrow> PciLogPrint sv ''Bridge changed during preflight'';
          State_Monad.return (Inl EFI_NOT_READY)
        }
        else do {
          _ \<leftarrow> PciLogPrint sv ''path'';
          rest \<leftarrow> CopyAndJournalPath sv rs;
          State_Monad.return (case rest of Inl status \<Rightarrow> Inl status
            | Inr bs \<Rightarrow> Inr (\<lparr>br_Record = r, br_OriginalBridgeControl = liveControl, br_WriteAttempted = False, br_WriteApplied = False\<rparr> # bs))
        }
      })"

text \<open>The common prefix of the two paths.\<close>

fun SharedLoop :: "NATIVE_CSM_VGA_PLAN_BRIDGE list \<Rightarrow> NATIVE_CSM_VGA_PLAN_BRIDGE list \<Rightarrow> EFI_STATUS + NATIVE_CSM_VGA_PLAN_BRIDGE list" where
  "SharedLoop (a # as) (t # ts) =
     (if BridgeIdentityEqual a t then
        if br_OriginalBridgeControl a \<noteq> br_OriginalBridgeControl t then Inl EFI_NOT_READY
        else (case SharedLoop as ts of Inl status \<Rightarrow> Inl status | Inr shared \<Rightarrow> Inr (a # shared))
      else Inr [])"
| "SharedLoop _ _ = Inr []"

definition ClassifyPaths :: "RUNTIME_PLAN \<Rightarrow> EFI_STATUS \<times> RUNTIME_PLAN" where
  "ClassifyPaths p =
     (case SharedLoop (rp_ActivePath p) (rp_TargetPath p) of
        Inl status \<Rightarrow> (status, p)
      | Inr shared \<Rightarrow>
          let p = p\<lparr>rp_SharedPath := shared\<rparr>;
              active = drop (length shared) (rp_ActivePath p);
              target = drop (length shared) (rp_TargetPath p)
          in if \<exists>a \<in> set active. \<exists>t \<in> set target. BridgeIdentityEqual a t then (EFI_COMPROMISED_DATA, p)
             else (EFI_SUCCESS, p\<lparr>rp_ActiveExclusivePath := active, rp_TargetExclusivePath := target\<rparr>))"

definition NATIVE_CSM_VGA_BOOT_MAX_BRIDGES :: nat where [ncv_defs]: "NATIVE_CSM_VGA_BOOT_MAX_BRIDGES = 16"

text \<open>One path: the raw path of an endpoint and its journal.\<close>

definition JournaledPath :: "'w plan_services \<Rightarrow> PCI_INVENTORY \<Rightarrow> NATIVE_CSM_VGA_PLAN_ENDPOINT \<Rightarrow>
    ('w, EFI_STATUS + NATIVE_CSM_VGA_PLAN_BRIDGE list) state" where
  "JournaledPath ps i e = do {
     let selected = map_option (\<lambda>k. devices i ! k) (ep_InventoryRecord e);
     allocated \<leftarrow> (if PathRequestAccepted (ps_ParentHandle ps) i selected then Pool (ps_Boot ps) (inv_Count i * 8) else State_Monad.return False);
     case PciBuildValidatedDevicePathBridgePath (ps_ParentHandle ps) allocated i selected
            NATIVE_CSM_VGA_BOOT_MAX_BRIDGES of
       Inl status \<Rightarrow> State_Monad.return (Inl status)
     | Inr raw \<Rightarrow> CopyAndJournalPath (ps_Pci ps) raw
   }"

definition BuildAndClassifyPaths :: "'w plan_services \<Rightarrow> RUNTIME_PLAN \<Rightarrow> ('w, EFI_STATUS \<times> RUNTIME_PLAN) state" where
  "BuildAndClassifyPaths ps p = do {
     r \<leftarrow> JournaledPath ps (rp_Inventory p) (rp_Active p);
     case r of Inl status \<Rightarrow> State_Monad.return (status, p)
     | Inr activePath \<Rightarrow> do {
         let p = p\<lparr>rp_ActivePath := activePath\<rparr>;
         _ \<leftarrow> PciLogPrint (ps_Pci ps) ''NCV_ACTIVE_PATH_DISCOVERED'';
         r \<leftarrow> JournaledPath ps (rp_Inventory p) (rp_Target p);
         case r of Inl status \<Rightarrow> State_Monad.return (status, p)
         | Inr targetPath \<Rightarrow> do {
             let p = p\<lparr>rp_TargetPath := targetPath\<rparr>;
             _ \<leftarrow> PciLogPrint (ps_Pci ps) ''NCV_TARGET_PATH_DISCOVERED'';
             State_Monad.return (ClassifyPaths p)
           }
       }
   }"


section \<open>The ROM\<close>

text \<open>The preflight of \<open>Rom_Preflight\<close> on the module states and the memory of the world.\<close>

definition GuardCheck :: "'w plan_services \<Rightarrow> RUNTIME_PLAN \<Rightarrow> ('w, EFI_STATUS) state" where
  "GuardCheck ps p = State (\<lambda>w.
     case LegacyRomGuardCheck (bs_Memory (ps_Boot ps)) w (ps_PhysicalMemory ps w) (Some (guard_plan p)) (ps_Guard ps w) of
       ((status, g), w) \<Rightarrow> (status, ps_SetGuard ps g w))"

definition RomRejected :: "OPTION_ROM_VALIDATION \<Rightarrow> nat \<Rightarrow> bool" where
  "RomRejected v exposedSize \<longleftrightarrow> \<not> MatchingLegacyImageFound v \<or> MatchingLegacyCandidateCount v \<noteq> 1 \<or> MatchingLegacyImageSize v = 0 \<or>
     MatchingLegacyImageSize v > 0x10000 \<or> MatchingLegacyImageOffset v > exposedSize \<or>
     MatchingLegacyImageSize v > exposedSize - MatchingLegacyImageOffset v"

definition SelectRom :: "'w plan_services \<Rightarrow> RUNTIME_PLAN \<Rightarrow> ('w, EFI_STATUS \<times> RUNTIME_PLAN) state" where
  "SelectRom ps p =
     (case ep_PciIo (rp_Target p) of None \<Rightarrow> State_Monad.return (EFI_NOT_FOUND, p)
      | Some io \<Rightarrow> do {
          rom \<leftarrow> PciRomImage (ps_Pci ps) io;
          case rom of None \<Rightarrow> State_Monad.return (EFI_NOT_FOUND, p)
          | Some (base, exposed) \<Rightarrow>
              if exposed = [] then State_Monad.return (EFI_NOT_FOUND, p)
              else let p = p\<lparr>rp_ExposedRom := Some exposed\<rparr>
                   in case OptionRomParseAndValidate (Some (base, exposed)) (length exposed) (ep_Vendor (rp_Target p)) (ep_DeviceId (rp_Target p)) of
                        Inl _ \<Rightarrow> State_Monad.return (EFI_COMPROMISED_DATA, p)
                      | Inr v \<Rightarrow>
                          let p = p\<lparr>rp_RomValidation := v\<rparr>
                          in if RomRejected v (length exposed) then State_Monad.return (EFI_COMPROMISED_DATA, p)
                             else do {
                               let p = p\<lparr>rp_SelectedRomOffset := MatchingLegacyImageOffset v, rp_SelectedRomSize := MatchingLegacyImageSize v,
                                 rp_SelectedRom := Some (take (MatchingLegacyImageSize v) (drop (MatchingLegacyImageOffset v) exposed)),
                                 rp_SelectedRomVendor := ep_Vendor (rp_Target p), rp_SelectedRomDevice := ep_DeviceId (rp_Target p)\<rparr>;
                               _ \<leftarrow> PciLogPrint (ps_Pci ps) ''NCV_TARGET_ROM_VALIDATED'';
                               status \<leftarrow> GuardCheck ps p;
                               State_Monad.return (status, p)
                             }
        })"

text \<open>
  What the boot-target module reads back from the guard: the evidence of the corroborations and the second preflight, both on the
  module states and on physical memory at the time of the call.
\<close>

definition Evidence :: "'w plan_services \<Rightarrow> ('w, rom_evidence) state" where
  "Evidence ps = State (\<lambda>w. (\<lparr>ev_Storage = mStorage (ps_Guard ps w), ev_StorageLive = (\<lambda>i. ps_PhysicalMemory ps w (NCV_ROM_SHADOW_BASE + i)),
     ev_Firmware = mFirmware (ps_Guard ps w), ev_FirmwareLive = ps_PhysicalMemory ps w\<rparr>, w))"

definition RecheckAfterBbs :: "'w plan_services \<Rightarrow> ('w, EFI_STATUS) state" where
  "RecheckAfterBbs ps = State (\<lambda>w.
     case LegacyRomGuardRecheckAfterBbs (bs_Memory (ps_Boot ps)) w (ps_PhysicalMemory ps w) (ps_Guard ps w) of
       ((status, g), w) \<Rightarrow> (status, ps_SetGuard ps g w))"

definition plan_discovery :: "'w plan_services \<Rightarrow> 'w discovery_services" where
  "plan_discovery ps = (ps_Discovery ps)\<lparr>ds_Boot := (ps_Boot ps)\<lparr>bs_Evidence := Evidence ps\<rparr>, ds_RecheckAfterBbs := RecheckAfterBbs ps\<rparr>"

section \<open>The journal of the target\<close>

definition JournalEndpoint :: "'w pci_services \<Rightarrow> RUNTIME_PLAN \<Rightarrow> ('w, EFI_STATUS) state" where
  "JournalEndpoint sv p =
     (let t = rp_Target p
      in case ep_PciIo t of None \<Rightarrow> State_Monad.return EFI_UNSUPPORTED
         | Some io \<Rightarrow>
             if \<not> PciHasRead sv io \<or> \<not> PciHasAttributes sv io then State_Monad.return EFI_UNSUPPORTED
             else do {
               (status, liveCommand) \<leftarrow> PciRead16 sv io PCI_COMMAND_OFFSET;
               if EFI_ERROR status \<or> liveCommand \<noteq> ep_OriginalCommand t then State_Monad.return EFI_NOT_READY
               else do {
                 (status, liveAttributes) \<leftarrow> PciAttributes sv io;
                 if EFI_ERROR status \<or> EFI_ERROR (ep_OriginalAttributesStatus t) \<or> liveAttributes \<noteq> ep_OriginalAttributes t
                 then State_Monad.return EFI_NOT_READY
                 else do {
                   _ \<leftarrow> PciLogPrint sv ''Target endpoint journal'';
                   State_Monad.return EFI_SUCCESS
                 }
               }
             })"

section \<open>The builder\<close>

definition NativeCsmVgaRuntimePlanFinalizeValidation :: "RUNTIME_PLAN \<Rightarrow> EFI_STATUS \<times> RUNTIME_PLAN" where
  "NativeCsmVgaRuntimePlanFinalizeValidation p =
     (if \<not> rp_Complete p then (EFI_INVALID_PARAMETER, p)
      else let p = p\<lparr>rp_ValidationCompleted := True, rp_ValidationPassed := False\<rparr>
           in if g_RequireReferenceSnapshotMatch (rp_Config p) then (EFI_UNSUPPORTED, p)
              else (EFI_SUCCESS, p\<lparr>rp_ValidationPassed := True\<rparr>))"

definition ConfigBlocked :: "PROBE_CONFIG \<Rightarrow> bool" where
  "ConfigBlocked c \<longleftrightarrow> g_Probe c \<or> \<not> g_HasTargetPci c \<or> \<not> g_HasTargetControllerPci c \<or> \<not> g_HasIoDecoding c \<or> \<not> g_HasMemoryDecoding c \<or>
     \<not> g_HasBusMastering c"

text \<open>A step whose failure is logged under a name that may depend on the status and the plan.\<close>

definition Blocked :: "'w plan_services \<Rightarrow> (EFI_STATUS \<Rightarrow> RUNTIME_PLAN \<Rightarrow> string) \<Rightarrow> ('w, EFI_STATUS \<times> RUNTIME_PLAN) state \<Rightarrow>
    ('w, EFI_STATUS \<times> RUNTIME_PLAN) state" where
  "Blocked ps label m = do {
     (status, p) \<leftarrow> m;
     _ \<leftarrow> (if EFI_ERROR status then PciLogPrint (ps_Pci ps) (label status p) else State_Monad.return EFI_SUCCESS);
     State_Monad.return (status, p)
   }"

definition CompatStep :: "'w plan_services \<Rightarrow> RUNTIME_PLAN \<Rightarrow> ('w, EFI_STATUS \<times> RUNTIME_PLAN) state" where
  "CompatStep ps p = State (\<lambda>w.
     case SelectCompatibility16 (bs_Memory (ps_Boot ps)) w (ps_PhysicalMemory ps w) (ps_SystemTable ps) of
       ((status, c), w) \<Rightarrow> ((status, p\<lparr>rp_Compatibility16 := c\<rparr>), w))"

definition LocateBiosStep :: "'w plan_services \<Rightarrow> RUNTIME_PLAN \<Rightarrow> ('w, EFI_STATUS \<times> RUNTIME_PLAN) state" where
  "LocateBiosStep ps p = do {
     (status, bios) \<leftarrow> ps_LocateLegacyBios ps;
     let p = p\<lparr>rp_LegacyBios := bios\<rparr>;
     State_Monad.return
       (if EFI_ERROR status then status
        else if (case bios of None \<Rightarrow> True | Some b \<Rightarrow> \<not> ps_LegacyBiosUsable ps b) then EFI_UNSUPPORTED else EFI_SUCCESS, p)
   }"

definition LocateRegionStep :: "'w plan_services \<Rightarrow> RUNTIME_PLAN \<Rightarrow> ('w, EFI_STATUS \<times> RUNTIME_PLAN) state" where
  "LocateRegionStep ps p = do {
     (status, region) \<leftarrow> ps_LocateLegacyRegion2 ps;
     let p = p\<lparr>rp_LegacyRegion2 := region\<rparr>;
     State_Monad.return
       (if EFI_ERROR status then status
        else if (case region of None \<Rightarrow> True | Some b \<Rightarrow> \<not> ps_LegacyRegion2Usable ps b) then EFI_UNSUPPORTED else EFI_SUCCESS, p)
   }"

definition InventoryStep :: "'w plan_services \<Rightarrow> RUNTIME_PLAN \<Rightarrow> ('w, EFI_STATUS \<times> RUNTIME_PLAN) state" where
  "InventoryStep ps p = do {
     (status, i) \<leftarrow> ps_Inventory ps;
     State_Monad.return (status, p\<lparr>rp_Inventory := i\<rparr>)
   }"

text \<open>The query for the boot target, with the description only when one is configured, and the checks of its result.\<close>

definition DiscoverStep :: "'w plan_services \<Rightarrow> RUNTIME_PLAN \<Rightarrow> ('w, EFI_STATUS \<times> RUNTIME_PLAN) state" where
  "DiscoverStep ps p = do {
     let c = rp_Config p;
     (status, t) \<leftarrow> LegacyBootBootTargetDiscover (plan_discovery ps) (unat (Bus (rp_StorageControllerAddress p)))
       (unat (Device (rp_StorageControllerAddress p))) (unat (Function (rp_StorageControllerAddress p)))
       (if g_HasTargetBbsDescription c then Some (g_TargetBbsDescription c) else None)
       (Some (g_LegacyOptionDescription c)) (Some (g_ExcludeDescription c)) (rp_BootTarget p);
     State_Monad.return (status, p\<lparr>rp_BootTarget := t\<rparr>)
   }"

definition RepresentableStep :: "RUNTIME_PLAN \<Rightarrow> EFI_STATUS \<times> RUNTIME_PLAN" where
  "RepresentableStep p =
     (if bt_BbsCount (rp_BootTarget p) > 0xFF \<or> bt_FirmwareBbsTable (rp_BootTarget p) > 0xFFFFFFFF then EFI_UNSUPPORTED else EFI_SUCCESS, p)"

definition OwnedStep :: "'w plan_services \<Rightarrow> RUNTIME_PLAN \<Rightarrow> ('w, EFI_STATUS \<times> RUNTIME_PLAN) state" where
  "OwnedStep ps p = do {
     status \<leftarrow> LegacyBootBootTargetValidateOwnedCopies (ds_Boot (plan_discovery ps)) (Some (rp_BootTarget p));
     State_Monad.return (status, if EFI_ERROR status then p
       else p\<lparr>rp_UniqueBbsIndex := bt_LiveBbsIndex (rp_BootTarget p), rp_UniqueBbsEntry := bt_LiveBbsEntry (rp_BootTarget p)\<rparr>)
   }"

definition BootRanges :: "'w plan_services \<Rightarrow> ('w, EFI_STATUS) state" where
  "BootRanges ps = State (MemoryMapValidateBootRanges (bs_Memory (ps_Boot ps)))"

text \<open>The last step reads the vector of interrupt 0x10 and completes the plan.\<close>

definition CompleteStep :: "'w plan_services \<Rightarrow> RUNTIME_PLAN \<Rightarrow> ('w, EFI_STATUS \<times> RUNTIME_PLAN) state" where
  "CompleteStep ps p = do {
     memory \<leftarrow> State (\<lambda>w. (ps_PhysicalMemory ps w, w));
     let p = p\<lparr>rp_InitialInt10Offset := Le16 memory 0x40, rp_InitialInt10Segment := Le16 memory 0x42, rp_Complete := True\<rparr>;
     _ \<leftarrow> PciLogPrint (ps_Pci ps) ''NCV_RUNTIME_PLAN_COMPLETE'';
     State_Monad.return (NativeCsmVgaRuntimePlanFinalizeValidation p)
   }"

definition StatusOnly :: "('w, EFI_STATUS) state \<Rightarrow> RUNTIME_PLAN \<Rightarrow> ('w, EFI_STATUS \<times> RUNTIME_PLAN) state" where
  "StatusOnly m p = do { status \<leftarrow> m; State_Monad.return (status, p) }"

definition NativeCsmVgaRuntimePlanBuild :: "'w plan_services \<Rightarrow> PROBE_CONFIG \<Rightarrow> ('w, EFI_STATUS \<times> RUNTIME_PLAN) state" where
  "NativeCsmVgaRuntimePlanBuild ps c =
     (let p = zero_plan\<lparr>rp_Config := c\<rparr>; sv = ps_Pci ps
      in if ConfigBlocked c then do {
           _ \<leftarrow> PciLogPrint sv ''NCV_BLOCKED_CONFIG'';
           State_Monad.return (EFI_NOT_FOUND, p)
         }
         else do {
           _ \<leftarrow> PciLogPrint sv ''NCV_CONFIG_PARSED'';
           OnSuccessWith (Blocked ps (\<lambda>_ _. ''NCV_BLOCKED_CSM_CAPABILITY'') (CompatStep ps p)) (\<lambda>p.
           OnSuccessWith (Blocked ps (\<lambda>_ _. ''NCV_BLOCKED_CSM_CAPABILITY'') (LocateBiosStep ps p)) (\<lambda>p.
           OnSuccessWith (Blocked ps (\<lambda>_ _. ''NCV_BLOCKED_CSM_CAPABILITY'') (LocateRegionStep ps p)) (\<lambda>p.
           OnSuccessWith (Blocked ps (\<lambda>_ _. ''NCV_BLOCKED_OTHER'') (InventoryStep ps p)) (\<lambda>p.
           OnSuccessWith (Blocked ps (\<lambda>status _. if status = EFI_SECURITY_VIOLATION then ''NCV_BLOCKED_TARGET_IDENTITY'' else ''NCV_BLOCKED_ACTIVE_VGA'')
             (State_Monad.return (FindVideoEndpoints (ps_ParentHandle ps) p))) (\<lambda>p.
           OnSuccessWith (Blocked ps (\<lambda>_ _. ''NCV_BLOCKED_TARGET_PATH'') (BuildAndClassifyPaths ps p)) (\<lambda>p.
           OnSuccessWith (Blocked ps (\<lambda>_ _. ''NCV_BLOCKED_TARGET_VGA'') (StatusOnly (JournalEndpoint sv p) p)) (\<lambda>p.
           OnSuccessWith (Blocked ps (\<lambda>_ _. ''NCV_BLOCKED_TARGET_ROM'') (SelectRom ps p)) (\<lambda>p.
           OnSuccessWith (Blocked ps (\<lambda>_ _. ''NCV_BLOCKED_BOOT_CONTROLLER'') (State_Monad.return (FindStorageController (ps_ParentHandle ps) p))) (\<lambda>p.
           OnSuccessWith (Blocked ps (\<lambda>status p. if bt_GetBbsInfoCalled (rp_BootTarget p)
               then (if status = EFI_ACCESS_DENIED then ''NCV_BLOCKED_BBS_ELIGIBILITY'' else ''NCV_BLOCKED_BBS_TARGET'') else ''NCV_BLOCKED_LEGACY_OPTION'')
             (DiscoverStep ps p)) (\<lambda>p.
           OnSuccessWith (Blocked ps (\<lambda>_ _. ''NCV_BLOCKED_BBS_TARGET'') (State_Monad.return (RepresentableStep p))) (\<lambda>p.
           OnSuccessWith (Blocked ps (\<lambda>_ _. ''NCV_BLOCKED_LEGACY_OPTION'') (OwnedStep ps p)) (\<lambda>p.
           OnSuccessWith (Blocked ps (\<lambda>_ _. ''NCV_BLOCKED_LOW_MEMORY_RANGE'') (StatusOnly (BootRanges ps) p))
             (CompleteStep ps)))))))))))))
         })"

text \<open>Release refuses a plan whose route is not restored. A released plan is zero.\<close>

definition NativeCsmVgaRuntimePlanRelease ::
  "'w page_services \<Rightarrow> dispatch_state \<Rightarrow> RUNTIME_PLAN \<Rightarrow> ('w, EFI_STATUS \<times> dispatch_state \<times> RUNTIME_PLAN) state" where
  "NativeCsmVgaRuntimePlanRelease pg d p =
     (if rp_RouteDirty p \<or> rp_EndpointWriteApplied p then State_Monad.return (EFI_ACCESS_DENIED, d, p)
      else do {
        let (status, t, _) = LegacyBootBootTargetRelease (Some (rp_BootTarget p));
        (dispatchStatus, d) \<leftarrow> LegacyDispatchRelease pg d;
        State_Monad.return (if EFI_ERROR status then (status, d, p\<lparr>rp_BootTarget := the t\<rparr>) else (dispatchStatus, d, zero_plan))
      })"

end
