(* ===== verification/Plan_Quiet.thy ===== *)
theory Plan_Quiet
  imports Runtime_Plan Bbs_Ready
begin

text \<open>
  Building the plan only reads: whatever the firmware's reading services leave alone is left alone by every routine that the builder
  calls. The observation \<open>f\<close> is arbitrary, so one lemma serves configuration space, the live BBS table and memory.
\<close>

section \<open>Memory services threaded through a world\<close>

definition mem_quiet :: "'w memory_services \<Rightarrow> ('w \<Rightarrow> 't) \<Rightarrow> bool" where
  "mem_quiet bs f \<longleftrightarrow> (\<forall>w n. f (snd (GetMemoryMap bs w n)) = f w) \<and> (\<forall>w n. f (snd (AllocatePool bs w n)) = f w)"

lemma quiet_mem: "quiet sv f \<Longrightarrow> mem_quiet (bs_Memory sv) f"
  by (simp add: quiet_def mem_quiet_def)

lemma mem_pool: "mem_quiet bs f \<Longrightarrow> AllocatePool bs w n = (ok, w') \<Longrightarrow> f w' = f w"
  unfolding mem_quiet_def by (metis snd_conv)

lemma mem_map: "mem_quiet bs f \<Longrightarrow> GetMemoryMap bs w n = (r, w') \<Longrightarrow> f w' = f w"
  unfolding mem_quiet_def by (metis snd_conv)

lemma mem_CaptureLoop:
  assumes q: "mem_quiet bs f"
  shows "f (snd (CaptureLoop n bs w k)) = f w"
proof (induction n arbitrary: w k)
  case (Suc n)
  obtain ok w1 where r1: "AllocatePool bs w k = (ok, w1)" by fastforce
  obtain st ms ds ver es w2 where r2: "GetMemoryMap bs w1 k = ((st, ms, ds, ver, es), w2)" by (metis prod.exhaust_sel)
  show ?case using mem_pool [OF q r1] mem_map [OF q r2] by (simp add: r1 r2 Suc.IH)
qed simp

lemma mem_capture:
  assumes "mem_quiet bs f" and "MemoryMapCapture bs w = (r, w')"
  shows "f w' = f w"
proof -
  obtain st ms ds ver es w1 where g: "GetMemoryMap bs w 0 = ((st, ms, ds, ver, es), w1)" by (metis prod.exhaust_sel)
  have "f (snd (MemoryMapCapture bs w)) = f w"
    using mem_map [OF assms(1) g] mem_CaptureLoop [OF assms(1)] by (simp add: MemoryMapCapture_def g Let_def)
  then show ?thesis by (simp add: assms(2))
qed

lemma mem_identities:
  assumes "mem_quiet bs f" and "CopyLegacyPciIdentities bs w i = (r, w')"
  shows "f w' = f w"
  using assms(2) unfolding CopyLegacyPciIdentities_def by (auto dest!: mem_pool [OF assms(1)] split: option.splits if_splits prod.splits sum.splits)

lemma mem_storage:
  assumes "mem_quiet bs f" and "LegacyStorageRomPrepare bs w a b c i = (r, w')"
  shows "f w' = f w"
  using assms(2) unfolding LegacyStorageRomPrepare_def Let_def by (auto dest!: mem_pool [OF assms(1)] mem_identities [OF assms(1)] split: option.splits if_splits prod.splits sum.splits)

lemma mem_firmware_state:
  assumes "mem_quiet bs f" and "AllocateFirmwareState bs w i live = (r, w')"
  shows "f w' = f w"
  using assms(2) unfolding AllocateFirmwareState_def Let_def by (auto dest!: mem_pool [OF assms(1)] mem_identities [OF assms(1)] split: option.splits if_splits prod.splits sum.splits)

lemma mem_firmware:
  assumes "mem_quiet bs f" and "LegacyFirmwareDiskCapture bs w m i = (r, w')"
  shows "f w' = f w"
  using assms(2) unfolding LegacyFirmwareDiskCapture_def by (auto dest!: mem_firmware_state [OF assms(1)] mem_capture [OF assms(1)] split: option.splits if_splits prod.splits sum.splits)

lemma mem_guard:
  assumes "mem_quiet bs f" and "LegacyRomGuardCheck bs w m p g = (r, w')"
  shows "f w' = f w"
  using assms(2) unfolding LegacyRomGuardCheck_def Let_def
  by (auto dest!: mem_pool [OF assms(1)] mem_capture [OF assms(1)] mem_storage [OF assms(1)] mem_firmware [OF assms(1)]
      split: option.splits if_splits prod.splits sum.splits)

lemma mem_recheck: "mem_quiet bs f \<Longrightarrow> LegacyRomGuardRecheckAfterBbs bs w m g = (r, w') \<Longrightarrow> f w' = f w"
  unfolding LegacyRomGuardRecheckAfterBbs_def by (auto dest: mem_guard split: option.splits)

lemma mem_compat: "mem_quiet bs f \<Longrightarrow> SelectCompatibility16 bs w m t = (r, w') \<Longrightarrow> f w' = f w"
  unfolding SelectCompatibility16_def Let_def by (auto dest: mem_capture split: if_splits prod.splits sum.splits)

lemma mem_ranges: "mem_quiet bs f \<Longrightarrow> MemoryMapValidateBootRanges bs w = (r, w') \<Longrightarrow> f w' = f w"
  unfolding MemoryMapValidateBootRanges_def by (auto dest: mem_capture split: if_splits prod.splits sum.splits)

section \<open>Discovery\<close>

lemma keeps_HexLines: "quiet sv f \<Longrightarrow> keeps f (HexLines sv label n offset status)"
proof (induction "n - offset" arbitrary: offset status rule: less_induct)
  case less
  show ?case
  proof (cases "offset < n")
    case True
    then show ?thesis
      by (subst HexLines.simps, unfold Let_def) (intro keeps_rules keeps_services less; auto simp: min_def)
  qed (subst HexLines.simps, simp add: keeps_return)
qed

lemma keeps_LogCandidate: "quiet sv f \<Longrightarrow> keeps f (LegacyBootLogBootCandidate sv c)"
  unfolding LegacyBootLogBootCandidate_def LegacyBootLogHexBytes_def
  by (intro keeps_rules keeps_services keeps_LogAll keeps_HexLines) assumption+

lemma keeps_ParseOption: "quiet sv f \<Longrightarrow> keeps f (LegacyBootParseLegacyBootOption sv n v)"
  unfolding LegacyBootParseLegacyBootOption_def by (intro keeps_rules keeps_services) assumption+

lemma keeps_OptionLoop:
  assumes "quiet sv f"
  shows "keeps f (OptionLoop sv r x previous ns m c)"
proof (induction ns arbitrary: previous m c)
  case (Cons n ns)
  show ?case unfolding OptionLoop.simps
    by (intro keeps_rules keeps_services [OF assms] keeps_ReadVariable [OF assms] keeps_ParseOption [OF assms] keeps_LogCandidate [OF assms] Cons.IH)
qed (simp add: keeps_return)

lemma keeps_Candidate: "quiet sv f \<Longrightarrow> keeps f (LegacyBootDiscoverBootCandidate sv r x)"
  unfolding LegacyBootDiscoverBootCandidate_def
  by (intro keeps_rules keeps_services keeps_ReadVariable keeps_OptionLoop) assumption+

lemma keeps_CorrelateLoop:
  assumes "quiet sv f"
  shows "keeps f (CorrelateLoop sv m identity is acc)"
proof (induction "is" arbitrary: acc)
  case (Cons i "is")
  show ?case unfolding CorrelateLoop.simps by (intro keeps_rules keeps_services [OF assms] keeps_LogBbsEntry [OF assms] Cons.IH)
qed (simp add: keeps_return)

lemma keeps_OnSuccess [keeps_rules]: "keeps f m \<Longrightarrow> keeps f k \<Longrightarrow> keeps f (OnSuccess m c k)"
  unfolding OnSuccess_def by (intro keeps_rules)

lemma keeps_OnSuccessWith [keeps_rules]: "keeps f m \<Longrightarrow> (\<And>c. keeps f (k c)) \<Longrightarrow> keeps f (OnSuccessWith m k)"
  unfolding OnSuccessWith_def by (intro keeps_rules)

lemma keeps_Correlate: "quiet sv f \<Longrightarrow> keeps f (LegacyBootLogAndCorrelateLiveBbs sv m b d fn t c)"
  unfolding LegacyBootLogAndCorrelateLiveBbs_def by (intro keeps_rules keeps_services keeps_CorrelateLoop) assumption+

lemma keeps_Move: "quiet sv f \<Longrightarrow> keeps f (LegacyBootMoveCandidateToContext sv cand c)"
  unfolding LegacyBootMoveCandidateToContext_def by (intro keeps_rules keeps_services keeps_LogAll) assumption+

lemma keeps_DiscoverRows: "quiet sv f \<Longrightarrow> keeps f (DiscoverRows sv b d fn t cand h c)"
  unfolding DiscoverRows_def
  by (intro keeps_rules keeps_services keeps_log keeps_ReadTable keeps_Correlate keeps_Move keeps_OwnedCopies) assumption+

lemma keeps_Discover:
  assumes "quiet (ds_Boot ds) f" and "keeps f (ds_LogFileOpen ds)" and "keeps f (ds_RecheckAfterBbs ds)"
    and "\<And>m. ds_GetBbsInfo ds = Some m \<Longrightarrow> keeps f m"
  shows "keeps f (LegacyBootBootTargetDiscover ds b d fn t x y c)"
  unfolding LegacyBootBootTargetDiscover_def Let_def
  by (cases "ds_GetBbsInfo ds")
    (simp only: option.case, intro keeps_rules assms keeps_services [OF assms(1)] keeps_log [OF assms(1)] keeps_Candidate [OF assms(1)]
      keeps_DiscoverRows [OF assms(1)]; assumption?)+

section \<open>The builder\<close>

text \<open>
  The reading services of a plan leave \<open>f\<close> alone. Configuration writes, the poke of a BBS priority, the route and the firmware calls
  of the boot path are not among them.
\<close>

definition quiet_plan :: "('w \<Rightarrow> 't) \<Rightarrow> 'w plan_services \<Rightarrow> bool" where
  "quiet_plan f ps \<longleftrightarrow> quiet (ps_Boot ps) f \<and> keeps f (ds_LogFileOpen (ps_Discovery ps)) \<and>
     (\<forall>m. ds_GetBbsInfo (ps_Discovery ps) = Some m \<longrightarrow> keeps f m) \<and> keeps f (ps_LocateLegacyBios ps) \<and>
     keeps f (ps_LocateLegacyRegion2 ps) \<and> keeps f (ps_Inventory ps) \<and> (\<forall>g w. f (ps_SetGuard ps g w) = f w) \<and>
     (\<forall>io off. keeps f (PciRead16 (ps_Pci ps) io off)) \<and> (\<forall>io. keeps f (PciAttributes (ps_Pci ps) io)) \<and>
     (\<forall>io. keeps f (PciRomImage (ps_Pci ps) io)) \<and> (\<forall>s. keeps f (PciLogPrint (ps_Pci ps) s)) \<and> keeps f (PciLogCommit (ps_Pci ps))"

lemma quiet_planD:
  assumes "quiet_plan f ps"
  shows "quiet (ps_Boot ps) f" "mem_quiet (bs_Memory (ps_Boot ps)) f" "keeps f (ps_LocateLegacyBios ps)" "keeps f (ps_LocateLegacyRegion2 ps)"
    "keeps f (ps_Inventory ps)" "f (ps_SetGuard ps g w) = f w" "keeps f (PciRead16 (ps_Pci ps) io off)" "keeps f (PciAttributes (ps_Pci ps) io)"
    "keeps f (PciRomImage (ps_Pci ps) io)" "keeps f (PciLogPrint (ps_Pci ps) s)" "keeps f (PciLogCommit (ps_Pci ps))"
    "keeps f (Pool (ps_Boot ps) k)"
  using assms quiet_mem [of "ps_Boot ps" f] keeps_services(7) [of "ps_Boot ps" f] by (simp_all add: quiet_plan_def)

lemma keeps_State: "(\<And>w r w'. g w = (r, w') \<Longrightarrow> f w' = f w) \<Longrightarrow> keeps f (State g)"
  unfolding keeps_def by simp (metis prod.collapse)

lemma quiet_boot: "quiet_plan f ps \<Longrightarrow> quiet (ds_Boot (plan_discovery ps)) f"
  using quiet_planD(1) [of f ps] by (simp add: plan_discovery_def quiet_def) (simp add: Evidence_def keeps_def)

lemma keeps_Recheck:
  assumes "quiet_plan f ps"
  shows "keeps f (RecheckAfterBbs ps)"
  unfolding RecheckAfterBbs_def
  by (rule keeps_State) (auto simp: quiet_planD(6) [OF assms] dest!: mem_recheck [OF quiet_planD(2) [OF assms]] split: prod.splits)

lemma keeps_GuardCheck:
  assumes "quiet_plan f ps"
  shows "keeps f (GuardCheck ps p)"
  unfolding GuardCheck_def
  by (rule keeps_State) (auto simp: quiet_planD(6) [OF assms] dest!: mem_guard [OF quiet_planD(2) [OF assms]] split: prod.splits)

lemma keeps_DiscoverStep:
  assumes "quiet_plan f ps"
  shows "keeps f (DiscoverStep ps p)"
proof -
  have "keeps f (LegacyBootBootTargetDiscover (plan_discovery ps) b d fn t x y c)" for b d fn t x y c
    by (rule keeps_Discover [OF quiet_boot [OF assms]])
      (use assms keeps_Recheck [OF assms] in \<open>simp_all add: plan_discovery_def quiet_plan_def\<close>)
  then show ?thesis unfolding DiscoverStep_def Let_def by (intro keeps_rules)
qed

lemma keeps_Journal:
  assumes "quiet_plan f ps"
  shows "keeps f (CopyAndJournalPath (ps_Pci ps) rs)"
proof (induction rs)
  case (Cons r rs)
  show ?case unfolding CopyAndJournalPath.simps by (intro keeps_rules quiet_planD [OF assms] Cons.IH)
qed (simp add: keeps_return)

lemma keeps_steps:
  assumes "quiet_plan f ps"
  shows "keeps f (CompatStep ps p)" "keeps f (LocateBiosStep ps p)" "keeps f (LocateRegionStep ps p)" "keeps f (InventoryStep ps p)"
    "keeps f (BuildAndClassifyPaths ps p)" "keeps f (JournalEndpoint (ps_Pci ps) p)" "keeps f (SelectRom ps p)" "keeps f (OwnedStep ps p)"
    "keeps f (BootRanges ps)" "keeps f (CompleteStep ps p)"
proof -
  note q = quiet_planD [OF assms]
  show "keeps f (CompatStep ps p)" unfolding CompatStep_def
    by (rule keeps_State) (auto dest!: mem_compat [OF q(2)] split: prod.splits)
  show "keeps f (BootRanges ps)" unfolding BootRanges_def by (rule keeps_State) (rule mem_ranges [OF q(2)])
  show "keeps f (LocateBiosStep ps p)" "keeps f (LocateRegionStep ps p)" "keeps f (InventoryStep ps p)" "keeps f (JournalEndpoint (ps_Pci ps) p)"
    unfolding LocateBiosStep_def LocateRegionStep_def InventoryStep_def JournalEndpoint_def Let_def by (intro keeps_rules q)+
  show "keeps f (BuildAndClassifyPaths ps p)"
    unfolding BuildAndClassifyPaths_def JournaledPath_def Let_def by (intro keeps_rules q keeps_Journal [OF assms])
  show "keeps f (SelectRom ps p)" unfolding SelectRom_def Let_def by (intro keeps_rules q keeps_GuardCheck [OF assms])
  show "keeps f (OwnedStep ps p)" unfolding OwnedStep_def by (intro keeps_rules keeps_OwnedCopies [OF quiet_boot [OF assms]])
  have "keeps f (State (\<lambda>w. (ps_PhysicalMemory ps w, w)))" by (simp add: keeps_def)
  then show "keeps f (CompleteStep ps p)" unfolding CompleteStep_def Let_def by (intro keeps_rules q)
qed

lemma keeps_Blocked: "quiet_plan f ps \<Longrightarrow> keeps f m \<Longrightarrow> keeps f (Blocked ps label m)"
  unfolding Blocked_def by (intro keeps_rules quiet_planD) assumption+

theorem Build_quiet:
  assumes "quiet_plan f ps"
  shows "keeps f (NativeCsmVgaRuntimePlanBuild ps c)"
  unfolding NativeCsmVgaRuntimePlanBuild_def Let_def StatusOnly_def
  by (intro keeps_rules quiet_planD [OF assms] keeps_Blocked [OF assms] keeps_steps [OF assms] keeps_DiscoverStep [OF assms])

end
