(* ===== verification/Route_Switch.thy ===== *)
theory Route_Switch
  imports Plan_State
begin

text \<open>
  The VGA route of \<open>NativeCsmVgaBoot.c\<close>: \<open>RouteApply\<close> moves legacy VGA forwarding from the path of the active display to the
  path of the target and sets the decoding bits of the target, and \<open>RouteRestore\<close> undoes what was attempted, in reverse
  order. Each write is read back.
\<close>

unbundle bit_operations_syntax

section \<open>One bridge\<close>

abbreviation br_PciIo :: "NATIVE_CSM_VGA_PLAN_BRIDGE \<Rightarrow> nat option" where
  "br_PciIo b \<equiv> pd_PciIo (br_Record b)"

definition Phase :: "'w pci_services \<Rightarrow> string \<Rightarrow> ('w, unit) state" where
  "Phase sv label = do { _ \<leftarrow> PciLogPrint sv label; _ \<leftarrow> PciLogCommit sv; State_Monad.return () }"

definition LogAndCommit :: "'w pci_services \<Rightarrow> string \<Rightarrow> ('w, unit) state" where
  "LogAndCommit sv label = do { _ \<leftarrow> PciLogPrint sv label; _ \<leftarrow> PciLogCommit sv; State_Monad.return () }"

text \<open>A bridge and a result pointer are always given.\<close>

definition ReadBridgeControl :: "'w pci_services \<Rightarrow> NATIVE_CSM_VGA_PLAN_BRIDGE \<Rightarrow> ('w, EFI_STATUS \<times> NCV_U16) state" where
  "ReadBridgeControl sv b =
     (case br_PciIo b of None \<Rightarrow> State_Monad.return (EFI_INVALID_PARAMETER, 0)
      | Some io \<Rightarrow> if \<not> PciHasRead sv io then State_Monad.return (EFI_INVALID_PARAMETER, 0)
                   else PciRead16 sv io PCI_BRIDGE_CONTROL_OFFSET)"

text \<open>The interface is used without a test: the builder of the plan has tested it.\<close>

definition RouteBridgeStep :: "'w pci_services \<Rightarrow> NATIVE_CSM_VGA_PLAN_BRIDGE \<Rightarrow> NCV_U16 \<Rightarrow> ('w, bool) state" where
  "RouteBridgeStep sv b requested = do {
     _ \<leftarrow> Phase sv ''NCV_BOOT_ROUTE_STEP_BEGIN'';
     writeStatus \<leftarrow> PciWrite16 sv (the (br_PciIo b)) PCI_BRIDGE_CONTROL_OFFSET requested;
     (readStatus, actual) \<leftarrow> ReadBridgeControl sv b;
     let verified = \<not> EFI_ERROR writeStatus \<and> \<not> EFI_ERROR readStatus \<and> actual = requested;
     _ \<leftarrow> LogAndCommit sv ''route step'';
     if \<not> verified then do {
       _ \<leftarrow> LogAndCommit sv ''NCV_BOOT_ROUTE_FAILURE_STEP'';
       State_Monad.return False
     }
     else do {
       _ \<leftarrow> Phase sv ''NCV_BOOT_ROUTE_STEP_PASS'';
       State_Monad.return True
     }
   }"

definition WriteBridgeControl :: "'w pci_services \<Rightarrow> NATIVE_CSM_VGA_PLAN_BRIDGE \<Rightarrow> NCV_U16 \<Rightarrow> ('w, bool) state" where
  "WriteBridgeControl sv b v =
     (case br_PciIo b of None \<Rightarrow> State_Monad.return False
      | Some io \<Rightarrow>
          if \<not> PciHasWrite sv io then State_Monad.return False
          else do {
            status \<leftarrow> PciWrite16 sv io PCI_BRIDGE_CONTROL_OFFSET v;
            if EFI_ERROR status then State_Monad.return False
            else do {
              (readStatus, actual) \<leftarrow> ReadBridgeControl sv b;
              State_Monad.return (\<not> EFI_ERROR readStatus \<and> actual = v)
            }
          })"

section \<open>Applying the route\<close>

definition RequiredEndpointCommand :: "RUNTIME_PLAN \<Rightarrow> NCV_U16" where
  "RequiredEndpointCommand p =
     (let c = rp_Config p; command = ep_OriginalCommand (rp_Target p);
          command = (if g_IoDecoding c = NcvEndpointOn then command OR PCI_COMMAND_IO else command);
          command = (if g_IoDecoding c = NcvEndpointOff then command AND NOT PCI_COMMAND_IO else command);
          command = (if g_MemoryDecoding c = NcvEndpointOn then command OR PCI_COMMAND_MEMORY else command);
          command = (if g_MemoryDecoding c = NcvEndpointOff then command AND NOT PCI_COMMAND_MEMORY else command);
          command = (if g_BusMastering c = NcvEndpointOn then command OR PCI_COMMAND_BUS_MASTER else command);
          command = (if g_BusMastering c = NcvEndpointOff then command AND NOT PCI_COMMAND_BUS_MASTER else command)
      in command)"

text \<open>
  The three loops differ in the requested value and in whether a bridge that already has it is skipped. \<open>dirty\<close> is
  \<open>RouteDirty\<close>, set before the first write; the marks of each bridge are set before and after its write. The step
  number is only logged.
\<close>

definition RequestedControl :: "bool \<Rightarrow> NATIVE_CSM_VGA_PLAN_BRIDGE \<Rightarrow> NCV_U16" where
  "RequestedControl enable b =
     (if enable then br_OriginalBridgeControl b OR PCI_BRIDGE_VGA_ENABLE
      else br_OriginalBridgeControl b AND NOT PCI_BRIDGE_VGA_ENABLE)"

fun RouteLoop ::
  "'w pci_services \<Rightarrow> bool \<Rightarrow> bool \<Rightarrow> bool \<Rightarrow> NATIVE_CSM_VGA_PLAN_BRIDGE list \<Rightarrow>
   ('w, bool \<times> bool \<times> NATIVE_CSM_VGA_PLAN_BRIDGE list) state" where
  "RouteLoop sv enable skip dirty [] = State_Monad.return (True, dirty, [])"
| "RouteLoop sv enable skip dirty (b # bs) =
     (if skip \<and> RequestedControl enable b = br_OriginalBridgeControl b then do {
        (ok, dirty, bs') \<leftarrow> RouteLoop sv enable skip dirty bs;
        State_Monad.return (ok, dirty, b # bs')
      }
      else do {
        let b = b\<lparr>br_WriteAttempted := True\<rparr>;
        ok \<leftarrow> RouteBridgeStep sv b (RequestedControl enable b);
        if \<not> ok then State_Monad.return (False, True, b # bs)
        else do {
          (ok, dirty, bs') \<leftarrow> RouteLoop sv enable skip True bs;
          State_Monad.return (ok, dirty, b\<lparr>br_WriteAttempted := True, br_WriteApplied := True\<rparr> # bs')
        }
      })"

definition RequiredAttributes :: "PROBE_CONFIG \<Rightarrow> NCV_U16" where
  "RequiredAttributes c =
     (if g_IoDecoding c \<noteq> NcvEndpointIgnore then PCI_COMMAND_IO else 0) OR
     (if g_MemoryDecoding c \<noteq> NcvEndpointIgnore then PCI_COMMAND_MEMORY else 0) OR
     (if g_BusMastering c \<noteq> NcvEndpointIgnore then PCI_COMMAND_BUS_MASTER else 0)"

definition EndpointViolates :: "RUNTIME_PLAN \<Rightarrow> NCV_U16 \<Rightarrow> bool" where
  "EndpointViolates p actual \<longleftrightarrow>
     (let c = rp_Config p
      in actual AND NOT (RequiredAttributes c) \<noteq> ep_OriginalCommand (rp_Target p) AND NOT (RequiredAttributes c) \<or>
         g_IoDecoding c = NcvEndpointOn \<and> actual AND PCI_COMMAND_IO = 0 \<or>
         g_IoDecoding c = NcvEndpointOff \<and> actual AND PCI_COMMAND_IO \<noteq> 0 \<or>
         g_MemoryDecoding c = NcvEndpointOn \<and> actual AND PCI_COMMAND_MEMORY = 0 \<or>
         g_MemoryDecoding c = NcvEndpointOff \<and> actual AND PCI_COMMAND_MEMORY \<noteq> 0 \<or>
         g_BusMastering c = NcvEndpointOn \<and> actual AND PCI_COMMAND_BUS_MASTER = 0 \<or>
         g_BusMastering c = NcvEndpointOff \<and> actual AND PCI_COMMAND_BUS_MASTER \<noteq> 0)"

definition ApplyEndpoint :: "'w pci_services \<Rightarrow> RUNTIME_PLAN \<Rightarrow> ('w, bool \<times> RUNTIME_PLAN) state" where
  "ApplyEndpoint sv p = do {
     _ \<leftarrow> Phase sv ''NCV_BOOT_ENDPOINT_TARGET_LEGACY_VGA_IO_MEMORY_BEGIN'';
     let requested = RequiredEndpointCommand p;
     let p = p\<lparr>rp_EndpointWriteAttempted := True, rp_RouteDirty := True\<rparr>;
     let io = the (ep_PciIo (rp_Target p));
     status \<leftarrow> PciWrite16 sv io PCI_COMMAND_OFFSET requested;
     (readStatus, actual) \<leftarrow> PciRead16 sv io PCI_COMMAND_OFFSET;
     let status = (if EFI_ERROR readStatus then EFI_DEVICE_ERROR else status);
     _ \<leftarrow> PciLogPrint sv ''endpoint-policy'';
     _ \<leftarrow> PciLogPrint sv ''endpoint-enforcement'';
     let p = p\<lparr>rp_EndpointWriteApplied := (actual \<noteq> ep_OriginalCommand (rp_Target p))\<rparr>;
     let p = (if rp_EndpointWriteApplied p then p\<lparr>rp_RouteDirty := True\<rparr> else p);
     _ \<leftarrow> PciLogCommit sv;
     if EFI_ERROR status \<or> EndpointViolates p actual then do {
       _ \<leftarrow> LogAndCommit sv ''NCV_BOOT_FAIL_TARGET_LEGACY_VGA_IO_MEMORY_ENABLE'';
       State_Monad.return (False, p)
     }
     else do {
       _ \<leftarrow> Phase sv ''NCV_BOOT_ENDPOINT_TARGET_LEGACY_VGA_IO_MEMORY_PASS'';
       State_Monad.return (True, p)
     }
   }"

definition ApplyTarget :: "'w pci_services \<Rightarrow> RUNTIME_PLAN \<Rightarrow> ('w, bool \<times> RUNTIME_PLAN) state" where
  "ApplyTarget sv p = do {
     (ok, dirty, bs) \<leftarrow> RouteLoop sv True False (rp_RouteDirty p) (rp_TargetExclusivePath p);
     let p = p\<lparr>rp_TargetExclusivePath := bs, rp_RouteDirty := dirty\<rparr>;
     if \<not> ok then State_Monad.return (False, p) else ApplyEndpoint sv p
   }"

definition ApplyShared :: "'w pci_services \<Rightarrow> RUNTIME_PLAN \<Rightarrow> ('w, bool \<times> RUNTIME_PLAN) state" where
  "ApplyShared sv p = do {
     (ok, dirty, bs) \<leftarrow> RouteLoop sv True True (rp_RouteDirty p) (rp_SharedPath p);
     let p = p\<lparr>rp_SharedPath := bs, rp_RouteDirty := dirty\<rparr>;
     if \<not> ok then State_Monad.return (False, p) else ApplyTarget sv p
   }"

definition RouteApply :: "'w pci_services \<Rightarrow> RUNTIME_PLAN \<Rightarrow> ('w, bool \<times> RUNTIME_PLAN) state" where
  "RouteApply sv p = do {
     (ok, dirty, bs) \<leftarrow> RouteLoop sv False False (rp_RouteDirty p) (rp_ActiveExclusivePath p);
     let p = p\<lparr>rp_ActiveExclusivePath := bs, rp_RouteDirty := dirty\<rparr>;
     if \<not> ok then State_Monad.return (False, p) else ApplyShared sv p
   }"

section \<open>Restoring the route\<close>

definition RestoreEndpoint :: "'w pci_services \<Rightarrow> RUNTIME_PLAN \<Rightarrow> ('w, bool \<times> RUNTIME_PLAN) state" where
  "RestoreEndpoint sv p =
     (if \<not> rp_EndpointWriteAttempted p then State_Monad.return (True, p)
      else do {
        _ \<leftarrow> Phase sv ''NCV_BOOT_ENDPOINT_ROLLBACK_BEGIN'';
        let io = the (ep_PciIo (rp_Target p));
        let failed = do {
          _ \<leftarrow> LogAndCommit sv ''NCV_BOOT_ENDPOINT_ROLLBACK_FAILED'';
          State_Monad.return (False, p)
        };
        status \<leftarrow> PciWrite16 sv io PCI_COMMAND_OFFSET (ep_OriginalCommand (rp_Target p));
        if EFI_ERROR status then failed
        else do {
          (status, command) \<leftarrow> PciRead16 sv io PCI_COMMAND_OFFSET;
          if EFI_ERROR status \<or> command \<noteq> ep_OriginalCommand (rp_Target p) then failed
          else do {
            _ \<leftarrow> Phase sv ''NCV_BOOT_ENDPOINT_ROLLBACK_PASS'';
            State_Monad.return (True, p\<lparr>rp_EndpointWriteApplied := False, rp_EndpointWriteAttempted := False\<rparr>)
          }
        }
      })"

definition RestoreBridge :: "'w pci_services \<Rightarrow> NATIVE_CSM_VGA_PLAN_BRIDGE \<Rightarrow> ('w, bool) state" where
  "RestoreBridge sv b = do {
     ok \<leftarrow> WriteBridgeControl sv b (br_OriginalBridgeControl b);
     if \<not> ok then State_Monad.return False
     else do {
       (status, actual) \<leftarrow> ReadBridgeControl sv b;
       State_Monad.return (\<not> EFI_ERROR status \<and> actual = br_OriginalBridgeControl b)
     }
   }"

text \<open>One of the three loops, from the last bridge to the first; it stops at the first failure.\<close>

fun RestoreLoop ::
  "'w pci_services \<Rightarrow> NATIVE_CSM_VGA_PLAN_BRIDGE list \<Rightarrow> ('w, bool \<times> NATIVE_CSM_VGA_PLAN_BRIDGE list) state" where
  "RestoreLoop sv [] = State_Monad.return (True, [])"
| "RestoreLoop sv (b # bs) = do {
     (ok, bs') \<leftarrow> RestoreLoop sv bs;
     if \<not> ok \<or> \<not> br_WriteAttempted b then State_Monad.return (ok, b # bs')
     else do {
       ok \<leftarrow> RestoreBridge sv b;
       if \<not> ok then do {
         _ \<leftarrow> LogAndCommit sv ''NCV_BOOT_ROUTE_ROLLBACK_FAILED'';
         State_Monad.return (False, b # bs')
       }
       else do {
         _ \<leftarrow> LogAndCommit sv ''NCV_BOOT_ROUTE_ROLLBACK_STEP_PASS'';
         State_Monad.return (True, b\<lparr>br_WriteApplied := False, br_WriteAttempted := False\<rparr> # bs')
       }
     }
   }"

definition RestoreActive :: "'w pci_services \<Rightarrow> RUNTIME_PLAN \<Rightarrow> ('w, RUNTIME_PLAN) state" where
  "RestoreActive sv p = do {
     (ok, bs) \<leftarrow> RestoreLoop sv (rp_ActiveExclusivePath p);
     let p = p\<lparr>rp_ActiveExclusivePath := bs\<rparr>;
     if \<not> ok then State_Monad.return p
     else do {
       _ \<leftarrow> Phase sv ''NCV_BOOT_ROUTE_ROLLBACK_COMPLETE'';
       State_Monad.return (p\<lparr>rp_RouteDirty := False\<rparr>)
     }
   }"

definition RestoreShared :: "'w pci_services \<Rightarrow> RUNTIME_PLAN \<Rightarrow> ('w, RUNTIME_PLAN) state" where
  "RestoreShared sv p = do {
     (ok, bs) \<leftarrow> RestoreLoop sv (rp_SharedPath p);
     let p = p\<lparr>rp_SharedPath := bs\<rparr>;
     if \<not> ok then State_Monad.return p else RestoreActive sv p
   }"

definition RestoreTarget :: "'w pci_services \<Rightarrow> RUNTIME_PLAN \<Rightarrow> ('w, RUNTIME_PLAN) state" where
  "RestoreTarget sv p = do {
     (ok, bs) \<leftarrow> RestoreLoop sv (rp_TargetExclusivePath p);
     let p = p\<lparr>rp_TargetExclusivePath := bs\<rparr>;
     if \<not> ok then State_Monad.return p else RestoreShared sv p
   }"

definition RouteRestore :: "'w pci_services \<Rightarrow> RUNTIME_PLAN \<Rightarrow> ('w, RUNTIME_PLAN) state" where
  "RouteRestore sv p = do {
     (ok, p) \<leftarrow> RestoreEndpoint sv p;
     if \<not> ok then State_Monad.return p
     else do {
       _ \<leftarrow> Phase sv ''NCV_BOOT_ROUTE_ROLLBACK_BEGIN'';
       RestoreTarget sv p
     }
   }"

section \<open>What the calls do to configuration space\<close>

type_synonym 'w config_space = "'w \<Rightarrow> nat \<Rightarrow> nat \<Rightarrow> NCV_U16"

text \<open>\<open>within cfg w R w'\<close>: from \<open>w\<close> to \<open>w'\<close> only registers of \<open>R\<close> changed.\<close>

definition within :: "'w config_space \<Rightarrow> 'w \<Rightarrow> (nat \<times> nat) set \<Rightarrow> 'w \<Rightarrow> bool" where
  "within cfg w R w' \<longleftrightarrow> (\<forall>io off. (io, off) \<notin> R \<longrightarrow> cfg w' io off = cfg w io off)"

lemma within_refl: "cfg w' = cfg w \<Longrightarrow> within cfg w R w'"
  by (simp add: within_def)

lemma within_trans: "within cfg w R w1 \<Longrightarrow> within cfg w1 S w2 \<Longrightarrow> within cfg w (R \<union> S) w2"
  by (simp add: within_def)

lemma within_mono: "within cfg w R w' \<Longrightarrow> R \<subseteq> S \<Longrightarrow> within cfg w S w'"
  by (auto simp: within_def)

lemma within_D: "within cfg w R w' \<Longrightarrow> (io, off) \<notin> R \<Longrightarrow> cfg w' io off = cfg w io off"
  by (simp add: within_def)

definition br_reg :: "NATIVE_CSM_VGA_PLAN_BRIDGE \<Rightarrow> nat \<times> nat" where
  "br_reg b = (the (br_PciIo b), PCI_BRIDGE_CONTROL_OFFSET)"

definition br_value :: "'w config_space \<Rightarrow> 'w \<Rightarrow> NATIVE_CSM_VGA_PLAN_BRIDGE \<Rightarrow> NCV_U16" where
  "br_value cfg w b = cfg w (the (br_PciIo b)) PCI_BRIDGE_CONTROL_OFFSET"

lemma within_value: "within cfg w R w' \<Longrightarrow> br_reg b \<notin> R \<Longrightarrow> br_value cfg w' b = br_value cfg w b"
  by (simp add: within_def br_reg_def br_value_def)

lemma br_marks [simp]:
  "br_reg (b\<lparr>br_WriteAttempted := x\<rparr>) = br_reg b" "br_reg (b\<lparr>br_WriteApplied := x\<rparr>) = br_reg b"
  "br_value cfg w (b\<lparr>br_WriteAttempted := x\<rparr>) = br_value cfg w b" "br_value cfg w (b\<lparr>br_WriteApplied := x\<rparr>) = br_value cfg w b"
  "RequestedControl enable (b\<lparr>br_WriteAttempted := x\<rparr>) = RequestedControl enable b"
  "RequestedControl enable (b\<lparr>br_WriteApplied := x\<rparr>) = RequestedControl enable b"
  by (simp_all add: br_reg_def br_value_def RequestedControl_def)

lemma pci_keeps:
  assumes "pci_laws cfg sv"
  shows "keeps cfg (PciLogPrint sv s)" "keeps cfg (PciLogCommit sv)" "keeps cfg (PciAttributes sv io)" "keeps cfg (PciRomImage sv io)"
    "keeps cfg (PciRead16 sv io off)"
proof -
  have "wp (PciRead16 sv io off) (\<lambda>(status, v) w'. cfg w' = cfg w \<and> (\<not> EFI_ERROR status \<longrightarrow> v = cfg w io off)) w" for w
    using assms by (simp add: pci_laws_def)
  then show "keeps cfg (PciRead16 sv io off)" by (simp add: keeps_def wp_def split_def)
qed (use assms in \<open>simp_all add: pci_laws_def\<close>)

lemma route_keeps:
  assumes "pci_laws cfg sv"
  shows "keeps cfg (Phase sv s)" "keeps cfg (LogAndCommit sv s)" "keeps cfg (ReadBridgeControl sv b)"
  unfolding Phase_def LogAndCommit_def ReadBridgeControl_def by (intro keeps_rules pci_keeps [OF assms])+

lemma wp_PciRead16:
  assumes "pci_laws cfg sv"
    and "\<And>status v w'. cfg w' = cfg w \<Longrightarrow> (\<not> EFI_ERROR status \<Longrightarrow> v = cfg w io off) \<Longrightarrow> Q (status, v) w'"
  shows "wp (PciRead16 sv io off) Q w"
proof (rule wp_mono)
  show "wp (PciRead16 sv io off) (\<lambda>(status, v) w'. cfg w' = cfg w \<and> (\<not> EFI_ERROR status \<longrightarrow> v = cfg w io off)) w"
    using assms(1) by (simp add: pci_laws_def)
qed (auto intro: assms(2))

lemma wp_PciWrite16:
  assumes "pci_laws cfg sv" and "\<And>status w'. within cfg w {(io, off)} w' \<Longrightarrow> Q status w'"
  shows "wp (PciWrite16 sv io off v) Q w"
proof (rule wp_mono)
  show "wp (PciWrite16 sv io off v) (\<lambda>_ w'. \<forall>io' off'. (io', off') \<noteq> (io, off) \<longrightarrow> cfg w' io' off' = cfg w io' off') w"
    using assms(1) unfolding pci_laws_def by blast
qed (rule assms(2), simp add: within_def)

lemma wp_ReadBridgeControl:
  assumes "pci_laws cfg sv"
    and "\<And>status v w'. cfg w' = cfg w \<Longrightarrow> (\<not> EFI_ERROR status \<Longrightarrow> v = br_value cfg w b) \<Longrightarrow> Q (status, v) w'"
  shows "wp (ReadBridgeControl sv b) Q w"
  unfolding ReadBridgeControl_def
  by (intro wp_optionI wp_ifI wp_returnI wp_PciRead16 [OF assms(1)] assms(2)) (simp_all add: br_value_def)

text \<open>The steps of a program over configuration space, as introduction rules.\<close>

lemma bind_PciRead16:
  assumes "pci_laws cfg sv"
    and "\<And>status v w'. cfg w' = cfg w \<Longrightarrow> (\<not> EFI_ERROR status \<Longrightarrow> v = cfg w io off) \<Longrightarrow> wp (f (status, v)) Q w'"
  shows "wp (State_Monad.bind (PciRead16 sv io off) f) Q w"
  unfolding wp_bind by (rule wp_PciRead16 [OF assms(1)]) (rule assms(2))

lemma bind_PciWrite16:
  assumes "pci_laws cfg sv" and "\<And>status w'. within cfg w {(io, off)} w' \<Longrightarrow> wp (f status) Q w'"
  shows "wp (State_Monad.bind (PciWrite16 sv io off v) f) Q w"
  unfolding wp_bind by (rule wp_PciWrite16 [OF assms(1)]) (rule assms(2))

lemma bind_ReadBridgeControl:
  assumes "pci_laws cfg sv"
    and "\<And>status v w'. cfg w' = cfg w \<Longrightarrow> (\<not> EFI_ERROR status \<Longrightarrow> v = br_value cfg w b) \<Longrightarrow> wp (f (status, v)) Q w'"
  shows "wp (State_Monad.bind (ReadBridgeControl sv b) f) Q w"
  unfolding wp_bind by (rule wp_ReadBridgeControl [OF assms(1)]) (rule assms(2))

lemmas route_steps = bind_PciRead16 bind_PciWrite16 bind_ReadBridgeControl
  keeps_bindI [OF route_keeps(1)] keeps_bindI [OF route_keeps(2)] keeps_bindI [OF pci_keeps(1)] keeps_bindI [OF pci_keeps(2)]

text \<open>The verified write of one bridge, on both ways.\<close>

lemma wp_RouteBridgeStep:
  assumes "pci_laws cfg sv" and "\<And>ok w'. within cfg w {br_reg b} w' \<Longrightarrow> (ok \<Longrightarrow> br_value cfg w' b = v) \<Longrightarrow> Q ok w'"
  shows "wp (RouteBridgeStep sv b v) Q w"
  unfolding RouteBridgeStep_def wp_Let Let_def
  by (intro route_steps [OF assms(1)] wp_prodI wp_ifI wp_returnI assms(2)) (auto simp: within_def br_reg_def br_value_def)

lemma wp_WriteBridgeControl:
  assumes "pci_laws cfg sv" and "\<And>ok w'. within cfg w {br_reg b} w' \<Longrightarrow> (ok \<Longrightarrow> br_value cfg w' b = v) \<Longrightarrow> Q ok w'"
  shows "wp (WriteBridgeControl sv b v) Q w"
  unfolding WriteBridgeControl_def
  by (intro route_steps [OF assms(1)] wp_optionI wp_prodI wp_ifI wp_returnI assms(2)) (auto simp: within_def br_reg_def br_value_def)

lemma wp_RestoreBridge:
  assumes "pci_laws cfg sv"
    and "\<And>ok w'. within cfg w {br_reg b} w' \<Longrightarrow> (ok \<Longrightarrow> br_value cfg w' b = br_OriginalBridgeControl b) \<Longrightarrow> Q ok w'"
  shows "wp (RestoreBridge sv b) Q w"
  unfolding RestoreBridge_def wp_bind
  by (rule wp_WriteBridgeControl [OF assms(1)], intro route_steps [OF assms(1)] wp_prodI wp_ifI wp_returnI assms(2))
     (auto simp: within_def br_reg_def br_value_def)

section \<open>The loops\<close>

definition unmarked :: "NATIVE_CSM_VGA_PLAN_BRIDGE \<Rightarrow> NATIVE_CSM_VGA_PLAN_BRIDGE" where
  "unmarked b = b\<lparr>br_WriteAttempted := False, br_WriteApplied := False\<rparr>"

definition attempted :: "NATIVE_CSM_VGA_PLAN_BRIDGE list \<Rightarrow> (nat \<times> nat) set" where
  "attempted bs = br_reg ` {b \<in> set bs. br_WriteAttempted b}"

text \<open>A path whose registers hold the journaled values and of which nothing is marked.\<close>

definition path_journaled :: "'w config_space \<Rightarrow> 'w \<Rightarrow> NATIVE_CSM_VGA_PLAN_BRIDGE list \<Rightarrow> bool" where
  "path_journaled cfg w bs \<longleftrightarrow> distinct (map br_reg bs) \<and> (\<forall>b \<in> set bs. unmarked b = b \<and> br_value cfg w b = br_OriginalBridgeControl b)"

lemma unmarked_simps [simp]:
  "br_reg (unmarked b) = br_reg b" "unmarked (b\<lparr>br_WriteAttempted := x\<rparr>) = unmarked b" "unmarked (b\<lparr>br_WriteApplied := x\<rparr>) = unmarked b"
  "br_OriginalBridgeControl (unmarked b) = br_OriginalBridgeControl b" "unmarked (unmarked b) = unmarked b"
  "\<not> br_WriteAttempted (unmarked b)" "br_value cfg w (unmarked b) = br_value cfg w b"
  by (simp_all add: unmarked_def br_reg_def br_value_def)

lemma unmarked_attempted: "unmarked b = b \<Longrightarrow> \<not> br_WriteAttempted b"
  by (metis unmarked_simps(6))

lemma unmarked_applied: "unmarked b = b \<Longrightarrow> \<not> br_WriteApplied b"
  by (metis unmarked_def NATIVE_CSM_VGA_PLAN_BRIDGE.select_convs(4) NATIVE_CSM_VGA_PLAN_BRIDGE.surjective NATIVE_CSM_VGA_PLAN_BRIDGE.update_convs(4))

lemma attempted_simps [simp]:
  "attempted [] = {}" "attempted (b # bs) = (if br_WriteAttempted b then {br_reg b} else {}) \<union> attempted bs"
  by (auto simp: attempted_def)

lemma attempted_regs: "map unmarked bs' = map unmarked bs \<Longrightarrow> attempted bs' \<subseteq> br_reg ` set bs"
proof -
  assume a: "map unmarked bs' = map unmarked bs"
  have "br_reg ` set bs' = br_reg ` set bs"
    using arg_cong [OF a, of "\<lambda>xs. br_reg ` set xs"] by (simp add: image_image)
  then show ?thesis by (auto simp: attempted_def)
qed

lemma unmarked_attempted_empty: "map unmarked bs = bs \<Longrightarrow> attempted bs = {}"
  by (induction bs) (auto dest: unmarked_attempted)

lemma path_journaled_unmarked: "path_journaled cfg w bs \<Longrightarrow> map unmarked bs = bs"
  by (simp add: path_journaled_def map_idI)

lemma path_journaled_within:
  assumes "path_journaled cfg w bs" and "within cfg w R w'" and "\<And>b. b \<in> set bs \<Longrightarrow> br_reg b \<notin> R"
  shows "path_journaled cfg w' bs"
  using assms(1,3) within_value [OF assms(2)] by (simp add: path_journaled_def)

text \<open>What a loop of \<open>RouteApply\<close> has done.\<close>

definition routed :: "'w config_space \<Rightarrow> 'w \<Rightarrow> bool \<Rightarrow> bool \<Rightarrow> NATIVE_CSM_VGA_PLAN_BRIDGE list \<Rightarrow>
    bool \<times> bool \<times> NATIVE_CSM_VGA_PLAN_BRIDGE list \<Rightarrow> 'w \<Rightarrow> bool" where
  "routed cfg w enable dirty bs r w' \<longleftrightarrow> (case r of (ok, dirty', bs') \<Rightarrow>
     map unmarked bs' = bs \<and> within cfg w (attempted bs') w' \<and> (dirty' \<longleftrightarrow> dirty \<or> attempted bs' \<noteq> {}) \<and>
     (\<forall>b \<in> set bs'. br_WriteApplied b \<longrightarrow> br_WriteAttempted b) \<and> (ok \<longrightarrow> (\<forall>b \<in> set bs. br_value cfg w' b = RequestedControl enable b)))"

lemma wp_RouteLoop:
  assumes "pci_laws cfg sv"
  shows "path_journaled cfg w bs \<Longrightarrow> wp (RouteLoop sv enable skip dirty bs) (routed cfg w enable dirty bs) w"
proof (induction bs arbitrary: w dirty)
  case Nil
  then show ?case by (simp add: routed_def within_refl)
next
  case (Cons b bs)
  have b: "unmarked b = b" "br_value cfg w b = br_OriginalBridgeControl b" "br_reg b \<notin> br_reg ` set bs" and "distinct (map br_reg bs)"
    and bs: "map unmarked bs = bs" "path_journaled cfg w bs"
    using Cons.prems path_journaled_unmarked [of cfg w bs] by (auto simp: path_journaled_def)
  have tail: "wp (RouteLoop sv enable skip dirty bs) (routed cfg w' enable dirty bs) w'" if "within cfg w {br_reg b} w'" for w' dirty
    by (rule Cons.IH [OF path_journaled_within [OF bs(2) that]]) (use b(3) in \<open>metis image_eqI singletonD\<close>)
  have keep: "br_value cfg w2 b = br_value cfg w1 b" if "within cfg w1 (attempted bs') w2" "map unmarked bs' = bs" for w1 w2 bs'
    using within_value [OF that(1)] attempted_regs [of bs' bs] that(2) bs(1) b(3) by auto
  show ?case
  proof (cases "skip \<and> RequestedControl enable b = br_OriginalBridgeControl b")
    case True
    show ?thesis unfolding RouteLoop.simps if_P [OF True] wp_bind
    proof (rule wp_mono [OF tail [OF within_refl [OF refl]]], rule wp_prodI, rule wp_prodI, rule wp_returnI)
      fix r w' ok r' dirty' bs' assume "routed cfg w enable dirty bs r w'" "r = (ok, r')" "r' = (dirty', bs')"
      then show "routed cfg w enable dirty (b # bs) (ok, dirty', b # bs') w'"
        using b keep True unmarked_attempted [OF b(1)] unmarked_applied [OF b(1)] by (auto simp: routed_def)
    qed
  next
    case False
    let ?b = "b\<lparr>br_WriteAttempted := True\<rparr>"
    show ?thesis unfolding RouteLoop.simps if_not_P [OF False] wp_bind Let_def
    proof (rule wp_RouteBridgeStep [OF assms], rule wp_ifI)
      fix ok w1 assume "within cfg w {br_reg ?b} w1"
      then show "wp (State_Monad.return (False, True, ?b # bs)) (routed cfg w enable dirty (b # bs)) w1"
        using b bs unmarked_attempted_empty [OF bs(1)] unmarked_applied path_journaled_def by (fastforce simp: routed_def)
    next
      fix ok w1 assume w1: "within cfg w {br_reg ?b} w1" and "\<not> \<not> ok" and "ok \<Longrightarrow> br_value cfg w1 ?b = RequestedControl enable ?b"
      then have v: "br_value cfg w1 b = RequestedControl enable b" by simp
      show "wp (RouteLoop sv enable skip True bs \<bind> (\<lambda>(ok, dirty, bs'). State_Monad.return
          (ok, dirty, ?b\<lparr>br_WriteAttempted := True, br_WriteApplied := True\<rparr> # bs'))) (routed cfg w enable dirty (b # bs)) w1"
        unfolding wp_bind
      proof (rule wp_mono [OF tail], goal_cases)
        case 1 then show ?case using w1 by simp
      next
        case (2 r w')
        obtain ok dirty' bs' where r: "r = (ok, dirty', bs')" by (metis prod.exhaust)
        have "within cfg w ({br_reg b} \<union> attempted bs') w'" using w1 2 within_trans by (fastforce simp: routed_def r)
        then show ?case using b(1) keep v 2 by (auto simp: routed_def r)
      qed
    qed
  qed
qed

text \<open>What a loop of \<open>RouteRestore\<close> has done.\<close>

definition restored :: "'w config_space \<Rightarrow> 'w \<Rightarrow> NATIVE_CSM_VGA_PLAN_BRIDGE list \<Rightarrow> bool \<times> NATIVE_CSM_VGA_PLAN_BRIDGE list \<Rightarrow> 'w \<Rightarrow> bool" where
  "restored cfg w bs r w' \<longleftrightarrow> (case r of (ok, bs') \<Rightarrow>
     map unmarked bs' = map unmarked bs \<and> within cfg w (attempted bs) w' \<and> (attempted bs = {} \<longrightarrow> ok) \<and>
     (ok \<longrightarrow> bs' = map (\<lambda>b. if br_WriteAttempted b then unmarked b else b) bs \<and>
        (\<forall>b \<in> set bs. br_WriteAttempted b \<longrightarrow> br_value cfg w' b = br_OriginalBridgeControl b)))"

lemma wp_RestoreLoop:
  assumes "pci_laws cfg sv"
  shows "distinct (map br_reg bs) \<Longrightarrow> wp (RestoreLoop sv bs) (restored cfg w bs) w"
proof (induction bs)
  case Nil
  then show ?case by (simp add: restored_def within_refl)
next
  case (Cons b bs)
  have b: "br_reg b \<notin> br_reg ` set bs" and IH: "wp (RestoreLoop sv bs) (restored cfg w bs) w"
    using Cons by auto
  have um: "b\<lparr>br_WriteApplied := False, br_WriteAttempted := False\<rparr> = unmarked b" by (simp add: unmarked_def)
  show ?case unfolding RestoreLoop.simps wp_bind
  proof (rule wp_mono [OF IH], rule wp_prodI, rule wp_ifI)
    fix r w1 ok bs' assume r: "restored cfg w bs r w1" "r = (ok, bs')" and "\<not> ok \<or> \<not> br_WriteAttempted b"
    then show "wp (State_Monad.return (ok, b # bs')) (restored cfg w (b # bs)) w1"
      by (auto simp: restored_def intro: within_mono)
  next
    fix r w1 ok bs' assume r: "restored cfg w bs r w1" "r = (ok, bs')" and n: "\<not> (\<not> ok \<or> \<not> br_WriteAttempted b)"
    have w2: "within cfg w (attempted (b # bs)) w2" if "within cfg w1 {br_reg b} w2" for w2
    proof -
      have "within cfg w (attempted bs) w1" using r by (simp add: restored_def)
      from within_trans [OF this that] show ?thesis using n by simp
    qed
    have keep: "br_value cfg w2 b' = br_value cfg w1 b'" if "within cfg w1 {br_reg b} w2" "b' \<in> set bs" for w2 b'
      by (rule within_value [OF that(1)]) (use b that(2) in \<open>metis image_eqI singletonD\<close>)
    have cfg_eq: "within cfg w1 {br_reg b} w3" "br_value cfg w3 b = br_value cfg w2 b" if "within cfg w1 {br_reg b} w2" "cfg w3 = cfg w2" for w2 w3
      using that by (simp_all add: within_def br_value_def)
    show "wp (RestoreBridge sv b \<bind> (\<lambda>ok. if \<not> ok
        then LogAndCommit sv ''NCV_BOOT_ROUTE_ROLLBACK_FAILED'' \<bind> (\<lambda>_. State_Monad.return (False, b # bs'))
        else LogAndCommit sv ''NCV_BOOT_ROUTE_ROLLBACK_STEP_PASS'' \<bind> (\<lambda>_. State_Monad.return
          (True, b\<lparr>br_WriteApplied := False, br_WriteAttempted := False\<rparr> # bs')))) (restored cfg w (b # bs)) w1"
      unfolding um wp_bind
    proof (rule wp_RestoreBridge [OF assms], rule wp_ifI)
      fix ok2 w2 assume i: "within cfg w1 {br_reg b} w2"
      show "wp (LogAndCommit sv ''NCV_BOOT_ROUTE_ROLLBACK_FAILED'' \<bind> (\<lambda>_. State_Monad.return (False, b # bs'))) (restored cfg w (b # bs)) w2"
      proof (rule keeps_bindI [OF route_keeps(2) [OF assms]])
        fix u w3 assume "cfg w3 = cfg w2"
        from w2 [OF cfg_eq(1) [OF i this]] r n
        show "wp (State_Monad.return (False, b # bs')) (restored cfg w (b # bs)) w3" by (simp add: restored_def)
      qed
    next
      fix ok2 w2 assume i: "within cfg w1 {br_reg b} w2" and "ok2 \<Longrightarrow> br_value cfg w2 b = br_OriginalBridgeControl b" and "\<not> \<not> ok2"
      then have v: "br_value cfg w2 b = br_OriginalBridgeControl b" by simp
      show "wp (LogAndCommit sv ''NCV_BOOT_ROUTE_ROLLBACK_STEP_PASS'' \<bind> (\<lambda>_. State_Monad.return (True, unmarked b # bs'))) (restored cfg w (b # bs)) w2"
      proof (rule keeps_bindI [OF route_keeps(2) [OF assms]])
        fix u w3 assume c: "cfg w3 = cfg w2"
        note j = cfg_eq [OF i c]
        show "wp (State_Monad.return (True, unmarked b # bs')) (restored cfg w (b # bs)) w3"
          using r n w2 [OF j(1)] keep [OF j(1)] j(2) v by (auto simp: restored_def)
      qed
    qed
  qed
qed

end
