(* ===== verification/Route_Laws.thy ===== *)
theory Route_Laws
  imports Route_Switch
begin

text \<open>
  What the route transfer guarantees over any configuration space that behaves as documented: a successful
  \<open>RouteApply\<close> leaves exactly the requested bits, and after any outcome \<open>RouteRestore\<close> either restores every
  register or leaves the plan marked dirty, which forbids its release.
\<close>

unbundle bit_operations_syntax

section \<open>Readiness and outcome\<close>

definition endpoint_reg :: "RUNTIME_PLAN \<Rightarrow> nat \<times> nat" where
  "endpoint_reg p = (the (ep_PciIo (rp_Target p)), PCI_COMMAND_OFFSET)"

definition endpoint_value :: "'w config_space \<Rightarrow> 'w \<Rightarrow> RUNTIME_PLAN \<Rightarrow> NCV_U16" where
  "endpoint_value cfg w p = cfg w (the (ep_PciIo (rp_Target p))) PCI_COMMAND_OFFSET"

definition all_bridges :: "RUNTIME_PLAN \<Rightarrow> NATIVE_CSM_VGA_PLAN_BRIDGE list" where
  "all_bridges p = rp_ActiveExclusivePath p @ rp_SharedPath p @ rp_TargetExclusivePath p"

definition touched :: "RUNTIME_PLAN \<Rightarrow> (nat \<times> nat) set" where
  "touched p = attempted (rp_ActiveExclusivePath p) \<union> attempted (rp_SharedPath p) \<union> attempted (rp_TargetExclusivePath p) \<union>
     (if rp_EndpointWriteAttempted p then {endpoint_reg p} else {})"

definition reset_marks :: "RUNTIME_PLAN \<Rightarrow> RUNTIME_PLAN" where
  "reset_marks p = p\<lparr>rp_ActiveExclusivePath := map unmarked (rp_ActiveExclusivePath p), rp_SharedPath := map unmarked (rp_SharedPath p),
     rp_TargetExclusivePath := map unmarked (rp_TargetExclusivePath p), rp_EndpointWriteAttempted := False,
     rp_EndpointWriteApplied := False, rp_RouteDirty := False\<rparr>"

text \<open>The registers of the plan are distinct and hold the journaled values, and nothing is marked.\<close>

definition route_ready :: "'w config_space \<Rightarrow> 'w \<Rightarrow> RUNTIME_PLAN \<Rightarrow> bool" where
  "route_ready cfg w p \<longleftrightarrow> path_journaled cfg w (all_bridges p) \<and> endpoint_value cfg w p = ep_OriginalCommand (rp_Target p) \<and>
     \<not> rp_EndpointWriteAttempted p \<and> \<not> rp_EndpointWriteApplied p \<and> \<not> rp_RouteDirty p"

definition marks_ok :: "RUNTIME_PLAN \<Rightarrow> bool" where
  "marks_ok p \<longleftrightarrow> (\<forall>b \<in> set (all_bridges p). br_WriteApplied b \<longrightarrow> br_WriteAttempted b) \<and>
     (rp_EndpointWriteApplied p \<longrightarrow> rp_EndpointWriteAttempted p)"

definition route_applied :: "'w config_space \<Rightarrow> 'w \<Rightarrow> RUNTIME_PLAN \<Rightarrow> bool \<times> RUNTIME_PLAN \<Rightarrow> 'w \<Rightarrow> bool" where
  "route_applied cfg w p r w' \<longleftrightarrow> (case r of (ok, p') \<Rightarrow>
     reset_marks p' = p \<and> within cfg w (touched p') w' \<and> (rp_RouteDirty p' \<longleftrightarrow> touched p' \<noteq> {}) \<and> marks_ok p' \<and>
     (ok \<longrightarrow> (\<forall>b \<in> set (rp_ActiveExclusivePath p). br_value cfg w' b = RequestedControl False b) \<and>
        (\<forall>b \<in> set (rp_SharedPath p) \<union> set (rp_TargetExclusivePath p). br_value cfg w' b = RequestedControl True b) \<and>
        \<not> EndpointViolates p (endpoint_value cfg w' p)))"

section \<open>RouteApply\<close>

lemma endpoint_simps [simp]:
  "endpoint_reg (p\<lparr>rp_ActiveExclusivePath := xs\<rparr>) = endpoint_reg p" "endpoint_reg (p\<lparr>rp_SharedPath := xs\<rparr>) = endpoint_reg p"
  "endpoint_reg (p\<lparr>rp_TargetExclusivePath := xs\<rparr>) = endpoint_reg p" "endpoint_reg (p\<lparr>rp_RouteDirty := x\<rparr>) = endpoint_reg p"
  "endpoint_reg (p\<lparr>rp_EndpointWriteAttempted := x\<rparr>) = endpoint_reg p" "endpoint_reg (p\<lparr>rp_EndpointWriteApplied := x\<rparr>) = endpoint_reg p"
  "endpoint_value cfg w (p\<lparr>rp_ActiveExclusivePath := xs\<rparr>) = endpoint_value cfg w p" "endpoint_value cfg w (p\<lparr>rp_SharedPath := xs\<rparr>) = endpoint_value cfg w p"
  "endpoint_value cfg w (p\<lparr>rp_TargetExclusivePath := xs\<rparr>) = endpoint_value cfg w p" "endpoint_value cfg w (p\<lparr>rp_RouteDirty := x\<rparr>) = endpoint_value cfg w p"
  "EndpointViolates (p\<lparr>rp_ActiveExclusivePath := xs\<rparr>) v = EndpointViolates p v" "EndpointViolates (p\<lparr>rp_SharedPath := xs\<rparr>) v = EndpointViolates p v"
  "EndpointViolates (p\<lparr>rp_TargetExclusivePath := xs\<rparr>) v = EndpointViolates p v" "EndpointViolates (p\<lparr>rp_RouteDirty := x\<rparr>) v = EndpointViolates p v"
  "EndpointViolates (p\<lparr>rp_EndpointWriteAttempted := x\<rparr>) v = EndpointViolates p v" "EndpointViolates (p\<lparr>rp_EndpointWriteApplied := x\<rparr>) v = EndpointViolates p v"
  by (simp_all add: endpoint_reg_def endpoint_value_def EndpointViolates_def)

lemma endpoint_not_bridge: "endpoint_reg p \<noteq> br_reg b"
  by (simp add: endpoint_reg_def br_reg_def ncv_defs)

lemma endpoint_not_attempted: "endpoint_reg p \<notin> attempted bs"
  by (auto simp: attempted_def endpoint_not_bridge)

lemma wp_ApplyEndpoint:
  assumes "pci_laws cfg sv"
    and "\<And>ok a w'. within cfg w {endpoint_reg p} w' \<Longrightarrow> (ok \<Longrightarrow> \<not> EndpointViolates p (endpoint_value cfg w' p)) \<Longrightarrow>
      Q (ok, p\<lparr>rp_EndpointWriteAttempted := True, rp_RouteDirty := True, rp_EndpointWriteApplied := a\<rparr>) w'"
  shows "wp (ApplyEndpoint sv p) Q w"
proof -
  let ?p = "p\<lparr>rp_EndpointWriteAttempted := True, rp_RouteDirty := True\<rparr>"
  have p: "(if rp_EndpointWriteApplied (?p\<lparr>rp_EndpointWriteApplied := a\<rparr>) then ?p\<lparr>rp_EndpointWriteApplied := a\<rparr>\<lparr>rp_RouteDirty := True\<rparr>
      else ?p\<lparr>rp_EndpointWriteApplied := a\<rparr>) = ?p\<lparr>rp_EndpointWriteApplied := a\<rparr>" for a
    by simp
  have t: "rp_Target ?p = rp_Target p" by simp
  show ?thesis unfolding ApplyEndpoint_def Let_def p t
    by (intro route_steps [OF assms(1)] wp_prodI wp_ifI wp_returnI assms(2)) (auto simp: within_def endpoint_reg_def endpoint_value_def split: if_splits)
qed

lemma marks_unmarked: "map unmarked bs = bs \<Longrightarrow> \<forall>b \<in> set bs. br_WriteApplied b \<longrightarrow> br_WriteAttempted b"
  by (metis (no_types, lifting) map_eq_conv map_ident unmarked_applied)

lemma value_kept:
  assumes "within cfg w1 R w2" and "\<And>b. b \<in> set bs \<Longrightarrow> br_reg b \<notin> R" and "\<forall>b \<in> set bs. br_value cfg w1 b = f b"
  shows "\<forall>b \<in> set bs. br_value cfg w2 b = f b"
  using assms(2,3) within_value [OF assms(1)] by simp

lemma attempted_sub: "map unmarked bs' = bs \<Longrightarrow> attempted bs' \<subseteq> br_reg ` set bs"
  using attempted_regs [of bs' bs] by (metis (no_types, lifting) list.map_comp map_eq_conv o_apply unmarked_simps(5))

lemma attempted_apart:
  "map unmarked bs' = bs \<Longrightarrow> br_reg ` set cs \<inter> br_reg ` set bs = {} \<Longrightarrow> b \<in> set cs \<Longrightarrow> br_reg b \<notin> attempted bs'"
  using attempted_sub [of bs' bs] by blast

text \<open>What holds of the plan between the stages, and that it is the outcome when a stage fails.\<close>

definition stage :: "'w config_space \<Rightarrow> 'w \<Rightarrow> RUNTIME_PLAN \<Rightarrow> RUNTIME_PLAN \<Rightarrow> 'w \<Rightarrow> bool" where
  "stage cfg w p p' w' \<longleftrightarrow>
     reset_marks p' = p \<and> within cfg w (touched p') w' \<and> (rp_RouteDirty p' \<longleftrightarrow> touched p' \<noteq> {}) \<and> marks_ok p'"

lemma stage_failed: "stage cfg w p p' w' \<Longrightarrow> route_applied cfg w p (False, p') w'"
  by (simp add: stage_def route_applied_def)

lemma stage_step:
  assumes "stage cfg w p p1 w1" and "reset_marks p2 = reset_marks p1" and "touched p2 = touched p1 \<union> R" and "within cfg w1 R w2"
    and "rp_RouteDirty p2 \<longleftrightarrow> rp_RouteDirty p1 \<or> R \<noteq> {}" and "marks_ok p2"
  shows "stage cfg w p p2 w2"
  using assms within_trans [OF _ assms(4), of w "touched p1"] by (auto simp: stage_def)

lemma stage_endpoint:
  assumes "stage cfg w p p1 w1" and "within cfg w1 {endpoint_reg p1} w2"
  shows "stage cfg w p (p1\<lparr>rp_EndpointWriteAttempted := True, rp_RouteDirty := True, rp_EndpointWriteApplied := a\<rparr>) w2"
proof (rule stage_step [OF assms(1) _ _ assms(2)])
  show "marks_ok (p1\<lparr>rp_EndpointWriteAttempted := True, rp_RouteDirty := True, rp_EndpointWriteApplied := a\<rparr>)"
    using assms(1) by (simp add: stage_def marks_ok_def all_bridges_def)
qed (simp_all add: reset_marks_def touched_def)

lemma stage_active:
  assumes "stage cfg w p p1 w1" and "map unmarked (rp_ActiveExclusivePath p1) = rp_ActiveExclusivePath p1"
    and "routed cfg w1 e (rp_RouteDirty p1) (rp_ActiveExclusivePath p1) (ok, d, bs) w2"
  shows "stage cfg w p (p1\<lparr>rp_ActiveExclusivePath := bs, rp_RouteDirty := d\<rparr>) w2"
proof (rule stage_step [OF assms(1), where R = "attempted bs"])
  show "touched (p1\<lparr>rp_ActiveExclusivePath := bs, rp_RouteDirty := d\<rparr>) = touched p1 \<union> attempted bs"
    using unmarked_attempted_empty [OF assms(2)] by (simp add: touched_def ac_simps)
  show "marks_ok (p1\<lparr>rp_ActiveExclusivePath := bs, rp_RouteDirty := d\<rparr>)"
    using assms(1,3) by (simp add: stage_def routed_def marks_ok_def all_bridges_def ball_Un)
qed (use assms(2,3) in \<open>simp_all add: routed_def reset_marks_def\<close>)

lemma stage_shared:
  assumes "stage cfg w p p1 w1" and "map unmarked (rp_SharedPath p1) = rp_SharedPath p1"
    and "routed cfg w1 e (rp_RouteDirty p1) (rp_SharedPath p1) (ok, d, bs) w2"
  shows "stage cfg w p (p1\<lparr>rp_SharedPath := bs, rp_RouteDirty := d\<rparr>) w2"
proof (rule stage_step [OF assms(1), where R = "attempted bs"])
  show "touched (p1\<lparr>rp_SharedPath := bs, rp_RouteDirty := d\<rparr>) = touched p1 \<union> attempted bs"
    using unmarked_attempted_empty [OF assms(2)] by (simp add: touched_def ac_simps)
  show "marks_ok (p1\<lparr>rp_SharedPath := bs, rp_RouteDirty := d\<rparr>)"
    using assms(1,3) by (simp add: stage_def routed_def marks_ok_def all_bridges_def ball_Un)
qed (use assms(2,3) in \<open>simp_all add: routed_def reset_marks_def\<close>)

lemma stage_target:
  assumes "stage cfg w p p1 w1" and "map unmarked (rp_TargetExclusivePath p1) = rp_TargetExclusivePath p1"
    and "routed cfg w1 e (rp_RouteDirty p1) (rp_TargetExclusivePath p1) (ok, d, bs) w2"
  shows "stage cfg w p (p1\<lparr>rp_TargetExclusivePath := bs, rp_RouteDirty := d\<rparr>) w2"
proof (rule stage_step [OF assms(1), where R = "attempted bs"])
  show "touched (p1\<lparr>rp_TargetExclusivePath := bs, rp_RouteDirty := d\<rparr>) = touched p1 \<union> attempted bs"
    using unmarked_attempted_empty [OF assms(2)] by (simp add: touched_def ac_simps)
  show "marks_ok (p1\<lparr>rp_TargetExclusivePath := bs, rp_RouteDirty := d\<rparr>)"
    using assms(1,3) by (simp add: stage_def routed_def marks_ok_def all_bridges_def ball_Un)
qed (use assms(2,3) in \<open>simp_all add: routed_def reset_marks_def\<close>)


lemma stage_same:
  assumes "stage cfg w p p1 w1"
  shows "EndpointViolates p1 v = EndpointViolates p v" "endpoint_value cfg w' p1 = endpoint_value cfg w' p" "endpoint_reg p1 = endpoint_reg p"
proof -
  have p: "p = reset_marks p1" using assms by (simp add: stage_def)
  show "EndpointViolates p1 v = EndpointViolates p v" "endpoint_value cfg w' p1 = endpoint_value cfg w' p" "endpoint_reg p1 = endpoint_reg p"
    unfolding p by (simp_all add: reset_marks_def EndpointViolates_def endpoint_value_def endpoint_reg_def)
qed

abbreviation regs :: "NATIVE_CSM_VGA_PLAN_BRIDGE list \<Rightarrow> (nat \<times> nat) set" where
  "regs bs \<equiv> br_reg ` set bs"

abbreviation has_control :: "'w config_space \<Rightarrow> 'w \<Rightarrow> bool \<Rightarrow> NATIVE_CSM_VGA_PLAN_BRIDGE list \<Rightarrow> bool" where
  "has_control cfg w enable bs \<equiv> \<forall>b \<in> set bs. br_value cfg w b = RequestedControl enable b"

lemma wp_ApplyTarget:
  assumes laws: "pci_laws cfg sv" and st: "stage cfg w p p1 w1"
    and T: "path_journaled cfg w1 (rp_TargetExclusivePath p)" "rp_TargetExclusivePath p1 = rp_TargetExclusivePath p"
    and after: "has_control cfg w1 False (rp_ActiveExclusivePath p)" "has_control cfg w1 True (rp_SharedPath p)"
    and apart: "regs (rp_ActiveExclusivePath p) \<inter> regs (rp_TargetExclusivePath p) = {}" "regs (rp_SharedPath p) \<inter> regs (rp_TargetExclusivePath p) = {}"
  shows "wp (ApplyTarget sv p1) (route_applied cfg w p) w1"
  unfolding ApplyTarget_def wp_bind T(2) Let_def
proof (rule wp_mono [OF wp_RouteLoop [OF laws T(1)]], rule wp_prodI, rule wp_prodI, rule wp_ifI)
  fix r w2 ok r' d bs assume r: "routed cfg w1 True (rp_RouteDirty p1) (rp_TargetExclusivePath p) r w2" "r = (ok, r')" "r' = (d, bs)"
  let ?p = "p1\<lparr>rp_TargetExclusivePath := bs, rp_RouteDirty := d\<rparr>"
  have st2: "stage cfg w p ?p w2"
    by (rule stage_target [OF st]) (use r T path_journaled_unmarked [OF T(1)] in simp_all)
  then show "wp (State_Monad.return (False, ?p)) (route_applied cfg w p) w2" by (simp add: stage_failed)
  assume "\<not> \<not> ok"
  have um: "map unmarked bs = rp_TargetExclusivePath p" and w2: "within cfg w1 (attempted bs) w2"
    and vT: "has_control cfg w2 True (rp_TargetExclusivePath p)" using r \<open>\<not> \<not> ok\<close> by (simp_all add: routed_def)
  have vA: "has_control cfg w2 False (rp_ActiveExclusivePath p)" by (rule value_kept [OF w2 attempted_apart [OF um apart(1)] after(1)])
  have vS: "has_control cfg w2 True (rp_SharedPath p)" by (rule value_kept [OF w2 attempted_apart [OF um apart(2)] after(2)])
  show "wp (ApplyEndpoint sv ?p) (route_applied cfg w p) w2"
  proof (rule wp_ApplyEndpoint [OF laws])
    fix ok a w3 assume w3: "within cfg w2 {endpoint_reg ?p} w3" and e: "ok \<Longrightarrow> \<not> EndpointViolates ?p (endpoint_value cfg w3 ?p)"
    note st3 = stage_endpoint [OF st2 w3, of a]
    have keep: "has_control cfg w3 x cs" if "has_control cfg w2 x cs" for x cs
      by (rule value_kept [OF w3 _ that]) (metis endpoint_not_bridge singletonD)
    have "ok \<Longrightarrow> \<not> EndpointViolates p (endpoint_value cfg w3 p)" using e stage_same [OF st2] by simp
    then show "route_applied cfg w p (ok, ?p\<lparr>rp_EndpointWriteAttempted := True, rp_RouteDirty := True, rp_EndpointWriteApplied := a\<rparr>) w3"
      using st3 keep [OF vA] keep [OF vS] keep [OF vT] by (simp add: route_applied_def stage_def ball_Un)
  qed
qed

lemma wp_ApplyShared:
  assumes laws: "pci_laws cfg sv" and st: "stage cfg w p p1 w1"
    and T: "path_journaled cfg w1 (rp_TargetExclusivePath p)" "rp_TargetExclusivePath p1 = rp_TargetExclusivePath p"
    and S: "path_journaled cfg w1 (rp_SharedPath p)" "rp_SharedPath p1 = rp_SharedPath p"
    and after: "has_control cfg w1 False (rp_ActiveExclusivePath p)"
    and apart: "regs (rp_ActiveExclusivePath p) \<inter> regs (rp_TargetExclusivePath p) = {}" "regs (rp_SharedPath p) \<inter> regs (rp_TargetExclusivePath p) = {}"
      "regs (rp_ActiveExclusivePath p) \<inter> regs (rp_SharedPath p) = {}"
  shows "wp (ApplyShared sv p1) (route_applied cfg w p) w1"
  unfolding ApplyShared_def wp_bind S(2) Let_def
proof (rule wp_mono [OF wp_RouteLoop [OF laws S(1)]], rule wp_prodI, rule wp_prodI, rule wp_ifI)
  fix r w2 ok r' d bs assume r: "routed cfg w1 True (rp_RouteDirty p1) (rp_SharedPath p) r w2" "r = (ok, r')" "r' = (d, bs)"
  let ?p = "p1\<lparr>rp_SharedPath := bs, rp_RouteDirty := d\<rparr>"
  have st2: "stage cfg w p ?p w2"
    by (rule stage_shared [OF st]) (use r S path_journaled_unmarked [OF S(1)] in simp_all)
  then show "wp (State_Monad.return (False, ?p)) (route_applied cfg w p) w2" by (simp add: stage_failed)
  assume "\<not> \<not> ok"
  have um: "map unmarked bs = rp_SharedPath p" and w2: "within cfg w1 (attempted bs) w2"
    and vS: "has_control cfg w2 True (rp_SharedPath p)" using r \<open>\<not> \<not> ok\<close> by (simp_all add: routed_def)
  have vA: "has_control cfg w2 False (rp_ActiveExclusivePath p)" by (rule value_kept [OF w2 attempted_apart [OF um apart(3)] after])
  have T2: "path_journaled cfg w2 (rp_TargetExclusivePath p)"
    by (rule path_journaled_within [OF T(1) w2 attempted_apart [OF um]]) (use apart(2) in \<open>simp_all add: Int_commute\<close>)
  show "wp (ApplyTarget sv ?p) (route_applied cfg w p) w2"
    by (rule wp_ApplyTarget [OF laws st2 T2 _ vA vS apart(1,2)]) (simp add: T(2))
qed

lemma wp_RouteApply:
  assumes laws: "pci_laws cfg sv" and ready: "route_ready cfg w p"
  shows "wp (RouteApply sv p) (route_applied cfg w p) w"
proof -
  let ?A = "rp_ActiveExclusivePath p" and ?S = "rp_SharedPath p" and ?T = "rp_TargetExclusivePath p"
  have A: "path_journaled cfg w ?A" and S: "path_journaled cfg w ?S" and T: "path_journaled cfg w ?T"
    and AS: "regs ?A \<inter> regs ?S = {}" and AT: "regs ?A \<inter> regs ?T = {}" and ST: "regs ?S \<inter> regs ?T = {}"
    and flags: "\<not> rp_EndpointWriteAttempted p" "\<not> rp_EndpointWriteApplied p" "\<not> rp_RouteDirty p"
    using ready by (auto simp: route_ready_def path_journaled_def all_bridges_def)
  note um = path_journaled_unmarked [OF A] path_journaled_unmarked [OF S] path_journaled_unmarked [OF T]
  have "stage cfg w p p w"
    using flags um [THEN unmarked_attempted_empty] um [THEN marks_unmarked]
    by (simp add: stage_def reset_marks_def touched_def marks_ok_def all_bridges_def ball_Un um within_refl)
  note st = stage_active [OF this um(1)]
  show ?thesis unfolding RouteApply_def wp_bind Let_def
  proof (rule wp_mono [OF wp_RouteLoop [OF laws A]], rule wp_prodI, rule wp_prodI, rule wp_ifI)
    fix r w2 ok r' d bs assume r: "routed cfg w False (rp_RouteDirty p) ?A r w2" "r = (ok, r')" "r' = (d, bs)"
    let ?p = "p\<lparr>rp_ActiveExclusivePath := bs, rp_RouteDirty := d\<rparr>"
    have st2: "stage cfg w p ?p w2" by (rule st) (use r in simp)
    then show "wp (State_Monad.return (False, ?p)) (route_applied cfg w p) w2" by (simp add: stage_failed)
    assume "\<not> \<not> ok"
    have um: "map unmarked bs = ?A" and w2: "within cfg w (attempted bs) w2" and vA: "has_control cfg w2 False ?A"
      using r \<open>\<not> \<not> ok\<close> by (simp_all add: routed_def)
    have S2: "path_journaled cfg w2 ?S"
      by (rule path_journaled_within [OF S w2 attempted_apart [OF um]]) (use AS in \<open>simp_all add: Int_commute\<close>)
    have T2: "path_journaled cfg w2 ?T"
      by (rule path_journaled_within [OF T w2 attempted_apart [OF um]]) (use AT in \<open>simp_all add: Int_commute\<close>)
    show "wp (ApplyShared sv ?p) (route_applied cfg w p) w2"
      by (rule wp_ApplyShared [OF laws st2 T2 _ S2 _ vA AT ST AS]) simp_all
  qed
qed


section \<open>RouteRestore\<close>

text \<open>
  The invariant of the rollback, relative to the world \<open>w\<close> and the plan \<open>p\<close> before the transfer: outside the registers that
  are still marked everything has its original value.
\<close>

definition undoing :: "'w config_space \<Rightarrow> 'w \<Rightarrow> RUNTIME_PLAN \<Rightarrow> (nat \<times> nat) set \<Rightarrow> RUNTIME_PLAN \<Rightarrow> 'w \<Rightarrow> bool" where
  "undoing cfg w p R p1 w1 \<longleftrightarrow> reset_marks p1 = p \<and> marks_ok p1 \<and> within cfg w (touched p1) w1 \<and> touched p1 \<subseteq> R \<and>
     (touched p1 \<noteq> {} \<longrightarrow> rp_RouteDirty p1)"

definition undone :: "'w config_space \<Rightarrow> 'w \<Rightarrow> RUNTIME_PLAN \<Rightarrow> (nat \<times> nat) set \<Rightarrow> RUNTIME_PLAN \<Rightarrow> 'w \<Rightarrow> bool" where
  "undone cfg w p R p2 w2 \<longleftrightarrow> within cfg w R w2 \<and> (\<not> rp_RouteDirty p2 \<longrightarrow> p2 = p \<and> cfg w2 = cfg w)"

lemma undone_failed:
  assumes "undoing cfg w p R p1 w1" and "within cfg w1 S w2" and "S \<subseteq> touched p1" and "S \<noteq> {}" and "rp_RouteDirty p2 = rp_RouteDirty p1"
  shows "undone cfg w p R p2 w2"
proof -
  have "within cfg w (touched p1 \<union> S) w2" using assms(1) by (intro within_trans [OF _ assms(2)]) (simp add: undoing_def)
  moreover have "touched p1 \<union> S \<subseteq> R" "rp_RouteDirty p1" using assms(1,3,4) by (auto simp: undoing_def)
  ultimately show ?thesis using assms(5) by (simp add: undone_def within_mono)
qed

abbreviation cleaned :: "NATIVE_CSM_VGA_PLAN_BRIDGE list \<Rightarrow> NATIVE_CSM_VGA_PLAN_BRIDGE list" where
  "cleaned bs \<equiv> map (\<lambda>b. if br_WriteAttempted b then unmarked b else b) bs"

lemma cleaned_facts: "attempted (cleaned bs) = {}" "map unmarked (cleaned bs) = map unmarked bs"
  "(\<forall>b \<in> set bs. br_WriteApplied b \<longrightarrow> br_WriteAttempted b) \<Longrightarrow> \<forall>b \<in> set (cleaned bs). br_WriteApplied b \<longrightarrow> br_WriteAttempted b"
proof -
  have "\<not> br_WriteApplied (unmarked b)" for b by (rule unmarked_applied) simp
  then show "(\<forall>b \<in> set bs. br_WriteApplied b \<longrightarrow> br_WriteAttempted b) \<Longrightarrow> \<forall>b \<in> set (cleaned bs). br_WriteApplied b \<longrightarrow> br_WriteAttempted b"
    by auto
qed (auto simp: attempted_def)

text \<open>Restoring the marked registers of one path keeps the invariant.\<close>

lemma undoing_step:
  assumes u: "undoing cfg w p R p1 w1" and w2: "within cfg w1 S w2" and orig: "\<And>io off. (io, off) \<in> S \<Longrightarrow> cfg w2 io off = cfg w io off"
    and p2: "reset_marks p2 = reset_marks p1" "marks_ok p2" "touched p1 = touched p2 \<union> S" "rp_RouteDirty p2 = rp_RouteDirty p1"
  shows "undoing cfg w p R p2 w2"
proof -
  have "within cfg w (touched p2) w2"
    unfolding within_def
  proof (intro allI impI)
    fix io off assume n: "(io, off) \<notin> touched p2"
    show "cfg w2 io off = cfg w io off"
    proof (cases "(io, off) \<in> S")
      case False
      then have "(io, off) \<notin> touched p1" using n p2(3) by simp
      then show ?thesis using within_D [OF w2 False] u by (simp add: undoing_def within_def)
    qed (rule orig)
  qed
  then show ?thesis using u p2 by (auto simp: undoing_def)
qed

lemma bridge_original:
  assumes "route_ready cfg w p" and "reset_marks p1 = p" and "set bs \<subseteq> set (all_bridges p1)" and "restored cfg w1 bs (True, bs') w2"
    and "(io, off) \<in> attempted bs"
  shows "cfg w2 io off = cfg w io off"
proof -
  obtain b where b: "b \<in> set bs" "br_WriteAttempted b" "br_reg b = (io, off)" using assms(5) by (auto simp: attempted_def)
  have "all_bridges p = map unmarked (all_bridges p1)" using assms(2) by (auto simp: all_bridges_def reset_marks_def)
  then have "unmarked b \<in> set (all_bridges p)" using b(1) assms(3) by auto
  then have "br_value cfg w b = br_OriginalBridgeControl b"
    using assms(1) unmarked_simps(4,7) by (metis route_ready_def path_journaled_def)
  moreover have "br_value cfg w2 b = br_OriginalBridgeControl b" using assms(4) b by (simp add: restored_def)
  ultimately show ?thesis using b(3) by (simp add: br_value_def br_reg_def)
qed

lemma undo_active:
  assumes ready: "route_ready cfg w p" and u: "undoing cfg w p R p1 w1" and r: "restored cfg w1 (rp_ActiveExclusivePath p1) (ok, bs) w2"
  shows "\<not> ok \<Longrightarrow> undone cfg w p R (p1\<lparr>rp_ActiveExclusivePath := bs\<rparr>) w2"
    and "ok \<Longrightarrow> undoing cfg w p R (p1\<lparr>rp_ActiveExclusivePath := bs\<rparr>) w2 \<and> attempted bs = {}"
proof -
  have w2: "within cfg w1 (attempted (rp_ActiveExclusivePath p1)) w2" using r by (simp add: restored_def)
  show "undone cfg w p R (p1\<lparr>rp_ActiveExclusivePath := bs\<rparr>) w2" if "\<not> ok"
    using r that undone_failed [OF u w2, of "p1\<lparr>rp_ActiveExclusivePath := bs\<rparr>"] by (auto simp: restored_def touched_def)
  assume ok: "ok"
  then have r: "restored cfg w1 (rp_ActiveExclusivePath p1) (True, bs) w2" using r by simp
  then have bs: "bs = cleaned (rp_ActiveExclusivePath p1)" by (simp add: restored_def)
  have "undoing cfg w p R (p1\<lparr>rp_ActiveExclusivePath := bs\<rparr>) w2"
  proof (rule undoing_step [OF u w2])
    show "cfg w2 io off = cfg w io off" if "(io, off) \<in> attempted (rp_ActiveExclusivePath p1)" for io off
      by (rule bridge_original [OF ready _ _ r that, of p1]) (use u in \<open>auto simp: undoing_def all_bridges_def\<close>)
    show "marks_ok (p1\<lparr>rp_ActiveExclusivePath := bs\<rparr>)"
      using u cleaned_facts(3) [of "rp_ActiveExclusivePath p1"] by (simp add: undoing_def marks_ok_def all_bridges_def ball_Un bs)
  qed (use cleaned_facts(1,2) in \<open>simp_all add: bs reset_marks_def touched_def ac_simps\<close>)
  then show "undoing cfg w p R (p1\<lparr>rp_ActiveExclusivePath := bs\<rparr>) w2 \<and> attempted bs = {}" using cleaned_facts(1) bs by simp
qed

lemma undo_shared:
  assumes ready: "route_ready cfg w p" and u: "undoing cfg w p R p1 w1" and r: "restored cfg w1 (rp_SharedPath p1) (ok, bs) w2"
  shows "\<not> ok \<Longrightarrow> undone cfg w p R (p1\<lparr>rp_SharedPath := bs\<rparr>) w2"
    and "ok \<Longrightarrow> undoing cfg w p R (p1\<lparr>rp_SharedPath := bs\<rparr>) w2 \<and> attempted bs = {}"
proof -
  have w2: "within cfg w1 (attempted (rp_SharedPath p1)) w2" using r by (simp add: restored_def)
  show "undone cfg w p R (p1\<lparr>rp_SharedPath := bs\<rparr>) w2" if "\<not> ok"
    using r that undone_failed [OF u w2, of "p1\<lparr>rp_SharedPath := bs\<rparr>"] by (auto simp: restored_def touched_def)
  assume ok: "ok"
  then have r: "restored cfg w1 (rp_SharedPath p1) (True, bs) w2" using r by simp
  then have bs: "bs = cleaned (rp_SharedPath p1)" by (simp add: restored_def)
  have "undoing cfg w p R (p1\<lparr>rp_SharedPath := bs\<rparr>) w2"
  proof (rule undoing_step [OF u w2])
    show "cfg w2 io off = cfg w io off" if "(io, off) \<in> attempted (rp_SharedPath p1)" for io off
      by (rule bridge_original [OF ready _ _ r that, of p1]) (use u in \<open>auto simp: undoing_def all_bridges_def\<close>)
    show "marks_ok (p1\<lparr>rp_SharedPath := bs\<rparr>)"
      using u cleaned_facts(3) [of "rp_SharedPath p1"] by (simp add: undoing_def marks_ok_def all_bridges_def ball_Un bs)
  qed (use cleaned_facts(1,2) in \<open>simp_all add: bs reset_marks_def touched_def ac_simps\<close>)
  then show "undoing cfg w p R (p1\<lparr>rp_SharedPath := bs\<rparr>) w2 \<and> attempted bs = {}" using cleaned_facts(1) bs by simp
qed

lemma undo_target:
  assumes ready: "route_ready cfg w p" and u: "undoing cfg w p R p1 w1" and r: "restored cfg w1 (rp_TargetExclusivePath p1) (ok, bs) w2"
  shows "\<not> ok \<Longrightarrow> undone cfg w p R (p1\<lparr>rp_TargetExclusivePath := bs\<rparr>) w2"
    and "ok \<Longrightarrow> undoing cfg w p R (p1\<lparr>rp_TargetExclusivePath := bs\<rparr>) w2 \<and> attempted bs = {}"
proof -
  have w2: "within cfg w1 (attempted (rp_TargetExclusivePath p1)) w2" using r by (simp add: restored_def)
  show "undone cfg w p R (p1\<lparr>rp_TargetExclusivePath := bs\<rparr>) w2" if "\<not> ok"
    using r that undone_failed [OF u w2, of "p1\<lparr>rp_TargetExclusivePath := bs\<rparr>"] by (auto simp: restored_def touched_def)
  assume ok: "ok"
  then have r: "restored cfg w1 (rp_TargetExclusivePath p1) (True, bs) w2" using r by simp
  then have bs: "bs = cleaned (rp_TargetExclusivePath p1)" by (simp add: restored_def)
  have "undoing cfg w p R (p1\<lparr>rp_TargetExclusivePath := bs\<rparr>) w2"
  proof (rule undoing_step [OF u w2])
    show "cfg w2 io off = cfg w io off" if "(io, off) \<in> attempted (rp_TargetExclusivePath p1)" for io off
      by (rule bridge_original [OF ready _ _ r that, of p1]) (use u in \<open>auto simp: undoing_def all_bridges_def\<close>)
    show "marks_ok (p1\<lparr>rp_TargetExclusivePath := bs\<rparr>)"
      using u cleaned_facts(3) [of "rp_TargetExclusivePath p1"] by (simp add: undoing_def marks_ok_def all_bridges_def ball_Un bs)
  qed (use cleaned_facts(1,2) in \<open>simp_all add: bs reset_marks_def touched_def ac_simps\<close>)
  then show "undoing cfg w p R (p1\<lparr>rp_TargetExclusivePath := bs\<rparr>) w2 \<and> attempted bs = {}" using cleaned_facts(1) bs by simp
qed

lemma undone_complete:
  assumes "undoing cfg w p R p1 w1" and "touched p1 = {}" and "cfg w2 = cfg w1"
  shows "undone cfg w p R (p1\<lparr>rp_RouteDirty := False\<rparr>) w2"
proof -
  have same: "map unmarked bs = bs" if "attempted bs = {}" "\<forall>b \<in> set bs. br_WriteApplied b \<longrightarrow> br_WriteAttempted b" for bs
  proof (rule map_idI)
    fix b assume "b \<in> set bs"
    then have "\<not> br_WriteAttempted b" "\<not> br_WriteApplied b" using that by (auto simp: attempted_def)
    then show "unmarked b = b" by (simp add: unmarked_def)
  qed
  have t: "attempted (rp_ActiveExclusivePath p1) = {}" "attempted (rp_SharedPath p1) = {}" "attempted (rp_TargetExclusivePath p1) = {}"
    "\<not> rp_EndpointWriteAttempted p1" using assms(2) by (auto simp: touched_def split: if_splits)
  have m: "marks_ok p1" and p: "reset_marks p1 = p" and "within cfg w {} w1" using assms(1,2) by (simp_all add: undoing_def)
  then have c: "cfg w1 = cfg w" by (intro ext) (simp add: within_def)
  have "reset_marks p1 = p1\<lparr>rp_RouteDirty := False\<rparr>"
    using m t same by (simp add: reset_marks_def marks_ok_def all_bridges_def ball_Un)
  then show ?thesis using p c assms(3) by (simp add: undone_def within_refl)
qed

lemma wp_RestoreActive:
  assumes laws: "pci_laws cfg sv" and ready: "route_ready cfg w p" and u: "undoing cfg w p R p1 w1"
    and clear: "attempted (rp_TargetExclusivePath p1) = {}" "attempted (rp_SharedPath p1) = {}" "\<not> rp_EndpointWriteAttempted p1"
    and dist: "distinct (map br_reg (rp_ActiveExclusivePath p1))"
  shows "wp (RestoreActive sv p1) (undone cfg w p R) w1"
  unfolding RestoreActive_def wp_bind Let_def
proof (rule wp_mono [OF wp_RestoreLoop [OF laws dist]], rule wp_prodI, rule wp_ifI)
  fix r w2 ok bs assume r: "restored cfg w1 (rp_ActiveExclusivePath p1) r w2" "r = (ok, bs)"
  let ?p = "p1\<lparr>rp_ActiveExclusivePath := bs\<rparr>"
  note s = undo_active [OF ready u r(1) [unfolded r(2)]]
  show "\<not> ok \<Longrightarrow> wp (State_Monad.return ?p) (undone cfg w p R) w2" using s(1) by simp
  assume ok: "\<not> \<not> ok"
  show "wp (Phase sv ''NCV_BOOT_ROUTE_ROLLBACK_COMPLETE'' \<bind> (\<lambda>_. State_Monad.return (?p\<lparr>rp_RouteDirty := False\<rparr>))) (undone cfg w p R) w2"
    by (intro keeps_bindI [OF route_keeps(1) [OF laws]] wp_returnI undone_complete [of cfg w p R _ w2]) (use s ok clear in \<open>simp_all add: touched_def\<close>)
qed

lemma wp_RestoreShared:
  assumes laws: "pci_laws cfg sv" and ready: "route_ready cfg w p" and u: "undoing cfg w p R p1 w1"
    and clear: "attempted (rp_TargetExclusivePath p1) = {}" "\<not> rp_EndpointWriteAttempted p1"
    and dist: "distinct (map br_reg (rp_ActiveExclusivePath p1))" "distinct (map br_reg (rp_SharedPath p1))"
  shows "wp (RestoreShared sv p1) (undone cfg w p R) w1"
  unfolding RestoreShared_def wp_bind Let_def
proof (rule wp_mono [OF wp_RestoreLoop [OF laws dist(2)]], rule wp_prodI, rule wp_ifI)
  fix r w2 ok bs assume r: "restored cfg w1 (rp_SharedPath p1) r w2" "r = (ok, bs)"
  let ?p = "p1\<lparr>rp_SharedPath := bs\<rparr>"
  note s = undo_shared [OF ready u r(1) [unfolded r(2)]]
  show "\<not> ok \<Longrightarrow> wp (State_Monad.return ?p) (undone cfg w p R) w2" using s(1) by simp
  show "wp (RestoreActive sv ?p) (undone cfg w p R) w2" if "\<not> \<not> ok"
    by (rule wp_RestoreActive [OF laws ready]) (use s that clear dist in simp_all)
qed

lemma wp_RestoreTarget:
  assumes laws: "pci_laws cfg sv" and ready: "route_ready cfg w p" and u: "undoing cfg w p R p1 w1" and clear: "\<not> rp_EndpointWriteAttempted p1"
    and dist: "distinct (map br_reg (rp_ActiveExclusivePath p1))" "distinct (map br_reg (rp_SharedPath p1))"
      "distinct (map br_reg (rp_TargetExclusivePath p1))"
  shows "wp (RestoreTarget sv p1) (undone cfg w p R) w1"
  unfolding RestoreTarget_def wp_bind Let_def
proof (rule wp_mono [OF wp_RestoreLoop [OF laws dist(3)]], rule wp_prodI, rule wp_ifI)
  fix r w2 ok bs assume r: "restored cfg w1 (rp_TargetExclusivePath p1) r w2" "r = (ok, bs)"
  let ?p = "p1\<lparr>rp_TargetExclusivePath := bs\<rparr>"
  note s = undo_target [OF ready u r(1) [unfolded r(2)]]
  show "\<not> ok \<Longrightarrow> wp (State_Monad.return ?p) (undone cfg w p R) w2" using s(1) by simp
  show "wp (RestoreShared sv ?p) (undone cfg w p R) w2" if "\<not> \<not> ok"
    by (rule wp_RestoreShared [OF laws ready]) (use s that clear dist in simp_all)
qed

lemma wp_RestoreEndpoint:
  assumes laws: "pci_laws cfg sv" and ready: "route_ready cfg w p" and u: "undoing cfg w p R p1 w1"
    and Q: "\<And>p2 w2. undone cfg w p R p2 w2 \<Longrightarrow> Q (False, p2) w2"
      "\<And>w2. undoing cfg w p R (p1\<lparr>rp_EndpointWriteApplied := False, rp_EndpointWriteAttempted := False\<rparr>) w2 \<Longrightarrow>
        Q (True, p1\<lparr>rp_EndpointWriteApplied := False, rp_EndpointWriteAttempted := False\<rparr>) w2"
  shows "wp (RestoreEndpoint sv p1) Q w1"
proof (cases "rp_EndpointWriteAttempted p1")
  case False
  then have "p1\<lparr>rp_EndpointWriteApplied := False, rp_EndpointWriteAttempted := False\<rparr> = p1" using u by (simp add: undoing_def marks_ok_def)
  then show ?thesis using Q(2) [of w1] u False by (simp add: RestoreEndpoint_def)
next
  case True
  let ?r = "endpoint_reg p1" and ?o = "ep_OriginalCommand (rp_Target p1)"
  have t: "?r \<in> touched p1" using True by (simp add: touched_def)
  have o: "endpoint_value cfg w p1 = ?o" and e: "endpoint_reg p1 = endpoint_reg p"
    using ready u by (auto simp: undoing_def route_ready_def endpoint_value_def endpoint_reg_def reset_marks_def)
  have failed: "Q (False, p1) w2" if "within cfg w1 {?r} w2" for w2
    by (rule Q(1), rule undone_failed [OF u that]) (use t in simp_all)
  have ok: "Q (True, p1\<lparr>rp_EndpointWriteApplied := False, rp_EndpointWriteAttempted := False\<rparr>) w2"
    if w2: "within cfg w1 {?r} w2" and v: "endpoint_value cfg w2 p1 = ?o" for w2
  proof (rule Q(2), rule undoing_step [OF u w2])
    show "cfg w2 io off = cfg w io off" if "(io, off) \<in> {?r}" for io off
      using that v o by (simp add: endpoint_reg_def endpoint_value_def)
    show "marks_ok (p1\<lparr>rp_EndpointWriteApplied := False, rp_EndpointWriteAttempted := False\<rparr>)"
      using u by (simp add: undoing_def marks_ok_def all_bridges_def)
    show "touched p1 = touched (p1\<lparr>rp_EndpointWriteApplied := False, rp_EndpointWriteAttempted := False\<rparr>) \<union> {?r}"
      using True by (simp add: touched_def)
  qed (simp_all add: reset_marks_def)
  have "\<not> \<not> rp_EndpointWriteAttempted p1" using True by simp
  show ?thesis unfolding RestoreEndpoint_def Let_def if_not_P [OF \<open>\<not> \<not> rp_EndpointWriteAttempted p1\<close>]
    by (intro route_steps [OF laws] wp_prodI wp_ifI wp_returnI failed ok)
      (auto simp: within_def endpoint_reg_def endpoint_value_def)
qed

lemma wp_RouteRestore:
  assumes laws: "pci_laws cfg sv" and ready: "route_ready cfg w p" and u: "undoing cfg w p R p1 w1"
  shows "wp (RouteRestore sv p1) (undone cfg w p R) w1"
proof -
  have p: "reset_marks p1 = p" using u by (simp add: undoing_def)
  have "map br_reg (rp_ActiveExclusivePath p1) = map br_reg (rp_ActiveExclusivePath p)" "map br_reg (rp_SharedPath p1) = map br_reg (rp_SharedPath p)"
    "map br_reg (rp_TargetExclusivePath p1) = map br_reg (rp_TargetExclusivePath p)"
    unfolding p [symmetric] by (simp_all add: reset_marks_def)
  then have d: "distinct (map br_reg (rp_ActiveExclusivePath p1))" "distinct (map br_reg (rp_SharedPath p1))" "distinct (map br_reg (rp_TargetExclusivePath p1))"
    using ready by (simp_all add: route_ready_def path_journaled_def all_bridges_def)
  show ?thesis unfolding RouteRestore_def wp_bind
  proof (rule wp_RestoreEndpoint [OF laws ready u], goal_cases)
    case (2 w2)
    show ?case unfolding prod.case not_True_eq_False if_False
    proof (rule keeps_bindI [OF route_keeps(1) [OF laws]], rule wp_RestoreTarget [OF laws ready])
      fix u' w3 assume c: "cfg w3 = cfg w2"
      show "undoing cfg w p R (p1\<lparr>rp_EndpointWriteApplied := False, rp_EndpointWriteAttempted := False\<rparr>) w3"
        using 2 c by (simp add: undoing_def within_def)
    qed (use d in simp_all)
  qed simp
qed

text \<open>
  C7. The rollback of the route is all or nothing for the plan: after any outcome of \<open>RouteApply\<close>, \<open>RouteRestore\<close> either restores
  every register of configuration space and clears every mark of the plan, or leaves the plan dirty; registers that the
  transfer did not attempt keep their values in any case.
\<close>

theorem RouteRestore_undoes:
  assumes "pci_laws cfg sv" and "route_ready cfg w p"
    and "run_state (RouteApply sv p) w = ((ok, p1), w1)" and "run_state (RouteRestore sv p1) w1 = (p2, w2)"
  shows "(rp_RouteDirty p2 \<or> p2 = p \<and> cfg w2 = cfg w) \<and> within cfg w (touched p1) w2"
proof -
  have "undoing cfg w p (touched p1) p1 w1"
    using wp_run [OF wp_RouteApply [OF assms(1,2)] assms(3)] by (auto simp: route_applied_def undoing_def)
  from wp_run [OF wp_RouteRestore [OF assms(1,2) this] assms(4)] show ?thesis by (auto simp: undone_def)
qed


section \<open>The policy of the endpoint\<close>

text \<open>A decoding bit is what the policy says, or what it was.\<close>

definition policy_bit :: "NCV_ENDPOINT_POLICY \<Rightarrow> bool \<Rightarrow> bool" where
  "policy_bit policy original = (case policy of NcvEndpointOn \<Rightarrow> True | NcvEndpointOff \<Rightarrow> False | NcvEndpointIgnore \<Rightarrow> original)"

definition policy_command :: "PROBE_CONFIG \<Rightarrow> NCV_U16 \<Rightarrow> NCV_U16 \<Rightarrow> bool" where
  "policy_command c original v \<longleftrightarrow>
     (\<forall>i < 16. bit v i = (if i = 0 then policy_bit (g_IoDecoding c) (bit original 0)
        else if i = 1 then policy_bit (g_MemoryDecoding c) (bit original 1)
        else if i = 2 then policy_bit (g_BusMastering c) (bit original 2) else bit original i))"

lemma command_bits:
  "v AND PCI_COMMAND_IO = 0 \<longleftrightarrow> \<not> bit v 0" "v AND PCI_COMMAND_MEMORY = 0 \<longleftrightarrow> \<not> bit v 1" "v AND PCI_COMMAND_BUS_MASTER = 0 \<longleftrightarrow> \<not> bit v 2"
  for v :: NCV_U16
  using and_exp_eq_0_iff_not_bit [of v 0] and_exp_eq_0_iff_not_bit [of v 1] and_exp_eq_0_iff_not_bit [of v 2] by (simp_all add: ncv_defs)

lemma command_flag_bits:
  "bit PCI_COMMAND_IO i \<longleftrightarrow> i = 0" "bit PCI_COMMAND_MEMORY i \<longleftrightarrow> i = 1" "bit PCI_COMMAND_BUS_MASTER i \<longleftrightarrow> i = 2"
  using bit_exp_iff [where 'a = "16 word", of 0 i] bit_exp_iff [where 'a = "16 word", of 1 i] bit_exp_iff [where 'a = "16 word", of 2 i]
  by (auto simp: ncv_defs)

lemma RequiredAttributes_bit:
  "bit (RequiredAttributes c) i \<longleftrightarrow> i = 0 \<and> g_IoDecoding c \<noteq> NcvEndpointIgnore \<or> i = 1 \<and> g_MemoryDecoding c \<noteq> NcvEndpointIgnore \<or>
     i = 2 \<and> g_BusMastering c \<noteq> NcvEndpointIgnore"
  by (auto simp: RequiredAttributes_def bit_or_iff command_flag_bits)

lemma masked_equal:
  "x AND NOT m = y AND NOT m \<longleftrightarrow> (\<forall>i < 16. \<not> bit m i \<longrightarrow> bit x i = bit y i)" for x y m :: NCV_U16
  by (auto simp: bit_eq_iff bit_and_iff bit_not_iff)

text \<open>The check after the write accepts exactly the commands that follow the policy, and the requested command is one.\<close>

lemma EndpointViolates_iff: "\<not> EndpointViolates p v \<longleftrightarrow> policy_command (rp_Config p) (ep_OriginalCommand (rp_Target p)) v"
proof -
  have split: "(\<forall>i < 16. P i) \<longleftrightarrow> P 0 \<and> P 1 \<and> P 2 \<and> (\<forall>i < 16. 3 \<le> i \<longrightarrow> P i)" for P :: "nat \<Rightarrow> bool"
  proof -
    have "P i" if "P 0" "P 1" "P 2" "\<forall>i < 16. 3 \<le> i \<longrightarrow> P i" "i < 16" for i
    proof -
      consider "i = 0" | "i = 1" | "i = 2" | "3 \<le> i" by linarith
      then show ?thesis using that by cases auto
    qed
    then show ?thesis by auto
  qed
  show ?thesis unfolding EndpointViolates_def policy_command_def masked_equal Let_def
    by (subst (1 2) split) (cases "g_IoDecoding (rp_Config p)"; cases "g_MemoryDecoding (rp_Config p)"; cases "g_BusMastering (rp_Config p)";
        auto simp: command_bits RequiredAttributes_bit policy_bit_def)
qed


lemma RequiredEndpointCommand_policy:
  "policy_command (rp_Config p) (ep_OriginalCommand (rp_Target p)) (RequiredEndpointCommand p)"
  unfolding policy_command_def RequiredEndpointCommand_def Let_def
  by (cases "g_IoDecoding (rp_Config p)"; cases "g_MemoryDecoding (rp_Config p)"; cases "g_BusMastering (rp_Config p)")
     (simp_all add: policy_bit_def bit_or_iff bit_and_iff bit_not_iff command_flag_bits)

text \<open>Only the forwarding bit of a bridge differs from the journaled value.\<close>

definition forwards :: "bool \<Rightarrow> NCV_U16 \<Rightarrow> NCV_U16 \<Rightarrow> bool" where
  "forwards enable original v \<longleftrightarrow> (\<forall>i < 16. bit v i = (if i = 3 then enable else bit original i))"

lemma RequestedControl_forwards: "v = RequestedControl enable b \<longleftrightarrow> forwards enable (br_OriginalBridgeControl b) v"
proof -
  have "bit PCI_BRIDGE_VGA_ENABLE i \<longleftrightarrow> i = 3" for i
    using bit_exp_iff [where 'a = "16 word", of 3 i] by (auto simp: ncv_defs)
  then show ?thesis
    by (auto simp: RequestedControl_def forwards_def bit_eq_iff bit_or_iff bit_and_iff bit_not_iff)
qed

lemma RouteApply_requested:
  assumes "pci_laws cfg sv" and "route_ready cfg w p" and "run_state (RouteApply sv p) w = ((True, p1), w1)"
  shows "(\<forall>b \<in> set (rp_ActiveExclusivePath p). forwards False (br_value cfg w b) (br_value cfg w1 b)) \<and>
    (\<forall>b \<in> set (rp_SharedPath p) \<union> set (rp_TargetExclusivePath p). forwards True (br_value cfg w b) (br_value cfg w1 b)) \<and>
    policy_command (rp_Config p) (endpoint_value cfg w p) (endpoint_value cfg w1 p) \<and>
    within cfg w (insert (endpoint_reg p) (br_reg ` set (all_bridges p))) w1"
proof -
  have a: "route_applied cfg w p (True, p1) w1" using wp_run [OF wp_RouteApply [OF assms(1,2)] assms(3)] .
  have orig: "br_value cfg w b = br_OriginalBridgeControl b" if "b \<in> set (all_bridges p)" for b
    using assms(2) that by (simp add: route_ready_def path_journaled_def)
  have sub: "touched p1 \<subseteq> insert (endpoint_reg p) (br_reg ` set (all_bridges p))"
  proof -
    have p: "reset_marks p1 = p" using a by (simp add: route_applied_def)
    have "regs (all_bridges (reset_marks p1)) = regs (rp_ActiveExclusivePath p1) \<union> regs (rp_SharedPath p1) \<union> regs (rp_TargetExclusivePath p1)"
      by (simp add: all_bridges_def reset_marks_def image_Un image_image Un_assoc)
    moreover have "attempted bs \<subseteq> regs bs" for bs by (rule attempted_regs) simp
    ultimately have "touched p1 \<subseteq> insert (endpoint_reg p1) (regs (all_bridges (reset_marks p1)))"
      unfolding touched_def by (simp add: le_supI1 le_supI2 subset_insertI2)
    moreover have "endpoint_reg p1 = endpoint_reg p" using a by (intro stage_same(3) [of cfg w p p1 w1]) (simp add: route_applied_def stage_def)
    ultimately show ?thesis using p by simp
  qed
  have w1: "within cfg w (insert (endpoint_reg p) (br_reg ` set (all_bridges p))) w1"
    by (rule within_mono [OF _ sub]) (use a in \<open>simp add: route_applied_def\<close>)
  have "forwards False (br_value cfg w b) (br_value cfg w1 b)" if "b \<in> set (rp_ActiveExclusivePath p)" for b
    using a that orig [of b] by (simp add: route_applied_def all_bridges_def flip: RequestedControl_forwards)
  moreover have "forwards True (br_value cfg w b) (br_value cfg w1 b)" if "b \<in> set (rp_SharedPath p) \<union> set (rp_TargetExclusivePath p)" for b
    using a that orig [of b] by (simp add: route_applied_def all_bridges_def ball_Un flip: RequestedControl_forwards) blast
  moreover have "policy_command (rp_Config p) (endpoint_value cfg w p) (endpoint_value cfg w1 p)"
    using a assms(2) by (simp add: route_applied_def route_ready_def EndpointViolates_iff)
  ultimately show ?thesis using w1 by blast
qed

text \<open>
  C8. A successful route transfer leaves exactly the requested state: VGA forwarding is off on the active path and on
  along the shared and the target path, the decoding bits of the target follow the policy, no other bit of these registers
  differs from its journaled value, and no other register changed.
\<close>

theorem RouteApply_exact:
  assumes "pci_laws cfg sv" and "route_ready cfg w p" and "run_state (RouteApply sv p) w = ((True, p1), w1)"
  shows "(\<forall>b \<in> set (rp_ActiveExclusivePath p). forwards False (br_value cfg w b) (br_value cfg w1 b)) \<and>
    (\<forall>b \<in> set (rp_SharedPath p) \<union> set (rp_TargetExclusivePath p). forwards True (br_value cfg w b) (br_value cfg w1 b)) \<and>
    policy_command (rp_Config p) (endpoint_value cfg w p) (endpoint_value cfg w1 p) \<and>
    within cfg w (insert (endpoint_reg p) (br_reg ` set (all_bridges p))) w1"
  using RouteApply_requested [OF assms] .


section \<open>A configuration space in memory\<close>

text \<open>A concrete instance of the laws, and a plan with one bridge on each path.\<close>

definition ram_pci :: "(nat \<Rightarrow> nat \<Rightarrow> NCV_U16) pci_services" where
  "ram_pci = \<lparr>PciHasRead = (\<lambda>_. True), PciHasWrite = (\<lambda>_. True), PciHasAttributes = (\<lambda>_. True),
     PciRead16 = (\<lambda>io off. State (\<lambda>w. ((EFI_SUCCESS, w io off), w))),
     PciWrite16 = (\<lambda>io off v. State (\<lambda>w. (EFI_SUCCESS, w(io := (w io)(off := v))))),
     PciAttributes = (\<lambda>_. State_Monad.return (EFI_SUCCESS, 0)), PciRomImage = (\<lambda>_. State_Monad.return None),
     PciLogPrint = (\<lambda>_. State_Monad.return EFI_SUCCESS), PciLogCommit = State_Monad.return EFI_SUCCESS\<rparr>"

lemma ram_pci_laws: "pci_laws (\<lambda>w. w) ram_pci"
  by (auto simp: pci_laws_def ram_pci_def wp_def keeps_return)

definition sample_bridge :: "nat \<Rightarrow> NCV_U16 \<Rightarrow> NATIVE_CSM_VGA_PLAN_BRIDGE" where
  "sample_bridge io v = \<lparr>br_Record = \<lparr>pd_Handle = io, pd_PciIo = Some io, pd_DevicePath = None, pd_DevicePathSize = 0,
     pd_DevicePathStatus = EFI_SUCCESS, pd_Segment = 0, pd_Bus = 0, pd_Device = io, pd_Function = 0, pd_LocationStatus = EFI_SUCCESS,
     pd_ConfigStatus = EFI_SUCCESS, pd_Config = (\<lambda>_. 0), pd_SupportedAttributes = 0, pd_CurrentAttributes = 0,
     pd_SupportedAttributesStatus = EFI_SUCCESS, pd_CurrentAttributesStatus = EFI_SUCCESS, pd_RootBridgeHandle = None,
     pd_RootBridgeIo = None, pd_RootBridgePrefixSize = 0, pd_RootBridgeStatus = EFI_SUCCESS, pd_RootSupportedAttributes = 0,
     pd_RootCurrentAttributes = 0, pd_RootAttributesStatus = EFI_SUCCESS\<rparr>,
     br_OriginalBridgeControl = v, br_WriteAttempted = False, br_WriteApplied = False\<rparr>"

definition sample_route :: RUNTIME_PLAN where
  "sample_route = zero_plan\<lparr>rp_Config := zero_config\<lparr>g_IoDecoding := NcvEndpointOn, g_MemoryDecoding := NcvEndpointOn\<rparr>,
     rp_Target := zero_endpoint\<lparr>ep_PciIo := Some 9, ep_OriginalCommand := 4\<rparr>, rp_ActiveExclusivePath := [sample_bridge 1 0x1B],
     rp_SharedPath := [sample_bridge 2 8], rp_TargetExclusivePath := [sample_bridge 3 0x10]\<rparr>"

definition sample_space :: "nat \<Rightarrow> nat \<Rightarrow> NCV_U16" where
  "sample_space io off = (if off = 4 then 4 else if off = 0x3E then (if io = 1 then 0x1B else if io = 2 then 8 else 0x10) else 0)"

lemmas sample_route_simps = sample_route_def sample_space_def sample_bridge_def zero_plan_def zero_endpoint_def zero_config_def

lemma sample_route_ready: "route_ready (\<lambda>w. w) sample_space sample_route"
  by (simp add: route_ready_def path_journaled_def all_bridges_def br_reg_def br_value_def endpoint_value_def unmarked_def
      sample_route_simps ncv_defs)

lemma sample_route_applies: "\<exists>p1 w1. run_state (RouteApply ram_pci sample_route) sample_space = ((True, p1), w1)"
  by (simp add: RouteApply_def ApplyShared_def ApplyTarget_def ApplyEndpoint_def RouteBridgeStep_def Phase_def LogAndCommit_def
      ReadBridgeControl_def RequestedControl_def RequiredEndpointCommand_def EndpointViolates_def RequiredAttributes_def
      ram_pci_def sample_route_simps ncv_defs Let_def)

theorem RouteApply_exact_witness:
  "\<exists>p1 w1. run_state (RouteApply ram_pci sample_route) sample_space = ((True, p1), w1) \<and> forwards True 0x10 (w1 3 0x3E)"
proof -
  obtain p1 w1 where r: "run_state (RouteApply ram_pci sample_route) sample_space = ((True, p1), w1)"
    using sample_route_applies by blast
  from RouteApply_exact [OF ram_pci_laws sample_route_ready r] have "forwards True 0x10 (w1 3 0x3E)"
    by (simp add: br_value_def sample_route_simps ncv_defs)
  then show ?thesis using r by blast
qed

lemma sample_route_restores:
  "\<exists>p1 w1 p2 w2. run_state (RouteApply ram_pci sample_route) sample_space = ((True, p1), w1) \<and>
     run_state (RouteRestore ram_pci p1) w1 = (p2, w2) \<and> \<not> rp_RouteDirty p2"
  by (simp add: RouteApply_def ApplyShared_def ApplyTarget_def ApplyEndpoint_def RouteBridgeStep_def Phase_def LogAndCommit_def
      ReadBridgeControl_def RequestedControl_def RequiredEndpointCommand_def EndpointViolates_def RequiredAttributes_def
      RouteRestore_def RestoreTarget_def RestoreShared_def RestoreActive_def RestoreEndpoint_def RestoreBridge_def WriteBridgeControl_def
      ram_pci_def sample_route_simps ncv_defs Let_def)

theorem RouteRestore_undoes_witness:
  "\<exists>p1 w1. run_state (RouteApply ram_pci sample_route) sample_space = ((True, p1), w1) \<and>
     run_state (RouteRestore ram_pci p1) w1 = (sample_route, sample_space)"
proof -
  obtain p1 w1 p2 w2 where r: "run_state (RouteApply ram_pci sample_route) sample_space = ((True, p1), w1)"
    "run_state (RouteRestore ram_pci p1) w1 = (p2, w2)" "\<not> rp_RouteDirty p2"
    using sample_route_restores by blast
  from RouteRestore_undoes [OF ram_pci_laws sample_route_ready r(1,2)] r show ?thesis by auto
qed

end
