(* ===== verification/Plan_Ready.thy ===== *)
theory Plan_Ready
  imports Plan_Quiet Route_Laws
begin

text \<open>
  What a successful \<open>NativeCsmVgaRuntimePlanBuild\<close> returns: a well-formed plan (\<open>plan_wf\<close>), and one whose journals agree with
  configuration space, so that the laws of the route transfer apply to it.
\<close>

section \<open>Success of a step\<close>

definition wps :: "('w, EFI_STATUS \<times> 'c) state \<Rightarrow> ('c \<Rightarrow> 'w \<Rightarrow> bool) \<Rightarrow> 'w \<Rightarrow> bool" where
  "wps m R w \<longleftrightarrow> wp m (\<lambda>(status, p) t. \<not> EFI_ERROR status \<longrightarrow> R p t) w"

lemma wps_run: "wps m R w \<Longrightarrow> run_state m w = ((status, p), t) \<Longrightarrow> \<not> EFI_ERROR status \<Longrightarrow> R p t"
  by (simp add: wps_def wp_def)

lemma wps_mono: "wps m R w \<Longrightarrow> (\<And>p t. R p t \<Longrightarrow> Q p t) \<Longrightarrow> wps m Q w"
  unfolding wps_def by (erule wp_mono) auto

lemma wps_return: "(\<not> EFI_ERROR status \<Longrightarrow> R p w) \<Longrightarrow> wps (State_Monad.return (status, p)) R w"
  by (simp add: wps_def)

lemma wps_pure: "(\<And>status p. x = (status, p) \<Longrightarrow> \<not> EFI_ERROR status \<Longrightarrow> R p w) \<Longrightarrow> wps (State_Monad.return x) R w"
  by (cases x) (simp add: wps_def)

lemma wps_call: "(\<And>r t. wps (f r) R t) \<Longrightarrow> wps (State_Monad.bind m f) R w"
  unfolding wps_def by (rule wp_callI)

lemma wps_if: "(b \<Longrightarrow> wps m R w) \<Longrightarrow> (\<not> b \<Longrightarrow> wps n R w) \<Longrightarrow> wps (if b then m else n) R w"
  by simp

lemma wps_sum:
  "(\<And>e. x = Inl e \<Longrightarrow> wps (f e) R w) \<Longrightarrow> (\<And>v. x = Inr v \<Longrightarrow> wps (g v) R w) \<Longrightarrow> wps (case x of Inl e \<Rightarrow> f e | Inr v \<Rightarrow> g v) R w"
  by (simp split: sum.split)

lemma wps_option:
  "(x = None \<Longrightarrow> wps m R w) \<Longrightarrow> (\<And>v. x = Some v \<Longrightarrow> wps (g v) R w) \<Longrightarrow> wps (case x of None \<Rightarrow> m | Some v \<Rightarrow> g v) R w"
  by (simp split: option.split)

lemma wps_prod: "(\<And>a b. x = (a, b) \<Longrightarrow> wps (f a b) R w) \<Longrightarrow> wps (case x of (a, b) \<Rightarrow> f a b) R w"
  by (simp split: prod.split)

lemmas wps_steps = wps_if wps_sum wps_option wps_prod wps_call wps_return

lemma wps_keeps: "keeps f m \<Longrightarrow> (\<And>r t. f t = f w \<Longrightarrow> wps (k r) R t) \<Longrightarrow> wps (State_Monad.bind m k) R w"
  unfolding wps_def by (rule keeps_bindI)

lemma wps_OnSuccessWith: "wps m (\<lambda>p t. wps (k p) R t) w \<Longrightarrow> wps (OnSuccessWith m k) R w"
  unfolding wps_def OnSuccessWith_def wp_bind by (erule wp_mono) (auto intro!: wp_returnI wp_ifI split: prod.split)

lemma wps_Blocked: "wps m R w \<Longrightarrow> wps (Blocked ps label m) R w"
  unfolding wps_def Blocked_def wp_bind
proof (erule wp_mono, rule wp_prodI, goal_cases)
  case (1 r t status p)
  show ?case
  proof (cases "EFI_ERROR status")
    case True
    show ?thesis by (rule wp_callI) (simp add: True)
  qed (use 1 in simp)
qed

lemma wps_Step: "wps m R w \<Longrightarrow> (\<And>p t. R p t \<Longrightarrow> wps (k p) Q t) \<Longrightarrow> wps (OnSuccessWith (Blocked ps label m) k) Q w"
  by (rule wps_OnSuccessWith) (rule wps_mono [OF wps_Blocked])

section \<open>Endpoints\<close>

definition endpoint_at :: "PCI_INVENTORY \<Rightarrow> nat \<Rightarrow> NATIVE_CSM_VGA_PLAN_ENDPOINT \<Rightarrow> bool" where
  "endpoint_at i k e \<longleftrightarrow> k < length (devices i) \<and> ep_InventoryRecord e = Some k \<and> ep_PciIo e = pd_PciIo (devices i ! k) \<and> ep_PciIo e \<noteq> None \<and>
     unat (ep_Segment e) = pd_Segment (devices i ! k) \<and> unat (ep_Bus e) = pd_Bus (devices i ! k) \<and>
     unat (ep_Device e) = pd_Device (devices i ! k) \<and> unat (ep_Function e) = pd_Function (devices i ! k) \<and>
     unat (ep_Device e) \<le> 31 \<and> unat (ep_Function e) \<le> 7"

lemma CopyEndpoint_at:
  assumes "CopyEndpoint h (devices i) k = Inr e" and "k < length (devices i)"
  shows "endpoint_at i k e"
proof -
  have "unat (of_nat n :: NCV_U8) = n" if "n \<le> 0xFF" for n using that by (simp add: unat_of_nat take_bit_nat_eq_self)
  moreover have "unat (of_nat n :: NCV_U16) = n" if "n \<le> 0xFFFF" for n using that by (simp add: unat_of_nat take_bit_nat_eq_self)
  ultimately show ?thesis using assms by (auto simp: CopyEndpoint_def endpoint_at_def Let_def split: if_splits)
qed

lemma ScanFor_fold:
  "foldl (\<lambda>(found, m) k. if P (ds ! k) then (Some k, m + 1) else (found, m)) (None, 0 :: nat) [0..<n] = (found, m) \<Longrightarrow>
   m = card {k. k < n \<and> P (ds ! k)} \<and> (found = None \<and> m = 0 \<or> (\<exists>k. found = Some k \<and> k < n \<and> P (ds ! k)))"
proof (induction n arbitrary: found m)
  case (Suc n)
  obtain found' m' where r: "foldl (\<lambda>(found, m) k. if P (ds ! k) then (Some k, m + 1) else (found, m)) (None, 0 :: nat) [0..<n] = (found', m')"
    by fastforce
  show ?case
  proof (cases "P (ds ! n)")
    case True
    then show ?thesis using Suc.IH [OF r] Suc.prems r by (auto simp: card_Suc_if)
  next
    case False
    then show ?thesis using Suc.IH [OF r] Suc.prems r by (auto simp: card_Suc_if)
  qed
qed simp

text \<open>A count of one names the only match.\<close>

lemma ScanFor_one:
  assumes "ScanFor P ds = (Some k, 1)"
  shows "k < length ds \<and> (\<forall>j < length ds. P (ds ! j) \<longleftrightarrow> j = k)"
proof -
  have r: "card {k. k < length ds \<and> P (ds ! k)} = 1" "k < length ds" "P (ds ! k)"
    using ScanFor_fold [OF assms [unfolded ScanFor_def]] by simp_all
  obtain x where x: "{k. k < length ds \<and> P (ds ! k)} = {x}" using r(1) by (auto simp: card_1_singleton_iff)
  have "k \<in> {k. k < length ds \<and> P (ds ! k)}" using r by simp
  then have "x = k" unfolding x by simp
  then have "j < length ds \<and> P (ds ! j) \<longleftrightarrow> j = k" for j using x by blast
  then show ?thesis by blast
qed

text \<open>The endpoints of the video switch and what was checked of them.\<close>

definition video_ok :: "PROBE_CONFIG \<Rightarrow> PCI_INVENTORY \<Rightarrow> NATIVE_CSM_VGA_PLAN_ENDPOINT \<Rightarrow> NATIVE_CSM_VGA_PLAN_ENDPOINT \<Rightarrow> bool" where
  "video_ok c i t a \<longleftrightarrow> (\<exists>ti ai. endpoint_at i ti t \<and> endpoint_at i ai a \<and> ti \<noteq> ai \<and>
     (\<forall>j < length (devices i). RecordIsDisplay (devices i ! j) \<and> AddressEqualRecord (devices i ! j) (g_TargetPci c) \<longleftrightarrow> j = ti) \<and>
     (\<forall>j < length (devices i). RecordIsDisplay (devices i ! j) \<and> OwnsLegacyVga (devices i ! j) \<longleftrightarrow> j = ai)) \<and>
     ep_Segment t = 0 \<and> \<not> IdentityRejected c t \<and> ep_RootBridgeHandle t = ep_RootBridgeHandle a \<and> ep_ParentHostHandle t = ep_ParentHostHandle a"

lemma FindVideoEndpoints_ok:
  assumes r: "FindVideoEndpoints h p = (status, q)" and ok: "\<not> EFI_ERROR status"
  shows "\<exists>t a. q = p\<lparr>rp_Target := t, rp_Active := a\<rparr> \<and> video_ok (rp_Config p) (rp_Inventory p) t a"
proof -
  let ?i = "rp_Inventory p"
  obtain target n active m where
    scan: "ScanFor (\<lambda>r. RecordIsDisplay r \<and> AddressEqualRecord r (g_TargetPci (rp_Config p))) (devices ?i) = (target, n)"
      "ScanFor (\<lambda>r. RecordIsDisplay r \<and> OwnsLegacyVga r) (devices ?i) = (active, m)"
    by fastforce
  note f = r [unfolded FindVideoEndpoints_def Let_def scan prod.case]
  obtain ti where ti: "target = Some ti" using f ok by (cases target) auto
  have n: "n = 1" using f ok ti by (cases "n = 1") auto
  obtain ai where ai: "active = Some ai" using f ok ti n by (cases active) auto
  have m: "m = 1" using f ok ti n ai by (cases "m = 1") auto
  have ne: "ti \<noteq> ai" using f ok ti n ai m by (cases "ti = ai") auto
  note f = f [unfolded ti ai option.case n m, simplified, unfolded if_not_P [OF ne]]
  note k = ScanFor_one [OF scan(1) [unfolded ti n]] ScanFor_one [OF scan(2) [unfolded ai m]]
  obtain t where t: "CopyEndpoint h (devices ?i) ti = Inr t"
    using f ok by (cases "CopyEndpoint h (devices ?i) ti") (auto simp: CopyEndpoint_def Let_def split: if_splits)
  obtain a where a: "CopyEndpoint h (devices ?i) ai = Inr a"
    using f ok t by (cases "CopyEndpoint h (devices ?i) ai") (auto simp: CopyEndpoint_def Let_def split: if_splits)
  have x: "ep_Segment t = 0" "\<not> IdentityRejected (rp_Config p) t" "\<not> TopologyRejected (devices ?i ! ti) (devices ?i ! ai) t a"
    "q = p\<lparr>rp_Target := t, rp_Active := a\<rparr>"
    using f ok by (auto simp: t a split: if_splits)
  have "endpoint_at ?i ti t" "endpoint_at ?i ai a" using CopyEndpoint_at t a k by blast+
  then have "video_ok (rp_Config p) ?i t a"
    unfolding video_ok_def using x k ne by (intro conjI exI [of _ ti] exI [of _ ai]) (simp_all add: TopologyRejected_def)
  then show ?thesis using x by blast
qed

section \<open>Bridge paths\<close>

text \<open>A journaled path: its records, no marks, and the values of configuration space.\<close>

definition journal_of :: "'w config_space \<Rightarrow> 'w \<Rightarrow> PCI_DEVICE_RECORD list \<Rightarrow> NATIVE_CSM_VGA_PLAN_BRIDGE list \<Rightarrow> bool" where
  "journal_of cfg w raw bs \<longleftrightarrow> map br_Record bs = raw \<and>
     (\<forall>b \<in> set bs. unmarked b = b \<and> br_PciIo b \<noteq> None \<and> br_value cfg w b = br_OriginalBridgeControl b)"

lemma CopyAndJournalPath_static:
  "wp (CopyAndJournalPath sv raw) (\<lambda>r _. \<forall>bs. r = Inr bs \<longrightarrow> map br_Record bs = raw \<and> (\<forall>b \<in> set bs. unmarked b = b \<and> br_PciIo b \<noteq> None)) w"
proof (induction raw arbitrary: w)
  case (Cons r raw)
  show ?case unfolding CopyAndJournalPath.simps
  proof (rule wp_ifI, rule wp_returnI, simp, rule wp_callI, rule wp_prodI, goal_cases)
    case (1 x t status v)
    show ?case
    proof (rule wp_ifI, rule wp_returnI, simp, rule wp_ifI, rule wp_callI, rule wp_returnI, simp, rule wp_callI, rule wp_bindI [OF Cons.IH], rule wp_returnI,
        goal_cases)
      case (1 _ _ q)
      then show ?case using \<open>\<not> (pd_PciIo r = None \<or> _)\<close> by (auto simp: unmarked_def split: sum.splits)
    qed
  qed
qed simp

lemma CopyAndJournalPath_journal:
  assumes laws: "pci_laws cfg sv"
  shows "wp (CopyAndJournalPath sv raw) (\<lambda>r t. cfg t = cfg w \<and> (\<forall>bs. r = Inr bs \<longrightarrow> journal_of cfg w raw bs)) w"
proof (induction raw arbitrary: w)
  case (Cons r raw)
  have log: "keeps cfg (PciLogPrint sv s)" for s using laws by (simp add: pci_laws_def)
  have read: "wp (PciRead16 sv io off) (\<lambda>(status, v) w'. cfg w' = cfg w \<and> (\<not> EFI_ERROR status \<longrightarrow> v = cfg w io off)) w" for io off
    using laws by (simp add: pci_laws_def)
  show ?case unfolding CopyAndJournalPath.simps
  proof (rule wp_ifI, rule wp_returnI, simp, rule wp_bindI [OF read], rule wp_prodI, goal_cases)
    case (1 x t status v)
    then have t: "cfg t = cfg w" and v: "\<not> EFI_ERROR status \<Longrightarrow> v = cfg w (the (pd_PciIo r)) PCI_BRIDGE_CONTROL_OFFSET" by simp_all
    show ?case
    proof (rule wp_ifI, rule wp_returnI, simp add: t, rule wp_ifI, rule keeps_bindI [OF log], rule wp_returnI, simp add: t, rule keeps_bindI [OF log],
        rule wp_bindI [OF Cons.IH], rule wp_returnI, goal_cases)
      case (1 _ t1 q t2)
      have b: "br_value cfg t1 b = br_value cfg w b" for b using 1 t by (simp add: br_value_def)
      show ?case
      proof (intro conjI allI impI)
        fix bs assume "(case q of Inl status \<Rightarrow> Inl status
            | Inr bs \<Rightarrow> Inr (\<lparr>br_Record = r, br_OriginalBridgeControl = v, br_WriteAttempted = False, br_WriteApplied = False\<rparr> # bs)) = Inr bs"
        then obtain bs' where bs: "q = Inr bs'" "bs = \<lparr>br_Record = r, br_OriginalBridgeControl = v, br_WriteAttempted = False, br_WriteApplied = False\<rparr> # bs'"
          by (auto split: sum.splits)
        then have "journal_of cfg t1 raw bs'" using 1 by simp
        then show "journal_of cfg w (r # raw) bs"
          using v 1 \<open>\<not> (pd_PciIo r = None \<or> _)\<close> unfolding bs journal_of_def b by (simp add: unmarked_def br_value_def)
      qed (use 1 t in simp)
    qed
  qed
qed (simp add: journal_of_def)

text \<open>The shared path is the longest common prefix.\<close>

lemma SharedLoop_prefix:
  "SharedLoop as ts = Inr shared \<Longrightarrow> shared = take (length shared) as \<and> length shared \<le> length as \<and> length shared \<le> length ts \<and>
     (\<forall>k < length shared. BridgeIdentityEqual (as ! k) (ts ! k))"
proof (induction as ts arbitrary: shared rule: SharedLoop.induct)
  case (1 a as t ts)
  show ?case
  proof (cases "BridgeIdentityEqual a t")
    case True
    then obtain sh where sh: "SharedLoop as ts = Inr sh" "shared = a # sh" "br_OriginalBridgeControl a = br_OriginalBridgeControl t"
      using 1(2) by (auto split: if_splits sum.splits)
    show ?thesis using 1(1) [OF True _ sh(1)] sh True by (auto simp: nth_Cons split: nat.splits)
  qed (use 1(2) in simp)
qed auto

definition paths_classified :: "RUNTIME_PLAN \<Rightarrow> bool" where
  "paths_classified p \<longleftrightarrow> rp_ActivePath p = rp_SharedPath p @ rp_ActiveExclusivePath p \<and>
     rp_TargetExclusivePath p = drop (length (rp_SharedPath p)) (rp_TargetPath p) \<and> length (rp_SharedPath p) \<le> length (rp_TargetPath p) \<and>
     (\<forall>k < length (rp_SharedPath p). BridgeIdentityEqual (rp_ActivePath p ! k) (rp_TargetPath p ! k)) \<and>
     (\<forall>a \<in> set (rp_ActiveExclusivePath p). \<forall>t \<in> set (rp_TargetExclusivePath p). \<not> BridgeIdentityEqual a t)"

lemma ClassifyPaths_ok:
  assumes "ClassifyPaths p = (status, q)" and "\<not> EFI_ERROR status"
  shows "paths_classified q \<and> (\<exists>s a t. q = p\<lparr>rp_SharedPath := s, rp_ActiveExclusivePath := a, rp_TargetExclusivePath := t\<rparr>)"
proof -
  obtain shared where sh: "SharedLoop (rp_ActivePath p) (rp_TargetPath p) = Inr shared"
  proof (cases "SharedLoop (rp_ActivePath p) (rp_TargetPath p)")
    case (Inl status')
    have "SharedLoop as ts = Inl e \<Longrightarrow> EFI_ERROR e" for as ts e
      by (induction as ts arbitrary: e rule: SharedLoop.induct) (auto split: if_splits sum.splits)
    then show ?thesis using Inl assms by (simp add: ClassifyPaths_def)
  qed
  note f = SharedLoop_prefix [OF sh]
  have q: "q = p\<lparr>rp_SharedPath := shared, rp_ActiveExclusivePath := drop (length shared) (rp_ActivePath p),
      rp_TargetExclusivePath := drop (length shared) (rp_TargetPath p)\<rparr>"
    and d: "\<forall>a \<in> set (drop (length shared) (rp_ActivePath p)). \<forall>t \<in> set (drop (length shared) (rp_TargetPath p)). \<not> BridgeIdentityEqual a t"
    using assms by (auto simp: ClassifyPaths_def sh Let_def split: if_splits)
  have "rp_ActivePath p = shared @ drop (length shared) (rp_ActivePath p)" using f by (metis append_take_drop_id)
  then have "paths_classified q" unfolding q paths_classified_def using f d by simp
  then show ?thesis using q by blast
qed

text \<open>The registers of a classified pair of paths are distinct when every function has its own interface.\<close>

lemma same_record:
  assumes "distinct (map pd_PciIo ds)" and "r \<in> set ds" and "s \<in> set ds" and "pd_PciIo r = pd_PciIo s"
  shows "r = s"
  using assms by (auto simp: distinct_map dest: inj_onD)

lemma distinct_map_finer:
  assumes "distinct (map f xs)" and "\<And>x y. g x = g y \<Longrightarrow> x \<in> set xs \<Longrightarrow> y \<in> set xs \<Longrightarrow> f x = f y"
  shows "distinct (map g xs)"
  using assms unfolding distinct_map by (auto intro!: inj_onI dest: inj_onD)

lemma classified_distinct:
  assumes c: "paths_classified p" and ds: "distinct (map pd_PciIo ds)"
    and a: "journal_of cfg w A (rp_ActivePath p)" "distinct A" "set A \<subseteq> set ds"
    and t: "journal_of cfg w T (rp_TargetPath p)" "distinct T" "set T \<subseteq> set ds"
  shows "path_journaled cfg w (all_bridges p)"
proof -
  let ?S = "rp_SharedPath p" and ?a = "rp_ActiveExclusivePath p" and ?t = "rp_TargetExclusivePath p"
  have act: "rp_ActivePath p = ?S @ ?a" and tgt: "rp_TargetPath p = take (length ?S) (rp_TargetPath p) @ ?t"
    using c by (simp_all add: paths_classified_def)
  let ?P = "\<lambda>b. br_Record b \<in> set ds \<and> br_PciIo b \<noteq> None \<and> unmarked b = b \<and> br_value cfg w b = br_OriginalBridgeControl b"
  have mem: "\<forall>b \<in> set (?a @ ?S @ ?t). ?P b"
  proof -
    have P: "\<forall>b \<in> set bs. ?P b" if "journal_of cfg w R bs" "set R \<subseteq> set ds" for R bs
    proof
      fix b assume b: "b \<in> set bs"
      have R: "map br_Record bs = R" using that by (simp add: journal_of_def)
      have "br_Record b \<in> set R" unfolding R [symmetric] using b by simp
      then show "?P b" using that b by (auto simp: journal_of_def)
    qed
    have t': "set ?t \<subseteq> set (rp_TargetPath p)" using c by (simp add: paths_classified_def set_drop_subset)
    have a': "set ?a \<subseteq> set (rp_ActivePath p)" "set ?S \<subseteq> set (rp_ActivePath p)" unfolding act by simp_all
    show ?thesis
    proof
      fix b assume "b \<in> set (?a @ ?S @ ?t)"
      then have "b \<in> set (rp_ActivePath p) \<or> b \<in> set (rp_TargetPath p)" using t' a' by auto
      then show "?P b"
      proof
        assume "b \<in> set (rp_ActivePath p)" then show ?thesis by (rule bspec [OF P [OF a(1,3)]])
      next
        assume "b \<in> set (rp_TargetPath p)" then show ?thesis by (rule bspec [OF P [OF t(1,3)]])
      qed
    qed
  qed
  have same: "br_Record b = br_Record b'" if r: "br_reg b = br_reg b'" and b: "b \<in> set (?a @ ?S @ ?t)" "b' \<in> set (?a @ ?S @ ?t)" for b b'
  proof (rule same_record [OF ds])
    obtain io io' where "br_PciIo b = Some io" "br_PciIo b' = Some io'" using bspec [OF mem b(1)] bspec [OF mem b(2)] by (elim conjE) blast
    then show "pd_PciIo (br_Record b) = pd_PciIo (br_Record b')" using r by (simp add: br_reg_def)
  qed (use bspec [OF mem b(1)] bspec [OF mem b(2)] in blast)+
  have dA: "distinct (map br_Record (?S @ ?a))" using a act by (simp add: journal_of_def)
  have dT: "distinct (map br_Record (take (length ?S) (rp_TargetPath p) @ ?t))" using t tgt by (simp add: journal_of_def)
  have sT: "br_Record b \<in> br_Record ` set (take (length ?S) (rp_TargetPath p))" if b: "b \<in> set ?S" for b
  proof -
    obtain k where k: "k < length ?S" "b = ?S ! k" using b by (auto simp: in_set_conv_nth)
    let ?u = "rp_TargetPath p ! k"
    have l: "length ?S \<le> length (rp_TargetPath p)" using c by (simp add: paths_classified_def)
    have u: "?u \<in> set (rp_TargetPath p)" using k l by simp
    have u': "?u \<in> set (take (length ?S) (rp_TargetPath p))" unfolding in_set_conv_nth using k l by (intro exI [of _ k]) simp
    have "BridgeIdentityEqual b ?u" using c k act by (auto simp: paths_classified_def nth_append)
    then have "pd_PciIo (br_Record b) = pd_PciIo (br_Record ?u)" by (simp add: BridgeIdentityEqual_def)
    moreover have "br_Record ?u \<in> set ds" using u t by (auto simp: journal_of_def)
    moreover have "br_Record b \<in> set ds" using mem b by simp
    ultimately have "br_Record b = br_Record ?u" by (intro same_record [OF ds])
    then show ?thesis using u' by blast
  qed
  have n1: "br_Record b \<noteq> br_Record b'" if "b \<in> set ?a" "b' \<in> set ?t" for b b'
  proof
    assume "br_Record b = br_Record b'"
    then have "BridgeIdentityEqual b b'" by (simp add: BridgeIdentityEqual_def)
    then show False using c that by (simp add: paths_classified_def)
  qed
  have n2: "br_Record b \<noteq> br_Record b'" if "b \<in> set ?S" "b' \<in> set ?t" for b b'
    using sT [OF that(1)] that(2) dT by auto
  have "distinct (map br_Record ?t)" "distinct (map br_Record ?S)" "distinct (map br_Record ?a)"
    "br_Record ` set ?a \<inter> br_Record ` set ?S = {}" using dA dT by auto
  moreover have "br_Record ` set ?a \<inter> br_Record ` set ?t = {}" "br_Record ` set ?S \<inter> br_Record ` set ?t = {}" using n1 n2 by blast+
  ultimately have "distinct (map br_Record (?a @ ?S @ ?t))" by (simp add: Int_Un_distrib)
  then have "distinct (map br_reg (all_bridges p))" 
    unfolding all_bridges_def by (rule distinct_map_finer) (rule same)
  then show ?thesis using mem by (simp add: path_journaled_def all_bridges_def)
qed

text \<open>The raw path of an endpoint.\<close>

lemma ValidatedPath_D:
  assumes "PciBuildValidatedDevicePathBridgePath h allocated i (Some s) capacity = Inr bridges"
  shows "bridges = sort_key pd_DevicePathSize (filter (IsAncestor s) (devices i)) \<and> length bridges \<le> capacity"
proof -
  obtain status path where b: "BuildDevicePathBridgePath i s = (status, path)" by force
  note eq = BuildDevicePathBridgePath_status [OF b]
  have x: "status = EFI_SUCCESS" "bridges = map (\<lambda>k. devices i ! k) path" "length path \<le> capacity"
    using assms b eq by (cases "capacity < length path"; auto simp: PciBuildValidatedDevicePathBridgePath_def Let_def split: option.splits if_splits)+
  then show ?thesis using b by (auto simp: BuildDevicePathBridgePath_eq map_sort_key_filter)
qed

definition raw_path :: "PCI_INVENTORY \<Rightarrow> NATIVE_CSM_VGA_PLAN_ENDPOINT \<Rightarrow> PCI_DEVICE_RECORD list" where
  "raw_path i e = sort_key pd_DevicePathSize (filter (IsAncestor (devices i ! the (ep_InventoryRecord e))) (devices i))"

lemma raw_path_set: "set (raw_path i e) \<subseteq> set (devices i)" "distinct (map pd_PciIo (devices i)) \<Longrightarrow> distinct (raw_path i e)"
  by (auto simp: raw_path_def distinct_map)

lemma CopyAndJournalPath_error: "wp (CopyAndJournalPath sv raw) (\<lambda>r _. \<forall>e. r = Inl e \<longrightarrow> EFI_ERROR e) w"
proof (induction raw arbitrary: w)
  case (Cons r raw)
  show ?case unfolding CopyAndJournalPath.simps
    by (rule wp_ifI, rule wp_returnI, simp, rule wp_callI, rule wp_prodI, rule wp_ifI, rule wp_returnI, simp, rule wp_ifI, rule wp_callI,
        rule wp_returnI, simp, rule wp_callI, rule wp_bindI [OF Cons.IH], rule wp_returnI) (simp split: sum.split)
qed simp

lemma ValidatedPath_error: "PciBuildValidatedDevicePathBridgePath h allocated i (Some s) capacity = Inl e \<Longrightarrow> EFI_ERROR e"
  by (auto simp: PciBuildValidatedDevicePathBridgePath_def Let_def split: option.splits if_splits prod.splits)

text \<open>What a journaled path of the plan is, independently of configuration space.\<close>

definition path_of :: "PCI_INVENTORY \<Rightarrow> NATIVE_CSM_VGA_PLAN_ENDPOINT \<Rightarrow> NATIVE_CSM_VGA_PLAN_BRIDGE list \<Rightarrow> bool" where
  "path_of i e bs \<longleftrightarrow> map br_Record bs = raw_path i e \<and> length bs \<le> 16 \<and> (\<forall>b \<in> set bs. unmarked b = b \<and> br_PciIo b \<noteq> None)"

lemma JournaledPath_static:
  assumes "ep_InventoryRecord e = Some k"
  shows "wp (JournaledPath ps i e) (\<lambda>r _. (\<forall>bs. r = Inr bs \<longrightarrow> path_of i e bs) \<and> (\<forall>x. r = Inl x \<longrightarrow> EFI_ERROR x)) w"
  unfolding JournaledPath_def Let_def assms option.map
proof (rule wp_callI, rule wp_sumI, rule wp_returnI, simp add: ValidatedPath_error,
    rule wp_mono [OF wp_conj [OF CopyAndJournalPath_static CopyAndJournalPath_error]], goal_cases)
  case (1 allocated t raw r t')
  have v: "raw = raw_path i e \<and> length raw \<le> 16" using ValidatedPath_D [OF 1(1)]
    unfolding raw_path_def assms option.sel NATIVE_CSM_VGA_BOOT_MAX_BRIDGES_def .
  show ?case
  proof (intro conjI allI impI)
    fix bs assume "r = Inr bs"
    then have b: "map br_Record bs = raw" "\<forall>b \<in> set bs. unmarked b = b \<and> br_PciIo b \<noteq> None" using 1 by simp_all
    have "length bs = length raw" unfolding b(1) [symmetric] by simp
    then show "path_of i e bs" unfolding path_of_def using b v by (metis length_map)
  qed (use 1 in simp)
qed

lemma JournaledPath_journal:
  assumes laws: "pci_laws cfg (ps_Pci ps)" and pool: "\<And>n. keeps cfg (Pool (ps_Boot ps) n)" and "ep_InventoryRecord e = Some k"
  shows "wp (JournaledPath ps i e) (\<lambda>r t. cfg t = cfg w \<and> (\<forall>bs. r = Inr bs \<longrightarrow> journal_of cfg w (raw_path i e) bs)) w"
  unfolding JournaledPath_def Let_def assms(3) option.map
proof (rule keeps_bindI [OF keeps_if [OF pool keeps_return]], rule wp_sumI, rule wp_returnI, simp, rule wp_mono [OF CopyAndJournalPath_journal [OF laws]], goal_cases)
  case (1 allocated t raw r t')
  then have "raw = raw_path i e" using ValidatedPath_D [OF 1(2)] by (simp add: raw_path_def assms(3))
  moreover have "journal_of cfg t raw bs \<longleftrightarrow> journal_of cfg w raw bs" for bs using 1(1) by (simp add: journal_of_def br_value_def)
  ultimately show ?case using 1 by simp
qed

text \<open>Both paths and their classification; \<open>f\<close> observes what the calls leave alone.\<close>

definition same_but_paths :: "RUNTIME_PLAN \<Rightarrow> RUNTIME_PLAN \<Rightarrow> bool" where
  "same_but_paths p q \<longleftrightarrow> (\<exists>a t s x y. q = p\<lparr>rp_ActivePath := a, rp_TargetPath := t, rp_SharedPath := s,
     rp_ActiveExclusivePath := x, rp_TargetExclusivePath := y\<rparr>)"

lemma Paths_rule:
  assumes act: "\<And>w. f w = f0 \<Longrightarrow> wp (JournaledPath ps (rp_Inventory p) (rp_Active p)) (\<lambda>r t. f t = f0 \<and> (\<forall>bs. r = Inr bs \<longrightarrow> A bs) \<and> (\<forall>x. r = Inl x \<longrightarrow> EFI_ERROR x)) w"
    and tgt: "\<And>w. f w = f0 \<Longrightarrow> wp (JournaledPath ps (rp_Inventory p) (rp_Target p)) (\<lambda>r t. f t = f0 \<and> (\<forall>bs. r = Inr bs \<longrightarrow> T bs) \<and> (\<forall>x. r = Inl x \<longrightarrow> EFI_ERROR x)) w"
    and log: "\<And>s. keeps f (PciLogPrint (ps_Pci ps) s)" and w: "f w = f0"
  shows "wps (BuildAndClassifyPaths ps p) (\<lambda>q t. f t = f0 \<and> same_but_paths p q \<and> paths_classified q \<and> A (rp_ActivePath q) \<and> T (rp_TargetPath q)) w"
  unfolding BuildAndClassifyPaths_def Let_def wps_def
proof (rule wp_bindI [OF act [OF w]], rule wp_sumI, rule wp_returnI, simp, rule keeps_bindI [OF log], goal_cases)
  case (1 r t a u t1)
  then have f1: "f t1 = f0" and a: "A a" by simp_all
  have "wp (JournaledPath ps (rp_Inventory (p\<lparr>rp_ActivePath := a\<rparr>)) (rp_Target (p\<lparr>rp_ActivePath := a\<rparr>)))
      (\<lambda>r t. f t = f0 \<and> (\<forall>bs. r = Inr bs \<longrightarrow> T bs) \<and> (\<forall>x. r = Inl x \<longrightarrow> EFI_ERROR x)) t1" using tgt [OF f1] by simp
  then show ?case
  proof (rule wp_bindI, rule_tac wp_sumI, rule_tac wp_returnI, simp, rule_tac keeps_bindI [OF log], rule_tac wp_returnI, goal_cases)
    case (1 r2 t2 b u2 t3)
    obtain status q where q: "ClassifyPaths (p\<lparr>rp_ActivePath := a, rp_TargetPath := b\<rparr>) = (status, q)" by fastforce
    show ?case unfolding q prod.case
    proof
      assume "\<not> EFI_ERROR status"
      from ClassifyPaths_ok [OF q this] obtain s x y where
        c: "paths_classified q" "q = p\<lparr>rp_ActivePath := a, rp_TargetPath := b, rp_SharedPath := s, rp_ActiveExclusivePath := x, rp_TargetExclusivePath := y\<rparr>"
        by blast
      moreover have "same_but_paths p q" unfolding same_but_paths_def using c(2) by blast
      moreover have "rp_ActivePath q = a" "rp_TargetPath q = b" by (simp_all add: c(2))
      ultimately show "f t3 = f0 \<and> same_but_paths p q \<and> paths_classified q \<and> A (rp_ActivePath q) \<and> T (rp_TargetPath q)"
        using 1 a by simp
    qed
  qed
qed

section \<open>The other steps\<close>

lemma CompatStep_ok: "wps (CompatStep ps p) (\<lambda>q t. \<exists>c. q = p\<lparr>rp_Compatibility16 := c\<rparr> \<and> ct_Table c \<noteq> None) w"
proof -
  let ?bs = "bs_Memory (ps_Boot ps)" and ?mem = "ps_PhysicalMemory ps w" and ?st = "ps_SystemTable ps"
  obtain status c w' where r: "SelectCompatibility16 ?bs w ?mem ?st = ((status, c), w')" by (metis prod.exhaust)
  have "ct_Table c \<noteq> None" if ok: "\<not> EFI_ERROR status"
  proof -
    obtain res w1 where m: "MemoryMapCapture ?bs w = (res, w1)" by fastforce
    then obtain s where s: "res = Inr s" using r ok MemoryMapCapture_result [OF m] by (cases res) (auto simp: SelectCompatibility16_def)
    obtain n sel where l: "CompatLoop s ?mem ?st COMPAT_SCAN_START (0, zero_compatibility16) = (n, sel)" by fastforce
    show ?thesis using r ok by (auto simp: SelectCompatibility16_def m s l split: if_splits)
  qed
  then show ?thesis unfolding wps_def wp_def CompatStep_def by (simp add: r) blast
qed

lemma LocateBiosStep_ok: "wps (LocateBiosStep ps p) (\<lambda>q t. \<exists>b. q = p\<lparr>rp_LegacyBios := Some b\<rparr> \<and> ps_LegacyBiosUsable ps b) w"
  unfolding LocateBiosStep_def Let_def by (intro wps_steps) (auto split: if_splits option.splits)

lemma LocateRegionStep_ok: "wps (LocateRegionStep ps p) (\<lambda>q t. \<exists>b. q = p\<lparr>rp_LegacyRegion2 := Some b\<rparr> \<and> ps_LegacyRegion2Usable ps b) w"
  unfolding LocateRegionStep_def Let_def by (intro wps_steps) (auto split: if_splits option.splits)

lemma InventoryStep_ok: "wps (InventoryStep ps p) (\<lambda>q t. \<exists>i. q = p\<lparr>rp_Inventory := i\<rparr>) w"
  unfolding InventoryStep_def by (intro wps_steps) auto

lemma FindVideo_ok:
  "wps (State_Monad.return (FindVideoEndpoints h p))
     (\<lambda>q t. \<exists>tg a. q = p\<lparr>rp_Target := tg, rp_Active := a\<rparr> \<and> video_ok (rp_Config p) (rp_Inventory p) tg a) w"
  by (rule wps_pure) (rule FindVideoEndpoints_ok)

lemma Paths_ok:
  assumes "ep_InventoryRecord (rp_Active p) = Some ka" and "ep_InventoryRecord (rp_Target p) = Some kt"
  shows "wps (BuildAndClassifyPaths ps p) (\<lambda>q t. same_but_paths p q \<and> paths_classified q \<and>
    path_of (rp_Inventory p) (rp_Active p) (rp_ActivePath q) \<and> path_of (rp_Inventory p) (rp_Target p) (rp_TargetPath q)) w"
proof -
  have "keeps (\<lambda>_. ()) m" for m :: "('w, 'b) state" by (simp add: keeps_def)
  note r = Paths_rule [of "\<lambda>_. ()" "()" ps p "path_of (rp_Inventory p) (rp_Active p)" "path_of (rp_Inventory p) (rp_Target p)", OF _ _ this]
  show ?thesis
    by (rule wps_mono [OF r]) (use JournaledPath_static [OF assms(1)] JournaledPath_static [OF assms(2)] in \<open>simp_all\<close>)
qed

lemma StatusOnly_ok: "wps (StatusOnly m p) (\<lambda>q t. q = p) w"
  unfolding StatusOnly_def by (intro wps_steps) simp

text \<open>The selected ROM is the slice of the exposed one that the parser reported as the single legacy image of the target.\<close>

definition rom_wf :: "RUNTIME_PLAN \<Rightarrow> bool" where
  "rom_wf p \<longleftrightarrow> (\<exists>base exposed. rp_ExposedRom p = Some exposed \<and>
     OptionRomParseAndValidate (Some (base, exposed)) (length exposed) (ep_Vendor (rp_Target p)) (ep_DeviceId (rp_Target p)) = Inr (rp_RomValidation p) \<and>
     MatchingLegacyCandidateCount (rp_RomValidation p) = 1 \<and> rp_SelectedRomOffset p = MatchingLegacyImageOffset (rp_RomValidation p) \<and>
     rp_SelectedRomSize p = MatchingLegacyImageSize (rp_RomValidation p) \<and> rp_SelectedRomVendor p = ep_Vendor (rp_Target p) \<and>
     rp_SelectedRomDevice p = ep_DeviceId (rp_Target p) \<and> 0 < rp_SelectedRomSize p \<and> rp_SelectedRomSize p \<le> 0x10000 \<and>
     rp_SelectedRomOffset p + rp_SelectedRomSize p \<le> length exposed \<and>
     rp_SelectedRom p = Some (take (rp_SelectedRomSize p) (drop (rp_SelectedRomOffset p) exposed)))"

definition same_but_rom :: "RUNTIME_PLAN \<Rightarrow> RUNTIME_PLAN \<Rightarrow> bool" where
  "same_but_rom p q \<longleftrightarrow> (\<exists>e v off n r ven dev. q = p\<lparr>rp_ExposedRom := e, rp_RomValidation := v, rp_SelectedRomOffset := off, rp_SelectedRomSize := n,
     rp_SelectedRom := r, rp_SelectedRomVendor := ven, rp_SelectedRomDevice := dev\<rparr>)"

lemma SelectRom_ok: "wps (SelectRom ps p) (\<lambda>q t. same_but_rom p q \<and> rom_wf q) w"
  unfolding SelectRom_def Let_def RUNTIME_PLAN.simps
proof (intro wps_steps, goal_cases)
  case (6 io r t a base exposed v u t' status t'')
  then show ?case
    unfolding same_but_rom_def rom_wf_def RomRejected_def by (intro conjI exI [of _ base] exI [of _ exposed] exI) auto
qed simp_all

text \<open>The storage controller and the descriptions that are filled in for it.\<close>

definition storage_ok :: "PROBE_CONFIG \<Rightarrow> PCI_INVENTORY \<Rightarrow> NATIVE_CSM_VGA_PLAN_ENDPOINT \<Rightarrow> bool" where
  "storage_ok c i e \<longleftrightarrow> (\<exists>k. endpoint_at i k e \<and>
     (\<forall>j < length (devices i). SegmentlessMatch (g_TargetControllerPci c) (devices i ! j) \<longleftrightarrow> j = k) \<and>
     AddressEqualRecord (devices i ! k) (g_TargetControllerPci c) \<and>
     (RecordIsUsbController (devices i ! k) \<longrightarrow> g_HasTargetBbsDescription c \<and> g_TargetBbsDescription c \<noteq> []))"

lemma FindStorageController_ok:
  assumes r: "FindStorageController h p = (status, q)" and ok: "\<not> EFI_ERROR status"
  shows "\<exists>e lo ex. q = p\<lparr>rp_StorageController := e, rp_Config := (rp_Config p)\<lparr>g_LegacyOptionDescription := lo, g_ExcludeDescription := ex\<rparr>,
      rp_StorageControllerAddress := g_TargetControllerPci (rp_Config p)\<rparr> \<and> storage_ok (rp_Config p) (rp_Inventory p) e"
proof -
  let ?i = "rp_Inventory p" and ?a = "g_TargetControllerPci (rp_Config p)"
  obtain found n selected m where
    scan: "ScanFor (SegmentlessMatch ?a) (devices ?i) = (found, n)"
      "ScanFor (\<lambda>r. SegmentlessMatch ?a r \<and> AddressEqualRecord r ?a) (devices ?i) = (selected, m)"
    by fastforce
  note f = r [unfolded FindStorageController_def Let_def scan prod.case]
  obtain si where si: "selected = Some si" using f ok by (cases selected) auto
  have c: "m = 1" "n = 1" using f ok si by (cases "m = 1"; cases "n = 1"; auto)+
  note one = ScanFor_one [OF scan(2) [unfolded si c]]
  have found: "found = Some si"
  proof (cases found)
    case None
    then show ?thesis using ScanFor_fold [OF scan(1) [unfolded ScanFor_def]] c by simp
  next
    case (Some k)
    then show ?thesis using ScanFor_one [OF scan(1) [unfolded Some c]] one by blast
  qed
  note sone = ScanFor_one [OF scan(1) [unfolded found c]]
  note f = f [unfolded si option.case c, simplified]
  obtain e where e: "CopyEndpoint h (devices ?i) si = Inr e"
    using f ok by (cases "CopyEndpoint h (devices ?i) si") (auto simp: CopyEndpoint_def Let_def split: if_splits)
  note f = f [unfolded e sum.case]
  have usb: "RecordIsUsbController (devices ?i ! si) \<longrightarrow> g_HasTargetBbsDescription (rp_Config p) \<and> g_TargetBbsDescription (rp_Config p) \<noteq> []"
    using f ok by (auto split: if_splits)
  have "storage_ok (rp_Config p) ?i e"
    unfolding storage_ok_def using CopyEndpoint_at [OF e] one sone usb by blast
  moreover have "\<exists>lo ex. q = p\<lparr>rp_StorageController := e, rp_Config := (rp_Config p)\<lparr>g_LegacyOptionDescription := lo, g_ExcludeDescription := ex\<rparr>,
      rp_StorageControllerAddress := ?a\<rparr>"
  proof -
    let ?u = "RecordIsUsbController (devices ?i ! si)" and ?c = "rp_Config p"
    have c1: "(if b then x\<lparr>g_LegacyOptionDescription := y\<rparr> else x) = x\<lparr>g_LegacyOptionDescription := (if b then y else g_LegacyOptionDescription x)\<rparr>"
      "(if b then x\<lparr>g_ExcludeDescription := y\<rparr> else x) = x\<lparr>g_ExcludeDescription := (if b then y else g_ExcludeDescription x)\<rparr>"
      for b y and x :: PROBE_CONFIG by simp_all
    have "\<not> (?u \<and> (\<not> g_HasTargetBbsDescription ?c \<or> g_TargetBbsDescription ?c = []))" using usb by blast
    moreover have "g_ExcludeDescription (x\<lparr>g_LegacyOptionDescription := y\<rparr>) = g_ExcludeDescription x"
      "g_HasExcludeDescription (x\<lparr>g_LegacyOptionDescription := y\<rparr>) = g_HasExcludeDescription x" for y and x :: PROBE_CONFIG by simp_all
    ultimately have f: "(EFI_SUCCESS, p\<lparr>rp_StorageController := e, rp_Config := ?c\<lparr>
        g_LegacyOptionDescription := (if \<not> g_HasLegacyOptionDescription ?c then if ?u then L ''USB'' else L ''Hard Drive'' else g_LegacyOptionDescription ?c),
        g_ExcludeDescription := (if \<not> g_HasExcludeDescription ?c then if ?u then L ''Hard Drive'' else L ''USB'' else g_ExcludeDescription ?c)\<rparr>,
      rp_StorageControllerAddress := ?a\<rparr>) = (status, q)"
      using f by (simp only: c1 if_False)
    have "q = p\<lparr>rp_StorageController := e, rp_Config := ?c\<lparr>g_LegacyOptionDescription := lo, g_ExcludeDescription := ex\<rparr>,
        rp_StorageControllerAddress := ?a\<rparr>"
      if "lo = (if \<not> g_HasLegacyOptionDescription ?c then if ?u then L ''USB'' else L ''Hard Drive'' else g_LegacyOptionDescription ?c)"
        "ex = (if \<not> g_HasExcludeDescription ?c then if ?u then L ''Hard Drive'' else L ''USB'' else g_ExcludeDescription ?c)" for lo ex
      using f unfolding that by simp
    then show ?thesis by blast
  qed
  ultimately show ?thesis by blast
qed

lemma FindStorage_ok:
  "wps (State_Monad.return (FindStorageController h p)) (\<lambda>q t. \<exists>e lo ex. q = p\<lparr>rp_StorageController := e,
      rp_Config := (rp_Config p)\<lparr>g_LegacyOptionDescription := lo, g_ExcludeDescription := ex\<rparr>,
      rp_StorageControllerAddress := g_TargetControllerPci (rp_Config p)\<rparr> \<and> storage_ok (rp_Config p) (rp_Inventory p) e) w"
  by (rule wps_pure) (rule FindStorageController_ok)

lemma DiscoverStep_ok: "wps (DiscoverStep ps p) (\<lambda>q t. \<exists>b. q = p\<lparr>rp_BootTarget := b\<rparr>) w"
  unfolding DiscoverStep_def Let_def by (intro wps_steps) auto

lemma RepresentableStep_ok:
  "wps (State_Monad.return (RepresentableStep p)) (\<lambda>q t. q = p \<and> bt_BbsCount (rp_BootTarget p) \<le> 0xFF \<and> bt_FirmwareBbsTable (rp_BootTarget p) \<le> 0xFFFFFFFF) w"
  by (rule wps_pure) (auto simp: RepresentableStep_def split: if_splits)

lemma OwnedStep_ok: "wps (OwnedStep ps p) (\<lambda>q t. q = p\<lparr>rp_UniqueBbsIndex := bt_LiveBbsIndex (rp_BootTarget p), rp_UniqueBbsEntry := bt_LiveBbsEntry (rp_BootTarget p)\<rparr>) w"
  unfolding OwnedStep_def by (intro wps_steps) simp

lemma CompleteStep_ok:
  "wps (CompleteStep ps p) (\<lambda>q t. \<not> g_RequireReferenceSnapshotMatch (rp_Config p) \<and>
     (\<exists>a b. q = p\<lparr>rp_InitialInt10Offset := a, rp_InitialInt10Segment := b, rp_Complete := True, rp_ValidationCompleted := True, rp_ValidationPassed := True\<rparr>)) w"
  unfolding CompleteStep_def Let_def
proof (rule wps_call, rule wps_call, rule wps_pure, goal_cases)
  case (1 m t u t' status q)
  then show ?case by (auto simp: NativeCsmVgaRuntimePlanFinalizeValidation_def Let_def split: if_splits)
qed

section \<open>A built plan is well formed\<close>

definition unmarked_plan :: "RUNTIME_PLAN \<Rightarrow> bool" where
  "unmarked_plan p \<longleftrightarrow> \<not> rp_EndpointWriteAttempted p \<and> \<not> rp_EndpointWriteApplied p \<and> \<not> rp_RouteDirty p"

definition routed_plan :: "PROBE_CONFIG \<Rightarrow> RUNTIME_PLAN \<Rightarrow> bool" where
  "routed_plan c p \<longleftrightarrow> unmarked_plan p \<and> ct_Table (rp_Compatibility16 p) \<noteq> None \<and>
     video_ok c (rp_Inventory p) (rp_Target p) (rp_Active p) \<and> paths_classified p \<and>
     path_of (rp_Inventory p) (rp_Active p) (rp_ActivePath p) \<and> path_of (rp_Inventory p) (rp_Target p) (rp_TargetPath p)"

text \<open>The type of a plan that the boot driver may use.\<close>

definition plan_wf :: "PROBE_CONFIG \<Rightarrow> RUNTIME_PLAN \<Rightarrow> bool" where
  "plan_wf c p \<longleftrightarrow> rp_Complete p \<and> rp_ValidationCompleted p \<and> rp_ValidationPassed p \<and> \<not> g_RequireReferenceSnapshotMatch c \<and>
     routed_plan c p \<and> rom_wf p \<and> storage_ok c (rp_Inventory p) (rp_StorageController p) \<and>
     rp_StorageControllerAddress p = g_TargetControllerPci c \<and>
     (\<exists>lo ex. rp_Config p = c\<lparr>g_LegacyOptionDescription := lo, g_ExcludeDescription := ex\<rparr>) \<and>
     bt_BbsCount (rp_BootTarget p) \<le> 0xFF \<and> bt_FirmwareBbsTable (rp_BootTarget p) \<le> 0xFFFFFFFF \<and>
     rp_UniqueBbsIndex p = bt_LiveBbsIndex (rp_BootTarget p) \<and> rp_UniqueBbsEntry p = bt_LiveBbsEntry (rp_BootTarget p)"

lemma video_records: "video_ok c i t a \<Longrightarrow> \<exists>ka kt. ep_InventoryRecord a = Some ka \<and> ep_InventoryRecord t = Some kt"
  by (auto simp: video_ok_def endpoint_at_def)

lemma routed_plan_rom: "same_but_rom p q \<Longrightarrow> routed_plan c q = routed_plan c p \<and> rp_Config q = rp_Config p"
  by (auto simp: same_but_rom_def routed_plan_def unmarked_plan_def paths_classified_def)

text \<open>The later steps do not touch what the earlier ones established.\<close>

lemma later_fields [simp]:
  "routed_plan c (p\<lparr>rp_StorageController := x0\<rparr>) = routed_plan c p" "rom_wf (p\<lparr>rp_StorageController := x0\<rparr>) = rom_wf p"
  "routed_plan c (p\<lparr>rp_Config := x1\<rparr>) = routed_plan c p" "rom_wf (p\<lparr>rp_Config := x1\<rparr>) = rom_wf p"
  "routed_plan c (p\<lparr>rp_StorageControllerAddress := x2\<rparr>) = routed_plan c p" "rom_wf (p\<lparr>rp_StorageControllerAddress := x2\<rparr>) = rom_wf p"
  "routed_plan c (p\<lparr>rp_BootTarget := x3\<rparr>) = routed_plan c p" "rom_wf (p\<lparr>rp_BootTarget := x3\<rparr>) = rom_wf p"
  "routed_plan c (p\<lparr>rp_UniqueBbsIndex := x4\<rparr>) = routed_plan c p" "rom_wf (p\<lparr>rp_UniqueBbsIndex := x4\<rparr>) = rom_wf p"
  "routed_plan c (p\<lparr>rp_UniqueBbsEntry := x5\<rparr>) = routed_plan c p" "rom_wf (p\<lparr>rp_UniqueBbsEntry := x5\<rparr>) = rom_wf p"
  "routed_plan c (p\<lparr>rp_InitialInt10Offset := x6\<rparr>) = routed_plan c p" "rom_wf (p\<lparr>rp_InitialInt10Offset := x6\<rparr>) = rom_wf p"
  "routed_plan c (p\<lparr>rp_InitialInt10Segment := x7\<rparr>) = routed_plan c p" "rom_wf (p\<lparr>rp_InitialInt10Segment := x7\<rparr>) = rom_wf p"
  "routed_plan c (p\<lparr>rp_Complete := x8\<rparr>) = routed_plan c p" "rom_wf (p\<lparr>rp_Complete := x8\<rparr>) = rom_wf p"
  "routed_plan c (p\<lparr>rp_ValidationCompleted := x9\<rparr>) = routed_plan c p" "rom_wf (p\<lparr>rp_ValidationCompleted := x9\<rparr>) = rom_wf p"
  "routed_plan c (p\<lparr>rp_ValidationPassed := x10\<rparr>) = routed_plan c p" "rom_wf (p\<lparr>rp_ValidationPassed := x10\<rparr>) = rom_wf p"
  by (simp_all add: routed_plan_def unmarked_plan_def paths_classified_def rom_wf_def)

lemma Build_wf: "wps (NativeCsmVgaRuntimePlanBuild ps c) (\<lambda>p t. plan_wf c p) w"
  unfolding NativeCsmVgaRuntimePlanBuild_def Let_def
proof (rule wps_if, rule wps_call, rule wps_return, simp, rule wps_call, rule wps_Step [OF CompatStep_ok], rule wps_Step [OF LocateBiosStep_ok],
    rule wps_Step [OF LocateRegionStep_ok], rule wps_Step [OF InventoryStep_ok], rule wps_Step [OF FindVideo_ok], goal_cases)
  case (1 r t1 p1 t2 p2 t3 p3 t4 p4 t5 p5 t6)
  then have p5: "unmarked_plan p5" "ct_Table (rp_Compatibility16 p5) \<noteq> None" "rp_Config p5 = c"
    "video_ok c (rp_Inventory p5) (rp_Target p5) (rp_Active p5)"
    by (auto simp: unmarked_plan_def zero_plan_def)
  then obtain ka kt where k: "ep_InventoryRecord (rp_Active p5) = Some ka" "ep_InventoryRecord (rp_Target p5) = Some kt"
    using video_records by blast
  show ?case
  proof (rule wps_Step [OF Paths_ok [OF k]], rule wps_Step [OF StatusOnly_ok], rule wps_Step [OF SelectRom_ok], rule wps_Step [OF FindStorage_ok],
      rule wps_Step [OF DiscoverStep_ok], rule wps_Step [OF RepresentableStep_ok], rule wps_Step [OF OwnedStep_ok], rule wps_Step [OF StatusOnly_ok],
      rule wps_mono [OF CompleteStep_ok], goal_cases)
    case (1 p6 u6 p7 u7 p8 u8 p9 u9 pa ua pb ub pc uc pd ud pe ue)
    then have p6: "routed_plan c p6 \<and> rp_Config p6 = c"
      using p5 by (auto simp: same_but_paths_def routed_plan_def unmarked_plan_def)
    then have p8: "routed_plan c p8" "rp_Config p8 = c" "rom_wf p8" using 1 routed_plan_rom by auto
    obtain e lo ex where p9: "p9 = p8\<lparr>rp_StorageController := e, rp_Config := c\<lparr>g_LegacyOptionDescription := lo, g_ExcludeDescription := ex\<rparr>,
        rp_StorageControllerAddress := g_TargetControllerPci c\<rparr>" and st: "storage_ok c (rp_Inventory p8) e" using 1 p8 by auto
    obtain bt where pa: "pa = p9\<lparr>rp_BootTarget := bt\<rparr>" using 1 by blast
    have pb: "pb = pa" and bt: "bt_BbsCount bt \<le> 0xFF" "bt_FirmwareBbsTable bt \<le> 0xFFFFFFFF" using 1 pa by auto
    note pc = \<open>pc = pb\<lparr>rp_UniqueBbsIndex := bt_LiveBbsIndex (rp_BootTarget pb), rp_UniqueBbsEntry := bt_LiveBbsEntry (rp_BootTarget pb)\<rparr>\<close>
    obtain o' g where pe: "pe = pc\<lparr>rp_InitialInt10Offset := o', rp_InitialInt10Segment := g, rp_Complete := True,
        rp_ValidationCompleted := True, rp_ValidationPassed := True\<rparr>" using 1 by blast
    have "\<not> g_RequireReferenceSnapshotMatch (rp_Config pc)" using 1 by simp
    then have nr: "\<not> g_RequireReferenceSnapshotMatch c" unfolding pc pb pa p9 by simp
    show ?case unfolding plan_wf_def pe pc pb pa p9 using p8 st bt nr by simp blast
  qed
qed

section \<open>A built plan agrees with configuration space\<close>

text \<open>Every PCI function has an interface of its own; this is what the firmware promises of the handles that the inventory lists.\<close>

definition inventory_laws :: "'w plan_services \<Rightarrow> bool" where
  "inventory_laws ps \<longleftrightarrow> (\<forall>w. wps (InventoryStep ps zero_plan) (\<lambda>p _. distinct (map pd_PciIo (devices (rp_Inventory p)))) w)"

lemma wps_conj: "wps m R w \<Longrightarrow> wps m Q w \<Longrightarrow> wps m (\<lambda>p t. R p t \<and> Q p t) w"
  unfolding wps_def by (drule (1) wp_conj, erule wp_mono) auto

lemma wps_StepK:
  assumes "wps m R w" and "keeps f m" and "\<And>p t. R p t \<Longrightarrow> f t = f w \<Longrightarrow> wps (k p) Q t"
  shows "wps (OnSuccessWith (Blocked ps label m) k) Q w"
proof (rule wps_Step)
  have "wps m (\<lambda>_ t. f t = f w) w" unfolding wps_def by (rule wp_keeps [OF assms(2)]) auto
  then show "wps m (\<lambda>p t. R p t \<and> f t = f w) w" by (rule wps_conj [OF assms(1)])
qed (use assms(3) in blast)

lemma InventoryStep_distinct:
  assumes "inventory_laws ps"
  shows "wps (InventoryStep ps p) (\<lambda>q t. \<exists>i. q = p\<lparr>rp_Inventory := i\<rparr> \<and> distinct (map pd_PciIo (devices i))) w"
proof -
  have "wps (InventoryStep ps zero_plan) (\<lambda>p _. distinct (map pd_PciIo (devices (rp_Inventory p)))) w" using assms by (simp add: inventory_laws_def)
  then show ?thesis unfolding wps_def InventoryStep_def wp_bind by (rule wp_mono) (auto split: prod.splits)
qed

lemma JournalEndpoint_ok:
  assumes laws: "pci_laws cfg (ps_Pci ps)" and q: "quiet_plan cfg ps"
  shows "wps (StatusOnly (JournalEndpoint (ps_Pci ps) p) p) (\<lambda>q t. q = p \<and> endpoint_value cfg w p = ep_OriginalCommand (rp_Target p)) w"
proof -
  have read: "wp (PciRead16 (ps_Pci ps) io off) (\<lambda>(status, v) w'. cfg w' = cfg w \<and> (\<not> EFI_ERROR status \<longrightarrow> v = cfg w io off)) w" for io off
    using laws by (simp add: pci_laws_def)
  have "wp (JournalEndpoint (ps_Pci ps) p) (\<lambda>status t. \<not> EFI_ERROR status \<longrightarrow> endpoint_value cfg w p = ep_OriginalCommand (rp_Target p)) w"
    unfolding JournalEndpoint_def Let_def
  proof (rule wp_optionI, rule wp_returnI, simp, rule wp_ifI, rule wp_returnI, simp, rule wp_bindI [OF read], rule wp_prodI, rule wp_ifI, rule wp_returnI, simp, goal_cases)
    case (1 io r t status v)
    then have "endpoint_value cfg w p = ep_OriginalCommand (rp_Target p)" by (simp add: endpoint_value_def)
    then show ?case by (intro wp_any) simp
  qed
  then show ?thesis unfolding wps_def StatusOnly_def wp_bind by (rule wp_mono) simp
qed

lemma keeps_StatusOnly: "keeps f m \<Longrightarrow> keeps f (StatusOnly m p)"
  unfolding StatusOnly_def by (intro keeps_rules)

definition route_fields :: "RUNTIME_PLAN \<Rightarrow> RUNTIME_PLAN \<Rightarrow> bool" where
  "route_fields p q \<longleftrightarrow> all_bridges q = all_bridges p \<and> rp_Target q = rp_Target p \<and> rp_EndpointWriteAttempted q = rp_EndpointWriteAttempted p \<and>
     rp_EndpointWriteApplied q = rp_EndpointWriteApplied p \<and> rp_RouteDirty q = rp_RouteDirty p"

lemma route_ready_same: "route_fields p q \<Longrightarrow> cfg t = cfg w \<Longrightarrow> route_ready cfg w p \<Longrightarrow> route_ready cfg t q"
  by (simp add: route_fields_def route_ready_def path_journaled_def endpoint_value_def br_value_def)

text \<open>Every step behind the journal of the target keeps the fields of the route.\<close>

lemma route_fields_steps:
  "same_but_rom p q \<Longrightarrow> route_fields p q" "route_fields p (p\<lparr>rp_StorageController := a, rp_Config := b, rp_StorageControllerAddress := c\<rparr>)"
  "route_fields p (p\<lparr>rp_BootTarget := d\<rparr>)" "route_fields p (p\<lparr>rp_UniqueBbsIndex := e, rp_UniqueBbsEntry := f\<rparr>)" "route_fields p p"
  "route_fields p (p\<lparr>rp_InitialInt10Offset := g, rp_InitialInt10Segment := h, rp_Complete := i, rp_ValidationCompleted := j, rp_ValidationPassed := k\<rparr>)"
  by (auto simp: route_fields_def same_but_rom_def all_bridges_def)

lemma Build_ready:
  assumes laws: "pci_laws cfg (ps_Pci ps)" and q: "quiet_plan cfg ps" and inv: "inventory_laws ps"
  shows "wps (NativeCsmVgaRuntimePlanBuild ps c) (\<lambda>p t. route_ready cfg t p) w"
  unfolding NativeCsmVgaRuntimePlanBuild_def Let_def
proof (rule wps_if, rule wps_call, rule wps_return, simp, rule wps_call, rule wps_Step [OF CompatStep_ok], rule wps_Step [OF LocateBiosStep_ok],
    rule wps_Step [OF LocateRegionStep_ok], rule wps_Step [OF InventoryStep_distinct [OF inv]], rule wps_Step [OF FindVideo_ok], goal_cases)
  case (1 r t1 p1 t2 p2 t3 p3 t4 p4 t5 p t)
  let ?i = "rp_Inventory p"
  have p: "unmarked_plan p" "video_ok c ?i (rp_Target p) (rp_Active p)" "distinct (map pd_PciIo (devices ?i))"
    using 1 by (auto simp: unmarked_plan_def zero_plan_def)
  then obtain ka kt where k: "ep_InventoryRecord (rp_Active p) = Some ka" "ep_InventoryRecord (rp_Target p) = Some kt"
    using video_records by blast
  have path: "wp (JournaledPath ps ?i e) (\<lambda>r u'. cfg u' = cfg t \<and> (\<forall>bs. r = Inr bs \<longrightarrow> journal_of cfg t (raw_path ?i e) bs) \<and> (\<forall>x. r = Inl x \<longrightarrow> EFI_ERROR x)) u"
    if e: "ep_InventoryRecord e = Some k'" and u: "cfg u = cfg t" for e k' u
  proof (rule wp_mono [OF wp_conj [OF JournaledPath_journal [OF laws quiet_planD(12) [OF q] e] JournaledPath_static [OF e]]])
    fix r u'
    assume a: "(cfg u' = cfg u \<and> (\<forall>bs. r = Inr bs \<longrightarrow> journal_of cfg u (raw_path ?i e) bs)) \<and>
      (\<forall>bs. r = Inr bs \<longrightarrow> path_of ?i e bs) \<and> (\<forall>x. r = Inl x \<longrightarrow> EFI_ERROR x)"
    have "journal_of cfg u R bs = journal_of cfg t R bs" for R bs using u by (simp add: journal_of_def br_value_def)
    then show "cfg u' = cfg t \<and> (\<forall>bs. r = Inr bs \<longrightarrow> journal_of cfg t (raw_path ?i e) bs) \<and> (\<forall>x. r = Inl x \<longrightarrow> EFI_ERROR x)" using a u by simp
  qed
  show ?case
  proof (rule wps_Step [OF Paths_rule [OF path [OF k(1)] path [OF k(2)] quiet_planD(10) [OF q]]], assumption, assumption, rule refl,
      rule wps_StepK [OF JournalEndpoint_ok [OF laws q] keeps_StatusOnly [OF keeps_steps(6) [OF q]]], goal_cases)
    case (1 p6 u6 p7 u7)
    then have "same_but_paths p p6" by simp
    then have p6: "unmarked_plan p6" "rp_Target p6 = rp_Target p" using p by (auto simp: same_but_paths_def unmarked_plan_def)
    have "path_journaled cfg t (all_bridges p6)"
      by (rule classified_distinct [OF _ p(3), where A = "raw_path ?i (rp_Active p)" and T = "raw_path ?i (rp_Target p)"])
        (use 1 raw_path_set p(3) in blast)+
    moreover have "endpoint_value cfg t p6 = ep_OriginalCommand (rp_Target p6)" using 1 by (simp add: endpoint_value_def)
    ultimately have "route_ready cfg t p6" using p6 by (simp add: route_ready_def unmarked_plan_def)
    moreover have c: "cfg u7 = cfg t" and p7: "p7 = p6" using 1 by simp_all
    ultimately have r7: "route_ready cfg u7 p7" by (auto intro: route_ready_same [OF route_fields_steps(5)])
    show ?case
    proof (rule wps_StepK [OF SelectRom_ok keeps_steps(7) [OF q]], rule wps_StepK [OF FindStorage_ok keeps_return [where tab = cfg]], rule wps_StepK [OF DiscoverStep_ok keeps_DiscoverStep [OF q]],
        rule wps_StepK [OF RepresentableStep_ok keeps_return [where tab = cfg]], rule wps_StepK [OF OwnedStep_ok keeps_steps(8) [OF q]],
        rule wps_StepK [OF StatusOnly_ok keeps_StatusOnly [OF keeps_steps(9) [OF q]]], goal_cases)
      case (1 p8 u8 p9 u9 pa ua pb ub pc uc pd ud)
      have r8: "route_ready cfg u8 p8" by (rule route_ready_same [OF route_fields_steps(1) _ r7]) (use 1 in blast)+
      have f9: "route_fields p8 p9" using 1 route_fields_steps(2) by blast
      have r9: "route_ready cfg u9 p9" by (rule route_ready_same [OF f9 _ r8]) (use 1 in simp)
      have fa: "route_fields p9 pa" using 1 route_fields_steps(3) by blast
      have ra: "route_ready cfg ub pb" by (rule route_ready_same [OF _ _ r9]) (use 1 fa in simp_all)
      have fc: "route_fields pb pc" using 1 route_fields_steps(4) by blast
      have rc: "route_ready cfg ud pd" by (rule route_ready_same [OF _ _ ra]) (use 1 fc in simp_all)
      have "wps (CompleteStep ps pd) (\<lambda>_ x. cfg x = cfg ud) ud"
        unfolding wps_def by (rule wp_keeps [OF keeps_steps(10) [OF q]]) auto
      then show ?case
        by (rule wps_mono [OF wps_conj [OF CompleteStep_ok]]) (auto intro: route_ready_same [OF route_fields_steps(6) _ rc])
    qed
  qed
qed

lemma plan_wf_dispatch:
  assumes wf: "plan_wf c p"
  defines "t \<equiv> LegacyDispatchPrepare p"
  shows "unat (do_PciBus t) = unat (Bus (g_TargetPci c)) \<and>
    unat (do_PciDeviceFunction t) = 8 * unat (Device (g_TargetPci c)) + unat (Function (g_TargetPci c)) \<and>
    unat (do_NumberBbsEntries t) = bt_BbsCount (rp_BootTarget p) \<and> unat (do_BbsTablePointer t) = bt_FirmwareBbsTable (rp_BootTarget p)"
proof -
  have "video_ok c (rp_Inventory p) (rp_Target p) (rp_Active p)" using wf by (simp add: plan_wf_def routed_plan_def)
  then obtain k where e: "endpoint_at (rp_Inventory p) k (rp_Target p)" and "AddressEqualRecord (devices (rp_Inventory p) ! k) (g_TargetPci c)"
    unfolding video_ok_def endpoint_at_def by blast
  then have "unat (ep_Bus (rp_Target p)) = unat (Bus (g_TargetPci c))" "unat (ep_Device (rp_Target p)) = unat (Device (g_TargetPci c))"
    "unat (ep_Function (rp_Target p)) = unat (Function (g_TargetPci c))"
    by (simp_all add: endpoint_at_def AddressEqualRecord_def)
  moreover have "unat (ep_Device (rp_Target p)) \<le> 31" "unat (ep_Function (rp_Target p)) \<le> 7" using e by (simp_all add: endpoint_at_def)
  moreover have "bt_BbsCount (rp_BootTarget p) \<le> 0xFF" "bt_FirmwareBbsTable (rp_BootTarget p) \<le> 0xFFFFFFFF" using wf by (simp_all add: plan_wf_def)
  moreover have "unat (do_PciDeviceFunction t) = 8 * unat (ep_Device (rp_Target p)) + unat (ep_Function (rp_Target p))"
    using calculation by (simp add: t_def LegacyDispatchPrepare_def devfn_split)
  ultimately show ?thesis using dispatch_table_designates [of p] by (simp add: t_def)
qed

text \<open>
  C9. A plan that the builder completes is well formed: its endpoints are the only records that answer to the configuration, the bridge
  paths are their ancestries, divided into a shared prefix and disjoint exclusive parts of at most 16 bridges, the selected ROM is the
  slice of the exposed one at the offset and of the size that the parser reported for its single image of the target, and nothing is marked as written. The dispatch table made from it designates the target's
  address and the whole BBS table, although its fields are narrower than those of the plan.
\<close>

theorem RuntimePlanBuild_wf:
  "wp (NativeCsmVgaRuntimePlanBuild ps c) (\<lambda>(status, p) _. EFI_ERROR status \<or>
     plan_wf c p \<and>
     (let t = LegacyDispatchPrepare p in
        unat (do_PciBus t) = unat (Bus (g_TargetPci c)) \<and>
        unat (do_PciDeviceFunction t) = 8 * unat (Device (g_TargetPci c)) + unat (Function (g_TargetPci c)) \<and>
        unat (do_NumberBbsEntries t) = bt_BbsCount (rp_BootTarget p) \<and> unat (do_BbsTablePointer t) = bt_FirmwareBbsTable (rp_BootTarget p))) w"
proof -
  have "wp (NativeCsmVgaRuntimePlanBuild ps c) (\<lambda>(status, p) _. \<not> EFI_ERROR status \<longrightarrow> plan_wf c p) w" using Build_wf by (simp add: wps_def)
  then show ?thesis by (rule wp_mono) (use plan_wf_dispatch in \<open>auto simp: Let_def\<close>)
qed

end
