(* ===== verification/Boot_Countdown.thy ===== *)
theory Boot_Countdown
  imports Console_Input Bbs_Restore Candidate_Text
begin

text \<open>
  \<open>BootCountdown.c\<close>: the two waits of five seconds and the module state that says which request of the user may still be
  granted. The static variables are a record; the name of the display is only printed and left out, as are the other lines on the
  console.
\<close>

section \<open>State\<close>

datatype countdown_action = NoAction | EditAction | CancelAction

record countdown_state =
  cd_Prepared :: bool
  cd_ContinueSelected :: bool
  cd_CleanReturn :: bool
  cd_Action :: countdown_action

text \<open>The log and the report that closes it; \<open>cd_FinishReport\<close> returns the status and \<open>Closed\<close>.\<close>

record 'w countdown_services =
  cd_Console :: "'w console_services"
  cd_LogPrint :: "string \<Rightarrow> ('w, EFI_STATUS) state"
  cd_LogFileBarrier :: "('w, EFI_STATUS) state"
  cd_FinishReport :: "EFI_STATUS \<Rightarrow> ('w, EFI_STATUS \<times> bool) state"

section \<open>The setup window\<close>

text \<open>The result of a tick that ends the wait is the status and \<open>*EditRequested\<close>.\<close>

definition SetupKey :: "EFI_STATUS \<Rightarrow> EFI_INPUT_KEY \<Rightarrow> (EFI_STATUS \<times> bool) option" where
  "SetupKey status key =
     (if status = EFI_SUCCESS \<and> ScanCode key = SCAN_F2 then Some (EFI_SUCCESS, True)
      else if status = EFI_SUCCESS \<and> ScanCode key = SCAN_ESC then Some (EFI_ABORTED, False)
      else if EFI_ERROR status \<and> status \<noteq> EFI_NOT_READY then Some (status, False) else None)"

fun SetupTicks :: "nat \<Rightarrow> 'w console_services \<Rightarrow> ('w, (EFI_STATUS \<times> bool) option) state" where
  "SetupTicks 0 cs = State_Monad.return None"
| "SetupTicks (Suc n) cs = do {
     readable \<leftarrow> KeyReadable cs;
     (status, key) \<leftarrow> (if readable then ReadKeyStroke cs else State_Monad.return (EFI_NOT_READY, no_key));
     case SetupKey status key of
       Some r \<Rightarrow> State_Monad.return (Some r)
     | None \<Rightarrow> do {
         status \<leftarrow> Stall cs 50000;
         if EFI_ERROR status then State_Monad.return (Some (status, False)) else SetupTicks n cs
       }
   }"

fun SetupSeconds :: "nat \<Rightarrow> 'w console_services \<Rightarrow> ('w, (EFI_STATUS \<times> bool) option) state" where
  "SetupSeconds 0 cs = State_Monad.return None"
| "SetupSeconds (Suc n) cs = do {
     r \<leftarrow> SetupTicks 20 cs;
     case r of Some x \<Rightarrow> State_Monad.return (Some x) | None \<Rightarrow> SetupSeconds n cs
   }"

definition BootSetupWindow :: "'w console_services \<Rightarrow> ('w, EFI_STATUS \<times> bool) state" where
  "BootSetupWindow cs = do {
     r \<leftarrow> SetupSeconds 5 cs;
     State_Monad.return (case r of Some x \<Rightarrow> x | None \<Rightarrow> (EFI_SUCCESS, False))
   }"

section \<open>The countdown before the switch\<close>

text \<open>The display's address is an option; its name is not modelled.\<close>

definition BootCountdownPrepare :: "NCV_PCI_ADDRESS option \<Rightarrow> countdown_state \<Rightarrow> countdown_state" where
  "BootCountdownPrepare target s = \<lparr>cd_Prepared = (target \<noteq> None), cd_ContinueSelected = False, cd_CleanReturn = False, cd_Action = NoAction\<rparr>"

text \<open>A tick that ends the wait: the status, the action and the first word of the log line.\<close>

definition CountdownKey :: "EFI_STATUS \<Rightarrow> EFI_INPUT_KEY \<Rightarrow> (EFI_STATUS \<times> countdown_action \<times> string) option" where
  "CountdownKey status key =
     (if status = EFI_SUCCESS \<and> (ScanCode key = SCAN_F2 \<or> ScanCode key = SCAN_ESC)
      then (if ScanCode key = SCAN_F2 then Some (EFI_ABORTED, EditAction, ''NCV_BOOT_INPUT_EDIT_REQUESTED'')
            else Some (EFI_ABORTED, CancelAction, ''NCV_BOOT_INPUT_CANCELLED''))
      else if EFI_ERROR status \<and> status \<noteq> EFI_NOT_READY then Some (status, NoAction, ''NCV_BOOT_FAIL_COUNTDOWN_INPUT'') else None)"

fun CountdownTicks :: "nat \<Rightarrow> 'w countdown_services \<Rightarrow> ('w, (EFI_STATUS \<times> countdown_action) option) state" where
  "CountdownTicks 0 cs = State_Monad.return None"
| "CountdownTicks (Suc n) cs = do {
     readable \<leftarrow> KeyReadable (cd_Console cs);
     (status, key) \<leftarrow> (if readable then ReadKeyStroke (cd_Console cs) else State_Monad.return (EFI_NOT_READY, no_key));
     case CountdownKey status key of
       Some (result, action, label) \<Rightarrow> do { _ \<leftarrow> cd_LogPrint cs label; State_Monad.return (Some (result, action)) }
     | None \<Rightarrow> do {
         status \<leftarrow> Stall (cd_Console cs) 50000;
         if EFI_ERROR status then do {
           _ \<leftarrow> cd_LogPrint cs ''NCV_BOOT_FAIL_COUNTDOWN_TIMER'';
           State_Monad.return (Some (status, NoAction))
         } else CountdownTicks n cs
       }
   }"

fun CountdownSeconds :: "nat \<Rightarrow> 'w countdown_services \<Rightarrow> ('w, (EFI_STATUS \<times> countdown_action) option) state" where
  "CountdownSeconds 0 cs = State_Monad.return None"
| "CountdownSeconds (Suc n) cs = do {
     r \<leftarrow> CountdownTicks 20 cs;
     case r of Some x \<Rightarrow> State_Monad.return (Some x) | None \<Rightarrow> CountdownSeconds n cs
   }"

text \<open>A line of the log that must reach the file.\<close>

definition DurableLine :: "'w countdown_services \<Rightarrow> string \<Rightarrow> ('w, EFI_STATUS) state" where
  "DurableLine cs label = do {
     status \<leftarrow> cd_LogPrint cs label;
     if EFI_ERROR status then State_Monad.return status else cd_LogFileBarrier cs
   }"

definition BootCountdownWait :: "'w countdown_services \<Rightarrow> countdown_state \<Rightarrow> ('w, EFI_STATUS \<times> countdown_state) state" where
  "BootCountdownWait cs s =
     (if \<not> cd_Prepared s \<or> cd_ContinueSelected s \<or> cd_Action s \<noteq> NoAction then State_Monad.return (EFI_NOT_READY, s)
      else do {
        status \<leftarrow> DurableLine cs ''NCV_BOOT_INPUT_COUNTDOWN_BEGIN'';
        if EFI_ERROR status then State_Monad.return (status, s)
        else do {
          r \<leftarrow> CountdownSeconds 5 cs;
          case r of Some (status, action) \<Rightarrow> State_Monad.return (status, s\<lparr>cd_Action := action\<rparr>)
          | None \<Rightarrow> do {
              status \<leftarrow> DurableLine cs ''NCV_BOOT_INPUT_COUNTDOWN_COMPLETE'';
              State_Monad.return (status, s\<lparr>cd_ContinueSelected := True\<rparr>)
            }
        }
      })"

definition BootCountdownFinish :: "'w countdown_services \<Rightarrow> EFI_STATUS \<Rightarrow> EFI_STATUS \<Rightarrow> countdown_state \<Rightarrow> ('w, EFI_STATUS \<times> countdown_state) state" where
  "BootCountdownFinish cs status planCleanupStatus s = do {
     let userAction = (\<not> cd_ContinueSelected s \<and> cd_Action s \<noteq> NoAction \<and> status = EFI_ABORTED);
     (result, closed) \<leftarrow> cd_FinishReport cs (if EFI_ERROR planCleanupStatus then planCleanupStatus else if userAction then EFI_SUCCESS else status);
     let s = s\<lparr>cd_CleanReturn := cd_Prepared s \<and> \<not> cd_ContinueSelected s \<and> \<not> EFI_ERROR planCleanupStatus \<and> closed\<rparr>;
     State_Monad.return (if userAction \<and> \<not> EFI_ERROR result \<and> cd_CleanReturn s then (EFI_ABORTED, s) else (result, s\<lparr>cd_Action := NoAction\<rparr>))
   }"

definition BootCountdownCanEdit :: "countdown_state \<Rightarrow> bool" where
  "BootCountdownCanEdit s = cd_CleanReturn s"

definition BootCountdownRequestEdit :: "countdown_state \<Rightarrow> bool \<times> countdown_state" where
  "BootCountdownRequestEdit s = (if \<not> cd_CleanReturn s then (False, s) else (True, s\<lparr>cd_Action := EditAction\<rparr>))"

definition BootCountdownTakeEdit :: "EFI_STATUS \<Rightarrow> EFI_STATUS \<Rightarrow> countdown_state \<Rightarrow> bool \<times> countdown_state" where
  "BootCountdownTakeEdit status markerStatus s =
     (cd_CleanReturn s \<and> cd_Action s = EditAction \<and> EFI_ERROR status \<and> \<not> EFI_ERROR markerStatus, s\<lparr>cd_Action := NoAction\<rparr>)"

definition BootCountdownTakeCancel :: "EFI_STATUS \<Rightarrow> EFI_STATUS \<Rightarrow> countdown_state \<Rightarrow> bool \<times> countdown_state" where
  "BootCountdownTakeCancel status markerStatus s =
     (let s = (if EFI_ERROR markerStatus then s\<lparr>cd_CleanReturn := False\<rparr> else s)
      in (cd_CleanReturn s \<and> cd_Action s = CancelAction \<and> status = EFI_ABORTED \<and> \<not> EFI_ERROR markerStatus,
          if cd_Action s = CancelAction then s\<lparr>cd_Action := NoAction\<rparr> else s))"

section \<open>Time\<close>

text \<open>
  \<open>clock\<close> is the time of a world in microseconds: no service sets it back, and a stall of \<open>n\<close> that succeeds has taken at least \<open>n\<close>, as UEFI
  documents. How much longer it takes is not bounded, so the length of the wait is measured by \<open>requested\<close>, the sum of the delays asked
  for, in a world that records them.
\<close>

definition passes :: "('w \<Rightarrow> nat) \<Rightarrow> ('w \<Rightarrow> nat) \<Rightarrow> ('w, 'a) state \<Rightarrow> bool" where
  "passes clock requested m \<longleftrightarrow> (\<forall>w. wp m (\<lambda>_ t. clock w \<le> clock t \<and> requested t = requested w) w)"

definition clock_laws :: "('w \<Rightarrow> nat) \<Rightarrow> ('w \<Rightarrow> nat) \<Rightarrow> 'w countdown_services \<Rightarrow> bool" where
  "clock_laws clock requested cs \<longleftrightarrow>
     passes clock requested (KeyReadable (cd_Console cs)) \<and> passes clock requested (ReadKeyStroke (cd_Console cs)) \<and>
     (\<forall>s. passes clock requested (cd_LogPrint cs s)) \<and> passes clock requested (cd_LogFileBarrier cs) \<and>
     (\<forall>n w. wp (Stall (cd_Console cs) n) (\<lambda>status t. clock w \<le> clock t \<and> requested t = requested w + n \<and>
        (\<not> EFI_ERROR status \<longrightarrow> clock w + n \<le> clock t)) w)"

text \<open>Nobody touches the keyboard and nothing fails.\<close>

definition idle :: "'w countdown_services \<Rightarrow> bool" where
  "idle cs \<longleftrightarrow> (\<forall>w. wp (ReadKeyStroke (cd_Console cs)) (\<lambda>(status, key) _. CountdownKey status key = None) w) \<and>
     (\<forall>n w. wp (Stall (cd_Console cs) n) (\<lambda>status _. \<not> EFI_ERROR status) w) \<and>
     (\<forall>s w. wp (cd_LogPrint cs s) (\<lambda>status _. \<not> EFI_ERROR status) w) \<and> (\<forall>w. wp (cd_LogFileBarrier cs) (\<lambda>status _. status = EFI_SUCCESS) w)"

lemma wp_when: "(b \<Longrightarrow> wp m Q w) \<Longrightarrow> wp m (\<lambda>r t. b \<longrightarrow> Q r t) w"
  by (cases b) simp_all

lemma passes_wp: "passes clock requested m \<Longrightarrow> wp m (\<lambda>_ t. clock w \<le> clock t \<and> requested t = requested w) w"
  by (simp add: passes_def)

text \<open>A wait of \<open>n\<close> microseconds that may end early with a result.\<close>

definition waited :: "('w \<Rightarrow> nat) \<Rightarrow> ('w \<Rightarrow> nat) \<Rightarrow> bool \<Rightarrow> nat \<Rightarrow> 'w \<Rightarrow> 'a option \<Rightarrow> 'w \<Rightarrow> bool" where
  "waited clock requested undisturbed n w r t \<longleftrightarrow> clock w \<le> clock t \<and> requested t \<le> requested w + n \<and>
     (r = None \<longrightarrow> clock w + n \<le> clock t \<and> requested t = requested w + n) \<and> (undisturbed \<longrightarrow> r = None)"

lemma waited_later:
  "waited clock requested b n v r t \<Longrightarrow> clock w + m \<le> clock v \<Longrightarrow> requested v = requested w + m \<Longrightarrow> waited clock requested b (m + n) w r t"
  by (auto simp: waited_def)

lemma CountdownTicks_time:
  assumes laws: "clock_laws clock requested cs"
  shows "wp (CountdownTicks n cs) (waited clock requested (idle cs) (50000 * n) w) w"
proof (induction n arbitrary: w)
  case 0
  show ?case by (simp add: waited_def)
next
  case (Suc n)
  have k: "passes clock requested (KeyReadable (cd_Console cs))" "passes clock requested (ReadKeyStroke (cd_Console cs))" "passes clock requested (cd_LogPrint cs s)" for s
    using laws by (simp_all add: clock_laws_def)
  have stall: "wp (Stall (cd_Console cs) m) (\<lambda>status t. (clock w \<le> clock t \<and> requested t = requested w + m \<and> (\<not> EFI_ERROR status \<longrightarrow> clock w + m \<le> clock t)) \<and>
      (idle cs \<longrightarrow> \<not> EFI_ERROR status)) w" for m w
    by (rule wp_conj, use laws in \<open>simp add: clock_laws_def\<close>, rule wp_when, simp add: idle_def)
  have read: "wp (if b then ReadKeyStroke (cd_Console cs) else State_Monad.return (EFI_NOT_READY, no_key))
      (\<lambda>r t. (clock w \<le> clock t \<and> requested t = requested w) \<and> (idle cs \<longrightarrow> (case r of (status, key) \<Rightarrow> CountdownKey status key = None))) w" for b w
  proof (rule wp_ifI)
    show "wp (ReadKeyStroke (cd_Console cs))
      (\<lambda>r t. (clock w \<le> clock t \<and> requested t = requested w) \<and> (idle cs \<longrightarrow> (case r of (status, key) \<Rightarrow> CountdownKey status key = None))) w"
      by (rule wp_conj [OF passes_wp [OF k(2)]], rule wp_when, unfold idle_def, elim conjE, erule allE, erule wp_mono, simp add: case_prod_beta)
  qed (simp add: CountdownKey_def)
  show ?case unfolding CountdownTicks.simps
  proof (rule wp_bindI [OF passes_wp [OF k(1)]], rule wp_bindI [OF read], rule wp_prodI, rule wp_optionI, goal_cases)
    case (1 b t r t2 status key)
    show ?case
    proof (rule wp_bindI [OF stall], rule wp_ifI, rule wp_bindI [OF passes_wp [OF k(3)]], rule wp_returnI, goal_cases)
      case (2 status' t3)
      have "clock w + 50000 \<le> clock t3" "requested t3 = requested w + 50000" using 1 2 by auto
      then show ?case by (intro wp_mono [OF Suc.IH]) (auto dest: waited_later)
    qed (use 1 in \<open>auto simp: waited_def\<close>)
  next
    case (2 b t r t2 status key v)
    show ?case by (rule wp_prodI, rule wp_prodI, rule wp_bindI [OF passes_wp [OF k(3)]], rule wp_returnI) (use 2 in \<open>auto simp: waited_def\<close>)
  qed
qed

lemma CountdownSeconds_time:
  assumes laws: "clock_laws clock requested cs"
  shows "wp (CountdownSeconds n cs) (waited clock requested (idle cs) (1000000 * n) w) w"
proof (induction n arbitrary: w)
  case 0
  show ?case by (simp add: waited_def)
next
  case (Suc n)
  show ?case unfolding CountdownSeconds.simps
  proof (rule wp_bindI [OF CountdownTicks_time [OF laws]], rule wp_optionI, goal_cases)
    case (1 r t)
    then have "clock w + 1000000 \<le> clock t" "requested t = requested w + 1000000" by (auto simp: waited_def)
    then show ?case by (intro wp_mono [OF Suc.IH]) (auto dest: waited_later)
  next
    case (2 r t v)
    show ?case by (rule wp_returnI) (use 2 in \<open>auto simp: waited_def\<close>)
  qed
qed

lemma DurableLine_keeps:
  assumes "clock_laws clock requested cs"
  shows "wp (DurableLine cs label) (\<lambda>status t. (clock w \<le> clock t \<and> requested t = requested w) \<and> (idle cs \<longrightarrow> status = EFI_SUCCESS)) w"
proof -
  have k: "passes clock requested (cd_LogPrint cs label)" "passes clock requested (cd_LogFileBarrier cs)" using assms by (simp_all add: clock_laws_def)
  have l: "wp (cd_LogPrint cs label) (\<lambda>status t. (clock w \<le> clock t \<and> requested t = requested w) \<and> (idle cs \<longrightarrow> \<not> EFI_ERROR status)) w" for w
    by (rule wp_conj [OF passes_wp [OF k(1)]], rule wp_when, simp add: idle_def)
  have b: "wp (cd_LogFileBarrier cs) (\<lambda>status t. (clock w \<le> clock t \<and> requested t = requested w) \<and> (idle cs \<longrightarrow> status = EFI_SUCCESS)) w" for w
    by (rule wp_conj [OF passes_wp [OF k(2)]], rule wp_when, simp add: idle_def)
  show ?thesis unfolding DurableLine_def
  proof (rule wp_bindI [OF l], rule wp_ifI, rule wp_returnI, simp, goal_cases)
    case (1 r t)
    show ?case by (rule wp_mono [OF b]) (use 1 in auto)
  qed
qed

text \<open>
  C16. The wait before the switch is neither cut short nor endless. Whatever the keyboard and the log do, \<open>BootCountdownWait\<close> asks for delays
  of at most five seconds in all, and it lets the attempt proceed to the hardware only after delays of five seconds have been served, so that
  at least five seconds have passed on the clock; when nobody presses a key and no call fails, a prepared countdown does proceed.
\<close>

theorem BootCountdownWait_proceeds:
  assumes "clock_laws clock requested cs"
  shows "wp (BootCountdownWait cs s) (\<lambda>(status, s') t. requested t \<le> requested w + 5000000 \<and>
     (cd_ContinueSelected s' \<and> \<not> cd_ContinueSelected s \<longrightarrow> clock w + 5000000 \<le> clock t \<and> requested t = requested w + 5000000) \<and>
     (idle cs \<and> cd_Prepared s \<and> \<not> cd_ContinueSelected s \<and> cd_Action s = NoAction \<longrightarrow>
        status = EFI_SUCCESS \<and> cd_ContinueSelected s')) w"
proof -
  have begun: "wp (CountdownSeconds 5 cs) (waited clock requested (idle cs) 5000000 w) w" for w
    using CountdownSeconds_time [OF assms, of 5 w] by simp
  show ?thesis unfolding BootCountdownWait_def
  proof (rule wp_ifI, rule wp_returnI, force, rule wp_bindI [OF DurableLine_keeps [OF assms]], rule wp_ifI, rule wp_returnI, force, goal_cases)
    case (1 r t)
    show ?case
    proof (rule wp_bindI [OF begun], rule wp_optionI, rule wp_bindI [OF DurableLine_keeps [OF assms]], rule wp_returnI, goal_cases)
      case (1 q t2 status t3)
      then show ?case using \<open>(clock w \<le> clock t \<and> _) \<and> _\<close> by (auto simp: waited_def)
    next
      case (2 q t2 v)
      show ?case by (rule wp_prodI, rule wp_returnI) (use 2 1 in \<open>auto simp: waited_def\<close>)
    qed
  qed
qed

section \<open>Requests of the user\<close>

text \<open>The order in which \<open>UefiMain\<close> and \<open>NativeCsmVgaBootRun\<close> use the module: prepare, wait at most once, finish, then the questions.\<close>

datatype countdown_phase = Preparing | Waited | Finished

inductive attempt :: "'w countdown_services \<Rightarrow> countdown_phase \<Rightarrow> countdown_state \<Rightarrow> bool" for cs where
  prepare: "attempt cs Preparing (BootCountdownPrepare target s)"
| wait: "attempt cs Preparing s \<Longrightarrow> run_state (BootCountdownWait cs s) w = ((status, s'), w') \<Longrightarrow> attempt cs Waited s'"
| finish: "attempt cs phase s \<Longrightarrow> phase \<noteq> Finished \<Longrightarrow> run_state (BootCountdownFinish cs status cleanup s) w = ((result, s'), w') \<Longrightarrow> attempt cs Finished s'"
| request: "attempt cs Finished s \<Longrightarrow> attempt cs Finished (snd (BootCountdownRequestEdit s))"
| take_edit: "attempt cs Finished s \<Longrightarrow> attempt cs Finished (snd (BootCountdownTakeEdit status marker s))"
| take_cancel: "attempt cs Finished s \<Longrightarrow> attempt cs Finished (snd (BootCountdownTakeCancel status marker s))"

lemma BootCountdownWait_state:
  "wp (BootCountdownWait cs s) (\<lambda>(status, s') _. cd_CleanReturn s' = cd_CleanReturn s \<and> (cd_ContinueSelected s' \<longrightarrow> s' = s\<lparr>cd_ContinueSelected := True\<rparr>)) w"
proof (cases "\<not> cd_Prepared s \<or> cd_ContinueSelected s \<or> cd_Action s \<noteq> NoAction")
  case False
  show ?thesis unfolding BootCountdownWait_def if_not_P [OF False]
    by (rule wp_callI, rule wp_ifI, rule wp_returnI, simp, rule wp_callI, rule wp_optionI, rule wp_callI, rule wp_returnI, simp, rule wp_prodI, rule wp_returnI)
      (use False in simp)
qed (auto simp: BootCountdownWait_def)

text \<open>What every moment of an attempt satisfies; the wait starts without an action and without a permission to return.\<close>

definition countdown_inv :: "countdown_phase \<Rightarrow> countdown_state \<Rightarrow> bool" where
  "countdown_inv phase s \<longleftrightarrow> (cd_ContinueSelected s \<longrightarrow> \<not> cd_CleanReturn s) \<and> (phase \<noteq> Finished \<longrightarrow> \<not> cd_CleanReturn s) \<and>
     (phase = Preparing \<longrightarrow> cd_Action s = NoAction) \<and> (cd_CleanReturn s \<longrightarrow> cd_Prepared s)"

lemma attempt_inv: "attempt cs phase s \<Longrightarrow> countdown_inv phase s"
proof (induction rule: attempt.induct)
  case (wait s w status s' w')
  then show ?case using wp_run [OF BootCountdownWait_state wait(2)] by (auto simp: countdown_inv_def)
next
  case (finish phase s status cleanup w result s' w')
  then show ?case by (auto simp: countdown_inv_def BootCountdownFinish_def Let_def split: prod.splits if_splits)
next
  case (take_cancel s status marker)
  then show ?case by (auto simp: countdown_inv_def BootCountdownTakeCancel_def Let_def)
qed (auto simp: countdown_inv_def BootCountdownPrepare_def BootCountdownRequestEdit_def BootCountdownTakeEdit_def)

lemma TakeEdit_once: "\<not> fst (BootCountdownTakeEdit st m (snd (BootCountdownTakeEdit st' m' s)))"
  by (simp add: BootCountdownTakeEdit_def)

text \<open>
  C19. Once the countdown has let the attempt proceed to the hardware, no request of the user is granted until the module is prepared
  again: at every later moment of the attempt editing is closed, an edit cannot be requested or taken, and a cancellation is
  not honoured.
\<close>

theorem Countdown_committed:
  assumes "attempt cs phase s" and "cd_ContinueSelected s"
  shows "\<not> BootCountdownCanEdit s \<and> \<not> fst (BootCountdownRequestEdit s) \<and> \<not> fst (BootCountdownTakeEdit status marker s) \<and>
    \<not> fst (BootCountdownTakeCancel status marker s)"
  using attempt_inv [OF assms(1)] assms(2)
  by (simp add: countdown_inv_def BootCountdownCanEdit_def BootCountdownRequestEdit_def BootCountdownTakeEdit_def BootCountdownTakeCancel_def Let_def)

section \<open>A clock\<close>

text \<open>
  A world that counts its time and the delays asked of it, with a keyboard that nobody touches and a timer that is slow: every stall takes
  ten microseconds longer than it was asked to.
\<close>

definition still_console :: "(nat \<times> nat) console_services" where
  "still_console = \<lparr>KeyWaitable = State_Monad.return True, KeyReadable = State_Monad.return True, WaitForKey = State_Monad.return EFI_SUCCESS,
     ReadKeyStroke = State_Monad.return (EFI_NOT_READY, no_key), Stall = (\<lambda>n. State (\<lambda>(c, q). (EFI_SUCCESS, (c + n + 10, q + n))))\<rparr>"

definition still_services :: "(nat \<times> nat) countdown_services" where
  "still_services = \<lparr>cd_Console = still_console, cd_LogPrint = (\<lambda>_. State_Monad.return EFI_SUCCESS),
     cd_LogFileBarrier = State_Monad.return EFI_SUCCESS, cd_FinishReport = (\<lambda>status. State_Monad.return (status, True))\<rparr>"

lemma still_laws: "clock_laws fst snd still_services" and still_idle: "idle still_services"
  by (auto simp: clock_laws_def passes_def idle_def still_services_def still_console_def CountdownKey_def wp_def)

definition ready_countdown :: countdown_state where
  "ready_countdown = BootCountdownPrepare (Some (PciAddress 0 1 0 0)) \<lparr>cd_Prepared = False, cd_ContinueSelected = True, cd_CleanReturn = True, cd_Action = EditAction\<rparr>"

lemma ready_to_wait: "cd_Prepared ready_countdown \<and> \<not> cd_ContinueSelected ready_countdown \<and> cd_Action ready_countdown = NoAction"
  by (simp add: ready_countdown_def BootCountdownPrepare_def)

theorem BootCountdownWait_proceeds_witness:
  "\<exists>s' t. run_state (BootCountdownWait still_services ready_countdown) (7, 0) = ((EFI_SUCCESS, s'), t) \<and> cd_ContinueSelected s' \<and>
     5000007 \<le> fst t \<and> snd t = 5000000"
proof -
  obtain status s' t where r: "run_state (BootCountdownWait still_services ready_countdown) (7, 0) = ((status, s'), t)" by (metis prod.exhaust)
  show ?thesis
    using wp_run [OF BootCountdownWait_proceeds [OF still_laws] r] still_idle ready_to_wait r by simp
qed

lemma still_run: "\<exists>s' t. run_state (BootCountdownWait still_services ready_countdown) (0, 0) = ((EFI_SUCCESS, s'), t) \<and> cd_ContinueSelected s'"
proof -
  have d: "run_state (DurableLine still_services label) w = (EFI_SUCCESS, w)" for label w by (simp add: DurableLine_def still_services_def)
  obtain t where "run_state (CountdownSeconds 5 still_services) (0, 0) = (None, t)"
  proof -
    obtain r t where r: "run_state (CountdownSeconds 5 still_services) (0, 0) = (r, t)" by (metis prod.exhaust)
    show ?thesis using wp_run [OF CountdownSeconds_time [OF still_laws] r] still_idle r that by (simp add: waited_def)
  qed
  then show ?thesis by (simp add: BootCountdownWait_def d ready_countdown_def BootCountdownPrepare_def)
qed

theorem Countdown_committed_witness:
  "\<exists>s. attempt still_services Finished s \<and> cd_ContinueSelected s \<and> \<not> fst (BootCountdownRequestEdit s)"
proof -
  obtain s' t where r: "run_state (BootCountdownWait still_services ready_countdown) (0, 0) = ((EFI_SUCCESS, s'), t)" "cd_ContinueSelected s'"
    using still_run by blast
  have "attempt still_services Preparing ready_countdown" unfolding ready_countdown_def by (rule attempt.prepare)
  from attempt.wait [OF this r(1)] have w: "attempt still_services Waited s'" .
  have f: "run_state (BootCountdownFinish still_services EFI_NOT_FOUND EFI_SUCCESS s') t =
      ((EFI_NOT_FOUND, s'\<lparr>cd_CleanReturn := False, cd_Action := NoAction\<rparr>), t)"
    using r(2) by (simp add: BootCountdownFinish_def still_services_def)
  from attempt.finish [OF w _ f] have "attempt still_services Finished (s'\<lparr>cd_CleanReturn := False, cd_Action := NoAction\<rparr>)" by simp
  moreover from Countdown_committed [OF this] r(2) have "\<not> fst (BootCountdownRequestEdit (s'\<lparr>cd_CleanReturn := False, cd_Action := NoAction\<rparr>))" by simp
  ultimately show ?thesis using r(2) by (intro exI conjI) auto
qed

end
