(* ===== verification/Spec2Isabelle.thy ===== *)
theory Spec2Isabelle
  imports Probe_Config Config_Edit Rom_Placement Legacy_Rom_Guard Legacy_Storage_Rom Legacy_Firmware_Disk Rom_Preflight Config_Save Journal_Run Sha256 Plan_Ready Boot_Countdown
begin

text \<open>
  \<^bold>\<open>Native CSM VGA Selector: a verification development\<close>

  The program is a UEFI application that hands legacy VGA over to a second display controller and then boots a legacy disk through the
  firmware's compatibility module (CSM). All of it is C under \<open>NativeCsmVgaSelectorPkg/Application/\<close>; file names below are relative to
  that directory.

  \<^bold>\<open>How the program works.\<close> The application reads \<open>Config.ini\<close> next to its executable (\<open>ConfigFile.c\<close>, \<open>ConfigRecovery.c\<close>,
  \<open>ProbeConfig.c\<close>) and parses it strictly (\<open>CandidateIni.c\<close>). Without a configuration it probes the machine, ranks the display
  and storage candidates and writes a generated file; a later edit of the three targets rewrites that file in place (\<open>ConfigEdit.c\<close>).
  In boot mode \<open>RuntimePlan.c\<close> builds a plan by reading only: the endpoints and the bridge paths (\<open>PciEnumerate.c\<close>), the option
  ROM of the target (\<open>OptionRom.c\<close>), the preflight over the ROM area (\<open>LegacyRomGuard.c\<close>, \<open>RomPlacement.c\<close>), the BIOS entry table,
  the boot target among the rows of the live BBS table (\<open>LegacyBootTarget.c\<close> with \<open>LegacyStorageRom.c\<close> and
  \<open>LegacyFirmwareDisk.c\<close>) and the memory map (\<open>MemoryMap.c\<close>). The driver \<open>NativeCsmVgaBoot.c\<close> then counts down
  (\<open>BootCountdown.c\<close>), moves VGA forwarding from bridge to bridge, dispatches the ROM (\<open>LegacyDispatch.c\<close>), journals the BBS
  table, changes its priorities in a transaction and starts the legacy boot.

  \<^bold>\<open>Theories, in the order of their dependencies.\<close>
  \<^item> Shared: \<open>Ncv_Prelude\<close> (bytes, words, C strings, error results), \<open>Efi_Base\<close> (status codes), \<open>Firmware_Monad\<close> (programs
    over an arbitrary world, weakest preconditions and their rules), \<open>Rom_View\<close> (bounded views of memory; its locale \<open>range_check\<close>
    is what every range test of the ROM modules promises), \<open>Console_Input\<close> (keyboard and timer).
  \<^item> Configuration text: \<open>Candidate_Text\<close> (the text builder \<open>NCV_TEXT\<close>; locale \<open>byte_sink\<close>), \<open>Candidate_Rank\<close>
    (collections and ranking; locales \<open>bounded_collection\<close> and \<open>best_scan\<close>, each interpreted for displays and for disks),
    \<open>Config_Parser\<close> and \<open>Config_Lines\<close> (\<open>NcvParseConfigStrict\<close> by bytes and by lines), \<open>Candidate_Format\<close>, \<open>Marker_Config\<close>
    (\<open>MarkerConfig.h\<close>), \<open>Config_Edit\<close>, \<open>Probe_Config\<close>.
  \<^item> Configuration files: \<open>App_File\<close>, \<open>File_Laws\<close> (what the file protocol documents), \<open>Ram_Disk\<close> (a directory in memory that
    satisfies it), \<open>Config_File\<close>, \<open>Config_Recovery\<close>, \<open>Config_Save\<close>.
  \<^item> ROMs and memory: \<open>Option_Rom\<close>, \<open>Rom_Placement\<close>, \<open>Memory_Map\<close>, \<open>Pci_Identity\<close>, \<open>Legacy_Rom_Guard\<close>, \<open>Rom_Preflight\<close>,
    \<open>Legacy_Storage_Rom\<close>, \<open>Legacy_Firmware_Disk\<close>.
  \<^item> Boot target (\<open>LegacyBootTarget.c\<close>, \<open>LegacyBootPolicy.inc\<close>, \<open>LegacyBootOrder.inc\<close>): \<open>Bbs_Table\<close> (rows as bytes, CRC-32),
    \<open>Boot_Policy\<close>, \<open>Boot_Services\<close>, \<open>Dev_Order\<close>, \<open>Priority_Plan\<close>, \<open>Bbs_Strings\<close>, \<open>Boot_Option\<close>, \<open>Bbs_Journal\<close>,
    \<open>Bbs_Transaction\<close>; the results about them in \<open>Bbs_Restore\<close>, \<open>Bbs_Ready\<close> and \<open>Bbs_Discovery\<close>; the machine on which the
    witnesses run in \<open>Ram_Boot\<close>, \<open>Boot_Run\<close> and \<open>Journal_Run\<close>.
  \<^item> Plan and driver: \<open>Plan_State\<close> (\<open>RuntimePlan.h\<close> and the PCI services), \<open>Compat16\<close>, \<open>Pci_Path\<close>, \<open>Legacy_Dispatch\<close>,
    \<open>Runtime_Plan\<close>, with \<open>Plan_Quiet\<close> (building the plan writes nothing) and \<open>Plan_Ready\<close> (what a built plan guarantees);
    \<open>Route_Switch\<close> and \<open>Route_Laws\<close> (the VGA route of \<open>NativeCsmVgaBoot.c\<close>), \<open>Sha256\<close> (its digest), \<open>Boot_Countdown\<close>.

  \<^bold>\<open>How C is rendered.\<close> A structure is a record whose fields carry a short prefix (\<open>bt_\<close> for the boot-target context, \<open>rp_\<close> for the
  plan), an enumeration is a datatype, and module variables are a record that is passed along. Fixed-width integers are words, so
  additions wrap; \<open>UINTN\<close> and sizes are natural numbers with the 64-bit limits written out (\<open>MAX_UINTN\<close>). A pointer that the code
  compares with \<open>NULL\<close> is an option; an output pointer is a result. A routine that fails returns \<open>Inl\<close> of its status, or the
  status next to its other results where the code goes on to use them. Texts of files are lists of characters, UCS-2 strings are
  lists of 16-bit words, and ROM images, the shadow copy and physical memory are functions from addresses to bytes. Firmware
  services are records of operations over an arbitrary world, so that any call may change what a later call returns. Log lines are
  kept as their first words only, since a failing log call is a branch of the program; console output is left out.

  \<^bold>\<open>Documented behaviour.\<close> What the properties rely on is stated by predicates over the service records, each with an instance at
  which the witnesses evaluate: \<open>file_laws\<close> (files; \<open>Ram_Disk\<close>), \<open>table_laws\<close> (a table that behaves like memory, and services that
  leave it alone: \<open>quiet\<close>; \<open>Boot_Run\<close>), \<open>pci_laws\<close> (configuration space; \<open>ram_pci\<close> in \<open>Route_Laws\<close>), \<open>clock_laws\<close> (a stall that
  lasts at least as long as it was asked to and a clock that never goes back; \<open>still_services\<close>, whose timer is slow). \<open>keeps f m\<close> says that the program \<open>m\<close> leaves the observation \<open>f\<close> of the world alone.

  \<^bold>\<open>What is shown.\<close>
  \<^item> Configuration: an accepted file means what the assignments in its lines say, repeats none of them and satisfies every
    structural invariant; a generated file is accepted and names exactly the selected hardware; an edit works line by line and
    copies every line that assigns no target; addresses and disk descriptions round-trip; the ranking
    selects the first best candidate and never an ambiguous disk.
  \<^item> Files: a replacement, an edit, a recovery or a fresh start loses no usable configuration, wherever the firmware fails,
    and a recovery changes no file without the key that confirms it.
  \<^item> ROMs and memory: an accepted ROM is a well-formed chain with an exact extent; a range is accessible exactly if one permitting
    descriptor covers each byte, and the accessible count is exact; the guard passes exactly if the planned copy overwrites nothing in use.
  \<^item> Boot target: the plan is a stable sort with the selected disk first; the device order names the rows of valid priority
    exactly once; the journal starts a transaction whose writes and rollback are all or nothing; checksums detect local changes.
  \<^item> Plan and driver: a finished plan is well formed, holds the ROM slice that the parser reported and agrees with the dispatch table; bridge paths are exactly the ancestries; a
    successful route transfer changes exactly the requested bits and its rollback restores the rest; the digest is SHA-256; the
    countdown asks for at most five seconds of delays, proceeds only when they have passed, and then grants no request.

  \<^bold>\<open>Bounds and fuel.\<close> Loops over an array are recursion over its list, so they need no fuel. \<open>CaptureLoop\<close> of \<open>Memory_Map\<close>
  takes the four attempts of the source, the access scan ends because each round advances by at least one byte (its measure is the
  number of bytes left), and the two waits of \<open>Boot_Countdown\<close> are five times twenty ticks. A PnP chain is followed until an offset
  repeats, as in the source, and a string for at most its capacity. Only the keyboard loops of \<open>Console_Input\<close> and
  \<open>Config_Recovery\<close>, which wait for a person, take a number of keys and polls as an argument; the properties hold for every number.

  \<^bold>\<open>What is not modelled.\<close> The construction of the PCI inventory and the printing of registers (firmware enumeration; the inventory is an
  argument), the recovery and selection menus and the name database (interaction and display), the logger and reports (output), the
  probe report and the read-only BBS report, the marker hand-off, the main entry point, and the build, installer and
  test files. Output arrays that a failing routine leaves half written are not represented: every caller releases or zeroes them.
\<close>

end
